(* ===== verification/Prelude.thy ===== *)
theory Prelude
  imports Main "HOL-Library.Word" "HOL-Library.Multiset"
begin

unbundle bit_operations_syntax

text \<open>
  The vocabulary the components share: the machine integers of \<^verbatim>\<open>src/inc/arch.hpp\<close>, the
  ways a kernel or user routine can fail to return (\<^verbatim>\<open>AkariPanic\<close>, a failed \<^verbatim>\<open>ASSERT\<close>,
  the user-level \<^verbatim>\<open>panic\<close>, an access outside an object, a loop that does not end), the
  sequencing of fallible steps, and generic facts on words, lists and multisets.
\<close>

section \<open>Machine integers\<close>

type_synonym u8 = "8 word"
type_synonym u16 = "16 word"
type_synonym u32 = "32 word"

section \<open>Outcomes\<close>

text \<open>
  The sources are built with \<^verbatim>\<open>-DDEBUG\<close> (\<^verbatim>\<open>src/Makefile.inc\<close>), so every \<^verbatim>\<open>ASSERT\<close> is
  live and ends in \<^verbatim>\<open>AkariPanic\<close>, which never returns.
\<close>

datatype fault =
    KernelPanic string
  | UserPanic string
  | AssertFail string
  | OutOfBounds
  | NullDeref
  | DivideError
  | Diverges

type_synonym 'a result = "fault + 'a"

definition rbind :: "'a result \<Rightarrow> ('a \<Rightarrow> 'b result) \<Rightarrow> 'b result" where
  "rbind r f = (case r of Inl e \<Rightarrow> Inl e | Inr x \<Rightarrow> f x)"

definition assert_that :: "bool \<Rightarrow> string \<Rightarrow> unit result" where
  "assert_that b msg = (if b then Inr () else Inl (AssertFail msg))"

named_theorems result_simps \<open>rewriting of sequenced fallible steps\<close>

lemma rbind_Inl [simp, result_simps]: "rbind (Inl e) f = Inl e"
  by (simp add: rbind_def)

lemma rbind_Inr [simp, result_simps]: "rbind (Inr x) f = f x"
  by (simp add: rbind_def)

lemma rbind_cong [fundef_cong]:
  "r = r' \<Longrightarrow> (\<And>x. r' = Inr x \<Longrightarrow> f x = g x) \<Longrightarrow> rbind r f = rbind r' g"
  by (cases r') simp_all

lemma rbind_eq_Inr [result_simps]:
  "rbind r f = Inr y \<longleftrightarrow> (\<exists>x. r = Inr x \<and> f x = Inr y)"
  by (cases r) simp_all

lemma rbind_InrE:
  assumes "rbind r f = Inr y"
  obtains x where "r = Inr x" and "f x = Inr y"
  using assms by (auto simp: rbind_eq_Inr)

lemma rbind_assoc: "rbind (rbind r f) g = rbind r (\<lambda>x. rbind (f x) g)"
  by (cases r) simp_all

lemma rbind_if: "rbind (if b then r else s) f = (if b then rbind r f else rbind s f)"
  by simp

lemma assert_that_True [simp]: "assert_that True msg = Inr ()"
  by (simp add: assert_that_def)

lemma assert_that_eq_Inr [simp, result_simps]: "assert_that b msg = Inr u \<longleftrightarrow> b"
  by (simp add: assert_that_def)

section \<open>Words read as natural numbers\<close>

lemma unat_lt_u32 [simp]: "unat (x :: u32) < 4294967296"
proof -
  have "unat x < 2 ^ LENGTH(32)" by (rule unsigned_less)
  then show ?thesis by simp
qed

lemma unat_add_nowrap:
  fixes x y :: u32
  shows "unat x + unat y < 4294967296 \<Longrightarrow> unat (x + y) = unat x + unat y"
  by (simp add: unat_word_ariths)

lemma unat_add_wrap:
  fixes x y :: u32
  assumes "4294967296 \<le> unat x + unat y"
  shows "unat (x + y) = unat x + unat y - 4294967296"
proof -
  have "unat x + unat y - 4294967296 < 4294967296"
    using unat_lt_u32 [of x] unat_lt_u32 [of y] by linarith
  then have "(unat x + unat y) mod 4294967296 = unat x + unat y - 4294967296"
    using assms by (simp only: le_mod_geq mod_less)
  then show ?thesis by (simp add: unat_word_ariths)
qed

lemma unat_sub_nowrap:
  fixes x y :: u32
  shows "unat y \<le> unat x \<Longrightarrow> unat (x - y) = unat x - unat y"
  by (simp add: unat_sub word_le_nat_alt)

lemma word_eq_unat: "(x = y) \<longleftrightarrow> unat x = unat (y :: 'a::len word)"
  by (simp add: word_unat_eq_iff)

lemma low12: "(a :: u32) AND 0xFFF = take_bit 12 a"
proof -
  have "(0xFFF :: u32) = mask 12" by (simp add: mask_eq_exp_minus_1)
  then show ?thesis by (simp add: take_bit_eq_mask)
qed

lemma low12_mod: "unat ((a :: u32) AND 0xFFF) = unat a mod 4096"
  by (simp add: low12 take_bit_eq_mod unat_mod)

lemma page_split: "(a :: u32) AND NOT 0xFFF = a - (a AND 0xFFF)"
proof -
  have "(a AND NOT 0xFFF) + (a AND 0xFFF) = (a AND NOT 0xFFF) OR (a AND 0xFFF)"
    by (rule disjunctive_add) (auto simp: bit_simps)
  also have "\<dots> = a" by (rule bit_eqI) (auto simp: bit_simps)
  finally show ?thesis by (simp add: eq_diff_eq)
qed

lemma sint_unat:
  assumes "unat (x :: u32) < 2147483648"
  shows "sint x = int (unat x)"
proof -
  define n where "n = unat x"
  have u: "uint x = int n" by (simp add: n_def)
  have "signed_take_bit 31 (int n) = int n"
    using assms by (intro signed_take_bit_int_eq_self) (simp_all add: n_def [symmetric])
  with u show ?thesis by (simp add: sint_uint n_def)
qed

lemma sint_neg:
  assumes "2147483648 \<le> unat (x :: u32)"
  shows "sint x = int (unat x) - 4294967296"
proof -
  define n where "n = unat x"
  have u: "uint x = int n" by (simp add: n_def)
  have "(int n + 2147483648) mod 4294967296 = (int n + 2147483648 - 4294967296) mod 4294967296"
    by (simp only: minus_mod_self2)
  also have "\<dots> = int n - 2147483648"
    using assms unat_lt_u32 [of x] by (subst mod_pos_pos_trivial) (simp_all add: n_def [symmetric])
  finally have "take_bit 32 (int n + 2147483648) = int n - 2147483648"
    by (simp add: take_bit_eq_mod)
  then show ?thesis
    by (simp add: sint_uint signed_take_bit_eq_take_bit_shift u n_def [symmetric])
qed

section \<open>Multisets of list contents\<close>

lemma mset_remove_nth:
  "i < length xs \<Longrightarrow> mset (take i xs @ drop (Suc i) xs) = mset xs - {#xs ! i#}"
proof -
  assume i: "i < length xs"
  have "mset xs = mset (take i xs @ xs ! i # drop (Suc i) xs)"
    using i by (simp only: id_take_nth_drop [symmetric])
  then show ?thesis by simp
qed

lemma mset_nth_add:
  "i < length xs \<Longrightarrow> mset xs = add_mset (xs ! i) (mset (take i xs @ drop (Suc i) xs))"
  by (metis add_mset_remove_trivial_If diff_single_trivial mset_remove_nth nth_mem set_mset_mset
      insert_DiffM)

lemma mset_list_update:
  "i < length xs \<Longrightarrow> mset (xs[i := x]) = add_mset x (mset xs - {#xs ! i#})"
  by (simp add: mset_update)

lemma nth_mem_others:
  assumes "i < length xs" and "j < length xs" and "i \<noteq> j"
  shows "xs ! j \<in># mset xs - {#xs ! i#}"
proof -
  have "xs ! j \<in> set (take i xs @ drop (Suc i) xs)"
  proof (cases "j < i")
    case True
    then have "take i xs ! j = xs ! j" and "j < length (take i xs)" using assms by simp_all
    then show ?thesis by (metis Un_iff nth_mem set_append)
  next
    case False
    then have "drop (Suc i) xs ! (j - Suc i) = xs ! j" and "j - Suc i < length (drop (Suc i) xs)"
      using assms by simp_all
    then show ?thesis by (metis Un_iff nth_mem set_append)
  qed
  then show ?thesis using assms by (simp add: mset_remove_nth [symmetric] del: mset_append)
qed

text \<open>Two positions of a list, and the list after one is overwritten and the other removed.\<close>

lemma mset_two_positions:
  assumes "i < length xs" and "j < length xs" and "i \<noteq> j"
  obtains N where "mset xs = add_mset (xs ! i) (add_mset (xs ! j) N)"
    and "\<And>y. mset (xs[j := y]) - {#xs ! i#} = add_mset y N"
proof
  let ?N = "mset xs - {#xs ! i#} - {#xs ! j#}"
  have i: "xs ! i \<in># mset xs" using assms by simp
  have j: "xs ! j \<in># mset xs - {#xs ! i#}" by (rule nth_mem_others [OF assms])
  show two: "mset xs = add_mset (xs ! i) (add_mset (xs ! j) ?N)"
    by (simp only: insert_DiffM [OF i] insert_DiffM [OF j])
  show "mset (xs[j := y]) - {#xs ! i#} = add_mset y ?N" for y
  proof -
    have "mset (xs[j := y]) = add_mset y (mset xs - {#xs ! j#})"
      using assms by (simp add: mset_list_update)
    also have "mset xs - {#xs ! j#} = add_mset (xs ! i) ?N"
      by (subst two) simp
    finally show ?thesis by simp
  qed
qed

lemma mset_insert_by_while:
  "mset (takeWhile P xs @ x # dropWhile P xs) = add_mset x (mset xs)"
proof -
  have "mset (takeWhile P xs) + mset (dropWhile P xs) = mset xs"
    by (simp only: mset_append [symmetric] takeWhile_dropWhile_id)
  then show ?thesis by simp
qed

lemma find_append: "find P (xs @ ys) = (case find P xs of Some x \<Rightarrow> Some x | None \<Rightarrow> find P ys)"
  by (induction xs) simp_all

section \<open>Loops over a list\<close>

fun for_each :: "('a \<Rightarrow> 's \<Rightarrow> 's result) \<Rightarrow> 'a list \<Rightarrow> 's \<Rightarrow> 's result" where
  "for_each f [] s = Inr s"
| "for_each f (x # xs) s = rbind (f x s) (\<lambda>s'. for_each f xs s')"

lemma for_each_append: "for_each f (xs @ ys) s = rbind (for_each f xs s) (for_each f ys)"
  by (induction xs arbitrary: s) (auto simp: rbind_assoc intro!: rbind_cong)

end
