(* ===== verification/OrderedArray.thy ===== *)
theory OrderedArray
  imports Prelude
begin

text \<open>
  \<^verbatim>\<open>src/inc/OrderedArray.hpp\<close>: the array of items sorted at insertion that indexes a heap.
  The storage is a C array handed over by the owner, so a cell is addressable whether or not
  it is below \<open>_size\<close>: the cells are a function on all indices, \<open>oa_size\<close> says how many are
  in use, and the list of used cells is the abstraction. Counts are natural numbers: the array
  lies inside a 32-bit address space, and the one place where \<open>_size\<close> could wrap
  (\<open>--_size\<close> at 0) is written out.
\<close>

record 'a ordered_array =
  oa_cells :: "nat \<Rightarrow> 'a"
  oa_size :: nat
  oa_maxSize :: nat

definition oa_list :: "'a ordered_array \<Rightarrow> 'a list" where
  "oa_list a = map (oa_cells a) [0..<oa_size a]"

definition oa_new :: "u32 \<Rightarrow> nat \<Rightarrow> 'a \<Rightarrow> (nat \<Rightarrow> 'a) \<Rightarrow> 'a ordered_array result" where
  "oa_new array maxSize zero memory =
     rbind (assert_that (array \<noteq> 0) ''array'') (\<lambda>_.
     rbind (assert_that (maxSize \<noteq> 0) ''maxSize'') (\<lambda>_.
     Inr \<lparr>oa_cells = (\<lambda>i. if i < maxSize then zero else memory i),
          oa_size = 0, oa_maxSize = maxSize\<rparr>))"

definition oa_get :: "'a ordered_array \<Rightarrow> nat \<Rightarrow> 'a result" where
  "oa_get a index =
     rbind (assert_that (index < oa_size a) ''index < _size'') (\<lambda>_. Inr (oa_cells a index))"

definition oa_set :: "'a ordered_array \<Rightarrow> nat \<Rightarrow> 'a \<Rightarrow> 'a ordered_array result" where
  "oa_set a index x =
     rbind (assert_that (index < oa_size a) ''index < _size'') (\<lambda>_.
     Inr (a\<lparr>oa_cells := (oa_cells a)(index := x)\<rparr>))"

text \<open>The first loop of \<open>insert\<close>: step over the items that are less than the new one.\<close>

function oa_find :: "('a \<Rightarrow> 'a \<Rightarrow> bool) \<Rightarrow> (nat \<Rightarrow> 'a) \<Rightarrow> nat \<Rightarrow> 'a \<Rightarrow> nat \<Rightarrow> nat" where
  "oa_find lt cells sz item it =
     (if it < sz \<and> lt (cells it) item then oa_find lt cells sz item (Suc it) else it)"
  by pat_completeness auto
termination
  by (relation "measure (\<lambda>(l, c, sz, x, it). sz - it)") auto

text \<open>The second loop: push every later item one cell up, through the variable \<open>save\<close>.\<close>

function oa_shift :: "(nat \<Rightarrow> 'a) \<Rightarrow> nat \<Rightarrow> nat \<Rightarrow> 'a \<Rightarrow> (nat \<Rightarrow> 'a)" where
  "oa_shift cells sz it save =
     (if it < sz then oa_shift (cells(Suc it := save)) sz (Suc it) (cells (Suc it)) else cells)"
  by pat_completeness auto
termination
  by (relation "measure (\<lambda>(c, sz, it, s). sz - it)") auto

definition oa_insert ::
  "('a \<Rightarrow> 'a \<Rightarrow> bool) \<Rightarrow> 'a \<Rightarrow> 'a ordered_array \<Rightarrow> 'a ordered_array result" where
  "oa_insert lt item a =
     rbind (assert_that (oa_size a < oa_maxSize a) ''_size < _maxSize'') (\<lambda>_.
     let it = oa_find lt (oa_cells a) (oa_size a) item 0 in
     if it = oa_size a
     then Inr (a\<lparr>oa_cells := (oa_cells a)(oa_size a := item), oa_size := Suc (oa_size a)\<rparr>)
     else Inr (a\<lparr>oa_cells := oa_shift ((oa_cells a)(it := item)) (oa_size a) it (oa_cells a it),
                 oa_size := Suc (oa_size a)\<rparr>))"

text \<open>The loop of \<open>remove\<close>: pull every later cell one down, up to the cell after the last.\<close>

function oa_close :: "(nat \<Rightarrow> 'a) \<Rightarrow> nat \<Rightarrow> nat \<Rightarrow> (nat \<Rightarrow> 'a)" where
  "oa_close cells sz index =
     (if index < sz then oa_close (cells(index := cells (Suc index))) sz (Suc index) else cells)"
  by pat_completeness auto
termination
  by (relation "measure (\<lambda>(c, sz, i). sz - i)") auto

definition oa_remove :: "nat \<Rightarrow> 'a ordered_array \<Rightarrow> 'a ordered_array" where
  "oa_remove index a =
     a\<lparr>oa_cells := oa_close (oa_cells a) (oa_size a) index,
       oa_size := (if oa_size a = 0 then 2 ^ 32 - 1 else oa_size a - 1)\<rparr>"

declare oa_find.simps [simp del] oa_shift.simps [simp del] oa_close.simps [simp del]

section \<open>What the loops compute\<close>

lemma length_oa_list [simp]: "length (oa_list a) = oa_size a"
  by (simp add: oa_list_def)

lemma nth_oa_list [simp]: "i < oa_size a \<Longrightarrow> oa_list a ! i = oa_cells a i"
  by (simp add: oa_list_def)

lemma oa_find_takeWhile:
  "it \<le> sz \<Longrightarrow> oa_find lt cells sz item it
     = it + length (takeWhile (\<lambda>y. lt y item) (map cells [it..<sz]))"
proof (induction lt cells sz item it rule: oa_find.induct)
  case (1 lt cells sz item it)
  show ?case
  proof (cases "it < sz")
    case True
    then have "[it..<sz] = it # [Suc it..<sz]" by (rule upt_conv_Cons)
    with True 1 show ?thesis
      by (cases "lt (cells it) item") (simp_all add: oa_find.simps [of lt cells sz item it])
  next
    case False
    then show ?thesis using "1.prems" by (subst oa_find.simps) simp
  qed
qed

lemma oa_shift_cells:
  "it \<le> sz \<Longrightarrow> oa_shift cells sz it save =
     (\<lambda>i. if i = Suc it \<and> it < sz then save
          else if Suc it < i \<and> i \<le> sz then cells (i - 1) else cells i)"
proof (induction cells sz it save rule: oa_shift.induct)
  case (1 cells sz it save)
  show ?case
  proof (cases "it < sz")
    case True
    then have "oa_shift cells sz it save
        = oa_shift (cells(Suc it := save)) sz (Suc it) (cells (Suc it))"
      by (subst oa_shift.simps) simp
    also have "\<dots> = (\<lambda>i. if i = Suc (Suc it) \<and> Suc it < sz then cells (Suc it)
        else if Suc (Suc it) < i \<and> i \<le> sz then (cells(Suc it := save)) (i - 1)
        else (cells(Suc it := save)) i)"
      using True by (intro "1.IH") simp_all
    finally show ?thesis using True by (auto intro!: ext)
  next
    case False
    then show ?thesis using "1.prems" by (subst oa_shift.simps) (auto simp: fun_eq_iff)
  qed
qed

lemma oa_close_cells:
  "oa_close cells sz index = (\<lambda>i. if index \<le> i \<and> i < sz then cells (Suc i) else cells i)"
proof (induction cells sz index rule: oa_close.induct)
  case (1 cells sz index)
  show ?case
  proof (cases "index < sz")
    case True
    then have "oa_close cells sz index
        = oa_close (cells(index := cells (Suc index))) sz (Suc index)"
      by (subst oa_close.simps) simp
    also have "\<dots> = (\<lambda>i. if Suc index \<le> i \<and> i < sz then (cells(index := cells (Suc index))) (Suc i)
        else (cells(index := cells (Suc index))) i)"
      using True by (intro "1.IH") simp_all
    finally show ?thesis using True by (auto intro!: ext)
  next
    case False
    then show ?thesis by (subst oa_close.simps) (auto simp: fun_eq_iff)
  qed
qed

section \<open>The contract of an indexed store\<close>

text \<open>
  What the heap relies on: positional reads and writes, insertion before the first item that
  is not less, removal by position, and a fixed capacity.
\<close>

locale indexed_store =
  fixes lst :: "'s \<Rightarrow> 'a list"
    and cap :: "'s \<Rightarrow> nat"
    and get :: "'s \<Rightarrow> nat \<Rightarrow> 'a result"
    and put :: "'s \<Rightarrow> nat \<Rightarrow> 'a \<Rightarrow> 's result"
    and ins :: "'a \<Rightarrow> 's \<Rightarrow> 's result"
    and rem :: "nat \<Rightarrow> 's \<Rightarrow> 's"
    and less :: "'a \<Rightarrow> 'a \<Rightarrow> bool"
  assumes get_ok: "get s i = Inr x \<longleftrightarrow> i < length (lst s) \<and> x = lst s ! i"
    and put_ok: "put s i x = Inr s' \<Longrightarrow>
          i < length (lst s) \<and> lst s' = (lst s)[i := x] \<and> cap s' = cap s"
    and put_total: "i < length (lst s) \<Longrightarrow> \<exists>s'. put s i x = Inr s'"
    and ins_ok: "ins x s = Inr s' \<Longrightarrow> length (lst s) < cap s \<and> cap s' = cap s \<and>
          lst s' = takeWhile (\<lambda>y. less y x) (lst s) @ x # dropWhile (\<lambda>y. less y x) (lst s)"
    and ins_total: "length (lst s) < cap s \<Longrightarrow> \<exists>s'. ins x s = Inr s'"
    and rem_ok: "i < length (lst s) \<Longrightarrow>
          lst (rem i s) = take i (lst s) @ drop (Suc i) (lst s) \<and> cap (rem i s) = cap s"
begin

lemma mset_ins: "ins x s = Inr s' \<Longrightarrow> mset (lst s') = add_mset x (mset (lst s))"
  using ins_ok [of x s s'] mset_insert_by_while [of "\<lambda>y. less y x" "lst s" x] by simp

lemma cap_ins: "ins x s = Inr s' \<Longrightarrow> cap s' = cap s"
  using ins_ok by blast

lemma length_ins: "ins x s = Inr s' \<Longrightarrow> length (lst s') = Suc (length (lst s))"
  using mset_ins [of x s s'] by (metis size_add_mset size_mset)

lemma mset_rem: "i < length (lst s) \<Longrightarrow> mset (lst (rem i s)) = mset (lst s) - {#lst s ! i#}"
  using rem_ok [of i s] mset_remove_nth [of i "lst s"] by simp

lemma mset_rem_add: "i < length (lst s) \<Longrightarrow> add_mset (lst s ! i) (mset (lst (rem i s))) = mset (lst s)"
  by (simp add: mset_rem)

lemma cap_rem: "i < length (lst s) \<Longrightarrow> cap (rem i s) = cap s"
  using rem_ok by blast

lemma length_rem: "i < length (lst s) \<Longrightarrow> length (lst (rem i s)) = length (lst s) - 1"
  using rem_ok [of i s] by simp

lemma mset_put:
  "put s i x = Inr s' \<Longrightarrow> mset (lst s') = add_mset x (mset (lst s) - {#lst s ! i#})"
  using put_ok [of s i x s'] by (simp add: mset_list_update)

lemma put_nth: "put s i x = Inr s' \<Longrightarrow> lst s' ! i = x"
  using put_ok [of s i x s'] by simp

lemma put_nth_other: "put s i x = Inr s' \<Longrightarrow> j \<noteq> i \<Longrightarrow> lst s' ! j = lst s ! j"
  using put_ok [of s i x s'] by simp

lemma length_put: "put s i x = Inr s' \<Longrightarrow> length (lst s') = length (lst s)"
  using put_ok [of s i x s'] by simp

end

text \<open>
  With a strict weak order, insertion keeps the items sorted, removal does too, and a search
  from the front meets a least item with an upward closed property first.
\<close>

locale sorted_store = indexed_store lst cap get put ins rem less
  for lst :: "'s \<Rightarrow> 'a list"
    and cap :: "'s \<Rightarrow> nat"
    and get :: "'s \<Rightarrow> nat \<Rightarrow> 'a result"
    and put :: "'s \<Rightarrow> nat \<Rightarrow> 'a \<Rightarrow> 's result"
    and ins :: "'a \<Rightarrow> 's \<Rightarrow> 's result"
    and rem :: "nat \<Rightarrow> 's \<Rightarrow> 's"
    and less :: "'a \<Rightarrow> 'a \<Rightarrow> bool" +
  assumes less_asym: "less x y \<Longrightarrow> \<not> less y x"
    and less_neg_trans: "\<not> less x y \<Longrightarrow> \<not> less y z \<Longrightarrow> \<not> less x z"
begin

lemma sorted_insertion:
  "sorted_wrt (\<lambda>a b. \<not> less b a) xs \<Longrightarrow>
     sorted_wrt (\<lambda>a b. \<not> less b a) (takeWhile (\<lambda>y. less y x) xs @ x # dropWhile (\<lambda>y. less y x) xs)"
proof (induction xs)
  case (Cons a xs)
  show ?case
  proof (cases "less a x")
    case True
    have "set (takeWhile (\<lambda>y. less y x) xs @ x # dropWhile (\<lambda>y. less y x) xs) = insert x (set xs)"
      by (metis mset_insert_by_while set_mset_add_mset_insert set_mset_mset)
    then have "\<forall>b \<in> set (takeWhile (\<lambda>y. less y x) xs @ x # dropWhile (\<lambda>y. less y x) xs). \<not> less b a"
      using Cons.prems less_asym [OF True] by auto
    with Cons True show ?thesis by simp
  next
    case False
    with Cons.prems less_neg_trans show ?thesis by auto
  qed
qed simp

lemma sorted_ins:
  assumes "sorted_wrt (\<lambda>a b. \<not> less b a) (lst s)" and "ins x s = Inr s'"
  shows "sorted_wrt (\<lambda>a b. \<not> less b a) (lst s')"
  using sorted_insertion [OF assms(1)] ins_ok [OF assms(2)] by simp

lemma sorted_rem:
  assumes "sorted_wrt (\<lambda>a b. \<not> less b a) (lst s)" and "i < length (lst s)"
  shows "sorted_wrt (\<lambda>a b. \<not> less b a) (lst (rem i s))"
proof -
  have "sorted_wrt (\<lambda>a b. \<not> less b a) (take i (lst s) @ lst s ! i # drop (Suc i) (lst s))"
    using assms by (simp add: id_take_nth_drop [symmetric])
  then show ?thesis using rem_ok [OF assms(2)] by (simp add: sorted_wrt_append)
qed

lemma first_is_least:
  assumes "sorted_wrt (\<lambda>a b. \<not> less b a) (lst s)" and "i < length (lst s)"
    and "\<forall>j < i. \<not> P (lst s ! j)" and "x \<in> set (lst s)" and "P x"
  shows "x = lst s ! i \<or> \<not> less x (lst s ! i)"
proof -
  from assms(4) obtain j where j: "j < length (lst s)" "x = lst s ! j" by (auto simp: in_set_conv_nth)
  with assms(3,5) have "\<not> j < i" by blast
  with j assms(1,2) show ?thesis
    using sorted_wrt_nth_less [OF assms(1), of i j] by (cases "j = i") auto
qed

end

lemma oa_insert_list:
  assumes "oa_insert lt x a = Inr a'"
  shows "oa_list a' = takeWhile (\<lambda>y. lt y x) (oa_list a) @ x # dropWhile (\<lambda>y. lt y x) (oa_list a)"
    (is "_ = takeWhile ?P ?xs @ _ # _")
proof -
  define k where "k = length (takeWhile ?P ?xs)"
  have find: "oa_find lt (oa_cells a) (oa_size a) x 0 = k"
    by (simp add: oa_find_takeWhile k_def oa_list_def)
  have k: "k \<le> oa_size a"
    using length_takeWhile_le [of ?P ?xs] by (simp add: k_def)
  have tk: "takeWhile ?P ?xs = take k ?xs" and dr: "dropWhile ?P ?xs = drop k ?xs"
    unfolding k_def by (rule takeWhile_eq_take, rule dropWhile_eq_drop)
  have shift: "oa_shift ((oa_cells a)(k := x)) (oa_size a) k (oa_cells a k)
      = (\<lambda>i. if i = Suc k \<and> k < oa_size a then oa_cells a k
           else if Suc k < i \<and> i \<le> oa_size a then ((oa_cells a)(k := x)) (i - 1)
           else ((oa_cells a)(k := x)) i)"
    using k by (rule oa_shift_cells)
  have full: "oa_size a < oa_maxSize a"
    using assms by (simp add: oa_insert_def result_simps)
  have "a' = a\<lparr>oa_cells := (if k = oa_size a then (oa_cells a)(k := x)
      else oa_shift ((oa_cells a)(k := x)) (oa_size a) k (oa_cells a k)), oa_size := Suc (oa_size a)\<rparr>"
    using assms full by (simp add: oa_insert_def find split: if_splits)
  then have a': "oa_size a' = Suc (oa_size a)"
    "\<And>i. oa_cells a' i = (if i = k then x else if k < i \<and> i \<le> oa_size a then oa_cells a (i - 1)
       else oa_cells a i)"
    using k by (auto simp: shift)
  have "oa_list a' ! i = (take k ?xs @ x # drop k ?xs) ! i" if "i < Suc (oa_size a)" for i
  proof (cases i k rule: linorder_cases)
    case less
    then show ?thesis using k that by (simp add: nth_append a')
  next
    case equal
    then show ?thesis using k that by (simp add: nth_append a')
  next
    case greater
    then obtain j where j: "i = Suc j" "k \<le> j" by (cases i) auto
    then have "(take k ?xs @ x # drop k ?xs) ! i = ?xs ! j"
      using k that by (simp add: nth_append Suc_diff_le)
    then show ?thesis using j greater that by (simp add: a')
  qed
  then have "oa_list a' = take k ?xs @ x # drop k ?xs"
    using k by (intro nth_equalityI) (simp_all add: a')
  then show ?thesis by (simp only: tk dr)
qed

lemma oa_remove_list:
  assumes "i < oa_size a"
  shows "oa_list (oa_remove i a) = take i (oa_list a) @ drop (Suc i) (oa_list a)"
  using assms
  by (intro nth_equalityI) (auto simp: oa_remove_def oa_close_cells nth_append oa_list_def)

interpretation oa: indexed_store oa_list oa_maxSize oa_get oa_set "oa_insert lt" oa_remove lt
  for lt :: "'a \<Rightarrow> 'a \<Rightarrow> bool"
proof unfold_locales
  fix a a' :: "'a ordered_array" and i :: nat and x :: 'a
  show "oa_get a i = Inr x \<longleftrightarrow> i < length (oa_list a) \<and> x = oa_list a ! i"
    by (auto simp: oa_get_def result_simps)
  show "oa_set a i x = Inr a' \<Longrightarrow>
      i < length (oa_list a) \<and> oa_list a' = (oa_list a)[i := x] \<and> oa_maxSize a' = oa_maxSize a"
    by (auto simp: oa_set_def result_simps nth_list_update intro!: nth_equalityI)
  show "i < length (oa_list a) \<Longrightarrow> \<exists>a'. oa_set a i x = Inr a'"
    by (simp add: oa_set_def)
  show "oa_insert lt x a = Inr a' \<Longrightarrow> length (oa_list a) < oa_maxSize a \<and>
      oa_maxSize a' = oa_maxSize a \<and>
      oa_list a' = takeWhile (\<lambda>y. lt y x) (oa_list a) @ x # dropWhile (\<lambda>y. lt y x) (oa_list a)"
    using oa_insert_list [of lt x a a']
    by (auto simp: oa_insert_def Let_def result_simps split: if_splits)
  show "length (oa_list a) < oa_maxSize a \<Longrightarrow> \<exists>a'. oa_insert lt x a = Inr a'"
    by (simp add: oa_insert_def Let_def)
  show "i < length (oa_list a) \<Longrightarrow>
      oa_list (oa_remove i a) = take i (oa_list a) @ drop (Suc i) (oa_list a) \<and>
      oa_maxSize (oa_remove i a) = oa_maxSize a"
    using oa_remove_list [of i a] by (simp add: oa_remove_def)
qed

end
