(* ===== verification/Heap.thy ===== *)
theory Heap
  imports OrderedArray
begin

text \<open>
  \<^verbatim>\<open>src/Heap.cpp\<close>, \<^verbatim>\<open>src/inc/Heap.hpp\<close>: the allocator behind the kernel heap and every process
  heap. Its only data structure is the index, an \<open>OrderedArray\<close> of entries (start, size, hole or
  data) kept at the start of the managed region. The state is the record \<open>heap\<close>; the operations
  are \<open>heap_new\<close>, \<open>heap_alloc\<close>, \<open>heap_allocAligned\<close> and \<open>heap_free\<close>. The \<^verbatim>\<open>-1\<close> that the index
  searches return is \<open>None\<close>.
\<close>

record entry =
  e_start :: u32
  e_size :: u32
  isHole :: bool

record heap =
  h_index :: "entry ordered_array"
  h_start :: u32
  h_end :: u32
  h_max :: u32
  h_used :: u32
  h_supervisor :: bool
  h_readonly :: bool

definition IndexSort :: "entry \<Rightarrow> entry \<Rightarrow> bool" where
  "IndexSort a b \<longleftrightarrow> e_size a < e_size b"

definition page_up :: "u32 \<Rightarrow> u32" where
  "page_up a = (a AND NOT 0xFFF) + 0x1000"

definition heap_new ::
  "u32 \<Rightarrow> u32 \<Rightarrow> u32 \<Rightarrow> u32 \<Rightarrow> bool \<Rightarrow> bool \<Rightarrow> (nat \<Rightarrow> entry) \<Rightarrow> heap result" where
  "heap_new start end maxAddr index_size supervisor readonly memory =
     rbind (oa_new start (unat index_size) \<lparr>e_start = 0, e_size = 0, isHole = False\<rparr> memory) (\<lambda>idx.
     rbind (assert_that (start mod 0x1000 = 0) ''start % 0x1000 == 0'') (\<lambda>_.
     rbind (assert_that (end mod 0x1000 = 0) ''end % 0x1000 == 0'') (\<lambda>_.
     rbind (assert_that (maxAddr mod 0x1000 = 0) ''max % 0x1000 == 0'') (\<lambda>_.
     let s1 = start + 12 * index_size;
         s2 = (if s1 AND 0xFFFF \<noteq> 0 then page_up s1 else s1) in
     rbind (oa_insert IndexSort \<lparr>e_start = s2, e_size = end - s2, isHole = True\<rparr> idx) (\<lambda>idx'.
     rbind (assert_that (s2 < end) ''start < end'') (\<lambda>_.
     Inr \<lparr>h_index = idx', h_start = start, h_end = end, h_max = maxAddr, h_used = s2 - start,
          h_supervisor = supervisor, h_readonly = readonly\<rparr>))))))"

section \<open>Searching the index\<close>

text \<open>The loop all four searches share: the first used cell at or after \<open>it\<close> that satisfies \<open>P\<close>.\<close>

function index_scan :: "(entry \<Rightarrow> bool) \<Rightarrow> entry ordered_array \<Rightarrow> nat \<Rightarrow> nat option" where
  "index_scan P idx it =
     (if it < oa_size idx
      then if P (oa_cells idx it) then Some it else index_scan P idx (Suc it)
      else None)"
  by pat_completeness auto
termination
  by (relation "measure (\<lambda>(P, idx, it). oa_size idx - it)") auto

declare index_scan.simps [simp del]

definition indexOfEntryStarting :: "entry ordered_array \<Rightarrow> u32 \<Rightarrow> nat option" where
  "indexOfEntryStarting idx start = index_scan (\<lambda>e. e_start e = start) idx 0"

definition indexOfEntryEnding :: "entry ordered_array \<Rightarrow> u32 \<Rightarrow> nat option" where
  "indexOfEntryEnding idx end = index_scan (\<lambda>e. e_start e + e_size e = end) idx 0"

definition smallestHole :: "entry ordered_array \<Rightarrow> u32 \<Rightarrow> nat result" where
  "smallestHole idx n =
     rbind (assert_that (oa_size idx > 0) ''_index.size() > 0'') (\<lambda>_.
     case index_scan (\<lambda>e. isHole e \<and> n \<le> e_size e) idx 0 of
       Some it \<Rightarrow> Inr it
     | None \<Rightarrow> Inl (KernelPanic ''no smallest hole in SmallestHole!''))"

definition align_off :: "u32 \<Rightarrow> u32" where
  "align_off start = (if start AND 0xFFF \<noteq> 0 then 0x1000 - (start AND 0xFFF) else 0)"

text \<open>The size test is made on \<^verbatim>\<open>s32\<close> values, so it is a signed comparison.\<close>

definition smallestAlignedHole :: "entry ordered_array \<Rightarrow> u32 \<Rightarrow> nat result" where
  "smallestAlignedHole idx n =
     (case index_scan (\<lambda>e. isHole e \<and> sint (e_size e - align_off (e_start e)) \<ge> sint n) idx 0 of
       Some it \<Rightarrow> Inr it
     | None \<Rightarrow> Inl (KernelPanic ''no smallest hole in SmallestAlignedHole!''))"

section \<open>Allocation and release\<close>

definition heap_alloc :: "u32 \<Rightarrow> heap \<Rightarrow> (u32 \<times> heap) result" where
  "heap_alloc n h =
     rbind (smallestHole (h_index h) n) (\<lambda>it.
     rbind (oa_get (h_index h) it) (\<lambda>hole.
     let idx = oa_remove it (h_index h); dataStart = e_start hole in
     rbind (if n < e_size hole
            then oa_insert IndexSort
                   (hole\<lparr>e_size := e_size hole - n, e_start := e_start hole + n\<rparr>) idx
            else Inr idx) (\<lambda>idx'.
     rbind (oa_insert IndexSort \<lparr>e_start = dataStart, e_size = n, isHole = False\<rparr> idx') (\<lambda>idx''.
     Inr (dataStart, h\<lparr>h_index := idx'', h_used := h_used h + n\<rparr>)))))"

definition heap_allocAligned :: "u32 \<Rightarrow> heap \<Rightarrow> (u32 \<times> heap) result" where
  "heap_allocAligned n h =
     rbind (smallestAlignedHole (h_index h) n) (\<lambda>it.
     rbind (oa_get (h_index h) it) (\<lambda>hole.
     let idx = oa_remove it (h_index h); start = e_start hole in
     rbind (if start AND 0xFFF \<noteq> 0
            then let gap = 0x1000 - (start AND 0xFFF) in
                 rbind (oa_insert IndexSort (hole\<lparr>e_size := gap\<rparr>) idx) (\<lambda>idx'.
                 Inr (idx', page_up start, hole\<lparr>e_start := page_up start, e_size := e_size hole - gap\<rparr>))
            else Inr (idx, start, hole)) (\<lambda>(idx', dataStart, hole').
     rbind (if n < e_size hole'
            then oa_insert IndexSort
                   (hole'\<lparr>e_size := e_size hole' - n, e_start := e_start hole' + n\<rparr>) idx'
            else Inr idx') (\<lambda>idx''.
     rbind (oa_insert IndexSort \<lparr>e_start = dataStart, e_size = n, isHole = False\<rparr> idx'') (\<lambda>idx'''.
     Inr (dataStart, h\<lparr>h_index := idx''', h_used := h_used h + n\<rparr>))))))"

text \<open>
  \<open>free\<close>: mark the entry a hole, merge it into a hole that ends where it starts (the merged
  entry is looked up again, by its end, since removal moves entries), then swallow a hole that
  starts where it ends. An index of \<^verbatim>\<open>-1\<close> used as a subscript fails the bounds assertion.
\<close>

definition free_merge_before ::
  "u32 \<Rightarrow> nat \<Rightarrow> entry ordered_array \<Rightarrow> (entry ordered_array \<times> nat option) result" where
  "free_merge_before p i idx =
     (case indexOfEntryEnding idx p of
        None \<Rightarrow> Inr (idx, Some i)
      | Some b \<Rightarrow>
          rbind (oa_get idx b) (\<lambda>eb.
          if isHole eb
          then rbind (oa_get idx i) (\<lambda>ei.
               let new_size = e_size eb + e_size ei; new_end = new_size + e_start eb in
               rbind (oa_set idx b (eb\<lparr>e_size := new_size\<rparr>)) (\<lambda>idx'.
               let idx'' = oa_remove i idx' in
               Inr (idx'', indexOfEntryEnding idx'' new_end)))
          else Inr (idx, Some i)))"

definition free_merge_after :: "nat \<Rightarrow> entry ordered_array \<Rightarrow> entry ordered_array result" where
  "free_merge_after i idx =
     rbind (oa_get idx i) (\<lambda>ei.
     case indexOfEntryStarting idx (e_start ei + e_size ei) of
        None \<Rightarrow> Inr idx
      | Some e \<Rightarrow>
          rbind (oa_get idx e) (\<lambda>ee.
          if isHole ee
          then rbind (oa_set idx i (ei\<lparr>e_size := e_size ei + e_size ee\<rparr>)) (\<lambda>idx'.
               Inr (oa_remove e idx'))
          else Inr idx))"

definition heap_free :: "u32 \<Rightarrow> heap \<Rightarrow> (bool \<times> heap) result" where
  "heap_free p h =
     (case indexOfEntryStarting (h_index h) p of
        None \<Rightarrow> Inr (False, h)
      | Some i \<Rightarrow>
          rbind (oa_get (h_index h) i) (\<lambda>ei.
          rbind (oa_set (h_index h) i (ei\<lparr>isHole := True\<rparr>)) (\<lambda>idx.
          rbind (free_merge_before p i idx) (\<lambda>(idx', i').
          case i' of
             None \<Rightarrow> Inl (AssertFail ''index < _size'')
           | Some j \<Rightarrow>
               rbind (free_merge_after j idx') (\<lambda>idx''.
               Inr (True, h\<lparr>h_index := idx''\<rparr>))))))"

section \<open>What the searches find\<close>

lemma index_scan_Some:
  "index_scan P idx it = Some i \<Longrightarrow>
     it \<le> i \<and> i < oa_size idx \<and> P (oa_cells idx i) \<and> (\<forall>j. it \<le> j \<longrightarrow> j < i \<longrightarrow> \<not> P (oa_cells idx j))"
proof (induction P idx it rule: index_scan.induct)
  case (1 P idx it)
  show ?case
  proof (cases "it < oa_size idx \<and> \<not> P (oa_cells idx it)")
    case True
    with "1.prems" have "index_scan P idx (Suc it) = Some i"
      by (subst (asm) index_scan.simps) simp
    then have "Suc it \<le> i \<and> i < oa_size idx \<and> P (oa_cells idx i) \<and>
        (\<forall>j. Suc it \<le> j \<longrightarrow> j < i \<longrightarrow> \<not> P (oa_cells idx j))"
      using True by (intro "1.IH") simp_all
    with True show ?thesis by (auto simp: Suc_le_eq nat_less_le)
  next
    case False
    with "1.prems" show ?thesis by (subst (asm) index_scan.simps) (auto split: if_splits)
  qed
qed

lemma index_scan_None:
  "index_scan P idx it = None \<longleftrightarrow> (\<forall>j. it \<le> j \<longrightarrow> j < oa_size idx \<longrightarrow> \<not> P (oa_cells idx j))"
proof (induction P idx it rule: index_scan.induct)
  case (1 P idx it)
  show ?case
  proof (cases "it < oa_size idx \<and> \<not> P (oa_cells idx it)")
    case True
    then have "index_scan P idx it = index_scan P idx (Suc it)"
      by (subst index_scan.simps) simp
    with 1 True show ?thesis by (auto simp: Suc_le_eq nat_less_le)
  next
    case False
    then show ?thesis by (subst index_scan.simps) auto
  qed
qed

lemma index_scan_unique:
  assumes "i < oa_size idx" and "P (oa_cells idx i)"
    and "\<And>j. j < oa_size idx \<Longrightarrow> P (oa_cells idx j) \<Longrightarrow> j = i"
  shows "index_scan P idx 0 = Some i"
proof (cases "index_scan P idx 0")
  case None
  with assms(1,2) show ?thesis by (auto simp: index_scan_None)
next
  case (Some k)
  with assms(3) show ?thesis by (auto dest: index_scan_Some)
qed

end
