(* ===== verification/HeapInv.thy ===== *)
theory HeapInv
  imports Heap
begin

text \<open>
  The invariant of the heap: the entries of the index tile the managed region exactly, every
  address of it lies in one entry and in one only, and no entry is empty. It is stated by counting, for an
  address, the entries that cover it, which makes splitting and merging entries a matter of
  adding counts. Below it the effect of every operation on the invariant and on the multiset of
  allocated blocks.
\<close>

section \<open>Tilings\<close>

definition covers :: "entry \<Rightarrow> nat \<Rightarrow> bool" where
  "covers e x \<longleftrightarrow> unat (e_start e) \<le> x \<and> x < unat (e_start e) + unat (e_size e)"

definition cover :: "entry multiset \<Rightarrow> nat \<Rightarrow> nat" where
  "cover M x = size (filter_mset (\<lambda>e. covers e x) M)"

definition tiled :: "entry multiset \<Rightarrow> nat \<Rightarrow> nat \<Rightarrow> bool" where
  "tiled M lo hi \<longleftrightarrow> (\<forall>x. cover M x = (if lo \<le> x \<and> x < hi then 1 else 0)) \<and>
     (\<forall>e \<in># M. e_size e \<noteq> 0) \<and> hi < 2 ^ 32"

definition heap_entries :: "heap \<Rightarrow> entry multiset" where
  "heap_entries h = mset (oa_list (h_index h))"

definition allocated :: "heap \<Rightarrow> entry multiset" where
  "allocated h = filter_mset (\<lambda>e. \<not> isHole e) (heap_entries h)"

definition holes :: "heap \<Rightarrow> entry multiset" where
  "holes h = filter_mset isHole (heap_entries h)"

definition heap_wf :: "nat \<Rightarrow> heap \<Rightarrow> bool" where
  "heap_wf lo h \<longleftrightarrow> tiled (heap_entries h) lo (unat (h_end h))"

lemma cover_empty [simp]: "cover {#} x = 0"
  by (simp add: cover_def)

lemma cover_add [simp]: "cover (add_mset e M) x = (if covers e x then 1 else 0) + cover M x"
  by (simp add: cover_def)

lemma cover_union [simp]: "cover (M + N) x = cover M x + cover N x"
  by (simp add: cover_def)

lemma tiled_size: "tiled M lo hi \<Longrightarrow> e \<in># M \<Longrightarrow> e_size e \<noteq> 0"
  by (simp add: tiled_def)

lemma size_unat_pos: "e_size e \<noteq> 0 \<Longrightarrow> 0 < unat (e_size e)"
  by (simp add: unat_gt_0)

lemma tiled_coversD:
  assumes "tiled M lo hi" and "e \<in># M" and "covers e x"
  shows "lo \<le> x \<and> x < hi"
proof (rule ccontr)
  assume out: "\<not> (lo \<le> x \<and> x < hi)"
  from assms(2) obtain N where M: "M = add_mset e N" by (metis mset_add)
  have "cover M x = 0" using assms(1) out by (auto simp: tiled_def)
  with M assms(3) show False by simp
qed

lemma tiled_bounds:
  assumes "tiled M lo hi" and "e \<in># M"
  shows "lo \<le> unat (e_start e)" and "unat (e_start e) + unat (e_size e) \<le> hi"
    and "unat (e_start e) + unat (e_size e) < 4294967296"
proof -
  have pos: "0 < unat (e_size e)" using tiled_size [OF assms] by (rule size_unat_pos)
  have "covers e (unat (e_start e))" using pos by (simp add: covers_def)
  then show "lo \<le> unat (e_start e)" using tiled_coversD [OF assms] by blast
  have "covers e (unat (e_start e) + unat (e_size e) - 1)" using pos by (auto simp: covers_def)
  then have "unat (e_start e) + unat (e_size e) - 1 < hi" using tiled_coversD [OF assms] by blast
  then show "unat (e_start e) + unat (e_size e) \<le> hi" by simp
  then show "unat (e_start e) + unat (e_size e) < 4294967296"
    using assms(1) by (simp add: tiled_def)
qed

lemma tiled_end_unat:
  "tiled M lo hi \<Longrightarrow> e \<in># M \<Longrightarrow> unat (e_start e + e_size e) = unat (e_start e) + unat (e_size e)"
  using tiled_bounds(3) [of M lo hi e] by (simp add: unat_add_nowrap)

text \<open>Two entries of a tiling never share an address.\<close>

lemma tiled_once:
  assumes "tiled (add_mset e M) lo hi" and "f \<in># M" and "covers e x"
  shows "\<not> covers f x"
proof
  assume "covers f x"
  from assms(2) obtain N where "M = add_mset f N" by (metis mset_add)
  with assms(3) \<open>covers f x\<close> have "2 \<le> cover (add_mset e M) x" by simp
  moreover have "cover (add_mset e M) x \<le> 1" using assms(1) by (auto simp: tiled_def)
  ultimately show False by simp
qed

lemma tiled_start_unique:
  assumes "tiled (add_mset e M) lo hi" and "f \<in># M"
  shows "e_start f \<noteq> e_start e"
proof
  assume same: "e_start f = e_start e"
  have "e_size e \<noteq> 0" "e_size f \<noteq> 0"
    using assms tiled_size [OF assms(1)] by auto
  then have "covers e (unat (e_start e))" "covers f (unat (e_start e))"
    using same by (auto simp: covers_def dest!: size_unat_pos)
  with tiled_once [OF assms] show False by blast
qed

lemma tiled_end_unique:
  assumes "tiled (add_mset e M) lo hi" and "f \<in># M"
  shows "e_start f + e_size f \<noteq> e_start e + e_size e"
proof
  assume same: "e_start f + e_size f = e_start e + e_size e"
  have pos: "0 < unat (e_size e)" "0 < unat (e_size f)"
    using assms tiled_size [OF assms(1)] by (auto dest: size_unat_pos)
  have "unat (e_start f) + unat (e_size f) = unat (e_start e) + unat (e_size e)"
    using same tiled_end_unat [OF assms(1)] assms(2) by (metis union_single_eq_member add_mset_add_single union_iff)
  then have "covers e (unat (e_start e) + unat (e_size e) - 1)"
    "covers f (unat (e_start e) + unat (e_size e) - 1)"
    using pos by (auto simp: covers_def)
  with tiled_once [OF assms] show False by blast
qed

lemma tiled_exchange:
  assumes "tiled (A + M) lo hi" and "\<And>x. cover B x = cover A x" and "\<forall>e \<in># B. e_size e \<noteq> 0"
  shows "tiled (B + M) lo hi"
  using assms by (auto simp: tiled_def)

lemma covers_split:
  assumes "e_start f = e_start e" and "e_start g = e_start e + e_size f"
    and "unat (e_size f) + unat (e_size g) = unat (e_size e)"
    and "unat (e_start e) + unat (e_size e) < 4294967296"
  shows "(if covers f x then 1 else 0) + (if covers g x then 1 else 0) = (if covers e x then 1 else (0::nat))"
proof -
  have "unat (e_start g) = unat (e_start e) + unat (e_size f)"
    using assms by (simp add: unat_add_nowrap)
  with assms show ?thesis by (auto simp: covers_def)
qed

lemma tiled_split:
  assumes "tiled (add_mset e M) lo hi"
    and "e_start f = e_start e" and "e_start g = e_start e + e_size f"
    and "unat (e_size f) + unat (e_size g) = unat (e_size e)"
    and "e_size f \<noteq> 0" and "e_size g \<noteq> 0"
  shows "tiled (add_mset f (add_mset g M)) lo hi"
proof -
  have "unat (e_start e) + unat (e_size e) < 4294967296"
    using tiled_bounds(3) [OF assms(1)] by simp
  then have "\<And>x. cover {#f, g#} x = cover {#e#} x"
    using covers_split [OF assms(2-4)] by simp
  then show ?thesis
    using tiled_exchange [of "{#e#}" M lo hi "{#f, g#}"] assms by simp
qed

lemma tiled_merge:
  assumes "tiled (add_mset f (add_mset g M)) lo hi"
    and "e_start g = e_start f + e_size f"
    and "e_start e = e_start f" and "e_size e = e_size f + e_size g"
  shows "tiled (add_mset e M) lo hi" and "unat (e_size e) = unat (e_size f) + unat (e_size g)"
proof -
  have f: "unat (e_start f + e_size f) = unat (e_start f) + unat (e_size f)"
    and g: "unat (e_start g) + unat (e_size g) < 4294967296"
    using tiled_end_unat [OF assms(1), of f] tiled_bounds(3) [OF assms(1), of g] by simp_all
  then show sz: "unat (e_size e) = unat (e_size f) + unat (e_size g)"
    using assms(2,4) by (simp add: unat_add_nowrap)
  have "\<And>x. cover {#e#} x = cover {#f, g#} x"
    using covers_split [of f e g] assms(2-4) f g sz by simp
  moreover have "e_size e \<noteq> 0"
    using sz tiled_size [OF assms(1), of f] by (metis add_is_0 union_single_eq_member
        add_mset_add_single unat_0 unat_eq_zero)
  ultimately show "tiled (add_mset e M) lo hi"
    using tiled_exchange [of "{#f, g#}" M lo hi "{#e#}"] assms(1) by simp
qed

lemma tiled_retag:
  assumes "tiled (add_mset e M) lo hi" and "e_start f = e_start e" and "e_size f = e_size e"
  shows "tiled (add_mset f M) lo hi"
  using assms tiled_exchange [of "{#e#}" M lo hi "{#f#}"] by (simp add: tiled_def covers_def)

end
