(* ===== verification/HeapProps.thy ===== *)
theory HeapProps
  imports HeapInv
begin

text \<open>
  The correctness of allocation and release over the invariant of \<^verbatim>\<open>HeapInv\<close>.
\<close>

section \<open>Selecting a hole\<close>

lemma smallestHole_Inr:
  assumes "smallestHole idx n = Inr i"
  shows "i < oa_size idx" and "isHole (oa_list idx ! i)" and "n \<le> e_size (oa_list idx ! i)"
  using assms index_scan_Some
  by (fastforce simp: smallestHole_def result_simps split: option.splits)+

lemma smallestHole_total:
  assumes "e \<in># mset (oa_list idx)" and "isHole e" and "n \<le> e_size e"
  shows "\<exists>i. smallestHole idx n = Inr i"
proof -
  from assms(1) obtain k where k: "k < oa_size idx" "e = oa_cells idx k"
    by (auto simp: in_set_conv_nth)
  then have "index_scan (\<lambda>e. isHole e \<and> n \<le> e_size e) idx 0 \<noteq> None"
    using assms(2,3) by (auto simp: index_scan_None)
  with k show ?thesis by (auto simp: smallestHole_def)
qed

lemma smallestAlignedHole_Inr:
  assumes "smallestAlignedHole idx n = Inr i"
  shows "i < oa_size idx" and "isHole (oa_list idx ! i)"
    and "sint n \<le> sint (e_size (oa_list idx ! i) - align_off (e_start (oa_list idx ! i)))"
  using assms index_scan_Some
  by (fastforce simp: smallestAlignedHole_def split: option.splits)+

text \<open>Taking the entry at a position out of the index leaves the rest of the tiling.\<close>

lemma entries_pick:
  assumes "i < oa_size idx"
  shows "mset (oa_list idx) = add_mset (oa_list idx ! i) (mset (oa_list (oa_remove i idx)))"
  using oa.mset_rem_add [of i idx] assms by simp

lemmas entries_ins = oa.mset_ins [where lt = IndexSort]

interpretation index: sorted_store oa_list oa_maxSize oa_get oa_set "oa_insert IndexSort" oa_remove IndexSort
  by unfold_locales (auto simp: IndexSort_def)

definition index_sorted :: "heap \<Rightarrow> bool" where
  "index_sorted h \<longleftrightarrow> sorted_wrt (\<lambda>a b. \<not> IndexSort b a) (oa_list (h_index h))"

section \<open>Allocation\<close>

text \<open>
  The common last step of both allocators: from a hole that starts where the data goes, the
  data entry and, when the hole is larger, the rest of the hole.
\<close>

lemma carve_hole:
  assumes til: "tiled (add_mset hole M) lo hi" and fits: "n \<le> e_size hole" and n: "n \<noteq> 0"
    and ins1: "(if n < e_size hole
        then oa_insert IndexSort (hole\<lparr>e_size := e_size hole - n, e_start := e_start hole + n\<rparr>) idx
        else Inr idx) = Inr idx'"
    and ins2: "oa_insert IndexSort \<lparr>e_start = e_start hole, e_size = n, isHole = False\<rparr> idx' = Inr idx''"
    and M: "mset (oa_list idx) = M" and hole: "isHole hole"
  shows "tiled (mset (oa_list idx'')) lo hi"
    and "filter_mset (\<lambda>e. \<not> isHole e) (mset (oa_list idx'')) =
      add_mset \<lparr>e_start = e_start hole, e_size = n, isHole = False\<rparr> (filter_mset (\<lambda>e. \<not> isHole e) M)"
proof -
  let ?d = "\<lparr>e_start = e_start hole, e_size = n, isHole = False\<rparr>"
  let ?r = "hole\<lparr>e_size := e_size hole - n, e_start := e_start hole + n\<rparr>"
  note idx'' = entries_ins [OF ins2]
  have "tiled (mset (oa_list idx'')) lo hi \<and> filter_mset (\<lambda>e. \<not> isHole e) (mset (oa_list idx''))
      = add_mset ?d (filter_mset (\<lambda>e. \<not> isHole e) M)"
  proof (cases "n < e_size hole")
    case True
    then have "mset (oa_list idx') = add_mset ?r M" using ins1 entries_ins M by auto
    moreover have "tiled (add_mset ?d (add_mset ?r M)) lo hi"
      using True n fits
      by (intro tiled_split [OF til]) (auto simp: unat_sub_nowrap word_le_nat_alt)
    ultimately show ?thesis using idx'' hole by simp
  next
    case False
    with fits have "n = e_size hole" by simp
    moreover from False ins1 M have "mset (oa_list idx') = M" by auto
    ultimately show ?thesis using idx'' tiled_retag [OF til, of ?d] by simp
  qed
  then show "tiled (mset (oa_list idx'')) lo hi"
    and "filter_mset (\<lambda>e. \<not> isHole e) (mset (oa_list idx'')) =
      add_mset ?d (filter_mset (\<lambda>e. \<not> isHole e) M)" by blast+
qed

lemma heap_alloc_cases:
  assumes "heap_alloc n h = Inr (p, h')"
  obtains i hole idx' idx'' where "smallestHole (h_index h) n = Inr i" and "i < oa_size (h_index h)" and "hole = oa_list (h_index h) ! i"
    and "isHole hole" and "n \<le> e_size hole" and "p = e_start hole"
    and "(if n < e_size hole
        then oa_insert IndexSort (hole\<lparr>e_size := e_size hole - n, e_start := e_start hole + n\<rparr>)
          (oa_remove i (h_index h))
        else Inr (oa_remove i (h_index h))) = Inr idx'"
    and "oa_insert IndexSort \<lparr>e_start = e_start hole, e_size = n, isHole = False\<rparr> idx' = Inr idx''"
    and "h' = h\<lparr>h_index := idx'', h_used := h_used h + n\<rparr>"
proof -
  from assms obtain i where i: "smallestHole (h_index h) n = Inr i"
    by (auto simp: heap_alloc_def result_simps)
  note hole = smallestHole_Inr [OF i]
  from assms i hole that show thesis
    by (simp add: heap_alloc_def Let_def oa_get_def rbind_eq_Inr del: nth_oa_list)
       (metis nth_oa_list)
qed

text \<open>
  Claim C1. A successful \<open>Heap::alloc(n)\<close> keeps the entries a tiling of the managed region,
  records exactly the block \<open>[p, p + n)\<close> as allocated besides the blocks allocated before, takes that
  block out of a hole, and adds \<open>n\<close> to the use count.
\<close>

theorem heap_alloc_correct:
  assumes "heap_wf lo h" and "n \<noteq> 0" and "heap_alloc n h = Inr (p, h')"
  shows "heap_wf lo h' \<and>
    allocated h' = add_mset \<lparr>e_start = p, e_size = n, isHole = False\<rparr> (allocated h) \<and>
    (\<exists>e \<in># holes h. unat (e_start e) \<le> unat p \<and>
        unat p + unat n \<le> unat (e_start e) + unat (e_size e)) \<and>
    h_used h' = h_used h + n"
proof -
  from assms(3) obtain i hole idx' idx'' where i: "i < oa_size (h_index h)"
    and hole: "hole = oa_list (h_index h) ! i" "isHole hole" "n \<le> e_size hole" "p = e_start hole"
    and ins: "(if n < e_size hole
        then oa_insert IndexSort (hole\<lparr>e_size := e_size hole - n, e_start := e_start hole + n\<rparr>)
          (oa_remove i (h_index h))
        else Inr (oa_remove i (h_index h))) = Inr idx'"
      "oa_insert IndexSort \<lparr>e_start = e_start hole, e_size = n, isHole = False\<rparr> idx' = Inr idx''"
    and h': "h' = h\<lparr>h_index := idx'', h_used := h_used h + n\<rparr>"
    by (rule heap_alloc_cases) blast
  let ?M = "mset (oa_list (oa_remove i (h_index h)))"
  have pick: "heap_entries h = add_mset hole ?M"
    using entries_pick [OF i] hole(1) by (simp add: heap_entries_def)
  have til: "tiled (add_mset hole ?M) lo (unat (h_end h))"
    using assms(1) pick by (simp add: heap_wf_def)
  note carve = carve_hole [OF til hole(3) assms(2) ins refl hole(2)]
  have "hole \<in># holes h" using pick hole(2) by (simp add: holes_def)
  then have "\<exists>e \<in># holes h. unat (e_start e) \<le> unat p \<and>
      unat p + unat n \<le> unat (e_start e) + unat (e_size e)"
    using hole(3,4) by (auto simp: word_le_nat_alt)
  then show ?thesis
    using carve h' hole pick by (simp add: heap_wf_def heap_entries_def allocated_def)
qed

text \<open>
  Claim C4. While the index has a free slot and some hole is large enough, \<open>Heap::alloc\<close>
  returns: neither a panic nor a failed assertion is reachable.
\<close>

theorem heap_alloc_total:
  assumes "e \<in># holes h" and "n \<le> e_size e"
    and "size (heap_entries h) < oa_maxSize (h_index h)"
  shows "\<exists>p h'. heap_alloc n h = Inr (p, h')"
proof -
  let ?idx = "h_index h"
  from assms(1,2) obtain i where sm: "smallestHole ?idx n = Inr i"
    using smallestHole_total [of e ?idx n] by (auto simp: holes_def heap_entries_def)
  note i = smallestHole_Inr(1) [OF sm]
  let ?r = "oa_remove i ?idx" and ?hole = "oa_cells ?idx i"
  have len: "Suc (length (oa_list ?r)) = oa_size ?idx" and cap: "oa_maxSize ?r = oa_maxSize ?idx"
    using oa.length_rem [of i ?idx] oa.cap_rem [of i ?idx] i by simp_all
  have room: "oa_size ?idx < oa_maxSize ?idx"
    using assms(3) by (simp add: heap_entries_def)
  have "\<exists>idx'. (if n < e_size ?hole then oa_insert IndexSort
        (?hole\<lparr>e_size := e_size ?hole - n, e_start := e_start ?hole + n\<rparr>) ?r else Inr ?r) = Inr idx' \<and>
      length (oa_list idx') < oa_maxSize idx'"
  proof (cases "n < e_size ?hole")
    case True
    obtain idx' where "oa_insert IndexSort
        (?hole\<lparr>e_size := e_size ?hole - n, e_start := e_start ?hole + n\<rparr>) ?r = Inr idx'"
      using oa.ins_total [of ?r] len cap room by (metis Suc_lessD)
    with True len cap room show ?thesis
      using oa.length_ins oa.cap_ins by (metis (no_types, lifting))
  next
    case False
    with len cap room show ?thesis by simp
  qed
  then obtain idx' where idx': "(if n < e_size ?hole then oa_insert IndexSort
        (?hole\<lparr>e_size := e_size ?hole - n, e_start := e_start ?hole + n\<rparr>) ?r else Inr ?r) = Inr idx'"
    and free: "length (oa_list idx') < oa_maxSize idx'" by blast
  from oa.ins_total [where lt = IndexSort, OF free] obtain idx'' where
    "oa_insert IndexSort \<lparr>e_start = e_start ?hole, e_size = n, isHole = False\<rparr> idx' = Inr idx''"
    by blast
  with sm i idx' show ?thesis
    by (simp add: heap_alloc_def oa_get_def Let_def)
qed

text \<open>
  The block a successful \<open>Heap::alloc(n)\<close> returns shares no address with any block
  that was already allocated.
\<close>

theorem heap_alloc_disjoint:
  assumes "heap_wf lo h" and "n \<noteq> 0" and "heap_alloc n h = Inr (p, h')"
    and "b \<in># allocated h" and "covers b x"
  shows "\<not> (unat p \<le> x \<and> x < unat p + unat n)"
proof -
  from assms(3) obtain i hole where i: "i < oa_size (h_index h)"
    and hole: "hole = oa_list (h_index h) ! i" "isHole hole" "n \<le> e_size hole" "p = e_start hole"
    by (rule heap_alloc_cases) blast
  let ?M = "mset (oa_list (oa_remove i (h_index h)))"
  have pick: "heap_entries h = add_mset hole ?M"
    using entries_pick [OF i] hole(1) by (simp add: heap_entries_def)
  have til: "tiled (add_mset hole ?M) lo (unat (h_end h))"
    using assms(1) pick by (simp add: heap_wf_def)
  have "b \<in># ?M" using assms(4) pick hole(2) by (auto simp: allocated_def)
  then have "\<not> covers hole x" using tiled_once [OF til] assms(5) by blast
  then show ?thesis using hole(3,4) by (auto simp: covers_def word_le_nat_alt)
qed

text \<open>
  On an index sorted by size, \<open>Heap::alloc(n)\<close> is best fit: the block is the front of a
  hole no larger than any other hole that holds \<open>n\<close> bytes; and the index stays sorted.
\<close>

theorem heap_alloc_best_fit:
  assumes "index_sorted h" and "heap_alloc n h = Inr (p, h')"
  shows "(\<exists>e \<in># holes h. e_start e = p \<and> n \<le> e_size e \<and>
      (\<forall>f \<in># holes h. n \<le> e_size f \<longrightarrow> e_size e \<le> e_size f)) \<and> index_sorted h'"
proof -
  from assms(2) obtain k hole idx' idx'' where
    sm: "smallestHole (h_index h) n = Inr k" and k: "k < oa_size (h_index h)"
    and hole: "hole = oa_list (h_index h) ! k" "isHole hole" "n \<le> e_size hole" "p = e_start hole"
    and ins1: "(if n < e_size hole
        then oa_insert IndexSort (hole\<lparr>e_size := e_size hole - n, e_start := e_start hole + n\<rparr>)
          (oa_remove k (h_index h))
        else Inr (oa_remove k (h_index h))) = Inr idx'"
    and ins2: "oa_insert IndexSort \<lparr>e_start = e_start hole, e_size = n, isHole = False\<rparr> idx' = Inr idx''"
    and h': "h' = h\<lparr>h_index := idx'', h_used := h_used h + n\<rparr>"
    by (rule heap_alloc_cases)
  from sm have scan: "index_scan (\<lambda>e. isHole e \<and> n \<le> e_size e) (h_index h) 0 = Some k"
    by (auto simp: smallestHole_def rbind_eq_Inr split: option.splits)
  have least: "e_size hole \<le> e_size f" if "f \<in># holes h" "n \<le> e_size f" for f
  proof -
    have "\<forall>j < k. \<not> (isHole (oa_list (h_index h) ! j) \<and> n \<le> e_size (oa_list (h_index h) ! j))"
      using index_scan_Some [OF scan] k by auto
    moreover have "f \<in> set (oa_list (h_index h))" and "isHole f"
      using that by (simp_all add: holes_def heap_entries_def)
    ultimately have "f = hole \<or> \<not> IndexSort f hole"
      using index.first_is_least [of "h_index h" k "\<lambda>e. isHole e \<and> n \<le> e_size e" f]
        assms(1) k that hole(1) by (auto simp: index_sorted_def)
    then show ?thesis by (auto simp: IndexSort_def)
  qed
  have "sorted_wrt (\<lambda>a b. \<not> IndexSort b a) (oa_list (oa_remove k (h_index h)))"
    using assms(1) k by (intro index.sorted_rem) (simp_all add: index_sorted_def)
  then have "sorted_wrt (\<lambda>a b. \<not> IndexSort b a) (oa_list idx')"
    using ins1 by (auto intro: index.sorted_ins split: if_splits)
  then have "index_sorted h'" using index.sorted_ins [OF _ ins2] h' by (simp add: index_sorted_def)
  moreover have "hole \<in># holes h"
    using hole k by (simp add: holes_def heap_entries_def del: nth_oa_list)
  ultimately show ?thesis using hole least by blast
qed

section \<open>Release\<close>

lemma tiled_position:
  assumes "tiled (mset (oa_list idx)) lo hi" and "i < oa_size idx" and "j < oa_size idx" and "i \<noteq> j"
  shows "e_start (oa_cells idx j) \<noteq> e_start (oa_cells idx i)"
    and "e_start (oa_cells idx j) + e_size (oa_cells idx j) \<noteq> e_start (oa_cells idx i) + e_size (oa_cells idx i)"
proof -
  have "mset (oa_list idx) = add_mset (oa_cells idx i) (mset (oa_list idx) - {#oa_cells idx i#})"
    using assms(2) by (metis insert_DiffM length_oa_list nth_mem nth_oa_list set_mset_mset)
  moreover have "oa_cells idx j \<in># mset (oa_list idx) - {#oa_cells idx i#}"
    using nth_mem_others [of i "oa_list idx" j] assms by simp
  ultimately show "e_start (oa_cells idx j) \<noteq> e_start (oa_cells idx i)"
    and "e_start (oa_cells idx j) + e_size (oa_cells idx j) \<noteq> e_start (oa_cells idx i) + e_size (oa_cells idx i)"
    using assms(1) by (metis tiled_start_unique, metis tiled_end_unique)
qed

lemma indexOfEntryStarting_tiled:
  assumes "tiled (mset (oa_list idx)) lo hi" and "i < oa_size idx"
  shows "indexOfEntryStarting idx (e_start (oa_cells idx i)) = Some i"
  unfolding indexOfEntryStarting_def
  using assms tiled_position(1) [OF assms] by (intro index_scan_unique) auto

lemma indexOfEntryEnding_tiled:
  assumes "tiled (mset (oa_list idx)) lo hi" and "i < oa_size idx"
  shows "indexOfEntryEnding idx (e_start (oa_cells idx i) + e_size (oa_cells idx i)) = Some i"
  unfolding indexOfEntryEnding_def
  using assms tiled_position(2) [OF assms] by (intro index_scan_unique) auto

lemma cell_in_entries: "i < oa_size idx \<Longrightarrow> oa_cells idx i \<in># mset (oa_list idx)"
  by (metis length_oa_list nth_mem nth_oa_list set_mset_mset)

text \<open>
  Absorbing a hole into a neighbouring hole: position \<open>k\<close> gets the union of the two entries and
  position \<open>d\<close> disappears.
\<close>

lemma absorb_hole:
  assumes til: "tiled (mset (oa_list idx)) lo hi"
    and k: "k < oa_size idx" "isHole (oa_cells idx k)" and d: "d < oa_size idx" "isHole (oa_cells idx d)"
    and "k \<noteq> d" and set: "oa_set idx k e = Inr idx'" and e: "isHole e"
    and merged: "\<And>M. tiled (add_mset (oa_cells idx d) (add_mset (oa_cells idx k) M)) lo hi
        \<Longrightarrow> tiled (add_mset e M) lo hi"
  shows "tiled (mset (oa_list (oa_remove d idx'))) lo hi"
    and "filter_mset (\<lambda>e. \<not> isHole e) (mset (oa_list (oa_remove d idx'))) =
         filter_mset (\<lambda>e. \<not> isHole e) (mset (oa_list idx))"
    and "e \<in># mset (oa_list (oa_remove d idx'))"
proof -
  obtain N where two: "mset (oa_list idx) = add_mset (oa_cells idx d) (add_mset (oa_cells idx k) N)"
    and upd: "\<And>y. mset ((oa_list idx)[k := y]) - {#oa_cells idx d#} = add_mset y N"
    using mset_two_positions [of d "oa_list idx" k] k d \<open>k \<noteq> d\<close> by auto
  have lst: "oa_list idx' = (oa_list idx)[k := e]"
    using oa.put_ok [OF set] by simp
  then have "d < length (oa_list idx')" and "oa_list idx' ! d = oa_cells idx d"
    using d \<open>k \<noteq> d\<close> by simp_all
  then have res: "mset (oa_list (oa_remove d idx')) = add_mset e N"
    using oa.mset_rem [of d idx'] lst upd [of e] by simp
  then show "e \<in># mset (oa_list (oa_remove d idx'))" by simp
  show "tiled (mset (oa_list (oa_remove d idx'))) lo hi"
    using merged [of N] til two res by simp
  show "filter_mset (\<lambda>e. \<not> isHole e) (mset (oa_list (oa_remove d idx'))) =
         filter_mset (\<lambda>e. \<not> isHole e) (mset (oa_list idx))"
    using two res k d e by simp
qed

lemma free_merge_before_correct:
  assumes til: "tiled (mset (oa_list idx)) lo hi"
    and i: "i < oa_size idx" "isHole (oa_cells idx i)" "e_start (oa_cells idx i) = p"
  obtains idx' j where "free_merge_before p i idx = Inr (idx', Some j)"
    and "tiled (mset (oa_list idx')) lo hi" and "j < oa_size idx'" and "isHole (oa_cells idx' j)"
    and "filter_mset (\<lambda>e. \<not> isHole e) (mset (oa_list idx')) =
         filter_mset (\<lambda>e. \<not> isHole e) (mset (oa_list idx))"
proof (cases "indexOfEntryEnding idx p")
  case None
  with til i that show thesis by (simp add: free_merge_before_def)
next
  case (Some b)
  let ?eb = "oa_cells idx b" and ?ei = "oa_cells idx i"
  from Some have b: "b < oa_size idx" "e_start ?eb + e_size ?eb = p"
    by (auto simp: indexOfEntryEnding_def dest: index_scan_Some)
  show thesis
  proof (cases "isHole ?eb")
    case False
    with Some til i b that show thesis by (simp add: free_merge_before_def oa_get_def)
  next
    case True
    let ?e = "?eb\<lparr>e_size := e_size ?eb + e_size ?ei\<rparr>"
    have "b \<noteq> i"
      using b i tiled_size [OF til cell_in_entries [OF i(1)]] by auto
    obtain idx1 where set: "oa_set idx b ?e = Inr idx1"
      using oa.put_total [of b idx ?e] b by auto
    have merged: "tiled (add_mset ?e M) lo hi"
      if "tiled (add_mset ?ei (add_mset ?eb M)) lo hi" for M
      using tiled_merge(1) [of ?eb ?ei M lo hi ?e] that i b by (simp add: add_mset_commute)
    note ab = absorb_hole [OF til b(1) True i(1,2) \<open>b \<noteq> i\<close> set _ merged]
    have til': "tiled (mset (oa_list (oa_remove i idx1))) lo hi"
      and in': "?e \<in># mset (oa_list (oa_remove i idx1))"
      using ab True by simp_all
    from in' obtain j where j: "j < oa_size (oa_remove i idx1)" "oa_cells (oa_remove i idx1) j = ?e"
      by (auto simp: in_set_conv_nth)
    have "e_start ?e + e_size ?e = e_size ?eb + e_size ?ei + e_start ?eb" by simp
    then have "indexOfEntryEnding (oa_remove i idx1) (e_size ?eb + e_size ?ei + e_start ?eb) = Some j"
      using indexOfEntryEnding_tiled [OF til' j(1)] j(2) by metis
    then have "free_merge_before p i idx = Inr (oa_remove i idx1, Some j)"
      using Some True b i set by (simp add: free_merge_before_def oa_get_def)
    with til' j True ab(2) that show thesis by simp
  qed
qed

lemma free_merge_after_correct:
  assumes til: "tiled (mset (oa_list idx)) lo hi"
    and i: "i < oa_size idx" "isHole (oa_cells idx i)"
  obtains idx' where "free_merge_after i idx = Inr idx'"
    and "tiled (mset (oa_list idx')) lo hi"
    and "filter_mset (\<lambda>e. \<not> isHole e) (mset (oa_list idx')) =
         filter_mset (\<lambda>e. \<not> isHole e) (mset (oa_list idx))"
proof -
  let ?ei = "oa_cells idx i"
  show thesis
  proof (cases "indexOfEntryStarting idx (e_start ?ei + e_size ?ei)")
    case None
    with til i that show thesis by (simp add: free_merge_after_def oa_get_def)
  next
    case (Some e)
    let ?ee = "oa_cells idx e"
    from Some have e: "e < oa_size idx" "e_start ?ee = e_start ?ei + e_size ?ei"
      by (auto simp: indexOfEntryStarting_def dest: index_scan_Some)
    show thesis
    proof (cases "isHole ?ee")
      case False
      with Some til i e that show thesis by (simp add: free_merge_after_def oa_get_def)
    next
      case True
      let ?m = "?ei\<lparr>e_size := e_size ?ei + e_size ?ee\<rparr>"
      have "i \<noteq> e" using e tiled_size [OF til cell_in_entries [OF i(1)]] by auto
      obtain idx1 where set: "oa_set idx i ?m = Inr idx1"
        using oa.put_total [of i idx ?m] i by auto
      have merged: "tiled (add_mset ?m M) lo hi"
        if "tiled (add_mset ?ee (add_mset ?ei M)) lo hi" for M
        using tiled_merge(1) [of ?ei ?ee M lo hi ?m] that e by (simp add: add_mset_commute)
      note ab = absorb_hole [OF til i e(1) True \<open>i \<noteq> e\<close> set _ merged]
      have "free_merge_after i idx = Inr (oa_remove e idx1)"
        using Some True e i set by (simp add: free_merge_after_def oa_get_def)
      with ab i that show thesis by simp
    qed
  qed
qed

text \<open>The steps of a release: the entry becomes a hole, then is merged with the holes around it.\<close>

lemma heap_free_steps:
  assumes wf: "heap_wf lo h" and blk: "blk \<in># allocated h" and p: "e_start blk = p"
  obtains idx1 i idx2 j idx3 where "heap_free p h = Inr (True, h\<lparr>h_index := idx3\<rparr>)"
    and "mset (oa_list idx1) = add_mset (blk\<lparr>isHole := True\<rparr>) (heap_entries h - {#blk#})" and "blk \<in># heap_entries h"
    and "oa_maxSize idx1 = oa_maxSize (h_index h)" and "tiled (mset (oa_list idx1)) lo (unat (h_end h))"
    and "i < oa_size idx1" and "e_start (oa_cells idx1 i) = p"
    and "free_merge_before p i idx1 = Inr (idx2, Some j)" and "tiled (mset (oa_list idx2)) lo (unat (h_end h))"
    and "j < oa_size idx2" and "isHole (oa_cells idx2 j)" and "free_merge_after j idx2 = Inr idx3"
    and "tiled (mset (oa_list idx3)) lo (unat (h_end h))"
    and "filter_mset (\<lambda>e. \<not> isHole e) (mset (oa_list idx3)) = allocated h - {#blk#}"
proof -
  let ?idx = "h_index h" and ?data = "\<lambda>e. \<not> isHole e"
  have til: "tiled (mset (oa_list ?idx)) lo (unat (h_end h))"
    using wf by (simp add: heap_wf_def heap_entries_def)
  from blk obtain i where i: "i < oa_size ?idx" "blk = oa_cells ?idx i" "\<not> isHole blk"
    by (auto simp: allocated_def heap_entries_def in_set_conv_nth)
  have look: "indexOfEntryStarting ?idx p = Some i"
    using indexOfEntryStarting_tiled [OF til i(1)] i p by simp
  let ?e = "blk\<lparr>isHole := True\<rparr>" and ?M = "mset (oa_list ?idx) - {#blk#}"
  obtain idx1 where set: "oa_set ?idx i ?e = Inr idx1"
    using oa.put_total [of i ?idx ?e] i by auto
  have M: "mset (oa_list ?idx) = add_mset blk ?M"
    using cell_in_entries [OF i(1)] i(2) by simp
  have M1: "mset (oa_list idx1) = add_mset ?e ?M"
    using oa.mset_put [OF set] i by simp
  have til1: "tiled (mset (oa_list idx1)) lo (unat (h_end h))"
    using til M M1 tiled_retag [of blk ?M lo "unat (h_end h)" ?e] by simp
  have c1: "i < oa_size idx1" "oa_cells idx1 i = ?e"
    using oa.length_put [OF set] oa.put_nth [OF set] i by simp_all
  obtain idx2 j where mb: "free_merge_before p i idx1 = Inr (idx2, Some j)"
    "tiled (mset (oa_list idx2)) lo (unat (h_end h))" "j < oa_size idx2" "isHole (oa_cells idx2 j)"
    "filter_mset ?data (mset (oa_list idx2)) = filter_mset ?data (mset (oa_list idx1))"
    using free_merge_before_correct [OF til1 c1(1), of p] c1(2) p by auto
  obtain idx3 where ma: "free_merge_after j idx2 = Inr idx3"
    "tiled (mset (oa_list idx3)) lo (unat (h_end h))"
    "filter_mset ?data (mset (oa_list idx3)) = filter_mset ?data (mset (oa_list idx2))"
    using free_merge_after_correct [OF mb(2-4)] by blast
  have run: "heap_free p h = Inr (True, h\<lparr>h_index := idx3\<rparr>)"
    using look set mb(1) ma(1) i by (simp add: heap_free_def oa_get_def)
  have rest: "filter_mset ?data (mset (oa_list idx3)) = allocated h - {#blk#}"
    using ma(3) mb(5) M1 M i(3) by (simp add: allocated_def heap_entries_def)
  show thesis
    using that [OF run _ _ _ til1 c1(1) _ mb(1,2,3,4) ma(1,2) rest] M1 M c1(2) p oa.put_ok [OF set]
    by (simp add: heap_entries_def) (metis cell_in_entries i(1) i(2) set_mset_mset)
qed

lemma heap_free_ok:
  assumes "heap_wf lo h" and "blk \<in># allocated h" and "e_start blk = p"
  shows "\<exists>h'. heap_free p h = Inr (True, h') \<and> heap_wf lo h' \<and> allocated h' = allocated h - {#blk#}"
  by (rule heap_free_steps [OF assms]) (simp add: heap_wf_def heap_entries_def allocated_def)


text \<open>
  Claim C2. \<open>Heap::free\<close> of the start of an allocated block always returns true: no assertion or
  panic is reachable, the entries still tile the region, and the allocated blocks are the
  former ones without exactly that block, whatever merging with neighbouring holes took place.
\<close>

theorem heap_free_correct:
  assumes "heap_wf lo h" and "blk \<in># allocated h" and "e_start blk = p"
  shows "\<exists>h'. heap_free p h = Inr (True, h') \<and> heap_wf lo h' \<and> allocated h' = allocated h - {#blk#}"
  using assms by (rule heap_free_ok)

text \<open>
  \<open>Heap::free\<close> of an address where no entry starts returns false and changes nothing.
\<close>

theorem heap_free_unknown:
  assumes "\<forall>e \<in># heap_entries h. e_start e \<noteq> p"
  shows "heap_free p h = Inr (False, h)"
proof -
  have "indexOfEntryStarting (h_index h) p = None"
    using assms cell_in_entries [of _ "h_index h"]
    by (auto simp: indexOfEntryStarting_def index_scan_None heap_entries_def)
  then show ?thesis by (simp add: heap_free_def)
qed

end
