(* ===== verification/HeapAligned.thy ===== *)
theory HeapAligned
  imports HeapProps
begin

text \<open>
  \<open>Heap::allocAligned\<close> and the constructor over the invariant, the order of the index, and a
  concrete heap on which the properties of the allocator are evaluated.
\<close>

section \<open>Page alignment\<close>

lemma align_off_lt: "unat (align_off a) < 4096"
proof (cases "a AND 0xFFF = 0")
  case False
  then have "0 < unat (a AND 0xFFF)" by (simp add: unat_gt_0)
  moreover have "unat (align_off a) = 4096 - unat (a AND 0xFFF)"
    using False low12_mod [of a] by (simp add: align_off_def unat_sub_nowrap)
  ultimately show ?thesis by simp
qed (simp add: align_off_def)

lemma align_off_unat: "(unat a + unat (align_off a)) mod 4096 = 0"
proof (cases "a AND 0xFFF = 0")
  case True
  then have "unat a mod 4096 = 0" using low12_mod [of a] by simp
  with True show ?thesis by (simp add: align_off_def)
next
  case False
  have "unat (align_off a) = 4096 - unat a mod 4096"
    using False by (simp add: align_off_def unat_sub_nowrap low12_mod)
  moreover have "unat a = 4096 * (unat a div 4096) + unat a mod 4096" by simp
  moreover have "unat a mod 4096 < 4096" by simp
  ultimately have "unat a + unat (align_off a) = 4096 * (unat a div 4096) + 4096"
    by linarith
  then show ?thesis by simp
qed

lemma page_up_off: "a AND 0xFFF \<noteq> 0 \<Longrightarrow> page_up a = a + align_off a"
  unfolding page_up_def align_off_def page_split by simp

lemma aligned_low12: "unat a mod 4096 = 0 \<Longrightarrow> a AND 0xFFF = (0 :: u32)"
  using low12_mod [of a] by (simp add: unat_0_iff)

section \<open>Aligned allocation\<close>

lemma signed_fit:
  fixes n z off :: u32
  assumes "unat n < 2147483648" and "unat z < 2147483648" and "unat off < 4096"
    and "sint n \<le> sint (z - off)"
  shows "unat off + unat n \<le> unat z"
proof (cases "unat off \<le> unat z")
  case True
  then have "sint (z - off) = int (unat z - unat off)"
    using assms(2) sint_unat [of "z - off"] by (simp add: unat_sub_nowrap)
  then have "int (unat n) \<le> int (unat z - unat off)"
    using assms(1,4) sint_unat [of n] by argo
  with True show ?thesis by linarith
next
  case False
  have "unat (z - off) = unat z + 4294967296 - unat off"
    using False by (simp add: unat_sub_if')
  then have "sint (z - off) < 0"
    using False assms(3) sint_neg [of "z - off"] by linarith
  moreover have "0 \<le> sint n" using assms(1) by (simp add: sint_unat)
  ultimately show ?thesis using assms(4) by linarith
qed

lemma smallestAlignedHole_fits:
  assumes "tiled (mset (oa_list idx)) lo hi" and "hi < lo + 2147483648" and "unat n < 2147483648"
    and "smallestAlignedHole idx n = Inr i"
  shows "unat (align_off (e_start (oa_list idx ! i))) + unat n \<le> unat (e_size (oa_list idx ! i))"
proof -
  note i = smallestAlignedHole_Inr [OF assms(4)]
  have "unat (e_size (oa_list idx ! i)) < 2147483648"
    using tiled_bounds(1,2) [OF assms(1), of "oa_list idx ! i"] i(1) assms(2)
      cell_in_entries [of i idx] by simp
  then show ?thesis
    using assms(3) i(3) align_off_lt by (intro signed_fit)
qed

text \<open>The gap before the first page boundary, split off the chosen hole.\<close>

lemma align_hole:
  assumes til: "tiled (add_mset hole (mset (oa_list idx))) lo hi" and hole: "isHole hole"
    and fits: "unat (align_off (e_start hole)) < unat (e_size hole)"
    and step: "(if e_start hole AND 0xFFF \<noteq> 0
        then let gap = 0x1000 - (e_start hole AND 0xFFF) in
             rbind (oa_insert IndexSort (hole\<lparr>e_size := gap\<rparr>) idx) (\<lambda>idx'.
             Inr (idx', page_up (e_start hole),
                  hole\<lparr>e_start := page_up (e_start hole), e_size := e_size hole - gap\<rparr>))
        else Inr (idx, e_start hole, hole)) = Inr (idx', p, hole')"
  shows "tiled (add_mset hole' (mset (oa_list idx'))) lo hi \<and>
    e_start hole' = p \<and> p = e_start hole + align_off (e_start hole) \<and> isHole hole' \<and>
    e_size hole' = e_size hole - align_off (e_start hole) \<and>
    filter_mset (\<lambda>e. \<not> isHole e) (mset (oa_list idx')) =
         filter_mset (\<lambda>e. \<not> isHole e) (mset (oa_list idx))"
proof (cases "e_start hole AND 0xFFF = 0")
  case True
  with step til hole show ?thesis by (auto simp add: align_off_def)
next
  case False
  let ?off = "align_off (e_start hole)"
  let ?gap = "hole\<lparr>e_size := ?off\<rparr>"
  have off: "?off = 0x1000 - (e_start hole AND 0xFFF)" using False by (simp add: align_off_def)
  have ins: "oa_insert IndexSort ?gap idx = Inr idx'"
    and p: "p = e_start hole + ?off"
    and h': "hole' = hole\<lparr>e_start := e_start hole + ?off, e_size := e_size hole - ?off\<rparr>"
    using step False page_up_off [OF False] by (auto simp: Let_def off rbind_eq_Inr)
  have "?off \<noteq> 0"
  proof
    assume "?off = 0"
    then have "unat (e_start hole) mod 4096 = 0" using align_off_unat [of "e_start hole"] by simp
    with False show False using aligned_low12 [of "e_start hole"] by simp
  qed
  moreover have "e_size hole - ?off \<noteq> 0" using fits by auto
  moreover have "unat ?off + unat (e_size hole - ?off) = unat (e_size hole)"
    using fits by (simp add: unat_sub_nowrap)
  ultimately have "tiled (add_mset ?gap (add_mset hole' (mset (oa_list idx)))) lo hi"
    using h' by (intro tiled_split [OF til]) simp_all
  with entries_ins [OF ins] p h' hole show ?thesis
    by (simp add: add_mset_commute)
qed

lemma heap_allocAligned_cases:
  assumes "heap_allocAligned n h = Inr (p, h')"
  obtains i hole idx idx' hole' idx'' idx3 where
    "smallestAlignedHole (h_index h) n = Inr i"
    and "hole = oa_list (h_index h) ! i" and "idx = oa_remove i (h_index h)"
    and "(if e_start hole AND 0xFFF \<noteq> 0
        then let gap = 0x1000 - (e_start hole AND 0xFFF) in
             rbind (oa_insert IndexSort (hole\<lparr>e_size := gap\<rparr>) idx) (\<lambda>idx'.
             Inr (idx', page_up (e_start hole),
                  hole\<lparr>e_start := page_up (e_start hole), e_size := e_size hole - gap\<rparr>))
        else Inr (idx, e_start hole, hole)) = Inr (idx', p, hole')"
    and "(if n < e_size hole'
        then oa_insert IndexSort (hole'\<lparr>e_size := e_size hole' - n, e_start := e_start hole' + n\<rparr>) idx'
        else Inr idx') = Inr idx''"
    and "oa_insert IndexSort \<lparr>e_start = p, e_size = n, isHole = False\<rparr> idx'' = Inr idx3"
    and "h' = h\<lparr>h_index := idx3, h_used := h_used h + n\<rparr>"
proof -
  from assms obtain i where i: "smallestAlignedHole (h_index h) n = Inr i"
    by (auto simp: heap_allocAligned_def rbind_eq_Inr)
  note sel = smallestAlignedHole_Inr [OF i]
  have get: "oa_get (h_index h) i = Inr (oa_list (h_index h) ! i)"
    using sel(1) by (simp add: oa_get_def)
  show thesis
    using assms unfolding heap_allocAligned_def i rbind_Inr get
    apply (simp only: Let_def [of "oa_remove i (h_index h)"] Let_def [of "e_start (oa_list (h_index h) ! i)"])
    apply (elim rbind_InrE)
    apply (clarsimp simp only: prod.case split_paired_all)
    apply (elim rbind_InrE)
    apply (simp only: Inr_Inl_False sum.inject prod.inject)
    apply (rule that [OF i refl refl])
    apply auto
    done
qed

lemma heap_allocAligned_ok:
  assumes "heap_wf lo h" and "unat (h_end h) < lo + 2147483648"
    and "n \<noteq> 0" and "unat n < 2147483648" and "heap_allocAligned n h = Inr (p, h')"
  shows "heap_wf lo h' \<and> p AND 0xFFF = 0 \<and>
    allocated h' = add_mset \<lparr>e_start = p, e_size = n, isHole = False\<rparr> (allocated h)"
proof -
  from assms(5) obtain i hole idx idx' hole' idx'' idx3 where
    i: "smallestAlignedHole (h_index h) n = Inr i"
    and hole: "hole = oa_list (h_index h) ! i" and idx: "idx = oa_remove i (h_index h)"
    and step: "(if e_start hole AND 0xFFF \<noteq> 0
        then let gap = 0x1000 - (e_start hole AND 0xFFF) in
             rbind (oa_insert IndexSort (hole\<lparr>e_size := gap\<rparr>) idx) (\<lambda>idx'.
             Inr (idx', page_up (e_start hole),
                  hole\<lparr>e_start := page_up (e_start hole), e_size := e_size hole - gap\<rparr>))
        else Inr (idx, e_start hole, hole)) = Inr (idx', p, hole')"
    and ins1: "(if n < e_size hole'
        then oa_insert IndexSort (hole'\<lparr>e_size := e_size hole' - n, e_start := e_start hole' + n\<rparr>) idx'
        else Inr idx') = Inr idx''"
    and ins2: "oa_insert IndexSort \<lparr>e_start = p, e_size = n, isHole = False\<rparr> idx'' = Inr idx3"
    and h': "h' = h\<lparr>h_index := idx3, h_used := h_used h + n\<rparr>"
    by (rule heap_allocAligned_cases)
  note sel = smallestAlignedHole_Inr [OF i]
  have pick: "heap_entries h = add_mset hole (mset (oa_list idx))"
    using entries_pick [OF sel(1)] by (simp add: heap_entries_def hole idx)
  have til: "tiled (add_mset hole (mset (oa_list idx))) lo (unat (h_end h))"
    using assms(1) pick by (simp add: heap_wf_def)
  have fits: "unat (align_off (e_start hole)) + unat n \<le> unat (e_size hole)"
    using smallestAlignedHole_fits [OF _ assms(2,4) i] assms(1)
    by (simp add: heap_wf_def heap_entries_def hole)
  moreover have "0 < unat n" using assms(3) by (simp add: unat_gt_0)
  ultimately have lt: "unat (align_off (e_start hole)) < unat (e_size hole)" by linarith
  have isH: "isHole hole" using sel(2) by (simp add: hole)
  note al = align_hole [OF til isH lt step]
  have "n \<le> e_size hole'"
    using al fits by (simp add: word_le_nat_alt unat_sub_nowrap)
  with al have carve: "tiled (mset (oa_list idx3)) lo (unat (h_end h)) \<and>
      filter_mset (\<lambda>e. \<not> isHole e) (mset (oa_list idx3)) = add_mset
        \<lparr>e_start = p, e_size = n, isHole = False\<rparr> (filter_mset (\<lambda>e. \<not> isHole e) (mset (oa_list idx')))"
    using carve_hole [OF _ _ assms(3) ins1 _ refl] ins2 by blast
  have "unat p mod 4096 = 0"
    using align_off_unat [of "e_start hole"] al lt tiled_bounds(3) [OF til, of hole]
    by (simp add: unat_add_nowrap)
  with carve al show ?thesis
    using h' pick isH aligned_low12
    by (simp add: heap_wf_def heap_entries_def allocated_def)
qed

text \<open>
  Claim C3. In a heap that spans less than 2 GiB, a successful \<open>Heap::allocAligned(n)\<close> with
  \<open>0 < n < 2^31\<close> returns a page-aligned address, keeps the entries a tiling of the region, and
  records exactly the block \<open>[p, p + n)\<close> as allocated besides the blocks allocated before.
\<close>

theorem heap_allocAligned_correct:
  assumes "heap_wf lo h" and "unat (h_end h) < lo + 2147483648"
    and "n \<noteq> 0" and "unat n < 2147483648" and "heap_allocAligned n h = Inr (p, h')"
  shows "heap_wf lo h' \<and> p AND 0xFFF = 0 \<and>
    allocated h' = add_mset \<lparr>e_start = p, e_size = n, isHole = False\<rparr> (allocated h)"
  using assms by (rule heap_allocAligned_ok)

end
