(* ===== verification/HeapExamples.thy ===== *)
theory HeapExamples
  imports HeapAligned
begin

text \<open>
  The constructor, the order of the index, and the allocator run on a concrete three-page
  heap. A list of entries in address order is checked to be a tiling by \<open>tile_chain\<close>, which
  computes, so the invariant of a concrete heap is decided by evaluation.
\<close>

section \<open>Deciding the invariant\<close>

fun tile_chain :: "nat \<Rightarrow> nat \<Rightarrow> entry list \<Rightarrow> bool" where
  "tile_chain lo hi [] \<longleftrightarrow> lo = hi"
| "tile_chain lo hi (e # es) \<longleftrightarrow> unat (e_start e) = lo \<and> e_size e \<noteq> 0 \<and>
     tile_chain (lo + unat (e_size e)) hi es"

lemma tile_chain_le: "tile_chain lo hi es \<Longrightarrow> lo \<le> hi"
  by (induction es arbitrary: lo) force+

lemma tile_chain_sizes: "tile_chain lo hi es \<Longrightarrow> e \<in> set es \<Longrightarrow> e_size e \<noteq> 0"
  by (induction es arbitrary: lo) auto

lemma tile_chain_cover:
  "tile_chain lo hi es \<Longrightarrow> cover (mset es) x = (if lo \<le> x \<and> x < hi then 1 else 0)"
proof (induction es arbitrary: lo)
  case (Cons e es)
  let ?mid = "lo + unat (e_size e)"
  have "cover (mset es) x = (if ?mid \<le> x \<and> x < hi then 1 else 0)"
    and "?mid \<le> hi" and "covers e x \<longleftrightarrow> lo \<le> x \<and> x < ?mid"
    using Cons tile_chain_le [of ?mid hi es] by (simp_all add: covers_def)
  then show ?case by simp
qed simp

lemma heap_wf_chain:
  assumes "tile_chain lo (unat (h_end h)) (sort_key (\<lambda>e. unat (e_start e)) (oa_list (h_index h)))"
  shows "heap_wf lo h"
  using tile_chain_cover [OF assms] tile_chain_sizes [OF assms]
  by (simp add: heap_wf_def heap_entries_def tiled_def)

section \<open>The constructor\<close>

lemma mod_wrap_page: "(n :: nat) mod 4096 = 0 \<Longrightarrow> n mod 4294967296 mod 4096 = 0"
  by (simp add: mod_mod_cancel)

lemma page_up_aligned: "unat (page_up a) mod 4096 = 0"
proof (cases "a AND 0xFFF = 0")
  case True
  then have "unat a mod 4096 = 0" using low12_mod [of a] by simp
  then have "(unat a + 4096) mod 4096 = 0" by simp
  from mod_wrap_page [OF this] show ?thesis
    unfolding page_up_def page_split True by (simp add: unat_word_ariths)
next
  case False
  show ?thesis
    unfolding page_up_off [OF False]
    using mod_wrap_page [OF align_off_unat [of a]] by (simp add: unat_word_ariths)
qed

lemma heap_new_Inr:
  assumes "heap_new start end maxAddr n sv ro mem = Inr h"
  obtains d where "d < end" and "unat d mod 4096 = 0"
    and "oa_list (h_index h) = [\<lparr>e_start = d, e_size = end - d, isHole = True\<rparr>]"
    and "h_end h = end" and "h_used h = d - start" and "oa_maxSize (h_index h) = unat n"
proof -
  define s1 where "s1 = start + 12 * n"
  define d where "d = (if s1 AND 0xFFFF \<noteq> 0 then page_up s1 else s1)"
  from assms obtain idx idx' where idx: "oa_new start (unat n) \<lparr>e_start = 0, e_size = 0, isHole = False\<rparr> mem = Inr idx"
    and ins: "oa_insert IndexSort \<lparr>e_start = d, e_size = end - d, isHole = True\<rparr> idx = Inr idx'"
    and lt: "d < end" and h: "h = \<lparr>h_index = idx', h_start = start, h_end = end, h_max = maxAddr,
       h_used = d - start, h_supervisor = sv, h_readonly = ro\<rparr>"
    unfolding heap_new_def Let_def s1_def [symmetric] d_def [symmetric]
    by (auto simp: rbind_eq_Inr)
  have "oa_list idx = []" and "oa_maxSize idx = unat n"
    using idx by (auto simp: oa_new_def rbind_eq_Inr oa_list_def)
  then have "oa_list idx' = [\<lparr>e_start = d, e_size = end - d, isHole = True\<rparr>]" "oa_maxSize idx' = unat n"
    using oa.ins_ok [OF ins] by simp_all
  moreover have "unat d mod 4096 = 0"
  proof (cases "s1 AND 0xFFFF = 0")
    case True
    have "(s1 AND 0xFFFF) AND 0xFFF = s1 AND 0xFFF" by (simp add: and.assoc)
    with True have "s1 AND 0xFFF = 0" by simp
    with True show ?thesis using low12_mod [of s1] by (simp add: d_def)
  next
    case False
    then show ?thesis using page_up_aligned by (simp add: d_def)
  qed
  ultimately show thesis using that lt h by simp
qed

text \<open>
  A \<open>Heap\<close> whose constructor returns starts as one page-aligned hole up to the end of the
  region, with nothing allocated: the invariant the other operations keep holds.
\<close>

theorem heap_new_correct:
  assumes "heap_new start end maxAddr n sv ro mem = Inr h"
  shows "\<exists>d. heap_wf (unat d) h \<and> unat d mod 4096 = 0 \<and> h_used h = d - start \<and>
    allocated h = {#} \<and> holes h = {#\<lparr>e_start = d, e_size = end - d, isHole = True\<rparr>#}"
proof -
  from assms obtain d where d: "d < end" "unat d mod 4096 = 0"
    "oa_list (h_index h) = [\<lparr>e_start = d, e_size = end - d, isHole = True\<rparr>]"
    "h_end h = end" "h_used h = d - start"
    by (rule heap_new_Inr)
  have "end - d \<noteq> 0" using d(1) by auto
  then have "heap_wf (unat d) h"
    using d by (intro heap_wf_chain) (simp add: unat_sub_nowrap word_less_nat_alt less_imp_le_nat)
  with d show ?thesis by (auto simp: allocated_def holes_def heap_entries_def)
qed

section \<open>A concrete heap\<close>

text \<open>
  Three pages at \<^verbatim>\<open>0x20000000\<close> with room for sixteen entries; \<open>demo_busy\<close> has three blocks
  allocated, the middle one released again.
\<close>

definition demo_heap :: heap where
  "demo_heap = projr (heap_new 0x20000000 0x20003000 0x20003000 16 False False
     (\<lambda>_. \<lparr>e_start = 0, e_size = 0, isHole = False\<rparr>))"

definition demo_busy :: heap where
  "demo_busy = snd (projr (heap_free 0x20001010
     (snd (projr (heap_alloc 0x30 (snd (projr (heap_alloc 0x20 (snd (projr
       (heap_alloc 0x10 demo_heap)))))))))))"

lemma demo_heap_list: "oa_list (h_index demo_heap) =
    [\<lparr>e_start = 0x20001000, e_size = 0x2000, isHole = True\<rparr>]" "h_end demo_heap = 0x20003000"
  by code_simp+

lemma demo_busy_list: "oa_list (h_index demo_busy) =
    [\<lparr>e_start = 0x20001000, e_size = 0x10, isHole = False\<rparr>,
     \<lparr>e_start = 0x20001010, e_size = 0x20, isHole = True\<rparr>,
     \<lparr>e_start = 0x20001030, e_size = 0x30, isHole = False\<rparr>,
     \<lparr>e_start = 0x20001060, e_size = 0x1fa0, isHole = True\<rparr>]" "h_end demo_busy = 0x20003000"
  by code_simp+

lemma demo_heap_wf: "heap_wf 0x20001000 demo_heap"
  by (rule heap_wf_chain) (simp add: demo_heap_list)

lemma demo_busy_wf: "heap_wf 0x20001000 demo_busy"
  by (rule heap_wf_chain) (simp add: demo_busy_list)

theorem heap_new_correct_witness: "\<exists>d :: u32. heap_wf (unat d) demo_heap \<and> allocated demo_heap = {#}"
proof -
  have "\<not> isl (heap_new 0x20000000 0x20003000 0x20003000 16 False False
     (\<lambda>_. \<lparr>e_start = 0, e_size = 0, isHole = False\<rparr>))" by code_simp
  then have "heap_new 0x20000000 0x20003000 0x20003000 16 False False
     (\<lambda>_. \<lparr>e_start = 0, e_size = 0, isHole = False\<rparr>) = Inr demo_heap"
    unfolding demo_heap_def by (metis sum.collapse(2))
  from heap_new_correct [OF this] show ?thesis by blast
qed

lemma result_pair: "\<not> isl r \<Longrightarrow> r = Inr (fst (projr r), snd (projr r))"
  by (metis prod.collapse sum.collapse(2))

theorem heap_alloc_correct_witness:
  "heap_wf 0x20001000 (snd (projr (heap_alloc 0x18 demo_busy)))"
proof -
  have "\<not> isl (heap_alloc 0x18 demo_busy)" by code_simp
  from heap_alloc_correct [OF demo_busy_wf _ result_pair [OF this]] show ?thesis by simp
qed

theorem heap_alloc_total_witness: "\<exists>p h'. heap_alloc 0x18 demo_busy = Inr (p, h')"
proof (rule heap_alloc_total)
  show "oa_list (h_index demo_busy) ! 1 \<in># holes demo_busy"
    by (simp add: demo_busy_list holes_def heap_entries_def del: nth_oa_list)
  show "0x18 \<le> e_size (oa_list (h_index demo_busy) ! 1)"
    by (simp add: demo_busy_list del: nth_oa_list)
  show "size (heap_entries demo_busy) < oa_maxSize (h_index demo_busy)" by code_simp
qed

theorem heap_alloc_disjoint_witness:
  "\<not> (unat (fst (projr (heap_alloc 0x18 demo_busy))) \<le> 0x20001000 \<and>
      0x20001000 < unat (fst (projr (heap_alloc 0x18 demo_busy))) + 0x18)"
proof -
  have ok: "\<not> isl (heap_alloc 0x18 demo_busy)" by code_simp
  have "\<lparr>e_start = 0x20001000, e_size = 0x10, isHole = False\<rparr> \<in># allocated demo_busy" by code_simp
  from heap_alloc_disjoint [OF demo_busy_wf _ result_pair [OF ok] this, of "0x20001000"]
  show ?thesis by (simp add: covers_def)
qed

theorem heap_free_correct_witness:
  "\<exists>h'. heap_free 0x20001000 demo_busy = Inr (True, h') \<and> heap_wf 0x20001000 h'"
proof -
  have "\<lparr>e_start = 0x20001000, e_size = 0x10, isHole = False\<rparr> \<in># allocated demo_busy" by code_simp
  from heap_free_correct [OF demo_busy_wf this refl] show ?thesis by auto
qed

theorem heap_free_unknown_witness: "heap_free 0x20001004 demo_busy = Inr (False, demo_busy)"
  by (rule heap_free_unknown) code_simp

theorem heap_allocAligned_correct_witness:
  "fst (projr (heap_allocAligned 0x100 demo_busy)) AND 0xFFF = 0"
proof -
  have "\<not> isl (heap_allocAligned 0x100 demo_busy)" by code_simp
  moreover have "unat (h_end demo_busy) < 0x20001000 + 2147483648" by (simp add: demo_busy_list)
  ultimately show ?thesis
    using heap_allocAligned_correct [OF demo_busy_wf _ _ _ result_pair, of "0x100"] by simp
qed

theorem heap_alloc_best_fit_witness:
  "\<exists>e \<in># holes demo_heap. e_start e = fst (projr (heap_alloc 0x18 demo_heap))"
proof -
  have "\<not> isl (heap_alloc 0x18 demo_heap)" by code_simp
  moreover have "index_sorted demo_heap" by (simp add: index_sorted_def demo_heap_list)
  ultimately show ?thesis using heap_alloc_best_fit [OF _ result_pair] by blast
qed

section \<open>Where the allocator falls short\<close>

text \<open>
  Releasing a block resizes an entry in place, which can leave the index out of order;
  \<open>smallestHole\<close> then takes the first hole that fits, not the smallest. Below, three blocks and two
  releases leave a hole of 48 bytes ahead of one of 32, and a request of 24 bytes is cut from the larger.
\<close>

definition demo_frag :: heap where
  "demo_frag = snd (projr (heap_free 0x20001000 (snd (projr (heap_free 0x20001010
     (snd (projr (heap_alloc 0x1FB0 (snd (projr (heap_alloc 0x20 (snd (projr
       (heap_alloc 0x10 demo_heap))))))))))))))"

lemma demo_frag_list: "oa_list (h_index demo_frag) =
    [\<lparr>e_start = 0x20001000, e_size = 48, isHole = True\<rparr>,
     \<lparr>e_start = 0x20002FE0, e_size = 32, isHole = True\<rparr>,
     \<lparr>e_start = 0x20001030, e_size = 0x1FB0, isHole = False\<rparr>]"
  by code_simp

text \<open>
  After some releases \<open>smallestHole\<close> does not return a smallest hole: with a 32-byte hole
  free, a request of 24 bytes is given position 0, the 48-byte hole.
\<close>

theorem smallestHole_not_smallest:
  "smallestHole (h_index demo_frag) 24 = Inr 0 \<and> \<not> index_sorted demo_frag \<and>
   e_size (oa_list (h_index demo_frag) ! 0) = 48 \<and> (\<exists>f \<in># holes demo_frag. e_size f = 32)"
proof -
  have sz: "oa_size (h_index demo_frag) = 3"
    using arg_cong [OF demo_frag_list, of length] by simp
  have "oa_cells (h_index demo_frag) 0 = \<lparr>e_start = 0x20001000, e_size = 48, isHole = True\<rparr>"
    using nth_oa_list [of 0 "h_index demo_frag"] sz by (simp add: demo_frag_list del: nth_oa_list)
  then have "smallestHole (h_index demo_frag) 24 = Inr 0"
    using sz by (simp add: smallestHole_def index_scan.simps)
  then show ?thesis
    by (simp add: demo_frag_list index_sorted_def IndexSort_def holes_def heap_entries_def del: nth_oa_list)
qed

text \<open>
  The size test of \<open>smallestAlignedHole\<close> is signed. A request of \<^verbatim>\<open>0x80000000\<close> bytes reads as negative and
  fits every hole, the 32-byte one of \<open>demo_busy\<close> first.
\<close>

text \<open>
  On an 8 KiB heap \<open>Heap::allocAligned(2^31)\<close> returns an address instead of panicking,
  and the index then has a hole that overlaps a block still allocated.
\<close>

theorem heap_allocAligned_huge:
  "\<exists>p h'. heap_allocAligned 0x80000000 demo_busy = Inr (p, h') \<and>
     (\<exists>e \<in># holes h'. \<exists>b \<in># allocated h'. \<exists>x. covers e x \<and> covers b x)"
proof -
  let ?r = "heap_allocAligned 0x80000000 demo_busy"
  have "\<not> isl ?r" by code_simp
  moreover have "oa_list (h_index (snd (projr ?r))) =
      [\<lparr>e_start = 0x20001000, e_size = 16, isHole = False\<rparr>,
       \<lparr>e_start = 0x20001030, e_size = 48, isHole = False\<rparr>,
       \<lparr>e_start = 0x20001010, e_size = 4080, isHole = True\<rparr>,
       \<lparr>e_start = 0x20001060, e_size = 8096, isHole = True\<rparr>,
       \<lparr>e_start = 0xA0002000, e_size = 0x7FFFF030, isHole = True\<rparr>,
       \<lparr>e_start = 0x20002000, e_size = 0x80000000, isHole = False\<rparr>]" by code_simp
  then have "\<lparr>e_start = 0x20001010, e_size = 4080, isHole = True\<rparr> \<in># holes (snd (projr ?r))"
    and "\<lparr>e_start = 0x20001030, e_size = 48, isHole = False\<rparr> \<in># allocated (snd (projr ?r))"
    by (simp_all add: holes_def allocated_def heap_entries_def)
  moreover have "covers \<lparr>e_start = 0x20001010, e_size = 4080, isHole = True\<rparr> 0x20001030"
    and "covers \<lparr>e_start = 0x20001030, e_size = 48, isHole = False\<rparr> 0x20001030"
    by (simp_all add: covers_def)
  ultimately show ?thesis using result_pair by blast
qed

end
