(* ===== verification/Containers.thy ===== *)
theory Containers
  imports Prelude
begin

text \<open>
  \<^verbatim>\<open>src/inc/map\<close>: the associative container of the kernel, a list of pairs searched from the front.
  \<open>find\<close> and both subscripts stop at the first pair with the key, a subscript of an absent key
  appends a default value, and \<open>erase\<close> removes the first pair with the key. Also the traversal
  of a list by its links, which the task list shares: \<open>chain\<close> relates a pointer to the list of nodes it leads through.
\<close>

section \<open>std::map\<close>

fun map_find :: "('k \<times> 'v) list \<Rightarrow> 'k \<Rightarrow> 'v option" where
  "map_find [] k = None"
| "map_find ((k', v) # m) k = (if k = k' then Some v else map_find m k)"

fun map_put :: "('k \<times> 'v) list \<Rightarrow> 'k \<Rightarrow> 'v \<Rightarrow> ('k \<times> 'v) list" where
  "map_put [] k v = [(k, v)]"
| "map_put ((k', v') # m) k v = (if k = k' then (k', v) # m else (k', v') # map_put m k v)"

definition map_index :: "('k \<times> 'v) list \<Rightarrow> 'k \<Rightarrow> 'v \<Rightarrow> 'v \<times> ('k \<times> 'v) list" where
  "map_index m k dflt = (case map_find m k of Some v \<Rightarrow> (v, m) | None \<Rightarrow> (dflt, m @ [(k, dflt)]))"

fun map_erase :: "('k \<times> 'v) list \<Rightarrow> 'k \<Rightarrow> ('k \<times> 'v) list" where
  "map_erase [] k = []"
| "map_erase ((k', v) # m) k = (if k = k' then m else (k', v) # map_erase m k)"

text \<open>What the kernel relies on, whatever the container.\<close>

locale assoc_map =
  fixes look :: "'m \<Rightarrow> 'k \<Rightarrow> 'v option"
    and upd :: "'m \<Rightarrow> 'k \<Rightarrow> 'v \<Rightarrow> 'm"
    and del :: "'m \<Rightarrow> 'k \<Rightarrow> 'm"
    and ok :: "'m \<Rightarrow> bool"
  assumes look_upd: "look (upd m k v) k' = (if k' = k then Some v else look m k')"
    and look_del: "ok m \<Longrightarrow> look (del m k) k' = (if k' = k then None else look m k')"
    and ok_upd: "ok m \<Longrightarrow> ok (upd m k v)"
    and ok_del: "ok m \<Longrightarrow> ok (del m k)"
begin

lemma look_upd_same [simp]: "look (upd m k v) k = Some v"
  by (simp add: look_upd)

lemma look_del_same [simp]: "ok m \<Longrightarrow> look (del m k) k = None"
  by (simp add: look_del)

lemma look_upd_del: "ok m \<Longrightarrow> look (upd (del m k) k v) = look (upd m k v)"
  by (simp add: look_upd look_del fun_eq_iff)

end

lemma map_find_put: "map_find (map_put m k v) k' = (if k' = k then Some v else map_find m k')"
  by (induction m k v rule: map_put.induct) auto

lemma map_find_None: "map_find m k = None \<longleftrightarrow> k \<notin> fst ` set m"
  by (induction m k rule: map_find.induct) auto

lemma map_find_member: "map_find m k = Some v \<Longrightarrow> (k, v) \<in> set m"
  by (induction m k rule: map_find.induct) (auto split: if_splits)

lemma map_find_append: "map_find (m @ m') k = (case map_find m k of Some v \<Rightarrow> Some v | None \<Rightarrow> map_find m' k)"
  by (induction m k rule: map_find.induct) auto

lemma map_find_mem: "map_find m k = Some v \<Longrightarrow> (k, v) \<in> set m"
  by (induction m k rule: map_find.induct) (auto split: if_splits)

lemma map_find_unique: "distinct (map fst m) \<Longrightarrow> (k, v) \<in> set m \<Longrightarrow> map_find m k = Some v"
  by (induction m k rule: map_find.induct) force+

lemma keys_put: "fst ` set (map_put m k v) = insert k (fst ` set m)"
  by (induction m k v rule: map_put.induct) auto

lemma keys_erase: "fst ` set (map_erase m k) \<subseteq> fst ` set m"
  by (induction m k rule: map_erase.induct) auto

lemma distinct_put: "distinct (map fst m) \<Longrightarrow> distinct (map fst (map_put m k v))"
  by (induction m k v rule: map_put.induct) (auto simp: keys_put [simplified])

lemma distinct_erase: "distinct (map fst m) \<Longrightarrow> distinct (map fst (map_erase m k))"
  using keys_erase by (induction m k rule: map_erase.induct) force+

lemma map_find_erase:
  "distinct (map fst m) \<Longrightarrow> map_find (map_erase m k) k' = (if k' = k then None else map_find m k')"
  by (induction m k rule: map_erase.induct) (auto simp: map_find_None, force)

interpretation smap: assoc_map map_find map_put map_erase "\<lambda>m. distinct (map fst m)"
  by unfold_locales (auto simp: map_find_put map_find_erase distinct_put distinct_erase)

section \<open>Linked lists\<close>

text \<open>\<open>chain nx p xs\<close>: from the pointer \<open>p\<close>, the links \<open>nx\<close> lead through exactly \<open>xs\<close> to null.\<close>

primrec chain :: "('a \<Rightarrow> 'a option) \<Rightarrow> 'a option \<Rightarrow> 'a list \<Rightarrow> bool" where
  "chain nx p [] \<longleftrightarrow> p = None"
| "chain nx p (x # xs) \<longleftrightarrow> p = Some x \<and> chain nx (nx x) xs"

lemma chain_unique: "chain nx p xs \<Longrightarrow> chain nx p ys \<Longrightarrow> xs = ys"
proof (induction xs arbitrary: p ys)
  case Nil
  then show ?case by (cases ys) auto
next
  case (Cons x xs)
  then show ?case by (cases ys) auto
qed

lemma chain_append: "chain nx p (xs @ y # ys) \<Longrightarrow> chain nx (Some y) (y # ys)"
  by (induction xs arbitrary: p) auto

lemma chain_distinct: "chain nx p xs \<Longrightarrow> distinct xs"
proof (induction xs arbitrary: p)
  case (Cons x xs)
  have "x \<notin> set xs"
  proof
    assume "x \<in> set xs"
    then obtain ys zs where xs: "xs = ys @ x # zs" by (meson split_list)
    have "chain nx (Some x) (x # zs)"
      using Cons.prems xs chain_append [of nx p "x # ys" x zs] by simp
    moreover have "chain nx (Some x) (x # xs)" using Cons.prems by auto
    ultimately have "x # zs = x # xs" by (rule chain_unique)
    with xs show False by (metis append_is_Nil_conv length_Cons length_append list.sel(3)
        less_add_Suc2 less_not_refl)
  qed
  with Cons show ?case by auto
qed simp

lemma chain_cong:
  "chain nx p xs \<Longrightarrow> (\<And>x. x \<in> set xs \<Longrightarrow> nx' x = nx x) \<Longrightarrow> chain nx' p xs"
  by (induction xs arbitrary: p) auto

text \<open>Bypassing one node: the link into it takes its successor.\<close>

lemma chain_bypass_tail:
  assumes "chain nx p (xs @ y # x # zs)"
  shows "chain (nx(y := nx x)) p (xs @ y # zs)"
proof -
  have "distinct (xs @ y # x # zs)" using assms by (rule chain_distinct)
  moreover have "chain nx (nx x) zs" and "chain nx p (xs @ y # x # zs)"
    using assms chain_append [of nx p "xs @ [y]" x zs] by auto
  ultimately show ?thesis
  proof (induction xs arbitrary: p)
    case Nil
    then show ?case by (auto intro!: chain_cong [of nx])
  next
    case (Cons w xs)
    then show ?case by auto
  qed
qed

end
