(* ===== verification/KernelState.thy ===== *)
theory KernelState
  imports Containers Heap
begin

text \<open>
  The state the kernel keeps about tasks: \<^verbatim>\<open>src/inc/Tasks.hpp\<close>, \<^verbatim>\<open>src/inc/BlockingCall.hpp\<close>,
  \<^verbatim>\<open>src/inc/Timer.hpp\<close>, \<^verbatim>\<open>src/inc/interrupts.hpp\<close>. Kernel objects live in stores and pointers to them are references: a \<open>Task *\<close> is an
  index of the task store, a \<open>Stream *\<close> an index of the stream store (no task or stream is ever
  deleted), a \<open>Listener *\<close> a stream and a position in its listener list, which only grows at
  the end. A null pointer is \<open>None\<close>. A symbol is \<open>None\<close> without content and otherwise the characters before
  the terminator of its copy of the string.
\<close>

type_synonym tref = nat
type_synonym sref = nat
type_synonym symbol = "string option"

section \<open>Registers saved on a kernel stack\<close>

record regs =
  r_ds :: u32
  r_edi :: u32
  r_esi :: u32
  r_ebp :: u32
  r_esp :: u32
  r_ebx :: u32
  r_edx :: u32
  r_ecx :: u32
  r_eax :: u32
  r_int_no :: u32
  r_err_code :: u32
  r_eip :: u32
  r_cs :: u32
  r_eflags :: u32
  r_useresp :: u32
  r_ss :: u32

definition sizeof_callback_registers :: u32 where
  "sizeof_callback_registers = 56"

definition sizeof_modeswitch_registers :: u32 where
  "sizeof_modeswitch_registers = 64"

section \<open>Blocking calls\<close>

text \<open>
  The classes derived from \<open>BlockingCall\<close> with the fields their objects carry. \<open>insttype\<close> is
  the symbol each class returns, \<open>unblockWith\<close> its override or the default that panics.
\<close>

datatype block_state = UNSET | WILL | WONT

datatype blocking_call =
    WaitProcessCall u32
  | ProcessIdByNameCall symbol
  | ReadStreamCall sref nat u32 u32
  | ProbeQueueCall tref u32
  | IRQWaitCall u32 u32
  | NanosleepCall u32 u32 u32

fun insttype :: "blocking_call \<Rightarrow> symbol" where
  "insttype (WaitProcessCall pid) = Some ''WaitProcessCall''"
| "insttype (ProcessIdByNameCall name) = Some ''ProcessIdByNameCall''"
| "insttype (ReadStreamCall s l buffer n) = Some ''ReadStreamCall''"
| "insttype (ProbeQueueCall t reply_to) = Some ''ProbeQueueCall''"
| "insttype (IRQWaitCall timeout wakeeventId) = Some ''IRQWaitCall''"
| "insttype (NanosleepCall tv_sec tv_nsec wakeeventId) = Some ''NanosleepCall''"

fun unblockWith :: "blocking_call \<Rightarrow> u32 \<Rightarrow> bool result" where
  "unblockWith (WaitProcessCall pid) data = Inr (pid = data)"
| "unblockWith (ProbeQueueCall t reply_to) data = Inr (reply_to = data)"
| "unblockWith c data = Inl (KernelPanic ''unblockWith not implemented'')"

definition shallBlock :: "block_state \<Rightarrow> bool result" where
  "shallBlock b = (if b = UNSET then Inl (KernelPanic ''_shallBlock UNSET'') else Inr (b = WILL))"

section \<open>Streams and queues\<close>

record listener =
  l_id :: u32
  l_buffer :: "u8 list option"
  l_hooked :: "tref option"

record stream =
  s_exclusive :: bool
  s_writers :: "u32 list"
  s_listeners :: "listener list"
  s_wl_id :: u32

record queue_item =
  qi_id :: u32
  qi_timestamp :: u32
  qi_from :: u32
  qi_reply_to :: u32
  qi_data_len :: u32
  qi_data :: "u8 list"

section \<open>Tasks\<close>

record task =
  t_next :: "tref option"
  t_priorityNext :: "tref option"
  t_irqListen :: u32
  t_irqListenHits :: u32
  t_userWaiting :: bool
  t_userCall :: "blocking_call option"
  t_id :: u32
  t_name :: string
  t_registeredName :: symbol
  t_cpl :: u8
  t_pageDir :: nat
  t_heap :: "heap option"
  t_heapStart :: u32
  t_heapEnd :: u32
  t_heapMax :: u32
  t_ks :: u32
  t_iomap :: "nat \<Rightarrow> u8"
  t_privMap :: "u8 list"
  t_streamsByName :: "(symbol \<times> sref) list"
  t_replyQueue :: "queue_item list"

record wake_event =
  w_toWake :: tref
  w_uid :: u32
  w_usLeft :: u32

text \<open>
  The kernel: the \<open>Tasks\<close>, \<open>Timer\<close> and \<open>Syscall\<close> singletons and the file-level counters.
  \<open>k_frames\<close> is the memory of the kernel stacks, read as saved registers by address;
  \<open>k_mem\<close> the user memory of each page directory; \<open>k_activeDir\<close>, \<open>k_tss_esp0\<close> and \<open>k_tss_iomap\<close>
  what the processor was given last; \<open>k_garbage\<close> the unspecified contents of fresh memory, read as heap entries.
\<close>

record kernel =
  k_task :: "tref \<Rightarrow> task"
  k_count :: nat
  k_start :: "tref option"
  k_current :: tref
  k_priorityStart :: "tref option"
  k_registered :: "(symbol \<times> tref) list"
  k_byPid :: "(u32 \<times> tref option) list"
  k_lastPid :: u32
  k_stream :: "sref \<Rightarrow> stream"
  k_nstreams :: nat
  k_lastMsgId :: u32
  k_wakeevents :: "wake_event list"
  k_lastWakeId :: u32
  k_usPerTick :: u32
  k_switches :: u32
  k_tickHz :: u32
  k_systemUs :: u32
  k_returnTask :: "tref option"
  k_frames :: "u32 \<Rightarrow> regs"
  k_mem :: "nat \<Rightarrow> u32 \<Rightarrow> u8"
  k_activeDir :: nat
  k_tss_esp0 :: u32
  k_tss_iomap :: "nat \<Rightarrow> u8"
  k_garbage :: "nat \<Rightarrow> entry"
  k_output :: string

text \<open>The object behind a task or stream pointer, and its modification in place.\<close>

definition upd_task :: "tref \<Rightarrow> (task \<Rightarrow> task) \<Rightarrow> kernel \<Rightarrow> kernel" where
  "upd_task t f k = k\<lparr>k_task := (k_task k)(t := f (k_task k t))\<rparr>"

definition upd_stream :: "sref \<Rightarrow> (stream \<Rightarrow> stream) \<Rightarrow> kernel \<Rightarrow> kernel" where
  "upd_stream s f k = k\<lparr>k_stream := (k_stream k)(s := f (k_stream k s))\<rparr>"

abbreviation cur :: "kernel \<Rightarrow> task" where
  "cur k \<equiv> k_task k (k_current k)"

definition upd_cur :: "(task \<Rightarrow> task) \<Rightarrow> kernel \<Rightarrow> kernel" where
  "upd_cur f k = upd_task (k_current k) f k"

text \<open>\<open>memcpy\<close> into the memory of the active page directory.\<close>

fun mem_write :: "(u32 \<Rightarrow> u8) \<Rightarrow> u32 \<Rightarrow> u8 list \<Rightarrow> (u32 \<Rightarrow> u8)" where
  "mem_write m a [] = m"
| "mem_write m a (b # bs) = mem_write (m(a := b)) (a + 1) bs"

definition user_write :: "u32 \<Rightarrow> u8 list \<Rightarrow> kernel \<Rightarrow> kernel" where
  "user_write a bs k = k\<lparr>k_mem := (k_mem k)(k_activeDir k := mem_write (k_mem k (k_activeDir k)) a bs)\<rparr>"

section \<open>Fields an update leaves alone\<close>

named_theorems kernel_simps \<open>reading the kernel state after an update\<close>

lemma upd_task_simps [simp, kernel_simps]:
  "k_task (upd_task t f k) t' = (if t' = t then f (k_task k t) else k_task k t')"
  "k_count (upd_task t f k) = k_count k" "k_start (upd_task t f k) = k_start k"
  "k_current (upd_task t f k) = k_current k" "k_priorityStart (upd_task t f k) = k_priorityStart k"
  "k_registered (upd_task t f k) = k_registered k" "k_byPid (upd_task t f k) = k_byPid k"
  "k_stream (upd_task t f k) = k_stream k" "k_nstreams (upd_task t f k) = k_nstreams k"
  "k_returnTask (upd_task t f k) = k_returnTask k" "k_wakeevents (upd_task t f k) = k_wakeevents k"
  "k_usPerTick (upd_task t f k) = k_usPerTick k" "k_lastMsgId (upd_task t f k) = k_lastMsgId k"
  "k_switches (upd_task t f k) = k_switches k" "k_frames (upd_task t f k) = k_frames k"
  "k_lastWakeId (upd_task t f k) = k_lastWakeId k" "k_mem (upd_task t f k) = k_mem k"
  "k_activeDir (upd_task t f k) = k_activeDir k"
  by (simp_all add: upd_task_def)

lemma upd_cur_simps [simp, kernel_simps]:
  "k_task (upd_cur f k) t' = (if t' = k_current k then f (cur k) else k_task k t')"
  "k_count (upd_cur f k) = k_count k" "k_start (upd_cur f k) = k_start k"
  "k_current (upd_cur f k) = k_current k" "k_priorityStart (upd_cur f k) = k_priorityStart k"
  "k_registered (upd_cur f k) = k_registered k" "k_byPid (upd_cur f k) = k_byPid k"
  "k_stream (upd_cur f k) = k_stream k" "k_nstreams (upd_cur f k) = k_nstreams k"
  "k_returnTask (upd_cur f k) = k_returnTask k" "k_wakeevents (upd_cur f k) = k_wakeevents k"
  "k_lastMsgId (upd_cur f k) = k_lastMsgId k" "k_frames (upd_cur f k) = k_frames k"
  "k_activeDir (upd_cur f k) = k_activeDir k" "k_mem (upd_cur f k) = k_mem k"
  by (simp_all add: upd_cur_def)

lemma upd_stream_simps [simp, kernel_simps]:
  "k_stream (upd_stream s f k) s' = (if s' = s then f (k_stream k s) else k_stream k s')"
  "k_task (upd_stream s f k) = k_task k" "k_count (upd_stream s f k) = k_count k"
  "k_start (upd_stream s f k) = k_start k" "k_current (upd_stream s f k) = k_current k"
  "k_nstreams (upd_stream s f k) = k_nstreams k" "k_registered (upd_stream s f k) = k_registered k"
  "k_mem (upd_stream s f k) = k_mem k" "k_activeDir (upd_stream s f k) = k_activeDir k"
  by (simp_all add: upd_stream_def)

lemma user_write_simps [simp, kernel_simps]:
  "k_task (user_write a bs k) = k_task k" "k_count (user_write a bs k) = k_count k"
  "k_start (user_write a bs k) = k_start k" "k_current (user_write a bs k) = k_current k"
  "k_stream (user_write a bs k) = k_stream k" "k_activeDir (user_write a bs k) = k_activeDir k"
  by (simp_all add: user_write_def)

lemma insttype_wait [simp]: "insttype c = Some ''WaitProcessCall'' \<longleftrightarrow> (\<exists>p. c = WaitProcessCall p)"
  by (cases c) auto

lemma insttype_probe [simp]: "insttype c = Some ''ProbeQueueCall'' \<longleftrightarrow> (\<exists>t r. c = ProbeQueueCall t r)"
  by (cases c) auto

lemma insttype_read [simp]: "insttype c = Some ''ReadStreamCall'' \<longleftrightarrow> (\<exists>s l b n. c = ReadStreamCall s l b n)"
  by (cases c) auto

lemma insttype_irq [simp]: "insttype c = Some ''IRQWaitCall'' \<longleftrightarrow> (\<exists>a b. c = IRQWaitCall a b)"
  by (cases c) auto

lemma insttype_byName [simp]:
  "insttype c = Some ''ProcessIdByNameCall'' \<longleftrightarrow> (\<exists>n. c = ProcessIdByNameCall n)"
  by (cases c) auto

end
