(* ===== verification/Streams.thy ===== *)
theory Streams
  imports KernelState
begin

text \<open>
  \<open>Tasks::Task::Stream\<close>, its \<open>Listener\<close> and \<open>Tasks::Task::Queue\<close> of \<^verbatim>\<open>src/Tasks.cpp\<close>, as operations
  on one stream, listener or queue. What a listener does to the task hooked to it is in the theory of the scheduler.
\<close>

section \<open>Streams\<close>

definition stream_new :: stream where
  "stream_new = \<lparr>s_exclusive = False, s_writers = [], s_listeners = [], s_wl_id = 0\<rparr>"

definition stream_nextId :: "stream \<Rightarrow> u32 \<times> stream" where
  "stream_nextId s = (s_wl_id s + 1, s\<lparr>s_wl_id := s_wl_id s + 1\<rparr>)"

definition registerWriter :: "bool \<Rightarrow> stream \<Rightarrow> u32 \<times> stream" where
  "registerWriter exclusive s =
     (if s_exclusive s then (- 1, s)
      else if exclusive \<and> s_writers s \<noteq> [] then (- 1, s)
      else let (i, s') = stream_nextId (if exclusive then s\<lparr>s_exclusive := True\<rparr> else s)
           in (i, s'\<lparr>s_writers := s_writers s' @ [i]\<rparr>))"

definition listener_new :: "u32 \<Rightarrow> listener" where
  "listener_new i = \<lparr>l_id = i, l_buffer = None, l_hooked = None\<rparr>"

definition registerListener :: "stream \<Rightarrow> u32 \<times> stream" where
  "registerListener s =
     (let (i, s') = stream_nextId s in (i, s'\<lparr>s_listeners := s_listeners s' @ [listener_new i]\<rparr>))"

fun listener_index :: "listener list \<Rightarrow> u32 \<Rightarrow> nat option" where
  "listener_index [] i = None"
| "listener_index (l # ls) i = (if l_id l = i then Some 0 else map_option Suc (listener_index ls i))"

definition getListener :: "stream \<Rightarrow> u32 \<Rightarrow> nat result" where
  "getListener s i =
     (case listener_index (s_listeners s) i of
        Some n \<Rightarrow> Inr n
      | None \<Rightarrow> Inl (KernelPanic ''No matching listener - TODO: something more useful.''))"

definition hasWriter :: "stream \<Rightarrow> u32 \<Rightarrow> bool" where
  "hasWriter s i = list_ex (\<lambda>w. w = i) (s_writers s)"

definition hasListener :: "stream \<Rightarrow> u32 \<Rightarrow> bool" where
  "hasListener s i = list_ex (\<lambda>l. l_id l = i) (s_listeners s)"

section \<open>Listeners\<close>

definition listener_length :: "listener \<Rightarrow> u32" where
  "listener_length l = (case l_buffer l of None \<Rightarrow> 0 | Some b \<Rightarrow> of_nat (length b))"

definition listener_append :: "u8 list \<Rightarrow> listener \<Rightarrow> listener" where
  "listener_append data l =
     (if data = [] then l
      else case l_buffer l of
             None \<Rightarrow> l\<lparr>l_buffer := Some data\<rparr>
           | Some b \<Rightarrow> l\<lparr>l_buffer := Some (b @ data)\<rparr>)"

definition listener_reset :: "listener \<Rightarrow> listener" where
  "listener_reset l = l\<lparr>l_buffer := None\<rparr>"

text \<open>The copying loop of \<open>cut\<close>: \<open>rm\<close> bytes from \<open>rp\<close> to \<open>wp\<close>, lowest first, in the same buffer.\<close>

fun shift_down :: "u8 list \<Rightarrow> nat \<Rightarrow> nat \<Rightarrow> nat \<Rightarrow> u8 list" where
  "shift_down b rp wp 0 = b"
| "shift_down b rp wp (Suc rm) = shift_down (b[wp := b ! rp]) (Suc rp) (Suc wp) rm"

definition listener_cut :: "u32 \<Rightarrow> listener \<Rightarrow> listener" where
  "listener_cut n l =
     (case l_buffer l of
        None \<Rightarrow> l
      | Some b \<Rightarrow>
          if listener_length l \<le> n then l\<lparr>l_buffer := None\<rparr>
          else let rm = length b - unat n in
               l\<lparr>l_buffer := Some (take rm (shift_down b (unat n) 0 rm))\<rparr>)"

definition listener_hook :: "tref \<Rightarrow> listener \<Rightarrow> listener" where
  "listener_hook t l = l\<lparr>l_hooked := Some t\<rparr>"

definition listener_unhook :: "listener \<Rightarrow> listener" where
  "listener_unhook l = l\<lparr>l_hooked := None\<rparr>"

text \<open>
  What a read of at most \<open>n\<close> bytes takes: the front of the buffer is copied out and cut off
  (the part of \<open>ReadStreamCall::operator()\<close> that concerns the listener).
\<close>

definition listener_read :: "u32 \<Rightarrow> listener \<Rightarrow> u8 list \<times> listener" where
  "listener_read n l =
     (let len = (if listener_length l > n then n else listener_length l) in
      (take (unat len) (case l_buffer l of None \<Rightarrow> [] | Some b \<Rightarrow> b), listener_cut len l))"

section \<open>Queues\<close>

definition item_new :: "u32 \<Rightarrow> u32 \<Rightarrow> u32 \<Rightarrow> u32 \<Rightarrow> u8 list \<Rightarrow> queue_item" where
  "item_new i timestamp from reply_to data =
     \<lparr>qi_id = i, qi_timestamp = timestamp, qi_from = from, qi_reply_to = reply_to,
      qi_data_len = of_nat (length data), qi_data = data\<rparr>"

definition queue_shift :: "queue_item list \<Rightarrow> queue_item list" where
  "queue_shift q = (if q = [] then q else tl q)"

definition queue_first :: "queue_item list \<Rightarrow> queue_item option" where
  "queue_first q = (if q = [] then None else Some (hd q))"

definition itemByReplyTo :: "queue_item list \<Rightarrow> u32 \<Rightarrow> queue_item option" where
  "itemByReplyTo q reply_to = find (\<lambda>i. qi_reply_to i = reply_to) q"

definition itemById :: "queue_item list \<Rightarrow> u32 \<Rightarrow> queue_item option" where
  "itemById q i = find (\<lambda>it. qi_id it = i) q"

text \<open>\<open>std::list::remove\<close>: only the first match goes; null matches no item.\<close>

fun queue_remove :: "queue_item list \<Rightarrow> queue_item option \<Rightarrow> queue_item list" where
  "queue_remove q None = q"
| "queue_remove [] (Some it) = []"
| "queue_remove (x # q) (Some it) = (if x = it then q else x # queue_remove q (Some it))"

section \<open>Listener buffers as sequences\<close>

definition pending :: "listener \<Rightarrow> u8 list" where
  "pending l = (case l_buffer l of None \<Rightarrow> [] | Some b \<Rightarrow> b)"

definition listener_ok :: "listener \<Rightarrow> bool" where
  "listener_ok l \<longleftrightarrow> l_buffer l \<noteq> Some [] \<and> length (pending l) < 2 ^ 32"

lemma length_shift_down [simp]: "length (shift_down b rp wp rm) = length b"
  by (induction b rp wp rm rule: shift_down.induct) simp_all

lemma shift_down_nth:
  "wp \<le> rp \<Longrightarrow> rp + rm \<le> length b \<Longrightarrow> i < length b \<Longrightarrow>
   shift_down b rp wp rm ! i = (if wp \<le> i \<and> i < wp + rm then b ! (i + rp - wp) else b ! i)"
proof (induction b rp wp rm arbitrary: i rule: shift_down.induct)
  case (2 b rp wp rm)
  have "shift_down (b[wp := b ! rp]) (Suc rp) (Suc wp) rm ! i =
     (if Suc wp \<le> i \<and> i < Suc wp + rm then b[wp := b ! rp] ! (i + Suc rp - Suc wp)
      else b[wp := b ! rp] ! i)"
    using 2 by (intro "2.IH") simp_all
  then show ?case using "2.prems" by (auto simp: nth_list_update)
qed auto

lemma pending_append [simp]: "pending (listener_append data l) = pending l @ data"
  by (simp add: pending_def listener_append_def split: option.split)

lemma listener_length_pending: "listener_ok l \<Longrightarrow> unat (listener_length l) = length (pending l)"
  by (auto simp: listener_ok_def listener_length_def pending_def unat_of_nat split: option.splits)

lemma take_shift_down:
  assumes "n \<le> length b"
  shows "take (length b - n) (shift_down b n 0 (length b - n)) = drop n b"
  using assms by (intro nth_equalityI) (auto simp: shift_down_nth add.commute)

lemma pending_cut:
  assumes "listener_ok l"
  shows "pending (listener_cut n l) = drop (unat n) (pending l)"
proof (cases "l_buffer l")
  case (Some b)
  show ?thesis
  proof (cases "listener_length l \<le> n")
    case True
    then have "length b \<le> unat n"
      using listener_length_pending [OF assms] Some by (simp add: word_le_nat_alt pending_def)
    with Some True show ?thesis by (simp add: listener_cut_def pending_def)
  next
    case False
    then have "unat n < length b"
      using listener_length_pending [OF assms] Some by (simp add: word_le_nat_alt pending_def)
    then have "take (length b - unat n) (shift_down b (unat n) 0 (length b - unat n)) = drop (unat n) b"
      by (simp add: take_shift_down)
    with Some False show ?thesis by (simp add: listener_cut_def pending_def)
  qed
qed (simp add: listener_cut_def pending_def)

lemma listener_ok_cut: "listener_ok l \<Longrightarrow> listener_ok (listener_cut n l)"
proof -
  assume ok: "listener_ok l"
  have "l_buffer (listener_cut n l) \<noteq> Some []"
  proof (cases "l_buffer l")
    case (Some b)
    show ?thesis
    proof (cases "listener_length l \<le> n")
      case False
      then have "unat n < length b"
        using listener_length_pending [OF ok] Some by (simp add: word_le_nat_alt pending_def)
      with Some False show ?thesis by (auto simp: listener_cut_def Let_def simp flip: length_0_conv)
    qed (simp add: listener_cut_def Some)
  qed (simp add: listener_cut_def)
  moreover have "length (pending (listener_cut n l)) < 2 ^ 32"
    unfolding pending_cut [OF ok] using ok by (auto simp: listener_ok_def)
  ultimately show ?thesis by (simp add: listener_ok_def)
qed

lemma listener_ok_append:
  "listener_ok l \<Longrightarrow> length (pending l) + length data < 2 ^ 32 \<Longrightarrow> listener_ok (listener_append data l)"
  by (auto simp: listener_ok_def listener_append_def pending_def split: option.splits)

lemma listener_ok_new [simp]: "listener_ok (listener_new i)"
  by (simp add: listener_ok_def listener_new_def pending_def)

lemma pending_new [simp]: "pending (listener_new i) = []"
  by (simp add: listener_new_def pending_def)

lemma listener_read_correct:
  assumes "listener_ok l"
  shows "fst (listener_read n l) = take (unat n) (pending l)"
    and "pending (snd (listener_read n l)) = drop (unat n) (pending l)"
    and "listener_ok (snd (listener_read n l))"
proof -
  have len: "unat (listener_length l) = length (pending l)" by (rule listener_length_pending [OF assms])
  show "fst (listener_read n l) = take (unat n) (pending l)"
    using len by (simp add: listener_read_def pending_def Let_def word_less_nat_alt)
  show "pending (snd (listener_read n l)) = drop (unat n) (pending l)"
    using len pending_cut [OF assms] by (simp add: listener_read_def Let_def word_less_nat_alt)
  show "listener_ok (snd (listener_read n l))"
    using listener_ok_cut [OF assms] by (simp add: listener_read_def Let_def)
qed

section \<open>A listener is a lossless first-in first-out channel\<close>

datatype channel_op = Write "u8 list" | Read u32

fun channel_run :: "channel_op list \<Rightarrow> listener \<Rightarrow> u8 list \<times> listener" where
  "channel_run [] l = ([], l)"
| "channel_run (Write d # ops) l = channel_run ops (listener_append d l)"
| "channel_run (Read n # ops) l =
     (let (got, l') = listener_read n l; (rest, l'') = channel_run ops l' in (got @ rest, l''))"

fun written :: "channel_op list \<Rightarrow> u8 list" where
  "written [] = []"
| "written (Write d # ops) = d @ written ops"
| "written (Read n # ops) = written ops"

text \<open>
  Claim C12. Whatever the interleaving of writes and reads, the bytes a fresh listener delivers followed by
  those still pending are exactly the bytes written, in order: nothing is lost, duplicated or reordered.
\<close>

theorem listener_fifo:
  assumes "length (written ops) < 2 ^ 32"
  shows "fst (channel_run ops (listener_new i)) @ pending (snd (channel_run ops (listener_new i)))
    = written ops"
proof -
  have "listener_ok l \<Longrightarrow> length (pending l) + length (written ops) < 2 ^ 32 \<Longrightarrow>
      fst (channel_run ops l) @ pending (snd (channel_run ops l)) = pending l @ written ops" for l
  proof (induction ops l rule: channel_run.induct)
    case (2 d ops l)
    then show ?case using listener_ok_append [of l d] by simp
  next
    case (3 n ops l)
    note rd = listener_read_correct [OF "3.prems"(1), of n]
    have "fst (channel_run ops (snd (listener_read n l))) @
        pending (snd (channel_run ops (snd (listener_read n l)))) =
        pending (snd (listener_read n l)) @ written ops"
      using "3.prems" rd by (intro "3.IH") (auto simp: prod_eq_iff)
    with rd show ?case by (simp add: Let_def split_beta)
  qed simp
  from this [of "listener_new i"] assms show ?thesis by simp
qed

theorem listener_fifo_witness:
  "fst (channel_run [Write [1, 2, 3], Read 2, Write [4], Read 9] (listener_new 7)) @
   pending (snd (channel_run [Write [1, 2, 3], Read 2, Write [4], Read 9] (listener_new 7))) = [1, 2, 3, 4]"
  using listener_fifo [of "[Write [1, 2, 3], Read 2, Write [4], Read 9]" 7] by simp

end
