(* ===== verification/Timer.thy ===== *)
theory Timer
  imports KernelState
begin

text \<open>
  \<^verbatim>\<open>src/Timer.cpp\<close>: the tick and the list of wake events. The events are kept as differences: each
  \<open>usLeft\<close> counts from the moment the event before it fires. The port writes that program the
  timer chip are returned as a list of (port, byte) pairs.
\<close>

section \<open>Operations\<close>

definition setTimer :: "u16 \<Rightarrow> kernel \<Rightarrow> (kernel \<times> (u16 \<times> u8) list) result" where
  "setTimer hz k =
     (if hz = 0 then Inl DivideError
      else let k' = k\<lparr>k_tickHz := ucast hz, k_usPerTick := 1000000 div ucast hz\<rparr>;
               r = ucast ((0x1234dc :: u32) div ucast hz) :: u16 in
           Inr (k'\<lparr>k_output := k_output k' @ (if (1000000 :: u32) mod ucast hz \<noteq> 0
                 then ''Timer: WARNING: selected timer frequency doesn't divide into a second'' @ [CHR 0x0A]
                 else [])\<rparr>,
                [(0x43, 0x36), (0x40, ucast (r AND 0xFF)), (0x40, ucast (drop_bit 8 r AND 0xFF))]))"

definition timer_tick :: "kernel \<Rightarrow> kernel" where
  "timer_tick k0 =
     (let k = k0\<lparr>k_switches := k_switches k0 + 1, k_systemUs := k_systemUs k0 + k_usPerTick k0\<rparr> in
      case k_wakeevents k of
        [] \<Rightarrow> k
      | ev # rest \<Rightarrow>
          if w_usLeft ev > k_usPerTick k
          then k\<lparr>k_wakeevents := ev\<lparr>w_usLeft := w_usLeft ev - k_usPerTick k\<rparr> # rest\<rparr>
          else (upd_task (w_toWake ev) (\<lambda>t. t\<lparr>t_userWaiting := False\<rparr>) k)\<lparr>k_wakeevents := rest\<rparr>)"

text \<open>The loop of \<open>wakeIn\<close>: sum the differences up to the event the new one should precede.\<close>

fun wake_total :: "u32 \<Rightarrow> wake_event list \<Rightarrow> u32 \<Rightarrow> u32" where
  "wake_total us [] runningTotal = runningTotal"
| "wake_total us (e # es) runningTotal =
     (if us < runningTotal + w_usLeft e then runningTotal else wake_total us es (runningTotal + w_usLeft e))"

definition wakeIn :: "u32 \<Rightarrow> tref \<Rightarrow> kernel \<Rightarrow> u32 \<times> kernel" where
  "wakeIn us t k0 =
     (let uid = k_lastWakeId k0 + 1; k = k0\<lparr>k_lastWakeId := uid\<rparr> in
      if k_wakeevents k = []
      then (uid, k\<lparr>k_wakeevents := [\<lparr>w_toWake = t, w_uid = uid, w_usLeft = us\<rparr>]\<rparr>)
      else (uid, k\<lparr>k_wakeevents := k_wakeevents k @
             [\<lparr>w_toWake = t, w_uid = uid, w_usLeft = us - wake_total us (k_wakeevents k) 0\<rparr>]\<rparr>))"

fun desched_list :: "u32 \<Rightarrow> wake_event list \<Rightarrow> wake_event list option" where
  "desched_list uid [] = None"
| "desched_list uid (e # es) =
     (if w_uid e = uid
      then Some (case es of [] \<Rightarrow> [] | f # fs \<Rightarrow> f\<lparr>w_usLeft := w_usLeft f + w_usLeft e\<rparr> # fs)
      else map_option (Cons e) (desched_list uid es))"

definition desched :: "u32 \<Rightarrow> kernel \<Rightarrow> bool \<times> kernel" where
  "desched uid k =
     (case desched_list uid (k_wakeevents k) of
        None \<Rightarrow> (False, k)
      | Some es \<Rightarrow> (True, k\<lparr>k_wakeevents := es\<rparr>))"

section \<open>When events are due\<close>

text \<open>The absolute times, from now, at which the events of the list fire: the running sums of the differences.\<close>

fun due_times :: "nat \<Rightarrow> wake_event list \<Rightarrow> (u32 \<times> nat) list" where
  "due_times now [] = []"
| "due_times now (e # es) = (w_uid e, now + unat (w_usLeft e)) # due_times (now + unat (w_usLeft e)) es"

definition total_wait :: "wake_event list \<Rightarrow> nat" where
  "total_wait es = sum_list (map (\<lambda>e. unat (w_usLeft e)) es)"

lemma due_times_append:
  "due_times now (es @ fs) = due_times now es @ due_times (now + total_wait es) fs"
  by (induction es arbitrary: now) (simp_all add: total_wait_def add.assoc)

lemma total_wait_Cons [simp]: "total_wait (e # es) = unat (w_usLeft e) + total_wait es"
  by (simp add: total_wait_def)

lemma total_wait_Nil [simp]: "total_wait [] = 0"
  by (simp add: total_wait_def)

text \<open>
  Descheduling an event removes exactly it: every other event stays due at the very moment it was
  due before, the time of the removed event being passed on to its successor.
\<close>

theorem desched_keeps_due_times:
  assumes "distinct (map w_uid (k_wakeevents k))" and "total_wait (k_wakeevents k) < 2 ^ 32"
    and "uid \<in> set (map w_uid (k_wakeevents k))"
  shows "\<exists>k'. desched uid k = (True, k') \<and>
    due_times 0 (k_wakeevents k') = filter (\<lambda>d. fst d \<noteq> uid) (due_times 0 (k_wakeevents k))"
proof -
  have keep: "uid \<notin> set (map w_uid es) \<Longrightarrow> filter (\<lambda>d. fst d \<noteq> uid) (due_times now es) = due_times now es"
    for es now by (induction es arbitrary: now) auto
  have "\<exists>es'. desched_list uid es = Some es' \<and>
      due_times now es' = filter (\<lambda>d. fst d \<noteq> uid) (due_times now es)"
    if "distinct (map w_uid es)" "total_wait es < 2 ^ 32" "uid \<in> set (map w_uid es)" for es now
    using that
  proof (induction es arbitrary: now)
    case (Cons e es)
    show ?case
    proof (cases "w_uid e = uid")
      case True
      with Cons.prems have out: "uid \<notin> set (map w_uid es)" by auto
      show ?thesis
      proof (cases es)
        case (Cons f fs)
        have "unat (w_usLeft f + w_usLeft e) = unat (w_usLeft f) + unat (w_usLeft e)"
          using Cons.prems Cons by (intro unat_add_nowrap) simp
        then show ?thesis using True Cons keep [OF out, of "now + unat (w_usLeft e)"]
          by (simp add: ac_simps)
      qed (simp add: True)
    next
      case False
      with Cons.prems have "distinct (map w_uid es)" "total_wait es < 2 ^ 32" "uid \<in> set (map w_uid es)"
        by auto
      from Cons.IH [OF this, of "now + unat (w_usLeft e)"] False show ?thesis by force
    qed
  qed simp
  from this [OF assms, of 0] show ?thesis by (auto simp: desched_def)
qed

lemma wake_total_bounds:
  assumes "unat r + total_wait es < 4294967296" and "unat r \<le> unat us"
  shows "unat (wake_total us es r) \<le> unat us \<and>
    (if unat r + total_wait es \<le> unat us then unat (wake_total us es r) = unat r + total_wait es
     else unat (wake_total us es r) < unat r + total_wait es)"
  using assms
proof (induction es arbitrary: r)
  case (Cons e es)
  have sum: "unat (r + w_usLeft e) = unat r + unat (w_usLeft e)"
    using Cons.prems by (intro unat_add_nowrap) simp
  show ?case
  proof (cases "us < r + w_usLeft e")
    case True
    then have "unat us < unat r + unat (w_usLeft e)" using sum by (simp add: word_less_nat_alt)
    with True Cons.prems show ?thesis by simp
  next
    case False
    then have "unat (r + w_usLeft e) \<le> unat us" by (simp add: word_less_nat_alt)
    with Cons.IH [of "r + w_usLeft e"] Cons.prems sum False show ?thesis by (simp add: ac_simps)
  qed
qed simp

text \<open>
  \<open>Timer::wakeIn(us)\<close> leaves the events already scheduled as they were. The new event fires after
  exactly \<open>us\<close> when no pending event lies beyond that moment; otherwise it fires too late, because it is
  appended to the list although its place was computed.
\<close>

theorem wakeIn_due:
  assumes "total_wait (k_wakeevents k) + unat us < 2 ^ 32"
  shows "\<exists>due. due_times 0 (k_wakeevents (snd (wakeIn us t k))) =
      due_times 0 (k_wakeevents k) @ [(fst (wakeIn us t k), due)] \<and>
    (if total_wait (k_wakeevents k) \<le> unat us then due = unat us else unat us < due)"
proof (cases "k_wakeevents k = []")
  case True
  then show ?thesis by (simp add: wakeIn_def Let_def)
next
  case False
  let ?es = "k_wakeevents k" and ?p = "wake_total us (k_wakeevents k) 0"
  note b = wake_total_bounds [of 0 ?es us]
  have "unat (us - ?p) = unat us - unat ?p"
    using b assms by (intro unat_sub_nowrap) simp
  with False b assms show ?thesis
    by (cases "total_wait ?es \<le> unat us") (simp_all add: wakeIn_def Let_def due_times_append, linarith)
qed

end
