(* ===== verification/Tasks.thy ===== *)
theory Tasks
  imports Streams Timer "HOL-Library.Signed_Division"
begin

text \<open>
  \<^verbatim>\<open>src/Tasks.cpp\<close>: the task list, the choice of the next task, the switch to it, and the
  permissions of a task. A loop over a linked list of tasks gets as fuel the number of tasks that
  exist: a list without a cycle is no longer, so running out of it is exactly not ending (\<open>Diverges\<close>).
\<close>

section \<open>Walking the task list\<close>

fun find_task :: "(task \<Rightarrow> bool) \<Rightarrow> kernel \<Rightarrow> nat \<Rightarrow> tref option \<Rightarrow> tref option result" where
  "find_task P k fuel None = Inr None"
| "find_task P k 0 (Some t) = Inl Diverges"
| "find_task P k (Suc fuel) (Some t) =
     (if P (k_task k t) then Inr (Some t) else find_task P k fuel (t_next (k_task k t)))"

fun for_tasks :: "(tref \<Rightarrow> kernel \<Rightarrow> kernel result) \<Rightarrow> nat \<Rightarrow> tref option \<Rightarrow> kernel \<Rightarrow> kernel result" where
  "for_tasks f fuel None k = Inr k"
| "for_tasks f 0 (Some t) k = Inl Diverges"
| "for_tasks f (Suc fuel) (Some t) k =
     rbind (f t k) (\<lambda>k'. for_tasks f fuel (t_next (k_task k' t)) k')"

definition getTaskById :: "u32 \<Rightarrow> kernel \<Rightarrow> tref option result" where
  "getTaskById pid k = find_task (\<lambda>t. t_id t = pid) k (k_count k) (k_start k)"

section \<open>Choosing the next task\<close>

definition NextTask :: "tref \<Rightarrow> kernel \<Rightarrow> tref result" where
  "NextTask t k =
     (case t_next (k_task k t) of
        Some n \<Rightarrow> Inr n
      | None \<Rightarrow> (case k_start k of Some s \<Rightarrow> Inr s | None \<Rightarrow> Inl NullDeref))"

fun skip_waiting :: "tref \<Rightarrow> kernel \<Rightarrow> nat \<Rightarrow> tref \<Rightarrow> tref result" where
  "skip_waiting t k 0 newCurrent = Inl Diverges"
| "skip_waiting t k (Suc fuel) newCurrent =
     (if t_userWaiting (k_task k newCurrent)
      then rbind (NextTask newCurrent k) (\<lambda>n.
           rbind (assert_that (n \<noteq> t) ''next != t'') (\<lambda>_.
           skip_waiting t k fuel n))
      else Inr newCurrent)"

definition prepareFetchNextTask :: "kernel \<Rightarrow> (tref \<times> kernel) result" where
  "prepareFetchNextTask k =
     (case k_priorityStart k of
        Some t \<Rightarrow>
          Inr (t, upd_task t (\<lambda>x. x\<lparr>t_priorityNext := None\<rparr>)
                    (k\<lparr>k_priorityStart := t_priorityNext (k_task k t)\<rparr>))
      | None \<Rightarrow>
          rbind (NextTask (k_current k) k) (\<lambda>t.
          rbind (if t_userWaiting (k_task k t) then skip_waiting t k (Suc (k_count k)) t else Inr t) (\<lambda>t'.
          Inr (t', k))))"

definition cycleTask :: "kernel \<Rightarrow> kernel result" where
  "cycleTask k = rbind (prepareFetchNextTask k) (\<lambda>(t, k'). Inr (k'\<lparr>k_current := t\<rparr>))"

definition saveRegisterToTask :: "tref \<Rightarrow> u32 \<Rightarrow> kernel \<Rightarrow> kernel result" where
  "saveRegisterToTask dest regs k =
     rbind (assert_that ((r_cs (k_frames k regs) - 0x08) div 0x11 = ucast (t_cpl (k_task k dest)))
              ''regs->callback.cs == dest->cpl'') (\<lambda>_.
     Inr (upd_task dest (\<lambda>t. t\<lparr>t_ks := regs\<rparr>) k))"

section \<open>Permissions\<close>

definition PRIV_GRANT_PRIV :: nat where "PRIV_GRANT_PRIV = 0"
definition PRIV_CONSOLE_WRITE :: nat where "PRIV_CONSOLE_WRITE = 1"
definition PRIV_IRQ :: nat where "PRIV_IRQ = 2"
definition PRIV_MALLOC :: nat where "PRIV_MALLOC = 3"
definition PRIV_PHYSADDR :: nat where "PRIV_PHYSADDR = 4"
definition PRIV_REGISTER_NAME :: nat where "PRIV_REGISTER_NAME = 5"
definition PRIV_POWER_MGMT :: nat where "PRIV_POWER_MGMT = 6"
definition PRIV_COUNT :: nat where "PRIV_COUNT = 7"
definition PRIV_MAP_SIZE :: nat where "PRIV_MAP_SIZE = (PRIV_COUNT + 7) div 8"

definition getIOMap :: "u16 \<Rightarrow> task \<Rightarrow> bool" where
  "getIOMap port t \<longleftrightarrow> t_iomap t (unat (port div 8)) AND push_bit (unat (port mod 8)) 1 = 0"

definition setIOMap :: "u16 \<Rightarrow> bool \<Rightarrow> task \<Rightarrow> task" where
  "setIOMap port enabled t =
     (let i = unat (port div 8); b = push_bit (unat (port mod 8)) 1 in
      t\<lparr>t_iomap := (t_iomap t)(i := if enabled then t_iomap t i AND NOT b else t_iomap t i OR b)\<rparr>)"

definition grantPrivilege :: "nat \<Rightarrow> task \<Rightarrow> task result" where
  "grantPrivilege priv t =
     rbind (assert_that (priv < PRIV_COUNT) ''priv < PRIV_COUNT'') (\<lambda>_.
     Inr (t\<lparr>t_privMap := (t_privMap t)[priv div 8 := t_privMap t ! (priv div 8) OR push_bit (priv mod 8) 1]\<rparr>))"

definition hasPrivilege :: "nat \<Rightarrow> task \<Rightarrow> bool result" where
  "hasPrivilege priv t =
     rbind (assert_that (priv < PRIV_COUNT) ''priv < PRIV_COUNT'') (\<lambda>_.
     Inr (t_privMap t ! (priv div 8) AND push_bit (priv mod 8) 1 \<noteq> 0))"

section \<open>Construction\<close>

definition task_new :: "u8 \<Rightarrow> string \<Rightarrow> kernel \<Rightarrow> (tref \<times> kernel) result" where
  "task_new cpl name k =
     (let pid = k_lastPid k + 1; r = k_count k;
          t = \<lparr>t_next = None, t_priorityNext = None, t_irqListen = 0, t_irqListenHits = 0,
               t_userWaiting = False, t_userCall = None, t_id = pid, t_name = name,
               t_registeredName = None, t_cpl = cpl, t_pageDir = 0, t_heap = None,
               t_heapStart = 0, t_heapEnd = 0, t_heapMax = 0, t_ks = 0, t_iomap = (\<lambda>_. 0xFF),
               t_privMap = replicate PRIV_MAP_SIZE 0, t_streamsByName = [], t_replyQueue = []\<rparr> in
      rbind (grantPrivilege PRIV_CONSOLE_WRITE t) (\<lambda>t1.
      rbind (grantPrivilege PRIV_MALLOC t1) (\<lambda>t2.
      Inr (r, upd_task r (\<lambda>_. t2) (k\<lparr>k_count := Suc r, k_lastPid := pid\<rparr>)))))"

section \<open>Waking a task\<close>

definition unblockType :: "symbol \<Rightarrow> tref \<Rightarrow> kernel \<Rightarrow> kernel" where
  "unblockType ty t k =
     (if t_userWaiting (k_task k t) \<and>
         (case t_userCall (k_task k t) of None \<Rightarrow> False | Some c \<Rightarrow> insttype c = ty)
      then upd_task t (\<lambda>x. x\<lparr>t_userWaiting := False\<rparr>) k else k)"

definition unblockTypeWith :: "symbol \<Rightarrow> u32 \<Rightarrow> tref \<Rightarrow> kernel \<Rightarrow> kernel result" where
  "unblockTypeWith ty data t k =
     (case t_userCall (k_task k t) of
        None \<Rightarrow> Inr k
      | Some c \<Rightarrow>
          if t_userWaiting (k_task k t) \<and> insttype c = ty
          then rbind (unblockWith c data) (\<lambda>b.
               Inr (if b then upd_task t (\<lambda>x. x\<lparr>t_userWaiting := False\<rparr>) k else k))
          else Inr k)"

text \<open>\<open>Listener::append\<close> through the stream: grow the buffer, then wake the task hooked to the listener.\<close>

definition append_listener :: "sref \<Rightarrow> u8 list \<Rightarrow> nat \<Rightarrow> kernel \<Rightarrow> kernel" where
  "append_listener s data i k =
     (if data = [] then k
      else let k' = upd_stream s (\<lambda>x. x\<lparr>s_listeners := (s_listeners x)[i := listener_append data (s_listeners x ! i)]\<rparr>) k in
           case l_hooked (s_listeners (k_stream k s) ! i) of
             None \<Rightarrow> k'
           | Some t \<Rightarrow> unblockType (Some ''ReadStreamCall'') t k')"

definition writeAllListeners :: "sref \<Rightarrow> u8 list \<Rightarrow> kernel \<Rightarrow> kernel" where
  "writeAllListeners s data k =
     fold (append_listener s data) [0..<length (s_listeners (k_stream k s))] k"

section \<open>Running a blocking call\<close>

text \<open>
  \<open>operator()\<close> of each class: its value, whether it blocks, and the object and kernel after it.
  An item of a reply queue is handed out by the address of its \<open>info\<close>; the item's id stands for that
  address, and 0 for null.
\<close>

fun call_run :: "blocking_call \<Rightarrow> kernel \<Rightarrow> (u32 \<times> block_state \<times> blocking_call \<times> kernel) result" where
  "call_run (WaitProcessCall pid) k =
     rbind (find_task (\<lambda>t. t_id t = pid) k (k_count k) (k_start k)) (\<lambda>r.
     Inr (0, (if r \<noteq> None then WILL else WONT), WaitProcessCall pid, k))"
| "call_run (ProcessIdByNameCall name) k =
     Inr (case map_find (k_registered k) name of
            None \<Rightarrow> (0, WILL, ProcessIdByNameCall name, k)
          | Some t \<Rightarrow> (t_id (k_task k t), WONT, ProcessIdByNameCall name, k))"
| "call_run (ReadStreamCall s i buffer n) k =
     (let c = ReadStreamCall s i buffer n; l = s_listeners (k_stream k s) ! i in
      if n = 0 then Inr (0, WONT, c, k)
      else if listener_length l = 0 then Inr (0, WILL, c, k)
      else let (got, l') = listener_read n l in
           Inr (of_nat (length got), WONT, c,
                upd_stream s (\<lambda>x. x\<lparr>s_listeners := (s_listeners x)[i := l']\<rparr>) (user_write buffer got k)))"
| "call_run (ProbeQueueCall t reply_to) k =
     Inr (case (if reply_to = 0 then queue_first (t_replyQueue (k_task k t))
                else itemByReplyTo (t_replyQueue (k_task k t)) reply_to) of
            None \<Rightarrow> (0, WILL, ProbeQueueCall t reply_to, k)
          | Some it \<Rightarrow> (qi_id it, WONT, ProbeQueueCall t reply_to, k))"
| "call_run (IRQWaitCall timeout wakeeventId) k =
     (if t_irqListenHits (cur k) = 0
      then if timeout \<noteq> 0 \<and> wakeeventId = 0
           then let (w, k') = wakeIn (timeout * 1000) (k_current k) k in
                Inr (0, WILL, IRQWaitCall timeout w, k')
           else if timeout \<noteq> 0 then Inr (0, WONT, IRQWaitCall timeout 0, k)
           else Inr (0, WILL, IRQWaitCall timeout wakeeventId, k)
      else rbind (if wakeeventId \<noteq> 0
                  then let (found, k') = desched wakeeventId k in
                       rbind (assert_that found ''mu_timer->desched(wakeeventId)'') (\<lambda>_. Inr k')
                  else Inr k) (\<lambda>k'.
           Inr (1, WONT, IRQWaitCall timeout 0,
                upd_cur (\<lambda>t. t\<lparr>t_irqListenHits := t_irqListenHits t - 1\<rparr>) k')))"
| "call_run (NanosleepCall tv_sec tv_nsec wakeeventId) k =
     (if wakeeventId = 0
      then let (w, k') = wakeIn (tv_sec * 1000000 + word_of_int (sint tv_nsec sdiv 1000)) (k_current k) k in
           Inr (0, WILL, NanosleepCall tv_sec tv_nsec w, k')
      else Inr (0, WONT, NanosleepCall tv_sec tv_nsec wakeeventId, k))"

section \<open>Switching to a task\<close>

definition PROC_HEAP_SIZE :: u32 where "PROC_HEAP_SIZE = 0x10000"

text \<open>\<open>assignInternalTask\<close>: address space, first-time heap, task state segment, and the result of the call it was blocked in.\<close>

definition enter_heap :: "tref \<Rightarrow> kernel \<Rightarrow> kernel result" where
  "enter_heap t k =
     (if t_heap (k_task k t) = None \<and> t_heapStart (k_task k t) \<noteq> t_heapMax (k_task k t)
      then rbind (heap_new (t_heapStart (k_task k t)) (t_heapEnd (k_task k t)) (t_heapMax (k_task k t))
                    PROC_HEAP_SIZE False False (k_garbage k)) (\<lambda>h.
           Inr (upd_task t (\<lambda>x. x\<lparr>t_heap := Some h\<rparr>) k))
      else Inr k)"

definition enter_tss :: "tref \<Rightarrow> kernel \<Rightarrow> kernel" where
  "enter_tss t k =
     (if t_cpl (k_task k t) > 0
      then k\<lparr>k_tss_esp0 := t_ks (k_task k t) + sizeof_modeswitch_registers,
             k_tss_iomap := t_iomap (k_task k t)\<rparr>
      else k)"

definition finish_call :: "tref \<Rightarrow> blocking_call \<Rightarrow> kernel \<Rightarrow> kernel result" where
  "finish_call t c k =
     rbind (call_run c k) (\<lambda>(v, b, c', k').
     let ks = t_ks (k_task k' t);
         k'' = k'\<lparr>k_frames := (k_frames k')(ks := (k_frames k' ks)\<lparr>r_eax := v\<rparr>)\<rparr> in
     rbind (shallBlock b) (\<lambda>blocked.
     rbind (assert_that (\<not> blocked) ''!task->userCall->shallBlock()'') (\<lambda>_.
     Inr (upd_task t (\<lambda>x. x\<lparr>t_userCall := None\<rparr>) k''))))"

definition assignInternalTask :: "tref \<Rightarrow> kernel \<Rightarrow> (u32 \<times> kernel) result" where
  "assignInternalTask t k =
     rbind (enter_heap t (k\<lparr>k_activeDir := t_pageDir (k_task k t)\<rparr>)) (\<lambda>k1.
     let k2 = enter_tss t k1 in
     rbind (if t_userWaiting (k_task k2 t) then Inl (KernelPanic ''task->userWaiting'')
            else case t_userCall (k_task k2 t) of
                   None \<Rightarrow> Inr k2
                 | Some c \<Rightarrow> finish_call t c k2) (\<lambda>k3.
     Inr (t_ks (k_task k3 t), k3)))"

text \<open>The timer interrupt (\<^verbatim>\<open>src/entry.cpp\<close>).\<close>

definition AkariMicrokernel :: "u32 \<Rightarrow> kernel \<Rightarrow> (u32 \<times> kernel) result" where
  "AkariMicrokernel r k =
     rbind (saveRegisterToTask (k_current k) r (timer_tick k)) (\<lambda>k1.
     rbind (cycleTask k1) (\<lambda>k2.
     assignInternalTask (k_current k2) k2))"

end
