(* ===== verification/TaskProps.thy ===== *)
theory TaskProps
  imports Tasks
begin

text \<open>
  The task list as a list, the round-robin choice of the next task, and the permission maps.
\<close>

section \<open>The task list\<close>

definition task_list :: "kernel \<Rightarrow> tref list \<Rightarrow> bool" where
  "task_list k ts \<longleftrightarrow> chain (\<lambda>t. t_next (k_task k t)) (k_start k) ts \<and> set ts \<subseteq> {..<k_count k}"

lemma task_list_length: "task_list k ts \<Longrightarrow> length ts \<le> k_count k"
proof -
  assume "task_list k ts"
  then have "distinct ts" and "set ts \<subseteq> {..<k_count k}"
    by (auto simp: task_list_def dest: chain_distinct)
  then have "card (set ts) \<le> card {..<k_count k}" by (intro card_mono) auto
  with \<open>distinct ts\<close> show ?thesis by (simp add: distinct_card)
qed

lemma find_task_chain:
  "chain (\<lambda>t. t_next (k_task k t)) p xs \<Longrightarrow> length xs \<le> fuel \<Longrightarrow>
   find_task P k fuel p = Inr (find (\<lambda>t. P (k_task k t)) xs)"
proof (induction xs arbitrary: fuel p)
  case (Cons x xs)
  then show ?case by (cases fuel) auto
qed simp

lemma find_task_list:
  "task_list k ts \<Longrightarrow> find_task P k (k_count k) (k_start k) = Inr (find (\<lambda>t. P (k_task k t)) ts)"
  using find_task_chain [of k "k_start k" ts "k_count k"] task_list_length [of k ts]
  by (simp add: task_list_def)

text \<open>A loop body that always returns and changes no link folds over the tasks.\<close>

lemma for_tasks_chain:
  assumes "chain (\<lambda>t. t_next (k_task k t)) p xs" and "length xs \<le> fuel"
    and ok: "\<And>t k'. t \<in> set xs \<Longrightarrow> f t k' = Inr (g t k')"
    and links: "\<And>t k' u. t_next (k_task (g t k') u) = t_next (k_task k' u)"
  shows "for_tasks f fuel p k = Inr (fold g xs k)"
  using assms(1-3)
proof (induction xs arbitrary: fuel p k)
  case (Cons x xs)
  then obtain n where n: "fuel = Suc n" by (cases fuel) auto
  have "chain (\<lambda>t. t_next (k_task (g x k) t)) (t_next (k_task k x)) xs"
    using Cons.prems(1) by (auto simp: links)
  with Cons n show ?case by (simp add: links)
qed simp

lemma chain_nth:
  "chain nx p xs \<Longrightarrow> i < length xs \<Longrightarrow>
   nx (xs ! i) = (if Suc i < length xs then Some (xs ! Suc i) else None)"
proof (induction xs arbitrary: i p)
  case (Cons x xs)
  show ?case
  proof (cases i)
    case 0
    with Cons.prems show ?thesis by (cases xs) auto
  next
    case (Suc j)
    with Cons.prems Cons.IH [of "nx x" j] show ?thesis by simp
  qed
qed simp

lemma chain_hd: "chain nx p xs \<Longrightarrow> xs \<noteq> [] \<Longrightarrow> p = Some (xs ! 0)"
  by (cases xs) auto

lemma NextTask_nth:
  assumes "task_list k ts" and "i < length ts"
  shows "NextTask (ts ! i) k = Inr (ts ! (Suc i mod length ts))"
proof -
  have ch: "chain (\<lambda>t. t_next (k_task k t)) (k_start k) ts" using assms by (simp add: task_list_def)
  have "k_start k = Some (ts ! 0)" using chain_hd [OF ch] assms(2) by (metis length_0_conv not_less0)
  moreover have "Suc i < length ts \<or> Suc i = length ts" using assms(2) by linarith
  ultimately show ?thesis
    using chain_nth [OF ch assms(2)] by (auto simp: NextTask_def)
qed

lemma find_SomeD: "find P xs = Some x \<Longrightarrow> x \<in> set xs \<and> P x"
  by (induction xs) (auto split: if_splits)

lemma find_app: "find P (xs @ ys) = (case find P xs of None \<Rightarrow> find P ys | Some x \<Rightarrow> Some x)"
  by (induction xs) auto

section \<open>Round robin\<close>

lemma skip_waiting_find:
  assumes "\<And>i. i < length ws \<Longrightarrow> NextTask (ws ! i) k = Inr (ws ! (Suc i mod length ws))"
    and "distinct ws" and "i < length ws" and "length ws - i \<le> fuel"
  shows "skip_waiting (ws ! 0) k fuel (ws ! i) =
    (case find (\<lambda>t. \<not> t_userWaiting (k_task k t)) (drop i ws) of
       Some t \<Rightarrow> Inr t | None \<Rightarrow> Inl (AssertFail ''next != t''))"
  using assms(3,4)
proof (induction fuel arbitrary: i)
  case (Suc fuel)
  have d: "drop i ws = ws ! i # drop (Suc i) ws" using Suc.prems by (simp add: Cons_nth_drop_Suc)
  show ?case
  proof (cases "Suc i < length ws")
    case True
    moreover from this have "ws \<noteq> []" by auto
    ultimately have "ws ! Suc i \<noteq> ws ! 0"
      using assms(2) nth_eq_iff_index_eq [of ws "Suc i" 0] by auto
    with True Suc.IH [of "Suc i"] Suc.prems d assms(1) [of i] show ?thesis
      by (simp add: assert_that_def)
  next
    case False
    then have "Suc i = length ws" using Suc.prems by simp
    with d assms(1) [of i] Suc.prems show ?thesis by (simp add: assert_that_def)
  qed
qed simp

text \<open>
  Claim C7. With no priority task queued, the scheduler is round robin: starting after the current task and
  going around the task list back to it, the first task that is not waiting is chosen and nothing changes; if every
  task waits, the assertion fails instead of the search going on for ever.
\<close>

theorem prepareFetchNextTask_round_robin:
  assumes "task_list k (before @ k_current k # after)" and "k_priorityStart k = None"
  shows "prepareFetchNextTask k =
    (case find (\<lambda>t. \<not> t_userWaiting (k_task k t)) (after @ before @ [k_current k]) of
       Some t \<Rightarrow> Inr (t, k) | None \<Rightarrow> Inl (AssertFail ''next != t''))"
proof -
  let ?ts = "before @ k_current k # after" and ?ws = "after @ before @ [k_current k]"
  let ?n = "length ?ws"
  have "rotate (Suc (length before)) ?ts = ?ws"
    using rotate_append [of "before @ [k_current k]" after] by simp
  then have nth: "?ws ! i = ?ts ! ((Suc (length before) + i) mod ?n)" if "i < ?n" for i
    using nth_rotate [of i ?ts "Suc (length before)"] that by (simp add: ac_simps)
  have step: "NextTask (?ws ! i) k = Inr (?ws ! (Suc i mod ?n))" if "i < ?n" for i
  proof -
    have "NextTask (?ws ! i) k = Inr (?ts ! (Suc ((Suc (length before) + i) mod ?n) mod ?n))"
      using NextTask_nth [OF assms(1), of "(Suc (length before) + i) mod ?n"] nth [OF that]
      by (simp add: ac_simps)
    also have "Suc ((Suc (length before) + i) mod ?n) mod ?n = (Suc (length before) + Suc i mod ?n) mod ?n"
      by (metis add_Suc_right mod_Suc_eq mod_add_right_eq)
    also have "?ts ! \<dots> = ?ws ! (Suc i mod ?n)"
      using nth [of "Suc i mod ?n"] by simp
    finally show ?thesis .
  qed
  have dist: "distinct ?ws"
    using assms(1) chain_distinct by (fastforce simp: task_list_def)
  have last: "?ws ! (?n - 1) = k_current k" by (simp add: nth_append)
  have first: "NextTask (k_current k) k = Inr (?ws ! 0)"
    using step [of "?n - 1"] last by simp
  have "?n \<le> Suc (k_count k)" using task_list_length [OF assms(1)] by simp
  then have skip: "skip_waiting (?ws ! 0) k (Suc (k_count k)) (?ws ! 0) =
    (case find (\<lambda>t. \<not> t_userWaiting (k_task k t)) ?ws of
       Some t \<Rightarrow> Inr t | None \<Rightarrow> Inl (AssertFail ''next != t''))"
    using skip_waiting_find [OF step dist, of 0 "Suc (k_count k)"] by simp
  show ?thesis
  proof (cases "t_userWaiting (k_task k (?ws ! 0))")
    case True
    with first skip assms(2) show ?thesis
      by (simp add: prepareFetchNextTask_def del: skip_waiting.simps split: option.split)
  next
    case False
    moreover have "?ws = ?ws ! 0 # tl ?ws" by (cases after; cases before) auto
    ultimately have "find (\<lambda>t. \<not> t_userWaiting (k_task k t)) ?ws = Some (?ws ! 0)"
      by (metis (mono_tags, lifting) find.simps(2))
    with False first assms(2) show ?thesis by (simp add: prepareFetchNextTask_def)
  qed
qed

section \<open>Permission maps\<close>

lemma and_bit_zero: "(x :: u8) AND 2 ^ n = 0 \<longleftrightarrow> \<not> bit x n"
  by (simp add: and_exp_eq_0_iff_not_bit)

lemma bit_bit: "bit (2 ^ m :: u8) n \<longleftrightarrow> m = n \<and> n < 8"
  by (auto simp: bit_exp_iff)

lemma port_eq: "p = q \<longleftrightarrow> unat (p div 8) = unat (q div 8) \<and> unat (p mod 8) = unat ((q :: u16) mod 8)"
proof
  assume "unat (p div 8) = unat (q div 8) \<and> unat (p mod 8) = unat (q mod 8)"
  then have "unat p div 8 = unat q div 8" and "unat p mod 8 = unat q mod 8"
    by (simp_all add: unat_div unat_mod)
  then have "unat p = unat q" by (metis div_mult_mod_eq)
  then show "p = q" by (simp add: word_eq_unat)
qed simp

lemma port_bit: "unat ((p :: u16) mod 8) < 8"
  by (simp add: unat_mod)

text \<open>
  Setting one port in a task's I/O map changes the answer for that port and for no other.
\<close>

theorem getIOMap_setIOMap:
  "getIOMap p (setIOMap q enabled t) = (if p = q then enabled else getIOMap p t)"
proof (cases "unat (p div 8) = unat (q div 8)")
  case True
  then have "p = q \<longleftrightarrow> unat (p mod 8) = unat (q mod 8)" using port_eq [of p q] by simp
  with True port_bit [of p] show ?thesis
    by (auto simp: getIOMap_def setIOMap_def Let_def and_bit_zero bit_and_iff bit_or_iff bit_not_iff bit_bit)
next
  case False
  moreover from this have "p \<noteq> q" by auto
  ultimately show ?thesis by (simp add: getIOMap_def setIOMap_def Let_def)
qed

lemma priv_index:
  assumes "priv < PRIV_COUNT"
  shows "priv div 8 = 0" and "priv mod 8 = priv" and "priv < 8"
  using assms by (simp_all add: PRIV_COUNT_def)

lemma granted:
  assumes "length (t_privMap t) = PRIV_MAP_SIZE" and "priv < PRIV_COUNT" and "q < PRIV_COUNT"
  shows "\<exists>t'. grantPrivilege priv t = Inr t' \<and> length (t_privMap t') = PRIV_MAP_SIZE \<and>
    hasPrivilege q t' = Inr (q = priv \<or> hasPrivilege q t = Inr True) \<and> t_next t' = t_next t"
proof -
  have "length (t_privMap t) = 1" using assms(1) by (simp add: PRIV_MAP_SIZE_def PRIV_COUNT_def)
  with assms priv_index [OF assms(2)] priv_index [OF assms(3)] show ?thesis
    by (auto simp: grantPrivilege_def hasPrivilege_def and_bit_zero bit_or_iff bit_bit)
qed

lemma granted_one:
  assumes "length (t_privMap t) = PRIV_MAP_SIZE" and "priv < PRIV_COUNT"
  shows "\<exists>t'. grantPrivilege priv t = Inr t' \<and> hasPrivilege priv t' = Inr True \<and> t_next t' = t_next t"
  using granted [OF assms assms(2)] by auto

text \<open>
  Granting a privilege to a task gives it that privilege and no other.
\<close>

theorem hasPrivilege_grantPrivilege:
  assumes "length (t_privMap t) = PRIV_MAP_SIZE" and "priv < PRIV_COUNT" and "q < PRIV_COUNT"
  shows "\<exists>t'. grantPrivilege priv t = Inr t' \<and> length (t_privMap t') = PRIV_MAP_SIZE \<and>
    hasPrivilege q t' = Inr (q = priv \<or> hasPrivilege q t = Inr True)"
  using granted [OF assms] by blast

end
