(* ===== verification/UserCalls.thy ===== *)
theory UserCalls
  imports TaskProps
begin

text \<open>
  The system calls of \<^verbatim>\<open>src/UserCalls.cpp\<close>, \<^verbatim>\<open>src/UserPrivs.cpp\<close> and \<^verbatim>\<open>src/Syscall.cpp\<close> that act on the
  calling task. \<open>User::panic\<close> ends the calling process but returns to its caller, as does
  \<open>requirePrivilege\<close> when the check fails: what follows it in a system call still runs. The
  diagnostics that \<open>panic\<close> prints and sends to the debugger are reduced to its message.
\<close>

section \<open>Leaving the current task\<close>

definition returnToTask :: "tref \<Rightarrow> kernel \<Rightarrow> kernel" where
  "returnToTask t k = k\<lparr>k_returnTask := Some t\<rparr>"

definition returnToNextTask :: "kernel \<Rightarrow> kernel result" where
  "returnToNextTask k =
     rbind (prepareFetchNextTask k) (\<lambda>(t, k').
     if t = k_current k' then Inl (KernelPanic ''TODO: let no active processes being running.'')
     else Inr (returnToTask t k'))"

text \<open>A \<open>Task **\<close>: the list head or the link of a task. Following it off the list reads through null.\<close>

datatype link = Head | NextOf tref

fun read_link :: "kernel \<Rightarrow> link \<Rightarrow> tref option" where
  "read_link k Head = k_start k"
| "read_link k (NextOf t) = t_next (k_task k t)"

fun write_link :: "link \<Rightarrow> tref option \<Rightarrow> kernel \<Rightarrow> kernel" where
  "write_link Head v k = k\<lparr>k_start := v\<rparr>"
| "write_link (NextOf t) v k = upd_task t (\<lambda>x. x\<lparr>t_next := v\<rparr>) k"

fun find_link :: "tref \<Rightarrow> kernel \<Rightarrow> nat \<Rightarrow> link \<Rightarrow> link result" where
  "find_link t k 0 l = Inl Diverges"
| "find_link t k (Suc fuel) l =
     (case read_link k l of
        None \<Rightarrow> Inl NullDeref
      | Some u \<Rightarrow> if u = t then Inr l else find_link t k fuel (NextOf u))"

definition unlink_current :: "kernel \<Rightarrow> kernel result" where
  "unlink_current k =
     rbind (find_link (k_current k) k (Suc (k_count k)) Head) (\<lambda>l.
     Inr (write_link l (t_next (cur k)) k))"

definition wake_waiters :: "kernel \<Rightarrow> kernel result" where
  "wake_waiters k =
     for_tasks (\<lambda>t k'. if t = k_current k' then Inr k'
                       else unblockTypeWith (Some ''WaitProcessCall'') (t_id (cur k')) t k')
       (k_count k) (k_start k) k"

definition forget_name :: "kernel \<Rightarrow> kernel" where
  "forget_name k =
     (case find (\<lambda>p. snd p = k_current k) (k_registered k) of
        None \<Rightarrow> k
      | Some p \<Rightarrow> k\<lparr>k_registered := map_erase (k_registered k) (fst p)\<rparr>)"

definition sysexit :: "kernel \<Rightarrow> kernel result" where
  "sysexit k =
     rbind (wake_waiters (forget_name k)) (\<lambda>k1.
     rbind (returnToNextTask k1) (\<lambda>k2.
     unlink_current k2))"

definition user_panic :: "string \<Rightarrow> kernel \<Rightarrow> kernel result" where
  "user_panic s k = sysexit (k\<lparr>k_output := k_output k @ s\<rparr>)"

definition requirePrivilege :: "nat \<Rightarrow> kernel \<Rightarrow> kernel result" where
  "requirePrivilege priv k =
     rbind (assert_that (priv < PRIV_COUNT) ''priv < PRIV_COUNT'') (\<lambda>_.
     rbind (hasPrivilege priv (cur k)) (\<lambda>b.
     if b then Inr k else user_panic ''privilege check fail'' k))"

section \<open>Calls on the calling task\<close>

definition user_putc :: "char \<Rightarrow> kernel \<Rightarrow> kernel result" where
  "user_putc c k =
     rbind (requirePrivilege PRIV_CONSOLE_WRITE k) (\<lambda>k1. Inr (k1\<lparr>k_output := k_output k1 @ [c]\<rparr>))"

definition user_puts :: "string \<Rightarrow> kernel \<Rightarrow> kernel result" where
  "user_puts s k =
     rbind (requirePrivilege PRIV_CONSOLE_WRITE k) (\<lambda>k1. Inr (k1\<lparr>k_output := k_output k1 @ s\<rparr>))"

definition getProcessId :: "kernel \<Rightarrow> u32" where
  "getProcessId k = t_id (cur k)"

text \<open>What every blocking system call does when its call object says it will block.\<close>

definition block_on :: "blocking_call \<Rightarrow> kernel \<Rightarrow> kernel result" where
  "block_on c k = returnToNextTask (upd_cur (\<lambda>t. t\<lparr>t_userWaiting := True, t_userCall := Some c\<rparr>) k)"

definition run_or_block :: "bool \<Rightarrow> blocking_call \<Rightarrow> kernel \<Rightarrow> (u32 \<times> kernel) result" where
  "run_or_block may_block c k =
     rbind (call_run c k) (\<lambda>(v, b, c', k1).
     if \<not> may_block then Inr (v, k1)
     else rbind (shallBlock b) (\<lambda>blocked.
          if \<not> blocked then Inr (v, k1)
          else rbind (block_on c' k1) (\<lambda>k2. Inr (0, k2))))"

definition irqWait :: "kernel \<Rightarrow> kernel result" where
  "irqWait k =
     rbind (requirePrivilege PRIV_IRQ k) (\<lambda>k1.
     rbind (run_or_block True (IRQWaitCall 0 0) k1) (\<lambda>(v, k2). Inr k2))"

definition irqWaitTimeout :: "u32 \<Rightarrow> kernel \<Rightarrow> (u32 \<times> kernel) result" where
  "irqWaitTimeout ms k =
     rbind (requirePrivilege PRIV_IRQ k) (\<lambda>k1. run_or_block True (IRQWaitCall ms 0) k1)"

definition irqListen :: "u32 \<Rightarrow> kernel \<Rightarrow> kernel result" where
  "irqListen irq k =
     rbind (requirePrivilege PRIV_IRQ k) (\<lambda>k1.
     Inr (upd_cur (\<lambda>t. t\<lparr>t_irqListen := irq, t_irqListenHits := 0\<rparr>) k1))"

definition irqCheck :: "kernel \<Rightarrow> bool \<times> kernel" where
  "irqCheck k =
     (if t_irqListenHits (cur k) = 0 then (False, k)
      else (True, upd_cur (\<lambda>t. t\<lparr>t_irqListenHits := t_irqListenHits t - 1\<rparr>) k))"

definition user_ticks :: "kernel \<Rightarrow> u32" where "user_ticks k = k_switches k"

definition user_tickHz :: "kernel \<Rightarrow> u32" where "user_tickHz k = k_tickHz k"

definition user_defer :: "kernel \<Rightarrow> kernel result" where
  "user_defer k = returnToNextTask k"

text \<open>An allocation in the heap of the current process.\<close>

definition cur_alloc :: "u32 \<Rightarrow> kernel \<Rightarrow> (u32 \<times> kernel) result" where
  "cur_alloc n k =
     (case t_heap (cur k) of
        None \<Rightarrow> Inl NullDeref
      | Some h \<Rightarrow> rbind (heap_alloc n h) (\<lambda>(p, h').
          Inr (p, upd_cur (\<lambda>t. t\<lparr>t_heap := Some h'\<rparr>) k)))"

definition user_malloc :: "u32 \<Rightarrow> kernel \<Rightarrow> (u32 \<times> kernel) result" where
  "user_malloc n k =
     rbind (requirePrivilege PRIV_MALLOC k) (\<lambda>k1.
     rbind (assert_that (t_heap (cur k1) \<noteq> None) ''mu_tasks->current->heap'') (\<lambda>_.
     cur_alloc n k1))"

definition user_free :: "u32 \<Rightarrow> kernel \<Rightarrow> kernel result" where
  "user_free p k =
     rbind (requirePrivilege PRIV_MALLOC k) (\<lambda>k1.
     case t_heap (cur k1) of
       None \<Rightarrow> Inl (AssertFail ''mu_tasks->current->heap'')
     | Some h \<Rightarrow> rbind (heap_free p h) (\<lambda>(success, h').
         let k2 = upd_cur (\<lambda>t. t\<lparr>t_heap := Some h'\<rparr>) k1 in
         if success then Inr k2 else user_panic ''free returned false'' k2))"

section \<open>Interrupts\<close>

text \<open>\<open>isr_handler\<close> (\<^verbatim>\<open>src/interrupts.cpp\<close>): an exception without a routine ends the current task.\<close>

definition isr_handler ::
  "(u8 \<Rightarrow> (u32 \<Rightarrow> kernel \<Rightarrow> (u32 \<times> kernel) result) option) \<Rightarrow> u32 \<Rightarrow> kernel \<Rightarrow> (u32 \<times> kernel) result" where
  "isr_handler routines r k =
     (let n = r_int_no (k_frames k r) in
      rbind (assert_that (n < 0x20 \<or> n \<ge> 0x30) ''r->callback.int_no'') (\<lambda>_.
      rbind (case routines (ucast n) of None \<Rightarrow> Inr (0, k) | Some f \<Rightarrow> f r k) (\<lambda>(resume, k1).
      if resume = 0
      then rbind (wake_waiters k1) (\<lambda>k2.
           rbind (prepareFetchNextTask k2) (\<lambda>(t, k3).
           rbind (unlink_current k3) (\<lambda>k4.
           assignInternalTask t (k4\<lparr>k_current := t\<rparr>))))
      else Inr (resume, k1))))"

text \<open>
  \<open>IRQT::callHandler\<close> (\<^verbatim>\<open>src/Descriptor.cpp\<close>): count the hit for every listener, wake those
  that wait for it, queue the runnable ones by priority, and enter the first of the queue.
\<close>

fun append_priority :: "tref \<Rightarrow> kernel \<Rightarrow> nat \<Rightarrow> tref option \<Rightarrow> (kernel \<Rightarrow> kernel) \<Rightarrow> kernel result" where
  "append_priority t k fuel None set_link = Inr (upd_task t (\<lambda>x. x\<lparr>t_priorityNext := None\<rparr>) (set_link k))"
| "append_priority t k 0 (Some u) set_link = Inl Diverges"
| "append_priority t k (Suc fuel) (Some u) set_link =
     append_priority t k fuel (t_priorityNext (k_task k u)) (upd_task u (\<lambda>x. x\<lparr>t_priorityNext := Some t\<rparr>))"

definition irq_listener :: "u32 \<Rightarrow> tref \<Rightarrow> kernel \<Rightarrow> kernel result" where
  "irq_listener irq t k =
     (if t_irqListen (k_task k t) = irq
      then let k1 = unblockType (Some ''IRQWaitCall'') t
                      (upd_task t (\<lambda>x. x\<lparr>t_irqListenHits := t_irqListenHits x + 1\<rparr>) k) in
           if \<not> t_userWaiting (k_task k1 t)
           then append_priority t k1 (k_count k1) (k_priorityStart k1) (\<lambda>k'. k'\<lparr>k_priorityStart := Some t\<rparr>)
           else Inr k1
      else Inr k)"

definition irqt_callHandler ::
  "(u8 \<Rightarrow> bool) \<Rightarrow> u8 \<Rightarrow> u32 \<Rightarrow> kernel \<Rightarrow> (u32 \<times> kernel) result" where
  "irqt_callHandler routine_installed irq r k =
     rbind (for_tasks (irq_listener (ucast irq)) (k_count k) (k_start k) k) (\<lambda>k1.
     case k_priorityStart k1 of
       Some t \<Rightarrow>
         let k2 = upd_task t (\<lambda>x. x\<lparr>t_priorityNext := None\<rparr>)
                    (k1\<lparr>k_priorityStart := t_priorityNext (k_task k1 t)\<rparr>) in
         rbind (saveRegisterToTask (k_current k2) r k2) (\<lambda>k3.
         assignInternalTask t (k3\<lparr>k_current := t\<rparr>))
     | None \<Rightarrow> if routine_installed irq then Inl (KernelPanic ''lol'') else Inr (r, k1))"

definition irq_handler ::
  "(u8 \<Rightarrow> bool) \<Rightarrow> u32 \<Rightarrow> kernel \<Rightarrow> (u32 \<times> kernel \<times> (u16 \<times> u8) list) result" where
  "irq_handler routine_installed r k =
     (let n = r_int_no (k_frames k r) in
      rbind (assert_that (n \<ge> 0x20) ''r->callback.int_no >= 0x20'') (\<lambda>_.
      rbind (irqt_callHandler routine_installed (ucast (n - 0x20)) r k) (\<lambda>(v, k1).
      Inr (v, k1, (if n \<ge> 0x28 then [(0xA0, 0x20)] else []) @ [(0x20, 0x20)]))))"

end
