(* ===== verification/UserIPC.thy ===== *)
theory UserIPC
  imports UserCalls
begin

text \<open>
  \<^verbatim>\<open>src/UserIPC.cpp\<close>, \<^verbatim>\<open>src/UserIPCQueue.cpp\<close> and the system calls of \<^verbatim>\<open>src/UserProcess.cpp\<close> that touch
  no page table: processes and names, streams, message queues, privileges, sleeping. Strings come
  in as the characters before their terminator, buffers as the bytes the call reads.
\<close>

section \<open>Processes and names\<close>

record process_info =
  pi_pid :: u32
  pi_flags :: u32
  pi_name :: u32
  pi_registeredName :: u32
  pi_cpl :: u8

definition sizeof_process_info :: u32 where "sizeof_process_info = 20"

definition cstr :: "string \<Rightarrow> u8 list" where
  "cstr s = map of_char s @ [0]"

text \<open>An optional string of the kernel, copied to the heap of the current process; null when there is none.\<close>

definition copy_out :: "string option \<Rightarrow> kernel \<Rightarrow> (u32 \<times> kernel) result" where
  "copy_out s k =
     (case s of
        None \<Rightarrow> Inr (0, k)
      | Some x \<Rightarrow> rbind (cur_alloc (of_nat (length x) + 1) k) (\<lambda>(p, k1). Inr (p, user_write p (cstr x) k1)))"

definition process_flags :: "tref \<Rightarrow> kernel \<Rightarrow> u32" where
  "process_flags t k =
     (if t_userWaiting (k_task k t) then 1 else 0) OR
     (if t_irqListen (k_task k t) \<noteq> 0 then 2 else 0) OR
     (if t = k_current k then 4 else 0)"

fun process_infos :: "nat \<Rightarrow> tref option \<Rightarrow> kernel \<Rightarrow> (process_info list \<times> kernel) result" where
  "process_infos 0 t k = Inr ([], k)"
| "process_infos (Suc n) None k = Inl NullDeref"
| "process_infos (Suc n) (Some t) k =
     rbind (copy_out (if t_name (k_task k t) \<noteq> [] then Some (t_name (k_task k t)) else None) k) (\<lambda>(nm, k1).
     rbind (copy_out (t_registeredName (k_task k1 t)) k1) (\<lambda>(rn, k2).
     rbind (process_infos n (t_next (k_task k2 t)) k2) (\<lambda>(infos, k3).
     Inr (\<lparr>pi_pid = t_id (k_task k t), pi_flags = process_flags t k, pi_name = nm,
           pi_registeredName = rn, pi_cpl = t_cpl (k_task k t)\<rparr> # infos, k3))))"

fun count_tasks :: "kernel \<Rightarrow> nat \<Rightarrow> tref \<Rightarrow> nat result" where
  "count_tasks k 0 t = Inl Diverges"
| "count_tasks k (Suc fuel) t =
     (case t_next (k_task k t) of None \<Rightarrow> Inr 1 | Some n \<Rightarrow> rbind (count_tasks k fuel n) (\<lambda>c. Inr (Suc c)))"

text \<open>The count, the address of the array in the caller's heap, and its contents.\<close>

definition getProcessList :: "kernel \<Rightarrow> (nat \<times> u32 \<times> process_info list \<times> kernel) result" where
  "getProcessList k =
     (case k_start k of
        None \<Rightarrow> Inl NullDeref
      | Some s \<Rightarrow>
          rbind (count_tasks k (k_count k) s) (\<lambda>pcount.
          rbind (cur_alloc (sizeof_process_info * of_nat pcount) k) (\<lambda>(info, k1).
          rbind (process_infos pcount (k_start k1) k1) (\<lambda>(infos, k2).
          Inr (pcount, info, infos, k2)))))"

definition waitProcess :: "u32 \<Rightarrow> kernel \<Rightarrow> (u32 \<times> kernel) result" where
  "waitProcess pid k = run_or_block True (WaitProcessCall pid) k"

definition processIdByName_impl :: "symbol \<Rightarrow> bool \<Rightarrow> kernel \<Rightarrow> (u32 \<times> kernel) result" where
  "processIdByName_impl name block k = run_or_block block (ProcessIdByNameCall name) k"

definition wake_by_name :: "symbol \<Rightarrow> tref \<Rightarrow> kernel \<Rightarrow> kernel" where
  "wake_by_name sName t k =
     (if t_userWaiting (k_task k t) \<and> t_userCall (k_task k t) = Some (ProcessIdByNameCall sName)
      then upd_task t (\<lambda>x. x\<lparr>t_userWaiting := False\<rparr>) k else k)"

definition registerName :: "u32 \<Rightarrow> symbol \<Rightarrow> kernel \<Rightarrow> (bool \<times> kernel) result" where
  "registerName pid sName k =
     rbind (requirePrivilege PRIV_REGISTER_NAME k) (\<lambda>k0.
     if map_find (k_registered k0) sName \<noteq> None then Inr (False, k0)
     else rbind (getTaskById pid k0) (\<lambda>r.
          case r of
            None \<Rightarrow> Inr (False, k0)
          | Some t \<Rightarrow>
              let k1 = upd_task t (\<lambda>x. x\<lparr>t_registeredName := sName\<rparr>)
                         (k0\<lparr>k_registered := map_put (k_registered k0) sName t\<rparr>) in
              rbind (for_tasks (\<lambda>u k'. Inr (wake_by_name sName u k')) (k_count k1) (k_start k1) k1) (\<lambda>k2.
              Inr (True, k2))))"

section \<open>Streams\<close>

definition registerStream :: "symbol \<Rightarrow> kernel \<Rightarrow> (bool \<times> kernel) result" where
  "registerStream node k =
     (if map_find (t_streamsByName (cur k)) node \<noteq> None
      then Inl (KernelPanic ''node already registered - cannot register atop it'')
      else let s = k_nstreams k;
               k1 = upd_stream s (\<lambda>_. stream_new) (k\<lparr>k_nstreams := Suc s\<rparr>) in
           Inr (True, upd_cur (\<lambda>t. t\<lparr>t_streamsByName := map_put (t_streamsByName t) node s\<rparr>) k1))"

definition getStream :: "u32 \<Rightarrow> symbol \<Rightarrow> kernel \<Rightarrow> sref option result" where
  "getStream pid node k =
     rbind (getTaskById pid k) (\<lambda>r.
     Inr (case r of None \<Rightarrow> None | Some t \<Rightarrow> map_find (t_streamsByName (k_task k t)) node))"

definition obtainStreamWriter :: "u32 \<Rightarrow> symbol \<Rightarrow> bool \<Rightarrow> kernel \<Rightarrow> (u32 \<times> kernel) result" where
  "obtainStreamWriter pid node exclusive k =
     rbind (getStream pid node k) (\<lambda>r.
     Inr (case r of
            None \<Rightarrow> (- 1, k)
          | Some s \<Rightarrow> let (i, st) = registerWriter exclusive (k_stream k s) in (i, upd_stream s (\<lambda>_. st) k)))"

definition obtainStreamListener :: "u32 \<Rightarrow> symbol \<Rightarrow> kernel \<Rightarrow> (u32 \<times> kernel) result" where
  "obtainStreamListener pid node k =
     rbind (getStream pid node k) (\<lambda>r.
     Inr (case r of
            None \<Rightarrow> (- 1, k)
          | Some s \<Rightarrow> let (i, st) = registerListener (k_stream k s) in (i, upd_stream s (\<lambda>_. st) k)))"

text \<open>A call object for a node that does not exist calls \<open>getListener\<close> on a null stream.\<close>

definition read_call :: "u32 \<Rightarrow> symbol \<Rightarrow> u32 \<Rightarrow> u32 \<Rightarrow> u32 \<Rightarrow> kernel \<Rightarrow> blocking_call result" where
  "read_call pid node l buffer n k =
     rbind (getStream pid node k) (\<lambda>r.
     case r of
       None \<Rightarrow> Inl NullDeref
     | Some s \<Rightarrow> rbind (getListener (k_stream k s) l) (\<lambda>i. Inr (ReadStreamCall s i buffer n)))"

fun hook_call :: "blocking_call \<Rightarrow> kernel \<Rightarrow> kernel" where
  "hook_call (ReadStreamCall s i b n) k =
     upd_stream s (\<lambda>x. x\<lparr>s_listeners := (s_listeners x)[i := listener_hook (k_current k) (s_listeners x ! i)]\<rparr>) k"
| "hook_call c k = k"

definition readStream_impl ::
  "u32 \<Rightarrow> symbol \<Rightarrow> u32 \<Rightarrow> u32 \<Rightarrow> u32 \<Rightarrow> bool \<Rightarrow> kernel \<Rightarrow> (u32 \<times> kernel) result" where
  "readStream_impl pid node l buffer n block k =
     rbind (read_call pid node l buffer n k) (\<lambda>c.
     rbind (call_run c k) (\<lambda>(r, b, c', k1).
     if \<not> block then Inr (r, k1)
     else rbind (shallBlock b) (\<lambda>blocked.
          if \<not> blocked then Inr (r, k1)
          else rbind (returnToNextTask (hook_call c'
                   (upd_cur (\<lambda>t. t\<lparr>t_userWaiting := True, t_userCall := Some c'\<rparr>) k1))) (\<lambda>k2.
               Inr (0, k2)))))"

definition writeStream :: "u32 \<Rightarrow> symbol \<Rightarrow> u32 \<Rightarrow> u8 list \<Rightarrow> kernel \<Rightarrow> (u32 \<times> kernel) result" where
  "writeStream pid node writer data k =
     rbind (getStream pid node k) (\<lambda>r.
     Inr (case r of
            None \<Rightarrow> (- 1, k)
          | Some s \<Rightarrow> if \<not> hasWriter (k_stream k s) writer then (- 1, k)
                     else (of_nat (length data), writeAllListeners s data k)))"

section \<open>Message queues\<close>

definition probeQueue_impl :: "bool \<Rightarrow> u32 \<Rightarrow> kernel \<Rightarrow> (u32 \<times> kernel) result" where
  "probeQueue_impl block reply_to k = run_or_block block (ProbeQueueCall (k_current k) reply_to) k"

text \<open>
  The bound is computed on 32-bit values. \<open>memcpy\<close> from beyond the item's data is \<open>OutOfBounds\<close>.
\<close>

definition readQueue :: "u32 \<Rightarrow> u32 \<Rightarrow> u32 \<Rightarrow> u32 \<Rightarrow> kernel \<Rightarrow> (u32 \<times> kernel) result" where
  "readQueue info_id dest offset len k =
     (case itemById (t_replyQueue (cur k)) info_id of
        None \<Rightarrow> Inr (0, k)
      | Some it \<Rightarrow>
          if offset \<ge> qi_data_len it then Inr (qi_id it, k)
          else let n = (if offset + len > qi_data_len it then qi_data_len it - offset else len) in
               if unat offset + unat n > length (qi_data it) then Inl OutOfBounds
               else Inr (n, user_write dest (take (unat n) (drop (unat offset) (qi_data it))) k))"

definition grabQueue :: "u32 \<Rightarrow> u32 \<Rightarrow> kernel \<Rightarrow> (u32 \<times> kernel) result" where
  "grabQueue info_id info_data_len k =
     rbind (cur_alloc info_data_len k) (\<lambda>(data, k1).
     rbind (readQueue info_id data 0 info_data_len k1) (\<lambda>(v, k2). Inr (data, k2)))"

definition shiftQueue :: "u32 \<Rightarrow> kernel \<Rightarrow> kernel" where
  "shiftQueue info_id k =
     upd_cur (\<lambda>t. t\<lparr>t_replyQueue := queue_remove (t_replyQueue t) (itemById (t_replyQueue t) info_id)\<rparr>) k"

definition queue_push_back :: "tref \<Rightarrow> u32 \<Rightarrow> u32 \<Rightarrow> u8 list \<Rightarrow> kernel \<Rightarrow> u32 \<times> kernel" where
  "queue_push_back t from reply_to data k =
     (let i = k_lastMsgId k + 1 in
      (i, upd_task t (\<lambda>x. x\<lparr>t_replyQueue := t_replyQueue x @ [item_new i (k_switches k) from reply_to data]\<rparr>)
            (k\<lparr>k_lastMsgId := i\<rparr>)))"

definition sendQueue :: "u32 \<Rightarrow> u32 \<Rightarrow> u8 list \<Rightarrow> kernel \<Rightarrow> (u32 \<times> kernel) result" where
  "sendQueue pid reply_to data k =
     rbind (getTaskById pid k) (\<lambda>r.
     case r of
       None \<Rightarrow> Inl NullDeref
     | Some t \<Rightarrow>
         let (i, k1) = queue_push_back t (t_id (cur k)) reply_to data k in
         rbind (unblockTypeWith (Some ''ProbeQueueCall'') reply_to t k1) (\<lambda>k2. Inr (i, k2)))"

section \<open>Privileges, starting and sleeping\<close>

text \<open>A subscript of \<open>tasksByPid\<close> enters a null pointer for a pid that is not in the map.\<close>

definition task_by_pid :: "u32 \<Rightarrow> kernel \<Rightarrow> tref option \<times> kernel" where
  "task_by_pid pid k = (let (v, m) = map_index (k_byPid k) pid None in (v, k\<lparr>k_byPid := m\<rparr>))"

definition user_grantPrivilege :: "u32 \<Rightarrow> u16 \<Rightarrow> kernel \<Rightarrow> (bool \<times> kernel) result" where
  "user_grantPrivilege taskpid priv k =
     rbind (requirePrivilege PRIV_GRANT_PRIV k) (\<lambda>k1.
     case task_by_pid taskpid k1 of
       (None, k2) \<Rightarrow> Inr (False, k2)
     | (Some t, k2) \<Rightarrow> rbind (grantPrivilege (unat priv) (k_task k2 t)) (\<lambda>t'.
         Inr (True, upd_task t (\<lambda>_. t') k2)))"

definition user_grantIOPriv :: "u32 \<Rightarrow> u16 \<Rightarrow> kernel \<Rightarrow> (bool \<times> kernel) result" where
  "user_grantIOPriv taskpid port k =
     rbind (requirePrivilege PRIV_GRANT_PRIV k) (\<lambda>k1.
     Inr (case task_by_pid taskpid k1 of
            (None, k2) \<Rightarrow> (False, k2)
          | (Some t, k2) \<Rightarrow> (True, upd_task t (setIOMap port True) k2)))"

definition beginExecution :: "u32 \<Rightarrow> kernel \<Rightarrow> bool \<times> kernel" where
  "beginExecution taskpid k =
     (case task_by_pid taskpid k of
        (None, k1) \<Rightarrow> (False, k1)
      | (Some t, k1) \<Rightarrow> (True, (upd_task t (\<lambda>x. x\<lparr>t_next := k_start k1\<rparr>) k1)\<lparr>k_start := Some t\<rparr>))"

definition user_nanosleep :: "u32 \<Rightarrow> u32 \<Rightarrow> bool \<Rightarrow> kernel \<Rightarrow> (u32 \<times> kernel) result" where
  "user_nanosleep tv_sec tv_nsec has_rem k =
     rbind (if has_rem then user_panic ''Whoops! 'rem' is ignored in nanosleep.'' k else Inr k) (\<lambda>k1.
     run_or_block True (NanosleepCall tv_sec tv_nsec 0) k1)"

end
