(* ===== verification/ExitProps.thy ===== *)
theory ExitProps
  imports UserIPC
begin

text \<open>
  How a process leaves: the task list, the processes waiting for it and the choice of its successor
  (\<open>User::sysexit\<close>), and what a failed privilege check does and does not prevent.
\<close>

section \<open>Waking the waiters\<close>

definition waits_for :: "u32 \<Rightarrow> task \<Rightarrow> bool" where
  "waits_for pid t \<longleftrightarrow> t_userWaiting t \<and> t_userCall t = Some (WaitProcessCall pid)"

definition wake_pid :: "u32 \<Rightarrow> tref \<Rightarrow> kernel \<Rightarrow> kernel" where
  "wake_pid pid t k =
     (if waits_for pid (k_task k t) then upd_task t (\<lambda>x. x\<lparr>t_userWaiting := False\<rparr>) k else k)"

lemma unblockTypeWith_wait: "unblockTypeWith (Some ''WaitProcessCall'') pid t k = Inr (wake_pid pid t k)"
  by (auto simp: unblockTypeWith_def wake_pid_def waits_for_def split: option.split if_splits)

definition woken :: "u32 \<Rightarrow> tref \<Rightarrow> kernel \<Rightarrow> tref list \<Rightarrow> kernel" where
  "woken pid c k xs = k\<lparr>k_task := (\<lambda>u. if u \<in> set xs \<and> u \<noteq> c \<and> waits_for pid (k_task k u)
     then (k_task k u)\<lparr>t_userWaiting := False\<rparr> else k_task k u)\<rparr>"

lemma woken_simps [simp]:
  "k_start (woken pid c k xs) = k_start k" "k_current (woken pid c k xs) = k_current k"
  "k_count (woken pid c k xs) = k_count k" "k_priorityStart (woken pid c k xs) = k_priorityStart k"
  "k_registered (woken pid c k xs) = k_registered k"
  "t_next (k_task (woken pid c k xs) u) = t_next (k_task k u)"
  "k_task (woken pid c k xs) c = k_task k c"
  by (simp_all add: woken_def)

lemma fold_wake:
  "fold (\<lambda>t k'. if t = c then k' else wake_pid pid t k') xs k = woken pid c k xs"
proof (induction xs arbitrary: k)
  case (Cons x xs)
  have "woken pid c (if x = c then k else wake_pid pid x k) xs = woken pid c k (x # xs)"
    by (auto simp: woken_def wake_pid_def upd_task_def waits_for_def fun_eq_iff)
  with Cons show ?case by simp
qed (simp add: woken_def)

text \<open>The loop body reads the current task anew each time; it is the same one throughout.\<close>

lemma wake_waiters_list:
  assumes "task_list k ts"
  shows "wake_waiters k = Inr (woken (t_id (cur k)) (k_current k) k ts)"
proof -
  define c pid where "c = k_current k" and "pid = t_id (cur k)"
  let ?f = "\<lambda>t k'. if t = k_current k' then Inr k'
      else unblockTypeWith (Some ''WaitProcessCall'') (t_id (cur k')) t k'"
  let ?g = "\<lambda>t k'. if t = c then k' else wake_pid pid t k'"
  have "for_tasks ?f fuel p k' = Inr (fold ?g xs k')"
    if "chain (\<lambda>t. t_next (k_task k' t)) p xs" "length xs \<le> fuel"
      "k_current k' = c" "t_id (k_task k' c) = pid" for fuel p xs k'
    using that
  proof (induction xs arbitrary: fuel p k')
    case (Cons x xs)
    then obtain n where n: "fuel = Suc n" by (cases fuel) auto
    have "chain (\<lambda>t. t_next (k_task (?g x k') t)) (t_next (k_task (?g x k') x)) xs"
      using Cons.prems(1) by (auto simp: wake_pid_def intro: chain_cong)
    moreover have "k_current (?g x k') = c" "t_id (k_task (?g x k') c) = pid"
      using Cons.prems by (simp_all add: wake_pid_def)
    ultimately show ?case
      using Cons.IH [of "?g x k'"] Cons.prems n by (auto simp: unblockTypeWith_wait)
  qed simp
  from this [of k "k_start k" ts "k_count k"] assms task_list_length [OF assms]
  show ?thesis by (simp add: wake_waiters_def task_list_def fold_wake c_def pid_def)
qed

section \<open>Unlinking the current task\<close>

lemma find_link_chain:
  assumes "chain (\<lambda>t. t_next (k_task k t)) (read_link k l) (bef @ t # aft)" and "t \<notin> set bef"
    and "length bef < fuel"
  shows "find_link t k fuel l = Inr (if bef = [] then l else NextOf (last bef))"
  using assms
proof (induction bef arbitrary: l fuel)
  case Nil
  then show ?case by (cases fuel) simp_all
next
  case (Cons b bef)
  then obtain n where "fuel = Suc n" by (cases fuel) auto
  with Cons.prems Cons.IH [of "NextOf b" n] show ?case by auto
qed

lemma unlink_current_list:
  assumes "task_list k (bef @ k_current k # aft)"
  obtains k' where "unlink_current k = Inr k'" and "task_list k' (bef @ aft)"
    and "\<forall>u. k_task k' u = (k_task k u)\<lparr>t_next := t_next (k_task k' u)\<rparr>"
    and "k_returnTask k' = k_returnTask k" and "k_registered k' = k_registered k"
    and "k_current k' = k_current k" and "k_byPid k' = k_byPid k"
proof -
  let ?nx = "\<lambda>t. t_next (k_task k t)"
  have ch: "chain ?nx (k_start k) (bef @ k_current k # aft)" and cnt: "set (bef @ aft) \<subseteq> {..<k_count k}"
    using assms by (auto simp: task_list_def)
  have dist: "k_current k \<notin> set bef" using chain_distinct [OF ch] by simp
  have fuel: "length bef < Suc (k_count k)" using task_list_length [OF assms] by simp
  have link: "find_link (k_current k) k (Suc (k_count k)) Head =
      Inr (if bef = [] then Head else NextOf (last bef))"
    using find_link_chain [where l = Head, OF _ dist fuel] ch by simp
  show thesis
  proof (cases bef rule: rev_cases)
    case Nil
    have "chain ?nx (t_next (cur k)) aft" using ch Nil by simp
    with link Nil cnt that show thesis
      by (simp add: unlink_current_def task_list_def)
  next
    case (snoc xs y)
    have "chain (?nx(y := t_next (cur k))) (k_start k) (xs @ y # aft)"
      using chain_bypass_tail [of ?nx "k_start k" xs y "k_current k" aft] ch snoc by simp
    then have "chain (\<lambda>t. t_next (k_task (upd_task y (\<lambda>x. x\<lparr>t_next := t_next (cur k)\<rparr>) k) t))
        (k_start k) (xs @ y # aft)"
      by (rule chain_cong) simp
    with link snoc cnt that show thesis
      by (simp add: unlink_current_def task_list_def)
  qed
qed

section \<open>Leaving\<close>

lemma forget_name_simps [simp]:
  "k_task (forget_name k) = k_task k" "k_start (forget_name k) = k_start k"
  "k_current (forget_name k) = k_current k" "k_count (forget_name k) = k_count k"
  "k_priorityStart (forget_name k) = k_priorityStart k" "k_byPid (forget_name k) = k_byPid k"
  by (auto simp: forget_name_def split: option.split)

lemma task_list_woken [simp]: "task_list (woken pid c k xs) ts \<longleftrightarrow> task_list k ts"
  by (simp add: task_list_def)

lemma sysexit_list:
  assumes list: "task_list k (bef @ k_current k # aft)" and prio: "k_priorityStart k = None"
    and other: "u \<in> set (bef @ aft)" "\<not> t_userWaiting (k_task k u)"
  obtains k' n where "sysexit k = Inr k'" and "task_list k' (bef @ aft)"
    and "k_returnTask k' = Some n" and "n \<in> set (bef @ aft)" and "\<not> t_userWaiting (k_task k' n)"
    and "\<forall>u. k_task k' u = (k_task (woken (t_id (cur k)) (k_current k) k (bef @ k_current k # aft)) u)
           \<lparr>t_next := t_next (k_task k' u)\<rparr>"
    and "k_registered k' = k_registered (forget_name k)" and "k_byPid k' = k_byPid k"
    and "k_current k' = k_current k"
proof -
  let ?ts = "bef @ k_current k # aft"
  define k1 where "k1 = woken (t_id (cur k)) (k_current k) (forget_name k) ?ts"
  have list0: "task_list (forget_name k) ?ts" using list by (simp add: task_list_def)
  have k1: "wake_waiters (forget_name k) = Inr k1"
    using wake_waiters_list [OF list0] by (simp add: k1_def)
  have list1: "task_list k1 (bef @ k_current k1 # aft)" using list0 by (simp add: k1_def)
  let ?ok = "\<lambda>t. \<not> t_userWaiting (k_task k1 t)"
  have "u \<in> set (aft @ bef)" and "?ok u"
    using other by (auto simp: k1_def woken_def)
  then obtain n where n: "find ?ok (aft @ bef) = Some n"
    using find_None_iff [of ?ok "aft @ bef"] by (cases "find ?ok (aft @ bef)") auto
  then have nmem: "n \<in> set (aft @ bef)" and nok: "?ok n"
    by (auto dest: find_SomeD)
  have "find ?ok (aft @ bef @ [k_current k1]) = Some n"
    using n find_app [of ?ok "aft @ bef"] by simp
  then have prep: "prepareFetchNextTask k1 = Inr (n, k1)"
    using prepareFetchNextTask_round_robin [OF list1] prio by (simp add: k1_def)
  have "n \<noteq> k_current k1"
    using nmem list1 chain_distinct by (fastforce simp: task_list_def)
  then have ret: "returnToNextTask k1 = Inr (returnToTask n k1)"
    using prep by (simp add: returnToNextTask_def)
  have "task_list (returnToTask n k1) (bef @ k_current (returnToTask n k1) # aft)"
    using list1 by (simp add: returnToTask_def task_list_def)
  then obtain k' where un: "unlink_current (returnToTask n k1) = Inr k'" and l': "task_list k' (bef @ aft)"
    and tk: "\<forall>u. k_task k' u = (k_task (returnToTask n k1) u)\<lparr>t_next := t_next (k_task k' u)\<rparr>"
    and rt: "k_returnTask k' = k_returnTask (returnToTask n k1)"
    and rg: "k_registered k' = k_registered (returnToTask n k1)"
    and cr: "k_current k' = k_current (returnToTask n k1)"
    and bp: "k_byPid k' = k_byPid (returnToTask n k1)"
    by (rule unlink_current_list)
  have "\<not> t_userWaiting (k_task k' n)"
    using arg_cong [OF spec [OF tk, of n], of t_userWaiting] nok by (simp add: returnToTask_def)
  moreover have "k_task (returnToTask n k1) = k_task (woken (t_id (cur k)) (k_current k) k ?ts)"
    by (auto simp: returnToTask_def k1_def woken_def fun_eq_iff)
  moreover have "sysexit k = Inr k'" by (simp add: sysexit_def k1 ret un)
  moreover have "k_returnTask k' = Some n" by (simp add: rt returnToTask_def)
  moreover have "k_registered k' = k_registered (forget_name k)" "k_current k' = k_current k"
    by (simp_all add: rg cr returnToTask_def k1_def)
  moreover have "k_byPid k' = k_byPid k" by (simp add: bp returnToTask_def k1_def woken_def)
  moreover have "n \<in> set (bef @ aft)" using nmem by auto
  ultimately show thesis using that [of k' n] l' tk by simp
qed

text \<open>
  Claim C9. While another task can run, \<open>sysexit\<close> returns and removes exactly the calling task from the task
  list; it wakes the tasks blocked in \<open>waitProcess\<close> for its pid and no other, and the task
  chosen to run next is one of the list that is not waiting.
\<close>

theorem sysexit_correct:
  assumes "task_list k (bef @ k_current k # aft)" and "k_priorityStart k = None"
    and "u \<in> set (bef @ aft)" and "\<not> t_userWaiting (k_task k u)"
  shows "\<exists>k' n. sysexit k = Inr k' \<and> task_list k' (bef @ aft) \<and>
    k_returnTask k' = Some n \<and> n \<in> set (bef @ aft) \<and> \<not> t_userWaiting (k_task k' n) \<and>
    (\<forall>v \<in> set (bef @ aft). t_userWaiting (k_task k' v) \<longleftrightarrow>
       t_userWaiting (k_task k v) \<and> t_userCall (k_task k v) \<noteq> Some (WaitProcessCall (t_id (cur k))))"
proof -
  from assms obtain k' n where k': "sysexit k = Inr k'" "task_list k' (bef @ aft)"
    "k_returnTask k' = Some n" "n \<in> set (bef @ aft)" "\<not> t_userWaiting (k_task k' n)"
    and tk: "\<forall>u. k_task k' u = (k_task (woken (t_id (cur k)) (k_current k) k (bef @ k_current k # aft)) u)
           \<lparr>t_next := t_next (k_task k' u)\<rparr>"
    by (rule sysexit_list)
  have "t_userWaiting (k_task k' v) \<longleftrightarrow>
      t_userWaiting (k_task k v) \<and> t_userCall (k_task k v) \<noteq> Some (WaitProcessCall (t_id (cur k)))"
    if "v \<in> set (bef @ aft)" for v
  proof -
    have "v \<noteq> k_current k" using that assms(1) chain_distinct by (fastforce simp: task_list_def)
    then show ?thesis
      using arg_cong [OF spec [OF tk, of v], of t_userWaiting] that
      by (auto simp: woken_def waits_for_def)
  qed
  with k' show ?thesis by blast
qed

section \<open>A failed privilege check\<close>

lemma woken_task_privs: "t_privMap (k_task (woken p c k xs) u) = t_privMap (k_task k u)"
  by (simp add: woken_def)

text \<open>
  Claim C13. A privilege check that fails does not stop the call that made it. A task without
  \<open>PRIV_GRANT_PRIV\<close> that calls \<open>grantPrivilege\<close> is taken off the task list, and yet the privilege it named is
  granted to the task it named.
\<close>

theorem grantPrivilege_unprivileged:
  assumes "task_list k (bef @ k_current k # aft)" and "k_priorityStart k = None"
    and "u \<in> set (bef @ aft)" and "\<not> t_userWaiting (k_task k u)"
    and "hasPrivilege PRIV_GRANT_PRIV (cur k) = Inr False"
    and "map_find (k_byPid k) pid = Some (Some t)" and "length (t_privMap (k_task k t)) = PRIV_MAP_SIZE"
    and "unat priv < PRIV_COUNT"
  shows "\<exists>k'. user_grantPrivilege pid priv k = Inr (True, k') \<and> task_list k' (bef @ aft) \<and>
    hasPrivilege (unat priv) (k_task k' t) = Inr True"
proof -
  define k0 where "k0 = k\<lparr>k_output := k_output k @ ''privilege check fail''\<rparr>"
  have list: "task_list k0 (bef @ k_current k0 # aft)" and prio: "k_priorityStart k0 = None"
    and other: "\<not> t_userWaiting (k_task k0 u)"
    using assms by (simp_all add: k0_def task_list_def)
  from sysexit_list [OF list prio assms(3) other] obtain k1 where
    k1: "sysexit k0 = Inr k1" "task_list k1 (bef @ aft)"
    and tk: "\<forall>u. k_task k1 u = (k_task (woken (t_id (cur k0)) (k_current k0) k0
        (bef @ k_current k0 # aft)) u)\<lparr>t_next := t_next (k_task k1 u)\<rparr>"
    and bp: "k_byPid k1 = k_byPid k0"
    by blast
  have req: "requirePrivilege PRIV_GRANT_PRIV k = Inr k1"
    using assms(5) k1(1)
    by (simp add: requirePrivilege_def user_panic_def k0_def PRIV_GRANT_PRIV_def PRIV_COUNT_def)
  have lookup: "task_by_pid pid k1 = (Some t, k1)"
    using assms(6) bp by (simp add: task_by_pid_def map_index_def k0_def)
  have "t_privMap (k_task k1 t) = t_privMap (k_task k t)"
    using arg_cong [OF spec [OF tk, of t], of t_privMap] by (simp add: woken_task_privs k0_def)
  then have len: "length (t_privMap (k_task k1 t)) = PRIV_MAP_SIZE" using assms(7) by simp
  obtain t' where "grantPrivilege (unat priv) (k_task k1 t) = Inr t'"
    and "hasPrivilege (unat priv) t' = Inr True" and "t_next t' = t_next (k_task k1 t)"
    using granted_one [OF len assms(8)] by blast
  then have "user_grantPrivilege pid priv k = Inr (True, upd_task t (\<lambda>_. t') k1)"
    and "task_list (upd_task t (\<lambda>_. t') k1) (bef @ aft)"
    and "hasPrivilege (unat priv) (k_task (upd_task t (\<lambda>_. t') k1) t) = Inr True"
    using req lookup k1(2) by (auto simp: user_grantPrivilege_def task_list_def intro: chain_cong)
  then show ?thesis by blast
qed

end
