(* ===== verification/IPCProps.thy ===== *)
theory IPCProps
  imports ExitProps
begin

text \<open>
  Message queues, names and the start of a process: what a message delivers and whom it wakes,
  the exact condition under which \<open>readQueue\<close> leaves the item, and what starting a process twice does to the task list.
\<close>

section \<open>Messages\<close>

lemma unblockTypeWith_probe:
  "unblockTypeWith (Some ''ProbeQueueCall'') r t k =
     Inr (if t_userWaiting (k_task k t) \<and> (\<exists>u. t_userCall (k_task k t) = Some (ProbeQueueCall u r))
          then upd_task t (\<lambda>x. x\<lparr>t_userWaiting := False\<rparr>) k else k)"
  by (auto simp: unblockTypeWith_def split: option.split if_splits)

lemma getTaskById_list:
  "task_list k ts \<Longrightarrow> getTaskById pid k = Inr (find (\<lambda>t. t_id (k_task k t) = pid) ts)"
  unfolding getTaskById_def by (rule find_task_list)

text \<open>
  Claim C11. A message sent to a process of the task list is appended to its queue with a fresh id, the
  sender's pid and the reply tag; the receiver is woken exactly when it is blocked in a probe for that very
  tag; nothing else changes in any task.
\<close>

theorem sendQueue_delivers:
  assumes "task_list k ts" and "find (\<lambda>t. t_id (k_task k t) = pid) ts = Some t"
  shows "\<exists>k'. sendQueue pid reply_to data k = Inr (k_lastMsgId k + 1, k') \<and>
    t_replyQueue (k_task k' t) = t_replyQueue (k_task k t) @
      [item_new (k_lastMsgId k + 1) (k_switches k) (t_id (cur k)) reply_to data] \<and>
    (t_userWaiting (k_task k' t) \<longleftrightarrow> t_userWaiting (k_task k t) \<and>
       \<not> (\<exists>u. t_userCall (k_task k t) = Some (ProbeQueueCall u reply_to))) \<and>
    (\<forall>u. u \<noteq> t \<longrightarrow> k_task k' u = k_task k u)"
  using getTaskById_list [OF assms(1), of pid] assms(2)
  by (auto simp: sendQueue_def queue_push_back_def unblockTypeWith_probe Let_def)

text \<open>
  Claim C16. A process blocked in \<open>probeQueue\<close>, which takes any message, stays blocked when a reply
  arrives: the message is queued, and the probe would now succeed, but only a message with tag 0 wakes it.
\<close>

theorem probeQueue_not_woken_by_reply:
  assumes "task_list k ts" and "find (\<lambda>t. t_id (k_task k t) = pid) ts = Some t"
    and "t_userWaiting (k_task k t)" and "t_userCall (k_task k t) = Some (ProbeQueueCall t 0)"
    and "reply_to \<noteq> 0"
  shows "\<exists>i k'. sendQueue pid reply_to data k = Inr (i, k') \<and> t_userWaiting (k_task k' t) \<and>
    (\<exists>v c k''. call_run (ProbeQueueCall t 0) k' = Inr (v, WONT, c, k''))"
  using getTaskById_list [OF assms(1), of pid] assms(2-)
  by (auto simp: sendQueue_def queue_push_back_def unblockTypeWith_probe queue_first_def Let_def)

text \<open>
  Claim C15. \<open>readQueue\<close> of an item with the offset inside it copies out of bounds exactly when offset plus
  length wraps around 32 bits; otherwise it copies the bytes from the offset on, as many as asked for or as there are.
\<close>

theorem readQueue_exact:
  assumes "itemById (t_replyQueue (cur k)) i = Some it" and "length (qi_data it) = unat (qi_data_len it)"
    and "offset < qi_data_len it"
  shows "readQueue i dest offset len k =
    (if unat offset + unat len \<ge> 2 ^ 32 then Inl OutOfBounds
     else let got = take (unat len) (drop (unat offset) (qi_data it)) in
          Inr (of_nat (length got), user_write dest got k))"
proof -
  let ?n = "if offset + len > qi_data_len it then qi_data_len it - offset else len"
  have off: "unat offset < length (qi_data it)" and lt: "length (qi_data it) < 4294967296"
    using assms(2,3) by (simp_all add: word_less_nat_alt)
  have rq: "readQueue i dest offset len k = (if unat offset + unat ?n > length (qi_data it) then Inl OutOfBounds
      else Inr (?n, user_write dest (take (unat ?n) (drop (unat offset) (qi_data it))) k))"
    using assms(3) by (simp only: readQueue_def assms(1) option.case not_le if_not_P Let_def)
  have cut: "unat (qi_data_len it - offset) = length (qi_data it) - unat offset"
    using assms(2) off by (simp add: unat_sub_nowrap)
  have gt: "offset + len > qi_data_len it \<longleftrightarrow> length (qi_data it) < unat (offset + len)"
    using assms(2) by (simp add: word_less_nat_alt)
  show ?thesis
  proof (cases "unat offset + unat len \<ge> 2 ^ 32")
    case True
    have "unat (offset + len) = unat offset + unat len - 4294967296"
      using True by (simp add: unat_add_wrap)
    then have "\<not> length (qi_data it) < unat (offset + len)" using off unat_lt_u32 [of len] by linarith
    with gt have "?n = len" by simp
    then show ?thesis using rq True off lt by simp
  next
    case False
    then have sum: "unat (offset + len) = unat offset + unat len" by (simp add: unat_add_nowrap)
    then have n: "unat ?n = min (unat len) (length (qi_data it) - unat offset)"
      using gt cut off by auto
    have got: "length (take (unat len) (drop (unat offset) (qi_data it))) = unat ?n" by (simp only: n) simp
    have "take (unat ?n) (drop (unat offset) (qi_data it)) = take (unat len) (drop (unat offset) (qi_data it))"
      unfolding n by (auto simp: min_def)
    moreover have "of_nat (unat ?n) = ?n" by (simp only: of_nat_unat ucast_id)
    moreover have "\<not> unat offset + unat ?n > length (qi_data it)" unfolding n using off by simp
    ultimately show ?thesis using rq False got by (simp only: Let_def if_False)
  qed
qed

section \<open>Names\<close>

lemma fold_wake_by_name:
  "fold (wake_by_name s) xs k = k\<lparr>k_task := (\<lambda>u. if u \<in> set xs \<and> t_userWaiting (k_task k u) \<and>
      t_userCall (k_task k u) = Some (ProcessIdByNameCall s)
    then (k_task k u)\<lparr>t_userWaiting := False\<rparr> else k_task k u)\<rparr>"
proof (induction xs arbitrary: k)
  case (Cons x xs)
  show ?case unfolding fold_simps comp_apply Cons
    by (auto simp: wake_by_name_def upd_task_def fun_eq_iff)
qed simp

text \<open>
  Claim C14. Registering a free name for a process of the task list succeeds: the name then resolves to that
  process, its other names and the names of others are kept, and every process blocked on the name is woken.
\<close>

theorem registerName_correct:
  assumes "task_list k ts" and "find (\<lambda>t. t_id (k_task k t) = pid) ts = Some t"
    and "hasPrivilege PRIV_REGISTER_NAME (cur k) = Inr True" and "map_find (k_registered k) nm = None"
  shows "\<exists>k'. registerName pid nm k = Inr (True, k') \<and>
    processIdByName_impl nm False k' = Inr (pid, k') \<and>
    (\<forall>n. n \<noteq> nm \<longrightarrow> map_find (k_registered k') n = map_find (k_registered k) n) \<and>
    (\<forall>u \<in> set ts. t_userCall (k_task k u) = Some (ProcessIdByNameCall nm) \<longrightarrow> \<not> t_userWaiting (k_task k' u))"
proof -
  let ?k1 = "upd_task t (\<lambda>x. x\<lparr>t_registeredName := nm\<rparr>) (k\<lparr>k_registered := map_put (k_registered k) nm t\<rparr>)"
  have "task_list ?k1 ts" using assms(1) by (auto simp: task_list_def intro: chain_cong)
  then have loop: "for_tasks (\<lambda>u k'. Inr (wake_by_name nm u k')) (k_count ?k1) (k_start ?k1) ?k1
      = Inr (fold (wake_by_name nm) ts ?k1)"
    using task_list_length [of ?k1 ts]
    by (intro for_tasks_chain) (auto simp: task_list_def wake_by_name_def)
  have id: "t_id (k_task k t) = pid" using assms(2) by (auto dest: find_SomeD)
  have req: "requirePrivilege PRIV_REGISTER_NAME k = Inr k"
    using assms(3) by (simp add: requirePrivilege_def PRIV_REGISTER_NAME_def PRIV_COUNT_def)
  have "registerName pid nm k = Inr (True, fold (wake_by_name nm) ts ?k1)"
    using req getTaskById_list [OF assms(1), of pid] assms(2,4) loop by (simp add: registerName_def)
  moreover have "processIdByName_impl nm False (fold (wake_by_name nm) ts ?k1) =
      Inr (pid, fold (wake_by_name nm) ts ?k1)"
    using id by (simp add: processIdByName_impl_def run_or_block_def fold_wake_by_name map_find_put)
  moreover have "\<forall>n. n \<noteq> nm \<longrightarrow>
      map_find (k_registered (fold (wake_by_name nm) ts ?k1)) n = map_find (k_registered k) n"
    by (simp add: fold_wake_by_name map_find_put)
  moreover have "\<forall>u \<in> set ts. t_userCall (k_task k u) = Some (ProcessIdByNameCall nm) \<longrightarrow>
      \<not> t_userWaiting (k_task (fold (wake_by_name nm) ts ?k1) u)"
    by (auto simp: fold_wake_by_name)
  ultimately show ?thesis by blast
qed

section \<open>Starting a process\<close>

lemma task_by_pid_found: "map_find (k_byPid k) pid = Some v \<Longrightarrow> task_by_pid pid k = (v, k)"
  by (simp add: task_by_pid_def map_index_def)

lemma find_task_loop:
  assumes "t_next (k_task k t) = Some t" and "\<not> P (k_task k t)"
  shows "find_task P k n (Some t) = Inl Diverges"
  using assms by (induction n) auto

text \<open>
  Claim C17. \<open>beginExecution\<close> of a process that is not in the task list puts it in front; called once more
  for the same process it ties the list into a loop of that one process, and the search for any other pid
  never ends.
\<close>

theorem beginExecution_twice:
  assumes "task_list k ts" and "map_find (k_byPid k) pid = Some (Some t)" and "t \<notin> set ts"
    and "t < k_count k"
  shows "\<exists>k1 k2. beginExecution pid k = (True, k1) \<and> task_list k1 (t # ts) \<and>
    beginExecution pid k1 = (True, k2) \<and>
    (\<forall>other. other \<noteq> t_id (k_task k t) \<longrightarrow> getTaskById other k2 = Inl Diverges)"
proof -
  define k1 where "k1 = (upd_task t (\<lambda>x. x\<lparr>t_next := k_start k\<rparr>) k)\<lparr>k_start := Some t\<rparr>"
  define k2 where "k2 = (upd_task t (\<lambda>x. x\<lparr>t_next := k_start k1\<rparr>) k1)\<lparr>k_start := Some t\<rparr>"
  have "map_find (k_byPid k1) pid = Some (Some t)" using assms(2) by (simp add: k1_def)
  with assms(2) have b1: "beginExecution pid k = (True, k1)" and b2: "beginExecution pid k1 = (True, k2)"
    by (simp_all add: beginExecution_def task_by_pid_found k1_def k2_def)
  have "chain (\<lambda>u. t_next (k_task k1 u)) (k_start k) ts"
    using assms(1,3) by (auto simp: task_list_def k1_def intro: chain_cong)
  then have "task_list k1 (t # ts)" using assms(1,4) by (simp add: task_list_def k1_def)
  moreover have "getTaskById other k2 = Inl Diverges" if "other \<noteq> t_id (k_task k t)" for other
    unfolding getTaskById_def
    using find_task_loop [of k2 t "\<lambda>x. t_id x = other" "k_count k2"] that
    by (simp add: k2_def k1_def)
  ultimately show ?thesis using b1 b2 by blast
qed

end
