(* ===== verification/KernelExamples.thy ===== *)
theory KernelExamples
  imports IPCProps
begin

text \<open>
  A kernel with three user tasks, on which the properties of the scheduler and of the system calls are
  instantiated, and two runs of it that end in a failed assertion of the kernel.
\<close>

definition blank_task :: task where
  "blank_task = \<lparr>t_next = None, t_priorityNext = None, t_irqListen = 0, t_irqListenHits = 0,
     t_userWaiting = False, t_userCall = None, t_id = 0, t_name = '''', t_registeredName = None,
     t_cpl = 3, t_pageDir = 0, t_heap = None, t_heapStart = 0, t_heapEnd = 0, t_heapMax = 0, t_ks = 0,
     t_iomap = (\<lambda>_. 0xFF), t_privMap = [0x0A], t_streamsByName = [], t_replyQueue = []\<rparr>"

definition user_frame :: regs where
  "user_frame = \<lparr>r_ds = 0x43, r_edi = 0, r_esi = 0, r_ebp = 0, r_esp = 0, r_ebx = 0, r_edx = 0,
     r_ecx = 0, r_eax = 0, r_int_no = 0x80, r_err_code = 0, r_eip = 0, r_cs = 0x3B, r_eflags = 0x200,
     r_useresp = 0, r_ss = 0x43\<rparr>"

definition demo_kernel :: kernel where
  "demo_kernel = \<lparr>k_task = (\<lambda>t. if t = 0 then blank_task\<lparr>t_id := 1, t_next := Some 1, t_ks := 0x1000\<rparr>
       else if t = 1 then blank_task\<lparr>t_id := 2, t_next := Some 2, t_ks := 0x2000\<rparr>
       else blank_task\<lparr>t_id := 3, t_ks := 0x3000\<rparr>),
     k_count = 4, k_start = Some 0, k_current = 1, k_priorityStart = None, k_registered = [],
     k_byPid = [(1, Some 0), (2, Some 1), (3, Some 2), (4, Some 3)], k_lastPid = 4,
     k_stream = (\<lambda>_. stream_new), k_nstreams = 0, k_lastMsgId = 0, k_wakeevents = [], k_lastWakeId = 0,
     k_usPerTick = 1000, k_switches = 0, k_tickHz = 1000, k_systemUs = 0, k_returnTask = None,
     k_frames = (\<lambda>_. user_frame), k_mem = (\<lambda>_ _. 0), k_activeDir = 0, k_tss_esp0 = 0,
     k_tss_iomap = (\<lambda>_. 0), k_garbage = (\<lambda>_. \<lparr>e_start = 0, e_size = 0, isHole = False\<rparr>),
     k_output = ''''\<rparr>"

lemmas demo_defs = demo_kernel_def blank_task_def

lemma demo_list: "task_list demo_kernel [0, 1, 2]"
  by (simp add: task_list_def demo_defs)

theorem prepareFetchNextTask_round_robin_witness: "prepareFetchNextTask demo_kernel = Inr (2, demo_kernel)"
  using prepareFetchNextTask_round_robin [of demo_kernel "[0]" "[2]"] demo_list
  by (simp add: demo_defs)

theorem hasPrivilege_grantPrivilege_witness:
  "\<exists>t'. grantPrivilege 5 blank_task = Inr t' \<and> hasPrivilege 5 t' = Inr True"
  using hasPrivilege_grantPrivilege [of blank_task 5 5]
  by (auto simp: blank_task_def PRIV_MAP_SIZE_def PRIV_COUNT_def)

theorem sysexit_correct_witness: "\<exists>k'. sysexit demo_kernel = Inr k' \<and> task_list k' [0, 2]"
  using sysexit_correct [of demo_kernel "[0]" "[2]" 2] demo_list by (auto simp: demo_defs)

theorem grantPrivilege_unprivileged_witness:
  "\<exists>k'. user_grantPrivilege 1 6 demo_kernel = Inr (True, k') \<and> hasPrivilege 6 (k_task k' 0) = Inr True"
proof -
  have "hasPrivilege PRIV_GRANT_PRIV (cur demo_kernel) = Inr False" by code_simp
  then show ?thesis
    using grantPrivilege_unprivileged [of demo_kernel "[0]" "[2]" 2 1 0 6] demo_list
    by (auto simp: demo_defs PRIV_MAP_SIZE_def PRIV_COUNT_def)
qed

theorem sendQueue_delivers_witness:
  "\<exists>k'. sendQueue 3 7 [1, 2] demo_kernel = Inr (1, k') \<and> length (t_replyQueue (k_task k' 2)) = 1"
  using sendQueue_delivers [OF demo_list, of 3 2 7 "[1, 2]"] by (auto simp: demo_defs)

definition probing_kernel :: kernel where
  "probing_kernel = upd_task 2 (\<lambda>t. t\<lparr>t_userWaiting := True, t_userCall := Some (ProbeQueueCall 2 0)\<rparr>) demo_kernel"

theorem probeQueue_not_woken_by_reply_witness:
  "\<exists>i k'. sendQueue 3 7 [1, 2] probing_kernel = Inr (i, k') \<and> t_userWaiting (k_task k' 2)"
proof -
  have "task_list probing_kernel [0, 1, 2]" by (simp add: task_list_def probing_kernel_def demo_defs)
  from probeQueue_not_woken_by_reply [OF this, of 3 2 7 "[1, 2]"] show ?thesis
    by (auto simp: probing_kernel_def demo_defs)
qed

definition reading_kernel :: kernel where
  "reading_kernel = upd_cur (\<lambda>t. t\<lparr>t_replyQueue := [item_new 9 0 1 0 [5, 6, 7]]\<rparr>) demo_kernel"

theorem readQueue_exact_witness: "readQueue 9 0x8000 1 0xFFFFFFFF reading_kernel = Inl OutOfBounds"
proof -
  have "itemById (t_replyQueue (cur reading_kernel)) 9 = Some (item_new 9 0 1 0 [5, 6, 7])"
    by (simp add: reading_kernel_def demo_defs itemById_def item_new_def)
  from readQueue_exact [OF this, of 1 "0x8000" "0xFFFFFFFF"] show ?thesis
    by (simp add: item_new_def)
qed

theorem registerName_correct_witness:
  "\<exists>k'. registerName 3 (Some ''fs'') (upd_cur (\<lambda>t. t\<lparr>t_privMap := [0x20]\<rparr>) demo_kernel) = Inr (True, k')"
proof -
  let ?k = "upd_cur (\<lambda>t. t\<lparr>t_privMap := [0x20]\<rparr>) demo_kernel"
  have "task_list ?k [0, 1, 2]" by (simp add: task_list_def demo_defs)
  moreover have "hasPrivilege PRIV_REGISTER_NAME (cur ?k) = Inr True" by code_simp
  ultimately show ?thesis
    using registerName_correct [of ?k "[0, 1, 2]" 3 2 "Some ''fs''"] by (auto simp: demo_defs)
qed

theorem beginExecution_twice_witness:
  "\<exists>k1 k2. beginExecution 4 demo_kernel = (True, k1) \<and> beginExecution 4 k1 = (True, k2) \<and>
     getTaskById 1 k2 = Inl Diverges"
  using beginExecution_twice [OF demo_list, of 4 3] by (auto simp: demo_defs)

definition demo_events :: "wake_event list" where
  "demo_events = [\<lparr>w_toWake = 1, w_uid = 1, w_usLeft = 10\<rparr>, \<lparr>w_toWake = 2, w_uid = 2, w_usLeft = 5\<rparr>,
     \<lparr>w_toWake = 3, w_uid = 3, w_usLeft = 20\<rparr>]"

theorem desched_keeps_due_times_witness:
  "\<exists>k'. desched 2 (demo_kernel\<lparr>k_wakeevents := demo_events\<rparr>) = (True, k') \<and> due_times 0 (k_wakeevents k') = [(1, 10), (3, 35)]"
  using desched_keeps_due_times [of "demo_kernel\<lparr>k_wakeevents := demo_events\<rparr>" 2]
  by (simp add: demo_events_def)

theorem wakeIn_due_witness:
  "\<exists>due > 5. due_times 0 (k_wakeevents (snd (wakeIn 5 9 (demo_kernel\<lparr>k_wakeevents := demo_events, k_lastWakeId := 3\<rparr>)))) =
     [(1, 10), (2, 15), (3, 35), (4, due)]"
  using wakeIn_due [of "demo_kernel\<lparr>k_wakeevents := demo_events, k_lastWakeId := 3\<rparr>" 5 9]
  by (auto simp: demo_events_def wakeIn_def)

end
