(* ===== verification/Memory.thy ===== *)
theory Memory
  imports Heap
begin

text \<open>
  \<^verbatim>\<open>src/Memory.cpp\<close>: the frame bitmap, page tables and page directories, and the kernel allocator in
  its two modes (a bump pointer before paging, the kernel heap after). A page table or directory is a
  reference into a store that only grows, so that directories share tables as the code's pointers do; a \<open>Page *\<close> is a
  table and an entry. Loading \<^verbatim>\<open>cr3\<close> is the record of the active directory.
\<close>

section \<open>State\<close>

record page =
  pg_present :: bool
  pg_readwrite :: bool
  pg_user :: bool
  pg_accessed :: bool
  pg_dirty :: bool
  pg_pageAddress :: "20 word"

type_synonym page_table = "nat \<Rightarrow> page"
type_synonym page_ref = "nat \<times> nat"

record page_dir =
  pd_tables :: "nat \<Rightarrow> nat option"
  pd_tablePhysicals :: "nat \<Rightarrow> u32"
  pd_physicalAddr :: u32

record memory =
  m_upperMemory :: u32
  m_placementAddress :: u32
  m_frames :: "nat \<Rightarrow> u32"
  m_frameCount :: u32
  m_heap :: "heap option"
  m_table :: "nat \<Rightarrow> page_table"
  m_ntables :: nat
  m_dir :: "nat \<Rightarrow> page_dir"
  m_ndirs :: nat
  m_kernelDirectory :: nat
  m_activeDirectory :: nat
  m_garbage :: "nat \<Rightarrow> entry"

definition zero_page :: page where
  "zero_page = \<lparr>pg_present = False, pg_readwrite = False, pg_user = False, pg_accessed = False,
     pg_dirty = False, pg_pageAddress = 0\<rparr>"

definition INDEX_BIT :: "u32 \<Rightarrow> u32" where "INDEX_BIT n = n div 32"

definition OFFSET_BIT :: "u32 \<Rightarrow> u32" where "OFFSET_BIT n = n mod 32"

definition KHEAP_START :: u32 where "KHEAP_START = 0xC0000000"
definition KHEAP_INITIAL_SIZE :: u32 where "KHEAP_INITIAL_SIZE = 0x2000000"
definition KHEAP_INDEX_SIZE :: u32 where "KHEAP_INDEX_SIZE = 0x20000"
definition sizeof_Heap :: u32 where "sizeof_Heap = 36"
definition sizeof_PageTable :: u32 where "sizeof_PageTable = 4096"
definition sizeof_PageDirectory :: u32 where "sizeof_PageDirectory = 8196"

definition setPlacementMode :: "u32 \<Rightarrow> memory \<Rightarrow> memory result" where
  "setPlacementMode addr m =
     rbind (assert_that (m_placementAddress m = 0) ''!_placementAddress'') (\<lambda>_.
     Inr (m\<lparr>m_placementAddress := addr\<rparr>))"

section \<open>Frames\<close>

definition frame_slot :: "u32 \<Rightarrow> memory \<Rightarrow> (nat \<times> nat) result" where
  "frame_slot addr m =
     (let frame = addr div 0x1000; idx = INDEX_BIT frame; off = OFFSET_BIT frame in
      rbind (assert_that (idx < INDEX_BIT (m_frameCount m)) ''idx < INDEX_BIT(_frameCount)'') (\<lambda>_.
      Inr (unat idx, unat off)))"

definition setFrame :: "u32 \<Rightarrow> memory \<Rightarrow> memory result" where
  "setFrame addr m =
     rbind (frame_slot addr m) (\<lambda>(idx, off).
     Inr (m\<lparr>m_frames := (m_frames m)(idx := m_frames m idx OR push_bit off 1)\<rparr>))"

definition clearFrame :: "u32 \<Rightarrow> memory \<Rightarrow> memory result" where
  "clearFrame addr m =
     rbind (frame_slot addr m) (\<lambda>(idx, off).
     Inr (m\<lparr>m_frames := (m_frames m)(idx := m_frames m idx AND NOT (push_bit off 1))\<rparr>))"

definition testFrame :: "u32 \<Rightarrow> memory \<Rightarrow> bool result" where
  "testFrame addr m = rbind (frame_slot addr m) (\<lambda>(idx, off). Inr (m_frames m idx AND push_bit off 1 \<noteq> 0))"

definition freeFrame :: "memory \<Rightarrow> u32 result" where
  "freeFrame m =
     (case find (\<lambda>i. m_frames m i \<noteq> 0xFFFFFFFF) [0..<unat (INDEX_BIT (m_frameCount m))] of
        None \<Rightarrow> Inl (KernelPanic ''no frames free! Time to panic. :)'')
      | Some i \<Rightarrow>
          (case find (\<lambda>j. m_frames m i AND push_bit j 1 = 0) [0..<32] of
             None \<Rightarrow> Inl (KernelPanic ''freeFrame thought it found a free frame, but didn't find one?'')
           | Some j \<Rightarrow> Inr ((of_nat i * 32 + of_nat j) * 0x1000)))"

section \<open>Pages\<close>

definition page_at :: "page_ref \<Rightarrow> memory \<Rightarrow> page" where
  "page_at p m = m_table m (fst p) (snd p)"

definition upd_page :: "page_ref \<Rightarrow> (page \<Rightarrow> page) \<Rightarrow> memory \<Rightarrow> memory" where
  "upd_page p f m = m\<lparr>m_table := (m_table m)(fst p := (m_table m (fst p))(snd p := f (page_at p m)))\<rparr>"

definition allocFrame :: "page_ref \<Rightarrow> u32 \<Rightarrow> bool \<Rightarrow> bool \<Rightarrow> memory \<Rightarrow> memory result" where
  "allocFrame p addr kern writeable m =
     rbind (assert_that (pg_pageAddress (page_at p m) = 0) ''!pageAddress'') (\<lambda>_.
     rbind (setFrame addr m) (\<lambda>m1.
     Inr (upd_page p (\<lambda>pg. pg\<lparr>pg_present := True, pg_readwrite := writeable, pg_user := \<not> kern,
                               pg_pageAddress := ucast (addr div 0x1000)\<rparr>) m1)))"

definition allocAnyFrame :: "page_ref \<Rightarrow> bool \<Rightarrow> bool \<Rightarrow> memory \<Rightarrow> memory result" where
  "allocAnyFrame p kern writeable m =
     rbind (assert_that (pg_pageAddress (page_at p m) = 0) ''!pageAddress'') (\<lambda>_.
     rbind (freeFrame m) (\<lambda>addr.
     rbind (setFrame addr m) (\<lambda>m1.
     Inr (upd_page p (\<lambda>pg. pg\<lparr>pg_present := True, pg_readwrite := writeable, pg_user := \<not> kern,
                               pg_pageAddress := ucast (addr div 0x1000)\<rparr>) m1))))"

definition lookup_page :: "nat \<Rightarrow> u32 \<Rightarrow> memory \<Rightarrow> page_ref option" where
  "lookup_page d addr m =
     (let a = addr div 0x1000 in
      map_option (\<lambda>t. (t, unat (a mod 1024))) (pd_tables (m_dir m d) (unat (a div 1024))))"

definition page_physical :: "page_ref \<Rightarrow> u32 \<Rightarrow> memory \<Rightarrow> u32" where
  "page_physical p addr m = ucast (pg_pageAddress (page_at p m)) * 0x1000 + (addr AND 0xFFF)"

section \<open>The kernel allocator\<close>

text \<open>The result is the address and the physical address, which the code computes only when asked for it.\<close>

definition kernel_phys :: "bool \<Rightarrow> u32 \<Rightarrow> memory \<Rightarrow> u32 result" where
  "kernel_phys want_phys addr m =
     (if want_phys
      then case lookup_page (m_kernelDirectory m) addr m of
             None \<Rightarrow> Inl (AssertFail ''page'')
           | Some p \<Rightarrow> Inr (page_physical p addr m)
      else Inr 0)"

definition memory_alloc :: "u32 \<Rightarrow> bool \<Rightarrow> memory \<Rightarrow> (u32 \<times> u32 \<times> memory) result" where
  "memory_alloc n want_phys m =
     (if m_placementAddress m = 0
      then case m_heap m of
             None \<Rightarrow> Inl (AssertFail ''_heap'')
           | Some h \<Rightarrow> rbind (heap_alloc n h) (\<lambda>(addr, h').
               rbind (kernel_phys want_phys addr m) (\<lambda>phys. Inr (addr, phys, m\<lparr>m_heap := Some h'\<rparr>)))
      else Inr (m_placementAddress m, m_placementAddress m,
                m\<lparr>m_placementAddress := m_placementAddress m + n\<rparr>))"

definition memory_allocAligned :: "u32 \<Rightarrow> bool \<Rightarrow> memory \<Rightarrow> (u32 \<times> u32 \<times> memory) result" where
  "memory_allocAligned n want_phys m =
     (if m_placementAddress m = 0
      then case m_heap m of
             None \<Rightarrow> Inl (AssertFail ''_heap'')
           | Some h \<Rightarrow> rbind (heap_allocAligned n h) (\<lambda>(addr, h').
               rbind (kernel_phys want_phys addr m) (\<lambda>phys. Inr (addr, phys, m\<lparr>m_heap := Some h'\<rparr>)))
      else let a = (if m_placementAddress m AND 0xFFF \<noteq> 0
                    then page_up (m_placementAddress m) else m_placementAddress m) in
           Inr (a, a, m\<lparr>m_placementAddress := a + n\<rparr>))"

definition memory_free :: "u32 \<Rightarrow> memory \<Rightarrow> (bool \<times> memory) result" where
  "memory_free p m =
     (if m_placementAddress m = 0
      then case m_heap m of
             None \<Rightarrow> Inl (AssertFail ''_heap'')
           | Some h \<Rightarrow> rbind (heap_free p h) (\<lambda>(b, h'). Inr (b, m\<lparr>m_heap := Some h'\<rparr>))
      else Inl (KernelPanic ''Memory: tried to free() in placement mode''))"

section \<open>Page tables and directories\<close>

definition PageTable_Allocate :: "memory \<Rightarrow> (nat \<times> u32 \<times> memory) result" where
  "PageTable_Allocate m =
     rbind (memory_allocAligned sizeof_PageTable True m) (\<lambda>(_, phys, m1).
     let t = m_ntables m1 in
     Inr (t, phys, m1\<lparr>m_table := (m_table m1)(t := (\<lambda>_. zero_page)), m_ntables := Suc t\<rparr>))"

definition PageTable_clone :: "nat \<Rightarrow> memory \<Rightarrow> (nat \<times> u32 \<times> memory) result" where
  "PageTable_clone t m = Inl (KernelPanic ''PageTable clone not checked'')"

definition PageDirectory_Allocate :: "memory \<Rightarrow> (nat \<times> memory) result" where
  "PageDirectory_Allocate m =
     rbind (memory_allocAligned sizeof_PageDirectory True m) (\<lambda>(_, phys, m1).
     let d = m_ndirs m1 in
     Inr (d, m1\<lparr>m_dir := (m_dir m1)(d := \<lparr>pd_tables = (\<lambda>_. None), pd_tablePhysicals = (\<lambda>_. 0),
                                     pd_physicalAddr = phys + 4096\<rparr>), m_ndirs := Suc d\<rparr>))"

definition set_table :: "nat \<Rightarrow> nat \<Rightarrow> nat \<Rightarrow> u32 \<Rightarrow> memory \<Rightarrow> memory" where
  "set_table d idx t phys m =
     m\<lparr>m_dir := (m_dir m)(d := (m_dir m d)\<lparr>pd_tables := (pd_tables (m_dir m d))(idx := Some t),
        pd_tablePhysicals := (pd_tablePhysicals (m_dir m d))(idx := phys)\<rparr>)\<rparr>"

definition getPage :: "nat \<Rightarrow> u32 \<Rightarrow> bool \<Rightarrow> memory \<Rightarrow> (page_ref option \<times> memory) result" where
  "getPage d addr mk m =
     (let a = addr div 0x1000; idx = unat (a div 1024); ent = unat (a mod 1024) in
      case pd_tables (m_dir m d) idx of
        Some t \<Rightarrow> Inr (Some (t, ent), m)
      | None \<Rightarrow>
          if mk
          then rbind (PageTable_Allocate m) (\<lambda>(t, phys, m1).
               Inr (Some (t, ent), set_table d idx t (phys OR 0x7) m1))
          else Inr (None, m))"

text \<open>\<open>getPage\<close> with creation never returns null; the pages it returns are then given a frame or changed.\<close>

definition getPage_make :: "nat \<Rightarrow> u32 \<Rightarrow> memory \<Rightarrow> (page_ref \<times> memory) result" where
  "getPage_make d addr m =
     rbind (getPage d addr True m) (\<lambda>(p, m1).
     case p of None \<Rightarrow> Inl NullDeref | Some p' \<Rightarrow> Inr (p', m1))"

definition clone_step :: "nat \<Rightarrow> nat \<Rightarrow> nat \<Rightarrow> memory \<Rightarrow> memory result" where
  "clone_step src d i m =
     (case pd_tables (m_dir m src) i of
        None \<Rightarrow> Inr m
      | Some t \<Rightarrow>
          if pd_tables (m_dir m (m_kernelDirectory m)) i = Some t
          then Inr (set_table d i t ((pd_tablePhysicals (m_dir m src) i AND NOT 0x7) OR 0x5) m)
          else rbind (PageTable_clone t m) (\<lambda>(t', phys, m1). Inr (set_table d i t' (phys OR 0x7) m1)))"

definition PageDirectory_clone :: "nat \<Rightarrow> memory \<Rightarrow> (nat \<times> memory) result" where
  "PageDirectory_clone src m =
     rbind (PageDirectory_Allocate m) (\<lambda>(d, m1).
     rbind (for_each (clone_step src d) [0..<1024] m1) (\<lambda>m2. Inr (d, m2)))"

definition switchPageDirectory :: "nat \<Rightarrow> memory \<Rightarrow> memory" where
  "switchPageDirectory d m = m\<lparr>m_activeDirectory := d\<rparr>"

section \<open>Turning paging on\<close>

definition pages_from :: "u32 \<Rightarrow> nat \<Rightarrow> u32 list" where
  "pages_from start n = map (\<lambda>i. start + of_nat i * 0x1000) [0..<n]"

text \<open>
  The identity mapping of what placement has handed out. Making page tables moves the bound, but
  \<open>base\<close> can take at most \<open>2^20\<close> values.
\<close>

fun map_low :: "nat \<Rightarrow> u32 \<Rightarrow> memory \<Rightarrow> memory result" where
  "map_low 0 base m = Inl Diverges"
| "map_low (Suc fuel) base m =
     (if base < m_placementAddress m + sizeof_Heap
      then rbind (getPage_make (m_kernelDirectory m) base m) (\<lambda>(p, m1).
           rbind (allocFrame p base False False m1) (\<lambda>m2.
           map_low fuel (base + 0x1000) m2))
      else Inr m)"

definition setPaging :: "bool \<Rightarrow> memory \<Rightarrow> memory result" where
  "setPaging mode m =
     rbind (assert_that mode ''mode'') (\<lambda>_.
     let m0 = m\<lparr>m_frameCount := (0x100000 + m_upperMemory m * 1024) div 0x1000\<rparr> in
     rbind (memory_alloc (INDEX_BIT (m_frameCount m0) * 4 + 1) False m0) (\<lambda>(_, _, m1).
     rbind (PageDirectory_Allocate (m1\<lparr>m_frames := (\<lambda>_. 0)\<rparr>)) (\<lambda>(kd, m2).
     let heap_pages = pages_from KHEAP_START (unat (KHEAP_INITIAL_SIZE div 0x1000)) in
     rbind (for_each (\<lambda>i s. rbind (getPage_make kd i s) (\<lambda>(_, s'). Inr s')) heap_pages
              (m2\<lparr>m_kernelDirectory := kd\<rparr>)) (\<lambda>m3.
     rbind (map_low (2 ^ 20) 0 m3) (\<lambda>m4.
     rbind (for_each (\<lambda>i s. rbind (getPage_make kd i s) (\<lambda>(p, s'). allocAnyFrame p False False s'))
              heap_pages m4) (\<lambda>m5.
     let m6 = switchPageDirectory kd m5 in
     rbind (memory_alloc sizeof_Heap False m6) (\<lambda>(_, _, m7).
     rbind (heap_new KHEAP_START (KHEAP_START + KHEAP_INITIAL_SIZE) 0xCFFFF000 KHEAP_INDEX_SIZE False True
              (m_garbage m7)) (\<lambda>h.
     Inr (m7\<lparr>m_heap := Some h, m_placementAddress := 0\<rparr>)))))))))"

end
