(* ===== verification/MemoryProps.thy ===== *)
theory MemoryProps
  imports Memory
begin

text \<open>
  Frames as a set of numbers, and the translation of addresses by a page directory.
\<close>

section \<open>Frames in use\<close>

definition frame_limit :: "memory \<Rightarrow> nat" where
  "frame_limit m = 32 * (unat (m_frameCount m) div 32)"

definition frame_used :: "memory \<Rightarrow> nat \<Rightarrow> bool" where
  "frame_used m f \<longleftrightarrow> bit (m_frames m (f div 32)) (f mod 32)"

definition frames_ok :: "memory \<Rightarrow> bool" where
  "frames_ok m \<longleftrightarrow> unat (m_frameCount m) \<le> 2 ^ 20"

lemma and_exp_32: "(x :: u32) AND push_bit n 1 = 0 \<longleftrightarrow> \<not> bit x n"
  by (simp add: and_exp_eq_0_iff_not_bit)

lemma bit_exp_32: "bit (push_bit m 1 :: u32) n \<longleftrightarrow> m = n \<and> n < 32"
  by (auto simp: bit_exp_iff)

lemma full_word: "(x :: u32) = 0xFFFFFFFF \<longleftrightarrow> (\<forall>j < 32. bit x j)"
proof -
  have "(0xFFFFFFFF :: u32) = - 1" by simp
  then show ?thesis by (auto simp: bit_eq_iff)
qed

lemma find_least:
  assumes "find P [0..<n] = Some i"
  shows "i < n" and "P i" and "\<And>j. j < i \<Longrightarrow> \<not> P j"
  using assms by (auto simp: find_Some_iff)

lemma frame_addr:
  assumes "f < 2 ^ 20"
  shows "unat (of_nat f * 0x1000 :: u32) = f * 4096" and "unat ((of_nat f * 0x1000 :: u32) div 0x1000) = f"
proof -
  have "unat (of_nat (f * 4096) :: u32) = f * 4096" using assms
    by (simp only: unat_of_nat) simp
  then show "unat (of_nat f * 0x1000 :: u32) = f * 4096" by (simp add: mult.commute)
  then show "unat ((of_nat f * 0x1000 :: u32) div 0x1000) = f" by (simp add: unat_div)
qed

lemma frame_slot_of:
  assumes "frames_ok m" and "f < frame_limit m"
  shows "frame_slot (of_nat f * 0x1000) m = Inr (f div 32, f mod 32)"
proof -
  have "f < 2 ^ 20" using assms by (simp add: frames_ok_def frame_limit_def)
  note fa = frame_addr(2) [OF this]
  have "f div 32 < unat (m_frameCount m) div 32" using assms(2)
    by (simp add: frame_limit_def less_mult_imp_div_less mult.commute)
  then have "INDEX_BIT ((of_nat f * 0x1000) div 0x1000) < INDEX_BIT (m_frameCount m)"
    using fa by (simp add: INDEX_BIT_def word_less_nat_alt unat_div)
  moreover have "unat (INDEX_BIT ((of_nat f * 0x1000) div 0x1000)) = f div 32"
    and "unat (OFFSET_BIT ((of_nat f * 0x1000) div 0x1000)) = f mod 32"
    using fa by (simp_all add: INDEX_BIT_def OFFSET_BIT_def unat_div unat_mod)
  ultimately show ?thesis by (simp add: frame_slot_def Let_def)
qed

lemma setFrame_used:
  assumes "frames_ok m" and "f < frame_limit m"
  shows "\<exists>m'. setFrame (of_nat f * 0x1000) m = Inr m' \<and> (\<forall>g. frame_used m' g \<longleftrightarrow> g = f \<or> frame_used m g) \<and>
    m' = m\<lparr>m_frames := m_frames m'\<rparr>"
proof -
  have "frame_used (m\<lparr>m_frames := (m_frames m)(f div 32 := m_frames m (f div 32) OR push_bit (f mod 32) 1)\<rparr>) g
      \<longleftrightarrow> g = f \<or> frame_used m g" for g
  proof (cases "g div 32 = f div 32")
    case True
    then have "g = f \<longleftrightarrow> g mod 32 = f mod 32" by (metis div_mult_mod_eq)
    with True show ?thesis by (auto simp: frame_used_def bit_or_iff bit_exp_32 simp del: push_bit_of_1)
  qed (auto simp: frame_used_def)
  then show ?thesis by (simp add: setFrame_def frame_slot_of [OF assms])
qed

lemma freeFrame_Inr:
  assumes "freeFrame m = Inr a" and "frames_ok m"
  obtains f where "a = of_nat f * 0x1000" and "f < frame_limit m" and "\<not> frame_used m f"
    and "\<And>g. g < f \<Longrightarrow> frame_used m g"
proof -
  let ?n = "unat (INDEX_BIT (m_frameCount m))"
  from assms(1) obtain i j where i: "find (\<lambda>i. m_frames m i \<noteq> 0xFFFFFFFF) [0..<?n] = Some i"
    and j: "find (\<lambda>j. m_frames m i AND push_bit j 1 = 0) [0..<32] = Some j"
    and a: "a = (of_nat i * 32 + of_nat j) * 0x1000"
    by (auto simp: freeFrame_def split: option.splits)
  note li = find_least [OF i] and lj = find_least [OF j, unfolded and_exp_32]
  have "?n = unat (m_frameCount m) div 32" by (simp add: INDEX_BIT_def unat_div)
  then have "i * 32 + j < frame_limit m" using li(1) lj(1) by (simp add: frame_limit_def)
  moreover have "a = of_nat (i * 32 + j) * 0x1000" using a by simp
  moreover have "\<not> frame_used m (i * 32 + j)" using lj(1,2) by (simp add: frame_used_def)
  moreover have "frame_used m g" if "g < i * 32 + j" for g
  proof (cases "g div 32 < i")
    case True
    then show ?thesis using li(3) [OF True] full_word [of "m_frames m (g div 32)"]
      by (simp add: frame_used_def)
  next
    case False
    then have "g div 32 = i" using that lj(1) by (simp add: not_less)
    moreover from this have "g mod 32 < j" using that by (metis add_less_cancel_left div_mult_mod_eq)
    ultimately show ?thesis using lj(3) by (simp add: frame_used_def)
  qed
  ultimately show thesis using that by blast
qed

lemma freeFrame_Inl:
  assumes "freeFrame m = Inl e"
  shows "\<exists>msg. e = KernelPanic msg" and "f < frame_limit m \<Longrightarrow> frame_used m f"
proof -
  let ?n = "unat (INDEX_BIT (m_frameCount m))"
  have n: "?n = unat (m_frameCount m) div 32" by (simp add: INDEX_BIT_def unat_div)
  have found: "find (\<lambda>j. m_frames m i AND push_bit j 1 = 0) [0..<32] \<noteq> None" if "m_frames m i \<noteq> 0xFFFFFFFF" for i
    using that full_word [of "m_frames m i"] unfolding and_exp_32 by (auto simp: find_None_iff)
  have none: "find (\<lambda>i. m_frames m i \<noteq> 0xFFFFFFFF) [0..<?n] = None"
  proof (cases "find (\<lambda>i. m_frames m i \<noteq> 0xFFFFFFFF) [0..<?n]")
    case (Some i)
    with assms found [OF find_least(2) [OF Some]] show ?thesis by (auto simp: freeFrame_def)
  qed
  with assms show "\<exists>msg. e = KernelPanic msg" by (auto simp: freeFrame_def)
  assume "f < frame_limit m"
  then have "f div 32 < ?n" using n by (simp add: frame_limit_def less_mult_imp_div_less mult.commute)
  then have "m_frames m (f div 32) = 0xFFFFFFFF" using none by (auto simp: find_None_iff)
  then show "frame_used m f" using full_word [of "m_frames m (f div 32)"] by (simp add: frame_used_def)
qed

text \<open>
  Claim C19. Giving a page any frame either panics because every usable frame is taken, or takes the lowest
  free one: no page had it, it becomes used and no other frame's state changes, and the page maps exactly that frame.
\<close>

theorem allocAnyFrame_fresh:
  assumes "frames_ok m" and "pg_pageAddress (page_at p m) = 0"
  shows "(\<forall>f < frame_limit m. frame_used m f) \<and> (\<exists>msg. allocAnyFrame p kern wr m = Inl (KernelPanic msg)) \<or>
    (\<exists>f m'. allocAnyFrame p kern wr m = Inr m' \<and> f < frame_limit m \<and> \<not> frame_used m f \<and>
       (\<forall>g < f. frame_used m g) \<and> (\<forall>g. frame_used m' g \<longleftrightarrow> g = f \<or> frame_used m g) \<and>
       unat (pg_pageAddress (page_at p m')) = f \<and> pg_present (page_at p m') \<and>
       (\<forall>q. q \<noteq> p \<longrightarrow> page_at q m' = page_at q m))"
proof (cases "freeFrame m")
  case (Inl e)
  from freeFrame_Inl [OF this] Inl assms(2) show ?thesis by (auto simp: allocAnyFrame_def)
next
  case (Inr a)
  from freeFrame_Inr [OF Inr assms(1)] obtain f where f: "a = of_nat f * 0x1000" "f < frame_limit m"
    "\<not> frame_used m f" "\<And>g. g < f \<Longrightarrow> frame_used m g" by blast
  from setFrame_used [OF assms(1) f(2)] obtain m1 where m1: "setFrame a m = Inr m1"
    "\<And>g. frame_used m1 g \<longleftrightarrow> g = f \<or> frame_used m g" "m1 = m\<lparr>m_frames := m_frames m1\<rparr>"
    using f(1) by blast
  have f20: "f < 2 ^ 20" using f(2) assms(1) by (simp add: frames_ok_def frame_limit_def)
  have "unat (ucast (a div 0x1000) :: 20 word) = f"
    using frame_addr(2) [OF f20] f(1) f20
    by (simp add: unsigned_ucast_eq unsigned_take_bit_eq take_bit_nat_eq_self)
  moreover have tab: "m_table m1 = m_table m" using m1(3) by (metis memory.select_convs(6) memory.surjective memory.update_convs(3))
  ultimately show ?thesis
    using Inr m1(1,2) f assms(2)
    by (intro disjI2 exI [of _ f])
       (auto simp: allocAnyFrame_def upd_page_def page_at_def frame_used_def prod_eq_iff)
qed

section \<open>Cloning a directory\<close>

lemma set_table_simps [simp]:
  "m_dir (set_table d i t ph m) e = (if e = d then (m_dir m d)\<lparr>pd_tables := (pd_tables (m_dir m d))(i := Some t),
     pd_tablePhysicals := (pd_tablePhysicals (m_dir m d))(i := ph)\<rparr> else m_dir m e)"
  "m_kernelDirectory (set_table d i t ph m) = m_kernelDirectory m"
  "m_table (set_table d i t ph m) = m_table m"
  by (simp_all add: set_table_def)

lemma clone_steps:
  assumes "d \<noteq> src" and "d \<noteq> m_kernelDirectory m"
    and "\<forall>i \<in> set xs. \<forall>t. pd_tables (m_dir m src) i = Some t \<longrightarrow>
      pd_tables (m_dir m (m_kernelDirectory m)) i = Some t"
  shows "\<exists>m'. for_each (clone_step src d) xs m = Inr m' \<and> m_kernelDirectory m' = m_kernelDirectory m \<and>
    m_table m' = m_table m \<and> (\<forall>e. e \<noteq> d \<longrightarrow> m_dir m' e = m_dir m e) \<and>
    (\<forall>i. pd_tables (m_dir m' d) i = (if i \<in> set xs \<and> pd_tables (m_dir m src) i \<noteq> None
       then pd_tables (m_dir m src) i else pd_tables (m_dir m d) i))"
  using assms
proof (induction xs arbitrary: m)
  case (Cons x xs)
  show ?case
  proof (cases "pd_tables (m_dir m src) x")
    case None
    then have "clone_step src d x m = Inr m" by (simp add: clone_step_def)
    with Cons.IH [of m] Cons.prems None show ?thesis by (auto simp: fun_eq_iff)
  next
    case (Some t)
    let ?m1 = "set_table d x t ((pd_tablePhysicals (m_dir m src) x AND NOT 0x7) OR 0x5) m"
    have "clone_step src d x m = Inr ?m1" using Cons.prems Some by (simp add: clone_step_def)
    with Cons.IH [of ?m1] Cons.prems Some show ?thesis by auto
  qed
qed simp

lemma clone_steps_private:
  assumes "i \<in> set xs" and "pd_tables (m_dir m src) i = Some t"
    and "pd_tables (m_dir m (m_kernelDirectory m)) i \<noteq> Some t" and "d \<noteq> src" and "d \<noteq> m_kernelDirectory m"
  shows "for_each (clone_step src d) xs m = Inl (KernelPanic ''PageTable clone not checked'')"
  using assms
proof (induction xs arbitrary: m)
  case (Cons x xs)
  show ?case
  proof (cases "pd_tables (m_dir m src) x")
    case None
    then have "clone_step src d x m = Inr m" by (simp add: clone_step_def)
    moreover have "i \<in> set xs" using Cons.prems None by auto
    ultimately show ?thesis using Cons.IH [of m] Cons.prems by simp
  next
    case (Some u)
    show ?thesis
    proof (cases "pd_tables (m_dir m (m_kernelDirectory m)) x = Some u")
      case True
      let ?m1 = "set_table d x u ((pd_tablePhysicals (m_dir m src) x AND NOT 0x7) OR 0x5) m"
      have "clone_step src d x m = Inr ?m1" using Some True by (simp add: clone_step_def)
      moreover have "i \<in> set xs" using Cons.prems Some True by auto
      ultimately show ?thesis using Cons.IH [of ?m1] Cons.prems by simp
    qed (simp add: clone_step_def Some PageTable_clone_def)
  qed
qed simp

lemma memory_allocAligned_dirs:
  assumes "memory_allocAligned n w m = Inr (a, ph, m')"
  shows "m_dir m' = m_dir m" and "m_ndirs m' = m_ndirs m" and "m_kernelDirectory m' = m_kernelDirectory m"
    and "m_table m' = m_table m"
  using assms by (auto simp: memory_allocAligned_def Let_def rbind_eq_Inr split: if_splits option.splits)

lemma dir_index: "unat ((addr :: u32) div 0x1000 div 1024) < 1024"
proof -
  have "unat addr < 1024 * 4194304" using unat_lt_u32 [of addr] by simp
  then have "unat addr div 4194304 < 1024" by (rule less_mult_imp_div_less)
  then show ?thesis by (simp add: unat_div div_mult2_eq [symmetric])
qed

text \<open>
  When every table of a directory is the kernel's, as in a clone of the kernel directory itself, a clone
  that can be allocated shares all of them: it translates every address to the same page as the original and leaves
  every other directory as it was. A directory with a table of its own cannot be cloned: the kernel panics.
\<close>

theorem PageDirectory_clone_shares:
  assumes "PageDirectory_Allocate m = Inr (d, m1)" and "src < m_ndirs m" and "m_kernelDirectory m < m_ndirs m"
  shows "if \<forall>i < 1024. \<forall>t. pd_tables (m_dir m src) i = Some t \<longrightarrow>
        pd_tables (m_dir m (m_kernelDirectory m)) i = Some t
    then \<exists>m'. PageDirectory_clone src m = Inr (d, m') \<and> (\<forall>a. lookup_page d a m' = lookup_page src a m) \<and>
      (\<forall>e. e \<noteq> d \<longrightarrow> m_dir m' e = m_dir m e) \<and> m_table m' = m_table m
    else PageDirectory_clone src m = Inl (KernelPanic ''PageTable clone not checked'')"
proof -
  from assms(1) obtain a ph m0 where m0: "memory_allocAligned sizeof_PageDirectory True m = Inr (a, ph, m0)"
    and d: "d = m_ndirs m0" and m1: "m1 = m0\<lparr>m_dir := (m_dir m0)(d := \<lparr>pd_tables = (\<lambda>_. None),
        pd_tablePhysicals = (\<lambda>_. 0), pd_physicalAddr = ph + 4096\<rparr>), m_ndirs := Suc d\<rparr>"
    by (auto simp: PageDirectory_Allocate_def Let_def rbind_eq_Inr)
  note same = memory_allocAligned_dirs [OF m0]
  have ne: "d \<noteq> src" "d \<noteq> m_kernelDirectory m1" using d same assms(2,3) m1 by auto
  have src: "m_dir m1 src = m_dir m src" "m_kernelDirectory m1 = m_kernelDirectory m"
    "m_dir m1 (m_kernelDirectory m) = m_dir m (m_kernelDirectory m)" "m_table m1 = m_table m"
    using m1 ne same by auto
  show ?thesis
  proof (cases "\<forall>i < 1024. \<forall>t. pd_tables (m_dir m src) i = Some t \<longrightarrow>
        pd_tables (m_dir m (m_kernelDirectory m)) i = Some t")
    case True
    with src have "\<forall>i \<in> set [0..<1024]. \<forall>t. pd_tables (m_dir m1 src) i = Some t \<longrightarrow>
        pd_tables (m_dir m1 (m_kernelDirectory m1)) i = Some t" by simp
    from clone_steps [OF ne this] obtain m' where
      m': "for_each (clone_step src d) [0..<1024] m1 = Inr m'" "m_table m' = m_table m1"
        "\<forall>e. e \<noteq> d \<longrightarrow> m_dir m' e = m_dir m1 e"
        "\<forall>i. pd_tables (m_dir m' d) i = (if i \<in> set [0..<1024] \<and> pd_tables (m_dir m1 src) i \<noteq> None
           then pd_tables (m_dir m1 src) i else pd_tables (m_dir m1 d) i)"
      by blast
    have "pd_tables (m_dir m1 d) i = None" for i using m1 by simp
    with m'(4) have "pd_tables (m_dir m' d) i = pd_tables (m_dir m src) i" if "i < 1024" for i
      using that src(1) by (cases "pd_tables (m_dir m src) i") auto
    then have "lookup_page d x m' = lookup_page src x m" for x
      by (simp add: lookup_page_def Let_def dir_index)
    moreover have "\<forall>e. e \<noteq> d \<longrightarrow> m_dir m' e = m_dir m e" using m'(3) m1 same by auto
    ultimately show ?thesis
      using True m'(1,2) src(4) assms(1) by (auto simp: PageDirectory_clone_def)
  next
    case False
    then obtain i t where "i < 1024" "pd_tables (m_dir m src) i = Some t"
      "pd_tables (m_dir m (m_kernelDirectory m)) i \<noteq> Some t" by blast
    then have "for_each (clone_step src d) [0..<1024] m1 = Inl (KernelPanic ''PageTable clone not checked'')"
      using clone_steps_private [of i "[0..<1024]" m1 src t d] ne src by simp
    with False assms(1) show ?thesis by (auto simp: PageDirectory_clone_def)
  qed
qed

section \<open>A small memory\<close>

definition demo_memory :: memory where
  "demo_memory = \<lparr>m_upperMemory = 0, m_placementAddress = 0x200000, m_frames = (\<lambda>i. if i = 0 then 0xFF else 0),
     m_frameCount = 256, m_heap = None, m_table = (\<lambda>_ _. zero_page), m_ntables = 1,
     m_dir = (\<lambda>_. \<lparr>pd_tables = (\<lambda>i. if i = 768 then Some 0 else None), pd_tablePhysicals = (\<lambda>_. 0),
       pd_physicalAddr = 0\<rparr>),
     m_ndirs = 1, m_kernelDirectory = 0, m_activeDirectory = 0,
     m_garbage = (\<lambda>_. \<lparr>e_start = 0, e_size = 0, isHole = False\<rparr>)\<rparr>"

theorem allocAnyFrame_fresh_witness:
  "\<exists>m'. allocAnyFrame (0, 5) False True demo_memory = Inr m' \<and> \<not> frame_used demo_memory 8 \<and>
     unat (pg_pageAddress (page_at (0, 5) m')) = 8"
proof -
  have ok: "frames_ok demo_memory" "pg_pageAddress (page_at (0, 5) demo_memory) = 0"
    by (simp_all add: frames_ok_def demo_memory_def page_at_def zero_page_def)
  have low: "frame_used demo_memory g" if "g < 8" for g
  proof -
    from that have "g \<in> {0, 1, 2, 3, 4, 5, 6, 7}" by auto
    then show ?thesis by (elim insertE) (simp_all add: frame_used_def demo_memory_def)
  qed
  have free: "\<not> frame_used demo_memory 8" by (simp add: frame_used_def demo_memory_def)
  have "8 < frame_limit demo_memory" by (simp add: frame_limit_def demo_memory_def)
  with free allocAnyFrame_fresh [OF ok, of False True] obtain f m' where
    m': "allocAnyFrame (0, 5) False True demo_memory = Inr m'" "\<not> frame_used demo_memory f"
      "\<forall>g < f. frame_used demo_memory g" "unat (pg_pageAddress (page_at (0, 5) m')) = f"
    by blast
  have "f = 8" using m'(2,3) low free by (metis linorder_neqE_nat)
  with m' free show ?thesis by blast
qed

theorem PageDirectory_clone_shares_witness:
  "\<exists>d m'. PageDirectory_clone 0 demo_memory = Inr (d, m') \<and>
     lookup_page d 0xC0003000 m' = lookup_page 0 0xC0003000 demo_memory"
proof -
  obtain d m1 where "PageDirectory_Allocate demo_memory = Inr (d, m1)"
    by (simp add: PageDirectory_Allocate_def memory_allocAligned_def demo_memory_def Let_def)
  from PageDirectory_clone_shares [OF this, of 0] show ?thesis
    by (auto simp: demo_memory_def)
qed

end
