(* ===== verification/Strings.thy ===== *)
theory Strings
  imports Prelude "HOL-Library.List_Lexorder"
begin

text \<open>
  \<^verbatim>\<open>src/string.cpp\<close>: the C string functions. A pointer into a buffer is the list of the bytes from it to
  the end of the buffer; reading past that is \<open>OutOfBounds\<close>. A \<open>char\<close> is a byte, compared as
  the compiler's signed \<^verbatim>\<open>char\<close> does, through \<open>sint\<close>; an \<open>s32\<close> result is an integer.
\<close>

type_synonym bytes = "u8 list"

section \<open>Characters\<close>

definition isdigit :: "u8 \<Rightarrow> bool" where
  "isdigit c \<longleftrightarrow> sint c \<ge> 48 \<and> sint c \<le> 57"

definition isspace :: "u8 \<Rightarrow> bool" where
  "isspace c \<longleftrightarrow> \<not> (sint c < 9 \<or> (sint c > 13 \<and> sint c \<noteq> 32))"

definition tolower :: "u8 \<Rightarrow> u8" where
  "tolower c = (if sint c < 65 \<or> sint c > 90 then c else c + 32)"

definition toupper :: "u8 \<Rightarrow> u8" where
  "toupper c = (if sint c < 97 \<or> sint c > 122 then c else c - 32)"

section \<open>Memory\<close>

fun memset :: "bytes \<Rightarrow> u8 \<Rightarrow> nat \<Rightarrow> bytes result" where
  "memset m c 0 = Inr m"
| "memset [] c (Suc n) = Inl OutOfBounds"
| "memset (b # m) c (Suc n) = rbind (memset m c n) (\<lambda>r. Inr (c # r))"

fun memcpy :: "bytes \<Rightarrow> bytes \<Rightarrow> nat \<Rightarrow> bytes result" where
  "memcpy d s 0 = Inr d"
| "memcpy (x # d) (y # s) (Suc n) = rbind (memcpy d s n) (\<lambda>r. Inr (y # r))"
| "memcpy d s (Suc n) = Inl OutOfBounds"

fun memcmp :: "bytes \<Rightarrow> bytes \<Rightarrow> nat \<Rightarrow> int result" where
  "memcmp s1 s2 0 = Inr 0"
| "memcmp (a # s1) (b # s2) (Suc n) =
     (if a < b then Inr (- 1) else if a > b then Inr 1 else memcmp s1 s2 n)"
| "memcmp s1 s2 (Suc n) = Inl OutOfBounds"

section \<open>Terminated strings\<close>

fun strlen :: "bytes \<Rightarrow> u32 result" where
  "strlen [] = Inl OutOfBounds"
| "strlen (c # s) = (if c = 0 then Inr 0 else rbind (strlen s) (\<lambda>n. Inr (n + 1)))"

definition char_order :: "u8 \<Rightarrow> u8 \<Rightarrow> int" where
  "char_order a b = (if sint a < sint b then - 1 else if sint a > sint b then 1 else 0)"

fun strcmp :: "bytes \<Rightarrow> bytes \<Rightarrow> int result" where
  "strcmp (a # s1) (b # s2) =
     (if a \<noteq> 0 \<and> b \<noteq> 0
      then if sint a < sint b then Inr (- 1) else if sint a > sint b then Inr 1 else strcmp s1 s2
      else Inr (char_order a b))"
| "strcmp s1 s2 = Inl OutOfBounds"

fun strcmpn :: "bytes \<Rightarrow> bytes \<Rightarrow> int \<Rightarrow> int result" where
  "strcmpn (a # s1) (b # s2) n =
     (if a \<noteq> 0 \<and> b \<noteq> 0 \<and> n > 0
      then if sint a < sint b then Inr (- 1) else if sint a > sint b then Inr 1 else strcmpn s1 s2 (n - 1)
      else if n = 0 then Inr 0 else Inr (char_order a b))"
| "strcmpn s1 s2 n = Inl OutOfBounds"

fun stricmp :: "bytes \<Rightarrow> bytes \<Rightarrow> int result" where
  "stricmp (a # s1) (b # s2) =
     (if a \<noteq> 0 \<and> b \<noteq> 0
      then if sint (toupper a) < sint (toupper b) then Inr (- 1)
           else if sint (toupper a) > sint (toupper b) then Inr 1 else stricmp s1 s2
      else Inr (char_order (toupper a) (toupper b)))"
| "stricmp s1 s2 = Inl OutOfBounds"

text \<open>The loop of \<open>strpos\<close>, over the \<open>d - i + 1\<close> starting positions left; \<open>npos\<close> as an \<open>s32\<close> is -1.\<close>

fun strpos_loop :: "bytes \<Rightarrow> bytes \<Rightarrow> int \<Rightarrow> int \<Rightarrow> nat \<Rightarrow> int result" where
  "strpos_loop haystack needle nl i 0 = Inr (- 1)"
| "strpos_loop haystack needle nl i (Suc left) =
     rbind (strcmpn haystack needle nl) (\<lambda>r.
     if r = 0 then Inr i else strpos_loop (tl haystack) needle nl (i + 1) left)"

definition strpos :: "bytes \<Rightarrow> bytes \<Rightarrow> int result" where
  "strpos haystack needle =
     rbind (strlen haystack) (\<lambda>h. rbind (strlen needle) (\<lambda>n.
     let d = sint h - sint n in strpos_loop haystack needle (sint n) 0 (nat (d + 1))))"

fun strcpy :: "bytes \<Rightarrow> bytes \<Rightarrow> bytes result" where
  "strcpy (x # d) (c # s) = (if c = 0 then Inr (0 # d) else rbind (strcpy d s) (\<lambda>r. Inr (c # r)))"
| "strcpy d s = Inl OutOfBounds"

fun strncpy :: "bytes \<Rightarrow> bytes \<Rightarrow> nat \<Rightarrow> bytes result" where
  "strncpy d s 0 = Inr d"
| "strncpy (x # d) (c # s) (Suc n) =
     (if c \<noteq> 0 then rbind (strncpy d s n) (\<lambda>r. Inr (c # r)) else memset (x # d) 0 (Suc n))"
| "strncpy d s (Suc n) = Inl OutOfBounds"

text \<open>Fresh memory has unspecified contents: \<open>fresh\<close> gives the bytes of an allocation of some size.\<close>

definition strdup :: "(nat \<Rightarrow> bytes) \<Rightarrow> bytes \<Rightarrow> bytes result" where
  "strdup fresh src = rbind (strlen src) (\<lambda>n. strcpy (fresh (unat n + 1)) src)"

text \<open>The accumulation of \<open>atoi\<close> is in an \<^verbatim>\<open>int\<close>: 32 bits.\<close>

fun atoi_loop :: "bytes \<Rightarrow> u32 \<Rightarrow> u32 result" where
  "atoi_loop [] n = Inl OutOfBounds"
| "atoi_loop (c # s) n = (if isdigit c then atoi_loop s (n * 10 + ucast c - 48) else Inr n)"

definition atoi :: "bytes \<Rightarrow> int result" where
  "atoi s = rbind (atoi_loop s 0) (\<lambda>n. Inr (sint n))"

section \<open>What the functions compute\<close>

text \<open>A terminated string with contents \<open>t\<close>, followed by anything.\<close>

definition cstring :: "bytes \<Rightarrow> bytes \<Rightarrow> bool" where
  "cstring s t \<longleftrightarrow> 0 \<notin> set t \<and> (\<exists>rest. s = t @ 0 # rest)"

lemma cstring_Nil: "cstring s [] \<longleftrightarrow> (\<exists>rest. s = 0 # rest)"
  by (simp add: cstring_def)

lemma cstring_Cons: "cstring s (c # t) \<longleftrightarrow> c \<noteq> 0 \<and> (\<exists>s'. s = c # s' \<and> cstring s' t)"
  by (auto simp: cstring_def)

lemma cstring_unique: "cstring s t \<Longrightarrow> cstring s t' \<Longrightarrow> t = t'"
proof (induction t arbitrary: s t')
  case Nil
  then show ?case by (cases t') (auto simp: cstring_Nil cstring_Cons)
next
  case (Cons c t)
  then show ?case by (cases t') (auto simp: cstring_Nil cstring_Cons)
qed

lemma strlen_cstring: "cstring s t \<Longrightarrow> strlen s = Inr (of_nat (length t))"
  by (induction t arbitrary: s) (auto simp: cstring_Nil cstring_Cons add.commute)

lemma strcpy_cstring:
  "cstring s t \<Longrightarrow> length t < length d \<Longrightarrow> strcpy d s = Inr (t @ 0 # drop (Suc (length t)) d)"
proof (induction t arbitrary: s d)
  case Nil
  then show ?case by (cases d) (auto simp: cstring_Nil)
next
  case (Cons c t)
  then show ?case by (cases d) (auto simp: cstring_Cons)
qed

lemma memcpy_ok: "n \<le> length d \<Longrightarrow> n \<le> length s \<Longrightarrow> memcpy d s n = Inr (take n s @ drop n d)"
  by (induction d s n rule: memcpy.induct) auto

lemma memset_ok: "n \<le> length m \<Longrightarrow> memset m c n = Inr (replicate n c @ drop n m)"
  by (induction m c n rule: memset.induct) auto

lemma find_map_Suc: "find P (map Suc xs) = map_option Suc (find (\<lambda>j. P (Suc j)) xs)"
  by (induction xs) auto

subsection \<open>Comparison\<close>

text \<open>
  The order \<open>strcmp\<close> decides: lexicographic on the bytes with their terminator, each read as a signed character.
\<close>

definition signed_key :: "bytes \<Rightarrow> int list" where
  "signed_key t = map sint t @ [0]"

lemma sint_inj8: "sint (a :: u8) = sint b \<longleftrightarrow> a = b"
  by (auto intro: signed_word_eqI)

lemma strcmp_value:
  "cstring s1 t1 \<Longrightarrow> cstring s2 t2 \<Longrightarrow> strcmp s1 s2 =
     Inr (if signed_key t1 < signed_key t2 then - 1 else if t1 = t2 then 0 else 1)"
proof (induction t1 arbitrary: s1 s2 t2)
  case Nil
  then show ?case
    by (cases t2) (auto simp: cstring_Nil cstring_Cons signed_key_def char_order_def sint_inj8 [of 0, simplified, symmetric])
next
  case (Cons c t1)
  then obtain s1' where s1: "s1 = c # s1'" "cstring s1' t1" "c \<noteq> 0" by (auto simp: cstring_Cons)
  have c: "sint c \<noteq> 0" using s1(3) sint_inj8 [of c 0] by simp
  show ?case
  proof (cases t2)
    case Nil
    with Cons.prems s1 c show ?thesis by (auto simp: cstring_Nil signed_key_def char_order_def)
  next
    case (Cons d t2')
    with Cons.prems obtain s2' where s2: "s2 = d # s2'" "cstring s2' t2'" "d \<noteq> 0"
      by (auto simp: cstring_Cons)
    show ?thesis
      using Cons.IH [OF s1(2) s2(2)] s1 s2 Cons sint_inj8 [of c d] by (auto simp: signed_key_def)
  qed
qed

lemma signed_key_inj: "signed_key t = signed_key u \<longleftrightarrow> t = u"
  by (auto simp: signed_key_def dest!: map_inj_on [rotated] intro: inj_onI simp: sint_inj8)

lemma strcmp_eq:
  assumes "cstring s1 t1" and "cstring s2 t2"
  shows "\<exists>r. strcmp s1 s2 = Inr r \<and> (r = 0 \<longleftrightarrow> t1 = t2)"
  using strcmp_value [OF assms] signed_key_inj [of t1 t2] by auto

text \<open>
  On terminated strings \<open>strcmp\<close> never leaves them and decides a linear order: it returns -1, 0 or 1
  as the first string is before, equal to or after the second in the lexicographic order of
  signed characters; in particular 0 exactly for equal contents.
\<close>

theorem strcmp_correct:
  assumes "cstring s1 t1" and "cstring s2 t2"
  shows "strcmp s1 s2 = Inr (if signed_key t1 < signed_key t2 then - 1
      else if signed_key t2 < signed_key t1 then 1 else 0) \<and>
    (strcmp s1 s2 = Inr 0 \<longleftrightarrow> t1 = t2)"
  using strcmp_value [OF assms] signed_key_inj [of t1 t2]
  by (cases "signed_key t1" "signed_key t2" rule: linorder_cases) auto

theorem strcmp_correct_witness: "strcmp [97, 98, 0] [97, 0xE9, 0, 5] = Inr 1"
proof -
  have "cstring [97, 98, 0] [97, 98]" and "cstring [97, 0xE9, 0, 5] [97, 0xE9]"
    by (simp_all add: cstring_def)
  from strcmp_correct [OF this] show ?thesis by (simp add: signed_key_def)
qed

lemma strcmpn_take:
  "cstring s1 t1 \<Longrightarrow> cstring s2 t2 \<Longrightarrow> strcmpn s1 s2 (int (length t2)) = Inr 0 \<longleftrightarrow> take (length t2) t1 = t2"
proof (induction t2 arbitrary: s1 s2 t1)
  case Nil
  then show ?case by (cases t1) (auto simp: cstring_Nil cstring_Cons)
next
  case (Cons d t2)
  then obtain s2' where s2: "s2 = d # s2'" "cstring s2' t2" "d \<noteq> 0" by (auto simp: cstring_Cons)
  show ?case
  proof (cases t1)
    case Nil
    with Cons.prems s2 sint_inj8 [of d 0] show ?thesis
      by (auto simp: cstring_Nil char_order_def split: if_splits)
  next
    case (Cons c t1')
    with Cons.prems obtain s1' where s1: "s1 = c # s1'" "cstring s1' t1'" "c \<noteq> 0"
      by (auto simp: cstring_Cons)
    show ?thesis
      using Cons.IH [OF s1(2) s2(2)] s1 s2 Cons sint_inj8 [of c d] by auto
  qed
qed

lemma strcmpn_total: "cstring s1 t1 \<Longrightarrow> cstring s2 t2 \<Longrightarrow> \<exists>r. strcmpn s1 s2 n = Inr r"
proof (induction s1 s2 n arbitrary: t1 t2 rule: strcmpn.induct)
  case (1 a s1 b s2 n)
  show ?case
  proof (cases "a \<noteq> 0 \<and> b \<noteq> 0")
    case True
    with "1.prems" obtain u1 u2 where "cstring s1 u1" and "cstring s2 u2"
      by (cases t1; cases t2) (auto simp: cstring_Nil cstring_Cons)
    with "1.IH" True show ?thesis by (cases "n > 0") auto
  qed auto
qed (auto simp: cstring_def)

lemma strpos_loop_find:
  "cstring h t \<Longrightarrow> cstring nd u \<Longrightarrow> left + length u \<le> Suc (length t) \<Longrightarrow>
   strpos_loop h nd (int (length u)) i left =
     Inr (case find (\<lambda>j. take (length u) (drop j t) = u) [0..<left] of Some j \<Rightarrow> i + int j | None \<Rightarrow> - 1)"
proof (induction left arbitrary: h t i)
  case (Suc left)
  let ?P = "\<lambda>t j. take (length u) (drop j t) = u"
  obtain r where r: "strcmpn h nd (int (length u)) = Inr r" using strcmpn_total Suc.prems by blast
  have upt: "[0..<Suc left] = 0 # map Suc [0..<left]" by (simp add: upt_conv_Cons map_Suc_upt del: upt_Suc)
  show ?case
  proof (cases "take (length u) t = u")
    case True
    with strcmpn_take [OF Suc.prems(1,2)] r upt show ?thesis by (simp del: upt_Suc)
  next
    case False
    then have nz: "r \<noteq> 0" using strcmpn_take [OF Suc.prems(1,2)] r by simp
    show ?thesis
    proof (cases t)
      case Nil
      with False Suc.prems(3) show ?thesis by (cases u) auto
    next
      case (Cons c t')
      with Suc.prems(1) have "cstring (tl h) t'" by (auto simp: cstring_Cons)
      from Suc.IH [OF this Suc.prems(2), of "i + 1"] Suc.prems(3) Cons
      have rest: "strpos_loop (tl h) nd (int (length u)) (i + 1) left =
        Inr (case find (?P t') [0..<left] of Some j \<Rightarrow> i + 1 + int j | None \<Rightarrow> - 1)" by simp
      have "find (?P t) (map Suc [0..<left]) = map_option Suc (find (?P t') [0..<left])"
        unfolding Cons by (simp add: find_map_Suc)
      with False upt r nz rest show ?thesis by (simp del: upt_Suc split: option.split)
    qed
  qed
qed simp

text \<open>
  \<open>strpos\<close> returns the least position at which the needle occurs in the haystack, and -1 when it
  occurs nowhere, for strings shorter than 2 GiB.
\<close>

theorem strpos_first:
  assumes "cstring h t" and "cstring nd u" and "length t < 2 ^ 31" and "length u < 2 ^ 31"
  shows "strpos h nd = Inr (if \<exists>j. j + length u \<le> length t \<and> take (length u) (drop j t) = u
    then int (LEAST j. j + length u \<le> length t \<and> take (length u) (drop j t) = u) else - 1)"
proof -
  let ?P = "\<lambda>j. take (length u) (drop j t) = u"
  have sh: "sint (of_nat (length t) :: u32) = int (length t)" "sint (of_nat (length u) :: u32) = int (length u)"
    using assms(3,4) by (simp_all add: sint_unat unat_of_nat)
  let ?n = "Suc (length t) - length u"
  have n: "nat (int (length t) - int (length u) + 1) = ?n" by linarith
  have pos: "strpos h nd = strpos_loop h nd (int (length u)) 0 ?n"
    by (simp only: strpos_def strlen_cstring [OF assms(1)] strlen_cstring [OF assms(2)] rbind_Inr Let_def sh n)
  show ?thesis
  proof (cases "length u \<le> length t")
    case False
    then show ?thesis using pos by (auto simp: not_le)
  next
    case True
    then have lp: "strpos h nd = Inr (case find ?P [0..<?n] of Some j \<Rightarrow> int j | None \<Rightarrow> - 1)"
      unfolding pos using strpos_loop_find [OF assms(1,2), of ?n 0] by (simp cong: option.case_cong)
    have range: "j < ?n \<longleftrightarrow> j + length u \<le> length t" for j using True by linarith
    show ?thesis
    proof (cases "find ?P [0..<?n]")
      case None
      then have "\<not> (\<exists>j. j + length u \<le> length t \<and> ?P j)" using range by (auto simp: find_None_iff)
      then show ?thesis using lp None by simp
    next
      case (Some j)
      then have j: "j < ?n" "?P j" and least: "\<forall>i < j. \<not> ?P i"
        by (auto simp: find_Some_iff simp del: upt_Suc)
      then have "(LEAST j. j + length u \<le> length t \<and> ?P j) = j"
        using range by (intro Least_equality) (auto simp: not_less [symmetric])
      then show ?thesis using lp Some j range by auto
    qed
  qed
qed

theorem strpos_first_witness: "strpos [97, 98, 97, 99, 0] [97, 99, 0] = Inr 2"
proof -
  have c: "cstring [97, 98, 97, 99, 0] [97, 98, 97, 99]" "cstring [97, 99, 0] [97, 99]"
    by (simp_all add: cstring_def)
  have P: "(j + length [97, 99 :: u8] \<le> length [97, 98, 97, 99 :: u8] \<and>
      take (length [97, 99 :: u8]) (drop j [97, 98, 97, 99]) = [97, 99 :: u8]) \<longleftrightarrow> j = 2" for j
    by (cases j; cases "j - 1"; cases "j - 2") auto
  show ?thesis using strpos_first [OF c] unfolding P by (simp add: Least_equality)
qed

end
