(* ===== verification/StdString.thy ===== *)
theory StdString
  imports Strings
begin

text \<open>
  The class \<open>std::string\<close> of \<^verbatim>\<open>src/inc/string\<close> and \<^verbatim>\<open>src/string.cpp\<close>: a buffer, null in a default-constructed
  object, and the length without the terminator. The operations return the object they change.
  A \<open>std::vector\<close> of strings is the list of its elements.
\<close>

record std_string =
  st_str :: "bytes option"
  st_length :: u32

section \<open>Construction and assignment\<close>

definition string_new :: std_string where
  "string_new = \<lparr>st_str = None, st_length = 0\<rparr>"

definition new_chars :: "nat \<Rightarrow> bytes" where
  "new_chars n = replicate n 0"

text \<open>\<open>memcpy\<close> from a possibly null buffer: of no byte it reads nothing.\<close>

definition memcpy_from :: "bytes \<Rightarrow> bytes option \<Rightarrow> nat \<Rightarrow> bytes result" where
  "memcpy_from d s n = (case s of None \<Rightarrow> if n = 0 then Inr d else Inl NullDeref | Some b \<Rightarrow> memcpy d b n)"

definition string_copy :: "std_string \<Rightarrow> std_string result" where
  "string_copy r =
     rbind (memcpy_from (new_chars (unat (st_length r) + 1)) (st_str r) (unat (st_length r) + 1)) (\<lambda>b.
     Inr \<lparr>st_str = Some b, st_length = st_length r\<rparr>)"

definition string_of_c :: "bytes \<Rightarrow> std_string result" where
  "string_of_c s =
     rbind (strlen s) (\<lambda>n.
     rbind (strcpy (new_chars (unat n + 1)) s) (\<lambda>b. Inr \<lparr>st_str = Some b, st_length = n\<rparr>))"

definition string_of_n :: "bytes \<Rightarrow> u32 \<Rightarrow> std_string result" where
  "string_of_n s n =
     rbind (memcpy (new_chars (unat n + 1)) s (unat n)) (\<lambda>b.
     Inr \<lparr>st_str = Some (b[unat n := 0]), st_length = n\<rparr>)"

definition string_of_char :: "u8 \<Rightarrow> std_string" where
  "string_of_char c = \<lparr>st_str = Some [c, 0], st_length = 1\<rparr>"

definition string_assign :: "std_string \<Rightarrow> std_string result" where
  "string_assign r =
     rbind (memcpy_from (new_chars (unat (st_length r) + 1)) (st_str r) (unat (st_length r) + 1)) (\<lambda>b.
     Inr \<lparr>st_str = Some b, st_length = st_length r\<rparr>)"

section \<open>Comparison and concatenation\<close>

definition string_eq_c :: "std_string \<Rightarrow> bytes option \<Rightarrow> bool result" where
  "string_eq_c s c =
     (let empty_c = (case c of None \<Rightarrow> True | Some b \<Rightarrow> b \<noteq> [] \<and> hd b = 0) in
      if st_length s = 0 then Inr empty_c
      else if empty_c then Inr False
      else case (st_str s, c) of
             (Some a, Some b) \<Rightarrow> rbind (strcmp a b) (\<lambda>r. Inr (r = 0))
           | _ \<Rightarrow> Inl NullDeref)"

definition string_eq :: "std_string \<Rightarrow> std_string \<Rightarrow> bool result" where
  "string_eq s r = string_eq_c s (st_str r)"

definition string_append_c :: "std_string \<Rightarrow> bytes option \<Rightarrow> std_string result" where
  "string_append_c s c =
     (case c of
        None \<Rightarrow> Inl NullDeref
      | Some cb \<Rightarrow>
          rbind (strlen cb) (\<lambda>rlen.
          let len = unat (st_length s) in
          rbind (memcpy_from (new_chars (unat (st_length s + rlen + 1))) (st_str s) len) (\<lambda>b.
          rbind (strcpy (drop len b) cb) (\<lambda>tail.
          Inr \<lparr>st_str = Some (take len b @ tail), st_length = st_length s + rlen\<rparr>))))"

definition string_append :: "std_string \<Rightarrow> std_string \<Rightarrow> std_string result" where
  "string_append s r = string_append_c s (st_str r)"

definition string_append_char :: "std_string \<Rightarrow> u8 \<Rightarrow> std_string result" where
  "string_append_char s c =
     (let len = unat (st_length s) in
      rbind (memcpy_from (new_chars (len + 2)) (st_str s) len) (\<lambda>b.
      Inr \<lparr>st_str = Some (b[len := c, len + 1 := 0]), st_length = st_length s + 1\<rparr>))"

definition string_plus :: "std_string \<Rightarrow> std_string \<Rightarrow> std_string result" where
  "string_plus s r = rbind (string_copy s) (\<lambda>l. string_append l r)"

definition string_plus_char :: "std_string \<Rightarrow> u8 \<Rightarrow> std_string result" where
  "string_plus_char s c = rbind (string_copy s) (\<lambda>l. string_append_char l c)"

section \<open>Searching and cutting\<close>

definition string_at :: "std_string \<Rightarrow> u32 \<Rightarrow> u8 result" where
  "string_at s pos =
     (case st_str s of
        None \<Rightarrow> Inl NullDeref
      | Some b \<Rightarrow> if unat pos < length b then Inr (b ! unat pos) else Inl OutOfBounds)"

definition npos :: u32 where "npos = - 1"

fun rfind_loop :: "std_string \<Rightarrow> u8 \<Rightarrow> nat \<Rightarrow> u32 result" where
  "rfind_loop s c 0 = Inr npos"
| "rfind_loop s c (Suc pos) =
     rbind (string_at s (of_nat pos)) (\<lambda>x. if x = c then Inr (of_nat pos) else rfind_loop s c pos)"

definition string_rfind :: "std_string \<Rightarrow> u8 \<Rightarrow> u32 \<Rightarrow> u32 result" where
  "string_rfind s c pos = rfind_loop s c (unat (if pos < st_length s then pos else st_length s))"

definition string_substr :: "std_string \<Rightarrow> u32 \<Rightarrow> u32 \<Rightarrow> std_string result" where
  "string_substr s pos n =
     (if pos > st_length s then Inr string_new
      else let n' = (if n > st_length s - pos then st_length s - pos else n) in
           case st_str s of
             None \<Rightarrow> if n' = 0 then string_of_n [] 0 else Inl NullDeref
           | Some b \<Rightarrow> string_of_n (drop (unat pos) b) n')"

text \<open>Forward scan: from \<open>i\<close>, over at most \<open>k\<close> characters, while the property holds.\<close>

fun scan_while :: "(u8 \<Rightarrow> bool) \<Rightarrow> std_string \<Rightarrow> u32 \<Rightarrow> nat \<Rightarrow> u32 result" where
  "scan_while P s i 0 = Inr i"
| "scan_while P s i (Suc k) =
     rbind (string_at s i) (\<lambda>c. if P c then scan_while P s (i + 1) k else Inr i)"

text \<open>The backward loop of \<open>trim\<close> has no bound of its own; the fuel is the number of characters.\<close>

fun scan_back :: "std_string \<Rightarrow> u32 \<Rightarrow> nat \<Rightarrow> u32 result" where
  "scan_back s i 0 = Inl OutOfBounds"
| "scan_back s i (Suc k) =
     rbind (string_at s i) (\<lambda>c. if isspace c then scan_back s (i - 1) k else Inr i)"

definition string_trim :: "std_string \<Rightarrow> std_string result" where
  "string_trim s =
     rbind (scan_while isspace s 0 (unat (st_length s))) (\<lambda>start_index.
     if start_index = st_length s then Inr string_new
     else rbind (scan_back s (st_length s - 1) (unat (st_length s))) (\<lambda>end_index.
          string_of_n (drop (unat start_index) (the (st_str s))) (end_index - start_index + 1)))"

function split_loop :: "std_string \<Rightarrow> nat \<Rightarrow> std_string list result" where
  "split_loop base offset =
     (if offset < unat (st_length base)
      then rbind (scan_while (\<lambda>c. \<not> isspace c) base (of_nat offset) (unat (st_length base) - offset)) (\<lambda>w.
           rbind (string_substr base (of_nat offset) (w - of_nat offset)) (\<lambda>word.
           rbind (scan_while isspace base w (unat (st_length base) - unat w)) (\<lambda>nxt.
           if unat nxt \<le> offset then Inl Diverges
           else rbind (split_loop base (unat nxt)) (\<lambda>rest. Inr (word # rest)))))
      else Inr [])"
  by pat_completeness auto
termination
  by (relation "measure (\<lambda>(base, offset). unat (st_length base) - offset)") auto

declare split_loop.simps [simp del]

definition string_split :: "std_string \<Rightarrow> std_string list result" where
  "string_split s = rbind (string_trim s) (\<lambda>base. split_loop base 0)"

section \<open>The contents of a string\<close>

definition string_ok :: "std_string \<Rightarrow> bytes \<Rightarrow> bool" where
  "string_ok s t \<longleftrightarrow> length t + 1 < 2 ^ 32 \<and> st_length s = of_nat (length t) \<and>
     (st_str s = Some (t @ [0]) \<or> st_str s = None \<and> t = [])"

lemma string_ok_length: "string_ok s t \<Longrightarrow> unat (st_length s) = length t"
  by (auto simp: string_ok_def unat_of_nat)

lemma string_ok_new: "string_ok string_new []"
  by (simp add: string_ok_def string_new_def)

lemma string_ok_cases:
  assumes "string_ok s t"
  obtains "t = []" "st_str s = None" | "st_str s = Some (t @ [0])"
  using assms by (auto simp: string_ok_def)

lemma length_new_chars [simp]: "length (new_chars n) = n"
  by (simp add: new_chars_def)

lemma drop_new_chars [simp]: "drop n (new_chars m) = new_chars (m - n)"
  by (simp add: new_chars_def drop_replicate)

lemma new_chars_1 [simp]: "new_chars (Suc 0) = [0]"
  by (simp add: new_chars_def)

lemma new_chars_0 [simp]: "new_chars 0 = []"
  by (simp add: new_chars_def)

lemma new_chars_2 [simp]: "new_chars (Suc (Suc 0)) = [0, 0]" "new_chars 2 = [0, 0]"
  by (simp_all add: new_chars_def numeral_2_eq_2)

lemma string_of_n_ok:
  assumes "unat n \<le> length b" and "unat n + 1 < 2 ^ 32"
  shows "\<exists>s. string_of_n b n = Inr s \<and> string_ok s (take (unat n) b)"
proof -
  have "memcpy (new_chars (unat n + 1)) b (unat n) = Inr (take (unat n) b @ [0])"
    using assms(1) by (subst memcpy_ok) auto
  moreover have "(take (unat n) b @ [0])[unat n := 0] = take (unat n) b @ [0 :: u8]"
    using assms(1) by (simp add: list_update_append)
  ultimately show ?thesis
    using assms by (simp add: string_of_n_def string_ok_def)
qed

lemma string_of_c_ok:
  assumes "cstring b t" and "length t + 1 < 2 ^ 32"
  shows "\<exists>s. string_of_c b = Inr s \<and> string_ok s t"
  using assms strcpy_cstring [OF assms(1), of "new_chars (length t + 1)"]
  by (simp add: string_of_c_def strlen_cstring string_ok_def unat_of_nat new_chars_def)

lemma string_copy_ok:
  assumes "string_ok s t" and "st_str s \<noteq> None"
  shows "\<exists>s'. string_copy s = Inr s' \<and> string_ok s' t"
  using assms memcpy_ok [of "length t + 1" "new_chars (length t + 1)" "t @ [0]"]
  by (auto simp: string_copy_def memcpy_from_def string_ok_length [OF assms(1)])
     (auto simp: string_ok_def)

lemma string_append_char_ok:
  assumes "string_ok s t" and "length t + 2 < 2 ^ 32"
  shows "\<exists>s'. string_append_char s c = Inr s' \<and> string_ok s' (t @ [c])"
proof -
  have "memcpy_from (new_chars (length t + 2)) (st_str s) (length t) = Inr (t @ [0, 0])"
    using assms(1)
  proof (cases rule: string_ok_cases)
    case 2
    then show ?thesis using memcpy_ok [of "length t" "new_chars (length t + 2)" "t @ [0]"]
      by (simp add: memcpy_from_def)
  qed (simp add: memcpy_from_def)
  moreover have "(t @ [0, 0])[length t := c, length t + 1 := 0] = t @ [c, 0]"
    by (simp add: list_update_append)
  ultimately show ?thesis
    using assms by (simp add: string_append_char_def string_ok_length [OF assms(1)] Let_def)
      (simp add: string_ok_def add.commute)
qed

lemma string_at_ok: "string_ok s t \<Longrightarrow> unat i < length t \<Longrightarrow> string_at s i = Inr (t ! unat i)"
  by (auto simp: string_ok_def string_at_def nth_append)

lemma scan_while_ok:
  "string_ok s t \<Longrightarrow> unat i + k \<le> length t \<Longrightarrow>
   scan_while P s i k = Inr (of_nat (unat i + length (takeWhile P (take k (drop (unat i) t)))))"
proof (induction k arbitrary: i)
  case (Suc k)
  have lt: "unat i < length t" using Suc.prems by simp
  then have d: "take (Suc k) (drop (unat i) t) = t ! unat i # take k (drop (Suc (unat i)) t)"
    by (simp add: Cons_nth_drop_Suc [symmetric])
  have "length t < 4294967296" using Suc.prems(1) by (simp add: string_ok_def)
  then have "unat (i + 1) = Suc (unat i)" using lt by (simp add: unat_add_nowrap)
  then show ?case using Suc string_at_ok [OF Suc.prems(1) lt] d by simp
qed simp

lemma string_substr_ok:
  assumes "string_ok s t" and "unat pos + unat n \<le> length t"
  shows "\<exists>r. string_substr s pos n = Inr r \<and> string_ok r (take (unat n) (drop (unat pos) t))"
proof -
  have len: "unat (st_length s) = length t" and lt: "length t + 1 < 2 ^ 32"
    using assms(1) by (auto simp: string_ok_length) (simp add: string_ok_def)
  have le: "\<not> pos > st_length s" using assms(2) len by (simp add: word_less_nat_alt)
  have "unat (st_length s - pos) = length t - unat pos"
    using assms(2) len by (simp add: unat_sub_nowrap)
  then have n: "\<not> n > st_length s - pos" using assms(2) by (simp add: word_less_nat_alt)
  from assms(1) show ?thesis
  proof (cases rule: string_ok_cases)
    case 1
    then have "n = 0" "pos = 0" using assms(2) by (simp_all add: unat_eq_zero)
    with 1 le n show ?thesis using string_of_n_ok [of 0 "[]"] by (simp add: string_substr_def)
  next
    case 2
    have "take (unat n) (drop (unat pos) (t @ [0])) = take (unat n) (drop (unat pos) t)"
      using assms(2) by simp
    with 2 le n lt assms(2) show ?thesis
      using string_of_n_ok [of n "drop (unat pos) (t @ [0])"] by (simp add: string_substr_def)
  qed
qed

section \<open>Strings with a buffer\<close>

text \<open>A string that has a buffer, as every string has that was not default-constructed.\<close>

definition string_full :: "std_string \<Rightarrow> bytes \<Rightarrow> bool" where
  "string_full s t \<longleftrightarrow> string_ok s t \<and> st_str s = Some (t @ [0])"

lemma string_fullD:
  assumes "string_full s t"
  shows "string_ok s t" "st_str s = Some (t @ [0])" "st_length s = of_nat (length t)" "unat (st_length s) = length t"
    "length t + 1 < 2 ^ 32"
  using assms string_ok_length [of s t] by (simp_all add: string_full_def string_ok_def)

lemma string_full_nonempty: "string_ok s t \<Longrightarrow> t \<noteq> [] \<Longrightarrow> string_full s t"
  by (auto simp: string_full_def string_ok_def)

lemma string_copy_full:
  assumes "string_full s t"
  shows "\<exists>s'. string_copy s = Inr s' \<and> string_full s' t" and "\<exists>s'. string_assign s = Inr s' \<and> string_full s' t"
  using string_fullD [OF assms] memcpy_ok [of "length t + 1" "new_chars (length t + 1)" "t @ [0]"]
  by (auto simp: string_copy_def string_assign_def memcpy_from_def string_full_def string_ok_def)

lemma string_append_char_full:
  assumes "string_full s t" and "length t + 2 < 2 ^ 32"
  shows "\<exists>s'. string_append_char s c = Inr s' \<and> string_full s' (t @ [c])"
  using string_append_char_ok [OF string_fullD(1) [OF assms(1)] assms(2), of c] string_full_nonempty by blast

lemma string_append_full:
  assumes "string_full s t" and "string_full r u" and "0 \<notin> set u" and "length t + length u + 1 < 2 ^ 32"
  shows "\<exists>s'. string_append s r = Inr s' \<and> string_full s' (t @ u)"
proof -
  note s = string_fullD [OF assms(1)] and r = string_fullD [OF assms(2)]
  have c: "cstring (u @ [0]) u" using assms(3) by (simp add: cstring_def)
  have n: "unat (st_length s + of_nat (length u) + 1) = length t + length u + 1"
  proof -
    have "st_length s + of_nat (length u) + 1 = of_nat (length t + length u + 1)" by (simp add: s(3))
    also have "unat \<dots> = length t + length u + 1" using assms(4) by (simp add: unat_of_nat del: of_nat_add of_nat_Suc)
    finally show ?thesis .
  qed
  have m: "memcpy (new_chars (length t + length u + 1)) (t @ [0]) (length t) = Inr (t @ new_chars (length u + 1))"
    by (subst memcpy_ok) simp_all
  have "strcpy (new_chars (length u + 1)) (u @ [0]) = Inr (u @ [0])"
    using strcpy_cstring [OF c, of "new_chars (length u + 1)"] by simp
  with n m show ?thesis using s r assms(4)
    by (simp add: string_append_def string_append_c_def strlen_cstring [OF c] memcpy_from_def Let_def string_full_def
        string_ok_def)
qed

lemma string_plus_full:
  assumes "string_full s t" and "string_full r u" and "0 \<notin> set u" and "length t + length u + 1 < 2 ^ 32"
  shows "\<exists>s'. string_plus s r = Inr s' \<and> string_full s' (t @ u)"
  using string_copy_full(1) [OF assms(1)] string_append_full [OF _ assms(2-4)] by (auto simp: string_plus_def)

lemma string_plus_char_full:
  assumes "string_full s t" and "length t + 2 < 2 ^ 32"
  shows "\<exists>s'. string_plus_char s c = Inr s' \<and> string_full s' (t @ [c])"
  using string_copy_full(1) [OF assms(1)] string_append_char_full [OF _ assms(2)] by (auto simp: string_plus_char_def)

lemma string_eq_c_full:
  assumes "string_full s t" and "0 \<notin> set t" and "cstring b u"
  shows "string_eq_c s (Some b) = Inr (t = u)"
proof -
  note s = string_fullD [OF assms(1)]
  have b: "(b \<noteq> [] \<and> hd b = 0) = (u = [])" using assms(3) by (cases u) (auto simp: cstring_Nil cstring_Cons)
  have "cstring (t @ [0]) t" using assms(2) by (simp add: cstring_def)
  from strcmp_eq [OF this assms(3)] obtain r where r: "strcmp (t @ [0]) b = Inr r" "r = 0 \<longleftrightarrow> t = u" by blast
  have z: "st_length s = 0 \<longleftrightarrow> t = []" using s(4) by (metis length_0_conv unat_eq_zero)
  show ?thesis
    unfolding string_eq_c_def Let_def option.case b z using r s(2) by (auto simp: r)
qed

lemma rfind_loop_ok:
  assumes "string_ok s t"
  shows "n \<le> length t \<Longrightarrow> rfind_loop s c n =
    Inr (case dropWhile (\<lambda>x. x \<noteq> c) (rev (take n t)) of [] \<Rightarrow> npos | x # xs \<Rightarrow> of_nat (length xs))"
proof (induction n)
  case (Suc n)
  have lt: "length t < 4294967296" using assms by (simp add: string_ok_def)
  have "string_at s (of_nat n) = Inr (t ! n)"
    using string_at_ok [OF assms, of "of_nat n"] Suc.prems lt by (simp add: unat_of_nat)
  moreover have "rev (take (Suc n) t) = t ! n # rev (take n t)" using Suc.prems by (simp add: take_Suc_conv_app_nth)
  ultimately show ?case using Suc by simp
qed simp

lemma string_rfind_ok:
  assumes "string_ok s (p @ c # q)" and "c \<notin> set q"
  shows "string_rfind s c npos = Inr (of_nat (length p))"
proof -
  have n: "unat (st_length s) = length (p @ c # q)" by (rule string_ok_length [OF assms(1)])
  have "unat (if npos < st_length s then npos else st_length s) = length (p @ c # q)"
  proof (cases "npos < st_length s")
    case True
    then show ?thesis by (simp add: npos_def)
  qed (simp add: n)
  moreover have "dropWhile (\<lambda>x. x \<noteq> c) (rev (p @ c # q)) = c # rev p"
    using assms(2) dropWhile_append2 [of "rev q" "\<lambda>x. x \<noteq> c" "c # rev p"] by auto
  ultimately show ?thesis using rfind_loop_ok [OF assms(1) order_refl, of c] by (simp add: string_rfind_def)
qed

section \<open>trim and split\<close>

definition rtrim :: "bytes \<Rightarrow> bytes" where
  "rtrim t = rev (dropWhile isspace (rev t))"

definition trimmed :: "bytes \<Rightarrow> bytes" where
  "trimmed t = rtrim (dropWhile isspace t)"

lemma rtrim_snoc: "rtrim (t @ [c]) = (if isspace c then rtrim t else t @ [c])"
  by (simp add: rtrim_def)

lemma rtrim_append: "x \<in> set u \<Longrightarrow> \<not> isspace x \<Longrightarrow> rtrim (sp @ u) = sp @ rtrim u"
  by (simp add: rtrim_def dropWhile_append1)

lemma rtrim_prefix: "take (length (rtrim u)) u = rtrim u"
proof -
  have "u = rtrim u @ rev (takeWhile isspace (rev u))"
    unfolding rtrim_def by (metis rev_append rev_rev_ident takeWhile_dropWhile_id)
  then show ?thesis by (metis append_eq_conv_conj)
qed

lemma rtrim_nonempty: "x \<in> set u \<Longrightarrow> \<not> isspace x \<Longrightarrow> rtrim u \<noteq> []"
  by (auto simp: rtrim_def)

lemma scan_back_ok:
  assumes "string_ok s t"
  shows "m \<le> length t \<Longrightarrow> \<exists>x \<in> set (take m t). \<not> isspace x \<Longrightarrow>
    scan_back s (of_nat m - 1) m = Inr (of_nat (length (rtrim (take m t))) - 1)"
proof (induction m)
  case (Suc m)
  have lt: "length t < 4294967296" using assms by (simp add: string_ok_def)
  have tk: "take (Suc m) t = take m t @ [t ! m]" using Suc.prems by (simp add: take_Suc_conv_app_nth)
  have at: "string_at s (of_nat m) = Inr (t ! m)"
    using string_at_ok [OF assms, of "of_nat m"] Suc.prems lt by (simp add: unat_of_nat)
  show ?case
  proof (cases "isspace (t ! m)")
    case True
    then have "\<exists>x \<in> set (take m t). \<not> isspace x" using Suc.prems(2) tk by auto
    with Suc True at tk show ?thesis by (simp add: rtrim_snoc)
  next
    case False
    with at tk Suc.prems(1) show ?thesis by (simp add: rtrim_snoc)
  qed
qed simp

lemma drop_len_app: "drop (length xs) (xs @ ys) = ys"
  by simp

lemma string_trim_ok:
  assumes "string_ok s t"
  shows "\<exists>r. string_trim s = Inr r \<and> string_ok r (trimmed t)"
proof -
  let ?sp = "takeWhile isspace t" and ?u = "dropWhile isspace t"
  have len: "unat (st_length s) = length t" and lt: "length t + 1 < 2 ^ 32"
    using assms by (auto simp: string_ok_length) (simp add: string_ok_def)
  have eq: "st_length s = of_nat (length t)" using assms by (simp add: string_ok_def)
  have scan: "scan_while isspace s 0 (unat (st_length s)) = Inr (of_nat (length ?sp))"
    using scan_while_ok [OF assms, of 0 "length t" isspace] len by simp
  have sple: "length ?sp \<le> length t" by (rule length_takeWhile_le)
  then have spu: "unat (of_nat (length ?sp) :: u32) = length ?sp" using lt by (simp add: unat_of_nat)
  show ?thesis
  proof (cases "?u")
    case Nil
    then have "?sp = t" by (metis append_Nil2 takeWhile_dropWhile_id)
    then have "scan_while isspace s 0 (unat (st_length s)) = Inr (st_length s)"
      using scan eq by (simp only:)
    moreover have "trimmed t = []" unfolding trimmed_def Nil by (simp add: rtrim_def)
    ultimately show ?thesis by (simp add: string_trim_def string_ok_new)
  next
    case (Cons c cs)
    have cns: "\<not> isspace c" using Cons by (metis hd_dropWhile list.sel(1) list.simps(3))
    have "c \<in> set ?u" using Cons by simp
    from rtrim_append [OF this cns, of ?sp] have rt: "rtrim t = ?sp @ rtrim ?u"
      by (simp only: takeWhile_dropWhile_id)
    have "length ?sp + length ?u = length t"
      by (simp only: length_append [symmetric] takeWhile_dropWhile_id)
    then have "length ?sp < length t" using Cons by simp
    then have ne: "of_nat (length ?sp) \<noteq> st_length s" using spu len by auto
    have bk: "scan_back s (st_length s - 1) (unat (st_length s)) = Inr (of_nat (length (rtrim t)) - 1)"
    proof -
      have "c \<in> set t" using Cons by (metis list.set_intros(1) set_dropWhileD)
      then show ?thesis using scan_back_ok [OF assms, of "length t"] cns len eq by auto
    qed
    have num: "of_nat (length (rtrim t)) - 1 - of_nat (length ?sp) + 1 = (of_nat (length (rtrim ?u)) :: u32)"
      using rt by simp
    have ulen: "length (rtrim ?u) \<le> length ?u" 
      using length_dropWhile_le [of isspace "rev ?u"] by (simp add: rtrim_def)
    have "length ?u \<le> length t" by (rule length_dropWhile_le)
    then have un: "unat (of_nat (length (rtrim ?u)) :: u32) = length (rtrim ?u)"
      using ulen lt by (simp add: unat_of_nat)
    have str: "st_str s = Some (t @ [0])"
      using assms Cons by (auto elim: string_ok_cases)
    have "t @ [0] = ?sp @ (?u @ [0])"
      by (simp only: append_assoc [symmetric] takeWhile_dropWhile_id)
    then have drp: "drop (length ?sp) (t @ [0]) = ?u @ [0]"
      using drop_len_app [of ?sp "?u @ [0]"] by (simp only:)
    have "take (length (rtrim ?u)) (?u @ [0]) = rtrim ?u"
      using rtrim_prefix [of ?u] ulen by simp
    then obtain r where "string_of_n (?u @ [0]) (of_nat (length (rtrim ?u))) = Inr r" "string_ok r (rtrim ?u)"
      using string_of_n_ok [of "of_nat (length (rtrim ?u))" "?u @ [0]"] un ulen lt
        \<open>length ?u \<le> length t\<close> by auto
    then show ?thesis
      using scan ne bk num str drp spu by (simp add: string_trim_def trimmed_def)
  qed
qed

text \<open>The words of a text: its maximal runs of characters that are not white space.\<close>

function words :: "bytes \<Rightarrow> bytes list" where
  "words t = (let u = dropWhile isspace t in
     if u = [] then [] else takeWhile (\<lambda>c. \<not> isspace c) u # words (dropWhile (\<lambda>c. \<not> isspace c) u))"
  by pat_completeness auto
termination
proof (relation "measure length")
  fix t u :: bytes assume u: "u = dropWhile isspace t" "u \<noteq> []"
  then have "\<not> isspace (hd u)" using hd_dropWhile by blast
  then have "length (dropWhile (\<lambda>c. \<not> isspace c) u) < length u"
    using u(2) by (cases u) (auto intro: le_imp_less_Suc length_dropWhile_le)
  moreover have "length u \<le> length t" unfolding u(1) by (rule length_dropWhile_le)
  ultimately show "(dropWhile (\<lambda>c. \<not> isspace c) u, t) \<in> measure length" by simp
qed simp

declare words.simps [simp del]

lemma words_Nil: "dropWhile isspace t = [] \<Longrightarrow> words t = []"
  by (subst words.simps) simp

lemma words_Cons:
  "dropWhile isspace t = u \<Longrightarrow> u \<noteq> [] \<Longrightarrow>
     words t = takeWhile (\<lambda>c. \<not> isspace c) u # words (dropWhile (\<lambda>c. \<not> isspace c) u)"
  by (subst words.simps) (simp add: Let_def)

lemma words_skip: "words (dropWhile isspace t) = words t"
proof (cases "dropWhile isspace t = []")
  case False
  from words_Cons [OF dropWhile_idem this] words_Cons [OF refl False] show ?thesis by (simp only:)
qed (simp only: words_Nil list.size dropWhile.simps(1) words_Nil [of "[]"])

lemma words_append_space: "\<forall>c \<in> set sp. isspace c \<Longrightarrow> words (t @ sp) = words t"
proof (induction t rule: words.induct)
  case (1 t)
  let ?u = "dropWhile isspace t" and ?ns = "\<lambda>c. \<not> isspace c"
  show ?case
  proof (cases "?u = []")
    case True
    then have "dropWhile isspace (t @ sp) = []" using "1.prems" by auto
    from words_Nil [OF this] words_Nil [OF True] show ?thesis by (simp only:)
  next
    case False
    then have d: "dropWhile isspace (t @ sp) = ?u @ sp" by (auto simp: dropWhile_append)
    have sp: "takeWhile ?ns sp = []" "dropWhile ?ns sp = sp" using "1.prems" by (cases sp; simp)+
    have tk: "takeWhile ?ns (?u @ sp) = takeWhile ?ns ?u"
    proof (cases "\<forall>x \<in> set ?u. ?ns x")
      case True
      then have "takeWhile ?ns ?u = ?u" by (simp only: takeWhile_eq_all_conv)
      with True sp(1) show ?thesis by (simp only: takeWhile_append if_True if_cancel append_Nil2)
    qed (simp only: takeWhile_append if_False)
    have dr: "dropWhile ?ns (?u @ sp) = dropWhile ?ns ?u @ sp"
      using sp(2) by (cases "dropWhile ?ns ?u = []") (auto simp: dropWhile_append)
    have ih: "words (dropWhile ?ns ?u @ sp) = words (dropWhile ?ns ?u)"
      using False "1.prems" by (intro "1.IH") auto
    have "words (t @ sp) = takeWhile ?ns (?u @ sp) # words (dropWhile ?ns (?u @ sp))"
      by (rule words_Cons [OF d]) (use False in simp)
    also have "\<dots> = words t" unfolding tk dr ih by (rule words_Cons [OF refl False, symmetric])
    finally show ?thesis .
  qed
qed

lemma words_trimmed: "words (trimmed t) = words t"
proof -
  let ?u = "dropWhile isspace t"
  have "?u = rtrim ?u @ rev (takeWhile isspace (rev ?u))"
    unfolding rtrim_def by (metis rev_append rev_rev_ident takeWhile_dropWhile_id)
  moreover have "\<forall>c \<in> set (rev (takeWhile isspace (rev ?u))). isspace c"
    by (auto dest: set_takeWhileD)
  ultimately have "words ?u = words (rtrim ?u)" using words_append_space by metis
  then show ?thesis by (simp add: trimmed_def words_skip)
qed

lemma split_loop_ok:
  assumes "string_ok s t"
  shows "offset \<le> length t \<Longrightarrow> dropWhile isspace (drop offset t) = drop offset t \<Longrightarrow>
    \<exists>ws. split_loop s offset = Inr ws \<and> list_all2 string_ok ws (words (drop offset t))"
proof (induction "length t - offset" arbitrary: offset rule: less_induct)
  case less
  have len: "unat (st_length s) = length t" and lt: "length t < 4294967296"
    using assms by (auto simp: string_ok_length) (simp add: string_ok_def)
  show ?case
  proof (cases "offset < length t")
    case False
    with less.prems len show ?thesis by (subst split_loop.simps) (simp add: words.simps)
  next
    case True
    let ?d = "drop offset t" and ?ns = "\<lambda>c. \<not> isspace c"
    let ?wd = "takeWhile ?ns ?d" and ?r = "dropWhile ?ns ?d"
    let ?sp = "takeWhile isspace ?r"
    define e where "e = offset + length ?wd"
    define nx where "nx = e + length ?sp"
    have u: "unat (of_nat n :: u32) = n" if "n \<le> length t" for n using that lt by (simp add: unat_of_nat)
    have dne: "?d \<noteq> []" using True by simp
    then have "\<not> isspace (hd ?d)" using less.prems(2) hd_dropWhile by metis
    then have wpos: "0 < length ?wd" using dne by (cases ?d) auto
    have d: "?d = ?wd @ ?r" by simp
    have eln: "e + length ?r = length t"
      using arg_cong [OF d, of length] True by (simp add: e_def del: takeWhile_dropWhile_id)
    have dre: "drop e t = ?r"
      unfolding e_def by (metis add.commute append_eq_conv_conj d drop_drop)
    have nxle: "nx \<le> length t" using eln length_takeWhile_le [of isspace ?r] by (simp add: nx_def)
    have drn: "drop nx t = dropWhile isspace ?r"
      unfolding nx_def using dre by (metis add.commute append_eq_conv_conj drop_drop takeWhile_dropWhile_id)
    have s1: "scan_while ?ns s (of_nat offset) (unat (st_length s) - offset) = Inr (of_nat e)"
      using scan_while_ok [OF assms, of "of_nat offset" "length t - offset" ?ns] True u [of offset] len
      by (simp add: e_def)
    have "(of_nat e :: u32) - of_nat offset = of_nat (length ?wd)" by (simp add: e_def)
    then obtain w where w: "string_substr s (of_nat offset) (of_nat e - of_nat offset) = Inr w" "string_ok w ?wd"
      using string_substr_ok [OF assms, of "of_nat offset" "of_nat (length ?wd)"] u [of offset]
        u [of "length ?wd"] True eln by (auto simp: e_def takeWhile_eq_take [symmetric])
    have s2: "scan_while isspace s (of_nat e) (unat (st_length s) - unat (of_nat e :: u32)) = Inr (of_nat nx)"
      using scan_while_ok [OF assms, of "of_nat e" "length t - e" isspace] u [of e] eln len dre
      by (simp add: nx_def)
    have un: "unat (of_nat nx :: u32) = nx" using u [OF nxle] .
    have gt: "offset < nx" using wpos by (simp add: nx_def e_def)
    obtain ws where ws: "split_loop s nx = Inr ws" "list_all2 string_ok ws (words (drop nx t))"
      using less.hyps [of nx] gt nxle drn True diff_less_mono2 [of offset nx "length t"]
      by (metis dropWhile_idem)
    have "words ?d = ?wd # words ?r" by (rule words_Cons [OF less.prems(2) dne])
    then have "words ?d = ?wd # words (drop nx t)" by (simp add: drn words_skip)
    then show ?thesis
      using True len s1 w s2 un gt ws by (subst split_loop.simps) simp
  qed
qed

text \<open>
  \<open>std::string::split\<close> returns for every string, with exactly its words: the maximal runs of
  characters that are not white space, in order, however much white space surrounds them.
\<close>

theorem string_split_words:
  assumes "string_ok s t"
  shows "\<exists>ws. string_split s = Inr ws \<and> list_all2 string_ok ws (words t)"
proof -
  obtain r where r: "string_trim s = Inr r" "string_ok r (trimmed t)"
    using string_trim_ok [OF assms] by blast
  have "dropWhile isspace (trimmed t) = trimmed t"
  proof (cases "dropWhile isspace t")
    case (Cons c cs)
    then have c: "\<not> isspace c" by (metis hd_dropWhile list.sel(1) list.simps(3))
    then have "rtrim (c # cs) = c # rtrim cs" using rtrim_append [of c "[c]" "[]"]
      by (auto simp: rtrim_def dropWhile_append)
    with Cons c show ?thesis by (simp add: trimmed_def)
  qed (simp only: trimmed_def, simp add: rtrim_def)
  then show ?thesis
    using r split_loop_ok [OF r(2), of 0] by (simp add: string_split_def words_trimmed)
qed

theorem string_split_words_witness:
  "\<exists>ws. string_split \<lparr>st_str = Some [32, 97, 98, 9, 99, 32, 0], st_length = 6\<rparr> = Inr ws \<and> length ws = 2"
proof -
  have ok: "string_ok \<lparr>st_str = Some [32, 97, 98, 9, 99, 32, 0], st_length = 6\<rparr> [32, 97, 98, 9, 99, 32]"
    by (simp add: string_ok_def)
  have "words [32, 97, 98, 9, 99, 32] = [[97, 98], [99]]" by code_simp
  with string_split_words [OF ok] show ?thesis by (auto dest: list_all2_lengthD)
qed

end
