(* ===== verification/Printf.thy ===== *)
theory Printf
  imports StdString
begin

text \<open>
  \<open>vasprintf\<close> of \<^verbatim>\<open>src/string.cpp\<close>. The string built up is its list of bytes. An argument is read
  as the type the conversion asks for; an argument of another kind, or none left, is \<open>OutOfBounds\<close>. \<open>padder\<close> and \<open>sepr\<close> are
  unspecified until the first \<^verbatim>\<open>%\<close>, which sets them before they are read.
\<close>

datatype printf_arg = ArgS "bytes option" | ArgU u32

section \<open>Numbers\<close>

text \<open>
  The first loop raises \<open>index\<close>, a 32-bit value, to the power of the base that belongs to the first
  digit printed, padding included. Powers of 10 and 16 vanish modulo \<open>2^32\<close> from the 32nd on, so 33 rounds are
  enough: by then the division has failed.
\<close>

fun number_index :: "nat \<Rightarrow> u32 \<Rightarrow> u32 \<Rightarrow> u32 \<Rightarrow> u32 \<Rightarrow> u32 \<Rightarrow> (u32 \<times> u32) result" where
  "number_index 0 n base lenmod index digits = Inl Diverges"
| "number_index (Suc fuel) n base lenmod index digits =
     (if index = 0 then Inl DivideError
      else if n div index \<ge> base \<or> digits < lenmod
      then number_index fuel n base lenmod (index * base) (digits + 1)
      else Inr (index, digits))"

definition digit_char :: "u8 \<Rightarrow> u8" where
  "digit_char c = (if c \<le> 9 then c + 48 else c - 10 + 97)"

lemma div_shrinks: "Suc 0 \<le> a div b \<Longrightarrow> Suc 0 < b \<Longrightarrow> a div b < (a :: nat)"
  by (cases "a = 0") auto

text \<open>The second loop prints from the most significant digit down. It ends: \<open>index\<close> shrinks.\<close>

function number_digits ::
  "u32 \<Rightarrow> u32 \<Rightarrow> u32 \<Rightarrow> u32 \<Rightarrow> u32 \<Rightarrow> u8 \<Rightarrow> u8 \<Rightarrow> u32 \<Rightarrow> bytes" where
  "number_digits n orig base index digits padder sepr separator =
     (let c = ucast (n div index) :: u8;
          n' = n - ucast c * index;
          out = (if c = 0 \<and> index > orig \<and> index \<noteq> 1 then (if padder = 0 then 32 else padder)
                 else digit_char c);
          index' = index div base;
          digits' = digits - 1;
          sep = (if separator > 0 \<and> digits' mod separator = 0 \<and> index' \<ge> 1 \<and> sepr \<noteq> 0 then [sepr] else [])
      in out # sep @ (if index' \<ge> 1 \<and> base > 1
                      then number_digits n' orig base index' digits' padder sepr separator else []))"
  by pat_completeness auto
termination
  by (relation "measure (\<lambda>(n, orig, base, index, digits, p, s, se). unat index)")
     (auto simp: unat_div word_less_nat_alt word_le_nat_alt intro: div_shrinks)

declare number_digits.simps [simp del]

definition format_number :: "bool \<Rightarrow> u32 \<Rightarrow> u32 \<Rightarrow> u8 \<Rightarrow> u8 \<Rightarrow> bytes result" where
  "format_number decimal n lenmod padder sepr =
     (let base = (if decimal then 10 else 16); separator = (if decimal then 3 else 4) in
      rbind (number_index 33 n base lenmod 1 1) (\<lambda>(index, digits).
      Inr (number_digits n n base index digits padder sepr separator)))"

section \<open>The format string\<close>

record printf_state =
  pf_escape :: bool
  pf_lenmod :: u32
  pf_padder :: u8
  pf_sepr :: u8
  pf_out :: "bytes option"

definition pf_add :: "bytes \<Rightarrow> printf_state \<Rightarrow> printf_state" where
  "pf_add t st = st\<lparr>pf_out := Some ((case pf_out st of None \<Rightarrow> [] | Some s \<Rightarrow> s) @ t)\<rparr>"

fun c_bytes :: "bytes \<Rightarrow> bytes result" where
  "c_bytes [] = Inl OutOfBounds"
| "c_bytes (c # s) = (if c = 0 then Inr [] else rbind (c_bytes s) (\<lambda>r. Inr (c # r)))"

definition printf_conv :: "u8 \<Rightarrow> printf_state \<Rightarrow> printf_arg list \<Rightarrow> (printf_state \<times> printf_arg list) result" where
  "printf_conv c st args =
     (if c = 115
      then case args of
             ArgS (Some s) # rest \<Rightarrow> rbind (c_bytes s) (\<lambda>t. Inr (pf_add t st, rest))
           | ArgS None # rest \<Rightarrow> Inl NullDeref
           | _ \<Rightarrow> Inl OutOfBounds
      else if c = 100 \<or> c = 120
      then case args of
             ArgU n # rest \<Rightarrow> rbind (format_number (c = 100) n (pf_lenmod st) (pf_padder st) (pf_sepr st)) (\<lambda>t.
               Inr (pf_add t st, rest))
           | _ \<Rightarrow> Inl OutOfBounds
      else Inr (st, args))"

definition printf_step :: "u8 \<Rightarrow> printf_state \<Rightarrow> printf_arg list \<Rightarrow> (printf_state \<times> printf_arg list) result" where
  "printf_step c st args =
     (if c = 37
      then if \<not> pf_escape st
           then Inr (st\<lparr>pf_escape := True, pf_lenmod := 0, pf_padder := 0, pf_sepr := 0\<rparr>, args)
           else Inr ((pf_add [c] st)\<lparr>pf_escape := False\<rparr>, args)
      else if pf_escape st
      then if (c = 32 \<or> c = 48) \<and> pf_lenmod st = 0 \<and> pf_padder st = 0
           then Inr (st\<lparr>pf_padder := c\<rparr>, args)
           else if c = 44 then Inr (st\<lparr>pf_sepr := c\<rparr>, args)
           else if isdigit c then Inr (st\<lparr>pf_lenmod := pf_lenmod st * 10 + (ucast c - 48)\<rparr>, args)
           else rbind (printf_conv c st args) (\<lambda>(st', args'). Inr (st'\<lparr>pf_escape := False\<rparr>, args'))
      else Inr (pf_add [c] st, args))"

fun printf_loop :: "bytes \<Rightarrow> printf_state \<Rightarrow> printf_arg list \<Rightarrow> bytes option result" where
  "printf_loop [] st args = Inl OutOfBounds"
| "printf_loop (c # format) st args =
     (if c = 0 then Inr (pf_out st)
      else rbind (printf_step c st args) (\<lambda>(st', args'). printf_loop format st' args'))"

text \<open>
  The result: the duplicate of the string's contents, with its terminator, and its length. When nothing
  was appended the string's buffer is null and \<open>strdup\<close> reads through it.
\<close>

definition vasprintf :: "bytes \<Rightarrow> printf_arg list \<Rightarrow> (bytes \<times> u32) result" where
  "vasprintf format args =
     rbind (printf_loop format \<lparr>pf_escape = False, pf_lenmod = 0, pf_padder = 0, pf_sepr = 0, pf_out = None\<rparr> args) (\<lambda>r.
     case r of None \<Rightarrow> Inl NullDeref | Some s \<Rightarrow> Inr (s @ [0], of_nat (length s)))"

definition rasprintf :: "bytes \<Rightarrow> printf_arg list \<Rightarrow> bytes option result" where
  "rasprintf format args =
     rbind (vasprintf format args) (\<lambda>(r, n). Inr (if n = 0 then None else Some r))"

section \<open>Printing and reading back\<close>

text \<open>The decimal digits of a number, as the loop finds them: below \<open>10^(k+1)\<close>, from \<open>10^k\<close> down.\<close>

fun decimal_digits :: "nat \<Rightarrow> nat \<Rightarrow> bytes" where
  "decimal_digits n 0 = [of_nat n + 48]"
| "decimal_digits n (Suc k) = (of_nat (n div 10 ^ Suc k) + 48) # decimal_digits (n mod 10 ^ Suc k) k"

lemma digit_value: "d < 10 \<Longrightarrow> isdigit (of_nat d + 48 :: u8) \<and> (ucast (of_nat d + 48 :: u8) :: u32) = of_nat d + 48"
proof -
  assume "d < 10"
  then have "d \<in> {0, 1, 2, 3, 4, 5, 6, 7, 8, 9}" by auto
  then show ?thesis by (elim insertE; simp add: isdigit_def)
qed

lemma atoi_loop_digits:
  "n < 10 ^ Suc k \<Longrightarrow> \<not> isdigit z \<Longrightarrow>
   atoi_loop (decimal_digits n k @ z # rest) a = Inr (a * 10 ^ Suc k + of_nat n)"
proof (induction n k arbitrary: a rule: decimal_digits.induct)
  case (1 n)
  then have "n < 10" by simp
  with digit_value [OF this] 1 show ?case by (simp add: algebra_simps)
next
  case (2 n k)
  let ?d = "n div 10 ^ Suc k" and ?m = "n mod 10 ^ Suc k"
  have "?d < 10" using "2.prems"(1) by (simp add: less_mult_imp_div_less)
  note dv = digit_value [OF this]
  have "atoi_loop (decimal_digits n (Suc k) @ z # rest) a =
      atoi_loop (decimal_digits ?m k @ z # rest) (a * 10 + of_nat ?d)"
    using dv by (simp add: algebra_simps)
  also have "\<dots> = Inr ((a * 10 + of_nat ?d) * 10 ^ Suc k + of_nat ?m)"
    using "2.prems" by (intro "2.IH") auto
  also have "(a * 10 + of_nat ?d) * 10 ^ Suc k + of_nat ?m
      = a * 10 ^ Suc (Suc k) + (of_nat (?d * 10 ^ Suc k + ?m) :: u32)"
    by (simp add: algebra_simps)
  also have "(of_nat (?d * 10 ^ Suc k + ?m) :: u32) = of_nat n" by (simp only: div_mult_mod_eq)
  finally show ?case .
qed

lemma unat_eqI: "unat a = unat b \<Longrightarrow> (a :: 'a::len word) = b"
  by (simp add: word_eq_unat)

lemma ucast_small: "unat (x :: u32) < 256 \<Longrightarrow> (ucast (ucast x :: u8) :: u32) = x"
  by (rule unat_eqI) (simp add: unsigned_ucast_eq unsigned_take_bit_eq take_bit_nat_eq_self)

lemma ucast_u8_of_nat: "(ucast (x :: u32) :: u8) = of_nat (unat x)"
  by (rule unat_eqI) (simp add: unsigned_ucast_eq unsigned_of_nat)

lemma digit_char_of_nat: "d < 10 \<Longrightarrow> digit_char (of_nat d) = of_nat d + 48"
proof -
  assume "d < 10"
  then have "d \<in> {0, 1, 2, 3, 4, 5, 6, 7, 8, 9}" by auto
  then show ?thesis by (elim insertE; simp add: digit_char_def)
qed

lemma number_digits_decimal:
  "unat index = 10 ^ k \<Longrightarrow> unat n < 10 ^ Suc k \<Longrightarrow> k = 0 \<or> index \<le> orig \<Longrightarrow>
   number_digits n orig 10 index digits 0 0 3 = decimal_digits (unat n) k"
proof (induction k arbitrary: n index digits)
  case 0
  then have "index = 1" by (intro unat_eqI) simp
  moreover have "unat n < 10" using "0.prems" by simp
  moreover have "(ucast (n div 1) :: u8) = of_nat (unat n)" by (simp only: ucast_u8_of_nat div_by_1)
  moreover have "(1 :: u32) div 10 = 0" by simp
  ultimately show ?case
    using digit_char_of_nat [of "unat n"]
    by (subst number_digits.simps) (simp only: Let_def, simp)
next
  case (Suc k)
  let ?d = "unat n div 10 ^ Suc k"
  have d: "unat (n div index) = ?d" using Suc.prems(1) by (simp add: unat_div)
  have d10: "?d < 10" using Suc.prems(2) by (simp add: less_mult_imp_div_less)
  have c: "(ucast (n div index) :: u8) = of_nat ?d" by (simp only: ucast_u8_of_nat d)
  have "(ucast (ucast (n div index) :: u8) :: u32) = n div index"
    using d d10 by (intro ucast_small) simp
  then have n': "n - ucast (ucast (n div index) :: u8) * index = n mod index"
    by (simp add: minus_div_mult_eq_mod)
  note n'' = n' [unfolded c]
  have um: "unat (n mod index) = unat n mod 10 ^ Suc k" using Suc.prems(1) by (simp add: unat_mod)
  have i10: "unat (index div 10) = 10 ^ k" using Suc.prems(1) by (simp add: unat_div)
  then have "1 \<le> index div 10" by (simp add: word_le_nat_alt)
  moreover have "\<not> index > orig" using Suc.prems(3) by simp
  moreover have "number_digits (n mod index) orig 10 (index div 10) (digits - 1) 0 0 3 =
      decimal_digits (unat (n mod index)) k"
  proof (rule Suc.IH [OF i10])
    show "unat (n mod index) < 10 ^ Suc k" by (simp only: um) simp
    have "unat (index div 10) \<le> unat index" by (simp add: unat_div)
    then show "k = 0 \<or> index div 10 \<le> orig" using Suc.prems(3) by (auto simp: word_le_nat_alt)
  qed
  ultimately show ?case
    using digit_char_of_nat [OF d10]
    by (subst number_digits.simps) (simp only: Let_def c n'' um, simp)
qed

lemma number_index_decimal:
  assumes "10 ^ k \<le> unat n \<or> k = 0" and "unat n < 10 ^ Suc k" and "k \<le> 9"
  shows "j \<le> k \<Longrightarrow> unat index = 10 ^ j \<Longrightarrow> k < fuel + j \<Longrightarrow>
    \<exists>i d. number_index fuel n 10 0 index digits = Inr (i, d) \<and> unat i = 10 ^ k"
proof (induction fuel arbitrary: j index digits)
  case (Suc fuel)
  have nz: "index \<noteq> 0" using Suc.prems(2) by auto
  have dv: "unat (n div index) = unat n div 10 ^ j" using Suc.prems(2) by (simp add: unat_div)
  show ?case
  proof (cases "j = k")
    case True
    then have "unat n div 10 ^ j < 10" using assms(2) by (simp add: less_mult_imp_div_less)
    then have "\<not> n div index \<ge> 10" using dv by (simp add: word_le_nat_alt)
    with True Suc.prems nz show ?thesis by simp
  next
    case False
    then have lt: "j < k" using Suc.prems by simp
    then have "(10 :: nat) ^ Suc j \<le> 10 ^ k" by (intro power_increasing) auto
    moreover have "10 ^ k \<le> unat n" using assms(1) lt by auto
    ultimately have "10 * 10 ^ j \<le> unat n" by simp
    then have "10 \<le> unat n div 10 ^ j" by (simp add: less_eq_div_iff_mult_less_eq)
    then have ge: "n div index \<ge> 10" using dv by (simp add: word_le_nat_alt)
    have "(10 :: nat) ^ Suc j \<le> 10 ^ 9" using lt assms(3) by (intro power_increasing) auto
    then have "unat (index * 10) = 10 ^ Suc j"
      using Suc.prems(2) by (simp add: unat_word_ariths)
    then show ?thesis using Suc.IH [of "Suc j" "index * 10" "digits + 1"] lt Suc.prems nz ge by simp
  qed
qed simp

lemma decimal_length:
  obtains k where "k \<le> 9" and "10 ^ k \<le> unat (n :: u32) \<or> k = 0" and "unat n < 10 ^ Suc k"
proof -
  let ?P = "\<lambda>k. unat n < 10 ^ Suc k"
  have "(10 :: nat) ^ Suc 9 = 10000000000" by simp
  then have p9: "?P 9" using unat_lt_u32 [of n] by linarith
  define k where "k = (LEAST k. ?P k)"
  have "?P k" unfolding k_def using p9 by (rule LeastI)
  moreover have "k \<le> 9" unfolding k_def using p9 by (rule Least_le)
  moreover have "10 ^ k \<le> unat n \<or> k = 0"
  proof (cases k)
    case (Suc j)
    then have "\<not> ?P j" using not_less_Least [of j ?P] k_def by simp
    with Suc show ?thesis by (simp add: not_less)
  qed simp
  ultimately show thesis using that by blast
qed

text \<open>
  Claim C20. Printing a number with \<^verbatim>\<open>"%d"\<close> never fails, and \<open>atoi\<close> of the printed text is the number back,
  read as a signed integer: the digits are right although \<^verbatim>\<open>%d\<close> itself treats every number as unsigned.
\<close>

theorem atoi_vasprintf_roundtrip:
  "\<exists>s len. vasprintf [37, 100, 0] [ArgU n] = Inr (s, len) \<and> atoi s = Inr (sint n)"
proof -
  obtain k where k: "k \<le> 9" "10 ^ k \<le> unat n \<or> k = 0" "unat n < 10 ^ Suc k"
    by (rule decimal_length)
  obtain i d where i: "number_index 33 n 10 0 1 1 = Inr (i, d)" "unat i = 10 ^ k"
    using number_index_decimal [OF k(2,3,1), of 0 1 33 1] k(1) by auto
  have "k = 0 \<or> i \<le> n" using k(2) i(2) by (auto simp: word_le_nat_alt)
  then have f: "format_number True n 0 0 0 = Inr (decimal_digits (unat n) k)"
    using i number_digits_decimal [OF i(2) k(3), of n d] by (simp add: format_number_def)
  have ne: "decimal_digits (unat n) k \<noteq> []" by (cases k) simp_all
  have "vasprintf [37, 100, 0] [ArgU n] =
      Inr (decimal_digits (unat n) k @ [0], of_nat (length (decimal_digits (unat n) k)))"
    using f ne by (simp add: vasprintf_def printf_step_def printf_conv_def pf_add_def isdigit_def)
  moreover have "atoi (decimal_digits (unat n) k @ [0]) = Inr (sint n)"
    using atoi_loop_digits [OF k(3), of 0 "[]" 0] by (simp add: atoi_def isdigit_def)
  ultimately show ?thesis by blast
qed

text \<open>
  A hexadecimal conversion with a field width of nine or more divides by zero whatever the number:
  the power of 16 for the ninth digit does not fit 32 bits.
\<close>

theorem printf_wide_hex_divides_by_zero:
  assumes "9 \<le> lenmod"
  shows "format_number False n lenmod padder sepr = Inl DivideError"
proof -
  have "number_index (Suc fuel) n 16 lenmod i d = number_index fuel n 16 lenmod (i * 16) (d + 1)"
    if "i \<noteq> 0" "d < 9" for fuel i d
  proof -
    have "d < lenmod" using that(2) assms by (rule less_le_trans)
    with that(1) show ?thesis by simp
  qed
  note step = this
  have z: "(4294967296 :: u32) = 0" by simp
  have "number_index 33 n 16 lenmod 1 1 = number_index 25 n 16 lenmod 0 9"
    using step [of 1 1 32] step [of 16 2 31] step [of 256 3 30] step [of 4096 4 29] step [of 65536 5 28]
      step [of 1048576 6 27] step [of 16777216 7 26] step [of 268435456 8 25]
    by (simp only: Suc_numeral) (simp add: z)
  moreover have "number_index 25 n 16 lenmod 0 9 = Inl DivideError"
    using number_index.simps(2) [of 24 n 16 lenmod 0 9] by (simp only: Suc_numeral) simp
  ultimately show ?thesis by (simp add: format_number_def)
qed

theorem printf_wide_hex_divides_by_zero_witness:
  "vasprintf [37, 48, 57, 120, 0] [ArgU 255] = Inl DivideError"
  using printf_wide_hex_divides_by_zero [of 9 255 48 0]
  by (simp add: vasprintf_def printf_step_def printf_conv_def pf_add_def isdigit_def)

end
