(* ===== verification/Console.thy ===== *)
theory Console
  imports Printf
begin

text \<open>
  \<^verbatim>\<open>src/Console.cpp\<close>: the text console. The video memory is read as 16-bit cells from
  \<^verbatim>\<open>SCREEN_VMEM\<close> on; a write of an \<^verbatim>\<open>s8\<close> changes the low byte of its cell. Port writes are
  collected in order.
\<close>

section \<open>State and cursor\<close>

record console =
  cursorX :: u8
  cursorY :: u8
  lastHighChar :: u8
  vmem :: "nat \<Rightarrow> u16"
  con_out :: "(u16 \<times> u8) list"

definition SCREEN_BLANK :: u16 where "SCREEN_BLANK = 0x0720"
definition PORT_CURSOR_IDX :: u16 where "PORT_CURSOR_IDX = 0x3D4"
definition PORT_CURSOR_DATA :: u16 where "PORT_CURSOR_DATA = 0x3D5"
definition PORT_CURSOR_MSB_IDX :: u8 where "PORT_CURSOR_MSB_IDX = 0xE"
definition PORT_CURSOR_LSB_IDX :: u8 where "PORT_CURSOR_LSB_IDX = 0xF"

definition updateCursor :: "console \<Rightarrow> console" where
  "updateCursor c =
     (let index = (ucast (cursorX c) :: u16) + 80 * ucast (cursorY c) in
      c\<lparr>con_out := con_out c @
        [(PORT_CURSOR_IDX, PORT_CURSOR_MSB_IDX), (PORT_CURSOR_DATA, ucast (drop_bit 8 index AND 0xFF)),
         (PORT_CURSOR_IDX, PORT_CURSOR_LSB_IDX), (PORT_CURSOR_DATA, ucast (index AND 0xFF))]\<rparr>)"

definition scroll_rows :: "(nat \<Rightarrow> u16) \<Rightarrow> nat \<Rightarrow> u16" where
  "scroll_rows vm = fold (\<lambda>i v. v(i := v (i + 80))) [0..<24 * 80] vm"

definition blank_row :: "(nat \<Rightarrow> u16) \<Rightarrow> nat \<Rightarrow> u16" where
  "blank_row vm = fold (\<lambda>i v. v(24 * 80 + i := SCREEN_BLANK)) [0..<80] vm"

function con_scroll :: "console \<Rightarrow> console" where
  "con_scroll c =
     (if cursorY c > 24
      then con_scroll (c\<lparr>vmem := blank_row (scroll_rows (vmem c)), cursorY := cursorY c - 1\<rparr>)
      else c)"
  by auto

lemma u8_pred_less: "(24 :: u8) < y \<Longrightarrow> unat (y - 1) < unat y"
proof -
  assume "(24 :: u8) < y"
  then have "24 < unat y" by (simp add: word_less_nat_alt)
  then have "unat (y - 1) = unat y - 1" by (subst unat_sub) (simp_all add: word_le_nat_alt)
  with \<open>24 < unat y\<close> show ?thesis by simp
qed

termination con_scroll
  by (relation "measure (\<lambda>c. unat (cursorY c))") (simp_all add: u8_pred_less)

declare con_scroll.simps [simp del]

definition shiftCursor :: "console \<Rightarrow> console" where
  "shiftCursor c =
     (let c1 = c\<lparr>cursorX := cursorX c + 1\<rparr> in
      updateCursor (if cursorX c1 \<ge> 80 then con_scroll (c1\<lparr>cursorX := 0, cursorY := cursorY c1 + 1\<rparr>) else c1))"

definition shiftCursorBackward :: "console \<Rightarrow> console" where
  "shiftCursorBackward c =
     updateCursor
       (if cursorX c = 0
        then if cursorY c = 0 then c\<lparr>cursorX := 79\<rparr> else c\<lparr>cursorX := 79, cursorY := cursorY c - 1\<rparr>
        else c\<lparr>cursorX := cursorX c - 1\<rparr>)"

definition shiftCursorTab :: "console \<Rightarrow> console" where
  "shiftCursorTab c =
     (let c1 = c\<lparr>cursorX := cursorX c - (cursorX c mod 8) + 8\<rparr> in
      if cursorX c1 \<ge> 80 then con_scroll (c1\<lparr>cursorX := 0, cursorY := cursorY c1 + 1\<rparr>) else updateCursor c1)"

definition shiftCursorNewline :: "console \<Rightarrow> console" where
  "shiftCursorNewline c = updateCursor (con_scroll (c\<lparr>cursorX := 0, cursorY := cursorY c + 1\<rparr>))"

section \<open>Output\<close>

definition con_clear :: "console \<Rightarrow> console" where
  "con_clear c =
     updateCursor (c\<lparr>vmem := fold (\<lambda>j v. v(j := SCREEN_BLANK)) [0..<80 * 25] (vmem c), cursorX := 0, cursorY := 0\<rparr>)"

definition console_new :: "(nat \<Rightarrow> u16) \<Rightarrow> u8 \<Rightarrow> console" where
  "console_new vm high = con_clear \<lparr>cursorX = 0, cursorY = 0, lastHighChar = high, vmem = vm, con_out = []\<rparr>"

text \<open>
  The first two bytes of each entry in the file's encoding, UTF-8; the third byte of the two
  three-byte characters (at \<^verbatim>\<open>0x9c\<close> and \<^verbatim>\<open>0x9e\<close>) is never looked at.
\<close>

definition unicodeTable :: "(u8 \<times> u8) list" where
  "unicodeTable =
     [(0xC3, 0x87), (0xC3, 0xBC), (0xC3, 0xA9), (0xC3, 0xA2), (0xC3, 0xA4), (0xC3, 0xA0), (0xC3, 0xA5), (0xC3, 0xA7),
      (0xC3, 0xAA), (0xC3, 0xAB), (0xC3, 0xA8), (0xC3, 0xAF), (0xC3, 0xAE), (0xC3, 0xAC), (0xC3, 0x84), (0xC3, 0x85),
      (0xC3, 0x89), (0xC3, 0xA6), (0xC3, 0x86), (0xC3, 0xB4), (0xC3, 0xB6), (0xC3, 0xB2), (0xC3, 0xBB), (0xC3, 0xB9),
      (0xC3, 0xBF), (0xC3, 0x96), (0xC3, 0x9C), (0xC2, 0xA2), (0xE2, 0x82), (0xC2, 0xA5), (0xE2, 0x82), (0xC6, 0x92),
      (0xC3, 0xA1), (0xC3, 0xAD), (0xC3, 0xB3), (0xC3, 0xBA), (0xC3, 0xB1), (0xC3, 0x91), (0xC2, 0xAA), (0xC2, 0xB0),
      (0xC2, 0xBF)]"

fun search_code :: "(u8 \<times> u8) list \<Rightarrow> u8 \<Rightarrow> u8 \<Rightarrow> u8 \<Rightarrow> u8 option" where
  "search_code [] code hi lo = None"
| "search_code ((a, b) # tab) code hi lo = (if a = hi \<and> b = lo then Some code else search_code tab (code + 1) hi lo)"

definition put_cell :: "u8 \<Rightarrow> console \<Rightarrow> console" where
  "put_cell b c =
     (let i = unat (cursorY c) * 80 + unat (cursorX c) in
      c\<lparr>vmem := (vmem c)(i := (vmem c i AND 0xFF00) OR ucast b)\<rparr>)"

definition putChar :: "u8 \<Rightarrow> console \<Rightarrow> console" where
  "putChar ch c =
     (if ch = 10 then shiftCursorNewline c
      else if ch = 9 then shiftCursorTab c
      else if ch = 8 then shiftCursorBackward c
      else if ch \<ge> 0x7f
      then if lastHighChar c \<noteq> 0
           then (case search_code unicodeTable 0x80 (lastHighChar c) ch of
                   None \<Rightarrow> c
                 | Some code \<Rightarrow> shiftCursor (put_cell code c))\<lparr>lastHighChar := 0\<rparr>
           else c\<lparr>lastHighChar := ch\<rparr>
      else shiftCursor (put_cell ch c))"

fun putString :: "bytes \<Rightarrow> console \<Rightarrow> console result" where
  "putString [] c = Inl OutOfBounds"
| "putString (b # s) c = (if b \<noteq> 0 then putString s (putChar b c) else Inr c)"

fun putStringN :: "bytes \<Rightarrow> u32 \<Rightarrow> console \<Rightarrow> console result" where
  "putStringN [] n c = Inl OutOfBounds"
| "putStringN (b # s) n c = (if b \<noteq> 0 \<and> n \<noteq> 0 then putStringN s (n - 1) (putChar b c) else Inr c)"

definition con_printf :: "bytes \<Rightarrow> printf_arg list \<Rightarrow> console \<Rightarrow> console result" where
  "con_printf format ap c = rbind (vasprintf format ap) (\<lambda>(ret, _). putString ret c)"

end
