(* ===== verification/ConsoleProps.thy ===== *)
theory ConsoleProps
  imports Console
begin

text \<open>
  The screen as a window on an unbounded page: the cursor never leaves the screen, nothing beyond
  it is written, and what is shown is always the last rows of everything typed.
\<close>

section \<open>Cursor and scrolling\<close>

definition con_ok :: "console \<Rightarrow> bool" where
  "con_ok c \<longleftrightarrow> cursorX c < 80 \<and> cursorY c < 25"

definition con_pos :: "console \<Rightarrow> nat" where
  "con_pos c = unat (cursorY c) * 80 + unat (cursorX c)"

lemma con_ok_unat: "con_ok c \<longleftrightarrow> unat (cursorX c) < 80 \<and> unat (cursorY c) < 25"
  by (simp add: con_ok_def word_less_nat_alt)

lemma con_ok_pos: "con_ok c \<Longrightarrow> con_pos c < 2000"
  by (simp add: con_ok_unat con_pos_def)

lemma updateCursor_simps [simp]:
  "cursorX (updateCursor c) = cursorX c" "cursorY (updateCursor c) = cursorY c"
  "vmem (updateCursor c) = vmem c" "lastHighChar (updateCursor c) = lastHighChar c"
  "con_ok (updateCursor c) = con_ok c" "con_pos (updateCursor c) = con_pos c"
  by (simp_all add: updateCursor_def Let_def con_ok_def con_pos_def)

lemma fold_shift: "fold (\<lambda>i v. v(i := v (i + k))) [0..<n] vm = (\<lambda>i. if i < n then vm (i + k) else vm i)" if "0 < k"
  using that by (induction n) (auto simp: fun_eq_iff less_Suc_eq)

lemma fold_blank: "fold (\<lambda>i v. v(k + i := b)) [0..<n] vm = (\<lambda>i. if k \<le> i \<and> i < k + n then b else vm i)"
  by (induction n) (auto simp: fun_eq_iff)

lemma scrolled: "blank_row (scroll_rows vm) i = (if i < 1920 then vm (i + 80) else if i < 2000 then SCREEN_BLANK else vm i)"
proof -
  have "blank_row (scroll_rows vm) = (\<lambda>i. if 24 * 80 \<le> i \<and> i < 24 * 80 + 80 then SCREEN_BLANK else scroll_rows vm i)"
    unfolding blank_row_def by (rule fold_blank)
  moreover have "scroll_rows vm = (\<lambda>i. if i < 24 * 80 then vm (i + 80) else vm i)"
    unfolding scroll_rows_def by (rule fold_shift) simp
  ultimately show ?thesis by simp
qed

lemma con_scroll_none: "cursorY c < 25 \<Longrightarrow> con_scroll c = c"
  by (subst con_scroll.simps) (simp add: word_less_nat_alt)

lemma con_scroll_one: "cursorY c = 25 \<Longrightarrow>
  con_scroll c = c\<lparr>vmem := blank_row (scroll_rows (vmem c)), cursorY := 24\<rparr>"
  by (subst con_scroll.simps) (simp add: con_scroll_none)

text \<open>Moving to the start of the next row, scrolling when there is none.\<close>

definition next_row :: "console \<Rightarrow> console" where
  "next_row c = con_scroll (c\<lparr>cursorX := 0, cursorY := cursorY c + 1\<rparr>)"

lemma u8_suc: "unat (x :: u8) < 255 \<Longrightarrow> unat (x + 1) = Suc (unat x)"
  by (simp add: unat_word_ariths)

lemma next_row_cases:
  assumes "con_ok c"
  shows "unat (cursorY c) < 24 \<Longrightarrow> next_row c = c\<lparr>cursorX := 0, cursorY := cursorY c + 1\<rparr>"
    and "\<not> unat (cursorY c) < 24 \<Longrightarrow> cursorY c = 24 \<and>
      next_row c = c\<lparr>cursorX := 0, vmem := blank_row (scroll_rows (vmem c)), cursorY := 24\<rparr>"
proof -
  show "next_row c = c\<lparr>cursorX := 0, cursorY := cursorY c + 1\<rparr>" if "unat (cursorY c) < 24"
    using that u8_suc [of "cursorY c"] by (simp add: next_row_def con_scroll_none word_less_nat_alt)
  assume "\<not> unat (cursorY c) < 24"
  with assms have "unat (cursorY c) = unat (24 :: u8)" by (simp add: con_ok_unat)
  then have "cursorY c = 24" by (simp only: word_eq_unat)
  then show "cursorY c = 24 \<and> next_row c = c\<lparr>cursorX := 0, vmem := blank_row (scroll_rows (vmem c)), cursorY := 24\<rparr>"
    by (simp add: next_row_def con_scroll_one)
qed

lemma next_row_ok:
  assumes "con_ok c"
  shows "con_ok (next_row c)" and "2000 \<le> i \<Longrightarrow> vmem (next_row c) i = vmem c i"
proof -
  have "con_ok (next_row c) \<and> (2000 \<le> i \<longrightarrow> vmem (next_row c) i = vmem c i)"
  proof (cases "unat (cursorY c) < 24")
    case True
    then show ?thesis using u8_suc [of "cursorY c"] by (simp add: next_row_cases [OF assms] con_ok_unat)
  next
    case False
    then show ?thesis using next_row_cases(2) [OF assms] by (simp add: con_ok_unat scrolled)
  qed
  then show "con_ok (next_row c)" and "2000 \<le> i \<Longrightarrow> vmem (next_row c) i = vmem c i" by auto
qed

lemma put_cell_simps [simp]:
  "cursorX (put_cell b c) = cursorX c" "cursorY (put_cell b c) = cursorY c" "con_ok (put_cell b c) = con_ok c"
  "con_pos (put_cell b c) = con_pos c"
  "vmem (put_cell b c) = (vmem c)(con_pos c := (vmem c (con_pos c) AND 0xFF00) OR ucast b)"
  by (simp_all add: put_cell_def Let_def con_ok_def con_pos_def)

lemma shiftCursor_alt:
  assumes "con_ok c"
  shows "shiftCursor c = updateCursor (if unat (cursorX c) < 79 then c\<lparr>cursorX := cursorX c + 1\<rparr> else next_row c)"
  using assms u8_suc [of "cursorX c"]
  by (auto simp: shiftCursor_def next_row_def Let_def con_ok_unat word_le_nat_alt)

lemma shiftCursor_ok:
  assumes "con_ok c"
  shows "con_ok (shiftCursor c)" and "2000 \<le> i \<Longrightarrow> vmem (shiftCursor c) i = vmem c i"
  using next_row_ok [OF assms] assms u8_suc [of "cursorX c"]
  by (auto simp: shiftCursor_alt con_ok_unat)

lemma u8_pred: "(x :: u8) \<noteq> 0 \<Longrightarrow> unat (x - 1) = unat x - 1"
  by (subst unat_sub) (auto simp: word_le_nat_alt unat_gt_0 Suc_le_eq)

lemma shiftCursorBackward_ok: "con_ok c \<Longrightarrow> con_ok (shiftCursorBackward c) \<and> vmem (shiftCursorBackward c) = vmem c"
  by (auto simp: shiftCursorBackward_def con_ok_unat u8_pred)

lemma shiftCursorTab_alt:
  "shiftCursorTab c = (let x = cursorX c - (cursorX c mod 8) + 8 in
     if x \<ge> 80 then next_row c else updateCursor (c\<lparr>cursorX := x\<rparr>))"
  by (simp add: shiftCursorTab_def next_row_def Let_def)

lemma shiftCursorTab_ok:
  assumes "con_ok c"
  shows "con_ok (shiftCursorTab c)" and "2000 \<le> i \<Longrightarrow> vmem (shiftCursorTab c) i = vmem c i"
  using next_row_ok [OF assms] assms by (auto simp: shiftCursorTab_alt Let_def con_ok_def not_le)

lemma shiftCursorNewline_alt: "shiftCursorNewline c = updateCursor (next_row c)"
  by (simp add: shiftCursorNewline_def next_row_def)

lemma putChar_ok:
  assumes "con_ok c"
  shows "con_ok (putChar b c) \<and> (\<forall>i \<ge> 2000. vmem (putChar b c) i = vmem c i)"
proof -
  have cell: "con_ok (shiftCursor (put_cell d c)) \<and> (\<forall>i \<ge> 2000. vmem (shiftCursor (put_cell d c)) i = vmem c i)" for d
    using shiftCursor_ok [of "put_cell d c"] con_ok_pos [OF assms] assms by auto
  have "con_ok (e\<lparr>lastHighChar := h\<rparr>) = con_ok e" for e h by (simp add: con_ok_def)
  with cell show ?thesis
    using assms next_row_ok [OF assms] shiftCursorTab_ok [OF assms] shiftCursorBackward_ok [OF assms]
    by (auto simp: putChar_def shiftCursorNewline_alt split: option.splits)
qed

text \<open>
  Claim C22. Whatever is printed, the cursor stays on the screen and no memory beyond the 2000 cells of the screen
  changes; only a string without terminator makes the routine fail.
\<close>

theorem putString_stays_on_screen:
  assumes "con_ok c" and "0 \<in> set s"
  shows "\<exists>c'. putString s c = Inr c' \<and> con_ok c' \<and> (\<forall>i \<ge> 2000. vmem c' i = vmem c i)"
  using assms
proof (induction s arbitrary: c)
  case (Cons b s)
  show ?case
  proof (cases "b = 0")
    case False
    with Cons.prems Cons.IH [of "putChar b c"] putChar_ok [of c b] show ?thesis by fastforce
  qed (use Cons.prems in simp)
qed simp

section \<open>A window on an unbounded page\<close>

text \<open>A page: its cells, the position being typed at, the row at the top of the screen.\<close>

type_synonym text_page = "(nat \<Rightarrow> u16) \<times> nat \<times> nat"

fun type_char :: "u8 \<Rightarrow> text_page \<Rightarrow> text_page" where
  "type_char b (doc, p, t) =
     (let p' = (if b = 10 then (p div 80 + 1) * 80 else p + 1);
          doc' = (if b = 10 then doc else doc(p := (doc p AND 0xFF00) OR ucast b)) in
      (doc', p', if (t + 25) * 80 \<le> p' then t + 1 else t))"

fun window :: "text_page \<Rightarrow> console \<Rightarrow> bool" where
  "window (doc, p, t) c \<longleftrightarrow>
     con_ok c \<and> p = t * 80 + con_pos c \<and> (\<forall>i < 2000. vmem c i = doc (t * 80 + i)) \<and>
     (\<forall>i \<ge> (t + 25) * 80. doc i = SCREEN_BLANK)"

definition plain_char :: "u8 \<Rightarrow> bool" where
  "plain_char b \<longleftrightarrow> b = 10 \<or> (b \<noteq> 0 \<and> b \<noteq> 8 \<and> b \<noteq> 9 \<and> b < 0x7f)"

lemma window_next_row:
  assumes w: "window (doc, p, t) c" and p': "p' = (p div 80 + 1) * 80"
  shows "window (doc, p', if (t + 25) * 80 \<le> p' then t + 1 else t) (next_row c)"
proof -
  from w have ok: "con_ok c" by simp
  then have x: "unat (cursorX c) < 80" "unat (cursorY c) < 25" by (simp_all add: con_ok_unat)
  have "p div 80 = t + unat (cursorY c)" using w x by (simp add: con_pos_def div_add1_eq)
  then have p: "p' = (t + unat (cursorY c) + 1) * 80" using p' by simp
  show ?thesis
  proof (cases "unat (cursorY c) < 24")
    case True
    with w p next_row_ok(1) [OF ok] u8_suc [of "cursorY c"] show ?thesis
      by (simp add: next_row_cases(1) [OF ok] con_pos_def algebra_simps)
  next
    case False
    then have y: "unat (cursorY c) = 24" using x by simp
    have "vmem (next_row c) i = doc ((t + 1) * 80 + i)" if "i < 2000" for i
      using w that next_row_cases(2) [OF ok False] by (auto simp: scrolled algebra_simps)
    with w p y next_row_ok(1) [OF ok] next_row_cases(2) [OF ok False] show ?thesis
      by (simp add: con_pos_def algebra_simps)
  qed
qed

lemma window_right:
  assumes "window (doc, p, t) c" and "unat (cursorX c) < 79"
  shows "window (doc, p + 1, t) (c\<lparr>cursorX := cursorX c + 1\<rparr>)"
  using assms u8_suc [of "cursorX c"] by (simp add: con_ok_unat con_pos_def)

lemma window_updateCursor [simp]: "window d (updateCursor c) = window d c"
  by (cases d) simp

lemma putChar_window:
  assumes w: "window d c" and b: "plain_char b"
  shows "window (type_char b d) (putChar b c)"
proof -
  obtain doc p t where d: "d = (doc, p, t)" by (cases d) auto
  note w = w [unfolded d]
  then have ok: "con_ok c" by simp
  then have x: "unat (cursorX c) < 80" "unat (cursorY c) < 25" by (simp_all add: con_ok_unat)
  show ?thesis
  proof (cases "b = 10")
    case True
    with window_next_row [OF w refl] show ?thesis by (simp add: d putChar_def shiftCursorNewline_alt Let_def)
  next
    case False
    with b have put: "putChar b c = shiftCursor (put_cell b c)" by (auto simp: putChar_def plain_char_def not_le)
    let ?doc = "doc(p := (doc p AND 0xFF00) OR ucast b)"
    from con_ok_pos [OF ok] w have w1: "window (?doc, p, t) (put_cell b c)"
      by (auto simp: algebra_simps)
    show ?thesis
    proof (cases "unat (cursorX c) < 79")
      case True
      then have "\<not> (t + 25) * 80 \<le> p + 1" using w x by (simp add: con_pos_def)
      moreover have "window (?doc, p + 1, t) (shiftCursor (put_cell b c))"
        using True window_right [OF w1] ok by (simp add: shiftCursor_alt del: window.simps)
      ultimately show ?thesis using False by (simp add: d put Let_def)
    next
      case False2: False
      then have "p + 1 = (p div 80 + 1) * 80" using w x by (simp add: con_pos_def)
      from window_next_row [OF w1 this] show ?thesis
        using False False2 ok by (simp add: d put Let_def shiftCursor_alt del: window.simps)
    qed
  qed
qed

text \<open>
  Claim C21. The screen is a window on an unbounded page: if it shows the 25 rows of a page from some row on, then
  after printing any text of plain characters and newlines it shows the page with that text typed at the cursor,
  from the row that follows when the cursor passes the last one. Nothing typed is lost but by scrolling off the top.
\<close>

theorem putString_window:
  assumes "window d c" and "\<forall>b \<in> set s. plain_char b"
  shows "\<exists>c'. putString (s @ [0]) c = Inr c' \<and> window (fold type_char s d) c'"
  using assms
proof (induction s arbitrary: c d)
  case (Cons b s)
  from Cons.prems have "b \<noteq> 0" by (auto simp: plain_char_def)
  with Cons.IH [OF putChar_window] Cons.prems show ?case by simp
qed simp

section \<open>A fresh console\<close>

lemma fold_fill: "fold (\<lambda>j v. v(j := b)) [0..<n] vm = (\<lambda>i. if i < n then b else vm i)"
  by (induction n) (auto simp: fun_eq_iff less_Suc_eq)

lemma con_clear_simps:
  "cursorX (con_clear c) = 0" "cursorY (con_clear c) = 0"
  "vmem (con_clear c) = (\<lambda>i. if i < 2000 then SCREEN_BLANK else vmem c i)"
  unfolding con_clear_def fold_fill by simp_all

lemma window_clear: "window (\<lambda>_. SCREEN_BLANK, 0, 0) (con_clear c)"
  by (simp add: con_clear_simps con_ok_def con_pos_def)

theorem putString_stays_on_screen_witness:
  "\<exists>c'. putString [0xE2, 0x82, 0xA4, 9, 8, 0] (console_new (\<lambda>_. 0) 0) = Inr c' \<and> con_ok c' \<and>
     (\<forall>i \<ge> 2000. vmem c' i = vmem (console_new (\<lambda>_. 0) 0) i)"
  unfolding console_new_def
  by (rule putString_stays_on_screen) (simp_all add: con_clear_simps con_ok_def)

theorem putString_window_witness:
  "\<exists>c'. putString ([72, 105, 10] @ [0]) (console_new (\<lambda>_. 0) 0) = Inr c' \<and>
     window (fold type_char [72, 105, 10] (\<lambda>_. SCREEN_BLANK, 0, 0)) c'"
  unfolding console_new_def
  by (rule putString_window [OF window_clear]) (simp add: plain_char_def)

end
