(* ===== verification/Descriptors.thy ===== *)
theory Descriptors
  imports Prelude
begin

text \<open>
  \<^verbatim>\<open>src/Descriptor.cpp\<close>: the segment descriptors, the interrupt gates and the handler tables. The contents
  of fresh memory and the addresses of the interrupt stubs of \<^verbatim>\<open>interrupts.s\<close> are parameters;
  \<^verbatim>\<open>lgdt\<close>, \<^verbatim>\<open>ltr\<close> and \<^verbatim>\<open>lidt\<close> only load registers from the pointers recorded here.
\<close>

section \<open>The global descriptor table\<close>

record gdt_entry =
  limit_low :: u16
  base_low :: u16
  base_middle :: u8
  access :: u8
  granularity :: u8
  base_high :: u8

record tss_entry =
  prev_tss :: u32
  tss_esp0 :: u32
  tss_ss0 :: u32
  tss_unused :: "u32 list"
  tss_es :: u32
  tss_cs :: u32
  tss_ss :: u32
  tss_ds :: u32
  tss_fs :: u32
  tss_gs :: u32
  tss_ldt :: u32
  tss_trap :: u16
  iomap_base :: u16
  iomap :: "nat \<Rightarrow> u8"

record gdt =
  gdt_entryCount :: u32
  gdt_entries :: "nat \<Rightarrow> gdt_entry"
  gdt_limit :: u16
  gdt_base :: u32
  gdt_tss :: tss_entry

definition sizeof_tss_iomap :: nat where "sizeof_tss_iomap = 65536 div 8"
definition tss_iomap_offset :: u32 where "tss_iomap_offset = 104"
definition sizeof_TSSEntry :: u32 where "sizeof_TSSEntry = 104 + 8192"

definition zero_tss :: tss_entry where
  "zero_tss = \<lparr>prev_tss = 0, tss_esp0 = 0, tss_ss0 = 0, tss_unused = replicate 15 0, tss_es = 0, tss_cs = 0, tss_ss = 0,
     tss_ds = 0, tss_fs = 0, tss_gs = 0, tss_ldt = 0, tss_trap = 0, iomap_base = 0, iomap = (\<lambda>_. 0)\<rparr>"

definition setGateFields :: "int \<Rightarrow> u32 \<Rightarrow> u32 \<Rightarrow> u8 \<Rightarrow> u8 \<Rightarrow> gdt \<Rightarrow> gdt result" where
  "setGateFields num b lim acc gran g =
     rbind (assert_that (num \<ge> 0 \<and> num < sint (gdt_entryCount g))
       ''num >= 0 && num < static_cast<s32>(_entryCount)'') (\<lambda>_.
     Inr (g\<lparr>gdt_entries := (gdt_entries g)(nat num :=
       \<lparr>limit_low = ucast (lim AND 0xFFFF), base_low = ucast (b AND 0xFFFF),
        base_middle = ucast (drop_bit 16 b AND 0xFF), access = acc,
        granularity = (ucast (drop_bit 16 lim) AND 0x0F) OR (gran AND 0xF0),
        base_high = ucast (drop_bit 24 b AND 0xFF)\<rparr>)\<rparr>))"

definition gdt_setGate :: "int \<Rightarrow> u32 \<Rightarrow> u32 \<Rightarrow> u8 \<Rightarrow> bool \<Rightarrow> gdt \<Rightarrow> gdt result" where
  "gdt_setGate num b lim dpl code g =
     setGateFields num b lim ((if code then 0xA else 0x2) OR push_bit 5 dpl OR push_bit 4 0x9) 0xCF g"

definition clearGate :: "int \<Rightarrow> gdt \<Rightarrow> gdt result" where
  "clearGate num g = setGateFields num 0 0 0 0 g"

definition GDT_new :: "u32 \<Rightarrow> u32 \<Rightarrow> (nat \<Rightarrow> gdt_entry) \<Rightarrow> gdt result" where
  "GDT_new n addr garbage =
     gdt_setGate 0 0 0 0 False
       \<lparr>gdt_entryCount = n, gdt_entries = garbage, gdt_limit = ucast (8 * n - 1), gdt_base = addr, gdt_tss = zero_tss\<rparr>"

definition writeTSS :: "u32 \<Rightarrow> int \<Rightarrow> u16 \<Rightarrow> u32 \<Rightarrow> gdt \<Rightarrow> gdt result" where
  "writeTSS tss_addr num ss0 esp0 g =
     (let b = tss_addr; lim = b + sizeof_TSSEntry;
          t = zero_tss\<lparr>tss_ss0 := ucast ss0, tss_esp0 := esp0, tss_cs := 0x0b, tss_ss := 0x13, tss_ds := 0x13,
                tss_es := 0x13, tss_fs := 0x13, tss_gs := 0x13, iomap_base := ucast tss_iomap_offset\<rparr>;
          t' = t\<lparr>iomap := (\<lambda>i. if i < sizeof_tss_iomap then 0xFF else iomap t i)\<rparr> in
      setGateFields num b lim 0xE9 0x00 (g\<lparr>gdt_tss := t'\<rparr>))"

definition setTSSStack :: "u32 \<Rightarrow> gdt \<Rightarrow> gdt" where
  "setTSSStack addr g = g\<lparr>gdt_tss := (gdt_tss g)\<lparr>tss_esp0 := addr\<rparr>\<rparr>"

definition setTSSIOMap :: "(nat \<Rightarrow> u8) \<Rightarrow> gdt \<Rightarrow> gdt" where
  "setTSSIOMap m g =
     g\<lparr>gdt_tss := (gdt_tss g)\<lparr>iomap := (\<lambda>i. if i < 8192 then m i else iomap (gdt_tss g) i)\<rparr>\<rparr>"

section \<open>The interrupt descriptor table\<close>

record idt_entry =
  offset_low :: u16
  selector :: u16
  always_0 :: u8
  gate_flags :: u8
  offset_high :: u16

record 'h idt =
  idt_routines :: "nat \<Rightarrow> 'h option"
  idt_entries :: "nat \<Rightarrow> idt_entry"
  idt_limit :: u16
  idt_ridt :: u32

definition idt_setGate :: "u8 \<Rightarrow> u32 \<Rightarrow> u16 \<Rightarrow> u8 \<Rightarrow> 'h idt \<Rightarrow> 'h idt" where
  "idt_setGate n callback seg fl d =
     d\<lparr>idt_entries := (idt_entries d)(unat n :=
       \<lparr>offset_low = ucast (callback AND 0xFFFF), selector = seg, always_0 = 0, gate_flags = fl OR 0x60,
        offset_high = ucast (drop_bit 16 callback AND 0xFFFF)\<rparr>)\<rparr>"

text \<open>\<open>ulong\<close> is the first 32 bits of the 64 of an entry.\<close>

definition clear_ulong :: "idt_entry \<Rightarrow> idt_entry" where
  "clear_ulong e = e\<lparr>offset_low := 0, selector := 0\<rparr>"

definition isr_gates :: "u8 list" where
  "isr_gates = [0x0, 0x1, 0x2, 0x3, 0x4, 0x5, 0x6, 0x7, 0x8, 0x9, 0xa, 0xb, 0xc, 0xd, 0xe, 0xf,
     0x10, 0x11, 0x12, 0x13, 0x14, 0x15, 0x16, 0x17, 0x18, 0x19, 0x1a, 0x1b, 0x1c, 0x1d, 0x1e, 0x1f, 0x80]"

definition IDT_new :: "(u8 \<Rightarrow> u32) \<Rightarrow> u32 \<Rightarrow> (nat \<Rightarrow> idt_entry) \<Rightarrow> 'h idt" where
  "IDT_new isr addr garbage =
     (let d = \<lparr>idt_routines = (\<lambda>_. None), idt_entries = (\<lambda>i. if i < 0x100 then clear_ulong (garbage i) else garbage i),
               idt_limit = 0, idt_ridt = 0\<rparr>;
          d' = fold (\<lambda>n. idt_setGate n (isr n) 0x08 0x8e) isr_gates d in
      d'\<lparr>idt_limit := 8 * 0x100 - 1, idt_ridt := addr\<rparr>)"

definition idt_installHandler :: "u8 \<Rightarrow> 'h option \<Rightarrow> 'h idt \<Rightarrow> 'h idt result" where
  "idt_installHandler isr callback d =
     rbind (assert_that (isr \<ge> 0 \<and> isr \<le> 0xFF) ''isr >= 0 && isr <= 0xFF'') (\<lambda>_.
     Inr (d\<lparr>idt_routines := (idt_routines d)(unat isr := callback)\<rparr>))"

definition idt_clearHandler :: "u8 \<Rightarrow> 'h idt \<Rightarrow> 'h idt result" where
  "idt_clearHandler isr d = idt_installHandler isr None d"

definition idt_callHandler :: "u8 \<Rightarrow> 'r \<Rightarrow> ('r \<Rightarrow> u32) idt \<Rightarrow> u32" where
  "idt_callHandler isr regs d = (case idt_routines d (unat isr) of Some routine \<Rightarrow> routine regs | None \<Rightarrow> 0)"

section \<open>The interrupt request table\<close>

definition irqt_ports :: "(u16 \<times> u8) list" where
  "irqt_ports = [(0x20, 0x11), (0xA0, 0x11), (0x21, 0x20), (0xA1, 0x28), (0x21, 0x04), (0xA1, 0x02),
     (0x21, 0x01), (0xA1, 0x01), (0x21, 0x00), (0xA1, 0x00)]"

definition irq_gates :: "u8 list" where
  "irq_gates = [0x0, 0x1, 0x2, 0x3, 0x4, 0x5, 0x6, 0x7, 0x8, 0x9, 0xa, 0xb, 0xc, 0xd, 0xe, 0xf]"

definition IRQT_new :: "(u8 \<Rightarrow> u32) \<Rightarrow> 'h idt \<Rightarrow> (u16 \<times> u8) list \<times> 'h idt \<times> (nat \<Rightarrow> 'g option)" where
  "IRQT_new irq d = (irqt_ports, fold (\<lambda>n. idt_setGate (0x20 + n) (irq n) 0x08 0x8e) irq_gates d, (\<lambda>_. None))"

definition irqt_installHandler :: "u8 \<Rightarrow> 'g option \<Rightarrow> (nat \<Rightarrow> 'g option) \<Rightarrow> (nat \<Rightarrow> 'g option) result" where
  "irqt_installHandler irq callback routines =
     rbind (assert_that (irq \<ge> 1 \<and> irq \<le> 0x0f) ''irq >= 1 && irq <= 0x0f'') (\<lambda>_.
     Inr (routines(unat irq := callback)))"

definition irqt_clearHandler :: "u8 \<Rightarrow> (nat \<Rightarrow> 'g option) \<Rightarrow> (nat \<Rightarrow> 'g option) result" where
  "irqt_clearHandler irq routines = irqt_installHandler irq None routines"

definition Descriptor_gdt :: "u32 \<Rightarrow> u32 \<Rightarrow> (nat \<Rightarrow> gdt_entry) \<Rightarrow> gdt result" where
  "Descriptor_gdt addr tss_addr garbage =
     rbind (GDT_new 10 addr garbage) (\<lambda>g.
     rbind (gdt_setGate 1 0 0xFFFFFFFF 0 True g) (\<lambda>g.
     rbind (gdt_setGate 2 0 0xFFFFFFFF 0 False g) (\<lambda>g.
     rbind (gdt_setGate 3 0 0xFFFFFFFF 1 True g) (\<lambda>g.
     rbind (gdt_setGate 4 0 0xFFFFFFFF 1 False g) (\<lambda>g.
     rbind (clearGate 5 g) (\<lambda>g.
     rbind (clearGate 6 g) (\<lambda>g.
     rbind (gdt_setGate 7 0 0xFFFFFFFF 3 True g) (\<lambda>g.
     rbind (gdt_setGate 8 0 0xFFFFFFFF 3 False g) (\<lambda>g.
     writeTSS tss_addr 9 0x10 0x0 g)))))))))"

section \<open>What the tables say\<close>

text \<open>How the processor reads the entries.\<close>

definition seg_base :: "gdt_entry \<Rightarrow> u32" where
  "seg_base e = ucast (base_low e) OR push_bit 16 (ucast (base_middle e)) OR push_bit 24 (ucast (base_high e))"

definition seg_limit :: "gdt_entry \<Rightarrow> u32" where
  "seg_limit e = ucast (limit_low e) OR push_bit 16 (ucast (granularity e) AND 0x0F)"

definition gate_offset :: "idt_entry \<Rightarrow> u32" where
  "gate_offset e = ucast (offset_low e) OR push_bit 16 (ucast (offset_high e))"

lemma split_base:
  "(ucast (ucast (b AND 0xFFFF) :: u16) OR push_bit 16 (ucast (ucast (drop_bit 16 b AND 0xFF) :: u8))
    OR push_bit 24 (ucast (ucast (drop_bit 24 b AND 0xFF) :: u8)) :: u32) = b"
proof -
  have m: "(0xFFFF :: u32) = mask 16" "(0xFF :: u32) = mask 8" by (simp_all add: mask_eq_exp_minus_1)
  show ?thesis unfolding m
  proof (rule bit_word_eqI)
    fix n assume "n < LENGTH(32)"
    then show "bit (ucast (ucast (b AND mask 16) :: u16) OR push_bit 16 (ucast (ucast (drop_bit 16 b AND mask 8) :: u8))
      OR push_bit 24 (ucast (ucast (drop_bit 24 b AND mask 8) :: u8)) :: u32) n \<longleftrightarrow> bit b n"
      by (cases "n < 24"; cases "n < 16") (auto simp: bit_simps)
  qed
qed

lemma split_limit:
  "(ucast (ucast (l AND 0xFFFF) :: u16) OR push_bit 16 (ucast ((ucast (drop_bit 16 l) AND 0x0F) OR (gran AND 0xF0 :: u8))
    AND 0x0F) :: u32) = take_bit 20 l"
proof -
  have m: "(0xFFFF :: u32) = mask 16" "(0x0F :: u32) = mask 4" "(0x0F :: u8) = mask 4" "(0xF0 :: u8) = push_bit 4 (mask 4)"
    by (simp_all add: mask_eq_exp_minus_1)
  show ?thesis unfolding m
    by (rule bit_word_eqI) (auto simp: bit_simps)
qed

lemma seg_reads:
  "seg_base \<lparr>limit_low = ll, base_low = ucast (b AND 0xFFFF), base_middle = ucast (drop_bit 16 b AND 0xFF), access = acc,
     granularity = gg, base_high = ucast (drop_bit 24 b AND 0xFF)\<rparr> = b"
  "seg_limit \<lparr>limit_low = ucast (l AND 0xFFFF), base_low = bl, base_middle = bm, access = acc,
     granularity = (ucast (drop_bit 16 l) AND 0x0F) OR (gran AND 0xF0), base_high = bh\<rparr> = take_bit 20 l"
  by (simp_all only: seg_base_def seg_limit_def gdt_entry.simps split_base split_limit)

text \<open>
  Setting an entry inside the table succeeds, the processor then reads the given base in full, the
  low 20 bits of the limit and the given access byte, and every other entry is unchanged; outside the table it asserts.
\<close>

theorem setGateFields_reads_back:
  "case setGateFields num b lim acc gran g of
     Inr g' \<Rightarrow> 0 \<le> num \<and> num < sint (gdt_entryCount g) \<and> seg_base (gdt_entries g' (nat num)) = b \<and>
       seg_limit (gdt_entries g' (nat num)) = take_bit 20 lim \<and> access (gdt_entries g' (nat num)) = acc \<and>
       g' = g\<lparr>gdt_entries := (gdt_entries g)(nat num := gdt_entries g' (nat num))\<rparr>
   | Inl e \<Rightarrow> (num < 0 \<or> sint (gdt_entryCount g) \<le> num) \<and> (\<exists>msg. e = AssertFail msg)"
  by (auto simp: setGateFields_def assert_that_def seg_reads)

lemma split_offset:
  "(ucast (ucast (a AND 0xFFFF) :: u16) OR push_bit 16 (ucast (ucast (drop_bit 16 a AND 0xFFFF) :: u16)) :: u32) = a"
proof -
  have m: "(0xFFFF :: u32) = mask 16" by (simp add: mask_eq_exp_minus_1)
  show ?thesis unfolding m by (rule bit_word_eqI) (auto simp: bit_simps)
qed

definition gate_entry :: "u32 \<Rightarrow> u16 \<Rightarrow> u8 \<Rightarrow> idt_entry" where
  "gate_entry callback seg fl =
     \<lparr>offset_low = ucast (callback AND 0xFFFF), selector = seg, always_0 = 0, gate_flags = fl OR 0x60,
      offset_high = ucast (drop_bit 16 callback AND 0xFFFF)\<rparr>"

lemma idt_setGate_entries:
  "idt_entries (idt_setGate n a seg fl d) (unat k) = (if k = n then gate_entry a seg fl else idt_entries d (unat k))"
  by (auto simp: idt_setGate_def gate_entry_def word_eq_unat [of k n])

lemma fold_gates_other:
  "k \<notin> g ` set ns \<Longrightarrow> idt_entries (fold (\<lambda>n. idt_setGate (g n) (a n) seg fl) ns d) (unat k) = idt_entries d (unat k)"
  by (induction ns arbitrary: d) (auto simp: idt_setGate_entries)

lemma fold_gates_set:
  "n \<in> set ns \<Longrightarrow> inj_on g (set ns) \<Longrightarrow>
   idt_entries (fold (\<lambda>n. idt_setGate (g n) (a n) seg fl) ns d) (unat (g n)) = gate_entry (a n) seg fl"
proof (induction ns arbitrary: d)
  case (Cons m ns)
  show ?case
  proof (cases "n \<in> set ns")
    case True
    with Cons show ?thesis by simp
  next
    case False
    with Cons.prems have "n = m" and "g n \<notin> g ` set ns" by (auto simp: inj_on_def)
    then show ?thesis by (simp add: fold_gates_other idt_setGate_entries)
  qed
qed simp

lemma gate_entry_reads:
  "gate_offset (gate_entry a seg fl) = a" "selector (gate_entry a seg fl) = seg" "gate_flags (gate_entry a seg fl) = fl OR 0x60"
  by (simp_all only: gate_offset_def gate_entry_def split_offset idt_entry.simps)

lemma irq_vectors: "(\<lambda>n. 0x20 + n) ` set irq_gates = {n :: u8. 0x20 \<le> n \<and> n < 0x30}"
proof (rule set_eqI)
  fix k :: u8
  have "k = 0x20 + (k - 0x20)" by simp
  then have "k \<in> (\<lambda>n. 0x20 + n) ` set irq_gates \<longleftrightarrow> k - 0x20 \<in> set irq_gates"
    by (metis (no_types, lifting) add_diff_cancel_left' imageE image_eqI)
  also have "\<dots> \<longleftrightarrow> k - 0x20 < 0x10"
  proof
    assume "k - 0x20 < 0x10"
    then have "unat (k - 0x20) \<in> {..<16}" by (simp add: word_less_nat_alt)
    then have "unat (k - 0x20) \<in> unat ` set irq_gates"
      by (simp add: irq_gates_def lessThan_nat_numeral lessThan_Suc) blast
    then show "k - 0x20 \<in> set irq_gates" by (auto simp: word_eq_unat [symmetric])
  qed (auto simp: irq_gates_def)
  also have "\<dots> \<longleftrightarrow> k \<in> {n. 0x20 \<le> n \<and> n < 0x30}"
    by (auto simp: word_less_nat_alt word_le_nat_alt unat_sub_if' split: if_splits)
  finally show "k \<in> (\<lambda>n. 0x20 + n) ` set irq_gates \<longleftrightarrow> k \<in> {n. 0x20 \<le> n \<and> n < 0x30}" .
qed

text \<open>
  Claim C23. With both tables built, every exception vector and vector 0x80 leads to its stub, every vector
  from 0x20 to 0x2f to the stub of its interrupt request, all through the kernel code segment and
  callable from ring 3. The other gates keep the high half of what the memory held, flags included.
\<close>

theorem interrupt_vectors:
  "let d = fst (snd (IRQT_new irq (IDT_new isr addr garbage :: 'h idt))); e = idt_entries d (unat n) in
   if n \<in> set isr_gates then gate_offset e = isr n \<and> selector e = 0x08 \<and> gate_flags e = 0xee
   else if 0x20 \<le> n \<and> n < 0x30 then gate_offset e = irq (n - 0x20) \<and> selector e = 0x08 \<and> gate_flags e = 0xee
   else e = (garbage (unat n))\<lparr>offset_low := 0, selector := 0\<rparr>"
proof -
  have flags: "(0x8e :: u8) OR 0x60 = 0xee" by simp
  let ?d = "IDT_new isr addr garbage :: 'h idt"
  have irq: "idt_entries (fst (snd (IRQT_new irq ?d))) (unat n) =
      (if 0x20 \<le> n \<and> n < 0x30 then gate_entry (irq (n - 0x20)) 0x08 0x8e else idt_entries ?d (unat n))"
  proof (cases "0x20 \<le> n \<and> n < 0x30")
    case True
    then have "n \<in> (\<lambda>n. 0x20 + n) ` set irq_gates" by (simp only: irq_vectors mem_Collect_eq)
    then obtain m where "m \<in> set irq_gates" "n = 0x20 + m" by auto
    then show ?thesis using True fold_gates_set [of m irq_gates "\<lambda>n. 0x20 + n" irq "0x08" "0x8e" ?d]
      by (simp add: IRQT_new_def inj_on_def)
  next
    case False
    then have "n \<notin> (\<lambda>n. 0x20 + n) ` set irq_gates" by (simp only: irq_vectors mem_Collect_eq not_False_eq_True)
    then have "idt_entries (fold (\<lambda>n. idt_setGate (0x20 + n) (irq n) 0x08 0x8e) irq_gates ?d) (unat n) = idt_entries ?d (unat n)"
      using fold_gates_other [of n "\<lambda>n. 0x20 + n" irq_gates irq] by simp
    with False show ?thesis by (auto simp: IRQT_new_def)
  qed
  have sep: "\<not> (0x20 \<le> n \<and> n < 0x30)" if "n \<in> set isr_gates"
    using that by (auto simp: isr_gates_def word_le_nat_alt)
  have n256: "unat n < 256" using unsigned_less [of n] by simp
  have isr: "idt_entries ?d (unat n) =
      (if n \<in> set isr_gates then gate_entry (isr n) 0x08 0x8e else clear_ulong (garbage (unat n)))"
    by (auto simp: IDT_new_def Let_def n256 fold_gates_set [of n isr_gates "\<lambda>n. n" isr, simplified]
      fold_gates_other [of n "\<lambda>n. n" isr_gates isr, simplified])
  show ?thesis
  proof (cases "n \<in> set isr_gates")
    case True
    with sep [OF True] show ?thesis by (auto simp: Let_def irq isr gate_entry_reads)
  next
    case False
    then show ?thesis by (auto simp: Let_def irq isr gate_entry_reads clear_ulong_def)
  qed
qed

end
