(* ===== verification/Wire.thy ===== *)
theory Wire
  imports Strings
begin

text \<open>
  Structures as the bytes of a message or a disk sector: little-endian fields at fixed offsets. Reading a
  field past the end of the buffer is \<open>OutOfBounds\<close>. A structure that is not declared packed has its
  fields at multiples of their size.
\<close>

section \<open>Fields\<close>

definition get_u8 :: "bytes \<Rightarrow> nat \<Rightarrow> u8 result" where
  "get_u8 b i = (if i < length b then Inr (b ! i) else Inl OutOfBounds)"

definition get_u16 :: "bytes \<Rightarrow> nat \<Rightarrow> u16 result" where
  "get_u16 b i = (if i + 2 \<le> length b then Inr (ucast (b ! i) OR push_bit 8 (ucast (b ! (i + 1)))) else Inl OutOfBounds)"

definition get_u32 :: "bytes \<Rightarrow> nat \<Rightarrow> u32 result" where
  "get_u32 b i =
     (if i + 4 \<le> length b
      then Inr (ucast (b ! i) OR push_bit 8 (ucast (b ! (i + 1))) OR push_bit 16 (ucast (b ! (i + 2)))
                OR push_bit 24 (ucast (b ! (i + 3))))
      else Inl OutOfBounds)"

definition put_u16 :: "u16 \<Rightarrow> bytes" where
  "put_u16 w = [ucast w, ucast (drop_bit 8 w)]"

definition put_u32 :: "u32 \<Rightarrow> bytes" where
  "put_u32 w = [ucast w, ucast (drop_bit 8 w), ucast (drop_bit 16 w), ucast (drop_bit 24 w)]"

definition pad :: "nat \<Rightarrow> bytes" where
  "pad n = replicate n 0"

lemma length_put_bytes [simp]: "length (put_u16 v) = 2" "length (put_u32 w) = 4" "length (pad n) = n"
  by (simp_all add: put_u16_def put_u32_def pad_def)

lemma join_u16: "(ucast (ucast w :: u8) OR push_bit 8 (ucast (ucast (drop_bit 8 w) :: u8)) :: u16) = w"
proof (rule bit_word_eqI)
  fix n assume "n < LENGTH(16)"
  then show "bit (ucast (ucast w :: u8) OR push_bit 8 (ucast (ucast (drop_bit 8 w) :: u8)) :: u16) n \<longleftrightarrow> bit w n"
    by (cases "n < 8") (auto simp: bit_simps)
qed

lemma join_u32:
  "(ucast (ucast w :: u8) OR push_bit 8 (ucast (ucast (drop_bit 8 w) :: u8)) OR
    push_bit 16 (ucast (ucast (drop_bit 16 w) :: u8)) OR push_bit 24 (ucast (ucast (drop_bit 24 w) :: u8)) :: u32) = w"
proof (rule bit_word_eqI)
  fix n assume "n < LENGTH(32)"
  then show "bit (ucast (ucast w :: u8) OR push_bit 8 (ucast (ucast (drop_bit 8 w) :: u8)) OR
      push_bit 16 (ucast (ucast (drop_bit 16 w) :: u8)) OR push_bit 24 (ucast (ucast (drop_bit 24 w) :: u8)) :: u32) n
    \<longleftrightarrow> bit w n"
    by (cases "n < 8"; cases "n < 16"; cases "n < 24") (auto simp: bit_simps)
qed

text \<open>Finding a field in a structure written part by part.\<close>

named_theorems wire_simps \<open>reading the fields of a structure written part by part\<close>

lemma get_skip [wire_simps]:
  "length a \<le> i \<Longrightarrow> get_u8 (a @ r) i = get_u8 r (i - length a)"
  "length a \<le> i \<Longrightarrow> get_u16 (a @ r) i = get_u16 r (i - length a)"
  "length a \<le> i \<Longrightarrow> get_u32 (a @ r) i = get_u32 r (i - length a)"
  "0 < i \<Longrightarrow> get_u8 (x # r) i = get_u8 r (i - 1)"
  "0 < i \<Longrightarrow> get_u16 (x # r) i = get_u16 r (i - 1)"
  "0 < i \<Longrightarrow> get_u32 (x # r) i = get_u32 r (i - 1)"
  by (auto simp: get_u8_def get_u16_def get_u32_def nth_append nth_Cons' Suc_diff_le
      ordered_cancel_comm_monoid_diff_class.add_diff_assoc2 less_diff_conv2)

lemma get_here [wire_simps]:
  "get_u8 (x # r) 0 = Inr x"
  "get_u16 (put_u16 v @ r) 0 = Inr v" "get_u16 (put_u16 v) 0 = Inr v"
  "get_u32 (put_u32 w @ r) 0 = Inr w" "get_u32 (put_u32 w) 0 = Inr w"
  by (simp_all add: get_u8_def get_u16_def put_u16_def get_u32_def put_u32_def join_u16 join_u32 nth_append)

text \<open>Widening keeps the value.\<close>

lemma unat_ucast_widen [simp]:
  "unat (ucast (x :: u8) :: u32) = unat x" "unat (ucast (y :: u16) :: u32) = unat y"
proof -
  have "unat x < 2 ^ LENGTH(8)" "unat y < 2 ^ LENGTH(16)" by (rule unsigned_less)+
  then have "unat x < 4294967296" "unat y < 4294967296" by simp_all
  then show "unat (ucast x :: u32) = unat x" "unat (ucast y :: u32) = unat y"
    by (simp_all add: unsigned_ucast_eq take_bit_nat_eq_self)
qed

lemma unat_mult_nowrap:
  fixes x y :: u32
  shows "unat x * unat y < 4294967296 \<Longrightarrow> unat (x * y) = unat x * unat y"
  by (simp add: unat_word_ariths)

section \<open>Slices of an address space of bytes\<close>

definition byte_slice :: "(nat \<Rightarrow> u8) \<Rightarrow> nat \<Rightarrow> nat \<Rightarrow> bytes" where
  "byte_slice c a n = map c [a..<a + n]"

definition overwrite :: "nat \<Rightarrow> bytes \<Rightarrow> (nat \<Rightarrow> u8) \<Rightarrow> nat \<Rightarrow> u8" where
  "overwrite a b c = (\<lambda>i. if a \<le> i \<and> i < a + length b then b ! (i - a) else c i)"

lemma length_slice [simp]: "length (byte_slice c a n) = n"
  by (simp add: byte_slice_def)

lemma byte_slice_0 [simp]: "byte_slice c a 0 = []"
  by (simp add: byte_slice_def)

lemma nth_slice [simp]: "i < n \<Longrightarrow> byte_slice c a n ! i = c (a + i)"
  by (simp add: byte_slice_def)

lemma slice_append: "byte_slice c a m @ byte_slice c (a + m) n = byte_slice c a (m + n)"
  by (rule nth_equalityI) (auto simp: nth_append)

lemma take_slice: "take k (byte_slice c a n) = byte_slice c a (min k n)"
  by (rule nth_equalityI) simp_all

lemma drop_slice: "drop k (byte_slice c a n) = byte_slice c (a + k) (n - k)"
  by (rule nth_equalityI) (simp_all add: add.assoc)

lemma slice_overwrite: "byte_slice (overwrite a b c) a (length b) = b"
  by (rule nth_equalityI) (simp_all add: overwrite_def)

lemma overwrite_overwrite: "overwrite (a + length b) b' (overwrite a b c) = overwrite a (b @ b') c"
  by (auto simp: overwrite_def fun_eq_iff nth_append)

lemma overwrite_nil [simp]: "overwrite a [] c = c"
  by (auto simp: overwrite_def fun_eq_iff)

end
