(* ===== verification/Machine.thy ===== *)
theory Machine
  imports Memory Tasks Wire
begin

text \<open>
  The kernel with its memory: the task structures, the page directories and the contents of the physical
  frames. \<^verbatim>\<open>AkariCopyFramePhysical\<close> (\<^verbatim>\<open>src/physmem.s\<close>) copies the 4096 bytes at
  one physical address to another.
\<close>

record machine =
  mc_kernel :: kernel
  mc_memory :: memory
  mc_frame :: "20 word \<Rightarrow> nat \<Rightarrow> u8"

definition lift_memory :: "(memory \<Rightarrow> ('a \<times> memory) result) \<Rightarrow> machine \<Rightarrow> ('a \<times> machine) result" where
  "lift_memory f mc = rbind (f (mc_memory mc)) (\<lambda>(a, m). Inr (a, mc\<lparr>mc_memory := m\<rparr>))"

definition frame_of :: "u32 \<Rightarrow> 20 word" where
  "frame_of phys = ucast (phys div 0x1000)"

text \<open>The byte at a physical address. A copy is made of 1024 moves of four bytes.\<close>

definition phys_byte :: "(20 word \<Rightarrow> nat \<Rightarrow> u8) \<Rightarrow> u32 \<Rightarrow> u8" where
  "phys_byte g a = g (frame_of a) (unat (a mod 0x1000))"

definition phys_put :: "u32 \<Rightarrow> u8 \<Rightarrow> (20 word \<Rightarrow> nat \<Rightarrow> u8) \<Rightarrow> 20 word \<Rightarrow> nat \<Rightarrow> u8" where
  "phys_put a v g = g(frame_of a := (g (frame_of a))(unat (a mod 0x1000) := v))"

definition move_dword :: "u32 \<Rightarrow> u32 \<Rightarrow> (20 word \<Rightarrow> nat \<Rightarrow> u8) \<Rightarrow> 20 word \<Rightarrow> nat \<Rightarrow> u8" where
  "move_dword src dest g =
     (let b = phys_byte g in
      phys_put (dest + 3) (b (src + 3)) (phys_put (dest + 2) (b (src + 2))
        (phys_put (dest + 1) (b (src + 1)) (phys_put dest (b src) g))))"

fun copy_dwords :: "nat \<Rightarrow> u32 \<Rightarrow> u32 \<Rightarrow> (20 word \<Rightarrow> nat \<Rightarrow> u8) \<Rightarrow> 20 word \<Rightarrow> nat \<Rightarrow> u8" where
  "copy_dwords 0 src dest g = g"
| "copy_dwords (Suc n) src dest g = copy_dwords n (src + 4) (dest + 4) (move_dword src dest g)"

definition copyFramePhysical :: "u32 \<Rightarrow> u32 \<Rightarrow> machine \<Rightarrow> machine" where
  "copyFramePhysical src dest mc = mc\<lparr>mc_frame := copy_dwords 1024 src dest (mc_frame mc)\<rparr>"

text \<open>The bytes of a buffer inside one frame.\<close>

definition write_frame :: "20 word \<Rightarrow> nat \<Rightarrow> bytes \<Rightarrow> machine \<Rightarrow> machine" where
  "write_frame f off b mc = mc\<lparr>mc_frame := (mc_frame mc)(f := overwrite off b (mc_frame mc f))\<rparr>"

text \<open>The byte a user of a page directory reads at an address, if the address is mapped.\<close>

definition user_byte :: "nat \<Rightarrow> u32 \<Rightarrow> machine \<Rightarrow> u8 option" where
  "user_byte d addr mc =
     (case lookup_page d addr (mc_memory mc) of
        None \<Rightarrow> None
      | Some p \<Rightarrow>
          let pg = page_at p (mc_memory mc) in
          if pg_present pg then Some (mc_frame mc (pg_pageAddress pg) (unat (addr mod 0x1000))) else None)"

section \<open>Pages for a process\<close>

definition alloc_page :: "nat \<Rightarrow> u32 \<Rightarrow> memory \<Rightarrow> memory result" where
  "alloc_page d addr m = rbind (getPage_make d addr m) (\<lambda>(p, m1). allocAnyFrame p False True m1)"

definition alloc_pages :: "nat \<Rightarrow> u32 list \<Rightarrow> memory \<Rightarrow> memory result" where
  "alloc_pages d = for_each (alloc_page d)"

definition USER_TASK_BASE :: u32 where "USER_TASK_BASE = 0x50000000"
definition USER_TASK_STACK_SIZE :: u32 where "USER_TASK_STACK_SIZE = 0x4000"
definition USER_TASK_KERNEL_STACK_SIZE :: u32 where "USER_TASK_KERNEL_STACK_SIZE = 0x2000"
definition PROCESS_HEAP_START :: u32 where "PROCESS_HEAP_START = 0x20000000"
definition PROCESS_HEAP_SIZE :: u32 where "PROCESS_HEAP_SIZE = 0x300000"

text \<open>The pages of the user stack, from the top down.\<close>

definition stack_pages :: "u32 list" where
  "stack_pages = map (\<lambda>i. USER_TASK_BASE - 0x1000 - of_nat i * 0x1000) [0..<unat (USER_TASK_STACK_SIZE div 0x1000)]"

section \<open>Arguments\<close>

text \<open>
  The page that becomes the top of the stack. Writing outside it is \<open>OutOfBounds\<close>; an argument is the
  contents of its string.
\<close>

definition page_put :: "u32 \<Rightarrow> bytes \<Rightarrow> bytes \<Rightarrow> bytes result" where
  "page_put off b pg =
     (if unat off + length b \<le> length pg then Inr (take (unat off) pg @ b @ drop (unat off + length b) pg)
      else Inl OutOfBounds)"

definition args_length :: "bytes list \<Rightarrow> u32" where
  "args_length args = sum_list (map (\<lambda>a. of_nat (length a) + 1) args)"

definition args_base :: "bytes list \<Rightarrow> u32" where
  "args_base args = args_length args + 4 * (of_nat (length args) + 4)"

fun put_args :: "u32 \<Rightarrow> u32 \<Rightarrow> bytes list \<Rightarrow> nat \<Rightarrow> u32 \<Rightarrow> bytes \<Rightarrow> bytes result" where
  "put_args base n [] arr_i str_i pg = Inr pg"
| "put_args base n (a # args) arr_i str_i pg =
     rbind (page_put (0x1000 - base + 12 + of_nat arr_i * 4)
              (put_u32 (USER_TASK_BASE - base + 12 + (n + 1) * 4 + str_i)) pg) (\<lambda>pg1.
     rbind (page_put (0x1000 - base + 12 + (n + 1) * 4 + str_i) (a @ [0]) pg1) (\<lambda>pg2.
     put_args base n args (Suc arr_i) (str_i + of_nat (length a) + 1) pg2))"

definition argv_page :: "bytes list \<Rightarrow> bytes \<Rightarrow> bytes result" where
  "argv_page args pg =
     (let base = args_base args; n = of_nat (length args) in
      rbind (page_put (0x1000 - base) (put_u32 0xDEADBEEF) pg) (\<lambda>pg1.
      rbind (page_put (0x1000 - base + 4) (put_u32 n) pg1) (\<lambda>pg2.
      rbind (page_put (0x1000 - base + 8) (put_u32 (USER_TASK_BASE - base + 12)) pg2) (\<lambda>pg3.
      rbind (put_args base n args 0 0 pg3) (\<lambda>pg4.
      page_put (0x1000 - base + 12 + n * 4) (put_u32 0) pg4)))))"

definition load_task_argv :: "tref \<Rightarrow> bytes list \<Rightarrow> machine \<Rightarrow> (u32 \<times> machine) result" where
  "load_task_argv nt args mc =
     rbind (memory_allocAligned 0x1000 True (mc_memory mc)) (\<lambda>(start_page, start_phys, m1).
     let f = frame_of start_phys; mc1 = mc\<lparr>mc_memory := m1\<rparr> in
     rbind (argv_page args (byte_slice (mc_frame mc1 f) 0 0x1000)) (\<lambda>pg.
     let mc2 = write_frame f 0 pg mc1 in
     rbind (getPage_make (t_pageDir (k_task (mc_kernel mc) nt)) (USER_TASK_BASE - 0x1000) m1) (\<lambda>(p, m2).
     let mc3 = copyFramePhysical start_phys (ucast (pg_pageAddress (page_at p m2)) * 0x1000) (mc2\<lparr>mc_memory := m2\<rparr>) in
     rbind (memory_free start_page (mc_memory mc3)) (\<lambda>(_, m3).
     Inr (args_base args, mc3\<lparr>mc_memory := m3\<rparr>)))))"

section \<open>Creating a task\<close>

definition set_frame_regs :: "u32 \<Rightarrow> (regs \<Rightarrow> regs) \<Rightarrow> kernel \<Rightarrow> kernel" where
  "set_frame_regs ks f k = k\<lparr>k_frames := (k_frames k)(ks := f (k_frames k ks))\<rparr>"

definition BootstrapInitialTask :: "u8 \<Rightarrow> nat \<Rightarrow> machine \<Rightarrow> (tref \<times> machine) result" where
  "BootstrapInitialTask cpl base mc =
     rbind (task_new cpl ''initial task'' (mc_kernel mc)) (\<lambda>(nt, k1).
     if cpl > 0
     then rbind (memory_allocAligned USER_TASK_KERNEL_STACK_SIZE False (mc_memory mc)) (\<lambda>(a, _, m1).
          rbind (PageDirectory_clone base m1) (\<lambda>(d, m2).
          let k2 = upd_task nt (\<lambda>t. t\<lparr>t_ks := a + USER_TASK_KERNEL_STACK_SIZE - sizeof_modeswitch_registers,
                                     t_pageDir := d\<rparr>) k1 in
          Inr (nt, mc\<lparr>mc_kernel := k2, mc_memory := m2\<rparr>)))
     else Inl (KernelPanic ''I haven't tested a non-user initial task.''))"

definition callback_init :: "u32 \<Rightarrow> u8 \<Rightarrow> bool \<Rightarrow> u8 \<Rightarrow> regs \<Rightarrow> regs" where
  "callback_init entry_point cpl interruptFlag iopl r =
     r\<lparr>r_ds := 0x10 + ucast cpl * 0x11, r_edi := 0, r_esi := 0, r_ebp := 0, r_esp := 0, r_ebx := 0, r_edx := 0,
       r_ecx := 0, r_eax := 0, r_eip := entry_point, r_cs := 0x08 + ucast cpl * 0x11,
       r_eflags := (if interruptFlag then 0x200 else 0) OR push_bit 12 (ucast iopl)\<rparr>"

definition user_stack :: "tref \<Rightarrow> u8 \<Rightarrow> bytes list \<Rightarrow> machine \<Rightarrow> (u32 \<times> machine) result" where
  "user_stack nt cpl args mc =
     rbind (alloc_pages (t_pageDir (k_task (mc_kernel mc) nt)) stack_pages (mc_memory mc)) (\<lambda>m1.
     rbind (memory_allocAligned USER_TASK_KERNEL_STACK_SIZE False m1) (\<lambda>(a, _, m2).
     let ks = a + USER_TASK_KERNEL_STACK_SIZE - sizeof_modeswitch_registers in
     rbind (load_task_argv nt args (mc\<lparr>mc_memory := m2\<rparr>)) (\<lambda>(base, mc3).
     Inr (ks, mc3\<lparr>mc_kernel := set_frame_regs ks (\<lambda>r. r\<lparr>r_useresp := USER_TASK_BASE - base,
                                r_ss := 0x10 + ucast cpl * 0x11\<rparr>) (mc_kernel mc3)\<rparr>))))"

definition kernel_stack :: "machine \<Rightarrow> (u32 \<times> machine) result" where
  "kernel_stack mc =
     rbind (memory_allocAligned USER_TASK_STACK_SIZE False (mc_memory mc)) (\<lambda>(a, _, m1).
     Inr (a + USER_TASK_STACK_SIZE - sizeof_callback_registers, mc\<lparr>mc_memory := m1\<rparr>))"

definition CreateTask ::
  "u32 \<Rightarrow> u8 \<Rightarrow> bool \<Rightarrow> u8 \<Rightarrow> nat \<Rightarrow> string \<Rightarrow> bytes list \<Rightarrow> machine \<Rightarrow> (tref \<times> machine) result" where
  "CreateTask entry_point cpl interruptFlag iopl base name args mc =
     rbind (task_new cpl name (mc_kernel mc)) (\<lambda>(nt, k1).
     rbind (PageDirectory_clone base (mc_memory mc)) (\<lambda>(d, m1).
     let mc1 = mc\<lparr>mc_kernel := upd_task nt (\<lambda>t. t\<lparr>t_pageDir := d\<rparr>) k1, mc_memory := m1\<rparr> in
     rbind (if cpl > 0 then user_stack nt cpl args mc1 else kernel_stack mc1) (\<lambda>(ks, mc2).
     let k2 = set_frame_regs ks (callback_init entry_point cpl interruptFlag iopl) (mc_kernel mc2) in
     rbind (alloc_pages d (pages_from PROCESS_HEAP_START (unat (PROCESS_HEAP_SIZE div 0x1000))) (mc_memory mc2)) (\<lambda>m2.
     let k3 = upd_task nt (\<lambda>t. t\<lparr>t_ks := ks, t_heapStart := PROCESS_HEAP_START,
                t_heapEnd := PROCESS_HEAP_START + PROCESS_HEAP_SIZE, t_heapMax := PROCESS_HEAP_START + PROCESS_HEAP_SIZE\<rparr>) k2;
         k4 = k3\<lparr>k_byPid := map_put (k_byPid k3) (t_id (k_task k3 nt)) (Some nt)\<rparr> in
     Inr (nt, mc2\<lparr>mc_kernel := k4, mc_memory := m2\<rparr>)))))"

end
