(* ===== verification/Loader.thy ===== *)
theory Loader
  imports Machine UserIPC
begin

text \<open>
  Loading a program: the headers of an ELF image (\<^verbatim>\<open>src/inc/ELFInternal.hpp\<close>), its segments
  (\<^verbatim>\<open>src/ELF.cpp\<close>), and the system calls of \<^verbatim>\<open>src/UserProcess.cpp\<close> and
  \<^verbatim>\<open>src/UserCalls.cpp\<close> that work with page tables. An image is the bytes from its pointer on; reading
  past the last of them is \<open>OutOfBounds\<close>. Offsets into it are computed modulo \<open>2^32\<close>, as the code's pointers are.
\<close>

section \<open>Headers\<close>

record elf_ehdr =
  e_entry :: u32
  e_phoff :: u32
  e_phentsize :: u16
  e_phnum :: u16

record elf_phdr =
  p_type :: u32
  p_offset :: u32
  p_vaddr :: u32
  p_filesz :: u32
  p_memsz :: u32

definition PT_LOAD :: u32 where "PT_LOAD = 1"

definition ELF_MAGIC :: bytes where "ELF_MAGIC = [0x7f, 0x45, 0x4C, 0x46]"

text \<open>The four tests, which stop at the first byte that differs.\<close>

fun elf_magic :: "bytes \<Rightarrow> bytes \<Rightarrow> bool result" where
  "elf_magic [] img = Inr True"
| "elf_magic (c # cs) [] = Inl OutOfBounds"
| "elf_magic (c # cs) (b # bs) = (if b \<noteq> c then Inr False else elf_magic cs bs)"

definition read_ehdr :: "bytes \<Rightarrow> elf_ehdr result" where
  "read_ehdr b =
     rbind (get_u32 b 24) (\<lambda>entry_at.
     rbind (get_u32 b 28) (\<lambda>phoff.
     rbind (get_u16 b 42) (\<lambda>phentsize.
     rbind (get_u16 b 44) (\<lambda>phnum.
     Inr \<lparr>e_entry = entry_at, e_phoff = phoff, e_phentsize = phentsize, e_phnum = phnum\<rparr>))))"

text \<open>The other fields of a header are read only when its type is \<open>PT_LOAD\<close>.\<close>

definition read_phdr :: "bytes \<Rightarrow> elf_ehdr \<Rightarrow> nat \<Rightarrow> elf_phdr result" where
  "read_phdr b hdr i =
     (let at = unat (e_phoff hdr + ucast (e_phentsize hdr) * of_nat i) in
      rbind (get_u32 b at) (\<lambda>ty.
      if ty \<noteq> PT_LOAD
      then Inr \<lparr>p_type = ty, p_offset = 0, p_vaddr = 0, p_filesz = 0, p_memsz = 0\<rparr>
      else
      rbind (get_u32 b (at + 4)) (\<lambda>off.
      rbind (get_u32 b (at + 8)) (\<lambda>vaddr.
      rbind (get_u32 b (at + 16)) (\<lambda>filesz.
      rbind (get_u32 b (at + 20)) (\<lambda>memsz.
      Inr \<lparr>p_type = ty, p_offset = off, p_vaddr = vaddr, p_filesz = filesz, p_memsz = memsz\<rparr>))))))"

section \<open>Segments\<close>

definition image_bytes :: "bytes \<Rightarrow> u32 \<Rightarrow> nat \<Rightarrow> bytes result" where
  "image_bytes img off n =
     (if unat off + n \<le> length img then Inr (take n (drop (unat off) img)) else Inl OutOfBounds)"

text \<open>The length of one copy: up to the end of the frame or of the segment.\<close>

definition elf_copy :: "elf_phdr \<Rightarrow> u32 \<Rightarrow> u32" where
  "elf_copy ph copied =
     (let copy = 0x1000 - (p_vaddr ph + copied) mod 0x1000 in
      if p_memsz ph - copied < copy then p_memsz ph - copied else copy)"

text \<open>What one copy puts at its destination.\<close>

definition elf_chunk :: "bytes \<Rightarrow> elf_phdr \<Rightarrow> u32 \<Rightarrow> u32 \<Rightarrow> bytes result" where
  "elf_chunk img ph copied copy =
     (if p_filesz ph = 0 then Inr (replicate (unat copy) 0)
      else if p_filesz ph < p_memsz ph
      then let file_left = p_filesz ph - copied in
           if sint copy > sint file_left
           then let left = (if sint file_left < 0 then 0 else file_left) in
                rbind (if left \<noteq> 0 then image_bytes img (p_offset ph + copied) (unat left) else Inr []) (\<lambda>b.
                Inr (b @ replicate (unat (copy - left)) 0))
           else image_bytes img (p_offset ph + copied) (unat copy)
      else if p_filesz ph = p_memsz ph then image_bytes img (p_offset ph + copied) (unat copy)
      else Inl (KernelPanic ''ph->p_filesz is greater than ph->p_memsz!''))"

text \<open>
  One turn of the copy loop: a page of the new task gets a frame, the wand page is made to show that
  frame, and the bytes are written through the wand.
\<close>

definition load_page :: "nat \<Rightarrow> page_ref \<Rightarrow> bytes \<Rightarrow> elf_phdr \<Rightarrow> u32 \<Rightarrow> machine \<Rightarrow> machine result" where
  "load_page d wand img ph copied mc =
     (let virt = p_vaddr ph + copied in
      rbind (getPage_make d (virt AND NOT 0xFFF) (mc_memory mc)) (\<lambda>(p, m1).
      rbind (allocAnyFrame p False True m1) (\<lambda>m2.
      let m3 = upd_page wand (\<lambda>pg. pg\<lparr>pg_pageAddress := pg_pageAddress (page_at p m2)\<rparr>) m2 in
      rbind (elf_chunk img ph copied (elf_copy ph copied)) (\<lambda>b.
      Inr (write_frame (pg_pageAddress (page_at wand m3)) (unat (virt mod 0x1000)) b (mc\<lparr>mc_memory := m3\<rparr>))))))"

lemma page_mod: "unat ((v :: u32) mod 0x1000) < 4096"
  by (simp add: unat_mod)

lemma elf_copy_bounds:
  assumes "copied < p_memsz ph"
  shows "unat (elf_copy ph copied) =
      min (4096 - unat ((p_vaddr ph + copied) mod 0x1000)) (unat (p_memsz ph) - unat copied)"
    and "0 < unat (elf_copy ph copied)"
    and "unat (copied + elf_copy ph copied) = unat copied + unat (elf_copy ph copied)"
    and "unat (copied + elf_copy ph copied) \<le> unat (p_memsz ph)"
proof -
  let ?o = "(p_vaddr ph + copied) mod 0x1000"
  have lt: "unat copied < unat (p_memsz ph)" using assms by (simp add: word_less_nat_alt)
  have left: "unat (p_memsz ph - copied) = unat (p_memsz ph) - unat copied"
    using lt by (simp add: unat_sub_nowrap)
  have o: "unat ?o < 4096" by (rule page_mod)
  have frame: "unat (0x1000 - ?o) = 4096 - unat ?o" using o by (subst unat_sub_nowrap) simp_all
  show c: "unat (elf_copy ph copied) = min (4096 - unat ?o) (unat (p_memsz ph) - unat copied)"
    by (simp add: elf_copy_def Let_def word_less_nat_alt left frame)
  then show "0 < unat (elf_copy ph copied)" using lt o by simp
  have "unat copied + unat (elf_copy ph copied) \<le> unat (p_memsz ph)" using c lt by simp
  moreover show "unat (copied + elf_copy ph copied) = unat copied + unat (elf_copy ph copied)"
    using calculation unat_lt_u32 [of "p_memsz ph"] by (intro unat_add_nowrap) linarith
  ultimately show "unat (copied + elf_copy ph copied) \<le> unat (p_memsz ph)" by simp
qed

function load_segment ::
  "nat \<Rightarrow> page_ref \<Rightarrow> bytes \<Rightarrow> elf_phdr \<Rightarrow> u32 \<Rightarrow> machine \<Rightarrow> machine result" where
  "load_segment d wand img ph copied mc =
     (if copied < p_memsz ph
      then rbind (load_page d wand img ph copied mc) (\<lambda>mc'.
           load_segment d wand img ph (copied + elf_copy ph copied) mc')
      else Inr mc)"
  by pat_completeness auto

termination
proof (relation "measure (\<lambda>(d, wand, img, ph, copied, mc). unat (p_memsz ph) - unat copied)")
  fix d :: nat and wand :: page_ref and img :: bytes and ph :: elf_phdr and copied :: u32 and mc mc' :: machine
  assume *: "copied < p_memsz ph"
  then have "unat copied < unat (p_memsz ph)" by (simp add: word_less_nat_alt)
  then show "((d, wand, img, ph, copied + elf_copy ph copied, mc'), (d, wand, img, ph, copied, mc))
      \<in> measure (\<lambda>(d, wand, img, ph, copied, mc). unat (p_memsz ph) - unat copied)"
    using elf_copy_bounds(2-4) [OF *] by simp
qed simp

declare load_segment.simps [simp del]

definition load_header :: "nat \<Rightarrow> page_ref \<Rightarrow> bytes \<Rightarrow> elf_ehdr \<Rightarrow> nat \<Rightarrow> machine \<Rightarrow> machine result" where
  "load_header d wand img hdr i mc =
     rbind (read_phdr img hdr i) (\<lambda>ph.
     if p_type ph = PT_LOAD then load_segment d wand img ph 0 mc else Inr mc)"

definition loadImageInto :: "tref \<Rightarrow> bytes \<Rightarrow> machine \<Rightarrow> (bool \<times> machine) result" where
  "loadImageInto t img mc =
     rbind (elf_magic ELF_MAGIC img) (\<lambda>ok.
     if \<not> ok then Inr (False, mc)
     else rbind (read_ehdr img) (\<lambda>hdr.
       let task = k_task (mc_kernel mc) t;
           k1 = set_frame_regs (t_ks task) (\<lambda>r. r\<lparr>r_eip := e_entry hdr\<rparr>) (mc_kernel mc) in
       rbind (memory_allocAligned 0x1000 False (mc_memory mc)) (\<lambda>(magic_wand, _, m1).
       case lookup_page (m_activeDirectory m1) magic_wand m1 of
         None \<Rightarrow> Inl (AssertFail ''wand_page'')
       | Some wand \<Rightarrow>
           let old_wand_pA = pg_pageAddress (page_at wand m1) in
           rbind (for_each (load_header (t_pageDir task) wand img hdr) [0..<unat (e_phnum hdr)]
                    (mc\<lparr>mc_kernel := k1, mc_memory := m1\<rparr>)) (\<lambda>mc2.
           rbind (memory_free magic_wand
                    (upd_page wand (\<lambda>pg. pg\<lparr>pg_pageAddress := old_wand_pA\<rparr>) (mc_memory mc2))) (\<lambda>(_, m3).
           Inr (True, mc2\<lparr>mc_memory := m3\<rparr>))))))"

section \<open>System calls on page tables\<close>

definition process_fork :: "machine \<Rightarrow> (u32 \<times> machine) result" where
  "process_fork mc =
     Inl (KernelPanic ''The more I reflect on it, the more I realise fork is really challenging. TODO.'')"

definition spawn :: "string \<Rightarrow> bytes \<Rightarrow> bytes list \<Rightarrow> machine \<Rightarrow> (u32 \<times> machine) result" where
  "spawn name elf args mc =
     rbind (CreateTask 0 3 True 0 (m_kernelDirectory (mc_memory mc)) name args mc) (\<lambda>(t, mc1).
     rbind (loadImageInto t elf mc1) (\<lambda>(_, mc2).
     Inr (t_id (k_task (mc_kernel mc2) t), mc2)))"

text \<open>
  The loop of \<open>mapPhysicalMem\<close>. The step divides \<open>2^32\<close>, so the addresses repeat after
  \<open>2^20\<close> of them: a loop that has not ended by then never does.
\<close>

fun map_pages :: "nat \<Rightarrow> nat \<Rightarrow> u32 \<Rightarrow> u32 \<Rightarrow> u32 \<Rightarrow> bool \<Rightarrow> memory \<Rightarrow> memory result" where
  "map_pages 0 d virt_from virt_to phys_from readwrite m = Inl Diverges"
| "map_pages (Suc fuel) d virt_from virt_to phys_from readwrite m =
     (if virt_from \<le> virt_to
      then rbind (getPage_make d virt_from m) (\<lambda>(p, m1).
           map_pages fuel d (virt_from + 0x1000) virt_to (phys_from + 0x1000) readwrite
             (upd_page p (\<lambda>pg. pg\<lparr>pg_present := True, pg_readwrite := readwrite, pg_user := True,
                                  pg_pageAddress := ucast (phys_from div 0x1000)\<rparr>) m1))
      else Inr m)"

definition mapPhysicalMem :: "u32 \<Rightarrow> u32 \<Rightarrow> u32 \<Rightarrow> u32 \<Rightarrow> bool \<Rightarrow> machine \<Rightarrow> (bool \<times> machine) result" where
  "mapPhysicalMem taskpid virt_from virt_to phys_from readwrite mc =
     rbind (requirePrivilege PRIV_GRANT_PRIV (mc_kernel mc)) (\<lambda>k1.
     rbind (requirePrivilege PRIV_PHYSADDR k1) (\<lambda>k2.
     case task_by_pid taskpid k2 of
       (None, k3) \<Rightarrow> Inr (False, mc\<lparr>mc_kernel := k3\<rparr>)
     | (Some t, k3) \<Rightarrow>
         rbind (map_pages (Suc (2 ^ 20)) (t_pageDir (k_task k3 t)) virt_from virt_to phys_from readwrite
                  (mc_memory mc)) (\<lambda>m'.
         Inr (True, mc\<lparr>mc_kernel := k3, mc_memory := m'\<rparr>))))"

definition physAddr :: "u32 \<Rightarrow> machine \<Rightarrow> (u32 \<times> machine) result" where
  "physAddr ptr mc =
     rbind (requirePrivilege PRIV_PHYSADDR (mc_kernel mc)) (\<lambda>k1.
     let m = mc_memory mc in
     Inr (case lookup_page (t_pageDir (cur k1)) ptr m of
            None \<Rightarrow> 0
          | Some p \<Rightarrow> page_physical p ptr m, mc\<lparr>mc_kernel := k1\<rparr>))"

definition mallocap :: "u32 \<Rightarrow> u32 \<Rightarrow> machine \<Rightarrow> (u32 \<times> machine) result" where
  "mallocap n p mc =
     rbind (requirePrivilege PRIV_MALLOC (mc_kernel mc)) (\<lambda>k1.
     rbind (requirePrivilege PRIV_PHYSADDR k1) (\<lambda>k2.
     case t_heap (cur k2) of
       None \<Rightarrow> Inl NullDeref
     | Some h \<Rightarrow>
         rbind (heap_allocAligned n h) (\<lambda>(mem, h').
         rbind (physAddr mem (mc\<lparr>mc_kernel := upd_cur (\<lambda>t. t\<lparr>t_heap := Some h'\<rparr>) k2\<rparr>)) (\<lambda>(phys, mc1).
         Inr (mem, mc1\<lparr>mc_kernel := user_write p (put_u32 phys) (mc_kernel mc1)\<rparr>)))))"

end
