(* ===== verification/LoaderProps.thy ===== *)
theory LoaderProps
  imports Loader MemoryProps
begin

text \<open>
  What the loader leaves in a process: every byte of a loaded segment is mapped, in a frame of its own, and
  holds the byte of the image, or zero past the file part.
\<close>

section \<open>Addresses within a page\<close>

lemma page_of_low: "((v :: u32) AND NOT 0xFFF) div 0x1000 = v div 0x1000"
proof -
  have "unat v mod 4096 \<le> unat v" by simp
  then have "unat (v AND NOT 0xFFF) = unat v - unat v mod 4096"
    unfolding page_split by (subst unat_sub_nowrap) (simp_all add: low12_mod)
  moreover have "(unat v - unat v mod 4096) div 4096 = unat v div 4096"
    by (simp add: minus_mod_eq_div_mult)
  ultimately show ?thesis by (simp add: word_eq_unat unat_div)
qed

lemma within_block:
  fixes a j :: nat
  assumes "a mod 4096 + j < 4096"
  shows "(a + j) div 4096 = a div 4096" and "(a + j) mod 4096 = a mod 4096 + j"
proof -
  have a: "a + j = 4096 * (a div 4096) + (a mod 4096 + j)" by simp
  have q: "(4096 * q + r) div 4096 = q \<and> (4096 * q + r) mod 4096 = r" if "r < 4096" for q r :: nat
    using that by simp
  show "(a + j) div 4096 = a div 4096" "(a + j) mod 4096 = a mod 4096 + j"
    using q [OF assms, of "a div 4096"] by (simp_all only: a)
qed

lemma within_page:
  assumes "unat ((v :: u32) mod 0x1000) + j < 4096"
  shows "unat (v + of_nat j) = unat v + j" and "(v + of_nat j) div 0x1000 = v div 0x1000"
    and "unat ((v + of_nat j) mod 0x1000) = unat (v mod 0x1000) + j"
proof -
  have m: "unat v mod 4096 + j < 4096" using assms by (simp add: unat_mod)
  have "unat v = 4096 * (unat v div 4096) + unat v mod 4096" by simp
  moreover have "unat v div 4096 < 1048576" by (rule less_mult_imp_div_less) simp
  ultimately have lt: "unat v + j < 4294967296" using m by linarith
  then have "unat (of_nat j :: u32) = j" by (simp add: unat_of_nat take_bit_nat_eq_self)
  with lt show u: "unat (v + of_nat j) = unat v + j" by (simp add: unat_add_nowrap)
  with within_block [OF m] show "(v + of_nat j) div 0x1000 = v div 0x1000" "unat ((v + of_nat j) mod 0x1000) = unat (v mod 0x1000) + j"
    by (simp_all add: word_eq_unat unat_div unat_mod)
qed

lemma lookup_page_same: "a div 0x1000 = b div 0x1000 \<Longrightarrow> lookup_page d a m = lookup_page d b m"
  by (simp add: lookup_page_def)

section \<open>Page tables\<close>

definition dir_ok :: "nat \<Rightarrow> memory \<Rightarrow> bool" where
  "dir_ok d m \<longleftrightarrow> (\<forall>i t. pd_tables (m_dir m d) i = Some t \<longrightarrow> t < m_ntables m)"

lemma lookup_page_bound: "dir_ok d m \<Longrightarrow> lookup_page d a m = Some p \<Longrightarrow> fst p < m_ntables m"
  by (auto simp: dir_ok_def lookup_page_def Let_def)

lemma memory_allocAligned_same:
  assumes "memory_allocAligned n w m = Inr (a, ph, m')"
  shows "m_ntables m' = m_ntables m" and "m_frames m' = m_frames m" and "m_frameCount m' = m_frameCount m"
    and "m_activeDirectory m' = m_activeDirectory m"
  using assms by (auto simp: memory_allocAligned_def Let_def rbind_eq_Inr split: if_splits option.splits)

lemma memory_free_same:
  assumes "memory_free p m = Inr (b, m')"
  shows "m_table m' = m_table m" and "m_dir m' = m_dir m" and "m_frames m' = m_frames m"
  using assms by (auto simp: memory_free_def rbind_eq_Inr split: if_splits option.splits)

lemma getPage_make_ok:
  assumes "getPage_make d a m = Inr (p, m1)" and "dir_ok d m"
  shows "dir_ok d m1" and "lookup_page d a m1 = Some p" and "m_ntables m \<le> m_ntables m1"
    and "m_frames m1 = m_frames m" and "m_frameCount m1 = m_frameCount m"
    and "lookup_page d b m = Some q \<Longrightarrow> lookup_page d b m1 = Some q"
    and "fst r < m_ntables m \<Longrightarrow> page_at r m1 = page_at r m"
proof -
  let ?idx = "unat (a div 0x1000 div 1024)"
  have "dir_ok d m1 \<and> lookup_page d a m1 = Some p \<and> m_ntables m \<le> m_ntables m1 \<and> m_frames m1 = m_frames m \<and>
      m_frameCount m1 = m_frameCount m \<and> (lookup_page d b m = Some q \<longrightarrow> lookup_page d b m1 = Some q) \<and>
      (fst r < m_ntables m \<longrightarrow> page_at r m1 = page_at r m)"
  proof (cases "pd_tables (m_dir m d) ?idx")
    case (Some t)
    then show ?thesis using assms by (auto simp: getPage_make_def getPage_def lookup_page_def Let_def)
  next
    case None
    with assms(1) obtain t phys m0 where t: "PageTable_Allocate m = Inr (t, phys, m0)"
      and p: "p = (t, unat (a div 0x1000 mod 1024))" and m1: "m1 = set_table d ?idx t (phys OR 0x7) m0"
      by (auto simp: getPage_make_def getPage_def Let_def rbind_eq_Inr)
    from t obtain x mm where x: "memory_allocAligned sizeof_PageTable True m = Inr (x, phys, mm)"
      and t': "t = m_ntables mm" "m0 = mm\<lparr>m_table := (m_table mm)(t := (\<lambda>_. zero_page)), m_ntables := Suc t\<rparr>"
      by (auto simp: PageTable_Allocate_def Let_def rbind_eq_Inr)
    note same = memory_allocAligned_dirs [OF x] memory_allocAligned_same [OF x]
    have m1': "m_ntables m1 = Suc (m_ntables m)" "m_frames m1 = m_frames m" "m_frameCount m1 = m_frameCount m"
      "pd_tables (m_dir m1 d) = (pd_tables (m_dir m d))(?idx := Some (m_ntables m))"
      "m_table m1 = (m_table m)(m_ntables m := (\<lambda>_. zero_page))"
      using m1 t' same by (simp_all add: set_table_def)
    show ?thesis using assms(2) None m1' p t' same
      by (auto simp: dir_ok_def lookup_page_def Let_def page_at_def less_Suc_eq)
  qed
  then show "dir_ok d m1" "lookup_page d a m1 = Some p" "m_ntables m \<le> m_ntables m1"
    "m_frames m1 = m_frames m" "m_frameCount m1 = m_frameCount m"
    "lookup_page d b m = Some q \<Longrightarrow> lookup_page d b m1 = Some q"
    "fst r < m_ntables m \<Longrightarrow> page_at r m1 = page_at r m" by auto
qed

lemma lookup_page_upd [simp]: "lookup_page d a (upd_page p f m) = lookup_page d a m"
  by (simp add: lookup_page_def upd_page_def)

lemma page_at_upd: "page_at q (upd_page p f m) = (if q = p then f (page_at p m) else page_at q m)"
  by (auto simp: page_at_def upd_page_def prod_eq_iff)

lemma upd_page_simps [simp]:
  "m_frames (upd_page p f m) = m_frames m" "m_frameCount (upd_page p f m) = m_frameCount m"
  "m_ntables (upd_page p f m) = m_ntables m" "m_dir (upd_page p f m) = m_dir m"
  "dir_ok d (upd_page p f m) = dir_ok d m"
  by (simp_all add: upd_page_def dir_ok_def)

lemma allocAnyFrame_Inr:
  assumes "allocAnyFrame p kern wr m = Inr m'" and "frames_ok m"
  obtains f where "f < frame_limit m" and "\<not> frame_used m f" and "\<And>g. frame_used m' g \<longleftrightarrow> g = f \<or> frame_used m g"
    and "m_frameCount m' = m_frameCount m" and "m_ntables m' = m_ntables m" and "m_dir m' = m_dir m"
    and "pg_pageAddress (page_at p m) = 0" and "unat (pg_pageAddress (page_at p m')) = f"
    and "pg_present (page_at p m')" and "\<And>q. q \<noteq> p \<Longrightarrow> page_at q m' = page_at q m"
proof -
  from assms(1) obtain a m1 where a: "freeFrame m = Inr a" and m1: "setFrame a m = Inr m1"
    and z: "pg_pageAddress (page_at p m) = 0"
    and m': "m' = upd_page p (\<lambda>pg. pg\<lparr>pg_present := True, pg_readwrite := wr, pg_user := \<not> kern,
               pg_pageAddress := ucast (a div 0x1000)\<rparr>) m1"
    by (auto simp: allocAnyFrame_def rbind_eq_Inr)
  from freeFrame_Inr [OF a assms(2)] obtain f where f: "a = of_nat f * 0x1000" "f < frame_limit m"
    "\<not> frame_used m f" by blast
  from setFrame_used [OF assms(2) f(2)] m1 f(1) have u: "\<And>g. frame_used m1 g \<longleftrightarrow> g = f \<or> frame_used m g"
    and same: "m1 = m\<lparr>m_frames := m_frames m1\<rparr>" by auto
  have f20: "f < 2 ^ 20" using f(2) assms(2) by (simp add: frames_ok_def frame_limit_def)
  have "unat (ucast (a div 0x1000) :: 20 word) = f"
    using frame_addr(2) [OF f20] f(1) f20
    by (simp add: unsigned_ucast_eq unsigned_take_bit_eq take_bit_nat_eq_self)
  moreover have "page_at q m1 = page_at q m" for q using same by (metis page_at_def memory.select_convs(6) memory.surjective memory.update_convs(3))
  moreover have "m_frameCount m1 = m_frameCount m" "m_ntables m1 = m_ntables m" "m_dir m1 = m_dir m"
    by (subst same; simp)+
  ultimately show thesis using that [OF f(2,3)] m' u z by (auto simp: page_at_upd frame_used_def)
qed

section \<open>Bytes in their place\<close>

text \<open>
  An address of a directory holds a byte: its page is present, not the wand, and has a used frame with that
  byte. What the loader needs of its memory: the wand and frame 0 are in use.
\<close>

definition placed :: "nat \<Rightarrow> page_ref \<Rightarrow> u32 \<Rightarrow> u8 \<Rightarrow> machine \<Rightarrow> bool" where
  "placed d wand a b mc \<longleftrightarrow> (\<exists>p. lookup_page d a (mc_memory mc) = Some p \<and> p \<noteq> wand \<and>
     (let pg = page_at p (mc_memory mc) in pg_present pg \<and> pg_pageAddress pg \<noteq> 0 \<and>
        frame_used (mc_memory mc) (unat (pg_pageAddress pg)) \<and>
        mc_frame mc (pg_pageAddress pg) (unat (a mod 0x1000)) = b))"

definition loader_ok :: "nat \<Rightarrow> page_ref \<Rightarrow> memory \<Rightarrow> bool" where
  "loader_ok d wand m \<longleftrightarrow> frames_ok m \<and> frame_used m 0 \<and> dir_ok d m \<and> fst wand < m_ntables m \<and>
     pg_pageAddress (page_at wand m) \<noteq> 0"

lemma placed_user_byte: "placed d wand a b mc \<Longrightarrow> user_byte d a mc = Some b"
  by (auto simp: placed_def user_byte_def Let_def)

lemma load_page_ok:
  assumes "load_page d wand img ph copied mc = Inr mc'" and ok: "loader_ok d wand (mc_memory mc)"
    and len: "\<And>b. elf_chunk img ph copied (elf_copy ph copied) = Inr b \<Longrightarrow>
      length b \<le> 4096 - unat ((p_vaddr ph + copied) mod 0x1000)"
  obtains b where "elf_chunk img ph copied (elf_copy ph copied) = Inr b"
    and "loader_ok d wand (mc_memory mc')" and "mc_kernel mc' = mc_kernel mc"
    and "\<And>a v. placed d wand a v mc \<Longrightarrow> placed d wand a v mc'"
    and "\<And>j. j < length b \<Longrightarrow> placed d wand (p_vaddr ph + copied + of_nat j) (b ! j) mc'"
proof -
  define virt where "virt = p_vaddr ph + copied"
  define m where "m = mc_memory mc"
  from assms(1) obtain p m1 m2 b where p: "getPage_make d (virt AND NOT 0xFFF) m = Inr (p, m1)"
    and m2: "allocAnyFrame p False True m1 = Inr m2" and b: "elf_chunk img ph copied (elf_copy ph copied) = Inr b"
    and mc': "mc' = write_frame (pg_pageAddress (page_at p m2)) (unat (virt mod 0x1000)) b
       (mc\<lparr>mc_memory := upd_page wand (\<lambda>pg. pg\<lparr>pg_pageAddress := pg_pageAddress (page_at p m2)\<rparr>) m2\<rparr>)"
    by (auto simp: load_page_def Let_def rbind_eq_Inr page_at_upd virt_def m_def)
  note ok' = ok [unfolded loader_ok_def, folded m_def]
  note gp = getPage_make_ok [OF p conjunct1 [OF conjunct2 [OF conjunct2 [OF ok']]]]
  have look: "lookup_page d a m1 = Some p" if "a div 0x1000 = virt div 0x1000" for a
    using gp(2) that lookup_page_same [of a "virt AND NOT 0xFFF" d m1] by (simp only: page_of_low)
  have fo: "frames_ok m1" using ok' gp by (simp add: frames_ok_def)
  have used1: "frame_used m1 g = frame_used m g" for g using gp by (simp add: frame_used_def)
  obtain f where lim: "f < frame_limit m1" and f: "\<not> frame_used m1 f"
      "\<And>g. frame_used m2 g \<longleftrightarrow> g = f \<or> frame_used m1 g" "m_frameCount m2 = m_frameCount m1"
      "m_ntables m2 = m_ntables m1" "m_dir m2 = m_dir m1"
    and pa: "pg_pageAddress (page_at p m1) = 0" "unat (pg_pageAddress (page_at p m2)) = f" "pg_present (page_at p m2)"
      "\<And>q. q \<noteq> p \<Longrightarrow> page_at q m2 = page_at q m1" by (rule allocAnyFrame_Inr [OF m2 fo]) (rule that)
  have f0: "f \<noteq> 0" using f(1) used1 ok' by metis
  then have a0: "pg_pageAddress (page_at p m2) \<noteq> 0" using pa(2) by auto
  have wp: "wand \<noteq> p" using pa(1) gp(7) [of wand] ok' by auto
  have same: "page_at q m2 = page_at q m" if "q \<noteq> p" "fst q < m_ntables m" for q
    using that pa(4) gp(7) by simp
  have dirs: "lookup_page d a m2 = lookup_page d a m1" for a using f(5) by (simp add: lookup_page_def)
  have dir2: "dir_ok d m2" using gp(1) f(4,5) by (simp add: dir_ok_def)
  have "frame_used m2 0" using f(2) used1 ok' by metis
  then have "loader_ok d wand (mc_memory mc')"
    using ok' fo f(3-5) gp(3) a0 wp dir2
    by (auto simp: loader_ok_def mc' write_frame_def frames_ok_def page_at_upd frame_used_def)
  moreover have "placed d wand a v mc'" if old: "placed d wand a v mc" for a v
  proof -
    from old obtain q where q: "lookup_page d a m = Some q" "q \<noteq> wand" "pg_present (page_at q m)"
      "pg_pageAddress (page_at q m) \<noteq> 0" "frame_used m (unat (pg_pageAddress (page_at q m)))"
      "mc_frame mc (pg_pageAddress (page_at q m)) (unat (a mod 0x1000)) = v"
      by (auto simp: placed_def Let_def m_def)
    have qb: "fst q < m_ntables m" using lookup_page_bound q(1) ok' by blast
    then have "q \<noteq> p" using q(4) pa(1) gp(7) [of q] by auto
    with same qb have "page_at q m2 = page_at q m" by blast
    moreover have "pg_pageAddress (page_at q m) \<noteq> pg_pageAddress (page_at p m2)"
      using q(5) pa(2) f(1) used1 by metis
    moreover have "lookup_page d a m2 = Some q" using dirs gp(6) [OF q(1)] by simp
    ultimately show ?thesis using q f(2) used1
      by (auto simp: placed_def mc' write_frame_def page_at_upd frame_used_def)
  qed
  moreover have "placed d wand (virt + of_nat j) (b ! j) mc'" if "j < length b" for j
  proof -
    have j: "unat (virt mod 0x1000) + j < 4096" using that len [OF b] by (simp add: virt_def)
    have "lookup_page d (virt + of_nat j) m2 = Some p" using look within_page(2) [OF j] dirs by simp
    then show ?thesis using wp pa a0 f(2) that within_page(3) [OF j]
      by (auto simp: placed_def mc' write_frame_def page_at_upd frame_used_def overwrite_def)
  qed
  ultimately show thesis using that [OF b] mc' by (simp add: write_frame_def virt_def)
qed

section \<open>The bytes of a segment\<close>

definition segment_byte :: "bytes \<Rightarrow> elf_phdr \<Rightarrow> nat \<Rightarrow> u8" where
  "segment_byte img ph i = (if i < unat (p_filesz ph) then img ! unat (p_offset ph + of_nat i) else 0)"

lemma image_bytes_nth:
  assumes "image_bytes img (off + copied) n = Inr b" and "length img \<le> 2 ^ 32"
  shows "length b = n" and "j < n \<Longrightarrow> b ! j = img ! unat (off + of_nat (unat copied + j))"
proof -
  have le: "unat (off + copied) + n \<le> length img" and b: "b = take n (drop (unat (off + copied)) img)"
    using assms(1) by (auto simp: image_bytes_def split: if_splits)
  then show "length b = n" by simp
  assume j: "j < n"
  then have lt: "unat (off + copied) + j < 4294967296" using le assms(2) by simp
  then have "unat (of_nat j :: u32) = j" by (simp add: unat_of_nat take_bit_nat_eq_self)
  moreover have "off + of_nat (unat copied + j) = (off + copied) + of_nat j" by simp
  ultimately have "unat (off + of_nat (unat copied + j)) = unat (off + copied) + j"
    using lt by (simp only: unat_add_nowrap)
  then show "b ! j = img ! unat (off + of_nat (unat copied + j))" using j le b by simp
qed

lemma elf_chunk_bytes:
  assumes chunk: "elf_chunk img ph copied copy = Inr b" and img: "length img \<le> 2 ^ 32"
    and size: "unat (p_memsz ph) < 2 ^ 31" and le: "unat copied + unat copy \<le> unat (p_memsz ph)"
  shows "length b = unat copy" and "j < unat copy \<Longrightarrow> b ! j = segment_byte img ph (unat copied + j)"
proof -
  have all_file: "length b = unat copy \<and> (j < unat copy \<longrightarrow> b ! j = segment_byte img ph (unat copied + j))"
    if "image_bytes img (p_offset ph + copied) (unat copy) = Inr b" "unat copied + unat copy \<le> unat (p_filesz ph)"
    using image_bytes_nth [OF that(1) img] that(2) by (auto simp: segment_byte_def)
  have "length b = unat copy \<and> (j < unat copy \<longrightarrow> b ! j = segment_byte img ph (unat copied + j))"
  proof (cases "p_filesz ph = 0 \<or> \<not> p_filesz ph < p_memsz ph")
    case True
    then consider "p_filesz ph = 0" | "p_filesz ph \<noteq> 0" "p_filesz ph = p_memsz ph"
      using chunk by (auto simp: elf_chunk_def split: if_splits)
    then show ?thesis
    proof cases
      case 1
      then show ?thesis using chunk by (auto simp: elf_chunk_def segment_byte_def)
    next
      case 2
      then show ?thesis using chunk le all_file by (simp add: elf_chunk_def)
    qed
  next
    case False
    define left where "left = p_filesz ph - copied"
    have fm: "unat (p_filesz ph) < unat (p_memsz ph)" using False by (simp add: word_less_nat_alt)
    have sc: "sint copy = int (unat copy)" using le size by (intro sint_unat) simp
    have chunk': "(if sint copy > sint left
        then let l = (if sint left < 0 then 0 else left) in
          rbind (if l \<noteq> 0 then image_bytes img (p_offset ph + copied) (unat l) else Inr []) (\<lambda>b.
          Inr (b @ replicate (unat (copy - l)) 0))
        else image_bytes img (p_offset ph + copied) (unat copy)) = Inr b"
      using chunk False by (auto simp: elf_chunk_def left_def Let_def split: if_splits)
    show ?thesis
    proof (cases "unat copied \<le> unat (p_filesz ph)")
      case True
      then have l: "unat left = unat (p_filesz ph) - unat copied" by (simp add: left_def unat_sub_nowrap)
      then have sl: "sint left = int (unat left)" using fm size by (intro sint_unat) simp
      show ?thesis
      proof (cases "unat left < unat copy")
        case True
        have cl: "unat (copy - left) = unat copy - unat left" using True by (simp add: unat_sub_nowrap)
        have gt: "sint left < sint copy" "\<not> sint left < 0" unfolding sc sl using True by (simp_all only: of_nat_less_iff)
        have "\<exists>b0. (if left \<noteq> 0 then image_bytes img (p_offset ph + copied) (unat left) else Inr []) = Inr b0 \<and>
            b = b0 @ replicate (unat copy - unat left) 0"
          using chunk' gt cl by (auto simp: Let_def rbind_eq_Inr split: if_splits)
        then obtain b0 where b0: "left \<noteq> 0 \<longrightarrow> image_bytes img (p_offset ph + copied) (unat left) = Inr b0"
          "left = 0 \<longrightarrow> b0 = []" and b: "b = b0 @ replicate (unat copy - unat left) 0"
          by (auto split: if_splits)
        have len0: "length b0 = unat left" using b0 image_bytes_nth(1) [OF _ img] by (cases "left = 0") auto
        have "b ! j = segment_byte img ph (unat copied + j)" if j: "j < unat copy"
        proof (cases "j < unat left")
          case True
          then have "left \<noteq> 0" by auto
          then have "b0 ! j = img ! unat (p_offset ph + of_nat (unat copied + j))"
            using b0 image_bytes_nth(2) [OF _ img True] by auto
          moreover have "unat copied + j < unat (p_filesz ph)" using True l by simp
          ultimately show ?thesis using True len0 b by (simp add: segment_byte_def nth_append)
        next
          case False
          moreover have "\<not> unat copied + j < unat (p_filesz ph)" using False l by simp
          ultimately show ?thesis using j l len0 b by (simp add: segment_byte_def nth_append)
        qed
        then show ?thesis using b len0 True by simp
      next
        case False
        then have "\<not> sint left < sint copy" unfolding sc sl by (simp only: of_nat_less_iff not_False_eq_True)
        then have "image_bytes img (p_offset ph + copied) (unat copy) = Inr b" using chunk' by simp
        moreover have "unat copied + unat copy \<le> unat (p_filesz ph)" using False l True by simp
        ultimately show ?thesis by (rule all_file)
      qed
    next
      case False
      have "unat left = 4294967296 + unat (p_filesz ph) - unat copied"
        using False unat_lt_u32 [of copied] by (simp add: left_def unat_sub_if_size word_size word_le_nat_alt)
      then have "2147483648 \<le> unat left" "unat left < 4294967296" using size le False by simp_all
      then have "sint left < 0" unfolding sint_neg [OF \<open>2147483648 \<le> unat left\<close>] by linarith
      moreover from this have "sint left < sint copy" unfolding sc by linarith
      ultimately have "b = replicate (unat copy) 0" using chunk' by (simp split: if_splits)
      then show ?thesis using False by (simp add: segment_byte_def)
    qed
  qed
  then show "length b = unat copy" "j < unat copy \<Longrightarrow> b ! j = segment_byte img ph (unat copied + j)" by auto
qed

text \<open>A whole segment: the bytes it places, and those it leaves where they were.\<close>

lemma load_segment_ok:
  assumes "load_segment d wand img ph copied mc = Inr mc'" and "loader_ok d wand (mc_memory mc)"
    and "length img \<le> 2 ^ 32" and "unat (p_memsz ph) < 2 ^ 31"
  shows "loader_ok d wand (mc_memory mc') \<and> mc_kernel mc' = mc_kernel mc \<and>
    (\<forall>a v. placed d wand a v mc \<longrightarrow> placed d wand a v mc') \<and>
    (\<forall>i. unat copied \<le> i \<and> i < unat (p_memsz ph) \<longrightarrow>
      placed d wand (p_vaddr ph + of_nat i) (segment_byte img ph i) mc')"
  using assms
proof (induction d wand img ph copied mc rule: load_segment.induct)
  case (1 d wand img ph copied mc)
  show ?case
  proof (cases "copied < p_memsz ph")
    case False
    then show ?thesis using 1(2,3) by (auto simp: load_segment.simps word_less_nat_alt)
  next
    case True
    note eb = elf_copy_bounds [OF True]
    from 1(2) True obtain mc1 where mc1: "load_page d wand img ph copied mc = Inr mc1"
      and rest: "load_segment d wand img ph (copied + elf_copy ph copied) mc1 = Inr mc'"
      by (auto simp: load_segment.simps [of d wand img ph copied] rbind_eq_Inr)
    have le: "unat copied + unat (elf_copy ph copied) \<le> unat (p_memsz ph)" using eb(3,4) by simp
    note chunk = elf_chunk_bytes [OF _ 1(4,5) le]
    have len: "length b \<le> 4096 - unat ((p_vaddr ph + copied) mod 0x1000)"
      if "elf_chunk img ph copied (elf_copy ph copied) = Inr b" for b
      using chunk(1) [OF that] eb(1) by simp
    obtain b where b: "elf_chunk img ph copied (elf_copy ph copied) = Inr b"
      and ok1: "loader_ok d wand (mc_memory mc1)" and k1: "mc_kernel mc1 = mc_kernel mc"
      and keep: "\<And>a v. placed d wand a v mc \<Longrightarrow> placed d wand a v mc1"
      and new: "\<And>j. j < length b \<Longrightarrow> placed d wand (p_vaddr ph + copied + of_nat j) (b ! j) mc1"
      by (rule load_page_ok [OF mc1 1(3)], erule len) (rule that)
    note IH = 1(1) [OF True mc1 rest ok1 1(4,5)]
    have "placed d wand (p_vaddr ph + of_nat i) (segment_byte img ph i) mc'"
      if i: "unat copied \<le> i" "i < unat (p_memsz ph)" for i
    proof (cases "i < unat copied + unat (elf_copy ph copied)")
      case True
      define j where "j = i - unat copied"
      have j: "j < unat (elf_copy ph copied)" "i = unat copied + j" using True i by (simp_all add: j_def)
      have "placed d wand (p_vaddr ph + copied + of_nat j) (segment_byte img ph i) mc1"
        using new [of j] chunk [OF b] j by simp
      moreover have "p_vaddr ph + copied + of_nat j = p_vaddr ph + of_nat i" using j(2) by simp
      ultimately show ?thesis using IH by simp
    next
      case False
      then show ?thesis using IH eb(3) i by simp
    qed
    then show ?thesis using IH keep k1 by simp
  qed
qed

section \<open>The whole image\<close>

lemma load_headers_ok:
  assumes "for_each (load_header d wand img hdr) xs mc = Inr mc'" and "loader_ok d wand (mc_memory mc)"
    and "length img \<le> 2 ^ 32"
    and "\<forall>i \<in> set xs. \<forall>ph. read_phdr img hdr i = Inr ph \<longrightarrow> unat (p_memsz ph) < 2 ^ 31"
  shows "loader_ok d wand (mc_memory mc') \<and> mc_kernel mc' = mc_kernel mc \<and>
    (\<forall>a v. placed d wand a v mc \<longrightarrow> placed d wand a v mc') \<and>
    (\<forall>i \<in> set xs. \<exists>ph. read_phdr img hdr i = Inr ph \<and> (p_type ph = PT_LOAD \<longrightarrow>
      (\<forall>j < unat (p_memsz ph). placed d wand (p_vaddr ph + of_nat j) (segment_byte img ph j) mc')))"
  using assms
proof (induction xs arbitrary: mc)
  case (Cons i xs)
  from Cons.prems(1) obtain mc1 where one: "load_header d wand img hdr i mc = Inr mc1"
    and rest: "for_each (load_header d wand img hdr) xs mc1 = Inr mc'"
    by (auto simp: rbind_eq_Inr)
  from one obtain ph where ph: "read_phdr img hdr i = Inr ph"
    and mc1: "(if p_type ph = PT_LOAD then load_segment d wand img ph 0 mc else Inr mc) = Inr mc1"
    by (auto simp: load_header_def rbind_eq_Inr)
  have size: "unat (p_memsz ph) < 2 ^ 31" using Cons.prems(4) ph by simp
  have step: "loader_ok d wand (mc_memory mc1) \<and> mc_kernel mc1 = mc_kernel mc \<and>
    (\<forall>a v. placed d wand a v mc \<longrightarrow> placed d wand a v mc1) \<and> (p_type ph = PT_LOAD \<longrightarrow>
      (\<forall>j < unat (p_memsz ph). placed d wand (p_vaddr ph + of_nat j) (segment_byte img ph j) mc1))"
    using mc1 load_segment_ok [OF _ Cons.prems(2,3) size, of 0 mc1] Cons.prems(2) by (auto split: if_splits)
  have "loader_ok d wand (mc_memory mc1)" using step by blast
  from Cons.IH [OF rest this Cons.prems(3)] Cons.prems(4) step ph show ?case by auto
qed simp

lemma user_byte_restored:
  assumes "placed d wand a v mc" and "memory_free w (upd_page wand f (mc_memory mc)) = Inr (b, m')"
  shows "user_byte d a (mc\<lparr>mc_memory := m'\<rparr>) = Some v"
proof -
  from assms(1) obtain p where p: "lookup_page d a (mc_memory mc) = Some p" "p \<noteq> wand"
    "pg_present (page_at p (mc_memory mc))"
    "mc_frame mc (pg_pageAddress (page_at p (mc_memory mc))) (unat (a mod 0x1000)) = v"
    by (auto simp: placed_def Let_def)
  note same = memory_free_same [OF assms(2)]
  have "lookup_page d a m' = Some p" using p(1) same(2) by (simp add: lookup_page_def)
  moreover have "page_at p m' = page_at p (mc_memory mc)"
    using same(1) p(2) page_at_upd [of p wand f "mc_memory mc"] by (simp add: page_at_def)
  ultimately show ?thesis using p by (simp add: user_byte_def Let_def)
qed

text \<open>
  Claim C27. Loading an image that the loader accepts starts the process at the entry point of the image, and leaves
  every byte of every loadable segment readable at its address in the process: the byte of the file, or
  zero past the file part. This holds for any number of segments on any pages, also through
  the wand page that each copy goes through.
\<close>

theorem loadImageInto_places:
  assumes "loadImageInto t img mc = Inr (True, mc')"
    and "frames_ok (mc_memory mc)" and "frame_used (mc_memory mc) 0"
    and "dir_ok (t_pageDir (k_task (mc_kernel mc) t)) (mc_memory mc)"
    and "dir_ok (m_activeDirectory (mc_memory mc)) (mc_memory mc)"
    and wand: "\<And>a ph m1 p. memory_allocAligned 0x1000 False (mc_memory mc) = Inr (a, ph, m1) \<Longrightarrow>
      lookup_page (m_activeDirectory m1) a m1 = Some p \<Longrightarrow> pg_pageAddress (page_at p m1) \<noteq> 0"
    and "length img \<le> 2 ^ 32"
    and sizes: "\<And>hdr i ph. read_ehdr img = Inr hdr \<Longrightarrow> i < unat (e_phnum hdr) \<Longrightarrow>
      read_phdr img hdr i = Inr ph \<Longrightarrow> unat (p_memsz ph) < 2 ^ 31"
  shows "\<exists>hdr. read_ehdr img = Inr hdr \<and>
    r_eip (k_frames (mc_kernel mc') (t_ks (k_task (mc_kernel mc) t))) = e_entry hdr \<and>
    (\<forall>i < unat (e_phnum hdr). \<exists>ph. read_phdr img hdr i = Inr ph \<and> (p_type ph = PT_LOAD \<longrightarrow>
      (\<forall>j < unat (p_memsz ph).
        user_byte (t_pageDir (k_task (mc_kernel mc) t)) (p_vaddr ph + of_nat j) mc' = Some (segment_byte img ph j))))"
proof -
  let ?d = "t_pageDir (k_task (mc_kernel mc) t)" and ?ks = "t_ks (k_task (mc_kernel mc) t)"
  from assms(1) obtain hdr a ph m1 w mc2 b m3 where hdr: "read_ehdr img = Inr hdr"
    and alloc: "memory_allocAligned 0x1000 False (mc_memory mc) = Inr (a, ph, m1)"
    and w: "lookup_page (m_activeDirectory m1) a m1 = Some w"
    and mc2: "for_each (load_header ?d w img hdr) [0..<unat (e_phnum hdr)]
        (mc\<lparr>mc_kernel := set_frame_regs ?ks (\<lambda>r. r\<lparr>r_eip := e_entry hdr\<rparr>) (mc_kernel mc), mc_memory := m1\<rparr>) = Inr mc2"
    and m3: "memory_free a (upd_page w (\<lambda>pg. pg\<lparr>pg_pageAddress := pg_pageAddress (page_at w m1)\<rparr>) (mc_memory mc2)) = Inr (b, m3)"
    and mc': "mc' = mc2\<lparr>mc_memory := m3\<rparr>"
    by (auto simp: loadImageInto_def Let_def rbind_eq_Inr split: if_splits option.splits)
  note same = memory_allocAligned_dirs [OF alloc] memory_allocAligned_same [OF alloc]
  have dirs: "dir_ok d m1 \<longleftrightarrow> dir_ok d (mc_memory mc)" for d using same by (simp add: dir_ok_def)
  have "fst w < m_ntables m1" using lookup_page_bound [OF _ w] dirs assms(5) same by simp
  then have ok: "loader_ok ?d w m1"
    using assms(2-4) wand [OF alloc w] same dirs by (simp add: loader_ok_def frames_ok_def frame_used_def)
  from load_headers_ok [OF mc2 _ assms(7)] sizes [OF hdr] ok
  have ran: "mc_kernel mc2 = set_frame_regs ?ks (\<lambda>r. r\<lparr>r_eip := e_entry hdr\<rparr>) (mc_kernel mc)"
    and placed: "\<forall>i \<in> set [0..<unat (e_phnum hdr)]. \<exists>ph. read_phdr img hdr i = Inr ph \<and> (p_type ph = PT_LOAD \<longrightarrow>
      (\<forall>j < unat (p_memsz ph). placed ?d w (p_vaddr ph + of_nat j) (segment_byte img ph j) mc2))"
    by simp_all
  note bytes = user_byte_restored [OF _ m3]
  have "\<exists>ph. read_phdr img hdr i = Inr ph \<and> (p_type ph = PT_LOAD \<longrightarrow>
      (\<forall>j < unat (p_memsz ph). user_byte ?d (p_vaddr ph + of_nat j) mc' = Some (segment_byte img ph j)))"
    if i: "i < unat (e_phnum hdr)" for i
  proof -
    from placed i obtain ph where "read_phdr img hdr i = Inr ph" and "p_type ph = PT_LOAD \<longrightarrow>
        (\<forall>j < unat (p_memsz ph). placed ?d w (p_vaddr ph + of_nat j) (segment_byte img ph j) mc2)"
      by (metis atLeastLessThan_iff le0 set_upt)
    then show ?thesis unfolding mc' by (blast intro: bytes)
  qed
  then show ?thesis using hdr ran mc' by (simp add: set_frame_regs_def)
qed

end
