(* ===== verification/LoaderExamples.thy ===== *)
theory LoaderExamples
  imports LoaderProps HeapExamples KernelExamples
begin

text \<open>
  A small image, loaded into the first task of the demo kernel: one segment of three file bytes and one
  zero byte that crosses a page boundary.
\<close>

definition demo_image :: bytes where
  "demo_image = ELF_MAGIC @ pad 20 @ put_u32 0x8048FFE @ put_u32 52 @ pad 10 @ put_u16 32 @ put_u16 1 @ pad 6 @
     put_u32 1 @ put_u32 84 @ put_u32 0x8048FFE @ pad 4 @ put_u32 3 @ put_u32 4 @ pad 8 @ [0x90, 0x91, 0xC3]"

definition demo_loader :: machine where
  "demo_loader = \<lparr>mc_kernel = demo_kernel\<lparr>k_task := (\<lambda>t. (k_task demo_kernel t)\<lparr>t_pageDir := 1\<rparr>)\<rparr>,
     mc_memory = demo_memory\<lparr>m_placementAddress := 0, m_heap := Some demo_heap,
       m_table := (\<lambda>t i. if t = 0 \<and> i = 1 then zero_page\<lparr>pg_present := True, pg_pageAddress := 7\<rparr> else zero_page),
       m_ntables := 2,
       m_dir := (\<lambda>d. \<lparr>pd_tables = (\<lambda>i. if d = 0 \<and> i = 128 then Some 0 else if d = 1 \<and> i = 32 then Some 1 else None),
          pd_tablePhysicals = (\<lambda>_. 0), pd_physicalAddr = 0\<rparr>), m_ndirs := 2\<rparr>,
     mc_frame = (\<lambda>_ _. 0xCC)\<rparr>"

lemma demo_load: "case loadImageInto 0 demo_image demo_loader of Inl e \<Rightarrow> False | Inr (b, mc) \<Rightarrow> b"
  by code_simp

lemma demo_image_headers:
  "read_ehdr demo_image = Inr \<lparr>e_entry = 0x8048FFE, e_phoff = 52, e_phentsize = 32, e_phnum = 1\<rparr>"
  "length demo_image = 87"
  by code_simp+

lemma demo_image_segment:
  "read_phdr demo_image \<lparr>e_entry = 0x8048FFE, e_phoff = 52, e_phentsize = 32, e_phnum = 1\<rparr> 0 =
     Inr \<lparr>p_type = 1, p_offset = 84, p_vaddr = 0x8048FFE, p_filesz = 3, p_memsz = 4\<rparr>"
  by code_simp

lemma demo_image_bytes:
  "map (segment_byte demo_image \<lparr>p_type = 1, p_offset = 84, p_vaddr = 0x8048FFE, p_filesz = 3, p_memsz = 4\<rparr>) [0..<4] =
     [0x90, 0x91, 0xC3, 0]"
  by code_simp

theorem loadImageInto_places_witness:
  "\<exists>mc'. loadImageInto 0 demo_image demo_loader = Inr (True, mc') \<and>
     map (\<lambda>a. user_byte 1 a mc') [0x8048FFE, 0x8048FFF, 0x8049000, 0x8049001] =
       [Some 0x90, Some 0x91, Some 0xC3, Some 0]"
proof -
  let ?m = "mc_memory demo_loader"
  obtain mc' where run: "loadImageInto 0 demo_image demo_loader = Inr (True, mc')"
    using demo_load by (auto split: sum.splits)
  have h: "m_heap ?m = Some demo_heap" "m_placementAddress ?m = 0" "m_activeDirectory ?m = 0"
    by (simp_all add: demo_loader_def demo_memory_def)
  have at: "fst (projr (heap_allocAligned 0x1000 demo_heap)) = 0x20001000" by code_simp
  have wand: "pg_pageAddress (page_at p m1) \<noteq> 0"
    if "memory_allocAligned 0x1000 False ?m = Inr (a, ph, m1)" "lookup_page (m_activeDirectory m1) a m1 = Some p" for a ph m1 p
  proof -
    from that(1) h obtain h' where "heap_allocAligned 0x1000 demo_heap = Inr (a, h')" and m1: "m1 = ?m\<lparr>m_heap := Some h'\<rparr>"
      by (auto simp: memory_allocAligned_def kernel_phys_def rbind_eq_Inr)
    with at have "a = 0x20001000" by simp
    with that(2) m1 show ?thesis
      by (auto simp: lookup_page_def Let_def demo_loader_def demo_memory_def page_at_def split: if_splits)
  qed
  have ok: "frames_ok ?m" "frame_used ?m 0" "dir_ok 1 ?m" "dir_ok 0 ?m" "t_pageDir (k_task (mc_kernel demo_loader) 0) = 1"
    by (simp_all add: demo_loader_def demo_memory_def frames_ok_def frame_used_def dir_ok_def demo_defs)
  have "\<exists>hdr. read_ehdr demo_image = Inr hdr \<and>
    r_eip (k_frames (mc_kernel mc') (t_ks (k_task (mc_kernel demo_loader) 0))) = e_entry hdr \<and>
    (\<forall>i < unat (e_phnum hdr). \<exists>ph. read_phdr demo_image hdr i = Inr ph \<and> (p_type ph = PT_LOAD \<longrightarrow>
      (\<forall>j < unat (p_memsz ph). user_byte (t_pageDir (k_task (mc_kernel demo_loader) 0)) (p_vaddr ph + of_nat j) mc' =
         Some (segment_byte demo_image ph j))))"
    using ok h demo_image_headers demo_image_segment
    by (intro loadImageInto_places [OF run _ _ _ _ wand]) auto
  then have bytes: "\<forall>j < 4. user_byte 1 (0x8048FFE + of_nat j) mc' = Some (segment_byte demo_image
      \<lparr>p_type = 1, p_offset = 84, p_vaddr = 0x8048FFE, p_filesz = 3, p_memsz = 4\<rparr> j)"
    using ok demo_image_headers demo_image_segment by (auto simp: PT_LOAD_def)
  have "map (\<lambda>j. user_byte 1 (0x8048FFE + of_nat j) mc') [0..<4] = map Some [0x90, 0x91, 0xC3, 0]"
    unfolding demo_image_bytes [symmetric] map_map by (rule map_cong) (use bytes in auto)
  then show ?thesis using run by (simp add: upt_rec)
qed

end
