(* ===== verification/VfsProto.thy ===== *)
theory VfsProto
  imports Wire
begin

text \<open>
  \<^verbatim>\<open>src/packages/vfs/proto.hpp\<close>: the messages between the file-system server, its drivers and its clients, and
  the structures they carry. A structure is the list of its bytes as it is sent; padding is zero.
\<close>

definition VFS_OP_READ :: u8 where "VFS_OP_READ = 0x1"
definition VFS_OP_READDIR :: u8 where "VFS_OP_READDIR = 0x5"
definition VFS_OP_FINDDIR :: u8 where "VFS_OP_FINDDIR = 0x6"
definition VFS_OP_ROOT :: u8 where "VFS_OP_ROOT = 0x7"
definition VFS_OP_REGISTER_DRIVER :: u8 where "VFS_OP_REGISTER_DRIVER = 0xE0"
definition VFS_OP_MOUNT_ROOT :: u8 where "VFS_OP_MOUNT_ROOT = 0xE1"
definition VFS_OP_AWAIT_ROOT :: u8 where "VFS_OP_AWAIT_ROOT = 0xE2"

lemmas vfs_op_defs = VFS_OP_READ_def VFS_OP_READDIR_def VFS_OP_FINDDIR_def VFS_OP_ROOT_def
  VFS_OP_REGISTER_DRIVER_def VFS_OP_MOUNT_ROOT_def VFS_OP_AWAIT_ROOT_def

definition VFS_FILE :: u32 where "VFS_FILE = 0x01"
definition VFS_DIRECTORY :: u32 where "VFS_DIRECTORY = 0x02"

section \<open>Requests\<close>

definition VFSOpRead :: "u32 \<Rightarrow> u32 \<Rightarrow> u32 \<Rightarrow> bytes" where
  "VFSOpRead inode offset len = [VFS_OP_READ] @ pad 3 @ put_u32 inode @ put_u32 offset @ put_u32 len"

definition VFSOpReaddir :: "u32 \<Rightarrow> u32 \<Rightarrow> bytes" where
  "VFSOpReaddir inode index = [VFS_OP_READDIR] @ pad 3 @ put_u32 inode @ put_u32 index"

text \<open>
  The name follows the inode; the message is \<open>sizeof(VFSOpFinddir) + strlen(name)\<close> bytes long, three more
  than the name takes, which \<open>malloc\<close> leaves as they are.
\<close>

definition VFSOpFinddir :: "u32 \<Rightarrow> bytes \<Rightarrow> bytes" where
  "VFSOpFinddir inode name = [VFS_OP_FINDDIR] @ pad 3 @ put_u32 inode @ name @ [0] @ pad 3"

definition VFSOpRoot :: bytes where
  "VFSOpRoot = [VFS_OP_ROOT]"

definition VFSOpRegisterDriver :: "bytes \<Rightarrow> bytes" where
  "VFSOpRegisterDriver name = [VFS_OP_REGISTER_DRIVER] @ name @ [0]"

definition VFSOpMountRoot :: "u32 \<Rightarrow> u32 \<Rightarrow> bytes" where
  "VFSOpMountRoot driver inode = [VFS_OP_MOUNT_ROOT] @ pad 3 @ put_u32 driver @ put_u32 inode"

definition VFSOpAwaitRoot :: bytes where
  "VFSOpAwaitRoot = [VFS_OP_AWAIT_ROOT]"

definition VFSReplyRegisterDriver :: "bool \<Rightarrow> u32 \<Rightarrow> bytes" where
  "VFSReplyRegisterDriver success driver = [if success then 1 else 0] @ pad 3 @ put_u32 driver"

section \<open>Structures\<close>

record vfs_dirent =
  dirent_name :: bytes
  dirent_inode :: u32

record vfs_node =
  node_name :: bytes
  node_flags :: u32
  node_inode :: u32
  node_length :: u32
  node_impl :: u32
  node_driver :: u32

definition sizeof_name :: nat where "sizeof_name = 128"

definition put_dirent :: "vfs_dirent \<Rightarrow> bytes" where
  "put_dirent d = dirent_name d @ put_u32 (dirent_inode d)"

definition sizeof_VFSDirent :: nat where "sizeof_VFSDirent = sizeof_name + 4"

definition get_dirent :: "bytes \<Rightarrow> vfs_dirent result" where
  "get_dirent b = rbind (get_u32 b sizeof_name) (\<lambda>inode.
     Inr \<lparr>dirent_name = take sizeof_name b, dirent_inode = inode\<rparr>)"

definition put_node :: "vfs_node \<Rightarrow> bytes" where
  "put_node n = node_name n @ put_u32 (node_flags n) @ put_u32 (node_inode n) @ put_u32 (node_length n) @
     put_u32 (node_impl n) @ put_u32 (node_driver n)"

definition sizeof_VFSNode :: nat where "sizeof_VFSNode = sizeof_name + 20"

definition get_node :: "bytes \<Rightarrow> vfs_node result" where
  "get_node b =
     rbind (get_u32 b sizeof_name) (\<lambda>fl. rbind (get_u32 b (sizeof_name + 4)) (\<lambda>inode.
     rbind (get_u32 b (sizeof_name + 8)) (\<lambda>len. rbind (get_u32 b (sizeof_name + 12)) (\<lambda>impl.
     rbind (get_u32 b (sizeof_name + 16)) (\<lambda>driver.
     Inr \<lparr>node_name = take sizeof_name b, node_flags = fl, node_inode = inode, node_length = len, node_impl = impl,
          node_driver = driver\<rparr>)))))"

lemma get_put_dirent: "length (dirent_name d) = sizeof_name \<Longrightarrow> get_dirent (put_dirent d) = Inr d"
  by (simp add: get_dirent_def put_dirent_def wire_simps)

lemma get_put_node: "length (node_name n) = sizeof_name \<Longrightarrow> get_node (put_node n) = Inr n"
  by (simp add: get_node_def put_node_def wire_simps)

lemma length_put_struct:
  "length (dirent_name d) = sizeof_name \<Longrightarrow> length (put_dirent d) = sizeof_VFSDirent"
  "length (node_name n) = sizeof_name \<Longrightarrow> length (put_node n) = sizeof_VFSNode"
  by (simp_all add: put_dirent_def put_node_def sizeof_VFSDirent_def sizeof_VFSNode_def)

end
