(* ===== verification/UserFS.thy ===== *)
theory UserFS
  imports VfsProto
begin

text \<open>
  \<^verbatim>\<open>src/user/fs.cpp\<close>: the file functions of the user library. \<open>call request\<close> is the exchange of a
  message with the file-system server and gives the data of its reply; \<open>fresh n\<close> is what \<open>n\<close> bytes of new
  memory hold. Files and directories are values: closing one only frees its memory. A path is the bytes of a C
  string with its terminator.
\<close>

type_synonym 's fs_call = "bytes \<Rightarrow> 's \<Rightarrow> (bytes \<times> 's) result"

record file_stream =
  f_node :: vfs_node
  f_offset :: u32

record dir_stream =
  d_node :: vfs_node
  d_index :: u32

section \<open>Requests\<close>

text \<open>\<open>readQueue\<close> of a whole reply to the start of an object.\<close>

definition read_reply :: "bytes \<Rightarrow> bytes \<Rightarrow> bytes result" where
  "read_reply reply obj =
     (if length reply \<le> length obj then Inr (reply @ drop (length reply) obj) else Inl OutOfBounds)"

definition new_object :: "(nat \<Rightarrow> bytes) \<Rightarrow> nat \<Rightarrow> bytes" where
  "new_object fresh n = take n (fresh n)"

definition read_fs :: "'s fs_call \<Rightarrow> vfs_node \<Rightarrow> u32 \<Rightarrow> u32 \<Rightarrow> bytes \<Rightarrow> nat \<Rightarrow> 's \<Rightarrow> (u32 \<times> bytes \<times> 's) result" where
  "read_fs call node offset len buf at s =
     rbind (call (VFSOpRead (node_inode node) offset len) s) (\<lambda>(reply, s').
     if reply = [] then Inr (0, buf, s')
     else rbind (read_reply reply (drop at buf)) (\<lambda>b. Inr (of_nat (length reply), take at buf @ b, s')))"

definition finddir_fs ::
  "'s fs_call \<Rightarrow> (nat \<Rightarrow> bytes) \<Rightarrow> vfs_node \<Rightarrow> bytes \<Rightarrow> 's \<Rightarrow> (vfs_node option \<times> 's) result" where
  "finddir_fs call fresh node component s =
     rbind (call (VFSOpFinddir (node_inode node) component) s) (\<lambda>(reply, s').
     if reply = [] then Inr (None, s')
     else rbind (read_reply reply (new_object fresh sizeof_VFSNode)) (\<lambda>b.
          rbind (get_node b) (\<lambda>n. Inr (Some n, s'))))"

definition readdir_fs ::
  "'s fs_call \<Rightarrow> (nat \<Rightarrow> bytes) \<Rightarrow> vfs_node \<Rightarrow> u32 \<Rightarrow> 's \<Rightarrow> (vfs_dirent option \<times> 's) result" where
  "readdir_fs call fresh node index s =
     rbind (call (VFSOpReaddir (node_inode node) index) s) (\<lambda>(reply, s').
     if reply = [] then Inr (None, s')
     else rbind (read_reply reply (new_object fresh sizeof_VFSDirent)) (\<lambda>b.
          rbind (get_dirent b) (\<lambda>d. Inr (Some d, s'))))"

section \<open>Paths\<close>

text \<open>\<open>fs_init\<close>: the root, kept from the first call on. \<open>processIdByName\<close> has found the server.\<close>

definition fs_init :: "'s fs_call \<Rightarrow> (nat \<Rightarrow> bytes) \<Rightarrow> vfs_node option \<Rightarrow> 's \<Rightarrow> (vfs_node \<times> 's) result" where
  "fs_init call fresh root s =
     (case root of
        Some r \<Rightarrow> Inr (r, s)
      | None \<Rightarrow>
          rbind (call VFSOpAwaitRoot s) (\<lambda>(_, s1).
          rbind (call VFSOpRoot s1) (\<lambda>(reply, s2).
          if reply = [] then Inl (UserPanic ''oh no!'')
          else rbind (read_reply reply (new_object fresh sizeof_VFSNode)) (\<lambda>b.
               rbind (get_node b) (\<lambda>n. Inr (n, s2))))))"

definition sizeof_component :: nat where "sizeof_component = 128"

function resolve_path ::
  "'s fs_call \<Rightarrow> (nat \<Rightarrow> bytes) \<Rightarrow> vfs_node \<Rightarrow> bytes \<Rightarrow> 's \<Rightarrow> (vfs_node option \<times> 's) result" where
  "resolve_path call fresh node [] s = Inl OutOfBounds"
| "resolve_path call fresh node (c # path) s =
     (if c = 0 then Inr (Some node, s)
      else if c = 47 then resolve_path call fresh node path s
      else let component = takeWhile (\<lambda>x. x \<noteq> 0 \<and> x \<noteq> 47) (c # path);
               rest = dropWhile (\<lambda>x. x \<noteq> 0 \<and> x \<noteq> 47) path in
           if length component < sizeof_component \<and> rest \<noteq> []
           then rbind (finddir_fs call fresh node component s) (\<lambda>(r, s').
                case r of None \<Rightarrow> Inr (None, s') | Some n \<Rightarrow> resolve_path call fresh n rest s')
           else Inl OutOfBounds)"
  by pat_completeness auto

termination
  by (relation "measure (\<lambda>(call, fresh, node, path, s). length path)") (auto simp: length_dropWhile_le le_imp_less_Suc)

section \<open>Files\<close>

definition lookup_path ::
  "'s fs_call \<Rightarrow> (nat \<Rightarrow> bytes) \<Rightarrow> vfs_node option \<Rightarrow> bytes \<Rightarrow> 's \<Rightarrow> (vfs_node option \<times> 's) result" where
  "lookup_path call fresh root path s =
     rbind (fs_init call fresh root s) (\<lambda>(r, s'). resolve_path call fresh r path s')"

definition fexists ::
  "'s fs_call \<Rightarrow> (nat \<Rightarrow> bytes) \<Rightarrow> vfs_node option \<Rightarrow> bytes \<Rightarrow> 's \<Rightarrow> (bool \<times> 's) result" where
  "fexists call fresh root path s =
     rbind (lookup_path call fresh root path s) (\<lambda>(r, s'). Inr (r \<noteq> None, s'))"

definition has_flag :: "u32 \<Rightarrow> vfs_node option \<Rightarrow> bool result" where
  "has_flag fl r = (case r of None \<Rightarrow> Inl NullDeref | Some n \<Rightarrow> Inr (node_flags n AND fl \<noteq> 0))"

definition ffile ::
  "'s fs_call \<Rightarrow> (nat \<Rightarrow> bytes) \<Rightarrow> vfs_node option \<Rightarrow> bytes \<Rightarrow> 's \<Rightarrow> (bool \<times> 's) result" where
  "ffile call fresh root path s =
     rbind (lookup_path call fresh root path s) (\<lambda>(r, s'). rbind (has_flag VFS_FILE r) (\<lambda>b. Inr (b, s')))"

definition fdir ::
  "'s fs_call \<Rightarrow> (nat \<Rightarrow> bytes) \<Rightarrow> vfs_node option \<Rightarrow> bytes \<Rightarrow> 's \<Rightarrow> (bool \<times> 's) result" where
  "fdir call fresh root path s =
     rbind (lookup_path call fresh root path s) (\<lambda>(r, s'). rbind (has_flag VFS_DIRECTORY r) (\<lambda>b. Inr (b, s')))"

definition fopen ::
  "'s fs_call \<Rightarrow> (nat \<Rightarrow> bytes) \<Rightarrow> vfs_node option \<Rightarrow> bytes \<Rightarrow> bytes \<Rightarrow> 's \<Rightarrow> (file_stream option \<times> 's) result" where
  "fopen call fresh root path mode s =
     rbind (fs_init call fresh root s) (\<lambda>(r, s1).
     rbind (strcmp mode [114, 0]) (\<lambda>d.
     if d \<noteq> 0 then Inl (UserPanic ''fs.cpp: don't know how to not read!'')
     else rbind (resolve_path call fresh r path s1) (\<lambda>(n, s2).
          Inr (map_option (\<lambda>node. \<lparr>f_node = node, f_offset = 0\<rparr>) n, s2))))"

fun fread_loop ::
  "'s fs_call \<Rightarrow> u32 \<Rightarrow> nat \<Rightarrow> file_stream \<Rightarrow> bytes \<Rightarrow> nat \<Rightarrow> u32 \<Rightarrow> 's \<Rightarrow> (u32 \<times> file_stream \<times> bytes \<times> 's) result" where
  "fread_loop call sz 0 stream buf writer w s = Inr (w, stream, buf, s)"
| "fread_loop call sz (Suc n) stream buf writer w s =
     rbind (read_fs call (f_node stream) (f_offset stream) sz buf writer s) (\<lambda>(_, buf', s').
     fread_loop call sz n (stream\<lparr>f_offset := f_offset stream + sz\<rparr>) buf' (writer + unat sz) (w + 1) s')"

definition fread ::
  "'s fs_call \<Rightarrow> bytes option \<Rightarrow> u32 \<Rightarrow> u32 \<Rightarrow> file_stream option \<Rightarrow> 's \<Rightarrow>
     (u32 \<times> file_stream option \<times> bytes option \<times> 's) result" where
  "fread call buf sz n stream s =
     (case (stream, buf) of
        (Some st, Some b) \<Rightarrow> rbind (fread_loop call sz (unat n) st b 0 0 s) (\<lambda>(w, st', b', s').
          Inr (w, Some st', Some b', s'))
      | _ \<Rightarrow> Inr (0, stream, buf, s))"

definition flen :: "file_stream \<Rightarrow> u32" where
  "flen stream = node_length (f_node stream)"

definition fclose :: "file_stream option \<Rightarrow> int" where
  "fclose stream = (if stream = None then - 1 else 0)"

section \<open>Directories\<close>

definition opendir ::
  "'s fs_call \<Rightarrow> (nat \<Rightarrow> bytes) \<Rightarrow> vfs_node option \<Rightarrow> bytes \<Rightarrow> 's \<Rightarrow> (dir_stream option \<times> 's) result" where
  "opendir call fresh root path s =
     rbind (lookup_path call fresh root path s) (\<lambda>(n, s').
     Inr (map_option (\<lambda>node. \<lparr>d_node = node, d_index = 0\<rparr>) n, s'))"

definition readdir ::
  "'s fs_call \<Rightarrow> (nat \<Rightarrow> bytes) \<Rightarrow> dir_stream option \<Rightarrow> 's \<Rightarrow> (vfs_dirent option \<times> dir_stream option \<times> 's) result" where
  "readdir call fresh dirp s =
     (case dirp of
        None \<Rightarrow> Inr (None, None, s)
      | Some d \<Rightarrow> rbind (readdir_fs call fresh (d_node d) (d_index d) s) (\<lambda>(r, s').
          Inr (r, Some (d\<lparr>d_index := d_index d + 1\<rparr>), s')))"

definition closedir :: "dir_stream option \<Rightarrow> int" where
  "closedir dirp = (if dirp = None then - 1 else 0)"

end
