(* ===== verification/FileService.thy ===== *)
theory FileService
  imports UserFS
begin

text \<open>
  What the user library needs of a file-system server, as a locale, and what its functions then do: a
  path means the walk over its components, and reading gives the contents of the file.
\<close>

section \<open>Paths as lists of names\<close>

fun path_parts :: "bytes \<Rightarrow> bytes list" where
  "path_parts [] = [[]]"
| "path_parts (c # cs) =
     (if c = 47 then [] # path_parts cs else (c # hd (path_parts cs)) # tl (path_parts cs))"

definition path_components :: "bytes \<Rightarrow> bytes list" where
  "path_components p = filter (\<lambda>c. c \<noteq> []) (path_parts p)"

fun walk :: "(u32 \<Rightarrow> bytes \<Rightarrow> vfs_node option) \<Rightarrow> vfs_node \<Rightarrow> bytes list \<Rightarrow> vfs_node option" where
  "walk look node [] = Some node"
| "walk look node (t # ts) = (case look (node_inode node) t of None \<Rightarrow> None | Some n \<Rightarrow> walk look n ts)"

text \<open>The directories a walk looks into satisfy a property.\<close>

fun walk_through :: "(u32 \<Rightarrow> bool) \<Rightarrow> (u32 \<Rightarrow> bytes \<Rightarrow> vfs_node option) \<Rightarrow> vfs_node \<Rightarrow> bytes list \<Rightarrow> bool" where
  "walk_through good look node [] \<longleftrightarrow> True"
| "walk_through good look node (t # ts) \<longleftrightarrow> good (node_inode node) \<and>
     (case look (node_inode node) t of None \<Rightarrow> True | Some n \<Rightarrow> walk_through good look n ts)"

lemma path_parts_not_Nil [simp]: "path_parts p \<noteq> []"
  by (cases p) simp_all

lemma path_parts_split:
  "path_parts p = takeWhile (\<lambda>x. x \<noteq> 47) p #
     (case dropWhile (\<lambda>x. x \<noteq> 47) p of [] \<Rightarrow> [] | c # q \<Rightarrow> path_parts q)"
  by (induction p) (auto split: list.splits)

lemma path_components_Nil [simp]: "path_components [] = []"
  by (simp add: path_components_def)

lemma path_components_slash [simp]: "path_components (47 # p) = path_components p"
  by (simp add: path_components_def)

lemma path_components_name:
  assumes "c \<noteq> 47"
  shows "path_components (c # p) =
    takeWhile (\<lambda>x. x \<noteq> 47) (c # p) # path_components (dropWhile (\<lambda>x. x \<noteq> 47) p)"
proof -
  have "path_components (dropWhile (\<lambda>x. x \<noteq> 47) p) =
      filter (\<lambda>c. c \<noteq> []) (case dropWhile (\<lambda>x. x \<noteq> 47) p of [] \<Rightarrow> [] | c # q \<Rightarrow> path_parts q)"
  proof (cases "dropWhile (\<lambda>x. x \<noteq> 47) p")
    case (Cons d q)
    then have "d = 47" by (metis (full_types) hd_dropWhile list.distinct(1) list.sel(1))
    with Cons show ?thesis by (simp add: path_components_def)
  next
    case Nil
    then show ?thesis by (simp only: list.case path_components_Nil filter.simps)
  qed
  then show ?thesis using assms path_parts_split [of "c # p"] by (simp add: path_components_def)
qed

lemma path_parts_chars: "\<Union> (set (map set (path_parts p))) \<subseteq> set p"
proof (induction p)
  case (Cons c p)
  obtain q qs where "path_parts p = q # qs" by (cases "path_parts p") simp_all
  with Cons.IH show ?case by auto
qed simp

lemma path_components_chars: "c \<in> set (path_components p) \<Longrightarrow> set c \<subseteq> set p"
  using path_parts_chars [of p] by (auto simp: path_components_def)

lemma takeWhile_cstring:
  assumes "0 \<notin> set t"
  shows "takeWhile (\<lambda>x. x \<noteq> 0 \<and> x \<noteq> 47) (t @ 0 # r) = takeWhile (\<lambda>x. x \<noteq> 47) t"
    and "dropWhile (\<lambda>x. x \<noteq> 0 \<and> x \<noteq> 47) (t @ 0 # r) = dropWhile (\<lambda>x. x \<noteq> 47) t @ 0 # r"
  using assms by (induction t) auto

text \<open>A buffer with bytes put at a position.\<close>

definition put_at :: "nat \<Rightarrow> bytes \<Rightarrow> bytes \<Rightarrow> bytes" where
  "put_at p b buf = take p buf @ b @ drop (p + length b) buf"

lemma length_put_at: "p + length b \<le> length buf \<Longrightarrow> length (put_at p b buf) = length buf"
  by (simp add: put_at_def)

lemma put_at_Nil [simp]: "put_at p [] buf = buf"
  by (simp add: put_at_def)

lemma put_at_chunks:
  assumes "p + k + m \<le> length buf"
  shows "put_at (p + k) (take m (drop (x + k) data)) (put_at p (take k (drop x data)) buf) =
    put_at p (take (k + m) (drop x data)) buf"
proof (cases "x + k \<le> length data")
  case True
  then have l: "length (take k (drop x data)) = k" by simp
  define c d where "c = take k (drop x data)" and "d = take m (drop (x + k) data)"
  have "take (k + m) (drop x data) = c @ d" by (simp add: c_def d_def take_add add.commute)
  moreover have "length c = k" using l by (simp add: c_def)
  ultimately show ?thesis using assms
    unfolding c_def [symmetric] d_def [symmetric] by (simp add: put_at_def ac_simps)
next
  case False
  then have "take m (drop (x + k) data) = []" "take k (drop x data) = drop x data" "take (k + m) (drop x data) = drop x data"
    by simp_all
  then show ?thesis by simp
qed

section \<open>The service\<close>

locale file_server =
  fixes call :: "'s fs_call"
    and inv :: "'s \<Rightarrow> bool"
    and good_name :: "bytes \<Rightarrow> bool"
    and good_dir :: "u32 \<Rightarrow> bool"
    and good_file :: "u32 \<Rightarrow> bool"
    and look :: "u32 \<Rightarrow> bytes \<Rightarrow> vfs_node option"
    and content :: "u32 \<Rightarrow> bytes"
  assumes finddir_law: "inv s \<Longrightarrow> good_dir d \<Longrightarrow> good_name t \<Longrightarrow>
      \<exists>s'. call (VFSOpFinddir d t) s = Inr (case look d t of None \<Rightarrow> [] | Some n \<Rightarrow> put_node n, s') \<and> inv s'"
    and read_law: "inv s \<Longrightarrow> good_file i \<Longrightarrow>
      \<exists>s'. call (VFSOpRead i offset len) s = Inr (take (unat len) (drop (unat offset) (content i)), s') \<and> inv s'"
    and look_name: "inv s \<Longrightarrow> good_dir d \<Longrightarrow> good_name t \<Longrightarrow> look d t = Some n \<Longrightarrow> length (node_name n) = sizeof_name"
    and good_length: "good_name t \<Longrightarrow> length t < sizeof_component"
begin

lemma finddir_fs_ok:
  assumes fresh: "sizeof_VFSNode \<le> length (fresh sizeof_VFSNode)"
    and "inv s" and "good_dir (node_inode node)" and "good_name t"
  shows "\<exists>s'. finddir_fs call fresh node t s = Inr (look (node_inode node) t, s') \<and> inv s'"
proof -
  from finddir_law [OF assms(2-4)] obtain s' where
    c: "call (VFSOpFinddir (node_inode node) t) s =
        Inr (case look (node_inode node) t of None \<Rightarrow> [] | Some n \<Rightarrow> put_node n, s')" and i: "inv s'" by blast
  show ?thesis
  proof (cases "look (node_inode node) t")
    case None
    then show ?thesis using c i by (auto simp: finddir_fs_def)
  next
    case (Some n)
    note name = look_name [OF assms(2-4) Some]
    have len: "length (put_node n) = sizeof_VFSNode" using length_put_struct(2) [OF name] .
    then have ne: "put_node n \<noteq> []" by (auto simp: sizeof_VFSNode_def sizeof_name_def)
    have "read_reply (put_node n) (new_object fresh sizeof_VFSNode) = Inr (put_node n)"
      using fresh len by (simp add: read_reply_def new_object_def)
    then show ?thesis using c i Some ne get_put_node [OF name] by (auto simp: finddir_fs_def)
  qed
qed

lemma resolve_path_walk:
  assumes fresh: "sizeof_VFSNode \<le> length (fresh sizeof_VFSNode)"
    and "inv s" and "0 \<notin> set t"
    and "\<forall>c \<in> set (path_components t). good_name c"
    and "walk_through good_dir look node (path_components t)"
  shows "\<exists>s'. resolve_path call fresh node (t @ 0 # r) s = Inr (walk look node (path_components t), s') \<and> inv s'"
  using assms(2-)
proof (induction "length t" arbitrary: t node s rule: less_induct)
  case less
  show ?case
  proof (cases t)
    case (Cons c p)
    then have c0: "c \<noteq> 0" and p0: "0 \<notin> set p" using less.prems(2) by auto
    show ?thesis
    proof (cases "c = 47")
      case True
      with less.hyps [of p s node] less.prems Cons p0 show ?thesis by simp
    next
      case False
      define comp q where "comp = takeWhile (\<lambda>x. x \<noteq> 47) (c # p)" and "q = dropWhile (\<lambda>x. x \<noteq> 47) p"
      note pc = path_components_name [OF False, of p, folded comp_def q_def]
      have good: "good_name comp" "\<forall>c \<in> set (path_components q). good_name c"
        and dirs: "good_dir (node_inode node)"
          "case look (node_inode node) comp of None \<Rightarrow> True | Some n \<Rightarrow> walk_through good_dir look n (path_components q)"
        using less.prems(3,4) Cons pc by auto
      have tw: "takeWhile (\<lambda>x. x \<noteq> 0 \<and> x \<noteq> 47) (c # p @ 0 # r) = comp"
        using takeWhile_cstring(1) [of "c # p" r] less.prems(2) Cons by (simp add: comp_def)
      have dw: "dropWhile (\<lambda>x. x \<noteq> 0 \<and> x \<noteq> 47) (p @ 0 # r) = q @ 0 # r"
        using takeWhile_cstring(2) [OF p0] by (simp add: q_def)
      from finddir_fs_ok [where fresh = fresh, OF fresh less.prems(1) dirs(1) good(1)] obtain s1 where
        fd: "finddir_fs call fresh node comp s = Inr (look (node_inode node) comp, s1)" and i1: "inv s1" by blast
      have step: "resolve_path call fresh node (t @ 0 # r) s =
          (case look (node_inode node) comp of None \<Rightarrow> Inr (None, s1) | Some n \<Rightarrow> resolve_path call fresh n (q @ 0 # r) s1)"
        using Cons c0 False tw dw fd good_length [OF good(1)] by simp
      show ?thesis
      proof (cases "look (node_inode node) comp")
        case None
        then show ?thesis using step i1 Cons pc by simp
      next
        case (Some n)
        have "length q < length t" using Cons by (simp add: q_def length_dropWhile_le le_imp_less_Suc)
        moreover have "0 \<notin> set q" using p0 by (auto simp: q_def dest: set_dropWhileD)
        ultimately show ?thesis using less.hyps [of q s1 n] i1 good(2) dirs(2) step Some Cons pc by simp
      qed
    qed
  qed (use less.prems in simp)
qed

lemma read_fs_ok:
  assumes "inv s" and "good_file (node_inode node)" and "at + unat len \<le> length buf"
  shows "\<exists>s' k. read_fs call node offset len buf at s =
      Inr (k, put_at at (take (unat len) (drop (unat offset) (content (node_inode node)))) buf, s') \<and> inv s'"
proof -
  let ?c = "take (unat len) (drop (unat offset) (content (node_inode node)))"
  from read_law [OF assms(1,2)] obtain s' where
    c: "call (VFSOpRead (node_inode node) offset len) s = Inr (?c, s')" and i: "inv s'" by blast
  show ?thesis
  proof (cases "?c = []")
    case True
    then show ?thesis using c i by (auto simp: read_fs_def put_at_def)
  next
    case False
    have "length ?c \<le> length (drop at buf)" using assms(3) by simp
    then have "read_reply ?c (drop at buf) = Inr (?c @ drop (at + length ?c) buf)"
      by (simp add: read_reply_def add.commute)
    then show ?thesis using c i False by (simp add: read_fs_def put_at_def del: length_take length_drop)
  qed
qed

lemma fread_loop_ok:
  assumes "inv s" and "good_file (node_inode (f_node st))"
    and "unat (f_offset st) + n * unat sz < 2 ^ 32" and "writer + n * unat sz \<le> length buf"
  shows "\<exists>s'. fread_loop call sz n st buf writer w s =
      Inr (w + of_nat n, st\<lparr>f_offset := f_offset st + of_nat n * sz\<rparr>,
        put_at writer (take (n * unat sz) (drop (unat (f_offset st)) (content (node_inode (f_node st))))) buf, s') \<and> inv s'"
  using assms
proof (induction n arbitrary: st buf writer w s)
  case 0
  then show ?case by (simp add: put_at_def)
next
  case (Suc n)
  let ?data = "content (node_inode (f_node st))" and ?o = "unat (f_offset st)"
  let ?c = "take (unat sz) (drop ?o ?data)"
  have "writer + unat sz \<le> length buf" using Suc.prems(4) by simp
  from read_fs_ok [OF Suc.prems(1,2) this] obtain s1 k where
    r: "read_fs call (f_node st) (f_offset st) sz buf writer s = Inr (k, put_at writer ?c buf, s1)" and i: "inv s1" by blast
  have o: "unat (f_offset st + sz) = ?o + unat sz" using Suc.prems(3) by (simp add: unat_add_nowrap)
  have len: "length (put_at writer ?c buf) = length buf" using Suc.prems(4) by (simp add: length_put_at)
  from Suc.IH [of s1 "st\<lparr>f_offset := f_offset st + sz\<rparr>" "writer + unat sz" "put_at writer ?c buf" "w + 1"]
  obtain s2 where "fread_loop call sz n (st\<lparr>f_offset := f_offset st + sz\<rparr>) (put_at writer ?c buf) (writer + unat sz) (w + 1) s1 =
      Inr (w + 1 + of_nat n, st\<lparr>f_offset := f_offset st + sz + of_nat n * sz\<rparr>,
        put_at (writer + unat sz) (take (n * unat sz) (drop (?o + unat sz) ?data)) (put_at writer ?c buf), s2)" and "inv s2"
    using i Suc.prems o len by (auto simp: algebra_simps)
  moreover have "put_at (writer + unat sz) (take (n * unat sz) (drop (?o + unat sz) ?data)) (put_at writer ?c buf) =
      put_at writer (take (Suc n * unat sz) (drop ?o ?data)) buf"
    using put_at_chunks [of writer "unat sz" "n * unat sz" buf ?o ?data] Suc.prems(4) by (simp add: add.commute)
  ultimately show ?case using r by (simp add: algebra_simps)
qed

lemma fopen_walk:
  assumes "sizeof_VFSNode \<le> length (fresh sizeof_VFSNode)" and "inv s" and "0 \<notin> set t"
    and "\<forall>c \<in> set (path_components t). good_name c" and "walk_through good_dir look root (path_components t)"
  shows "\<exists>s'. fopen call fresh (Some root) (t @ 0 # r) [114, 0] s =
      Inr (map_option (\<lambda>n. \<lparr>f_node = n, f_offset = 0\<rparr>) (walk look root (path_components t)), s') \<and> inv s'"
proof -
  have "strcmp [114, 0] [114, 0] = Inr 0" by code_simp
  with resolve_path_walk [where fresh = fresh, OF assms, of r] show ?thesis
    by (auto simp: fopen_def fs_init_def)
qed

lemma fread_content:
  assumes "inv s" and "good_file (node_inode (f_node st))"
    and "unat (f_offset st) + unat n * unat sz < 2 ^ 32" and "unat n * unat sz \<le> length buf"
  shows "\<exists>s'. fread call (Some buf) sz n (Some st) s =
      Inr (n, Some (st\<lparr>f_offset := f_offset st + n * sz\<rparr>),
        Some (put_at 0 (take (unat n * unat sz) (drop (unat (f_offset st)) (content (node_inode (f_node st))))) buf), s') \<and> inv s'"
  using fread_loop_ok [OF assms(1,2), of "unat n" sz 0 buf 0] assms(3,4) by (auto simp: fread_def)

end

end
