(* ===== verification/Ata.thy ===== *)
theory Ata
  imports Wire
begin

text \<open>
  \<^verbatim>\<open>src/packages/ata/main.cpp\<close>: the disk driver. What the vendored MINDRVR (\<^verbatim>\<open>mindrvr.cpp\<close>) does with
  the drive is a parameter: \<open>dev_in d dma start n\<close> are the bytes a PIO or DMA read of \<open>n\<close> sectors puts in the
  buffer, \<open>dev_out start n b d\<close> the drive after a PIO write of \<open>n\<close> sectors from the buffer \<open>b\<close>. A routine that
  fills a buffer returns the bytes written from its start. \<open>AtaDrive\<close> puts the model of MINDRVR for both parameters.
\<close>

section \<open>Messages and state\<close>

definition ATA_OP_READ :: u8 where "ATA_OP_READ = 0x1"
definition ATA_OP_WRITE :: u8 where "ATA_OP_WRITE = 0x2"
definition ATA_OP_MBR_READ :: u8 where "ATA_OP_MBR_READ = 0x3"
definition ATA_OP_SET_BAR4 :: u8 where "ATA_OP_SET_BAR4 = 0x4"

text \<open>The requests; the padding, which nobody reads, is zero.\<close>

definition ATAOpMBRRead :: "u8 \<Rightarrow> u32 \<Rightarrow> u16 \<Rightarrow> u32 \<Rightarrow> bytes" where
  "ATAOpMBRRead partition_id sector offset len =
     [ATA_OP_MBR_READ, partition_id] @ pad 2 @ put_u32 sector @ put_u16 offset @ pad 2 @ put_u32 len"

definition ATAOpRead :: "u32 \<Rightarrow> u16 \<Rightarrow> u32 \<Rightarrow> bytes" where
  "ATAOpRead sector offset len =
     [ATA_OP_READ] @ pad 3 @ put_u32 sector @ put_u16 offset @ pad 2 @ put_u32 len"

definition ATAOpWrite :: "u32 \<Rightarrow> u16 \<Rightarrow> u32 \<Rightarrow> bytes \<Rightarrow> bytes" where
  "ATAOpWrite sector offset len data =
     [ATA_OP_WRITE] @ pad 3 @ put_u32 sector @ put_u16 offset @ pad 2 @ put_u32 len @ data"

record 'd ata_driver =
  hdd_mbr :: bytes
  dma_enabled :: bool
  pio_bmide_base_addr :: u32
  drive :: 'd

type_synonym 'd dev_in = "'d \<Rightarrow> bool \<Rightarrow> u32 \<Rightarrow> u32 \<Rightarrow> bytes"
type_synonym 'd dev_out = "u32 \<Rightarrow> u32 \<Rightarrow> bytes \<Rightarrow> 'd \<Rightarrow> 'd"

section \<open>Sectors\<close>

function ata_read_sectors :: "'d dev_in \<Rightarrow> 'd \<Rightarrow> bool \<Rightarrow> u32 \<Rightarrow> u32 \<Rightarrow> bytes" where
  "ata_read_sectors dev_in d dma start n =
     (if n > 256
      then dev_in d dma start 256 @ ata_read_sectors dev_in d dma (start + 256) (n - 256)
      else dev_in d dma start n)"
  by auto
termination
  by (relation "measure (\<lambda>(_, _, _, _, n). unat n)") (auto simp: word_less_nat_alt unat_sub_nowrap)

declare ata_read_sectors.simps [simp del]

function ata_write_sectors :: "'d dev_out \<Rightarrow> u32 \<Rightarrow> u32 \<Rightarrow> bytes \<Rightarrow> 'd \<Rightarrow> 'd" where
  "ata_write_sectors dev_out start n buffer d =
     (if n > 256
      then ata_write_sectors dev_out (start + 256) (n - 256) (drop (512 * 256) buffer) (dev_out start 256 buffer d)
      else dev_out start n buffer d)"
  by auto
termination
  by (relation "measure (\<lambda>(_, _, n, _, _). unat n)") (auto simp: word_less_nat_alt unat_sub_nowrap)

declare ata_write_sectors.simps [simp del]

section \<open>Bytes\<close>

definition min_u32 :: "u32 \<Rightarrow> u32 \<Rightarrow> u32" where
  "min_u32 a b = (if a < b then a else b)"

definition ata_read_data :: "'d dev_in \<Rightarrow> 'd \<Rightarrow> bool \<Rightarrow> u32 \<Rightarrow> u16 \<Rightarrow> u32 \<Rightarrow> bytes" where
  "ata_read_data dev_in d dma sector_offset offset len =
     (let sector_open = sector_offset + ucast (offset div 512);
          off = ucast (offset mod 512) :: u32;
          head = (if off > 0
            then take (unat (min_u32 (512 - off) len)) (drop (unat off) (ata_read_sectors dev_in d dma sector_open 1))
            else []);
          sectors_read = (if off > 0 then 1 else 0);
          len1 = (if off > 0 then len - (min_u32 512 (off + len) - off) else len);
          complete_sectors = len1 div 512;
          middle = (if complete_sectors > 0
            then ata_read_sectors dev_in d dma (sector_open + sectors_read) complete_sectors else []);
          sectors_read2 = (if complete_sectors > 0 then sectors_read + complete_sectors else sectors_read);
          len2 = len1 mod 512;
          rest = (if len2 > 0
            then take (unat len2) (ata_read_sectors dev_in d dma (sector_open + sectors_read2) 1) else []) in
      head @ middle @ rest)"

text \<open>\<open>memcpy(tempdata + off, buffer, n)\<close>\<close>

definition patch :: "bytes \<Rightarrow> nat \<Rightarrow> bytes \<Rightarrow> nat \<Rightarrow> bytes" where
  "patch tempdata off buffer n = take off tempdata @ take n buffer @ drop (off + n) tempdata"

definition ata_write_data ::
    "'d dev_in \<Rightarrow> 'd dev_out \<Rightarrow> bool \<Rightarrow> u32 \<Rightarrow> u16 \<Rightarrow> u32 \<Rightarrow> bytes \<Rightarrow> 'd \<Rightarrow> 'd" where
  "ata_write_data dev_in dev_out dma sector_offset offset len buffer d =
     (let sector_open = sector_offset + ucast (offset div 512);
          off = ucast (offset mod 512) :: u32;
          n0 = unat (min_u32 (512 - off) len);
          d1 = (if off > 0
            then ata_write_sectors dev_out sector_open 1
                   (patch (ata_read_sectors dev_in d dma sector_open 1) (unat off) buffer n0) d
            else d);
          buffer1 = (if off > 0 then drop n0 buffer else buffer);
          sectors_written = (if off > 0 then 1 else 0);
          len1 = (if off > 0 then len - (min_u32 512 (off + len) - off) else len);
          complete_sectors = len1 div 512;
          d2 = (if complete_sectors > 0
            then ata_write_sectors dev_out (sector_open + sectors_written) complete_sectors buffer1 d1 else d1);
          buffer2 = (if complete_sectors > 0 then drop (unat (complete_sectors * 512)) buffer1 else buffer1);
          sectors_written2 = (if complete_sectors > 0 then sectors_written + complete_sectors else sectors_written);
          len2 = len1 mod 512 in
      if len2 > 0
      then ata_write_sectors dev_out (sector_open + sectors_written2) 1
             (patch (ata_read_sectors dev_in d2 dma (sector_open + sectors_written2) 1) 0 buffer2 (unat len2)) d2
      else d2)"

section \<open>Requests\<close>

definition begin_disk_sector :: "bytes \<Rightarrow> u8 \<Rightarrow> u32 result" where
  "begin_disk_sector mbr partition_id = get_u32 mbr (446 + 16 * unat partition_id + 8)"

definition ata_partition_read_data :: "'d dev_in \<Rightarrow> 'd ata_driver \<Rightarrow> u8 \<Rightarrow> u32 \<Rightarrow> u16 \<Rightarrow> u32 \<Rightarrow> bytes result" where
  "ata_partition_read_data dev_in a partition_id sector offset len =
     rbind (begin_disk_sector (hdd_mbr a) partition_id) (\<lambda>begin_sector.
     Inr (ata_read_data dev_in (drive a) (dma_enabled a) (begin_sector + sector) offset len))"

text \<open>A buffer of \<open>new u8[n]\<close> that has been filled, as it is then sent.\<close>

definition filled :: "u32 \<Rightarrow> bytes \<Rightarrow> bytes result" where
  "filled n b = (if length b = unat n then Inr b else Inl OutOfBounds)"

definition ata_init :: "'d dev_in \<Rightarrow> int \<Rightarrow> 'd \<Rightarrow> 'd ata_driver option result" where
  "ata_init dev_in devices_found d =
     (if devices_found = 0 then Inr None
      else rbind (filled 512 (ata_read_data dev_in d False 0 0 512)) (\<lambda>mbr.
           rbind (get_u16 mbr 510) (\<lambda>signature.
           if signature \<noteq> 0xAA55 then Inl (UserPanic ''invalid MBR!'')
           else Inr (Some \<lparr>hdd_mbr = mbr, dma_enabled = False, pio_bmide_base_addr = 0, drive = d\<rparr>))))"

definition ata_handle :: "'d dev_in \<Rightarrow> 'd dev_out \<Rightarrow> bytes \<Rightarrow> 'd ata_driver \<Rightarrow> (bytes \<times> 'd ata_driver) result" where
  "ata_handle dev_in dev_out request a =
     rbind (get_u8 request 0) (\<lambda>cmd.
     if cmd = ATA_OP_READ
     then rbind (get_u32 request 4) (\<lambda>sector. rbind (get_u16 request 8) (\<lambda>offset.
          rbind (get_u32 request 12) (\<lambda>len.
          rbind (filled len (ata_read_data dev_in (drive a) (dma_enabled a) sector offset len)) (\<lambda>buffer.
          Inr (buffer, a)))))
     else if cmd = ATA_OP_WRITE
     then rbind (get_u32 request 4) (\<lambda>sector. rbind (get_u16 request 8) (\<lambda>offset.
          rbind (get_u32 request 12) (\<lambda>len.
          if length (drop 16 request) < unat len then Inl OutOfBounds
          else Inr ([1], a\<lparr>drive := ata_write_data dev_in dev_out (dma_enabled a) sector offset len
                              (drop 16 request) (drive a)\<rparr>))))
     else if cmd = ATA_OP_MBR_READ
     then rbind (get_u8 request 1) (\<lambda>partition_id. rbind (get_u32 request 4) (\<lambda>sector.
          rbind (get_u16 request 8) (\<lambda>offset. rbind (get_u32 request 12) (\<lambda>len.
          rbind (ata_partition_read_data dev_in a partition_id sector offset len) (\<lambda>b.
          rbind (filled len b) (\<lambda>buffer. Inr (buffer, a)))))))
     else if cmd = ATA_OP_SET_BAR4
     then rbind (get_u32 request 4) (\<lambda>bar4. Inr ([], a\<lparr>pio_bmide_base_addr := bar4, dma_enabled := True\<rparr>))
     else Inl (UserPanic ''ATA: confused''))"

end
