(* ===== verification/Fat.thy ===== *)
theory Fat
  imports StdString Ata VfsProto Containers
begin

text \<open>
  \<^verbatim>\<open>src/packages/fat/main.cpp\<close>: the FAT driver. The processes it talks to are functions from a request to
  the data of the reply: \<open>ata_rpc\<close> (the disk driver) and \<open>vfs_rpc\<close> (the file-system server); \<open>fresh n\<close> is what a
  new buffer of \<open>n\<close> bytes holds. Messages printed on the console are left out.
\<close>

section \<open>On the disk\<close>

record fat_boot_record =
  bytes_per_sector :: u16
  sectors_per_cluster :: u8
  reserved_sectors :: u16
  fats :: u8
  total_sectors_small :: u16
  sectors_per_fat :: u16
  total_sectors_large :: u32
  ebr_signature :: u8
  fat_size :: u32
  root_directory_cluster :: u32
  fat_record_signature :: u8

definition sizeof_fat_boot_record :: u32 where "sizeof_fat_boot_record = 36 + 54"

definition boot_record_of :: "bytes \<Rightarrow> fat_boot_record result" where
  "boot_record_of b =
     rbind (get_u16 b 11) (\<lambda>bps. rbind (get_u8 b 13) (\<lambda>spc. rbind (get_u16 b 14) (\<lambda>res.
     rbind (get_u8 b 16) (\<lambda>nf. rbind (get_u16 b 19) (\<lambda>small. rbind (get_u16 b 22) (\<lambda>spf.
     rbind (get_u32 b 32) (\<lambda>large. rbind (get_u8 b 38) (\<lambda>sig. rbind (get_u32 b 36) (\<lambda>size.
     rbind (get_u32 b 44) (\<lambda>root. rbind (get_u8 b 66) (\<lambda>sig32.
     Inr \<lparr>bytes_per_sector = bps, sectors_per_cluster = spc, reserved_sectors = res, fats = nf,
          total_sectors_small = small, sectors_per_fat = spf, total_sectors_large = large, ebr_signature = sig,
          fat_size = size, root_directory_cluster = root, fat_record_signature = sig32\<rparr>)))))))))))"

text \<open>A directory entry is the list of its 32 bytes, the short and the long form two views of it.\<close>

type_synonym fat_dirent = bytes

definition fd_filename :: "fat_dirent \<Rightarrow> bytes" where "fd_filename fd = take 11 fd"
definition fd_attributes :: "fat_dirent \<Rightarrow> u8" where "fd_attributes fd = fd ! 11"
definition u16_at :: "bytes \<Rightarrow> nat \<Rightarrow> u16" where "u16_at b i = ucast (b ! i) OR push_bit 8 (ucast (b ! (i + 1)))"
definition first_cluster_high :: "fat_dirent \<Rightarrow> u16" where "first_cluster_high fd = u16_at fd 20"
definition first_cluster_low :: "fat_dirent \<Rightarrow> u16" where "first_cluster_low fd = u16_at fd 26"
definition fd_size :: "fat_dirent \<Rightarrow> u32" where
  "fd_size fd = ucast (u16_at fd 28) OR push_bit 16 (ucast (u16_at fd 30))"

text \<open>The characters \<open>c1\<close> to \<open>c13\<close> where the declared structure puts them.\<close>

definition lfn_chars :: "fat_dirent \<Rightarrow> u16 list" where
  "lfn_chars fd = map (u16_at fd) [1, 3, 5, 7, 9, 14, 16, 18, 20, 22, 24, 27, 29]"

definition FAT_READ_ONLY :: u8 where "FAT_READ_ONLY = 0x01"
definition FAT_HIDDEN :: u8 where "FAT_HIDDEN = 0x02"
definition FAT_SYSTEM :: u8 where "FAT_SYSTEM = 0x04"
definition FAT_VOLUME_ID :: u8 where "FAT_VOLUME_ID = 0x08"
definition FAT_DIRECTORY :: u8 where "FAT_DIRECTORY = 0x10"

lemmas fat_attr_defs = FAT_READ_ONLY_def FAT_HIDDEN_def FAT_SYSTEM_def FAT_VOLUME_ID_def FAT_DIRECTORY_def

section \<open>State\<close>

record fat_state =
  boot_record :: fat_boot_record
  first_data_sector :: u32
  first_fat_sector :: u32
  fat_sectors :: u32
  fat_type :: u8
  fat32esque :: u8
  root_cluster :: u32
  fat_clusters :: "(u32 \<times> bytes) list"
  pno :: u32
  vfs_driver_no :: u32

record fat_env =
  ata_rpc :: "bytes \<Rightarrow> bytes result"
  vfs_rpc :: "bytes \<Rightarrow> bytes result"
  fresh :: "nat \<Rightarrow> bytes"

definition partition_read_data :: "fat_env \<Rightarrow> u8 \<Rightarrow> u32 \<Rightarrow> u16 \<Rightarrow> u32 \<Rightarrow> bytes result" where
  "partition_read_data env partition_id sector offset len =
     rbind (ata_rpc env (ATAOpMBRRead partition_id sector offset len)) (\<lambda>reply.
     if length reply \<noteq> unat len then Inl (UserPanic ''FAT: ATA read not expected number of bytes back?'')
     else Inr reply)"

text \<open>The size of a cluster in bytes, a product the code writes out wherever it needs it.\<close>

definition cluster_size :: "fat_state \<Rightarrow> u32" where
  "cluster_size f = ucast (bytes_per_sector (boot_record f)) * ucast (sectors_per_cluster (boot_record f))"

section \<open>Clusters and the allocation table\<close>

definition fat_read_fat_cluster :: "fat_env \<Rightarrow> u32 \<Rightarrow> fat_state \<Rightarrow> (bytes \<times> fat_state) result" where
  "fat_read_fat_cluster env cluster f =
     (case map_find (fat_clusters f) cluster of
        Some d \<Rightarrow> Inr (d, f)
      | None \<Rightarrow>
          rbind (partition_read_data env (ucast (pno f))
                   (first_fat_sector f + cluster * ucast (sectors_per_cluster (boot_record f))) 0 (cluster_size f)) (\<lambda>d.
          Inr (d, f\<lparr>fat_clusters := map_put (fat_clusters f) cluster d\<rparr>)))"

definition fat_read_cluster :: "fat_env \<Rightarrow> u32 \<Rightarrow> fat_state \<Rightarrow> bytes result" where
  "fat_read_cluster env cluster f =
     (if fat32esque f = 0 then Inl (UserPanic ''FAT not impl for !FAT32'')
      else partition_read_data env (ucast (pno f))
             (first_data_sector f + (cluster - 2) * ucast (sectors_per_cluster (boot_record f))) 0 (cluster_size f))"

definition fat_entry_for :: "fat_env \<Rightarrow> u32 \<Rightarrow> fat_state \<Rightarrow> (u32 \<times> fat_state) result" where
  "fat_entry_for env for_cluster f =
     (let bytes_per_cluster = cluster_size f;
          bytes_per_entry = (if fat32esque f \<noteq> 0 then 4 else 2);
          entries_per_cluster = bytes_per_cluster div bytes_per_entry in
      if entries_per_cluster = 0 then Inl DivideError
      else let relative_cluster = for_cluster div entries_per_cluster;
               cluster_index = for_cluster - relative_cluster * entries_per_cluster in
           rbind (fat_read_fat_cluster env relative_cluster f) (\<lambda>(cluster, f').
           if fat32esque f \<noteq> 0
           then rbind (get_u32 cluster (4 * unat cluster_index)) (\<lambda>e. Inr (e AND 0x0FFFFFFF, f'))
           else Inl (UserPanic ''no !FAT32'')))"

text \<open>What an entry of the table says of the next cluster: none at the end of the file.\<close>

definition follow :: "u32 \<Rightarrow> u32 option result" where
  "follow e =
     (if e = 0 then Inl (UserPanic ''FAT: lead to a free cluster!'')
      else if e = 1 then Inl (UserPanic ''FAT: lead to a reserved cluster!'')
      else if e \<ge> 0x0FFFFFF0 \<and> e \<le> 0x0FFFFFF7 then Inl (UserPanic ''FAT: lead to an end-reserved cluster!'')
      else if e \<ge> 0x0FFFFFF8 then Inr None
      else Inr (Some e))"

definition next_cluster :: "fat_env \<Rightarrow> u32 \<Rightarrow> fat_state \<Rightarrow> (u32 option \<times> fat_state) result" where
  "next_cluster env c f =
     rbind (fat_entry_for env c f) (\<lambda>(e, f'). rbind (follow e) (\<lambda>n. Inr (n, f')))"

section \<open>Reading a file\<close>

text \<open>The loop that skips whole clusters: the cluster and the offset in it, or none past the end.\<close>

fun fat_skip :: "nat \<Rightarrow> fat_env \<Rightarrow> u32 \<Rightarrow> u32 \<Rightarrow> fat_state \<Rightarrow> ((u32 \<times> u32) option \<times> fat_state) result" where
  "fat_skip 0 env c offset f = Inl Diverges"
| "fat_skip (Suc fuel) env c offset f =
     (if offset > cluster_size f
      then rbind (next_cluster env c f) (\<lambda>(n, f').
           case n of None \<Rightarrow> Inr (None, f')
           | Some c' \<Rightarrow> fat_skip fuel env c' (offset - cluster_size f) f')
      else Inr (Some (c, offset), f))"

text \<open>The loop that copies: the bytes put in the buffer, cluster by cluster.\<close>

definition copy_length :: "u32 \<Rightarrow> u32 \<Rightarrow> fat_state \<Rightarrow> u16" where
  "copy_length len offset f = ucast (min_u32 len (cluster_size f - offset))"

fun fat_copy :: "nat \<Rightarrow> fat_env \<Rightarrow> u32 \<Rightarrow> u32 \<Rightarrow> u32 \<Rightarrow> fat_state \<Rightarrow> (bytes \<times> fat_state) result" where
  "fat_copy 0 env c offset len f = Inl Diverges"
| "fat_copy (Suc fuel) env c offset len f =
     (if len > 0
      then rbind (fat_read_cluster env c f) (\<lambda>scratch.
           let copy_len = copy_length len offset f; len' = len - ucast copy_len in
           if length scratch < unat offset + unat copy_len then Inl OutOfBounds
           else let copied = take (unat copy_len) (drop (unat offset) scratch) in
                if len' > 0
                then rbind (next_cluster env c f) (\<lambda>(n, f').
                     case n of None \<Rightarrow> Inr (copied, f')
                     | Some c' \<Rightarrow> rbind (fat_copy fuel env c' 0 len' f') (\<lambda>(rest, f''). Inr (copied @ rest, f'')))
                else Inr (copied, f))
      else Inr ([], f))"

text \<open>
  Each round of the first loop takes a cluster off the offset, so \<open>offset + 1\<close> rounds suffice, unless the
  cluster size is 0: then it follows the chain to its end. A round of the second shortens what is left unless the copied length is cut to 0, and a walk of more than
  \<open>2^28\<close> clusters passes one twice.
\<close>

definition CHAIN_FUEL :: nat where "CHAIN_FUEL = 268435456"

definition fat_read_data :: "fat_env \<Rightarrow> u32 \<Rightarrow> u32 \<Rightarrow> u32 \<Rightarrow> fat_state \<Rightarrow> (bytes \<times> fat_state) result" where
  "fat_read_data env inode offset len f =
     rbind (fat_skip (Suc (unat offset + CHAIN_FUEL)) env inode offset f) (\<lambda>(r, f').
     case r of
       None \<Rightarrow> Inr ([], f')
     | Some (c, off) \<Rightarrow> fat_copy (Suc (Suc (unat len + CHAIN_FUEL))) env c off len f')"

section \<open>Directories\<close>

definition cluster_for_inode :: "u32 \<Rightarrow> fat_state \<Rightarrow> u32" where
  "cluster_for_inode inode f = (if inode = 0 then root_cluster f else inode)"

definition get_filename :: "fat_dirent \<Rightarrow> bytes" where
  "get_filename fd =
     (let base = takeWhile (\<lambda>c. c > 0x20) (take 8 (fd_filename fd));
          ext = takeWhile (\<lambda>c. c > 0x20) (take 3 (drop 8 (fd_filename fd))) in
      base @ (if ext \<noteq> [] then 46 # ext else []) @ [0])"

definition dirent_at :: "bytes \<Rightarrow> nat \<Rightarrow> fat_dirent result" where
  "dirent_at buf position =
     (if 32 * (position + 1) \<le> length buf then Inr (take 32 (drop (32 * position) buf)) else Inl OutOfBounds)"

definition DIRENTS :: nat where "DIRENTS = 4096 div 32"

fun append_portions :: "u16 list \<Rightarrow> std_string \<Rightarrow> std_string result" where
  "append_portions [] s = Inr s"
| "append_portions (c # cs) s =
     rbind (if c < 0x80 then string_append_char s (ucast (c AND 0x7F)) else Inr s) (append_portions cs)"

definition lfn_prepend :: "fat_dirent \<Rightarrow> std_string \<Rightarrow> std_string result" where
  "lfn_prepend fd lfn =
     rbind (append_portions (lfn_chars fd) string_new) (\<lambda>portion.
     rbind (string_plus portion lfn) string_assign)"

definition lfn_clear :: "std_string result" where
  "lfn_clear = rbind (string_of_c [0]) string_assign"

definition entry_name :: "fat_dirent \<Rightarrow> std_string \<Rightarrow> bytes result" where
  "entry_name fd lfn =
     (if st_length lfn \<noteq> 0 then case st_str lfn of None \<Rightarrow> Inl NullDeref | Some b \<Rightarrow> Inr b
      else Inr (get_filename fd))"

definition entry_inode :: "fat_dirent \<Rightarrow> u32" where
  "entry_inode fd = push_bit 16 (ucast (first_cluster_high fd)) OR ucast (first_cluster_low fd)"

text \<open>
  One pass over the entries of a cluster: \<open>accept\<close> looks at an entry that is a file or directory and the
  name it has, and either makes the result or steps on with its own state.
\<close>

datatype ('a, 's) visit = Found 'a | Step 's

fun scan_entries :: "(fat_dirent \<Rightarrow> std_string \<Rightarrow> 's \<Rightarrow> ('a, 's) visit result) \<Rightarrow> bytes \<Rightarrow> nat \<Rightarrow> nat \<Rightarrow>
    's \<Rightarrow> std_string \<Rightarrow> (('a, 's) visit \<times> std_string) result" where
  "scan_entries accept buf position 0 s lfn = Inr (Step s, lfn)"
| "scan_entries accept buf position (Suc k) s lfn =
     rbind (dirent_at buf position) (\<lambda>fd.
     if fd ! 0 = 0 then Inr (Step s, lfn)
     else if fd ! 0 = 0xe5 then scan_entries accept buf (position + 1) k s lfn
     else if fd_attributes fd = (FAT_READ_ONLY OR FAT_HIDDEN OR FAT_SYSTEM OR FAT_VOLUME_ID)
     then rbind (lfn_prepend fd lfn) (scan_entries accept buf (position + 1) k s)
     else if fd_attributes fd AND FAT_VOLUME_ID \<noteq> 0 then scan_entries accept buf (position + 1) k s lfn
     else rbind (accept fd lfn s) (\<lambda>v. case v of
            Found a \<Rightarrow> Inr (Found a, lfn)
          | Step s' \<Rightarrow> rbind lfn_clear (scan_entries accept buf (position + 1) k s')))"

fun scan_chain :: "nat \<Rightarrow> fat_env \<Rightarrow> (fat_dirent \<Rightarrow> std_string \<Rightarrow> 's \<Rightarrow> ('a, 's) visit result) \<Rightarrow> u32 \<Rightarrow> 's \<Rightarrow>
    std_string \<Rightarrow> fat_state \<Rightarrow> ('a option \<times> fat_state) result" where
  "scan_chain 0 env accept c s lfn f = Inl Diverges"
| "scan_chain (Suc fuel) env accept c s lfn f =
     rbind (fat_read_cluster env c f) (\<lambda>buf.
     rbind (scan_entries accept buf 0 DIRENTS s lfn) (\<lambda>(v, lfn').
     case v of
       Found a \<Rightarrow> Inr (Some a, f)
     | Step s' \<Rightarrow> rbind (next_cluster env c f) (\<lambda>(n, f').
         case n of None \<Rightarrow> Inr (None, f') | Some c' \<Rightarrow> scan_chain fuel env accept c' s' lfn' f')))"

definition new_name :: "fat_env \<Rightarrow> bytes \<Rightarrow> bytes result" where
  "new_name env name = strcpy (take sizeof_name (fresh env sizeof_name)) name"

definition readdir_accept :: "fat_env \<Rightarrow> u32 \<Rightarrow> fat_dirent \<Rightarrow> std_string \<Rightarrow> u32 \<Rightarrow> (vfs_dirent, u32) visit result" where
  "readdir_accept env index fd lfn current =
     (if current = index
      then rbind (entry_name fd lfn) (\<lambda>filename.
           rbind (strncpy (take sizeof_name (fresh env sizeof_name)) filename (sizeof_name - 1)) (\<lambda>name.
           Inr (Found \<lparr>dirent_name = name[sizeof_name - 1 := 0], dirent_inode = entry_inode fd\<rparr>)))
      else Inr (Step (current + 1)))"

definition fat_readdir :: "fat_env \<Rightarrow> u32 \<Rightarrow> u32 \<Rightarrow> fat_state \<Rightarrow> (vfs_dirent option \<times> fat_state) result" where
  "fat_readdir env inode index f =
     (if inode = 0 \<and> index \<le> 1
      then rbind (new_name env (if index = 0 then [46, 0] else [46, 46, 0])) (\<lambda>name.
           Inr (Some \<lparr>dirent_name = name, dirent_inode = 0\<rparr>, f))
      else scan_chain (Suc CHAIN_FUEL) env (readdir_accept env index) (cluster_for_inode inode f)
             (if inode = 0 then 2 else 0) string_new f)"

definition finddir_accept :: "fat_env \<Rightarrow> u32 \<Rightarrow> bytes \<Rightarrow> fat_dirent \<Rightarrow> std_string \<Rightarrow> unit \<Rightarrow> (vfs_node, unit) visit result" where
  "finddir_accept env driver name fd lfn _ =
     rbind (entry_name fd lfn) (\<lambda>filename.
     rbind (strcmp filename name) (\<lambda>r.
     if r = 0
     then rbind (new_name env name) (\<lambda>n.
          Inr (Found \<lparr>node_name = n,
            node_flags = (if fd_attributes fd AND FAT_DIRECTORY \<noteq> 0 then VFS_DIRECTORY else VFS_FILE),
            node_inode = entry_inode fd, node_length = fd_size fd, node_impl = 0, node_driver = driver\<rparr>))
     else Inr (Step ())))"

definition is_dots :: "bytes \<Rightarrow> bool result" where
  "is_dots name = rbind (strcmp name [46, 0]) (\<lambda>r.
     if r = 0 then Inr True else rbind (strcmp name [46, 46, 0]) (\<lambda>r. Inr (r = 0)))"

definition fat_finddir :: "fat_env \<Rightarrow> u32 \<Rightarrow> bytes \<Rightarrow> fat_state \<Rightarrow> (vfs_node option \<times> fat_state) result" where
  "fat_finddir env inode name f =
     rbind (if inode = 0 then is_dots name else Inr False) (\<lambda>dots.
     if dots
     then rbind (new_name env name) (\<lambda>n.
          Inr (Some \<lparr>node_name = n, node_flags = VFS_DIRECTORY, node_inode = 0, node_length = 0, node_impl = 0,
                     node_driver = vfs_driver_no f\<rparr>, f))
     else scan_chain (Suc CHAIN_FUEL) env (finddir_accept env (vfs_driver_no f) name) (cluster_for_inode inode f)
            () string_new f)"

section \<open>Start and requests\<close>

definition fat_kind :: "fat_boot_record \<Rightarrow> u8" where
  "fat_kind br =
     (if total_sectors_small br > 0 \<and> (ebr_signature br = 0x28 \<or> ebr_signature br = 0x29) then 0
      else if total_sectors_large br > 0 \<and> (fat_record_signature br = 0x28 \<or> fat_record_signature br = 0x29) then 1
      else 0xff)"

definition fat_init :: "fat_env \<Rightarrow> fat_state \<Rightarrow> (bool \<times> fat_state) result" where
  "fat_init env f =
     rbind (partition_read_data env (ucast (pno f)) 0 0 sizeof_fat_boot_record) (\<lambda>b.
     rbind (boot_record_of b) (\<lambda>br.
     let f1 = f\<lparr>boot_record := br, fat32esque := fat_kind br\<rparr> in
     if fat_type f1 = 0xff then Inr (False, f1)
     else if fat32esque f1 = 0 then Inl (UserPanic ''no !FAT32'')
     else let f2 = f1\<lparr>fat_sectors := fat_size br,
                 first_data_sector := ucast (reserved_sectors br) + fat_size br * ucast (fats br),
                 first_fat_sector := ucast (reserved_sectors br), root_cluster := root_directory_cluster br,
                 fat_type := 32\<rparr> in
          rbind (fat_read_fat_cluster env 0 f2) (\<lambda>(_, f3). Inr (True, f3))))"

definition fat_mount :: "fat_env \<Rightarrow> fat_state \<Rightarrow> fat_state result" where
  "fat_mount env f =
     rbind (vfs_rpc env (VFSOpRegisterDriver [102, 97, 116])) (\<lambda>r.
     if length r \<noteq> 8 then Inl (UserPanic ''FAT: VFS gave weird reply to attempt to register'')
     else rbind (get_u8 r 0) (\<lambda>success. rbind (get_u32 r 4) (\<lambda>driver.
          if success = 0 then Inl (UserPanic ''FAT: failed to register with VFS'')
          else rbind (vfs_rpc env (VFSOpMountRoot driver 0)) (\<lambda>reply.
               if length reply \<noteq> 1 \<or> reply ! 0 \<noteq> 1 then Inl (UserPanic ''FAT: couldn't mount self as root'')
               else Inr (f\<lparr>vfs_driver_no := driver\<rparr>)))))"

definition fat_main :: "fat_env \<Rightarrow> bytes option \<Rightarrow> fat_state \<Rightarrow> fat_state option result" where
  "fat_main env arg f =
     rbind (case arg of None \<Rightarrow> Inr (pno f) | Some a \<Rightarrow> rbind (atoi a) (\<lambda>n. Inr (of_int n))) (\<lambda>p.
     rbind (fat_init env (f\<lparr>pno := p\<rparr>)) (\<lambda>(ok, f').
     if ok then rbind (fat_mount env f') (\<lambda>f''. Inr (Some f'')) else Inr None))"

definition fat_handle :: "fat_env \<Rightarrow> bytes \<Rightarrow> fat_state \<Rightarrow> (bytes \<times> fat_state) result" where
  "fat_handle env request f =
     rbind (get_u8 request 0) (\<lambda>cmd.
     if cmd = VFS_OP_READ
     then rbind (get_u32 request 4) (\<lambda>inode. rbind (get_u32 request 8) (\<lambda>offset. rbind (get_u32 request 12) (\<lambda>len.
          fat_read_data env inode offset len f)))
     else if cmd = VFS_OP_READDIR
     then rbind (get_u32 request 4) (\<lambda>inode. rbind (get_u32 request 8) (\<lambda>index.
          rbind (fat_readdir env inode index f) (\<lambda>(r, f').
          Inr (case r of None \<Rightarrow> [] | Some d \<Rightarrow> put_dirent d, f'))))
     else if cmd = VFS_OP_FINDDIR
     then rbind (get_u32 request 4) (\<lambda>inode.
          rbind (fat_finddir env inode (drop 8 request) f) (\<lambda>(r, f').
          Inr (case r of None \<Rightarrow> [] | Some n \<Rightarrow> put_node n, f')))
     else Inl (UserPanic ''FAT: confused''))"

end
