(* ===== verification/AtaProps.thy ===== *)
theory AtaProps
  imports Ata
begin

text \<open>
  The disk driver against a flat disk: reading and writing bytes at any offset is reading and writing the
  content of the drive, whatever sectors the transfer touches.
\<close>

section \<open>What the drive does\<close>

text \<open>
  \<open>content d\<close> are the bytes of the drive; \<open>ready dma d\<close>: it answers commands of the kind used, and goes on to do so
  when it is written. The addresses are those of the 28-bit commands.
\<close>

definition LBA28 :: nat where "LBA28 = 268435456"

definition reads_when :: "(bool \<Rightarrow> 'd \<Rightarrow> bool) \<Rightarrow> ('d \<Rightarrow> nat \<Rightarrow> u8) \<Rightarrow> 'd dev_in \<Rightarrow> bool" where
  "reads_when ready content dev_in \<longleftrightarrow>
     (\<forall>d dma s n. ready dma d \<longrightarrow> 0 < unat n \<longrightarrow> unat n \<le> 256 \<longrightarrow> unat s + unat n \<le> LBA28 \<longrightarrow>
        dev_in d dma s n = byte_slice (content d) (512 * unat s) (512 * unat n))"

definition writes_when :: "(bool \<Rightarrow> 'd \<Rightarrow> bool) \<Rightarrow> ('d \<Rightarrow> nat \<Rightarrow> u8) \<Rightarrow> 'd dev_out \<Rightarrow> bool" where
  "writes_when ready content dev_out \<longleftrightarrow>
     (\<forall>d dma s n b. ready dma d \<longrightarrow> 0 < unat n \<longrightarrow> unat n \<le> 256 \<longrightarrow> unat s + unat n \<le> LBA28 \<longrightarrow> 512 * unat n \<le> length b \<longrightarrow>
        ready dma (dev_out s n b d) \<and>
        content (dev_out s n b d) = overwrite (512 * unat s) (take (512 * unat n) b) (content d))"

text \<open>A drive that always answers.\<close>

definition reads_ok :: "('d \<Rightarrow> nat \<Rightarrow> u8) \<Rightarrow> 'd dev_in \<Rightarrow> bool" where
  "reads_ok content dev_in \<longleftrightarrow>
     (\<forall>d dma s n. 0 < unat n \<longrightarrow> unat n \<le> 256 \<longrightarrow> unat s + unat n \<le> LBA28 \<longrightarrow>
        dev_in d dma s n = byte_slice (content d) (512 * unat s) (512 * unat n))"

definition writes_ok :: "('d \<Rightarrow> nat \<Rightarrow> u8) \<Rightarrow> 'd dev_out \<Rightarrow> bool" where
  "writes_ok content dev_out \<longleftrightarrow>
     (\<forall>d s n b. 0 < unat n \<longrightarrow> unat n \<le> 256 \<longrightarrow> unat s + unat n \<le> LBA28 \<longrightarrow> 512 * unat n \<le> length b \<longrightarrow>
        content (dev_out s n b d) = overwrite (512 * unat s) (take (512 * unat n) b) (content d))"

lemma always_ready:
  "reads_ok content dev_in \<longleftrightarrow> reads_when (\<lambda>_ _. True) content dev_in"
  "writes_ok content dev_out \<longleftrightarrow> writes_when (\<lambda>_ _. True) content dev_out"
  by (simp_all add: reads_ok_def reads_when_def writes_ok_def writes_when_def)

lemma unat_u32_add: "unat (x :: u32) + n < 4294967296 \<Longrightarrow> unat (x + of_nat n) = unat x + n"
  by (simp add: unat_word_ariths unat_of_nat)

lemma u32_gt: "(x :: u32) > 256 \<longleftrightarrow> unat x > 256"
  by (simp add: word_less_nat_alt)

lemma unat_step256:
  assumes "unat (n :: u32) > 256"
  shows "unat (n - 256) = unat n - 256"
  using assms by (subst unat_sub_nowrap) simp_all

lemma read_sectors_exact:
  assumes "reads_when ready content dev_in" and "ready dma d" and "0 < unat n" and "unat s + unat n \<le> LBA28"
  shows "ata_read_sectors dev_in d dma s n = byte_slice (content d) (512 * unat s) (512 * unat n)"
  using assms
proof (induction dev_in d dma s n rule: ata_read_sectors.induct)
  case (1 dev_in d dma s n)
  show ?case
  proof (cases "unat n > 256")
    case True
    have s: "unat (s + 256) = unat s + 256" using 1(5) True by (subst unat_add_nowrap) (simp_all add: LBA28_def)
    have "dev_in d dma s 256 = byte_slice (content d) (512 * unat s) (512 * 256)"
      using 1(2,3,5) True by (simp add: reads_when_def)
    moreover have "ata_read_sectors dev_in d dma (s + 256) (n - 256) =
        byte_slice (content d) (512 * unat s + 512 * 256) (512 * unat n - 512 * 256)"
      using 1(1) 1(2,3,5) True by (simp add: u32_gt s unat_step256 algebra_simps)
    ultimately show ?thesis
      using True by (subst ata_read_sectors.simps) (simp add: u32_gt slice_append)
  next
    case False
    with 1(2-5) show ?thesis by (subst ata_read_sectors.simps) (simp add: u32_gt reads_when_def)
  qed
qed

lemma write_sectors_exact:
  assumes "writes_when ready content dev_out" and "ready dma d" and "0 < unat n" and "unat s + unat n \<le> LBA28"
    and "512 * unat n \<le> length b"
  shows "ready dma (ata_write_sectors dev_out s n b d) \<and>
    content (ata_write_sectors dev_out s n b d) = overwrite (512 * unat s) (take (512 * unat n) b) (content d)"
  using assms
proof (induction dev_out s n b d rule: ata_write_sectors.induct)
  case (1 dev_out s n b d)
  show ?case
  proof (cases "unat n > 256")
    case True
    have s: "unat (s + 256) = unat s + 256" using 1(5) True by (subst unat_add_nowrap) (simp_all add: LBA28_def)
    have first: "ready dma (dev_out s 256 b d)" "content (dev_out s 256 b d) = overwrite (512 * unat s) (take (512 * 256) b) (content d)"
      using 1(2,3,5,6) True by (simp_all add: writes_when_def)
    have "ready dma (ata_write_sectors dev_out (s + 256) (n - 256) (drop (512 * 256) b) (dev_out s 256 b d)) \<and>
      content (ata_write_sectors dev_out (s + 256) (n - 256) (drop (512 * 256) b) (dev_out s 256 b d)) =
        overwrite (512 * unat s + length (take (512 * 256) b)) (take (512 * unat n - 512 * 256) (drop (512 * 256) b))
          (content (dev_out s 256 b d))"
      using 1(1) 1(2,5,6) True first(1) by (simp add: u32_gt s unat_step256 algebra_simps)
    moreover have "take (512 * 256) b @ take (512 * unat n - 512 * 256) (drop (512 * 256) b) = take (512 * unat n) b"
      using True by (simp flip: take_add)
    ultimately show ?thesis
      using True by (simp only: ata_write_sectors.simps [of dev_out s n b d] u32_gt if_True first(2) overwrite_overwrite)
  next
    case False
    with 1(2-6) show ?thesis by (simp add: ata_write_sectors.simps [of dev_out s n b d] u32_gt writes_when_def)
  qed
qed

section \<open>Whole sectors and a remainder\<close>

lemma aligned_bounds:
  assumes "512 * unat (s :: u32) + unat (l :: u32) \<le> 512 * LBA28"
  shows "unat (l div 512) = unat l div 512" "unat (l mod 512) = unat l mod 512"
    "unat (s + l div 512) = unat s + unat l div 512"
    "unat s + unat l div 512 \<le> LBA28"
    "0 < unat l mod 512 \<Longrightarrow> unat s + unat l div 512 + 1 \<le> LBA28"
proof -
  show d: "unat (l div 512) = unat l div 512" "unat (l mod 512) = unat l mod 512"
    by (simp_all add: unat_div unat_mod)
  have split: "unat l = 512 * (unat l div 512) + unat l mod 512" by simp
  with assms show le: "unat s + unat l div 512 \<le> LBA28" by linarith
  with d show "unat (s + l div 512) = unat s + unat l div 512"
    by (subst unat_add_nowrap) (simp_all add: LBA28_def)
  show "unat s + unat l div 512 + 1 \<le> LBA28" if "0 < unat l mod 512" using that split assms by linarith
qed

lemma read_aligned:
  assumes r: "reads_when ready content dev_in" and d: "ready dma d" and b: "512 * unat s + unat l \<le> 512 * LBA28"
  shows "(if l div 512 > 0 then ata_read_sectors dev_in d dma s (l div 512) else []) @
    (if l mod 512 > 0 then take (unat (l mod 512))
       (ata_read_sectors dev_in d dma (if l div 512 > 0 then s + l div 512 else s) 1) else []) =
    byte_slice (content d) (512 * unat s) (unat l)"
proof -
  note ab = aligned_bounds [OF b]
  have whole: "(if l div 512 > 0 then ata_read_sectors dev_in d dma s (l div 512) else []) =
      byte_slice (content d) (512 * unat s) (512 * (unat l div 512))"
    using read_sectors_exact [OF r d, of "l div 512" s] ab by (auto simp: word_less_nat_alt)
  have s': "(if l div 512 > 0 then s + l div 512 else s) = s + l div 512"
    by (auto simp: word_less_nat_alt) (simp add: word_eq_unat)
  have rest: "(if l mod 512 > 0 then take (unat (l mod 512)) (ata_read_sectors dev_in d dma (s + l div 512) 1) else []) =
      byte_slice (content d) (512 * unat s + 512 * (unat l div 512)) (unat l mod 512)"
    using read_sectors_exact [OF r d, of 1 "s + l div 512"] ab
    by (auto simp: word_less_nat_alt take_slice min_def algebra_simps)
  show ?thesis unfolding s' whole rest slice_append by simp
qed

section \<open>Reading\<close>

lemma start_bounds:
  fixes sector :: u32 and offset :: u16
  assumes "512 * unat sector + unat offset + L \<le> 512 * LBA28"
  shows "unat (sector + ucast (offset div 512)) = unat sector + unat offset div 512"
    and "unat (ucast (offset mod 512) :: u32) = unat offset mod 512"
proof -
  have lt: "unat offset < 65536" using unsigned_less [of offset] by simp
  then have "unat offset div 512 < 128" by simp
  then have o: "unat (ucast (offset div 512) :: u32) = unat offset div 512"
    by (simp add: unat_div)
  with o assms show "unat (sector + ucast (offset div 512)) = unat sector + unat offset div 512"
    by (subst unat_add_nowrap) (simp_all add: LBA28_def)
  show "unat (ucast (offset mod 512) :: u32) = unat offset mod 512"
    by (simp add: unsigned_ucast_eq take_bit_nat_eq_self unat_mod)
qed

definition whole_and_rest :: "'d dev_in \<Rightarrow> 'd \<Rightarrow> bool \<Rightarrow> u32 \<Rightarrow> u32 \<Rightarrow> bytes" where
  "whole_and_rest dev_in d dma s l =
     (if l div 512 > 0 then ata_read_sectors dev_in d dma s (l div 512) else []) @
     (if l mod 512 > 0 then take (unat (l mod 512))
        (ata_read_sectors dev_in d dma (if l div 512 > 0 then s + l div 512 else s) 1) else [])"

lemma ata_read_data_alt:
  "ata_read_data dev_in d dma sector offset len =
     (let so = sector + ucast (offset div 512); off = ucast (offset mod 512) in
      if off > 0
      then take (unat (min_u32 (512 - off) len)) (drop (unat off) (ata_read_sectors dev_in d dma so 1)) @
           whole_and_rest dev_in d dma (so + 1) (len - (min_u32 512 (off + len) - off))
      else whole_and_rest dev_in d dma so len)"
  by (simp add: ata_read_data_def whole_and_rest_def Let_def add.assoc)

lemma unat_min_u32: "unat (min_u32 a b) = min (unat a) (unat b)"
  by (simp add: min_u32_def word_less_nat_alt)

text \<open>The part before the first sector boundary, and what is left after it.\<close>

lemma head_length:
  fixes off len :: u32
  assumes "unat off < 512" and "unat off + unat len < 4294967296"
  shows "unat (min_u32 (512 - off) len) = min (512 - unat off) (unat len)"
    and "unat (len - (min_u32 512 (off + len) - off)) = unat len - min (512 - unat off) (unat len)"
proof -
  have d: "unat (512 - off) = 512 - unat off" using assms(1) by (subst unat_sub_nowrap) simp_all
  then show "unat (min_u32 (512 - off) len) = min (512 - unat off) (unat len)" by (simp add: unat_min_u32)
  have m: "unat (min_u32 512 (off + len)) = min 512 (unat off + unat len)"
    using assms(2) by (simp add: unat_min_u32 unat_add_nowrap)
  then have m2: "unat (min_u32 512 (off + len) - off) = min (512 - unat off) (unat len)"
    using assms(1) by (subst unat_sub_nowrap) auto
  then show "unat (len - (min_u32 512 (off + len) - off)) = unat len - min (512 - unat off) (unat len)"
    by (subst unat_sub_nowrap) simp_all
qed

lemma next_sector:
  fixes so :: u32
  assumes "512 * unat so + off + L \<le> 512 * LBA28" and "0 < off" and "off < 512"
  shows "unat (so + 1) = unat so + 1" and "512 * unat (so + 1) + (L - min (512 - off) L) \<le> 512 * LBA28"
    and "unat so + 1 \<le> LBA28"
proof -
  show le: "unat so + 1 \<le> LBA28" using assms by linarith
  then show s: "unat (so + 1) = unat so + 1" by (subst unat_add_nowrap) (simp_all add: LBA28_def)
  show "512 * unat (so + 1) + (L - min (512 - off) L) \<le> 512 * LBA28"
    using assms mult_le_mono2 [OF le, of 512] unfolding s by (cases "L \<le> 512 - off") (simp_all add: min_def)
qed

lemma slice_head_rest:
  assumes "off < 512"
  shows "byte_slice c (512 * s + off) (min (512 - off) L) @ byte_slice c (512 * s + 512) (L - min (512 - off) L) =
    byte_slice c (512 * s + off) L"
proof (cases "L \<le> 512 - off")
  case False
  then have "min (512 - off) L = 512 - off" by simp
  moreover have "512 * s + off + (512 - off) = 512 * s + 512" using assms by simp
  ultimately show ?thesis
    using False slice_append [of c "512 * s + off" "512 - off" "L - (512 - off)"] by simp
qed simp

lemma ata_read_data_slice:
  assumes "reads_when ready content dev_in" and "ready dma d"
    and "512 * unat sector + unat offset + unat len \<le> 512 * LBA28"
    and "unat (offset mod 512) + unat len < 2 ^ 32"
  shows "ata_read_data dev_in d dma sector offset len =
    byte_slice (content d) (512 * unat sector + unat offset) (unat len)"
proof -
  define so where "so = sector + ucast (offset div 512)"
  define off where "off = (ucast (offset mod 512) :: u32)"
  have so: "unat so = unat sector + unat offset div 512" and off: "unat off = unat offset mod 512"
    using start_bounds [OF assms(3)] by (simp_all add: so_def off_def)
  have at: "512 * unat sector + unat offset = 512 * unat so + unat off" by (simp add: so off)
  have lt: "unat off < 512" by (simp add: off)
  have nowrap: "unat off + unat len < 4294967296" using assms(4) by (simp add: off unat_mod)
  note read = read_aligned [OF assms(1,2), folded whole_and_rest_def]
  show ?thesis
  proof (cases "off > 0")
    case True
    then have pos: "0 < unat off" by (simp add: word_less_nat_alt)
    note ns = next_sector [of so "unat off" "unat len", OF assms(3) [unfolded at] pos lt]
    have "ata_read_sectors dev_in d dma so 1 = byte_slice (content d) (512 * unat so) 512"
      using read_sectors_exact [OF assms(1,2), of 1 so] ns by simp
    then have head: "take (unat (min_u32 (512 - off) len)) (drop (unat off) (ata_read_sectors dev_in d dma so 1)) =
        byte_slice (content d) (512 * unat so + unat off) (min (512 - unat off) (unat len))"
      by (simp add: head_length [OF lt nowrap] drop_slice take_slice)
    have "whole_and_rest dev_in d dma (so + 1) (len - (min_u32 512 (off + len) - off)) =
        byte_slice (content d) (512 * unat so + 512) (unat len - min (512 - unat off) (unat len))"
      using read [of "so + 1" "len - (min_u32 512 (off + len) - off)"] ns(2)
      by (simp only: head_length [OF lt nowrap] ns(1) add_mult_distrib2 mult_1_right)
    with head True show ?thesis
      unfolding at ata_read_data_alt so_def [symmetric] off_def [symmetric] Let_def
      by (simp add: slice_head_rest [OF lt])
  next
    case False
    then have "unat off = 0" by (simp add: word_less_nat_alt)
    with False read [of so len] assms(3) show ?thesis
      unfolding at ata_read_data_alt so_def [symmetric] off_def [symmetric] Let_def by (simp add: at)
  qed
qed

section \<open>Writing\<close>

lemma overwrite_patch:
  assumes "off + k \<le> n" and "k \<le> length b"
  shows "overwrite a (patch (byte_slice c a n) off b k) c = overwrite (a + off) (take k b) c"
proof
  fix i
  have len: "length (patch (byte_slice c a n) off b k) = n" using assms by (simp add: patch_def)
  have nth: "patch (byte_slice c a n) off b k ! j = (if j < off then c (a + j) else if j < off + k then b ! (j - off) else c (a + j))"
    if "j < n" for j
    using assms that by (auto simp: patch_def nth_append)
  show "overwrite a (patch (byte_slice c a n) off b k) c i = overwrite (a + off) (take k b) c i"
    using assms by (auto simp: overwrite_def len nth)
qed

lemma length_patch: "off + k \<le> length t \<Longrightarrow> k \<le> length b \<Longrightarrow> length (patch t off b k) = length t"
  by (simp add: patch_def)

definition write_whole_and_rest :: "'d dev_in \<Rightarrow> 'd dev_out \<Rightarrow> bool \<Rightarrow> u32 \<Rightarrow> u32 \<Rightarrow> bytes \<Rightarrow> 'd \<Rightarrow> 'd" where
  "write_whole_and_rest dev_in dev_out dma s l buffer d =
     (let d2 = (if l div 512 > 0 then ata_write_sectors dev_out s (l div 512) buffer d else d);
          buffer2 = (if l div 512 > 0 then drop (unat (l div 512 * 512)) buffer else buffer);
          s2 = (if l div 512 > 0 then s + l div 512 else s) in
      if l mod 512 > 0
      then ata_write_sectors dev_out s2 1
             (patch (ata_read_sectors dev_in d2 dma s2 1) 0 buffer2 (unat (l mod 512))) d2
      else d2)"

lemma ata_write_data_alt:
  "ata_write_data dev_in dev_out dma sector offset len buffer d =
     (let so = sector + ucast (offset div 512); off = ucast (offset mod 512); n0 = unat (min_u32 (512 - off) len) in
      if off > 0
      then write_whole_and_rest dev_in dev_out dma (so + 1) (len - (min_u32 512 (off + len) - off)) (drop n0 buffer)
             (ata_write_sectors dev_out so 1 (patch (ata_read_sectors dev_in d dma so 1) (unat off) buffer n0) d)
      else write_whole_and_rest dev_in dev_out dma so len buffer d)"
  by (simp add: ata_write_data_def write_whole_and_rest_def Let_def add.assoc)

lemma write_one_patched:
  assumes "reads_when ready content dev_in" and "writes_when ready content dev_out" and "ready dma d" and "unat s + 1 \<le> LBA28"
    and "off + k \<le> 512" and "k \<le> length b"
  shows "ready dma (ata_write_sectors dev_out s 1 (patch (ata_read_sectors dev_in d dma s 1) off b k) d) \<and>
    content (ata_write_sectors dev_out s 1 (patch (ata_read_sectors dev_in d dma s 1) off b k) d) =
    overwrite (512 * unat s + off) (take k b) (content d)"
proof -
  have r: "ata_read_sectors dev_in d dma s 1 = byte_slice (content d) (512 * unat s) 512"
    using read_sectors_exact [OF assms(1,3), of 1 s] assms(4) by simp
  have len: "length (patch (byte_slice (content d) (512 * unat s) 512) off b k) = 512"
    using assms(5,6) by (simp add: length_patch)
  show ?thesis
    unfolding r using write_sectors_exact [OF assms(2,3), of 1 s] assms(4) len
    by (simp add: overwrite_patch [OF assms(5,6)])
qed

lemma write_aligned:
  assumes r: "reads_when ready content dev_in" and w: "writes_when ready content dev_out" and d: "ready dma d"
    and b: "512 * unat s + unat l \<le> 512 * LBA28" and buf: "unat l \<le> length buffer"
  shows "ready dma (write_whole_and_rest dev_in dev_out dma s l buffer d) \<and>
    content (write_whole_and_rest dev_in dev_out dma s l buffer d) =
    overwrite (512 * unat s) (take (unat l) buffer) (content d)"
proof -
  note ab = aligned_bounds [OF b]
  define d2 where "d2 = (if l div 512 > 0 then ata_write_sectors dev_out s (l div 512) buffer d else d)"
  let ?w = "512 * (unat l div 512)"
  have split: "unat l = ?w + unat l mod 512" by simp
  then have w_le: "?w \<le> length buffer" using buf by linarith
  have d2: "ready dma d2" "content d2 = overwrite (512 * unat s) (take ?w buffer) (content d)"
    unfolding d2_def using write_sectors_exact [OF w d, of "l div 512" s buffer] ab w_le d
    by (auto simp: word_less_nat_alt)
  have "unat (l div 512 * 512) = ?w"
    using unat_lt_u32 [of l] split by (simp add: unat_word_ariths ab mult.commute del: unat_lt_u32)
  then have buf2: "(if l div 512 > 0 then drop (unat (l div 512 * 512)) buffer else buffer) = drop ?w buffer"
    by (auto simp: word_less_nat_alt ab)
  have s2: "(if l div 512 > 0 then s + l div 512 else s) = s + l div 512"
    by (auto simp: word_less_nat_alt) (simp add: word_eq_unat)
  have "ready dma (write_whole_and_rest dev_in dev_out dma s l buffer d) \<and>
    content (write_whole_and_rest dev_in dev_out dma s l buffer d) =
      overwrite (512 * unat s + ?w) (take (unat l mod 512) (drop ?w buffer)) (content d2)"
  proof (cases "l mod 512 > 0")
    case True
    then have pos: "0 < unat l mod 512" by (simp add: word_less_nat_alt ab)
    have "unat l mod 512 \<le> length (drop ?w buffer)" unfolding length_drop using split buf by linarith
    with write_one_patched [OF r w d2(1), of "s + l div 512" 0 "unat l mod 512" "drop ?w buffer"] ab(3) ab(5) [OF pos]
    have "ready dma (ata_write_sectors dev_out (s + l div 512) 1
        (patch (ata_read_sectors dev_in d2 dma (s + l div 512) 1) 0 (drop ?w buffer) (unat l mod 512)) d2) \<and>
      content (ata_write_sectors dev_out (s + l div 512) 1
        (patch (ata_read_sectors dev_in d2 dma (s + l div 512) 1) 0 (drop ?w buffer) (unat l mod 512)) d2) =
      overwrite (512 * unat s + ?w) (take (unat l mod 512) (drop ?w buffer)) (content d2)"
      by (simp add: algebra_simps)
    then show ?thesis
      using True by (simp only: write_whole_and_rest_def Let_def d2_def [symmetric] buf2 s2 if_True ab(2))
  next
    case False
    then have zero: "unat l mod 512 = 0" by (simp add: word_less_nat_alt ab)
    show ?thesis
      using False by (simp only: write_whole_and_rest_def Let_def d2_def [symmetric] if_False zero take0 overwrite_nil d2(1))
  qed
  also have "overwrite (512 * unat s + ?w) (take (unat l mod 512) (drop ?w buffer)) (content d2) = overwrite (512 * unat s) (take ?w buffer @ take (unat l mod 512) (drop ?w buffer)) (content d)"
    using overwrite_overwrite [of "512 * unat s" "take ?w buffer"] w_le by (simp add: d2(2))
  also have "take ?w buffer @ take (unat l mod 512) (drop ?w buffer) = take (unat l) buffer"
    using split by (metis take_add)
  finally show ?thesis .
qed

lemma ata_write_data_exact:
  assumes r: "reads_when ready content dev_in" and w: "writes_when ready content dev_out" and d: "ready dma d"
    and b: "512 * unat sector + unat offset + unat len \<le> 512 * LBA28"
    and "unat (offset mod 512) + unat len < 2 ^ 32" and buf: "unat len \<le> length buffer"
  shows "ready dma (ata_write_data dev_in dev_out dma sector offset len buffer d) \<and>
    content (ata_write_data dev_in dev_out dma sector offset len buffer d) =
    overwrite (512 * unat sector + unat offset) (take (unat len) buffer) (content d)"
proof -
  define so where "so = sector + ucast (offset div 512)"
  define off where "off = (ucast (offset mod 512) :: u32)"
  have so: "unat so = unat sector + unat offset div 512" and off: "unat off = unat offset mod 512"
    using start_bounds [OF b] by (simp_all add: so_def off_def)
  have at: "512 * unat sector + unat offset = 512 * unat so + unat off" by (simp add: so off)
  have lt: "unat off < 512" by (simp add: off)
  have nowrap: "unat off + unat len < 4294967296" using assms(5) by (simp add: off unat_mod)
  note wr = write_aligned [OF r w]
  show ?thesis
  proof (cases "off > 0")
    case True
    then have pos: "0 < unat off" by (simp add: word_less_nat_alt)
    note ns = next_sector [of so "unat off" "unat len", OF b [unfolded at] pos lt]
    note hl = head_length [OF lt nowrap]
    let ?h = "min (512 - unat off) (unat len)"
    let ?d1 = "ata_write_sectors dev_out so 1 (patch (ata_read_sectors dev_in d dma so 1) (unat off) buffer ?h) d"
    have h: "unat off + ?h \<le> 512" "?h \<le> length buffer" using lt buf by auto
    have d1: "ready dma ?d1" "content ?d1 = overwrite (512 * unat so + unat off) (take ?h buffer) (content d)"
      using write_one_patched [OF r w d ns(3) h] by simp_all
    have "ready dma (write_whole_and_rest dev_in dev_out dma (so + 1) (len - (min_u32 512 (off + len) - off)) (drop ?h buffer) ?d1) \<and>
      content (write_whole_and_rest dev_in dev_out dma (so + 1) (len - (min_u32 512 (off + len) - off)) (drop ?h buffer) ?d1) =
        overwrite (512 * unat (so + 1)) (take (unat len - ?h) (drop ?h buffer)) (content ?d1)"
      using wr [OF d1(1), of "so + 1" "len - (min_u32 512 (off + len) - off)" "drop ?h buffer"] ns buf by (simp add: hl)
    also have "512 * unat (so + 1) = 512 * unat so + 512" by (simp add: ns(1))
    also have "overwrite (512 * unat so + 512) (take (unat len - ?h) (drop ?h buffer)) (content ?d1) =
        overwrite (512 * unat so + unat off + length (take ?h buffer)) (take (unat len - ?h) (drop ?h buffer)) (content ?d1)"
      using lt h(2) by (cases "unat len \<le> 512 - unat off") (auto simp: min_def algebra_simps)
    also have "\<dots> = overwrite (512 * unat so + unat off) (take (unat len) buffer) (content d)"
      unfolding d1(2) overwrite_overwrite by (simp flip: take_add)
    finally show ?thesis
      using True unfolding at ata_write_data_alt so_def [symmetric] off_def [symmetric] Let_def by (simp add: hl)
  next
    case False
    then have "unat off = 0" by (simp add: word_less_nat_alt)
    with False wr [OF d, of so len buffer] b buf show ?thesis
      unfolding at ata_write_data_alt so_def [symmetric] off_def [symmetric] Let_def by (simp add: at)
  qed
qed

section \<open>Requests\<close>

lemmas ata_op_defs = ATA_OP_READ_def ATA_OP_WRITE_def ATA_OP_MBR_READ_def ATA_OP_SET_BAR4_def

lemma ata_handle_read:
  "ata_handle dev_in dev_out (ATAOpRead sector offset len) a =
     rbind (filled len (ata_read_data dev_in (drive a) (dma_enabled a) sector offset len)) (\<lambda>buffer. Inr (buffer, a))"
  by (simp add: ata_handle_def ATAOpRead_def ata_op_defs wire_simps)

lemma ata_handle_write:
  "unat len \<le> length data \<Longrightarrow> ata_handle dev_in dev_out (ATAOpWrite sector offset len data) a =
     Inr ([1], a\<lparr>drive := ata_write_data dev_in dev_out (dma_enabled a) sector offset len data (drive a)\<rparr>)"
  by (simp add: ata_handle_def ATAOpWrite_def ata_op_defs wire_simps)

lemma ata_handle_mbr_read:
  "ata_handle dev_in dev_out (ATAOpMBRRead partition_id sector offset len) a =
     rbind (ata_partition_read_data dev_in a partition_id sector offset len) (\<lambda>b.
     rbind (filled len b) (\<lambda>buffer. Inr (buffer, a)))"
  by (simp add: ata_handle_def ATAOpMBRRead_def ata_op_defs wire_simps)

lemma ata_handle_read_exact:
  assumes "reads_when ready content dev_in" and "ready (dma_enabled a) (drive a)"
    and "512 * unat sector + unat offset + unat len \<le> 512 * LBA28"
    and "unat (offset mod 512) + unat len < 2 ^ 32"
  shows "ata_handle dev_in dev_out (ATAOpRead sector offset len) a =
    Inr (byte_slice (content (drive a)) (512 * unat sector + unat offset) (unat len), a)"
  by (simp add: ata_handle_read ata_read_data_slice [OF assms] filled_def)

lemma ata_partition_read:
  assumes "reads_when ready content dev_in" and "ready (dma_enabled a) (drive a)" and "begin_disk_sector (hdd_mbr a) partition_id = Inr b"
    and "512 * (unat b + unat sector) + unat offset + unat len \<le> 512 * LBA28"
    and "unat (offset mod 512) + unat len < 2 ^ 32"
  shows "ata_handle dev_in dev_out (ATAOpMBRRead partition_id sector offset len) a =
    Inr (byte_slice (content (drive a)) (512 * (unat b + unat sector) + unat offset) (unat len), a)"
proof -
  have "unat (b + sector) = unat b + unat sector"
    using assms(4) by (subst unat_add_nowrap) (simp_all add: LBA28_def)
  with ata_read_data_slice [OF assms(1,2), of "b + sector" offset len] assms(4,5)
  show ?thesis by (simp add: ata_handle_mbr_read ata_partition_read_data_def assms(3) filled_def)
qed

lemma ata_write_read:
  assumes "reads_when ready content dev_in" and "writes_when ready content dev_out" and "ready (dma_enabled a) (drive a)"
    and "512 * unat sector + unat offset + unat len \<le> 512 * LBA28"
    and "unat (offset mod 512) + unat len < 2 ^ 32" and "length data = unat len"
  shows "\<exists>a'. ata_handle dev_in dev_out (ATAOpWrite sector offset len data) a = Inr ([1], a') \<and>
    ata_handle dev_in dev_out (ATAOpRead sector offset len) a' = Inr (data, a') \<and>
    (\<forall>i. i < 512 * unat sector + unat offset \<or> 512 * unat sector + unat offset + unat len \<le> i \<longrightarrow>
       content (drive a') i = content (drive a) i)"
proof -
  define a' where "a' = a\<lparr>drive := ata_write_data dev_in dev_out (dma_enabled a) sector offset len data (drive a)\<rparr>"
  have c: "ready (dma_enabled a') (drive a')" "content (drive a') = overwrite (512 * unat sector + unat offset) data (content (drive a))"
    using ata_write_data_exact [OF assms(1-5), of data] assms(6) by (simp_all add: a'_def)
  have "ata_handle dev_in dev_out (ATAOpWrite sector offset len data) a = Inr ([1], a')"
    using assms(6) by (simp add: ata_handle_write a'_def)
  moreover have "ata_handle dev_in dev_out (ATAOpRead sector offset len) a' = Inr (data, a')"
    using slice_overwrite [of "512 * unat sector + unat offset" data] assms(6)
    by (simp add: ata_handle_read_exact [OF assms(1) c(1) assms(4,5)] c(2))
  moreover have "\<forall>i. i < 512 * unat sector + unat offset \<or> 512 * unat sector + unat offset + unat len \<le> i \<longrightarrow>
      content (drive a') i = content (drive a) i"
    using assms(6) by (auto simp: c(2) overwrite_def)
  ultimately show ?thesis by blast
qed

text \<open>
  Claim C24. A partition read, from any byte of any sector of the partition and through as many sectors as it
  takes, answers with the bytes of the drive at that range counted from the start of the partition.
\<close>

theorem ata_partition_read_exact:
  assumes "reads_ok content dev_in" and "begin_disk_sector (hdd_mbr a) partition_id = Inr b"
    and "512 * (unat b + unat sector) + unat offset + unat len \<le> 512 * LBA28"
    and "unat (offset mod 512) + unat len < 2 ^ 32"
  shows "ata_handle dev_in dev_out (ATAOpMBRRead partition_id sector offset len) a =
    Inr (byte_slice (content (drive a)) (512 * (unat b + unat sector) + unat offset) (unat len), a)"
  by (rule ata_partition_read [OF assms(1) [unfolded always_ready] TrueI assms(2-4)])

text \<open>
  Claim C25. A write request followed by a read request for the same range returns the data written, and no
  other byte of the drive has changed, wherever in its sectors the range starts and ends.
\<close>

theorem ata_write_then_read:
  assumes "reads_ok content dev_in" and "writes_ok content dev_out"
    and "512 * unat sector + unat offset + unat len \<le> 512 * LBA28"
    and "unat (offset mod 512) + unat len < 2 ^ 32" and "length data = unat len"
  shows "\<exists>a'. ata_handle dev_in dev_out (ATAOpWrite sector offset len data) a = Inr ([1], a') \<and>
    ata_handle dev_in dev_out (ATAOpRead sector offset len) a' = Inr (data, a') \<and>
    (\<forall>i. i < 512 * unat sector + unat offset \<or> 512 * unat sector + unat offset + unat len \<le> i \<longrightarrow>
       content (drive a') i = content (drive a) i)"
  by (rule ata_write_read [OF assms(1,2) [unfolded always_ready] TrueI assms(3-5)])

section \<open>A drive that is its content\<close>

definition flat_in :: "(nat \<Rightarrow> u8) dev_in" where
  "flat_in d dma s n = byte_slice d (512 * unat s) (512 * unat n)"

definition flat_out :: "(nat \<Rightarrow> u8) dev_out" where
  "flat_out s n b d = overwrite (512 * unat s) (take (512 * unat n) b) d"

lemma flat_ok: "reads_ok (\<lambda>d. d) flat_in" "writes_ok (\<lambda>d. d) flat_out"
  by (simp_all add: reads_ok_def writes_ok_def flat_in_def flat_out_def)

theorem ata_partition_read_exact_witness:
  "ata_handle flat_in flat_out (ATAOpMBRRead 0 3 510 1027)
       \<lparr>hdd_mbr = pad 454 @ put_u32 63 @ pad 54, dma_enabled = False, pio_bmide_base_addr = 0, drive = (\<lambda>i. of_nat i)\<rparr> =
     Inr (byte_slice (\<lambda>i. of_nat i) 34302 1027,
       \<lparr>hdd_mbr = pad 454 @ put_u32 63 @ pad 54, dma_enabled = False, pio_bmide_base_addr = 0, drive = (\<lambda>i. of_nat i)\<rparr>)"
  using ata_partition_read_exact [OF flat_ok(1), of "\<lparr>hdd_mbr = pad 454 @ put_u32 63 @ pad 54, dma_enabled = False,
      pio_bmide_base_addr = 0, drive = (\<lambda>i. of_nat i)\<rparr>" 0 63 3 510 1027 flat_out]
  by (simp add: begin_disk_sector_def wire_simps LBA28_def)

theorem ata_write_then_read_witness:
  "\<exists>a'. ata_handle flat_in flat_out (ATAOpWrite 3 510 3 [7, 8, 9])
       \<lparr>hdd_mbr = [], dma_enabled = False, pio_bmide_base_addr = 0, drive = (\<lambda>_. 0)\<rparr> = Inr ([1], a') \<and>
     ata_handle flat_in flat_out (ATAOpRead 3 510 3) a' = Inr ([7, 8, 9], a')"
proof -
  have "512 * unat (3 :: u32) + unat (510 :: u16) + unat (3 :: u32) \<le> 512 * LBA28"
    "unat ((510 :: u16) mod 512) + unat (3 :: u32) < 2 ^ 32" "length [7, 8, 9 :: u8] = unat (3 :: u32)"
    by (simp_all add: LBA28_def)
  from ata_write_then_read [OF flat_ok this] show ?thesis by blast
qed

end
