(* ===== verification/FatProps.thy ===== *)
theory FatProps
  imports Fat AtaProps
begin

text \<open>
  Files of a FAT volume as the concatenation of the clusters of a chain: \<open>fat_read_data\<close> returns the bytes
  asked for, wherever they lie in the chain. The volume is a partition of the drive, served by the disk driver.
\<close>

section \<open>The volume\<close>

text \<open>\<open>served vol n pid rpc\<close>: partition \<open>pid\<close> has the bytes \<open>vol\<close> below \<open>n\<close>, and the disk driver answers with them.\<close>

definition served :: "(nat \<Rightarrow> u8) \<Rightarrow> nat \<Rightarrow> u8 \<Rightarrow> (bytes \<Rightarrow> bytes result) \<Rightarrow> bool" where
  "served vol n pid rpc \<longleftrightarrow>
     (\<forall>sector len. 512 * unat sector + unat len \<le> n \<longrightarrow>
        rpc (ATAOpMBRRead pid sector 0 len) = Inr (byte_slice vol (512 * unat sector) (unat len)))"

definition ata_process :: "'d dev_in \<Rightarrow> 'd dev_out \<Rightarrow> 'd ata_driver \<Rightarrow> bytes \<Rightarrow> bytes result" where
  "ata_process dev_in dev_out a request = rbind (ata_handle dev_in dev_out request a) (\<lambda>(reply, _). Inr reply)"

lemma ata_serves:
  assumes "reads_when ready content dev_in" and "ready (dma_enabled a) (drive a)" and "begin_disk_sector (hdd_mbr a) pid = Inr b"
    and "512 * unat b + n \<le> 512 * LBA28"
  shows "served (\<lambda>i. content (drive a) (512 * unat b + i)) n pid (ata_process dev_in dev_out a)"
  unfolding served_def
proof (intro allI impI)
  fix sector len :: u32 assume le: "512 * unat sector + unat len \<le> n"
  have s: "unat (b + sector) = unat b + unat sector"
    using assms(4) le by (subst unat_add_nowrap) (simp_all add: LBA28_def)
  have "byte_slice (content (drive a)) (512 * unat (b + sector)) (unat len) =
      byte_slice (\<lambda>i. content (drive a) (512 * unat b + i)) (512 * unat sector) (unat len)"
    unfolding s by (rule nth_equalityI) (simp_all add: algebra_simps)
  with ata_read_data_slice [OF assms(1,2), of "b + sector" 0 len] assms(4) le s
  show "ata_process dev_in dev_out a (ATAOpMBRRead pid sector 0 len) =
      Inr (byte_slice (\<lambda>i. content (drive a) (512 * unat b + i)) (512 * unat sector) (unat len))"
    by (simp add: ata_process_def ata_handle_mbr_read ata_partition_read_data_def assms(3) filled_def)
qed

definition u32_of :: "(nat \<Rightarrow> u8) \<Rightarrow> nat \<Rightarrow> u32" where
  "u32_of vol i = ucast (vol i) OR push_bit 8 (ucast (vol (i + 1))) OR push_bit 16 (ucast (vol (i + 2)))
     OR push_bit 24 (ucast (vol (i + 3)))"

lemma get_u32_slice: "i + 4 \<le> n \<Longrightarrow> get_u32 (byte_slice vol a n) i = Inr (u32_of vol (a + i))"
  by (simp add: get_u32_def u32_of_def add.assoc)

text \<open>The entry of a cluster in the table, and the contents of a cluster.\<close>

definition link_of :: "(nat \<Rightarrow> u8) \<Rightarrow> fat_state \<Rightarrow> u32 \<Rightarrow> u32" where
  "link_of vol f c = u32_of vol (512 * unat (first_fat_sector f) + 4 * unat c) AND 0x0FFFFFFF"

definition data_sector :: "fat_state \<Rightarrow> u32 \<Rightarrow> u32" where
  "data_sector f c = first_data_sector f + (c - 2) * ucast (sectors_per_cluster (boot_record f))"

definition csize :: "fat_state \<Rightarrow> nat" where
  "csize f = 512 * unat (sectors_per_cluster (boot_record f))"

definition cluster_bytes :: "(nat \<Rightarrow> u8) \<Rightarrow> fat_state \<Rightarrow> u32 \<Rightarrow> bytes" where
  "cluster_bytes vol f c = byte_slice vol (512 * unat (data_sector f c)) (csize f)"

definition file_bytes :: "(nat \<Rightarrow> u8) \<Rightarrow> fat_state \<Rightarrow> u32 list \<Rightarrow> bytes" where
  "file_bytes vol f cs = concat (map (cluster_bytes vol f) cs)"

fun fat_chain :: "(nat \<Rightarrow> u8) \<Rightarrow> fat_state \<Rightarrow> u32 list \<Rightarrow> bool" where
  "fat_chain vol f [] \<longleftrightarrow> False"
| "fat_chain vol f [c] \<longleftrightarrow> link_of vol f c \<ge> 0x0FFFFFF8"
| "fat_chain vol f (c # c' # cs) \<longleftrightarrow> link_of vol f c = c' \<and> 2 \<le> c' \<and> c' < 0x0FFFFFF0 \<and> fat_chain vol f (c' # cs)"

text \<open>The sectors of the table and of the clusters lie inside the volume.\<close>

definition inside :: "nat \<Rightarrow> fat_state \<Rightarrow> u32 \<Rightarrow> bool" where
  "inside n f c \<longleftrightarrow>
     512 * unat (data_sector f c) + csize f \<le> n \<and>
     512 * unat (first_fat_sector f) + (4 * unat c div csize f) * csize f + csize f \<le> n"

definition cache_ok :: "(nat \<Rightarrow> u8) \<Rightarrow> fat_state \<Rightarrow> bool" where
  "cache_ok vol f \<longleftrightarrow> (\<forall>k d. map_find (fat_clusters f) k = Some d \<longrightarrow>
     d = byte_slice vol (512 * unat (first_fat_sector f + k * ucast (sectors_per_cluster (boot_record f)))) (csize f))"

definition fat_ok :: "(nat \<Rightarrow> u8) \<Rightarrow> nat \<Rightarrow> fat_env \<Rightarrow> fat_state \<Rightarrow> bool" where
  "fat_ok vol n env f \<longleftrightarrow>
     fat32esque f \<noteq> 0 \<and> bytes_per_sector (boot_record f) = 512 \<and> sectors_per_cluster (boot_record f) \<noteq> 0 \<and>
     served vol n (ucast (pno f)) (ata_rpc env) \<and> n \<le> 512 * LBA28 \<and> cache_ok vol f"

lemma same_state [simp]:
  "link_of vol (f\<lparr>fat_clusters := X\<rparr>) = link_of vol f" "csize (f\<lparr>fat_clusters := X\<rparr>) = csize f"
  "cluster_bytes vol (f\<lparr>fat_clusters := X\<rparr>) = cluster_bytes vol f" "data_sector (f\<lparr>fat_clusters := X\<rparr>) = data_sector f"
  "inside n (f\<lparr>fat_clusters := X\<rparr>) = inside n f"
  "cluster_size (f\<lparr>fat_clusters := X\<rparr>) = cluster_size f"
  by (simp_all add: fun_eq_iff link_of_def csize_def cluster_bytes_def data_sector_def inside_def cluster_size_def)

lemma same_file [simp]: "file_bytes vol (f\<lparr>fat_clusters := X\<rparr>) cs = file_bytes vol f cs"
  by (simp add: file_bytes_def)

lemma same_chain [simp]: "fat_chain vol (f\<lparr>fat_clusters := X\<rparr>) cs = fat_chain vol f cs"
  by (induction vol f cs rule: fat_chain.induct) simp_all

lemma csize_bounds:
  assumes "fat_ok vol n env f"
  shows "0 < csize f" "512 \<le> csize f" "csize f < 131072" "unat (cluster_size f) = csize f" "cluster_size f > 0"
proof -
  let ?s = "sectors_per_cluster (boot_record f)"
  have nz: "0 < unat ?s" using assms by (simp add: fat_ok_def unat_gt_0)
  then show c: "0 < csize f" "512 \<le> csize f" by (simp_all add: csize_def)
  have "unat ?s < 256" using unsigned_less [of ?s] by simp
  then show lt: "csize f < 131072" by (simp add: csize_def)
  from lt show u: "unat (cluster_size f) = csize f"
    using assms lt by (simp add: cluster_size_def fat_ok_def unat_word_ariths csize_def)
  then show "cluster_size f > 0" using c by (simp add: word_less_nat_alt)
qed

section \<open>The table\<close>

lemma same_fat_ok:
  "fat_ok vol n env f \<Longrightarrow> cache_ok vol (f\<lparr>fat_clusters := X\<rparr>) \<Longrightarrow> fat_ok vol n env (f\<lparr>fat_clusters := X\<rparr>)"
  by (simp add: fat_ok_def)

lemma read_fat_cluster_ok:
  assumes ok: "fat_ok vol n env f"
    and at: "512 * unat (first_fat_sector f + k * ucast (sectors_per_cluster (boot_record f))) + csize f \<le> n"
  shows "\<exists>X. fat_read_fat_cluster env k f =
      Inr (byte_slice vol (512 * unat (first_fat_sector f + k * ucast (sectors_per_cluster (boot_record f)))) (csize f),
           f\<lparr>fat_clusters := X\<rparr>) \<and> fat_ok vol n env (f\<lparr>fat_clusters := X\<rparr>)"
proof (cases "map_find (fat_clusters f) k")
  case None
  let ?d = "byte_slice vol (512 * unat (first_fat_sector f + k * ucast (sectors_per_cluster (boot_record f)))) (csize f)"
  have "partition_read_data env (ucast (pno f))
      (first_fat_sector f + k * ucast (sectors_per_cluster (boot_record f))) 0 (cluster_size f) = Inr ?d"
    using ok at csize_bounds(4) [OF ok] by (simp add: partition_read_data_def fat_ok_def served_def)
  moreover have "cache_ok vol (f\<lparr>fat_clusters := map_put (fat_clusters f) k ?d\<rparr>)"
    using ok by (auto simp: fat_ok_def cache_ok_def map_find_put)
  ultimately show ?thesis
    using None same_fat_ok [OF ok] by (auto simp: fat_read_fat_cluster_def)
next
  case (Some d)
  have "f\<lparr>fat_clusters := fat_clusters f\<rparr> = f" by simp
  moreover have "d = byte_slice vol (512 * unat (first_fat_sector f + k * ucast (sectors_per_cluster (boot_record f)))) (csize f)"
    using ok Some by (simp add: fat_ok_def cache_ok_def)
  ultimately show ?thesis using Some ok by (intro exI [of _ "fat_clusters f"]) (simp add: fat_read_fat_cluster_def)
qed

text \<open>Finding an entry by table cluster and index is finding it by its place in the table.\<close>

lemma entry_place:
  assumes "e = w div 4" and "w = 4 * e" and "0 < e"
  shows "(c div e) * w + 4 * (c - c div e * e) = 4 * (c :: nat)" and "c div e = 4 * c div w" and "4 * (c - c div e * e) + 4 \<le> w"
proof -
  have "c - c div e * e = c mod e" by (simp add: minus_div_mult_eq_mod)
  then show "(c div e) * w + 4 * (c - c div e * e) = 4 * c"
    using assms(2) by (metis add_mult_distrib2 div_mult_mod_eq mult.left_commute)
  show "c div e = 4 * c div w" using assms(2) by simp
  have "c mod e < e" using assms(3) by simp
  then show "4 * (c - c div e * e) + 4 \<le> w" using assms(2) \<open>c - c div e * e = c mod e\<close> by simp
qed

lemma fat_entry_ok:
  assumes ok: "fat_ok vol n env f" and c: "inside n f c"
  shows "\<exists>X. fat_entry_for env c f = Inr (link_of vol f c, f\<lparr>fat_clusters := X\<rparr>) \<and> fat_ok vol n env (f\<lparr>fat_clusters := X\<rparr>)"
proof -
  note cb = csize_bounds [OF ok]
  let ?s = "sectors_per_cluster (boot_record f)"
  let ?e = "cluster_size f div 4"
  let ?k = "c div ?e"
  have e: "unat ?e = csize f div 4" using cb(4) by (simp add: unat_div)
  have w: "csize f = 4 * (csize f div 4)" by (simp add: csize_def)
  have epos: "0 < csize f div 4" using cb(2) by linarith
  then have enz: "?e \<noteq> 0" using e by (metis less_irrefl unat_0)
  have k: "unat ?k = unat c div (csize f div 4)" by (simp add: unat_div cb(4))
  note place = entry_place [OF refl w epos, of "unat c"]
  have kw: "512 * unat (first_fat_sector f) + unat ?k * csize f + csize f \<le> n"
    using c place(2) by (simp add: inside_def k)
  have n: "n \<le> 512 * LBA28" using ok by (simp add: fat_ok_def)
  have "unat ?k * unat ?s < 4294967296" "unat (first_fat_sector f) + unat ?k * unat ?s < 4294967296"
    using kw n by (simp_all add: csize_def LBA28_def algebra_simps)
  then have sector: "unat (first_fat_sector f + ?k * ucast ?s) = unat (first_fat_sector f) + unat ?k * unat ?s"
    by (simp add: unat_word_ariths)
  then have at: "512 * unat (first_fat_sector f + ?k * ucast ?s) = 512 * unat (first_fat_sector f) + unat ?k * csize f"
    by (simp add: csize_def algebra_simps)
  with kw obtain X where X: "fat_read_fat_cluster env ?k f =
      Inr (byte_slice vol (512 * unat (first_fat_sector f) + unat ?k * csize f) (csize f), f\<lparr>fat_clusters := X\<rparr>)"
    "fat_ok vol n env (f\<lparr>fat_clusters := X\<rparr>)"
    using read_fat_cluster_ok [OF ok, of ?k] by auto
  have "unat ?k * unat ?e < 4294967296" unfolding k e
    using div_times_less_eq_dividend [of "unat c" "csize f div 4"] unat_lt_u32 [of c] by linarith
  then have "unat (?k * ?e) = unat ?k * unat ?e" by (rule unat_mult_nowrap)
  then have idx: "unat (c - ?k * ?e) = unat c - unat c div (csize f div 4) * (csize f div 4)"
    by (subst unat_sub_nowrap) (simp_all add: k e)
  have "get_u32 (byte_slice vol (512 * unat (first_fat_sector f) + unat ?k * csize f) (csize f)) (4 * unat (c - ?k * ?e)) =
      Inr (u32_of vol (512 * unat (first_fat_sector f) + 4 * unat c))"
    using place(1,3) by (simp add: get_u32_slice idx k add.assoc)
  with X ok enz show ?thesis
    by (auto simp: fat_entry_for_def Let_def fat_ok_def link_of_def)
qed

text \<open>Along a chain the next cluster is the next of the list, or there is none.\<close>

lemma link_small: "link_of vol f c \<le> 0x0FFFFFFF"
  by (simp add: link_of_def word_and_le1)

lemma next_cluster_ok:
  assumes "fat_ok vol n env f" and "fat_chain vol f (c # cs)" and "inside n f c"
  shows "\<exists>X. next_cluster env c f = Inr (case cs of [] \<Rightarrow> None | c' # _ \<Rightarrow> Some c', f\<lparr>fat_clusters := X\<rparr>) \<and>
    fat_ok vol n env (f\<lparr>fat_clusters := X\<rparr>)"
proof -
  from fat_entry_ok [OF assms(1,3)] obtain X where X: "fat_entry_for env c f = Inr (link_of vol f c, f\<lparr>fat_clusters := X\<rparr>)"
    "fat_ok vol n env (f\<lparr>fat_clusters := X\<rparr>)" by blast
  have "follow (link_of vol f c) = Inr (case cs of [] \<Rightarrow> None | c' # _ \<Rightarrow> Some c')"
    using assms(2) by (cases cs) (auto simp: follow_def word_le_nat_alt word_less_nat_alt)
  with X show ?thesis by (intro exI [of _ X]) (simp add: next_cluster_def)
qed

lemma length_cluster_bytes [simp]: "length (cluster_bytes vol f c) = csize f"
  by (simp add: cluster_bytes_def)

lemma file_bytes_simps [simp]:
  "file_bytes vol f [] = []" "file_bytes vol f (c # cs) = cluster_bytes vol f c @ file_bytes vol f cs"
  by (simp_all add: file_bytes_def)

section \<open>Reading\<close>

lemma fat_skip_ok:
  assumes "fat_ok vol n env f" and "fat_chain vol f (c # cs)" and "\<forall>x \<in> set (c # cs). inside n f x" and "unat offset < fuel"
  shows "\<exists>r X. fat_skip fuel env c offset f = Inr (r, f\<lparr>fat_clusters := X\<rparr>) \<and> fat_ok vol n env (f\<lparr>fat_clusters := X\<rparr>) \<and>
    (case r of
       None \<Rightarrow> length (file_bytes vol f (c # cs)) \<le> unat offset
     | Some (c', off) \<Rightarrow> \<exists>cs'. fat_chain vol f (c' # cs') \<and> (\<forall>x \<in> set (c' # cs'). inside n f x) \<and> unat off \<le> csize f \<and>
         drop (unat offset) (file_bytes vol f (c # cs)) = drop (unat off) (file_bytes vol f (c' # cs')))"
  using assms
proof (induction cs arbitrary: c offset f fuel)
  case Nil
  then obtain k where k: "fuel = Suc k" by (cases fuel) auto
  note cb = csize_bounds [OF Nil.prems(1)]
  show ?case
  proof (cases "unat offset > csize f")
    case True
    from next_cluster_ok [OF Nil.prems(1,2)] Nil.prems(3) obtain X where
      "next_cluster env c f = Inr (None, f\<lparr>fat_clusters := X\<rparr>)" "fat_ok vol n env (f\<lparr>fat_clusters := X\<rparr>)" by auto
    with True show ?thesis by (intro exI [of _ None] exI [of _ X]) (simp add: k word_less_nat_alt cb(4))
  next
    case False
    have "f\<lparr>fat_clusters := fat_clusters f\<rparr> = f" by simp
    with False Nil.prems show ?thesis
      by (intro exI [of _ "Some (c, offset)"] exI [of _ "fat_clusters f"])
        (auto simp: k word_less_nat_alt cb(4) intro!: exI [of _ "[]"])
  qed
next
  case (Cons d cs)
  then obtain k where k: "fuel = Suc k" by (cases fuel) auto
  note cb = csize_bounds [OF Cons.prems(1)]
  show ?case
  proof (cases "unat offset > csize f")
    case True
    from next_cluster_ok [OF Cons.prems(1,2)] Cons.prems(3) obtain X where
      X: "next_cluster env c f = Inr (Some d, f\<lparr>fat_clusters := X\<rparr>)" "fat_ok vol n env (f\<lparr>fat_clusters := X\<rparr>)" by auto
    let ?f = "f\<lparr>fat_clusters := X\<rparr>"
    have sub: "unat (offset - cluster_size f) = unat offset - csize f"
      using True cb(4) by (subst unat_sub_nowrap) simp_all
    have step: "fat_skip fuel env c offset f = fat_skip k env d (offset - cluster_size f) ?f"
      using True by (simp add: k word_less_nat_alt cb(4) X(1))
    have "fat_chain vol ?f (d # cs)" "\<forall>x \<in> set (d # cs). inside n ?f x" "unat (offset - cluster_size f) < k"
      using Cons.prems True cb(1) by (auto simp: k sub)
    from Cons.IH [OF X(2) this] obtain r Y where
      "fat_skip k env d (offset - cluster_size f) ?f = Inr (r, ?f\<lparr>fat_clusters := Y\<rparr>)"
      "fat_ok vol n env (?f\<lparr>fat_clusters := Y\<rparr>)"
      "case r of
         None \<Rightarrow> length (file_bytes vol ?f (d # cs)) \<le> unat (offset - cluster_size f)
       | Some (c', off) \<Rightarrow> \<exists>cs'. fat_chain vol ?f (c' # cs') \<and> (\<forall>x \<in> set (c' # cs'). inside n ?f x) \<and> unat off \<le> csize ?f \<and>
           drop (unat (offset - cluster_size f)) (file_bytes vol ?f (d # cs)) = drop (unat off) (file_bytes vol ?f (c' # cs'))"
      by blast
    with True step show ?thesis
      by (intro exI [of _ r] exI [of _ Y]) (auto simp: sub simp del: fat_skip.simps split: option.splits)
  next
    case False
    have "f\<lparr>fat_clusters := fat_clusters f\<rparr> = f" by simp
    with False Cons.prems show ?thesis
      by (intro exI [of _ "Some (c, offset)"] exI [of _ "fat_clusters f"])
        (auto simp: k word_less_nat_alt cb(4) intro!: exI [of _ "d # cs"])
  qed
qed

text \<open>Copies are counted in 16 bits: a cluster must be smaller than 64 KiB.\<close>

lemma copy_length_ok:
  assumes "fat_ok vol n env f" and "csize f < 65536" and "unat offset \<le> csize f"
  shows "unat (copy_length len offset f) = min (unat len) (csize f - unat offset)"
proof -
  have "unat (cluster_size f - offset) = csize f - unat offset"
    using assms csize_bounds(4) [OF assms(1)] by (subst unat_sub_nowrap) simp_all
  then have u: "unat (min_u32 len (cluster_size f - offset)) = min (unat len) (csize f - unat offset)"
    by (simp add: unat_min_u32)
  have "csize f - unat offset < 65536" using assms(2) by linarith
  then have "min (unat len) (csize f - unat offset) < 65536" by (rule min.strict_coboundedI2)
  then show ?thesis by (simp add: copy_length_def unsigned_ucast_eq u take_bit_nat_eq_self)
qed

lemma read_cluster_ok:
  "fat_ok vol n env f \<Longrightarrow> inside n f c \<Longrightarrow> fat_read_cluster env c f = Inr (cluster_bytes vol f c)"
  using csize_bounds(4) [of vol n env f]
  by (simp add: fat_read_cluster_def fat_ok_def partition_read_data_def served_def inside_def cluster_bytes_def
      flip: data_sector_def)

lemma fat_copy_ok:
  assumes "fat_ok vol n env f" and "fat_chain vol f (c # cs)" and "\<forall>x \<in> set (c # cs). inside n f x"
    and "csize f < 65536" and "unat offset \<le> csize f" and "unat len + (if unat offset < csize f then 0 else 1) < fuel"
  shows "\<exists>X. fat_copy fuel env c offset len f =
      Inr (take (unat len) (drop (unat offset) (file_bytes vol f (c # cs))), f\<lparr>fat_clusters := X\<rparr>) \<and>
    fat_ok vol n env (f\<lparr>fat_clusters := X\<rparr>)"
  using assms
proof (induction cs arbitrary: c offset len f fuel)
  case Nil
  then obtain k where k: "fuel = Suc k" by (cases fuel) auto
  note read = read_cluster_ok [OF Nil.prems(1), of c]
  note cl = copy_length_ok [OF Nil.prems(1,4,5), of len]
  let ?m = "min (unat len) (csize f - unat offset)"
  have same: "f\<lparr>fat_clusters := fat_clusters f\<rparr> = f" by simp
  have left: "unat (len - ucast (copy_length len offset f)) = unat len - ?m"
    using cl by (subst unat_sub_nowrap) simp_all
  from next_cluster_ok [OF Nil.prems(1,2)] Nil.prems(3) obtain X where
    X: "next_cluster env c f = Inr (None, f\<lparr>fat_clusters := X\<rparr>)" "fat_ok vol n env (f\<lparr>fat_clusters := X\<rparr>)" by auto
  show ?case
  proof (cases "unat len = 0 \<or> unat len - ?m = 0")
    case True
    with Nil.prems same show ?thesis
      by (intro exI [of _ "fat_clusters f"]) (auto simp: k read cl left word_less_nat_alt Let_def)
  next
    case False
    with Nil.prems X show ?thesis
      by (intro exI [of _ X]) (auto simp: k read cl left word_less_nat_alt Let_def)
  qed
next
  case (Cons d cs)
  then obtain k where k: "fuel = Suc k" by (cases fuel) auto
  note read = read_cluster_ok [OF Cons.prems(1), of c]
  note cl = copy_length_ok [OF Cons.prems(1,4,5), of len]
  note cb = csize_bounds [OF Cons.prems(1)]
  let ?m = "min (unat len) (csize f - unat offset)"
  have same: "f\<lparr>fat_clusters := fat_clusters f\<rparr> = f" by simp
  have left: "unat (len - ucast (copy_length len offset f)) = unat len - ?m"
    using cl by (subst unat_sub_nowrap) simp_all
  show ?case
  proof (cases "unat len = 0 \<or> unat len - ?m = 0")
    case True
    with Cons.prems same show ?thesis
      by (intro exI [of _ "fat_clusters f"]) (auto simp: k read cl left word_less_nat_alt Let_def)
  next
    case False
    then have m: "?m = csize f - unat offset" "csize f - unat offset < unat len" by auto
    from next_cluster_ok [OF Cons.prems(1,2)] Cons.prems(3) obtain X where
      X: "next_cluster env c f = Inr (Some d, f\<lparr>fat_clusters := X\<rparr>)" "fat_ok vol n env (f\<lparr>fat_clusters := X\<rparr>)" by auto
    let ?f = "f\<lparr>fat_clusters := X\<rparr>" and ?len = "len - ucast (copy_length len offset f)"
    have "fat_chain vol ?f (d # cs)" "\<forall>x \<in> set (d # cs). inside n ?f x" "csize ?f < 65536" "unat (0 :: u32) \<le> csize ?f"
      "unat ?len + (if unat (0 :: u32) < csize ?f then 0 else 1) < k"
      using Cons.prems cb(1) m by (auto simp: k left split: if_splits)
    from Cons.IH [OF X(2) this] obtain Y where
      Y: "fat_copy k env d 0 ?len ?f = Inr (take (unat len - ?m) (file_bytes vol f (d # cs)), f\<lparr>fat_clusters := Y\<rparr>)"
        "fat_ok vol n env (f\<lparr>fat_clusters := Y\<rparr>)"
      by (auto simp: left)
    have "take ?m (drop (unat offset) (cluster_bytes vol f c)) @ take (unat len - ?m) (file_bytes vol f (d # cs)) =
        take (unat len) (drop (unat offset) (file_bytes vol f (c # d # cs)))"
      using m Cons.prems(5) by simp
    with False X(1) Y Cons.prems(3,5) m show ?thesis
      by (intro exI [of _ Y]) (simp add: k read cl left word_less_nat_alt Let_def)
  qed
qed

lemma fat_read_data_ok:
  assumes ok: "fat_ok vol n env f" and "fat_chain vol f (inode # cs)" and "\<forall>c \<in> set (inode # cs). inside n f c"
    and "csize f < 65536"
  shows "\<exists>f'. fat_read_data env inode offset len f =
      Inr (take (unat len) (drop (unat offset) (file_bytes vol f (inode # cs))), f') \<and>
    f' = f\<lparr>fat_clusters := fat_clusters f'\<rparr> \<and> fat_ok vol n env f'"
proof -
  define skips where "skips = Suc (unat offset + CHAIN_FUEL)"
  from fat_skip_ok [OF ok assms(2,3), of offset skips] obtain r X where
    skip: "fat_skip skips env inode offset f = Inr (r, f\<lparr>fat_clusters := X\<rparr>)"
    and ok1: "fat_ok vol n env (f\<lparr>fat_clusters := X\<rparr>)"
    and r: "case r of
       None \<Rightarrow> length (file_bytes vol f (inode # cs)) \<le> unat offset
     | Some (c', off) \<Rightarrow> \<exists>cs'. fat_chain vol f (c' # cs') \<and> (\<forall>x \<in> set (c' # cs'). inside n f x) \<and> unat off \<le> csize f \<and>
         drop (unat offset) (file_bytes vol f (inode # cs)) = drop (unat off) (file_bytes vol f (c' # cs'))"
    by (auto simp: skips_def)
  show ?thesis
  proof (cases r)
    case None
    with r skip ok1 show ?thesis
      by (simp add: fat_read_data_def del: fat_skip.simps flip: skips_def)
  next
    case (Some q)
    obtain c off where q: "q = (c, off)" by (cases q)
    from r Some q obtain cs' where cs': "fat_chain vol f (c # cs')" "\<forall>x \<in> set (c # cs'). inside n f x" "unat off \<le> csize f"
      "drop (unat offset) (file_bytes vol f (inode # cs)) = drop (unat off) (file_bytes vol f (c # cs'))" by auto
    define fuel where "fuel = Suc (Suc (unat len + CHAIN_FUEL))"
    have "unat len + (if unat off < csize f then 0 else 1) < fuel" by (simp add: fuel_def)
    with fat_copy_ok [OF ok1, of c cs' off len fuel] cs'(1-3) assms(4) obtain Y where
      "fat_copy fuel env c off len (f\<lparr>fat_clusters := X\<rparr>) =
         Inr (take (unat len) (drop (unat off) (file_bytes vol f (c # cs'))), f\<lparr>fat_clusters := Y\<rparr>)"
      "fat_ok vol n env (f\<lparr>fat_clusters := Y\<rparr>)"
      by auto
    with skip Some q cs'(4) show ?thesis
      by (intro exI [of _ "f\<lparr>fat_clusters := Y\<rparr>"])
        (simp add: fat_read_data_def del: fat_skip.simps flip: fuel_def skips_def)
  qed
qed

text \<open>
  Claim C30. Reading a file through the FAT driver, the disk driver and the drive gives the bytes asked for of
  the clusters of its chain: exactly the range from the offset on, cut at the end of the last cluster. The
  clusters of the table it has kept stay those of the disk.
\<close>

theorem fat_read_data_exact:
  assumes "reads_ok content dev_in" and "begin_disk_sector (hdd_mbr a) (ucast (pno f)) = Inr b"
    and "512 * unat b + n \<le> 512 * LBA28" and "vol = (\<lambda>i. content (drive a) (512 * unat b + i))"
    and "ata_rpc env = ata_process dev_in dev_out a"
    and "fat32esque f \<noteq> 0" and "bytes_per_sector (boot_record f) = 512"
    and "sectors_per_cluster (boot_record f) \<noteq> 0" and "csize f < 65536" and "cache_ok vol f"
    and "fat_chain vol f (inode # cs)" and "\<forall>c \<in> set (inode # cs). inside n f c"
  shows "\<exists>f'. fat_read_data env inode offset len f =
      Inr (take (unat len) (drop (unat offset) (file_bytes vol f (inode # cs))), f') \<and>
    f' = f\<lparr>fat_clusters := fat_clusters f'\<rparr> \<and> cache_ok vol f'"
proof -
  have "served vol n (ucast (pno f)) (ata_rpc env)"
    unfolding assms(4,5) by (rule ata_serves [OF assms(1) [unfolded always_ready] TrueI assms(2,3)])
  then have "fat_ok vol n env f" using assms(3,6-8,10) by (simp add: fat_ok_def)
  from fat_read_data_ok [OF this assms(11,12,9), of offset len] show ?thesis
    by (auto simp: fat_ok_def)
qed

section \<open>A small volume\<close>

text \<open>Table in sector 1, clusters of one sector from sector 2 on; the file of clusters 2 and 3.\<close>

definition demo_vol :: "nat \<Rightarrow> u8" where
  "demo_vol i = (if i = 520 then 3 else if 521 \<le> i \<and> i < 524 then 0 else if 524 \<le> i \<and> i < 528 then 0xFF else of_nat i)"

definition demo_fat :: fat_state where
  "demo_fat = \<lparr>boot_record = \<lparr>bytes_per_sector = 512, sectors_per_cluster = 1, reserved_sectors = 1, fats = 1,
       total_sectors_small = 0, sectors_per_fat = 0, total_sectors_large = 4, ebr_signature = 0, fat_size = 1,
       root_directory_cluster = 2, fat_record_signature = 0x29\<rparr>,
     first_data_sector = 2, first_fat_sector = 1, fat_sectors = 1, fat_type = 32, fat32esque = 1, root_cluster = 2,
     fat_clusters = [], pno = 0, vfs_driver_no = 1\<rparr>"

definition demo_ata :: "(nat \<Rightarrow> u8) ata_driver" where
  "demo_ata = \<lparr>hdd_mbr = pad 512, dma_enabled = False, pio_bmide_base_addr = 0, drive = demo_vol\<rparr>"

definition demo_fat_env :: fat_env where
  "demo_fat_env = \<lparr>ata_rpc = ata_process flat_in flat_out demo_ata, vfs_rpc = (\<lambda>_. Inl Diverges), fresh = pad\<rparr>"

lemma demo_links: "link_of demo_vol demo_fat 2 = 3" "link_of demo_vol demo_fat 3 = 0x0FFFFFFF"
  by (simp_all add: link_of_def u32_of_def demo_vol_def demo_fat_def)

lemma demo_chain: "fat_chain demo_vol demo_fat [2, 3]"
  by (simp add: demo_links)

theorem fat_read_data_exact_witness:
  "\<exists>f'. fat_read_data demo_fat_env 2 510 4 demo_fat = Inr ([0xFE, 0xFF, 0, 1], f')"
proof -
  have b: "begin_disk_sector (hdd_mbr demo_ata) (ucast (pno demo_fat)) = Inr 0"
    by (simp add: begin_disk_sector_def demo_ata_def demo_fat_def get_u32_def pad_def)
  have inside: "\<forall>c \<in> set [2, 3]. inside 2048 demo_fat c"
    by (simp add: inside_def data_sector_def csize_def demo_fat_def)
  have "\<exists>f'. fat_read_data demo_fat_env 2 510 4 demo_fat =
      Inr (take (unat (4 :: u32)) (drop (unat (510 :: u32)) (file_bytes demo_vol demo_fat [2, 3])), f') \<and>
    f' = demo_fat\<lparr>fat_clusters := fat_clusters f'\<rparr> \<and> cache_ok demo_vol f'"
    by (rule fat_read_data_exact [OF flat_ok(1) b, where n = 2048])
      (use demo_chain inside in \<open>simp_all add: LBA28_def demo_ata_def demo_fat_env_def demo_fat_def csize_def cache_ok_def\<close>)
  moreover have "take 4 (drop 510 (file_bytes demo_vol demo_fat [2, 3])) = [0xFE, 0xFF, 0, 1]"
    by (simp add: file_bytes_def cluster_bytes_def drop_append drop_slice take_slice data_sector_def csize_def demo_fat_def)
      (simp add: byte_slice_def demo_vol_def upt_rec)
  ultimately show ?thesis by auto
qed

end
