(* ===== verification/FatDirs.thy ===== *)
theory FatDirs
  imports FatProps
begin

text \<open>
  Directories of a FAT volume: what a lookup by name finds, what the declared layout of a long-name
  entry makes of the name, and what happens at the first long name of a directory.
\<close>

section \<open>Long names\<close>

text \<open>
  A long-name entry as the format lays it out: an ordinal, 5 characters, the attributes, a zero, a checksum,
  6 characters, a zero 16-bit field, 2 characters.
\<close>

definition lfn_entry :: "u8 \<Rightarrow> u8 \<Rightarrow> u16 list \<Rightarrow> bytes" where
  "lfn_entry ordinal checksum cs =
     [ordinal] @ concat (map put_u16 (take 5 cs)) @ [0x0F, 0, checksum] @ concat (map put_u16 (take 6 (drop 5 cs))) @
     [0, 0] @ concat (map put_u16 (drop 11 cs))"

lemma length_Suc_ex: "length xs = Suc n \<longleftrightarrow> (\<exists>y ys. xs = y # ys \<and> length ys = n)"
  by (cases xs) auto

lemma lfn_chars_entry:
  assumes "length cs = 13"
  shows "lfn_chars (lfn_entry ordinal checksum cs) = take 11 cs @
    [push_bit 8 (ucast (ucast (cs ! 11) :: u8)),
     ucast (ucast (drop_bit 8 (cs ! 11)) :: u8) OR push_bit 8 (ucast (ucast (cs ! 12) :: u8))]"
proof -
  obtain a b c d e f g h i j k l m where cs: "cs = [a, b, c, d, e, f, g, h, i, j, k, l, m]"
    using assms by (auto simp: numeral_eq_Suc length_Suc_ex)
  show ?thesis
    by (simp add: cs lfn_chars_def lfn_entry_def u16_at_def put_u16_def join_u16)
qed

lemma append_portions_ok:
  "string_ok s t \<Longrightarrow> length t + length cs + 2 < 2 ^ 32 \<Longrightarrow>
   \<exists>s'. append_portions cs s = Inr s' \<and> string_ok s' (t @ map ucast (filter (\<lambda>c. c < 0x80) cs))"
proof (induction cs arbitrary: s t)
  case (Cons c cs)
  show ?case
  proof (cases "c < 0x80")
    case True
    have "(0x7F :: u16) = mask 7" by (simp add: mask_eq_exp_minus_1)
    moreover have "take_bit 7 c = c" using True by (simp add: take_bit_word_eq_self word_less_nat_alt take_bit_eq_mod unat_mod word_eq_unat)
    ultimately have low: "(c AND 0x7F) = c" by (simp add: take_bit_eq_mask)
    from string_append_char_ok [OF Cons.prems(1)] Cons.prems(2) obtain s1 where
      s1: "string_append_char s (ucast c) = Inr s1" "string_ok s1 (t @ [ucast c])" by auto
    from Cons.IH [OF s1(2)] Cons.prems(2) s1(1) True show ?thesis by (simp add: low)
  next
    case False
    with Cons show ?thesis by simp
  qed
qed auto

text \<open>
  The declared entry has one byte where the format has two, so the last two characters are read one
  byte early: of the 13 ASCII characters of a long-name entry only the first 11 reach the name.
\<close>

theorem lfn_loses_two_characters:
  assumes "length cs = 13" and "\<forall>c \<in> set cs. 0 < c \<and> c < 0x80"
  shows "\<exists>s. append_portions (lfn_chars (lfn_entry ordinal checksum cs)) string_new = Inr s \<and>
    string_ok s (map ucast (take 11 cs))"
proof -
  have "cs ! 11 \<in> set cs" "cs ! 12 \<in> set cs" using assms(1) by simp_all
  then have small: "0 < unat (cs ! 11)" "unat (cs ! 11) < 128" "0 < unat (cs ! 12)" "unat (cs ! 12) < 128"
    using assms(2) by (auto simp: word_less_nat_alt)
  have b: "unat (ucast c :: u8) = unat c" "unat (ucast (ucast c :: u8) :: u16) = unat c" if "unat c < 128" for c :: u16
    using that by (simp_all add: unsigned_ucast_eq unsigned_take_bit_eq take_bit_nat_eq_self)
  have big: "unat (push_bit 8 (ucast (ucast c :: u8) :: u16)) = 256 * unat c" if "unat c < 128" for c :: u16
    using that b [OF that] by (simp add: push_bit_eq_mult unat_word_ariths)
  have "drop_bit 8 (cs ! 11) = 0" using small by (simp add: word_eq_unat drop_bit_eq_div unat_div)
  then have "\<not> push_bit 8 (ucast (ucast (cs ! 11) :: u8) :: u16) < 0x80"
    "\<not> (ucast (ucast (drop_bit 8 (cs ! 11)) :: u8) OR push_bit 8 (ucast (ucast (cs ! 12) :: u8)) :: u16) < 0x80"
    using small by (simp_all add: word_less_nat_alt big)
  moreover have "filter (\<lambda>c. c < 0x80) (take 11 cs) = take 11 cs"
    using assms(2) by (auto simp: filter_id_conv dest: in_set_takeD)
  ultimately have f: "filter (\<lambda>c. c < 0x80) (lfn_chars (lfn_entry ordinal checksum cs)) = take 11 cs"
    by (simp add: lfn_chars_entry [OF assms(1)])
  show ?thesis
    using append_portions_ok [OF string_ok_new, of "lfn_chars (lfn_entry ordinal checksum cs)"]
    unfolding f by (simp add: lfn_chars_def)
qed

theorem lfn_loses_two_characters_witness:
  "\<exists>s. append_portions (lfn_chars (lfn_entry 0x41 7 [65, 66, 67, 68, 69, 70, 71, 72, 73, 74, 75, 76, 77])) string_new = Inr s \<and>
     string_ok s [65, 66, 67, 68, 69, 70, 71, 72, 73, 74, 75]"
  using lfn_loses_two_characters [of "[65, 66, 67, 68, 69, 70, 71, 72, 73, 74, 75, 76, 77]" "0x41" 7] by simp

section \<open>Chains end\<close>

lemma fat_chain_unique: "fat_chain vol f (c # cs) \<Longrightarrow> fat_chain vol f (c # ds) \<Longrightarrow> cs = ds"
proof (induction cs arbitrary: c ds)
  case Nil
  then show ?case by (cases ds) (auto simp: word_le_nat_alt word_less_nat_alt)
next
  case (Cons d cs)
  then show ?case by (cases ds) (auto simp: word_le_nat_alt word_less_nat_alt)
qed

lemma fat_chain_suffix: "fat_chain vol f (xs @ c # cs) \<Longrightarrow> fat_chain vol f (c # cs)"
proof (induction xs)
  case (Cons x xs)
  then show ?case by (cases xs) auto
qed simp

lemma fat_chain_distinct: "fat_chain vol f (c # cs) \<Longrightarrow> distinct (c # cs)"
proof (induction cs arbitrary: c)
  case (Cons d cs)
  have "c \<notin> set (d # cs)"
  proof
    assume "c \<in> set (d # cs)"
    then obtain xs ys where split: "d # cs = xs @ c # ys" by (meson split_list)
    with Cons.prems have "fat_chain vol f (c # ys)" using fat_chain_suffix [of vol f "c # xs" c ys] by simp
    with fat_chain_unique [OF Cons.prems] have "ys = d # cs" by simp
    with split show False by simp
  qed
  moreover have "distinct (d # cs)" using Cons.prems by (intro Cons.IH) simp
  ultimately show ?case by simp
qed simp

lemma fat_chain_range: "fat_chain vol f (c # cs) \<Longrightarrow> x \<in> set cs \<Longrightarrow> unat x < CHAIN_FUEL"
  by (induction cs arbitrary: c) (auto simp: word_less_nat_alt CHAIN_FUEL_def)

lemma fat_chain_length: "fat_chain vol f (c # cs) \<Longrightarrow> length cs \<le> CHAIN_FUEL"
proof -
  assume chain: "fat_chain vol f (c # cs)"
  then have "distinct cs" using fat_chain_distinct by fastforce
  then have "distinct (map unat cs)" by (simp add: distinct_map inj_on_def word_unat_eq_iff)
  then have "length cs = card (set (map unat cs))" by (metis distinct_card length_map)
  also have "\<dots> \<le> card {..<CHAIN_FUEL}" using fat_chain_range [OF chain] by (intro card_mono) auto
  finally show ?thesis by simp
qed

section \<open>Looking up a short name\<close>

definition chunk :: "bytes \<Rightarrow> nat \<Rightarrow> fat_dirent" where
  "chunk buf i = take 32 (drop (32 * i) buf)"

text \<open>The entries of a cluster that are files or directories, up to the end marker.\<close>

definition used_from :: "bytes \<Rightarrow> nat \<Rightarrow> nat \<Rightarrow> fat_dirent list" where
  "used_from buf i k = takeWhile (\<lambda>fd. fd ! 0 \<noteq> 0) (map (chunk buf) [i..<i + k])"

definition is_file :: "fat_dirent \<Rightarrow> bool" where
  "is_file fd \<longleftrightarrow> fd ! 0 \<noteq> 0xe5 \<and> fd_attributes fd AND FAT_VOLUME_ID = 0"

definition dir_files :: "bytes \<Rightarrow> fat_dirent list" where
  "dir_files buf = filter is_file (used_from buf 0 DIRENTS)"

definition short_only :: "fat_dirent list \<Rightarrow> bool" where
  "short_only fds \<longleftrightarrow> (\<forall>fd \<in> set fds. fd ! 0 = 0xe5 \<or> fd_attributes fd \<noteq> 0x0F)"

lemma used_from_Suc:
  "used_from buf i (Suc k) = (if chunk buf i ! 0 \<noteq> 0 then chunk buf i # used_from buf (i + 1) k else [])"
  by (simp add: used_from_def upt_conv_Cons del: upt_Suc)

lemma long_attributes: "FAT_READ_ONLY OR FAT_HIDDEN OR FAT_SYSTEM OR FAT_VOLUME_ID = (0x0F :: u8)"
  by (simp add: fat_attr_defs)

lemma lfn_clear_empty: "\<exists>s. lfn_clear = Inr s \<and> st_length s = 0"
  by (simp add: lfn_clear_def string_of_c_def string_assign_def memcpy_from_def)

lemma scan_entries_short:
  assumes acc: "\<And>fd lfn. st_length lfn = 0 \<Longrightarrow> accept fd lfn () = Inr (if P fd then Found (g fd) else Step ())"
    and "st_length lfn = 0" and "32 * (i + k) \<le> length buf" and "short_only (used_from buf i k)"
  shows "\<exists>lfn'. scan_entries accept buf i k () lfn =
      Inr (case find P (filter is_file (used_from buf i k)) of Some fd \<Rightarrow> Found (g fd) | None \<Rightarrow> Step (), lfn') \<and>
    st_length lfn' = 0"
  using assms(2-4)
proof (induction k arbitrary: i lfn)
  case 0
  then show ?case by (simp add: used_from_def)
next
  case (Suc k)
  let ?fd = "chunk buf i"
  have fd: "dirent_at buf i = Inr ?fd" using Suc.prems(2) by (simp add: dirent_at_def chunk_def)
  obtain e where e: "lfn_clear = Inr e" "st_length e = 0" using lfn_clear_empty by blast
  have IH: "\<exists>lfn'. scan_entries accept buf (i + 1) k () l =
        Inr (case find P (filter is_file (used_from buf (i + 1) k)) of Some fd \<Rightarrow> Found (g fd) | None \<Rightarrow> Step (), lfn') \<and>
      st_length lfn' = 0" if "st_length l = 0" and "?fd ! 0 \<noteq> 0" for l
    using Suc.prems that by (intro Suc.IH) (auto simp: used_from_Suc short_only_def)
  consider "?fd ! 0 = 0" | "?fd ! 0 = 0xe5" | "?fd ! 0 \<noteq> 0" "?fd ! 0 \<noteq> 0xe5" by blast
  then show ?case
  proof cases
    case 1
    then show ?thesis using fd Suc.prems(1) by (simp add: used_from_Suc)
  next
    case 2
    then have "\<not> is_file ?fd" by (simp add: is_file_def)
    then show ?thesis using 2 fd IH [OF Suc.prems(1)] by (simp add: used_from_Suc)
  next
    case 3
    then have "fd_attributes ?fd \<noteq> 0x0F" using Suc.prems(3) by (auto simp: used_from_Suc short_only_def)
    moreover have "is_file ?fd \<longleftrightarrow> fd_attributes ?fd AND FAT_VOLUME_ID = 0" using 3 by (simp add: is_file_def)
    ultimately show ?thesis
      using 3 fd IH [OF Suc.prems(1)] IH [OF e(2)] acc [OF Suc.prems(1), of ?fd] Suc.prems(1)
      by (auto simp: used_from_Suc long_attributes e(1))
  qed
qed

lemma scan_chain_short:
  assumes acc: "\<And>fd lfn. st_length lfn = 0 \<Longrightarrow> accept fd lfn () = Inr (if P fd then Found (g fd) else Step ())"
    and "fat_ok vol n env f" and "csize f = 4096" and "fat_chain vol f (c # cs)" and "\<forall>x \<in> set (c # cs). inside n f x"
    and "\<forall>x \<in> set (c # cs). short_only (used_from (cluster_bytes vol f x) 0 DIRENTS)"
    and "st_length lfn = 0" and "length cs < fuel"
  shows "\<exists>X. scan_chain fuel env accept c () lfn f =
      Inr (map_option g (find P (concat (map (\<lambda>x. dir_files (cluster_bytes vol f x)) (c # cs)))), f\<lparr>fat_clusters := X\<rparr>) \<and>
    fat_ok vol n env (f\<lparr>fat_clusters := X\<rparr>)"
  using assms(2-)
proof (induction cs arbitrary: c lfn f fuel)
  case Nil
  then obtain k where k: "fuel = Suc k" by (cases fuel) auto
  have read: "fat_read_cluster env c f = Inr (cluster_bytes vol f c)" using Nil.prems by (intro read_cluster_ok) auto
  obtain lfn' where scan: "scan_entries accept (cluster_bytes vol f c) 0 DIRENTS () lfn =
      Inr (case find P (dir_files (cluster_bytes vol f c)) of Some fd \<Rightarrow> Found (g fd) | None \<Rightarrow> Step (), lfn')"
    using scan_entries_short [of accept P g lfn 0 DIRENTS "cluster_bytes vol f c", OF acc] Nil.prems
    by (auto simp: dir_files_def DIRENTS_def)
  obtain X where X: "next_cluster env c f = Inr (None, f\<lparr>fat_clusters := X\<rparr>)" "fat_ok vol n env (f\<lparr>fat_clusters := X\<rparr>)"
    using next_cluster_ok [OF Nil.prems(1,3)] Nil.prems(4) by auto
  have same: "f\<lparr>fat_clusters := fat_clusters f\<rparr> = f" by simp
  show ?case
  proof (cases "find P (dir_files (cluster_bytes vol f c))")
    case None
    with X show ?thesis by (intro exI [of _ X]) (simp add: k read scan)
  next
    case (Some fd)
    with same Nil.prems(1) show ?thesis by (intro exI [of _ "fat_clusters f"]) (simp add: k read scan)
  qed
next
  case (Cons d cs)
  then obtain k where k: "fuel = Suc k" by (cases fuel) auto
  have read: "fat_read_cluster env c f = Inr (cluster_bytes vol f c)" using Cons.prems by (intro read_cluster_ok) auto
  obtain lfn' where scan: "scan_entries accept (cluster_bytes vol f c) 0 DIRENTS () lfn =
      Inr (case find P (dir_files (cluster_bytes vol f c)) of Some fd \<Rightarrow> Found (g fd) | None \<Rightarrow> Step (), lfn')"
      "st_length lfn' = 0"
    using scan_entries_short [of accept P g lfn 0 DIRENTS "cluster_bytes vol f c", OF acc] Cons.prems
    by (auto simp: dir_files_def DIRENTS_def)
  obtain X where X: "next_cluster env c f = Inr (Some d, f\<lparr>fat_clusters := X\<rparr>)" "fat_ok vol n env (f\<lparr>fat_clusters := X\<rparr>)"
    using next_cluster_ok [OF Cons.prems(1,3)] Cons.prems(4) by auto
  have same: "f\<lparr>fat_clusters := fat_clusters f\<rparr> = f" by simp
  show ?case
  proof (cases "find P (dir_files (cluster_bytes vol f c))")
    case None
    let ?f = "f\<lparr>fat_clusters := X\<rparr>"
    have "csize ?f = 4096" "fat_chain vol ?f (d # cs)" "\<forall>x \<in> set (d # cs). inside n ?f x"
      "\<forall>x \<in> set (d # cs). short_only (used_from (cluster_bytes vol ?f x) 0 DIRENTS)" "length cs < k"
      using Cons.prems by (auto simp: k)
    from Cons.IH [OF X(2) this(1-4) scan(2) this(5)] None X show ?thesis by (auto simp: k read scan find_append)
  next
    case (Some fd)
    with same Cons.prems(1) show ?thesis by (intro exI [of _ "fat_clusters f"]) (simp add: k read scan find_append)
  qed
qed

section \<open>fat_finddir\<close>

definition short_name :: "fat_dirent \<Rightarrow> bytes" where
  "short_name fd =
     (let base = takeWhile (\<lambda>c. c > 0x20) (take 8 (fd_filename fd));
          ext = takeWhile (\<lambda>c. c > 0x20) (take 3 (drop 8 (fd_filename fd))) in
      base @ (if ext \<noteq> [] then 46 # ext else []))"

lemma get_filename_cstring: "cstring (get_filename fd) (short_name fd)"
proof -
  have "0 \<notin> set (takeWhile (\<lambda>c. c > (0x20 :: u8)) xs)" for xs by (auto dest: set_takeWhileD)
  then show ?thesis by (auto simp: cstring_def get_filename_def short_name_def Let_def)
qed

definition node_of :: "fat_env \<Rightarrow> u32 \<Rightarrow> bytes \<Rightarrow> fat_dirent \<Rightarrow> vfs_node" where
  "node_of env driver t fd =
     \<lparr>node_name = t @ 0 # drop (Suc (length t)) (take sizeof_name (fresh env sizeof_name)),
      node_flags = (if fd_attributes fd AND FAT_DIRECTORY \<noteq> 0 then VFS_DIRECTORY else VFS_FILE),
      node_inode = entry_inode fd, node_length = fd_size fd, node_impl = 0, node_driver = driver\<rparr>"

lemma new_name_ok:
  "cstring name t \<Longrightarrow> length t < sizeof_name \<Longrightarrow> sizeof_name \<le> length (fresh env sizeof_name) \<Longrightarrow>
   new_name env name = Inr (t @ 0 # drop (Suc (length t)) (take sizeof_name (fresh env sizeof_name)))"
  by (simp add: new_name_def strcpy_cstring)

lemma finddir_accept_ok:
  assumes "cstring name t" and "length t < sizeof_name" and "sizeof_name \<le> length (fresh env sizeof_name)"
    and "st_length lfn = 0"
  shows "finddir_accept env driver name fd lfn () =
    Inr (if short_name fd = t then Found (node_of env driver t fd) else Step ())"
proof -
  obtain r where "strcmp (get_filename fd) name = Inr r" "r = 0 \<longleftrightarrow> short_name fd = t"
    using strcmp_eq [OF get_filename_cstring assms(1)] by blast
  then show ?thesis
    using new_name_ok [OF assms(1-3)] assms(4)
    by (simp add: finddir_accept_def entry_name_def node_of_def)
qed

lemma is_dots_ok:
  assumes "cstring name t"
  shows "is_dots name = Inr (t = [46] \<or> t = [46, 46])"
proof -
  have "cstring [46, 0] [46]" "cstring [46, 46, 0] [46, 46]" by (simp_all add: cstring_def)
  from strcmp_eq [OF assms this(1)] strcmp_eq [OF assms this(2)] show ?thesis
    by (auto simp: is_dots_def)
qed

lemma fat_finddir_ok:
  assumes "fat_ok vol n env f" and "csize f = 4096"
    and "fat_chain vol f (cluster_for_inode inode f # cs)" and "\<forall>x \<in> set (cluster_for_inode inode f # cs). inside n f x"
    and "\<forall>x \<in> set (cluster_for_inode inode f # cs). short_only (used_from (cluster_bytes vol f x) 0 DIRENTS)"
    and "cstring name t" and "length t < sizeof_name" and "sizeof_name \<le> length (fresh env sizeof_name)"
    and "inode \<noteq> 0 \<or> t \<noteq> [46] \<and> t \<noteq> [46, 46]"
  shows "\<exists>f'. fat_finddir env inode name f =
      Inr (map_option (node_of env (vfs_driver_no f) t) (find (\<lambda>fd. short_name fd = t)
        (concat (map (\<lambda>x. dir_files (cluster_bytes vol f x)) (cluster_for_inode inode f # cs)))), f') \<and>
    f' = f\<lparr>fat_clusters := fat_clusters f'\<rparr> \<and> fat_ok vol n env f'"
proof -
  have fuel: "length cs < Suc CHAIN_FUEL" using fat_chain_length [OF assms(3)] by simp
  have dots: "(if inode = 0 then is_dots name else Inr False) = Inr False"
    using assms(9) is_dots_ok [OF assms(6)] by auto
  note acc = finddir_accept_ok [OF assms(6-8)]
  have "st_length string_new = 0" by (simp add: string_new_def)
  from scan_chain_short [where accept = "finddir_accept env (vfs_driver_no f) name" and P = "\<lambda>fd. short_name fd = t"
      and g = "node_of env (vfs_driver_no f) t", OF acc assms(1-5) this fuel] obtain X where
    "scan_chain (Suc CHAIN_FUEL) env (finddir_accept env (vfs_driver_no f) name) (cluster_for_inode inode f) () string_new f =
       Inr (map_option (node_of env (vfs_driver_no f) t) (find (\<lambda>fd. short_name fd = t)
         (concat (map (\<lambda>x. dir_files (cluster_bytes vol f x)) (cluster_for_inode inode f # cs)))), f\<lparr>fat_clusters := X\<rparr>)"
    "fat_ok vol n env (f\<lparr>fat_clusters := X\<rparr>)" by blast
  with dots show ?thesis
    by (intro exI [of _ "f\<lparr>fat_clusters := X\<rparr>"]) (simp add: fat_finddir_def del: scan_chain.simps)
qed

text \<open>
  In a directory without long names, \<open>fat_finddir\<close> finds the first file or directory of the
  clusters of the directory whose name is the one asked for, with its kind, first cluster and size, and nothing
  when there is none; deleted entries, volume labels and what follows an end marker in a cluster do not count.
\<close>

theorem fat_finddir_first:
  assumes "fat_ok vol n env f" and "csize f = 4096"
    and "fat_chain vol f (cluster_for_inode inode f # cs)" and "\<forall>x \<in> set (cluster_for_inode inode f # cs). inside n f x"
    and "\<forall>x \<in> set (cluster_for_inode inode f # cs). short_only (used_from (cluster_bytes vol f x) 0 DIRENTS)"
    and "cstring name t" and "length t < sizeof_name" and "sizeof_name \<le> length (fresh env sizeof_name)"
    and "inode \<noteq> 0 \<or> t \<noteq> [46] \<and> t \<noteq> [46, 46]"
  shows "\<exists>f'. fat_finddir env inode name f =
      Inr (map_option (node_of env (vfs_driver_no f) t) (find (\<lambda>fd. short_name fd = t)
        (concat (map (\<lambda>x. dir_files (cluster_bytes vol f x)) (cluster_for_inode inode f # cs)))), f') \<and>
    f' = f\<lparr>fat_clusters := fat_clusters f'\<rparr> \<and> fat_ok vol n env f'"
  by (rule fat_finddir_ok [OF assms])

section \<open>A small directory\<close>

text \<open>Table in sector 1, clusters of 4 KiB; cluster 2, from sector 2 on, is the root directory with one file.\<close>

definition dir_vol :: "u16 \<Rightarrow> u16 \<Rightarrow> u32 \<Rightarrow> nat \<Rightarrow> u8" where
  "dir_vol high low len i =
     (if 520 \<le> i \<and> i < 528 then 0xFF
      else if 1024 \<le> i \<and> i < 1056
      then ([82, 69, 65, 68, 77, 69, 32, 32, 84, 88, 84, 0x20] @ pad 8 @ put_u16 high @ pad 4 @ put_u16 low @ put_u32 len) ! (i - 1024)
      else if 5120 \<le> i \<and> i < 5125 then [72, 69, 76, 76, 79] ! (i - 5120)
      else 0)"

definition dir_fat :: fat_state where
  "dir_fat = demo_fat\<lparr>boot_record := (boot_record demo_fat)\<lparr>sectors_per_cluster := 8\<rparr>\<rparr>"

definition dir_env :: "(nat \<Rightarrow> u8) \<Rightarrow> fat_env" where
  "dir_env vol = \<lparr>ata_rpc = ata_process flat_in flat_out (demo_ata\<lparr>drive := vol\<rparr>), vfs_rpc = (\<lambda>_. Inl Diverges), fresh = pad\<rparr>"

lemma dir_ok: "fat_ok vol 16384 (dir_env vol) dir_fat"
proof -
  have b: "begin_disk_sector (hdd_mbr (demo_ata\<lparr>drive := vol\<rparr>)) 0 = Inr 0"
    by (simp add: begin_disk_sector_def demo_ata_def get_u32_def pad_def)
  have "served (\<lambda>i. drive (demo_ata\<lparr>drive := vol\<rparr>) (512 * unat (0 :: u32) + i)) 16384 0
      (ata_process flat_in flat_out (demo_ata\<lparr>drive := vol\<rparr>))"
    by (rule ata_serves [OF flat_ok(1) [unfolded always_ready] TrueI b]) (simp add: LBA28_def)
  then show ?thesis
    by (simp add: fat_ok_def dir_fat_def demo_fat_def dir_env_def LBA28_def cache_ok_def)
qed

lemma dir_cluster: "chunk (cluster_bytes (dir_vol high low len) dir_fat 2) i = (if i < 128 then byte_slice (dir_vol high low len) (1024 + 32 * i) 32 else [])"
  by (auto simp: chunk_def cluster_bytes_def data_sector_def csize_def dir_fat_def demo_fat_def drop_slice take_slice)

lemma dir_used: "used_from (cluster_bytes (dir_vol high low len) dir_fat 2) 0 DIRENTS = [byte_slice (dir_vol high low len) 1024 32]"
proof -
  have "[0..<0 + DIRENTS] = 0 # 1 # [2..<128]" by (simp add: DIRENTS_def upt_conv_Cons)
  then show ?thesis by (simp add: used_from_def dir_cluster dir_vol_def)
qed

lemma dir_entry: "byte_slice (dir_vol high low len) 1024 32 =
  [82, 69, 65, 68, 77, 69, 32, 32, 84, 88, 84, 0x20] @ pad 8 @ put_u16 high @ pad 4 @ put_u16 low @ put_u32 len"
  by (rule nth_equalityI) (simp_all add: dir_vol_def)

lemma dir_entry_fields:
  "entry_inode (byte_slice (dir_vol high low len) 1024 32) = push_bit 16 (ucast high) OR ucast low"
  "fd_size (byte_slice (dir_vol high low len) 1024 32) = len"
  "fd_attributes (byte_slice (dir_vol high low len) 1024 32) = 0x20"
proof -
  let ?b = "byte_slice (dir_vol high low len) 1024 32"
  have "u16_at ?b 20 = high" "u16_at ?b 26 = low"
    by (simp_all add: dir_entry u16_at_def nth_append put_u16_def join_u16)
  then show "entry_inode ?b = push_bit 16 (ucast high) OR ucast low"
    by (simp add: entry_inode_def first_cluster_high_def first_cluster_low_def)
  have "u16_at ?b 28 = ucast len" "u16_at ?b 30 = ucast (drop_bit 16 len)"
    by (simp_all add: dir_entry u16_at_def nth_append put_u16_def put_u32_def)
      (rule bit_word_eqI; auto simp: bit_simps)+
  moreover have "(ucast (ucast len :: u16) OR push_bit 16 (ucast (ucast (drop_bit 16 len) :: u16)) :: u32) = len"
    by (rule bit_word_eqI) (auto simp: bit_simps)
  ultimately show "fd_size ?b = len" by (simp add: fd_size_def)
  show "fd_attributes ?b = 0x20" by (simp add: dir_entry fd_attributes_def)
qed

theorem fat_finddir_first_witness:
  "\<exists>node f'. fat_finddir (dir_env (dir_vol 1 5 77)) 0 [82, 69, 65, 68, 77, 69, 46, 84, 88, 84, 0] dir_fat = Inr (Some node, f') \<and>
     node_inode node = 0x10005 \<and> node_length node = 77 \<and> node_flags node = VFS_FILE"
proof -
  let ?vol = "dir_vol 1 5 77"
  let ?name = "[82, 69, 65, 68, 77, 69, 46, 84, 88, 84] :: bytes"
  have c: "cluster_for_inode 0 dir_fat = 2" by (simp add: cluster_for_inode_def dir_fat_def demo_fat_def)
  have chain: "fat_chain ?vol dir_fat [2]"
    by (simp add: link_of_def u32_of_def dir_vol_def dir_fat_def demo_fat_def)
  have inside: "\<forall>x \<in> set [2]. inside 16384 dir_fat x"
    by (simp add: inside_def data_sector_def csize_def dir_fat_def demo_fat_def)
  have size: "csize dir_fat = 4096" by (simp add: csize_def dir_fat_def demo_fat_def)
  have short: "\<forall>x \<in> set [2]. short_only (used_from (cluster_bytes ?vol dir_fat x) 0 DIRENTS)"
    by (simp add: short_only_def dir_used dir_entry fd_attributes_def)
  have "cstring (?name @ [0]) ?name" by (simp add: cstring_def)
  from fat_finddir_first [of ?vol 16384 "dir_env ?vol" dir_fat 0 "[]", unfolded c, OF dir_ok size chain inside short this]
  obtain f' where "fat_finddir (dir_env ?vol) 0 (?name @ [0]) dir_fat =
      Inr (map_option (node_of (dir_env ?vol) (vfs_driver_no dir_fat) ?name)
        (find (\<lambda>fd. short_name fd = ?name) (dir_files (cluster_bytes ?vol dir_fat 2))), f')"
    by (auto simp: sizeof_name_def dir_env_def)
  moreover have "find (\<lambda>fd. short_name fd = ?name) (dir_files (cluster_bytes ?vol dir_fat 2)) = Some (byte_slice ?vol 1024 32)"
    by (simp add: dir_files_def dir_used dir_entry is_file_def fd_attributes_def fat_attr_defs short_name_def fd_filename_def)
  ultimately show ?thesis
    by (simp add: node_of_def dir_entry_fields fat_attr_defs)
qed

end
