(* ===== verification/Vfs.thy ===== *)
theory Vfs
  imports VfsProto "HOL-Library.Multiset"
begin

text \<open>
  \<^verbatim>\<open>src/packages/vfs/main.cpp\<close>: the file-system server. A request is a message with its sender, its id and its
  bytes; handling one gives the new state and the messages sent, each a receiver, the id it replies to and its
  data. \<open>rpc pid request\<close> acts on the state of the other processes and gives the data of the reply of one of
  them. A request to the server itself is never answered, since it waits for the answer.
\<close>

section \<open>State\<close>

record vfs_driver =
  driver_name :: bytes
  driver_pid :: u32

record vfs =
  drivers :: "vfs_driver list"
  vfs_root :: "vfs_node option"
  awaiting_root :: "(u32 \<times> u32) list"
  vfs_self :: u32

record message =
  info_from :: u32
  info_id :: u32
  info_data :: bytes

type_synonym sent = "u32 \<times> u32 \<times> bytes"
type_synonym 's rpc = "u32 \<Rightarrow> bytes \<Rightarrow> 's \<Rightarrow> (bytes \<times> 's) result"

definition call_driver :: "'s rpc \<Rightarrow> vfs \<Rightarrow> u32 \<Rightarrow> bytes \<Rightarrow> 's \<Rightarrow> (bytes \<times> 's) result" where
  "call_driver rpc v pid request s = (if pid = vfs_self v then Inl Diverges else rpc pid request s)"

section \<open>Calls of a driver\<close>

definition pidForDriver :: "vfs \<Rightarrow> u32 \<Rightarrow> u32 result" where
  "pidForDriver v driver =
     (if unat driver < length (drivers v) then Inr (driver_pid (drivers v ! unat driver)) else Inl OutOfBounds)"

definition root_pid :: "vfs \<Rightarrow> u32 result" where
  "root_pid v = (case vfs_root v of None \<Rightarrow> Inl NullDeref | Some r \<Rightarrow> pidForDriver v (node_driver r))"

definition fs_read :: "'s rpc \<Rightarrow> vfs \<Rightarrow> u32 \<Rightarrow> u32 \<Rightarrow> u32 \<Rightarrow> u32 \<Rightarrow> 's \<Rightarrow> (bytes \<times> 's) result" where
  "fs_read rpc v pid inode offset len s =
     rbind (call_driver rpc v pid (VFSOpRead inode offset len) s) (\<lambda>(reply, s').
     if length reply > unat len then Inl (UserPanic ''VFS: fs read not expected number of bytes back?'')
     else Inr (reply, s'))"

definition fs_readdir :: "'s rpc \<Rightarrow> vfs \<Rightarrow> u32 \<Rightarrow> u32 \<Rightarrow> u32 \<Rightarrow> 's \<Rightarrow> (vfs_dirent option \<times> 's) result" where
  "fs_readdir rpc v pid inode index s =
     rbind (call_driver rpc v pid (VFSOpReaddir inode index) s) (\<lambda>(reply, s').
     if reply = [] then Inr (None, s')
     else if length reply \<noteq> sizeof_VFSDirent then Inl (UserPanic ''VFS: fs read not expected number of bytes back?'')
     else rbind (get_dirent reply) (\<lambda>d. Inr (Some d, s')))"

fun c_string :: "bytes \<Rightarrow> bytes result" where
  "c_string [] = Inl OutOfBounds"
| "c_string (c # s) = (if c = 0 then Inr [] else rbind (c_string s) (\<lambda>r. Inr (c # r)))"

definition fs_finddir :: "'s rpc \<Rightarrow> vfs \<Rightarrow> u32 \<Rightarrow> u32 \<Rightarrow> bytes \<Rightarrow> 's \<Rightarrow> (vfs_node option \<times> 's) result" where
  "fs_finddir rpc v pid inode name s =
     rbind (c_string name) (\<lambda>n.
     rbind (call_driver rpc v pid (VFSOpFinddir inode n) s) (\<lambda>(reply, s').
     if reply = [] then Inr (None, s')
     else if length reply \<noteq> sizeof_VFSNode then Inl (UserPanic ''VFS: fs read not expected number of bytes back?'')
     else rbind (get_node reply) (\<lambda>d. Inr (Some d, s'))))"

section \<open>Requests\<close>

definition vfs_start :: "u32 \<Rightarrow> bytes \<Rightarrow> vfs result" where
  "vfs_start self stack =
     rbind (strcpy (take sizeof_name stack) [110, 117, 108, 108, 32, 100, 114, 105, 118, 101, 114, 0]) (\<lambda>name.
     Inr \<lparr>drivers = [\<lparr>driver_name = name, driver_pid = self\<rparr>], vfs_root = None, awaiting_root = [], vfs_self = self\<rparr>)"

definition reply_to :: "message \<Rightarrow> bytes \<Rightarrow> sent" where
  "reply_to m data = (info_from m, info_id m, data)"

definition vfs_register :: "bytes \<Rightarrow> message \<Rightarrow> vfs \<Rightarrow> (vfs \<times> sent list) result" where
  "vfs_register stack m v =
     rbind (strcpy (take sizeof_name stack) (drop 1 (info_data m))) (\<lambda>name.
     let v' = v\<lparr>drivers := drivers v @ [\<lparr>driver_name = name, driver_pid = info_from m\<rparr>]\<rparr> in
     Inr (v', [reply_to m (VFSReplyRegisterDriver True (of_nat (length (drivers v')) - 1))]))"

definition vfs_mount_root :: "vfs_node \<Rightarrow> message \<Rightarrow> vfs \<Rightarrow> (vfs \<times> sent list) result" where
  "vfs_mount_root new m v =
     (if vfs_root v \<noteq> None then Inl (UserPanic ''VFS: already have a root!'')
      else rbind (strcpy (node_name new) [114, 111, 111, 116, 32, 40, 47, 41, 0]) (\<lambda>name.
           rbind (get_u32 (info_data m) 4) (\<lambda>driver. rbind (get_u32 (info_data m) 8) (\<lambda>inode.
           Inr (v\<lparr>vfs_root := Some (new\<lparr>node_name := name, node_driver := driver, node_inode := inode\<rparr>), awaiting_root := []\<rparr>,
                reply_to m [1] # map (\<lambda>(pid, msg_id). (pid, msg_id, [])) (awaiting_root v))))))"

definition vfs_await_root :: "message \<Rightarrow> vfs \<Rightarrow> vfs \<times> sent list" where
  "vfs_await_root m v =
     (if vfs_root v \<noteq> None then (v, [reply_to m []])
      else (v\<lparr>awaiting_root := awaiting_root v @ [(info_from m, info_id m)]\<rparr>, []))"

text \<open>\<open>stack\<close> and \<open>new\<close>: what the memory of a local \<open>VFSDriver\<close> and of a new \<open>VFSNode\<close> holds.\<close>

definition vfs_handle ::
  "'s rpc \<Rightarrow> bytes \<Rightarrow> vfs_node \<Rightarrow> message \<Rightarrow> vfs \<Rightarrow> 's \<Rightarrow> (vfs \<times> sent list \<times> 's) result" where
  "vfs_handle rpc stack new m v s =
     (let request = info_data m in
      rbind (get_u8 request 0) (\<lambda>cmd.
      if cmd = VFS_OP_READ
      then rbind (get_u32 request 4) (\<lambda>inode. rbind (get_u32 request 8) (\<lambda>offset. rbind (get_u32 request 12) (\<lambda>len.
           rbind (root_pid v) (\<lambda>pid. rbind (fs_read rpc v pid inode offset len s) (\<lambda>(buffer, s').
           Inr (v, [reply_to m buffer], s'))))))
      else if cmd = VFS_OP_READDIR
      then rbind (get_u32 request 4) (\<lambda>inode. rbind (get_u32 request 8) (\<lambda>index.
           rbind (root_pid v) (\<lambda>pid. rbind (fs_readdir rpc v pid inode index s) (\<lambda>(dirent, s').
           Inr (v, [reply_to m (case dirent of None \<Rightarrow> [] | Some d \<Rightarrow> put_dirent d)], s')))))
      else if cmd = VFS_OP_FINDDIR
      then rbind (get_u32 request 4) (\<lambda>inode.
           rbind (root_pid v) (\<lambda>pid. rbind (fs_finddir rpc v pid inode (drop 8 request) s) (\<lambda>(node, s').
           Inr (v, [reply_to m (case node of None \<Rightarrow> [] | Some n \<Rightarrow> put_node n)], s'))))
      else if cmd = VFS_OP_ROOT
      then Inr (v, [reply_to m (case vfs_root v of None \<Rightarrow> [] | Some n \<Rightarrow> put_node n)], s)
      else if cmd = VFS_OP_REGISTER_DRIVER then rbind (vfs_register stack m v) (\<lambda>(v', out). Inr (v', out, s))
      else if cmd = VFS_OP_MOUNT_ROOT then rbind (vfs_mount_root new m v) (\<lambda>(v', out). Inr (v', out, s))
      else if cmd = VFS_OP_AWAIT_ROOT then (case vfs_await_root m v of (v', out) \<Rightarrow> Inr (v', out, s))
      else Inl (UserPanic ''VFS: confused'')))"

text \<open>The loop of \<open>main\<close> over the messages as they arrive.\<close>

fun vfs_run ::
  "'s rpc \<Rightarrow> bytes \<Rightarrow> vfs_node \<Rightarrow> message list \<Rightarrow> vfs \<Rightarrow> 's \<Rightarrow> (vfs \<times> sent list \<times> 's) result" where
  "vfs_run rpc stack new [] v s = Inr (v, [], s)"
| "vfs_run rpc stack new (m # ms) v s =
     rbind (vfs_handle rpc stack new m v s) (\<lambda>(v', out, s').
     rbind (vfs_run rpc stack new ms v' s') (\<lambda>(v'', outs, s''). Inr (v'', out @ outs, s'')))"

section \<open>Every request is answered once\<close>

definition to_of :: "sent \<Rightarrow> u32 \<times> u32" where
  "to_of s = (fst s, fst (snd s))"

definition asker :: "message \<Rightarrow> u32 \<times> u32" where
  "asker m = (info_from m, info_id m)"

lemma to_reply [simp]: "to_of (reply_to m data) = asker m"
  by (simp add: to_of_def reply_to_def asker_def)

definition owed :: "vfs \<Rightarrow> (u32 \<times> u32) multiset" where
  "owed v = mset (awaiting_root v)"

definition vfs_ok :: "vfs \<Rightarrow> bool" where
  "vfs_ok v \<longleftrightarrow> (vfs_root v \<noteq> None \<longrightarrow> awaiting_root v = [])"

lemma to_awaiting: "image_mset to_of (image_mset (\<lambda>(pid, msg_id). (pid, msg_id, [])) M) = M"
  by (induction M) (auto simp: to_of_def)

lemma vfs_mount_root_answers:
  assumes "vfs_mount_root new m v = Inr (v', out)"
  shows "vfs_ok v' \<and> mset (map to_of out) + owed v' = add_mset (asker m) (owed v)"
  using assms
  by (auto simp: vfs_mount_root_def rbind_eq_Inr vfs_ok_def owed_def to_awaiting split: if_splits)

lemma vfs_handle_answers:
  assumes "vfs_handle rpc stack new m v s = Inr (v', out, s')" and "vfs_ok v"
  shows "vfs_ok v' \<and> mset (map to_of out) + owed v' = add_mset (asker m) (owed v)"
proof (cases "\<exists>cmd. get_u8 (info_data m) 0 = Inr cmd \<and> cmd = VFS_OP_MOUNT_ROOT")
  case True
  with assms(1) vfs_mount_root_answers show ?thesis
    by (auto simp: vfs_handle_def Let_def vfs_op_defs rbind_eq_Inr)
next
  case False
  with assms show ?thesis
    by (auto simp: vfs_handle_def Let_def rbind_eq_Inr vfs_register_def vfs_await_root_def vfs_ok_def owed_def asker_def
        split: if_splits prod.splits)
qed

text \<open>
  Claim C33. However requests of all kinds follow one another, every one is answered exactly once: what has
  been sent, together with the processes still waiting for a root, is what has been asked; once a root
  is mounted nobody is left waiting.
\<close>

theorem vfs_answers_once:
  assumes "vfs_run rpc stack new ms v s = Inr (v', out, s')" and "vfs_ok v"
  shows "vfs_ok v' \<and> mset (map to_of out) + owed v' = mset (map asker ms) + owed v"
  using assms
proof (induction ms arbitrary: v out s)
  case (Cons m ms)
  from Cons.prems(1) obtain v1 out1 outs s1 where step: "vfs_handle rpc stack new m v s = Inr (v1, out1, s1)"
    and rest: "vfs_run rpc stack new ms v1 s1 = Inr (v', outs, s')" and out: "out = out1 @ outs"
    by (auto simp: rbind_eq_Inr)
  from vfs_handle_answers [OF step Cons.prems(2)] Cons.IH [OF rest] show ?case
    by (auto simp: out ac_simps) (metis (no_types, lifting) add_mset_add_single union_assoc union_commute)
qed simp

theorem vfs_answers_once_witness:
  "\<exists>v v' out. vfs_start 5 (pad 128) = Inr v \<and>
     vfs_run (\<lambda>_ _ s. Inr ([], s)) (pad 128) \<lparr>node_name = pad 128, node_flags = 0, node_inode = 0, node_length = 0, node_impl = 0, node_driver = 0\<rparr>
       [\<lparr>info_from = 7, info_id = 1, info_data = VFSOpAwaitRoot\<rparr>,
        \<lparr>info_from = 8, info_id = 2, info_data = VFSOpRegisterDriver [102, 97, 116]\<rparr>,
        \<lparr>info_from = 8, info_id = 3, info_data = VFSOpMountRoot 1 0\<rparr>] v () = Inr (v', out, ()) \<and>
     owed v' = {#} \<and> mset (map to_of out) = {#(7, 1), (8, 2), (8, 3)#}"
proof -
  let ?new = "\<lparr>node_name = pad 128, node_flags = 0, node_inode = 0, node_length = 0, node_impl = 0, node_driver = 0\<rparr>"
  let ?ms = "[\<lparr>info_from = 7, info_id = 1, info_data = VFSOpAwaitRoot\<rparr>,
        \<lparr>info_from = 8, info_id = 2, info_data = VFSOpRegisterDriver [102, 97, 116]\<rparr>,
        \<lparr>info_from = 8, info_id = 3, info_data = VFSOpMountRoot 1 0\<rparr>] :: message list"
  have pad: "pad 128 = 0 # 0 # 0 # 0 # 0 # 0 # 0 # 0 # 0 # 0 # 0 # 0 # pad 116"
    by (simp add: pad_def numeral_eq_Suc)
  obtain v where v: "vfs_start 5 (pad 128) = Inr v" "vfs_root v = None" "awaiting_root v = []"
    by (simp add: vfs_start_def sizeof_name_def) (simp add: pad)
  have "\<exists>v' out. vfs_run (\<lambda>_ _ s. Inr ([], s)) (pad 128) ?new ?ms v () = Inr (v', out, ()) \<and> vfs_root v' \<noteq> None"
    using v(2,3)
    by (simp add: vfs_handle_def vfs_op_defs VFSOpAwaitRoot_def VFSOpRegisterDriver_def VFSOpMountRoot_def wire_simps
        vfs_await_root_def vfs_register_def vfs_mount_root_def sizeof_name_def Let_def) (simp add: pad wire_simps)
  then obtain v' out where run: "vfs_run (\<lambda>_ _ s. Inr ([], s)) (pad 128) ?new ?ms v () = Inr (v', out, ())" "vfs_root v' \<noteq> None" by blast
  have "vfs_ok v" using v by (simp add: vfs_ok_def)
  from vfs_answers_once [OF run(1) this] run(2) v
  have "owed v' = {#}" "mset (map to_of out) = {#(7, 1), (8, 2), (8, 3)#}"
    by (auto simp: vfs_ok_def owed_def asker_def)
  with v run show ?thesis by blast
qed

end
