(* ===== verification/FileStack.thy ===== *)
theory FileStack
  imports FileService FatDirs Vfs
begin

text \<open>
  The file-system server on top of the FAT driver, which works on the disk driver and the drive: the service
  of \<^verbatim>\<open>FileService\<close>, on the models of the three processes.
\<close>

definition fat_rpc :: "fat_env \<Rightarrow> u32 \<Rightarrow> fat_state rpc" where
  "fat_rpc env pid to_pid request f = (if to_pid = pid then fat_handle env request f else Inl Diverges)"

text \<open>A client's exchange with the server; a request it does not answer keeps the client waiting.\<close>

definition fs_service ::
  "fat_env \<Rightarrow> u32 \<Rightarrow> bytes \<Rightarrow> vfs_node \<Rightarrow> u32 \<Rightarrow> u32 \<Rightarrow> (vfs \<times> fat_state) fs_call" where
  "fs_service env pid stack new client msg request s =
     rbind (vfs_handle (fat_rpc env pid) stack new \<lparr>info_from = client, info_id = msg, info_data = request\<rparr>
              (fst s) (snd s)) (\<lambda>(v', out, f').
     case out of [] \<Rightarrow> Inl Diverges | (_, _, data) # _ \<Rightarrow> Inr (data, v', f'))"

section \<open>A mounted volume\<close>

definition mounted :: "(nat \<Rightarrow> u8) \<Rightarrow> nat \<Rightarrow> fat_env \<Rightarrow> u32 \<Rightarrow> fat_state \<Rightarrow> vfs \<times> fat_state \<Rightarrow> bool" where
  "mounted vol n env pid f0 s \<longleftrightarrow>
     (\<exists>r. vfs_root (fst s) = Some r \<and> pidForDriver (fst s) (node_driver r) = Inr pid) \<and> pid \<noteq> vfs_self (fst s) \<and>
     fat_ok vol n env (snd s) \<and> snd s = f0\<lparr>fat_clusters := fat_clusters (snd s)\<rparr> \<and>
     sizeof_name \<le> length (fresh env sizeof_name)"

text \<open>\<open>rest_of\<close> gives the clusters that follow a first cluster.\<close>

definition sound_chain :: "(nat \<Rightarrow> u8) \<Rightarrow> nat \<Rightarrow> fat_state \<Rightarrow> (u32 \<Rightarrow> u32 list) \<Rightarrow> u32 \<Rightarrow> bool" where
  "sound_chain vol n f0 rest_of c \<longleftrightarrow> fat_chain vol f0 (c # rest_of c) \<and> (\<forall>x \<in> set (c # rest_of c). inside n f0 x)"

text \<open>
  A directory of a volume whose clusters have the 4096 bytes that the driver takes them to have, without long-name entries.
\<close>

definition sound_dir :: "(nat \<Rightarrow> u8) \<Rightarrow> nat \<Rightarrow> fat_state \<Rightarrow> (u32 \<Rightarrow> u32 list) \<Rightarrow> u32 \<Rightarrow> bool" where
  "sound_dir vol n f0 rest_of d \<longleftrightarrow> csize f0 = 4096 \<and> sound_chain vol n f0 rest_of (cluster_for_inode d f0) \<and>
     (\<forall>x \<in> set (cluster_for_inode d f0 # rest_of (cluster_for_inode d f0)).
        short_only (used_from (cluster_bytes vol f0 x) 0 DIRENTS))"

definition sound_file :: "(nat \<Rightarrow> u8) \<Rightarrow> nat \<Rightarrow> fat_state \<Rightarrow> (u32 \<Rightarrow> u32 list) \<Rightarrow> u32 \<Rightarrow> bool" where
  "sound_file vol n f0 rest_of i \<longleftrightarrow> csize f0 < 65536 \<and> sound_chain vol n f0 rest_of i"

definition dir_entries :: "(nat \<Rightarrow> u8) \<Rightarrow> fat_state \<Rightarrow> (u32 \<Rightarrow> u32 list) \<Rightarrow> u32 \<Rightarrow> fat_dirent list" where
  "dir_entries vol f0 rest_of d =
     concat (map (\<lambda>x. dir_files (cluster_bytes vol f0 x)) (cluster_for_inode d f0 # rest_of (cluster_for_inode d f0)))"

definition dots_node :: "fat_env \<Rightarrow> u32 \<Rightarrow> bytes \<Rightarrow> vfs_node" where
  "dots_node env driver t =
     \<lparr>node_name = t @ 0 # drop (Suc (length t)) (take sizeof_name (fresh env sizeof_name)),
      node_flags = VFS_DIRECTORY, node_inode = 0, node_length = 0, node_impl = 0, node_driver = driver\<rparr>"

definition volume_look :: "(nat \<Rightarrow> u8) \<Rightarrow> fat_env \<Rightarrow> fat_state \<Rightarrow> (u32 \<Rightarrow> u32 list) \<Rightarrow> u32 \<Rightarrow> bytes \<Rightarrow> vfs_node option" where
  "volume_look vol env f0 rest_of d t =
     (if d = 0 \<and> (t = [46] \<or> t = [46, 46]) then Some (dots_node env (vfs_driver_no f0) t)
      else map_option (node_of env (vfs_driver_no f0) t) (find (\<lambda>fd. short_name fd = t) (dir_entries vol f0 rest_of d)))"

definition volume_content :: "(nat \<Rightarrow> u8) \<Rightarrow> fat_state \<Rightarrow> (u32 \<Rightarrow> u32 list) \<Rightarrow> u32 \<Rightarrow> bytes" where
  "volume_content vol f0 rest_of i = file_bytes vol f0 (i # rest_of i)"

definition entry_ok :: "bytes \<Rightarrow> bool" where
  "entry_ok t \<longleftrightarrow> 0 \<notin> set t \<and> length t < sizeof_name"

lemma volume_look_name:
  assumes "volume_look vol env f0 rest_of d t = Some n" and "entry_ok t" and "sizeof_name \<le> length (fresh env sizeof_name)"
  shows "length (node_name n) = sizeof_name"
  using assms by (auto simp: volume_look_def dots_node_def node_of_def entry_ok_def split: if_splits)

lemma volume_finddir:
  assumes "mounted vol n env pid f0 (v, f)" and "sound_dir vol n f0 rest_of d" and "entry_ok t" and name: "cstring name t"
  shows "\<exists>f'. fat_finddir env d name f = Inr (volume_look vol env f0 rest_of d t, f') \<and> mounted vol n env pid f0 (v, f')"
proof -
  have ok: "fat_ok vol n env f" and f: "f = f0\<lparr>fat_clusters := fat_clusters f\<rparr>"
    and fr: "sizeof_name \<le> length (fresh env sizeof_name)"
    using assms(1) by (simp_all add: mounted_def)
  obtain X where f0: "f = f0\<lparr>fat_clusters := X\<rparr>" using f by blast
  have cl: "cluster_for_inode d f = cluster_for_inode d f0" "vfs_driver_no f = vfs_driver_no f0"
    by (simp_all add: f0 cluster_for_inode_def)
  have same: "csize f = csize f0" "\<And>cs. fat_chain vol f cs = fat_chain vol f0 cs" "inside n f = inside n f0"
    "cluster_bytes vol f = cluster_bytes vol f0"
    by (simp_all add: f0)
  have t: "length t < sizeof_name" using assms(3) by (simp add: entry_ok_def)
  show ?thesis
  proof (cases "d = 0 \<and> (t = [46] \<or> t = [46, 46])")
    case True
    then show ?thesis using is_dots_ok [OF name] new_name_ok [OF name t fr] cl assms(1)
      by (auto simp: fat_finddir_def volume_look_def dots_node_def)
  next
    case False
    have pre: "csize f = 4096" "fat_chain vol f (cluster_for_inode d f # rest_of (cluster_for_inode d f))"
      "\<forall>x \<in> set (cluster_for_inode d f # rest_of (cluster_for_inode d f)). inside n f x"
      "\<forall>x \<in> set (cluster_for_inode d f # rest_of (cluster_for_inode d f)).
         short_only (used_from (cluster_bytes vol f x) 0 DIRENTS)"
      using assms(2) unfolding sound_dir_def sound_chain_def cl same by simp_all
    from fat_finddir_ok [OF ok pre name t fr] False obtain f' where
      "fat_finddir env d name f = Inr (map_option (node_of env (vfs_driver_no f) t) (find (\<lambda>fd. short_name fd = t)
        (concat (map (\<lambda>x. dir_files (cluster_bytes vol f x)) (cluster_for_inode d f # rest_of (cluster_for_inode d f))))), f')"
      "f' = f\<lparr>fat_clusters := fat_clusters f'\<rparr>" "fat_ok vol n env f'" by blast
    moreover have "f' = f0\<lparr>fat_clusters := fat_clusters f'\<rparr>"
    proof -
      obtain Y where "f' = f\<lparr>fat_clusters := Y\<rparr>" using calculation(2) by blast
      then show ?thesis by (simp add: f0)
    qed
    ultimately show ?thesis using False cl same assms(1)
      by (auto simp: volume_look_def dir_entries_def mounted_def)
  qed
qed

lemma volume_read:
  assumes "mounted vol n env pid f0 (v, f)" and "sound_file vol n f0 rest_of i"
  shows "\<exists>f'. fat_read_data env i offset len f =
      Inr (take (unat len) (drop (unat offset) (volume_content vol f0 rest_of i)), f') \<and> mounted vol n env pid f0 (v, f')"
proof -
  obtain X where f0: "f = f0\<lparr>fat_clusters := X\<rparr>" and ok: "fat_ok vol n env f"
    using assms(1) by (auto simp: mounted_def)
  have pre: "fat_chain vol f (i # rest_of i)" "\<forall>c \<in> set (i # rest_of i). inside n f c" "csize f < 65536"
    using assms(2) by (simp_all add: sound_file_def sound_chain_def f0)
  from fat_read_data_ok [OF ok pre, of offset len] obtain f' where
    f': "fat_read_data env i offset len f = Inr (take (unat len) (drop (unat offset) (file_bytes vol f (i # rest_of i))), f')"
      "f' = f\<lparr>fat_clusters := fat_clusters f'\<rparr>" "fat_ok vol n env f'" by blast
  then obtain Y where "f' = f\<lparr>fat_clusters := Y\<rparr>" by blast
  then have "f' = f0\<lparr>fat_clusters := fat_clusters f'\<rparr>" by (simp add: f0)
  moreover have "file_bytes vol f = file_bytes vol f0" by (simp add: f0 fun_eq_iff)
  ultimately show ?thesis using f' assms(1) by (auto simp: mounted_def volume_content_def)
qed

section \<open>The service\<close>

lemma c_string_name: "0 \<notin> set t \<Longrightarrow> c_string (t @ 0 # r) = Inr t"
  by (induction t) auto

lemma request_finddir:
  "get_u8 (VFSOpFinddir d t) 0 = Inr VFS_OP_FINDDIR" "get_u32 (VFSOpFinddir d t) 4 = Inr d"
  "drop 8 (VFSOpFinddir d t) = t @ 0 # pad 3"
  by (simp_all add: VFSOpFinddir_def wire_simps)

lemma request_read:
  "get_u8 (VFSOpRead i offset len) 0 = Inr VFS_OP_READ" "get_u32 (VFSOpRead i offset len) 4 = Inr i"
  "get_u32 (VFSOpRead i offset len) 8 = Inr offset" "get_u32 (VFSOpRead i offset len) 12 = Inr len"
  by (simp_all add: VFSOpRead_def wire_simps)

lemma service_finddir:
  assumes "mounted vol n env pid f0 s" and "sound_dir vol n f0 rest_of d" and t: "entry_ok t"
  shows "\<exists>s'. fs_service env pid stack new client msg (VFSOpFinddir d t) s =
      Inr (case volume_look vol env f0 rest_of d t of None \<Rightarrow> [] | Some n \<Rightarrow> put_node n, s') \<and> mounted vol n env pid f0 s'"
proof -
  obtain v f where s: "s = (v, f)" by (cases s)
  have "cstring (t @ 0 # pad 3) t" using t by (auto simp: cstring_def entry_ok_def)
  from volume_finddir [OF assms(1) [unfolded s] assms(2) t this] obtain f' where
    fd: "fat_finddir env d (t @ 0 # pad 3) f = Inr (volume_look vol env f0 rest_of d t, f')"
    and m': "mounted vol n env pid f0 (v, f')" by blast
  have root: "root_pid v = Inr pid" "pid \<noteq> vfs_self v" and fr: "sizeof_name \<le> length (fresh env sizeof_name)"
    using assms(1) s by (auto simp: mounted_def root_pid_def)
  have "fat_rpc env pid pid (VFSOpFinddir d t) f =
      Inr (case volume_look vol env f0 rest_of d t of None \<Rightarrow> [] | Some n \<Rightarrow> put_node n, f')"
    by (simp add: fat_rpc_def fat_handle_def request_finddir fd vfs_op_defs)
  moreover have "c_string (t @ 0 # pad 3) = Inr t" using t by (simp add: entry_ok_def c_string_name)
  moreover have "length (put_node n) = sizeof_VFSNode" "get_node (put_node n) = Inr n" "put_node n \<noteq> []"
    if "volume_look vol env f0 rest_of d t = Some n" for n
  proof -
    note name = volume_look_name [OF that t fr]
    show len: "length (put_node n) = sizeof_VFSNode" and "get_node (put_node n) = Inr n"
      using length_put_struct(2) [OF name] get_put_node [OF name] by simp_all
    then show "put_node n \<noteq> []" by (auto simp: sizeof_VFSNode_def)
  qed
  ultimately show ?thesis using root m'
    by (auto simp: fs_service_def s vfs_handle_def Let_def request_finddir fs_finddir_def call_driver_def reply_to_def
        vfs_op_defs split: option.splits)
qed

lemma service_read:
  assumes "mounted vol n env pid f0 s" and "sound_file vol n f0 rest_of i"
  shows "\<exists>s'. fs_service env pid stack new client msg (VFSOpRead i offset len) s =
      Inr (take (unat len) (drop (unat offset) (volume_content vol f0 rest_of i)), s') \<and> mounted vol n env pid f0 s'"
proof -
  obtain v f where s: "s = (v, f)" by (cases s)
  from volume_read [OF assms(1) [unfolded s] assms(2)] obtain f' where
    rd: "fat_read_data env i offset len f =
        Inr (take (unat len) (drop (unat offset) (volume_content vol f0 rest_of i)), f')"
    and m': "mounted vol n env pid f0 (v, f')" by blast
  have root: "root_pid v = Inr pid" "pid \<noteq> vfs_self v"
    using assms(1) s by (auto simp: mounted_def root_pid_def)
  have "fat_rpc env pid pid (VFSOpRead i offset len) f =
      Inr (take (unat len) (drop (unat offset) (volume_content vol f0 rest_of i)), f')"
    by (simp add: fat_rpc_def fat_handle_def request_read rd vfs_op_defs)
  then show ?thesis using root m'
    by (auto simp: fs_service_def s vfs_handle_def Let_def request_read fs_read_def call_driver_def reply_to_def vfs_op_defs)
qed

interpretation volume: file_server "fs_service env pid stack new client msg" "mounted vol n env pid f0" entry_ok
    "sound_dir vol n f0 rest_of" "sound_file vol n f0 rest_of" "volume_look vol env f0 rest_of" "volume_content vol f0 rest_of"
proof
  fix s d t assume "mounted vol n env pid f0 s" "sound_dir vol n f0 rest_of d" "entry_ok t"
  then show "\<exists>s'. fs_service env pid stack new client msg (VFSOpFinddir d t) s =
      Inr (case volume_look vol env f0 rest_of d t of None \<Rightarrow> [] | Some n \<Rightarrow> put_node n, s') \<and> mounted vol n env pid f0 s'"
    by (rule service_finddir)
next
  fix s i offset len assume "mounted vol n env pid f0 s" "sound_file vol n f0 rest_of i"
  then show "\<exists>s'. fs_service env pid stack new client msg (VFSOpRead i offset len) s =
      Inr (take (unat len) (drop (unat offset) (volume_content vol f0 rest_of i)), s') \<and> mounted vol n env pid f0 s'"
    by (rule service_read)
next
  fix s d t m assume "mounted vol n env pid f0 s" "entry_ok t" "volume_look vol env f0 rest_of d t = Some m"
  then show "length (node_name m) = sizeof_name" by (auto simp: mounted_def intro: volume_look_name)
qed (simp add: entry_ok_def sizeof_component_def sizeof_name_def)

section \<open>Opening and reading a file\<close>

text \<open>
  Claim C31. On a mounted volume with clusters of 4096 bytes, whose directories on the way hold no long-name entries,
  \<open>fopen\<close> looks a path up as the walk over its components does: repeated, leading
  and trailing slashes do not matter, each component is looked up in the directory before it, and the result is the
  node at the end or nothing when a component is missing. Every lookup goes through the file-system server, the
  FAT driver and the disk driver. The driver looks at 128 entries of a cluster, whatever its size, and takes a
  long name for the name of the entry after it; \<open>sound_dir\<close> leaves both cases out.
\<close>

theorem fopen_walks_path:
  assumes "mounted vol n env pid f0 s" and "sizeof_VFSNode \<le> length (fresh' sizeof_VFSNode)" and "0 \<notin> set t"
    and "\<forall>c \<in> set (path_components t). length c < sizeof_name"
    and "walk_through (sound_dir vol n f0 rest_of) (volume_look vol env f0 rest_of) root (path_components t)"
  shows "\<exists>s'. fopen (fs_service env pid stack new client msg) fresh' (Some root) (t @ 0 # r) [114, 0] s =
      Inr (map_option (\<lambda>node. \<lparr>f_node = node, f_offset = 0\<rparr>)
        (walk (volume_look vol env f0 rest_of) root (path_components t)), s') \<and> mounted vol n env pid f0 s'"
proof -
  have "entry_ok c" if "c \<in> set (path_components t)" for c
    using that assms(3,4) path_components_chars [of c t] by (auto simp: entry_ok_def)
  then show ?thesis using volume.fopen_walk [where fresh = fresh', OF assms(2,1,3) _ assms(5)] by blast
qed

text \<open>
  Claim C32. Reading an open file through the whole stack - user library, file-system server, FAT driver, disk
  driver and drive - puts the bytes of the clusters of its chain from its offset on into the buffer, as many as were asked
  for or as there are, and leaves the rest of the buffer; the offset moves by all that was asked for, and
  the count returned is always the one asked for, also when the file ended before.
\<close>

theorem fread_reads_file:
  assumes "mounted vol n env pid f0 s" and "sound_file vol n f0 rest_of (node_inode node)"
    and "unat offset + unat k * unat sz < 2 ^ 32" and "unat k * unat sz \<le> length buf"
  shows "\<exists>s'. fread (fs_service env pid stack new client msg) (Some buf) sz k (Some \<lparr>f_node = node, f_offset = offset\<rparr>) s =
      Inr (k, Some \<lparr>f_node = node, f_offset = offset + k * sz\<rparr>,
        Some (let data = take (unat k * unat sz) (drop (unat offset) (volume_content vol f0 rest_of (node_inode node)))
              in data @ drop (length data) buf), s') \<and> mounted vol n env pid f0 s'"
proof -
  let ?st = "\<lparr>f_node = node, f_offset = offset\<rparr>"
  from volume.fread_content [OF assms(1), where st = ?st and n = k and sz = sz and buf = buf] assms(2-4)
  show ?thesis by (auto simp: put_at_def Let_def)
qed

section \<open>A file of five bytes\<close>

definition demo_mounted :: "vfs \<times> fat_state" where
  "demo_mounted = (\<lparr>drivers = [\<lparr>driver_name = pad 128, driver_pid = 5\<rparr>, \<lparr>driver_name = pad 128, driver_pid = 8\<rparr>],
     vfs_root = Some \<lparr>node_name = pad 128, node_flags = 0, node_inode = 0, node_length = 0, node_impl = 0, node_driver = 1\<rparr>,
     awaiting_root = [], vfs_self = 5\<rparr>, dir_fat)"

definition demo_root :: vfs_node where
  "demo_root = \<lparr>node_name = pad 128, node_flags = 0, node_inode = 0, node_length = 0, node_impl = 0, node_driver = 1\<rparr>"

abbreviation demo_service :: "(vfs \<times> fat_state) fs_call" where
  "demo_service \<equiv> fs_service (dir_env (dir_vol 0 3 5)) 8 [] demo_root 9 1"

lemma demo_mounted_ok: "mounted (dir_vol 0 3 5) 16384 (dir_env (dir_vol 0 3 5)) 8 dir_fat demo_mounted"
  using dir_ok [of "dir_vol 0 3 5"]
  by (simp add: mounted_def demo_mounted_def pidForDriver_def) (simp add: dir_env_def)

lemma demo_chains:
  "fat_chain (dir_vol 0 3 5) dir_fat [2]" "fat_chain (dir_vol 0 3 5) dir_fat [3]"
  "inside 16384 dir_fat 2" "inside 16384 dir_fat 3" "csize dir_fat = 4096" "cluster_for_inode 0 dir_fat = 2"
  by (simp_all add: link_of_def u32_of_def dir_vol_def dir_fat_def demo_fat_def inside_def data_sector_def csize_def
      cluster_for_inode_def)

lemma demo_dir: "sound_dir (dir_vol 0 3 5) 16384 dir_fat (\<lambda>_. []) 0"
  using demo_chains
  by (simp add: sound_dir_def sound_chain_def short_only_def dir_used dir_entry fd_attributes_def)

definition demo_name :: bytes where
  "demo_name = [82, 69, 65, 68, 77, 69, 46, 84, 88, 84]"

lemma demo_look:
  "volume_look (dir_vol 0 3 5) (dir_env (dir_vol 0 3 5)) dir_fat (\<lambda>_. []) 0 demo_name =
     Some (node_of (dir_env (dir_vol 0 3 5)) 1 demo_name (byte_slice (dir_vol 0 3 5) 1024 32))"
  by (simp add: volume_look_def dir_entries_def demo_chains dir_files_def dir_used dir_entry is_file_def fd_attributes_def
      fat_attr_defs short_name_def fd_filename_def demo_name_def)
    (simp add: dir_fat_def demo_fat_def)

theorem fopen_walks_path_witness:
  "\<exists>node s'. fopen demo_service pad (Some demo_root) (47 # demo_name @ [0]) [114, 0] demo_mounted =
     Inr (Some \<lparr>f_node = node, f_offset = 0\<rparr>, s') \<and> node_inode node = 3 \<and> node_length node = 5"
proof -
  have demo_name_length: "length demo_name < sizeof_name" by (simp add: demo_name_def sizeof_name_def)
  have parts: "path_components (47 # demo_name) = [demo_name]" by (simp add: demo_name_def path_components_def)
  have root: "node_inode demo_root = 0" by (simp add: demo_root_def)
  have "0 \<notin> set (47 # demo_name)" by (simp add: demo_name_def)
  from fopen_walks_path [of "dir_vol 0 3 5" 16384 "dir_env (dir_vol 0 3 5)" 8 dir_fat demo_mounted pad "47 # demo_name"
      "\<lambda>_. []" demo_root "[]" demo_root 9 1 "[]", OF demo_mounted_ok _ this]
  obtain s' where "fopen demo_service pad (Some demo_root) (47 # demo_name @ [0]) [114, 0] demo_mounted =
      Inr (Some \<lparr>f_node = node_of (dir_env (dir_vol 0 3 5)) 1 demo_name (byte_slice (dir_vol 0 3 5) 1024 32), f_offset = 0\<rparr>, s')"
    unfolding parts by (auto simp: root demo_dir demo_look demo_name_length)
  then show ?thesis by (auto simp: node_of_def dir_entry_fields)
qed

theorem fread_reads_file_witness:
  "\<exists>s'. fread demo_service (Some (pad 4)) 2 2 (Some \<lparr>f_node = demo_root\<lparr>node_inode := 3\<rparr>, f_offset = 1\<rparr>) demo_mounted =
     Inr (2, Some \<lparr>f_node = demo_root\<lparr>node_inode := 3\<rparr>, f_offset = 5\<rparr>, Some [69, 76, 76, 79], s')"
proof -
  have sound: "sound_file (dir_vol 0 3 5) 16384 dir_fat (\<lambda>_. []) (node_inode (demo_root\<lparr>node_inode := 3\<rparr>))"
    using demo_chains by (simp add: sound_file_def sound_chain_def)
  have "take 4 (drop 1 (volume_content (dir_vol 0 3 5) dir_fat (\<lambda>_. []) 3)) = [69, 76, 76, 79]"
    by (simp add: volume_content_def file_bytes_def cluster_bytes_def drop_slice take_slice data_sector_def csize_def
        dir_fat_def demo_fat_def)
      (simp add: byte_slice_def upt_rec dir_vol_def)
  then show ?thesis
    using fread_reads_file [OF demo_mounted_ok sound, of 1 2 2 "pad 4" "[]" demo_root 9 1] by (auto simp: Let_def)
qed

end
