(* ===== verification/Dispatch.thy ===== *)
theory Dispatch
  imports Loader
begin

text \<open>
  \<^verbatim>\<open>src/Syscall.cpp\<close>: the table of system calls and the handler of interrupt \<^verbatim>\<open>0x80\<close>. A call takes its
  arguments from the registers of the saved frame and strings and structures from the memory of the caller;
  its value goes to \<open>eax\<close>. A call without a value leaves in \<open>eax\<close> whatever it held: \<open>junk\<close>.
\<close>

section \<open>The memory of the caller\<close>

abbreviation user_mem :: "kernel \<Rightarrow> u32 \<Rightarrow> u8" where
  "user_mem k \<equiv> k_mem k (k_activeDir k)"

text \<open>A string. Addresses repeat after \<open>2^32\<close> bytes, so a search that has not ended by then never does.\<close>

fun cstr_from :: "nat \<Rightarrow> (u32 \<Rightarrow> u8) \<Rightarrow> u32 \<Rightarrow> bytes result" where
  "cstr_from 0 m a = Inl Diverges"
| "cstr_from (Suc n) m a = (if m a = 0 then Inr [] else rbind (cstr_from n m (a + 1)) (\<lambda>s. Inr (m a # s)))"

definition user_string :: "kernel \<Rightarrow> u32 \<Rightarrow> bytes result" where
  "user_string k a = cstr_from (2 ^ 32) (user_mem k) a"

definition chars :: "bytes \<Rightarrow> string" where
  "chars b = map (\<lambda>c. char_of (unat c)) b"

definition user_block :: "kernel \<Rightarrow> u32 \<Rightarrow> nat \<Rightarrow> bytes" where
  "user_block k a n = map (\<lambda>i. user_mem k (a + of_nat i)) [0..<n]"

definition user_u32 :: "kernel \<Rightarrow> u32 \<Rightarrow> u32 result" where
  "user_u32 k a = get_u32 (user_block k a 4) 0"

text \<open>The null-terminated array of arguments of \<open>spawn\<close>; its entries repeat after \<open>2^30\<close>.\<close>

fun args_from :: "nat \<Rightarrow> kernel \<Rightarrow> u32 \<Rightarrow> bytes list result" where
  "args_from 0 k a = Inl Diverges"
| "args_from (Suc n) k a =
     rbind (user_u32 k a) (\<lambda>p.
     if p = 0 then Inr []
     else rbind (user_string k p) (\<lambda>s. rbind (args_from n k (a + 4)) (\<lambda>ss. Inr (s # ss))))"

definition user_args :: "kernel \<Rightarrow> u32 \<Rightarrow> bytes list result" where
  "user_args k a = (if a = 0 then Inr [] else args_from (2 ^ 30) k a)"

section \<open>The table\<close>

type_synonym syscall_fn = "regs \<Rightarrow> machine \<Rightarrow> (u32 \<times> machine) result"

definition on_kernel :: "(regs \<Rightarrow> kernel \<Rightarrow> (u32 \<times> kernel) result) \<Rightarrow> syscall_fn" where
  "on_kernel f r mc = rbind (f r (mc_kernel mc)) (\<lambda>(v, k). Inr (v, mc\<lparr>mc_kernel := k\<rparr>))"

definition no_value :: "u32 \<Rightarrow> kernel result \<Rightarrow> (u32 \<times> kernel) result" where
  "no_value junk x = rbind x (\<lambda>k. Inr (junk, k))"

definition bool_value :: "(bool \<times> 's) result \<Rightarrow> (u32 \<times> 's) result" where
  "bool_value x = rbind x (\<lambda>(b, s). Inr (if b then 1 else 0, s))"

definition with_name :: "u32 \<Rightarrow> (symbol \<Rightarrow> kernel \<Rightarrow> 'a result) \<Rightarrow> kernel \<Rightarrow> 'a result" where
  "with_name p f k = rbind (user_string k p) (\<lambda>s. f (Some (chars s)) k)"

definition user_sysreboot :: "kernel \<Rightarrow> kernel result" where
  "user_sysreboot k = rbind (requirePrivilege PRIV_POWER_MGMT k) (\<lambda>_. Inl Diverges)"

text \<open>\<open>*info\<close> and the array it points to, which is written field by field.\<close>

fun write_infos :: "u32 \<Rightarrow> process_info list \<Rightarrow> kernel \<Rightarrow> kernel" where
  "write_infos a [] k = k"
| "write_infos a (i # is) k =
     write_infos (a + sizeof_process_info) is
       (user_write a (put_u32 (pi_pid i) @ put_u32 (pi_flags i) @ put_u32 (pi_name i) @ put_u32 (pi_registeredName i) @
          [pi_cpl i]) k)"

definition sys_getProcessList :: "u32 \<Rightarrow> kernel \<Rightarrow> (u32 \<times> kernel) result" where
  "sys_getProcessList p k =
     rbind (getProcessList k) (\<lambda>(n, info, infos, k1).
     Inr (of_nat n, write_infos info infos (user_write p (put_u32 info) k1)))"

text \<open>The \<open>queue_item_info\<close> of an item is inside the item, whose id stands for its address.\<close>

definition sys_grabQueue :: "u32 \<Rightarrow> kernel \<Rightarrow> (u32 \<times> kernel) result" where
  "sys_grabQueue info k =
     (case itemById (t_replyQueue (cur k)) info of
        None \<Rightarrow> Inl NullDeref
      | Some it \<Rightarrow> grabQueue info (qi_data_len it) k)"

definition sys_nanosleep :: "u32 \<Rightarrow> u32 \<Rightarrow> kernel \<Rightarrow> (u32 \<times> kernel) result" where
  "sys_nanosleep req rem k =
     rbind (user_u32 k req) (\<lambda>tv_sec. rbind (user_u32 k (req + 4)) (\<lambda>tv_nsec.
     user_nanosleep tv_sec tv_nsec (rem \<noteq> 0) k))"

definition sys_spawn :: "u32 \<Rightarrow> u32 \<Rightarrow> u32 \<Rightarrow> u32 \<Rightarrow> machine \<Rightarrow> (u32 \<times> machine) result" where
  "sys_spawn name elf elf_len args mc =
     (let k = mc_kernel mc in
      rbind (user_args k args) (\<lambda>argl. rbind (user_string k name) (\<lambda>n.
      spawn (chars n) (user_block k elf (unat elf_len)) argl mc)))"

definition syscalls :: "u32 \<Rightarrow> (u32 \<times> syscall_fn) list" where
  "syscalls junk = [
     (0, on_kernel (\<lambda>r. no_value junk \<circ> user_putc (char_of (unat (ucast (r_ebx r) :: u8))))),
     (1, on_kernel (\<lambda>r k. no_value junk (rbind (user_string k (r_ebx r)) (\<lambda>s. user_puts (chars s) k)))),
     (3, on_kernel (\<lambda>r k. Inr (getProcessId k, k))),
     (4, on_kernel (\<lambda>r. no_value junk \<circ> irqWait)),
     (38, on_kernel (\<lambda>r. irqWaitTimeout (r_ebx r))),
     (5, on_kernel (\<lambda>r. no_value junk \<circ> irqListen (r_ebx r))),
     (48, on_kernel (\<lambda>r k. bool_value (Inr (irqCheck k)))),
     (37, on_kernel (\<lambda>r k. Inr (user_ticks k, k))),
     (51, on_kernel (\<lambda>r k. Inr (user_tickHz k, k))),
     (6, on_kernel (\<lambda>r k. no_value junk (rbind (user_string k (r_ebx r)) (\<lambda>s. user_panic (chars s) k)))),
     (7, on_kernel (\<lambda>r. no_value junk \<circ> sysexit)),
     (8, on_kernel (\<lambda>r. no_value junk \<circ> user_defer)),
     (9, on_kernel (\<lambda>r. user_malloc (r_ebx r))),
     (40, \<lambda>r. mallocap (r_ebx r) (r_ecx r)),
     (42, \<lambda>r. physAddr (r_ebx r)),
     (10, on_kernel (\<lambda>r. no_value junk \<circ> user_free (r_ebx r))),
     (52, on_kernel (\<lambda>r. no_value junk \<circ> user_sysreboot)),
     (43, on_kernel (\<lambda>r. sys_getProcessList (r_ebx r))),
     (44, on_kernel (\<lambda>r. waitProcess (r_ebx r))),
     (24, on_kernel (\<lambda>r k. Inr (getProcessId k, k))),
     (25, on_kernel (\<lambda>r. with_name (r_ebx r) (\<lambda>s. processIdByName_impl s False))),
     (39, on_kernel (\<lambda>r. with_name (r_ebx r) (\<lambda>s. processIdByName_impl s True))),
     (12, on_kernel (\<lambda>r. with_name (r_ecx r) (\<lambda>s k. bool_value (registerName (r_ebx r) s k)))),
     (13, on_kernel (\<lambda>r. with_name (r_ebx r) (\<lambda>s k. bool_value (registerStream s k)))),
     (14, on_kernel (\<lambda>r. with_name (r_ecx r) (\<lambda>s. obtainStreamWriter (r_ebx r) s (r_edx r AND 0xFF \<noteq> 0)))),
     (15, on_kernel (\<lambda>r. with_name (r_ecx r) (\<lambda>s. obtainStreamListener (r_ebx r) s))),
     (16, on_kernel (\<lambda>r. with_name (r_ecx r) (\<lambda>s. readStream_impl (r_ebx r) s (r_edx r) (r_esi r) (r_edi r) True))),
     (17, on_kernel (\<lambda>r. with_name (r_ecx r) (\<lambda>s. readStream_impl (r_ebx r) s (r_edx r) (r_esi r) (r_edi r) False))),
     (18, on_kernel (\<lambda>r. with_name (r_ecx r) (\<lambda>s k.
            writeStream (r_ebx r) s (r_edx r) (user_block k (r_esi r) (unat (r_edi r))) k))),
     (19, on_kernel (\<lambda>r. probeQueue_impl True 0)),
     (20, on_kernel (\<lambda>r. probeQueue_impl False 0)),
     (26, on_kernel (\<lambda>r. probeQueue_impl True (r_ebx r))),
     (27, on_kernel (\<lambda>r. probeQueue_impl False (r_ebx r))),
     (21, on_kernel (\<lambda>r. readQueue (r_ebx r) (r_ecx r) (r_edx r) (r_esi r))),
     (31, on_kernel (\<lambda>r. sys_grabQueue (r_ebx r))),
     (22, on_kernel (\<lambda>r k. Inr (junk, shiftQueue (r_ebx r) k))),
     (23, on_kernel (\<lambda>r k. sendQueue (r_ebx r) (r_ecx r) (user_block k (r_edx r) (unat (r_esi r))) k)),
     (35, \<lambda>r. process_fork),
     (36, \<lambda>r. sys_spawn (r_ebx r) (r_ecx r) (r_edx r) (r_esi r)),
     (50, \<lambda>r mc. bool_value (mapPhysicalMem (r_ebx r) (r_ecx r) (r_edx r) (r_esi r) (r_edi r AND 0xFF \<noteq> 0) mc)),
     (45, on_kernel (\<lambda>r k. bool_value (user_grantPrivilege (r_ebx r) (ucast (r_ecx r)) k))),
     (46, on_kernel (\<lambda>r k. bool_value (user_grantIOPriv (r_ebx r) (ucast (r_ecx r)) k))),
     (47, on_kernel (\<lambda>r k. bool_value (Inr (beginExecution (r_ebx r) k)))),
     (49, on_kernel (\<lambda>r. sys_nanosleep (r_ebx r) (r_ecx r)))]"

section \<open>The handler\<close>

definition AKARI_SYSCALL_MAXCALLS :: u32 where "AKARI_SYSCALL_MAXCALLS = 256"

definition upd_kernel :: "(kernel \<Rightarrow> kernel) \<Rightarrow> machine \<Rightarrow> machine" where
  "upd_kernel f mc = mc\<lparr>mc_kernel := f (mc_kernel mc)\<rparr>"

definition set_eax :: "u32 \<Rightarrow> u32 \<Rightarrow> kernel \<Rightarrow> kernel" where
  "set_eax frame v k = k\<lparr>k_frames := (k_frames k)(frame := (k_frames k frame)\<lparr>r_eax := v\<rparr>)\<rparr>"

text \<open>Entering the task that the call asked for, if any.\<close>

definition leave_call :: "u32 \<Rightarrow> kernel \<Rightarrow> (u32 \<times> kernel) result" where
  "leave_call frame k =
     (case k_returnTask k of
        None \<Rightarrow> Inr (frame, k)
      | Some t \<Rightarrow>
          rbind (saveRegisterToTask (k_current k) frame k) (\<lambda>k1.
          assignInternalTask t (k1\<lparr>k_current := t\<rparr>)))"

definition syscall_handler :: "(u32 \<times> syscall_fn) list \<Rightarrow> u32 \<Rightarrow> machine \<Rightarrow> (u32 \<times> machine) result" where
  "syscall_handler tab frame mc =
     (let r = k_frames (mc_kernel mc) frame; num = r_eax r in
      if num \<ge> AKARI_SYSCALL_MAXCALLS
      then Inl (KernelPanic ''System call greater than maximum requested. TODO: kill requesting process.'')
      else case map_find tab num of
             None \<Rightarrow> Inl (KernelPanic ''Non-existing system call requested.'')
           | Some call \<Rightarrow>
               rbind (call r (upd_kernel (\<lambda>k. k\<lparr>k_returnTask := None\<rparr>) mc)) (\<lambda>(ret, mc1).
               rbind (leave_call frame (set_eax frame ret (mc_kernel mc1))) (\<lambda>(resume, k2).
               Inr (resume, mc1\<lparr>mc_kernel := k2\<rparr>))))"

end
