(* ===== verification/Reach.thy ===== *)
theory Reach
  imports Dispatch ExitProps
begin

text \<open>
  The kernel as a state machine: system calls, timer ticks, interrupts and exceptions, in any order, from any
  number of processes. What every reachable state keeps: the task list is a list, and the table of processes by pid
  is sound.
\<close>

section \<open>The invariant\<close>

definition by_pid_ok :: "kernel \<Rightarrow> bool" where
  "by_pid_ok k \<longleftrightarrow> (\<forall>p t. map_find (k_byPid k) p = Some (Some t) \<longrightarrow> t < k_count k \<and> t_id (k_task k t) = p)"

definition kernel_ok :: "kernel \<Rightarrow> bool" where
  "kernel_ok k \<longleftrightarrow> (\<exists>ts. task_list k ts) \<and> by_pid_ok k"

named_theorems kernel_ok_simps \<open>updates that do not concern the task list\<close>

lemma kernel_ok_upd_task [simp, kernel_ok_simps]:
  assumes "t_next (f (k_task k t)) = t_next (k_task k t)" and "t_id (f (k_task k t)) = t_id (k_task k t)"
  shows "kernel_ok (upd_task t f k) \<longleftrightarrow> kernel_ok k"
proof -
  have "t_next (k_task (upd_task t f k) u) = t_next (k_task k u)"
    and "t_id (k_task (upd_task t f k) u) = t_id (k_task k u)" for u using assms by simp_all
  then show ?thesis by (simp add: kernel_ok_def task_list_def by_pid_ok_def)
qed

lemma kernel_ok_upd_cur [simp, kernel_ok_simps]:
  "t_next (f (cur k)) = t_next (cur k) \<Longrightarrow> t_id (f (cur k)) = t_id (cur k) \<Longrightarrow> kernel_ok (upd_cur f k) \<longleftrightarrow> kernel_ok k"
  by (simp add: upd_cur_def)

lemma kernel_ok_fields [simp, kernel_ok_simps]:
  "kernel_ok (k\<lparr>k_current := c\<rparr>) \<longleftrightarrow> kernel_ok k" "kernel_ok (k\<lparr>k_priorityStart := p\<rparr>) \<longleftrightarrow> kernel_ok k"
  "kernel_ok (k\<lparr>k_registered := r\<rparr>) \<longleftrightarrow> kernel_ok k" "kernel_ok (k\<lparr>k_nstreams := n\<rparr>) \<longleftrightarrow> kernel_ok k"
  "kernel_ok (k\<lparr>k_lastMsgId := i\<rparr>) \<longleftrightarrow> kernel_ok k" "kernel_ok (k\<lparr>k_wakeevents := e\<rparr>) \<longleftrightarrow> kernel_ok k"
  "kernel_ok (k\<lparr>k_lastWakeId := i\<rparr>) \<longleftrightarrow> kernel_ok k" "kernel_ok (k\<lparr>k_returnTask := t\<rparr>) \<longleftrightarrow> kernel_ok k"
  "kernel_ok (k\<lparr>k_frames := f\<rparr>) \<longleftrightarrow> kernel_ok k" "kernel_ok (k\<lparr>k_output := s\<rparr>) \<longleftrightarrow> kernel_ok k"
  "kernel_ok (k\<lparr>k_activeDir := d\<rparr>) \<longleftrightarrow> kernel_ok k" "kernel_ok (k\<lparr>k_mem := m\<rparr>) \<longleftrightarrow> kernel_ok k"
  "kernel_ok (k\<lparr>k_switches := w\<rparr>) \<longleftrightarrow> kernel_ok k" "kernel_ok (k\<lparr>k_systemUs := u\<rparr>) \<longleftrightarrow> kernel_ok k"
  "kernel_ok (k\<lparr>k_tss_esp0 := x\<rparr>) \<longleftrightarrow> kernel_ok k" "kernel_ok (k\<lparr>k_tss_iomap := y\<rparr>) \<longleftrightarrow> kernel_ok k"
  "kernel_ok (k\<lparr>k_stream := z\<rparr>) \<longleftrightarrow> kernel_ok k"
  by (simp_all add: kernel_ok_def task_list_def by_pid_ok_def)

lemma kernel_ok_upd_stream [simp, kernel_ok_simps]: "kernel_ok (upd_stream s f k) \<longleftrightarrow> kernel_ok k"
  by (simp add: upd_stream_def)

lemma kernel_ok_user_write [simp, kernel_ok_simps]: "kernel_ok (user_write a b k) \<longleftrightarrow> kernel_ok k"
  by (simp add: user_write_def)

section \<open>The scheduler\<close>

lemma prepareFetchNextTask_ok:
  "prepareFetchNextTask k = Inr (t, k') \<Longrightarrow> kernel_ok k \<Longrightarrow> kernel_ok k'"
  by (auto simp: prepareFetchNextTask_def rbind_eq_Inr split: option.splits)

lemma returnToNextTask_ok: "returnToNextTask k = Inr k' \<Longrightarrow> kernel_ok k \<Longrightarrow> kernel_ok k'"
  by (auto simp: returnToNextTask_def returnToTask_def rbind_eq_Inr split: if_splits dest: prepareFetchNextTask_ok)

lemma saveRegisterToTask_ok: "saveRegisterToTask t r k = Inr k' \<Longrightarrow> kernel_ok k \<Longrightarrow> kernel_ok k'"
  by (auto simp: saveRegisterToTask_def rbind_eq_Inr)

lemma timer_tick_ok: "kernel_ok k \<Longrightarrow> kernel_ok (timer_tick k)"
  by (auto simp: timer_tick_def Let_def split: list.splits)

lemma wakeIn_ok: "wakeIn us t k = (u, k') \<Longrightarrow> kernel_ok k \<Longrightarrow> kernel_ok k'"
  by (auto simp: wakeIn_def Let_def split: if_splits)

lemma desched_ok: "desched u k = (b, k') \<Longrightarrow> kernel_ok k \<Longrightarrow> kernel_ok k'"
  by (auto simp: desched_def split: option.splits)

lemma call_run_ok: "call_run c k = Inr (v, b, c', k') \<Longrightarrow> kernel_ok k \<Longrightarrow> kernel_ok k'"
  by (cases c)
    (auto simp: rbind_eq_Inr Let_def split: if_splits option.splits prod.splits dest: wakeIn_ok desched_ok)

lemma unblockType_ok [simp]: "kernel_ok (unblockType ty t k) \<longleftrightarrow> kernel_ok k"
  by (auto simp: unblockType_def)

lemma unblockTypeWith_ok: "unblockTypeWith ty d t k = Inr k' \<Longrightarrow> kernel_ok k \<Longrightarrow> kernel_ok k'"
  by (auto simp: unblockTypeWith_def rbind_eq_Inr split: option.splits if_splits)

lemma for_tasks_ok:
  assumes step: "\<And>t k k'. f t k = Inr k' \<Longrightarrow> kernel_ok k \<Longrightarrow> kernel_ok k'"
  shows "for_tasks f fuel p k = Inr k' \<Longrightarrow> kernel_ok k \<Longrightarrow> kernel_ok k'"
proof (induction fuel arbitrary: p k)
  case 0
  then show ?case by (cases p) auto
next
  case (Suc fuel)
  then show ?case by (cases p) (auto simp: rbind_eq_Inr dest: step)
qed

lemma assignInternalTask_ok: "assignInternalTask t k = Inr (v, k') \<Longrightarrow> kernel_ok k \<Longrightarrow> kernel_ok k'"
  by (auto simp: assignInternalTask_def enter_heap_def enter_tss_def finish_call_def rbind_eq_Inr Let_def
      split: if_splits option.splits dest!: call_run_ok)

lemma cycleTask_ok: "cycleTask k = Inr k' \<Longrightarrow> kernel_ok k \<Longrightarrow> kernel_ok k'"
  by (auto simp: cycleTask_def rbind_eq_Inr dest: prepareFetchNextTask_ok)

lemma AkariMicrokernel_ok: "AkariMicrokernel r k = Inr (v, k') \<Longrightarrow> kernel_ok k \<Longrightarrow> kernel_ok k'"
  by (auto simp: AkariMicrokernel_def rbind_eq_Inr
      dest!: assignInternalTask_ok cycleTask_ok saveRegisterToTask_ok intro: timer_tick_ok)

section \<open>Leaving\<close>

lemma wake_waiters_ok: "wake_waiters k = Inr k' \<Longrightarrow> kernel_ok k \<Longrightarrow> kernel_ok k'"
  unfolding wake_waiters_def
  by (erule for_tasks_ok [rotated]) (auto split: if_splits dest: unblockTypeWith_ok)

lemma find_link_current:
  "find_link t k fuel l = Inr l' \<Longrightarrow> read_link k l' = Some t"
proof (induction fuel arbitrary: l)
  case (Suc fuel)
  then show ?case by (auto split: option.splits if_splits)
qed simp

text \<open>The task that a link leads to is on the list when the link was reached from its head.\<close>

lemma find_link_member:
  assumes "find_link t k fuel l = Inr l'" and "chain (\<lambda>t. t_next (k_task k t)) (read_link k l) xs"
  shows "t \<in> set xs"
  using assms
proof (induction fuel arbitrary: l xs)
  case (Suc fuel)
  from Suc.prems(1) obtain u where u: "read_link k l = Some u"
    and r: "u = t \<or> find_link t k fuel (NextOf u) = Inr l'"
    by (auto split: option.splits if_splits)
  from Suc.prems(2) u obtain ys where xs: "xs = u # ys" and "chain (\<lambda>t. t_next (k_task k t)) (t_next (k_task k u)) ys"
    by (cases xs) auto
  then have "chain (\<lambda>t. t_next (k_task k t)) (read_link k (NextOf u)) ys" by simp
  then show ?case using r Suc.IH [of "NextOf u" ys] xs by auto
qed simp

lemma unlink_current_ok:
  assumes "unlink_current k = Inr k'" and "kernel_ok k"
  shows "kernel_ok k'"
proof -
  from assms(2) obtain ts where ts: "task_list k ts" and pids: "by_pid_ok k" by (auto simp: kernel_ok_def)
  from assms(1) obtain l where "find_link (k_current k) k (Suc (k_count k)) Head = Inr l"
    and k': "k' = write_link l (t_next (cur k)) k"
    by (auto simp: unlink_current_def rbind_eq_Inr)
  then have "k_current k \<in> set ts" using ts find_link_member [where l = Head]
    by (simp add: task_list_def del: find_link.simps)
  then obtain bef aft where "ts = bef @ k_current k # aft" by (meson split_list)
  with ts obtain k1 where "unlink_current k = Inr k1" and "task_list k1 (bef @ aft)"
    using unlink_current_list by metis
  then have "\<exists>ts. task_list k' ts" using assms(1) by auto
  moreover have "by_pid_ok k'" using pids k' by (cases l) (auto simp: by_pid_ok_def)
  ultimately show ?thesis by (simp add: kernel_ok_def)
qed

lemma sysexit_ok: "sysexit k = Inr k' \<Longrightarrow> kernel_ok k \<Longrightarrow> kernel_ok k'"
  by (auto simp: sysexit_def forget_name_def rbind_eq_Inr split: option.splits
      dest!: unlink_current_ok returnToNextTask_ok wake_waiters_ok)

lemma user_panic_ok: "user_panic s k = Inr k' \<Longrightarrow> kernel_ok k \<Longrightarrow> kernel_ok k'"
  by (auto simp: user_panic_def dest: sysexit_ok)

lemma requirePrivilege_ok: "requirePrivilege p k = Inr k' \<Longrightarrow> kernel_ok k \<Longrightarrow> kernel_ok k'"
  by (auto simp: requirePrivilege_def rbind_eq_Inr split: if_splits dest: user_panic_ok)

lemma isr_handler_ok:
  assumes "\<And>n f r k v k'. routines n = Some f \<Longrightarrow> f r k = Inr (v, k') \<Longrightarrow> kernel_ok k \<Longrightarrow> kernel_ok k'"
  shows "isr_handler routines r k = Inr (v, k') \<Longrightarrow> kernel_ok k \<Longrightarrow> kernel_ok k'"
  by (auto simp: isr_handler_def rbind_eq_Inr Let_def split: option.splits if_splits
      dest!: assignInternalTask_ok unlink_current_ok prepareFetchNextTask_ok wake_waiters_ok dest: assms)

section \<open>Interrupts\<close>

lemma append_priority_ok:
  assumes "append_priority t k fuel u g = Inr k'" and "\<forall>k. kernel_ok (g k) \<longleftrightarrow> kernel_ok k" and "kernel_ok k"
  shows "kernel_ok k'"
  using assms
proof (induction t k fuel u g rule: append_priority.induct)
  case (1 t k fuel g)
  then have "k' = upd_task t (\<lambda>x. x\<lparr>t_priorityNext := None\<rparr>) (g k)" by simp
  then show ?case using 1(2,3) by simp
next
  case (3 t k fuel u g)
  then show ?case by simp
qed simp

lemma irq_listener_ok:
  assumes "irq_listener irq t k = Inr k'" and "kernel_ok k"
  shows "kernel_ok k'"
proof -
  let ?k1 = "unblockType (Some ''IRQWaitCall'') t (upd_task t (\<lambda>x. x\<lparr>t_irqListenHits := t_irqListenHits x + 1\<rparr>) k)"
  have k1: "kernel_ok ?k1" using assms(2) by simp
  define k1 where "k1 = ?k1"
  have "irq_listener irq t k =
      (if t_irqListen (k_task k t) = irq
       then if \<not> t_userWaiting (k_task k1 t)
            then append_priority t k1 (k_count k1) (k_priorityStart k1) (\<lambda>k'. k'\<lparr>k_priorityStart := Some t\<rparr>)
            else Inr k1
       else Inr k)"
    by (simp only: irq_listener_def Let_def k1_def)
  then consider "k' = k" | "k' = k1"
    | "append_priority t k1 (k_count k1) (k_priorityStart k1) (\<lambda>k'. k'\<lparr>k_priorityStart := Some t\<rparr>) = Inr k'"
    using assms(1) by (metis sum.inject(2))
  then show ?thesis
  proof cases
    case 3
    from append_priority_ok [OF this] k1 show ?thesis unfolding k1_def [symmetric] by simp
  qed (use assms(2) k1 k1_def in simp_all)
qed

lemma irq_listeners_ok:
  "for_tasks (irq_listener irq) fuel p k = Inr k' \<Longrightarrow> kernel_ok k \<Longrightarrow> kernel_ok k'"
  by (rule for_tasks_ok [of "irq_listener irq"]) (rule irq_listener_ok)

lemma irqt_callHandler_ok: "irqt_callHandler ri irq r k = Inr (v, k') \<Longrightarrow> kernel_ok k \<Longrightarrow> kernel_ok k'"
  by (auto simp: irqt_callHandler_def rbind_eq_Inr Let_def split: option.splits if_splits
      dest!: assignInternalTask_ok saveRegisterToTask_ok irq_listeners_ok)

lemma irq_handler_ok: "irq_handler ri r k = Inr (v, k', io) \<Longrightarrow> kernel_ok k \<Longrightarrow> kernel_ok k'"
  by (auto simp: irq_handler_def rbind_eq_Inr Let_def dest!: irqt_callHandler_ok)

section \<open>System calls\<close>

lemma user_putc_ok: "user_putc c k = Inr k' \<Longrightarrow> kernel_ok k \<Longrightarrow> kernel_ok k'"
  by (auto simp: user_putc_def rbind_eq_Inr dest: requirePrivilege_ok)

lemma user_puts_ok: "user_puts c k = Inr k' \<Longrightarrow> kernel_ok k \<Longrightarrow> kernel_ok k'"
  by (auto simp: user_puts_def rbind_eq_Inr dest: requirePrivilege_ok)

lemma block_on_ok: "block_on c k = Inr k' \<Longrightarrow> kernel_ok k \<Longrightarrow> kernel_ok k'"
  by (auto simp: block_on_def dest: returnToNextTask_ok)

lemma run_or_block_ok: "run_or_block b c k = Inr (v, k') \<Longrightarrow> kernel_ok k \<Longrightarrow> kernel_ok k'"
  by (auto simp: run_or_block_def rbind_eq_Inr split: if_splits dest!: call_run_ok block_on_ok)

lemma irqWait_ok: "irqWait k = Inr k' \<Longrightarrow> kernel_ok k \<Longrightarrow> kernel_ok k'"
  by (auto simp: irqWait_def rbind_eq_Inr dest!: requirePrivilege_ok run_or_block_ok)

lemma irqWaitTimeout_ok: "irqWaitTimeout ms k = Inr (v, k') \<Longrightarrow> kernel_ok k \<Longrightarrow> kernel_ok k'"
  by (auto simp: irqWaitTimeout_def rbind_eq_Inr dest!: requirePrivilege_ok run_or_block_ok)

lemma irqListen_ok: "irqListen irq k = Inr k' \<Longrightarrow> kernel_ok k \<Longrightarrow> kernel_ok k'"
  by (auto simp: irqListen_def rbind_eq_Inr dest!: requirePrivilege_ok)

lemma irqCheck_ok: "irqCheck k = (b, k') \<Longrightarrow> kernel_ok k \<Longrightarrow> kernel_ok k'"
  by (auto simp: irqCheck_def split: if_splits)

lemma cur_alloc_ok: "cur_alloc n k = Inr (p, k') \<Longrightarrow> kernel_ok k \<Longrightarrow> kernel_ok k'"
  by (auto simp: cur_alloc_def rbind_eq_Inr split: option.splits)

lemma user_malloc_ok: "user_malloc n k = Inr (p, k') \<Longrightarrow> kernel_ok k \<Longrightarrow> kernel_ok k'"
  by (auto simp: user_malloc_def rbind_eq_Inr dest!: requirePrivilege_ok cur_alloc_ok)

lemma user_free_ok: "user_free p k = Inr k' \<Longrightarrow> kernel_ok k \<Longrightarrow> kernel_ok k'"
  by (auto simp: user_free_def rbind_eq_Inr Let_def split: option.splits if_splits dest!: requirePrivilege_ok user_panic_ok)

lemma copy_out_ok: "copy_out s k = Inr (p, k') \<Longrightarrow> kernel_ok k \<Longrightarrow> kernel_ok k'"
  by (auto simp: copy_out_def rbind_eq_Inr split: option.splits dest!: cur_alloc_ok)

lemma process_infos_ok: "process_infos n t k = Inr (is, k') \<Longrightarrow> kernel_ok k \<Longrightarrow> kernel_ok k'"
proof (induction n t k arbitrary: "is" k' rule: process_infos.induct)
  case (3 n t k)
  from 3(2) obtain nm k1 rn k2 "is" where c: "copy_out (if t_name (k_task k t) \<noteq> [] then Some (t_name (k_task k t)) else None) k = Inr (nm, k1)"
    "copy_out (t_registeredName (k_task k1 t)) k1 = Inr (rn, k2)" "process_infos n (t_next (k_task k2 t)) k2 = Inr (is, k')"
    by (auto simp: rbind_eq_Inr)
  have "kernel_ok k2" using copy_out_ok [OF c(2) copy_out_ok [OF c(1) 3(3)]] .
  with 3(1) [OF c(1) _ c(2) _ c(3)] show ?case by simp
qed auto

lemma write_infos_ok [simp]: "kernel_ok (write_infos a is k) \<longleftrightarrow> kernel_ok k"
  by (induction a "is" k rule: write_infos.induct) simp_all

lemma sys_getProcessList_ok: "sys_getProcessList p k = Inr (v, k') \<Longrightarrow> kernel_ok k \<Longrightarrow> kernel_ok k'"
  by (auto simp: sys_getProcessList_def getProcessList_def rbind_eq_Inr split: option.splits
      dest!: cur_alloc_ok process_infos_ok)

lemma registerName_ok: "registerName pid s k = Inr (b, k') \<Longrightarrow> kernel_ok k \<Longrightarrow> kernel_ok k'"
proof -
  have "for_tasks (\<lambda>u k'. Inr (wake_by_name s u k')) f p k1 = Inr k2 \<Longrightarrow> kernel_ok k1 \<Longrightarrow> kernel_ok k2" for f p k1 k2
    by (rule for_tasks_ok [of "\<lambda>u k'. Inr (wake_by_name s u k')"]) (auto simp: wake_by_name_def split: if_splits)
  then show "registerName pid s k = Inr (b, k') \<Longrightarrow> kernel_ok k \<Longrightarrow> kernel_ok k'"
    by (auto simp: registerName_def rbind_eq_Inr Let_def split: option.splits if_splits dest!: requirePrivilege_ok)
qed

lemma registerStream_ok: "registerStream s k = Inr (b, k') \<Longrightarrow> kernel_ok k \<Longrightarrow> kernel_ok k'"
  by (auto simp: registerStream_def Let_def split: if_splits)

lemma obtainStreamWriter_ok: "obtainStreamWriter pid s e k = Inr (b, k') \<Longrightarrow> kernel_ok k \<Longrightarrow> kernel_ok k'"
  by (auto simp: obtainStreamWriter_def rbind_eq_Inr Let_def case_prod_beta split: option.splits)

lemma obtainStreamListener_ok: "obtainStreamListener pid s k = Inr (b, k') \<Longrightarrow> kernel_ok k \<Longrightarrow> kernel_ok k'"
  by (auto simp: obtainStreamListener_def rbind_eq_Inr Let_def case_prod_beta split: option.splits)

lemma hook_call_ok [simp]: "kernel_ok (hook_call c k) \<longleftrightarrow> kernel_ok k"
  by (cases c) simp_all

lemma readStream_impl_ok: "readStream_impl pid s l a n b k = Inr (v, k') \<Longrightarrow> kernel_ok k \<Longrightarrow> kernel_ok k'"
  by (auto simp: readStream_impl_def rbind_eq_Inr split: if_splits dest!: call_run_ok returnToNextTask_ok)

lemma append_listener_ok [simp]: "kernel_ok (append_listener s d i k) \<longleftrightarrow> kernel_ok k"
  by (auto simp: append_listener_def Let_def split: option.splits)

lemma writeAllListeners_ok [simp]: "kernel_ok (writeAllListeners s d k) \<longleftrightarrow> kernel_ok k"
proof -
  have "kernel_ok (fold (append_listener s d) xs k) \<longleftrightarrow> kernel_ok k" for xs by (induction xs arbitrary: k) simp_all
  then show ?thesis by (simp add: writeAllListeners_def)
qed

lemma writeStream_ok: "writeStream pid s w d k = Inr (v, k') \<Longrightarrow> kernel_ok k \<Longrightarrow> kernel_ok k'"
  by (auto simp: writeStream_def rbind_eq_Inr split: option.splits if_splits)

lemma readQueue_ok: "readQueue i d off n k = Inr (v, k') \<Longrightarrow> kernel_ok k \<Longrightarrow> kernel_ok k'"
  by (auto simp: readQueue_def Let_def split: option.splits if_splits)

lemma sys_grabQueue_ok: "sys_grabQueue i k = Inr (v, k') \<Longrightarrow> kernel_ok k \<Longrightarrow> kernel_ok k'"
  by (auto simp: sys_grabQueue_def grabQueue_def rbind_eq_Inr split: option.splits dest!: cur_alloc_ok readQueue_ok)

lemma sendQueue_ok: "sendQueue pid r d k = Inr (v, k') \<Longrightarrow> kernel_ok k \<Longrightarrow> kernel_ok k'"
  by (auto simp: sendQueue_def queue_push_back_def rbind_eq_Inr Let_def split: option.splits dest!: unblockTypeWith_ok)

section \<open>Processes\<close>

lemma kernel_ok_byPid_null: "kernel_ok k \<Longrightarrow> kernel_ok (k\<lparr>k_byPid := k_byPid k @ [(pid, None)]\<rparr>)"
  by (auto simp: kernel_ok_def task_list_def by_pid_ok_def map_find_append split: option.splits if_splits)

lemma task_by_pid_ok:
  assumes "task_by_pid pid k = (r, k')" and "kernel_ok k"
  shows "kernel_ok k'" and "r = Some t \<Longrightarrow> t < k_count k' \<and> t_id (k_task k' t) = pid"
    and "k_task k' = k_task k" and "k_start k' = k_start k"
proof -
  have k': "k' = k\<lparr>k_byPid := k_byPid k\<rparr> \<or> k' = k\<lparr>k_byPid := k_byPid k @ [(pid, None)]\<rparr>"
    and r: "r = Some t \<Longrightarrow> map_find (k_byPid k) pid = Some (Some t)"
    using assms(1) by (auto simp: task_by_pid_def map_index_def Let_def split: option.splits)
  have "k\<lparr>k_byPid := k_byPid k\<rparr> = k" by simp
  with k' show "kernel_ok k'" using kernel_ok_byPid_null assms(2) by metis
  show "k_task k' = k_task k" "k_start k' = k_start k" using k' by auto
  show "r = Some t \<Longrightarrow> t < k_count k' \<and> t_id (k_task k' t) = pid"
    using r k' assms(2) by (auto simp: kernel_ok_def by_pid_ok_def)
qed

lemma grantPrivilege_links:
  "grantPrivilege p t = Inr t' \<Longrightarrow> t_next t' = t_next t \<and> t_id t' = t_id t"
  by (auto simp: grantPrivilege_def rbind_eq_Inr)

lemma user_grantPrivilege_ok:
  assumes "user_grantPrivilege pid p k = Inr (b, k')" and "kernel_ok k"
  shows "kernel_ok k'"
proof -
  from assms(1) obtain k1 where k1: "requirePrivilege PRIV_GRANT_PRIV k = Inr k1"
    by (auto simp: user_grantPrivilege_def rbind_eq_Inr)
  obtain r k2 where r: "task_by_pid pid k1 = (r, k2)" by (cases "task_by_pid pid k1")
  have k': "r = None \<and> k' = k2 \<or> (\<exists>t t'. r = Some t \<and> grantPrivilege (unat p) (k_task k2 t) = Inr t' \<and> k' = upd_task t (\<lambda>_. t') k2)"
    using assms(1) k1 r by (auto simp: user_grantPrivilege_def rbind_eq_Inr split: option.splits)
  have "kernel_ok k2" using task_by_pid_ok(1) [OF r requirePrivilege_ok [OF k1 assms(2)]] .
  then show ?thesis using k' grantPrivilege_links by auto
qed

lemma user_grantIOPriv_ok:
  assumes "user_grantIOPriv pid p k = Inr (b, k')" and "kernel_ok k"
  shows "kernel_ok k'"
proof -
  from assms(1) obtain k1 where k1: "requirePrivilege PRIV_GRANT_PRIV k = Inr k1"
    by (auto simp: user_grantIOPriv_def rbind_eq_Inr)
  obtain r k2 where r: "task_by_pid pid k1 = (r, k2)" by (cases "task_by_pid pid k1")
  have k': "k' = k2 \<or> (\<exists>t. k' = upd_task t (setIOMap p True) k2)"
    using assms(1) k1 r by (auto simp: user_grantIOPriv_def rbind_eq_Inr split: option.splits)
  have "kernel_ok k2" using task_by_pid_ok(1) [OF r requirePrivilege_ok [OF k1 assms(2)]] .
  then show ?thesis using k' by (auto simp: setIOMap_def Let_def)
qed

text \<open>Starting a process keeps the list when the process is not on it yet.\<close>

lemma beginExecution_ok:
  assumes "beginExecution pid k = (b, k')" and "kernel_ok k"
    and new: "\<And>t ts. task_list k ts \<Longrightarrow> t \<in> set ts \<Longrightarrow> t_id (k_task k t) \<noteq> pid"
  shows "kernel_ok k'"
proof -
  obtain r k1 where r: "task_by_pid pid k = (r, k1)" by (cases "task_by_pid pid k")
  note tp = task_by_pid_ok [OF r assms(2)]
  show ?thesis
  proof (cases r)
    case None
    then show ?thesis using assms(1) r tp(1) by (simp add: beginExecution_def)
  next
    case (Some t)
    note t = tp(2) [OF Some]
    have k': "k' = (upd_task t (\<lambda>x. x\<lparr>t_next := k_start k1\<rparr>) k1)\<lparr>k_start := Some t\<rparr>"
      using assms(1) r Some by (simp add: beginExecution_def)
    from tp(1) obtain ts where ts: "task_list k1 ts" and pids: "by_pid_ok k1" by (auto simp: kernel_ok_def)
    have "k_count k1 = k_count k"
      using r by (auto simp: task_by_pid_def map_index_def Let_def split: option.splits)
    then have "task_list k ts" using ts tp(3,4) by (simp add: task_list_def)
    then have fresh: "t \<notin> set ts" using new t tp(3) by metis
    have "chain (\<lambda>u. t_next (k_task k1 u)) (k_start k1) ts" using ts by (simp add: task_list_def)
    then have "chain (\<lambda>u. t_next (k_task k' u)) (k_start k1) ts" by (rule chain_cong) (use fresh k' in auto)
    then have "task_list k' (t # ts)" using ts t k' by (simp add: task_list_def)
    moreover have "by_pid_ok k'" using pids k' by (auto simp: by_pid_ok_def)
    ultimately show ?thesis by (auto simp: kernel_ok_def)
  qed
qed

lemma user_nanosleep_ok: "user_nanosleep a b c k = Inr (v, k') \<Longrightarrow> kernel_ok k \<Longrightarrow> kernel_ok k'"
  by (auto simp: user_nanosleep_def rbind_eq_Inr split: if_splits dest!: user_panic_ok run_or_block_ok)

section \<open>Calls on page tables\<close>

lemma physAddr_ok: "physAddr a mc = Inr (v, mc') \<Longrightarrow> kernel_ok (mc_kernel mc) \<Longrightarrow> kernel_ok (mc_kernel mc')"
  by (auto simp: physAddr_def rbind_eq_Inr Let_def dest!: requirePrivilege_ok)

lemma mallocap_ok: "mallocap n p mc = Inr (v, mc') \<Longrightarrow> kernel_ok (mc_kernel mc) \<Longrightarrow> kernel_ok (mc_kernel mc')"
  by (auto simp: mallocap_def rbind_eq_Inr split: option.splits dest!: physAddr_ok requirePrivilege_ok)

lemma mapPhysicalMem_ok:
  assumes "mapPhysicalMem pid a b c w mc = Inr (v, mc')" and "kernel_ok (mc_kernel mc)"
  shows "kernel_ok (mc_kernel mc')"
proof -
  from assms(1) obtain k1 k2 where k: "requirePrivilege PRIV_GRANT_PRIV (mc_kernel mc) = Inr k1"
    "requirePrivilege PRIV_PHYSADDR k1 = Inr k2"
    by (auto simp: mapPhysicalMem_def rbind_eq_Inr)
  obtain r k3 where r: "task_by_pid pid k2 = (r, k3)" by (cases "task_by_pid pid k2")
  have "mc_kernel mc' = k3"
    using assms(1) k r by (auto simp: mapPhysicalMem_def rbind_eq_Inr split: option.splits simp del: map_pages.simps)
  then show ?thesis using task_by_pid_ok(1) [OF r requirePrivilege_ok [OF k(2) requirePrivilege_ok [OF k(1) assms(2)]]] by simp
qed

lemma load_segment_kernel: "load_segment d w img ph c mc = Inr mc' \<Longrightarrow> mc_kernel mc' = mc_kernel mc"
proof (induction d w img ph c mc rule: load_segment.induct)
  case (1 d w img ph c mc)
  show ?case
  proof (cases "c < p_memsz ph")
    case True
    with 1(2) obtain mc1 where mc1: "load_page d w img ph c mc = Inr mc1"
      and rest: "load_segment d w img ph (c + elf_copy ph c) mc1 = Inr mc'"
      by (auto simp: load_segment.simps [of d w img ph c] rbind_eq_Inr)
    have "mc_kernel mc1 = mc_kernel mc" using mc1 by (auto simp: load_page_def Let_def rbind_eq_Inr write_frame_def)
    with 1(1) [OF True mc1 rest] show ?thesis by simp
  qed (use 1(2) in \<open>simp add: load_segment.simps\<close>)
qed

lemma loadImageInto_ok:
  assumes "loadImageInto t img mc = Inr (b, mc')" and "kernel_ok (mc_kernel mc)"
  shows "kernel_ok (mc_kernel mc')"
proof -
  have heads: "for_each (load_header d w img hdr) xs mc1 = Inr mc2 \<Longrightarrow> mc_kernel mc2 = mc_kernel mc1" for d w hdr xs mc1 mc2
    by (induction xs arbitrary: mc1)
      (auto simp: load_header_def rbind_eq_Inr split: if_splits dest!: load_segment_kernel)
  show ?thesis using assms
    by (auto simp: loadImageInto_def Let_def rbind_eq_Inr set_frame_regs_def split: if_splits option.splits dest!: heads)
qed

lemma task_new_ok:
  assumes "task_new cpl name k = Inr (t, k')" and "kernel_ok k"
  shows "kernel_ok k'" and "t < k_count k'"
proof -
  obtain x where k': "k' = upd_task (k_count k) (\<lambda>_. x) (k\<lparr>k_count := Suc (k_count k), k_lastPid := k_lastPid k + 1\<rparr>)"
    and t: "t = k_count k"
    using assms(1) by (auto simp: task_new_def Let_def rbind_eq_Inr)
  from assms(2) obtain ts where ts: "task_list k ts" and pids: "by_pid_ok k" by (auto simp: kernel_ok_def)
  then have "k_count k \<notin> set ts" by (auto simp: task_list_def)
  then have "chain (\<lambda>u. t_next (k_task k' u)) (k_start k) ts"
    using ts by (auto simp: task_list_def k' intro: chain_cong)
  then have "task_list k' ts" using ts by (auto simp: task_list_def k')
  moreover have "by_pid_ok k'" using pids by (auto simp: by_pid_ok_def k' less_Suc_eq)
  ultimately show "kernel_ok k'" by (auto simp: kernel_ok_def)
  show "t < k_count k'" by (simp add: t k')
qed

lemma set_frame_regs_ok [simp]: "kernel_ok (set_frame_regs ks f k) \<longleftrightarrow> kernel_ok k"
  by (simp add: set_frame_regs_def)

lemma load_task_argv_kernel: "load_task_argv t args mc = Inr (b, mc') \<Longrightarrow> mc_kernel mc' = mc_kernel mc"
  by (auto simp: load_task_argv_def rbind_eq_Inr Let_def write_frame_def copyFramePhysical_def)

lemma stacks_ok:
  "user_stack t cpl args mc = Inr (ks, mc') \<Longrightarrow> kernel_ok (mc_kernel mc') = kernel_ok (mc_kernel mc) \<and>
     k_task (mc_kernel mc') = k_task (mc_kernel mc) \<and> k_count (mc_kernel mc') = k_count (mc_kernel mc)"
  "kernel_stack mc = Inr (ks, mc') \<Longrightarrow> mc_kernel mc' = mc_kernel mc"
  by (auto simp: user_stack_def kernel_stack_def rbind_eq_Inr Let_def set_frame_regs_def dest!: load_task_argv_kernel)

lemma kernel_ok_enter_pid:
  assumes "kernel_ok k" and "t < k_count k"
  shows "kernel_ok (k\<lparr>k_byPid := map_put (k_byPid k) (t_id (k_task k t)) (Some t)\<rparr>)"
  using assms by (auto simp: kernel_ok_def task_list_def by_pid_ok_def map_find_put split: if_splits)

lemma CreateTask_ok:
  assumes "CreateTask e cpl fl iopl d name args mc = Inr (t, mc')" and "kernel_ok (mc_kernel mc)"
  shows "kernel_ok (mc_kernel mc')"
proof -
  from assms(1) obtain k1 dir m1 ks mc2 m2 where nt: "task_new cpl name (mc_kernel mc) = Inr (t, k1)"
    and mc2: "(if cpl > 0 then user_stack t cpl args (mc\<lparr>mc_kernel := upd_task t (\<lambda>x. x\<lparr>t_pageDir := dir\<rparr>) k1, mc_memory := m1\<rparr>)
        else kernel_stack (mc\<lparr>mc_kernel := upd_task t (\<lambda>x. x\<lparr>t_pageDir := dir\<rparr>) k1, mc_memory := m1\<rparr>)) = Inr (ks, mc2)"
    and mc': "mc' = (let k3 = upd_task t (\<lambda>x. x\<lparr>t_ks := ks, t_heapStart := PROCESS_HEAP_START,
           t_heapEnd := PROCESS_HEAP_START + PROCESS_HEAP_SIZE, t_heapMax := PROCESS_HEAP_START + PROCESS_HEAP_SIZE\<rparr>)
           (set_frame_regs ks (callback_init e cpl fl iopl) (mc_kernel mc2))
         in mc2\<lparr>mc_kernel := k3\<lparr>k_byPid := map_put (k_byPid k3) (t_id (k_task k3 t)) (Some t)\<rparr>, mc_memory := m2\<rparr>)"
    by (auto simp: CreateTask_def rbind_eq_Inr Let_def)
  define k2 where "k2 = upd_task t (\<lambda>x. x\<lparr>t_pageDir := dir\<rparr>) k1"
  have ok2: "kernel_ok k2" "t < k_count k2" using task_new_ok [OF nt assms(2)] by (simp_all add: k2_def)
  have "kernel_ok (mc_kernel mc2)" "k_count (mc_kernel mc2) = k_count k2"
    using mc2 ok2 stacks_ok by (auto simp: k2_def split: if_splits)
  define k3 where "k3 = upd_task t (\<lambda>x. x\<lparr>t_ks := ks, t_heapStart := PROCESS_HEAP_START,
     t_heapEnd := PROCESS_HEAP_START + PROCESS_HEAP_SIZE, t_heapMax := PROCESS_HEAP_START + PROCESS_HEAP_SIZE\<rparr>)
     (set_frame_regs ks (callback_init e cpl fl iopl) (mc_kernel mc2))"
  have "kernel_ok k3" "t < k_count k3"
    using \<open>kernel_ok (mc_kernel mc2)\<close> \<open>k_count (mc_kernel mc2) = k_count k2\<close> ok2(2)
    by (simp_all add: k3_def) (simp add: set_frame_regs_def)
  then show ?thesis unfolding mc' Let_def k3_def [symmetric] by (simp add: kernel_ok_enter_pid)
qed

lemma sys_spawn_ok: "sys_spawn n e l a mc = Inr (v, mc') \<Longrightarrow> kernel_ok (mc_kernel mc) \<Longrightarrow> kernel_ok (mc_kernel mc')"
  by (auto simp: sys_spawn_def spawn_def Let_def rbind_eq_Inr dest!: loadImageInto_ok CreateTask_ok)

section \<open>The table\<close>

definition preserving :: "syscall_fn \<Rightarrow> bool" where
  "preserving f \<longleftrightarrow> (\<forall>r mc v mc'. f r mc = Inr (v, mc') \<longrightarrow> kernel_ok (mc_kernel mc) \<longrightarrow> kernel_ok (mc_kernel mc'))"

lemma preserving_on_kernel:
  assumes "\<And>r k v k'. f r k = Inr (v, k') \<Longrightarrow> kernel_ok k \<Longrightarrow> kernel_ok k'"
  shows "preserving (on_kernel f)"
  using assms by (auto simp: preserving_def on_kernel_def rbind_eq_Inr)

lemma no_value_Inr: "no_value j x = Inr (v, k') \<longleftrightarrow> v = j \<and> x = Inr k'"
  by (auto simp: no_value_def rbind_eq_Inr)

lemma bool_value_Inr: "bool_value x = Inr (v, k') \<longleftrightarrow> (\<exists>b. x = Inr (b, k') \<and> v = (if b then 1 else 0))"
  by (auto simp: bool_value_def rbind_eq_Inr)

lemma with_name_Inr: "with_name p f k = Inr y \<longleftrightarrow> (\<exists>s. user_string k p = Inr s \<and> f (Some (chars s)) k = Inr y)"
  by (auto simp: with_name_def rbind_eq_Inr)

lemmas call_ok = user_putc_ok user_puts_ok irqWait_ok irqWaitTimeout_ok irqListen_ok irqCheck_ok user_panic_ok sysexit_ok
  user_malloc_ok user_free_ok sys_getProcessList_ok run_or_block_ok registerName_ok registerStream_ok obtainStreamWriter_ok
  obtainStreamListener_ok readStream_impl_ok writeStream_ok readQueue_ok sys_grabQueue_ok sendQueue_ok user_grantPrivilege_ok
  user_grantIOPriv_ok user_nanosleep_ok returnToNextTask_ok requirePrivilege_ok

lemma syscalls_preserving:
  assumes "(n, f) \<in> set (syscalls junk)" and "n \<noteq> 47"
  shows "preserving f"
proof -
  have "list_all (\<lambda>(n, f). n = 47 \<or> preserving f) (syscalls junk)"
    unfolding syscalls_def list.pred_inject prod.case
    by (intro conjI list.pred_inject(1);
       ((rule disjI1, rule refl) |
        (rule disjI2, rule preserving_on_kernel,
          force simp: no_value_Inr bool_value_Inr with_name_Inr rbind_eq_Inr user_defer_def user_sysreboot_def
            waitProcess_def processIdByName_impl_def probeQueue_impl_def sys_nanosleep_def shiftQueue_def dest: call_ok) |
        (rule disjI2, force simp: preserving_def bool_value_Inr process_fork_def
            dest: mallocap_ok physAddr_ok sys_spawn_ok mapPhysicalMem_ok)))
  then show ?thesis using assms by (auto simp: list_all_iff)
qed

section \<open>Steps\<close>

lemma set_eax_ok [simp]: "kernel_ok (set_eax f v k) \<longleftrightarrow> kernel_ok k"
  by (simp add: set_eax_def)

lemma leave_call_ok: "leave_call f k = Inr (v, k') \<Longrightarrow> kernel_ok k \<Longrightarrow> kernel_ok k'"
  by (auto simp: leave_call_def rbind_eq_Inr split: option.splits dest!: assignInternalTask_ok saveRegisterToTask_ok)

text \<open>A process that is started is not running yet: what keeps the task list a list.\<close>

definition starts_new :: "u32 \<Rightarrow> kernel \<Rightarrow> bool" where
  "starts_new frame k \<longleftrightarrow>
     (let r = k_frames k frame in r_eax r = 47 \<longrightarrow> getTaskById (r_ebx r) k = Inr None)"

lemma begin_call_ok:
  assumes "bool_value (Inr (beginExecution pid k)) = Inr (v, k')" and "kernel_ok k" and "getTaskById pid k = Inr None"
  shows "kernel_ok k'"
proof -
  obtain b where b: "beginExecution pid k = (b, k')" using assms(1) by (auto simp: bool_value_Inr)
  have "t_id (k_task k t) \<noteq> pid" if "task_list k ts" "t \<in> set ts" for t ts
    using assms(3) find_task_list [OF that(1), of "\<lambda>t. t_id t = pid"] that(2) by (auto simp: getTaskById_def find_None_iff)
  then show ?thesis using beginExecution_ok [OF b assms(2)] by blast
qed

lemma getTaskById_returnTask: "getTaskById pid (k\<lparr>k_returnTask := x\<rparr>) = getTaskById pid k"
proof -
  have "find_task P (k\<lparr>k_returnTask := x\<rparr>) n p = find_task P k n p" for P n p
    by (induction n arbitrary: p) (case_tac p; simp)+
  then show ?thesis by (simp add: getTaskById_def)
qed

lemma syscall_handler_ok:
  assumes "syscall_handler (syscalls junk) frame mc = Inr (v, mc')" and "kernel_ok (mc_kernel mc)"
    and "starts_new frame (mc_kernel mc)"
  shows "kernel_ok (mc_kernel mc')"
proof -
  let ?r = "k_frames (mc_kernel mc) frame" and ?mc = "upd_kernel (\<lambda>k. k\<lparr>k_returnTask := None\<rparr>) mc"
  from assms(1) obtain f ret mc1 k2 where f: "map_find (syscalls junk) (r_eax ?r) = Some f"
    and call: "f ?r ?mc = Inr (ret, mc1)" and leave: "leave_call frame (set_eax frame ret (mc_kernel mc1)) = Inr (v, k2)"
    and mc': "mc' = mc1\<lparr>mc_kernel := k2\<rparr>"
    by (auto simp: syscall_handler_def Let_def rbind_eq_Inr split: if_splits option.splits)
  have ok: "kernel_ok (mc_kernel ?mc)" using assms(2) by (simp add: upd_kernel_def)
  have "kernel_ok (mc_kernel mc1)"
  proof (cases "r_eax ?r = 47")
    case False
    have "(r_eax ?r, f) \<in> set (syscalls junk)" using f by (rule map_find_member)
    from syscalls_preserving [OF this False] show ?thesis using call ok by (auto simp: preserving_def)
  next
    case True
    then have "f = on_kernel (\<lambda>r k. bool_value (Inr (beginExecution (r_ebx r) k)))"
      using f by (simp add: syscalls_def)
    then obtain k1 where "bool_value (Inr (beginExecution (r_ebx ?r) (mc_kernel ?mc))) = Inr (ret, k1)" and "mc_kernel mc1 = k1"
      using call by (auto simp: on_kernel_def rbind_eq_Inr)
    moreover have "getTaskById (r_ebx ?r) (mc_kernel ?mc) = Inr None"
      using assms(3) True by (simp add: starts_new_def Let_def upd_kernel_def getTaskById_returnTask)
    ultimately show ?thesis using begin_call_ok ok by blast
  qed
  then show ?thesis using leave_call_ok [OF leave] mc' by simp
qed

text \<open>The handler of page faults prints and returns null.\<close>

definition exception_routines :: "u8 \<Rightarrow> (u32 \<Rightarrow> kernel \<Rightarrow> (u32 \<times> kernel) result) option" where
  "exception_routines n = (if n = 14 then Some (\<lambda>r k. Inr (0, k)) else None)"

text \<open>
  One event: a process runs and changes its registers and memory, or the kernel handles an interrupt of its. A
  fault of the kernel is not a step: it stops there.
\<close>

inductive step :: "machine \<Rightarrow> machine \<Rightarrow> bool" where
  process: "step mc (mc\<lparr>mc_kernel := (mc_kernel mc)\<lparr>k_frames := f, k_mem := m\<rparr>, mc_frame := g\<rparr>)"
| system_call: "syscall_handler (syscalls junk) frame mc = Inr (resume, mc') \<Longrightarrow> starts_new frame (mc_kernel mc) \<Longrightarrow>
    step mc mc'"
| timer: "AkariMicrokernel frame (mc_kernel mc) = Inr (resume, k') \<Longrightarrow> step mc (mc\<lparr>mc_kernel := k'\<rparr>)"
| irq: "irq_handler installed frame (mc_kernel mc) = Inr (resume, k', io) \<Longrightarrow> step mc (mc\<lparr>mc_kernel := k'\<rparr>)"
| exception: "isr_handler exception_routines frame (mc_kernel mc) = Inr (resume, k') \<Longrightarrow> step mc (mc\<lparr>mc_kernel := k'\<rparr>)"

lemma step_ok:
  assumes "step mc mc'" and ok: "kernel_ok (mc_kernel mc)"
  shows "kernel_ok (mc_kernel mc')"
  using assms(1)
proof (cases rule: step.cases)
  case (exception frame resume k')
  have "kernel_ok k2" if "exception_routines n = Some g" "g r k1 = Inr (v, k2)" "kernel_ok k1" for n g r v k1 k2
    using that by (auto simp: exception_routines_def split: if_splits)
  from isr_handler_ok [of exception_routines, OF this] exception ok show ?thesis by auto
qed (use ok syscall_handler_ok AkariMicrokernel_ok irq_handler_ok in auto)

text \<open>
  Claim C8. Whatever system calls, timer ticks, interrupts and exceptions follow one another, and whatever the processes
  do in between, as long as no running process is started again: the task list stays a list without repetition of tasks
  that exist, so that the search for a process by its pid always ends, with the first task of that pid on the
  list; and an entry of the table of processes by pid is a task with that pid.
\<close>

theorem reachable_task_list:
  assumes "step\<^sup>*\<^sup>* mc0 mc" and "kernel_ok (mc_kernel mc0)"
  shows "\<exists>ts. task_list (mc_kernel mc) ts \<and> distinct ts \<and>
    (\<forall>pid. getTaskById pid (mc_kernel mc) = Inr (find (\<lambda>t. t_id (k_task (mc_kernel mc) t) = pid) ts)) \<and>
    (\<forall>pid t. map_find (k_byPid (mc_kernel mc)) pid = Some (Some t) \<longrightarrow>
      t < k_count (mc_kernel mc) \<and> t_id (k_task (mc_kernel mc) t) = pid)"
proof -
  from assms have "kernel_ok (mc_kernel mc)"
    by (induction rule: rtranclp_induct) (auto intro: step_ok)
  then obtain ts where ts: "task_list (mc_kernel mc) ts" and pids: "by_pid_ok (mc_kernel mc)"
    by (auto simp: kernel_ok_def)
  moreover have "distinct ts" using ts by (auto simp: task_list_def dest: chain_distinct)
  moreover have "getTaskById pid (mc_kernel mc) = Inr (find (\<lambda>t. t_id (k_task (mc_kernel mc) t) = pid) ts)" for pid
    using find_task_list [OF ts] by (simp add: getTaskById_def)
  ultimately show ?thesis by (auto simp: by_pid_ok_def)
qed

end
