(* ===== verification/Gates.thy ===== *)
theory Gates
  imports Dispatch
begin

text \<open>
  The user's side of a system call: the functions that the headers define for programs
  (\<^verbatim>\<open>src/inc/UserGates.hpp\<close> and the \<^verbatim>\<open>__AKARI_LINKAGE\<close> parts of \<^verbatim>\<open>UserCalls.hpp\<close>, \<^verbatim>\<open>UserIPC.hpp\<close>,
  \<^verbatim>\<open>UserIPCQueue.hpp\<close> and \<^verbatim>\<open>UserProcess.hpp\<close>), each with its number and its arguments in registers. Pointers are
  addresses.
\<close>

section \<open>The functions\<close>

datatype user_call =
    Sys_Putc u8 | Sys_Puts u32 | Sys_GetProcessId | Sys_IrqWait | Sys_IrqWaitTimeout u32 | Sys_IrqListen u32 | Sys_IrqCheck | Sys_Ticks | Sys_TickHz
  | Sys_Panic u32 | Sys_Sysexit | Sys_Defer | Sys_Malloc u32 | Sys_Mallocap u32 u32 | Sys_PhysAddr u32 | Sys_Free u32 | Sys_Sysreboot

datatype ipc_call =
    Sys_GetProcessList u32 | Sys_WaitProcess u32 | Sys_ProcessId | Sys_ProcessIdByName u32 | Sys_ProcessIdByNameBlock u32 | Sys_RegisterName u32 u32
  | Sys_RegisterStream u32 | Sys_ObtainStreamWriter u32 u32 bool | Sys_ObtainStreamListener u32 u32
  | Sys_ReadStream u32 u32 u32 u32 u32 | Sys_ReadStreamUnblock u32 u32 u32 u32 u32 | Sys_WriteStream u32 u32 u32 u32 u32

datatype queue_call =
    Sys_ProbeQueue | Sys_ProbeQueueUnblock | Sys_ProbeQueueFor u32 | Sys_ProbeQueueForUnblock u32 | Sys_ReadQueue u32 u32 u32 u32
  | Sys_GrabQueue u32 | Sys_ShiftQueue u32 | Sys_SendQueue u32 u32 u32 u32

datatype process_call =
    Sys_Fork | Sys_Spawn u32 u32 u32 u32 | Sys_MapPhysicalMem u32 u32 u32 u32 bool | Sys_GrantPrivilege u32 u16 | Sys_GrantIOPriv u32 u16
  | Sys_BeginExecution u32 | Sys_Nanosleep u32 u32

section \<open>Gates\<close>

text \<open>The conversions to \<^verbatim>\<open>int\<close>: a character is signed.\<close>

definition int_of_char :: "u8 \<Rightarrow> u32" where "int_of_char c = scast c"
definition int_of_bool :: "bool \<Rightarrow> u32" where "int_of_bool b = (if b then 1 else 0)"
definition int_of_u16 :: "u16 \<Rightarrow> u32" where "int_of_u16 w = ucast w"

definition user_gate :: "user_call \<Rightarrow> u32 \<times> u32 list" where
  "user_gate c = (case c of
     Sys_Putc p1 \<Rightarrow> (0, [int_of_char p1])
   | Sys_Puts p1 \<Rightarrow> (1, [p1])
   | Sys_GetProcessId \<Rightarrow> (3, [])
   | Sys_IrqWait \<Rightarrow> (4, [])
   | Sys_IrqWaitTimeout p1 \<Rightarrow> (38, [p1])
   | Sys_IrqListen p1 \<Rightarrow> (5, [p1])
   | Sys_IrqCheck \<Rightarrow> (48, [])
   | Sys_Ticks \<Rightarrow> (37, [])
   | Sys_TickHz \<Rightarrow> (51, [])
   | Sys_Panic p1 \<Rightarrow> (6, [p1])
   | Sys_Sysexit \<Rightarrow> (7, [])
   | Sys_Defer \<Rightarrow> (8, [])
   | Sys_Malloc p1 \<Rightarrow> (9, [p1])
   | Sys_Mallocap p1 p2 \<Rightarrow> (40, [p1, p2])
   | Sys_PhysAddr p1 \<Rightarrow> (42, [p1])
   | Sys_Free p1 \<Rightarrow> (10, [p1])
   | Sys_Sysreboot \<Rightarrow> (52, []))"

definition ipc_gate :: "ipc_call \<Rightarrow> u32 \<times> u32 list" where
  "ipc_gate c = (case c of
     Sys_GetProcessList p1 \<Rightarrow> (43, [p1])
   | Sys_WaitProcess p1 \<Rightarrow> (44, [p1])
   | Sys_ProcessId \<Rightarrow> (24, [])
   | Sys_ProcessIdByName p1 \<Rightarrow> (25, [p1])
   | Sys_ProcessIdByNameBlock p1 \<Rightarrow> (39, [p1])
   | Sys_RegisterName p1 p2 \<Rightarrow> (12, [p1, p2])
   | Sys_RegisterStream p1 \<Rightarrow> (13, [p1])
   | Sys_ObtainStreamWriter p1 p2 p3 \<Rightarrow> (14, [p1, p2, int_of_bool p3])
   | Sys_ObtainStreamListener p1 p2 \<Rightarrow> (15, [p1, p2])
   | Sys_ReadStream p1 p2 p3 p4 p5 \<Rightarrow> (16, [p1, p2, p3, p4, p5])
   | Sys_ReadStreamUnblock p1 p2 p3 p4 p5 \<Rightarrow> (17, [p1, p2, p3, p4, p5])
   | Sys_WriteStream p1 p2 p3 p4 p5 \<Rightarrow> (18, [p1, p2, p3, p4, p5]))"

definition queue_gate :: "queue_call \<Rightarrow> u32 \<times> u32 list" where
  "queue_gate c = (case c of
     Sys_ProbeQueue \<Rightarrow> (19, [])
   | Sys_ProbeQueueUnblock \<Rightarrow> (20, [])
   | Sys_ProbeQueueFor p1 \<Rightarrow> (26, [p1])
   | Sys_ProbeQueueForUnblock p1 \<Rightarrow> (27, [p1])
   | Sys_ReadQueue p1 p2 p3 p4 \<Rightarrow> (21, [p1, p2, p3, p4])
   | Sys_GrabQueue p1 \<Rightarrow> (31, [p1])
   | Sys_ShiftQueue p1 \<Rightarrow> (22, [p1])
   | Sys_SendQueue p1 p2 p3 p4 \<Rightarrow> (23, [p1, p2, p3, p4]))"

definition process_gate :: "process_call \<Rightarrow> u32 \<times> u32 list" where
  "process_gate c = (case c of
     Sys_Fork \<Rightarrow> (35, [])
   | Sys_Spawn p1 p2 p3 p4 \<Rightarrow> (36, [p1, p2, p3, p4])
   | Sys_MapPhysicalMem p1 p2 p3 p4 p5 \<Rightarrow> (50, [p1, p2, p3, p4, int_of_bool p5])
   | Sys_GrantPrivilege p1 p2 \<Rightarrow> (45, [p1, int_of_u16 p2])
   | Sys_GrantIOPriv p1 p2 \<Rightarrow> (46, [p1, int_of_u16 p2])
   | Sys_BeginExecution p1 \<Rightarrow> (47, [p1])
   | Sys_Nanosleep p1 p2 \<Rightarrow> (49, [p1, p2]))"

text \<open>The registers at the interrupt: the arguments in the order of the definitions for no to five of them.\<close>

fun gate_regs :: "u32 \<times> u32 list \<Rightarrow> regs \<Rightarrow> regs" where
  "gate_regs (num, []) r = r\<lparr>r_eax := num\<rparr>"
| "gate_regs (num, [p1]) r = r\<lparr>r_eax := num, r_ebx := p1\<rparr>"
| "gate_regs (num, [p1, p2]) r = r\<lparr>r_eax := num, r_ebx := p1, r_ecx := p2\<rparr>"
| "gate_regs (num, [p1, p2, p3]) r = r\<lparr>r_eax := num, r_ebx := p1, r_ecx := p2, r_edx := p3\<rparr>"
| "gate_regs (num, [p1, p2, p3, p4]) r = r\<lparr>r_eax := num, r_ebx := p1, r_ecx := p2, r_edx := p3, r_esi := p4\<rparr>"
| "gate_regs (num, p1 # p2 # p3 # p4 # p5 # ps) r =
     r\<lparr>r_eax := num, r_ebx := p1, r_ecx := p2, r_edx := p3, r_esi := p4, r_edi := p5\<rparr>"

section \<open>What each call is to do\<close>

text \<open>The function of the kernel of the same name, on the arguments.\<close>

definition at_kernel :: "(kernel \<Rightarrow> (u32 \<times> kernel) result) \<Rightarrow> machine \<Rightarrow> (u32 \<times> machine) result" where
  "at_kernel f mc = rbind (f (mc_kernel mc)) (\<lambda>(v, k). Inr (v, mc\<lparr>mc_kernel := k\<rparr>))"

definition do_user_call :: "u32 \<Rightarrow> user_call \<Rightarrow> machine \<Rightarrow> (u32 \<times> machine) result" where
  "do_user_call junk c = (case c of
     Sys_Putc p1 \<Rightarrow> at_kernel (no_value junk \<circ> user_putc (char_of (unat p1)))
   | Sys_Puts p1 \<Rightarrow> at_kernel (\<lambda>k. no_value junk (rbind (user_string k p1) (\<lambda>s. user_puts (chars s) k)))
   | Sys_GetProcessId \<Rightarrow> at_kernel (\<lambda>k. Inr (getProcessId k, k))
   | Sys_IrqWait \<Rightarrow> at_kernel (no_value junk \<circ> irqWait)
   | Sys_IrqWaitTimeout p1 \<Rightarrow> at_kernel (irqWaitTimeout p1)
   | Sys_IrqListen p1 \<Rightarrow> at_kernel (no_value junk \<circ> irqListen p1)
   | Sys_IrqCheck \<Rightarrow> at_kernel (\<lambda>k. bool_value (Inr (irqCheck k)))
   | Sys_Ticks \<Rightarrow> at_kernel (\<lambda>k. Inr (user_ticks k, k))
   | Sys_TickHz \<Rightarrow> at_kernel (\<lambda>k. Inr (user_tickHz k, k))
   | Sys_Panic p1 \<Rightarrow> at_kernel (\<lambda>k. no_value junk (rbind (user_string k p1) (\<lambda>s. user_panic (chars s) k)))
   | Sys_Sysexit \<Rightarrow> at_kernel (no_value junk \<circ> sysexit)
   | Sys_Defer \<Rightarrow> at_kernel (no_value junk \<circ> user_defer)
   | Sys_Malloc p1 \<Rightarrow> at_kernel (user_malloc p1)
   | Sys_Mallocap p1 p2 \<Rightarrow> mallocap p1 p2
   | Sys_PhysAddr p1 \<Rightarrow> physAddr p1
   | Sys_Free p1 \<Rightarrow> at_kernel (no_value junk \<circ> user_free p1)
   | Sys_Sysreboot \<Rightarrow> at_kernel (no_value junk \<circ> user_sysreboot))"

definition do_ipc_call :: "ipc_call \<Rightarrow> machine \<Rightarrow> (u32 \<times> machine) result" where
  "do_ipc_call c = (case c of
     Sys_GetProcessList p1 \<Rightarrow> at_kernel (sys_getProcessList p1)
   | Sys_WaitProcess p1 \<Rightarrow> at_kernel (waitProcess p1)
   | Sys_ProcessId \<Rightarrow> at_kernel (\<lambda>k. Inr (getProcessId k, k))
   | Sys_ProcessIdByName p1 \<Rightarrow> at_kernel (with_name p1 (\<lambda>s. processIdByName_impl s False))
   | Sys_ProcessIdByNameBlock p1 \<Rightarrow> at_kernel (with_name p1 (\<lambda>s. processIdByName_impl s True))
   | Sys_RegisterName p1 p2 \<Rightarrow> at_kernel (with_name p2 (\<lambda>s k. bool_value (registerName p1 s k)))
   | Sys_RegisterStream p1 \<Rightarrow> at_kernel (with_name p1 (\<lambda>s k. bool_value (registerStream s k)))
   | Sys_ObtainStreamWriter p1 p2 p3 \<Rightarrow> at_kernel (with_name p2 (\<lambda>s. obtainStreamWriter p1 s p3))
   | Sys_ObtainStreamListener p1 p2 \<Rightarrow> at_kernel (with_name p2 (\<lambda>s. obtainStreamListener p1 s))
   | Sys_ReadStream p1 p2 p3 p4 p5 \<Rightarrow> at_kernel (with_name p2 (\<lambda>s. readStream_impl p1 s p3 p4 p5 True))
   | Sys_ReadStreamUnblock p1 p2 p3 p4 p5 \<Rightarrow> at_kernel (with_name p2 (\<lambda>s. readStream_impl p1 s p3 p4 p5 False))
   | Sys_WriteStream p1 p2 p3 p4 p5 \<Rightarrow> at_kernel (with_name p2 (\<lambda>s k. writeStream p1 s p3 (user_block k p4 (unat p5)) k)))"

definition do_queue_call :: "u32 \<Rightarrow> queue_call \<Rightarrow> machine \<Rightarrow> (u32 \<times> machine) result" where
  "do_queue_call junk c = (case c of
     Sys_ProbeQueue \<Rightarrow> at_kernel (probeQueue_impl True 0)
   | Sys_ProbeQueueUnblock \<Rightarrow> at_kernel (probeQueue_impl False 0)
   | Sys_ProbeQueueFor p1 \<Rightarrow> at_kernel (probeQueue_impl True p1)
   | Sys_ProbeQueueForUnblock p1 \<Rightarrow> at_kernel (probeQueue_impl False p1)
   | Sys_ReadQueue p1 p2 p3 p4 \<Rightarrow> at_kernel (readQueue p1 p2 p3 p4)
   | Sys_GrabQueue p1 \<Rightarrow> at_kernel (sys_grabQueue p1)
   | Sys_ShiftQueue p1 \<Rightarrow> at_kernel (\<lambda>k. Inr (junk, shiftQueue p1 k))
   | Sys_SendQueue p1 p2 p3 p4 \<Rightarrow> at_kernel (\<lambda>k. sendQueue p1 p2 (user_block k p3 (unat p4)) k))"

definition do_process_call :: "process_call \<Rightarrow> machine \<Rightarrow> (u32 \<times> machine) result" where
  "do_process_call c = (case c of
     Sys_Fork \<Rightarrow> process_fork
   | Sys_Spawn p1 p2 p3 p4 \<Rightarrow> sys_spawn p1 p2 p3 p4
   | Sys_MapPhysicalMem p1 p2 p3 p4 p5 \<Rightarrow> (\<lambda>mc. bool_value (mapPhysicalMem p1 p2 p3 p4 p5 mc))
   | Sys_GrantPrivilege p1 p2 \<Rightarrow> at_kernel (\<lambda>k. bool_value (user_grantPrivilege p1 p2 k))
   | Sys_GrantIOPriv p1 p2 \<Rightarrow> at_kernel (\<lambda>k. bool_value (user_grantIOPriv p1 p2 k))
   | Sys_BeginExecution p1 \<Rightarrow> at_kernel (\<lambda>k. bool_value (Inr (beginExecution p1 k)))
   | Sys_Nanosleep p1 p2 \<Rightarrow> at_kernel (sys_nanosleep p1 p2))"

datatype gate_call = User_Call user_call | Ipc_Call ipc_call | Queue_Call queue_call | Process_Call process_call

fun call_gate :: "gate_call \<Rightarrow> u32 \<times> u32 list" where
  "call_gate (User_Call c) = user_gate c"
| "call_gate (Ipc_Call c) = ipc_gate c"
| "call_gate (Queue_Call c) = queue_gate c"
| "call_gate (Process_Call c) = process_gate c"

fun do_call :: "u32 \<Rightarrow> gate_call \<Rightarrow> machine \<Rightarrow> (u32 \<times> machine) result" where
  "do_call junk (User_Call c) = do_user_call junk c"
| "do_call junk (Ipc_Call c) = do_ipc_call c"
| "do_call junk (Queue_Call c) = do_queue_call junk c"
| "do_call junk (Process_Call c) = do_process_call c"

section \<open>The table agrees with the gates\<close>

lemma narrow_args:
  "ucast (int_of_char c) = c" "(int_of_bool b AND 0xFF \<noteq> 0) = b" "ucast (int_of_u16 w) = w"
  by (simp_all add: int_of_char_def int_of_bool_def int_of_u16_def) (rule bit_word_eqI, simp add: bit_simps)+

lemma on_kernel_call: "on_kernel f r = at_kernel (f r)"
  by (simp add: fun_eq_iff on_kernel_def at_kernel_def)

lemma user_gate_finds:
  "\<exists>f. map_find (syscalls junk) (fst (user_gate c)) = Some f \<and> f (gate_regs (user_gate c) r) = do_user_call junk c"
  by (cases c) (simp_all add: user_gate_def syscalls_def do_user_call_def on_kernel_call narrow_args)

lemma ipc_gate_finds:
  "\<exists>f. map_find (syscalls junk) (fst (ipc_gate c)) = Some f \<and> f (gate_regs (ipc_gate c) r) = do_ipc_call c"
  by (cases c) (simp_all add: ipc_gate_def syscalls_def do_ipc_call_def on_kernel_call narrow_args)

lemma queue_gate_finds:
  "\<exists>f. map_find (syscalls junk) (fst (queue_gate c)) = Some f \<and> f (gate_regs (queue_gate c) r) = do_queue_call junk c"
  by (cases c) (simp_all add: queue_gate_def syscalls_def do_queue_call_def on_kernel_call narrow_args)

lemma process_gate_finds:
  "\<exists>f. map_find (syscalls junk) (fst (process_gate c)) = Some f \<and> f (gate_regs (process_gate c) r) = do_process_call c"
  by (cases c) (simp_all add: process_gate_def syscalls_def do_process_call_def on_kernel_call narrow_args)

lemma call_gate_finds:
  "\<exists>f. map_find (syscalls junk) (fst (call_gate c)) = Some f \<and> f (gate_regs (call_gate c) r) = do_call junk c"
  by (cases c) (simp_all add: user_gate_finds ipc_gate_finds queue_gate_finds process_gate_finds)

lemma gate_small: "\<not> AKARI_SYSCALL_MAXCALLS \<le> fst (call_gate c)"
proof -
  have "\<forall>num \<in> fst ` set (syscalls junk). num < AKARI_SYSCALL_MAXCALLS" for junk
    by (simp add: syscalls_def AKARI_SYSCALL_MAXCALLS_def)
  moreover have "fst (call_gate c) \<in> fst ` set (syscalls 0)"
    using call_gate_finds [of 0 c] by (metis map_find_None option.distinct(1))
  ultimately show ?thesis unfolding not_le by blast
qed

lemma gate_regs_eax: "r_eax (gate_regs g r) = fst g"
  by (cases "(g, r)" rule: gate_regs.cases) simp_all

text \<open>A call of each function.\<close>

definition some_calls :: "gate_call list" where
  "some_calls = map User_Call [Sys_Putc 0, Sys_Puts 0, Sys_GetProcessId, Sys_IrqWait, Sys_IrqWaitTimeout 0, Sys_IrqListen 0, Sys_IrqCheck, Sys_Ticks, Sys_TickHz, Sys_Panic 0,
       Sys_Sysexit, Sys_Defer, Sys_Malloc 0, Sys_Mallocap 0 0, Sys_PhysAddr 0, Sys_Free 0, Sys_Sysreboot] @
     map Ipc_Call [Sys_GetProcessList 0, Sys_WaitProcess 0, Sys_ProcessId, Sys_ProcessIdByName 0, Sys_ProcessIdByNameBlock 0, Sys_RegisterName 0 0,
       Sys_RegisterStream 0, Sys_ObtainStreamWriter 0 0 False, Sys_ObtainStreamListener 0 0, Sys_ReadStream 0 0 0 0 0, Sys_ReadStreamUnblock 0 0 0 0 0,
       Sys_WriteStream 0 0 0 0 0] @
     map Queue_Call [Sys_ProbeQueue, Sys_ProbeQueueUnblock, Sys_ProbeQueueFor 0, Sys_ProbeQueueForUnblock 0, Sys_ReadQueue 0 0 0 0, Sys_GrabQueue 0,
       Sys_ShiftQueue 0, Sys_SendQueue 0 0 0 0] @
     map Process_Call [Sys_Fork, Sys_Spawn 0 0 0 0, Sys_MapPhysicalMem 0 0 0 0 False, Sys_GrantPrivilege 0 0, Sys_GrantIOPriv 0 0, Sys_BeginExecution 0,
       Sys_Nanosleep 0 0]"

lemma some_calls_numbers: "map (fst \<circ> call_gate) some_calls = map fst (syscalls junk)"
  by (simp add: some_calls_def syscalls_def user_gate_def ipc_gate_def queue_gate_def process_gate_def)

text \<open>
  Claim C10. Each of the functions that the headers give to programs reaches the kernel's function of the same name with the
  arguments it was called with: numbers, order and widths agree with the table; and every entry of the table has a function.
\<close>

theorem gates_reach_kernel:
  "(\<forall>c r mc frame. k_frames (mc_kernel mc) frame = gate_regs (call_gate c) r \<longrightarrow>
      syscall_handler (syscalls junk) frame mc =
        rbind (do_call junk c (upd_kernel (\<lambda>k. k\<lparr>k_returnTask := None\<rparr>) mc)) (\<lambda>(ret, mc1).
        rbind (leave_call frame (set_eax frame ret (mc_kernel mc1))) (\<lambda>(resume, k2). Inr (resume, mc1\<lparr>mc_kernel := k2\<rparr>)))) \<and>
   (\<forall>num \<in> fst ` set (syscalls junk). \<exists>c. fst (call_gate c) = num)"
proof (intro conjI allI impI ballI)
  fix c r and mc :: machine and frame
  assume f: "k_frames (mc_kernel mc) frame = gate_regs (call_gate c) r"
  obtain g where g: "map_find (syscalls junk) (fst (call_gate c)) = Some g" "g (gate_regs (call_gate c) r) = do_call junk c"
    using call_gate_finds by blast
  show "syscall_handler (syscalls junk) frame mc =
        rbind (do_call junk c (upd_kernel (\<lambda>k. k\<lparr>k_returnTask := None\<rparr>) mc)) (\<lambda>(ret, mc1).
        rbind (leave_call frame (set_eax frame ret (mc_kernel mc1))) (\<lambda>(resume, k2). Inr (resume, mc1\<lparr>mc_kernel := k2\<rparr>)))"
    using gate_small [of c] by (simp add: syscall_handler_def Let_def f gate_regs_eax g)
next
  fix num
  assume "num \<in> fst ` set (syscalls junk)"
  then have "num \<in> set (map (fst \<circ> call_gate) some_calls)" unfolding some_calls_numbers [where junk = junk] by simp
  then show "\<exists>c. fst (call_gate c) = num" by auto
qed

end
