(* ===== verification/DispatchExamples.thy ===== *)
theory DispatchExamples
  imports Reach KernelExamples MemoryProps Gates
begin

text \<open>
  Runs of the kernel through its handlers: a system call that yields to the next task, a race between a
  timeout and an interrupt that ends in a failed assertion of the kernel, and a call through its gate.
\<close>

definition machine_of :: "kernel \<Rightarrow> machine" where
  "machine_of k = \<lparr>mc_kernel = k, mc_memory = demo_memory, mc_frame = (\<lambda>_ _. 0)\<rparr>"

text \<open>A system call that does not touch the memory, as a run of the kernel alone.\<close>

definition kernel_call :: "(regs \<Rightarrow> kernel \<Rightarrow> (u32 \<times> kernel) result) \<Rightarrow> u32 \<Rightarrow> kernel \<Rightarrow> (u32 \<times> kernel) result" where
  "kernel_call f frame k =
     rbind (f (k_frames k frame) (k\<lparr>k_returnTask := None\<rparr>)) (\<lambda>(ret, k1). leave_call frame (set_eax frame ret k1))"

lemma not_isl_pair:
  "\<not> isl r \<Longrightarrow> \<exists>v. rbind r (\<lambda>(v, k2). Inr (v, machine_of k2)) = Inr (v, machine_of (snd (projr r)))"
  by (cases r) auto

lemma syscall_handler_kernel:
  assumes "map_find tab (r_eax (k_frames k frame)) = Some (on_kernel f)" and "r_eax (k_frames k frame) < AKARI_SYSCALL_MAXCALLS"
  shows "syscall_handler tab frame (machine_of k) =
    rbind (kernel_call f frame k) (\<lambda>(v, k2). Inr (v, machine_of k2))"
proof -
  have "mc\<lparr>mc_kernel := k1\<rparr> = machine_of k1" if "mc = machine_of k2" for mc k1 k2
    using that by (simp add: machine_of_def)
  with assms show ?thesis
    by (auto simp: syscall_handler_def kernel_call_def machine_of_def upd_kernel_def on_kernel_def rbind_def Let_def
        split: sum.splits prod.splits)
qed

section \<open>A system call\<close>

definition yielding_kernel :: kernel where
  "yielding_kernel = demo_kernel\<lparr>k_byPid := [(1, Some 0), (2, Some 1), (3, Some 2)],
     k_frames := (\<lambda>_. user_frame)(0x2000 := user_frame\<lparr>r_eax := 8\<rparr>)\<rparr>"

definition yielding :: machine where
  "yielding = machine_of yielding_kernel"

definition yielded :: machine where
  "yielded = machine_of (snd (projr (kernel_call (\<lambda>r. no_value 0 \<circ> user_defer) 0x2000 yielding_kernel)))"

lemma yields: "\<exists>v. syscall_handler (syscalls 0) 0x2000 yielding = Inr (v, yielded)"
proof -
  have "map_find (syscalls 0) (r_eax (k_frames yielding_kernel 0x2000)) = Some (on_kernel (\<lambda>r. no_value 0 \<circ> user_defer))"
    by (simp add: yielding_kernel_def user_frame_def syscalls_def)
  moreover have "r_eax (k_frames yielding_kernel 0x2000) < AKARI_SYSCALL_MAXCALLS" by code_simp
  moreover have "\<not> isl (kernel_call (\<lambda>r. no_value 0 \<circ> user_defer) 0x2000 yielding_kernel)" by code_simp
  ultimately show ?thesis unfolding yielding_def yielded_def
    by (simp add: syscall_handler_kernel not_isl_pair)
qed

lemma yielding_ok: "kernel_ok (mc_kernel yielding)"
proof -
  have "task_list yielding_kernel [0, 1, 2]" by (simp add: task_list_def yielding_kernel_def demo_defs)
  moreover have "by_pid_ok yielding_kernel"
    by (auto simp: by_pid_ok_def yielding_kernel_def demo_defs split: if_splits)
  ultimately show ?thesis by (auto simp: kernel_ok_def yielding_def machine_of_def)
qed

theorem reachable_task_list_witness:
  "step\<^sup>*\<^sup>* yielding yielded \<and> (\<exists>r. getTaskById 3 (mc_kernel yielded) = Inr r)"
proof -
  have "starts_new 0x2000 (mc_kernel yielding)"
    by (simp add: starts_new_def yielding_def yielding_kernel_def machine_of_def user_frame_def)
  then have "step\<^sup>*\<^sup>* yielding yielded" using yields by (blast intro: step.system_call)
  with reachable_task_list [OF this yielding_ok] show ?thesis by blast
qed

section \<open>A timeout and an interrupt before the task runs\<close>

text \<open>
  A task waits for an IRQ with a timeout. The timer fires: its wake event leaves the list and the task may run. Then the IRQ
  arrives before it does, and counts a hit. When the kernel switches to the task, the waiting call finds the hit and asserts
  that its wake event is still scheduled: the assertion fails and the kernel halts.
\<close>

lemma timer_tick_fires:
  assumes "k_wakeevents k = ev # rest" and "w_usLeft ev \<le> k_usPerTick k"
  shows "k_wakeevents (timer_tick k) = rest \<and> \<not> t_userWaiting (k_task (timer_tick k) (w_toWake ev))"
  using assms by (simp add: timer_tick_def upd_task_def Let_def not_less)

lemma desched_list_absent: "w \<notin> w_uid ` set es \<Longrightarrow> desched_list w es = None"
  by (induction es) auto

lemma late_irq_fails:
  assumes "k_current k = t" and "t_heap (k_task k t) = Some h" and "\<not> t_userWaiting (k_task k t)"
    and "t_userCall (k_task k t) = Some (IRQWaitCall ms w)" and "w \<noteq> 0" and "t_irqListenHits (k_task k t) \<noteq> 0"
    and "w \<notin> w_uid ` set (k_wakeevents k)"
  shows "assignInternalTask t k = Inl (AssertFail ''mu_timer->desched(wakeeventId)'')"
  using assms desched_list_absent [OF assms(7)]
  by (simp add: assignInternalTask_def enter_heap_def enter_tss_def finish_call_def desched_def assert_that_def)

section \<open>A call through its gate\<close>

theorem gates_reach_kernel_witness:
  "let r = gate_regs (call_gate (User_Call Sys_TickHz)) user_frame; k = demo_kernel\<lparr>k_frames := (\<lambda>_. r)\<rparr> in
   r_eax r = 51 \<and> syscall_handler (syscalls 0) 0x2000 (machine_of k) =
     Inr (0x2000, machine_of (set_eax 0x2000 1000 k))"
proof -
  define k where "k = demo_kernel\<lparr>k_frames := (\<lambda>_. gate_regs (call_gate (User_Call Sys_TickHz)) user_frame)\<rparr>"
  have f: "k_frames (mc_kernel (machine_of k)) 0x2000 = gate_regs (call_gate (User_Call Sys_TickHz)) user_frame"
    by (simp add: machine_of_def k_def)
  have r: "k_returnTask k = None" "k_tickHz k = 1000" by (simp_all add: k_def demo_kernel_def)
  then have "k\<lparr>k_returnTask := None\<rparr> = k" by simp
  then have "syscall_handler (syscalls 0) 0x2000 (machine_of k) = Inr (0x2000, machine_of (set_eax 0x2000 1000 k))"
    using gates_reach_kernel [of 0, THEN conjunct1, rule_format, OF f] r
    by (simp add: do_user_call_def at_kernel_def machine_of_def upd_kernel_def user_tickHz_def leave_call_def set_eax_def)
  then show ?thesis by (simp add: Let_def k_def user_gate_def)
qed

end
