(* ===== verification/CoreDump.thy ===== *)
theory CoreDump
  imports Loader
begin

text \<open>
  \<^verbatim>\<open>Tasks::Task::dumpELFCore\<close> (\<^verbatim>\<open>src/Tasks.cpp\<close>): the memory of a process as an ELF core
  file, which \<^verbatim>\<open>User::panic\<close> leaves for the debugger. The pages of the process are found as runs of present
  pages in the tables that it does not share with the kernel, and are copied through a helper page. A fresh
  buffer holds what the memory \<open>old\<close> held at its address.
\<close>

section \<open>Runs of pages\<close>

record run_scan =
  rs_runs :: "u32 list"
  rs_page_count :: u32
  rs_run_count :: u32
  rs_last_start :: int

definition scan_page :: "page_table \<Rightarrow> nat \<Rightarrow> nat \<Rightarrow> run_scan \<Rightarrow> run_scan" where
  "scan_page pt pti pi s =
     (if rs_last_start s \<noteq> -1 \<and> \<not> pg_present (pt pi)
      then s\<lparr>rs_run_count := rs_run_count s + 1, rs_last_start := -1\<rparr>
      else if rs_last_start s = -1 \<and> pg_present (pt pi)
      then s\<lparr>rs_page_count := rs_page_count s + 1, rs_last_start := int pi,
             rs_runs := rs_runs s @ [push_bit 16 (of_nat pti) OR of_nat pi]\<rparr>
      else if pg_present (pt pi) then s\<lparr>rs_page_count := rs_page_count s + 1\<rparr>
      else s)"

definition scan_table :: "memory \<Rightarrow> nat \<Rightarrow> nat \<Rightarrow> run_scan \<Rightarrow> run_scan" where
  "scan_table m d pti s =
     (case pd_tables (m_dir m d) pti of
        None \<Rightarrow> s
      | Some pt \<Rightarrow>
          if pd_tables (m_dir m (m_kernelDirectory m)) pti = Some pt then s
          else let s1 = fold (scan_page (m_table m pt) pti) [0..<1024] (s\<lparr>rs_last_start := -1\<rparr>) in
               if rs_last_start s1 \<noteq> -1 then s1\<lparr>rs_run_count := rs_run_count s1 + 1\<rparr> else s1)"

definition scan_runs :: "memory \<Rightarrow> nat \<Rightarrow> run_scan" where
  "scan_runs m d =
     fold (scan_table m d) [0..<1024] \<lparr>rs_runs = [], rs_page_count = 0, rs_run_count = 0, rs_last_start = -1\<rparr>"

section \<open>Notes\<close>

definition NT_PRSTATUS :: u32 where "NT_PRSTATUS = 1"
definition NT_PRPSINFO :: u32 where "NT_PRPSINFO = 3"
definition sizeof_prstatus :: u32 where "sizeof_prstatus = 144"
definition sizeof_prpsinfo :: u32 where "sizeof_prpsinfo = 124"
definition sizeof_Nhdr :: u32 where "sizeof_Nhdr = 12"

definition align4 :: "u32 \<Rightarrow> u32" where "align4 n = (n + 4 - 1) div 4 * 4"

definition notes_size :: u32 where
  "notes_size = align4 (align4 sizeof_prstatus + sizeof_prpsinfo) + sizeof_Nhdr * 2 + (5 + 3) * 2"

text \<open>The structures as bytes; fields that are not set are zero.\<close>

definition prstatus :: "regs \<Rightarrow> bytes" where
  "prstatus r =
     pad 72 @ concat (map put_u32
       [r_ebx r, r_ecx r, r_edx r, r_esi r, r_edi r, r_ebp r, r_eax r, r_ds r, r_ds r, r_ds r, r_ds r, r_eax r,
        r_eip r, r_cs r, r_eflags r, r_useresp r, r_ss r]) @ pad 4"

definition prpsinfo :: "bytes \<Rightarrow> bytes" where
  "prpsinfo fname = pad 28 @ fname @ pad 80"

definition CORE :: bytes where "CORE = [0x43, 0x4F, 0x52, 0x45, 0]"

definition skip_align :: "u32 \<Rightarrow> u32" where
  "skip_align at = (if at mod 4 \<noteq> 0 then at + (4 - at mod 4) else at)"

definition put_note :: "u32 \<Rightarrow> bytes \<Rightarrow> u32 \<times> bytes \<Rightarrow> (u32 \<times> bytes) result" where
  "put_note ty desc = (\<lambda>(at, notes).
     rbind (page_put at (put_u32 5 @ put_u32 (of_nat (length desc)) @ put_u32 ty) notes) (\<lambda>n1.
     rbind (page_put (at + sizeof_Nhdr) CORE n1) (\<lambda>n2.
     let at2 = skip_align (at + sizeof_Nhdr + 5) in
     rbind (page_put at2 desc n2) (\<lambda>n3.
     Inr (skip_align (at2 + of_nat (length desc)), n3)))))"

definition core_notes :: "regs \<Rightarrow> string \<Rightarrow> bytes \<Rightarrow> bytes result" where
  "core_notes r name notes =
     rbind (put_note NT_PRSTATUS (prstatus r) (0, notes)) (\<lambda>s1.
     rbind (strncpy (replicate 16 0) (cstr name) 16) (\<lambda>fname.
     rbind (put_note NT_PRPSINFO (prpsinfo (fname[15 := 0])) s1) (\<lambda>(at, notes2).
     rbind (assert_that (at = notes_size) ''notes_write - notes == (s32)notes_size'') (\<lambda>_.
     Inr notes2))))"

section \<open>Headers\<close>

definition sizeof_Ehdr :: u32 where "sizeof_Ehdr = 52"
definition sizeof_Phdr :: u32 where "sizeof_Phdr = 32"
definition sizeof_Shdr :: u32 where "sizeof_Shdr = 40"
definition PT_NOTE :: u32 where "PT_NOTE = 4"

definition core_ehdr :: "u32 \<Rightarrow> bytes" where
  "core_ehdr run_count =
     ELF_MAGIC @ [1, 1, 1, 0, 0] @ pad 7 @
     put_u16 4 @ put_u16 3 @ put_u32 1 @ put_u32 0 @ put_u32 sizeof_Ehdr @ put_u32 0 @ put_u32 0 @
     put_u16 (ucast sizeof_Ehdr) @ put_u16 (ucast sizeof_Phdr) @ put_u16 (ucast (1 + run_count)) @
     put_u16 (ucast sizeof_Shdr) @ put_u16 0 @ put_u16 0"

definition note_phdr :: "u32 \<Rightarrow> bytes" where
  "note_phdr off = put_u32 PT_NOTE @ put_u32 off @ put_u32 0 @ put_u32 0 @ put_u32 notes_size @ put_u32 0 @ put_u32 0 @ put_u32 0"

text \<open>The fields of a loadable header, before and after its pages are copied.\<close>

definition load_phdr_1 :: "u32 \<Rightarrow> u32 \<Rightarrow> bytes" where
  "load_phdr_1 off vaddr = put_u32 PT_LOAD @ put_u32 off @ put_u32 vaddr @ put_u32 0"

definition load_phdr_2 :: "u32 \<Rightarrow> bytes" where
  "load_phdr_2 copied = put_u32 copied @ put_u32 copied @ put_u32 7 @ put_u32 0x1000"

section \<open>The dump\<close>

text \<open>Reading through the active page directory.\<close>

definition virt_block :: "nat \<Rightarrow> u32 \<Rightarrow> nat \<Rightarrow> machine \<Rightarrow> bytes result" where
  "virt_block d a n mc =
     (let bs = map (\<lambda>i. user_byte d (a + of_nat i) mc) [0..<n] in
      if None \<in> set bs then Inl OutOfBounds else Inr (map the bs))"

record dump_state =
  ds_core :: bytes
  ds_nextWriteHdr :: u32
  ds_nextWrite :: u32
  ds_machine :: machine

definition dump_put :: "u32 \<Rightarrow> bytes \<Rightarrow> dump_state \<Rightarrow> dump_state result" where
  "dump_put off b s = rbind (page_put off b (ds_core s)) (\<lambda>core. Inr (s\<lparr>ds_core := core\<rparr>))"

text \<open>The copy loop over the pages of a run: it ends with the table or at a page that is not present.\<close>

fun dump_pages :: "page_table \<Rightarrow> u32 \<Rightarrow> u32 \<Rightarrow> nat list \<Rightarrow> u32 \<Rightarrow> dump_state \<Rightarrow> (u32 \<times> dump_state) result" where
  "dump_pages pt helper helperphys [] copied s = Inr (copied, s)"
| "dump_pages pt helper helperphys (pi # ps) copied s =
     (if \<not> pg_present (pt pi) then Inr (copied, s)
      else let mc = copyFramePhysical (ucast (pg_pageAddress (pt pi)) * 0x1000) helperphys (ds_machine s) in
           rbind (virt_block (m_activeDirectory (mc_memory mc)) helper 0x1000 mc) (\<lambda>b.
           rbind (dump_put (ds_nextWrite s) b (s\<lparr>ds_machine := mc\<rparr>)) (\<lambda>s1.
           dump_pages pt helper helperphys ps (copied + 0x1000) (s1\<lparr>ds_nextWrite := ds_nextWrite s1 + 0x1000\<rparr>))))"

definition dump_run :: "nat \<Rightarrow> u32 \<Rightarrow> u32 \<Rightarrow> u32 \<Rightarrow> dump_state \<Rightarrow> dump_state result" where
  "dump_run d helper helperphys run s =
     (let pti = drop_bit 16 run; pi = run AND 0xFFFF; m = mc_memory (ds_machine s) in
      case pd_tables (m_dir m d) (unat pti) of
        None \<Rightarrow> Inl NullDeref
      | Some pt \<Rightarrow>
          rbind (dump_put (ds_nextWriteHdr s) (load_phdr_1 (ds_nextWrite s) ((pti * 1024 + pi) * 0x1000)) s) (\<lambda>s1.
          rbind (dump_pages (m_table m pt) helper helperphys [unat pi..<1024] 0 s1) (\<lambda>(copied, s2).
          rbind (dump_put (ds_nextWriteHdr s2 + 16) (load_phdr_2 copied) s2) (\<lambda>s3.
          Inr (s3\<lparr>ds_nextWriteHdr := ds_nextWriteHdr s3 + sizeof_Phdr\<rparr>)))))"

definition fresh_block :: "(u32 \<Rightarrow> u8) \<Rightarrow> u32 \<Rightarrow> u32 \<Rightarrow> bytes" where
  "fresh_block old a n = map (\<lambda>i. old (a + of_nat i)) [0..<unat n]"

text \<open>The address, the size and the bytes of the core. The block of the notes is not released.\<close>

definition dumpELFCore :: "(u32 \<Rightarrow> u8) \<Rightarrow> tref \<Rightarrow> machine \<Rightarrow> (u32 \<times> u32 \<times> bytes \<times> machine) result" where
  "dumpELFCore old t mc =
     (let task = k_task (mc_kernel mc) t; d = t_pageDir task; sc = scan_runs (mc_memory mc) d;
          page_count = rs_page_count sc; run_count = rs_run_count sc in
      rbind (memory_alloc notes_size False (mc_memory mc)) (\<lambda>(notes_at, _, m1).
      rbind (core_notes (k_frames (mc_kernel mc) (t_ks task)) (t_name task) (fresh_block old notes_at notes_size)) (\<lambda>notes.
      let n = sizeof_Ehdr + sizeof_Phdr * (1 + run_count) + 0x1000 * page_count + notes_size in
      rbind (memory_alloc 0x1000 True m1) (\<lambda>(helper, helperphys, m2).
      rbind (memory_alloc n False m2) (\<lambda>(core_at, _, m3).
      let nextWriteHdr = sizeof_Ehdr; nextWrite = nextWriteHdr + sizeof_Phdr * (1 + run_count);
          s0 = \<lparr>ds_core = fresh_block old core_at n, ds_nextWriteHdr = nextWriteHdr, ds_nextWrite = nextWrite,
                ds_machine = mc\<lparr>mc_memory := m3\<rparr>\<rparr> in
      rbind (dump_put 0 (core_ehdr run_count) s0) (\<lambda>s1.
      rbind (dump_put nextWriteHdr (note_phdr nextWrite) s1) (\<lambda>s2.
      rbind (dump_put nextWrite notes s2) (\<lambda>s3.
      rbind (for_each (dump_run d helper helperphys) (rs_runs sc)
               (s3\<lparr>ds_nextWriteHdr := nextWriteHdr + sizeof_Phdr, ds_nextWrite := nextWrite + notes_size\<rparr>)) (\<lambda>s4.
      rbind (memory_free helper (mc_memory (ds_machine s4))) (\<lambda>(_, m4).
      Inr (core_at, n, ds_core s4, (ds_machine s4)\<lparr>mc_memory := m4\<rparr>)))))))))))"

end
