(* ===== verification/CoreDumpProps.thy ===== *)
theory CoreDumpProps
  imports CoreDump LoaderProps
begin

text \<open>
  The core file of a process holds its memory: each byte of its private pages is in a loadable segment of the file,
  and the segments hold nothing else.
\<close>

section \<open>Copying physical memory\<close>

lemma phys_address_inject:
  assumes "frame_of a = frame_of b" and "a mod 0x1000 = b mod 0x1000"
  shows "a = b"
proof -
  have f: "unat (frame_of x) = unat x div 4096" for x
  proof -
    have "unat x div 4096 < 1048576" by (rule less_mult_imp_div_less) simp
    then show ?thesis by (simp add: frame_of_def unsigned_ucast_eq unat_div take_bit_nat_eq_self)
  qed
  have "unat a div 4096 = unat b div 4096" using assms(1) f by metis
  moreover have "unat a mod 4096 = unat b mod 4096" using assms(2) by (simp add: word_eq_unat unat_mod)
  ultimately show ?thesis by (metis div_mult_mod_eq word_eq_unat)
qed

lemma phys_byte_put: "phys_byte (phys_put a v g) b = (if b = a then v else phys_byte g b)"
proof -
  have "frame_of a = frame_of b \<Longrightarrow> unat (a mod 0x1000) = unat (b mod 0x1000) \<Longrightarrow> a = b"
    by (rule phys_address_inject) (simp_all only: word_eq_unat)
  then show ?thesis by (auto simp: phys_byte_def phys_put_def)
qed

lemma word_less_4: "unat (x :: u32) < 4 \<longleftrightarrow> x = 0 \<or> x = 1 \<or> x = 2 \<or> x = 3"
proof -
  have "n < 4 \<longleftrightarrow> n = 0 \<or> n = 1 \<or> n = 2 \<or> n = 3" for n :: nat by auto
  then show ?thesis by (auto simp: word_eq_unat)
qed

lemma phys_byte_move:
  "phys_byte (move_dword src dest g) a = (if unat (a - dest) < 4 then phys_byte g (src + (a - dest)) else phys_byte g a)"
proof -
  have c: "(0 :: u32) \<noteq> 1" "(0 :: u32) \<noteq> 2" "(0 :: u32) \<noteq> 3" "(1 :: u32) \<noteq> 2" "(1 :: u32) \<noteq> 3" "(2 :: u32) \<noteq> 3" by simp_all
  define x where "x = a - dest"
  have a: "a = dest + x" by (simp add: x_def)
  show ?thesis unfolding word_less_4 x_def [symmetric] unfolding a
    using c c [symmetric] by (auto simp: move_dword_def Let_def phys_byte_put)
qed

lemma phys_byte_copy:
  assumes "\<And>i j. i < 4 * n \<Longrightarrow> j < 4 * n \<Longrightarrow> src + of_nat i \<noteq> dest + of_nat j" and "n \<le> 1024"
  shows "phys_byte (copy_dwords n src dest g) a =
    (if unat (a - dest) < 4 * n then phys_byte g (src + (a - dest)) else phys_byte g a)"
  using assms
proof (induction n arbitrary: src dest g)
  case (Suc n)
  have disj: "src + 4 + of_nat i \<noteq> dest + 4 + of_nat j" if "i < 4 * n" "j < 4 * n" for i j
    using Suc.prems(1) [of "4 + i" "4 + j"] that by (simp add: add.assoc)
  note IH = Suc.IH [OF disj, where g = "move_dword src dest g"]
  define x where "x = a - dest"
  have x4: "a - (dest + 4) = x - 4" by (simp add: x_def)
  show ?case
  proof (cases "unat x < 4")
    case True
    have n0: "\<not> unat (x - 4) < 4 * n"
    proof
      assume y: "unat (x - 4) < 4 * n"
      then have "unat ((x - 4) + 4) = unat (x - 4) + 4"
        using Suc.prems(2) by (subst unat_add_nowrap) simp_all
      then show False using True by simp
    qed
    then show ?thesis using IH Suc.prems(2) True by (simp add: x4 phys_byte_move x_def)
  next
    case False
    then have s: "unat (x - 4) = unat x - 4" by (simp add: unat_sub_nowrap)
    show ?thesis
    proof (cases "unat (x - 4) < 4 * n")
      case True
      have lt: "unat x < 4 * Suc n" using True s by simp
      define y where "y = src + x - dest"
      have "\<not> unat y < 4"
      proof
        assume "unat y < 4"
        moreover have "unat x < 4 * Suc n" by (rule lt)
        ultimately have "src + of_nat (unat x) \<noteq> dest + of_nat (unat y)" by (intro Suc.prems(1)) simp_all
        then show False by (simp add: y_def)
      qed
      then have "phys_byte (move_dword src dest g) (src + x) = phys_byte g (src + x)"
        by (simp add: phys_byte_move y_def)
      moreover have "src + 4 + (x - 4) = src + x" by simp
      ultimately show ?thesis using IH Suc.prems(2) True lt
        by (simp add: x4 x_def [symmetric])
    next
      case False
      moreover have "\<not> unat x < 4 * Suc n" using False s \<open>\<not> unat x < 4\<close> by arith
      ultimately show ?thesis using IH Suc.prems(2) \<open>\<not> unat x < 4\<close>
        by (simp add: x4 phys_byte_move x_def [symmetric])
    qed
  qed
qed simp

lemma unat_lt_20: "unat (f :: 20 word) < 1048576"
proof -
  have "unat f < 2 ^ LENGTH(20)" by (rule unsigned_less)
  then show ?thesis by simp
qed

lemma phys_byte_frame:
  "phys_byte g (ucast f * 0x1000 + (a AND 0xFFF)) = g f (unat (a mod 0x1000))"
proof -
  have f: "unat (ucast f :: u32) = unat f" and lt: "unat f < 1048576"
    using unat_lt_20 [of f] by (simp_all add: unsigned_ucast_eq take_bit_nat_eq_self)
  have "unat (a AND 0xFFF) < 4096" by (simp add: low12_mod)
  moreover have "unat (ucast f * 0x1000 :: u32) = unat f * 4096"
    using f lt by (simp add: unat_word_ariths)
  ultimately have u: "unat (ucast f * 0x1000 + (a AND 0xFFF)) = 4096 * unat f + unat a mod 4096"
    using lt by (subst unat_add_nowrap) (simp_all add: low12_mod)
  have "(ucast f * 0x1000 + (a AND 0xFFF)) div 0x1000 = (ucast f :: u32)"
    by (simp add: word_eq_unat unat_div u f)
  moreover have "unat ((ucast f * 0x1000 + (a AND 0xFFF)) mod 0x1000) = unat (a mod 0x1000)"
    by (simp add: unat_mod u)
  moreover have "ucast (ucast f :: u32) = f" by (rule bit_word_eqI) (simp add: bit_simps)
  ultimately show ?thesis by (simp add: phys_byte_def frame_of_def)
qed

section \<open>The helper page\<close>

text \<open>The helper block is mapped onto 4096 consecutive physical bytes; a frame is apart from them.\<close>

definition helper_ok :: "memory \<Rightarrow> u32 \<Rightarrow> u32 \<Rightarrow> bool" where
  "helper_ok m helper hp \<longleftrightarrow> (\<forall>i < 4096. \<exists>p. lookup_page (m_activeDirectory m) (helper + of_nat i) m = Some p \<and>
     pg_present (page_at p m) \<and> page_physical p (helper + of_nat i) m = hp + of_nat i)"

definition apart :: "u32 \<Rightarrow> 20 word \<Rightarrow> bool" where
  "apart hp f \<longleftrightarrow> (\<forall>i < 4096. frame_of (hp + of_nat i) \<noteq> f)"

definition page_bytes :: "(20 word \<Rightarrow> nat \<Rightarrow> u8) \<Rightarrow> 20 word \<Rightarrow> bytes" where
  "page_bytes g f = map (g f) [0..<4096]"

lemma virt_block_helper:
  assumes "helper_ok (mc_memory mc) helper hp"
  shows "virt_block (m_activeDirectory (mc_memory mc)) helper 0x1000 mc =
    Inr (map (\<lambda>i. phys_byte (mc_frame mc) (hp + of_nat i)) [0..<4096])"
proof -
  have b: "user_byte (m_activeDirectory (mc_memory mc)) (helper + of_nat i) mc =
      Some (phys_byte (mc_frame mc) (hp + of_nat i))" if "i < 4096" for i
  proof -
    from assms that obtain p where p: "lookup_page (m_activeDirectory (mc_memory mc)) (helper + of_nat i) (mc_memory mc) = Some p"
      "pg_present (page_at p (mc_memory mc))" "page_physical p (helper + of_nat i) (mc_memory mc) = hp + of_nat i"
      unfolding helper_ok_def by blast
    then show ?thesis by (simp add: user_byte_def Let_def page_physical_def flip: phys_byte_frame)
  qed
  then have "map (\<lambda>i. user_byte (m_activeDirectory (mc_memory mc)) (helper + of_nat i) mc) [0..<4096] =
      map (\<lambda>i. Some (phys_byte (mc_frame mc) (hp + of_nat i))) [0..<4096]" by simp
  then show ?thesis unfolding virt_block_def by (auto simp: Let_def o_def)
qed

lemma frame_byte:
  assumes "i < 4096"
  shows "phys_byte g (ucast f * 0x1000 + of_nat i) = g f i" and "frame_of (ucast f * 0x1000 + of_nat i) = f"
proof -
  have u: "unat (of_nat i :: u32) = i" using assms by (simp add: unat_of_nat take_bit_nat_eq_self)
  have m: "(of_nat i :: u32) AND 0xFFF = of_nat i" using assms u by (simp add: word_eq_unat low12_mod)
  then show "phys_byte g (ucast f * 0x1000 + of_nat i) = g f i"
    using phys_byte_frame [of g f "of_nat i"] assms u by (simp add: unat_mod)
  show "frame_of (ucast f * 0x1000 + of_nat i) = f"
    using phys_byte_frame [of "\<lambda>x _. if x = f then 1 else 0" f "of_nat i"] m by (simp add: phys_byte_def split: if_splits)
qed

lemma copy_to_helper:
  assumes "apart hp f"
  shows "map (\<lambda>i. phys_byte (mc_frame (copyFramePhysical (ucast f * 0x1000) hp mc)) (hp + of_nat i)) [0..<4096] =
      page_bytes (mc_frame mc) f"
    and "apart hp f' \<Longrightarrow> i < 4096 \<Longrightarrow> mc_frame (copyFramePhysical (ucast f * 0x1000) hp mc) f' i = mc_frame mc f' i"
proof -
  have disj: "(ucast f * 0x1000 :: u32) + of_nat i \<noteq> hp + of_nat j" if "i < 4 * 1024" "j < 4 * 1024" for i j
    using frame_byte(2) [of i f] assms that by (auto simp: apart_def)
  note copy = phys_byte_copy [OF disj, of 1024, simplified]
  have "phys_byte (copy_dwords 1024 (ucast f * 0x1000) hp (mc_frame mc)) (hp + of_nat i) = mc_frame mc f i" if "i < 4096" for i
    using that frame_byte(1) [OF that, of "mc_frame mc" f] by (simp add: copy unat_of_nat take_bit_nat_eq_self)
  then show "map (\<lambda>i. phys_byte (mc_frame (copyFramePhysical (ucast f * 0x1000) hp mc)) (hp + of_nat i)) [0..<4096] =
      page_bytes (mc_frame mc) f" by (simp add: copyFramePhysical_def page_bytes_def)
  assume f': "apart hp f'" and i: "i < 4096"
  let ?a = "ucast f' * 0x1000 + of_nat i :: u32"
  have "\<not> unat (?a - hp) < 4096"
  proof
    assume "unat (?a - hp) < 4096"
    then have "frame_of (hp + of_nat (unat (?a - hp))) \<noteq> f'" using f' unfolding apart_def by blast
    then show False using frame_byte(2) [OF i, of f'] by simp
  qed
  then show "mc_frame (copyFramePhysical (ucast f * 0x1000) hp mc) f' i = mc_frame mc f' i"
    using frame_byte(1) [OF i, of _ f'] copy [of "mc_frame mc" ?a] by (simp add: copyFramePhysical_def)
qed

section \<open>Writing into a buffer\<close>

definition splice :: "nat \<Rightarrow> bytes \<Rightarrow> bytes \<Rightarrow> bytes" where
  "splice off b x = take off x @ b @ drop (off + length b) x"

lemma page_put_splice: "unat off + length b \<le> length x \<Longrightarrow> page_put off b x = Inr (splice (unat off) b x)"
  by (simp add: page_put_def splice_def)

lemma length_splice [simp]: "off + length b \<le> length x \<Longrightarrow> length (splice off b x) = length x"
  by (simp add: splice_def)

lemma splice_nil [simp]: "splice off [] x = x"
  by (simp add: splice_def)

lemma splice_whole: "length b = length x \<Longrightarrow> splice 0 b x = b"
  by (simp add: splice_def)

lemma splice_next:
  "off + length b + length c \<le> length x \<Longrightarrow> splice (off + length b) c (splice off b x) = splice off (b @ c) x"
  by (simp add: splice_def ac_simps)

lemma nth_splice:
  "off + length b \<le> length x \<Longrightarrow> k < length x \<Longrightarrow>
   splice off b x ! k = (if off \<le> k \<and> k < off + length b then b ! (k - off) else x ! k)"
  by (auto simp: splice_def nth_append)

lemma splice_commute:
  assumes "i + length a \<le> j" and "j + length b \<le> length x"
  shows "splice i a (splice j b x) = splice j b (splice i a x)"
  by (rule nth_equalityI) (use assms in \<open>auto simp: nth_splice\<close>)

lemma dump_put_ok:
  "unat off + length b \<le> length (ds_core s) \<Longrightarrow> dump_put off b s = Inr (s\<lparr>ds_core := splice (unat off) b (ds_core s)\<rparr>)"
  by (simp add: dump_put_def page_put_splice)

section \<open>The pages of a run\<close>

definition dumping :: "machine \<Rightarrow> u32 \<Rightarrow> dump_state \<Rightarrow> bool" where
  "dumping mc hp s \<longleftrightarrow> mc_memory (ds_machine s) = mc_memory mc \<and> mc_kernel (ds_machine s) = mc_kernel mc \<and>
     (\<forall>f. apart hp f \<longrightarrow> (\<forall>i < 4096. mc_frame (ds_machine s) f i = mc_frame mc f i))"

lemma dumping_simps [simp]:
  "dumping mc hp (s\<lparr>ds_core := c\<rparr>) = dumping mc hp s" "dumping mc hp (s\<lparr>ds_nextWrite := w\<rparr>) = dumping mc hp s"
  "dumping mc hp (s\<lparr>ds_nextWriteHdr := h\<rparr>) = dumping mc hp s"
  by (simp_all add: dumping_def)

lemma unat_add_page: "unat (w :: u32) + 4096 < 4294967296 \<Longrightarrow> unat (w + 0x1000) = unat w + 4096"
  by (subst unat_add_nowrap) simp_all

lemma dump_pages_ok:
  assumes "dumping mc hp s" and "helper_ok (mc_memory mc) helper hp"
    and "\<And>pi. pi \<in> set qs \<Longrightarrow> apart hp (pg_pageAddress (pt pi))"
    and "qs = takeWhile (\<lambda>pi. pg_present (pt pi)) ps"
    and "unat (ds_nextWrite s) + 4096 * length qs \<le> length (ds_core s)" and "length (ds_core s) < 4294967296"
  shows "\<exists>s'. dump_pages pt helper hp ps copied s = Inr (copied + 0x1000 * of_nat (length qs), s') \<and>
    ds_core s' = splice (unat (ds_nextWrite s)) (concat (map (\<lambda>pi. page_bytes (mc_frame mc) (pg_pageAddress (pt pi))) qs)) (ds_core s) \<and>
    ds_nextWriteHdr s' = ds_nextWriteHdr s \<and> ds_nextWrite s' = ds_nextWrite s + 0x1000 * of_nat (length qs) \<and> dumping mc hp s'"
  using assms
proof (induction ps arbitrary: s qs copied)
  case (Cons pi ps)
  show ?case
  proof (cases "pg_present (pt pi)")
    case True
    define f where "f = pg_pageAddress (pt pi)"
    have f: "apart hp f" using Cons.prems(3) True by (simp add: f_def Cons.prems(4))
    let ?qs = "takeWhile (\<lambda>pi. pg_present (pt pi)) ps"
    define m1 where "m1 = copyFramePhysical (ucast f * 0x1000) hp (ds_machine s)"
    have m1: "mc_memory m1 = mc_memory mc" "mc_kernel m1 = mc_kernel mc"
      using Cons.prems(1) by (simp_all add: m1_def copyFramePhysical_def dumping_def)
    have "page_bytes (mc_frame (ds_machine s)) f = page_bytes (mc_frame mc) f"
      using Cons.prems(1) f by (simp add: page_bytes_def dumping_def)
    then have block: "virt_block (m_activeDirectory (mc_memory m1)) helper 0x1000 m1 = Inr (page_bytes (mc_frame mc) f)"
      using virt_block_helper [of m1 helper hp] Cons.prems(2) copy_to_helper(1) [OF f, of "ds_machine s"] m1 by (simp add: m1_def)
    define s1 where "s1 = s\<lparr>ds_machine := m1, ds_core := splice (unat (ds_nextWrite s)) (page_bytes (mc_frame mc) f) (ds_core s),
        ds_nextWrite := ds_nextWrite s + 0x1000\<rparr>"
    have len: "length (page_bytes (mc_frame mc) f) = 4096" by (simp add: page_bytes_def)
    have fits: "unat (ds_nextWrite s) + 4096 + 4096 * length ?qs \<le> length (ds_core s)"
      using Cons.prems(4,5) True by simp
    then have put: "dump_put (ds_nextWrite s) (page_bytes (mc_frame mc) f) (s\<lparr>ds_machine := m1\<rparr>) =
        Inr (s1\<lparr>ds_nextWrite := ds_nextWrite s\<rparr>)"
      using dump_put_ok [of "ds_nextWrite s" "page_bytes (mc_frame mc) f" "s\<lparr>ds_machine := m1\<rparr>"] len by (simp add: s1_def)
    have run: "dump_pages pt helper hp (pi # ps) copied s = dump_pages pt helper hp ps (copied + 0x1000) s1"
      using True block put by (simp add: f_def m1_def s1_def Let_def)
    have d1: "dumping mc hp s1"
      using Cons.prems(1) m1 copy_to_helper(2) [OF f] by (simp add: dumping_def s1_def m1_def)
    have w: "unat (ds_nextWrite s + 0x1000) = unat (ds_nextWrite s) + 4096"
      using fits Cons.prems(6) by (intro unat_add_page) simp
    obtain s' where IH: "dump_pages pt helper hp ps (copied + 0x1000) s1 = Inr (copied + 0x1000 + 0x1000 * of_nat (length ?qs), s')"
      "ds_core s' = splice (unat (ds_nextWrite s1)) (concat (map (\<lambda>pi. page_bytes (mc_frame mc) (pg_pageAddress (pt pi))) ?qs)) (ds_core s1)"
      "ds_nextWriteHdr s' = ds_nextWriteHdr s1" "ds_nextWrite s' = ds_nextWrite s1 + 0x1000 * of_nat (length ?qs)" "dumping mc hp s'"
      using Cons.IH [OF d1 Cons.prems(2) _ refl, of "copied + 0x1000"] Cons.prems(3,4,6) True fits len w by (auto simp: s1_def)
    have "length (concat (map (\<lambda>pi. page_bytes (mc_frame mc) (pg_pageAddress (pt pi))) xs)) = 4096 * length xs" for xs
      by (induction xs) (simp_all add: page_bytes_def)
    then have "ds_core s' = splice (unat (ds_nextWrite s)) (page_bytes (mc_frame mc) f @
        concat (map (\<lambda>pi. page_bytes (mc_frame mc) (pg_pageAddress (pt pi))) ?qs)) (ds_core s)"
      using IH(2) fits len w splice_next [of "unat (ds_nextWrite s)" "page_bytes (mc_frame mc) f"] by (simp add: s1_def)
    then show ?thesis using IH run Cons.prems(4) True by (auto simp: f_def s1_def algebra_simps)
  next
    case False
    then show ?thesis using Cons.prems by auto
  qed
qed auto

section \<open>All runs\<close>

text \<open>A run as the index of its table and of its first page; the frames of its pages; its header and data.\<close>

definition run_code :: "nat \<times> nat \<Rightarrow> u32" where
  "run_code r = push_bit 16 (of_nat (fst r)) OR of_nat (snd r)"

definition run_frames :: "memory \<Rightarrow> nat \<Rightarrow> nat \<times> nat \<Rightarrow> (20 word) list" where
  "run_frames m d r = (case pd_tables (m_dir m d) (fst r) of None \<Rightarrow> []
     | Some pt \<Rightarrow> map (\<lambda>p. pg_pageAddress (m_table m pt p)) (takeWhile (\<lambda>p. pg_present (m_table m pt p)) [snd r..<1024]))"

definition run_vaddr :: "nat \<times> nat \<Rightarrow> u32" where
  "run_vaddr r = (of_nat (fst r) * 1024 + of_nat (snd r)) * 0x1000"

definition run_phdr :: "u32 \<Rightarrow> nat \<times> nat \<Rightarrow> nat \<Rightarrow> bytes" where
  "run_phdr off r n = load_phdr_1 off (run_vaddr r) @ load_phdr_2 (0x1000 * of_nat n)"

fun run_phdrs :: "memory \<Rightarrow> nat \<Rightarrow> u32 \<Rightarrow> (nat \<times> nat) list \<Rightarrow> bytes" where
  "run_phdrs m d off [] = []"
| "run_phdrs m d off (r # rs) = run_phdr off r (length (run_frames m d r)) @
     run_phdrs m d (off + 0x1000 * of_nat (length (run_frames m d r))) rs"

definition run_data :: "machine \<Rightarrow> nat \<Rightarrow> nat \<times> nat \<Rightarrow> bytes" where
  "run_data mc d r = concat (map (page_bytes (mc_frame mc)) (run_frames (mc_memory mc) d r))"

definition run_ok :: "memory \<Rightarrow> nat \<Rightarrow> nat \<times> nat \<Rightarrow> bool" where
  "run_ok m d r \<longleftrightarrow> fst r < 1024 \<and> snd r < 1024 \<and> pd_tables (m_dir m d) (fst r) \<noteq> None"

lemma run_decode:
  assumes "run_ok m d r"
  shows "unat (drop_bit 16 (run_code r)) = fst r" and "unat (run_code r AND 0xFFFF) = snd r"
    and "(drop_bit 16 (run_code r) * 1024 + (run_code r AND 0xFFFF)) * 0x1000 = run_vaddr r"
proof -
  obtain a b where r: "r = (a, b)" and lt: "a < 1024" "b < 1024" using assms by (cases r) (auto simp: run_ok_def)
  have u: "unat (of_nat a :: u32) = a" "unat (of_nat b :: u32) = b"
    using lt by (simp_all add: unat_of_nat take_bit_nat_eq_self)
  have small: "n < 10" if "c < 1024" "bit c n" for c n :: nat
  proof (rule ccontr)
    assume "\<not> n < 10"
    then have "(2::nat) ^ 10 \<le> 2 ^ n" by (intro power_increasing) simp_all
    with that show False by (simp add: bit_iff_odd)
  qed
  note bits = small [OF lt(1)] small [OF lt(2)]
  have h: "drop_bit 16 (run_code r) = of_nat a"
    by (rule bit_word_eqI) (use bits in \<open>force simp: run_code_def r bit_simps\<close>)
  have mask: "(0xFFFF :: u32) = mask 16" by (simp add: mask_eq_exp_minus_1)
  have l: "run_code r AND 0xFFFF = of_nat b"
    unfolding mask
    by (rule bit_word_eqI) (use bits in \<open>force simp: run_code_def r bit_simps\<close>)
  show "unat (drop_bit 16 (run_code r)) = fst r" "unat (run_code r AND 0xFFFF) = snd r"
    "(drop_bit 16 (run_code r) * 1024 + (run_code r AND 0xFFFF)) * 0x1000 = run_vaddr r"
    by (simp_all only: h l u) (simp_all add: r run_vaddr_def)
qed

lemma length_run_data: "length (run_data mc d r) = 4096 * length (run_frames (mc_memory mc) d r)"
proof -
  have "length (concat (map (page_bytes g) fs)) = 4096 * length fs" for g fs
    by (induction fs) (simp_all add: page_bytes_def)
  then show ?thesis by (simp add: run_data_def)
qed

lemma length_run_phdr [simp]:
  "length (load_phdr_1 off v) = 16" "length (load_phdr_2 n) = 16" "length (run_phdr off r k) = 32"
  by (simp_all add: load_phdr_1_def load_phdr_2_def run_phdr_def)

lemma length_run_phdrs [simp]: "length (run_phdrs m d off rs) = 32 * length rs"
  by (induction rs arbitrary: off) simp_all

lemma dump_run_ok:
  assumes "dumping mc hp s" and "helper_ok (mc_memory mc) helper hp" and "run_ok (mc_memory mc) d r"
    and "\<forall>f \<in> set (run_frames (mc_memory mc) d r). apart hp f"
    and "unat (ds_nextWriteHdr s) + 32 \<le> unat (ds_nextWrite s)"
    and "unat (ds_nextWrite s) + length (run_data mc d r) \<le> length (ds_core s)" and "length (ds_core s) < 4294967296"
  shows "\<exists>s'. dump_run d helper hp (run_code r) s = Inr s' \<and> ds_core s' = splice (unat (ds_nextWrite s)) (run_data mc d r)
      (splice (unat (ds_nextWriteHdr s)) (run_phdr (ds_nextWrite s) r (length (run_frames (mc_memory mc) d r))) (ds_core s)) \<and>
    ds_nextWriteHdr s' = ds_nextWriteHdr s + 32 \<and>
    ds_nextWrite s' = ds_nextWrite s + 0x1000 * of_nat (length (run_frames (mc_memory mc) d r)) \<and> dumping mc hp s'"
proof -
  obtain pt where pt: "pd_tables (m_dir (mc_memory mc) d) (fst r) = Some pt" using assms(3) by (auto simp: run_ok_def)
  define T where "T = m_table (mc_memory mc) pt"
  let ?h = "ds_nextWriteHdr s" and ?w = "ds_nextWrite s" and ?qs = "takeWhile (\<lambda>p. pg_present (T p)) [snd r..<1024]"
  let ?p1 = "load_phdr_1 ?w (run_vaddr r)" and ?p2 = "load_phdr_2 (0x1000 * of_nat (length ?qs))"
  have fr: "run_frames (mc_memory mc) d r = map (\<lambda>p. pg_pageAddress (T p)) ?qs" by (simp add: run_frames_def pt T_def)
  have data: "run_data mc d r = concat (map (\<lambda>p. page_bytes (mc_frame mc) (pg_pageAddress (T p))) ?qs)"
    unfolding run_data_def fr by (simp add: comp_def)
  define s1 where "s1 = s\<lparr>ds_core := splice (unat ?h) ?p1 (ds_core s)\<rparr>"
  have fit: "unat ?w + 4096 * length ?qs \<le> length (ds_core s)" using assms(6) by (simp add: length_run_data fr)
  have put1: "dump_put ?h ?p1 s = Inr s1" using dump_put_ok assms(5) fit by (simp add: s1_def)
  have len1: "length (ds_core s1) = length (ds_core s)" using assms(5) fit by (simp add: s1_def)
  have "\<exists>s'. dump_pages T helper hp [snd r..<1024] 0 s1 = Inr (0 + 0x1000 * of_nat (length ?qs), s') \<and>
    ds_core s' = splice (unat (ds_nextWrite s1)) (concat (map (\<lambda>pi. page_bytes (mc_frame mc) (pg_pageAddress (T pi))) ?qs)) (ds_core s1) \<and>
    ds_nextWriteHdr s' = ds_nextWriteHdr s1 \<and> ds_nextWrite s' = ds_nextWrite s1 + 0x1000 * of_nat (length ?qs) \<and> dumping mc hp s'"
  proof (rule dump_pages_ok)
    fix p assume "p \<in> set ?qs"
    then show "apart hp (pg_pageAddress (T p))" using assms(4) unfolding fr by auto
  qed (use assms(1,2,7) len1 fit in \<open>simp_all add: s1_def\<close>)
  then obtain s2 where s2: "dump_pages T helper hp [snd r..<1024] 0 s1 = Inr (0x1000 * of_nat (length ?qs), s2)"
    "ds_core s2 = splice (unat ?w) (run_data mc d r) (splice (unat ?h) ?p1 (ds_core s))"
    "ds_nextWriteHdr s2 = ?h" "ds_nextWrite s2 = ?w + 0x1000 * of_nat (length ?qs)" "dumping mc hp s2"
    unfolding data by (auto simp: s1_def)
  have "unat ?h + 32 < 4294967296" using assms(5) unat_lt_u32 [of ?w] by linarith
  then have h16: "unat (?h + 16) = unat ?h + 16" by (subst unat_add_nowrap) simp_all
  have len2: "length (ds_core s2) = length (ds_core s)" using s2(2) assms(5,6) by simp
  define s3 where "s3 = s2\<lparr>ds_core := splice (unat ?h + 16) ?p2 (ds_core s2)\<rparr>"
  have put2: "dump_put (?h + 16) ?p2 s2 = Inr s3"
    using dump_put_ok [of "?h + 16" ?p2 s2] h16 len2 assms(5,6) by (simp add: s3_def)
  have "ds_core s3 = splice (unat ?w) (run_data mc d r) (splice (unat ?h + 16) ?p2 (splice (unat ?h) ?p1 (ds_core s)))"
    unfolding s3_def using s2(2) assms(5,6) by (simp add: splice_commute)
  also have "splice (unat ?h + 16) ?p2 (splice (unat ?h) ?p1 (ds_core s)) = splice (unat ?h) (?p1 @ ?p2) (ds_core s)"
    using splice_next [of "unat ?h" ?p1 ?p2] assms(5,6) by simp
  finally have core: "ds_core s3 = splice (unat ?w) (run_data mc d r)
      (splice (unat ?h) (run_phdr ?w r (length (run_frames (mc_memory mc) d r))) (ds_core s))"
    by (simp add: run_phdr_def fr)
  have "dump_run d helper hp (run_code r) s = Inr (s3\<lparr>ds_nextWriteHdr := ?h + 32\<rparr>)"
    using run_decode [OF assms(3)] pt put1 s2 put2 assms(1)
    by (simp add: dump_run_def Let_def dumping_def T_def [symmetric] s3_def sizeof_Phdr_def)
  then show ?thesis using core s2(4,5) by (auto simp: s3_def fr)
qed

lemma dump_runs_ok:
  assumes "dumping mc hp s" and "helper_ok (mc_memory mc) helper hp" and "\<forall>r \<in> set rs. run_ok (mc_memory mc) d r"
    and "\<forall>r \<in> set rs. \<forall>f \<in> set (run_frames (mc_memory mc) d r). apart hp f"
    and "unat (ds_nextWriteHdr s) + 32 * length rs \<le> unat (ds_nextWrite s)"
    and "unat (ds_nextWrite s) + length (concat (map (run_data mc d) rs)) \<le> length (ds_core s)"
    and "length (ds_core s) < 4294967296"
  shows "\<exists>s'. for_each (dump_run d helper hp) (map run_code rs) s = Inr s' \<and>
    ds_core s' = splice (unat (ds_nextWrite s)) (concat (map (run_data mc d) rs))
      (splice (unat (ds_nextWriteHdr s)) (run_phdrs (mc_memory mc) d (ds_nextWrite s) rs) (ds_core s)) \<and> dumping mc hp s'"
  using assms
proof (induction rs arbitrary: s)
  case (Cons r rs)
  let ?m = "mc_memory mc" let ?h = "ds_nextWriteHdr s" and ?w = "ds_nextWrite s"
  let ?k = "length (run_frames ?m d r)" and ?D = "run_data mc d r" and ?D' = "concat (map (run_data mc d) rs)"
  let ?P = "run_phdr ?w r ?k" and ?P' = "run_phdrs ?m d (?w + 0x1000 * of_nat ?k) rs"
  have lD: "length ?D = 4096 * ?k" by (rule length_run_data)
  have fit: "unat ?h + 32 + 32 * length rs \<le> unat ?w" "unat ?w + length ?D + length ?D' \<le> length (ds_core s)"
    using Cons.prems(5,6) by simp_all
  have "\<exists>s'. dump_run d helper hp (run_code r) s = Inr s' \<and> ds_core s' = splice (unat ?w) ?D (splice (unat ?h) ?P (ds_core s)) \<and>
      ds_nextWriteHdr s' = ?h + 32 \<and> ds_nextWrite s' = ?w + 0x1000 * of_nat ?k \<and> dumping mc hp s'"
    using Cons.prems(1-4,7) fit by (intro dump_run_ok) simp_all
  then obtain s1 where s1: "dump_run d helper hp (run_code r) s = Inr s1"
    "ds_core s1 = splice (unat ?w) ?D (splice (unat ?h) ?P (ds_core s))" "ds_nextWriteHdr s1 = ?h + 32"
    "ds_nextWrite s1 = ?w + 0x1000 * of_nat ?k" "dumping mc hp s1" by blast
  have len1: "length (ds_core s1) = length (ds_core s)" using s1(2) fit by simp
  have "unat ?h + 32 < 4294967296" using fit unat_lt_u32 [of ?w] by linarith
  then have h1: "unat (?h + 32) = unat ?h + 32" by (subst unat_add_nowrap) simp_all
  have w1: "unat (?w + 0x1000 * of_nat ?k) = unat ?w + 4096 * ?k"
  proof -
    have "unat ?w + 4096 * ?k < 4294967296" using fit lD Cons.prems(7) by linarith
    moreover from this have k: "unat (of_nat ?k :: u32) = ?k" by (simp add: unat_of_nat take_bit_nat_eq_self)
    ultimately have "unat (0x1000 * of_nat ?k :: u32) = 4096 * ?k" by (simp add: unat_mult_nowrap)
    with \<open>unat ?w + 4096 * ?k < 4294967296\<close> show ?thesis by (simp add: unat_add_nowrap)
  qed
  have "\<exists>s'. for_each (dump_run d helper hp) (map run_code rs) s1 = Inr s' \<and>
    ds_core s' = splice (unat (ds_nextWrite s1)) ?D' (splice (unat (ds_nextWriteHdr s1)) (run_phdrs ?m d (ds_nextWrite s1) rs) (ds_core s1)) \<and>
    dumping mc hp s'"
    using Cons.prems(2-4,7) s1(3-5) fit len1 lD h1 w1 by (intro Cons.IH) simp_all
  then obtain s' where s': "for_each (dump_run d helper hp) (map run_code rs) s1 = Inr s'" "dumping mc hp s'"
    "ds_core s' = splice (unat ?w + length ?D) ?D' (splice (unat ?h + 32) ?P' (splice (unat ?w) ?D (splice (unat ?h) ?P (ds_core s))))"
    using s1(2-4) h1 w1 lD by auto
  have "splice (unat ?h + 32) ?P' (splice (unat ?w) ?D (splice (unat ?h) ?P (ds_core s))) =
      splice (unat ?w) ?D (splice (unat ?h + 32) ?P' (splice (unat ?h) ?P (ds_core s)))"
    using fit by (intro splice_commute) simp_all
  also have "splice (unat ?h + 32) ?P' (splice (unat ?h) ?P (ds_core s)) = splice (unat ?h) (?P @ ?P') (ds_core s)"
    using splice_next [of "unat ?h" ?P ?P' "ds_core s"] fit by simp
  finally have "ds_core s' = splice (unat ?w) (?D @ ?D') (splice (unat ?h) (?P @ ?P') (ds_core s))"
    using s'(3) splice_next [of "unat ?w" ?D ?D'] fit by simp
  then show ?case using s1(1) s'(1,2) by auto
qed auto

section \<open>The notes\<close>

lemma strncpy_ok:
  assumes "0 \<in> set src" and "n \<le> length d"
  shows "\<exists>r. strncpy d src n = Inr r \<and> length r = length d"
  using assms
proof (induction d src n rule: strncpy.induct)
  case (2 x d c s n)
  show ?case
  proof (cases "c = 0")
    case True
    then show ?thesis using 2 memset_ok [of "Suc n" "x # d" 0] by auto
  next
    case False
    then show ?thesis using 2 by auto
  qed
qed auto

lemma skip_align_numerals [simp]: "skip_align 17 = 20" "skip_align 164 = 164" "skip_align 181 = 184" "skip_align 308 = 308"
  by code_simp+

lemma notes_size_eq: "notes_size = 308"
  by code_simp

lemma length_prstatus: "length (prstatus r) = 144"
  by (simp add: prstatus_def)

lemma core_notes_ok:
  assumes "length notes = 308"
  shows "\<exists>ns. core_notes r name notes = Inr ns \<and> length ns = 308 \<and> take 144 (drop 20 ns) = prstatus r"
proof -
  let ?n1 = "put_u32 5 @ put_u32 144 @ put_u32 1" and ?n2 = "put_u32 5 @ put_u32 124 @ put_u32 3"
  have C: "length CORE = 5" by (simp add: CORE_def)
  define b1 where "b1 = splice 20 (prstatus r) (splice 12 CORE (splice 0 ?n1 notes))"
  have l1: "length b1 = 308" using assms by (simp add: b1_def C length_prstatus)
  have s1: "put_note NT_PRSTATUS (prstatus r) (0, notes) = Inr (164, b1)"
    using assms by (simp add: put_note_def page_put_splice length_prstatus C sizeof_Nhdr_def NT_PRSTATUS_def b1_def)
  have "0 \<in> set (cstr name)" by (simp add: cstr_def)
  then obtain fname where f: "strncpy (replicate 16 0) (cstr name) 16 = Inr fname" "length fname = 16"
    using strncpy_ok [of "cstr name" 16 "replicate 16 0"] by auto
  let ?p = "prpsinfo (fname[15 := 0])"
  have lp: "length ?p = 124" using f(2) by (simp add: prpsinfo_def)
  define b2 where "b2 = splice 184 ?p (splice 176 CORE (splice 164 ?n2 b1))"
  have s2: "put_note NT_PRPSINFO ?p (164, b1) = Inr (308, b2)"
    using l1 by (simp add: put_note_def page_put_splice lp C sizeof_Nhdr_def NT_PRPSINFO_def b2_def)
  have "take 144 (drop 20 b2) = take 144 (drop 20 b1)"
    using l1 by (simp add: b2_def splice_def lp C drop_take)
  also have "\<dots> = prstatus r" using assms by (simp add: b1_def splice_def C length_prstatus)
  finally have "take 144 (drop 20 b2) = prstatus r" .
  moreover have "length b2 = 308" using l1 by (simp add: b2_def lp C)
  ultimately show ?thesis using s1 s2 f by (simp add: core_notes_def notes_size_eq)
qed

section \<open>Finding the runs\<close>

text \<open>The length of the run that starts at a page, among the first \<open>k\<close> pages of a table.\<close>

definition run_len :: "(nat \<Rightarrow> bool) \<Rightarrow> nat \<Rightarrow> nat \<Rightarrow> nat" where
  "run_len pr k pi = length (takeWhile pr [pi..<k])"

lemma run_len_le: "pi \<le> k \<Longrightarrow> pi + run_len pr k pi \<le> k"
  using length_takeWhile_le [of pr "[pi..<k]"] by (simp add: run_len_def)

lemma run_len_Suc_closed:
  assumes "pi + run_len pr k pi < k"
  shows "run_len pr (Suc k) pi = run_len pr k pi"
proof -
  have "\<not> (\<forall>x \<in> set [pi..<k]. pr x)"
  proof
    assume "\<forall>x \<in> set [pi..<k]. pr x"
    then have "length (takeWhile pr [pi..<k]) = length [pi..<k]" by (metis takeWhile_eq_all_conv)
    then show False using assms by (simp add: run_len_def)
  qed
  then obtain x where "x \<in> set [pi..<k]" "\<not> pr x" by blast
  then have "takeWhile pr ([pi..<k] @ [k]) = takeWhile pr [pi..<k]" by (rule takeWhile_append1)
  then show ?thesis using assms by (simp add: run_len_def)
qed

lemma run_len_Suc_open:
  assumes "pi \<le> k" and "pi + run_len pr k pi = k"
  shows "run_len pr (Suc k) pi = run_len pr k pi + (if pr k then 1 else 0)"
proof -
  have "length (takeWhile pr [pi..<k]) = length [pi..<k]" using assms by (simp add: run_len_def)
  then have eq: "takeWhile pr [pi..<k] = [pi..<k]" by (metis takeWhile_eq_take take_all_iff order_refl)
  then have "\<And>x. x \<in> set [pi..<k] \<Longrightarrow> pr x" by (metis takeWhile_eq_all_conv)
  then have "takeWhile pr ([pi..<k] @ [k]) = [pi..<k] @ takeWhile pr [k]" by (rule takeWhile_append2)
  then have "length (takeWhile pr ([pi..<k] @ [k])) = length [pi..<k] + (if pr k then 1 else 0)" by simp
  moreover have "length (takeWhile pr [pi..<k]) = length [pi..<k]" by (simp only: eq)
  ultimately show ?thesis using assms(1) by (simp add: run_len_def)
qed

text \<open>What the scan of one table has found after \<open>k\<close> pages; the run that starts last may be open.\<close>

definition found :: "(nat \<Rightarrow> bool) \<Rightarrow> nat \<Rightarrow> nat list \<Rightarrow> bool" where
  "found pr k R \<longleftrightarrow> (\<forall>pi \<in> set R. pi < k \<and> pr pi) \<and> sum_list (map (run_len pr k) R) \<le> k \<and>
     (\<forall>p < k. pr p \<longrightarrow> (\<exists>pi \<in> set R. pi \<le> p \<and> p < pi + run_len pr k pi))"

definition closed_runs :: "(nat \<Rightarrow> bool) \<Rightarrow> nat \<Rightarrow> nat list \<Rightarrow> bool" where
  "closed_runs pr k R \<longleftrightarrow> (\<forall>pi \<in> set R. pi + run_len pr k pi < k)"

lemma closed_runs_Suc:
  assumes "closed_runs pr k R"
  shows "closed_runs pr (Suc k) R" and "sum_list (map (run_len pr (Suc k)) R) = sum_list (map (run_len pr k) R)"
proof -
  have "map (run_len pr (Suc k)) R = map (run_len pr k) R"
    using assms run_len_Suc_closed [of _ pr k] by (simp add: closed_runs_def)
  then show "sum_list (map (run_len pr (Suc k)) R) = sum_list (map (run_len pr k) R)" by (rule arg_cong)
  show "closed_runs pr (Suc k) R"
    using assms run_len_Suc_closed [of _ pr k] by (auto simp: closed_runs_def less_Suc_eq)
qed

lemma found_keep:
  assumes "found pr k R" and "closed_runs pr k R" and "\<not> pr k"
  shows "found pr (Suc k) R"
proof -
  have "run_len pr (Suc k) pi = run_len pr k pi" if "pi \<in> set R" for pi
    using assms(2) that run_len_Suc_closed by (auto simp: closed_runs_def)
  then show ?thesis using assms closed_runs_Suc(2) [OF assms(2)] by (auto simp: found_def less_Suc_eq)
qed

lemma found_open:
  assumes "found pr k R" and "closed_runs pr k R" and "pr k"
  shows "found pr (Suc k) (R @ [k])" and "run_len pr (Suc k) k = 1"
proof -
  show one: "run_len pr (Suc k) k = 1" using assms(3) by (simp add: run_len_def)
  have "run_len pr (Suc k) pi = run_len pr k pi" if "pi \<in> set R" for pi
    using assms(2) that run_len_Suc_closed by (auto simp: closed_runs_def)
  then show "found pr (Suc k) (R @ [k])" using assms closed_runs_Suc(2) [OF assms(2)] one
    by (auto simp: found_def less_Suc_eq)
qed

lemma found_extend:
  assumes "found pr k (R @ [l])" and "closed_runs pr k R" and "l + run_len pr k l = k"
  shows "found pr (Suc k) (R @ [l])" and "run_len pr (Suc k) l = run_len pr k l + (if pr k then 1 else 0)"
proof -
  have "l \<le> k" using assms(3) by simp
  from run_len_Suc_open [OF this assms(3)]
  show l: "run_len pr (Suc k) l = run_len pr k l + (if pr k then 1 else 0)" .
  have "run_len pr (Suc k) pi = run_len pr k pi" if "pi \<in> set R" for pi
    using assms(2) that run_len_Suc_closed by (auto simp: closed_runs_def)
  then show "found pr (Suc k) (R @ [l])" using assms closed_runs_Suc(2) [OF assms(2)] l \<open>l \<le> k\<close>
    by (auto simp: found_def less_Suc_eq)
qed

lemma scan_pages_found:
  fixes pt :: page_table
  defines "pr \<equiv> \<lambda>p. pg_present (pt p)"
  assumes "rs_last_start s0 = -1"
  shows "let s = fold (scan_page pt pti) [0..<k] s0 in \<exists>R. found pr k R \<and>
    rs_runs s = rs_runs s0 @ map (\<lambda>pi. run_code (pti, pi)) R \<and>
    rs_page_count s = rs_page_count s0 + of_nat (sum_list (map (run_len pr k) R)) \<and>
    (if rs_last_start s = -1 then closed_runs pr k R \<and> rs_run_count s = rs_run_count s0 + of_nat (length R)
     else \<exists>R' l. R = R' @ [l] \<and> rs_last_start s = int l \<and> closed_runs pr k R' \<and> l + run_len pr k l = k \<and>
       rs_run_count s = rs_run_count s0 + of_nat (length R'))"
proof (induction k)
  case 0
  then show ?case using assms by (auto simp: found_def closed_runs_def)
next
  case (Suc k)
  define s where "s = fold (scan_page pt pti) [0..<k] s0"
  from Suc obtain R where R: "found pr k R" "rs_runs s = rs_runs s0 @ map (\<lambda>pi. run_code (pti, pi)) R"
    "rs_page_count s = rs_page_count s0 + of_nat (sum_list (map (run_len pr k) R))"
    "if rs_last_start s = -1 then closed_runs pr k R \<and> rs_run_count s = rs_run_count s0 + of_nat (length R)
     else \<exists>R' l. R = R' @ [l] \<and> rs_last_start s = int l \<and> closed_runs pr k R' \<and> l + run_len pr k l = k \<and>
       rs_run_count s = rs_run_count s0 + of_nat (length R')"
    unfolding Let_def s_def by blast
  define s' where "s' = scan_page pt pti k s"
  have "\<exists>R. found pr (Suc k) R \<and>
    rs_runs s' = rs_runs s0 @ map (\<lambda>pi. run_code (pti, pi)) R \<and>
    rs_page_count s' = rs_page_count s0 + of_nat (sum_list (map (run_len pr (Suc k)) R)) \<and>
    (if rs_last_start s' = -1 then closed_runs pr (Suc k) R \<and> rs_run_count s' = rs_run_count s0 + of_nat (length R)
     else \<exists>R' l. R = R' @ [l] \<and> rs_last_start s' = int l \<and> closed_runs pr (Suc k) R' \<and> l + run_len pr (Suc k) l = Suc k \<and>
       rs_run_count s' = rs_run_count s0 + of_nat (length R'))"
  proof (cases "rs_last_start s = -1")
    case True
    then have c: "closed_runs pr k R" "rs_run_count s = rs_run_count s0 + of_nat (length R)" using R(4) by simp_all
    note step = closed_runs_Suc [OF c(1)]
    show ?thesis
    proof (cases "pr k")
      case True
      have "s' = s\<lparr>rs_page_count := rs_page_count s + 1, rs_last_start := int k, rs_runs := rs_runs s @ [run_code (pti, k)]\<rparr>"
        using True \<open>rs_last_start s = -1\<close> by (simp add: s'_def scan_page_def pr_def run_code_def)
      then show ?thesis using R c step found_open [OF R(1) c(1) True] by (intro exI [of _ "R @ [k]"]) simp
    next
      case False
      then have "s' = s" using \<open>rs_last_start s = -1\<close> by (simp add: s'_def scan_page_def pr_def)
      then show ?thesis using R c step found_keep [OF R(1) c(1) False] True by (intro exI [of _ R]) simp
    qed
  next
    case False
    then obtain R' l where o: "R = R' @ [l]" "rs_last_start s = int l" "closed_runs pr k R'" "l + run_len pr k l = k"
      "rs_run_count s = rs_run_count s0 + of_nat (length R')" using R(4) by auto
    note step = closed_runs_Suc [OF o(3)] and ext = found_extend [OF R(1) [unfolded o(1)] o(3,4)]
    show ?thesis
    proof (cases "pr k")
      case True
      then have "s' = s\<lparr>rs_page_count := rs_page_count s + 1\<rparr>"
        using False by (simp add: s'_def scan_page_def pr_def)
      then show ?thesis using R o step ext True by (intro exI [of _ R]) simp
    next
      case 2: False
      then have "s' = s\<lparr>rs_run_count := rs_run_count s + 1, rs_last_start := -1\<rparr>"
        using False by (simp add: s'_def scan_page_def pr_def)
      moreover have "closed_runs pr (Suc k) R" using step(1) ext(2) o(1,4) 2 by (simp add: closed_runs_def)
      ultimately show ?thesis using R o step ext 2 by (intro exI [of _ R]) simp
    qed
  qed
  moreover have "fold (scan_page pt pti) [0..<Suc k] s0 = s'" by (simp add: s'_def s_def)
  ultimately show ?case unfolding Let_def by (simp only:)
qed

text \<open>The tables of a process that it does not share with the kernel, and the run that covers each of their pages.\<close>

definition private_table :: "memory \<Rightarrow> nat \<Rightarrow> nat \<Rightarrow> nat \<Rightarrow> bool" where
  "private_table m d i pt \<longleftrightarrow> pd_tables (m_dir m d) i = Some pt \<and> pd_tables (m_dir m (m_kernelDirectory m)) i \<noteq> Some pt"

definition page_total :: "memory \<Rightarrow> nat \<Rightarrow> (nat \<times> nat) list \<Rightarrow> nat" where
  "page_total m d rs = sum_list (map (\<lambda>r. length (run_frames m d r)) rs)"

definition covers_tables :: "memory \<Rightarrow> nat \<Rightarrow> nat \<Rightarrow> (nat \<times> nat) list \<Rightarrow> bool" where
  "covers_tables m d k rs \<longleftrightarrow> (\<forall>i < k. \<forall>pt p. private_table m d i pt \<longrightarrow> p < 1024 \<longrightarrow> pg_present (m_table m pt p) \<longrightarrow>
     (\<exists>r \<in> set rs. fst r = i \<and> snd r \<le> p \<and> p < snd r + length (run_frames m d r)))"

definition private_run :: "memory \<Rightarrow> nat \<Rightarrow> nat \<times> nat \<Rightarrow> bool" where
  "private_run m d r \<longleftrightarrow> fst r < 1024 \<and> snd r < 1024 \<and> run_frames m d r \<noteq> [] \<and> (\<exists>pt. private_table m d (fst r) pt)"

lemma length_run_frames:
  "pd_tables (m_dir m d) i = Some pt \<Longrightarrow>
   length (run_frames m d (i, pi)) = run_len (\<lambda>p. pg_present (m_table m pt p)) 1024 pi"
  by (simp add: run_frames_def run_len_def)

lemma scan_table_found:
  assumes "k < 1024"
  shows "\<exists>rs. rs_runs (scan_table m d k s) = rs_runs s @ map run_code rs \<and>
    rs_page_count (scan_table m d k s) = rs_page_count s + of_nat (page_total m d rs) \<and>
    rs_run_count (scan_table m d k s) = rs_run_count s + of_nat (length rs) \<and> page_total m d rs \<le> 1024 \<and>
    (\<forall>r \<in> set rs. private_run m d r) \<and>
    (\<forall>pt p. private_table m d k pt \<longrightarrow> p < 1024 \<longrightarrow> pg_present (m_table m pt p) \<longrightarrow>
      (\<exists>r \<in> set rs. fst r = k \<and> snd r \<le> p \<and> p < snd r + length (run_frames m d r)))"
proof (cases "\<exists>pt. private_table m d k pt")
  case False
  then have "scan_table m d k s = s" by (auto simp: scan_table_def private_table_def split: option.splits)
  then show ?thesis using False by (intro exI [of _ "[]"]) (simp add: page_total_def)
next
  case True
  then obtain pt where pt: "private_table m d k pt" by blast
  then have look: "pd_tables (m_dir m d) k = Some pt" by (simp add: private_table_def)
  let ?pr = "\<lambda>p. pg_present (m_table m pt p)"
  define s1 where "s1 = fold (scan_page (m_table m pt) k) [0..<1024] (s\<lparr>rs_last_start := -1\<rparr>)"
  from scan_pages_found [of "s\<lparr>rs_last_start := -1\<rparr>" "m_table m pt" k 1024, folded s1_def]
  obtain R where R: "found ?pr 1024 R" "rs_runs s1 = rs_runs s @ map (\<lambda>pi. run_code (k, pi)) R"
    "rs_page_count s1 = rs_page_count s + of_nat (sum_list (map (run_len ?pr 1024) R))"
    "if rs_last_start s1 = -1 then rs_run_count s1 = rs_run_count s + of_nat (length R)
     else \<exists>R' l. R = R' @ [l] \<and> rs_run_count s1 = rs_run_count s + of_nat (length R')"
    by (auto simp: Let_def split: if_splits)
  let ?rs = "map (Pair k) R"
  have "scan_table m d k s = (if rs_last_start s1 \<noteq> -1 then s1\<lparr>rs_run_count := rs_run_count s1 + 1\<rparr> else s1)"
    using pt look by (simp add: scan_table_def private_table_def s1_def Let_def)
  then have "rs_runs (scan_table m d k s) = rs_runs s1" "rs_page_count (scan_table m d k s) = rs_page_count s1"
    "rs_run_count (scan_table m d k s) = rs_run_count s + of_nat (length R)"
    using R(4) by (auto split: if_splits)
  moreover have len: "length (run_frames m d (k, pi)) = run_len ?pr 1024 pi" for pi
    using length_run_frames [OF look] .
  then have tot: "page_total m d ?rs = sum_list (map (run_len ?pr 1024) R)" by (simp add: page_total_def comp_def)
  moreover have "\<exists>r \<in> set ?rs. fst r = k \<and> snd r \<le> p \<and> p < snd r + length (run_frames m d r)"
    if p: "private_table m d k pt'" "p < 1024" "pg_present (m_table m pt' p)" for pt' p
  proof -
    have "pt' = pt" using p(1) look by (simp add: private_table_def)
    then obtain x where x: "x \<in> set R" "x \<le> p" "p < x + run_len ?pr 1024 x" using R(1) p(2,3) unfolding found_def by blast
    then show ?thesis using len by (intro bexI [of _ "(k, x)"]) simp_all
  qed
  moreover have "private_run m d (k, x)" if "x \<in> set R" for x
  proof -
    have x: "x < 1024" "?pr x" using R(1) that by (auto simp: found_def)
    then have "run_len ?pr 1024 x \<noteq> 0" by (simp add: run_len_def upt_rec)
    then have "run_frames m d (k, x) \<noteq> []" by (metis len list.size(3))
    then show ?thesis using x assms pt by (auto simp: private_run_def)
  qed
  then have "\<forall>r \<in> set ?rs. private_run m d r" by auto
  moreover have "sum_list (map (run_len ?pr 1024) R) \<le> 1024" using R(1) by (simp add: found_def)
  moreover have "map run_code ?rs = map (\<lambda>pi. run_code (k, pi)) R" by simp
  ultimately show ?thesis using R(2,3) by (intro exI [of _ ?rs]) (simp only: tot length_map, blast)
qed

lemma scan_runs_found:
  "\<exists>rs. rs_runs (scan_runs m d) = map run_code rs \<and> rs_page_count (scan_runs m d) = of_nat (page_total m d rs) \<and>
    rs_run_count (scan_runs m d) = of_nat (length rs) \<and> page_total m d rs \<le> 1048576 \<and>
    (\<forall>r \<in> set rs. private_run m d r) \<and> covers_tables m d 1024 rs"
proof -
  let ?s0 = "\<lparr>rs_runs = [], rs_page_count = 0, rs_run_count = 0, rs_last_start = -1\<rparr>"
  have "\<exists>rs. rs_runs (fold (scan_table m d) [0..<k] ?s0) = map run_code rs \<and>
    rs_page_count (fold (scan_table m d) [0..<k] ?s0) = of_nat (page_total m d rs) \<and>
    rs_run_count (fold (scan_table m d) [0..<k] ?s0) = of_nat (length rs) \<and> page_total m d rs \<le> 1024 * k \<and>
    (\<forall>r \<in> set rs. private_run m d r) \<and> covers_tables m d k rs" if "k \<le> 1024" for k
    using that
  proof (induction k)
    case 0
    then show ?case by (intro exI [of _ "[]"]) (simp add: page_total_def covers_tables_def)
  next
    case (Suc k)
    define s where "s = fold (scan_table m d) [0..<k] ?s0"
    from Suc obtain rs where rs: "rs_runs s = map run_code rs" "rs_page_count s = of_nat (page_total m d rs)"
      "rs_run_count s = of_nat (length rs)" "page_total m d rs \<le> 1024 * k" "\<forall>r \<in> set rs. private_run m d r"
      "covers_tables m d k rs" by (auto simp: s_def)
    obtain rs' where rs': "rs_runs (scan_table m d k s) = rs_runs s @ map run_code rs'"
      "rs_page_count (scan_table m d k s) = rs_page_count s + of_nat (page_total m d rs')"
      "rs_run_count (scan_table m d k s) = rs_run_count s + of_nat (length rs')" "page_total m d rs' \<le> 1024"
      "\<forall>r \<in> set rs'. private_run m d r" "\<forall>pt p. private_table m d k pt \<longrightarrow> p < 1024 \<longrightarrow> pg_present (m_table m pt p) \<longrightarrow>
        (\<exists>r \<in> set rs'. fst r = k \<and> snd r \<le> p \<and> p < snd r + length (run_frames m d r))"
      using scan_table_found [of k m d s] Suc.prems by auto
    have "covers_tables m d (Suc k) (rs @ rs')"
      using rs(6) rs'(6) unfolding covers_tables_def set_append by (auto simp: less_Suc_eq) blast+
    moreover have "fold (scan_table m d) [0..<Suc k] ?s0 = scan_table m d k s" by (simp add: s_def)
    ultimately show ?case using rs rs' by (intro exI [of _ "rs @ rs'"]) (auto simp: page_total_def)
  qed
  from this [of 1024] show ?thesis by (simp add: scan_runs_def)
qed

lemma runs_le_pages: "\<forall>r \<in> set rs. private_run m d r \<Longrightarrow> length rs \<le> page_total m d rs"
proof (induction rs)
  case (Cons r rs)
  then have "1 \<le> length (run_frames m d r)" by (auto simp: private_run_def Suc_le_eq)
  with Cons show ?case by (simp add: page_total_def)
qed (simp add: page_total_def)

section \<open>The bytes of a run\<close>

lemma nth_concat_pages:
  "j < 4096 * length fs \<Longrightarrow> concat (map (page_bytes g) fs) ! j = g (fs ! (j div 4096)) (j mod 4096)"
proof (induction fs arbitrary: j)
  case (Cons f fs)
  show ?case
  proof (cases "j < 4096")
    case False
    then obtain i where "j = 4096 + i" by (metis le_add_diff_inverse not_less)
    moreover from this have "j div 4096 = Suc (i div 4096)" "j mod 4096 = i mod 4096" by simp_all
    ultimately show ?thesis using Cons by (simp add: nth_append page_bytes_def)
  qed (simp add: nth_append page_bytes_def)
qed simp

lemma run_address:
  assumes "i < 1024" and "p0 + j div 4096 < 1024"
  shows "unat ((of_nat i * 1024 + of_nat p0) * 0x1000 + of_nat j :: u32) = (i * 1024 + p0) * 4096 + j"
proof -
  have "(i * 1024 + p0) * 4096 + j < 4294967296"
  proof -
    define x where "x = i * 1024 + (p0 + j div 4096)"
    have "(i * 1024 + p0) * 4096 + j = x * 4096 + j mod 4096" by (simp add: x_def algebra_simps)
    moreover have "x \<le> 1048575" using assms by (simp add: x_def)
    moreover have "j mod 4096 < 4096" by simp
    ultimately show ?thesis by linarith
  qed
  moreover have "unat (of_nat y :: u32) = y" if "y < 4294967296" for y
    using that by (simp add: unat_of_nat take_bit_nat_eq_self)
  ultimately have "unat (of_nat ((i * 1024 + p0) * 4096 + j) :: u32) = (i * 1024 + p0) * 4096 + j" by blast
  moreover have "of_nat ((i * 1024 + p0) * 4096 + j) = ((of_nat i * 1024 + of_nat p0) * 0x1000 + of_nat j :: u32)"
    by simp
  ultimately show ?thesis by (simp only:)
qed

lemma run_byte:
  assumes r: "private_run (mc_memory mc) d r" and j: "j < length (run_data mc d r)"
  shows "user_byte d (run_vaddr r + of_nat j) mc = Some (run_data mc d r ! j)"
proof -
  let ?m = "mc_memory mc"
  obtain i p0 pt where ip: "r = (i, p0)" "i < 1024" and pt: "pd_tables (m_dir ?m d) i = Some pt"
    using r by (cases r) (auto simp: private_run_def private_table_def)
  define T where "T = m_table ?m pt"
  let ?ps = "takeWhile (\<lambda>p. pg_present (T p)) [p0..<1024]" and ?q = "j div 4096"
  have fr: "run_frames ?m d r = map (\<lambda>p. pg_pageAddress (T p)) ?ps" by (simp add: run_frames_def ip pt T_def)
  have j': "j < 4096 * length ?ps" using j by (simp add: length_run_data fr)
  then have q: "?q < length ?ps" by (simp add: less_mult_imp_div_less mult.commute)
  then have nth: "?ps ! ?q = p0 + ?q" "p0 + ?q < 1024"
    using length_takeWhile_le [of "\<lambda>p. pg_present (T p)" "[p0..<1024]"] by (auto simp: takeWhile_nth)
  then have pres: "pg_present (T (p0 + ?q))" using nth_mem [OF q] by (auto dest: set_takeWhileD)
  let ?a = "run_vaddr r + of_nat j :: u32"
  have a: "unat ?a = (i * 1024 + p0) * 4096 + j" using run_address [OF ip(2) nth(2)] by (simp add: run_vaddr_def ip)
  have d: "unat (?a div 0x1000) = (i * 1024 + p0) + ?q" by (simp add: unat_div a)
  have "unat (?a div 0x1000 div 1024) = i" using d nth(2) by (simp add: unat_div a flip: div_mult2_eq)
  moreover have "(i * 1024 + (p0 + ?q)) mod 1024 = p0 + ?q" using nth(2) by simp
  then have "unat (?a div 0x1000 mod 1024) = p0 + ?q" using d by (simp add: unat_mod add.assoc)
  ultimately have look: "lookup_page d ?a ?m = Some (pt, p0 + ?q)" by (simp add: lookup_page_def Let_def pt)
  have "((i * 1024 + p0) * 4096 + j) mod 4096 = j mod 4096" by (rule mod_mult_self3)
  then have "unat (?a mod 0x1000) = j mod 4096" by (simp only: unat_mod a) simp
  then show ?thesis using look pres q nth j'
    by (simp add: user_byte_def page_at_def T_def [symmetric] run_data_def fr nth_concat_pages del: map_map)
qed

section \<open>Reading the core\<close>

lemma get_drop:
  "i \<le> length b \<Longrightarrow> get_u16 (drop i b) j = get_u16 b (i + j)"
  "i \<le> length b \<Longrightarrow> get_u32 (drop i b) j = get_u32 b (i + j)"
  by (auto simp: get_u16_def get_u32_def add.assoc)

definition core_file :: "machine \<Rightarrow> nat \<Rightarrow> (nat \<times> nat) list \<Rightarrow> bytes \<Rightarrow> bytes" where
  "core_file mc d rs ns =
     (let w = sizeof_Ehdr + sizeof_Phdr * (1 + of_nat (length rs)) in
      core_ehdr (of_nat (length rs)) @ note_phdr w @ run_phdrs (mc_memory mc) d (w + notes_size) rs @ ns @
      concat (map (run_data mc d) rs))"

lemma length_headers [simp]: "length (core_ehdr n) = 52" "length (note_phdr w) = 32"
  by (simp_all add: core_ehdr_def note_phdr_def ELF_MAGIC_def)

lemma read_core_ehdr:
  "read_ehdr (core_ehdr n @ b) = Inr \<lparr>e_entry = 0, e_phoff = 52, e_phentsize = 32, e_phnum = ucast (1 + n)\<rparr>"
proof -
  have "(ucast sizeof_Phdr :: u16) = 32" by (simp add: sizeof_Phdr_def)
  then show ?thesis
    by (simp add: read_ehdr_def core_ehdr_def ELF_MAGIC_def sizeof_Ehdr_def wire_simps)
qed

lemma run_phdrs_drop:
  "i < length rs \<Longrightarrow> \<exists>b. drop (32 * i) (run_phdrs m d off rs) =
     run_phdr (off + 0x1000 * of_nat (page_total m d (take i rs))) (rs ! i) (length (run_frames m d (rs ! i))) @ b"
proof (induction rs arbitrary: off i)
  case (Cons r rs)
  show ?case
  proof (cases i)
    case (Suc k)
    then show ?thesis using Cons.IH [of k "off + 0x1000 * of_nat (length (run_frames m d r))"] Cons.prems
      by (simp add: page_total_def distrib_left add.assoc)
  qed (simp add: page_total_def)
qed simp

lemma read_phdr_at:
  assumes "unat (e_phoff hdr + ucast (e_phentsize hdr) * of_nat i) = at" and "at \<le> length core"
    and "drop at core = run_phdr off r n @ b"
  shows "read_phdr core hdr i =
    Inr \<lparr>p_type = PT_LOAD, p_offset = off, p_vaddr = run_vaddr r, p_filesz = 0x1000 * of_nat n, p_memsz = 0x1000 * of_nat n\<rparr>"
proof -
  have g: "get_u32 core (at + j) = get_u32 (run_phdr off r n @ b) j" for j
    using get_drop(2) [OF assms(2)] assms(3) by metis
  have "get_u32 (run_phdr off r n @ b) 0 = Inr PT_LOAD" "get_u32 (run_phdr off r n @ b) 4 = Inr off"
    "get_u32 (run_phdr off r n @ b) 8 = Inr (run_vaddr r)" "get_u32 (run_phdr off r n @ b) 16 = Inr (0x1000 * of_nat n)"
    "get_u32 (run_phdr off r n @ b) 20 = Inr (0x1000 * of_nat n)"
    by (simp_all add: run_phdr_def load_phdr_1_def load_phdr_2_def wire_simps)
  then show ?thesis using assms(1) g [of 0] g by (simp add: read_phdr_def Let_def)
qed

lemma read_note_phdr:
  assumes "drop 52 core = note_phdr w @ b"
    and "e_phoff hdr = 52" and "e_phentsize hdr = 32"
  shows "read_phdr core hdr 0 = Inr \<lparr>p_type = PT_NOTE, p_offset = 0, p_vaddr = 0, p_filesz = 0, p_memsz = 0\<rparr>"
proof -
  have "52 \<le> length core" using arg_cong [OF assms(1), of length] by simp
  then have "get_u32 core 52 = get_u32 (note_phdr w @ b) 0" using get_drop(2) [of 52 core 0] assms(1) by simp
  also have "\<dots> = Inr PT_NOTE" by (simp add: note_phdr_def wire_simps)
  finally show ?thesis using assms(2,3) by (simp add: read_phdr_def Let_def PT_NOTE_def PT_LOAD_def)
qed

section \<open>The whole core\<close>

lemma memory_alloc_heap:
  assumes "memory_alloc n w m = Inr (a, ph, m')"
  shows "\<exists>h p. m' = m\<lparr>m_heap := h, m_placementAddress := p\<rparr>"
proof -
  have "\<exists>h p. m\<lparr>m_heap := h'\<rparr> = m\<lparr>m_heap := h, m_placementAddress := p\<rparr>" for h'
    by (intro exI [of _ h'] exI [of _ "m_placementAddress m"]) simp
  moreover have "\<exists>h p. m\<lparr>m_placementAddress := p'\<rparr> = m\<lparr>m_heap := h, m_placementAddress := p\<rparr>" for p'
    by (intro exI [of _ "m_heap m"] exI [of _ p']) simp
  ultimately show ?thesis using assms
    by (auto simp: memory_alloc_def rbind_eq_Inr split: if_splits option.splits)
qed

lemma allocated_same [simp]:
  "run_frames (m\<lparr>m_heap := h, m_placementAddress := p\<rparr>) = run_frames m"
  "run_phdrs (m\<lparr>m_heap := h, m_placementAddress := p\<rparr>) d off rs = run_phdrs m d off rs"
  "run_data (mc\<lparr>mc_memory := m\<lparr>m_heap := h, m_placementAddress := p\<rparr>\<rparr>) = run_data (mc\<lparr>mc_memory := m\<rparr>)"
  "helper_ok (m\<lparr>m_heap := h, m_placementAddress := p\<rparr>) = helper_ok m"
  "run_ok (m\<lparr>m_heap := h, m_placementAddress := p\<rparr>) = run_ok m"
proof -
  show f: "run_frames (m\<lparr>m_heap := h, m_placementAddress := p\<rparr>) = run_frames m" for m
    by (simp add: run_frames_def fun_eq_iff split: option.split)
  show "run_phdrs (m\<lparr>m_heap := h, m_placementAddress := p\<rparr>) d off rs = run_phdrs m d off rs"
    by (induction rs arbitrary: off) (simp_all add: f)
  show "run_data (mc\<lparr>mc_memory := m\<lparr>m_heap := h, m_placementAddress := p\<rparr>\<rparr>) = run_data (mc\<lparr>mc_memory := m\<rparr>)"
    by (simp add: run_data_def fun_eq_iff f)
  show "helper_ok (m\<lparr>m_heap := h, m_placementAddress := p\<rparr>) = helper_ok m"
    by (simp add: helper_ok_def fun_eq_iff lookup_page_def page_at_def page_physical_def Let_def)
  show "run_ok (m\<lparr>m_heap := h, m_placementAddress := p\<rparr>) = run_ok m"
    by (simp add: run_ok_def fun_eq_iff)
qed

lemma core_splices:
  assumes "length c = 84 + 32 * length rs + 308 + length (concat (map (run_data mc d) rs))" and "length ns = 308"
  shows "splice (84 + 32 * length rs + 308) (concat (map (run_data mc d) rs))
      (splice 84 (run_phdrs m d off rs) (splice (84 + 32 * length rs) ns (splice 52 (note_phdr w) (splice 0 (core_ehdr n) c)))) =
    core_ehdr n @ note_phdr w @ run_phdrs m d off rs @ ns @ concat (map (run_data mc d) rs)"
proof -
  let ?P = "run_phdrs m d off rs" and ?D = "concat (map (run_data mc d) rs)" and ?E = "core_ehdr n" and ?N = "note_phdr w"
  let ?c1 = "splice 52 ?N (splice 0 ?E c)"
  have fits: "84 + 32 * length rs + 308 + length ?D \<le> length c" using assms(1) by simp
  have c1: "?c1 = splice 0 (?E @ ?N) c" using splice_next [of 0 ?E ?N c] fits by simp
  have "splice 84 ?P (splice (84 + 32 * length rs) ns ?c1) = splice (84 + 32 * length rs) ns (splice 84 ?P ?c1)"
    using fits assms(2) unfolding c1 by (intro splice_commute) simp_all
  also have "splice 84 ?P ?c1 = splice 0 ((?E @ ?N) @ ?P) c"
    unfolding c1 using splice_next [of 0 "?E @ ?N" ?P c] fits by simp
  also have "splice (84 + 32 * length rs) ns (splice 0 ((?E @ ?N) @ ?P) c) = splice 0 (((?E @ ?N) @ ?P) @ ns) c"
    using splice_next [of 0 "(?E @ ?N) @ ?P" ns c] fits assms(2) by simp
  finally have "splice 84 ?P (splice (84 + 32 * length rs) ns ?c1) = splice 0 (((?E @ ?N) @ ?P) @ ns) c" .
  then have "splice (84 + 32 * length rs + 308) ?D (splice 84 ?P (splice (84 + 32 * length rs) ns ?c1)) =
      splice 0 ((((?E @ ?N) @ ?P) @ ns) @ ?D) c"
    using splice_next [of 0 "((?E @ ?N) @ ?P) @ ns" ?D c] fits assms(2) by simp
  also have "\<dots> = (((?E @ ?N) @ ?P) @ ns) @ ?D"
    by (rule splice_whole) (use assms in simp)
  finally show ?thesis by simp
qed

definition core_size :: "memory \<Rightarrow> nat \<Rightarrow> u32" where
  "core_size m d = sizeof_Ehdr + sizeof_Phdr * (1 + rs_run_count (scan_runs m d)) + 0x1000 * rs_page_count (scan_runs m d) + notes_size"

lemma core_size_unat:
  assumes "rs_run_count (scan_runs m d) = of_nat r" and "rs_page_count (scan_runs m d) = of_nat p" and "r \<le> p" and "p < 65535"
  shows "unat (core_size m d) = 84 + 32 * r + 308 + 4096 * p" and "unat (of_nat r :: u32) = r"
proof -
  have u: "unat (of_nat y :: u32) = y" if "y < 4294967296" for y
    using that by (simp add: unat_of_nat take_bit_nat_eq_self)
  have "84 + 32 * r + 308 + 4096 * p < 4294967296" using assms(3,4) by simp
  from u [OF this] show "unat (core_size m d) = 84 + 32 * r + 308 + 4096 * p"
    using assms(1,2) by (simp add: core_size_def sizeof_Ehdr_def sizeof_Phdr_def notes_size_eq algebra_simps)
  show "unat (of_nat r :: u32) = r" using assms(3,4) by (intro u) simp
qed

lemma dumpELFCore_file:
  fixes mc :: machine and t :: tref
  defines "m \<equiv> mc_memory mc" and "d \<equiv> t_pageDir (k_task (mc_kernel mc) t)"
  assumes allocs: "memory_alloc notes_size False m = Inr (na, np, m1)" "memory_alloc 0x1000 True m1 = Inr (helper, hp, m2)"
      "memory_alloc (core_size m d) False m2 = Inr (ca, cp, m3)" "memory_free helper m3 = Inr (b, m4)"
    and hlp: "helper_ok m helper hp" and runs: "rs_runs (scan_runs m d) = map run_code rs"
      "rs_run_count (scan_runs m d) = of_nat (length rs)" "rs_page_count (scan_runs m d) = of_nat (page_total m d rs)"
      "\<forall>r \<in> set rs. private_run m d r" and pages: "page_total m d rs < 65535"
    and ap: "\<forall>r \<in> set rs. \<forall>f \<in> set (run_frames m d r). apart hp f"
  shows "\<exists>ns mc'. dumpELFCore old t mc = Inr (ca, core_size m d, core_file mc d rs ns, mc') \<and> length ns = 308 \<and>
    take 144 (drop 20 ns) = prstatus (k_frames (mc_kernel mc) (t_ks (k_task (mc_kernel mc) t))) \<and>
    length (core_file mc d rs ns) = unat (core_size m d)"
proof -
  let ?n = "core_size m d" and ?R = "length rs" and ?task = "k_task (mc_kernel mc) t"
  let ?regs = "k_frames (mc_kernel mc) (t_ks ?task)" and ?D = "concat (map (run_data mc d) rs)"
  note size = core_size_unat [OF runs(2,3) runs_le_pages [OF runs(4)] pages]
  have D: "length ?D = 4096 * page_total m d rs"
    unfolding m_def by (induction rs) (simp_all add: page_total_def length_run_data)
  obtain h p where m3: "m3 = m\<lparr>m_heap := h, m_placementAddress := p\<rparr>"
    using memory_alloc_heap [OF allocs(1)] memory_alloc_heap [OF allocs(2)] memory_alloc_heap [OF allocs(3)] by auto
  have fb: "length (fresh_block old a x) = unat x" for a x by (simp add: fresh_block_def)
  have "length (fresh_block old na notes_size) = 308" by (simp add: fb notes_size_eq)
  from core_notes_ok [OF this] obtain ns where ns: "core_notes ?regs (t_name ?task) (fresh_block old na notes_size) = Inr ns"
    "length ns = 308" "take 144 (drop 20 ns) = prstatus ?regs" by blast
  let ?w = "sizeof_Ehdr + sizeof_Phdr * (1 + of_nat ?R) :: u32" and ?E = "core_ehdr (of_nat ?R)"
  have w: "unat ?w = 84 + 32 * ?R" "unat (?w + notes_size) = 84 + 32 * ?R + 308"
  proof -
    have u: "unat (of_nat y :: u32) = y" if "y < 4294967296" for y
      using that by (simp add: unat_of_nat take_bit_nat_eq_self)
    have "?R < 65535" using runs_le_pages [OF runs(4)] pages by simp
    then have "unat (of_nat (84 + 32 * ?R) :: u32) = 84 + 32 * ?R"
      "unat (of_nat (84 + 32 * ?R + 308) :: u32) = 84 + 32 * ?R + 308" by (intro u; simp)+
    then show "unat ?w = 84 + 32 * ?R" "unat (?w + notes_size) = 84 + 32 * ?R + 308"
      by (simp_all add: sizeof_Ehdr_def sizeof_Phdr_def notes_size_eq algebra_simps)
  qed
  define c where "c = fresh_block old ca ?n"
  have c: "length c = 84 + 32 * ?R + 308 + length ?D" by (simp add: c_def fb size D)
  define s0 where "s0 = \<lparr>ds_core = c, ds_nextWriteHdr = sizeof_Ehdr, ds_nextWrite = ?w, ds_machine = mc\<lparr>mc_memory := m3\<rparr>\<rparr>"
  define c3 where "c3 = splice (84 + 32 * ?R) ns (splice 52 (note_phdr ?w) (splice 0 ?E c))"
  have c3: "length c3 = length c" using c ns(2) by (simp add: c3_def)
  have s1: "dump_put 0 ?E s0 = Inr (s0\<lparr>ds_core := splice 0 ?E c\<rparr>)"
    using c by (simp add: dump_put_ok s0_def)
  have s2: "dump_put sizeof_Ehdr (note_phdr ?w) (s0\<lparr>ds_core := splice 0 ?E c\<rparr>) =
      Inr (s0\<lparr>ds_core := splice 52 (note_phdr ?w) (splice 0 ?E c)\<rparr>)"
    using c by (simp add: dump_put_ok s0_def sizeof_Ehdr_def)
  have s3: "dump_put ?w ns (s0\<lparr>ds_core := splice 52 (note_phdr ?w) (splice 0 ?E c)\<rparr>) = Inr (s0\<lparr>ds_core := c3\<rparr>)"
    using c ns(2) w by (simp add: dump_put_ok c3_def)
  define s3' where "s3' = s0\<lparr>ds_core := c3, ds_nextWriteHdr := sizeof_Ehdr + sizeof_Phdr, ds_nextWrite := ?w + notes_size\<rparr>"
  have at: "unat (ds_nextWrite s3') = 84 + 32 * ?R + 308" "unat (ds_nextWriteHdr s3') = 84"
    using w(2) by (simp_all add: s3'_def sizeof_Ehdr_def sizeof_Phdr_def)
  have data3: "run_data (mc\<lparr>mc_memory := m3\<rparr>) = run_data mc" by (simp add: m3 m_def)
  have "\<exists>s'. for_each (dump_run d helper hp) (map run_code rs) s3' = Inr s' \<and>
    ds_core s' = splice (unat (ds_nextWrite s3')) (concat (map (run_data (mc\<lparr>mc_memory := m3\<rparr>) d) rs))
      (splice (unat (ds_nextWriteHdr s3')) (run_phdrs (mc_memory (mc\<lparr>mc_memory := m3\<rparr>)) d (ds_nextWrite s3') rs) (ds_core s3')) \<and>
    dumping (mc\<lparr>mc_memory := m3\<rparr>) hp s'"
  proof (rule dump_runs_ok)
    show "dumping (mc\<lparr>mc_memory := m3\<rparr>) hp s3'" by (simp add: s3'_def s0_def dumping_def)
    show "helper_ok (mc_memory (mc\<lparr>mc_memory := m3\<rparr>)) helper hp" using hlp by (simp add: m3)
    show "\<forall>r \<in> set rs. run_ok (mc_memory (mc\<lparr>mc_memory := m3\<rparr>)) d r"
      using runs(4) by (auto simp: m3 private_run_def run_ok_def private_table_def)
    show "\<forall>r \<in> set rs. \<forall>f \<in> set (run_frames (mc_memory (mc\<lparr>mc_memory := m3\<rparr>)) d r). apart hp f" using ap by (simp add: m3)
    show "unat (ds_nextWriteHdr s3') + 32 * length rs \<le> unat (ds_nextWrite s3')"
      by (simp add: at)
    show "unat (ds_nextWrite s3') + length (concat (map (run_data (mc\<lparr>mc_memory := m3\<rparr>) d) rs)) \<le> length (ds_core s3')"
      unfolding data3 at by (simp add: s3'_def c3 c)
    show "length (ds_core s3') < 4294967296" using unat_lt_u32 [of ?n] by (simp add: s3'_def c3 c_def fb del: unat_lt_u32)
  qed
  then obtain s4 where s4: "for_each (dump_run d helper hp) (map run_code rs) s3' = Inr s4" "mc_memory (ds_machine s4) = m3"
    and core: "ds_core s4 = splice (84 + 32 * ?R + 308) ?D (splice 84 (run_phdrs m d (?w + notes_size) rs) c3)"
    unfolding data3 at by (auto simp: s3'_def dumping_def m3)
  have whole: "ds_core s4 = core_file mc d rs ns"
    unfolding core c3_def core_splices [OF c ns(2)] by (simp add: core_file_def Let_def m_def)
  have "dumpELFCore old t mc = Inr (ca, ?n, ds_core s4, (ds_machine s4)\<lparr>mc_memory := m4\<rparr>)"
    using allocs ns(1) s1 s2 s3 s4
    by (simp add: dumpELFCore_def m_def [symmetric] d_def [symmetric] Let_def runs(1,2) core_size_def [symmetric]
        s0_def [symmetric] c_def [symmetric] s3'_def)
  moreover have "length (core_file mc d rs ns) = unat ?n"
    by (simp add: core_file_def Let_def ns(2) D size)
  ultimately show ?thesis using whole ns(2,3) by auto
qed

section \<open>What the file holds\<close>

lemma core_file_split:
  assumes "length ns = 308"
  shows "drop 52 (core_file mc d rs ns) = note_phdr (52 + 32 * (1 + of_nat (length rs))) @
      run_phdrs (mc_memory mc) d (52 + 32 * (1 + of_nat (length rs)) + 308) rs @ ns @ concat (map (run_data mc d) rs)"
    and "drop 84 (core_file mc d rs ns) =
      run_phdrs (mc_memory mc) d (52 + 32 * (1 + of_nat (length rs)) + 308) rs @ ns @ concat (map (run_data mc d) rs)"
    and "drop (84 + 32 * length rs) (core_file mc d rs ns) = ns @ concat (map (run_data mc d) rs)"
    and "drop (84 + 32 * length rs + 308) (core_file mc d rs ns) = concat (map (run_data mc d) rs)"
  using assms by (simp_all add: core_file_def Let_def sizeof_Ehdr_def sizeof_Phdr_def notes_size_eq)

lemma concat_nth_block:
  assumes "i < length xs" and "j < length (xs ! i)"
  shows "concat xs ! (length (concat (take i xs)) + j) = xs ! i ! j"
    and "length (concat (take i xs)) + length (xs ! i) \<le> length (concat xs)"
proof -
  have "concat xs = concat (take i xs) @ xs ! i @ concat (drop (Suc i) xs)"
    using id_take_nth_drop [OF assms(1)] by (metis concat.simps(2) concat_append)
  then show "concat xs ! (length (concat (take i xs)) + j) = xs ! i ! j"
    and "length (concat (take i xs)) + length (xs ! i) \<le> length (concat xs)"
    using assms(2) by (simp_all add: nth_append)
qed

lemma nth_drop_at: "k \<le> length b \<Longrightarrow> drop k b = c \<Longrightarrow> b ! (k + i) = c ! i"
  by (auto simp: nth_drop)

lemma length_run_datas: "length (concat (map (run_data mc d) rs)) = 4096 * page_total (mc_memory mc) d rs"
  by (induction rs) (simp_all add: page_total_def length_run_data)

lemma core_segment:
  assumes ns: "length ns = 308" and small: "page_total (mc_memory mc) d rs < 65535" and rs: "\<forall>r \<in> set rs. private_run (mc_memory mc) d r"
    and i: "i < length rs" and hdr: "e_phoff hdr = 52" "e_phentsize hdr = 32"
  shows "\<exists>ph. read_phdr (core_file mc d rs ns) hdr (Suc i) = Inr ph \<and> p_type ph = PT_LOAD \<and> p_vaddr ph = run_vaddr (rs ! i) \<and>
    unat (p_memsz ph) = length (run_data mc d (rs ! i)) \<and>
    (\<forall>j < length (run_data mc d (rs ! i)). segment_byte (core_file mc d rs ns) ph j = run_data mc d (rs ! i) ! j)"
proof -
  let ?m = "mc_memory mc" and ?R = "length rs" and ?c = "core_file mc d rs ns" and ?r = "rs ! i"
  let ?k = "length (run_frames ?m d ?r)" and ?t = "page_total ?m d (take i rs)"
  let ?w = "52 + 32 * (1 + of_nat ?R) + 308 :: u32"
  have u: "unat (of_nat y :: u32) = y" if "y < 4294967296" for y
    using that by (simp add: unat_of_nat take_bit_nat_eq_self)
  have R: "?R < 65535" using runs_le_pages [OF rs] small by simp
  have split_at: "concat (map (run_data mc d) rs) ! (4096 * ?t + j) = run_data mc d ?r ! j" if "j < 4096 * ?k" for j
    using concat_nth_block(1) [of i "map (run_data mc d) rs" j] i that
    by (simp add: take_map length_run_datas length_run_data)
  have tk: "?t + ?k \<le> page_total ?m d rs"
  proof -
    have "page_total ?m d rs = page_total ?m d (take i rs @ ?r # drop (Suc i) rs)" using id_take_nth_drop [OF i] by simp
    then show ?thesis by (simp add: page_total_def)
  qed
  have k: "unat (0x1000 * of_nat ?k :: u32) = 4096 * ?k"
  proof -
    have "unat (of_nat (4096 * ?k) :: u32) = 4096 * ?k" using tk small by (intro u) simp
    then show ?thesis by simp
  qed
  let ?off = "?w + 0x1000 * of_nat ?t"
  have off: "unat (?off + of_nat j) = 84 + 32 * ?R + 308 + (4096 * ?t + j)" if "j < 4096 * ?k" for j
  proof -
    have "unat (of_nat (84 + 32 * ?R + 308 + (4096 * ?t + j)) :: u32) = 84 + 32 * ?R + 308 + (4096 * ?t + j)"
      using tk small R that by (intro u) simp
    moreover have "of_nat (84 + 32 * ?R + 308 + (4096 * ?t + j)) = ?off + of_nat j" by (simp add: algebra_simps)
    ultimately show ?thesis by (simp only:)
  qed
  obtain b where "drop (32 * i) (run_phdrs ?m d ?w rs) = run_phdr ?off ?r ?k @ b"
    using run_phdrs_drop [OF i, of ?m d ?w] by blast
  moreover have "drop (84 + 32 * i) ?c = drop (32 * i) (drop 84 ?c)" by (simp add: add.commute)
  ultimately have b: "drop (84 + 32 * i) ?c = run_phdr ?off ?r ?k @ b @ ns @ concat (map (run_data mc d) rs)"
    using i unfolding core_file_split(2) [OF ns] by simp
  have at: "unat (e_phoff hdr + ucast (e_phentsize hdr) * of_nat (Suc i)) = 84 + 32 * i"
  proof -
    have "unat (of_nat (84 + 32 * i) :: u32) = 84 + 32 * i" using i R by (intro u) simp
    moreover have "e_phoff hdr + ucast (e_phentsize hdr) * of_nat (Suc i) = of_nat (84 + 32 * i)"
      by (simp add: hdr)
    ultimately show ?thesis by (simp only:)
  qed
  have len: "length ?c = 84 + 32 * ?R + 308 + 4096 * page_total ?m d rs"
    by (simp add: core_file_def Let_def ns length_run_datas)
  have "84 + 32 * i \<le> length ?c" using i len by simp
  from read_phdr_at [OF at this b]
  have ph: "read_phdr ?c hdr (Suc i) = Inr \<lparr>p_type = PT_LOAD, p_offset = ?off, p_vaddr = run_vaddr ?r,
      p_filesz = 0x1000 * of_nat ?k, p_memsz = 0x1000 * of_nat ?k\<rparr>" .
  have "?c ! (84 + 32 * ?R + 308 + x) = concat (map (run_data mc d) rs) ! x" for x
    using len by (intro nth_drop_at core_file_split(4) [OF ns]) simp
  then have "segment_byte ?c \<lparr>p_type = PT_LOAD, p_offset = ?off, p_vaddr = run_vaddr ?r,
      p_filesz = 0x1000 * of_nat ?k, p_memsz = 0x1000 * of_nat ?k\<rparr> j = run_data mc d ?r ! j" if "j < 4096 * ?k" for j
    using that off [OF that] split_at [OF that] k by (simp add: segment_byte_def)
  then show ?thesis using ph k by (simp add: length_run_data)
qed

lemma run_frames_private:
  assumes "private_run m d r" and "f \<in> set (run_frames m d r)"
  shows "\<exists>pt p. private_table m d (fst r) pt \<and> p < 1024 \<and> pg_present (m_table m pt p) \<and> f = pg_pageAddress (m_table m pt p)"
proof -
  from assms(1) obtain pt where pt: "private_table m d (fst r) pt" by (auto simp: private_run_def)
  then have "pd_tables (m_dir m d) (fst r) = Some pt" by (simp add: private_table_def)
  then obtain p where p: "p \<in> set (takeWhile (\<lambda>p. pg_present (m_table m pt p)) [snd r..<1024])"
      "f = pg_pageAddress (m_table m pt p)" using assms(2) by (auto simp: run_frames_def)
  from set_takeWhileD [OF p(1)] have "p < 1024" "pg_present (m_table m pt p)" by simp_all
  with p(2) pt show ?thesis by blast
qed

lemma private_byte_in_run:
  assumes pt: "private_table (mc_memory mc) d (unat (a div 0x400000)) pt" and v: "user_byte d a mc = Some v"
    and rs: "covers_tables (mc_memory mc) d 1024 rs" "\<forall>r \<in> set rs. private_run (mc_memory mc) d r"
  shows "\<exists>i < length rs. \<exists>j < length (run_data mc d (rs ! i)). a = run_vaddr (rs ! i) + of_nat j"
proof -
  let ?m = "mc_memory mc" and ?i = "unat (a div 0x400000)" and ?p = "unat (a div 0x1000 mod 1024)"
  have i: "unat (a div 0x1000 div 1024) = ?i" by (simp add: unat_div flip: div_mult2_eq)
  have ilt: "?i < 1024" unfolding unat_div by (rule less_mult_imp_div_less) simp
  have plt: "?p < 1024" by (simp add: unat_mod)
  have "pd_tables (m_dir ?m d) ?i = Some pt" using pt by (simp add: private_table_def)
  then have "pg_present (m_table ?m pt ?p)"
    using v i by (auto simp: user_byte_def lookup_page_def Let_def page_at_def split: if_splits)
  then obtain r where r: "r \<in> set rs" "fst r = ?i" "snd r \<le> ?p" "?p < snd r + length (run_frames ?m d r)"
    using rs(1) pt ilt plt unfolding covers_tables_def by blast
  define j where "j = (?p - snd r) * 4096 + unat (a mod 0x1000)"
  have o: "unat (a mod 0x1000) < 4096" by (simp add: unat_mod)
  have "j div 4096 = ?p - snd r" using o by (simp add: j_def)
  then have q: "snd r + j div 4096 < 1024" using r(3) plt by simp
  have "j < 4096 * length (run_frames ?m d r)"
  proof -
    have "Suc (?p - snd r) \<le> length (run_frames ?m d r)" using r(3,4) by simp
    then have "Suc (?p - snd r) * 4096 \<le> length (run_frames ?m d r) * 4096" by (rule mult_le_mono1)
    then show ?thesis using o by (simp add: j_def)
  qed
  moreover have "a = run_vaddr r + of_nat j"
  proof -
    have "unat (run_vaddr r + of_nat j) = (?i * 1024 + snd r) * 4096 + j"
      using run_address [OF ilt q] r(2) by (simp add: run_vaddr_def)
    also have "\<dots> = (?i * 1024 + ?p) * 4096 + unat (a mod 0x1000)" using r(3) by (simp add: j_def algebra_simps)
    also have "?i * 1024 + ?p = unat (a div 0x1000)" unfolding i [symmetric] by (simp add: unat_div unat_mod)
    also have "unat (a div 0x1000) * 4096 + unat (a mod 0x1000) = unat a" by (simp add: unat_div unat_mod)
    finally show ?thesis by (simp add: word_eq_unat)
  qed
  ultimately show ?thesis using r(1) by (auto simp: in_set_conv_nth length_run_data)
qed

text \<open>
  Claim C28. When the kernel heap has room for the notes, a helper page and the core, and the helper page is apart from
  the frames of the process, dumping a process of less than 256 MiB succeeds, and the file holds its memory:
  read with the loader's own functions, its header counts its program headers, the first note holds the saved
  registers, every byte of a loadable segment is the byte of the process at that address, and every byte
  of the process in a page table of its own is in a loadable segment.
\<close>

theorem dumpELFCore_complete:
  assumes "m = mc_memory mc" and "d = t_pageDir (k_task (mc_kernel mc) t)"
    and allocs: "memory_alloc notes_size False m = Inr (na, np, m1)" "memory_alloc 0x1000 True m1 = Inr (helper, hp, m2)"
      "memory_alloc (core_size m d) False m2 = Inr (ca, cp, m3)" "memory_free helper m3 = Inr (b, m4)"
    and "helper_ok m helper hp"
    and ap: "\<And>i pt p. private_table m d i pt \<Longrightarrow> p < 1024 \<Longrightarrow> pg_present (m_table m pt p) \<Longrightarrow>
      apart hp (pg_pageAddress (m_table m pt p))"
    and pages: "unat (rs_page_count (scan_runs m d)) < 65535"
  shows "\<exists>core mc' hdr. dumpELFCore old t mc = Inr (ca, core_size m d, core, mc') \<and> length core = unat (core_size m d) \<and>
    read_ehdr core = Inr hdr \<and>
    take 144 (drop (52 + 32 * unat (e_phnum hdr) + 20) core) = prstatus (k_frames (mc_kernel mc) (t_ks (k_task (mc_kernel mc) t))) \<and>
    (\<forall>i < unat (e_phnum hdr). \<exists>ph. read_phdr core hdr i = Inr ph \<and>
      (p_type ph = PT_LOAD \<longrightarrow> (\<forall>j < unat (p_memsz ph). user_byte d (p_vaddr ph + of_nat j) mc = Some (segment_byte core ph j)))) \<and>
    (\<forall>a pt v. private_table m d (unat (a div 0x400000)) pt \<longrightarrow> user_byte d a mc = Some v \<longrightarrow>
      (\<exists>i < unat (e_phnum hdr). \<exists>ph j. read_phdr core hdr i = Inr ph \<and> p_type ph = PT_LOAD \<and> j < unat (p_memsz ph) \<and>
        a = p_vaddr ph + of_nat j))"
proof -
  obtain rs where rs: "rs_runs (scan_runs m d) = map run_code rs" "rs_page_count (scan_runs m d) = of_nat (page_total m d rs)"
    "rs_run_count (scan_runs m d) = of_nat (length rs)" "page_total m d rs \<le> 1048576"
    "\<forall>r \<in> set rs. private_run m d r" "covers_tables m d 1024 rs" using scan_runs_found [of m d] by blast
  have tot: "page_total m d rs < 65535" using pages rs(2,4) by (simp add: unat_of_nat take_bit_nat_eq_self)
  have "\<forall>r \<in> set rs. \<forall>f \<in> set (run_frames m d r). apart hp f" using rs(5) run_frames_private ap by blast
  from dumpELFCore_file [OF allocs [unfolded assms(1,2)] _ _ _ _ _ _ this [unfolded assms(1,2)], of old] rs(1-3,5) tot assms(7)
  obtain ns mc' where dump: "dumpELFCore old t mc = Inr (ca, core_size m d, core_file mc d rs ns, mc')" "length ns = 308"
    "take 144 (drop 20 ns) = prstatus (k_frames (mc_kernel mc) (t_ks (k_task (mc_kernel mc) t)))"
    "length (core_file mc d rs ns) = unat (core_size m d)" unfolding assms(1,2) by blast
  let ?c = "core_file mc d rs ns"
  define hdr where "hdr = \<lparr>e_entry = 0 :: u32, e_phoff = 52, e_phentsize = 32, e_phnum = ucast (1 + of_nat (length rs) :: u32)\<rparr>"
  have read: "read_ehdr ?c = Inr hdr" by (simp add: core_file_def Let_def read_core_ehdr hdr_def)
  have "length rs < 65535" using runs_le_pages [OF rs(5)] tot by simp
  then have num: "unat (e_phnum hdr) = Suc (length rs)"
    by (simp add: hdr_def unsigned_ucast_eq unat_word_ariths unat_of_nat take_bit_nat_eq_self)
  have note0: "read_phdr ?c hdr 0 = Inr \<lparr>p_type = PT_NOTE, p_offset = 0, p_vaddr = 0, p_filesz = 0, p_memsz = 0\<rparr>"
    by (rule read_note_phdr [OF core_file_split(1) [OF dump(2)]]) (simp_all add: hdr_def)
  have seg: "\<exists>ph. read_phdr ?c hdr (Suc i) = Inr ph \<and> p_type ph = PT_LOAD \<and> p_vaddr ph = run_vaddr (rs ! i) \<and>
      unat (p_memsz ph) = length (run_data mc d (rs ! i)) \<and>
      (\<forall>j < length (run_data mc d (rs ! i)). segment_byte ?c ph j = run_data mc d (rs ! i) ! j)" if "i < length rs" for i
    using core_segment [OF dump(2) _ _ that, of mc d hdr] tot rs(5) assms(1) by (simp add: hdr_def)
  have "\<exists>ph. read_phdr ?c hdr i = Inr ph \<and>
      (p_type ph = PT_LOAD \<longrightarrow> (\<forall>j < unat (p_memsz ph). user_byte d (p_vaddr ph + of_nat j) mc = Some (segment_byte ?c ph j)))"
    if i: "i < unat (e_phnum hdr)" for i
  proof (cases i)
    case 0
    then show ?thesis using note0 by (simp add: PT_NOTE_def PT_LOAD_def)
  next
    case (Suc k)
    then have k: "k < length rs" using i num by simp
    then have "private_run (mc_memory mc) d (rs ! k)" using rs(5) assms(1) by simp
    with seg [OF k] show ?thesis unfolding Suc by (metis run_byte)
  qed
  moreover have "\<exists>i < unat (e_phnum hdr). \<exists>ph j. read_phdr ?c hdr i = Inr ph \<and> p_type ph = PT_LOAD \<and> j < unat (p_memsz ph) \<and>
      a = p_vaddr ph + of_nat j"
    if a: "private_table m d (unat (a div 0x400000)) pt" "user_byte d a mc = Some v" for a pt v
  proof -
    from private_byte_in_run [OF _ a(2), of pt rs] a(1) rs(5,6) assms(1) obtain i j
      where ij: "i < length rs" "j < length (run_data mc d (rs ! i))" "a = run_vaddr (rs ! i) + of_nat j" by auto
    with seg [OF ij(1)] num show ?thesis by (metis Suc_less_eq)
  qed
  moreover have "drop (52 + 32 * unat (e_phnum hdr) + 20) ?c = drop 20 (drop (84 + 32 * length rs) ?c)"
    by (simp add: num add.commute)
  then have "take 144 (drop (52 + 32 * unat (e_phnum hdr) + 20) ?c) =
      prstatus (k_frames (mc_kernel mc) (t_ks (k_task (mc_kernel mc) t)))"
    using dump(2,3) by (simp only: core_file_split(3) [OF dump(2)]) simp
  ultimately show ?thesis using dump(1,4) read by blast
qed

end
