(* ===== verification/CoreDumpExamples.thy ===== *)
theory CoreDumpExamples
  imports CoreDumpProps HeapExamples KernelExamples
begin

text \<open>
  The dump of a process with one page: the kernel heap is mapped to the frames from 16 on, the page of the process
  is in frame 7.
\<close>

definition dump_heap :: heap where
  "dump_heap = projr (heap_new 0x20000000 0x20008000 0x20008000 16 False False
     (\<lambda>_. \<lparr>e_start = 0, e_size = 0, isHole = False\<rparr>))"

definition dump_memory :: memory where
  "dump_memory = demo_memory\<lparr>m_placementAddress := 0, m_heap := Some dump_heap,
     m_table := (\<lambda>t i. if t = 0 then zero_page\<lparr>pg_present := i < 8, pg_pageAddress := 16 + of_nat i\<rparr>
       else zero_page\<lparr>pg_present := i = 0x48, pg_pageAddress := 7\<rparr>),
     m_ntables := 2,
     m_dir := (\<lambda>d. \<lparr>pd_tables = (\<lambda>i. if i = 128 then Some 0 else if d = 1 \<and> i = 32 then Some 1 else None),
       pd_tablePhysicals = (\<lambda>_. 0), pd_physicalAddr = 0\<rparr>), m_ndirs := 2\<rparr>"

definition dump_machine :: machine where
  "dump_machine = \<lparr>mc_kernel = demo_kernel\<lparr>k_task := (\<lambda>t. (k_task demo_kernel t)\<lparr>t_pageDir := 1\<rparr>)\<rparr>,
     mc_memory = dump_memory, mc_frame = (\<lambda>f i. if f = 7 then 0xAB else 0)\<rparr>"

lemma fold_id: "\<forall>x \<in> set xs. f x s = s \<Longrightarrow> fold f xs s = s"
  by (induction xs) simp_all

lemma upt_split_at: "i < n \<Longrightarrow> [0..<n] = [0..<i] @ i # [Suc i..<n]"
  by (metis le_add_diff_inverse less_imp_le_nat upt_add_eq_append upt_conv_Cons zero_le)

lemma dump_table:
  assumes "rs_last_start s = -1"
  shows "fold (scan_page (m_table dump_memory 1) 32) [0..<1024] s =
    s\<lparr>rs_page_count := rs_page_count s + 1, rs_run_count := rs_run_count s + 1, rs_runs := rs_runs s @ [0x200048]\<rparr>"
proof -
  let ?f = "scan_page (m_table dump_memory 1) 32"
  have pr: "pg_present (m_table dump_memory 1 i) \<longleftrightarrow> i = 0x48" for i by (simp add: dump_memory_def zero_page_def)
  have skip: "fold ?f xs s = s" if "rs_last_start s = -1" "0x48 \<notin> set xs" for xs s
    using that by (intro fold_id) (auto simp: scan_page_def pr simp del: One_nat_def)
  have xs: "[0..<1024] = [0..<0x48] @ 0x48 # 0x49 # [0x4A..<1024]"
    using upt_split_at [of "0x48" 1024] by (simp add: upt_conv_Cons [of "0x49"])
  have code: "push_bit 16 (of_nat 32) OR of_nat 0x48 = (0x200048 :: u32)" by code_simp
  have "fold ?f [0..<1024] s = fold ?f [0x4A..<1024] (?f 0x49 (?f 0x48 s))"
    unfolding xs using skip [OF assms, of "[0..<0x48]"] by simp
  also have "?f 0x49 (?f 0x48 s) =
      s\<lparr>rs_page_count := rs_page_count s + 1, rs_run_count := rs_run_count s + 1, rs_runs := rs_runs s @ [0x200048]\<rparr>"
    using assms unfolding scan_page_def code by (cases s) (simp add: pr del: One_nat_def)
  also have "fold ?f [0x4A..<1024] \<dots> = \<dots>"
    by (rule skip) (use assms in simp_all)
  finally show ?thesis .
qed

lemma dump_scan: "rs_page_count (scan_runs dump_memory 1) = 1" "rs_run_count (scan_runs dump_memory 1) = 1"
proof -
  let ?f = "scan_table dump_memory 1"
  have skip: "fold ?f xs s = s" if "32 \<notin> set xs" for xs s
    using that by (intro fold_id) (auto simp: scan_table_def dump_memory_def demo_memory_def)
  have "?f 32 s = s\<lparr>rs_page_count := rs_page_count s + 1, rs_run_count := rs_run_count s + 1, rs_runs := rs_runs s @ [0x200048]\<rparr>"
    if "rs_last_start s = -1" for s
  proof -
    have "pd_tables (m_dir dump_memory 1) 32 = Some 1" "pd_tables (m_dir dump_memory (m_kernelDirectory dump_memory)) 32 = None"
      by (simp_all add: dump_memory_def demo_memory_def)
    then show ?thesis using dump_table [of "s\<lparr>rs_last_start := -1\<rparr>"] that
      by (cases s) (simp add: scan_table_def Let_def del: One_nat_def)
  qed
  then show "rs_page_count (scan_runs dump_memory 1) = 1" "rs_run_count (scan_runs dump_memory 1) = 1"
    using skip [of "[0..<32]"] skip [of "[33..<1024]"] upt_split_at [of 32 1024] by (simp_all add: scan_runs_def)
qed

lemma dump_core_size: "core_size dump_memory 1 = 4520"
  by (simp add: core_size_def dump_scan sizeof_Ehdr_def sizeof_Phdr_def notes_size_eq del: One_nat_def)

definition dump_after :: "u32 list \<Rightarrow> heap" where
  "dump_after = foldl (\<lambda>h n. snd (projr (heap_alloc n h))) dump_heap"

lemma dump_allocs:
  "heap_alloc 308 dump_heap = Inr (0x20001000, dump_after [308])"
  "heap_alloc 0x1000 (dump_after [308]) = Inr (0x20001134, dump_after [308, 0x1000])"
  "heap_alloc 4520 (dump_after [308, 0x1000]) = Inr (0x20002134, dump_after [308, 0x1000, 4520])"
  "\<exists>b h. heap_free 0x20001134 (dump_after [308, 0x1000, 4520]) = Inr (b, h)"
proof -
  have pair: "r = Inr (a, snd (projr r))" if "\<not> isl r \<and> fst (projr r) = a" for r :: "(u32 \<times> heap) result" and a
    using that by (cases r) auto
  have "\<not> isl (heap_alloc 308 dump_heap) \<and> fst (projr (heap_alloc 308 dump_heap)) = 0x20001000" by code_simp
  from pair [OF this] show "heap_alloc 308 dump_heap = Inr (0x20001000, dump_after [308])" by (simp add: dump_after_def)
  have "\<not> isl (heap_alloc 0x1000 (dump_after [308])) \<and> fst (projr (heap_alloc 0x1000 (dump_after [308]))) = 0x20001134"
    by code_simp
  from pair [OF this] show "heap_alloc 0x1000 (dump_after [308]) = Inr (0x20001134, dump_after [308, 0x1000])"
    by (simp add: dump_after_def)
  have "\<not> isl (heap_alloc 4520 (dump_after [308, 0x1000])) \<and> fst (projr (heap_alloc 4520 (dump_after [308, 0x1000]))) = 0x20002134"
    by code_simp
  from pair [OF this] show "heap_alloc 4520 (dump_after [308, 0x1000]) = Inr (0x20002134, dump_after [308, 0x1000, 4520])"
    by (simp add: dump_after_def)
  have "\<not> isl (heap_free 0x20001134 (dump_after [308, 0x1000, 4520]))" by code_simp
  then show "\<exists>b h. heap_free 0x20001134 (dump_after [308, 0x1000, 4520]) = Inr (b, h)"
    using result_pair by blast
qed

lemma dump_helper: "helper_ok dump_memory 0x20001134 0x11134" "i < 4096 \<Longrightarrow> frame_of (0x11134 + of_nat i) \<noteq> 7"
proof -
  have at: "unat (of_nat y :: u32) = y" if "y < 4294967296" for y
    using that by (simp add: unat_of_nat take_bit_nat_eq_self)
  have v: "unat (0x20001134 + of_nat i :: u32) = 0x20001134 + i" "unat (0x11134 + of_nat i :: u32) = 0x11134 + i"
    if "i < 4096" for i
    using at [of "0x20001134 + i"] at [of "0x11134 + i"] that by simp+
  define q where "q i = (0x134 + i) div 4096 + 1" for i :: nat
  have q: "q i < 8" if "i < 4096" for i
    using that by (simp add: q_def less_mult_imp_div_less)
  have look: "lookup_page 0 (0x20001134 + of_nat i) dump_memory = Some (0, q i)" if i: "i < 4096" for i
  proof -
    have "0x20001134 + i = 4096 * (131072 + 1) + (0x134 + i)" by simp
    then have d: "(0x20001134 + i) div 4096 = 131072 + q i" by (simp only: div_mult_self4 q_def)
    have "unat ((0x20001134 + of_nat i :: u32) div 0x1000 div 1024) = (131072 + q i) div 1024"
      using v(1) [OF i] d by (simp add: unat_div)
    moreover have "unat ((0x20001134 + of_nat i :: u32) div 0x1000 mod 1024) = (131072 + q i) mod 1024"
      using v(1) [OF i] d by (simp add: unat_div unat_mod)
    moreover have "131072 + q i = q i + 1024 * 128" by simp
    then have "(131072 + q i) div 1024 = 128" "(131072 + q i) mod 1024 = q i" using q [OF i]
      by (simp_all only: mod_mult_self2 div_mult_self2) simp_all
    ultimately show ?thesis by (simp add: lookup_page_def Let_def dump_memory_def)
  qed
  have f: "unat (ucast (16 + of_nat (q i) :: 20 word) :: u32) = 16 + q i" if i: "i < 4096" for i
  proof -
    have "of_nat (16 + q i) = (16 + of_nat (q i) :: 20 word)" by simp
    moreover have "unat (of_nat (16 + q i) :: 20 word) = 16 + q i"
      using q [OF i] by (simp only: unat_of_nat) (simp add: take_bit_nat_eq_self)
    ultimately show ?thesis using q [OF i] by (simp add: unsigned_ucast_eq take_bit_nat_eq_self)
  qed
  have phys: "ucast (16 + of_nat (q i) :: 20 word) * 0x1000 + ((0x20001134 + of_nat i) AND 0xFFF) = (0x11134 + of_nat i :: u32)"
    if i: "i < 4096" for i
  proof -
    have m: "unat (ucast (16 + of_nat (q i) :: 20 word) * 0x1000 :: u32) = (16 + q i) * 4096"
      using f [OF i] q [OF i] by (simp add: unat_word_ariths)
    have "0x20001134 + i = 0x134 + i + 4096 * 131073" by simp
    then have l: "unat ((0x20001134 + of_nat i :: u32) AND 0xFFF) = (0x134 + i) mod 4096"
      unfolding low12_mod v(1) [OF i] by (simp only: mod_mult_self2)
    have "(16 + q i) * 4096 + (0x134 + i) mod 4096 = 0x11134 + i"
      by (simp add: q_def)
    then show ?thesis using q [OF i] m l v(2) [OF i] i by (simp add: word_eq_unat unat_add_nowrap)
  qed
  show "helper_ok dump_memory 0x20001134 0x11134"
    unfolding helper_ok_def
  proof (intro allI impI)
    fix i :: nat assume i: "i < 4096"
    have "m_activeDirectory dump_memory = 0" by (simp add: dump_memory_def demo_memory_def)
    moreover have "page_at (0, q i) dump_memory = zero_page\<lparr>pg_present := q i < 8, pg_pageAddress := 16 + of_nat (q i)\<rparr>"
      by (simp add: page_at_def dump_memory_def)
    ultimately show "\<exists>p. lookup_page (m_activeDirectory dump_memory) (0x20001134 + of_nat i) dump_memory = Some p \<and>
        pg_present (page_at p dump_memory) \<and> page_physical p (0x20001134 + of_nat i) dump_memory = 0x11134 + of_nat i"
      using look [OF i] q [OF i] phys [OF i] by (intro exI [of _ "(0, q i)"]) (simp add: page_physical_def)
  qed
  assume i: "i < 4096"
  have "(0x11134 + i) div 4096 = 16 + q i" by (simp add: q_def)
  then have "unat ((0x11134 + of_nat i :: u32) div 0x1000) = 16 + q i" using v(2) [OF i] by (simp add: unat_div)
  then have "unat (frame_of (0x11134 + of_nat i)) = 16 + q i"
    using q [OF i] by (simp add: frame_of_def unsigned_ucast_eq take_bit_nat_eq_self)
  then show "frame_of (0x11134 + of_nat i) \<noteq> 7" by auto
qed

theorem dumpELFCore_complete_witness:
  "\<exists>core mc' hdr i ph j. dumpELFCore (\<lambda>_. 0xEE) 0 dump_machine = Inr (0x20002134, 4520, core, mc') \<and>
     read_ehdr core = Inr hdr \<and> read_phdr core hdr i = Inr ph \<and> p_vaddr ph + of_nat j = 0x8048123 \<and>
     segment_byte core ph j = 0xAB"
proof -
  let ?m = dump_memory
  have heap: "memory_alloc n False (?m\<lparr>m_heap := Some h\<rparr>) = Inr (a, 0, ?m\<lparr>m_heap := Some h'\<rparr>)"
    if "heap_alloc n h = Inr (a, h')" for n h a h'
    using that by (simp add: memory_alloc_def dump_memory_def demo_memory_def kernel_phys_def)
  have m0: "?m\<lparr>m_heap := Some dump_heap\<rparr> = ?m" by (simp add: dump_memory_def demo_memory_def)
  have look: "lookup_page 0 0x20001134 (?m\<lparr>m_heap := Some h\<rparr>) = Some (0, 1)" for h
    by (simp add: lookup_page_def Let_def dump_memory_def)
  have at: "page_at (0, 1) (?m\<lparr>m_heap := Some h\<rparr>) = zero_page\<lparr>pg_present := True, pg_pageAddress := 17\<rparr>" for h
    by (simp add: page_at_def dump_memory_def)
  have helper: "memory_alloc 0x1000 True (?m\<lparr>m_heap := Some (dump_after [308])\<rparr>) =
      Inr (0x20001134, 0x11134, ?m\<lparr>m_heap := Some (dump_after [308, 0x1000])\<rparr>)"
  proof -
    have "m_kernelDirectory ?m = 0" "m_placementAddress ?m = 0" by (simp_all add: dump_memory_def demo_memory_def)
    then show ?thesis using dump_allocs(2) look [of "dump_after [308]"] at [of "dump_after [308]"]
      by (simp add: memory_alloc_def kernel_phys_def page_physical_def)
  qed
  obtain b h where h: "heap_free 0x20001134 (dump_after [308, 0x1000, 4520]) = Inr (b, h)" using dump_allocs(4) by blast
  then have free: "memory_free 0x20001134 (?m\<lparr>m_heap := Some (dump_after [308, 0x1000, 4520])\<rparr>) =
      Inr (b, ?m\<lparr>m_heap := Some h\<rparr>)"
    by (simp add: memory_free_def dump_memory_def demo_memory_def)
  have task: "t_pageDir (k_task (mc_kernel dump_machine) 0) = 1" by (simp add: dump_machine_def)
  have ap: "apart 0x11134 (pg_pageAddress (m_table ?m pt p))"
    if "private_table ?m 1 i pt" for i pt p
  proof -
    have "pt = 1" using that by (auto simp: private_table_def dump_memory_def demo_memory_def split: if_splits)
    then have "pg_pageAddress (m_table ?m pt p) = 7" by (simp add: dump_memory_def)
    then show ?thesis using dump_helper(2) by (simp add: apart_def)
  qed
  note run = dumpELFCore_complete [where m = ?m and mc = dump_machine and d = 1 and t = 0 and na = "0x20001000" and np = 0
      and ?m1.0 = "?m\<lparr>m_heap := Some (dump_after [308])\<rparr>" and helper = "0x20001134" and hp = "0x11134"
      and ?m2.0 = "?m\<lparr>m_heap := Some (dump_after [308, 0x1000])\<rparr>" and ca = "0x20002134" and cp = 0
      and ?m3.0 = "?m\<lparr>m_heap := Some (dump_after [308, 0x1000, 4520])\<rparr>" and b = b
      and ?m4.0 = "?m\<lparr>m_heap := Some h\<rparr>" and old = "\<lambda>_. 0xEE", OF _ task [symmetric]]
  have "\<exists>core mc' hdr. dumpELFCore (\<lambda>_. 0xEE) 0 dump_machine = Inr (0x20002134, core_size ?m 1, core, mc') \<and>
    length core = unat (core_size ?m 1) \<and> read_ehdr core = Inr hdr \<and>
    take 144 (drop (52 + 32 * unat (e_phnum hdr) + 20) core) =
      prstatus (k_frames (mc_kernel dump_machine) (t_ks (k_task (mc_kernel dump_machine) 0))) \<and>
    (\<forall>i < unat (e_phnum hdr). \<exists>ph. read_phdr core hdr i = Inr ph \<and>
      (p_type ph = PT_LOAD \<longrightarrow> (\<forall>j < unat (p_memsz ph).
        user_byte 1 (p_vaddr ph + of_nat j) dump_machine = Some (segment_byte core ph j)))) \<and>
    (\<forall>a pt v. private_table ?m 1 (unat (a div 0x400000)) pt \<longrightarrow> user_byte 1 a dump_machine = Some v \<longrightarrow>
      (\<exists>i < unat (e_phnum hdr). \<exists>ph j. read_phdr core hdr i = Inr ph \<and> p_type ph = PT_LOAD \<and> j < unat (p_memsz ph) \<and>
        a = p_vaddr ph + of_nat j))"
  proof (rule run)
    show "?m = mc_memory dump_machine" by (simp add: dump_machine_def)
    show "memory_alloc notes_size False ?m = Inr (0x20001000, 0, ?m\<lparr>m_heap := Some (dump_after [308])\<rparr>)"
      using heap [OF dump_allocs(1)] by (simp add: m0 notes_size_eq)
    show "memory_alloc (core_size ?m 1) False (?m\<lparr>m_heap := Some (dump_after [308, 0x1000])\<rparr>) =
        Inr (0x20002134, 0, ?m\<lparr>m_heap := Some (dump_after [308, 0x1000, 4520])\<rparr>)"
      unfolding dump_core_size by (rule heap [OF dump_allocs(3)])
    show "unat (rs_page_count (scan_runs ?m 1)) < 65535" by (simp only: dump_scan) simp
  qed (fact helper free dump_helper(1) | erule ap)+
  then obtain core mc' hdr where core: "dumpELFCore (\<lambda>_. 0xEE) 0 dump_machine = Inr (0x20002134, 4520, core, mc')"
    "read_ehdr core = Inr hdr" and sound: "\<forall>i < unat (e_phnum hdr). \<exists>ph. read_phdr core hdr i = Inr ph \<and>
      (p_type ph = PT_LOAD \<longrightarrow> (\<forall>j < unat (p_memsz ph).
        user_byte 1 (p_vaddr ph + of_nat j) dump_machine = Some (segment_byte core ph j)))"
    and all: "\<forall>a pt v. private_table ?m 1 (unat (a div 0x400000)) pt \<longrightarrow> user_byte 1 a dump_machine = Some v \<longrightarrow>
      (\<exists>i < unat (e_phnum hdr). \<exists>ph j. read_phdr core hdr i = Inr ph \<and> p_type ph = PT_LOAD \<and> j < unat (p_memsz ph) \<and>
        a = p_vaddr ph + of_nat j)" unfolding dump_core_size by blast
  have "private_table ?m 1 (unat (0x8048123 div 0x400000 :: u32)) 1"
    by (simp add: private_table_def dump_memory_def demo_memory_def)
  moreover have byte: "user_byte 1 0x8048123 dump_machine = Some 0xAB"
    by (simp add: user_byte_def lookup_page_def Let_def page_at_def dump_machine_def dump_memory_def)
  ultimately obtain i ph j where i: "i < unat (e_phnum hdr)" "read_phdr core hdr i = Inr ph" "p_type ph = PT_LOAD"
    "j < unat (p_memsz ph)" "0x8048123 = p_vaddr ph + of_nat j" using all by blast
  with sound byte have "segment_byte core ph j = 0xAB" by fastforce
  with core i show ?thesis by metis
qed

end
