(* ===== verification/Debugger.thy ===== *)
theory Debugger
  imports CoreDump StdString
begin

text \<open>
  \<^verbatim>\<open>src/Debugger.cpp\<close>: the serial port, and the loop that answers the commands of a remote debugger. The
  port is the bytes that are still to arrive and the bytes sent so far; waiting for a byte that never arrives is
  \<open>Diverges\<close>, and the transmitter is taken to become empty at some time. The lines that
  \<open>getU32\<close> prints are left out.
\<close>

section \<open>The port\<close>

record com_port =
  com_in :: bytes
  com_out :: bytes

definition COM :: "int \<Rightarrow> u32" where
  "COM com = (if com = 1 then 0x3f8 else if com = 2 then 0x2f8 else if com = 3 then 0x3e8 else if com = 4 then 0x2e8
     else 0x3f8)"

text \<open>The writes of \<open>initialize\<close>, as pairs of a port and a value.\<close>

definition com_initialize :: "u32 \<Rightarrow> (u32 \<times> u8) list" where
  "com_initialize base =
     [(base + 1, 0x00), (base + 3, 0x80), (base + 0, 0x01), (base + 1, 0x00), (base + 3, 0x03), (base + 2, 0xC7),
      (base + 4, 0x0B)]"

definition getChar :: "com_port \<Rightarrow> (u8 \<times> com_port) result" where
  "getChar c = (case com_in c of [] \<Rightarrow> Inl Diverges | x # xs \<Rightarrow> Inr (x, c\<lparr>com_in := xs\<rparr>))"

fun getU32_loop :: "nat \<Rightarrow> nat \<Rightarrow> u32 \<Rightarrow> com_port \<Rightarrow> (u32 \<times> com_port) result" where
  "getU32_loop 0 i r c = Inr (r, c)"
| "getU32_loop (Suc n) i r c =
     rbind (getChar c) (\<lambda>(x, c1). getU32_loop n (i + 1) (r OR push_bit (i * 8) (ucast x)) c1)"

definition getU32 :: "com_port \<Rightarrow> (u32 \<times> com_port) result" where
  "getU32 c = getU32_loop 4 0 0 c"

fun getStringNL_loop :: "bytes \<Rightarrow> std_string \<Rightarrow> (std_string \<times> bytes) result" where
  "getStringNL_loop [] s = Inl Diverges"
| "getStringNL_loop (x # xs) s =
     (if x = 10 then Inr (s, xs) else rbind (string_append_char s x) (\<lambda>s1. getStringNL_loop xs s1))"

definition getStringNL :: "com_port \<Rightarrow> (std_string \<times> com_port) result" where
  "getStringNL c = rbind (getStringNL_loop (com_in c) string_new) (\<lambda>(s, xs). Inr (s, c\<lparr>com_in := xs\<rparr>))"

fun getChars :: "nat \<Rightarrow> com_port \<Rightarrow> (bytes \<times> com_port) result" where
  "getChars 0 c = Inr ([], c)"
| "getChars (Suc n) c = rbind (getChar c) (\<lambda>(x, c1). rbind (getChars n c1) (\<lambda>(xs, c2). Inr (x # xs, c2)))"

definition getString :: "u32 \<Rightarrow> com_port \<Rightarrow> (std_string \<times> com_port) result" where
  "getString n c = rbind (getChars (unat n) c) (\<lambda>(buf, c1). rbind (string_of_n buf n) (\<lambda>s. Inr (s, c1)))"

definition getMessage :: "com_port \<Rightarrow> (std_string \<times> com_port) result" where
  "getMessage c = rbind (getU32 c) (\<lambda>(n, c1). getString n c1)"

definition com_putChar :: "u8 \<Rightarrow> com_port \<Rightarrow> com_port" where
  "com_putChar x c = c\<lparr>com_out := com_out c @ [x]\<rparr>"

definition putU32 :: "u32 \<Rightarrow> com_port \<Rightarrow> com_port" where
  "putU32 n c = fold (\<lambda>i. com_putChar (ucast (drop_bit (i * 8) n AND 0xFF))) [0..<4] c"

text \<open>The memory is a function; \<open>s\<close> is the address.\<close>

fun putMemory :: "(u32 \<Rightarrow> u8) \<Rightarrow> u32 \<Rightarrow> nat \<Rightarrow> com_port \<Rightarrow> com_port" where
  "putMemory mem s 0 c = c"
| "putMemory mem s (Suc n) c = putMemory mem (s + 1) n (com_putChar (mem s) c)"

fun com_putString :: "bytes \<Rightarrow> com_port \<Rightarrow> com_port result" where
  "com_putString [] c = Inl OutOfBounds"
| "com_putString (x # s) c = (if x \<noteq> 0 then com_putString s (com_putChar x c) else Inr c)"

definition putMessage :: "std_string \<Rightarrow> com_port \<Rightarrow> com_port result" where
  "putMessage s c =
     (case st_str s of None \<Rightarrow> Inl NullDeref | Some b \<Rightarrow> com_putString b (putU32 (st_length s) c))"

section \<open>The debugger\<close>

text \<open>The file to be sent, null when there is none.\<close>

record debugger =
  db_receive :: "bytes option"
  db_receiveSize :: u32

definition debugger_new :: debugger where
  "debugger_new = \<lparr>db_receive = None, db_receiveSize = 0\<rparr>"

definition setReceiveFile :: "bytes \<Rightarrow> u32 \<Rightarrow> debugger \<Rightarrow> debugger result" where
  "setReceiveFile b n db = rbind (memcpy (new_chars (unat n)) b (unat n)) (\<lambda>r.
     Inr (db\<lparr>db_receive := Some r, db_receiveSize := n\<rparr>))"

text \<open>Sending a block: reading past its end is \<open>OutOfBounds\<close>.\<close>

definition put_block :: "bytes \<Rightarrow> u32 \<Rightarrow> com_port \<Rightarrow> com_port result" where
  "put_block b n c =
     (if unat n \<le> length b then Inr (c\<lparr>com_out := com_out c @ take (unat n) b\<rparr>) else Inl OutOfBounds)"

definition send_file :: "debugger \<Rightarrow> com_port \<Rightarrow> (debugger \<times> com_port) result" where
  "send_file db c =
     (case db_receive db of
        None \<Rightarrow> Inr (db, putU32 1 c)
      | Some b \<Rightarrow>
          rbind (put_block b (db_receiveSize db) (putU32 (db_receiveSize db) (putU32 0 c))) (\<lambda>c1.
          Inr (db\<lparr>db_receive := None, db_receiveSize := 0\<rparr>, c1)))"

definition is_command :: "std_string \<Rightarrow> string \<Rightarrow> bool result" where
  "is_command s name = string_eq_c s (Some (cstr name))"

text \<open>One command: the debugger, the port, and whether the loop goes on.\<close>

definition debugger_command ::
  "bytes \<Rightarrow> (u32 \<Rightarrow> u8) \<Rightarrow> std_string \<Rightarrow> debugger \<Rightarrow> com_port \<Rightarrow> (debugger \<times> com_port \<times> bool) result" where
  "debugger_command version mem command db c =
     rbind (is_command command ''version'') (\<lambda>is_version.
     if is_version then
       rbind (string_of_c version) (\<lambda>v. rbind (putMessage v (putU32 0 c)) (\<lambda>c1. Inr (db, c1, True)))
     else rbind (is_command command ''get'') (\<lambda>is_get.
     if is_get then
       rbind (getU32 c) (\<lambda>(base, c1). rbind (getU32 c1) (\<lambda>(n, c2).
       Inr (db, putMemory mem base (unat n) (putU32 0 c2), True)))
     else rbind (is_command command ''receive'') (\<lambda>is_receive.
     if is_receive then rbind (send_file db c) (\<lambda>(db1, c1). Inr (db1, c1, True))
     else rbind (is_command command ''break'') (\<lambda>is_break.
     if is_break then
       rbind (string_of_c (cstr ''Bye!'')) (\<lambda>m. rbind (putMessage m (putU32 0 c)) (\<lambda>c1. Inr (db, c1, False)))
     else
       rbind (string_of_c (cstr ''unknown command'')) (\<lambda>m. rbind (putMessage m (putU32 1 c)) (\<lambda>c1.
       Inr (db, c1, True)))))))"

section \<open>The loop\<close>

lemma getChar_in: "getChar c = Inr (x, c1) \<Longrightarrow> length (com_in c) = Suc (length (com_in c1))"
  by (auto simp: getChar_def split: list.splits)

lemma getU32_loop_in: "getU32_loop n i r c = Inr (v, c1) \<Longrightarrow> length (com_in c) = n + length (com_in c1)"
proof (induction n arbitrary: i r c)
  case (Suc n)
  then show ?case by (fastforce simp: rbind_eq_Inr dest!: getChar_in)
qed simp

lemma getU32_in: "getU32 c = Inr (v, c1) \<Longrightarrow> length (com_in c) = 4 + length (com_in c1)"
  by (simp add: getU32_def getU32_loop_in)

lemma getChars_in: "getChars n c = Inr (b, c1) \<Longrightarrow> length (com_in c) = n + length (com_in c1)"
proof (induction n arbitrary: c b)
  case (Suc n)
  then show ?case by (fastforce simp: rbind_eq_Inr dest!: getChar_in)
qed simp

lemma getMessage_in: "getMessage c = Inr (s, c1) \<Longrightarrow> length (com_in c1) < length (com_in c)"
  by (auto simp: getMessage_def getString_def rbind_eq_Inr dest!: getU32_in getChars_in)

lemma com_out_in [simp]:
  "com_in (com_putChar x c) = com_in c" "com_in (putU32 v c) = com_in c" "com_in (putMemory mem a n c) = com_in c"
proof -
  show p: "com_in (com_putChar x c) = com_in c" for x c by (simp add: com_putChar_def)
  have "com_in (fold (\<lambda>i. com_putChar (f i)) xs c) = com_in c" for f :: "nat \<Rightarrow> u8" and xs
    by (induction xs arbitrary: c) (simp_all add: p)
  then show "com_in (putU32 v c) = com_in c" by (simp add: putU32_def)
  show "com_in (putMemory mem a n c) = com_in c" by (induction mem a n c rule: putMemory.induct) (simp_all add: p)
qed

lemma com_putString_in: "com_putString b c = Inr c1 \<Longrightarrow> com_in c1 = com_in c"
  by (induction b c rule: com_putString.induct) (auto split: if_splits)

lemma putMessage_in: "putMessage s c = Inr c1 \<Longrightarrow> com_in c1 = com_in c"
  by (auto simp: putMessage_def split: option.splits dest!: com_putString_in)

lemma send_file_in: "send_file db c = Inr (db1, c1) \<Longrightarrow> com_in c1 = com_in c"
  by (auto simp: send_file_def put_block_def rbind_eq_Inr split: option.splits if_splits)

lemma debugger_command_in:
  "debugger_command version mem command db c = Inr (db1, c1, going) \<Longrightarrow> length (com_in c1) \<le> length (com_in c)"
  by (auto simp: debugger_command_def rbind_eq_Inr split: if_splits dest!: putMessage_in getU32_in send_file_in)

function debugger_run :: "bytes \<Rightarrow> (u32 \<Rightarrow> u8) \<Rightarrow> debugger \<Rightarrow> com_port \<Rightarrow> (debugger \<times> com_port) result" where
  "debugger_run version mem db c =
     rbind (getMessage c) (\<lambda>(command, c1).
     rbind (debugger_command version mem command db c1) (\<lambda>(db1, c2, going).
     if going then debugger_run version mem db1 c2 else Inr (db1, c2)))"
  by pat_completeness auto

termination
  by (relation "measure (\<lambda>(version, mem, db, c). length (com_in c))")
    (auto dest!: getMessage_in debugger_command_in)

declare debugger_run.simps [simp del]

section \<open>A process that panics\<close>

text \<open>\<open>User::panic\<close> with its core: the debugger keeps a copy of it, and the process ends.\<close>

definition panic_with_core ::
  "(u32 \<Rightarrow> u8) \<Rightarrow> string \<Rightarrow> debugger \<Rightarrow> machine \<Rightarrow> (debugger \<times> machine) result" where
  "panic_with_core old s db mc =
     rbind (dumpELFCore old (k_current (mc_kernel mc)) mc) (\<lambda>(core_at, n, core, mc1).
     rbind (memory_alloc n False (mc_memory mc1)) (\<lambda>(_, _, m2).
     rbind (setReceiveFile core n db) (\<lambda>db1.
     rbind (memory_free core_at m2) (\<lambda>(_, m3).
     rbind (user_panic s (mc_kernel mc1)) (\<lambda>k.
     Inr (db1, mc1\<lparr>mc_kernel := k, mc_memory := m3\<rparr>))))))"

end
