(* ===== verification/DebuggerProps.thy ===== *)
theory DebuggerProps
  imports Debugger
begin

text \<open>The protocol of the debugger, from the side of the remote host.\<close>

section \<open>Numbers and messages on the wire\<close>

definition to_text :: "string \<Rightarrow> bytes" where "to_text s = map of_char s"

definition encode_message :: "bytes \<Rightarrow> bytes" where
  "encode_message b = put_u32 (of_nat (length b)) @ b"

lemma putU32_out: "putU32 n c = c\<lparr>com_out := com_out c @ put_u32 n\<rparr>"
proof -
  have b: "(ucast (w AND 0xFF) :: u8) = ucast w" for w :: u32
  proof -
    have "(0xFF :: u32) = mask 8" by (simp add: mask_eq_exp_minus_1)
    show ?thesis unfolding \<open>0xFF = mask 8\<close> by (rule bit_word_eqI) (auto simp: bit_simps)
  qed
  show ?thesis by (simp add: putU32_def com_putChar_def put_u32_def b upt_rec)
qed

lemma getU32_in_bytes:
  assumes "com_in c = put_u32 n @ xs"
  shows "getU32 c = Inr (n, c\<lparr>com_in := xs\<rparr>)"
proof -
  have "com_in c = ucast n # ucast (drop_bit 8 n) # ucast (drop_bit 16 n) # ucast (drop_bit 24 n) # xs"
    using assms by (simp add: put_u32_def)
  then show ?thesis using join_u32 [of n]
    by (simp add: getU32_def numeral_eq_Suc getChar_def or.assoc)
qed

lemma getChars_in_bytes: "com_in c = b @ xs \<Longrightarrow> getChars (length b) c = Inr (b, c\<lparr>com_in := xs\<rparr>)"
  by (induction b arbitrary: c) (simp_all add: getChar_def)

lemma getMessage_in_bytes:
  assumes "com_in c = encode_message b @ xs" and "length b + 1 < 2 ^ 32"
  shows "\<exists>s. getMessage c = Inr (s, c\<lparr>com_in := xs\<rparr>) \<and> string_ok s b"
proof -
  have n: "unat (of_nat (length b) :: u32) = length b" using assms(2) by (simp add: unat_of_nat take_bit_nat_eq_self)
  have "getU32 c = Inr (of_nat (length b), c\<lparr>com_in := b @ xs\<rparr>)"
    using assms(1) by (intro getU32_in_bytes) (simp add: encode_message_def)
  moreover have "getChars (length b) (c\<lparr>com_in := b @ xs\<rparr>) = Inr (b, c\<lparr>com_in := xs\<rparr>)"
    using getChars_in_bytes [of "c\<lparr>com_in := b @ xs\<rparr>" b xs] by simp
  moreover obtain s where "string_of_n b (of_nat (length b)) = Inr s" "string_ok s b"
    using string_of_n_ok [of "of_nat (length b)" b] n assms(2) by auto
  ultimately show ?thesis by (simp add: getMessage_def getString_def n)
qed

lemma putMemory_out: "putMemory mem a n c = c\<lparr>com_out := com_out c @ map (\<lambda>i. mem (a + of_nat i)) [0..<n]\<rparr>"
proof (induction n arbitrary: a c)
  case (Suc n)
  have "map (\<lambda>i. mem (a + of_nat i)) [0..<Suc n] = mem a # map (\<lambda>i. mem (a + 1 + of_nat i)) [0..<n]"
    by (simp add: upt_conv_Cons map_Suc_upt [symmetric] comp_def add.assoc del: upt_Suc)
  then show ?case using Suc by (simp add: com_putChar_def del: upt_Suc)
qed simp

lemma com_putString_out: "0 \<notin> set t \<Longrightarrow> com_putString (t @ 0 # b) c = Inr (c\<lparr>com_out := com_out c @ t\<rparr>)"
  by (induction t arbitrary: c) (auto simp: com_putChar_def)

lemma putMessage_out:
  assumes "cstring b t" and "length t + 1 < 2 ^ 32"
  shows "\<exists>m. string_of_c b = Inr m \<and> (\<forall>c. putMessage m c = Inr (c\<lparr>com_out := com_out c @ encode_message t\<rparr>))"
proof -
  obtain m where m: "string_of_c b = Inr m" "string_ok m t" using string_of_c_ok [OF assms] by blast
  then have "st_str m = Some (t @ [0])" "st_length m = of_nat (length t)"
    by (auto simp: string_ok_def string_of_c_def rbind_eq_Inr)
  moreover have "0 \<notin> set t" using assms(1) by (simp add: cstring_def)
  ultimately show ?thesis using m(1)
    by (simp add: putMessage_def putU32_out com_putString_out encode_message_def)
qed

section \<open>Requests and replies\<close>

datatype request = Version | Get u32 u32 | Receive | Other bytes

fun encode_request :: "request \<Rightarrow> bytes" where
  "encode_request Version = encode_message (to_text ''version'')"
| "encode_request (Get base n) = encode_message (to_text ''get'') @ put_u32 base @ put_u32 n"
| "encode_request Receive = encode_message (to_text ''receive'')"
| "encode_request (Other b) = encode_message b"

fun reply_to_request :: "bytes \<Rightarrow> (u32 \<Rightarrow> u8) \<Rightarrow> bytes option \<Rightarrow> request \<Rightarrow> bytes" where
  "reply_to_request v mem f Version = put_u32 0 @ encode_message v"
| "reply_to_request v mem f (Get base n) = put_u32 0 @ map (\<lambda>i. mem (base + of_nat i)) [0..<unat n]"
| "reply_to_request v mem f Receive =
     (case f of None \<Rightarrow> put_u32 1 | Some b \<Rightarrow> put_u32 0 @ put_u32 (of_nat (length b)) @ b)"
| "reply_to_request v mem f (Other b) = put_u32 1 @ encode_message (to_text ''unknown command'')"

fun replies :: "bytes \<Rightarrow> (u32 \<Rightarrow> u8) \<Rightarrow> bytes option \<Rightarrow> request list \<Rightarrow> bytes" where
  "replies v mem f [] = []"
| "replies v mem f (r # rs) =
     reply_to_request v mem f r @ replies v mem (if r = Receive then None else f) rs"

definition commands :: "bytes list" where
  "commands = map to_text [''version'', ''get'', ''receive'', ''break'']"

fun request_ok :: "request \<Rightarrow> bool" where
  "request_ok (Other b) \<longleftrightarrow> length b + 1 < 2 ^ 32 \<and> 0 \<notin> set b \<and> b \<notin> set commands"
| "request_ok _ \<longleftrightarrow> True"

lemma to_text_bytes [simp]:
  "to_text ''version'' = [118, 101, 114, 115, 105, 111, 110]" "to_text ''get'' = [103, 101, 116]"
  "to_text ''receive'' = [114, 101, 99, 101, 105, 118, 101]" "to_text ''break'' = [98, 114, 101, 97, 107]"
  by code_simp+

lemma cstring_cstr: "0 \<notin> set (to_text n) \<Longrightarrow> cstring (cstr n) (to_text n)"
  by (simp add: cstring_def cstr_def to_text_def)

lemma is_command_ok:
  assumes "string_ok s b" and "0 \<notin> set b" and "0 \<notin> set (to_text name)" and "to_text name \<noteq> []"
  shows "is_command s name = Inr (b = to_text name)"
proof -
  have c: "cstr name = to_text name @ [0]" by (simp add: cstr_def to_text_def)
  obtain x xs where n: "to_text name = x # xs" "x \<noteq> 0" using assms(3,4) by (cases "to_text name") auto
  show ?thesis
  proof (cases "b = []")
    case True
    then have "st_length s = 0" using assms(1) by (simp add: string_ok_def)
    then show ?thesis using True n by (simp add: is_command_def string_eq_c_def c)
  next
    case False
    then have s: "st_str s = Some (b @ [0])" "unat (st_length s) \<noteq> 0"
      using assms(1) string_ok_length [OF assms(1)] by (auto simp: string_ok_def)
    then have "st_length s \<noteq> 0" by auto
    moreover have "strcmp (b @ [0]) (to_text name @ [0]) = Inr (if signed_key b < signed_key (to_text name) then - 1
        else if b = to_text name then 0 else 1)"
      using assms(2,3) by (intro strcmp_value) (simp_all add: cstring_def)
    moreover have "\<not> signed_key b < signed_key b" by simp
    ultimately show ?thesis using s(1) n by (auto simp: is_command_def string_eq_c_def c)
  qed
qed

lemma commands_ok: "string_ok s b \<Longrightarrow> 0 \<notin> set b \<Longrightarrow> is_command s ''version'' = Inr (b = to_text ''version'') \<and>
    is_command s ''get'' = Inr (b = to_text ''get'') \<and> is_command s ''receive'' = Inr (b = to_text ''receive'') \<and>
    is_command s ''break'' = Inr (b = to_text ''break'')"
  using is_command_ok [of s b] by simp

definition holds_file :: "debugger \<Rightarrow> bytes option \<Rightarrow> bool" where
  "holds_file db f \<longleftrightarrow> db_receive db = f \<and> (\<forall>b. f = Some b \<longrightarrow> unat (db_receiveSize db) = length b)"

lemma send_file_out:
  assumes "holds_file db f"
  shows "\<exists>db'. send_file db c = Inr (db', c\<lparr>com_out := com_out c @ reply_to_request v mem f Receive\<rparr>) \<and> holds_file db' None"
proof (cases f)
  case None
  then show ?thesis using assms by (auto simp: send_file_def holds_file_def putU32_out)
next
  case (Some b)
  then have "length b = unat (db_receiveSize db)" using assms by (simp add: holds_file_def)
  then have "db_receiveSize db = of_nat (length b)" by simp
  then show ?thesis using assms Some by (simp add: send_file_def holds_file_def putU32_out put_block_def)
qed

lemma encode_request_split:
  obtains b xs where "encode_request r = encode_message b @ xs"
    and "request_ok r \<Longrightarrow> length b + 1 < 2 ^ 32 \<and> 0 \<notin> set b"
    and "b = (case r of Version \<Rightarrow> to_text ''version'' | Get _ _ \<Rightarrow> to_text ''get'' | Receive \<Rightarrow> to_text ''receive'' | Other b \<Rightarrow> b)"
    and "xs = (case r of Get base n \<Rightarrow> put_u32 base @ put_u32 n | _ \<Rightarrow> [])"
  by (cases r) auto

lemma debugger_request:
  assumes "request_ok r" and "holds_file db f" and "cstring version v" and "length v + 1 < 2 ^ 32"
    and "com_in c = encode_request r @ xs"
  shows "\<exists>s c1 db'. getMessage c = Inr (s, c1) \<and> debugger_command version mem s db c1 =
      Inr (db', c\<lparr>com_in := xs, com_out := com_out c @ reply_to_request v mem f r\<rparr>, True) \<and>
    holds_file db' (if r = Receive then None else f)"
proof -
  obtain b ys where b: "encode_request r = encode_message b @ ys" "length b + 1 < 2 ^ 32" "0 \<notin> set b"
    "b = (case r of Version \<Rightarrow> to_text ''version'' | Get _ _ \<Rightarrow> to_text ''get'' | Receive \<Rightarrow> to_text ''receive'' | Other b \<Rightarrow> b)"
    "ys = (case r of Get base n \<Rightarrow> put_u32 base @ put_u32 n | _ \<Rightarrow> [])"
    using assms(1) by (metis encode_request_split)
  from getMessage_in_bytes [of c b "ys @ xs"] assms(5) b(1,2)
  obtain s where s: "getMessage c = Inr (s, c\<lparr>com_in := ys @ xs\<rparr>)" "string_ok s b" by auto
  note cmd = commands_ok [OF s(2) b(3)]
  let ?c1 = "c\<lparr>com_in := ys @ xs\<rparr>"
  have "\<exists>db'. debugger_command version mem s db ?c1 =
      Inr (db', c\<lparr>com_in := xs, com_out := com_out c @ reply_to_request v mem f r\<rparr>, True) \<and>
    holds_file db' (if r = Receive then None else f)"
  proof (cases r)
    case Version
    obtain m where "string_of_c version = Inr m" "\<forall>c. putMessage m c = Inr (c\<lparr>com_out := com_out c @ encode_message v\<rparr>)"
      using putMessage_out [OF assms(3,4)] by blast
    then show ?thesis using Version cmd b assms(2) by (simp add: debugger_command_def putU32_out)
  next
    case (Get base n)
    have "getU32 ?c1 = Inr (base, ?c1\<lparr>com_in := put_u32 n @ xs\<rparr>)"
      using b(5) Get by (intro getU32_in_bytes) simp
    moreover have "getU32 (?c1\<lparr>com_in := put_u32 n @ xs\<rparr>) = Inr (n, ?c1\<lparr>com_in := xs\<rparr>)"
      using getU32_in_bytes [of "?c1\<lparr>com_in := put_u32 n @ xs\<rparr>" n xs] by simp
    ultimately show ?thesis using Get cmd b(4) assms(2) by (simp add: debugger_command_def putU32_out putMemory_out)
  next
    case Receive
    obtain db' where "send_file db ?c1 = Inr (db', ?c1\<lparr>com_out := com_out ?c1 @ reply_to_request v mem f Receive\<rparr>)"
      "holds_file db' None" using send_file_out [OF assms(2)] by blast
    then show ?thesis using Receive cmd b(4,5) by (simp add: debugger_command_def)
  next
    case (Other t)
    have "0 \<notin> set (to_text ''unknown command'')" by code_simp
  then have "cstring (cstr ''unknown command'') (to_text ''unknown command'')" by (rule cstring_cstr)
    from putMessage_out [OF this] obtain m where "string_of_c (cstr ''unknown command'') = Inr m"
      "\<forall>c. putMessage m c = Inr (c\<lparr>com_out := com_out c @ encode_message (to_text ''unknown command'')\<rparr>)"
      by (auto simp: to_text_def)
    moreover have "b \<noteq> to_text ''version''" "b \<noteq> to_text ''get''" "b \<noteq> to_text ''receive''" "b \<noteq> to_text ''break''"
      using Other assms(1) b(4) by (auto simp: commands_def)
    ultimately show ?thesis using Other cmd b(5) assms(2) by (simp add: debugger_command_def putU32_out del: to_text_bytes)
  qed
  then show ?thesis using s(1) by blast
qed

text \<open>
  Claim C29. The debugger answers every request of a remote host in order and in full, whatever the requests are:
  the version, the memory asked for, the file that is waiting (once), or an error; and it stops at the break
  command, leaving the rest of the input.
\<close>

theorem debugger_protocol:
  assumes "\<forall>r \<in> set rs. request_ok r" and "holds_file db f" and "cstring version v" and "length v + 1 < 2 ^ 32"
    and "com_in c = concat (map encode_request rs) @ encode_message (to_text ''break'') @ rest"
  shows "\<exists>db'. debugger_run version mem db c = Inr (db', c\<lparr>com_in := rest, com_out := com_out c @
      replies v mem f rs @ put_u32 0 @ encode_message (to_text ''Bye!'')\<rparr>) \<and>
    holds_file db' (if Receive \<in> set rs then None else f)"
  using assms
proof (induction rs arbitrary: c db f)
  case Nil
  then have "com_in c = encode_message (to_text ''break'') @ rest" by simp
  from getMessage_in_bytes [OF this] obtain s where s: "getMessage c = Inr (s, c\<lparr>com_in := rest\<rparr>)"
    "string_ok s (to_text ''break'')" by auto
  have "0 \<notin> set (to_text ''Bye!'')" by code_simp
  then have "cstring (cstr ''Bye!'') (to_text ''Bye!'')" by (rule cstring_cstr)
  from putMessage_out [OF this] obtain m where "string_of_c (cstr ''Bye!'') = Inr m"
    "\<forall>c. putMessage m c = Inr (c\<lparr>com_out := com_out c @ encode_message (to_text ''Bye!'')\<rparr>)"
    by (auto simp: to_text_def)
  moreover have "is_command s ''version'' = Inr False" "is_command s ''get'' = Inr False" "is_command s ''receive'' = Inr False"
    "is_command s ''break'' = Inr True" using commands_ok [OF s(2)] by simp_all
  ultimately show ?case using s(1) Nil.prems(2)
    by (subst debugger_run.simps) (simp add: debugger_command_def putU32_out)
next
  case (Cons r rs)
  let ?ys = "concat (map encode_request rs) @ encode_message (to_text ''break'') @ rest"
  have "com_in c = encode_request r @ ?ys" using Cons.prems(5) by simp
  from debugger_request [OF _ Cons.prems(2-4) this, of mem] Cons.prems(1)
  obtain s c1 db1 where one: "getMessage c = Inr (s, c1)" "debugger_command version mem s db c1 =
      Inr (db1, c\<lparr>com_in := ?ys, com_out := com_out c @ reply_to_request v mem f r\<rparr>, True)"
    "holds_file db1 (if r = Receive then None else f)" by auto
  let ?c2 = "c\<lparr>com_in := ?ys, com_out := com_out c @ reply_to_request v mem f r\<rparr>"
  have "\<exists>db'. debugger_run version mem db1 ?c2 = Inr (db', ?c2\<lparr>com_in := rest, com_out := com_out ?c2 @
      replies v mem (if r = Receive then None else f) rs @ put_u32 0 @ encode_message (to_text ''Bye!'')\<rparr>) \<and>
    holds_file db' (if Receive \<in> set rs then None else (if r = Receive then None else f))"
    using Cons.prems(1,3,4) one(3) by (intro Cons.IH) simp_all
  then show ?case using one(1,2) by (subst debugger_run.simps) (auto split: if_splits)
qed

theorem debugger_protocol_witness:
  "\<exists>db c. debugger_run (cstr ''1.0'') (\<lambda>_. 7) \<lparr>db_receive = Some [1, 2], db_receiveSize = 2\<rparr>
      \<lparr>com_in = encode_request Receive @ encode_request (Get 16 3) @ encode_message (to_text ''break''), com_out = []\<rparr> =
    Inr (db, c) \<and> take 13 (com_out c) = [0, 0, 0, 0, 2, 0, 0, 0, 1, 2, 0, 0, 0] \<and> holds_file db None"
proof -
  let ?db = "\<lparr>db_receive = Some [1, 2], db_receiveSize = 2\<rparr>" and ?rs = "[Receive, Get 16 3]"
  have "0 \<notin> set (to_text ''1.0'')" by code_simp
  then have "cstring (cstr ''1.0'') (to_text ''1.0'')" by (rule cstring_cstr)
  moreover have "length (to_text ''1.0'') + 1 < 2 ^ 32" by (simp add: to_text_def)
  moreover have "holds_file ?db (Some [1, 2])" by (simp add: holds_file_def)
  ultimately have "\<exists>db'. debugger_run (cstr ''1.0'') (\<lambda>_. 7) ?db
      \<lparr>com_in = concat (map encode_request ?rs) @ encode_message (to_text ''break'') @ [], com_out = []\<rparr> =
    Inr (db', \<lparr>com_in = [], com_out = replies (to_text ''1.0'') (\<lambda>_. 7) (Some [1, 2]) ?rs @ put_u32 0 @
      encode_message (to_text ''Bye!'')\<rparr>) \<and> holds_file db' None"
    using debugger_protocol [of ?rs ?db "Some [1, 2]" "cstr ''1.0''" "to_text ''1.0''"
      "\<lparr>com_in = concat (map encode_request ?rs) @ encode_message (to_text ''break'') @ [], com_out = []\<rparr>" "[]" "\<lambda>_. 7"]
    by simp
  then show ?thesis by (auto simp: put_u32_def)
qed

end
