(* ===== verification/StdList.thy ===== *)
theory StdList
  imports Prelude
begin

text \<open>
  \<^verbatim>\<open>src/inc/list\<close>: \<open>std::list\<close>, nodes linked in both directions. A list is its first and last node and the
  store of its nodes; an address without a node is null or was deleted, and using it is \<open>NullDeref\<close>. An iterator is
  the address of a node, 0 at the end. \<open>new\<close> is the allocator: the address of a node that does not
  exist yet. The loops follow \<open>next\<close>; they take the number of nodes they may visit.
\<close>

section \<open>Nodes\<close>

record 'a list_node =
  ln_item :: 'a
  ln_next :: nat
  ln_prev :: nat

type_synonym 'a node_store = "nat \<Rightarrow> 'a list_node option"

record 'a std_list =
  sl_begin :: nat
  sl_end :: nat
  sl_nodes :: "'a node_store"

definition list_new :: "'a std_list" where
  "list_new = \<lparr>sl_begin = 0, sl_end = 0, sl_nodes = (\<lambda>_. None)\<rparr>"

definition node_at :: "nat \<Rightarrow> 'a std_list \<Rightarrow> 'a list_node result" where
  "node_at p l = (case sl_nodes l p of None \<Rightarrow> Inl NullDeref | Some n \<Rightarrow> Inr n)"

definition put_node_at :: "nat \<Rightarrow> 'a list_node \<Rightarrow> 'a std_list \<Rightarrow> 'a std_list" where
  "put_node_at p n l = l\<lparr>sl_nodes := (sl_nodes l)(p \<mapsto> n)\<rparr>"

definition set_next :: "nat \<Rightarrow> nat \<Rightarrow> 'a std_list \<Rightarrow> 'a std_list result" where
  "set_next p q l = rbind (node_at p l) (\<lambda>n. Inr (put_node_at p (n\<lparr>ln_next := q\<rparr>) l))"

definition set_prev :: "nat \<Rightarrow> nat \<Rightarrow> 'a std_list \<Rightarrow> 'a std_list result" where
  "set_prev p q l = rbind (node_at p l) (\<lambda>n. Inr (put_node_at p (n\<lparr>ln_prev := q\<rparr>) l))"

definition delete_node :: "nat \<Rightarrow> 'a std_list \<Rightarrow> 'a std_list" where
  "delete_node p l = l\<lparr>sl_nodes := (sl_nodes l)(p := None)\<rparr>"

section \<open>Iterators\<close>

definition iter_next :: "nat \<Rightarrow> 'a std_list \<Rightarrow> nat result" where
  "iter_next p l = rbind (node_at p l) (\<lambda>n. Inr (ln_next n))"

definition riter_next :: "nat \<Rightarrow> 'a std_list \<Rightarrow> nat result" where
  "riter_next p l = rbind (node_at p l) (\<lambda>n. Inr (ln_prev n))"

definition iter_item :: "nat \<Rightarrow> 'a std_list \<Rightarrow> 'a result" where
  "iter_item p l = rbind (node_at p l) (\<lambda>n. Inr (ln_item n))"

fun size_loop :: "nat \<Rightarrow> nat \<Rightarrow> u32 \<Rightarrow> 'a std_list \<Rightarrow> u32 result" where
  "size_loop 0 p len l = Inl Diverges"
| "size_loop (Suc fuel) p len l =
     (if p = 0 then Inr len else rbind (iter_next p l) (\<lambda>q. size_loop fuel q (len + 1) l))"

definition list_size :: "nat \<Rightarrow> 'a std_list \<Rightarrow> u32 result" where
  "list_size fuel l = size_loop fuel (sl_begin l) 0 l"

definition list_empty :: "'a std_list \<Rightarrow> bool" where
  "list_empty l \<longleftrightarrow> sl_begin l = 0"

section \<open>Insertion\<close>

definition push_front :: "('a node_store \<Rightarrow> nat) \<Rightarrow> 'a \<Rightarrow> 'a std_list \<Rightarrow> 'a std_list result" where
  "push_front new x l =
     (let a = new (sl_nodes l);
          l1 = put_node_at a \<lparr>ln_item = x, ln_next = sl_begin l, ln_prev = 0\<rparr> l in
      rbind (if sl_begin l \<noteq> 0 then set_prev (sl_begin l) a l1 else Inr (l1\<lparr>sl_end := a\<rparr>)) (\<lambda>l2.
      Inr (l2\<lparr>sl_begin := a\<rparr>)))"

definition push_back :: "('a node_store \<Rightarrow> nat) \<Rightarrow> 'a \<Rightarrow> 'a std_list \<Rightarrow> 'a std_list result" where
  "push_back new x l =
     (let a = new (sl_nodes l);
          l1 = put_node_at a \<lparr>ln_item = x, ln_next = 0, ln_prev = sl_end l\<rparr> l in
      rbind (if sl_end l \<noteq> 0 then set_next (sl_end l) a l1 else Inr (l1\<lparr>sl_begin := a\<rparr>)) (\<lambda>l2.
      Inr (l2\<lparr>sl_end := a\<rparr>)))"

definition list_insert :: "('a node_store \<Rightarrow> nat) \<Rightarrow> nat \<Rightarrow> 'a \<Rightarrow> 'a std_list \<Rightarrow> (nat \<times> 'a std_list) result" where
  "list_insert new pos x l =
     (if pos = 0 then rbind (push_back new x l) (\<lambda>l1. Inr (sl_end l1, l1))
      else rbind (node_at pos l) (\<lambda>n.
        if ln_prev n = 0 then rbind (push_front new x l) (\<lambda>l1. Inr (sl_begin l1, l1))
        else let a = new (sl_nodes l);
                 l1 = put_node_at a \<lparr>ln_item = x, ln_next = pos, ln_prev = ln_prev n\<rparr> l in
             rbind (set_prev pos a l1) (\<lambda>l2.
             rbind (set_next (ln_prev n) a l2) (\<lambda>l3. Inr (a, l3)))))"

section \<open>Removal\<close>

definition pop_front :: "'a std_list \<Rightarrow> 'a std_list result" where
  "pop_front l =
     (let old = sl_begin l in
      rbind (node_at old l) (\<lambda>n.
      let l1 = l\<lparr>sl_begin := ln_next n\<rparr> in
      rbind (if sl_begin l1 \<noteq> 0 then set_prev (sl_begin l1) 0 l1 else Inr (l1\<lparr>sl_end := 0\<rparr>)) (\<lambda>l2.
      Inr (delete_node old l2))))"

definition pop_back :: "'a std_list \<Rightarrow> 'a std_list result" where
  "pop_back l =
     (let old = sl_end l in
      rbind (node_at old l) (\<lambda>n.
      let l1 = l\<lparr>sl_end := ln_prev n\<rparr> in
      rbind (if sl_end l1 \<noteq> 0 then set_next (sl_end l1) 0 l1 else Inr (l1\<lparr>sl_begin := 0\<rparr>)) (\<lambda>l2.
      Inr (delete_node old l2))))"

definition list_erase :: "nat \<Rightarrow> 'a std_list \<Rightarrow> (nat \<times> 'a std_list) result" where
  "list_erase pos l =
     rbind (node_at pos l) (\<lambda>old.
     if ln_prev old = 0 then rbind (pop_front l) (\<lambda>l1. Inr (sl_begin l1, l1))
     else if ln_next old = 0 then rbind (pop_back l) (\<lambda>l1. Inr (0, l1))
     else rbind (set_next (ln_prev old) (ln_next old) l) (\<lambda>l1.
          rbind (set_prev (ln_next old) (ln_prev old) l1) (\<lambda>l2.
          Inr (ln_next old, delete_node pos l2))))"

text \<open>\<open>remove\<close> walks with the place that points to the node, \<open>_begin\<close> or the \<open>next\<close> of a node.\<close>

datatype list_link = AtBegin | AtNext nat

definition read_place :: "list_link \<Rightarrow> 'a std_list \<Rightarrow> nat result" where
  "read_place w l = (case w of AtBegin \<Rightarrow> Inr (sl_begin l) | AtNext p \<Rightarrow> iter_next p l)"

definition write_place :: "list_link \<Rightarrow> nat \<Rightarrow> 'a std_list \<Rightarrow> 'a std_list result" where
  "write_place w q l = (case w of AtBegin \<Rightarrow> Inr (l\<lparr>sl_begin := q\<rparr>) | AtNext p \<Rightarrow> set_next p q l)"

definition remove_here :: "list_link \<Rightarrow> nat \<Rightarrow> nat \<Rightarrow> 'a list_node \<Rightarrow> 'a std_list \<Rightarrow> 'a std_list result" where
  "remove_here writeHead lastNode old n l =
     rbind (write_place writeHead (ln_next n) l) (\<lambda>l1.
     rbind (if ln_next n \<noteq> 0 then set_prev (ln_next n) lastNode l1 else Inr l1) (\<lambda>l2.
     Inr (delete_node old (if sl_end l2 = old then l2\<lparr>sl_end := lastNode\<rparr> else l2))))"

fun remove_loop :: "nat \<Rightarrow> 'a \<Rightarrow> list_link \<Rightarrow> nat \<Rightarrow> 'a std_list \<Rightarrow> 'a std_list result" where
  "remove_loop 0 x writeHead lastNode l = Inl Diverges"
| "remove_loop (Suc fuel) x writeHead lastNode l =
     rbind (read_place writeHead l) (\<lambda>p.
     if p = 0 then Inr l
     else rbind (node_at p l) (\<lambda>n.
       if ln_item n = x then remove_here writeHead lastNode p n l
       else remove_loop fuel x (AtNext p) p l))"

definition list_remove :: "nat \<Rightarrow> 'a \<Rightarrow> 'a std_list \<Rightarrow> 'a std_list result" where
  "list_remove fuel x l = remove_loop fuel x AtBegin 0 l"

fun clear_loop :: "nat \<Rightarrow> nat \<Rightarrow> 'a std_list \<Rightarrow> 'a std_list result" where
  "clear_loop 0 p l = Inl Diverges"
| "clear_loop (Suc fuel) p l =
     (if p = 0 then Inr l else rbind (iter_next p l) (\<lambda>q. clear_loop fuel q (delete_node p l)))"

definition list_clear :: "nat \<Rightarrow> 'a std_list \<Rightarrow> 'a std_list result" where
  "list_clear fuel l = rbind (clear_loop fuel (sl_begin l) l) (\<lambda>l1. Inr (l1\<lparr>sl_begin := 0, sl_end := 0\<rparr>))"

section \<open>Copies\<close>

fun copy_loop :: "nat \<Rightarrow> ('a node_store \<Rightarrow> nat) \<Rightarrow> 'a std_list \<Rightarrow> nat \<Rightarrow> 'a std_list \<Rightarrow> 'a std_list result" where
  "copy_loop 0 new r p l = Inl Diverges"
| "copy_loop (Suc fuel) new r p l =
     (if p = 0 then Inr l
      else rbind (iter_item p r) (\<lambda>x. rbind (push_back new x l) (\<lambda>l1.
           rbind (iter_next p r) (\<lambda>q. copy_loop fuel new r q l1))))"

definition list_copy :: "nat \<Rightarrow> ('a node_store \<Rightarrow> nat) \<Rightarrow> 'a std_list \<Rightarrow> 'a std_list result" where
  "list_copy fuel new r = copy_loop fuel new r (sl_begin r) list_new"

text \<open>Assignment clears first; assigned to itself the list that is copied is the one that was cleared.\<close>

definition list_assign :: "nat \<Rightarrow> ('a node_store \<Rightarrow> nat) \<Rightarrow> 'a std_list \<Rightarrow> 'a std_list \<Rightarrow> 'a std_list result" where
  "list_assign fuel new l r = rbind (list_clear fuel l) (\<lambda>l1. copy_loop fuel new r (sl_begin r) l1)"

definition list_assign_self :: "nat \<Rightarrow> ('a node_store \<Rightarrow> nat) \<Rightarrow> 'a std_list \<Rightarrow> 'a std_list result" where
  "list_assign_self fuel new l = rbind (list_clear fuel l) (\<lambda>l1. copy_loop fuel new l1 (sl_begin l1) l1)"

end
