(* ===== verification/StdListProps.thy ===== *)
theory StdListProps
  imports StdList
begin

text \<open>The linked list implements a sequence: every operation acts on the list of its items as its name says.\<close>

section \<open>Segments\<close>

text \<open>The nodes \<open>ps\<close> hold \<open>xs\<close>, linked both ways between the node before, \<open>b\<close>, and the one after, \<open>e\<close>.\<close>

fun dseg :: "'a node_store \<Rightarrow> nat \<Rightarrow> nat list \<Rightarrow> nat \<Rightarrow> 'a list \<Rightarrow> bool" where
  "dseg m b [] e [] = True"
| "dseg m b (p # ps) e (x # xs) \<longleftrightarrow> m p = Some \<lparr>ln_item = x, ln_next = hd (ps @ [e]), ln_prev = b\<rparr> \<and> dseg m p ps e xs"
| "dseg m b _ e _ = False"

lemma dseg_length: "dseg m b ps e xs \<Longrightarrow> length ps = length xs"
  by (induction m b ps e xs rule: dseg.induct) auto

lemma dseg_Nil [simp]: "dseg m b [] e xs \<longleftrightarrow> xs = []" "dseg m b ps e [] \<longleftrightarrow> ps = []"
  by (cases xs; simp) (cases ps; simp)

lemma dseg_append:
  "length ps = length xs \<Longrightarrow>
   dseg m b (ps @ qs) e (xs @ ys) \<longleftrightarrow> dseg m b ps (hd (qs @ [e])) xs \<and> dseg m (last (b # ps)) qs e ys"
proof (induction ps xs arbitrary: b rule: list_induct2)
  case (Cons p ps x xs)
  then show ?case by (cases ps) auto
qed simp

lemma dseg_split:
  assumes "dseg m b (ps @ qs) e zs"
  obtains xs ys where "zs = xs @ ys" and "length xs = length ps" and "dseg m b ps (hd (qs @ [e])) xs"
    and "dseg m (last (b # ps)) qs e ys"
proof -
  have "length zs = length ps + length qs" using dseg_length [OF assms] by simp
  then have "zs = take (length ps) zs @ drop (length ps) zs" "length (take (length ps) zs) = length ps" by simp_all
  then show thesis using assms dseg_append [of ps "take (length ps) zs" m b qs e "drop (length ps) zs"] that by metis
qed

lemma dseg_other: "a \<notin> set ps \<Longrightarrow> dseg (m(a := v)) b ps e xs = dseg m b ps e xs"
  by (induction m b ps e xs rule: dseg.induct) auto

definition fix_prev :: "nat list \<Rightarrow> nat \<Rightarrow> 'a node_store \<Rightarrow> 'a node_store" where
  "fix_prev ps b m = (if ps = [] then m else m(hd ps \<mapsto> (the (m (hd ps)))\<lparr>ln_prev := b\<rparr>))"

definition fix_next :: "nat list \<Rightarrow> nat \<Rightarrow> 'a node_store \<Rightarrow> 'a node_store" where
  "fix_next ps e m = (if ps = [] then m else m(last ps \<mapsto> (the (m (last ps)))\<lparr>ln_next := e\<rparr>))"

lemma dseg_fix_prev: "dseg m b ps e xs \<Longrightarrow> distinct ps \<Longrightarrow> dseg (fix_prev ps b' m) b' ps e xs"
  by (cases ps; cases xs) (auto simp: fix_prev_def dseg_other)

lemma dseg_fix_next: "dseg m b ps e xs \<Longrightarrow> distinct ps \<Longrightarrow> dseg (fix_next ps e' m) b ps e' xs"
proof (induction m b ps e xs rule: dseg.induct)
  case (2 m b p ps e x xs)
  show ?case
  proof (cases "ps = []")
    case True
    then show ?thesis using 2 by (cases xs) (auto simp: fix_next_def)
  next
    case False
    then have "fix_next (p # ps) e' m = fix_next ps e' m" "last ps \<noteq> p" "hd (ps @ [e]) = hd (ps @ [e'])"
      using 2(3) by (auto simp: fix_next_def)
    then show ?thesis using 2 False by (auto simp: fix_next_def)
  qed
qed auto

lemma fix_other:
  "set ps \<inter> set qs = {} \<Longrightarrow> dseg (fix_prev ps v m) b qs e xs = dseg m b qs e xs"
  "set ps \<inter> set qs = {} \<Longrightarrow> dseg (fix_next ps v m) b qs e xs = dseg m b qs e xs"
proof -
  assume d: "set ps \<inter> set qs = {}"
  have "ps \<noteq> [] \<Longrightarrow> hd ps \<notin> set qs \<and> last ps \<notin> set qs" using d hd_in_set [of ps] last_in_set [of ps] by blast
  then show "dseg (fix_prev ps v m) b qs e xs = dseg m b qs e xs" "dseg (fix_next ps v m) b qs e xs = dseg m b qs e xs"
    by (auto simp: fix_prev_def fix_next_def dseg_other)
qed

lemma fix_at:
  "a \<notin> set ps \<Longrightarrow> fix_prev ps v m a = m a" "a \<notin> set ps \<Longrightarrow> fix_next ps v m a = m a"
  by (auto simp: fix_prev_def fix_next_def)

lemma fix_upd:
  "a \<notin> set ps \<Longrightarrow> fix_prev ps v (m(a := n)) = (fix_prev ps v m)(a := n)"
  "a \<notin> set ps \<Longrightarrow> fix_next ps v (m(a := n)) = (fix_next ps v m)(a := n)"
  by (auto simp: fix_prev_def fix_next_def fun_eq_iff)

lemma dom_fix:
  "set ps \<subseteq> dom m \<Longrightarrow> dom (fix_prev ps v m) = dom m" "set ps \<subseteq> dom m \<Longrightarrow> dom (fix_next ps v m) = dom m"
  using hd_in_set [of ps] last_in_set [of ps] by (auto simp: fix_prev_def fix_next_def simp del: hd_in_set last_in_set)

lemma dseg_dom: "dseg m b ps e xs \<Longrightarrow> set ps \<subseteq> dom m"
  by (induction m b ps e xs rule: dseg.induct) auto

text \<open>Linking a node in, and out.\<close>

lemma dseg_link:
  assumes "dseg m b (ps @ qs) e (xs @ ys)" and "length ps = length xs" and "distinct (ps @ qs)" and "a \<notin> set (ps @ qs)"
  shows "dseg (fix_next ps a (fix_prev qs a (m(a \<mapsto> \<lparr>ln_item = x, ln_next = hd (qs @ [e]), ln_prev = last (b # ps)\<rparr>))))
    b (ps @ a # qs) e (xs @ x # ys)"
proof -
  from assms(1,2) have s: "dseg m b ps (hd (qs @ [e])) xs" "dseg m (last (b # ps)) qs e ys" by (simp_all add: dseg_append)
  let ?n = "\<lparr>ln_item = x, ln_next = hd (qs @ [e]), ln_prev = last (b # ps)\<rparr>" let ?m = "m(a \<mapsto> ?n)"
  have "dseg ?m b ps (hd (qs @ [e])) xs" "dseg ?m (last (b # ps)) qs e ys" using s assms(4) by (simp_all add: dseg_other)
  then have "dseg (fix_next ps a (fix_prev qs a ?m)) b ps a xs" "dseg (fix_next ps a (fix_prev qs a ?m)) a qs e ys"
    using assms(3) by (auto simp: fix_other Int_commute intro: dseg_fix_next dseg_fix_prev)
  moreover have "fix_next ps a (fix_prev qs a ?m) a = Some ?n" using assms(4) by (simp add: fix_at)
  ultimately show ?thesis using assms(2) by (simp add: dseg_append)
qed

lemma dseg_unlink:
  assumes "dseg m b (ps @ a # qs) e (xs @ x # ys)" and "length ps = length xs" and "distinct (ps @ a # qs)"
  shows "dseg ((fix_next ps (hd (qs @ [e])) (fix_prev qs (last (b # ps)) m))(a := None)) b (ps @ qs) e (xs @ ys)"
proof -
  from assms(1,2) have s: "dseg m b ps a xs" "dseg m a qs e ys" by (simp_all add: dseg_append)
  let ?m = "fix_next ps (hd (qs @ [e])) (fix_prev qs (last (b # ps)) m)"
  have "dseg ?m b ps (hd (qs @ [e])) xs" "dseg ?m (last (b # ps)) qs e ys"
    using s assms(3) by (auto simp: fix_other Int_commute intro: dseg_fix_next dseg_fix_prev)
  then show ?thesis using assms(2,3) by (simp add: dseg_append dseg_other)
qed

section \<open>The representation\<close>

definition list_rep :: "'a std_list \<Rightarrow> nat list \<Rightarrow> 'a list \<Rightarrow> bool" where
  "list_rep l ps xs \<longleftrightarrow> distinct ps \<and> 0 \<notin> set ps \<and> dseg (sl_nodes l) 0 ps 0 xs \<and> dom (sl_nodes l) = set ps \<and>
     sl_begin l = hd (ps @ [0]) \<and> sl_end l = last (0 # ps)"

definition new_ok :: "('a node_store \<Rightarrow> nat) \<Rightarrow> bool" where
  "new_ok new \<longleftrightarrow> (\<forall>m. finite (dom m) \<longrightarrow> new m \<noteq> 0 \<and> m (new m) = None)"

lemma list_rep_new: "list_rep list_new [] []"
  by (simp add: list_rep_def list_new_def)

lemma list_rep_fresh:
  assumes "list_rep l ps xs" and "new_ok new"
  shows "new (sl_nodes l) \<noteq> 0" and "new (sl_nodes l) \<notin> set ps" and "sl_nodes l (new (sl_nodes l)) = None"
proof -
  have "finite (dom (sl_nodes l))" using assms(1) by (simp add: list_rep_def)
  then show "new (sl_nodes l) \<noteq> 0" and n: "sl_nodes l (new (sl_nodes l)) = None" using assms(2) by (simp_all add: new_ok_def)
  then show "new (sl_nodes l) \<notin> set ps" using assms(1) by (auto simp: list_rep_def)
qed

lemma set_prev_fix:
  "set ps \<subseteq> dom (sl_nodes l) \<Longrightarrow> ps \<noteq> [] \<Longrightarrow> set_prev (hd ps) v l = Inr (l\<lparr>sl_nodes := fix_prev ps v (sl_nodes l)\<rparr>)"
proof -
  assume "set ps \<subseteq> dom (sl_nodes l)" and "ps \<noteq> []"
  then have "hd ps \<in> dom (sl_nodes l)" by (meson hd_in_set subsetD)
  with \<open>ps \<noteq> []\<close> show ?thesis by (auto simp: set_prev_def node_at_def put_node_at_def fix_prev_def)
qed

lemma set_next_fix:
  "set ps \<subseteq> dom (sl_nodes l) \<Longrightarrow> ps \<noteq> [] \<Longrightarrow> set_next (last ps) v l = Inr (l\<lparr>sl_nodes := fix_next ps v (sl_nodes l)\<rparr>)"
proof -
  assume "set ps \<subseteq> dom (sl_nodes l)" and "ps \<noteq> []"
  then have "last ps \<in> dom (sl_nodes l)" by (meson last_in_set subsetD)
  with \<open>ps \<noteq> []\<close> show ?thesis by (auto simp: set_next_def node_at_def put_node_at_def fix_next_def)
qed

lemma list_rep_link:
  assumes "list_rep l (ps @ qs) (xs @ ys)" and "length ps = length xs" and "a \<noteq> 0" and "a \<notin> set (ps @ qs)"
  shows "list_rep \<lparr>sl_begin = hd ((ps @ [a]) @ [0]), sl_end = last (0 # a # qs),
      sl_nodes = fix_next ps a (fix_prev qs a ((sl_nodes l)(a \<mapsto> \<lparr>ln_item = x, ln_next = hd (qs @ [0]), ln_prev = last (0 # ps)\<rparr>)))\<rparr>
    (ps @ a # qs) (xs @ x # ys)"
proof -
  note r = assms(1) [unfolded list_rep_def]
  let ?m = "(sl_nodes l)(a \<mapsto> \<lparr>ln_item = x, ln_next = hd (qs @ [0]), ln_prev = last (0 # ps)\<rparr>)"
  have "dom (fix_next ps a (fix_prev qs a ?m)) = insert a (set (ps @ qs))"
    using r by (subst dom_fix(2); (subst dom_fix(1))?) auto
  then show ?thesis using dseg_link [of "sl_nodes l" 0 ps qs 0 xs ys a x] r assms(2-4)
    by (auto simp: list_rep_def hd_append)
qed

lemma list_rep_unlink:
  assumes "list_rep l (ps @ a # qs) (xs @ x # ys)" and "length ps = length xs"
  shows "list_rep \<lparr>sl_begin = hd (ps @ qs @ [0]), sl_end = last (0 # ps @ qs),
      sl_nodes = (fix_next ps (hd (qs @ [0])) (fix_prev qs (last (0 # ps)) (sl_nodes l)))(a := None)\<rparr> (ps @ qs) (xs @ ys)"
proof -
  note r = assms(1) [unfolded list_rep_def]
  have "dom (fix_next ps (hd (qs @ [0])) (fix_prev qs (last (0 # ps)) (sl_nodes l))) = set (ps @ a # qs)"
    using r by (subst dom_fix(2); (subst dom_fix(1))?) auto
  then have "dom ((fix_next ps (hd (qs @ [0])) (fix_prev qs (last (0 # ps)) (sl_nodes l)))(a := None)) = set (ps @ qs)"
    using r by auto
  then show ?thesis using dseg_unlink [of "sl_nodes l" 0 ps a qs 0 xs x ys] r assms(2)
    by (auto simp: list_rep_def hd_append)
qed

section \<open>The operations\<close>

lemma rep_ends:
  assumes "list_rep l ps xs"
  shows "sl_begin l = 0 \<longleftrightarrow> ps = []" and "sl_end l = 0 \<longleftrightarrow> ps = []" and "ps \<noteq> [] \<Longrightarrow> sl_begin l = hd ps"
    and "ps \<noteq> [] \<Longrightarrow> sl_end l = last ps" and "set ps = dom (sl_nodes l)"
proof -
  note r = assms [unfolded list_rep_def]
  have "ps \<noteq> [] \<Longrightarrow> hd ps \<noteq> 0 \<and> last ps \<noteq> 0" using r by (metis hd_in_set last_in_set)
  then show "sl_begin l = 0 \<longleftrightarrow> ps = []" "sl_end l = 0 \<longleftrightarrow> ps = []" "ps \<noteq> [] \<Longrightarrow> sl_begin l = hd ps"
    "ps \<noteq> [] \<Longrightarrow> sl_end l = last ps" "set ps = dom (sl_nodes l)" using r by auto
qed

lemma push_front_rep:
  assumes "list_rep l ps xs" and "new_ok new"
  shows "\<exists>l' a. push_front new x l = Inr l' \<and> sl_begin l' = a \<and> list_rep l' (a # ps) (x # xs)"
proof -
  define a where "a = new (sl_nodes l)"
  have a: "a \<noteq> 0" "a \<notin> set ps" using list_rep_fresh [OF assms] by (simp_all add: a_def)
  note e = rep_ends [OF assms(1)]
  let ?m = "(sl_nodes l)(a \<mapsto> \<lparr>ln_item = x, ln_next = sl_begin l, ln_prev = 0\<rparr>)"
  have "push_front new x l = Inr \<lparr>sl_begin = a, sl_end = last (0 # a # ps), sl_nodes = fix_prev ps a ?m\<rparr>"
  proof (cases "ps = []")
    case False
    have "set_prev (hd ps) a (put_node_at a \<lparr>ln_item = x, ln_next = sl_begin l, ln_prev = 0\<rparr> l) =
        Inr (l\<lparr>sl_nodes := fix_prev ps a ?m\<rparr>)"
      using e(5) False by (subst set_prev_fix) (auto simp: put_node_at_def)
    then show ?thesis using e False by (simp add: push_front_def Let_def a_def [symmetric])
  qed (use e in \<open>simp add: push_front_def Let_def a_def [symmetric] put_node_at_def fix_prev_def\<close>)
  moreover have "sl_begin l = hd (ps @ [0])" using assms(1) by (simp add: list_rep_def)
  ultimately show ?thesis using list_rep_link [of l "[]" ps "[]" xs a x] assms(1) a by (simp add: fix_next_def)
qed

lemma push_back_rep:
  assumes "list_rep l ps xs" and "new_ok new"
  shows "\<exists>l' a. push_back new x l = Inr l' \<and> sl_end l' = a \<and> list_rep l' (ps @ [a]) (xs @ [x])"
proof -
  define a where "a = new (sl_nodes l)"
  have a: "a \<noteq> 0" "a \<notin> set ps" using list_rep_fresh [OF assms] by (simp_all add: a_def)
  note e = rep_ends [OF assms(1)]
  have len: "length ps = length xs" using assms(1) by (auto simp: list_rep_def dest: dseg_length)
  let ?m = "(sl_nodes l)(a \<mapsto> \<lparr>ln_item = x, ln_next = 0, ln_prev = sl_end l\<rparr>)"
  have "push_back new x l = Inr \<lparr>sl_begin = hd ((ps @ [a]) @ [0]), sl_end = a, sl_nodes = fix_next ps a ?m\<rparr>"
  proof (cases "ps = []")
    case False
    have "set_next (last ps) a (put_node_at a \<lparr>ln_item = x, ln_next = 0, ln_prev = sl_end l\<rparr> l) =
        Inr (l\<lparr>sl_nodes := fix_next ps a ?m\<rparr>)"
      using e(5) False by (subst set_next_fix) (auto simp: put_node_at_def)
    then show ?thesis using e False by (simp add: push_back_def Let_def a_def [symmetric])
  qed (use e in \<open>simp add: push_back_def Let_def a_def [symmetric] put_node_at_def fix_next_def\<close>)
  moreover have "sl_end l = last (0 # ps)" using assms(1) by (simp add: list_rep_def)
  ultimately show ?thesis using list_rep_link [of l ps "[]" xs "[]" a x] assms(1) a len by (simp add: fix_prev_def)
qed

lemma rep_node:
  assumes "list_rep l (ps @ p # qs) (xs @ x # ys)" and "length ps = length xs"
  shows "node_at p l = Inr \<lparr>ln_item = x, ln_next = hd (qs @ [0]), ln_prev = last (0 # ps)\<rparr>" and "p \<noteq> 0"
    and "hd (qs @ [0]) = 0 \<longleftrightarrow> qs = []" and "last (0 # ps) = 0 \<longleftrightarrow> ps = []"
proof -
  note r = assms(1) [unfolded list_rep_def]
  show "node_at p l = Inr \<lparr>ln_item = x, ln_next = hd (qs @ [0]), ln_prev = last (0 # ps)\<rparr>"
    using r assms(2) by (simp add: dseg_append node_at_def)
  show "p \<noteq> 0" using r by auto
  have "0 \<notin> set qs" "0 \<notin> set ps" using r by auto
  then show "hd (qs @ [0]) = 0 \<longleftrightarrow> qs = []" "last (0 # ps) = 0 \<longleftrightarrow> ps = []"
    by (cases qs; simp) (metis \<open>0 \<notin> set ps\<close> last_ConsL last_ConsR last_in_set)
qed

lemma rep_length: "list_rep l ps xs \<Longrightarrow> length ps = length xs"
  by (auto simp: list_rep_def dest: dseg_length)

lemma insert_rep:
  assumes "list_rep l (ps @ qs) (xs @ ys)" and "length ps = length xs" and "new_ok new"
  shows "\<exists>l' a. list_insert new (hd (qs @ [0])) x l = Inr (a, l') \<and> list_rep l' (ps @ a # qs) (xs @ x # ys)"
proof (cases qs)
  case Nil
  moreover from this have "ys = []" using rep_length [OF assms(1)] assms(2) by simp
  ultimately show ?thesis using push_back_rep [OF _ assms(3), of l ps xs x] assms(1) by (auto simp: list_insert_def)
next
  case (Cons p qs')
  have "length (p # qs') = length ys"
    using rep_length [OF assms(1)] assms(2) Cons by simp
  then obtain y ys' where ys: "ys = y # ys'" by (cases ys) auto
  note n = rep_node [OF assms(1) [unfolded Cons ys] assms(2)]
  show ?thesis
  proof (cases "ps = []")
    case True
    then show ?thesis using push_front_rep [OF _ assms(3), of l "p # qs'" ys x] assms(1,2) Cons n
      by (auto simp: list_insert_def)
  next
    case False
    define a where "a = new (sl_nodes l)"
    have a: "a \<noteq> 0" "a \<notin> set (ps @ qs)" using list_rep_fresh [OF assms(1,3)] by (simp_all add: a_def)
    note e = rep_ends [OF assms(1)]
    let ?m = "(sl_nodes l)(a \<mapsto> \<lparr>ln_item = x, ln_next = p, ln_prev = last ps\<rparr>)"
    have 1: "set_prev p a (put_node_at a \<lparr>ln_item = x, ln_next = p, ln_prev = last ps\<rparr> l) =
        Inr (l\<lparr>sl_nodes := fix_prev qs a ?m\<rparr>)"
      using set_prev_fix [of qs "put_node_at a \<lparr>ln_item = x, ln_next = p, ln_prev = last ps\<rparr> l" a] e(5) Cons
      by (auto simp: put_node_at_def)
    have "dom (fix_prev qs a ?m) = insert a (set (ps @ qs))" using e(5) by (subst dom_fix(1)) auto
    then have 2: "set_next (last ps) a (l\<lparr>sl_nodes := fix_prev qs a ?m\<rparr>) =
        Inr (l\<lparr>sl_nodes := fix_next ps a (fix_prev qs a ?m)\<rparr>)"
      using False by (subst set_next_fix) auto
    have "l\<lparr>sl_nodes := N\<rparr> = \<lparr>sl_begin = hd ((ps @ [a]) @ [0]), sl_end = last (0 # a # qs), sl_nodes = N\<rparr>" for N
      using e(3,4) False Cons by (cases l) simp
    then have "list_rep (l\<lparr>sl_nodes := fix_next ps a (fix_prev qs a ?m)\<rparr>) (ps @ a # qs) (xs @ x # ys)"
      using list_rep_link [OF assms(1,2) a, of x] False Cons by simp
    then show ?thesis using 1 2 n False Cons by (simp add: list_insert_def Let_def a_def [symmetric])
  qed
qed

lemma pop_front_rep:
  assumes "list_rep l (p # ps) (x # xs)"
  shows "\<exists>l'. pop_front l = Inr l' \<and> list_rep l' ps xs \<and> sl_begin l' = hd (ps @ [0])"
proof -
  have n: "node_at p l = Inr \<lparr>ln_item = x, ln_next = hd (ps @ [0]), ln_prev = 0\<rparr>" "hd (ps @ [0]) = 0 \<longleftrightarrow> ps = []"
    using rep_node [of l "[]" p ps "[]" x xs] assms by simp_all
  note e = rep_ends [OF assms]
  have b: "sl_begin l = p" using e(3) by simp
  have "pop_front l = Inr \<lparr>sl_begin = hd (ps @ [0]), sl_end = last (0 # ps), sl_nodes = (fix_prev ps 0 (sl_nodes l))(p := None)\<rparr>"
  proof (cases "ps = []")
    case False
    have "set_prev (hd ps) 0 (l\<lparr>sl_begin := hd (ps @ [0])\<rparr>) = Inr (l\<lparr>sl_begin := hd (ps @ [0]), sl_nodes := fix_prev ps 0 (sl_nodes l)\<rparr>)"
      using set_prev_fix [of ps "l\<lparr>sl_begin := hd (ps @ [0])\<rparr>" 0] e(5) False by auto
    then show ?thesis using n e False b by (simp add: pop_front_def Let_def delete_node_def)
  qed (use n b in \<open>simp add: pop_front_def Let_def delete_node_def fix_prev_def\<close>)
  then show ?thesis using list_rep_unlink [of l "[]" p ps "[]" x xs] assms by (simp add: fix_next_def)
qed

lemma pop_back_rep:
  assumes "list_rep l (ps @ [p]) (xs @ [x])"
  shows "\<exists>l'. pop_back l = Inr l' \<and> list_rep l' ps xs"
proof -
  have len: "length ps = length xs" using rep_length [OF assms] by simp
  note n = rep_node [of l ps p "[]" xs x "[]", OF assms len] and e = rep_ends [OF assms]
  have b: "sl_end l = p" using e(4) by simp
  have "pop_back l = Inr \<lparr>sl_begin = hd (ps @ [0]), sl_end = last (0 # ps), sl_nodes = (fix_next ps 0 (sl_nodes l))(p := None)\<rparr>"
  proof (cases "ps = []")
    case False
    have "set_next (last ps) 0 (l\<lparr>sl_end := last ps\<rparr>) = Inr (l\<lparr>sl_end := last ps, sl_nodes := fix_next ps 0 (sl_nodes l)\<rparr>)"
      using set_next_fix [of ps "l\<lparr>sl_end := last ps\<rparr>" 0] e(5) False by auto
    then show ?thesis using n e False b by (simp add: pop_back_def Let_def delete_node_def)
  qed (use n b in \<open>simp add: pop_back_def Let_def delete_node_def fix_next_def\<close>)
  then show ?thesis using list_rep_unlink [of l ps p "[]" xs x "[]"] assms len by (simp add: fix_prev_def)
qed

lemma unlink_middle:
  assumes "list_rep l (ps @ p # qs) (xs @ x # ys)" and "length ps = length xs"
    and "sl_begin l1 = hd (ps @ qs @ [0])" and "sl_end l1 = last (0 # ps @ qs)"
    and "sl_nodes l1 = fix_next ps (hd (qs @ [0])) (fix_prev qs (last (0 # ps)) (sl_nodes l))"
  shows "list_rep (delete_node p l1) (ps @ qs) (xs @ ys)"
proof -
  have "delete_node p l1 = \<lparr>sl_begin = hd (ps @ qs @ [0]), sl_end = last (0 # ps @ qs),
      sl_nodes = (fix_next ps (hd (qs @ [0])) (fix_prev qs (last (0 # ps)) (sl_nodes l)))(p := None)\<rparr>"
    using assms(3-5) by (cases l1) (simp add: delete_node_def)
  then show ?thesis using list_rep_unlink [OF assms(1,2)] by simp
qed

lemma fix_commute:
  assumes "set ps \<inter> set qs = {}"
  shows "fix_prev qs v (fix_next ps w m) = fix_next ps w (fix_prev qs v m)"
proof -
  have "ps \<noteq> [] \<Longrightarrow> qs \<noteq> [] \<Longrightarrow> last ps \<noteq> hd qs" using assms hd_in_set [of qs] last_in_set [of ps] by (metis disjoint_iff)
  then show ?thesis by (auto simp: fix_prev_def fix_next_def fun_eq_iff)
qed

lemma erase_rep:
  assumes "list_rep l (ps @ p # qs) (xs @ x # ys)" and "length ps = length xs"
  shows "\<exists>l'. list_erase p l = Inr (hd (qs @ [0]), l') \<and> list_rep l' (ps @ qs) (xs @ ys)"
proof -
  note n = rep_node [OF assms] and e = rep_ends [OF assms(1)]
  consider "ps = []" | "ps \<noteq> []" "qs = []" | "ps \<noteq> []" "qs \<noteq> []" by blast
  then show ?thesis
  proof cases
    case 1
    then show ?thesis using pop_front_rep [of l p qs x ys] assms n by (auto simp: list_erase_def)
  next
    case 2
    moreover have "ys = []" using rep_length [OF assms(1)] assms(2) 2 by simp
    ultimately show ?thesis using pop_back_rep [of l ps p xs x] assms n by (auto simp: list_erase_def)
  next
    case 3
    let ?m1 = "fix_next ps (hd qs) (sl_nodes l)"
    have 1: "set_next (last ps) (hd qs) l = Inr (l\<lparr>sl_nodes := ?m1\<rparr>)"
      using e(5) 3 by (intro set_next_fix) auto
    have "dom ?m1 = set (ps @ p # qs)" using e(5) by (subst dom_fix(2)) auto
    then have 2: "set_prev (hd qs) (last ps) (l\<lparr>sl_nodes := ?m1\<rparr>) = Inr (l\<lparr>sl_nodes := fix_prev qs (last ps) ?m1\<rparr>)"
      using 3 by (subst set_prev_fix) auto
    have "set ps \<inter> set qs = {}" using assms(1) by (auto simp: list_rep_def)
    then have "fix_prev qs (last ps) ?m1 = fix_next ps (hd qs) (fix_prev qs (last ps) (sl_nodes l))" by (rule fix_commute)
    then have "list_rep (delete_node p (l\<lparr>sl_nodes := fix_prev qs (last ps) ?m1\<rparr>)) (ps @ qs) (xs @ ys)"
      using e(3,4) 3 by (intro unlink_middle [OF assms]) simp_all
    then show ?thesis using 1 2 3 n by (simp add: list_erase_def)
  qed
qed

text \<open>The loops.\<close>

lemma remove_loop_rep:
  assumes "list_rep l (ps @ qs) (xs @ ys)" and "length ps = length xs" and "length qs < fuel"
    and "w = (if ps = [] then AtBegin else AtNext (last ps))"
  shows "\<exists>l' qs'. remove_loop fuel x w (last (0 # ps)) l = Inr l' \<and> list_rep l' (ps @ qs') (xs @ remove1 x ys)"
  using assms
proof (induction fuel arbitrary: ps qs xs ys w)
  case (Suc fuel)
  have at: "read_place w l = Inr (hd (qs @ [0]))"
  proof (cases "ps = []")
    case True
    then show ?thesis using Suc.prems by (simp add: read_place_def list_rep_def)
  next
    case False
    moreover from this have "xs \<noteq> []" using Suc.prems(2) by auto
    ultimately have "ps = butlast ps @ [last ps]" "xs = butlast xs @ [last xs]" by simp_all
    then have "list_rep l (butlast ps @ last ps # qs) (butlast xs @ last xs # ys)"
      using Suc.prems(1) by (metis append.assoc append_Cons append_Nil)
    then show ?thesis using False Suc.prems(2,4) rep_node(1) [of l "butlast ps" "last ps" qs]
      by (simp add: read_place_def iter_next_def)
  qed
  show ?case
  proof (cases qs)
    case Nil
    then have "ys = []" using rep_length [OF Suc.prems(1)] Suc.prems(2) by simp
    then show ?thesis using at Nil Suc.prems(1) by (auto intro!: exI [of _ "[]"])
  next
    case (Cons p qs')
    have "length qs = length ys" using rep_length [OF Suc.prems(1)] Suc.prems(2) by simp
    then obtain y ys' where ys: "ys = y # ys'" using Cons by (cases ys) auto
    have rep: "list_rep l (ps @ p # qs') (xs @ y # ys')" using Suc.prems(1) Cons ys by simp
    note n = rep_node [OF rep Suc.prems(2)] and e = rep_ends [OF rep]
    show ?thesis
    proof (cases "y = x")
      case False
      have "\<exists>l' rs. remove_loop fuel x (AtNext p) (last (0 # ps @ [p])) l = Inr l' \<and>
          list_rep l' ((ps @ [p]) @ rs) ((xs @ [y]) @ remove1 x ys')"
        using Suc.prems rep Cons by (intro Suc.IH) simp_all
      then show ?thesis using at n Cons ys False by auto
    next
      case True
      let ?m1 = "fix_next ps (hd (qs' @ [0])) (sl_nodes l)"
      define l1 where "l1 = (if ps = [] then l\<lparr>sl_begin := hd (qs' @ [0])\<rparr> else l\<lparr>sl_nodes := ?m1\<rparr>)"
      have w: "write_place w (hd (qs' @ [0])) l = Inr l1"
        using Suc.prems(4) e(5) by (auto simp: write_place_def l1_def intro!: set_next_fix)
      have m1: "sl_nodes l1 = ?m1" by (simp add: l1_def fix_next_def)
      have "dom ?m1 = set (ps @ p # qs')" using e(5) by (subst dom_fix(2)) auto
      then have 2: "(if hd (qs' @ [0]) \<noteq> 0 then set_prev (hd (qs' @ [0])) (last (0 # ps)) l1 else Inr l1) =
          Inr (l1\<lparr>sl_nodes := fix_prev qs' (last (0 # ps)) ?m1\<rparr>)"
      proof (cases "qs' = []")
        case True
        then show ?thesis by (simp add: fix_prev_def m1)
      next
        case False
        then have "hd (qs' @ [0]) = hd qs'" by simp
        moreover have "set qs' \<subseteq> dom (sl_nodes l1)" using \<open>dom ?m1 = set (ps @ p # qs')\<close> m1 by auto
        ultimately show ?thesis using n(3) m1 False set_prev_fix [of qs' l1 "last (0 # ps)"] by simp
      qed
      have "set ps \<inter> set qs' = {}" "p \<notin> set ps" "p \<notin> set qs'" using rep by (auto simp: list_rep_def)
      then have m2: "fix_prev qs' (last (0 # ps)) ?m1 = fix_next ps (hd (qs' @ [0])) (fix_prev qs' (last (0 # ps)) (sl_nodes l))"
        by (intro fix_commute)
      let ?l2 = "l1\<lparr>sl_nodes := fix_prev qs' (last (0 # ps)) ?m1\<rparr>"
      let ?l3 = "if sl_end ?l2 = p then ?l2\<lparr>sl_end := last (0 # ps)\<rparr> else ?l2"
      have "sl_end l = last (p # qs')" using e(4) by simp
      moreover have "qs' \<noteq> [] \<Longrightarrow> last qs' \<noteq> p" using \<open>p \<notin> set qs'\<close> last_in_set by metis
      ultimately have "sl_end ?l3 = last (0 # ps @ qs')" by (auto simp: l1_def)
      moreover have "sl_begin ?l3 = hd (ps @ qs' @ [0])" using e(3) by (auto simp: l1_def hd_append)
      moreover have "sl_nodes ?l3 = fix_next ps (hd (qs' @ [0])) (fix_prev qs' (last (0 # ps)) (sl_nodes l))"
        by (simp only: m2 [symmetric]) simp
      ultimately have "list_rep (delete_node p ?l3) (ps @ qs') (xs @ ys')" by (intro unlink_middle [OF rep Suc.prems(2)])
      moreover have "remove_here w (last (0 # ps)) p \<lparr>ln_item = y, ln_next = hd (qs' @ [0]), ln_prev = last (0 # ps)\<rparr> l =
          Inr (delete_node p ?l3)"
        unfolding remove_here_def list_node.select_convs w rbind_Inr 2 ..
      then have "remove_loop (Suc fuel) x w (last (0 # ps)) l = Inr (delete_node p ?l3)"
        using n(1,2) at Cons True by (simp only: remove_loop.simps rbind_Inr append_Cons list.sel if_False list_node.select_convs if_True simp_thms)
      ultimately show ?thesis using ys True by (intro exI [of _ "delete_node p ?l3"] exI [of _ qs']) simp
    qed
  qed
qed simp

lemma remove_rep:
  "list_rep l ps xs \<Longrightarrow> length ps < fuel \<Longrightarrow> \<exists>l' ps'. list_remove fuel x l = Inr l' \<and> list_rep l' ps' (remove1 x xs)"
  using remove_loop_rep [of l "[]" ps "[]" xs fuel AtBegin x] by (auto simp: list_remove_def)

lemma clear_loop_rep:
  "dseg (sl_nodes l) b ps 0 xs \<Longrightarrow> distinct ps \<Longrightarrow> 0 \<notin> set ps \<Longrightarrow> dom (sl_nodes l) = set ps \<Longrightarrow> length ps < fuel \<Longrightarrow>
   \<exists>l'. clear_loop fuel (hd (ps @ [0])) l = Inr l' \<and> sl_nodes l' = (\<lambda>_. None)"
proof (induction fuel arbitrary: ps xs b l)
  case (Suc fuel)
  show ?case
  proof (cases ps)
    case Nil
    then show ?thesis using Suc.prems by auto
  next
    case (Cons p qs)
    then obtain x ys where xs: "xs = x # ys" using Suc.prems(1) by (cases xs) auto
    have "dseg (sl_nodes (delete_node p l)) p qs 0 ys" "dom (sl_nodes (delete_node p l)) = set qs"
      using Suc.prems Cons xs by (auto simp: delete_node_def dseg_other)
    then have "\<exists>l'. clear_loop fuel (hd (qs @ [0])) (delete_node p l) = Inr l' \<and> sl_nodes l' = (\<lambda>_. None)"
      using Suc.prems Cons by (intro Suc.IH) simp_all
    then show ?thesis using Suc.prems Cons xs by (auto simp: iter_next_def node_at_def)
  qed
qed simp

lemma clear_rep: "list_rep l ps xs \<Longrightarrow> length ps < fuel \<Longrightarrow> \<exists>l'. list_clear fuel l = Inr l' \<and> list_rep l' [] []"
  using clear_loop_rep [of l 0 ps xs fuel] by (auto simp: list_clear_def list_rep_def)

lemma size_loop_rep:
  "dseg (sl_nodes l) b ps 0 xs \<Longrightarrow> 0 \<notin> set ps \<Longrightarrow> length ps < fuel \<Longrightarrow>
   size_loop fuel (hd (ps @ [0])) n l = Inr (n + of_nat (length xs))"
proof (induction fuel arbitrary: ps xs b n)
  case (Suc fuel)
  show ?case
  proof (cases ps)
    case Nil
    then show ?thesis using Suc.prems by simp
  next
    case (Cons p qs)
    then obtain x ys where xs: "xs = x # ys" using Suc.prems(1) by (cases xs) auto
    have "size_loop fuel (hd (qs @ [0])) (n + 1) l = Inr (n + 1 + of_nat (length ys))"
      using Suc.prems Cons xs by (intro Suc.IH [of p qs ys]) simp_all
    then show ?thesis using Suc.prems Cons xs by (simp add: iter_next_def node_at_def algebra_simps)
  qed
qed simp

lemma size_rep: "list_rep l ps xs \<Longrightarrow> length ps < fuel \<Longrightarrow> list_size fuel l = Inr (of_nat (length xs))"
  using size_loop_rep [of l 0 ps xs fuel 0] by (auto simp: list_size_def list_rep_def)

section \<open>Sequences of operations\<close>

datatype 'a list_op = PushFront 'a | PushBack 'a | InsertAt nat 'a | EraseAt nat | PopFront | PopBack | RemoveItem 'a | ClearAll

text \<open>An iterator is reached by steps from \<open>begin\<close>; reading a list is a walk in either direction.\<close>

fun iter_advance :: "nat \<Rightarrow> nat \<Rightarrow> 'a std_list \<Rightarrow> nat result" where
  "iter_advance 0 p l = Inr p"
| "iter_advance (Suc n) p l = rbind (iter_next p l) (\<lambda>q. iter_advance n q l)"

fun list_walk :: "(nat \<Rightarrow> 'a std_list \<Rightarrow> nat result) \<Rightarrow> nat \<Rightarrow> nat \<Rightarrow> 'a std_list \<Rightarrow> 'a list result" where
  "list_walk nxt 0 p l = Inl Diverges"
| "list_walk nxt (Suc fuel) p l =
     (if p = 0 then Inr [] else rbind (iter_item p l) (\<lambda>x. rbind (nxt p l) (\<lambda>q.
      rbind (list_walk nxt fuel q l) (\<lambda>xs. Inr (x # xs)))))"

definition list_step :: "('a node_store \<Rightarrow> nat) \<Rightarrow> nat \<Rightarrow> 'a list_op \<Rightarrow> 'a std_list \<Rightarrow> 'a std_list result" where
  "list_step new fuel op l =
     (case op of
        PushFront x \<Rightarrow> push_front new x l
      | PushBack x \<Rightarrow> push_back new x l
      | InsertAt i x \<Rightarrow> rbind (iter_advance i (sl_begin l) l) (\<lambda>p. rbind (list_insert new p x l) (\<lambda>(_, l'). Inr l'))
      | EraseAt i \<Rightarrow> rbind (iter_advance i (sl_begin l) l) (\<lambda>p. rbind (list_erase p l) (\<lambda>(_, l'). Inr l'))
      | PopFront \<Rightarrow> pop_front l
      | PopBack \<Rightarrow> pop_back l
      | RemoveItem x \<Rightarrow> list_remove fuel x l
      | ClearAll \<Rightarrow> list_clear fuel l)"

fun list_run :: "('a node_store \<Rightarrow> nat) \<Rightarrow> nat \<Rightarrow> 'a list_op list \<Rightarrow> 'a std_list \<Rightarrow> 'a std_list result" where
  "list_run new fuel [] l = Inr l"
| "list_run new fuel (op # ops) l = rbind (list_step new fuel op l) (list_run new fuel ops)"

text \<open>The sequence each operation stands for; \<open>None\<close> where it may not be used.\<close>

fun list_spec :: "'a list_op \<Rightarrow> 'a list \<Rightarrow> 'a list option" where
  "list_spec (PushFront x) xs = Some (x # xs)"
| "list_spec (PushBack x) xs = Some (xs @ [x])"
| "list_spec (InsertAt i x) xs = (if i \<le> length xs then Some (take i xs @ x # drop i xs) else None)"
| "list_spec (EraseAt i) xs = (if i < length xs then Some (take i xs @ drop (Suc i) xs) else None)"
| "list_spec PopFront xs = (if xs \<noteq> [] then Some (tl xs) else None)"
| "list_spec PopBack xs = (if xs \<noteq> [] then Some (butlast xs) else None)"
| "list_spec (RemoveItem x) xs = Some (remove1 x xs)"
| "list_spec ClearAll xs = Some []"

fun list_spec_run :: "'a list_op list \<Rightarrow> 'a list \<Rightarrow> 'a list option" where
  "list_spec_run [] xs = Some xs"
| "list_spec_run (op # ops) xs = (case list_spec op xs of None \<Rightarrow> None | Some ys \<Rightarrow> list_spec_run ops ys)"

lemma iter_advance_seg:
  "dseg (sl_nodes l) b ps 0 xs \<Longrightarrow> i \<le> length ps \<Longrightarrow> iter_advance i (hd (ps @ [0])) l = Inr (hd (drop i ps @ [0]))"
proof (induction i arbitrary: b ps xs)
  case (Suc i)
  then obtain p qs x ys where "ps = p # qs" "xs = x # ys" by (cases ps; cases xs) auto
  then show ?case using Suc by (auto simp: iter_next_def node_at_def)
qed simp

lemma iter_advance_rep:
  assumes "list_rep l ps xs" and "i \<le> length xs"
  shows "iter_advance i (sl_begin l) l = Inr (hd (drop i ps @ [0]))"
  using assms iter_advance_seg [of l 0 ps xs i] rep_length [OF assms(1)] by (simp add: list_rep_def)

lemma list_step_rep:
  assumes rep: "list_rep l ps xs" and new: "new_ok new" and spec: "list_spec op xs = Some ys" and fuel: "length xs < fuel"
  shows "\<exists>l' ps'. list_step new fuel op l = Inr l' \<and> list_rep l' ps' ys"
proof -
  have len: "length ps = length xs" by (rule rep_length [OF rep])
  show ?thesis
  proof (cases op)
    case (PushFront x)
    then show ?thesis using push_front_rep [OF rep new, of x] spec by (auto simp: list_step_def)
  next
    case (PushBack x)
    then show ?thesis using push_back_rep [OF rep new, of x] spec by (auto simp: list_step_def)
  next
    case (InsertAt i x)
    then have i: "i \<le> length xs" "ys = take i xs @ x # drop i xs" using spec by (auto split: if_splits)
    have "list_rep l (take i ps @ drop i ps) (take i xs @ drop i xs)" using rep by simp
    from insert_rep [OF this _ new, of x] len i
    obtain l' a where "list_insert new (hd (drop i ps @ [0])) x l = Inr (a, l')"
      "list_rep l' (take i ps @ a # drop i ps) (take i xs @ x # drop i xs)" by auto
    then show ?thesis using InsertAt iter_advance_rep [OF rep i(1)] i(2) by (auto simp: list_step_def)
  next
    case (EraseAt i)
    then have i: "i < length xs" "ys = take i xs @ drop (Suc i) xs" using spec by (auto split: if_splits)
    have "list_rep l (take i ps @ ps ! i # drop (Suc i) ps) (take i xs @ xs ! i # drop (Suc i) xs)"
      using rep i len id_take_nth_drop [of i ps] id_take_nth_drop [of i xs] by simp
    from erase_rep [OF this] len i obtain l' where "list_erase (ps ! i) l = Inr (hd (drop (Suc i) ps @ [0]), l')"
      "list_rep l' (take i ps @ drop (Suc i) ps) ys" by auto
    moreover have "hd (drop i ps @ [0]) = ps ! i" using i len by (simp add: hd_append hd_drop_conv_nth)
    ultimately show ?thesis using EraseAt iter_advance_rep [OF rep, of i] i(1) by (auto simp: list_step_def)
  next
    case PopFront
    then obtain x xs' p ps' where "xs = x # xs'" "ps = p # ps'" "ys = xs'"
      using spec len by (cases xs; cases ps) (auto split: if_splits)
    then show ?thesis using PopFront pop_front_rep [of l p ps' x xs'] rep by (auto simp: list_step_def)
  next
    case PopBack
    then have "xs \<noteq> []" "ys = butlast xs" using spec by (auto split: if_splits)
    moreover from this have "ps \<noteq> []" using len by auto
    ultimately have "list_rep l (butlast ps @ [last ps]) (ys @ [last xs])" using rep by simp
    from pop_back_rep [OF this] show ?thesis using PopBack by (auto simp: list_step_def)
  next
    case (RemoveItem x)
    then show ?thesis using remove_rep [OF rep, of fuel x] spec fuel len by (auto simp: list_step_def)
  next
    case ClearAll
    then show ?thesis using clear_rep [OF rep, of fuel] spec fuel len by (auto simp: list_step_def)
  qed
qed

lemma list_spec_length: "list_spec op xs = Some ys \<Longrightarrow> length ys \<le> Suc (length xs)"
  by (cases op) (auto split: if_splits simp: length_remove1)

lemma list_run_rep:
  "list_rep l ps xs \<Longrightarrow> new_ok new \<Longrightarrow> list_spec_run ops xs = Some ys \<Longrightarrow> length xs + length ops < fuel \<Longrightarrow>
   \<exists>l' ps'. list_run new fuel ops l = Inr l' \<and> list_rep l' ps' ys \<and> length ys < fuel"
proof (induction ops arbitrary: l ps xs)
  case (Cons op ops)
  then obtain zs where zs: "list_spec op xs = Some zs" "list_spec_run ops zs = Some ys" by (auto split: option.splits)
  obtain l1 ps1 where one: "list_step new fuel op l = Inr l1" "list_rep l1 ps1 zs"
    using list_step_rep [OF Cons.prems(1,2) zs(1), of fuel] Cons.prems(4) by auto
  have "length zs + length ops < fuel" using list_spec_length [OF zs(1)] Cons.prems(4) by simp
  from Cons.IH [OF one(2) Cons.prems(2) zs(2) this] one(1) show ?case by simp
qed auto

lemma walk_forward:
  "dseg (sl_nodes l) b ps 0 xs \<Longrightarrow> 0 \<notin> set ps \<Longrightarrow> length ps < fuel \<Longrightarrow>
   list_walk iter_next fuel (hd (ps @ [0])) l = Inr xs"
proof (induction fuel arbitrary: b ps xs)
  case (Suc fuel)
  show ?case
  proof (cases ps)
    case (Cons p qs)
    then obtain x ys where "xs = x # ys" using Suc.prems(1) by (cases xs) auto
    then show ?thesis using Cons Suc.prems Suc.IH [of p qs ys] by (auto simp: iter_next_def iter_item_def node_at_def)
  qed (use Suc.prems in auto)
qed simp

lemma walk_backward:
  "dseg (sl_nodes l) 0 ps e xs \<Longrightarrow> 0 \<notin> set ps \<Longrightarrow> length ps < fuel \<Longrightarrow>
   list_walk riter_next fuel (last (0 # ps)) l = Inr (rev xs)"
proof (induction fuel arbitrary: e ps xs)
  case (Suc fuel)
  show ?case
  proof (cases ps rule: rev_cases)
    case (snoc qs p)
    obtain ys zs where s: "xs = ys @ zs" "length ys = length qs" "dseg (sl_nodes l) 0 qs p ys"
      "dseg (sl_nodes l) (last (0 # qs)) [p] e zs" using dseg_split [of "sl_nodes l" 0 qs "[p]" e xs] Suc.prems(1) snoc by auto
    obtain z where z: "zs = [z]" using dseg_length [OF s(4)] by (cases zs) auto
    have "list_walk riter_next fuel (last (0 # qs)) l = Inr (rev ys)" using Suc.prems snoc s(3) by (intro Suc.IH) auto
    moreover have "riter_next p l = Inr (last (0 # qs))" "iter_item p l = Inr z"
      using s(4) z by (auto simp: riter_next_def iter_item_def node_at_def)
    ultimately show ?thesis using snoc s(1) z Suc.prems(2) by auto
  qed (use Suc.prems in auto)
qed simp

text \<open>
  Claim C18. Whatever operations are applied to a new list, each where it may be: no pointer that is null or deleted is
  followed, and the list holds the sequence that the operations describe. A walk with \<open>++\<close> from \<open>begin()\<close> gives
  it, a walk from \<open>rbegin()\<close> gives its reverse, \<open>size()\<close> counts it, and exactly the nodes of the sequence are
  still allocated.
\<close>

theorem list_refines_sequence:
  assumes "new_ok new" and "list_spec_run ops [] = Some ys" and "length ops < fuel"
  shows "\<exists>l. list_run new fuel ops list_new = Inr l \<and>
    list_walk iter_next fuel (sl_begin l) l = Inr ys \<and> list_walk riter_next fuel (sl_end l) l = Inr (rev ys) \<and>
    list_size fuel l = Inr (of_nat (length ys)) \<and> card (dom (sl_nodes l)) = length ys"
proof -
  obtain l ps where l: "list_run new fuel ops list_new = Inr l" "list_rep l ps ys" "length ys < fuel"
    using list_run_rep [OF list_rep_new assms(1,2), of fuel] assms(3) by auto
  have len: "length ps = length ys" by (rule rep_length [OF l(2)])
  note r = l(2) [unfolded list_rep_def]
  have "card (dom (sl_nodes l)) = length ys" using r len distinct_card [of ps] by simp
  moreover have "list_walk iter_next fuel (sl_begin l) l = Inr ys" "list_walk riter_next fuel (sl_end l) l = Inr (rev ys)"
    using walk_forward [of l 0 ps ys fuel] walk_backward [of l ps 0 ys fuel] r l(3) len by auto
  ultimately show ?thesis using l(1,3) size_rep [OF l(2), of fuel] len by auto
qed

definition next_address :: "'a node_store \<Rightarrow> nat" where
  "next_address m = Suc (Max (insert 0 (dom m)))"

lemma next_address_ok: "new_ok next_address"
  unfolding new_ok_def
proof (intro allI impI conjI)
  fix m :: "'a node_store" assume fin: "finite (dom m)"
  show "next_address m \<noteq> 0" by (simp add: next_address_def)
  have "next_address m \<notin> dom m"
  proof
    assume "next_address m \<in> dom m"
    then have "next_address m \<le> Max (insert 0 (dom m))" using fin by (intro Max_ge) auto
    then show False by (simp add: next_address_def)
  qed
  then show "m (next_address m) = None" by auto
qed

theorem list_refines_sequence_witness:
  "\<exists>l. list_run next_address 9 [PushBack 2, PushBack 3, PushFront (1 :: int), InsertAt 1 9, RemoveItem 2, EraseAt 2] list_new = Inr l \<and>
     list_walk riter_next 9 (sl_end l) l = Inr [9, 1] \<and> card (dom (sl_nodes l)) = 2"
  using list_refines_sequence [OF next_address_ok, of "[PushBack 2, PushBack 3, PushFront (1 :: int), InsertAt 1 9, RemoveItem 2, EraseAt 2]"
    "[1, 9]" 9] by auto

text \<open>Assigned to itself, a list loses its items.\<close>

lemma list_assign_self_empty:
  assumes "list_rep l ps xs" and "length xs < fuel"
  shows "\<exists>l'. list_assign_self fuel new l = Inr l' \<and> list_rep l' [] []"
proof -
  obtain l1 where l1: "list_clear fuel l = Inr l1" "list_rep l1 [] []"
    using clear_rep [OF assms(1), of fuel] assms(2) rep_length [OF assms(1)] by auto
  moreover obtain k where "fuel = Suc k" using assms(2) by (cases fuel) auto
  moreover have "sl_begin l1 = 0" using l1(2) by (simp add: list_rep_def)
  ultimately show ?thesis by (simp add: list_assign_self_def)
qed

end
