(* ===== verification/Keyboard.thy ===== *)
theory Keyboard
  imports StdString
begin

text \<open>
  \<^verbatim>\<open>src/packages/keyboard/main.cpp\<close>, the keyboard driver: scancodes of the controller become characters on the stream
  \<open>input\<close>. What the driver does besides, its events, are in the order it does them. \<open>ready n\<close> is what the
  controller answers to the \<open>n\<close>-th read of its status port. Also \<open>getline\<close> of \<^verbatim>\<open>src/user/stdio.cpp\<close>, which
  reads those characters.
\<close>

section \<open>Tables\<close>

definition keyboard_us :: "u8 list" where
  "keyboard_us =
     [0, 27, 49, 50, 51, 52, 53, 54, 55, 56,
      57, 48, 45, 45, 8,
      9, 113, 119, 101, 114,
      116, 121, 117, 105, 111, 112,
      91, 93, 10, 0,
      97, 115, 100, 102, 103, 104,
      106, 107, 108, 59, 39,
      96, 0, 92, 122, 120, 99,
      118, 98, 110, 109, 44,
      46, 47, 0, 42,
      0, 32, 0, 0, 0, 0, 0, 0, 0,
      0, 0, 0, 0,
      0, 0, 0, 0, 0, 45,
      0, 0, 0, 43,
      0, 0, 0, 0, 0,
      0, 0, 0, 0, 0,
      0]"

text \<open>The pairs of \<open>keyboard_us_shift_table\<close> up to its terminator.\<close>

definition keyboard_us_shift_table :: "(u8 \<times> u8) list" where
  "keyboard_us_shift_table =
     [(96, 126), (49, 33), (50, 64), (51, 35),
      (52, 36), (53, 37), (54, 94), (55, 38),
      (56, 42), (57, 40), (48, 41), (45, 95),
      (61, 43), (91, 123), (93, 125), (92, 124),
      (59, 58), (39, 34), (44, 60), (46, 62),
      (47, 63)]"

definition shiftCharacter :: "u8 \<Rightarrow> u8" where
  "shiftCharacter c =
     (if 97 \<le> sint c \<and> sint c \<le> 122 then c - 0x20
      else case find (\<lambda>p. fst p = c) keyboard_us_shift_table of Some p \<Rightarrow> snd p | None \<Rightarrow> c)"

definition capslockInvert :: "u8 \<Rightarrow> u8" where
  "capslockInvert c =
     (if 97 \<le> sint c \<and> sint c \<le> 122 then c - 0x20
      else if 65 \<le> sint c \<and> sint c \<le> 90 then c + 0x20
      else c)"

section \<open>The driver\<close>

datatype kb_event =
    KbPutc u8
  | KbSend u8
  | KbOut u16 u8

record kbd =
  held_scancodes :: "u8 list"
  echo_mode :: bool
  capslock_down :: bool
  numlock_down :: bool
  scrolllock_down :: bool
  pressed_ctrl :: bool
  pressed_alt :: bool
  pressed_shift :: bool
  mustUpdateLEDs :: bool
  kb_polls :: nat

text \<open>\<open>held_scancodes\<close> is not initialised; \<open>held\<close> is what its memory holds.\<close>

definition kbd_new :: "u8 list \<Rightarrow> kbd" where
  "kbd_new held = \<lparr>held_scancodes = held, echo_mode = False, capslock_down = False, numlock_down = False,
     scrolllock_down = False, pressed_ctrl = False, pressed_alt = False, pressed_shift = False,
     mustUpdateLEDs = False, kb_polls = 0\<rparr>"

text \<open>The bit of a scancode in \<open>held_scancodes\<close>.\<close>

definition hold_code :: "bool \<Rightarrow> u8 \<Rightarrow> kbd \<Rightarrow> kbd" where
  "hold_code down code kb =
     (let i = unat (drop_bit 3 code); b = push_bit (unat (code AND 7)) 1; h = held_scancodes kb in
      kb\<lparr>held_scancodes := h[i := if down then h ! i OR b else h ! i AND NOT b]\<rparr>)"

fun waitForKb :: "nat \<Rightarrow> (nat \<Rightarrow> u8) \<Rightarrow> kbd \<Rightarrow> kbd result" where
  "waitForKb 0 ready kb = Inl Diverges"
| "waitForKb (Suc fuel) ready kb =
     (let v = ready (kb_polls kb); kb1 = kb\<lparr>kb_polls := Suc (kb_polls kb)\<rparr> in
      if v AND 2 = 0 then Inr kb1 else waitForKb fuel ready kb1)"

definition led_byte :: "kbd \<Rightarrow> u8" where
  "led_byte kb = (if scrolllock_down kb then 1 else 0) OR (if numlock_down kb then 2 else 0) OR
     (if capslock_down kb then 4 else 0)"

definition updateLEDs :: "nat \<Rightarrow> (nat \<Rightarrow> u8) \<Rightarrow> kbd \<Rightarrow> (kb_event list \<times> kbd) result" where
  "updateLEDs fuel ready kb =
     (if mustUpdateLEDs kb
      then rbind (waitForKb fuel ready kb) (\<lambda>kb1.
           rbind (waitForKb fuel ready kb1) (\<lambda>kb2.
           Inr ([KbOut 0x60 0xed, KbOut 0x60 (led_byte kb)], kb2)))
      else Inr ([], kb))"

definition kb_release :: "u8 \<Rightarrow> kbd \<Rightarrow> kbd" where
  "kb_release code kb =
     (let kb1 = hold_code False code kb in
      if code = 29 then kb1\<lparr>pressed_ctrl := False\<rparr>
      else if code = 42 \<or> code = 54 then kb1\<lparr>pressed_shift := False\<rparr>
      else if code = 56 then kb1\<lparr>pressed_alt := False\<rparr>
      else kb1)"

text \<open>A key of the table; a scancode past its end reads outside it.\<close>

definition kb_char :: "u8 \<Rightarrow> kbd \<Rightarrow> u8 result" where
  "kb_char code kb =
     (if unat code < length keyboard_us
      then let c0 = keyboard_us ! unat code;
               c1 = (if pressed_shift kb then shiftCharacter c0 else c0) in
           Inr (if capslock_down kb then capslockInvert c1 else c1)
      else Inl OutOfBounds)"

definition kb_key :: "u8 \<Rightarrow> kbd \<Rightarrow> (kb_event list \<times> kbd) result" where
  "kb_key code kb =
     (if code = 29 then Inr ([], kb\<lparr>pressed_ctrl := True\<rparr>)
      else if code = 42 \<or> code = 54 then Inr ([], kb\<lparr>pressed_shift := True\<rparr>)
      else if code = 56 then Inr ([], kb\<lparr>pressed_alt := True\<rparr>)
      else if code = 58 then Inr ([], kb\<lparr>capslock_down := \<not> capslock_down kb, mustUpdateLEDs := True\<rparr>)
      else if code = 69 then Inr ([], kb\<lparr>numlock_down := \<not> numlock_down kb, mustUpdateLEDs := True\<rparr>)
      else if code = 70 then Inr ([], kb\<lparr>scrolllock_down := \<not> scrolllock_down kb, mustUpdateLEDs := True\<rparr>)
      else rbind (kb_char code kb) (\<lambda>c. Inr ((if echo_mode kb then [KbPutc c] else []) @ [KbSend c], kb)))"

definition kb_press :: "nat \<Rightarrow> (nat \<Rightarrow> u8) \<Rightarrow> u8 \<Rightarrow> kbd \<Rightarrow> (kb_event list \<times> kbd) result" where
  "kb_press fuel ready code kb =
     rbind (kb_key code (hold_code True code kb)) (\<lambda>(ev, kb1).
     rbind (updateLEDs fuel ready kb1) (\<lambda>(ev', kb2). Inr (ev @ ev', kb2)))"

definition kb_step :: "nat \<Rightarrow> (nat \<Rightarrow> u8) \<Rightarrow> u8 \<Rightarrow> kbd \<Rightarrow> (kb_event list \<times> kbd) result" where
  "kb_step fuel ready scancode kb =
     (if scancode AND 0x80 \<noteq> 0 then Inr ([], kb_release (scancode AND NOT 0x80) kb)
      else kb_press fuel ready scancode kb)"

text \<open>The loop of \<open>main\<close> over the scancodes that the interrupts bring.\<close>

fun kb_run :: "nat \<Rightarrow> (nat \<Rightarrow> u8) \<Rightarrow> u8 list \<Rightarrow> kbd \<Rightarrow> (kb_event list \<times> kbd) result" where
  "kb_run fuel ready [] kb = Inr ([], kb)"
| "kb_run fuel ready (code # codes) kb =
     rbind (kb_step fuel ready code kb) (\<lambda>(ev, kb1).
     rbind (kb_run fuel ready codes kb1) (\<lambda>(ev', kb2). Inr (ev @ ev', kb2)))"

section \<open>Reading a line\<close>

text \<open>
  \<open>getline\<close> on the characters that the listener holds or will hold: \<open>None\<close> while the line is not complete,
  otherwise the line, what was printed, and the characters left. \<open>kbbuf\<close> has \<open>cs\<close> bytes.
\<close>

fun getline_loop :: "u8 list \<Rightarrow> u32 \<Rightarrow> u32 \<Rightarrow> bytes \<Rightarrow> bytes \<Rightarrow> (std_string \<times> bytes \<times> u8 list) option result" where
  "getline_loop [] cs n kbbuf out = Inr None"
| "getline_loop (c # input) cs n kbbuf out =
     (if unat n < length kbbuf
      then let kbbuf1 = kbbuf[unat n := c] in
           if c = 8
           then if n > 0 then getline_loop input cs (n - 1) kbbuf1 (out @ [8, 32, 8])
                else getline_loop input cs n kbbuf1 out
           else if c = 10 then rbind (string_of_n kbbuf1 n) (\<lambda>s. Inr (Some (s, out @ [c], input)))
           else if n + 1 = cs
           then rbind (memcpy (new_chars (unat (cs * 2))) kbbuf1 (unat (n + 1))) (\<lambda>new_buf.
                getline_loop input (cs * 2) (n + 1) new_buf (out @ [c]))
           else getline_loop input cs (n + 1) kbbuf1 (out @ [c])
      else Inl OutOfBounds)"

definition getline :: "u8 list \<Rightarrow> (std_string \<times> bytes \<times> u8 list) option result" where
  "getline input = getline_loop input 8 0 (new_chars 8) []"

end
