(* ===== verification/KeyboardProps.thy ===== *)
theory KeyboardProps
  imports Keyboard
begin

text \<open>
  What is typed and what is read: the characters that the keyboard driver sends, computed from the history of the keys,
  and the line that \<open>getline\<close> makes of them.
\<close>

section \<open>The characters of a sequence of scancodes\<close>

definition is_press :: "u8 \<Rightarrow> bool" where
  "is_press c \<longleftrightarrow> c AND 0x80 = 0"

definition is_shift :: "u8 \<Rightarrow> bool" where
  "is_shift c \<longleftrightarrow> c AND NOT 0x80 = 42 \<or> c AND NOT 0x80 = 54"

text \<open>Shift is down when the last scancode of a shift key was a press, caps lock is on after an odd number of presses.\<close>

definition shift_held :: "u8 list \<Rightarrow> bool" where
  "shift_held codes \<longleftrightarrow> (case find is_shift (rev codes) of None \<Rightarrow> False | Some c \<Rightarrow> is_press c)"

definition caps_on :: "u8 list \<Rightarrow> bool" where
  "caps_on codes \<longleftrightarrow> odd (count_list codes 58)"

definition types_char :: "u8 \<Rightarrow> bool" where
  "types_char c \<longleftrightarrow> is_press c \<and> c \<notin> {29, 42, 54, 56, 58, 69, 70}"

definition typed_at :: "u8 list \<Rightarrow> u8 \<Rightarrow> u8 list" where
  "typed_at before c =
     (if types_char c
      then let k = keyboard_us ! unat c; s = (if shift_held before then shiftCharacter k else k) in
           [if caps_on before then capslockInvert s else s]
      else [])"

definition typed :: "u8 list \<Rightarrow> u8 list" where
  "typed codes = concat (map (\<lambda>i. typed_at (take i codes) (codes ! i)) [0..<length codes])"

definition sent :: "kb_event list \<Rightarrow> u8 list" where
  "sent ev = concat (map (\<lambda>e. case e of KbSend c \<Rightarrow> [c] | _ \<Rightarrow> []) ev)"

text \<open>The scancodes of keys in the table, and a controller that accepts a byte sooner or later.\<close>

definition code_ok :: "u8 \<Rightarrow> bool" where
  "code_ok c \<longleftrightarrow> (is_press c \<longrightarrow> unat c < 90)"

definition answers_within :: "nat \<Rightarrow> (nat \<Rightarrow> u8) \<Rightarrow> bool" where
  "answers_within fuel ready \<longleftrightarrow> (\<forall>n. \<exists>i < fuel. ready (n + i) AND 2 = 0)"

lemma sent_simps [simp]: "sent [] = []" "sent (KbSend c # ev) = c # sent ev" "sent (KbPutc c # ev) = sent ev"
  "sent (KbOut p v # ev) = sent ev" "sent (ev @ ev') = sent ev @ sent ev'"
  by (simp_all add: sent_def)

lemma typed_snoc: "typed (codes @ [c]) = typed codes @ typed_at codes c"
proof -
  have "map (\<lambda>i. typed_at (take i (codes @ [c])) ((codes @ [c]) ! i)) [0..<length codes] =
      map (\<lambda>i. typed_at (take i codes) (codes ! i)) [0..<length codes]"
    by (auto simp: nth_append)
  moreover have "[0..<length (codes @ [c])] = [0..<length codes] @ [length codes]" by simp
  ultimately show ?thesis by (simp only: typed_def map_append concat_append) simp
qed

lemma waitForKb_returns:
  "\<exists>i < fuel. ready (kb_polls kb + i) AND 2 = 0 \<Longrightarrow> \<exists>n. waitForKb fuel ready kb = Inr (kb\<lparr>kb_polls := n\<rparr>)"
proof (induction fuel arbitrary: kb)
  case (Suc fuel)
  show ?case
  proof (cases "ready (kb_polls kb) AND 2 = 0")
    case False
    from Suc.prems obtain i where i: "i < Suc fuel" "ready (kb_polls kb + i) AND 2 = 0" by blast
    then obtain j where "i = Suc j" using False by (cases i) auto
    then have "\<exists>j < fuel. ready (kb_polls (kb\<lparr>kb_polls := Suc (kb_polls kb)\<rparr>) + j) AND 2 = 0" using i by auto
    from Suc.IH [OF this] False show ?thesis by (auto simp: Let_def)
  qed (auto simp: Let_def)
qed simp

definition kb_inv :: "u8 list \<Rightarrow> kbd \<Rightarrow> bool" where
  "kb_inv before kb \<longleftrightarrow> pressed_shift kb = shift_held before \<and> capslock_down kb = caps_on before \<and> \<not> echo_mode kb"

lemma kb_inv_fields [simp]:
  "kb_inv before (kb\<lparr>kb_polls := n\<rparr>) \<longleftrightarrow> kb_inv before kb"
  "kb_inv before (hold_code b c kb) \<longleftrightarrow> kb_inv before kb"
  by (simp_all add: kb_inv_def hold_code_def Let_def)

lemma updateLEDs_returns:
  assumes "answers_within fuel ready" and "kb_inv before kb"
  shows "\<exists>ev kb'. updateLEDs fuel ready kb = Inr (ev, kb') \<and> kb_inv before kb' \<and> sent ev = []"
proof -
  have returns: "\<exists>n. waitForKb fuel ready kb = Inr (kb\<lparr>kb_polls := n\<rparr>)" for kb
    using assms(1) by (intro waitForKb_returns) (simp add: answers_within_def)
  obtain n where n: "waitForKb fuel ready kb = Inr (kb\<lparr>kb_polls := n\<rparr>)" using returns by blast
  obtain m where "waitForKb fuel ready (kb\<lparr>kb_polls := n\<rparr>) = Inr (kb\<lparr>kb_polls := m\<rparr>)"
    using returns [of "kb\<lparr>kb_polls := n\<rparr>"] by auto
  with n assms(2) show ?thesis by (simp add: updateLEDs_def)
qed

lemma shift_held_snoc: "shift_held (codes @ [c]) \<longleftrightarrow> (if is_shift c then is_press c else shift_held codes)"
  by (simp add: shift_held_def)

lemma caps_on_snoc: "caps_on (codes @ [c]) \<longleftrightarrow> (if c = 58 then \<not> caps_on codes else caps_on codes)"
  by (simp add: caps_on_def)

lemma and_not_disjoint:
  assumes "c AND m = (0 :: 'a::len word)"
  shows "c AND NOT m = c"
proof (rule bit_eqI)
  fix n assume n: "possible_bit TYPE('a word) n"
  have "\<not> (bit c n \<and> bit m n)" using assms by (metis bit_and_iff bit_0_eq bot_apply bot_bool_def)
  then show "bit (c AND NOT m) n = bit c n" using n by (auto simp: bit_simps)
qed

lemma press_same: "is_press c \<Longrightarrow> c AND NOT 0x80 = c"
  unfolding is_press_def by (rule and_not_disjoint)

lemma kb_key_correct:
  assumes "is_press c" and "unat c < 90" and "kb_inv before kb"
  shows "\<exists>ev kb'. kb_key c kb = Inr (ev, kb') \<and> kb_inv (before @ [c]) kb' \<and> sent ev = typed_at before c"
proof -
  have shift: "is_shift c \<longleftrightarrow> c = 42 \<or> c = 54" using press_same [OF assms(1)] by (simp add: is_shift_def)
  have len: "length keyboard_us = 90" by (simp add: keyboard_us_def)
  show ?thesis
    using assms len shift
    by (auto simp: kb_key_def kb_char_def kb_inv_def Let_def shift_held_snoc caps_on_snoc typed_at_def types_char_def)
qed

lemma kb_release_correct:
  assumes "\<not> is_press c" and "kb_inv before kb"
  shows "kb_inv (before @ [c]) (kb_release (c AND NOT 0x80) kb) \<and> typed_at before c = []"
proof -
  have "c \<noteq> 58" using assms(1) by (auto simp: is_press_def)
  moreover have "kb_inv before (hold_code False (c AND NOT 0x80) kb)" using assms(2) by simp
  moreover have "c AND NOT 0x80 = 42 \<or> c AND NOT 0x80 = 54 \<longleftrightarrow> is_shift c" by (simp add: is_shift_def)
  ultimately show ?thesis using assms(1)
    by (auto simp: kb_release_def Let_def kb_inv_def shift_held_snoc caps_on_snoc typed_at_def types_char_def)
qed

lemma kb_step_correct:
  assumes "code_ok c" and "answers_within fuel ready" and "kb_inv before kb"
  shows "\<exists>ev kb'. kb_step fuel ready c kb = Inr (ev, kb') \<and> kb_inv (before @ [c]) kb' \<and> sent ev = typed_at before c"
proof (cases "is_press c")
  case True
  then have "unat c < 90" using assms(1) by (simp add: code_ok_def)
  moreover have "kb_inv before (hold_code True c kb)" using assms(3) by simp
  ultimately obtain ev kb1 where k: "kb_key c (hold_code True c kb) = Inr (ev, kb1)" "kb_inv (before @ [c]) kb1"
    "sent ev = typed_at before c" using kb_key_correct [OF True] by blast
  obtain ev' kb2 where "updateLEDs fuel ready kb1 = Inr (ev', kb2)" "kb_inv (before @ [c]) kb2" "sent ev' = []"
    using updateLEDs_returns [OF assms(2) k(2)] by blast
  then show ?thesis using k True by (simp add: kb_step_def kb_press_def is_press_def)
next
  case False
  then show ?thesis using kb_release_correct [OF False assms(3)] by (simp add: kb_step_def is_press_def)
qed

lemma kb_run_append:
  "kb_run fuel ready (codes @ codes') kb =
     rbind (kb_run fuel ready codes kb) (\<lambda>(ev, kb1).
     rbind (kb_run fuel ready codes' kb1) (\<lambda>(ev', kb2). Inr (ev @ ev', kb2)))"
proof (induction codes arbitrary: kb)
  case Nil
  show ?case by (cases "kb_run fuel ready codes' kb") auto
next
  case (Cons c codes)
  then show ?case by (auto simp: rbind_assoc split_def intro!: rbind_cong)
qed

lemma kb_run_correct:
  assumes "answers_within fuel ready" and "\<forall>c\<in>set codes. code_ok c"
  shows "\<exists>ev kb. kb_run fuel ready codes (kbd_new held) = Inr (ev, kb) \<and> kb_inv codes kb \<and> sent ev = typed codes"
  using assms(2)
proof (induction codes rule: rev_induct)
  case Nil
  show ?case by (simp add: typed_def kb_inv_def kbd_new_def shift_held_def caps_on_def)
next
  case (snoc c codes)
  then obtain ev kb where r: "kb_run fuel ready codes (kbd_new held) = Inr (ev, kb)" "kb_inv codes kb" "sent ev = typed codes"
    by auto
  obtain ev' kb' where "kb_step fuel ready c kb = Inr (ev', kb')" "kb_inv (codes @ [c]) kb'" "sent ev' = typed_at codes c"
    using kb_step_correct [OF _ assms(1) r(2), of c] snoc.prems by auto
  with r show ?case by (simp add: kb_run_append typed_snoc)
qed

section \<open>The line read\<close>

text \<open>
  The line of a sequence of characters: a backspace removes the last character, if there is one, and a newline ends the
  line. The printed characters erase what is removed.
\<close>

fun edit :: "u8 list \<Rightarrow> u8 list \<Rightarrow> (u8 list \<times> u8 list) option" where
  "edit acc [] = None"
| "edit acc (c # cs) =
     (if c = 10 then Some (rev acc, cs) else if c = 8 then edit (tl acc) cs else edit (c # acc) cs)"

fun echo :: "nat \<Rightarrow> u8 list \<Rightarrow> u8 list" where
  "echo n [] = []"
| "echo n (c # cs) =
     (if c = 10 then [10] else if c = 8 then (if n > 0 then [8, 32, 8] else []) @ echo (n - 1) cs else c # echo (Suc n) cs)"

definition line_string :: "u8 list \<Rightarrow> std_string" where
  "line_string l = \<lparr>st_str = Some (l @ [0]), st_length = of_nat (length l)\<rparr>"

lemma line_read:
  assumes "take (unat n) b = l" and "unat n \<le> length b"
  shows "string_of_n b n = Inr (line_string l)"
proof -
  have "length l = unat n" using assms by auto
  moreover have "drop (unat n) (new_chars (unat n + 1)) = [0]"
  proof -
    have "new_chars (unat n + 1) = replicate (unat n) 0 @ [0]" by (simp add: new_chars_def replicate_append_same)
    then show ?thesis by simp
  qed
  moreover have "memcpy (new_chars (unat n + 1)) b (unat n) = Inr (take (unat n) b @ drop (unat n) (new_chars (unat n + 1)))"
    using assms(2) by (intro memcpy_ok) (simp_all add: new_chars_def)
  ultimately show ?thesis using assms by (simp add: string_of_n_def line_string_def list_update_append del: memcpy.simps)
qed

lemma getline_loop_edits:
  assumes "length kbbuf = unat cs" and "unat n < unat cs" and "take (unat n) kbbuf = rev acc"
    and "unat n + length input < 2147483648"
  shows "getline_loop input cs n kbbuf out =
    Inr (map_option (\<lambda>(l, rest). (line_string l, out @ echo (unat n) input, rest)) (edit acc input))"
  using assms
proof (induction input arbitrary: cs n kbbuf acc out)
  case Nil
  show ?case by simp
next
  case (Cons c input)
  let ?b = "kbbuf[unat n := c]"
  have len: "length acc = unat n" using Cons.prems(1,2,3) by (metis length_rev length_take min_absorb2 less_imp_le)
  have b: "take (unat n) ?b = rev acc" "length ?b = unat cs" using Cons.prems(1,3) by simp_all
  have n1: "unat (n + 1) = Suc (unat n)" using Cons.prems(4) by (simp add: unat_add_nowrap)
  have b1: "take (Suc (unat n)) ?b = rev (c # acc)" using b Cons.prems(2) by (simp add: take_Suc_conv_app_nth)
  consider "c = 8" "n > 0" | "c = 8" "n = 0" | "c = 10" | "c \<noteq> 8" "c \<noteq> 10" "n + 1 = cs" | "c \<noteq> 8" "c \<noteq> 10" "n + 1 \<noteq> cs"
    by (cases "n = 0") (auto simp: word_gt_0)
  then show ?case
  proof cases
    case 1
    then have m: "unat (n - 1) = unat n - 1" "unat n > 0" by (simp_all add: unat_minus_one unat_gt_0)
    then have "take (unat n - 1) ?b = rev (tl acc)" using b(1) len
      by (metis butlast_rev butlast_take diff_le_self length_list_update less_imp_le_nat Cons.prems(1,2))
    then show ?thesis using 1 m Cons.prems b Cons.IH [of ?b cs "n - 1" "tl acc" "out @ [8, 32, 8]"] by simp
  next
    case 2
    then have "acc = []" using len by simp
    then show ?thesis using 2 Cons.prems b Cons.IH [of ?b cs n acc out] by simp
  next
    case 3
    then show ?thesis using Cons.prems line_read [OF b(1)] by simp
  next
    case 4
    then have cs: "unat cs = Suc (unat n)" using n1 by simp
    then have "unat (cs * 2) = 2 * unat cs" using Cons.prems(4) by (simp add: unat_word_ariths)
    moreover have "memcpy (new_chars (2 * unat cs)) ?b (unat cs) = Inr (?b @ new_chars (unat cs))"
      using b(2) memcpy_ok [of "unat cs" "new_chars (2 * unat cs)" ?b] by (simp add: new_chars_def)
    moreover have "take (Suc (unat n)) (?b @ new_chars (unat cs)) = rev (c # acc)"
      using b1 b(2) cs by (metis append_self_conv diff_self_eq_0 take0 take_append)
    ultimately show ?thesis using 4 cs n1 Cons.prems b(2)
        Cons.IH [of "?b @ new_chars (unat cs)" "cs * 2" "n + 1" "c # acc" "out @ [c]"]
      by (simp add: new_chars_def)
  next
    case 5
    then have "unat cs \<noteq> Suc (unat n)" using n1 by (metis word_unat_eq_iff)
    then show ?thesis using 5 n1 Cons.prems b(2) b1 Cons.IH [of ?b cs "n + 1" "c # acc" "out @ [c]"] by simp
  qed
qed

text \<open>
  Claim C34. The keyboard driver sends exactly the characters of the keys pressed, in order: each the character of its
  key, in upper case or shifted when the last event of a shift key was a press, and with its case inverted when caps lock
  has been pressed an odd number of times. A line read from those characters is the line with its backspaces carried
  out; its buffer is never overrun, however often it grows, and what follows the newline stays for the next line.
\<close>

theorem typed_line:
  assumes "answers_within fuel ready" and "\<forall>c\<in>set codes. code_ok c" and "length (typed codes) < 2 ^ 31"
  shows "\<exists>ev kb. kb_run fuel ready codes (kbd_new held) = Inr (ev, kb) \<and> sent ev = typed codes \<and>
    getline (sent ev) =
      Inr (map_option (\<lambda>(l, rest). (line_string l, echo 0 (typed codes), rest)) (edit [] (typed codes)))"
proof -
  obtain ev kb where "kb_run fuel ready codes (kbd_new held) = Inr (ev, kb)" "sent ev = typed codes"
    using kb_run_correct [OF assms(1,2)] by blast
  moreover have "getline (typed codes) =
      Inr (map_option (\<lambda>(l, rest). (line_string l, echo 0 (typed codes), rest)) (edit [] (typed codes)))"
    using getline_loop_edits [of "new_chars 8" 8 0 "[]" "typed codes" "[]"] assms(3) by (simp add: getline_def new_chars_def)
  ultimately show ?thesis by simp
qed

text \<open>Shift, l, shift released, s, backspace, caps lock, s, Enter.\<close>

theorem typed_line_witness:
  "\<exists>ev kb. kb_run 1 (\<lambda>_. 0) [42, 38, 170, 31, 159, 14, 58, 31, 28] (kbd_new (replicate 16 0)) = Inr (ev, kb) \<and>
     getline (sent ev) = Inr (Some (line_string [76, 83], [76, 115, 8, 32, 8, 83, 10], []))"
proof -
  have t: "typed [42, 38, 170, 31, 159, 14, 58, 31, 28] = [76, 115, 8, 83, 10]"
    by (simp add: typed_def typed_at_def types_char_def is_press_def shift_held_def is_shift_def caps_on_def upt_rec
        keyboard_us_def shiftCharacter_def capslockInvert_def Let_def)
  show ?thesis using typed_line [of 1 "\<lambda>_. 0" "[42, 38, 170, 31, 159, 14, 58, 31, 28]" "replicate 16 0", unfolded t]
    by (auto simp: answers_within_def code_ok_def is_press_def)
qed

end
