(* ===== verification/UserProc.thy ===== *)
theory UserProc
  imports UserFS StdString Dispatch
begin

text \<open>
  \<^verbatim>\<open>src/user/proc.cpp\<close>, \<^verbatim>\<open>src/user/time.cpp\<close> and \<^verbatim>\<open>src/user/cpp.cpp\<close>: starting a program from a file, sleeping,
  and the end of a process; and \<^verbatim>\<open>src/packages/init/main.cpp\<close>, which starts the services. What a program asks of the
  kernel for a new process is a list of calls, which \<open>run_task_call\<close> carries out on the kernel.
\<close>

section \<open>Starting a program\<close>

record bootstrap_options =
  bo_mmap :: "(u32 \<times> u32) list"
  bo_privs :: "u32 list"
  bo_iobits :: "u16 list"

definition bootstrap_options_new :: bootstrap_options where
  "bootstrap_options_new = \<lparr>bo_mmap = [], bo_privs = [], bo_iobits = []\<rparr>"

text \<open>Calls on the process that \<open>spawn\<close> made. The kernel takes a privilege as 16 bits.\<close>

datatype task_call =
    MapPhysicalMem u32 u32 u32 bool
  | GrantPrivilege u16
  | GrantIOPriv u16
  | BeginExecution

record program =
  pr_name :: bytes
  pr_image :: bytes
  pr_argv :: "bytes list"
  pr_calls :: "task_call list"

fun dup_args :: "(nat \<Rightarrow> bytes) \<Rightarrow> std_string list \<Rightarrow> bytes list result" where
  "dup_args fresh [] = Inr []"
| "dup_args fresh (a # args) =
     (case st_str a of
        None \<Rightarrow> Inl NullDeref
      | Some s \<Rightarrow> rbind (strdup fresh s) (\<lambda>d. rbind (dup_args fresh args) (\<lambda>ds. Inr (d # ds))))"

definition option_calls :: "bootstrap_options \<Rightarrow> task_call list" where
  "option_calls opts =
     map (\<lambda>(virt, phys). MapPhysicalMem virt virt phys False) (bo_mmap opts) @
     map (\<lambda>p. GrantPrivilege (ucast p)) (bo_privs opts) @
     map GrantIOPriv (bo_iobits opts)"

definition bootstrap ::
  "'s fs_call \<Rightarrow> (nat \<Rightarrow> bytes) \<Rightarrow> vfs_node option \<Rightarrow> bytes \<Rightarrow> std_string list \<Rightarrow> bootstrap_options \<Rightarrow> 's \<Rightarrow>
     (program \<times> 's) result" where
  "bootstrap call fresh root filename args opts s =
     rbind (fopen call fresh root filename [114, 0] s) (\<lambda>(prog, s1).
     case prog of
       None \<Rightarrow> Inl (UserPanic ''!prog'')
     | Some f \<Rightarrow>
         let image_len = flen f; image = take (unat image_len) (fresh (unat image_len)) in
         rbind (fread call (Some image) image_len 1 (Some f) s1) (\<lambda>(_, _, image', s2).
         rbind (dup_args fresh args) (\<lambda>argv.
         Inr (\<lparr>pr_name = filename, pr_image = the image', pr_argv = argv,
                pr_calls = option_calls opts @ [BeginExecution]\<rparr>, s2))))"

section \<open>The calls in the kernel\<close>

definition run_task_call :: "u32 \<Rightarrow> task_call \<Rightarrow> machine \<Rightarrow> machine result" where
  "run_task_call pid c mc =
     (case c of
        MapPhysicalMem virt_from virt_to phys w \<Rightarrow> rbind (mapPhysicalMem pid virt_from virt_to phys w mc) (\<lambda>(_, mc1). Inr mc1)
      | GrantPrivilege p \<Rightarrow>
          rbind (user_grantPrivilege pid p (mc_kernel mc)) (\<lambda>(_, k). Inr (mc\<lparr>mc_kernel := k\<rparr>))
      | GrantIOPriv port \<Rightarrow>
          rbind (user_grantIOPriv pid port (mc_kernel mc)) (\<lambda>(_, k). Inr (mc\<lparr>mc_kernel := k\<rparr>))
      | BeginExecution \<Rightarrow> Inr (mc\<lparr>mc_kernel := snd (beginExecution pid (mc_kernel mc))\<rparr>))"

definition run_task_calls :: "u32 \<Rightarrow> task_call list \<Rightarrow> machine \<Rightarrow> machine result" where
  "run_task_calls pid = for_each (run_task_call pid)"

section \<open>init\<close>

datatype init_event =
    Launch program
  | RegisterName u32 string
  | AwaitDriversUp u32

text \<open>The options of the services; \<open>mmap\<close> gets the first page and the BIOS area, in order.\<close>

definition acpi_options :: bootstrap_options where
  "acpi_options = \<lparr>bo_mmap = (0, 0) # map (\<lambda>i. (i, i)) (map (\<lambda>n. 0xE0000 + of_nat n * 0x1000) [0..<32]),
     bo_privs = map of_nat [PRIV_PHYSADDR, PRIV_GRANT_PRIV, PRIV_POWER_MGMT], bo_iobits = []\<rparr>"

definition pci_options :: bootstrap_options where
  "pci_options = \<lparr>bo_mmap = [], bo_privs = [of_nat PRIV_GRANT_PRIV],
     bo_iobits = [0xCF8, 0xCF9, 0xCFA, 0xCFB, 0xCFC, 0xCFD, 0xCFE, 0xCFF]\<rparr>"

definition keyboard_options :: bootstrap_options where
  "keyboard_options = \<lparr>bo_mmap = [], bo_privs = [of_nat PRIV_IRQ], bo_iobits = [0x60, 0x64]\<rparr>"

text \<open>\<open>main\<close>, given the pids that \<open>spawn\<close> returns for the services.\<close>

definition init_main ::
  "'s fs_call \<Rightarrow> (nat \<Rightarrow> bytes) \<Rightarrow> vfs_node option \<Rightarrow> u32 \<Rightarrow> u32 \<Rightarrow> u32 \<Rightarrow> 's \<Rightarrow> (init_event list \<times> 's) result" where
  "init_main call fresh root acpi pci keyboard s =
     rbind (bootstrap call fresh root (cstr ''/sys/services/acpi'') [] acpi_options s) (\<lambda>(p1, s1).
     rbind (bootstrap call fresh root (cstr ''/sys/services/pci'') [] pci_options s1) (\<lambda>(p2, s2).
     rbind (bootstrap call fresh root (cstr ''/sys/services/keyboard'') [] keyboard_options s2) (\<lambda>(p3, s3).
     rbind (bootstrap call fresh root (cstr ''/bin/sh'') [] bootstrap_options_new s3) (\<lambda>(p4, s4).
     Inr ([Launch p1, RegisterName acpi ''system.bus.acpi'', Launch p2, RegisterName pci ''system.bus.pci'',
           AwaitDriversUp pci, Launch p3, RegisterName keyboard ''system.io.keyboard'', Launch p4], s4)))))"

section \<open>Sleeping\<close>

definition usleep :: "u32 \<Rightarrow> kernel \<Rightarrow> (u32 \<times> kernel) result" where
  "usleep usecs k = user_nanosleep (usecs div 1000000) ((usecs mod 1000000) * 1000) False k"

definition sleep_seconds :: "u32 \<Rightarrow> kernel \<Rightarrow> (u32 \<times> kernel) result" where
  "sleep_seconds seconds k = user_nanosleep seconds 0 True k"

section \<open>The end of a process\<close>

text \<open>Handlers in the order of registration, and the order in which \<open>exit\<close> calls them.\<close>

definition cxa_atexit :: "'f \<Rightarrow> u32 \<Rightarrow> u32 \<Rightarrow> 'f list \<Rightarrow> (u32 \<times> 'f list) result" where
  "cxa_atexit f arg dso_handle handlers =
     (if arg \<noteq> 0 \<or> dso_handle \<noteq> 0 then Inl (UserPanic ''__cxa_atexit doesn't know how to use arg or dso_handle'')
      else Inr (0, handlers @ [f]))"

definition user_exit :: "'f list \<Rightarrow> 'f list" where
  "user_exit handlers = rev handlers"

end
