(* ===== verification/UserProcProps.thy ===== *)
theory UserProcProps
  imports UserProc FileStack LoaderProps IPCProps DispatchExamples
begin

text \<open>
  Starting a program: the image and the arguments that a program file gives, what the calls that follow do to the new
  process in the kernel, and what mapping physical memory does to the other processes.
\<close>

section \<open>Calls on a new task\<close>

lemma run_task_calls_append:
  "run_task_calls pid (cs @ cs') mc = rbind (run_task_calls pid cs mc) (run_task_calls pid cs')"
  by (simp add: run_task_calls_def for_each_append)

definition task_ready :: "u32 \<Rightarrow> tref \<Rightarrow> kernel \<Rightarrow> bool" where
  "task_ready pid t k \<longleftrightarrow> map_find (k_byPid k) pid = Some (Some t) \<and> t \<noteq> k_current k \<and>
     hasPrivilege PRIV_GRANT_PRIV (cur k) = Inr True \<and> hasPrivilege PRIV_PHYSADDR (cur k) = Inr True \<and>
     length (t_privMap (k_task k t)) = PRIV_MAP_SIZE"

text \<open>A task that gained privileges and ports and is otherwise in the same address space.\<close>

definition gained :: "task \<Rightarrow> task \<Rightarrow> nat set \<Rightarrow> u16 set \<Rightarrow> bool" where
  "gained t t' privs ports \<longleftrightarrow> t_pageDir t' = t_pageDir t \<and> length (t_privMap t') = PRIV_MAP_SIZE \<and>
     (\<forall>q < PRIV_COUNT. hasPrivilege q t' = Inr (q \<in> privs \<or> hasPrivilege q t = Inr True)) \<and>
     (\<forall>p. getIOMap p t' \<longleftrightarrow> p \<in> ports \<or> getIOMap p t)"

lemma upd_task_twice: "upd_task t (\<lambda>_. b) (upd_task t (\<lambda>_. a) k) = upd_task t (\<lambda>_. b) k"
  by (simp add: upd_task_def)

lemma gained_trans: "gained t t' P A \<Longrightarrow> gained t' t'' Q B \<Longrightarrow> gained t t'' (P \<union> Q) (A \<union> B)"
  by (auto simp: gained_def)

lemma task_ready_upd: "task_ready pid t k \<Longrightarrow> length (t_privMap t') = PRIV_MAP_SIZE \<Longrightarrow> task_ready pid t (upd_task t (\<lambda>_. t') k)"
  by (auto simp: task_ready_def)

lemma requirePrivilege_held: "hasPrivilege p (cur k) = Inr True \<Longrightarrow> p < PRIV_COUNT \<Longrightarrow> requirePrivilege p k = Inr k"
  by (simp add: requirePrivilege_def)

lemma priv_names [simp]: "PRIV_GRANT_PRIV < PRIV_COUNT" "PRIV_PHYSADDR < PRIV_COUNT"
  by (simp_all add: PRIV_GRANT_PRIV_def PRIV_PHYSADDR_def PRIV_COUNT_def)

lemma grantPrivilege_gained:
  assumes "length (t_privMap x) = PRIV_MAP_SIZE" and "p < PRIV_COUNT"
  shows "\<exists>x'. grantPrivilege p x = Inr x' \<and> gained x x' {p} {}"
proof -
  obtain x' where x': "grantPrivilege p x = Inr x'" "length (t_privMap x') = PRIV_MAP_SIZE"
    using granted [OF assms assms(2)] by auto
  have "hasPrivilege q x' = Inr (q = p \<or> hasPrivilege q x = Inr True)" if "q < PRIV_COUNT" for q
    using granted [OF assms that] x'(1) by auto
  then show ?thesis using x' assms(2)
    by (auto simp: gained_def grantPrivilege_def getIOMap_def)
qed

lemma grant_call:
  assumes "task_ready pid t (mc_kernel mc)" and "unat p < PRIV_COUNT"
  shows "\<exists>x. run_task_call pid (GrantPrivilege p) mc = Inr (mc\<lparr>mc_kernel := upd_task t (\<lambda>_. x) (mc_kernel mc)\<rparr>) \<and>
    gained (k_task (mc_kernel mc) t) x {unat p} {}"
proof -
  obtain x where "grantPrivilege (unat p) (k_task (mc_kernel mc) t) = Inr x" "gained (k_task (mc_kernel mc) t) x {unat p} {}"
    using grantPrivilege_gained [OF _ assms(2)] assms(1) by (auto simp: task_ready_def)
  then show ?thesis using assms(1) task_by_pid_found [of "mc_kernel mc" pid "Some t"] requirePrivilege_held [of PRIV_GRANT_PRIV]
    by (auto simp: run_task_call_def user_grantPrivilege_def task_ready_def)
qed

lemma port_call:
  assumes "task_ready pid t (mc_kernel mc)"
  shows "\<exists>x. run_task_call pid (GrantIOPriv p) mc = Inr (mc\<lparr>mc_kernel := upd_task t (\<lambda>_. x) (mc_kernel mc)\<rparr>) \<and>
    gained (k_task (mc_kernel mc) t) x {} {p}"
proof -
  let ?x = "k_task (mc_kernel mc) t"
  have "gained ?x (setIOMap p True ?x) {} {p}"
  proof -
    have "hasPrivilege q (setIOMap p True ?x) = hasPrivilege q ?x" for q by (simp add: hasPrivilege_def setIOMap_def Let_def)
    moreover have "q < PRIV_COUNT \<Longrightarrow> hasPrivilege q ?x = Inr (hasPrivilege q ?x = Inr True)" for q
      by (simp add: hasPrivilege_def)
    moreover have "t_pageDir (setIOMap p True ?x) = t_pageDir ?x" "t_privMap (setIOMap p True ?x) = t_privMap ?x"
      by (simp_all add: setIOMap_def Let_def)
    ultimately show ?thesis using assms by (auto simp: gained_def getIOMap_setIOMap task_ready_def)
  qed
  moreover have "upd_task t (setIOMap p True) (mc_kernel mc) = upd_task t (\<lambda>_. setIOMap p True ?x) (mc_kernel mc)"
    by (simp add: upd_task_def)
  ultimately show ?thesis using assms task_by_pid_found [of "mc_kernel mc" pid "Some t"] requirePrivilege_held [of PRIV_GRANT_PRIV]
    by (auto simp: run_task_call_def user_grantIOPriv_def task_ready_def)
qed

text \<open>Any list of calls each of which gives the task something.\<close>

lemma gaining_calls:
  assumes "\<And>c mc. c \<in> set cs \<Longrightarrow> task_ready pid t (mc_kernel mc) \<Longrightarrow>
      \<exists>x. run_task_call pid c mc = Inr (mc\<lparr>mc_kernel := upd_task t (\<lambda>_. x) (mc_kernel mc)\<rparr>) \<and>
        gained (k_task (mc_kernel mc) t) x (P c) (A c)"
    and "task_ready pid t (mc_kernel mc)"
  shows "\<exists>x. run_task_calls pid cs mc = Inr (mc\<lparr>mc_kernel := upd_task t (\<lambda>_. x) (mc_kernel mc)\<rparr>) \<and>
    gained (k_task (mc_kernel mc) t) x (\<Union>c\<in>set cs. P c) (\<Union>c\<in>set cs. A c)"
  using assms
proof (induction cs arbitrary: mc)
  case Nil
  have "upd_task t (\<lambda>_. k_task (mc_kernel mc) t) (mc_kernel mc) = mc_kernel mc" by (simp add: upd_task_def)
  moreover have "gained (k_task (mc_kernel mc) t) (k_task (mc_kernel mc) t) {} {}"
    using Nil(2) by (auto simp: gained_def task_ready_def hasPrivilege_def)
  ultimately show ?case by (auto simp: run_task_calls_def intro!: exI [of _ "k_task (mc_kernel mc) t"])
next
  case (Cons c cs)
  obtain x where x: "run_task_call pid c mc = Inr (mc\<lparr>mc_kernel := upd_task t (\<lambda>_. x) (mc_kernel mc)\<rparr>)"
    "gained (k_task (mc_kernel mc) t) x (P c) (A c)" using Cons.prems by auto
  let ?mc = "mc\<lparr>mc_kernel := upd_task t (\<lambda>_. x) (mc_kernel mc)\<rparr>"
  have "task_ready pid t (mc_kernel ?mc)" using task_ready_upd [OF Cons.prems(2)] x(2) by (simp add: gained_def)
  then obtain y where "run_task_calls pid cs ?mc = Inr (?mc\<lparr>mc_kernel := upd_task t (\<lambda>_. y) (mc_kernel ?mc)\<rparr>)"
    "gained (k_task (mc_kernel ?mc) t) y (\<Union>c\<in>set cs. P c) (\<Union>c\<in>set cs. A c)"
    using Cons.IH [of ?mc] Cons.prems(1) by auto
  moreover from this have "gained (k_task (mc_kernel mc) t) y (P c \<union> (\<Union>c\<in>set cs. P c)) (A c \<union> (\<Union>c\<in>set cs. A c))"
    using gained_trans [OF x(2)] by simp
  ultimately show ?case using x(1) by (auto simp: run_task_calls_def upd_task_twice)
qed

section \<open>Mapping\<close>

lemma map_pages_one:
  assumes "v < 0xFFFFF000" and "lookup_page d v m = Some p"
  shows "map_pages (Suc (Suc n)) d v v ph w m =
    Inr (upd_page p (\<lambda>pg. pg\<lparr>pg_present := True, pg_readwrite := w, pg_user := True, pg_pageAddress := ucast (ph div 0x1000)\<rparr>) m)"
proof -
  have "unat v < 4294963200" using assms(1) by (simp add: word_less_nat_alt)
  then have "unat (v + 0x1000) = unat v + 4096" by (simp add: unat_add_nowrap)
  then have "\<not> v + 0x1000 \<le> v" by (simp add: word_le_nat_alt)
  moreover have "getPage_make d v m = Inr (p, m)"
    using assms(2) by (auto simp: lookup_page_def getPage_make_def getPage_def Let_def)
  ultimately show ?thesis by simp
qed

lemma map_call:
  assumes "task_ready pid t (mc_kernel mc)" and "v < 0xFFFFF000"
    and "lookup_page (t_pageDir (k_task (mc_kernel mc) t)) v (mc_memory mc) = Some p"
  shows "run_task_call pid (MapPhysicalMem v v ph w) mc = Inr (mc\<lparr>mc_memory := upd_page p (\<lambda>pg. pg\<lparr>pg_present := True,
    pg_readwrite := w, pg_user := True, pg_pageAddress := ucast (ph div 0x1000)\<rparr>) (mc_memory mc)\<rparr>)"
proof -
  have "(2 :: nat) ^ 20 = Suc 1048575" by simp
  then have "map_pages (Suc (2 ^ 20)) (t_pageDir (k_task (mc_kernel mc) t)) v v ph w (mc_memory mc) =
      Inr (upd_page p (\<lambda>pg. pg\<lparr>pg_present := True, pg_readwrite := w, pg_user := True,
        pg_pageAddress := ucast (ph div 0x1000)\<rparr>) (mc_memory mc))"
    using map_pages_one [OF assms(2,3)] by (simp only:)
  then show ?thesis using assms(1) task_by_pid_found [of "mc_kernel mc" pid "Some t"]
      requirePrivilege_held [of PRIV_GRANT_PRIV] requirePrivilege_held [of PRIV_PHYSADDR]
    by (auto simp: run_task_call_def mapPhysicalMem_def task_ready_def)
qed

definition mapped_at :: "nat \<Rightarrow> u32 \<Rightarrow> u32 \<Rightarrow> memory \<Rightarrow> bool" where
  "mapped_at d v ph m \<longleftrightarrow> (\<exists>p. lookup_page d v m = Some p \<and> pg_present (page_at p m) \<and> pg_user (page_at p m) \<and>
     \<not> pg_readwrite (page_at p m) \<and> pg_pageAddress (page_at p m) = ucast (ph div 0x1000))"

lemma map_calls:
  assumes "task_ready pid t (mc_kernel mc)" and "\<forall>(v, ph) \<in> set maps. v < 0xFFFFF000 \<and>
      lookup_page (t_pageDir (k_task (mc_kernel mc) t)) v (mc_memory mc) \<noteq> None"
    and "distinct (map (\<lambda>(v, ph). lookup_page (t_pageDir (k_task (mc_kernel mc) t)) v (mc_memory mc)) maps)"
  shows "\<exists>m. run_task_calls pid (map (\<lambda>(v, ph). MapPhysicalMem v v ph False) maps) mc = Inr (mc\<lparr>mc_memory := m\<rparr>) \<and>
    (\<forall>d v. lookup_page d v m = lookup_page d v (mc_memory mc)) \<and>
    (\<forall>(v, ph) \<in> set maps. mapped_at (t_pageDir (k_task (mc_kernel mc) t)) v ph m) \<and>
    (\<forall>p. Some p \<notin> (\<lambda>(v, ph). lookup_page (t_pageDir (k_task (mc_kernel mc) t)) v (mc_memory mc)) ` set maps \<longrightarrow>
      page_at p m = page_at p (mc_memory mc))"
  using assms
proof (induction maps arbitrary: mc)
  case Nil
  have "mc\<lparr>mc_memory := mc_memory mc\<rparr> = mc" by simp
  then show ?case by (auto simp: run_task_calls_def intro!: exI [of _ "mc_memory mc"])
next
  case (Cons x maps)
  obtain v ph where x: "x = (v, ph)" by (cases x)
  let ?d = "t_pageDir (k_task (mc_kernel mc) t)"
  obtain p where p: "lookup_page ?d v (mc_memory mc) = Some p" using Cons.prems(2) x by auto
  define m1 where "m1 = upd_page p (\<lambda>pg. pg\<lparr>pg_present := True, pg_readwrite := False, pg_user := True,
      pg_pageAddress := ucast (ph div 0x1000)\<rparr>) (mc_memory mc)"
  have step: "run_task_call pid (MapPhysicalMem v v ph False) mc = Inr (mc\<lparr>mc_memory := m1\<rparr>)"
    unfolding m1_def using Cons.prems(1,2) x p by (intro map_call) auto
  have look: "lookup_page d a m1 = lookup_page d a (mc_memory mc)" for d a by (simp add: m1_def)
  have "\<exists>m. run_task_calls pid (map (\<lambda>(v, ph). MapPhysicalMem v v ph False) maps) (mc\<lparr>mc_memory := m1\<rparr>) =
        Inr ((mc\<lparr>mc_memory := m1\<rparr>)\<lparr>mc_memory := m\<rparr>) \<and>
      (\<forall>d v. lookup_page d v m = lookup_page d v m1) \<and> (\<forall>(v, ph) \<in> set maps. mapped_at ?d v ph m) \<and>
      (\<forall>q. Some q \<notin> (\<lambda>(v, ph). lookup_page ?d v m1) ` set maps \<longrightarrow> page_at q m = page_at q m1)"
    using Cons.IH [of "mc\<lparr>mc_memory := m1\<rparr>"] Cons.prems by (simp add: look split_def)
  then obtain m where m: "run_task_calls pid (map (\<lambda>(v, ph). MapPhysicalMem v v ph False) maps) (mc\<lparr>mc_memory := m1\<rparr>) =
        Inr (mc\<lparr>mc_memory := m\<rparr>)" "\<And>d v. lookup_page d v m = lookup_page d v (mc_memory mc)"
      "\<forall>(v, ph) \<in> set maps. mapped_at ?d v ph m"
      "\<And>q. Some q \<notin> (\<lambda>(v, ph). lookup_page ?d v (mc_memory mc)) ` set maps \<Longrightarrow> page_at q m = page_at q m1"
    by (auto simp: look)
  have "Some p \<notin> (\<lambda>(v, ph). lookup_page ?d v (mc_memory mc)) ` set maps" using Cons.prems(3) x p by auto
  then have "page_at p m = page_at p m1" by (rule m(4))
  then have "mapped_at ?d v ph m" using p m(2) by (auto simp: mapped_at_def m1_def page_at_upd)
  moreover have "page_at q m = page_at q (mc_memory mc)"
    if "Some q \<notin> (\<lambda>(v, ph). lookup_page ?d v (mc_memory mc)) ` set (x # maps)" for q
    using that m(4) [of q] x p by (auto simp: m1_def page_at_upd)
  ultimately show ?case using step m x by (auto simp: run_task_calls_def intro!: exI [of _ m])
qed

section \<open>What a new process gets\<close>

lemma setting_calls:
  assumes "task_ready pid t (mc_kernel mc)" and "\<forall>p \<in> set privs. unat p < PRIV_COUNT"
  shows "\<exists>x. run_task_calls pid (map GrantPrivilege privs @ map GrantIOPriv ports) mc =
      Inr (mc\<lparr>mc_kernel := upd_task t (\<lambda>_. x) (mc_kernel mc)\<rparr>) \<and>
    gained (k_task (mc_kernel mc) t) x (unat ` set privs) (set ports)"
proof -
  let ?P = "\<lambda>c. case c of GrantPrivilege p \<Rightarrow> {unat p} | _ \<Rightarrow> {}" and ?A = "\<lambda>c. case c of GrantIOPriv p \<Rightarrow> {p} | _ \<Rightarrow> {}"
  let ?cs = "map GrantPrivilege privs @ map GrantIOPriv ports"
  have "\<exists>x. run_task_call pid c mc = Inr (mc\<lparr>mc_kernel := upd_task t (\<lambda>_. x) (mc_kernel mc)\<rparr>) \<and>
      gained (k_task (mc_kernel mc) t) x (?P c) (?A c)" if "c \<in> set ?cs" "task_ready pid t (mc_kernel mc)" for c mc
    using that assms(2) grant_call [of pid t mc] port_call [of pid t mc] by auto
  moreover have "(\<Union>c\<in>set ?cs. ?P c) = unat ` set privs" "(\<Union>c\<in>set ?cs. ?A c) = set ports" by auto
  ultimately show ?thesis using gaining_calls [of ?cs pid t ?P ?A mc] assms(1) by simp
qed

text \<open>
  Claim C37. The calls by which a program starts another one with its options, made by a process that may grant privileges and
  map physical memory: the new process has the privileges and the I/O ports it is given and those it had, and no
  other; each page of the list is mapped, readable and not writable, at its physical address in the new process; no
  other task changes; and the new process is the first of the task list, before those that were there.
\<close>

theorem bootstrap_calls_configure:
  assumes "task_ready pid t (mc_kernel mc)" and "\<forall>p \<in> set (bo_privs opts). unat (ucast p :: u16) < PRIV_COUNT"
    and "\<forall>(v, ph) \<in> set (bo_mmap opts). v < 0xFFFFF000 \<and> lookup_page (t_pageDir (k_task (mc_kernel mc) t)) v (mc_memory mc) \<noteq> None"
    and "distinct (map (\<lambda>(v, ph). lookup_page (t_pageDir (k_task (mc_kernel mc) t)) v (mc_memory mc)) (bo_mmap opts))"
  shows "\<exists>mc'. run_task_calls pid (option_calls opts @ [BeginExecution]) mc = Inr mc' \<and>
    (\<forall>q < PRIV_COUNT. hasPrivilege q (k_task (mc_kernel mc') t) =
       Inr (q \<in> (\<lambda>p. unat (ucast p :: u16)) ` set (bo_privs opts) \<or> hasPrivilege q (k_task (mc_kernel mc) t) = Inr True)) \<and>
    (\<forall>p. getIOMap p (k_task (mc_kernel mc') t) \<longleftrightarrow> p \<in> set (bo_iobits opts) \<or> getIOMap p (k_task (mc_kernel mc) t)) \<and>
    (\<forall>(v, ph) \<in> set (bo_mmap opts). mapped_at (t_pageDir (k_task (mc_kernel mc') t)) v ph (mc_memory mc')) \<and>
    (\<forall>u. u \<noteq> t \<longrightarrow> k_task (mc_kernel mc') u = k_task (mc_kernel mc) u) \<and>
    k_start (mc_kernel mc') = Some t \<and> t_next (k_task (mc_kernel mc') t) = k_start (mc_kernel mc)"
proof -
  let ?k = "mc_kernel mc"
  obtain m where m: "run_task_calls pid (map (\<lambda>(v, ph). MapPhysicalMem v v ph False) (bo_mmap opts)) mc = Inr (mc\<lparr>mc_memory := m\<rparr>)"
    "\<forall>(v, ph) \<in> set (bo_mmap opts). mapped_at (t_pageDir (k_task ?k t)) v ph m"
    using map_calls [OF assms(1,3,4)] by blast
  let ?privs = "map ucast (bo_privs opts) :: u16 list"
  have "task_ready pid t (mc_kernel (mc\<lparr>mc_memory := m\<rparr>))" "\<forall>p \<in> set ?privs. unat p < PRIV_COUNT" using assms(1,2) by auto
  from setting_calls [OF this, of "bo_iobits opts"] obtain x where
    x: "run_task_calls pid (map GrantPrivilege ?privs @ map GrantIOPriv (bo_iobits opts)) (mc\<lparr>mc_memory := m\<rparr>) =
        Inr (mc\<lparr>mc_memory := m, mc_kernel := upd_task t (\<lambda>_. x) ?k\<rparr>)"
      "gained (k_task ?k t) x (unat ` set ?privs) (set (bo_iobits opts))" by auto
  let ?k1 = "upd_task t (\<lambda>_. x) ?k"
  have "task_ready pid t ?k1" using task_ready_upd [OF assms(1)] x(2) by (simp add: gained_def)
  then have "task_by_pid pid ?k1 = (Some t, ?k1)" by (intro task_by_pid_found) (simp add: task_ready_def)
  then have start: "run_task_call pid BeginExecution (mc\<lparr>mc_memory := m, mc_kernel := ?k1\<rparr>) =
      Inr (mc\<lparr>mc_memory := m, mc_kernel := (upd_task t (\<lambda>y. y\<lparr>t_next := k_start ?k1\<rparr>) ?k1)\<lparr>k_start := Some t\<rparr>\<rparr>)"
    by (simp add: run_task_call_def beginExecution_def)
  have calls: "option_calls opts @ [BeginExecution] = map (\<lambda>(v, ph). MapPhysicalMem v v ph False) (bo_mmap opts) @
      ((map GrantPrivilege ?privs @ map GrantIOPriv (bo_iobits opts)) @ [BeginExecution])"
    by (simp add: option_calls_def)
  have "run_task_calls pid (option_calls opts @ [BeginExecution]) mc =
      Inr (mc\<lparr>mc_memory := m, mc_kernel := (upd_task t (\<lambda>y. y\<lparr>t_next := k_start ?k1\<rparr>) ?k1)\<lparr>k_start := Some t\<rparr>\<rparr>)"
    unfolding calls run_task_calls_append [of pid "map (\<lambda>(v, ph). MapPhysicalMem v v ph False) (bo_mmap opts)"]
      run_task_calls_append [of pid "map GrantPrivilege ?privs @ map GrantIOPriv (bo_iobits opts)"] m(1) rbind_Inr x(1)
    using start by (simp add: run_task_calls_def)
  moreover have "hasPrivilege q (x\<lparr>t_next := n\<rparr>) = hasPrivilege q x" "getIOMap p (x\<lparr>t_next := n\<rparr>) = getIOMap p x" for q p n
    by (simp_all add: hasPrivilege_def getIOMap_def)
  ultimately show ?thesis using x(2) m(2) by (auto simp: gained_def image_image)
qed

text \<open>
  The pages that a process is given by \<open>mapPhysicalMem\<close> are given to every address space that has the same page at
  the same place: in each of them every address of the range leads, for user code too, to its physical page. The directory
  of a process has the tables of the kernel below the image, so this is every process there.
\<close>

lemma map_pages_range:
  assumes "unat v + 4096 * n < 0xFFFFF000" and "\<forall>i\<le>n. lookup_page d (v + of_nat (4096 * i)) m = Some (q i)"
    and "inj_on q {..n}" and "n + 2 \<le> fuel"
  shows "\<exists>m'. map_pages fuel d v (v + of_nat (4096 * n)) ph w m = Inr m' \<and>
    (\<forall>d a. lookup_page d a m' = lookup_page d a m) \<and>
    (\<forall>i\<le>n. page_at (q i) m' = (page_at (q i) m)\<lparr>pg_present := True, pg_readwrite := w, pg_user := True,
        pg_pageAddress := ucast ((ph + of_nat (4096 * i)) div 0x1000)\<rparr>) \<and>
    (\<forall>p. p \<notin> q ` {..n} \<longrightarrow> page_at p m' = page_at p m)"
  using assms
proof (induction n arbitrary: v ph m q fuel)
  case 0
  define f where "f = fuel - 2"
  have f: "fuel = Suc (Suc f)" using 0(4) by (simp add: f_def)
  have "v < 0xFFFFF000" using 0(1) by (simp add: word_less_nat_alt)
  moreover have "lookup_page d v m = Some (q 0)" using 0(2) by simp
  ultimately have "map_pages fuel d v v ph w m = Inr (upd_page (q 0) (\<lambda>pg. pg\<lparr>pg_present := True, pg_readwrite := w,
      pg_user := True, pg_pageAddress := ucast (ph div 0x1000)\<rparr>) m)"
    unfolding f by (rule map_pages_one)
  then show ?case by (simp add: page_at_upd del: map_pages.simps)
next
  case (Suc n)
  obtain f where f: "fuel = Suc f" "n + 2 \<le> f" using Suc.prems(4) by (cases fuel) auto
  let ?m = "upd_page (q 0) (\<lambda>pg. pg\<lparr>pg_present := True, pg_readwrite := w, pg_user := True,
      pg_pageAddress := ucast (ph div 0x1000)\<rparr>) m"
  have next_page: "unat (v + 0x1000) = unat v + 4096" using Suc.prems(1) by (simp add: unat_add_nowrap)
  have shift: "x + 0x1000 + of_nat (4096 * i) = x + of_nat (4096 * Suc i)" for x :: u32 and i by simp
  have at: "lookup_page d (v + 0x1000 + of_nat (4096 * i)) ?m = Some (q (Suc i))" if "i \<le> n" for i
    using Suc.prems(2) that unfolding shift by auto
  have "inj_on (q \<circ> Suc) {..n}" using Suc.prems(3) by (auto simp: inj_on_def)
  with Suc.IH [of "v + 0x1000" ?m "q \<circ> Suc" f "ph + 0x1000"] Suc.prems(1) next_page at f(2)
  obtain m' where m': "map_pages f d (v + 0x1000) (v + of_nat (4096 * Suc n)) (ph + 0x1000) w ?m = Inr m'"
    "\<forall>d a. lookup_page d a m' = lookup_page d a ?m"
    "\<forall>i\<le>n. page_at (q (Suc i)) m' = (page_at (q (Suc i)) ?m)\<lparr>pg_present := True, pg_readwrite := w, pg_user := True,
        pg_pageAddress := ucast ((ph + of_nat (4096 * Suc i)) div 0x1000)\<rparr>"
    "\<forall>p. p \<notin> (\<lambda>i. q (Suc i)) ` {..n} \<longrightarrow> page_at p m' = page_at p ?m"
    unfolding shift by (auto simp: o_def)
  have q: "q (Suc i) \<noteq> q 0" if "i \<le> n" for i using Suc.prems(3) that by (auto simp: inj_on_def)
  have "v \<le> v + of_nat k" if "unat v + k < 2 ^ 32" for k
  proof -
    have "unat (of_nat k :: u32) = k" using that by (simp add: unat_of_nat take_bit_nat_eq_self)
    then show ?thesis using that by (simp add: word_le_nat_alt unat_add_nowrap)
  qed
  from this [of "4096 * Suc n"] have "v \<le> v + of_nat (4096 * Suc n)" using Suc.prems(1) by simp
  moreover have "getPage_make d v m = Inr (q 0, m)" using Suc.prems(2)
    by (auto simp: lookup_page_def getPage_make_def getPage_def Let_def dest!: spec [of _ 0])
  ultimately have "map_pages fuel d v (v + of_nat (4096 * Suc n)) ph w m = Inr m'" using m'(1) f(1) by simp
  moreover have "page_at (q i) m' = (page_at (q i) m)\<lparr>pg_present := True, pg_readwrite := w, pg_user := True,
        pg_pageAddress := ucast ((ph + of_nat (4096 * i)) div 0x1000)\<rparr>" if "i \<le> Suc n" for i
  proof (cases i)
    case 0
    then have "q i \<notin> (\<lambda>i. q (Suc i)) ` {..n}" using q by fastforce
    then have "page_at (q i) m' = page_at (q i) ?m" using m'(4) by blast
    then show ?thesis using 0 by (simp add: page_at_upd)
  next
    case (Suc j)
    then show ?thesis using m'(3) that q [of j] by (simp add: page_at_upd)
  qed
  moreover have "page_at p m' = page_at p m" if "p \<notin> q ` {..Suc n}" for p
  proof -
    from that have "p \<notin> (\<lambda>i. q (Suc i)) ` {..n}" "p \<noteq> q 0" by auto
    then have "page_at p m' = page_at p ?m" using m'(4) by blast
    then show ?thesis using \<open>p \<noteq> q 0\<close> by (simp add: page_at_upd)
  qed
  ultimately show ?case using m'(2) by auto
qed

lemma mapPhysicalMem_shared_range:
  assumes "task_ready pid t (mc_kernel mc)" and "unat v + 4096 * n < 0xFFFFF000" and "inj_on q {..n}"
    and "\<forall>i\<le>n. lookup_page (t_pageDir (k_task (mc_kernel mc) t)) (v + of_nat (4096 * i)) (mc_memory mc) = Some (q i)"
  shows "\<exists>m. mapPhysicalMem pid v (v + of_nat (4096 * n)) ph False mc = Inr (True, mc\<lparr>mc_memory := m\<rparr>) \<and>
    (\<forall>d. \<forall>i\<le>n. lookup_page d (v + of_nat (4096 * i)) (mc_memory mc) = Some (q i) \<longrightarrow>
       mapped_at d (v + of_nat (4096 * i)) (ph + of_nat (4096 * i)) m)"
proof -
  have "n + 2 \<le> Suc (2 ^ 20)" using assms(2) by simp
  from map_pages_range [OF assms(2,4,3) this, of ph False]
  obtain m where m: "map_pages (Suc (2 ^ 20)) (t_pageDir (k_task (mc_kernel mc) t)) v (v + of_nat (4096 * n)) ph False (mc_memory mc) = Inr m"
    "\<forall>d a. lookup_page d a m = lookup_page d a (mc_memory mc)"
    "\<forall>i\<le>n. page_at (q i) m = (page_at (q i) (mc_memory mc))\<lparr>pg_present := True, pg_readwrite := False, pg_user := True,
        pg_pageAddress := ucast ((ph + of_nat (4096 * i)) div 0x1000)\<rparr>" by blast
  have "mapPhysicalMem pid v (v + of_nat (4096 * n)) ph False mc = Inr (True, mc\<lparr>mc_memory := m\<rparr>)"
    using assms(1) m(1) task_by_pid_found [of "mc_kernel mc" pid "Some t"]
      requirePrivilege_held [of PRIV_GRANT_PRIV] requirePrivilege_held [of PRIV_PHYSADDR]
    by (auto simp: mapPhysicalMem_def task_ready_def simp del: map_pages.simps)
  moreover have "mapped_at d (v + of_nat (4096 * i)) (ph + of_nat (4096 * i)) m"
    if "i \<le> n" "lookup_page d (v + of_nat (4096 * i)) (mc_memory mc) = Some (q i)" for d i
    unfolding mapped_at_def using m(2,3) that by (intro exI [of _ "q i"]) simp
  ultimately show ?thesis by blast
qed

section \<open>The program that is started\<close>

lemma dup_args_ok:
  assumes "\<forall>n. n \<le> length (fr n)" and "list_all2 (\<lambda>a t. \<exists>s. st_str a = Some s \<and> cstring s t \<and> length t < 2 ^ 32 - 1) args ts"
  shows "\<exists>ds. dup_args fr args = Inr ds \<and> list_all2 cstring ds ts"
  using assms(2)
proof (induction rule: list_all2_induct)
  case (Cons a args t ts)
  from Cons(1) obtain s where s: "st_str a = Some s" "cstring s t" "length t < 4294967295" by auto
  have "unat (of_nat (length t) :: u32) = length t" using s(3) by (simp add: unat_of_nat take_bit_nat_eq_self)
  moreover have "length t < length (fr (length t + 1))" using assms(1) [rule_format, of "length t + 1"] by simp
  ultimately have "strdup fr s = Inr (t @ 0 # drop (Suc (length t)) (fr (length t + 1)))"
    using s strlen_cstring [OF s(2)] strcpy_cstring [OF s(2), of "fr (length t + 1)"] by (simp add: strdup_def)
  moreover have "cstring (t @ 0 # drop (Suc (length t)) (fr (length t + 1))) t" using s(2) by (auto simp: cstring_def)
  ultimately show ?case using s(1) Cons.IH by auto
qed simp


section \<open>Examples\<close>

definition granting :: machine where
  "granting = machine_of (upd_cur (\<lambda>t. t\<lparr>t_privMap := [0x11]\<rparr>) demo_kernel)"

definition some_options :: bootstrap_options where
  "some_options = \<lparr>bo_mmap = [(0xC0001000, 0x3000)], bo_privs = [2], bo_iobits = [0x60, 0x64]\<rparr>"

lemma granting_fields:
  "k_task (mc_kernel granting) 0 = blank_task\<lparr>t_id := 1, t_next := Some 1, t_ks := 0x1000\<rparr>"
  "lookup_page 0 0xC0001000 (mc_memory granting) = Some (0, 1)" "t_pageDir blank_task = 0"
  by (simp_all add: granting_def machine_of_def demo_defs lookup_page_def demo_memory_def)

lemma granting_ready: "task_ready 1 0 (mc_kernel granting)"
proof -
  have "cur (mc_kernel granting) = (k_task demo_kernel 1)\<lparr>t_privMap := [0x11]\<rparr>"
    by (simp add: granting_def machine_of_def upd_cur_def demo_defs)
  then show ?thesis
    by (simp add: task_ready_def granting_fields(1))
      (simp add: granting_def machine_of_def demo_defs hasPrivilege_def PRIV_GRANT_PRIV_def PRIV_PHYSADDR_def PRIV_COUNT_def
        PRIV_MAP_SIZE_def)
qed

theorem bootstrap_calls_configure_witness:
  "\<exists>mc'. run_task_calls 1 (option_calls some_options @ [BeginExecution]) granting = Inr mc' \<and>
     hasPrivilege 2 (k_task (mc_kernel mc') 0) = Inr True \<and> getIOMap 0x64 (k_task (mc_kernel mc') 0) \<and>
     k_start (mc_kernel mc') = Some 0"
proof -
  have "2 < PRIV_COUNT" by (simp add: PRIV_COUNT_def)
  then show ?thesis
    using bootstrap_calls_configure [OF granting_ready, of some_options]
    by (auto simp: some_options_def granting_fields)
qed


end
