(* ===== verification/Pci.thy ===== *)
theory Pci
  imports UserProc Vfs Ata Printf
begin

text \<open>
  \<^verbatim>\<open>src/packages/pci/main.cpp\<close>, the PCI service: the scan of the configuration space, the requests of drivers, and
  the start of the drivers found in \<^verbatim>\<open>/sys/drivers\<close>; and the drivers \<^verbatim>\<open>src/packages/piix3/main.cpp\<close> and
  \<^verbatim>\<open>src/packages/rtl8139/main.cpp\<close>, which ask it for their device. \<open>cfg a\<close> is what the data port gives once \<open>a\<close> has
  been written to the address port. The lines the service prints are left out.
\<close>

section \<open>Configuration space\<close>

definition pci_config_cycle :: "u8 \<Rightarrow> u8 \<Rightarrow> u8 \<Rightarrow> u16 \<Rightarrow> u32" where
  "pci_config_cycle reg_num fn_num dev_num bus_num =
     push_bit 2 (ucast reg_num AND 0x3F) OR push_bit 8 (ucast fn_num AND 0x7) OR
     push_bit 11 (ucast dev_num AND 0x1F) OR push_bit 16 (ucast bus_num AND 0xFF) OR push_bit 31 1"

definition read_config_word :: "(u32 \<Rightarrow> u32) \<Rightarrow> u16 \<Rightarrow> u8 \<Rightarrow> u8 \<Rightarrow> u16 \<Rightarrow> u16" where
  "read_config_word cfg bus slot fn offset =
     ucast (drop_bit (unat ((offset AND 2) * 8))
       (cfg (pci_config_cycle (ucast (drop_bit 2 (offset AND 0xFC))) fn slot bus)) AND 0xFFFF)"

definition read_config_long :: "(u32 \<Rightarrow> u32) \<Rightarrow> u16 \<Rightarrow> u8 \<Rightarrow> u8 \<Rightarrow> u16 \<Rightarrow> u32" where
  "read_config_long cfg bus slot fn offset =
     ucast (read_config_word cfg bus slot fn offset) OR
     push_bit 16 (ucast (read_config_word cfg bus slot fn (offset + 2)))"

definition check_vendor :: "(u32 \<Rightarrow> u32) \<Rightarrow> u16 \<Rightarrow> u8 \<Rightarrow> u8 \<Rightarrow> u16" where
  "check_vendor cfg bus slot fn = read_config_word cfg bus slot fn 0"

section \<open>The devices\<close>

definition DEVICE :: "u16 \<Rightarrow> u8 \<Rightarrow> u8 \<Rightarrow> u32" where
  "DEVICE bus slot fn = push_bit 16 (ucast bus) OR push_bit 8 (ucast slot) OR ucast fn"

definition D_BUS :: "u32 \<Rightarrow> u16" where "D_BUS device = ucast (drop_bit 16 device)"
definition D_SLOT :: "u32 \<Rightarrow> u8" where "D_SLOT device = ucast (drop_bit 8 device)"
definition D_FN :: "u32 \<Rightarrow> u8" where "D_FN device = ucast device"

type_synonym device_list = "(u32 \<times> u32 list) list"

definition add_device :: "u32 \<Rightarrow> u32 \<Rightarrow> device_list \<Rightarrow> device_list" where
  "add_device venddev device devs =
     (let (dl, devs1) = map_index devs venddev [] in map_put devs1 venddev (dl @ [device]))"

fun check_fns :: "(u32 \<Rightarrow> u32) \<Rightarrow> u16 \<Rightarrow> u8 \<Rightarrow> u8 list \<Rightarrow> device_list \<Rightarrow> device_list" where
  "check_fns cfg bus slot [] devs = devs"
| "check_fns cfg bus slot (fn # fns) devs =
     (let vendor = check_vendor cfg bus slot fn in
      if fn = 0 \<and> vendor = 0xFFFF then devs
      else check_fns cfg bus slot fns
             (if vendor \<noteq> 0xFFFF
              then let device = read_config_word cfg bus slot fn 2 in
                   add_device (push_bit 16 (ucast vendor) OR ucast device) (DEVICE bus slot fn) devs
              else devs))"

definition pci_buses :: "u16 list" where "pci_buses = map of_nat [0..<256]"
definition pci_slots :: "u8 list" where "pci_slots = map of_nat [0..<32]"
definition pci_fns :: "u8 list" where "pci_fns = map of_nat [0..<8]"

definition check_all_devices :: "(u32 \<Rightarrow> u32) \<Rightarrow> device_list \<Rightarrow> device_list" where
  "check_all_devices cfg devs =
     fold (\<lambda>bus. fold (\<lambda>slot. check_fns cfg bus slot pci_fns) pci_slots) pci_buses devs"

section \<open>Drivers\<close>

definition known_harddisk_drivers :: "(bytes \<times> u16 \<times> u16) list" where
  "known_harddisk_drivers = [(cstr ''piix3'', 0x8086, 0x7010)]"

definition driver_file :: "bytes \<Rightarrow> bytes option result" where
  "driver_file name = rasprintf (cstr ''/sys/drivers/%s'') [ArgS (Some name)]"

text \<open>A path for the functions of the library; a null one would be dereferenced.\<close>

definition with_path :: "bytes option \<Rightarrow> (bytes \<Rightarrow> 'a result) \<Rightarrow> 'a result" where
  "with_path p f = (case p of None \<Rightarrow> Inl NullDeref | Some b \<Rightarrow> f b)"

fun check_hds_loop ::
  "'s fs_call \<Rightarrow> (nat \<Rightarrow> bytes) \<Rightarrow> vfs_node option \<Rightarrow> (bytes \<times> u16 \<times> u16) list \<Rightarrow> 's \<Rightarrow> (program list \<times> 's) result" where
  "check_hds_loop call fresh root [] s = Inr ([], s)"
| "check_hds_loop call fresh root ((name, v, d) # ps) s =
     rbind (driver_file name) (\<lambda>p. with_path p (\<lambda>filename.
     rbind (fexists call fresh root filename s) (\<lambda>(there, s1).
     rbind (if there then rbind (bootstrap call fresh root filename [] bootstrap_options_new s1) (\<lambda>(pr, s2). Inr ([pr], s2))
            else Inr ([], s1)) (\<lambda>(prs, s2).
     rbind (check_hds_loop call fresh root ps s2) (\<lambda>(prs', s3). Inr (prs @ prs', s3))))))"

definition check_hds :: "'s fs_call \<Rightarrow> (nat \<Rightarrow> bytes) \<Rightarrow> vfs_node option \<Rightarrow> 's \<Rightarrow> (program list \<times> 's) result" where
  "check_hds call fresh root s = check_hds_loop call fresh root known_harddisk_drivers s"

fun is_hd_name :: "bytes \<Rightarrow> (bytes \<times> u16 \<times> u16) list \<Rightarrow> bool result" where
  "is_hd_name name [] = Inr False"
| "is_hd_name name ((n, v, d) # ps) = rbind (stricmp name n) (\<lambda>r. if r = 0 then Inr True else is_hd_name name ps)"

definition rtl_options :: bootstrap_options where
  "rtl_options = \<lparr>bo_mmap = [], bo_privs = map of_nat [PRIV_PHYSADDR, PRIV_IRQ],
     bo_iobits = map (\<lambda>i. 0xc100 + of_nat i) [0..<0x84]\<rparr>"

definition start_driver ::
  "'s fs_call \<Rightarrow> (nat \<Rightarrow> bytes) \<Rightarrow> vfs_node option \<Rightarrow> bytes \<Rightarrow> 's \<Rightarrow> (program list \<times> 's) result" where
  "start_driver call fresh root name s =
     rbind (driver_file name) (\<lambda>p. with_path p (\<lambda>filename.
     rbind (fexists call fresh root filename s) (\<lambda>(there, s1).
     if \<not> there then Inr ([], s1)
     else rbind (ffile call fresh root filename s1) (\<lambda>(file, s2).
          if \<not> file then Inr ([], s2)
          else rbind (bootstrap call fresh root filename [] rtl_options s2) (\<lambda>(pr, s3). Inr ([pr], s3))))))"

text \<open>The entries of the directory, at most \<open>fuel\<close>.\<close>

fun check_non_hds_loop ::
  "nat \<Rightarrow> 's fs_call \<Rightarrow> (nat \<Rightarrow> bytes) \<Rightarrow> vfs_node option \<Rightarrow> dir_stream option \<Rightarrow> 's \<Rightarrow> (program list \<times> 's) result" where
  "check_non_hds_loop 0 call fresh root dirp s = Inl Diverges"
| "check_non_hds_loop (Suc fuel) call fresh root dirp s =
     rbind (readdir call fresh dirp s) (\<lambda>(dirent, dirp1, s1).
     case dirent of
       None \<Rightarrow> Inr ([], s1)
     | Some e \<Rightarrow>
         rbind (is_hd_name (dirent_name e) known_harddisk_drivers) (\<lambda>is_hd.
         rbind (if is_hd then Inr ([], s1) else start_driver call fresh root (dirent_name e) s1) (\<lambda>(prs, s2).
         rbind (check_non_hds_loop fuel call fresh root dirp1 s2) (\<lambda>(prs', s3). Inr (prs @ prs', s3)))))"

definition check_non_hds ::
  "nat \<Rightarrow> 's fs_call \<Rightarrow> (nat \<Rightarrow> bytes) \<Rightarrow> vfs_node option \<Rightarrow> 's \<Rightarrow> (program list \<times> 's) result" where
  "check_non_hds fuel call fresh root s =
     rbind (opendir call fresh root (cstr ''/sys/drivers/'') s) (\<lambda>(dirp, s1).
     check_non_hds_loop fuel call fresh root dirp s1)"

section \<open>Requests\<close>

definition PCI_OP_DEVICE_CONFIG :: u8 where "PCI_OP_DEVICE_CONFIG = 0x1"
definition PCI_OP_DMA_UP :: u8 where "PCI_OP_DMA_UP = 0x2"
definition PCI_OP_AWAIT_DRIVERS_UP :: u8 where "PCI_OP_AWAIT_DRIVERS_UP = 0x3"

definition PCIOpDeviceConfig :: "u16 \<Rightarrow> u16 \<Rightarrow> bytes" where
  "PCIOpDeviceConfig device vendor = [PCI_OP_DEVICE_CONFIG] @ pad 1 @ put_u16 device @ put_u16 vendor"

definition sizeof_pci_device_regular :: nat where "sizeof_pci_device_regular = 64"

record pci_service =
  all_devices :: device_list
  non_hds_brought_up :: bool
  awaiting_drivers_up :: "(u32 \<times> u32) list"

definition pci_init ::
  "'s fs_call \<Rightarrow> (nat \<Rightarrow> bytes) \<Rightarrow> vfs_node option \<Rightarrow> (u32 \<Rightarrow> u32) \<Rightarrow> 's \<Rightarrow> (pci_service \<times> program list \<times> 's) result" where
  "pci_init call fresh root cfg s =
     rbind (check_hds call fresh root s) (\<lambda>(prs, s1).
     Inr (\<lparr>all_devices = check_all_devices cfg [], non_hds_brought_up = False, awaiting_drivers_up = []\<rparr>, prs, s1))"

definition device_header :: "(u32 \<Rightarrow> u32) \<Rightarrow> u32 \<Rightarrow> bytes" where
  "device_header cfg device =
     concat (map (\<lambda>i. put_u32 (read_config_long cfg (D_BUS device) (D_SLOT device) (D_FN device) (4 * of_nat i)))
       [0..<sizeof_pci_device_regular div 4])"

definition pci_device_config :: "(u32 \<Rightarrow> u32) \<Rightarrow> message \<Rightarrow> pci_service \<Rightarrow> (pci_service \<times> sent list) result" where
  "pci_device_config cfg m p =
     rbind (get_u16 (info_data m) 2) (\<lambda>device. rbind (get_u16 (info_data m) 4) (\<lambda>vendor.
     let (dl, devs) = map_index (all_devices p) (push_bit 16 (ucast device) OR ucast vendor) [] in
     Inr (p\<lparr>all_devices := devs\<rparr>, [reply_to m (concat (map (device_header cfg) dl))])))"

definition pci_dma_up ::
  "nat \<Rightarrow> 's fs_call \<Rightarrow> (nat \<Rightarrow> bytes) \<Rightarrow> vfs_node option \<Rightarrow> pci_service \<Rightarrow> 's \<Rightarrow>
     (pci_service \<times> sent list \<times> program list \<times> 's) result" where
  "pci_dma_up fuel call fresh root p s =
     (if non_hds_brought_up p then Inr (p, [], [], s)
      else rbind (check_non_hds fuel call fresh root s) (\<lambda>(prs, s1).
           Inr (p\<lparr>non_hds_brought_up := True, awaiting_drivers_up := []\<rparr>,
                map (\<lambda>(pid, msg_id). (pid, msg_id, [])) (awaiting_drivers_up p), prs, s1)))"

definition pci_await :: "message \<Rightarrow> pci_service \<Rightarrow> pci_service \<times> sent list" where
  "pci_await m p =
     (if non_hds_brought_up p then (p, [reply_to m []])
      else (p\<lparr>awaiting_drivers_up := awaiting_drivers_up p @ [(info_from m, info_id m)]\<rparr>, []))"

definition pci_handle ::
  "nat \<Rightarrow> 's fs_call \<Rightarrow> (nat \<Rightarrow> bytes) \<Rightarrow> vfs_node option \<Rightarrow> (u32 \<Rightarrow> u32) \<Rightarrow> message \<Rightarrow> pci_service \<Rightarrow> 's \<Rightarrow>
     (pci_service \<times> sent list \<times> program list \<times> 's) result" where
  "pci_handle fuel call fresh root cfg m p s =
     rbind (get_u8 (info_data m) 0) (\<lambda>cmd.
     if cmd = PCI_OP_DEVICE_CONFIG then rbind (pci_device_config cfg m p) (\<lambda>(p', out). Inr (p', out, [], s))
     else if cmd = PCI_OP_DMA_UP then pci_dma_up fuel call fresh root p s
     else if cmd = PCI_OP_AWAIT_DRIVERS_UP then (case pci_await m p of (p', out) \<Rightarrow> Inr (p', out, [], s))
     else Inl (UserPanic ''PCI: confused''))"

fun pci_run ::
  "nat \<Rightarrow> 's fs_call \<Rightarrow> (nat \<Rightarrow> bytes) \<Rightarrow> vfs_node option \<Rightarrow> (u32 \<Rightarrow> u32) \<Rightarrow> message list \<Rightarrow> pci_service \<Rightarrow> 's \<Rightarrow>
     (pci_service \<times> sent list \<times> program list \<times> 's) result" where
  "pci_run fuel call fresh root cfg [] p s = Inr (p, [], [], s)"
| "pci_run fuel call fresh root cfg (m # ms) p s =
     rbind (pci_handle fuel call fresh root cfg m p s) (\<lambda>(p1, out, prs, s1).
     rbind (pci_run fuel call fresh root cfg ms p1 s1) (\<lambda>(p2, outs, prss, s2). Inr (p2, out @ outs, prs @ prss, s2)))"

section \<open>The drivers of two devices\<close>

text \<open>
  The reply of the service, checked as both drivers do: \<open>None\<close> ends the driver with status 1.
\<close>

definition single_config :: "bytes \<Rightarrow> bytes option" where
  "single_config reply =
     (if reply = [] \<or> length reply mod sizeof_pci_device_regular \<noteq> 0 then None
      else if length reply div sizeof_pci_device_regular > 1 then None
      else Some reply)"

definition piix3_request :: bytes where
  "piix3_request = PCIOpDeviceConfig 0x8086 0x7010"

text \<open>The messages of \<open>main\<close>: to the disk driver, then to the PCI service.\<close>

definition piix3_main :: "u32 \<Rightarrow> u32 \<Rightarrow> bytes \<Rightarrow> ((u32 \<times> bytes) list) option result" where
  "piix3_main pci ata reply =
     (case single_config reply of
        None \<Rightarrow> Inr None
      | Some c \<Rightarrow> rbind (get_u32 c 32) (\<lambda>bar4.
          Inr (Some [(ata, [ATA_OP_SET_BAR4] @ pad 3 @ put_u32 (bar4 AND NOT 3)), (pci, [PCI_OP_DMA_UP])])))"

definition rtl_request :: bytes where
  "rtl_request = PCIOpDeviceConfig 0x10EC 0x8139"

text \<open>The port base and the interrupt line; then the card is probed and the driver ends.\<close>

definition rtl_main :: "bytes \<Rightarrow> (u16 \<times> u8) option result" where
  "rtl_main reply =
     (case single_config reply of
        None \<Rightarrow> Inr None
      | Some c \<Rightarrow> rbind (get_u32 c 16) (\<lambda>bar0. rbind (get_u8 c 60) (\<lambda>line.
          Inr (Some (ucast bar0 AND NOT 3, line)))))"

end
