(* ===== verification/PciProps.thy ===== *)
theory PciProps
  imports Pci
begin

text \<open>
  What the PCI service knows and answers: the functions of the configuration space that are there, and for a request
  the headers of those with the identification asked for; and what the disk controller's driver makes of it.
\<close>

section \<open>Reading the configuration space\<close>

type_synonym pci_function = "u16 \<times> u8 \<times> u8"

text \<open>The doubleword \<open>i\<close> of the header of a function.\<close>

definition config_dword :: "(u32 \<Rightarrow> u32) \<Rightarrow> pci_function \<Rightarrow> nat \<Rightarrow> u32" where
  "config_dword cfg p i = (case p of (bus, slot, fn) \<Rightarrow> cfg (pci_config_cycle (of_nat i) fn slot bus))"

definition function_vendor :: "(u32 \<Rightarrow> u32) \<Rightarrow> pci_function \<Rightarrow> u16" where
  "function_vendor cfg p = ucast (config_dword cfg p 0)"

definition function_device :: "(u32 \<Rightarrow> u32) \<Rightarrow> pci_function \<Rightarrow> u16" where
  "function_device cfg p = ucast (drop_bit 16 (config_dword cfg p 0))"

definition header_bytes :: "(u32 \<Rightarrow> u32) \<Rightarrow> pci_function \<Rightarrow> bytes" where
  "header_bytes cfg p = concat (map (\<lambda>i. put_u32 (config_dword cfg p i)) [0..<16])"

text \<open>The functions that are there, in the order of the scan: a slot whose function 0 is missing is empty.\<close>

definition slot_functions :: "(u32 \<Rightarrow> u32) \<Rightarrow> u16 \<Rightarrow> u8 \<Rightarrow> pci_function list" where
  "slot_functions cfg bus slot =
     (if function_vendor cfg (bus, slot, 0) = 0xFFFF then []
      else filter (\<lambda>p. function_vendor cfg p \<noteq> 0xFFFF) (map (\<lambda>fn. (bus, slot, fn)) pci_fns))"

definition present :: "(u32 \<Rightarrow> u32) \<Rightarrow> pci_function list" where
  "present cfg = concat (map (\<lambda>bus. concat (map (slot_functions cfg bus) pci_slots)) pci_buses)"

definition matching :: "(u32 \<Rightarrow> u32) \<Rightarrow> u16 \<Rightarrow> u16 \<Rightarrow> pci_function list" where
  "matching cfg vendor device = filter (\<lambda>p. function_vendor cfg p = vendor \<and> function_device cfg p = device) (present cfg)"

lemma ucast_low16: "(ucast ((w :: u32) AND 0xFFFF) :: u16) = ucast w"
proof (rule bit_word_eqI)
  have m: "(0xFFFF :: u32) = mask 16" by (simp add: mask_eq_exp_minus_1)
  fix n assume "n < LENGTH(16)"
  then show "bit (ucast (w AND 0xFFFF) :: u16) n \<longleftrightarrow> bit (ucast w :: u16) n" by (simp add: m bit_simps)
qed

lemma join_halves: "ucast (ucast (w :: u32) :: u16) OR push_bit 16 (ucast (ucast (drop_bit 16 w) :: u16)) = w"
proof (rule bit_word_eqI)
  fix n assume "n < LENGTH(32)"
  then show "bit (ucast (ucast w :: u16) OR push_bit 16 (ucast (ucast (drop_bit 16 w) :: u16)) :: u32) n \<longleftrightarrow> bit w n"
    by (cases "n < 16") (auto simp: bit_simps)
qed

lemma halves_eq: "push_bit 16 (ucast (a :: u16)) OR ucast (b :: u16) = (push_bit 16 (ucast c) OR ucast d :: u32) \<longleftrightarrow> a = c \<and> b = d"
proof
  assume eq: "push_bit 16 (ucast a) OR ucast b = (push_bit 16 (ucast c) OR ucast d :: u32)"
  have "bit a n = bit c n \<and> bit b n = bit d n" if n: "n < 16" for n
  proof -
    have "bit (push_bit 16 (ucast a) OR ucast b :: u32) n = bit (push_bit 16 (ucast c) OR ucast d :: u32) n"
      "bit (push_bit 16 (ucast a) OR ucast b :: u32) (16 + n) = bit (push_bit 16 (ucast c) OR ucast d :: u32) (16 + n)"
      using eq by simp_all
    moreover have "\<not> bit (x :: u16) (16 + n)" for x by (auto dest: bit_imp_le_length)
    ultimately show ?thesis using n by (auto simp: bit_simps)
  qed
  then show "a = c \<and> b = d" by (auto intro!: bit_word_eqI)
qed simp

lemma offset_reg: "i < 16 \<Longrightarrow> ucast (drop_bit 2 ((4 * of_nat i :: u16) AND 0xFC)) = (of_nat i :: u8) \<and>
    (4 * of_nat i :: u16) AND 2 = 0 \<and> ucast (drop_bit 2 ((4 * of_nat i + 2 :: u16) AND 0xFC)) = (of_nat i :: u8) \<and>
    (4 * of_nat i + 2 :: u16) AND 2 = 2"
proof -
  have "\<forall>i \<in> set [0..<16]. ucast (drop_bit 2 ((4 * of_nat i :: u16) AND 0xFC)) = (of_nat i :: u8) \<and>
    (4 * of_nat i :: u16) AND 2 = 0 \<and> ucast (drop_bit 2 ((4 * of_nat i + 2 :: u16) AND 0xFC)) = (of_nat i :: u8) \<and>
    (4 * of_nat i + 2 :: u16) AND 2 = 2" by (simp add: upt_rec)
  moreover assume "i < 16"
  ultimately show ?thesis by simp
qed

lemma read_config_words:
  assumes "i < 16"
  shows "read_config_word cfg bus slot fn (4 * of_nat i) = ucast (config_dword cfg (bus, slot, fn) i)"
    and "read_config_word cfg bus slot fn (4 * of_nat i + 2) = ucast (drop_bit 16 (config_dword cfg (bus, slot, fn) i))"
    and "read_config_long cfg bus slot fn (4 * of_nat i) = config_dword cfg (bus, slot, fn) i"
proof -
  note o = offset_reg [OF assms]
  show w: "read_config_word cfg bus slot fn (4 * of_nat i) = ucast (config_dword cfg (bus, slot, fn) i)"
    "read_config_word cfg bus slot fn (4 * of_nat i + 2) = ucast (drop_bit 16 (config_dword cfg (bus, slot, fn) i))"
    using o by (simp_all add: read_config_word_def config_dword_def ucast_low16)
  show "read_config_long cfg bus slot fn (4 * of_nat i) = config_dword cfg (bus, slot, fn) i"
    by (simp add: read_config_long_def w join_halves)
qed

lemma first_words:
  "check_vendor cfg bus slot fn = function_vendor cfg (bus, slot, fn)"
  "read_config_word cfg bus slot fn 2 = function_device cfg (bus, slot, fn)"
  using read_config_words [of 0 cfg bus slot fn] by (simp_all add: check_vendor_def function_vendor_def function_device_def)

lemma DEVICE_fields: "D_BUS (DEVICE b s f) = b" "D_SLOT (DEVICE b s f) = s" "D_FN (DEVICE b s f) = f"
  unfolding D_BUS_def D_SLOT_def D_FN_def DEVICE_def
  by (rule bit_word_eqI; auto simp: bit_simps dest: bit_imp_le_length)+

lemma device_header_bytes: "device_header cfg (DEVICE b s f) = header_bytes cfg (b, s, f)"
proof -
  have "map (\<lambda>i. put_u32 (read_config_long cfg b s f (4 * of_nat i))) [0..<16] =
      map (\<lambda>i. put_u32 (config_dword cfg (b, s, f) i)) [0..<16]"
    by (intro map_cong) (auto simp: read_config_words)
  moreover have "sizeof_pci_device_regular div 4 = 16" by (simp add: sizeof_pci_device_regular_def)
  ultimately show ?thesis by (simp only: device_header_def header_bytes_def DEVICE_fields)
qed

section \<open>The scan\<close>

text \<open>The devices of an identification, none when it is not in the table.\<close>

definition devices_of :: "device_list \<Rightarrow> u32 \<Rightarrow> u32 list" where
  "devices_of devs key = (case map_find devs key of None \<Rightarrow> [] | Some dl \<Rightarrow> dl)"

definition function_key :: "(u32 \<Rightarrow> u32) \<Rightarrow> pci_function \<Rightarrow> u32" where
  "function_key cfg p = push_bit 16 (ucast (function_vendor cfg p)) OR ucast (function_device cfg p)"

definition device_of :: "pci_function \<Rightarrow> u32" where
  "device_of p = (case p of (bus, slot, fn) \<Rightarrow> DEVICE bus slot fn)"

definition found :: "(u32 \<Rightarrow> u32) \<Rightarrow> pci_function list \<Rightarrow> device_list \<Rightarrow> device_list" where
  "found cfg ps devs = fold (\<lambda>p. add_device (function_key cfg p) (device_of p)) ps devs"

lemma devices_of_index:
  "map_index devs key [] = (dl, devs') \<Longrightarrow> dl = devices_of devs key \<and> devices_of devs' k = devices_of devs k"
  by (auto simp: map_index_def devices_of_def map_find_append split: option.splits if_splits)

lemma devices_of_add: "devices_of (add_device key d devs) k = (if k = key then devices_of devs k @ [d] else devices_of devs k)"
proof -
  obtain dl devs' where i: "map_index devs key [] = (dl, devs')" by (cases "map_index devs key []")
  then show ?thesis using devices_of_index [OF i, of k]
    by (simp add: add_device_def devices_of_def map_find_put)
qed

lemma devices_of_found:
  "devices_of (found cfg ps devs) k = devices_of devs k @ map device_of (filter (\<lambda>p. function_key cfg p = k) ps)"
  by (induction ps arbitrary: devs) (auto simp: found_def devices_of_add)

lemma found_append: "found cfg (ps @ qs) devs = found cfg qs (found cfg ps devs)"
  by (simp add: found_def)

lemma check_fns_found:
  "0 \<notin> set fns \<Longrightarrow> check_fns cfg bus slot fns devs =
     found cfg (filter (\<lambda>p. function_vendor cfg p \<noteq> 0xFFFF) (map (\<lambda>fn. (bus, slot, fn)) fns)) devs"
  by (induction fns arbitrary: devs)
    (auto simp: found_def Let_def first_words function_key_def device_of_def)

lemma pci_fns_split: "pci_fns = 0 # map of_nat [1..<8]" "0 \<notin> set (map of_nat [1..<8] :: u8 list)"
  by (simp_all add: pci_fns_def upt_rec)

lemma check_slot_found: "check_fns cfg bus slot pci_fns devs = found cfg (slot_functions cfg bus slot) devs"
  using check_fns_found [OF pci_fns_split(2), of cfg bus slot]
  unfolding slot_functions_def pci_fns_split(1)
  by (auto simp: Let_def first_words found_def function_key_def device_of_def)

lemma found_concat: "fold (\<lambda>x. found cfg (f x)) xs devs = found cfg (concat (map f xs)) devs"
  by (induction xs arbitrary: devs) (auto simp: found_append, simp add: found_def)

lemma check_all_found: "check_all_devices cfg devs = found cfg (present cfg) devs"
proof -
  have "(\<lambda>bus. fold (\<lambda>slot. check_fns cfg bus slot pci_fns) pci_slots) =
      (\<lambda>bus. found cfg (concat (map (slot_functions cfg bus) pci_slots)))"
  proof (intro ext)
    fix bus devs
    have "(\<lambda>slot. check_fns cfg bus slot pci_fns) = (\<lambda>slot. found cfg (slot_functions cfg bus slot))"
      by (intro ext) (rule check_slot_found)
    then show "fold (\<lambda>slot. check_fns cfg bus slot pci_fns) pci_slots devs =
        found cfg (concat (map (slot_functions cfg bus) pci_slots)) devs" by (simp only: found_concat)
  qed
  then show ?thesis by (simp add: check_all_devices_def found_concat present_def)
qed

section \<open>The service\<close>

definition knows_devices :: "(u32 \<Rightarrow> u32) \<Rightarrow> pci_service \<Rightarrow> bool" where
  "knows_devices cfg p \<longleftrightarrow> (\<forall>v d. devices_of (all_devices p) (push_bit 16 (ucast (v :: u16)) OR ucast (d :: u16)) =
     map device_of (matching cfg v d))"

lemma pci_init_knows:
  assumes "pci_init call fresh root cfg s = Inr (p, prs, s')"
  shows "knows_devices cfg p"
proof -
  have "all_devices p = check_all_devices cfg []" using assms by (auto simp: pci_init_def rbind_eq_Inr)
  then show ?thesis
    by (simp add: knows_devices_def check_all_found devices_of_found matching_def function_key_def halves_eq)
      (simp add: devices_of_def)
qed

lemma pci_device_config_devices:
  assumes "pci_device_config cfg m p = Inr (p', out)"
  shows "devices_of (all_devices p') k = devices_of (all_devices p) k"
proof -
  from assms obtain key where p': "all_devices p' = snd (map_index (all_devices p) key [])"
    by (auto simp: pci_device_config_def rbind_eq_Inr split_def Let_def)
  obtain dl devs where i: "map_index (all_devices p) key [] = (dl, devs)" by (cases "map_index (all_devices p) key []")
  then show ?thesis using devices_of_index [OF i, of k] p' by simp
qed

lemma pci_handle_knows:
  assumes "pci_handle fuel call fresh root cfg m p s = Inr (p', out, prs, s')" and "knows_devices cfg p"
  shows "knows_devices cfg p'"
proof -
  have "\<forall>k. devices_of (all_devices p') k = devices_of (all_devices p) k"
    using assms(1)
    by (auto simp: pci_handle_def pci_dma_up_def pci_await_def rbind_eq_Inr split: if_splits dest: pci_device_config_devices)
  then show ?thesis using assms(2) by (simp add: knows_devices_def)
qed

lemma pci_run_knows:
  "pci_run fuel call fresh root cfg ms p s = Inr (p', outs, prs, s') \<Longrightarrow> knows_devices cfg p \<Longrightarrow> knows_devices cfg p'"
proof (induction ms arbitrary: p s outs prs)
  case (Cons m ms)
  then show ?case by (auto simp: rbind_eq_Inr dest: pci_handle_knows)
qed simp

lemma config_request:
  "get_u8 (PCIOpDeviceConfig v d) 0 = Inr PCI_OP_DEVICE_CONFIG" "get_u16 (PCIOpDeviceConfig v d) 2 = Inr v"
  "get_u16 (PCIOpDeviceConfig v d) 4 = Inr d"
  by (simp_all add: PCIOpDeviceConfig_def wire_simps)

lemma pci_config_reply:
  assumes "knows_devices cfg p" and "info_data m = PCIOpDeviceConfig v d"
  shows "\<exists>p'. pci_handle fuel call fresh root cfg m p s =
    Inr (p', [(info_from m, info_id m, concat (map (header_bytes cfg) (matching cfg v d)))], [], s)"
proof -
  let ?key = "push_bit 16 (ucast v) OR ucast d :: u32"
  obtain dl devs where i: "map_index (all_devices p) ?key [] = (dl, devs)"
    by (cases "map_index (all_devices p) ?key []")
  then have "dl = map device_of (matching cfg v d)" using assms(1) devices_of_index [OF i] by (simp add: knows_devices_def)
  moreover have "device_header cfg (device_of q) = header_bytes cfg q" for q
    by (cases q) (simp add: device_of_def device_header_bytes)
  ultimately have "concat (map (device_header cfg) dl) = concat (map (header_bytes cfg) (matching cfg v d))" by (simp add: o_def)
  then show ?thesis using i
    by (simp add: pci_handle_def assms(2) config_request pci_device_config_def reply_to_def)
qed

text \<open>
  Claim C35. Once the PCI service has scanned the bus, and whatever requests it has served since, a driver that asks for a device
  gets the 64-byte headers of exactly the functions with that identification, in the order of their bus, slot and
  function number, each byte the one the configuration space holds; none are missed and none are reported in slots
  whose function 0 is absent.
\<close>

theorem pci_answers_config:
  assumes "pci_init call fr root cfg s0 = Inr (p0, prs0, s1)" and "pci_run fuel call fr root cfg ms p0 s1 = Inr (p, outs, prs, s)"
    and "info_data m = PCIOpDeviceConfig v d"
  shows "\<exists>p'. pci_handle fuel call fr root cfg m p s =
    Inr (p', [(info_from m, info_id m, concat (map (header_bytes cfg) (matching cfg v d)))], [], s)"
  using pci_config_reply [OF pci_run_knows [OF assms(2) pci_init_knows [OF assms(1)]] assms(3)] .

section \<open>The disk controller\<close>

lemma header_u32:
  assumes "i < 16"
  shows "get_u32 (header_bytes cfg p) (4 * i) = Inr (config_dword cfg p i)"
proof -
  have split: "header_bytes cfg p =
      concat (map (\<lambda>j. put_u32 (config_dword cfg p j)) [0..<i]) @ put_u32 (config_dword cfg p i) @
      concat (map (\<lambda>j. put_u32 (config_dword cfg p j)) [Suc i..<16])"
  proof -
    have "[0..<16] = [0..<i] @ i # [Suc i..<16]" using assms
      by (metis less_imp_le_nat upt_conv_Cons upt_add_eq_append le0 le_add_diff_inverse)
    then show ?thesis by (simp add: header_bytes_def)
  qed
  have len: "length (concat (map (\<lambda>j. put_u32 (config_dword cfg p j)) [0..<i])) = 4 * i"
    by (induction i) simp_all
  then show ?thesis unfolding split
    by (simp add: get_u32_def put_u32_def nth_append join_u32)
qed

lemma length_header_bytes: "length (header_bytes cfg p) = 64"
  by (simp add: header_bytes_def length_concat o_def sum_list_triv)

text \<open>
  On a machine with one PIIX3 disk controller, its driver, given the reply of the PCI service to its request,
  tells the disk driver the port base of the fifth base address register of that controller, with its two low bits cleared, and tells the
  PCI service that DMA is up; and the disk driver, given that message, uses DMA at that base.
\<close>

theorem piix3_enables_dma:
  assumes "pci_init call fr root cfg s0 = Inr (p, prs, s)" and "matching cfg 0x8086 0x7010 = [f]" and "info_data m = piix3_request"
  shows "\<exists>p' reply request. pci_handle fuel call fr root cfg m p s = Inr (p', [(info_from m, info_id m, reply)], [], s) \<and>
    piix3_main pci ata reply = Inr (Some [(ata, request), (pci, [PCI_OP_DMA_UP])]) \<and>
    ata_handle dev_in dev_out request a =
      Inr ([], a\<lparr>pio_bmide_base_addr := config_dword cfg f 8 AND NOT 3, dma_enabled := True\<rparr>)"
proof -
  obtain p' where "pci_handle fuel call fr root cfg m p s = Inr (p', [(info_from m, info_id m, header_bytes cfg f)], [], s)"
    using pci_config_reply [OF pci_init_knows [OF assms(1)], of m "0x8086" "0x7010" fuel call fr root s] assms(2,3)
    by (auto simp: piix3_request_def)
  moreover have "single_config (header_bytes cfg f) = Some (header_bytes cfg f)"
    using length_header_bytes [of cfg f] by (auto simp: single_config_def sizeof_pci_device_regular_def)
  then have "piix3_main pci ata (header_bytes cfg f) = Inr (Some
      [(ata, [ATA_OP_SET_BAR4] @ pad 3 @ put_u32 (config_dword cfg f 8 AND NOT 3)), (pci, [PCI_OP_DMA_UP])])"
    using header_u32 [of 8 cfg f] by (simp add: piix3_main_def)
  moreover have "get_u8 ([ATA_OP_SET_BAR4] @ pad 3 @ put_u32 x) 0 = Inr ATA_OP_SET_BAR4"
    "get_u32 ([ATA_OP_SET_BAR4] @ pad 3 @ put_u32 x) 4 = Inr x" for x
    by (simp_all add: wire_simps)
  then have "ata_handle dev_in dev_out ([ATA_OP_SET_BAR4] @ pad 3 @ put_u32 (config_dword cfg f 8 AND NOT 3)) a =
      Inr ([], a\<lparr>pio_bmide_base_addr := config_dword cfg f 8 AND NOT 3, dma_enabled := True\<rparr>)"
    by (simp add: ata_handle_def ATA_OP_READ_def ATA_OP_WRITE_def ATA_OP_MBR_READ_def ATA_OP_SET_BAR4_def)
  ultimately show ?thesis by blast
qed

section \<open>A bus with one slot in use\<close>

text \<open>Functions 0 and 1 of slot 1; function 1 is a PIIX3 with its DMA registers at port 0xC000.\<close>

definition demo_cfg :: "u32 \<Rightarrow> u32" where
  "demo_cfg a =
     (if (ucast (drop_bit 16 a) :: u8) = 0 \<and> drop_bit 11 a AND 0x1F = 1
      then (if drop_bit 8 a AND 7 = 0 then 0x70008086
            else if drop_bit 8 a AND 7 = 1
            then (if drop_bit 2 a AND 0x3F = 0 then 0x70108086 else if drop_bit 2 a AND 0x3F = 8 then 0xC001 else 0)
            else 0xFFFFFFFF)
      else 0xFFFFFFFF)"

lemma config_bus: "(ucast (drop_bit 16 (pci_config_cycle r f s b)) :: u8) = ucast b"
proof (rule bit_word_eqI)
  have m: "(0xFF :: u32) = mask 8" "(0x3F :: u32) = mask 6" "(7 :: u32) = mask 3" "(0x1F :: u32) = mask 5"
    by (simp_all add: mask_eq_exp_minus_1)
  fix n assume n: "n < LENGTH(8)"
  have "\<forall>n \<in> set [0..<8]. \<not> bit (32768 :: u32) n" by (simp add: upt_rec)
  with n have "\<not> bit (32768 :: u32) n" by simp
  with n show "bit (ucast (drop_bit 16 (pci_config_cycle r f s b)) :: u8) n \<longleftrightarrow> bit (ucast b :: u8) n"
    unfolding pci_config_cycle_def m by (auto simp: bit_simps)
qed

lemma other_buses:
  assumes "n < 256" and "n \<noteq> 0"
  shows "slot_functions demo_cfg (of_nat n) slot = []"
proof -
  have "(ucast (of_nat n :: u16) :: u8) = of_nat n" using assms(1) by (simp add: unsigned_of_nat take_bit_nat_eq_self)
  moreover have "(of_nat n :: u8) \<noteq> 0" using assms by (auto simp: word_of_nat_eq_0_iff dest: dvd_imp_le)
  ultimately have "(ucast (drop_bit 16 (pci_config_cycle r f s (of_nat n))) :: u8) \<noteq> 0" for r f s unfolding config_bus by simp
  then have "config_dword demo_cfg (of_nat n, slot, f) 0 = 0xFFFFFFFF" for f
    by (simp add: config_dword_def demo_cfg_def)
  then show ?thesis by (simp add: slot_functions_def function_vendor_def)
qed

lemma demo_slots: "concat (map (slot_functions demo_cfg 0) pci_slots) = [(0, 1, 0), (0, 1, 1)]"
  by (simp add: pci_slots_def pci_fns_def slot_functions_def function_vendor_def config_dword_def demo_cfg_def
      pci_config_cycle_def upt_rec)

lemma demo_present: "present demo_cfg = [(0, 1, 0), (0, 1, 1)]"
proof -
  have buses: "pci_buses = 0 # map of_nat [1..<256]" by (simp add: pci_buses_def upt_rec [of 0 256])
  have "present demo_cfg = concat (map (slot_functions demo_cfg 0) pci_slots) @
      concat (map (\<lambda>bus. concat (map (slot_functions demo_cfg bus) pci_slots)) (map of_nat [1..<256]))"
    unfolding present_def buses by (simp only: list.map(2) concat.simps(2))
  moreover have "concat (map (\<lambda>bus. concat (map (slot_functions demo_cfg bus) pci_slots)) (map of_nat [1..<256])) = []"
    using other_buses by auto
  ultimately show ?thesis by (simp only: demo_slots append_Nil2)
qed

definition no_files :: "unit fs_call" where
  "no_files request s = Inr ([], s)"

definition empty_root :: vfs_node where
  "empty_root = \<lparr>node_name = pad 128, node_flags = VFS_DIRECTORY, node_inode = 0, node_length = 0, node_impl = 0, node_driver = 1\<rparr>"

lemma demo_init:
  "pci_init no_files pad (Some empty_root) demo_cfg () =
     Inr (\<lparr>all_devices = check_all_devices demo_cfg [], non_hds_brought_up = False, awaiting_drivers_up = []\<rparr>, [], ())"
proof -
  have "check_hds no_files pad (Some empty_root) () = Inr ([], ())" by code_simp
  then show ?thesis by (simp add: pci_init_def)
qed

theorem pci_answers_config_witness:
  "\<exists>p p' outs. pci_init no_files pad (Some empty_root) demo_cfg () = Inr (p, [], ()) \<and>
     pci_handle 1 no_files pad (Some empty_root) demo_cfg \<lparr>info_from = 7, info_id = 3, info_data = PCIOpDeviceConfig 0x8086 0x7000\<rparr> p () =
       Inr (p', [(7, 3, header_bytes demo_cfg (0, 1, 0))], outs, ())"
proof -
  have "matching demo_cfg 0x8086 0x7000 = [(0, 1, 0)]"
    by (simp add: matching_def demo_present function_vendor_def function_device_def config_dword_def demo_cfg_def
        pci_config_cycle_def)
  then show ?thesis
    using pci_answers_config [OF demo_init pci_run.simps(1) [of 1 no_files pad "Some empty_root" demo_cfg],
        of "\<lparr>info_from = 7, info_id = 3, info_data = PCIOpDeviceConfig 0x8086 0x7000\<rparr>" "0x8086" "0x7000"] demo_init
    by auto
qed

theorem piix3_enables_dma_witness:
  "\<exists>reply request. piix3_main 4 5 reply = Inr (Some [(5, request), (4, [PCI_OP_DMA_UP])]) \<and>
     ata_handle (\<lambda>_ _ _ _. []) (\<lambda>_ _ _ _. ()) request \<lparr>hdd_mbr = [], dma_enabled = False, pio_bmide_base_addr = 0, drive = ()\<rparr> =
       Inr ([], \<lparr>hdd_mbr = [], dma_enabled = True, pio_bmide_base_addr = 0xC000, drive = ()\<rparr>)"
proof -
  have "matching demo_cfg 0x8086 0x7010 = [(0, 1, 1)]" "config_dword demo_cfg (0, 1, 1) 8 AND NOT 3 = 0xC000"
    by (simp_all add: matching_def demo_present function_vendor_def function_device_def config_dword_def demo_cfg_def
        pci_config_cycle_def)
  then show ?thesis
    using piix3_enables_dma [OF demo_init, of "(0, 1, 1)" "\<lparr>info_from = 7, info_id = 3, info_data = piix3_request\<rparr>" 1 4 5
        "\<lambda>_ _ _ _. []" "\<lambda>_ _ _ _. ()" "\<lparr>hdd_mbr = [], dma_enabled = False, pio_bmide_base_addr = 0, drive = ()\<rparr>"] by auto
qed

end
