(* ===== verification/Acpi.thy ===== *)
theory Acpi
  imports Wire "HOL-Library.Signed_Division"
begin

text \<open>
  \<^verbatim>\<open>src/packages/acpi/main.cpp\<close>, the power-management service, and \<^verbatim>\<open>src/packages/shutdown/main.cpp\<close>, which asks it to
  turn the machine off. \<open>mem\<close> is the physical memory, which the service sees at its own addresses: the first megabyte and
  the three pages it maps. A table elsewhere would be a page fault, which is not modelled. \<open>inw n port\<close> is the
  value of the \<open>n\<close>-th read of a 16-bit port. The lines that are printed are left out.
\<close>

section \<open>Memory\<close>

definition mem_bytes :: "(u32 \<Rightarrow> u8) \<Rightarrow> u32 \<Rightarrow> nat \<Rightarrow> bytes" where
  "mem_bytes mem a n = map (\<lambda>i. mem (a + of_nat i)) [0..<n]"

definition mem_u16 :: "(u32 \<Rightarrow> u8) \<Rightarrow> u32 \<Rightarrow> u16" where
  "mem_u16 mem a = ucast (mem a) OR push_bit 8 (ucast (mem (a + 1)))"

definition mem_u32 :: "(u32 \<Rightarrow> u8) \<Rightarrow> u32 \<Rightarrow> u32" where
  "mem_u32 mem a = ucast (mem a) OR push_bit 8 (ucast (mem (a + 1))) OR push_bit 16 (ucast (mem (a + 2))) OR
     push_bit 24 (ucast (mem (a + 3)))"

text \<open>The loops that add up \<open>n\<close> bytes in a \<open>u8\<close>.\<close>

fun checksum :: "(u32 \<Rightarrow> u8) \<Rightarrow> u32 \<Rightarrow> nat \<Rightarrow> u8 \<Rightarrow> u8" where
  "checksum mem a 0 check = check"
| "checksum mem a (Suc n) check = checksum mem (a + 1) n (check + mem a)"

section \<open>Finding the tables\<close>

definition RSD_PTR :: bytes where "RSD_PTR = [82, 83, 68, 32, 80, 84, 82, 32]"
definition sizeof_RSDPtr :: nat where "sizeof_RSDPtr = 20"

definition acpiCheckRSDPtr :: "(u32 \<Rightarrow> u8) \<Rightarrow> u32 \<Rightarrow> u32" where
  "acpiCheckRSDPtr mem p =
     (if mem_bytes mem p 8 = RSD_PTR \<and> checksum mem p sizeof_RSDPtr 0 = 0 then mem_u32 mem (p + 16) else 0)"

fun rsdp_scan :: "nat \<Rightarrow> (u32 \<Rightarrow> u8) \<Rightarrow> u32 \<Rightarrow> u32 \<Rightarrow> u32 option result" where
  "rsdp_scan 0 mem limit addr = Inl Diverges"
| "rsdp_scan (Suc fuel) mem limit addr =
     (if addr < limit
      then let rsdp = acpiCheckRSDPtr mem addr in
           if rsdp \<noteq> 0 then Inr (Some rsdp) else rsdp_scan fuel mem limit (addr + 0x10)
      else Inr None)"

definition ebda_of :: "(u32 \<Rightarrow> u8) \<Rightarrow> u32" where
  "ebda_of mem = (ucast (mem_u16 mem 0x40E) * 0x10) AND 0x000FFFFF"

definition acpiGetRSDPtr :: "nat \<Rightarrow> (u32 \<Rightarrow> u8) \<Rightarrow> u32 result" where
  "acpiGetRSDPtr fuel mem =
     rbind (rsdp_scan fuel mem 0x00100000 0x000E0000) (\<lambda>r.
     case r of
       Some rsdp \<Rightarrow> Inr rsdp
     | None \<Rightarrow>
         rbind (rsdp_scan fuel mem (ebda_of mem + 1024) (ebda_of mem)) (\<lambda>r'.
         Inr (case r' of Some rsdp \<Rightarrow> rsdp | None \<Rightarrow> 0)))"

definition acpiCheckHeader :: "(u32 \<Rightarrow> u8) \<Rightarrow> u32 \<Rightarrow> bytes \<Rightarrow> int" where
  "acpiCheckHeader mem p sig =
     (if mem_bytes mem p 4 = sig \<and> checksum mem p (nat (sint (mem_u32 mem (p + 4)))) 0 = 0 then 0 else - 1)"

definition RSDT :: bytes where "RSDT = [82, 83, 68, 84]"
definition FACP :: bytes where "FACP = [70, 65, 67, 80]"
definition DSDT :: bytes where "DSDT = [68, 83, 68, 84]"
definition S5 :: bytes where "S5 = [95, 83, 53, 95]"

section \<open>Registers\<close>

record acpi =
  SMI_CMD :: u32
  ACPI_ENABLE :: u8
  ACPI_DISABLE :: u8
  PM1a_CNT :: u32
  PM1b_CNT :: u32
  SLP_TYPa :: u16
  SLP_TYPb :: u16
  SLP_EN :: u16
  SCI_EN :: u16
  PM1_CNT_LEN :: u8

definition acpi_zero :: acpi where
  "acpi_zero = \<lparr>SMI_CMD = 0, ACPI_ENABLE = 0, ACPI_DISABLE = 0, PM1a_CNT = 0, PM1b_CNT = 0, SLP_TYPa = 0, SLP_TYPb = 0,
     SLP_EN = 0, SCI_EN = 0, PM1_CNT_LEN = 0\<rparr>"

text \<open>The search for \<^verbatim>\<open>_S5_\<close>: where it stopped and what is left of the length.\<close>

fun s5_scan :: "(u32 \<Rightarrow> u8) \<Rightarrow> nat \<Rightarrow> u32 \<Rightarrow> (u32 \<times> nat) option" where
  "s5_scan mem 0 a = None"
| "s5_scan mem (Suc left) a = (if mem_bytes mem a 4 = S5 then Some (a, left) else s5_scan mem left (a + 1))"

definition s5_type :: "(u32 \<Rightarrow> u8) \<Rightarrow> u32 \<Rightarrow> u8" where
  "s5_type mem s5 =
     (let a = s5 + 5; a1 = a + ucast (drop_bit 6 (mem a AND 0xC0)) + 2; a2 = (if mem a1 = 0x0A then a1 + 1 else a1) in
      mem a2)"

definition s5_ok :: "(u32 \<Rightarrow> u8) \<Rightarrow> u32 \<Rightarrow> bool" where
  "s5_ok mem s5 \<longleftrightarrow> (mem (s5 - 1) = 0x08 \<or> (mem (s5 - 2) = 0x08 \<and> mem (s5 - 1) = 92)) \<and> mem (s5 + 4) = 0x12"

text \<open>A table that is a \<^verbatim>\<open>FACP\<close>: the registers and the ports asked for, when its \<^verbatim>\<open>DSDT\<close> has the package.\<close>

definition facp_registers :: "(u32 \<Rightarrow> u8) \<Rightarrow> u32 \<Rightarrow> u32 \<Rightarrow> acpi" where
  "facp_registers mem facp s5 = acpi_zero\<lparr>
     SLP_TYPb := push_bit 10 (ucast (s5_type mem s5)), SMI_CMD := mem_u32 mem (facp + 48),
     ACPI_ENABLE := mem (facp + 52), ACPI_DISABLE := mem (facp + 53),
     PM1a_CNT := mem_u32 mem (facp + 64), PM1b_CNT := mem_u32 mem (facp + 68),
     PM1_CNT_LEN := mem (facp + 89), SLP_EN := 0x2000, SCI_EN := 1\<rparr>"

definition granted_ports :: "acpi \<Rightarrow> u16 list" where
  "granted_ports c = [ucast (SMI_CMD c), ucast (PM1a_CNT c), ucast (PM1a_CNT c) + 1, ucast (PM1b_CNT c), ucast (PM1b_CNT c) + 1]"

definition check_facp :: "(u32 \<Rightarrow> u8) \<Rightarrow> u32 \<Rightarrow> acpi option" where
  "check_facp mem facp =
     (let dsdt = mem_u32 mem (facp + 40) in
      if acpiCheckHeader mem dsdt DSDT = 0
      then case s5_scan mem (nat (sint (mem_u32 mem (dsdt + 4) - 36))) (dsdt + 36) of
             None \<Rightarrow> None
           | Some (s5, left) \<Rightarrow> if left > 0 \<and> s5_ok mem s5 then Some (facp_registers mem facp s5) else None
      else None)"

text \<open>The loop over the entries: it ends with the first \<^verbatim>\<open>FACP\<close>.\<close>

fun rsdt_loop :: "(u32 \<Rightarrow> u8) \<Rightarrow> nat \<Rightarrow> u32 \<Rightarrow> acpi option" where
  "rsdt_loop mem 0 p = None"
| "rsdt_loop mem (Suc entries) p =
     (if acpiCheckHeader mem (mem_u32 mem p) FACP = 0 then check_facp mem (mem_u32 mem p)
      else rsdt_loop mem entries (p + 4))"

text \<open>The call of \<open>mapPhysicalMem\<close> for the service itself: virtual from and to, and physical.\<close>

definition rsdt_window :: "u32 \<Rightarrow> u32 \<times> u32 \<times> u32" where
  "rsdt_window p = (p AND 0xFFFFF000, (p AND 0xFFFFF000) + 0x2000, p AND 0xFFFFF000)"

text \<open>
  The range that is mapped, the registers, the ports asked for and the result. The range is mapped before the pointer is
  looked at, also when there is none.
\<close>

definition acpiInit :: "nat \<Rightarrow> (u32 \<Rightarrow> u8) \<Rightarrow> ((u32 \<times> u32 \<times> u32) \<times> acpi \<times> u16 list \<times> bool) result" where
  "acpiInit fuel mem =
     rbind (acpiGetRSDPtr fuel mem) (\<lambda>p.
     if p \<noteq> 0 \<and> acpiCheckHeader mem p RSDT = 0
     then case rsdt_loop mem (nat (sint (mem_u32 mem (p + 4) - 36) sdiv 4)) (p + 36) of
            None \<Rightarrow> Inr (rsdt_window p, acpi_zero, [], False)
          | Some c \<Rightarrow> Inr (rsdt_window p, c, granted_ports c, True)
     else Inr (rsdt_window p, acpi_zero, [], False))"

section \<open>Turning the machine off\<close>

datatype acpi_event =
    OutB u32 u8
  | OutW u32 u16
  | Usleep u32
  | Reboot

text \<open>A loop of \<open>acpiEnable\<close> from \<open>i\<close> on: the final \<open>i\<close>, the number of reads so far, and what was done.\<close>

fun poll_enabled :: "(nat \<Rightarrow> u32 \<Rightarrow> u16) \<Rightarrow> u32 \<Rightarrow> u16 \<Rightarrow> nat \<Rightarrow> nat \<Rightarrow> nat \<Rightarrow> nat \<times> nat \<times> acpi_event list" where
  "poll_enabled inw port en 0 i n = (i, n, [])"
| "poll_enabled inw port en (Suc left) i n =
     (if inw n port AND en = 1 then (i, Suc n, [])
      else let (i', n', ev) = poll_enabled inw port en left (Suc i) (Suc n) in (i', n', Usleep 100000 # ev))"

definition acpiEnable :: "(nat \<Rightarrow> u32 \<Rightarrow> u16) \<Rightarrow> acpi \<Rightarrow> acpi_event list \<times> bool" where
  "acpiEnable inw c =
     (if inw 0 (PM1a_CNT c) AND SCI_EN c = 0
      then if SMI_CMD c \<noteq> 0 \<and> ACPI_ENABLE c \<noteq> 0
           then let (i, n, ev) = poll_enabled inw (PM1a_CNT c) (SCI_EN c) 300 0 1;
                    (i', n', ev') = (if PM1b_CNT c \<noteq> 0 then poll_enabled inw (PM1b_CNT c) (SCI_EN c) (300 - i) i n else (i, n, [])) in
                (OutB (SMI_CMD c) (ACPI_ENABLE c) # ev @ ev', i' < 300)
           else ([], False)
      else ([], True))"

definition acpiPowerOff :: "(nat \<Rightarrow> u32 \<Rightarrow> u16) \<Rightarrow> acpi \<Rightarrow> acpi_event list" where
  "acpiPowerOff inw c =
     (if SCI_EN c = 0 then []
      else fst (acpiEnable inw c) @ [OutW (PM1a_CNT c) (SLP_TYPa c OR SLP_EN c)] @
        (if PM1b_CNT c \<noteq> 0 then [OutW (PM1b_CNT c) (SLP_TYPb c OR SLP_EN c)] else []))"

definition acpiReboot :: "acpi_event list" where
  "acpiReboot = [Reboot]"

definition ACPI_OP_SHUTDOWN :: u8 where "ACPI_OP_SHUTDOWN = 0x1"
definition ACPI_OP_REBOOT :: u8 where "ACPI_OP_REBOOT = 0x2"

definition acpi_handle :: "(nat \<Rightarrow> u32 \<Rightarrow> u16) \<Rightarrow> acpi \<Rightarrow> bytes \<Rightarrow> acpi_event list result" where
  "acpi_handle inw c request =
     rbind (get_u8 request 0) (\<lambda>cmd.
     if cmd = ACPI_OP_SHUTDOWN then Inr (acpiPowerOff inw c)
     else if cmd = ACPI_OP_REBOOT then Inr acpiReboot
     else Inl (UserPanic ''ACPI: confused''))"

section \<open>The shutdown command\<close>

text \<open>\<open>None\<close> prints the usage; otherwise the messages sent to the service. \<open>args\<close> are the arguments after the name.\<close>

fun shutdown_args :: "bytes list \<Rightarrow> bool \<Rightarrow> bool \<Rightarrow> bool \<Rightarrow> (bool \<times> bool \<times> bool) result" where
  "shutdown_args [] reboot halt unknown = Inr (reboot, halt, unknown)"
| "shutdown_args (a # args) reboot halt unknown =
     rbind (strcmp a [45, 114, 0]) (\<lambda>r.
     if r = 0 then shutdown_args args True halt unknown
     else rbind (strcmp a [45, 104, 0]) (\<lambda>h.
          if h = 0 then shutdown_args args reboot True unknown
          else shutdown_args args reboot halt True))"

definition shutdown_main :: "bytes list \<Rightarrow> bytes list option result" where
  "shutdown_main args =
     (if args = [] then Inr None
      else rbind (shutdown_args args False False False) (\<lambda>(reboot, halt, unknown).
        if (reboot \<and> halt) \<or> unknown then Inr None
        else if halt then Inr (Some [[ACPI_OP_SHUTDOWN]])
        else if reboot then Inr (Some [[ACPI_OP_REBOOT]])
        else Inr (Some [])))"

end
