(* ===== verification/AcpiProps.thy ===== *)
theory AcpiProps
  imports Acpi
begin

text \<open>
  What the search for the ACPI tables finds, stated without its loops, and what turning the machine off writes.
\<close>

section \<open>Sums and searches\<close>

lemma mem_bytes_Suc: "mem_bytes mem a (Suc n) = mem a # mem_bytes mem (a + 1) n"
proof -
  have "[0..<Suc n] = 0 # map Suc [0..<n]" by (simp add: upt_conv_Cons map_Suc_upt del: upt_Suc)
  then show ?thesis by (simp add: mem_bytes_def o_def add.assoc del: upt_Suc)
qed

lemma checksum_sum: "checksum mem a n c = c + sum_list (mem_bytes mem a n)"
  by (induction n arbitrary: a c) (simp_all add: mem_bytes_Suc add.assoc, simp add: mem_bytes_def)

text \<open>A table: its signature, and bytes that sum to zero over the length in its header.\<close>

definition table_ok :: "(u32 \<Rightarrow> u8) \<Rightarrow> u32 \<Rightarrow> bytes \<Rightarrow> bool" where
  "table_ok mem a sig \<longleftrightarrow> mem_bytes mem a 4 = sig \<and> sum_list (mem_bytes mem a (nat (sint (mem_u32 mem (a + 4))))) = 0"

lemma acpiCheckHeader_ok: "acpiCheckHeader mem a sig = 0 \<longleftrightarrow> table_ok mem a sig"
  by (simp add: acpiCheckHeader_def table_ok_def checksum_sum)

definition rsdp_at :: "(u32 \<Rightarrow> u8) \<Rightarrow> u32 \<Rightarrow> bool" where
  "rsdp_at mem a \<longleftrightarrow> mem_bytes mem a 8 = RSD_PTR \<and> sum_list (mem_bytes mem a 20) = 0 \<and> mem_u32 mem (a + 16) \<noteq> 0"

lemma acpiCheckRSDPtr_at:
  "acpiCheckRSDPtr mem a \<noteq> 0 \<longleftrightarrow> rsdp_at mem a" "rsdp_at mem a \<Longrightarrow> acpiCheckRSDPtr mem a = mem_u32 mem (a + 16)"
  by (auto simp: acpiCheckRSDPtr_def rsdp_at_def checksum_sum sizeof_RSDPtr_def)

definition steps16 :: "u32 \<Rightarrow> nat \<Rightarrow> u32 list" where
  "steps16 a k = map (\<lambda>i. a + 16 * of_nat i) [0..<k]"

lemma steps16_Suc: "steps16 a (Suc k) = a # steps16 (a + 16) k"
proof -
  have "[0..<Suc k] = 0 # map Suc [0..<k]" by (simp add: upt_conv_Cons map_Suc_upt del: upt_Suc)
  then show ?thesis by (simp add: steps16_def o_def algebra_simps del: upt_Suc)
qed

lemma rsdp_scan_find:
  "unat limit = unat addr + 16 * k \<Longrightarrow> k < fuel \<Longrightarrow>
   rsdp_scan fuel mem limit addr = Inr (map_option (\<lambda>a. mem_u32 mem (a + 16)) (find (rsdp_at mem) (steps16 addr k)))"
proof (induction k arbitrary: fuel addr)
  case 0
  then have "\<not> addr < limit" by (simp add: word_less_nat_alt)
  with 0 show ?case by (cases fuel) (auto simp: steps16_def)
next
  case (Suc k)
  from Suc.prems obtain f where f: "fuel = Suc f" by (cases fuel) auto
  have "addr < limit" using Suc.prems(1) by (simp add: word_less_nat_alt)
  moreover have "unat (addr + 0x10) = unat addr + 16"
  proof -
    have "unat addr + 16 \<le> unat limit" using Suc.prems(1) by simp
    moreover have "unat limit < 4294967296" by (rule unat_lt_u32)
    ultimately have "unat addr + 16 < 4294967296" by linarith
    then have "unat addr + unat (0x10 :: u32) < 4294967296" by simp
    then show ?thesis by (simp add: unat_add_nowrap)
  qed
  ultimately show ?case using Suc f acpiCheckRSDPtr_at [of mem addr] by (auto simp: Let_def steps16_Suc)
qed

text \<open>Where the pointer to the tables is looked for: the BIOS area, then the first kilobyte of the EBDA.\<close>

definition rsdp_places :: "(u32 \<Rightarrow> u8) \<Rightarrow> u32 list" where
  "rsdp_places mem = steps16 0xE0000 8192 @ steps16 (ebda_of mem) 64"

lemma acpiGetRSDPtr_find:
  assumes "8192 < fuel"
  shows "acpiGetRSDPtr fuel mem =
    Inr (case find (rsdp_at mem) (rsdp_places mem) of None \<Rightarrow> 0 | Some a \<Rightarrow> mem_u32 mem (a + 16))"
proof -
  have "(0x000FFFFF :: u32) = mask 20" by (simp add: mask_eq_exp_minus_1)
  then have "ebda_of mem = take_bit 20 (ucast (mem_u16 mem 0x40E) * 0x10)" by (simp add: ebda_of_def take_bit_eq_mask)
  then have "unat (ebda_of mem) = unat (ucast (mem_u16 mem 0x40E) * 0x10 :: u32) mod 1048576"
    by (simp add: take_bit_eq_mod unat_mod)
  then have "unat (ebda_of mem) < 1048576" by simp
  then have "unat (ebda_of mem + 1024) = unat (ebda_of mem) + 16 * 64" by (simp add: unat_add_nowrap)
  from rsdp_scan_find [OF this, of fuel mem] rsdp_scan_find [of "0x00100000" "0x000E0000" 8192 fuel mem] assms
  show ?thesis by (auto simp: acpiGetRSDPtr_def rsdp_places_def find_append split: option.splits)
qed

lemma s5_scan_find:
  "s5_scan mem n a = map_option (\<lambda>i. (a + of_nat i, n - Suc i)) (find (\<lambda>i. mem_bytes mem (a + of_nat i) 4 = S5) [0..<n])"
proof (induction n arbitrary: a)
  case (Suc n)
  have "[0..<Suc n] = 0 # map Suc [0..<n]" by (simp add: upt_conv_Cons map_Suc_upt del: upt_Suc)
  moreover have "(\<lambda>j. mem_bytes mem (a + of_nat (Suc j)) 4 = S5) = (\<lambda>j. mem_bytes mem (a + 1 + of_nat j) 4 = S5)"
    by (simp add: add.assoc)
  ultimately show ?case using Suc.IH [of "a + 1"]
    by (auto simp: find_map_Suc option.map_comp o_def algebra_simps simp del: upt_Suc intro!: option.map_cong)
qed simp

section \<open>What initialisation finds\<close>

text \<open>
  The sleep package of a \<^verbatim>\<open>DSDT\<close>: the first \<^verbatim>\<open>_S5_\<close> after its header, not at the very end, in the form that is
  understood.
\<close>

definition s5_package :: "(u32 \<Rightarrow> u8) \<Rightarrow> u32 \<Rightarrow> u32 option" where
  "s5_package mem dsdt =
     (let n = nat (sint (mem_u32 mem (dsdt + 4) - 36)) in
      case find (\<lambda>i. mem_bytes mem (dsdt + 36 + of_nat i) 4 = S5) [0..<n] of
        None \<Rightarrow> None
      | Some i \<Rightarrow> if Suc i < n \<and> s5_ok mem (dsdt + 36 + of_nat i) then Some (dsdt + 36 + of_nat i) else None)"

definition rsdt_entries :: "(u32 \<Rightarrow> u8) \<Rightarrow> u32 \<Rightarrow> u32 list" where
  "rsdt_entries mem p = map (\<lambda>i. mem_u32 mem (p + 36 + 4 * of_nat i)) [0..<nat (sint (mem_u32 mem (p + 4) - 36) sdiv 4)]"

definition acpi_tables :: "(u32 \<Rightarrow> u8) \<Rightarrow> (u32 \<times> u32) option" where
  "acpi_tables mem =
     (case find (rsdp_at mem) (rsdp_places mem) of
        None \<Rightarrow> None
      | Some a \<Rightarrow>
          let p = mem_u32 mem (a + 16) in
          if table_ok mem p RSDT
          then case find (\<lambda>t. table_ok mem t FACP) (rsdt_entries mem p) of
                 None \<Rightarrow> None
               | Some t \<Rightarrow> if table_ok mem (mem_u32 mem (t + 40)) DSDT
                           then map_option (Pair t) (s5_package mem (mem_u32 mem (t + 40))) else None
          else None)"

lemma check_facp_spec:
  "check_facp mem t = (if table_ok mem (mem_u32 mem (t + 40)) DSDT
     then map_option (facp_registers mem t) (s5_package mem (mem_u32 mem (t + 40))) else None)"
  by (auto simp: check_facp_def Let_def acpiCheckHeader_ok s5_package_def s5_scan_find split: option.splits)

lemma rsdt_loop_find:
  "rsdt_loop mem n p = (case find (\<lambda>t. table_ok mem t FACP) (map (\<lambda>i. mem_u32 mem (p + 4 * of_nat i)) [0..<n]) of
     None \<Rightarrow> None | Some t \<Rightarrow> check_facp mem t)"
proof (induction n arbitrary: p)
  case (Suc n)
  have "[0..<Suc n] = 0 # map Suc [0..<n]" by (simp add: upt_conv_Cons map_Suc_upt del: upt_Suc)
  then show ?case using Suc.IH [of "p + 4"]
    by (simp add: acpiCheckHeader_ok o_def algebra_simps del: upt_Suc)
qed simp

text \<open>The table that the root pointer leads to.\<close>

definition root_table :: "(u32 \<Rightarrow> u8) \<Rightarrow> u32" where
  "root_table mem = (case find (rsdp_at mem) (rsdp_places mem) of None \<Rightarrow> 0 | Some a \<Rightarrow> mem_u32 mem (a + 16))"

lemma acpiInit_ok:
  assumes "8192 < fuel"
  shows "acpiInit fuel mem = Inr (rsdt_window (root_table mem), case acpi_tables mem of
      None \<Rightarrow> (acpi_zero, [], False)
    | Some (facp, s5) \<Rightarrow> (facp_registers mem facp s5, granted_ports (facp_registers mem facp s5), True))"
proof (cases "find (rsdp_at mem) (rsdp_places mem)")
  case None
  then show ?thesis using acpiGetRSDPtr_find [OF assms, of mem] by (simp add: acpiInit_def acpi_tables_def root_table_def)
next
  case (Some a)
  then have "rsdp_at mem a" by (auto simp: find_Some_iff)
  then have "mem_u32 mem (a + 16) \<noteq> 0" by (simp add: rsdp_at_def)
  then show ?thesis using acpiGetRSDPtr_find [OF assms, of mem] Some
    by (auto simp: acpiInit_def acpi_tables_def root_table_def Let_def acpiCheckHeader_ok rsdt_loop_find rsdt_entries_def
        check_facp_spec split: option.splits)
qed

text \<open>
  Claim C38. Initialisation ends and finds the power-management registers exactly when there is a root pointer with a right
  checksum at a multiple of 16 in the BIOS area or the EBDA, it leads to a valid \<^verbatim>\<open>RSDT\<close>, the first valid \<^verbatim>\<open>FACP\<close> in that
  has a valid \<^verbatim>\<open>DSDT\<close>, and that has the sleep package; the registers are the ones this table gives. What it asks for to be
  mapped is the range of three pages from the one of the \<^verbatim>\<open>RSDT\<close> on, both ends included.
\<close>

theorem acpiInit_finds:
  assumes "8192 < fuel"
  shows "acpiInit fuel mem =
    Inr ((root_table mem AND 0xFFFFF000, (root_table mem AND 0xFFFFF000) + 0x2000, root_table mem AND 0xFFFFF000),
      case acpi_tables mem of
        None \<Rightarrow> (acpi_zero, [], False)
      | Some (facp, s5) \<Rightarrow> (facp_registers mem facp s5, granted_ports (facp_registers mem facp s5), True))"
  using acpiInit_ok [OF assms] by (simp add: rsdt_window_def)

section \<open>Turning off\<close>

text \<open>
  Claim C39. On a machine whose tables were found, the command \<^verbatim>\<open>shutdown -h\<close> leads to these last writes: the sleep type that the tables give
  goes only to the second control register, if there is one; the first one always gets sleep type 0, whatever the tables say.
\<close>

theorem shutdown_writes_type_zero:
  assumes "8192 < fuel" and "acpi_tables mem = Some (facp, s5)"
  shows "\<exists>c ports request ev. acpiInit fuel mem = Inr (rsdt_window (root_table mem), c, ports, True) \<and> shutdown_main [[45, 104, 0]] = Inr (Some [request]) \<and>
    acpi_handle inw c request = Inr (ev @ OutW (mem_u32 mem (facp + 64)) 0x2000 #
      (if mem_u32 mem (facp + 68) \<noteq> 0
       then [OutW (mem_u32 mem (facp + 68)) (push_bit 10 (ucast (s5_type mem s5)) OR 0x2000)] else []))"
proof -
  have "strcmp [45, 104, 0] [45, 114, 0] = Inr (- 1)" "strcmp [45, 104, 0] [45, 104, 0] = Inr 0" by code_simp+
  then have "shutdown_main [[45, 104, 0]] = Inr (Some [[ACPI_OP_SHUTDOWN]])" by (simp add: shutdown_main_def)
  moreover have "get_u8 [ACPI_OP_SHUTDOWN] 0 = Inr ACPI_OP_SHUTDOWN" by (simp add: get_u8_def)
  ultimately show ?thesis
    using acpiInit_ok [OF assms(1), of mem] assms(2)
    by (auto simp: acpi_handle_def acpiPowerOff_def facp_registers_def acpi_zero_def)
qed

section \<open>Tables in memory\<close>

text \<open>A root pointer at 0xE0000, its table at 0x8000 with one entry, and the other two tables behind it.\<close>

definition rom_rsdp :: bytes where
  "rom_rsdp = [82, 83, 68, 32, 80, 84, 82, 32, 0x61, 0, 0, 0, 0, 0, 0, 0, 0x00, 0x80, 0x00, 0x00]"

definition rom_rsdt :: bytes where
  "rom_rsdt = [82, 83, 68, 84, 40, 0, 0, 0, 0x1A] @ pad 27 @ [0x00, 0x81, 0x00, 0x00]"

definition rom_facp :: bytes where
  "rom_facp = [70, 65, 67, 80, 12, 0, 0, 0, 0xDA] @ pad 31 @ [0x00, 0x82, 0x00, 0x00] @ pad 4 @ [0xB2, 0, 0, 0, 0xF1, 0xF0] @
     pad 10 @ [0x04, 0xB0, 0, 0, 0x08, 0xB0, 0, 0] @ pad 18"

definition rom_dsdt :: bytes where
  "rom_dsdt = [68, 83, 68, 84, 56, 0, 0, 0, 0x20] @ pad 27 @ [0x08, 95, 83, 53, 95, 0x12, 0x06, 0x04, 0x0A, 0x05] @ pad 10"

definition demo_mem :: "u32 \<Rightarrow> u8" where
  "demo_mem a =
     (let n = unat a in
      if 0xE0000 \<le> n \<and> n < 0xE0014 then rom_rsdp ! (n - 0xE0000)
      else if 0x8000 \<le> n \<and> n < 0x8028 then rom_rsdt ! (n - 0x8000)
      else if 0x8100 \<le> n \<and> n < 0x815A then rom_facp ! (n - 0x8100)
      else if 0x8200 \<le> n \<and> n < 0x8238 then rom_dsdt ! (n - 0x8200)
      else 0)"

lemma rom_lengths: "length rom_rsdp = 20" "length rom_rsdt = 40" "length rom_facp = 90" "length rom_dsdt = 56"
  by (simp_all add: rom_rsdp_def rom_rsdt_def rom_facp_def rom_dsdt_def)

lemma unat_plus: "unat (a :: u32) + i < 4294967296 \<Longrightarrow> unat (a + of_nat i) = unat a + i"
  by (simp add: unat_add_nowrap unat_of_nat take_bit_nat_eq_self)

lemma demo_mem_at:
  "i < 20 \<Longrightarrow> demo_mem (0xE0000 + of_nat i) = rom_rsdp ! i" "i < 40 \<Longrightarrow> demo_mem (0x8000 + of_nat i) = rom_rsdt ! i"
  "i < 90 \<Longrightarrow> demo_mem (0x8100 + of_nat i) = rom_facp ! i" "i < 56 \<Longrightarrow> demo_mem (0x8200 + of_nat i) = rom_dsdt ! i"
  by (simp_all add: demo_mem_def unat_plus)

lemma mem_bytes_block:
  "(\<And>i. i < length b \<Longrightarrow> mem (a + of_nat i) = b ! i) \<Longrightarrow> k + n \<le> length b \<Longrightarrow> mem_bytes mem (a + of_nat k) n = take n (drop k b)"
  by (auto intro!: nth_equalityI simp: mem_bytes_def add.assoc simp flip: of_nat_add)

lemma mem_u32_block:
  assumes "\<And>i. i < length b \<Longrightarrow> mem (a + of_nat i) = b ! i" and "k + 4 \<le> length b"
  shows "get_u32 b k = Inr (mem_u32 mem (a + of_nat k))"
  using assms(1) [of k] assms(1) [of "k + 1"] assms(1) [of "k + 2"] assms(1) [of "k + 3"] assms(2)
  by (simp add: get_u32_def mem_u32_def ac_simps)

lemma demo_words:
  "mem_u32 demo_mem (0xE0000 + 16) = 0x8000" "mem_u32 demo_mem (0x8000 + 4) = 40" "mem_u32 demo_mem (0x8000 + 36) = 0x8100"
  "mem_u32 demo_mem (0x8100 + 4) = 12" "mem_u32 demo_mem (0x8100 + 40) = 0x8200" "mem_u32 demo_mem (0x8100 + 64) = 0xB004"
  "mem_u32 demo_mem (0x8100 + 68) = 0xB008" "mem_u32 demo_mem (0x8200 + 4) = 56"
proof -
  have "get_u32 rom_rsdp 16 = Inr 0x8000" "get_u32 rom_rsdt 4 = Inr 40" "get_u32 rom_rsdt 36 = Inr 0x8100"
    "get_u32 rom_facp 4 = Inr 12" "get_u32 rom_facp 40 = Inr 0x8200" "get_u32 rom_facp 64 = Inr 0xB004"
    "get_u32 rom_facp 68 = Inr 0xB008" "get_u32 rom_dsdt 4 = Inr 56" by code_simp+
  then show "mem_u32 demo_mem (0xE0000 + 16) = 0x8000" "mem_u32 demo_mem (0x8000 + 4) = 40" "mem_u32 demo_mem (0x8000 + 36) = 0x8100"
    "mem_u32 demo_mem (0x8100 + 4) = 12" "mem_u32 demo_mem (0x8100 + 40) = 0x8200" "mem_u32 demo_mem (0x8100 + 64) = 0xB004"
    "mem_u32 demo_mem (0x8100 + 68) = 0xB008" "mem_u32 demo_mem (0x8200 + 4) = 56"
    using mem_u32_block [of rom_rsdp demo_mem "0xE0000" 16] mem_u32_block [of rom_rsdt demo_mem "0x8000" 4]
      mem_u32_block [of rom_rsdt demo_mem "0x8000" 36] mem_u32_block [of rom_facp demo_mem "0x8100" 4]
      mem_u32_block [of rom_facp demo_mem "0x8100" 40] mem_u32_block [of rom_facp demo_mem "0x8100" 64]
      mem_u32_block [of rom_facp demo_mem "0x8100" 68] mem_u32_block [of rom_dsdt demo_mem "0x8200" 4]
    by (simp_all add: rom_lengths demo_mem_at)
qed

lemma demo_block:
  "k + n \<le> 20 \<Longrightarrow> mem_bytes demo_mem (0xE0000 + of_nat k) n = take n (drop k rom_rsdp)"
  "k + n \<le> 40 \<Longrightarrow> mem_bytes demo_mem (0x8000 + of_nat k) n = take n (drop k rom_rsdt)"
  "k + n \<le> 90 \<Longrightarrow> mem_bytes demo_mem (0x8100 + of_nat k) n = take n (drop k rom_facp)"
  "k + n \<le> 56 \<Longrightarrow> mem_bytes demo_mem (0x8200 + of_nat k) n = take n (drop k rom_dsdt)"
  by (rule mem_bytes_block; simp add: rom_lengths demo_mem_at)+

lemma demo_tables_ok:
  "rsdp_at demo_mem 0xE0000" "table_ok demo_mem 0x8000 RSDT" "table_ok demo_mem 0x8100 FACP" "table_ok demo_mem 0x8200 DSDT"
proof -
  have "take 8 rom_rsdp = RSD_PTR" "sum_list rom_rsdp = 0" "take 4 rom_rsdt = RSDT" "sum_list rom_rsdt = 0"
    "take 4 rom_facp = FACP" "sum_list (take 12 rom_facp) = 0" "take 4 rom_dsdt = DSDT" "sum_list rom_dsdt = 0" by code_simp+
  then show "rsdp_at demo_mem 0xE0000" "table_ok demo_mem 0x8000 RSDT" "table_ok demo_mem 0x8100 FACP" "table_ok demo_mem 0x8200 DSDT"
    using demo_block(1) [of 0 8] demo_block(1) [of 0 20] demo_block(2) [of 0 4] demo_block(2) [of 0 40]
      demo_block(3) [of 0 4] demo_block(3) [of 0 12] demo_block(4) [of 0 4] demo_block(4) [of 0 56] demo_words
    by (simp_all add: rsdp_at_def table_ok_def rom_lengths)
qed

lemma demo_package: "s5_package demo_mem 0x8200 = Some 0x8225"
proof -
  have b: "mem_bytes demo_mem (0x8224 + of_nat i) 4 = take 4 (drop (36 + i) rom_dsdt)" if "i \<le> 16" for i
    using demo_block(4) [of "36 + i" 4] that by (simp add: add.assoc)
  have "mem_bytes demo_mem 0x8224 4 \<noteq> S5" "mem_bytes demo_mem 0x8225 4 = S5"
    using b [of 0] b [of 1] by (simp_all add: rom_dsdt_def S5_def pad_def)
  moreover have "demo_mem 0x8224 = 8" "demo_mem 0x8229 = 0x12"
    using demo_mem_at(4) [of 36] demo_mem_at(4) [of 41] by (simp_all add: rom_dsdt_def nth_append pad_def)
  ultimately show ?thesis
    using demo_words(8) by (simp add: s5_package_def s5_ok_def upt_rec [of 0] upt_rec [of "Suc 0"])
qed

lemma demo_acpi: "acpi_tables demo_mem = Some (0x8100, 0x8225)"
proof -
  have "rsdp_places demo_mem = 0xE0000 # steps16 (0xE0000 + 16) 8191 @ steps16 (ebda_of demo_mem) 64"
    using steps16_Suc [of "0xE0000" 8191] by (simp add: rsdp_places_def)
  moreover have "rsdt_entries demo_mem 0x8000 = [0x8100]"
    using demo_words by (simp add: rsdt_entries_def)
  ultimately show ?thesis using demo_tables_ok demo_words demo_package
    by (simp add: acpi_tables_def)
qed

lemma demo_root_table: "root_table demo_mem = 0x8000"
proof -
  have "rsdp_places demo_mem = 0xE0000 # steps16 (0xE0000 + 16) 8191 @ steps16 (ebda_of demo_mem) 64"
    using steps16_Suc [of "0xE0000" 8191] by (simp add: rsdp_places_def)
  with demo_tables_ok demo_words show ?thesis by (simp add: root_table_def)
qed

theorem acpiInit_finds_witness:
  "\<exists>c ports. acpiInit 9000 demo_mem = Inr ((0x8000, 0xA000, 0x8000), c, ports, True) \<and> PM1a_CNT c = 0xB004 \<and> SLP_EN c = 0x2000"
  using acpiInit_finds [of 9000 demo_mem] demo_acpi demo_words demo_root_table by (simp add: facp_registers_def)

theorem shutdown_writes_type_zero_witness:
  "\<exists>c ports request ev. acpiInit 9000 demo_mem = Inr (rsdt_window 0x8000, c, ports, True) \<and> shutdown_main [[45, 104, 0]] = Inr (Some [request]) \<and>
     acpi_handle (\<lambda>_ _. 1) c request = Inr (ev @ [OutW 0xB004 0x2000, OutW 0xB008 0x3400])"
proof -
  have "demo_mem 0x822A = 6" "demo_mem 0x822C = 0x0A" "demo_mem 0x822D = 5"
    using demo_mem_at(4) [of 42] demo_mem_at(4) [of 44] demo_mem_at(4) [of 45] by (simp_all add: rom_dsdt_def nth_append pad_def)
  then have "s5_type demo_mem 0x8225 = 5" by (simp add: s5_type_def)
  then show ?thesis
    using shutdown_writes_type_zero [of 9000 demo_mem "0x8100" "0x8225" "\<lambda>_ _. 1"] demo_acpi demo_words demo_root_table by simp
qed

end
