(* ===== verification/Rtl.thy ===== *)
theory Rtl
  imports StdString
begin

text \<open>
  \<^verbatim>\<open>src/packages/rtl8139/rtl.cpp\<close>, the routines of the network card. \<open>env out n r\<close> is what the
  \<open>n\<close>-th read gives after the writes \<open>out\<close>, of a port or of the kernel's tick counter; the writes are kept in order. \<open>rx_addr\<close> and \<open>tx_addr\<close> are the addresses of
  the two buffers. The lines that are printed are left out, but not the ticks they read.
\<close>

section \<open>Registers\<close>

definition MAC0 :: u32 where "MAC0 = 0"
definition MAR0 :: u32 where "MAR0 = 8"
definition TxStatus0 :: u32 where "TxStatus0 = 0x10"
definition TxAddr0 :: u32 where "TxAddr0 = 0x20"
definition RxBuf :: u32 where "RxBuf = 0x30"
definition ChipCmd :: u32 where "ChipCmd = 0x37"
definition RxBufPtr :: u32 where "RxBufPtr = 0x38"
definition IntrMask :: u32 where "IntrMask = 0x3C"
definition IntrStatus :: u32 where "IntrStatus = 0x3E"
definition TxConfig :: u32 where "TxConfig = 0x40"
definition RxConfig :: u32 where "RxConfig = 0x44"
definition RxMissed :: u32 where "RxMissed = 0x4C"
definition Cfg9346 :: u32 where "Cfg9346 = 0x50"
definition Config1 :: u32 where "Config1 = 0x52"
definition MediaStatus :: u32 where "MediaStatus = 0x58"
definition MII_BMCR :: u32 where "MII_BMCR = 0x62"

definition CmdReset :: u32 where "CmdReset = 0x10"
definition CmdRxEnb :: u32 where "CmdRxEnb = 0x08"
definition CmdTxEnb :: u32 where "CmdTxEnb = 0x04"
definition RxBufEmpty :: u32 where "RxBufEmpty = 0x01"
definition PCIErr :: u32 where "PCIErr = 0x8000"
definition TxErr :: u32 where "TxErr = 0x08"
definition TxOK :: u32 where "TxOK = 0x04"
definition RxFIFOOver :: u32 where "RxFIFOOver = 0x40"
definition RxOverflow :: u32 where "RxOverflow = 0x10"
definition RxOK :: u32 where "RxOK = 0x01"
definition rx_errors :: u32 where "rx_errors = 0x0020 OR 0x0010 OR 0x0008 OR 0x0004 OR 0x0002"
definition MSRLinkFail :: u32 where "MSRLinkFail = 0x04"

definition EE_SHIFT_CLK :: u8 where "EE_SHIFT_CLK = 0x04"
definition EE_CS :: u8 where "EE_CS = 0x08"
definition EE_DATA_WRITE :: u8 where "EE_DATA_WRITE = 0x02"
definition EE_DATA_READ :: u32 where "EE_DATA_READ = 0x01"
definition EE_ENB :: u8 where "EE_ENB = 0x80 OR EE_CS"
definition EE_READ_CMD :: u32 where "EE_READ_CMD = 6"

definition ETH_FRAME_LEN :: nat where "ETH_FRAME_LEN = 1514"
definition ETH_ZLEN :: u32 where "ETH_ZLEN = 60"
definition RX_BUF_LEN :: u32 where "RX_BUF_LEN = 8192"
definition NUM_TX_DESC :: u32 where "NUM_TX_DESC = 4"
definition RTL_TIMEOUT :: u32 where "RTL_TIMEOUT = 100"
definition rtl8139_rx_config :: u32 where "rtl8139_rx_config = push_bit 11 0 OR push_bit 13 4 OR push_bit 8 4"

section \<open>The card\<close>

datatype rtl_read = InB u32 | InW u32 | InL u32 | Ticks
datatype rtl_write = WrB u32 u8 | WrW u32 u16 | WrL u32 u32

record rtl =
  enetaddr :: bytes
  ioaddr :: u32
  cur_rx :: u32
  cur_tx :: u32
  tx_buffer :: bytes
  rx_ring :: bytes
  rtl_reads :: nat
  rtl_out :: "rtl_write list"

type_synonym rtl_env = "rtl_write list \<Rightarrow> nat \<Rightarrow> rtl_read \<Rightarrow> u32"

definition rtl_in :: "rtl_env \<Rightarrow> rtl_read \<Rightarrow> rtl \<Rightarrow> u32 \<times> rtl" where
  "rtl_in env r s = (env (rtl_out s) (rtl_reads s) r, s\<lparr>rtl_reads := Suc (rtl_reads s)\<rparr>)"

definition put :: "rtl_write \<Rightarrow> rtl \<Rightarrow> rtl" where
  "put w s = s\<lparr>rtl_out := rtl_out s @ [w]\<rparr>"

section \<open>The serial EEPROM\<close>

definition eeprom_delay :: "rtl_env \<Rightarrow> u32 \<Rightarrow> rtl \<Rightarrow> rtl" where
  "eeprom_delay env ee_addr s = snd (rtl_in env (InL ee_addr) s)"

text \<open>The command bits from bit \<open>n - 1\<close> down.\<close>

fun shift_out :: "rtl_env \<Rightarrow> u32 \<Rightarrow> u32 \<Rightarrow> nat \<Rightarrow> rtl \<Rightarrow> rtl" where
  "shift_out env ee_addr read_cmd 0 s = s"
| "shift_out env ee_addr read_cmd (Suc i) s =
     (let dataval = (if read_cmd AND push_bit i 1 \<noteq> 0 then EE_DATA_WRITE else 0);
          s1 = eeprom_delay env ee_addr (put (WrB ee_addr (EE_ENB OR dataval)) s);
          s2 = eeprom_delay env ee_addr (put (WrB ee_addr (EE_ENB OR dataval OR EE_SHIFT_CLK)) s1) in
      shift_out env ee_addr read_cmd i s2)"

fun shift_in :: "rtl_env \<Rightarrow> u32 \<Rightarrow> nat \<Rightarrow> u32 \<Rightarrow> rtl \<Rightarrow> u32 \<times> rtl" where
  "shift_in env ee_addr 0 retval s = (retval, s)"
| "shift_in env ee_addr (Suc i) retval s =
     (let s1 = eeprom_delay env ee_addr (put (WrB ee_addr (EE_ENB OR EE_SHIFT_CLK)) s);
          (v, s2) = rtl_in env (InB ee_addr) s1;
          retval1 = push_bit 1 retval OR (if v AND EE_DATA_READ \<noteq> 0 then 1 else 0);
          s3 = eeprom_delay env ee_addr (put (WrB ee_addr EE_ENB) s2) in
      shift_in env ee_addr i retval1 s3)"

definition read_eeprom :: "rtl_env \<Rightarrow> u32 \<Rightarrow> nat \<Rightarrow> rtl \<Rightarrow> u32 \<times> rtl" where
  "read_eeprom env location addr_len s =
     (let ee_addr = ioaddr s + Cfg9346;
          read_cmd = location OR push_bit addr_len EE_READ_CMD;
          s1 = eeprom_delay env ee_addr (put (WrB ee_addr EE_ENB) (put (WrB ee_addr (EE_ENB AND NOT EE_CS)) s));
          s2 = shift_out env ee_addr read_cmd (5 + addr_len) s1;
          s3 = eeprom_delay env ee_addr (put (WrB ee_addr EE_ENB) s2);
          (retval, s4) = shift_in env ee_addr 16 0 s3 in
      (retval, eeprom_delay env ee_addr (put (WrB ee_addr (NOT EE_CS)) s4)))"

section \<open>Reset and probe\<close>

definition set_rx_mode :: "rtl \<Rightarrow> rtl" where
  "set_rx_mode s =
     put (WrL (ioaddr s + MAR0 + 4) 0xffffffff) (put (WrL (ioaddr s + MAR0 + 0) 0xffffffff)
       (put (WrL (ioaddr s + RxConfig) (rtl8139_rx_config OR (0x08 OR 0x04 OR 0x02))) s))"

fun await_reset :: "rtl_env \<Rightarrow> nat \<Rightarrow> rtl \<Rightarrow> rtl" where
  "await_reset env 0 s = s"
| "await_reset env (Suc i) s =
     (let (v, s1) = rtl_in env (InB (ioaddr s + ChipCmd)) s in if v AND CmdReset = 0 then s1 else await_reset env i s1)"

definition rtl_disable :: "rtl_env \<Rightarrow> rtl \<Rightarrow> rtl" where
  "rtl_disable env s = await_reset env 100 (put (WrB (ioaddr s + ChipCmd) (ucast CmdReset)) s)"

definition put_mac :: "rtl \<Rightarrow> rtl" where
  "put_mac s = fold (\<lambda>i s. put (WrB (ioaddr s + MAC0 + of_nat i) (enetaddr s ! i)) s) [0..<6] s"

definition rtl_reset :: "rtl_env \<Rightarrow> u32 \<Rightarrow> rtl \<Rightarrow> rtl" where
  "rtl_reset env rx_addr s =
     (let s1 = (put (WrB (ioaddr s + ChipCmd) (ucast CmdReset)) s)\<lparr>cur_rx := 0, cur_tx := 0\<rparr>;
          s2 = put_mac (await_reset env 100 s1);
          s3 = put (WrB (ioaddr s + ChipCmd) (ucast (CmdRxEnb OR CmdTxEnb))) s2;
          s4 = put (WrL (ioaddr s + RxConfig) (push_bit 13 4 OR push_bit 11 0 OR push_bit 8 4)) s3;
          s5 = put (WrL (ioaddr s + TxConfig) (push_bit 8 4 OR 0x03000000)) s4;
          s6 = put (WrL (ioaddr s + RxBuf) rx_addr) s5;
          s7 = put (WrB (ioaddr s + ChipCmd) (ucast (CmdRxEnb OR CmdTxEnb))) s6;
          s8 = put (WrL (ioaddr s + RxConfig) rtl8139_rx_config) s7;
          s9 = set_rx_mode (put (WrL (ioaddr s + RxMissed) 0) s8) in
      put (WrW (ioaddr s + IntrMask) 0) s9)"

definition probe_words :: "rtl_env \<Rightarrow> nat \<Rightarrow> rtl \<Rightarrow> bytes \<times> rtl" where
  "probe_words env addr_len s =
     (let (w0, s0) = read_eeprom env 7 addr_len s;
          (w1, s1) = read_eeprom env 8 addr_len s0;
          (w2, s2) = read_eeprom env 9 addr_len s1;
          b = (\<lambda>w :: u32. [ucast w, ucast (drop_bit 8 w)]) in
      (b w0 @ b w1 @ b w2, s2))"

definition rtl8139_probe :: "rtl_env \<Rightarrow> u32 \<Rightarrow> u32 \<Rightarrow> rtl \<Rightarrow> int \<times> rtl" where
  "rtl8139_probe env rx_addr io s =
     (let s1 = put (WrB (io + Config1) 0x00) (s\<lparr>ioaddr := io\<rparr>);
          (chip, s2) = read_eeprom env 0 8 s1;
          (mac, s3) = probe_words env (if chip = 0x8129 then 8 else 6) s2;
          (speed, s4) = rtl_in env (InB (io + MediaStatus)) (s3\<lparr>enetaddr := mac\<rparr>);
          (duplex, s5) = rtl_in env (InW (io + MII_BMCR)) s4;
          (v, s6) = rtl_in env (InB (io + MediaStatus)) (rtl_reset env rx_addr s5) in
      (if v AND MSRLinkFail \<noteq> 0 then - 1 else 0, s6))"

section \<open>Sending\<close>

fun await_sent :: "nat \<Rightarrow> rtl_env \<Rightarrow> u32 \<Rightarrow> rtl \<Rightarrow> (u32 \<times> rtl) result" where
  "await_sent 0 env until s = Inl Diverges"
| "await_sent (Suc fuel) env until s =
     (let (status, s1) = rtl_in env (InW (ioaddr s + IntrStatus)) s;
          seen = status AND (TxOK OR TxErr OR PCIErr);
          s2 = put (WrW (ioaddr s + IntrStatus) (ucast seen)) s1 in
      if seen \<noteq> 0 then Inr (status, s2)
      else let (t, s3) = rtl_in env Ticks s2 in if t < until then await_sent fuel env until s3 else Inr (status, s3))"

definition rtl_transmit :: "nat \<Rightarrow> rtl_env \<Rightarrow> u32 \<Rightarrow> u32 \<Rightarrow> bytes \<Rightarrow> rtl \<Rightarrow> (nat \<times> rtl) result" where
  "rtl_transmit fuel env rx_addr tx_addr packet s =
     rbind (memcpy (tx_buffer s) packet (length packet)) (\<lambda>b.
     let n = length packet; len = max n (unat ETH_ZLEN);
         s1 = s\<lparr>tx_buffer := take n b @ replicate (len - n) 0 @ drop len b\<rparr>;
         s2 = put (WrL (ioaddr s + TxAddr0 + cur_tx s * 4) tx_addr) s1;
         s3 = put (WrL (ioaddr s + TxStatus0 + cur_tx s * 4) ((push_bit 11 256 AND 0x003f0000) OR of_nat len)) s2;
         (now, s4) = rtl_in env Ticks s3 in
     rbind (await_sent fuel env (now + RTL_TIMEOUT) s4) (\<lambda>(status, s5).
     let (txstatus, s6) = rtl_in env (InL (ioaddr s + TxStatus0 + cur_tx s * 4)) s5 in
     if status AND TxOK \<noteq> 0
     then let (t, s7) = rtl_in env Ticks (s6\<lparr>cur_tx := (cur_tx s + 1) mod NUM_TX_DESC\<rparr>) in Inr (n, s7)
     else let (t, s7) = rtl_in env Ticks s6 in Inr (0, rtl_reset env rx_addr s7)))"

section \<open>Receiving\<close>

text \<open>The two pieces of a packet that goes past the end of the ring, copied to a local array of the ring's size.\<close>

definition copy_wrapped :: "bytes \<Rightarrow> u32 \<Rightarrow> u32 \<Rightarrow> unit result" where
  "copy_wrapped ring ring_offs rx_size =
     (let semi_count = RX_BUF_LEN - ring_offs - 4; rest = rx_size - 4 - semi_count in
      rbind (memcpy (replicate (unat RX_BUF_LEN) 0) (drop (unat (ring_offs + 4)) ring) (unat semi_count)) (\<lambda>rxdata.
      rbind (memcpy (drop (unat semi_count) rxdata) ring (unat rest)) (\<lambda>_. Inr ())))"

definition rtl_poll :: "rtl_env \<Rightarrow> u32 \<Rightarrow> rtl \<Rightarrow> (u32 \<times> rtl) result" where
  "rtl_poll env rx_addr s =
     (let (cmd, s1) = rtl_in env (InB (ioaddr s + ChipCmd)) s in
      if cmd AND RxBufEmpty \<noteq> 0 then Inr (0, s1)
      else
        let (status, s2) = rtl_in env (InW (ioaddr s + IntrStatus)) s1;
            s3 = put (WrW (ioaddr s + IntrStatus) (ucast (status AND NOT (RxFIFOOver OR RxOverflow OR RxOK)))) s2;
            ring_offs = cur_rx s mod RX_BUF_LEN;
            rx_status = rx_addr + ring_offs;
            rx_size = drop_bit 16 rx_status;
            rx_status1 = rx_status AND 0xffff in
        if rx_status1 AND rx_errors \<noteq> 0 \<or> rx_size < ETH_ZLEN \<or> rx_size > of_nat ETH_FRAME_LEN + 4
        then Inr (0, rtl_reset env rx_addr s3)
        else
          rbind (if ring_offs + 4 + rx_size - 4 > RX_BUF_LEN then copy_wrapped (rx_ring s) ring_offs rx_size else Inr ()) (\<lambda>_.
          let rx = (cur_rx s + rx_size + 4 + 3) AND NOT 3;
              s4 = put (WrW (ioaddr s + RxBufPtr) (ucast (rx - 16))) (s3\<lparr>cur_rx := rx\<rparr>);
              s5 = put (WrW (ioaddr s + IntrStatus) (ucast (status AND (RxFIFOOver OR RxOverflow OR RxOK)))) s4 in
          Inr (rx_size - 4, s5)))"

end
