(* ===== verification/RtlProps.thy ===== *)
theory RtlProps
  imports Rtl
begin

text \<open>
  The bit-serial reading of the card's EEPROM, the station address that the probe sets, and why nothing is ever received.
\<close>

section \<open>State that the routines keep\<close>

lemma rtl_in_simps [simp]:
  "fst (rtl_in env r s) = env (rtl_out s) (rtl_reads s) r" "rtl_reads (snd (rtl_in env r s)) = Suc (rtl_reads s)"
  "rtl_out (snd (rtl_in env r s)) = rtl_out s" "ioaddr (snd (rtl_in env r s)) = ioaddr s"
  "enetaddr (snd (rtl_in env r s)) = enetaddr s"
  by (simp_all add: rtl_in_def)

lemma eeprom_delay_simps [simp]:
  "rtl_reads (eeprom_delay env e s) = Suc (rtl_reads s)" "rtl_out (eeprom_delay env e s) = rtl_out s"
  "ioaddr (eeprom_delay env e s) = ioaddr s" "enetaddr (eeprom_delay env e s) = enetaddr s"
  by (simp_all add: eeprom_delay_def)

lemma put_simps [simp]:
  "rtl_reads (put w s) = rtl_reads s" "rtl_out (put w s) = rtl_out s @ [w]" "ioaddr (put w s) = ioaddr s"
  "enetaddr (put w s) = enetaddr s"
  by (simp_all add: put_def)

section \<open>The EEPROM protocol\<close>

text \<open>A bit of the command on the data line, before and at the clock's rise.\<close>

definition command_bit :: "u32 \<Rightarrow> u32 \<Rightarrow> nat \<Rightarrow> rtl_write list" where
  "command_bit ee cmd i =
     (let d = (if bit cmd i then 2 else 0) in [WrB ee (0x88 OR d), WrB ee (0x88 OR d OR 4)])"

lemma shift_out_simps [simp]:
  "rtl_reads (shift_out env ee cmd n s) = rtl_reads s + 2 * n" "ioaddr (shift_out env ee cmd n s) = ioaddr s"
  "enetaddr (shift_out env ee cmd n s) = enetaddr s"
  "rtl_out (shift_out env ee cmd n s) = rtl_out s @ concat (map (command_bit ee cmd) (rev [0..<n]))"
  by (induction n arbitrary: s)
    (simp_all add: Let_def command_bit_def EE_ENB_def EE_CS_def EE_DATA_WRITE_def EE_SHIFT_CLK_def
      bit_iff_and_push_bit_not_eq_0)

text \<open>The writes of \<open>k\<close> clocks without data, and the answer to the read after the next rise, the first read being number \<open>m\<close>.\<close>

definition pulses :: "u32 \<Rightarrow> nat \<Rightarrow> rtl_write list" where
  "pulses ee k = concat (replicate k [WrB ee 0x8C, WrB ee 0x88])"

lemma pulses_simps: "pulses ee 0 = []" "pulses ee (Suc k) = WrB ee 0x8C # WrB ee 0x88 # pulses ee k"
  by (simp_all add: pulses_def)

definition data_bit :: "rtl_env \<Rightarrow> u32 \<Rightarrow> rtl_write list \<Rightarrow> nat \<Rightarrow> nat \<Rightarrow> bool" where
  "data_bit env ee out m k \<longleftrightarrow> env (out @ pulses ee k @ [WrB ee 0x8C]) (m + 3 * k + 1) (InB ee) AND 1 \<noteq> 0"

lemma data_bit_Suc: "data_bit env ee (out @ [WrB ee 0x8C, WrB ee 0x88]) (m + 3) k = data_bit env ee out m (Suc k)"
  by (simp add: data_bit_def pulses_simps(2))

lemma shift_in_bits:
  "bit (fst (shift_in env ee n r s)) i \<longleftrightarrow>
     (if i < n then i < 32 \<and> data_bit env ee (rtl_out s) (rtl_reads s) (n - Suc i) else bit (push_bit n r) i)"
proof (induction n arbitrary: r s)
  case (Suc n)
  let ?b = "data_bit env ee (rtl_out s) (rtl_reads s) 0"
  define s3 where "s3 = eeprom_delay env ee (put (WrB ee EE_ENB) (snd (rtl_in env (InB ee)
      (eeprom_delay env ee (put (WrB ee (EE_ENB OR EE_SHIFT_CLK)) s)))))"
  have "rtl_out s3 = rtl_out s @ [WrB ee 0x8C, WrB ee 0x88]" "rtl_reads s3 = rtl_reads s + 3"
    by (simp_all add: s3_def EE_ENB_def EE_CS_def EE_SHIFT_CLK_def)
  then have d: "data_bit env ee (rtl_out s3) (rtl_reads s3) k = data_bit env ee (rtl_out s) (rtl_reads s) (Suc k)" for k
    by (simp only: data_bit_Suc)
  have "fst (shift_in env ee (Suc n) r s) = fst (shift_in env ee n (push_bit 1 r OR of_bool ?b) s3)"
    by (simp add: Let_def split_def s3_def data_bit_def pulses_simps EE_ENB_def EE_CS_def EE_SHIFT_CLK_def EE_DATA_READ_def)
  then have "bit (fst (shift_in env ee (Suc n) r s)) i \<longleftrightarrow>
      (if i < n then i < 32 \<and> data_bit env ee (rtl_out s) (rtl_reads s) (Suc (n - Suc i))
       else bit (push_bit n (push_bit 1 r OR of_bool ?b)) i)"
    by (simp only: Suc.IH d)
  then show ?case by (cases "i = n") (auto simp: bit_simps bit_0 Suc_diff_Suc not_less_eq simp del: shift_in.simps)
qed simp

lemma shift_in_simps [simp]:
  "rtl_reads (snd (shift_in env ee n r s)) = rtl_reads s + 3 * n" "ioaddr (snd (shift_in env ee n r s)) = ioaddr s"
  "enetaddr (snd (shift_in env ee n r s)) = enetaddr s"
  "rtl_out (snd (shift_in env ee n r s)) = rtl_out s @ pulses ee n"
  by (induction n arbitrary: r s)
    (simp_all add: Let_def split_def pulses_simps EE_ENB_def EE_CS_def EE_SHIFT_CLK_def)

text \<open>The writes of an access up to the first data bit.\<close>

definition eeprom_command :: "u32 \<Rightarrow> u32 \<Rightarrow> nat \<Rightarrow> rtl_write list" where
  "eeprom_command ee location addr_len =
     [WrB ee 0x80, WrB ee 0x88] @
     concat (map (command_bit ee (location OR push_bit addr_len 6)) (rev [0..<5 + addr_len])) @ [WrB ee 0x88]"

lemma read_eeprom_simps:
  "bit (fst (read_eeprom env location addr_len s)) i \<longleftrightarrow>
     i < 16 \<and> data_bit env (ioaddr s + Cfg9346) (rtl_out s @ eeprom_command (ioaddr s + Cfg9346) location addr_len)
       (12 + (rtl_reads s + 2 * addr_len)) (15 - i)"
  "ioaddr (snd (read_eeprom env location addr_len s)) = ioaddr s"
  "enetaddr (snd (read_eeprom env location addr_len s)) = enetaddr s"
  by (auto simp: read_eeprom_def Let_def split_def shift_in_bits eeprom_command_def EE_ENB_def EE_CS_def EE_READ_CMD_def
      simp del: shift_in.simps shift_out.simps upt_Suc concat.simps replicate.simps)

subsection \<open>The device\<close>

text \<open>
  The EEPROM sees the register's bits 3 (chip select), 2 (clock) and 1 (data): with the chip selected it takes a data bit
  at each rise of the clock. The state is the level of the clock and the bits taken since the chip was selected.
\<close>

definition ee_step :: "u32 \<Rightarrow> rtl_write \<Rightarrow> bool \<times> bool list \<Rightarrow> bool \<times> bool list" where
  "ee_step ee w st =
     (case w of
        WrB p v \<Rightarrow>
          if p \<noteq> ee then st
          else if \<not> bit v 3 then (False, [])
          else (bit v 2, if bit v 2 \<and> \<not> fst st then snd st @ [bit v 1] else snd st)
      | _ \<Rightarrow> st)"

definition ee_taken :: "u32 \<Rightarrow> rtl_write list \<Rightarrow> bool \<times> bool list" where
  "ee_taken ee out = fold (ee_step ee) out (False, [])"

text \<open>
  After any zeros, a start bit, the opcode \<open>10\<close> of a read, and an address of \<open>w\<close> bits, the next clocks bring the
  data bits: the address read and how many data bits have come.
\<close>

definition ee_reading :: "nat \<Rightarrow> bool list \<Rightarrow> (u32 \<times> nat) option" where
  "ee_reading w bs =
     (let b = dropWhile Not bs in
      if take 3 b = [True, True, False] \<and> 3 + w < length b
      then Some (horner_sum of_bool 2 (rev (take w (drop 3 b))), length b - 3 - w) else None)"

text \<open>The data line carries the word at that address, its highest bit first.\<close>

definition serial_eeprom :: "rtl_env \<Rightarrow> u32 \<Rightarrow> nat \<Rightarrow> (u32 \<Rightarrow> u16) \<Rightarrow> bool" where
  "serial_eeprom env ee w rom \<longleftrightarrow>
     (\<forall>out n a j. ee_reading w (snd (ee_taken ee out)) = Some (a, j) \<longrightarrow> j \<le> 16 \<longrightarrow>
        (env out n (InB ee) AND 1 \<noteq> 0 \<longleftrightarrow> bit (rom a) (16 - j)))"

lemma ee_taken_append: "ee_taken ee (out @ out') = fold (ee_step ee) out' (ee_taken ee out)"
  by (simp add: ee_taken_def)

lemma ee_step_simps [simp]:
  "ee_step ee (WrB ee 0x80) st = (False, [])" "ee_step ee (WrB ee 0x88) (c, bs) = (False, bs)"
  "ee_step ee (WrB ee 0x8C) (False, bs) = (True, bs @ [False])"
  by (simp_all add: ee_step_def bit_numeral_rec)

lemma ee_taken_command:
  "\<exists>c'. fold (ee_step ee) (concat (map (command_bit ee cmd) is)) (c, bs) = (c', bs @ map (bit cmd) is)"
proof (induction "is" arbitrary: c bs)
  case (Cons i "is")
  have "fold (ee_step ee) (command_bit ee cmd i) (c, bs) = (True, bs @ [bit cmd i])"
    by (simp add: command_bit_def ee_step_def bit_simps bit_numeral_rec Let_def)
  with Cons [of True "bs @ [bit cmd i]"] show ?case by simp
qed simp

lemma ee_taken_pulses: "fold (ee_step ee) (pulses ee k) (False, bs) = (False, bs @ replicate k False)"
  by (induction k arbitrary: bs) (simp_all add: pulses_simps)

lemma ee_taken_read:
  "snd (ee_taken ee (out @ eeprom_command ee location addr_len @ pulses ee k @ [WrB ee 0x8C])) =
     map (bit (location OR push_bit addr_len 6)) (rev [0..<5 + addr_len]) @ replicate (Suc k) False"
proof -
  let ?cmd = "location OR push_bit addr_len 6"
  obtain c where "fold (ee_step ee) (concat (map (command_bit ee ?cmd) (rev [0..<5 + addr_len]))) (False, []) =
      (c, map (bit ?cmd) (rev [0..<5 + addr_len]))"
    using ee_taken_command [of ee ?cmd "rev [0..<5 + addr_len]" False "[]"] by auto
  then show ?thesis
    by (simp add: ee_taken_append eeprom_command_def ee_taken_pulses del: upt_Suc flip: replicate_append_same)
qed

text \<open>The driver's reads, with the address width of the device and, for the first one, with 8 bits whatever the device has.\<close>

lemma ee_reading_right:
  assumes "w = 6 \<or> w = 8" and "l \<in> {0, 7, 8, 9}"
  shows "ee_reading w (map (bit (l OR push_bit w 6)) (rev [0..<5 + w]) @ replicate (Suc k) False) = Some (l, Suc k)"
proof -
  have "map (bit (l OR push_bit w 6)) (rev [0..<5 + w]) = [False, False, True, True, False] @ map (bit l) (rev [0..<w])"
    using assms by (elim disjE insertE; simp add: bit_numeral_rec upt_rec)
  moreover have "horner_sum of_bool 2 (rev (map (bit l) (rev [0..<w]))) = l"
    using assms by (elim disjE insertE; simp add: bit_numeral_rec upt_rec)
  ultimately show ?thesis by (simp add: ee_reading_def)
qed

lemma ee_reading_short:
  "ee_reading 6 (map (bit (0 OR push_bit 8 6 :: u32)) (rev [0..<5 + 8]) @ replicate (Suc k) False) = Some (0, Suc k + 2)"
proof -
  have "map (bit (0 OR push_bit 8 6 :: u32)) (rev [0..<5 + 8]) =
      [False, False, True, True, False, False, False, False, False, False, False, False, False]"
    by (simp add: bit_numeral_rec upt_rec)
  then show ?thesis by (simp add: ee_reading_def)
qed

lemma read_eeprom_bit:
  assumes "serial_eeprom env (ioaddr s + Cfg9346) w rom" and "e \<le> i" and "i < 16"
    and "\<And>k. ee_reading w (map (bit (location OR push_bit addr_len 6)) (rev [0..<5 + addr_len]) @ replicate (Suc k) False) =
      Some (a, Suc k + e)"
  shows "bit (fst (read_eeprom env location addr_len s)) i \<longleftrightarrow> bit (rom a) (i - e)"
proof -
  let ?ee = "ioaddr s + Cfg9346"
  let ?out = "rtl_out s @ eeprom_command ?ee location addr_len"
  have "ee_reading w (snd (ee_taken ?ee (?out @ pulses ?ee (15 - i) @ [WrB ?ee 0x8C]))) = Some (a, Suc (15 - i) + e)"
    by (simp only: append_assoc ee_taken_read assms(4))
  moreover have "Suc (15 - i) + e \<le> 16" "16 - (Suc (15 - i) + e) = i - e" using assms(2,3) by simp_all
  ultimately have "data_bit env ?ee ?out n (15 - i) \<longleftrightarrow> bit (rom a) (i - e)" for n
    using assms(1) unfolding serial_eeprom_def data_bit_def by (metis append_assoc)
  then show ?thesis using assms(3) by (simp add: read_eeprom_simps)
qed

lemma read_eeprom_word:
  assumes "serial_eeprom env (ioaddr s + Cfg9346) w rom" and "w = 6 \<or> w = 8" and "l \<in> {0, 7, 8, 9}"
  shows "fst (read_eeprom env l w s) = ucast (rom l)"
proof (rule bit_word_eqI)
  fix i assume "i < LENGTH(32)"
  show "bit (fst (read_eeprom env l w s)) i \<longleftrightarrow> bit (ucast (rom l) :: u32) i"
  proof (cases "i < 16")
    case True
    with read_eeprom_bit [OF assms(1) le0 True, of l w l] ee_reading_right [OF assms(2,3)] show ?thesis
      by (simp add: bit_simps)
  next
    case False
    then show ?thesis by (auto simp: read_eeprom_simps bit_simps dest: bit_imp_le_length)
  qed
qed

text \<open>With the signature \<open>0x8129\<close> in location 0 the first read tells the two widths apart.\<close>

lemma probe_width:
  assumes "serial_eeprom env (ioaddr s + Cfg9346) w rom" and "w = 6 \<or> w = 8" and "rom 0 = 0x8129"
  shows "fst (read_eeprom env 0 8 s) = 0x8129 \<longleftrightarrow> w = 8"
proof (cases "w = 8")
  case True
  with assms read_eeprom_word [OF assms(1,2), of 0] show ?thesis by simp
next
  case False
  with assms(1,2) have "serial_eeprom env (ioaddr s + Cfg9346) 6 rom" by simp
  from read_eeprom_bit [OF this, of 2 15 0 8 0] ee_reading_short
  have "\<not> bit (fst (read_eeprom env 0 8 s)) 15" using assms(3) by (simp add: bit_numeral_rec)
  moreover have "bit (0x8129 :: u32) 15" by simp
  ultimately show ?thesis using False by metis
qed

section \<open>The probe\<close>

lemma await_reset_simps [simp]:
  "ioaddr (await_reset env n s) = ioaddr s" "enetaddr (await_reset env n s) = enetaddr s"
  "rtl_out (await_reset env n s) = rtl_out s"
  by (induction n arbitrary: s) (simp_all add: Let_def split_def)

lemma put_mac_out:
  "ioaddr (put_mac s) = ioaddr s" "enetaddr (put_mac s) = enetaddr s"
  "rtl_out (put_mac s) = rtl_out s @ map (\<lambda>i. WrB (ioaddr s + MAC0 + of_nat i) (enetaddr s ! i)) [0..<6]"
  by (simp_all add: put_mac_def upt_rec)

text \<open>The last byte written to a port.\<close>

definition last_byte :: "u32 \<Rightarrow> rtl_write list \<Rightarrow> u8 option" where
  "last_byte p out = fold (\<lambda>w r. case w of WrB q v \<Rightarrow> if q = p then Some v else r | _ \<Rightarrow> r) out None"

lemma last_byte_from:
  "fold (\<lambda>w r. case w of WrB q v \<Rightarrow> if q = p then Some v else r | _ \<Rightarrow> r) b r =
     (case last_byte p b of None \<Rightarrow> r | Some v \<Rightarrow> Some v)"
proof (induction b rule: rev_induct)
  case (snoc w b)
  then show ?case by (cases w) (simp_all add: last_byte_def)
qed (simp add: last_byte_def)

lemma last_byte_append:
  "last_byte p (a @ b) = (case last_byte p b of None \<Rightarrow> last_byte p a | Some v \<Rightarrow> Some v)"
proof -
  have "last_byte p (a @ b) = fold (\<lambda>w r. case w of WrB q v \<Rightarrow> if q = p then Some v else r | _ \<Rightarrow> r) b (last_byte p a)"
    by (simp add: last_byte_def)
  then show ?thesis by (simp only: last_byte_from)
qed

lemma last_byte_one: "last_byte p [WrB q v] = (if q = p then Some v else None)" "last_byte p [WrW q u] = None"
  "last_byte p [WrL q t] = None"
  by (simp_all add: last_byte_def)

lemma word_of_small: "i < 64 \<Longrightarrow> j < 64 \<Longrightarrow> (of_nat i :: u32) = of_nat j \<longleftrightarrow> i = j"
  by (simp add: word_unat_eq_iff unat_of_nat take_bit_nat_eq_self)

lemma last_byte_each:
  "n \<le> 64 \<Longrightarrow> i < n \<Longrightarrow> last_byte (b + of_nat i) (map (\<lambda>i. WrB (b + of_nat i) (m i)) [0..<n]) = Some (m i)"
proof (induction n)
  case (Suc n)
  then show ?case using word_of_small [of i n] by (auto simp: last_byte_append last_byte_one less_Suc_eq)
qed simp

lemma rtl_reset_out:
  "ioaddr (rtl_reset env rx s) = ioaddr s" "enetaddr (rtl_reset env rx s) = enetaddr s"
  "i < 6 \<Longrightarrow> last_byte (ioaddr s + MAC0 + of_nat i) (rtl_out (rtl_reset env rx s)) = Some (enetaddr s ! i)"
proof -
  show "ioaddr (rtl_reset env rx s) = ioaddr s" "enetaddr (rtl_reset env rx s) = enetaddr s"
    by (simp_all add: rtl_reset_def Let_def set_rx_mode_def put_mac_out)
  assume i: "i < 6"
  define s1 where "s1 = (put (WrB (ioaddr s + ChipCmd) (ucast CmdReset)) s)\<lparr>cur_rx := 0, cur_tx := 0\<rparr>"
  have s1: "ioaddr s1 = ioaddr s" "enetaddr s1 = enetaddr s" by (simp_all add: s1_def)
  have ne: "ioaddr s + ChipCmd \<noteq> ioaddr s + MAC0 + of_nat i"
    using i word_of_small [of i 55] by (auto simp: MAC0_def ChipCmd_def)
  have "\<exists>out. rtl_out (rtl_reset env rx s) = rtl_out (put_mac (await_reset env 100 s1)) @ out \<and>
      last_byte (ioaddr s + MAC0 + of_nat i) out = None"
    using ne
    by (simp add: rtl_reset_def Let_def set_rx_mode_def s1_def [symmetric])
      (simp add: last_byte_def)
  then have "last_byte (ioaddr s + MAC0 + of_nat i) (rtl_out (rtl_reset env rx s)) =
      last_byte (ioaddr s + MAC0 + of_nat i) (rtl_out (put_mac (await_reset env 100 s1)))"
    by (auto simp: last_byte_append)
  also have "\<dots> = Some (enetaddr s ! i)"
    using i by (simp only: put_mac_out(3) await_reset_simps s1 last_byte_append last_byte_each option.case)
  finally show "last_byte (ioaddr s + MAC0 + of_nat i) (rtl_out (rtl_reset env rx s)) = Some (enetaddr s ! i)" .
qed

definition word_bytes :: "u16 \<Rightarrow> bytes" where
  "word_bytes w = [ucast w, ucast (drop_bit 8 w)]"

lemma word_bytes_wide: "[ucast (ucast w :: u32), ucast (drop_bit 8 (ucast w :: u32))] = word_bytes w"
  unfolding word_bytes_def by (intro arg_cong2 [where f = "\<lambda>a b. [a, b]"]; rule bit_word_eqI; auto simp: bit_simps dest: bit_imp_le_length)

lemma ucast_same: "(ucast a :: u32) = ucast b \<longleftrightarrow> a = (b :: u16)"
proof
  assume eq: "(ucast a :: u32) = ucast b"
  have "bit a n = bit b n" if "n < 16" for n
    using arg_cong [OF eq, of "\<lambda>x. bit x n"] that by (simp add: bit_simps)
  then show "a = b" by (auto intro: bit_word_eqI)
qed simp

text \<open>
  Claim C40. With a serial EEPROM of 6 or 8 address bits that has the signature \<open>0x8129\<close> in location 0, probing the card finds
  the width out and reads the words of locations 7, 8 and 9, bit by bit, by read commands with those addresses; the station
  address is the bytes of these words in order, and what the probe leaves in the card's address registers.
\<close>

theorem rtl_probe_sets_address:
  assumes "serial_eeprom env (io + Cfg9346) w rom" and "w = 6 \<or> w = 8" and "rom 0 = 0x8129"
  shows "let s' = snd (rtl8139_probe env rx io s) in
    enetaddr s' = word_bytes (rom 7) @ word_bytes (rom 8) @ word_bytes (rom 9) \<and>
    (\<forall>i < 6. last_byte (io + MAC0 + of_nat i) (rtl_out s') = Some (enetaddr s' ! i))"
proof -
  define s1 where "s1 = put (WrB (io + Config1) 0x00) (s\<lparr>ioaddr := io\<rparr>)"
  define s2 where "s2 = snd (read_eeprom env 0 8 s1)"
  define t0 where "t0 = snd (read_eeprom env 7 w s2)"
  define t1 where "t1 = snd (read_eeprom env 8 w t0)"
  have io: "ioaddr s1 = io" "ioaddr s2 = io" "ioaddr t0 = io" "ioaddr t1 = io"
    by (simp_all add: s1_def s2_def t0_def t1_def read_eeprom_simps)
  have len: "(if fst (read_eeprom env 0 8 s1) = 0x8129 then 8 else 6) = w"
    using probe_width [of env s1 w rom] assms io by auto
  have r: "fst (read_eeprom env l w t) = ucast (rom l)" if "ioaddr t = io" "l \<in> {0, 7, 8, 9}" for t l
    using read_eeprom_word [of env t w rom l] assms that by simp
  define m where "m = word_bytes (rom 7) @ word_bytes (rom 8) @ word_bytes (rom 9)"
  have probe: "fst (probe_words env w s2) = m"
    using r [of s2 7] r [of t0 8] r [of t1 9] io
    by (simp add: probe_words_def Let_def split_def t0_def [symmetric] t1_def [symmetric] m_def flip: word_bytes_wide)
  define s3 where "s3 = snd (probe_words env w s2)"
  have s3: "ioaddr s3 = io"
    by (simp add: s3_def probe_words_def Let_def split_def read_eeprom_simps io)
  define s5 where "s5 = snd (rtl_in env (InW (io + MII_BMCR)) (snd (rtl_in env (InB (io + MediaStatus)) (s3\<lparr>enetaddr := m\<rparr>))))"
  have s5: "ioaddr s5 = io" "enetaddr s5 = m" by (simp_all add: s5_def s3)
  have s': "snd (rtl8139_probe env rx io s) = snd (rtl_in env (InB (io + MediaStatus)) (rtl_reset env rx s5))"
    using len probe
    by (simp add: rtl8139_probe_def Let_def split_def s1_def [symmetric] s2_def [symmetric] s3_def [symmetric] s5_def [symmetric])
  then show ?thesis using rtl_reset_out(2) [of env rx s5] rtl_reset_out(3) [where s = s5 and env = env and rx = rx] s5 by (simp add: Let_def m_def)
qed

text \<open>A card with 6 address bits and the address 00:11:22:33:44:55.\<close>

definition demo_rom :: "u32 \<Rightarrow> u16" where
  "demo_rom a = (if a = 0 then 0x8129 else if a = 7 then 0x1100 else if a = 8 then 0x3322 else if a = 9 then 0x5544 else 0)"

definition demo_card :: rtl_env where
  "demo_card out n r =
     (if r = InB Cfg9346
      then case ee_reading 6 (snd (ee_taken Cfg9346 out)) of
             None \<Rightarrow> 0
           | Some (a, j) \<Rightarrow> of_bool (bit (demo_rom a) (16 - j))
      else 0)"

theorem rtl_probe_sets_address_witness:
  "let s' = snd (rtl8139_probe demo_card 0 0 \<lparr>enetaddr = [], ioaddr = 0, cur_rx = 0, cur_tx = 0, tx_buffer = [], rx_ring = [],
       rtl_reads = 0, rtl_out = []\<rparr>) in
     enetaddr s' = [0x00, 0x11, 0x22, 0x33, 0x44, 0x55] \<and> last_byte 1 (rtl_out s') = Some 0x11"
proof -
  have "serial_eeprom demo_card (0 + Cfg9346) 6 demo_rom"
    by (simp add: serial_eeprom_def demo_card_def)
  from rtl_probe_sets_address [OF this, of 0 "\<lparr>enetaddr = [], ioaddr = 0, cur_rx = 0, cur_tx = 0, tx_buffer = [], rx_ring = [],
      rtl_reads = 0, rtl_out = []\<rparr>"]
  show ?thesis by (auto simp: Let_def word_bytes_def demo_rom_def MAC0_def dest: spec [of _ 1])
qed

section \<open>Receiving\<close>

text \<open>
  \<open>rtl_poll\<close> takes the address of the packet for its header. With the ring of the driver above 0x05EF0000, where a
  user program is, no packet is ever received: each poll with a packet waiting reads two registers, acknowledges the
  interrupts and resets the card.
\<close>

lemma rtl_poll_resets:
  assumes "env (rtl_out s) (rtl_reads s) (InB (ioaddr s + ChipCmd)) AND RxBufEmpty = 0"
    and "1518 < unat (drop_bit 16 (rx_addr + cur_rx s mod RX_BUF_LEN))"
  shows "rtl_poll env rx_addr s = Inr (0, rtl_reset env rx_addr (s\<lparr>rtl_reads := Suc (Suc (rtl_reads s)),
    rtl_out := rtl_out s @ [WrW (ioaddr s + IntrStatus) (ucast (env (rtl_out s) (Suc (rtl_reads s)) (InW (ioaddr s + IntrStatus)) AND
      NOT (RxFIFOOver OR RxOverflow OR RxOK)))]\<rparr>))"
proof -
  have "drop_bit 16 (rx_addr + cur_rx s mod RX_BUF_LEN) > of_nat ETH_FRAME_LEN + 4"
    using assms(2) by (simp add: word_less_nat_alt ETH_FRAME_LEN_def)
  then show ?thesis
    using assms(1) by (simp add: rtl_poll_def Let_def rtl_in_def put_def)
qed

end
