(* ===== verification/Shell.thy ===== *)
theory Shell
  imports UserProc
begin

text \<open>
  \<^verbatim>\<open>src/packages/sh/main.cpp\<close>, the command line: one line at a time, split into words. What a command does besides changing
  the current directory is a list of events; the prompt and the other printed lines are left out. \<open>opendir\<close>,
  \<open>fexists\<close> and the rest are the functions of the user library.
\<close>

definition string_c_str :: "std_string \<Rightarrow> bytes result" where
  "string_c_str s = (case st_str s of None \<Rightarrow> Inl NullDeref | Some b \<Rightarrow> Inr b)"

text \<open>A word of the line; the vector does not check its index.\<close>

definition word_at :: "std_string list \<Rightarrow> nat \<Rightarrow> std_string result" where
  "word_at ws i = (if i < length ws then Inr (ws ! i) else Inl OutOfBounds)"

definition path_join :: "std_string \<Rightarrow> std_string \<Rightarrow> std_string result" where
  "path_join a b =
     (if st_length a = 0 then string_copy b
      else rbind (string_at a (st_length a - 1)) (\<lambda>c.
           if c = 47 then string_plus a b
           else rbind (string_plus_char a 47) (\<lambda>a1. string_plus a1 b)))"

datatype sh_event =
    ShEntry vfs_dirent
  | ShNoDirectory std_string
  | ShNotFound std_string
  | ShIsDirectory std_string
  | ShSleep u32
  | ShRun program bool

section \<open>ls\<close>

fun sh_ls_loop ::
  "nat \<Rightarrow> 's fs_call \<Rightarrow> (nat \<Rightarrow> bytes) \<Rightarrow> dir_stream option \<Rightarrow> 's \<Rightarrow> (sh_event list \<times> 's) result" where
  "sh_ls_loop 0 call fresh dirp s = Inl Diverges"
| "sh_ls_loop (Suc fuel) call fresh dirp s =
     rbind (readdir call fresh dirp s) (\<lambda>(dirent, dirp1, s1).
     case dirent of
       None \<Rightarrow> Inr ([], s1)
     | Some e \<Rightarrow> rbind (sh_ls_loop fuel call fresh dirp1 s1) (\<lambda>(ev, s2). Inr (ShEntry e # ev, s2)))"

definition sh_ls ::
  "nat \<Rightarrow> 's fs_call \<Rightarrow> (nat \<Rightarrow> bytes) \<Rightarrow> vfs_node option \<Rightarrow> std_string \<Rightarrow> 's \<Rightarrow> (std_string \<times> sh_event list \<times> 's) result" where
  "sh_ls fuel call fresh root cwd s =
     rbind (string_c_str cwd) (\<lambda>b.
     rbind (opendir call fresh root b s) (\<lambda>(dirp, s1).
     rbind (sh_ls_loop fuel call fresh dirp s1) (\<lambda>(ev, s2). Inr (cwd, ev, s2))))"

section \<open>cd\<close>

text \<open>The path a \<^verbatim>\<open>cd\<close> leads to, before it is tidied; none when there is nothing to do.\<close>

definition cd_path :: "std_string \<Rightarrow> std_string \<Rightarrow> std_string option result" where
  "cd_path cwd w =
     rbind (string_eq_c w (Some (cstr ''.''))) (\<lambda>dot.
     if dot then Inr None
     else rbind (string_eq_c w (Some (cstr ''..''))) (\<lambda>up.
     if up
     then rbind (string_eq_c cwd (Some (cstr ''/''))) (\<lambda>top_dir.
          if top_dir then Inr None
          else rbind (string_rfind cwd 47 npos) (\<lambda>k. rbind (string_substr cwd 0 k) (\<lambda>p. Inr (Some p))))
     else rbind (string_at w 0) (\<lambda>c.
          rbind (if c = 47 then string_assign w else path_join cwd w) (\<lambda>p. Inr (Some p)))))"

definition tidy_path :: "std_string \<Rightarrow> std_string result" where
  "tidy_path p =
     (if st_length p = 0 then Inr (string_of_char 47)
      else if st_length p > 1
      then rbind (string_at p (st_length p - 1)) (\<lambda>c. if c = 47 then string_substr p 0 (st_length p - 1) else Inr p)
      else Inr p)"

definition sh_cd ::
  "'s fs_call \<Rightarrow> (nat \<Rightarrow> bytes) \<Rightarrow> vfs_node option \<Rightarrow> std_string list \<Rightarrow> std_string \<Rightarrow> 's \<Rightarrow>
     (std_string \<times> sh_event list \<times> 's) result" where
  "sh_cd call fresh root ws cwd s =
     rbind (word_at ws 1) (\<lambda>w.
     rbind (cd_path cwd w) (\<lambda>p.
     case p of
       None \<Rightarrow> Inr (cwd, [], s)
     | Some p1 \<Rightarrow>
         rbind (tidy_path p1) (\<lambda>path.
         rbind (string_c_str path) (\<lambda>b.
         rbind (opendir call fresh root b s) (\<lambda>(dirp, s1).
         if dirp = None then Inr (cwd, [ShNoDirectory w], s1)
         else rbind (string_assign path) (\<lambda>c. Inr (c, [], s1)))))))"

section \<open>Programs\<close>

definition sh_program ::
  "'s fs_call \<Rightarrow> (nat \<Rightarrow> bytes) \<Rightarrow> vfs_node option \<Rightarrow> std_string list \<Rightarrow> std_string \<Rightarrow> 's \<Rightarrow>
     (std_string \<times> sh_event list \<times> 's) result" where
  "sh_program call fresh root ws cwd s =
     rbind (word_at ws 0) (\<lambda>w.
     rbind (string_at w 0) (\<lambda>c.
     rbind (if c = 47 then string_assign w else path_join cwd w) (\<lambda>p.
     rbind (string_at p (st_length p - 1)) (\<lambda>e.
     let bg = (e = 38) in
     rbind (if bg then string_substr p 0 (st_length p - 1) else Inr p) (\<lambda>path.
     rbind (string_c_str path) (\<lambda>b.
     rbind (fexists call fresh root b s) (\<lambda>(there, s1).
     if \<not> there then Inr (cwd, [ShNotFound w], s1)
     else rbind (fdir call fresh root b s1) (\<lambda>(dir, s2).
          if dir then Inr (cwd, [ShIsDirectory w], s2)
          else rbind (bootstrap call fresh root b ws bootstrap_options_new s2) (\<lambda>(pr, s3).
               Inr (cwd, [ShRun pr (\<not> bg)], s3))))))))))"

section \<open>A line\<close>

definition sh_usleep :: "std_string list \<Rightarrow> std_string \<Rightarrow> 's \<Rightarrow> (std_string \<times> sh_event list \<times> 's) result" where
  "sh_usleep ws cwd s =
     rbind (word_at ws 1) (\<lambda>w. rbind (string_c_str w) (\<lambda>b. rbind (atoi b) (\<lambda>n.
     Inr (cwd, [ShSleep (word_of_int n)], s))))"

definition sh_command ::
  "nat \<Rightarrow> 's fs_call \<Rightarrow> (nat \<Rightarrow> bytes) \<Rightarrow> vfs_node option \<Rightarrow> std_string list \<Rightarrow> std_string \<Rightarrow> 's \<Rightarrow>
     (std_string \<times> sh_event list \<times> 's) result" where
  "sh_command fuel call fresh root ws cwd s =
     (if ws = [] then Inr (cwd, [], s)
      else rbind (string_eq_c (ws ! 0) (Some (cstr ''ls''))) (\<lambda>ls.
           if ls then sh_ls fuel call fresh root cwd s
           else rbind (string_eq_c (ws ! 0) (Some (cstr ''cd''))) (\<lambda>cd.
           if cd then sh_cd call fresh root ws cwd s
           else rbind (string_eq_c (ws ! 0) (Some (cstr ''usleep''))) (\<lambda>sleep.
           if sleep then sh_usleep ws cwd s
           else sh_program call fresh root ws cwd s))))"

text \<open>The lines as \<open>getline\<close> gives them, from the directory \<open>cwd\<close> on.\<close>

fun sh_run ::
  "nat \<Rightarrow> 's fs_call \<Rightarrow> (nat \<Rightarrow> bytes) \<Rightarrow> vfs_node option \<Rightarrow> std_string list \<Rightarrow> std_string \<Rightarrow> 's \<Rightarrow>
     (std_string \<times> sh_event list \<times> 's) result" where
  "sh_run fuel call fresh root [] cwd s = Inr (cwd, [], s)"
| "sh_run fuel call fresh root (l # ls) cwd s =
     rbind (string_split l) (\<lambda>ws.
     rbind (sh_command fuel call fresh root ws cwd s) (\<lambda>(cwd1, ev, s1).
     rbind (sh_run fuel call fresh root ls cwd1 s1) (\<lambda>(cwd2, evs, s2). Inr (cwd2, ev @ evs, s2))))"

end
