(* ===== verification/ShellProps.thy ===== *)
theory ShellProps
  imports Shell FileStack
begin

text \<open>
  The shell's directory is the walk its \<^verbatim>\<open>cd\<close> commands describe: a directory is the list of the names from the root to it.
  The facts on strings are those of \<^verbatim>\<open>StdString\<close>; what the file system answers comes from the locale \<open>file_server\<close>.
\<close>

section \<open>Directories and words\<close>

definition path_of :: "bytes list \<Rightarrow> bytes" where
  "path_of cs = (if cs = [] then [47] else concat (map (\<lambda>c. 47 # c) cs))"

definition name_ok :: "bytes \<Rightarrow> bool" where
  "name_ok c \<longleftrightarrow> c \<noteq> [] \<and> 0 \<notin> set c \<and> 47 \<notin> set c"

text \<open>The words after \<^verbatim>\<open>cd\<close>: a dot, two dots, or names with single slashes between them, perhaps one before and one after.\<close>

datatype cd_word = Here | Up | Into bool "bytes list" bool

fun cd_text :: "cd_word \<Rightarrow> bytes" where
  "cd_text Here = [46]"
| "cd_text Up = [46, 46]"
| "cd_text (Into from_root names slash) =
     (if from_root then [47] else []) @ tl (concat (map (\<lambda>c. 47 # c) names)) @ (if slash then [47] else [])"

fun cd_word_ok :: "cd_word \<Rightarrow> bool" where
  "cd_word_ok (Into from_root names slash) \<longleftrightarrow> (\<forall>c \<in> set names. name_ok c) \<and> (names = [] \<longrightarrow> from_root \<and> \<not> slash) \<and>
     (\<not> from_root \<and> \<not> slash \<longrightarrow> names \<noteq> [[46]] \<and> names \<noteq> [[46, 46]])"
| "cd_word_ok w \<longleftrightarrow> True"

fun cd_target :: "bytes list \<Rightarrow> cd_word \<Rightarrow> bytes list" where
  "cd_target cs Here = cs"
| "cd_target cs Up = butlast cs"
| "cd_target cs (Into from_root names slash) = (if from_root then names else cs @ names)"

text \<open>Whether the shell looks the target up at all.\<close>

fun cd_looks :: "bytes list \<Rightarrow> cd_word \<Rightarrow> bool" where
  "cd_looks cs Here \<longleftrightarrow> False"
| "cd_looks cs Up \<longleftrightarrow> cs \<noteq> []"
| "cd_looks cs (Into from_root names slash) \<longleftrightarrow> True"

section \<open>Paths\<close>

lemma slashed_simps:
  assumes "\<forall>c \<in> set cs. name_ok c" and "cs \<noteq> []"
  shows "concat (map (\<lambda>c. 47 # c) cs) \<noteq> []" "hd (concat (map (\<lambda>c. 47 # c) cs)) = 47"
    "last (concat (map (\<lambda>c. 47 # c) cs)) \<noteq> (47 :: u8)" "tl (concat (map (\<lambda>c. 47 # c) cs)) \<noteq> []"
    "hd (tl (concat (map (\<lambda>c. 47 # c) cs))) \<noteq> (47 :: u8)"
proof -
  obtain c ds where c: "cs = c # ds" using assms(2) by (cases cs) auto
  obtain es d where d: "cs = es @ [d]" using assms(2) by (cases cs rule: rev_cases) auto
  have "d \<noteq> []" "47 \<notin> set d" using assms(1) d by (auto simp: name_ok_def)
  then have "last d \<noteq> 47" by (metis last_in_set)
  then show "last (concat (map (\<lambda>c. 47 # c) cs)) \<noteq> (47 :: u8)" using \<open>d \<noteq> []\<close> by (simp add: d)
  have "c \<noteq> []" "47 \<notin> set c" using assms(1) c by (auto simp: name_ok_def)
  then show "tl (concat (map (\<lambda>c. 47 # c) cs)) \<noteq> []" "hd (tl (concat (map (\<lambda>c. 47 # c) cs))) \<noteq> (47 :: u8)"
    by (cases c; simp add: c)+
qed (use assms(2) in \<open>cases cs; simp\<close>)+

lemma path_of_components: "\<forall>c \<in> set cs. name_ok c \<Longrightarrow> path_components (path_of cs) = cs"
proof -
  have "path_components (concat (map (\<lambda>c. 47 # c) cs)) = cs" if "\<forall>c \<in> set cs. name_ok c"
    using that
  proof (induction cs)
    case (Cons c cs)
    then obtain x xs where c: "c = x # xs" and x: "x \<noteq> 47" and xs: "47 \<notin> set xs" by (cases c) (auto simp: name_ok_def)
    let ?r = "concat (map (\<lambda>c. 47 # c) cs)"
    have r: "?r = [] \<or> (\<exists>q. ?r = 47 # q)" by (cases cs) auto
    have "takeWhile (\<lambda>y. y \<noteq> 47) (xs @ ?r) = xs" "dropWhile (\<lambda>y. y \<noteq> 47) (xs @ ?r) = ?r"
      using r xs by (auto simp: takeWhile_append dropWhile_append)
    with path_components_name [OF x, of "xs @ ?r"] Cons x show ?case by (simp add: c)
  qed simp
  then show "\<forall>c \<in> set cs. name_ok c \<Longrightarrow> path_components (path_of cs) = cs" by (auto simp: path_of_def)
qed

lemma path_of_chars: "\<forall>c \<in> set cs. name_ok c \<Longrightarrow> 0 \<notin> set (path_of cs)"
  by (auto simp: path_of_def name_ok_def)

lemma concat_slash: "names \<noteq> [] \<Longrightarrow> 47 # tl (concat (map (\<lambda>c. 47 # c) names)) = concat (map (\<lambda>c. 47 # c) names)"
  by (cases names) auto

lemma cd_text_chars: "cd_word_ok v \<Longrightarrow> 0 \<notin> set (cd_text v)"
proof (induction v rule: cd_text.induct)
  case (3 from_root names slash)
  then show ?case by (cases names) (auto simp: name_ok_def)
qed simp_all

lemma cd_text_plain:
  assumes "cd_word_ok (Into from_root names slash)"
  shows "cd_text (Into from_root names slash) \<noteq> [46]" "cd_text (Into from_root names slash) \<noteq> [46, 46]"
    "cd_text (Into from_root names slash) \<noteq> []" "hd (cd_text (Into from_root names slash)) = 47 \<longleftrightarrow> from_root"
proof -
  let ?j = "concat (map (\<lambda>c. 47 # c) names)"
  have ok: "\<forall>c \<in> set names. name_ok c" using assms by simp
  have names: "path_components (tl ?j) = names" if "names \<noteq> []"
    using path_of_components [OF ok] concat_slash [OF that] path_components_slash [of "tl ?j"] that by (simp add: path_of_def)
  have one: "path_components [46] = [[46]]" "path_components [46, 46] = [[46, 46]]" by (simp_all add: path_components_def)
  show "cd_text (Into from_root names slash) \<noteq> []"
    using assms slashed_simps [OF ok] by auto
  show "hd (cd_text (Into from_root names slash)) = 47 \<longleftrightarrow> from_root"
    using assms slashed_simps [OF ok] by (cases from_root) (auto simp: hd_append)
  show "cd_text (Into from_root names slash) \<noteq> [46]" "cd_text (Into from_root names slash) \<noteq> [46, 46]"
    using assms names one by (auto simp: append_eq_Cons_conv)
qed

section \<open>The path of a command\<close>

lemma tidy_path_ok:
  assumes "string_ok p (path_of cs @ (if slash then [47] else []))" and "\<forall>c \<in> set cs. name_ok c" and "cs = [] \<longrightarrow> \<not> slash"
  shows "\<exists>q. tidy_path p = Inr q \<and> string_full q (path_of cs)"
proof -
  let ?t = "path_of cs @ (if slash then [47] else [])"
  have len: "unat (st_length p) = length ?t" by (rule string_ok_length [OF assms(1)])
  have ne: "path_of cs \<noteq> []" using slashed_simps [OF assms(2)] by (auto simp: path_of_def)
  have zero: "st_length p \<noteq> 0" using len ne by auto
  have one: "st_length p > 1 \<longleftrightarrow> length ?t > 1" using len by (simp add: word_less_nat_alt)
  have prev: "unat (st_length p - 1) = length ?t - 1" using len ne
    by (metis One_nat_def Suc_pred diff_Suc_1 length_greater_0_conv append_is_Nil_conv unat_minus_one zero)
  show ?thesis
  proof (cases "length ?t > 1")
    case False
    then have "?t = path_of cs" using ne by (cases "path_of cs") (auto split: if_splits)
    with False zero one string_full_nonempty [OF assms(1)] ne show ?thesis by (simp add: tidy_path_def)
  next
    case True
    have at: "string_at p (st_length p - 1) = Inr (last ?t)"
      using string_at_ok [OF assms(1), of "st_length p - 1"] prev True ne by (simp add: last_conv_nth)
    have cut: "\<exists>q. string_substr p 0 (st_length p - 1) = Inr q \<and> string_ok q (butlast ?t)"
      using string_substr_ok [OF assms(1), of 0 "st_length p - 1"] prev by (simp add: butlast_conv_take)
    show ?thesis
    proof (cases slash)
      case True
      with cut at zero one \<open>length ?t > 1\<close> string_full_nonempty ne show ?thesis by (auto simp: tidy_path_def)
    next
      case False
      have "cs \<noteq> []" using \<open>length ?t > 1\<close> False by (auto simp: path_of_def)
      then have "last ?t \<noteq> 47" using slashed_simps(3) [OF assms(2)] False by (simp add: path_of_def)
      with False at zero one \<open>length ?t > 1\<close> string_full_nonempty [OF assms(1)] ne show ?thesis by (simp add: tidy_path_def)
    qed
  qed
qed

lemma tidy_path_empty: "string_ok p [] \<Longrightarrow> tidy_path p = Inr (string_of_char 47)"
  by (simp add: tidy_path_def string_ok_def)

lemma string_of_slash: "string_full (string_of_char 47) [47]"
  by (simp add: string_full_def string_ok_def string_of_char_def)

lemma path_join_ok:
  assumes "string_full a (path_of cs)" and "string_full b t" and "\<forall>c \<in> set cs. name_ok c" and "0 \<notin> set t"
    and "length (path_of cs) + length t + 2 < 2 ^ 32"
  shows "\<exists>p. path_join a b = Inr p \<and> string_full p ((if cs = [] then [] else path_of cs) @ 47 # t)"
proof -
  note a = string_fullD [OF assms(1)]
  have ne: "path_of cs \<noteq> []" using slashed_simps [OF assms(3)] by (auto simp: path_of_def)
  have zero: "st_length a \<noteq> 0" using a(4) ne by auto
  have prev: "unat (st_length a - 1) = length (path_of cs) - 1" using a(4) zero by (metis unat_minus_one)
  have at: "string_at a (st_length a - 1) = Inr (last (path_of cs))"
    using string_at_ok [OF a(1), of "st_length a - 1"] prev ne by (simp add: last_conv_nth)
  show ?thesis
  proof (cases "cs = []")
    case True
    then have "path_of cs = [47]" by (simp add: path_of_def)
    with string_plus_full [OF assms(1,2,4)] assms(5) at zero True show ?thesis by (auto simp: path_join_def)
  next
    case False
    then have l: "last (path_of cs) \<noteq> 47" using slashed_simps(3) [OF assms(3)] by (simp add: path_of_def)
    from string_plus_char_full [OF assms(1), of 47] assms(5) obtain a1 where
      "string_plus_char a 47 = Inr a1" "string_full a1 (path_of cs @ [47])" by auto
    with string_plus_full [of a1 "path_of cs @ [47]" b t] assms(2,4,5) at zero l False show ?thesis
      by (auto simp: path_join_def)
  qed
qed

lemma path_of_append: "cs @ ds \<noteq> [] \<Longrightarrow> path_of (cs @ ds) = concat (map (\<lambda>c. 47 # c) cs) @ concat (map (\<lambda>c. 47 # c) ds)"
  by (simp add: path_of_def)

lemma cd_path_up:
  assumes "string_full cwd (path_of cs)" and "\<forall>c \<in> set cs. name_ok c" and "cs \<noteq> []"
  shows "\<exists>p q. rbind (string_rfind cwd 47 npos) (\<lambda>k. string_substr cwd 0 k) = Inr p \<and> tidy_path p = Inr q \<and>
    string_full q (path_of (butlast cs))"
proof -
  obtain ds d where c: "cs = ds @ [d]" using assms(3) by (cases cs rule: rev_cases) auto
  let ?p = "concat (map (\<lambda>c. 47 # c) ds)"
  have path: "path_of cs = ?p @ 47 # d" by (simp add: c path_of_append)
  have d: "47 \<notin> set d" using assms(2) c by (simp add: name_ok_def)
  note cwd = string_fullD [OF assms(1)]
  have k: "string_rfind cwd 47 npos = Inr (of_nat (length ?p))"
    using string_rfind_ok [of cwd ?p 47 d] cwd(1) d path by simp
  have "length ?p < length (path_of cs)" unfolding path by simp
  then have u: "unat (of_nat (length ?p) :: u32) = length ?p" using cwd(5) by (intro of_nat_inverse [OF refl]) simp
  obtain p where p: "string_substr cwd 0 (of_nat (length ?p)) = Inr p" "string_ok p ?p"
    using string_substr_ok [OF cwd(1), of 0 "of_nat (length ?p)"] u path by auto
  show ?thesis
  proof (cases "ds = []")
    case True
    with p k show ?thesis using tidy_path_empty string_of_slash by (simp add: c path_of_def)
  next
    case False
    then have "?p = path_of ds" by (simp add: path_of_def)
    with p k tidy_path_ok [of p ds False] assms(2) show ?thesis by (simp add: c)
  qed
qed

text \<open>What a \<^verbatim>\<open>cd\<close> leads to, from the strings of the directory and of the word.\<close>

lemma cd_path_ok:
  assumes cwd: "string_full cwd (path_of cs)" and w: "string_full w (cd_text v)"
    and ok: "\<forall>c \<in> set cs. name_ok c" and v: "cd_word_ok v"
    and len: "length (path_of cs) + length (cd_text v) + 2 < 2 ^ 32"
  shows "if cd_looks cs v then \<exists>p q. cd_path cwd w = Inr (Some p) \<and> tidy_path p = Inr q \<and> string_full q (path_of (cd_target cs v))
    else cd_path cwd w = Inr None"
proof -
  have lit: "cstring (cstr ''.'') [46]" "cstring (cstr ''..'') [46, 46]" "cstring (cstr ''/'') [47]"
    by (simp_all add: cstring_def cstr_def)
  note eqs = string_eq_c_full [OF w cd_text_chars [OF v] lit(1)] string_eq_c_full [OF w cd_text_chars [OF v] lit(2)]
    string_eq_c_full [OF cwd path_of_chars [OF ok] lit(3)]
  have root: "path_of cs = [47] \<longleftrightarrow> cs = []"
    using path_of_components [OF ok] by (auto simp: path_of_def path_components_def)
  show ?thesis
  proof (cases v)
    case Here
    then show ?thesis by (simp add: cd_path_def eqs)
  next
    case Up
    show ?thesis
    proof (cases "cs = []")
      case True
      then show ?thesis using root by (simp add: cd_path_def eqs Up)
    next
      case False
      from cd_path_up [OF cwd ok False] obtain p q where
        "rbind (string_rfind cwd 47 npos) (string_substr cwd 0) = Inr p" "tidy_path p = Inr q"
        "string_full q (path_of (butlast cs))" by auto
      then show ?thesis using root False by (auto simp: cd_path_def eqs Up rbind_eq_Inr)
    qed
  next
    case (Into from_root names slash)
    let ?j = "concat (map (\<lambda>c. 47 # c) names)" and ?sl = "if slash then [47] else []"
    note plain = cd_text_plain [OF v [unfolded Into], folded Into]
    have names: "\<forall>c \<in> set names. name_ok c" and none: "names = [] \<longrightarrow> from_root \<and> \<not> slash" using v Into by simp_all
    have at: "string_at w 0 = Inr (hd (cd_text v))"
      using string_at_ok [OF string_fullD(1) [OF w], of 0] plain(3) by (simp add: hd_conv_nth)
    have path: "cd_path cwd w = rbind (if from_root then string_assign w else path_join cwd w) (\<lambda>p. Inr (Some p))"
      using plain by (simp add: cd_path_def eqs at Into del: cd_text.simps)
    have "\<exists>p. (if from_root then string_assign w else path_join cwd w) = Inr p \<and> string_ok p (path_of (cd_target cs v) @ ?sl)"
    proof (cases from_root)
      case True
      then have "cd_text v = path_of names @ ?sl"
        using concat_slash [of names] none by (cases "names = []") (simp_all add: Into path_of_def)
      with string_copy_full(2) [OF w] True show ?thesis by (auto simp: Into string_full_def simp del: cd_text.simps)
    next
      case False
      then have "names \<noteq> []" using none by blast
      then have "(if cs = [] then [] else path_of cs) @ 47 # cd_text v = path_of (cs @ names) @ ?sl"
        using concat_slash [of names] False by (simp add: Into path_of_def)
      with path_join_ok [OF cwd w ok cd_text_chars [OF v] len] False show ?thesis
        by (auto simp: Into string_full_def simp del: cd_text.simps)
    qed
    then obtain p where p: "(if from_root then string_assign w else path_join cwd w) = Inr p"
      "string_ok p (path_of (cd_target cs v) @ ?sl)" by blast
    have "\<exists>q. tidy_path p = Inr q \<and> string_full q (path_of (cd_target cs v))"
      by (rule tidy_path_ok [OF p(2)]) (use ok names none Into in auto)
    with path p(1) show ?thesis by (auto simp: Into)
  qed
qed

section \<open>Lines\<close>

definition cd_step :: "(u32 \<Rightarrow> bytes \<Rightarrow> vfs_node option) \<Rightarrow> vfs_node \<Rightarrow> bytes list \<Rightarrow> cd_word \<Rightarrow> bytes list" where
  "cd_step look root cs v = (if cd_looks cs v \<and> walk look root (cd_target cs v) \<noteq> None then cd_target cs v else cs)"

text \<open>The words that the shell says are no directory.\<close>

fun cd_misses :: "(u32 \<Rightarrow> bytes \<Rightarrow> vfs_node option) \<Rightarrow> vfs_node \<Rightarrow> bytes list \<Rightarrow> cd_word list \<Rightarrow> bytes list" where
  "cd_misses look root cs [] = []"
| "cd_misses look root cs (v # vs) =
     (if cd_looks cs v \<and> walk look root (cd_target cs v) = None then [cd_text v] else []) @
     cd_misses look root (cd_step look root cs v) vs"

text \<open>The lookups stay in sound directories with names the file system can hold, and no path gets too long.\<close>

fun cd_sound ::
  "(bytes \<Rightarrow> bool) \<Rightarrow> (u32 \<Rightarrow> bool) \<Rightarrow> (u32 \<Rightarrow> bytes \<Rightarrow> vfs_node option) \<Rightarrow> vfs_node \<Rightarrow> bytes list \<Rightarrow> cd_word list \<Rightarrow> bool" where
  "cd_sound good_name good look root cs [] \<longleftrightarrow> True"
| "cd_sound good_name good look root cs (v # vs) \<longleftrightarrow> cd_word_ok v \<and> length (path_of cs) + length (cd_text v) + 2 < 2 ^ 32 \<and>
     (cd_looks cs v \<longrightarrow> (\<forall>c \<in> set (cd_target cs v). good_name c) \<and> walk_through good look root (cd_target cs v)) \<and>
     cd_sound good_name good look root (cd_step look root cs v) vs"

text \<open>A line of the two words \<^verbatim>\<open>cd\<close> and the text of a command, with any white space; and the answer to a miss.\<close>

definition cd_line :: "std_string \<Rightarrow> cd_word \<Rightarrow> bool" where
  "cd_line l v \<longleftrightarrow> (\<exists>u. string_ok l u \<and> words u = [[99, 100], cd_text v])"

definition reports :: "sh_event \<Rightarrow> bytes \<Rightarrow> bool" where
  "reports e t \<longleftrightarrow> (\<exists>w. e = ShNoDirectory w \<and> string_full w t)"

lemma cd_target_names: "\<forall>c \<in> set cs. name_ok c \<Longrightarrow> cd_word_ok v \<Longrightarrow> \<forall>c \<in> set (cd_target cs v). name_ok c"
  by (cases v) (auto dest: in_set_butlastD)

lemma cd_text_nonempty: "cd_word_ok v \<Longrightarrow> cd_text v \<noteq> []"
  using cd_text_plain(3) by (cases v) (auto simp del: cd_text.simps(3))

context file_server
begin

lemma opendir_walk:
  assumes "sizeof_VFSNode \<le> length (fr sizeof_VFSNode)" and "inv s" and "\<forall>c \<in> set cs. name_ok c"
    and "\<forall>c \<in> set cs. good_name c" and "walk_through good_dir look root cs"
  shows "\<exists>s'. opendir call fr (Some root) (path_of cs @ [0]) s =
    Inr (map_option (\<lambda>n. \<lparr>d_node = n, d_index = 0\<rparr>) (walk look root cs), s') \<and> inv s'"
proof -
  from resolve_path_walk [where fresh = fr and t = "path_of cs" and r = "[]" and node = root,
      OF assms(1,2) path_of_chars [OF assms(3)]] assms(4,5) path_of_components [OF assms(3)]
  obtain s' where "resolve_path call fr root (path_of cs @ [0]) s = Inr (walk look root cs, s')" "inv s'" by auto
  then show ?thesis by (simp add: opendir_def lookup_path_def fs_init_def)
qed

lemma sh_cd_moves:
  assumes fr: "sizeof_VFSNode \<le> length (fr sizeof_VFSNode)" and inv: "inv s"
    and cwd: "string_full cwd (path_of cs)" and w: "string_full w (cd_text v)" and ok: "\<forall>c \<in> set cs. name_ok c"
    and v: "cd_sound good_name good_dir look root cs [v]"
  shows "\<exists>cwd' ev s'. sh_cd call fr (Some root) [c, w] cwd s = Inr (cwd', ev, s') \<and> inv s' \<and>
    string_full cwd' (path_of (cd_step look root cs v)) \<and> list_all2 reports ev (cd_misses look root cs [v])"
proof (cases "cd_looks cs v")
  case False
  with cd_path_ok [OF cwd w ok] v inv cwd show ?thesis by (auto simp: sh_cd_def word_at_def cd_step_def)
next
  case True
  let ?t = "cd_target cs v"
  have vok: "cd_word_ok v" using v by simp
  from cd_path_ok [OF cwd w ok] True v obtain p q where
    p: "cd_path cwd w = Inr (Some p)" "tidy_path p = Inr q" and q: "string_full q (path_of ?t)" by auto
  from opendir_walk [where fr = fr, OF fr inv cd_target_names [OF ok vok]] True v obtain s1 where
    o: "opendir call fr (Some root) (path_of ?t @ [0]) s =
      Inr (map_option (\<lambda>n. \<lparr>d_node = n, d_index = 0\<rparr>) (walk look root ?t), s1)" and i: "inv s1" by auto
  have b: "string_c_str q = Inr (path_of ?t @ [0])" using string_fullD(2) [OF q] by (simp add: string_c_str_def)
  from string_copy_full(2) [OF q] obtain c' where c': "string_assign q = Inr c'" "string_full c' (path_of ?t)" by blast
  show ?thesis
    using p o i b c' w cwd True
    by (cases "walk look root ?t") (auto simp: sh_cd_def word_at_def cd_step_def reports_def)
qed

lemma sh_line_moves:
  assumes fr: "sizeof_VFSNode \<le> length (fr sizeof_VFSNode)" and inv: "inv s"
    and cwd: "string_full cwd (path_of cs)" and l: "cd_line l v" and ok: "\<forall>c \<in> set cs. name_ok c"
    and v: "cd_sound good_name good_dir look root cs [v]"
  shows "\<exists>ws cwd' ev s'. string_split l = Inr ws \<and> sh_command fuel call fr (Some root) ws cwd s = Inr (cwd', ev, s') \<and> inv s' \<and>
    string_full cwd' (path_of (cd_step look root cs v)) \<and> list_all2 reports ev (cd_misses look root cs [v])"
proof -
  from l obtain u where u: "string_ok l u" "words u = [[99, 100], cd_text v]" by (auto simp: cd_line_def)
  from string_split_words [OF u(1)] u(2) obtain c w where
    ws: "string_split l = Inr [c, w]" "string_ok c [99, 100]" "string_ok w (cd_text v)"
    by (auto simp: list_all2_Cons2)
  have w: "string_full w (cd_text v)" using string_full_nonempty [OF ws(3)] cd_text_nonempty v by simp
  have lit: "cstring (cstr ''ls'') [108, 115]" "cstring (cstr ''cd'') [99, 100]" by (simp_all add: cstring_def cstr_def)
  have "string_full c [99, 100]" using string_full_nonempty [OF ws(2)] by simp
  from string_eq_c_full [OF this _ lit(1)] string_eq_c_full [OF this _ lit(2)]
  have "sh_command fuel call fr (Some root) [c, w] cwd s = sh_cd call fr (Some root) [c, w] cwd s"
    by (simp add: sh_command_def)
  with ws(1) sh_cd_moves [where fr = fr, OF fr inv cwd w ok v, of c] show ?thesis by auto
qed

lemma sh_run_moves:
  assumes fr: "sizeof_VFSNode \<le> length (fr sizeof_VFSNode)"
  shows "list_all2 cd_line ls vs \<Longrightarrow> inv s \<Longrightarrow> string_full cwd (path_of cs) \<Longrightarrow> \<forall>c \<in> set cs. name_ok c \<Longrightarrow>
    cd_sound good_name good_dir look root cs vs \<Longrightarrow>
    \<exists>cwd' ev s'. sh_run fuel call fr (Some root) ls cwd s = Inr (cwd', ev, s') \<and> inv s' \<and>
      string_full cwd' (path_of (foldl (cd_step look root) cs vs)) \<and> list_all2 reports ev (cd_misses look root cs vs)"
proof (induction ls vs arbitrary: s cwd cs rule: list_all2_induct)
  case (Cons l ls v vs)
  have one: "cd_sound good_name good_dir look root cs [v]" using Cons.prems(4) by simp
  from sh_line_moves [where fr = fr and fuel = fuel, OF fr Cons.prems(1,2) Cons.hyps(1) Cons.prems(3) one]
  obtain ws cwd1 ev s1 where l: "string_split l = Inr ws" "sh_command fuel call fr (Some root) ws cwd s = Inr (cwd1, ev, s1)"
      "inv s1" "string_full cwd1 (path_of (cd_step look root cs v))" "list_all2 reports ev (cd_misses look root cs [v])" by blast
  have "\<forall>c \<in> set (cd_step look root cs v). name_ok c"
    using Cons.prems(3) cd_target_names [OF Cons.prems(3), of v] one by (simp add: cd_step_def)
  with Cons.IH [OF l(3,4)] Cons.prems(4) obtain cwd2 ev2 s2 where
    "sh_run fuel call fr (Some root) ls cwd1 s1 = Inr (cwd2, ev2, s2)" "inv s2"
    "string_full cwd2 (path_of (foldl (cd_step look root) (cd_step look root cs v) vs))"
    "list_all2 reports ev2 (cd_misses look root (cd_step look root cs v) vs)" by auto
  moreover from l(5) this(4) have "list_all2 reports (ev @ ev2) (cd_misses look root cs (v # vs))"
    using list_all2_appendI [of reports ev "cd_misses look root cs [v]" ev2] by simp
  ultimately show ?case using l(1,2) by simp
qed simp

end

section \<open>The shell on a volume\<close>

text \<open>
  Whatever \<^verbatim>\<open>cd\<close> lines are typed, on a mounted volume the shell's directory is the one they describe, as
  the list of the names from the root: a dot stays, two dots drop the last name, names are appended, or replace
  the directory after a slash; and a directory whose walk over the volume finds nothing is reported and not entered.
  The lines go through splitting and the string operations, the lookups through file-system server, FAT driver and disk
  driver.
\<close>

theorem shell_walks_directories:
  assumes "mounted vol n env pid f0 s" and "sizeof_VFSNode \<le> length (fresh' sizeof_VFSNode)"
    and "string_full cwd (path_of cs)" and "\<forall>c \<in> set cs. name_ok c" and "list_all2 cd_line ls vs"
    and "cd_sound entry_ok (sound_dir vol n f0 rest_of) (volume_look vol env f0 rest_of) root cs vs"
  shows "\<exists>cwd' ev s'. sh_run fuel (fs_service env pid stack new client msg) fresh' (Some root) ls cwd s = Inr (cwd', ev, s') \<and>
      string_full cwd' (path_of (foldl (cd_step (volume_look vol env f0 rest_of) root) cs vs)) \<and>
      list_all2 reports ev (cd_misses (volume_look vol env f0 rest_of) root cs vs)"
  using volume.sh_run_moves [where fr = fresh', OF assms(2,5,1,3,4,6), of fuel] by blast

theorem shell_walks_directories_witness:
  "\<exists>cwd' s'. sh_run 5 demo_service pad (Some demo_root)
      [\<lparr>st_str = Some ([99, 100, 32, 46, 46, 0]), st_length = 5\<rparr>,
       \<lparr>st_str = Some ([99, 100, 32] @ demo_name @ [32, 0]), st_length = 14\<rparr>]
      (string_of_char 47) demo_mounted = Inr (cwd', [], s') \<and> string_full cwd' (47 # demo_name)"
proof -
  let ?look = "volume_look (dir_vol 0 3 5) (dir_env (dir_vol 0 3 5)) dir_fat (\<lambda>_. [])"
  let ?v = "Into False [demo_name] False"
  have name: "name_ok demo_name" "entry_ok demo_name" "cd_text ?v = demo_name" "demo_name \<noteq> [46]" "demo_name \<noteq> [46, 46]"
    by (simp_all add: demo_name_def name_ok_def entry_ok_def sizeof_name_def)
  have "words [99, 100, 32, 46, 46] = [[99, 100], [46, 46]]" by code_simp
  then have l1: "cd_line \<lparr>st_str = Some ([99, 100, 32, 46, 46, 0]), st_length = 5\<rparr> Up"
    by (auto simp: cd_line_def string_ok_def intro!: exI [of _ "[99, 100, 32, 46, 46]"])
  have "words ([99, 100, 32] @ demo_name @ [32]) = [[99, 100], demo_name]" by code_simp
  then have l2: "cd_line \<lparr>st_str = Some ([99, 100, 32] @ demo_name @ [32, 0]), st_length = 14\<rparr> ?v"
    unfolding cd_line_def name by (intro exI [of _ "[99, 100, 32] @ demo_name @ [32]"]) (simp add: string_ok_def demo_name_def)
  have root: "node_inode demo_root = 0" by (simp add: demo_root_def)
  have steps: "cd_step ?look demo_root [] Up = []" "cd_step ?look demo_root [] ?v = [demo_name]"
    by (simp_all add: cd_step_def root demo_look)
  have sound: "cd_sound entry_ok (sound_dir (dir_vol 0 3 5) 16384 dir_fat (\<lambda>_. [])) ?look demo_root [] [Up, ?v]"
    using name by (simp add: steps root demo_dir demo_look path_of_def del: cd_text.simps(3)) (simp add: demo_name_def)
  have miss: "cd_misses ?look demo_root [] [Up, ?v] = []" by (simp add: steps root demo_look)
  have cwd: "string_full (string_of_char 47) (path_of [])" using string_of_slash by (simp add: path_of_def)
  have lines: "list_all2 cd_line [\<lparr>st_str = Some ([99, 100, 32, 46, 46, 0]), st_length = 5\<rparr>,
       \<lparr>st_str = Some ([99, 100, 32] @ demo_name @ [32, 0]), st_length = 14\<rparr>] [Up, ?v]" using l1 l2 by simp
  from shell_walks_directories [OF demo_mounted_ok _ cwd _ lines sound, of pad 5 "[]" demo_root 9 1]
  show ?thesis unfolding foldl.simps steps miss list_all2_Nil2 by (auto simp: path_of_def simp del: sh_run.simps)
qed

end
