(* ===== verification/HeapRoom.thy ===== *)
theory HeapRoom
  imports HeapAligned
begin

text \<open>
  How much the allocator can still give: a hole of some size and free places in the index. An aligned allocation of
  \<open>n\<close> bytes costs at most \<open>n\<close> and a page of the hole and two places; a release costs nothing.
\<close>

definition has_room :: "nat \<Rightarrow> nat \<Rightarrow> heap \<Rightarrow> bool" where
  "has_room s j h \<longleftrightarrow> (\<exists>e \<in># holes h. s \<le> unat (e_size e)) \<and> size (heap_entries h) + j \<le> oa_maxSize (h_index h)"

lemma has_room_less: "has_room s j h \<Longrightarrow> s' \<le> s \<Longrightarrow> j' \<le> j \<Longrightarrow> has_room s' j' h"
  unfolding has_room_def by (meson add_left_mono le_trans)

section \<open>Allocation\<close>

lemma signed_fits:
  fixes z off n :: u32
  assumes "unat n + unat off \<le> unat z" and "unat z < 2147483648"
  shows "sint n \<le> sint (z - off)"
proof -
  have "unat (z - off) = unat z - unat off" using assms by (simp add: unat_sub_nowrap)
  then have "sint (z - off) = int (unat z - unat off)" using assms sint_unat [of "z - off"] by simp
  moreover have "sint n = int (unat n)" using assms sint_unat [of n] by simp
  ultimately show ?thesis using assms(1) by linarith
qed

lemma smallestAlignedHole_total:
  assumes "tiled (mset (oa_list idx)) lo hi" and "hi < lo + 2147483648" and "e \<in># mset (oa_list idx)" and "isHole e"
    and "unat n + 4095 \<le> unat (e_size e)"
  shows "\<exists>i. smallestAlignedHole idx n = Inr i"
proof -
  from assms(3) obtain k where k: "k < oa_size idx" "e = oa_cells idx k" by (auto simp: in_set_conv_nth)
  have "unat (e_size e) < 2147483648" using tiled_bounds [OF assms(1,3)] assms(2) by linarith
  then have "sint n \<le> sint (e_size e - align_off (e_start e))"
    using assms(5) align_off_lt [of "e_start e"] by (intro signed_fits) auto
  then have "index_scan (\<lambda>e. isHole e \<and> sint (e_size e - align_off (e_start e)) \<ge> sint n) idx 0 \<noteq> None"
    using k assms(4) by (auto simp: index_scan_None)
  then show ?thesis by (auto simp: smallestAlignedHole_def)
qed

lemma oa_insert_room:
  assumes "length (oa_list a) < oa_maxSize a"
  shows "\<exists>a'. oa_insert lt x a = Inr a' \<and> oa_maxSize a' = oa_maxSize a \<and> length (oa_list a') = Suc (length (oa_list a)) \<and>
    mset (oa_list a') = add_mset x (mset (oa_list a))"
  using oa.ins_total [OF assms, of lt x] oa.cap_ins oa.length_ins oa.mset_ins by metis

lemma heap_allocAligned_room:
  assumes wf: "heap_wf lo h" and span: "unat (h_end h) < lo + 2147483648" and n: "n \<noteq> 0"
    and room: "has_room (unat n + 4095 + s) (2 + j) h"
  shows "\<exists>p h'. heap_allocAligned n h = Inr (p, h') \<and> h_end h' = h_end h \<and> (0 < s \<longrightarrow> has_room s j h')"
proof -
  let ?idx = "h_index h"
  from room obtain e where e: "e \<in># holes h" "unat n + 4095 + s \<le> unat (e_size e)"
    and places: "size (heap_entries h) + 2 + j \<le> oa_maxSize ?idx" by (auto simp: has_room_def)
  have til: "tiled (mset (oa_list ?idx)) lo (unat (h_end h))" using wf by (simp add: heap_wf_def heap_entries_def)
  have e': "e \<in># mset (oa_list ?idx)" "isHole e" using e(1) by (auto simp: holes_def heap_entries_def)
  have "unat n + 4095 \<le> unat (e_size e)" using e(2) by linarith
  from smallestAlignedHole_total [OF til span e' this] obtain i where i: "smallestAlignedHole ?idx n = Inr i" ..
  note sel = smallestAlignedHole_Inr [OF i]
  define hole where "hole = oa_list ?idx ! i"
  define idx0 where "idx0 = oa_remove i ?idx"
  define off where "off = align_off (e_start hole)"
  have get: "oa_get ?idx i = Inr hole" using sel(1) by (simp add: oa_get_def hole_def)
  have pick: "mset (oa_list ?idx) = add_mset hole (mset (oa_list idx0))"
    using entries_pick [OF sel(1)] by (simp add: hole_def idx0_def)
  have len0: "Suc (length (oa_list idx0)) = length (oa_list ?idx)" "oa_maxSize idx0 = oa_maxSize ?idx"
    using oa.length_rem [of i ?idx] oa.cap_rem [of i ?idx] sel(1) by (simp_all add: idx0_def)
  have cap: "length (oa_list ?idx) + 2 + j \<le> oa_maxSize ?idx" using places by (simp add: heap_entries_def)
  have "\<exists>idx1 hole'. (if e_start hole AND 0xFFF \<noteq> 0
        then let gap = 0x1000 - (e_start hole AND 0xFFF) in
             rbind (oa_insert IndexSort (hole\<lparr>e_size := gap\<rparr>) idx0) (\<lambda>idx'.
             Inr (idx', page_up (e_start hole), hole\<lparr>e_start := page_up (e_start hole), e_size := e_size hole - gap\<rparr>))
        else Inr (idx0, e_start hole, hole)) = Inr (idx1, e_start hole', hole') \<and>
      length (oa_list idx1) \<le> Suc (length (oa_list idx0)) \<and> oa_maxSize idx1 = oa_maxSize idx0 \<and>
      mset (oa_list idx0) \<subseteq># mset (oa_list idx1) \<and> e_size hole' = e_size hole - off \<and> isHole hole' = isHole hole"
  proof (cases "e_start hole AND 0xFFF = 0")
    case True
    then show ?thesis by (auto simp: off_def align_off_def intro!: exI [of _ hole])
  next
    case False
    from oa_insert_room [of idx0 IndexSort "hole\<lparr>e_size := 0x1000 - (e_start hole AND 0xFFF)\<rparr>"] len0 cap
    obtain idx1 where "oa_insert IndexSort (hole\<lparr>e_size := 0x1000 - (e_start hole AND 0xFFF)\<rparr>) idx0 = Inr idx1"
      "oa_maxSize idx1 = oa_maxSize idx0" "length (oa_list idx1) = Suc (length (oa_list idx0))"
      "mset (oa_list idx0) \<subseteq># mset (oa_list idx1)" by auto
    with False show ?thesis by (auto simp: off_def align_off_def Let_def)
  qed
  then obtain idx1 hole' where step: "(if e_start hole AND 0xFFF \<noteq> 0
        then let gap = 0x1000 - (e_start hole AND 0xFFF) in
             rbind (oa_insert IndexSort (hole\<lparr>e_size := gap\<rparr>) idx0) (\<lambda>idx'.
             Inr (idx', page_up (e_start hole), hole\<lparr>e_start := page_up (e_start hole), e_size := e_size hole - gap\<rparr>))
        else Inr (idx0, e_start hole, hole)) = Inr (idx1, e_start hole', hole')"
    and idx1: "length (oa_list idx1) \<le> Suc (length (oa_list idx0))" "oa_maxSize idx1 = oa_maxSize idx0"
      "mset (oa_list idx0) \<subseteq># mset (oa_list idx1)"
    and hole': "e_size hole' = e_size hole - off" "isHole hole'" using sel(2) by (auto simp: hole_def)
  define rest where "rest = hole'\<lparr>e_size := e_size hole' - n, e_start := e_start hole' + n\<rparr>"
  have "\<exists>idx2. (if n < e_size hole' then oa_insert IndexSort rest idx1 else Inr idx1) = Inr idx2 \<and>
      length (oa_list idx2) \<le> Suc (length (oa_list idx1)) \<and> oa_maxSize idx2 = oa_maxSize idx1 \<and>
      mset (oa_list idx1) \<subseteq># mset (oa_list idx2) \<and> (n < e_size hole' \<longrightarrow> rest \<in># mset (oa_list idx2))"
    using oa_insert_room [of idx1 IndexSort rest] len0 cap idx1
    by (cases "n < e_size hole'") (auto simp flip: set_mset_mset)
  then obtain idx2 where ins1: "(if n < e_size hole' then oa_insert IndexSort rest idx1 else Inr idx1) = Inr idx2"
    and idx2: "length (oa_list idx2) \<le> Suc (length (oa_list idx1))" "oa_maxSize idx2 = oa_maxSize idx1"
      "mset (oa_list idx1) \<subseteq># mset (oa_list idx2)" "n < e_size hole' \<longrightarrow> rest \<in># mset (oa_list idx2)" by blast
  from oa_insert_room [of idx2 IndexSort "\<lparr>e_start = e_start hole', e_size = n, isHole = False\<rparr>"] len0 cap idx1 idx2
  obtain idx3 where ins2: "oa_insert IndexSort \<lparr>e_start = e_start hole', e_size = n, isHole = False\<rparr> idx2 = Inr idx3"
    and idx3: "oa_maxSize idx3 = oa_maxSize idx2" "length (oa_list idx3) = Suc (length (oa_list idx2))"
      "mset (oa_list idx2) \<subseteq># mset (oa_list idx3)" by auto
  let ?h = "h\<lparr>h_index := idx3, h_used := h_used h + n\<rparr>"
  have alloc: "heap_allocAligned n h = Inr (e_start hole', ?h)"
    unfolding heap_allocAligned_def i rbind_Inr get Let_def [of "oa_remove i ?idx"] Let_def [of "e_start hole"]
      idx0_def [symmetric] by (simp only: Let_def [of idx0] step rbind_Inr prod.case rest_def [symmetric] ins1 ins2)
  have fits: "unat off + unat n \<le> unat (e_size hole)"
    using smallestAlignedHole_fits [OF til span _ i] e(2) tiled_bounds [OF til e'(1)] span by (simp add: off_def hole_def)
  have "has_room s j ?h" if "0 < s"
  proof -
    have "\<exists>f. f \<in># mset (oa_list idx3) \<and> isHole f \<and> s \<le> unat (e_size f)"
    proof (cases "e = hole")
      case True
      have big: "unat (e_size hole') = unat (e_size hole) - unat off" using fits hole'(1) by (simp add: unat_sub_nowrap)
      then have more: "unat n + s \<le> unat (e_size hole')" using e(2) True align_off_lt [of "e_start hole"] by (simp add: off_def)
      then have "n < e_size hole'" using that by (simp add: word_less_nat_alt)
      moreover have "s \<le> unat (e_size rest)" using more by (simp add: rest_def unat_sub_nowrap)
      ultimately show ?thesis using idx2(4) idx3(3) hole'(2) by (intro exI [of _ rest]) (auto simp: rest_def dest: mset_subset_eqD)
    next
      case False
      then have "e \<in># mset (oa_list idx0)" using e'(1) pick by simp
      then have "e \<in># mset (oa_list idx3)" using idx1(3) idx2(3) idx3(3) by (meson mset_subset_eqD)
      then show ?thesis using e'(2) e(2) by (intro exI [of _ e]) simp
    qed
    then show ?thesis using len0 cap idx1 idx2 idx3 by (auto simp: has_room_def holes_def heap_entries_def)
  qed
  with alloc show ?thesis by simp
qed

section \<open>Release\<close>

text \<open>The hole of a release only grows: each hole before it lies in one that is not smaller.\<close>

definition holes_grow :: "entry multiset \<Rightarrow> entry multiset \<Rightarrow> bool" where
  "holes_grow M N \<longleftrightarrow> (\<forall>e \<in># M. isHole e \<longrightarrow> (\<exists>f \<in># N. isHole f \<and> unat (e_size e) \<le> unat (e_size f))) \<and> size N \<le> size M"

lemma holes_grow_refl: "holes_grow M M"
  by (auto simp: holes_grow_def)

lemma holes_grow_trans: "holes_grow M N \<Longrightarrow> holes_grow N P \<Longrightarrow> holes_grow M P"
  unfolding holes_grow_def by (meson le_trans)

lemma absorb_grows:
  assumes k: "k < oa_size idx" "k \<noteq> d" "d < oa_size idx" and set: "oa_set idx k e = Inr idx'" and e: "isHole e"
    and size: "unat (e_size e) = unat (e_size (oa_cells idx k)) + unat (e_size (oa_cells idx d))"
  shows "holes_grow (mset (oa_list idx)) (mset (oa_list (oa_remove d idx')))"
    and "oa_maxSize (oa_remove d idx') = oa_maxSize idx"
proof -
  obtain N where two: "mset (oa_list idx) = add_mset (oa_cells idx d) (add_mset (oa_cells idx k) N)"
    and upd: "\<And>y. mset ((oa_list idx)[k := y]) - {#oa_cells idx d#} = add_mset y N"
    using mset_two_positions [of d "oa_list idx" k] k by auto
  have lst: "oa_list idx' = (oa_list idx)[k := e]" "oa_maxSize idx' = oa_maxSize idx" using oa.put_ok [OF set] by simp_all
  then have d: "d < length (oa_list idx')" "oa_list idx' ! d = oa_cells idx d" using k by simp_all
  then have "mset (oa_list (oa_remove d idx')) = add_mset e N" using oa.mset_rem [of d idx'] lst upd [of e] by simp
  then show "holes_grow (mset (oa_list idx)) (mset (oa_list (oa_remove d idx')))"
    using two e size by (auto simp: holes_grow_def)
  show "oa_maxSize (oa_remove d idx') = oa_maxSize idx" using oa.cap_rem [OF d(1)] lst(2) by simp
qed

lemma free_merge_before_grows:
  assumes til: "tiled (mset (oa_list idx)) lo hi"
    and i: "i < oa_size idx" "e_start (oa_cells idx i) = p" and run: "free_merge_before p i idx = Inr (idx', j)"
  shows "holes_grow (mset (oa_list idx)) (mset (oa_list idx'))" and "oa_maxSize idx' = oa_maxSize idx"
proof -
  have "holes_grow (mset (oa_list idx)) (mset (oa_list idx')) \<and> oa_maxSize idx' = oa_maxSize idx"
  proof (cases "indexOfEntryEnding idx p")
    case (Some b)
    then have b: "b < oa_size idx" "e_start (oa_cells idx b) + e_size (oa_cells idx b) = p"
      by (auto simp: indexOfEntryEnding_def dest: index_scan_Some)
    show ?thesis
    proof (cases "isHole (oa_cells idx b)")
      case True
      let ?eb = "oa_cells idx b" and ?ei = "oa_cells idx i"
      have ne: "b \<noteq> i" using b i tiled_size [OF til cell_in_entries [OF i(1)]] by auto
      from run Some b(1) i(1) True obtain idx1 where set: "oa_set idx b (?eb\<lparr>e_size := e_size ?eb + e_size ?ei\<rparr>) = Inr idx1"
        and idx': "idx' = oa_remove i idx1" by (auto simp: free_merge_before_def oa_get_def Let_def rbind_eq_Inr)
      obtain N where "mset (oa_list idx) = add_mset ?ei (add_mset ?eb N)"
        using mset_two_positions [of i "oa_list idx" b] i b ne by auto
      with til have "tiled (add_mset ?eb (add_mset ?ei N)) lo hi" by (simp add: add_mset_commute)
      from tiled_merge(2) [OF this, of "?eb\<lparr>e_size := e_size ?eb + e_size ?ei\<rparr>"] b(2) i(2)
      have "unat (e_size ?eb + e_size ?ei) = unat (e_size ?eb) + unat (e_size ?ei)" by simp
      with absorb_grows [OF b(1) ne i(1) set] True idx' show ?thesis by simp
    qed (use run Some b in \<open>auto simp: free_merge_before_def oa_get_def holes_grow_refl\<close>)
  qed (use run in \<open>auto simp: free_merge_before_def holes_grow_refl\<close>)
  then show "holes_grow (mset (oa_list idx)) (mset (oa_list idx'))" and "oa_maxSize idx' = oa_maxSize idx" by blast+
qed

lemma free_merge_after_grows:
  assumes til: "tiled (mset (oa_list idx)) lo hi"
    and i: "i < oa_size idx" "isHole (oa_cells idx i)" and run: "free_merge_after i idx = Inr idx'"
  shows "holes_grow (mset (oa_list idx)) (mset (oa_list idx'))" and "oa_maxSize idx' = oa_maxSize idx"
proof -
  let ?ei = "oa_cells idx i"
  have "holes_grow (mset (oa_list idx)) (mset (oa_list idx')) \<and> oa_maxSize idx' = oa_maxSize idx"
  proof (cases "indexOfEntryStarting idx (e_start ?ei + e_size ?ei)")
    case (Some a)
    then have a: "a < oa_size idx" "e_start (oa_cells idx a) = e_start ?ei + e_size ?ei"
      by (auto simp: indexOfEntryStarting_def dest: index_scan_Some)
    show ?thesis
    proof (cases "isHole (oa_cells idx a)")
      case True
      let ?ea = "oa_cells idx a"
      have ne: "i \<noteq> a" using a tiled_size [OF til cell_in_entries [OF i(1)]] by auto
      from run Some a(1) i(1) True obtain idx1 where set: "oa_set idx i (?ei\<lparr>e_size := e_size ?ei + e_size ?ea\<rparr>) = Inr idx1"
        and idx': "idx' = oa_remove a idx1" by (auto simp: free_merge_after_def oa_get_def Let_def rbind_eq_Inr)
      obtain N where "mset (oa_list idx) = add_mset ?ei (add_mset ?ea N)"
        using mset_two_positions [of i "oa_list idx" a] i a ne by auto
      with til have "tiled (add_mset ?ei (add_mset ?ea N)) lo hi" by simp
      from tiled_merge(2) [OF this, of "?ei\<lparr>e_size := e_size ?ei + e_size ?ea\<rparr>"] a(2)
      have "unat (e_size ?ei + e_size ?ea) = unat (e_size ?ei) + unat (e_size ?ea)" by simp
      with absorb_grows [OF i(1) ne a(1) set] i(2) idx' show ?thesis by simp
    qed (use run Some a i in \<open>auto simp: free_merge_after_def oa_get_def holes_grow_refl\<close>)
  qed (use run i in \<open>auto simp: free_merge_after_def oa_get_def holes_grow_refl\<close>)
  then show "holes_grow (mset (oa_list idx)) (mset (oa_list idx'))" and "oa_maxSize idx' = oa_maxSize idx" by blast+
qed

lemma has_room_grow:
  "holes_grow (heap_entries h) (heap_entries h') \<Longrightarrow> oa_maxSize (h_index h') = oa_maxSize (h_index h) \<Longrightarrow>
   has_room s j h \<Longrightarrow> has_room s j h'"
  by (fastforce simp: has_room_def holes_grow_def holes_def)

lemma heap_free_room:
  assumes "heap_wf lo h" and "blk \<in># allocated h" and "e_start blk = p"
  shows "\<exists>h'. heap_free p h = Inr (True, h') \<and> heap_wf lo h' \<and> h_end h' = h_end h \<and> (has_room s j h \<longrightarrow> has_room s j h')"
proof (rule heap_free_steps [OF assms])
  fix idx1 i idx2 k idx3
  assume run: "heap_free p h = Inr (True, h\<lparr>h_index := idx3\<rparr>)"
    and M: "mset (oa_list idx1) = add_mset (blk\<lparr>isHole := True\<rparr>) (heap_entries h - {#blk#})" "blk \<in># heap_entries h"
    and cap: "oa_maxSize idx1 = oa_maxSize (h_index h)" and til1: "tiled (mset (oa_list idx1)) lo (unat (h_end h))"
    and i: "i < oa_size idx1" "e_start (oa_cells idx1 i) = p"
    and mb: "free_merge_before p i idx1 = Inr (idx2, Some k)" "tiled (mset (oa_list idx2)) lo (unat (h_end h))"
      "k < oa_size idx2" "isHole (oa_cells idx2 k)"
    and ma: "free_merge_after k idx2 = Inr idx3" "tiled (mset (oa_list idx3)) lo (unat (h_end h))"
  have data: "\<not> isHole blk" using assms(2) by (simp add: allocated_def)
  obtain N where N: "heap_entries h = add_mset blk N" using M(2) by (auto dest: multi_member_split)
  have "holes_grow (add_mset blk N) (add_mset (blk\<lparr>isHole := True\<rparr>) N)" using data by (auto simp: holes_grow_def)
  then have "holes_grow (heap_entries h) (mset (oa_list idx1))" by (simp only: M(1)) (simp only: N add_mset_remove_trivial)
  moreover note free_merge_before_grows [OF til1 i mb(1)] free_merge_after_grows [OF mb(2-4) ma(1)]
  ultimately have "holes_grow (heap_entries h) (heap_entries (h\<lparr>h_index := idx3\<rparr>))" "oa_maxSize idx3 = oa_maxSize (h_index h)"
    using cap holes_grow_trans by (auto simp: heap_entries_def)
  then have "has_room s j h \<longrightarrow> has_room s j (h\<lparr>h_index := idx3\<rparr>)" by (auto dest: has_room_grow)
  then show ?thesis using run ma(2) by (simp add: heap_wf_def heap_entries_def)
qed

end
