(* ===== verification/Boot.thy ===== *)
theory Boot
  imports CoreDump StdString
begin

text \<open>
  The start of the kernel (\<^verbatim>\<open>src/entry.cpp\<close>): the copy of the boot modules, the split of their command
  lines, and the first six tasks. The linker's end of the kernel, the sizes of the classes and the addresses of functions
  are parameters. Before paging an address is a physical address.
\<close>

section \<open>Boot modules\<close>

definition UKERNEL_STACK_POS :: u32 where "UKERNEL_STACK_POS = 0xE0000000"
definition UKERNEL_STACK_SIZE :: u32 where "UKERNEL_STACK_SIZE = 0x2000"
definition INIT_STACK_SIZE :: u32 where "INIT_STACK_SIZE = 0x2000"

definition MODULE_ATA_LOCATION :: string where "MODULE_ATA_LOCATION = ''/sys/services/ata''"
definition MODULE_FAT_LOCATION :: string where "MODULE_FAT_LOCATION = ''/sys/services/fat''"
definition MODULE_VFS_LOCATION :: string where "MODULE_VFS_LOCATION = ''/sys/services/vfs''"
definition MODULE_INIT_LOCATION :: string where "MODULE_INIT_LOCATION = ''/bin/init''"

text \<open>The name is the string with its terminator; the arguments are the contents of the strings of the list, if there is one.\<close>

record loaded_module =
  lm_name :: bytes
  lm_module :: u32
  lm_args :: "bytes list option"
  lm_module_len :: u32

fun module_by_name :: "bytes \<Rightarrow> loaded_module list \<Rightarrow> loaded_module option result" where
  "module_by_name name [] = Inr None"
| "module_by_name name (m # ms) =
     rbind (stricmp name (lm_name m)) (\<lambda>c. if c = 0 then Inr (Some m) else module_by_name name ms)"

definition phys_block :: "u32 \<Rightarrow> nat \<Rightarrow> machine \<Rightarrow> bytes" where
  "phys_block a n mc = map (\<lambda>i. phys_byte (mc_frame mc) (a + of_nat i)) [0..<n]"

fun phys_copy :: "nat \<Rightarrow> u32 \<Rightarrow> u32 \<Rightarrow> (20 word \<Rightarrow> nat \<Rightarrow> u8) \<Rightarrow> 20 word \<Rightarrow> nat \<Rightarrow> u8" where
  "phys_copy 0 dest src g = g"
| "phys_copy (Suc n) dest src g = phys_copy n (dest + 1) (src + 1) (phys_put dest (phys_byte g src) g)"

definition kernel_new :: "u32 \<Rightarrow> machine \<Rightarrow> (u32 \<times> machine) result" where
  "kernel_new n mc = rbind (memory_alloc n False (mc_memory mc)) (\<lambda>(a, _, m). Inr (a, mc\<lparr>mc_memory := m\<rparr>))"

definition con_put :: "string \<Rightarrow> machine \<Rightarrow> machine" where
  "con_put s mc = mc\<lparr>mc_kernel := (mc_kernel mc)\<lparr>k_output := k_output (mc_kernel mc) @ s\<rparr>\<rparr>"

text \<open>
  \<open>strdup\<close> of a string at an address. Addresses repeat after \<open>2^32\<close> bytes, so a search for the
  terminator that has not ended by then never does.
\<close>

fun phys_string :: "nat \<Rightarrow> u32 \<Rightarrow> machine \<Rightarrow> bytes result" where
  "phys_string 0 a mc = Inl Diverges"
| "phys_string (Suc n) a mc =
     (let c = phys_byte (mc_frame mc) a in
      if c = 0 then Inr [] else rbind (phys_string n (a + 1) mc) (\<lambda>s. Inr (c # s)))"

fun phys_write :: "u32 \<Rightarrow> bytes \<Rightarrow> machine \<Rightarrow> machine" where
  "phys_write a [] mc = mc"
| "phys_write a (b # bs) mc = phys_write (a + 1) bs (mc\<lparr>mc_frame := phys_put a b (mc_frame mc)\<rparr>)"

text \<open>One turn of the loop over the modules; \<open>node\<close> is the size of a list node.\<close>

definition load_module :: "u32 \<Rightarrow> u32 \<Rightarrow> machine \<Rightarrow> (loaded_module \<times> machine) result" where
  "load_module node ptr mc =
     rbind (get_u32 (phys_block ptr 16 mc) 0) (\<lambda>mod_start.
     rbind (get_u32 (phys_block ptr 16 mc) 4) (\<lambda>mod_end.
     rbind (get_u32 (phys_block ptr 16 mc) 8) (\<lambda>str.
     let len = mod_end - mod_start in
     rbind (phys_string (2 ^ 32) str mc) (\<lambda>name.
     let mc1 = con_put (''loaded module: '' @ map (\<lambda>c. char_of (unat c)) name @ [CHR 0x0A]) mc in
     rbind (kernel_new (of_nat (length name) + 1) mc1) (\<lambda>(n, mc2).
     let mc3 = phys_write n (name @ [0]) mc2 in
     rbind (kernel_new len mc3) (\<lambda>(a, mc4).
     let mc5 = mc4\<lparr>mc_frame := phys_copy (unat len) a mod_start (mc_frame mc4)\<rparr> in
     rbind (kernel_new node mc5) (\<lambda>(_, mc6).
     rbind (kernel_new 16 mc6) (\<lambda>(_, mc7).
     Inr (\<lparr>lm_name = name @ [0], lm_module = a, lm_args = None, lm_module_len = len\<rparr>, mc7)))))))))"

fun load_modules :: "u32 \<Rightarrow> nat \<Rightarrow> u32 \<Rightarrow> machine \<Rightarrow> (loaded_module list \<times> machine) result" where
  "load_modules node 0 ptr mc = Inr ([], mc)"
| "load_modules node (Suc n) ptr mc =
     rbind (load_module node ptr mc) (\<lambda>(m, mc1).
     rbind (load_modules node n (ptr + 16) mc1) (\<lambda>(ms, mc2). Inr (m # ms, mc2)))"

section \<open>Arguments of a module\<close>

definition string_text :: "std_string \<Rightarrow> bytes" where
  "string_text s = (case st_str s of None \<Rightarrow> [] | Some b \<Rightarrow> take (unat (st_length s)) b)"

definition split_module :: "loaded_module \<Rightarrow> loaded_module result" where
  "split_module m =
     rbind (string_of_c (lm_name m)) (\<lambda>module.
     rbind (string_split module) (\<lambda>args.
     Inr (case args of
            a # b # rest \<Rightarrow> m\<lparr>lm_name := string_text a @ [0], lm_args := Some (map string_text (b # rest))\<rparr>
          | _ \<Rightarrow> m)))"

fun split_modules :: "loaded_module list \<Rightarrow> loaded_module list result" where
  "split_modules [] = Inr []"
| "split_modules (m # ms) = rbind (split_module m) (\<lambda>x. rbind (split_modules ms) (\<lambda>xs. Inr (x # xs)))"

section \<open>The first tasks\<close>

definition boot_stack_pages :: "u32 list" where
  "boot_stack_pages = map (\<lambda>i. UKERNEL_STACK_POS - of_nat i * 0x1000) [0..<Suc (unat (UKERNEL_STACK_SIZE div 0x1000))]"

definition on_task :: "tref \<Rightarrow> (task \<Rightarrow> task) \<Rightarrow> machine \<Rightarrow> machine" where
  "on_task t f mc = mc\<lparr>mc_kernel := upd_task t f (mc_kernel mc)\<rparr>"

definition link_task :: "tref \<Rightarrow> tref \<Rightarrow> machine \<Rightarrow> machine" where
  "link_task prev t = on_task prev (\<lambda>x. x\<lparr>t_next := Some t\<rparr>)"

definition boot_base :: "machine \<Rightarrow> (tref \<times> machine) result" where
  "boot_base mc =
     rbind (BootstrapInitialTask 3 (m_kernelDirectory (mc_memory mc)) mc) (\<lambda>(b, mc1).
     let k = mc_kernel mc1 in
     Inr (b, mc1\<lparr>mc_kernel := k\<lparr>k_start := Some b, k_current := b,
                   k_tss_esp0 := t_ks (k_task k b) + sizeof_modeswitch_registers, k_tss_iomap := t_iomap (k_task k b)\<rparr>\<rparr>))"

text \<open>The image of a module is read through the address space in use.\<close>

definition boot_service :: "loaded_module list \<Rightarrow> string \<Rightarrow> machine \<Rightarrow> (tref \<times> machine) result" where
  "boot_service ms loc mc =
     rbind (module_by_name (cstr loc) ms) (\<lambda>r.
     case r of
       None \<Rightarrow> Inl (AssertFail ''module'')
     | Some m \<Rightarrow>
         rbind (CreateTask 0 3 True 0 (m_kernelDirectory (mc_memory mc)) loc
                  (case lm_args m of None \<Rightarrow> [] | Some a \<Rightarrow> a) mc) (\<lambda>(t, mc1).
         rbind (virt_block (m_activeDirectory (mc_memory mc1)) (lm_module m) (unat (lm_module_len m)) mc1) (\<lambda>img.
         rbind (loadImageInto t img mc1) (\<lambda>(_, mc2). Inr (t, mc2)))))"

definition boot_name :: "string \<Rightarrow> tref \<Rightarrow> machine \<Rightarrow> machine" where
  "boot_name name t mc =
     on_task t (\<lambda>x. x\<lparr>t_registeredName := Some name\<rparr>)
       (mc\<lparr>mc_kernel := (mc_kernel mc)\<lparr>k_registered := map_put (k_registered (mc_kernel mc)) (Some name) t\<rparr>\<rparr>)"

definition ata_ports :: "task \<Rightarrow> task" where
  "ata_ports x =
     setIOMap 0x376 True (setIOMap 0x3F6 True
       (fold (\<lambda>j. setIOMap (0x170 + of_nat j) True \<circ> setIOMap (0x1F0 + of_nat j) True) [0..<8] x))"

definition ata_rights :: "task \<Rightarrow> task result" where
  "ata_rights x =
     rbind (grantPrivilege PRIV_IRQ (ata_ports x)) (\<lambda>x1.
     rbind (grantPrivilege PRIV_PHYSADDR x1) (\<lambda>x2.
     Inr (fold (\<lambda>j. setIOMap (0xC000 + of_nat j) True) [0..<16] x2)))"

definition init_rights :: "task \<Rightarrow> task result" where
  "init_rights x =
     rbind (grantPrivilege PRIV_REGISTER_NAME x) (\<lambda>x1.
     rbind (grantPrivilege PRIV_GRANT_PRIV x1) (\<lambda>x2. grantPrivilege PRIV_PHYSADDR x2))"

definition give_rights :: "(task \<Rightarrow> task result) \<Rightarrow> tref \<Rightarrow> machine \<Rightarrow> machine result" where
  "give_rights f t mc = rbind (f (k_task (mc_kernel mc) t)) (\<lambda>x. Inr (on_task t (\<lambda>_. x) mc))"

definition AkariEntryCont :: "u32 \<Rightarrow> loaded_module list \<Rightarrow> machine \<Rightarrow> machine result" where
  "AkariEntryCont idle_entry modules mc =
     (let kd = m_kernelDirectory (mc_memory mc) in
      rbind (assert_that (m_activeDirectory (mc_memory mc) = kd)
               ''mu_memory->_activeDirectory == mu_memory->_kernelDirectory'') (\<lambda>_.
      rbind (alloc_pages (m_activeDirectory (mc_memory mc)) boot_stack_pages (mc_memory mc)) (\<lambda>m1.
      rbind (split_modules modules) (\<lambda>ms.
      rbind (boot_base (mc\<lparr>mc_memory := m1\<rparr>)) (\<lambda>(b, mc1).
      rbind (CreateTask idle_entry 0 True 0 kd ''idle'' [] mc1) (\<lambda>(idle, mc2).
      rbind (boot_service ms MODULE_ATA_LOCATION (link_task b idle mc2)) (\<lambda>(ata, mc3).
      rbind (give_rights ata_rights ata (boot_name ''system.io.ata'' ata mc3)) (\<lambda>mc4.
      rbind (boot_service ms MODULE_FAT_LOCATION (link_task idle ata mc4)) (\<lambda>(fat, mc5).
      rbind (boot_service ms MODULE_VFS_LOCATION (link_task ata fat (boot_name ''system.io.fs.fat'' fat mc5))) (\<lambda>(vfs, mc6).
      rbind (boot_service ms MODULE_INIT_LOCATION (link_task fat vfs (boot_name ''system.io.vfs'' vfs mc6))) (\<lambda>(init, mc7).
      rbind (give_rights init_rights init mc7) (\<lambda>mc8.
      let mc9 = link_task vfs init mc8; d = t_pageDir (k_task (mc_kernel mc9) b) in
      Inr (con_put (''Akari: kernel initialised.'' @ [CHR 0x0A])
             (mc9\<lparr>mc_memory := switchPageDirectory d (mc_memory mc9),
                  mc_kernel := (mc_kernel mc9)\<lparr>k_activeDir := d\<rparr>\<rparr>))))))))))))))"

section \<open>The entry point\<close>

record multiboot_info =
  mb_flags :: u32
  mb_mem_upper :: u32
  mb_mods_count :: u32
  mb_mods_addr :: u32

definition memory_new :: "u32 \<Rightarrow> (nat \<Rightarrow> entry) \<Rightarrow> memory" where
  "memory_new upperMemory garbage =
     \<lparr>m_upperMemory = upperMemory, m_placementAddress = 0, m_frames = (\<lambda>_. 0), m_frameCount = 0, m_heap = None,
      m_table = (\<lambda>_ _. zero_page), m_ntables = 0, m_dir = (\<lambda>_. \<lparr>pd_tables = (\<lambda>_. None), pd_tablePhysicals = (\<lambda>_. 0),
      pd_physicalAddr = 0\<rparr>), m_ndirs = 0, m_kernelDirectory = 0, m_activeDirectory = 0, m_garbage = garbage\<rparr>"

text \<open>
  What it returns is the initial stack pointer and the modules; the timer's port writes have no further effect on
  the model. \<open>news\<close> are the sizes of the subsystems in the order they are made.
\<close>

definition AkariEntry ::
  "string \<Rightarrow> u32 \<Rightarrow> u32 \<Rightarrow> u32 list \<Rightarrow> u32 \<Rightarrow> (nat \<Rightarrow> entry) \<Rightarrow> multiboot_info \<Rightarrow> machine \<Rightarrow>
     (u32 \<times> loaded_module list \<times> machine) result" where
  "AkariEntry version kend memory_size news node garbage mb mc =
     (if mb_flags mb AND 0x41 \<noteq> 0x41
      then Inl (KernelPanic ''Akari: MULTIBOOT hasn't given us enough information about memory.'')
      else
      rbind (setPlacementMode (kend + memory_size) (memory_new (mb_mem_upper mb) garbage)) (\<lambda>m1.
      rbind (for_each (\<lambda>n s. rbind (kernel_new n s) (\<lambda>(_, s'). Inr s')) news (mc\<lparr>mc_memory := m1\<rparr>)) (\<lambda>mc1.
      rbind (load_modules node (unat (mb_mods_count mb)) (mb_mods_addr mb)
               (con_put (''Akari '' @ version @ ''. Dedicated to Misty.'' @ CHR 0x0A # ''Starting ...'' @ [CHR 0x0A]) mc1)) (\<lambda>(ms, mc2).
      rbind (setTimer 2000 (mc_kernel mc2)) (\<lambda>(k3, _).
      rbind (setPaging True (mc_memory mc2)) (\<lambda>m3.
      rbind (memory_allocAligned INIT_STACK_SIZE False m3) (\<lambda>(stack, _, m4).
      Inr (stack, ms, mc2\<lparr>mc_kernel := k3, mc_memory := m4\<rparr>))))))))"

end
