(* ===== verification/BootProps.thy ===== *)
theory BootProps
  imports Boot Reach HeapExamples
begin

text \<open>
  What the start of the kernel leaves behind: the list of tasks, their names, rights and ports.
\<close>

section \<open>Kernel after each part\<close>

lemma load_headers_kernel:
  "for_each (load_header d w img hdr) xs mc = Inr mc' \<Longrightarrow> mc_kernel mc' = mc_kernel mc"
  by (induction xs arbitrary: mc) (auto simp: load_header_def rbind_eq_Inr split: if_splits dest!: load_segment_kernel)

lemma loadImageInto_kernel:
  assumes "loadImageInto t img mc = Inr (b, mc')"
  obtains f where "mc_kernel mc' = (mc_kernel mc)\<lparr>k_frames := f\<rparr>"
proof -
  have "mc_kernel mc' = (mc_kernel mc)\<lparr>k_frames := k_frames (mc_kernel mc')\<rparr>" using assms
    by (auto simp: loadImageInto_def Let_def rbind_eq_Inr set_frame_regs_def split: if_splits option.splits
        dest!: load_headers_kernel)
  then show thesis using that by blast
qed

text \<open>A task as the constructor leaves it, with the fields that the creation of a task then sets.\<close>

definition new_task :: "u8 \<Rightarrow> string \<Rightarrow> u32 \<Rightarrow> task \<Rightarrow> bool" where
  "new_task cpl name pid x \<longleftrightarrow> t_next x = None \<and> t_priorityNext x = None \<and> \<not> t_userWaiting x \<and> t_userCall x = None \<and>
     t_id x = pid \<and> t_name x = name \<and> t_registeredName x = None \<and> t_cpl x = cpl \<and> t_iomap x = (\<lambda>_. 0xFF) \<and>
     t_privMap x = [0x0A] \<and> t_streamsByName x = [] \<and> t_replyQueue x = [] \<and> t_irqListen x = 0"

lemma task_new_new:
  assumes "task_new cpl name k = Inr (t, k')"
  obtains x where "t = k_count k" and "new_task cpl name (k_lastPid k + 1) x"
    and "k' = upd_task t (\<lambda>_. x) (k\<lparr>k_count := Suc t, k_lastPid := k_lastPid k + 1\<rparr>)"
proof -
  define x where "x = \<lparr>t_next = None, t_priorityNext = None, t_irqListen = 0, t_irqListenHits = 0, t_userWaiting = False,
     t_userCall = None, t_id = k_lastPid k + 1, t_name = name, t_registeredName = None, t_cpl = cpl, t_pageDir = 0,
     t_heap = None, t_heapStart = 0, t_heapEnd = 0, t_heapMax = 0, t_ks = 0, t_iomap = (\<lambda>_. 0xFF),
     t_privMap = [0x0A], t_streamsByName = [], t_replyQueue = []\<rparr>"
  have m: "PRIV_MAP_SIZE = 1" by (simp add: PRIV_MAP_SIZE_def PRIV_COUNT_def)
  have "new_task cpl name (k_lastPid k + 1) x" by (simp add: x_def new_task_def)
  moreover have "t = k_count k" and "k' = upd_task t (\<lambda>_. x) (k\<lparr>k_count := Suc t, k_lastPid := k_lastPid k + 1\<rparr>)"
    using assms by (auto simp: task_new_def grantPrivilege_def rbind_eq_Inr m x_def PRIV_COUNT_def PRIV_CONSOLE_WRITE_def
        PRIV_MALLOC_def Let_def)
  ultimately show thesis using that by blast
qed

definition kernel_with :: "tref \<Rightarrow> task \<Rightarrow> (u32 \<times> tref option) list \<Rightarrow> (u32 \<Rightarrow> regs) \<Rightarrow> kernel \<Rightarrow> kernel" where
  "kernel_with t x ps f k =
     k\<lparr>k_task := (k_task k)(t := x), k_count := Suc t, k_lastPid := k_lastPid k + 1, k_byPid := ps, k_frames := f\<rparr>"

lemma kernel_with_simps [simp]:
  "k_task (kernel_with t x ps f k) = (k_task k)(t := x)" "k_count (kernel_with t x ps f k) = Suc t"
  "k_lastPid (kernel_with t x ps f k) = k_lastPid k + 1" "k_byPid (kernel_with t x ps f k) = ps"
  "k_start (kernel_with t x ps f k) = k_start k" "k_current (kernel_with t x ps f k) = k_current k"
  "k_registered (kernel_with t x ps f k) = k_registered k" "k_priorityStart (kernel_with t x ps f k) = k_priorityStart k"
  by (simp_all add: kernel_with_def)

lemma upd_task_pids [simp]:
  "k_lastPid (upd_task t f k) = k_lastPid k" "k_byPid (upd_task t f k) = k_byPid k"
  "k_registered (upd_task t f k) = k_registered k" "k_tss_esp0 (upd_task t f k) = k_tss_esp0 k"
  by (simp_all add: upd_task_def)

lemma user_stack_kernel:
  assumes "user_stack t cpl args mc = Inr (ks, mc')"
  obtains f where "mc_kernel mc' = (mc_kernel mc)\<lparr>k_frames := f\<rparr>"
proof -
  have "mc_kernel mc' = (mc_kernel mc)\<lparr>k_frames := k_frames (mc_kernel mc')\<rparr>" using assms
    by (auto simp: user_stack_def rbind_eq_Inr Let_def set_frame_regs_def dest!: load_task_argv_kernel)
  then show thesis using that by blast
qed

lemma CreateTask_kernel:
  assumes "CreateTask e cpl fl iopl d name args mc = Inr (t, mc')"
  obtains x f where "t = k_count (mc_kernel mc)" and "new_task cpl name (k_lastPid (mc_kernel mc) + 1) x"
    and "mc_kernel mc' = kernel_with t x (map_put (k_byPid (mc_kernel mc)) (t_id x) (Some t)) f (mc_kernel mc)"
proof -
  from assms obtain k1 dir m1 ks mc2 m2 where nt: "task_new cpl name (mc_kernel mc) = Inr (t, k1)"
    and mc2: "(if cpl > 0 then user_stack t cpl args (mc\<lparr>mc_kernel := upd_task t (\<lambda>x. x\<lparr>t_pageDir := dir\<rparr>) k1, mc_memory := m1\<rparr>)
        else kernel_stack (mc\<lparr>mc_kernel := upd_task t (\<lambda>x. x\<lparr>t_pageDir := dir\<rparr>) k1, mc_memory := m1\<rparr>)) = Inr (ks, mc2)"
    and mc': "mc' = (let k3 = upd_task t (\<lambda>x. x\<lparr>t_ks := ks, t_heapStart := PROCESS_HEAP_START,
           t_heapEnd := PROCESS_HEAP_START + PROCESS_HEAP_SIZE, t_heapMax := PROCESS_HEAP_START + PROCESS_HEAP_SIZE\<rparr>)
           (set_frame_regs ks (callback_init e cpl fl iopl) (mc_kernel mc2))
         in mc2\<lparr>mc_kernel := k3\<lparr>k_byPid := map_put (k_byPid k3) (t_id (k_task k3 t)) (Some t)\<rparr>, mc_memory := m2\<rparr>)"
    by (auto simp: CreateTask_def rbind_eq_Inr Let_def)
  from task_new_new [OF nt] obtain x where x: "t = k_count (mc_kernel mc)" "new_task cpl name (k_lastPid (mc_kernel mc) + 1) x"
    "k1 = upd_task t (\<lambda>_. x) ((mc_kernel mc)\<lparr>k_count := Suc t, k_lastPid := k_lastPid (mc_kernel mc) + 1\<rparr>)" .
  obtain f where f: "mc_kernel mc2 = (upd_task t (\<lambda>x. x\<lparr>t_pageDir := dir\<rparr>) k1)\<lparr>k_frames := f\<rparr>"
  proof (cases "cpl > 0")
    case True
    with mc2 show thesis using that by (auto elim!: user_stack_kernel)
  next
    case False
    with mc2 stacks_ok(2) have "mc_kernel mc2 = upd_task t (\<lambda>x. x\<lparr>t_pageDir := dir\<rparr>) k1" by auto
    then show thesis using that [of "k_frames k1"] by simp
  qed
  let ?x = "x\<lparr>t_pageDir := dir, t_ks := ks, t_heapStart := PROCESS_HEAP_START,
           t_heapEnd := PROCESS_HEAP_START + PROCESS_HEAP_SIZE, t_heapMax := PROCESS_HEAP_START + PROCESS_HEAP_SIZE\<rparr>"
  have "new_task cpl name (k_lastPid (mc_kernel mc) + 1) ?x" using x(2) by (simp add: new_task_def)
  moreover have "mc_kernel mc' = kernel_with t ?x (map_put (k_byPid (mc_kernel mc)) (t_id x) (Some t))
      (f(ks := callback_init e cpl fl iopl (f ks))) (mc_kernel mc)"
    unfolding mc' Let_def by (simp add: f x(3) kernel_with_def upd_task_def set_frame_regs_def)
  ultimately show thesis using that x(1) by simp
qed

lemma boot_service_kernel:
  assumes "boot_service ms loc mc = Inr (t, mc')"
  obtains x f where "t = k_count (mc_kernel mc)" and "new_task 3 loc (k_lastPid (mc_kernel mc) + 1) x"
    and "mc_kernel mc' = kernel_with t x (map_put (k_byPid (mc_kernel mc)) (t_id x) (Some t)) f (mc_kernel mc)"
proof -
  from assms obtain m where "module_by_name (cstr loc) ms = Inr (Some m)"
    by (auto simp: boot_service_def rbind_eq_Inr split: option.splits)
  with assms obtain args mc1 img b where c: "CreateTask 0 3 True 0 (m_kernelDirectory (mc_memory mc)) loc args mc = Inr (t, mc1)"
    and l: "loadImageInto t img mc1 = Inr (b, mc')" by (auto simp: boot_service_def rbind_eq_Inr)
  from CreateTask_kernel [OF c] obtain x f where x: "t = k_count (mc_kernel mc)" "new_task 3 loc (k_lastPid (mc_kernel mc) + 1) x"
    "mc_kernel mc1 = kernel_with t x (map_put (k_byPid (mc_kernel mc)) (t_id x) (Some t)) f (mc_kernel mc)" .
  from loadImageInto_kernel [OF l] obtain g where "mc_kernel mc' = (mc_kernel mc1)\<lparr>k_frames := g\<rparr>" .
  then have "mc_kernel mc' = kernel_with t x (map_put (k_byPid (mc_kernel mc)) (t_id x) (Some t)) g (mc_kernel mc)"
    using x(3) by (simp add: kernel_with_def)
  then show thesis using that x(1,2) by blast
qed

section \<open>Rights and ports\<close>

lemma getIOMap_closed:
  assumes "t_iomap x = (\<lambda>_. 0xFF)"
  shows "\<not> getIOMap port x"
proof -
  have "(0xFF :: u8) = - 1" by simp
  then have "bit (0xFF :: u8) (unat (port mod 8))" using port_bit [of port] by (simp only: bit_minus_1_iff) (simp add: possible_bit_word)
  then show ?thesis using assms by (simp add: getIOMap_def and_bit_zero)
qed

definition ata_port :: "u16 \<Rightarrow> bool" where
  "ata_port port \<longleftrightarrow> port \<in> {0x1F0..0x1F7} \<union> {0x170..0x177} \<union> {0x3F6, 0x376} \<union> {0xC000..0xC00F}"

lemma port_range:
  fixes p a :: u16
  assumes "unat a + n < 65536" and "0 < n"
  shows "(\<exists>j < n. p = a + of_nat j) \<longleftrightarrow> p \<in> {a..a + of_nat (n - 1)}"
proof -
  have u: "unat (a + of_nat j) = unat a + j" if "j < n" for j
    using that assms by (simp add: unat_word_ariths unat_of_nat)
  have "unat (a + of_nat (n - 1)) = unat a + (n - 1)" by (rule u) (use assms in simp)
  then have "p \<in> {a..a + of_nat (n - 1)} \<longleftrightarrow> unat a \<le> unat p \<and> unat p \<le> unat a + (n - 1)"
    by (simp add: word_le_nat_alt)
  moreover have "unat p = unat a + j \<longleftrightarrow> p = a + of_nat j" if "j < n" for j
    using u [OF that] by (metis word_unat_eq_iff)
  moreover have "unat a \<le> unat p \<and> unat p \<le> unat a + (n - 1) \<longleftrightarrow> (\<exists>j < n. unat p = unat a + j)"
    using assms(2) by (auto intro!: exI [of _ "unat p - unat a"])
  ultimately show ?thesis by auto
qed

lemma t_privMap_setIOMap [simp]:
  "t_privMap (setIOMap p b x) = t_privMap x" "(setIOMap p b x)\<lparr>t_iomap := m\<rparr> = x\<lparr>t_iomap := m\<rparr>"
  by (simp_all add: setIOMap_def Let_def)

lemma fold_setIOMap:
  "getIOMap p (fold (\<lambda>j. setIOMap (a + of_nat j) True) [0..<n] x) \<longleftrightarrow> getIOMap p x \<or> (\<exists>j < n. p = a + of_nat j)"
  "(fold (\<lambda>j. setIOMap (a + of_nat j) True) [0..<n] x)\<lparr>t_iomap := m\<rparr> = x\<lparr>t_iomap := m\<rparr>"
  by (induction n) (auto simp: getIOMap_setIOMap less_Suc_eq)

lemma fold_setIOMap_pair:
  "getIOMap p (fold (\<lambda>j. setIOMap (b + of_nat j) True \<circ> setIOMap (a + of_nat j) True) [0..<n] x) \<longleftrightarrow>
     getIOMap p x \<or> (\<exists>j < n. p = a + of_nat j) \<or> (\<exists>j < n. p = b + of_nat j)"
  "(fold (\<lambda>j. setIOMap (b + of_nat j) True \<circ> setIOMap (a + of_nat j) True) [0..<n] x)\<lparr>t_iomap := m\<rparr> = x\<lparr>t_iomap := m\<rparr>"
  by (induction n) (auto simp: getIOMap_setIOMap less_Suc_eq)

lemma getIOMap_privMap [simp]: "getIOMap p (x\<lparr>t_privMap := m\<rparr>) = getIOMap p x"
  by (simp add: getIOMap_def)

lemma privMap_of_fields: "x\<lparr>t_iomap := m\<rparr> = y\<lparr>t_iomap := m\<rparr> \<Longrightarrow> t_privMap x = t_privMap y"
  by (metis task.select_convs(18) task.surjective task.update_convs(17))

lemma ata_ports_iomap: "(ata_ports x)\<lparr>t_iomap := m\<rparr> = x\<lparr>t_iomap := m\<rparr>"
  unfolding ata_ports_def t_privMap_setIOMap by (rule fold_setIOMap_pair(2))

lemma ata_rights_task:
  assumes "ata_rights x = Inr y" and "t_privMap x = [0x0A]"
  shows "y = x\<lparr>t_privMap := [0x1E], t_iomap := t_iomap y\<rparr>"
    and "getIOMap port y \<longleftrightarrow> getIOMap port x \<or> ata_port port"
proof -
  define z where "z = (fold (\<lambda>j. setIOMap (0xC000 + of_nat j) True) [0..<16] ((ata_ports x)\<lparr>t_privMap := [0x1E]\<rparr>))"
  have swap: "z\<lparr>t_privMap := q, t_iomap := m\<rparr> = z\<lparr>t_iomap := m, t_privMap := q\<rparr>" for z :: task and q m by simp
  have "t_privMap (ata_ports x) = t_privMap x" by (rule privMap_of_fields [OF ata_ports_iomap])
  then have p: "t_privMap (ata_ports x) = [0x0A]" using assms(2) by simp
  have y: "y = z"
    using assms(1) p by (simp add: ata_rights_def grantPrivilege_def PRIV_COUNT_def PRIV_IRQ_def PRIV_PHYSADDR_def z_def)
  have "y\<lparr>t_iomap := t_iomap y\<rparr> = x\<lparr>t_privMap := [0x1E], t_iomap := t_iomap y\<rparr>"
    unfolding y z_def by (simp only: fold_setIOMap(2) swap ata_ports_iomap)
  then show "y = x\<lparr>t_privMap := [0x1E], t_iomap := t_iomap y\<rparr>" by simp
  have "getIOMap port y \<longleftrightarrow> getIOMap port x \<or> (\<exists>j < 8. port = 0x1F0 + of_nat j) \<or> (\<exists>j < 8. port = 0x170 + of_nat j) \<or>
      port = 0x3F6 \<or> port = 0x376 \<or> (\<exists>j < 16. port = 0xC000 + of_nat j)"
    unfolding y z_def fold_setIOMap(1) getIOMap_privMap ata_ports_def getIOMap_setIOMap fold_setIOMap_pair(1) by auto
  then show "getIOMap port y \<longleftrightarrow> getIOMap port x \<or> ata_port port"
    using port_range [of "0x1F0" 8 port] port_range [of "0x170" 8 port] port_range [of "0xC000" 16 port]
    by (auto simp: ata_port_def)
qed

lemma init_rights_task:
  assumes "init_rights x = Inr y" and "t_privMap x = [0x0A]"
  shows "y = x\<lparr>t_privMap := [0x3B]\<rparr>"
  using assms by (auto simp: init_rights_def grantPrivilege_def rbind_eq_Inr PRIV_COUNT_def PRIV_REGISTER_NAME_def
      PRIV_GRANT_PRIV_def PRIV_PHYSADDR_def)

section \<open>The first six tasks\<close>

definition privileges :: "task \<Rightarrow> nat list" where
  "privileges x = filter (\<lambda>p. hasPrivilege p x = Inr True) [0..<PRIV_COUNT]"

lemma privileges_map:
  "t_privMap x = [0x0A] \<Longrightarrow> privileges x = [PRIV_CONSOLE_WRITE, PRIV_MALLOC]"
  "t_privMap x = [0x1E] \<Longrightarrow> privileges x = [PRIV_CONSOLE_WRITE, PRIV_IRQ, PRIV_MALLOC, PRIV_PHYSADDR]"
  "t_privMap x = [0x3B] \<Longrightarrow> privileges x = [PRIV_GRANT_PRIV, PRIV_CONSOLE_WRITE, PRIV_MALLOC, PRIV_PHYSADDR, PRIV_REGISTER_NAME]"
  by (simp_all add: privileges_def hasPrivilege_def PRIV_COUNT_def upt_rec PRIV_CONSOLE_WRITE_def PRIV_IRQ_def PRIV_MALLOC_def
      PRIV_PHYSADDR_def PRIV_GRANT_PRIV_def PRIV_REGISTER_NAME_def)

definition boot_ready :: "kernel \<Rightarrow> bool" where
  "boot_ready k \<longleftrightarrow> k_count k = 0 \<and> k_lastPid k = 0 \<and> k_registered k = [] \<and> k_byPid k = [] \<and> k_priorityStart k = None"

lemma new_task_facts:
  assumes "new_task cpl name pid x"
  shows "t_next x = None" "t_id x = pid" "t_cpl x = cpl" "t_privMap x = [0x0A]" "t_registeredName x = None" "t_name x = name"
    "\<not> t_userWaiting x" "t_userCall x = None" "t_iomap x = (\<lambda>_. 0xFF)"
  using assms by (simp_all add: new_task_def)

lemma boot_base_kernel:
  assumes "boot_base mc = Inr (b, mc1)"
  obtains x where "b = k_count (mc_kernel mc)" and "new_task 3 ''initial task'' (k_lastPid (mc_kernel mc) + 1) x"
    and "k_task (mc_kernel mc1) = (k_task (mc_kernel mc))(b := x)" and "k_count (mc_kernel mc1) = Suc b"
    and "k_lastPid (mc_kernel mc1) = k_lastPid (mc_kernel mc) + 1" and "k_start (mc_kernel mc1) = Some b"
    and "k_current (mc_kernel mc1) = b" and "k_registered (mc_kernel mc1) = k_registered (mc_kernel mc)"
    and "k_byPid (mc_kernel mc1) = k_byPid (mc_kernel mc)" and "k_priorityStart (mc_kernel mc1) = k_priorityStart (mc_kernel mc)"
proof -
  from assms obtain k1 ks d e m where nt: "task_new 3 ''initial task'' (mc_kernel mc) = Inr (b, k1)"
    and mc1: "mc_kernel mc1 = (let k = upd_task b (\<lambda>t. t\<lparr>t_ks := ks, t_pageDir := d\<rparr>) k1 in k\<lparr>k_start := Some b, k_current := b,
        k_tss_esp0 := e, k_tss_iomap := m\<rparr>)"
    by (auto simp: boot_base_def BootstrapInitialTask_def rbind_eq_Inr Let_def)
  from task_new_new [OF nt] obtain x where x: "b = k_count (mc_kernel mc)"
    "new_task 3 ''initial task'' (k_lastPid (mc_kernel mc) + 1) x"
    "k1 = upd_task b (\<lambda>_. x) ((mc_kernel mc)\<lparr>k_count := Suc b, k_lastPid := k_lastPid (mc_kernel mc) + 1\<rparr>)" .
  show thesis
    by (rule that [of "x\<lparr>t_ks := ks, t_pageDir := d\<rparr>"]) (use x in \<open>simp_all add: mc1 Let_def new_task_def upd_task_def\<close>)
qed

lemma AkariEntryCont_kernel:
  assumes "AkariEntryCont idle_entry modules mc = Inr mc'" and "boot_ready (mc_kernel mc)"
  obtains x0 x1 x2 x3 x4 x5 y2 y5 where "new_task 3 ''initial task'' 1 x0" and "new_task 0 ''idle'' 2 x1"
    and "new_task 3 MODULE_ATA_LOCATION 3 x2" and "new_task 3 MODULE_FAT_LOCATION 4 x3" and "new_task 3 MODULE_VFS_LOCATION 5 x4"
    and "new_task 3 MODULE_INIT_LOCATION 6 x5" and "ata_rights (x2\<lparr>t_registeredName := Some ''system.io.ata''\<rparr>) = Inr y2"
    and "init_rights x5 = Inr y5"
    and "k_task (mc_kernel mc') = (k_task (mc_kernel mc))(0 := x0\<lparr>t_next := Some 1\<rparr>, 1 := x1\<lparr>t_next := Some 2\<rparr>,
      2 := y2\<lparr>t_next := Some 3\<rparr>, 3 := x3\<lparr>t_registeredName := Some ''system.io.fs.fat'', t_next := Some 4\<rparr>,
      4 := x4\<lparr>t_registeredName := Some ''system.io.vfs'', t_next := Some 5\<rparr>, 5 := y5)"
    and "k_count (mc_kernel mc') = 6" and "k_start (mc_kernel mc') = Some 0" and "k_current (mc_kernel mc') = 0"
    and "k_registered (mc_kernel mc') =
      [(Some ''system.io.ata'', 2), (Some ''system.io.fs.fat'', 3), (Some ''system.io.vfs'', 4)]"
    and "k_byPid (mc_kernel mc') = [(2, Some 1), (3, Some 2), (4, Some 3), (5, Some 4), (6, Some 5)]"
    and "k_priorityStart (mc_kernel mc') = None" and "k_activeDir (mc_kernel mc') = t_pageDir x0"
    and "m_activeDirectory (mc_memory mc') = t_pageDir x0"
proof -
  let ?k = "mc_kernel mc" and ?kd = "m_kernelDirectory (mc_memory mc)"
  from assms(1) obtain m1 ms b mc1 idle mc2 ata mc3 mc4 fat mc5 vfs mc6 init mc7 mc8 where
    b: "boot_base (mc\<lparr>mc_memory := m1\<rparr>) = Inr (b, mc1)"
    and idle: "CreateTask idle_entry 0 True 0 ?kd ''idle'' [] mc1 = Inr (idle, mc2)"
    and ata: "boot_service ms MODULE_ATA_LOCATION (link_task b idle mc2) = Inr (ata, mc3)"
    and rights: "give_rights ata_rights ata (boot_name ''system.io.ata'' ata mc3) = Inr mc4"
    and fat: "boot_service ms MODULE_FAT_LOCATION (link_task idle ata mc4) = Inr (fat, mc5)"
    and vfs: "boot_service ms MODULE_VFS_LOCATION (link_task ata fat (boot_name ''system.io.fs.fat'' fat mc5)) = Inr (vfs, mc6)"
    and init: "boot_service ms MODULE_INIT_LOCATION (link_task fat vfs (boot_name ''system.io.vfs'' vfs mc6)) = Inr (init, mc7)"
    and last: "give_rights init_rights init mc7 = Inr mc8"
    and mc': "mc' = (let mc9 = link_task vfs init mc8; d = t_pageDir (k_task (mc_kernel mc9) b) in
        con_put (''Akari: kernel initialised.'' @ [CHR 0x0A])
             (mc9\<lparr>mc_memory := switchPageDirectory d (mc_memory mc9),
                  mc_kernel := (mc_kernel mc9)\<lparr>k_activeDir := d\<rparr>\<rparr>))"
    by (auto simp: AkariEntryCont_def Let_def rbind_eq_Inr)
  from assms(2) have r: "k_count ?k = 0" "k_lastPid ?k = 0" "k_registered ?k = []" "k_byPid ?k = []" "k_priorityStart ?k = None"
    by (simp_all add: boot_ready_def)
  note upd = link_task_def on_task_def boot_name_def
  obtain x0 where x0: "b = 0" "new_task 3 ''initial task'' 1 x0"
    "k_task (mc_kernel mc1) = (k_task ?k)(0 := x0)" "k_count (mc_kernel mc1) = 1" "k_lastPid (mc_kernel mc1) = 1"
    "k_start (mc_kernel mc1) = Some 0" "k_current (mc_kernel mc1) = 0" "k_registered (mc_kernel mc1) = []"
    "k_byPid (mc_kernel mc1) = []" "k_priorityStart (mc_kernel mc1) = None"
    by (rule boot_base_kernel [OF b]) (use r in auto)
  from CreateTask_kernel [OF idle] x0 obtain x1 f1 where x1: "idle = 1" "new_task 0 ''idle'' 2 x1"
    "mc_kernel mc2 = kernel_with 1 x1 [(2, Some 1)] f1 (mc_kernel mc1)"
    by (auto simp: new_task_facts)
  from boot_service_kernel [OF ata] x0 x1 obtain x2 f2 where x2: "ata = 2" "new_task 3 MODULE_ATA_LOCATION 3 x2"
    "mc_kernel mc3 = kernel_with 2 x2 [(2, Some 1), (3, Some 2)] f2 (mc_kernel (link_task b idle mc2))"
    by (auto simp: new_task_facts upd numeral_2_eq_2 [symmetric])
  from rights obtain y2 where y2: "ata_rights (x2\<lparr>t_registeredName := Some ''system.io.ata''\<rparr>) = Inr y2"
    and mc4: "mc4 = on_task 2 (\<lambda>_. y2) (boot_name ''system.io.ata'' 2 mc3)"
    using x2 by (auto simp: give_rights_def upd rbind_eq_Inr)
  from boot_service_kernel [OF fat] x0 x1 x2 obtain x3 f3 where x3: "fat = 3" "new_task 3 MODULE_FAT_LOCATION 4 x3"
    "mc_kernel mc5 = kernel_with 3 x3 [(2, Some 1), (3, Some 2), (4, Some 3)] f3 (mc_kernel (link_task idle ata mc4))"
    by (auto simp: new_task_facts upd mc4 numeral_2_eq_2 [symmetric])
  from boot_service_kernel [OF vfs] x0 x1 x2 x3 obtain x4 f4 where x4: "vfs = 4" "new_task 3 MODULE_VFS_LOCATION 5 x4"
    "mc_kernel mc6 = kernel_with 4 x4 [(2, Some 1), (3, Some 2), (4, Some 3), (5, Some 4)] f4
       (mc_kernel (link_task ata fat (boot_name ''system.io.fs.fat'' fat mc5)))"
    by (auto simp: new_task_facts upd mc4 numeral_2_eq_2 [symmetric])
  from boot_service_kernel [OF init] x0 x1 x2 x3 x4 obtain x5 f5 where x5: "init = 5" "new_task 3 MODULE_INIT_LOCATION 6 x5"
    "mc_kernel mc7 = kernel_with 5 x5 [(2, Some 1), (3, Some 2), (4, Some 3), (5, Some 4), (6, Some 5)] f5
       (mc_kernel (link_task fat vfs (boot_name ''system.io.vfs'' vfs mc6)))"
    by (auto simp: new_task_facts upd mc4 numeral_2_eq_2 [symmetric])
  from last obtain y5 where y5: "init_rights x5 = Inr y5" and mc8: "mc8 = on_task 5 (\<lambda>_. y5) mc7"
    using x5 by (auto simp: give_rights_def rbind_eq_Inr)
  show thesis
  proof (rule that [OF x0(2) x1(2) x2(2) x3(2) x4(2) x5(2) y2 y5])
    show "k_task (mc_kernel mc') = (k_task ?k)(0 := x0\<lparr>t_next := Some 1\<rparr>, 1 := x1\<lparr>t_next := Some 2\<rparr>,
      2 := y2\<lparr>t_next := Some 3\<rparr>, 3 := x3\<lparr>t_registeredName := Some ''system.io.fs.fat'', t_next := Some 4\<rparr>,
      4 := x4\<lparr>t_registeredName := Some ''system.io.vfs'', t_next := Some 5\<rparr>, 5 := y5)"
      using x0 x1 x2 x3 x4 x5 by (simp add: mc' Let_def con_put_def mc4 mc8 upd fun_eq_iff)
  qed (use x0 x1 x2 x3 x4 x5 in \<open>simp_all add: mc' Let_def con_put_def mc4 mc8 upd switchPageDirectory_def\<close>)
qed

text \<open>
  Claim C6. When the start of the kernel returns, six tasks are on the list in the order of their making, with pids 1 to 6:
  the initial task, the idle task of ring 0, the disk, FAT and VFS servers, and init. The three servers, and only they, are
  known by their names; every task may write to the console and ask for memory, the disk server may also wait for interrupts and use
  physical addresses, and only init may register names and grant privileges; the disk server can use exactly its ports
  and the others none. The state is one from which the invariant of the task list holds, and the initial task runs in its own
  address space.
\<close>

theorem AkariEntryCont_tasks:
  assumes "AkariEntryCont idle_entry modules mc = Inr mc'" and "boot_ready (mc_kernel mc)"
  shows "let k = mc_kernel mc'; x = k_task k in
    task_list k [0, 1, 2, 3, 4, 5] \<and> kernel_ok k \<and> k_current k = 0 \<and>
    map (\<lambda>t. t_id (x t)) [0..<6] = [1, 2, 3, 4, 5, 6] \<and> map (\<lambda>t. t_cpl (x t)) [0..<6] = [3, 0, 3, 3, 3, 3] \<and>
    k_registered k = [(Some ''system.io.ata'', 2), (Some ''system.io.fs.fat'', 3), (Some ''system.io.vfs'', 4)] \<and>
    map (\<lambda>t. t_registeredName (x t)) [0..<6] =
      [None, None, Some ''system.io.ata'', Some ''system.io.fs.fat'', Some ''system.io.vfs'', None] \<and>
    map (\<lambda>t. privileges (x t)) [0..<6] =
      [[PRIV_CONSOLE_WRITE, PRIV_MALLOC], [PRIV_CONSOLE_WRITE, PRIV_MALLOC],
       [PRIV_CONSOLE_WRITE, PRIV_IRQ, PRIV_MALLOC, PRIV_PHYSADDR], [PRIV_CONSOLE_WRITE, PRIV_MALLOC],
       [PRIV_CONSOLE_WRITE, PRIV_MALLOC],
       [PRIV_GRANT_PRIV, PRIV_CONSOLE_WRITE, PRIV_MALLOC, PRIV_PHYSADDR, PRIV_REGISTER_NAME]] \<and>
    (\<forall>t < 6. \<forall>port. getIOMap port (x t) \<longleftrightarrow> t = 2 \<and> ata_port port) \<and>
    k_activeDir k = t_pageDir (x 0) \<and> m_activeDirectory (mc_memory mc') = t_pageDir (x 0)"
proof -
  from AkariEntryCont_kernel [OF assms] obtain x0 x1 x2 x3 x4 x5 y2 y5 where
    new: "new_task 3 ''initial task'' 1 x0" "new_task 0 ''idle'' 2 x1" "new_task 3 MODULE_ATA_LOCATION 3 x2"
      "new_task 3 MODULE_FAT_LOCATION 4 x3" "new_task 3 MODULE_VFS_LOCATION 5 x4" "new_task 3 MODULE_INIT_LOCATION 6 x5"
    and rights: "ata_rights (x2\<lparr>t_registeredName := Some ''system.io.ata''\<rparr>) = Inr y2" "init_rights x5 = Inr y5"
    and k: "k_task (mc_kernel mc') = (k_task (mc_kernel mc))(0 := x0\<lparr>t_next := Some 1\<rparr>, 1 := x1\<lparr>t_next := Some 2\<rparr>,
      2 := y2\<lparr>t_next := Some 3\<rparr>, 3 := x3\<lparr>t_registeredName := Some ''system.io.fs.fat'', t_next := Some 4\<rparr>,
      4 := x4\<lparr>t_registeredName := Some ''system.io.vfs'', t_next := Some 5\<rparr>, 5 := y5)"
      "k_count (mc_kernel mc') = 6" "k_start (mc_kernel mc') = Some 0" "k_current (mc_kernel mc') = 0"
      "k_registered (mc_kernel mc') = [(Some ''system.io.ata'', 2), (Some ''system.io.fs.fat'', 3), (Some ''system.io.vfs'', 4)]"
      "k_byPid (mc_kernel mc') = [(2, Some 1), (3, Some 2), (4, Some 3), (5, Some 4), (6, Some 5)]"
    and act: "k_activeDir (mc_kernel mc') = t_pageDir x0" "m_activeDirectory (mc_memory mc') = t_pageDir x0" .
  note closed = getIOMap_closed
  have y2: "y2 = x2\<lparr>t_registeredName := Some ''system.io.ata'', t_privMap := [0x1E], t_iomap := t_iomap y2\<rparr>"
    and ports: "\<And>port. getIOMap port y2 \<longleftrightarrow> ata_port port"
    using ata_rights_task [OF rights(1)] new_task_facts [OF new(3)] closed by auto
  have y5: "y5 = x5\<lparr>t_privMap := [0x3B]\<rparr>" using init_rights_task [OF rights(2)] new_task_facts [OF new(6)] by simp
  have f2: "t_next y2 = None" "t_id y2 = 3" "t_cpl y2 = 3" "t_registeredName y2 = Some ''system.io.ata''" "t_privMap y2 = [0x1E]"
    using new_task_facts [OF new(3)] by (subst y2, simp)+
  note facts = new_task_facts [OF new(1)] new_task_facts [OF new(2)] new_task_facts [OF new(4)] new_task_facts [OF new(5)]
    new_task_facts [OF new(6)] f2 y5
  let ?k = "mc_kernel mc'"
  have six: "t < 6 \<longleftrightarrow> t \<in> {0, 1, 2, 3, 4, 5}" for t :: nat by auto
  have range: "[0..<6] = [0, 1, 2, 3, 4, 5 :: nat]" by (simp add: upt_rec)
  have tl: "task_list ?k [0, 1, 2, 3, 4, 5]" using k facts by (simp add: task_list_def)
  have "by_pid_ok ?k" using k facts by (auto simp: by_pid_ok_def split: if_splits)
  with tl have "kernel_ok ?k" by (auto simp: kernel_ok_def)
  moreover have "map (\<lambda>t. privileges (k_task ?k t)) [0..<6] =
      [[PRIV_CONSOLE_WRITE, PRIV_MALLOC], [PRIV_CONSOLE_WRITE, PRIV_MALLOC],
       [PRIV_CONSOLE_WRITE, PRIV_IRQ, PRIV_MALLOC, PRIV_PHYSADDR], [PRIV_CONSOLE_WRITE, PRIV_MALLOC],
       [PRIV_CONSOLE_WRITE, PRIV_MALLOC],
       [PRIV_GRANT_PRIV, PRIV_CONSOLE_WRITE, PRIV_MALLOC, PRIV_PHYSADDR, PRIV_REGISTER_NAME]]"
    unfolding range using k facts by (simp add: privileges_map)
  moreover have "\<forall>t < 6. \<forall>port. getIOMap port (k_task ?k t) \<longleftrightarrow> t = 2 \<and> ata_port port"
    unfolding six using k facts ports closed by (auto simp: getIOMap_def)
  ultimately show ?thesis unfolding Let_def range using tl k facts act by simp
qed

section \<open>The first stack\<close>

lemma setPaging_heap:
  assumes "setPaging b m = Inr m'"
  obtains h where "m_heap m' = Some h" and "m_placementAddress m' = 0"
    and "oa_list (h_index h) = [\<lparr>e_start = 0xC0180000, e_size = 0x1E80000, isHole = True\<rparr>]"
proof -
  from assms obtain g h where h: "heap_new KHEAP_START (KHEAP_START + KHEAP_INITIAL_SIZE) 0xCFFFF000 KHEAP_INDEX_SIZE False True g = Inr h"
    and m': "m_heap m' = Some h" "m_placementAddress m' = 0" by (auto simp: setPaging_def rbind_eq_Inr Let_def)
  have used: "h_used h = 0x180000"
    using h by (auto simp: heap_new_def rbind_eq_Inr Let_def KHEAP_START_def KHEAP_INDEX_SIZE_def)
  from heap_new_Inr [OF h] obtain d where
    d: "oa_list (h_index h) = [\<lparr>e_start = d, e_size = KHEAP_START + KHEAP_INITIAL_SIZE - d, isHole = True\<rparr>]"
      "h_used h = d - KHEAP_START" by metis
  have "d = 0xC0180000" using used d(2) by (simp add: KHEAP_START_def eq_diff_eq)
  with d m' show thesis using that by (simp add: KHEAP_START_def KHEAP_INITIAL_SIZE_def)
qed

text \<open>
  The stack pointer that the kernel starts with after paging is the lowest address of the block it allocates for the
  stack, and the memory just below it, where the first pushes go, is the end of the index of the kernel heap.
\<close>

theorem AkariEntry_stack_below_block:
  assumes "AkariEntry version kend memory_size news node garbage mb mc = Inr (stack, ms, mc')"
  shows "stack = KHEAP_START + 12 * KHEAP_INDEX_SIZE \<and>
    (\<exists>h. m_heap (mc_memory mc') = Some h \<and> \<lparr>e_start = stack, e_size = INIT_STACK_SIZE, isHole = False\<rparr> \<in># allocated h)"
proof -
  from assms obtain m2 m3 ph m4 where paging: "setPaging True m2 = Inr m3"
    and al: "memory_allocAligned INIT_STACK_SIZE False m3 = Inr (stack, ph, m4)" and mc': "mc_memory mc' = m4"
    by (auto simp: AkariEntry_def rbind_eq_Inr split: if_splits)
  from setPaging_heap [OF paging] obtain h where h: "m_heap m3 = Some h" "m_placementAddress m3 = 0"
    "oa_list (h_index h) = [\<lparr>e_start = 0xC0180000, e_size = 0x1E80000, isHole = True\<rparr>]" .
  from al h obtain h' where run: "heap_allocAligned INIT_STACK_SIZE h = Inr (stack, h')" and m4: "m_heap m4 = Some h'"
    by (auto simp: memory_allocAligned_def rbind_eq_Inr)
  obtain i hole idx idx' hole' idx'' idx3 where
    c: "smallestAlignedHole (h_index h) INIT_STACK_SIZE = Inr i" "hole = oa_list (h_index h) ! i"
      "(if e_start hole AND 0xFFF \<noteq> 0
        then let gap = 0x1000 - (e_start hole AND 0xFFF) in
             rbind (oa_insert IndexSort (hole\<lparr>e_size := gap\<rparr>) idx) (\<lambda>idx'.
             Inr (idx', page_up (e_start hole),
                  hole\<lparr>e_start := page_up (e_start hole), e_size := e_size hole - gap\<rparr>))
        else Inr (idx, e_start hole, hole)) = Inr (idx', stack, hole')"
      "oa_insert IndexSort \<lparr>e_start = stack, e_size = INIT_STACK_SIZE, isHole = False\<rparr> idx'' = Inr idx3"
      "h_index h' = idx3" by (rule heap_allocAligned_cases [OF run]) simp
  have "i = 0" using smallestAlignedHole_Inr(1) [OF c(1)] arg_cong [OF h(3), of length] by simp
  then have "hole = \<lparr>e_start = 0xC0180000, e_size = 0x1E80000, isHole = True\<rparr>" using c(2) h(3) by simp
  with c(3) have "stack = 0xC0180000" by simp
  moreover have "mset (oa_list idx3) = add_mset \<lparr>e_start = stack, e_size = INIT_STACK_SIZE, isHole = False\<rparr> (mset (oa_list idx''))"
    using oa.mset_ins [OF c(4)] .
  then have "\<lparr>e_start = stack, e_size = INIT_STACK_SIZE, isHole = False\<rparr> \<in># allocated h'"
    using c(5) by (simp add: allocated_def heap_entries_def)
  ultimately show ?thesis using m4 mc' by (simp add: KHEAP_START_def KHEAP_INDEX_SIZE_def)
qed

end
