(* ===== verification/BootModules.thy ===== *)
theory BootModules
  imports Boot CoreDumpProps
begin

text \<open>
  The modules that the boot loader hands over: their copy, and how their command lines are read.
\<close>

section \<open>Comparison without case\<close>

lemma toupper_null [simp]: "toupper 0 = 0"
  by (simp add: toupper_def)

lemma toupper_eq_null: "toupper c = 0 \<longleftrightarrow> c = 0"
  by (auto simp: toupper_def)

lemma char_order_zero: "char_order a b = 0 \<longleftrightarrow> a = b"
  by (auto simp: char_order_def sint_inj8 dest: antisym)

lemma stricmp_cstring:
  assumes "cstring a s" and "cstring b t"
  shows "\<exists>r. stricmp a b = Inr r \<and> (r = 0 \<longleftrightarrow> map toupper s = map toupper t)"
  using assms
proof (induction s arbitrary: a b t)
  case Nil
  then show ?case by (cases t) (auto simp: cstring_Nil cstring_Cons char_order_zero toupper_eq_null eq_commute [of 0])
next
  case (Cons c s)
  show ?case
  proof (cases t)
    case Nil
    with Cons.prems show ?thesis by (auto simp: cstring_Nil cstring_Cons char_order_zero toupper_eq_null)
  next
    case (Cons d t')
    with Cons.prems obtain a' b' where ab: "a = c # a'" "b = d # b'" "c \<noteq> 0" "d \<noteq> 0" "cstring a' s" "cstring b' t'"
      by (auto simp: cstring_Cons)
    with Cons.IH [OF ab(5,6)] Cons show ?thesis
      by (cases "sint (toupper c)" "sint (toupper d)" rule: linorder_cases) (auto simp: sint_inj8)
  qed
qed

section \<open>Command lines\<close>

text \<open>The name of the program and its arguments: a command line of one word is a name as it stands, blanks included.\<close>

definition program_name :: "bytes \<Rightarrow> bytes" where
  "program_name t = (case words t of a # b # rest \<Rightarrow> a | _ \<Rightarrow> t)"

definition program_args :: "bytes \<Rightarrow> bytes list option" where
  "program_args t = (case words t of a # b # rest \<Rightarrow> Some (b # rest) | _ \<Rightarrow> None)"

lemma string_text_ok: "string_ok s t \<Longrightarrow> string_text s = t"
  by (auto simp: string_ok_def string_text_def unat_of_nat)

lemma string_texts: "list_all2 string_ok ss ts \<Longrightarrow> map string_text ss = ts"
  by (induction rule: list_all2_induct) (auto simp: string_text_ok)

lemma split_module_words:
  assumes "cstring (lm_name m) t" and "length t + 1 < 2 ^ 32"
  shows "split_module m = Inr (case words t of a # b # rest \<Rightarrow> m\<lparr>lm_name := a @ [0], lm_args := Some (b # rest)\<rparr> | _ \<Rightarrow> m)"
proof -
  from string_of_c_ok [OF assms] obtain s where s: "string_of_c (lm_name m) = Inr s" "string_ok s t" by blast
  from string_split_words [OF s(2)] obtain ws where ws: "string_split s = Inr ws" "list_all2 string_ok ws (words t)" by blast
  then have "map string_text ws = words t" by (intro string_texts) simp
  then show ?thesis using s(1) ws(1)
    by (auto simp: split_module_def split: list.splits)
qed

lemma words_chars: "w \<in> set (words t) \<Longrightarrow> set w \<subseteq> set t"
proof (induction t rule: words.induct)
  case (1 t)
  let ?u = "dropWhile isspace t"
  have sub: "set ?u \<subseteq> set t" by (auto dest: set_dropWhileD)
  show ?case
  proof (cases "?u = []")
    case True
    then show ?thesis using "1.prems" by (simp add: words_Nil)
  next
    case False
    from words_Cons [OF refl False] "1.prems"
    have "w = takeWhile (\<lambda>c. \<not> isspace c) ?u \<or> w \<in> set (words (dropWhile (\<lambda>c. \<not> isspace c) ?u))" by (metis set_ConsD)
    then show ?thesis
    proof
      assume "w \<in> set (words (dropWhile (\<lambda>c. \<not> isspace c) ?u))"
      from "1.IH" [OF refl False this] sub show ?thesis by (auto dest: set_dropWhileD)
    qed (use sub in \<open>auto dest: set_takeWhileD\<close>)
  qed
qed

definition named_module :: "loaded_module \<Rightarrow> bytes \<Rightarrow> loaded_module" where
  "named_module m t = (case program_args t of None \<Rightarrow> m | Some args \<Rightarrow> m\<lparr>lm_name := program_name t @ [0], lm_args := Some args\<rparr>)"

lemma split_module_named:
  assumes "cstring (lm_name m) t" and "length t + 1 < 2 ^ 32"
  shows "split_module m = Inr (named_module m t)" and "cstring (lm_name (named_module m t)) (program_name t)"
proof -
  show "split_module m = Inr (named_module m t)"
    using split_module_words [OF assms] by (auto simp: named_module_def program_args_def program_name_def split: list.splits)
  have "0 \<notin> set (program_name t)" if "program_args t \<noteq> None"
    using that assms(1) words_chars [of "program_name t" t]
    by (auto simp: program_args_def program_name_def cstring_def split: list.splits)
  then show "cstring (lm_name (named_module m t)) (program_name t)"
    using assms(1) by (auto simp: named_module_def cstring_def program_args_def program_name_def split: list.splits option.splits)
qed

text \<open>
  The module that boot starts under a name is the first whose program has that name, case aside, with the
  words after it as arguments; nothing fails on the way. A command line of one word is a name as it stands, so with a
  blank after it the module is not found.
\<close>

theorem module_by_command_line:
  assumes "list_all2 (\<lambda>m t. cstring (lm_name m) t \<and> length t + 1 < 2 ^ 32) ms ts" and "0 \<notin> set loc"
  shows "\<exists>ms'. split_modules ms = Inr ms' \<and>
    module_by_name (loc @ [0]) ms' =
      Inr (map_option (\<lambda>(m, t). m\<lparr>lm_name := lm_name (named_module m t),
          lm_args := (case program_args t of None \<Rightarrow> lm_args m | args \<Rightarrow> args)\<rparr>)
        (find (\<lambda>(m, t). map toupper (program_name t) = map toupper loc) (zip ms ts)))"
  using assms(1)
proof (induction rule: list_all2_induct)
  case (Cons m ms t ts)
  then obtain ms' where IH: "split_modules ms = Inr ms'"
    "module_by_name (loc @ [0]) ms' =
      Inr (map_option (\<lambda>(m, t). m\<lparr>lm_name := lm_name (named_module m t),
          lm_args := (case program_args t of None \<Rightarrow> lm_args m | args \<Rightarrow> args)\<rparr>)
        (find (\<lambda>(m, t). map toupper (program_name t) = map toupper loc) (zip ms ts)))" by blast
  from Cons have t: "cstring (lm_name m) t" "length t + 1 < 2 ^ 32" by simp_all
  note named = split_module_named [OF t]
  have "cstring (loc @ [0]) loc" using assms(2) by (simp add: cstring_def)
  from stricmp_cstring [OF this named(2)] obtain r where
    r: "stricmp (loc @ [0]) (lm_name (named_module m t)) = Inr r" "r = 0 \<longleftrightarrow> map toupper loc = map toupper (program_name t)" by blast
  have eq: "named_module m t = m\<lparr>lm_name := lm_name (named_module m t),
      lm_args := (case program_args t of None \<Rightarrow> lm_args m | args \<Rightarrow> args)\<rparr>"
    by (simp add: named_module_def split: option.splits)
  have sp: "split_modules (m # ms) = Inr (named_module m t # ms')" using named(1) IH(1) by simp
  show ?case
  proof (cases "map toupper (program_name t) = map toupper loc")
    case True
    with r have "module_by_name (loc @ [0]) (named_module m t # ms') = Inr (Some (named_module m t))" by simp
    then show ?thesis using sp True by (simp add: eq [symmetric])
  next
    case False
    with r have "module_by_name (loc @ [0]) (named_module m t # ms') = module_by_name (loc @ [0]) ms'" by auto
    then show ?thesis using sp IH(2) False by simp
  qed
qed simp

theorem module_by_command_line_witness:
  "\<exists>ms'. split_modules [\<lparr>lm_name = [66, 32, 0], lm_module = 1, lm_args = None, lm_module_len = 0\<rparr>,
       \<lparr>lm_name = [98, 32, 120, 0], lm_module = 2, lm_args = None, lm_module_len = 0\<rparr>] = Inr ms' \<and>
     module_by_name [66, 0] ms' = Inr (Some \<lparr>lm_name = [98, 0], lm_module = 2, lm_args = Some [[120]], lm_module_len = 0\<rparr>)"
proof -
  let ?ms = "[\<lparr>lm_name = [66, 32, 0], lm_module = 1, lm_args = None, lm_module_len = 0\<rparr>,
       \<lparr>lm_name = [98, 32, 120, 0], lm_module = 2, lm_args = None, lm_module_len = 0\<rparr>]"
  have w: "words [66, 32] = [[66]]" "words [98, 32, 120] = [[98], [120]]" by code_simp+
  have up: "map toupper [66, 32] \<noteq> map toupper [66]" "map toupper [98] = map toupper [66]" by (simp_all add: toupper_def)
  have "list_all2 (\<lambda>m t. cstring (lm_name m) t \<and> length t + 1 < 2 ^ 32) ?ms [[66, 32], [98, 32, 120]]"
    by (simp add: cstring_def)
  from module_by_command_line [OF this, of "[66]"] show ?thesis
    using up by (simp add: program_name_def program_args_def named_module_def w)
qed

section \<open>Copying before paging\<close>

lemma unat_last: "unat (- 1 :: u32) = 4294967295"
  by (simp add: unsigned_minus_1_eq_mask mask_eq_exp_minus_1)

lemma unat_pred: "(x :: u32) \<noteq> 0 \<Longrightarrow> unat (x - 1) = unat x - 1" "(x :: u32) \<noteq> 0 \<Longrightarrow> 0 < unat x"
proof -
  assume "x \<noteq> 0"
  then show *: "0 < unat x" by (simp add: unat_gt_0)
  then show "unat (x - 1) = unat x - 1" by (subst unat_sub_nowrap) simp_all
qed

text \<open>A forward copy is right when no byte is overwritten before it is read.\<close>

lemma phys_byte_phys_copy:
  assumes "\<And>i j. i < j \<Longrightarrow> j < n \<Longrightarrow> dest + of_nat i \<noteq> src + of_nat j" and "n < 4294967296"
  shows "phys_byte (phys_copy n dest src g) a = (if unat (a - dest) < n then phys_byte g (src + (a - dest)) else phys_byte g a)"
  using assms
proof (induction n arbitrary: dest src g)
  case (Suc n)
  have apart: "dest + 1 + of_nat i \<noteq> src + 1 + of_nat j" if "i < j" "j < n" for i j
    using Suc.prems(1) [of "Suc i" "Suc j"] that by (simp add: add.assoc)
  define x where "x = a - dest"
  have a: "a - (dest + 1) = x - 1" and ax: "a = dest + x" by (simp_all add: x_def)
  show ?case
  proof (cases "x = 0")
    case True
    have "\<not> unat (- 1 :: u32) < n" using Suc.prems(2) unat_last by linarith
    then show ?thesis using Suc.IH [OF apart] Suc.prems(2) True by (simp add: a x_def phys_byte_put)
  next
    case False
    note u = unat_pred [OF this]
    have "src + x \<noteq> dest" if "unat x < Suc n" using Suc.prems(1) [of 0 "unat x"] that u(2) by auto
    then show ?thesis using Suc.IH [OF apart] Suc.prems(2) False u
      by (auto simp: a x_def [symmetric] phys_byte_put) (auto simp: x_def)
  qed
qed simp

lemma phys_byte_phys_write:
  assumes "length b < 4294967296"
  shows "phys_byte (mc_frame (phys_write a b mc)) x =
      (if unat (x - a) < length b then b ! unat (x - a) else phys_byte (mc_frame mc) x)"
    and "mc_memory (phys_write a b mc) = mc_memory mc" and "mc_kernel (phys_write a b mc) = mc_kernel mc"
proof -
  show "phys_byte (mc_frame (phys_write a b mc)) x =
      (if unat (x - a) < length b then b ! unat (x - a) else phys_byte (mc_frame mc) x)" using assms
  proof (induction b arbitrary: a mc)
    case (Cons c b)
    define y where "y = x - a"
    have y: "x - (a + 1) = y - 1" by (simp add: y_def)
    show ?case
    proof (cases "y = 0")
      case True
      have "\<not> unat (- 1 :: u32) < length b" using Cons.prems unat_last by simp
      then show ?thesis using Cons True by (simp add: y y_def phys_byte_put)
    next
      case False
      note unat_pred [OF this]
      moreover have "x \<noteq> a" using False y_def by auto
      ultimately show ?thesis using Cons by (auto simp: y y_def [symmetric] phys_byte_put)
    qed
  qed simp
  show "mc_memory (phys_write a b mc) = mc_memory mc" "mc_kernel (phys_write a b mc) = mc_kernel mc"
    by (induction b arbitrary: a mc) simp_all
qed

lemma phys_string_found:
  assumes "length name < n" and "0 \<notin> set name"
    and "\<And>i. i < length name \<Longrightarrow> phys_byte (mc_frame mc) (a + of_nat i) = name ! i"
    and "phys_byte (mc_frame mc) (a + of_nat (length name)) = 0"
  shows "phys_string n a mc = Inr name"
  using assms
proof (induction name arbitrary: a n)
  case Nil
  then show ?case by (cases n) auto
next
  case (Cons c name)
  then obtain n' where n: "n = Suc n'" by (cases n) auto
  have "phys_string n' (a + 1) mc = Inr name"
    using Cons.prems n Cons.prems(3) [of "Suc i" for i] by (intro Cons.IH) (auto simp: add.assoc)
  then show ?case using Cons.prems(2) Cons.prems(3) [of 0] n by (auto simp: Let_def)
qed

section \<open>The modules the boot loader leaves\<close>

text \<open>
  A module: where it starts, its length, its command line and where that is; and the table of modules at an address.
\<close>

type_synonym boot_module = "u32 \<times> nat \<times> bytes \<times> u32"

definition module_at :: "machine \<Rightarrow> u32 \<Rightarrow> boot_module \<Rightarrow> bool" where
  "module_at mc ptr = (\<lambda>(start, len, name, str).
     get_u32 (phys_block ptr 16 mc) 0 = Inr start \<and> get_u32 (phys_block ptr 16 mc) 4 = Inr (start + of_nat len) \<and>
     get_u32 (phys_block ptr 16 mc) 8 = Inr str \<and> len < 4294967296 \<and> length name < 4294967295 \<and> 0 \<notin> set name \<and>
     (\<forall>i < length name. phys_byte (mc_frame mc) (str + of_nat i) = name ! i) \<and>
     phys_byte (mc_frame mc) (str + of_nat (length name)) = 0)"

fun modules_at :: "machine \<Rightarrow> u32 \<Rightarrow> boot_module list \<Rightarrow> bool" where
  "modules_at mc ptr [] = True"
| "modules_at mc ptr (s # ss) = (module_at mc ptr s \<and> modules_at mc (ptr + 16) ss)"

fun boot_bytes :: "u32 \<Rightarrow> boot_module list \<Rightarrow> u32 set" where
  "boot_bytes ptr [] = {}"
| "boot_bytes ptr ((start, len, name, str) # ss) =
     (\<lambda>i. ptr + of_nat i) ` {..<16} \<union> (\<lambda>i. start + of_nat i) ` {..<len} \<union>
     (\<lambda>i. str + of_nat i) ` {..length name} \<union> boot_bytes (ptr + 16) ss"

text \<open>What their copies take, with the nodes of the list.\<close>

fun module_room :: "u32 \<Rightarrow> boot_module list \<Rightarrow> nat" where
  "module_room node [] = 0"
| "module_room node ((start, len, name, str) # ss) = length name + 1 + len + unat node + 16 + module_room node ss"

definition below :: "nat \<Rightarrow> nat \<Rightarrow> u32 \<Rightarrow> bool" where
  "below lo hi a \<longleftrightarrow> lo \<le> unat a \<and> unat a < hi"

lemma below_offset:
  assumes "unat p + n \<le> hi" and "hi \<le> 4294967296"
  shows "unat (a - p) < n \<Longrightarrow> below (unat p) (unat p + n) a"
proof -
  assume *: "unat (a - p) < n"
  have "unat ((a - p) + p) = unat (a - p) + unat p" using * assms by (intro unat_add_nowrap) simp
  then show "below (unat p) (unat p + n) a" using * by (simp add: below_def)
qed

lemma kernel_new_placement:
  assumes "m_placementAddress (mc_memory mc) \<noteq> 0"
  shows "kernel_new n mc = Inr (m_placementAddress (mc_memory mc),
    mc\<lparr>mc_memory := (mc_memory mc)\<lparr>m_placementAddress := m_placementAddress (mc_memory mc) + n\<rparr>\<rparr>)"
  using assms by (simp add: kernel_new_def memory_alloc_def)

lemma unat_place:
  "unat (p :: u32) + n < 4294967296 \<Longrightarrow> unat (p + of_nat n) = unat p + n"
  by (subst unat_add_nowrap) (simp_all add: unat_of_nat take_bit_nat_eq_self)

lemma load_module_ok:
  assumes src: "module_at mc ptr (start, len, name, str)" and p: "m_placementAddress (mc_memory mc) = p" "p \<noteq> 0"
    and room: "unat p + (length name + 1 + len + unat node + 16) < 4294967296"
    and apart: "\<And>i. i < len \<Longrightarrow> \<not> below (unat p) (unat p + (length name + 1 + len + unat node + 16)) (start + of_nat i)"
  shows "\<exists>mc'. load_module node ptr mc =
      Inr (\<lparr>lm_name = name @ [0], lm_module = p + of_nat (length name + 1), lm_args = None, lm_module_len = of_nat len\<rparr>, mc') \<and>
    m_placementAddress (mc_memory mc') = p + of_nat (length name + 1 + len + unat node + 16) \<and>
    phys_block (p + of_nat (length name + 1)) len mc' = phys_block start len mc \<and>
    (\<forall>a. \<not> below (unat p) (unat p + (length name + 1 + len)) a \<longrightarrow> phys_byte (mc_frame mc') a = phys_byte (mc_frame mc) a)"
proof -
  define n where "n = length name + 1"
  define a where "a = p + of_nat n"
  have n: "length (name @ [0]) < 4294967296" "n < 4294967296" using room by (simp_all add: n_def)
  have pn: "unat a = unat p + n" unfolding a_def using room by (intro unat_place) (simp add: n_def)
  have al: "unat (a + of_nat len) = unat p + n + len"
    using unat_place [of a len] room by (simp add: pn n_def)
  have pos: "a \<noteq> 0" "a + of_nat len \<noteq> 0" using p(2) pn al by (metis add_is_0 unat_0 unat_eq_zero)+
  have f: "phys_string (2 ^ 32) str mc = Inr name" using src by (intro phys_string_found) (auto simp: module_at_def)
  have g: "get_u32 (phys_block ptr 16 mc) 0 = Inr start" "get_u32 (phys_block ptr 16 mc) 4 = Inr (start + of_nat len)"
    "get_u32 (phys_block ptr 16 mc) 8 = Inr str" using src by (simp_all add: module_at_def)
  define mc1 where "mc1 = con_put (''loaded module: '' @ map (\<lambda>c. char_of (unat c)) name @ [CHR 0x0A]) mc"
  have m1: "mc_memory mc1 = mc_memory mc" "mc_frame mc1 = mc_frame mc" by (simp_all add: mc1_def con_put_def)
  define mc2 where "mc2 = mc1\<lparr>mc_memory := (mc_memory mc)\<lparr>m_placementAddress := a\<rparr>\<rparr>"
  have k1: "kernel_new (of_nat (length name) + 1) mc1 = Inr (p, mc2)"
    using kernel_new_placement [of mc1 "of_nat (length name) + 1"] p m1 by (simp add: mc2_def a_def n_def)
  define mc3 where "mc3 = phys_write p (name @ [0]) mc2"
  have m3: "mc_memory mc3 = (mc_memory mc)\<lparr>m_placementAddress := a\<rparr>"
    using phys_byte_phys_write(2) [OF n(1)] by (simp add: mc3_def mc2_def)
  have b3: "phys_byte (mc_frame mc3) x = phys_byte (mc_frame mc) x" if "\<not> below (unat p) (unat p + n) x" for x
  proof -
    have "\<not> unat (x - p) < n" using that below_offset [of p n "unat p + n" x] room by (auto simp: n_def)
    then show ?thesis using phys_byte_phys_write(1) [OF n(1), of p mc2 x] m1 by (simp add: mc3_def mc2_def n_def)
  qed
  define mc4 where "mc4 = mc3\<lparr>mc_memory := (mc_memory mc)\<lparr>m_placementAddress := a + of_nat len\<rparr>\<rparr>"
  have k2: "kernel_new (of_nat len) mc3 = Inr (a, mc4)"
    using kernel_new_placement [of mc3 "of_nat len"] pos m3 by (simp add: mc4_def)
  define mc5 where "mc5 = mc4\<lparr>mc_frame := phys_copy len a start (mc_frame mc4)\<rparr>"
  define mc7 where "mc7 = mc5\<lparr>mc_memory := (mc_memory mc)\<lparr>m_placementAddress := a + of_nat len + node + 16\<rparr>\<rparr>"
  have aln: "unat (a + of_nat len + node) = unat p + n + len + unat node"
    using unat_add_nowrap [of "a + of_nat len" node] room by (simp add: al n_def)
  have "a + of_nat len + node \<noteq> 0" using p(2) aln by (metis add_is_0 unat_0 unat_eq_zero)
  then have k3: "rbind (kernel_new node mc5) (\<lambda>(_, mc6). rbind (kernel_new 16 mc6) (\<lambda>(_, mc7). Inr (r, mc7))) = Inr (r, mc7)" for r
    using kernel_new_placement [of mc5 node] pos
    by (simp add: kernel_new_placement mc7_def mc5_def mc4_def)
  have ul: "unat (of_nat len :: u32) = len" using src by (simp add: module_at_def unat_of_nat take_bit_nat_eq_self)
  have clear: "a + of_nat i \<noteq> start + of_nat j" if "i < len" "j < len" for i j
  proof
    assume *: "a + of_nat i = start + of_nat j"
    have "unat (a + of_nat i) = unat p + n + i" using unat_place [of a i] that(1) room by (simp add: pn n_def)
    then have "below (unat p) (unat p + (length name + 1 + len + unat node + 16)) (start + of_nat j)"
      unfolding * [symmetric] using that(1) by (simp add: below_def n_def)
    then show False using apart [OF that(2)] by blast
  qed
  have len: "len < 4294967296" using src by (simp add: module_at_def)
  have b5: "phys_byte (mc_frame mc5) x = (if unat (x - a) < len then phys_byte (mc_frame mc3) (start + (x - a)) else phys_byte (mc_frame mc3) x)" for x
    using phys_byte_phys_copy [of len a start "mc_frame mc4" x] clear len by (simp add: mc5_def mc4_def)
  have run: "load_module node ptr mc =
      Inr (\<lparr>lm_name = name @ [0], lm_module = a, lm_args = None, lm_module_len = of_nat len\<rparr>, mc7)"
    by (simp only: load_module_def g rbind_Inr Let_def add_diff_cancel_left' f mc1_def [symmetric] k1 prod.case
        mc3_def [symmetric] k2 ul mc5_def [symmetric] k3)
  moreover have "m_placementAddress (mc_memory mc7) = p + of_nat (length name + 1 + len + unat node + 16)"
    by (simp add: mc7_def a_def n_def algebra_simps)
  moreover have "phys_block a len mc7 = phys_block start len mc"
  proof -
    have "phys_byte (mc_frame mc5) (a + of_nat i) = phys_byte (mc_frame mc) (start + of_nat i)" if "i < len" for i
    proof -
      have "unat (of_nat i :: u32) = i" using that len by (simp add: unat_of_nat take_bit_nat_eq_self)
      then have "phys_byte (mc_frame mc5) (a + of_nat i) = phys_byte (mc_frame mc3) (start + of_nat i)" using that by (simp add: b5)
      also have "\<dots> = phys_byte (mc_frame mc) (start + of_nat i)" using apart [OF that] by (intro b3) (auto simp: below_def n_def)
      finally show ?thesis .
    qed
    then show ?thesis by (simp add: phys_block_def mc7_def)
  qed
  moreover have "phys_byte (mc_frame mc7) x = phys_byte (mc_frame mc) x" if "\<not> below (unat p) (unat p + (length name + 1 + len)) x" for x
  proof -
    have "\<not> unat (x - a) < len" using that below_offset [of a len "unat p + n + len" x] room by (auto simp: pn n_def below_def)
    then show ?thesis using b5 [of x] b3 [of x] that by (auto simp: mc7_def below_def n_def)
  qed
  ultimately show ?thesis unfolding a_def n_def by blast
qed

lemma modules_at_cong:
  assumes "\<And>a. a \<in> boot_bytes ptr ss \<Longrightarrow> phys_byte (mc_frame mc') a = phys_byte (mc_frame mc) a" and "modules_at mc ptr ss"
  shows "modules_at mc' ptr ss"
  using assms
proof (induction ss arbitrary: ptr)
  case (Cons s ss)
  obtain start len name str where s: "s = (start, len, name, str)" by (cases s)
  have "phys_block ptr 16 mc' = phys_block ptr 16 mc" using Cons.prems(1) by (auto simp: phys_block_def s)
  then have "module_at mc' ptr s" using Cons.prems by (auto simp: module_at_def s)
  then show ?case using Cons by (auto simp: s)
qed simp

lemma boot_bytes_start:
  "(start, len, name, str) \<in> set ss \<Longrightarrow> i < len \<Longrightarrow> start + of_nat i \<in> boot_bytes ptr ss"
  by (induction ptr ss rule: boot_bytes.induct) auto

text \<open>
  When nothing of what the boot loader left lies in the memory after the kernel that the copies will take, the
  kernel takes over every module: the copies succeed and hold the bytes and the command lines of the modules in their
  order, and no byte outside that memory changes.
\<close>

theorem load_modules_copies:
  assumes "modules_at mc ptr ss" and "m_placementAddress (mc_memory mc) = p" and "p \<noteq> 0"
    and "unat p + module_room node ss < 4294967296"
    and "\<And>a. a \<in> boot_bytes ptr ss \<Longrightarrow> \<not> below (unat p) (unat p + module_room node ss) a"
  shows "\<exists>ms mc'. load_modules node (length ss) ptr mc = Inr (ms, mc') \<and>
    list_all2 (\<lambda>m (start, len, name, str). lm_name m = name @ [0] \<and> lm_module_len m = of_nat len \<and> lm_args m = None \<and>
      phys_block (lm_module m) len mc' = phys_block start len mc) ms ss \<and>
    unat (m_placementAddress (mc_memory mc')) = unat p + module_room node ss \<and>
    (\<forall>a. \<not> below (unat p) (unat p + module_room node ss) a \<longrightarrow> phys_byte (mc_frame mc') a = phys_byte (mc_frame mc) a)"
  using assms
proof (induction ss arbitrary: mc ptr p)
  case (Cons s ss)
  obtain start len name str where s: "s = (start, len, name, str)" by (cases s)
  let ?n = "length name + 1 + len + unat node + 16"
  have sub: "\<not> below (unat p) (unat p + ?n) a" "\<not> below (unat p + ?n) (unat p + ?n + module_room node ss) a"
    if "a \<in> boot_bytes ptr (s # ss)" for a
    using Cons.prems(5) [OF that] by (auto simp: below_def s)
  from load_module_ok [of mc ptr start len name str p node] Cons.prems sub(1) obtain mc1 where
    one: "load_module node ptr mc = Inr (\<lparr>lm_name = name @ [0], lm_module = p + of_nat (length name + 1), lm_args = None,
        lm_module_len = of_nat len\<rparr>, mc1)"
      "m_placementAddress (mc_memory mc1) = p + of_nat ?n"
      "phys_block (p + of_nat (length name + 1)) len mc1 = phys_block start len mc"
      "\<forall>a. \<not> below (unat p) (unat p + (length name + 1 + len)) a \<longrightarrow> phys_byte (mc_frame mc1) a = phys_byte (mc_frame mc) a"
    by (force simp: s)
  have room: "unat p + ?n + module_room node ss < 4294967296" using Cons.prems(4) by (simp add: s)
  have p1: "unat (p + of_nat ?n) = unat p + ?n" by (rule unat_place) (use room in simp)
  then have "p + of_nat ?n \<noteq> 0" using Cons.prems(3) by (metis add_is_0 unat_0 unat_eq_zero)
  moreover have old: "phys_byte (mc_frame mc1) a = phys_byte (mc_frame mc) a" if "\<not> below (unat p) (unat p + ?n) a" for a
    using one(4) that by (auto simp: below_def)
  have "modules_at mc1 (ptr + 16) ss"
    using Cons.prems(1) sub(1) by (intro modules_at_cong [of _ _ mc1 mc] old) (auto simp: s)
  ultimately obtain ms mc' where rest: "load_modules node (length ss) (ptr + 16) mc1 = Inr (ms, mc')"
    "list_all2 (\<lambda>m (start, len, name, str). lm_name m = name @ [0] \<and> lm_module_len m = of_nat len \<and> lm_args m = None \<and>
      phys_block (lm_module m) len mc' = phys_block start len mc1) ms ss"
    "unat (m_placementAddress (mc_memory mc')) = unat p + ?n + module_room node ss"
    "\<forall>a. \<not> below (unat p + ?n) (unat p + ?n + module_room node ss) a \<longrightarrow> phys_byte (mc_frame mc') a = phys_byte (mc_frame mc1) a"
    using Cons.IH [of mc1 "ptr + 16" "p + of_nat ?n"] one(2) room sub(2) p1 by (force simp: s)
  have img: "phys_block (p + of_nat (length name + 1)) len mc' = phys_block start len mc"
  proof -
    have "phys_byte (mc_frame mc') (p + of_nat (length name + 1) + of_nat i) =
        phys_byte (mc_frame mc1) (p + of_nat (length name + 1) + of_nat i)" if "i < len" for i
    proof -
      have "unat (p + of_nat (length name + 1 + i)) = unat p + (length name + 1 + i)"
        using that room by (intro unat_place) simp
      then have "\<not> below (unat p + ?n) (unat p + ?n + module_room node ss) (p + of_nat (length name + 1) + of_nat i)"
        using that by (simp add: below_def algebra_simps)
      then show ?thesis using rest(4) by blast
    qed
    then have "phys_block (p + of_nat (length name + 1)) len mc' = phys_block (p + of_nat (length name + 1)) len mc1"
      by (simp add: phys_block_def)
    then show ?thesis using one(3) by simp
  qed
  have same: "phys_block st ln mc1 = phys_block st ln mc" if "(st, ln, nm, sr) \<in> set ss" for st ln nm sr
    using boot_bytes_start [OF that, of _ "ptr + 16"] sub(1) old by (auto simp: phys_block_def s)
  have "list_all2 (\<lambda>m (start, len, name, str). lm_name m = name @ [0] \<and> lm_module_len m = of_nat len \<and> lm_args m = None \<and>
      phys_block (lm_module m) len mc' = phys_block start len mc) ms ss"
    by (rule list.rel_mono_strong [OF rest(2)]) (use same in auto)
  moreover have "phys_byte (mc_frame mc') a = phys_byte (mc_frame mc) a"
    if "\<not> below (unat p) (unat p + module_room node (s # ss)) a" for a
    using that rest(4) old [of a] by (auto simp: below_def s)
  ultimately show ?case using one(1) rest(1,3) img by (simp add: s)
qed (simp add: below_def)

end
