(* ===== verification/Resources.thy ===== *)
theory Resources
  imports HeapRoom CoreDumpProps
begin

text \<open>
  What the kernel needs to make page tables, page directories and processes without failing: room in its heap, whose pages
  are all mapped, and free frames. Each operation is shown to succeed while there is enough, and to leave what it
  does not take.
\<close>

section \<open>Resources\<close>

definition free_frames :: "memory \<Rightarrow> nat set" where
  "free_frames m = {f. f < frame_limit m \<and> \<not> frame_used m f}"

definition heap_mapped :: "nat \<Rightarrow> nat \<Rightarrow> memory \<Rightarrow> bool" where
  "heap_mapped lo hi m \<longleftrightarrow> (\<forall>a. lo \<le> unat a \<and> unat a < hi \<longrightarrow>
     (\<exists>p. lookup_page (m_kernelDirectory m) a m = Some p \<and> frame_used m (unat (pg_pageAddress (page_at p m)))))"

definition kernel_dir_ok :: "memory \<Rightarrow> bool" where
  "kernel_dir_ok m \<longleftrightarrow> m_kernelDirectory m < m_ndirs m \<and> dir_ok (m_kernelDirectory m) m"

text \<open>The frames behind the region \<open>[lo, hi)\<close> of the kernel heap.\<close>

definition heap_frames :: "nat \<Rightarrow> nat \<Rightarrow> memory \<Rightarrow> nat set" where
  "heap_frames lo hi m = {unat (pg_pageAddress (page_at p m)) | p a. lo \<le> unat a \<and> unat a < hi \<and>
     lookup_page (m_kernelDirectory m) a m = Some p}"

definition mem_ready :: "nat \<Rightarrow> nat \<Rightarrow> nat \<Rightarrow> nat \<Rightarrow> nat \<Rightarrow> memory \<Rightarrow> bool" where
  "mem_ready lo hi s j n m \<longleftrightarrow> m_placementAddress m = 0 \<and>
     (\<exists>h. m_heap m = Some h \<and> heap_wf lo h \<and> unat (h_end h) = hi \<and> hi < lo + 2147483648 \<and> has_room s j h) \<and>
     heap_mapped lo hi m \<and>
     kernel_dir_ok m \<and> frames_ok m \<and> frame_used m 0 \<and> n \<le> card (free_frames m)"

lemma mem_ready_less: "mem_ready lo hi s j n m \<Longrightarrow> s' \<le> s \<Longrightarrow> j' \<le> j \<Longrightarrow> n' \<le> n \<Longrightarrow> mem_ready lo hi s' j' n' m"
  by (auto simp: mem_ready_def intro: has_room_less)

lemma heap_fields [simp]:
  "lookup_page d a (m\<lparr>m_heap := x\<rparr>) = lookup_page d a m" "page_at p (m\<lparr>m_heap := x\<rparr>) = page_at p m"
  "frame_used (m\<lparr>m_heap := x\<rparr>) f = frame_used m f" "frame_limit (m\<lparr>m_heap := x\<rparr>) = frame_limit m"
  "frames_ok (m\<lparr>m_heap := x\<rparr>) = frames_ok m" "dir_ok d (m\<lparr>m_heap := x\<rparr>) = dir_ok d m"
  "free_frames (m\<lparr>m_heap := x\<rparr>) = free_frames m" "kernel_dir_ok (m\<lparr>m_heap := x\<rparr>) = kernel_dir_ok m"
  "heap_mapped lo hi (m\<lparr>m_heap := x\<rparr>) = heap_mapped lo hi m" "heap_frames lo hi (m\<lparr>m_heap := x\<rparr>) = heap_frames lo hi m"
  by (simp_all add: heap_frames_def lookup_page_def page_at_def frame_used_def frame_limit_def frames_ok_def dir_ok_def free_frames_def
      kernel_dir_ok_def heap_mapped_def)

section \<open>The kernel allocator\<close>

lemma alloc_ready:
  assumes "mem_ready lo hi (unat k + 4095 + s) (2 + j) n m" and "k \<noteq> 0" and "unat k < 2147483648" and "0 < s"
  obtains p ph h' where "memory_allocAligned k w m = Inr (p, ph, m\<lparr>m_heap := Some h'\<rparr>)"
    and "mem_ready lo hi s j n (m\<lparr>m_heap := Some h'\<rparr>)" and "\<lparr>e_start = p, e_size = k, isHole = False\<rparr> \<in># allocated h'"
    and "p AND 0xFFF = 0" and "\<exists>q. lookup_page (m_kernelDirectory m) p m = Some q \<and>
      unat (pg_pageAddress (page_at q m)) \<in> heap_frames lo hi m \<and> (w \<longrightarrow> ph = page_physical q p m)"
proof -
  from assms(1) obtain h where h: "m_heap m = Some h" "heap_wf lo h" "unat (h_end h) < lo + 2147483648"
    "has_room (unat k + 4095 + s) (2 + j) h" "heap_mapped lo (unat (h_end h)) m" "unat (h_end h) = hi" by (auto simp: mem_ready_def)
  from heap_allocAligned_room [OF h(2,3) assms(2) h(4)] assms(4) obtain p h' where
    run: "heap_allocAligned k h = Inr (p, h')" and h': "h_end h' = h_end h" "has_room s j h'" by blast
  from heap_allocAligned_ok [OF h(2,3) assms(2,3) run] have ok: "heap_wf lo h'" "p AND 0xFFF = 0"
    "\<lparr>e_start = p, e_size = k, isHole = False\<rparr> \<in># allocated h'" by simp_all
  then have "\<lparr>e_start = p, e_size = k, isHole = False\<rparr> \<in># heap_entries h'" by (simp add: allocated_def)
  moreover have "0 < unat k" using assms(2) by (simp add: unat_gt_0)
  ultimately have "lo \<le> unat p \<and> unat p < unat (h_end h)"
    using tiled_bounds [OF ok(1) [unfolded heap_wf_def]] h'(1) by fastforce
  with h(5,6) obtain q where q: "lookup_page (m_kernelDirectory m) p m = Some q"
    "unat (pg_pageAddress (page_at q m)) \<in> heap_frames lo hi m" by (fastforce simp: heap_mapped_def heap_frames_def)
  have run': "memory_allocAligned k w m = Inr (p, if w then page_physical q p m else 0, m\<lparr>m_heap := Some h'\<rparr>)"
    using assms(1) h(1) run q(1) by (simp add: memory_allocAligned_def mem_ready_def kernel_phys_def)
  have ready: "mem_ready lo hi s j n (m\<lparr>m_heap := Some h'\<rparr>)"
    using assms(1) h h' ok(1) by (auto simp: mem_ready_def)
  show thesis by (rule that [OF run' ready ok(3,2)]) (use q in auto)
qed

lemma free_ready:
  assumes "mem_ready lo hi s j n m" and "m_heap m = Some h" and "\<lparr>e_start = p, e_size = k, isHole = False\<rparr> \<in># allocated h"
  obtains h' where "memory_free p m = Inr (True, m\<lparr>m_heap := Some h'\<rparr>)" and "mem_ready lo hi s j n (m\<lparr>m_heap := Some h'\<rparr>)"
proof -
  from assms(1,2) have "heap_wf lo h" by (auto simp: mem_ready_def)
  from heap_free_room [OF this assms(3), of p s j] obtain h' where "heap_free p h = Inr (True, h')" "heap_wf lo h'"
    "h_end h' = h_end h" "has_room s j h \<longrightarrow> has_room s j h'" by auto
  then show thesis using that [of h'] assms(1,2) by (auto simp: mem_ready_def memory_free_def)
qed

section \<open>Frames\<close>

lemma finite_free_frames: "finite (free_frames m)"
  by (simp add: free_frames_def)

lemma frame_ready:
  assumes "mem_ready lo hi s j (Suc n) m" and "pg_pageAddress (page_at p m) = 0"
  obtains f m' where "allocAnyFrame p kern wr m = Inr m'" and "mem_ready lo hi s j n m'" and "f \<in> free_frames m" and "f \<noteq> 0"
    and "\<And>g. frame_used m' g \<longleftrightarrow> g = f \<or> frame_used m g" and "unat (pg_pageAddress (page_at p m')) = f"
    and "pg_present (page_at p m')" and "pg_user (page_at p m') = (\<not> kern)" and "pg_readwrite (page_at p m') = wr"
    and "\<And>q. q \<noteq> p \<Longrightarrow> page_at q m' = page_at q m" and "m' = m\<lparr>m_frames := m_frames m', m_table := m_table m'\<rparr>"
proof -
  have "free_frames m \<noteq> {}" using assms(1) by (auto simp: mem_ready_def)
  then obtain f0 where "f0 < frame_limit m" "\<not> frame_used m f0" by (auto simp: free_frames_def)
  then obtain a where a: "freeFrame m = Inr a" using freeFrame_Inl(2) by (cases "freeFrame m") auto
  have ok: "frames_ok m" using assms(1) by (simp add: mem_ready_def)
  from freeFrame_Inr [OF a ok] obtain f1 where f1: "a = of_nat f1 * 0x1000" "f1 < frame_limit m" by metis
  from setFrame_used [OF ok f1(2)] f1(1) obtain m1 where m1: "setFrame a m = Inr m1" "m1 = m\<lparr>m_frames := m_frames m1\<rparr>" by auto
  then obtain fr where fr: "m1 = m\<lparr>m_frames := fr\<rparr>" by blast
  define m' where "m' = upd_page p (\<lambda>pg. pg\<lparr>pg_present := True, pg_readwrite := wr, pg_user := \<not> kern,
      pg_pageAddress := ucast (a div 0x1000)\<rparr>) m1"
  have run: "allocAnyFrame p kern wr m = Inr m'" using assms(2) a m1(1) by (simp add: allocAnyFrame_def m'_def)
  have rec: "m' = m\<lparr>m_frames := m_frames m', m_table := m_table m'\<rparr>"
    by (simp add: m'_def upd_page_def page_at_def fr)
  have flags: "pg_user (page_at p m') = (\<not> kern)" "pg_readwrite (page_at p m') = wr" by (simp_all add: m'_def page_at_upd)
  obtain f where f: "f < frame_limit m" "\<not> frame_used m f"
    "\<And>g. frame_used m' g \<longleftrightarrow> g = f \<or> frame_used m g" "unat (pg_pageAddress (page_at p m')) = f"
    "pg_present (page_at p m')" "\<And>q. q \<noteq> p \<Longrightarrow> page_at q m' = page_at q m"
    by (rule allocAnyFrame_Inr [OF run ok]) (rule that)
  have same: "m_frameCount m' = m_frameCount m" "m_dir m' = m_dir m" "m_heap m' = m_heap m" "m_ntables m' = m_ntables m"
    "m_placementAddress m' = m_placementAddress m" "m_kernelDirectory m' = m_kernelDirectory m" "m_ndirs m' = m_ndirs m"
    by (subst rec; simp)+
  have limit: "frame_limit m' = frame_limit m" "frames_ok m' = frames_ok m" by (simp_all add: frame_limit_def frames_ok_def same)
  have "free_frames m' = free_frames m - {f}" using f(3) limit by (auto simp: free_frames_def)
  moreover have "f \<in> free_frames m" using f by (simp add: free_frames_def)
  moreover have "Suc n \<le> card (free_frames m)" using assms(1) by (simp add: mem_ready_def)
  ultimately have card: "n \<le> card (free_frames m')" using finite_free_frames by simp
  have lk: "lookup_page d x m' = lookup_page d x m" for d x by (simp add: lookup_page_def same)
  have "heap_mapped lo hi m'" if "heap_mapped lo hi m" for hi
    using that f(3,4,6) by (fastforce simp: heap_mapped_def lk same)
  then have "mem_ready lo hi s j n m'"
    using assms(1) card limit f(3) by (auto simp: mem_ready_def kernel_dir_ok_def dir_ok_def same)
  moreover have "frame_used m 0" using assms(1) by (simp add: mem_ready_def)
  then have "f \<noteq> 0" using f(2) by metis
  ultimately show thesis using that [OF run] f flags rec by (simp add: free_frames_def)
qed

section \<open>Page tables and directories\<close>

lemma kernel_dir_fields:
  assumes "m_dir m' = m_dir m" and "m_ndirs m' = m_ndirs m" and "m_kernelDirectory m' = m_kernelDirectory m"
    and "m_ntables m \<le> m_ntables m'" and "kernel_dir_ok m"
  shows "kernel_dir_ok m'"
  using assms by (auto simp: kernel_dir_ok_def dir_ok_def intro: less_le_trans)

text \<open>A new page table for the index of an address in a directory.\<close>

lemma table_ready:
  assumes "mem_ready lo hi (4096 + 4095 + s) (2 + j) n m" and "0 < s"
    and "pd_tables (m_dir m d) (unat (a div 0x1000 div 1024)) = None"
  obtains m' where "getPage_make d a m = Inr ((m_ntables m, unat (a div 0x1000 mod 1024)), m')" and "mem_ready lo hi s j n m'"
    and "pd_tables (m_dir m' d) = (pd_tables (m_dir m d))(unat (a div 0x1000 div 1024) := Some (m_ntables m))"
    and "\<And>e. e \<noteq> d \<Longrightarrow> m_dir m' e = m_dir m e" and "m_ntables m' = Suc (m_ntables m)"
    and "m_table m' = (m_table m)(m_ntables m := (\<lambda>_. zero_page))" and "m_frames m' = m_frames m"
    and "m_frameCount m' = m_frameCount m" and "m_ndirs m' = m_ndirs m" and "m_kernelDirectory m' = m_kernelDirectory m"
    and "m_activeDirectory m' = m_activeDirectory m"
proof -
  let ?idx = "unat (a div 0x1000 div 1024)" and ?t = "m_ntables m"
  have sz: "unat sizeof_PageTable = 4096" "sizeof_PageTable \<noteq> 0" by (simp_all add: sizeof_PageTable_def)
  have r: "mem_ready lo hi (unat sizeof_PageTable + 4095 + s) (2 + j) n m" using assms(1) by (simp only: sz)
  have lt: "unat sizeof_PageTable < 2147483648" by (simp add: sz)
  obtain p ph h' where al: "memory_allocAligned sizeof_PageTable True m = Inr (p, ph, m\<lparr>m_heap := Some h'\<rparr>)"
    and ready: "mem_ready lo hi s j n (m\<lparr>m_heap := Some h'\<rparr>)"
    using alloc_ready [OF r sz(2) lt assms(2), of True] by blast
  define m' where "m' = set_table d ?idx ?t (ph OR 0x7)
      (m\<lparr>m_heap := Some h', m_table := (m_table m)(?t := (\<lambda>_. zero_page)), m_ntables := Suc ?t\<rparr>)"
  have run: "getPage_make d a m = Inr ((?t, unat (a div 0x1000 mod 1024)), m')"
    using assms(3) al by (simp add: getPage_make_def getPage_def PageTable_Allocate_def Let_def m'_def)
  have facts: "pd_tables (m_dir m' d) = (pd_tables (m_dir m d))(?idx := Some ?t)" "\<And>e. e \<noteq> d \<Longrightarrow> m_dir m' e = m_dir m e"
    "m_ntables m' = Suc ?t" "m_table m' = (m_table m)(?t := (\<lambda>_. zero_page))" "m_frames m' = m_frames m"
    "m_frameCount m' = m_frameCount m" "m_ndirs m' = m_ndirs m" "m_kernelDirectory m' = m_kernelDirectory m"
    "m_activeDirectory m' = m_activeDirectory m" "m_heap m' = Some h'" "m_placementAddress m' = m_placementAddress m"
    by (simp_all add: m'_def set_table_def)
  have kd: "kernel_dir_ok m" using assms(1) by (simp add: mem_ready_def)
  have kd': "kernel_dir_ok m'"
    using kd facts(1,2) by (cases "m_kernelDirectory m = d") (auto simp: kernel_dir_ok_def dir_ok_def facts(3,7,8) less_SucI split: if_splits)
  have keep: "lookup_page (m_kernelDirectory m) x m' = Some q \<and> page_at q m' = page_at q m"
    if "lookup_page (m_kernelDirectory m) x m = Some q" for x q
  proof -
    have "fst q < ?t" using lookup_page_bound [OF _ that] kd by (simp add: kernel_dir_ok_def)
    then show ?thesis using that assms(3) facts(1,2)
      by (cases "m_kernelDirectory m = d") (auto simp: lookup_page_def Let_def page_at_def facts(4))
  qed
  have fr: "frame_used m' f = frame_used m f" "free_frames m' = free_frames m" "frames_ok m' = frames_ok m" for f
    by (simp_all add: frame_used_def free_frames_def frame_limit_def frames_ok_def facts)
  have "heap_mapped lo hi m'" if "heap_mapped lo hi m" for hi
    using that keep fr(1) facts(8) unfolding heap_mapped_def by metis
  then have "mem_ready lo hi s j n m'" using ready kd' fr facts by (auto simp: mem_ready_def)
  then show thesis using that run facts by blast
qed

text \<open>A clone of the kernel's directory.\<close>

lemma clone_steps_fields:
  "for_each (clone_step src d) xs m = Inr m' \<Longrightarrow>
     m_ndirs m' = m_ndirs m \<and> m_ntables m' = m_ntables m \<and> m_frames m' = m_frames m \<and> m_frameCount m' = m_frameCount m \<and>
     m_heap m' = m_heap m \<and> m_placementAddress m' = m_placementAddress m \<and> m_activeDirectory m' = m_activeDirectory m"
proof (induction xs arbitrary: m)
  case (Cons x xs)
  then obtain m1 where m1: "clone_step src d x m = Inr m1" "for_each (clone_step src d) xs m1 = Inr m'" by (auto simp: rbind_eq_Inr)
  from m1(1) have "m_ndirs m1 = m_ndirs m \<and> m_ntables m1 = m_ntables m \<and> m_frames m1 = m_frames m \<and> m_frameCount m1 = m_frameCount m \<and>
     m_heap m1 = m_heap m \<and> m_placementAddress m1 = m_placementAddress m \<and> m_activeDirectory m1 = m_activeDirectory m"
    by (auto simp: clone_step_def set_table_def PageTable_clone_def split: option.splits if_splits)
  with Cons.IH [OF m1(2)] show ?case by simp
qed simp

lemma clone_ready:
  assumes "mem_ready lo hi (8196 + 4095 + s) (2 + j) n m" and "0 < s"
  obtains m' where "PageDirectory_clone (m_kernelDirectory m) m = Inr (m_ndirs m, m')" and "mem_ready lo hi s j n m'"
    and "\<And>i. pd_tables (m_dir m' (m_ndirs m)) i = (if i < 1024 then pd_tables (m_dir m (m_kernelDirectory m)) i else None)"
    and "\<And>e. e \<noteq> m_ndirs m \<Longrightarrow> m_dir m' e = m_dir m e" and "m_ndirs m' = Suc (m_ndirs m)" and "m_ntables m' = m_ntables m"
    and "m_table m' = m_table m" and "m_frames m' = m_frames m" and "m_frameCount m' = m_frameCount m"
    and "m_kernelDirectory m' = m_kernelDirectory m" and "m_activeDirectory m' = m_activeDirectory m"
proof -
  let ?kd = "m_kernelDirectory m" and ?d = "m_ndirs m"
  have sz: "unat sizeof_PageDirectory = 8196" "sizeof_PageDirectory \<noteq> 0" by (simp_all add: sizeof_PageDirectory_def)
  have r: "mem_ready lo hi (unat sizeof_PageDirectory + 4095 + s) (2 + j) n m" using assms(1) by (simp only: sz)
  have lt: "unat sizeof_PageDirectory < 2147483648" by (simp add: sz)
  obtain p ph h' where al: "memory_allocAligned sizeof_PageDirectory True m = Inr (p, ph, m\<lparr>m_heap := Some h'\<rparr>)"
    and ready: "mem_ready lo hi s j n (m\<lparr>m_heap := Some h'\<rparr>)"
    using alloc_ready [OF r sz(2) lt assms(2), of True] by blast
  define m1 where "m1 = m\<lparr>m_heap := Some h', m_dir := (m_dir m)(?d := \<lparr>pd_tables = (\<lambda>_. None), pd_tablePhysicals = (\<lambda>_. 0),
      pd_physicalAddr = ph + 4096\<rparr>), m_ndirs := Suc ?d\<rparr>"
  have new: "PageDirectory_Allocate m = Inr (?d, m1)" using al by (simp add: PageDirectory_Allocate_def Let_def m1_def)
  have kd: "kernel_dir_ok m" using assms(1) by (simp add: mem_ready_def)
  then have ne: "?d \<noteq> ?kd" by (simp add: kernel_dir_ok_def)
  have f1: "m_dir m1 ?kd = m_dir m ?kd" "m_kernelDirectory m1 = ?kd" "m_table m1 = m_table m" "m_ntables m1 = m_ntables m"
    "m_frames m1 = m_frames m" "m_frameCount m1 = m_frameCount m" "m_heap m1 = Some h'" "m_ndirs m1 = Suc ?d"
    "m_placementAddress m1 = m_placementAddress m" "\<And>e. e \<noteq> ?d \<Longrightarrow> m_dir m1 e = m_dir m e" "pd_tables (m_dir m1 ?d) = (\<lambda>_. None)"
    "m_activeDirectory m1 = m_activeDirectory m"
    using ne by (simp_all add: m1_def)
  from clone_steps [of ?d ?kd m1 "[0..<1024]"] ne f1(2) obtain m' where m': "for_each (clone_step ?kd ?d) [0..<1024] m1 = Inr m'"
    "m_kernelDirectory m' = m_kernelDirectory m1" "m_table m' = m_table m1" "\<forall>e. e \<noteq> ?d \<longrightarrow> m_dir m' e = m_dir m1 e"
    "\<forall>i. pd_tables (m_dir m' ?d) i = (if i \<in> set [0..<1024] \<and> pd_tables (m_dir m1 ?kd) i \<noteq> None
       then pd_tables (m_dir m1 ?kd) i else pd_tables (m_dir m1 ?d) i)" by (auto simp del: set_upt)
  note same = clone_steps_fields [OF m'(1)]
  have run: "PageDirectory_clone ?kd m = Inr (?d, m')" using new m'(1) by (simp add: PageDirectory_clone_def)
  have dirs: "m_dir m' e = m_dir m e" if "e \<noteq> ?d" for e using that m'(4) f1(10) by simp
  have kd': "kernel_dir_ok m'" using kd ne same m'(2) f1(2,4,8) dirs [of ?kd] by (auto simp: kernel_dir_ok_def dir_ok_def)
  have lk: "lookup_page ?kd x m' = lookup_page ?kd x m" "page_at q m' = page_at q m" for x q
    using dirs [of ?kd] ne m'(3) f1(3) by (simp_all add: lookup_page_def page_at_def)
  have fr: "frame_used m' f = frame_used m f" "free_frames m' = free_frames m" "frames_ok m' = frames_ok m" for f
    using same f1 by (simp_all add: frame_used_def free_frames_def frame_limit_def frames_ok_def)
  have "heap_mapped lo hi m' = heap_mapped lo hi m" for hi using m'(2) f1(2) fr(1) by (simp add: heap_mapped_def lk)
  then have "mem_ready lo hi s j n m'" using ready kd' fr same f1 by (auto simp: mem_ready_def)
  moreover have "pd_tables (m_dir m' ?d) i = (if i < 1024 then pd_tables (m_dir m ?kd) i else None)" for i
    using m'(5) f1(1,11) by auto
  ultimately show thesis using that [OF run] dirs same m'(2,3) f1 by simp
qed

section \<open>Pages for a process\<close>

definition page_entry :: "u32 \<Rightarrow> nat" where
  "page_entry a = unat (a div 0x1000 mod 1024)"

definition page_table_index :: "u32 \<Rightarrow> nat" where
  "page_table_index a = unat (a div 0x1000 div 1024)"

lemma lookup_page_entry: "lookup_page d a m = map_option (\<lambda>t. (t, page_entry a)) (pd_tables (m_dir m d) (page_table_index a))"
  by (simp add: lookup_page_def page_entry_def page_table_index_def Let_def)

definition user_page :: "memory \<Rightarrow> page_ref \<Rightarrow> bool" where
  "user_page m p \<longleftrightarrow> pg_present (page_at p m) \<and> pg_user (page_at p m) \<and> pg_readwrite (page_at p m)"

abbreviation page_frame :: "memory \<Rightarrow> page_ref \<Rightarrow> nat" where
  "page_frame m p \<equiv> unat (pg_pageAddress (page_at p m))"

text \<open>The pages of one present table get frames of their own, which were free.\<close>

definition given_pages :: "nat \<Rightarrow> u32 list \<Rightarrow> memory \<Rightarrow> memory \<Rightarrow> bool" where
  "given_pages t as m m' \<longleftrightarrow> m' = m\<lparr>m_frames := m_frames m', m_table := m_table m'\<rparr> \<and>
     (\<forall>a \<in> set as. user_page m' (t, page_entry a) \<and> page_frame m' (t, page_entry a) \<in> free_frames m - {0} \<and>
        frame_used m' (page_frame m' (t, page_entry a))) \<and>
     inj_on (\<lambda>a. page_frame m' (t, page_entry a)) (set as) \<and>
     (\<forall>q. q \<notin> (\<lambda>a. (t, page_entry a)) ` set as \<longrightarrow> page_at q m' = page_at q m) \<and>
     (\<forall>f. frame_used m f \<longrightarrow> frame_used m' f)"

lemma given_pages_fields:
  assumes "given_pages t as m m'"
  shows "m_dir m' = m_dir m" "m_ndirs m' = m_ndirs m" "m_ntables m' = m_ntables m" "m_kernelDirectory m' = m_kernelDirectory m"
    "m_activeDirectory m' = m_activeDirectory m" "m_heap m' = m_heap m" "m_frameCount m' = m_frameCount m"
proof -
  from assms obtain fr tb where "m' = m\<lparr>m_frames := fr, m_table := tb\<rparr>" unfolding given_pages_def by blast
  then show "m_dir m' = m_dir m" "m_ndirs m' = m_ndirs m" "m_ntables m' = m_ntables m" "m_kernelDirectory m' = m_kernelDirectory m"
    "m_activeDirectory m' = m_activeDirectory m" "m_heap m' = m_heap m" "m_frameCount m' = m_frameCount m" by simp_all
qed

lemma pages_ready:
  assumes "mem_ready lo hi s j (length as + n) m" and "pd_tables (m_dir m d) i = Some t"
    and "\<forall>a \<in> set as. page_table_index a = i \<and> pg_pageAddress (page_at (t, page_entry a) m) = 0"
    and "distinct (map page_entry as)"
  obtains m' where "alloc_pages d as m = Inr m'" and "mem_ready lo hi s j n m'" and "given_pages t as m m'"
proof -
  have "\<exists>m'. alloc_pages d as m = Inr m' \<and> mem_ready lo hi s j n m' \<and> given_pages t as m m'"
    using assms
  proof (induction as arbitrary: m)
    case Nil
    then show ?case by (simp add: alloc_pages_def given_pages_def)
  next
    case (Cons a as)
    let ?p = "(t, page_entry a)"
    have get: "getPage_make d a m = Inr (?p, m)"
      using Cons.prems(2,3) by (simp add: getPage_make_def getPage_def Let_def page_entry_def page_table_index_def)
    have "mem_ready lo hi s j (Suc (length as + n)) m" and z: "pg_pageAddress (page_at ?p m) = 0"
      using Cons.prems(1,3) by simp_all
    then obtain f m1 where one: "allocAnyFrame ?p False True m = Inr m1" "mem_ready lo hi s j (length as + n) m1"
      "f \<in> free_frames m" "f \<noteq> 0" "\<And>g. frame_used m1 g \<longleftrightarrow> g = f \<or> frame_used m g" "page_frame m1 ?p = f"
      "pg_present (page_at ?p m1)" "pg_user (page_at ?p m1)" "pg_readwrite (page_at ?p m1)"
      "\<And>q. q \<noteq> ?p \<Longrightarrow> page_at q m1 = page_at q m" "m1 = m\<lparr>m_frames := m_frames m1, m_table := m_table m1\<rparr>"
      by (rule frame_ready [where kern = False and wr = True]) simp
    have dir: "m_dir m1 = m_dir m" "frame_limit m1 = frame_limit m" by (subst one(11); simp add: frame_limit_def)+
    have other: "page_entry a \<notin> page_entry ` set as" using Cons.prems(4) by simp
    have "\<forall>b \<in> set as. page_table_index b = i \<and> pg_pageAddress (page_at (t, page_entry b) m1) = 0"
      using Cons.prems(3) one(10) other by (metis image_eqI list.set_intros(2) prod.inject)
    with Cons.IH [OF one(2)] Cons.prems(2,4) dir obtain m' where rest: "alloc_pages d as m1 = Inr m'" "mem_ready lo hi s j n m'"
      "given_pages t as m1 m'" by auto
    have run: "alloc_pages d (a # as) m = Inr m'" using get one(1) rest(1) by (simp add: alloc_pages_def alloc_page_def)
    have g: "m' = m1\<lparr>m_frames := m_frames m', m_table := m_table m'\<rparr>"
      "\<And>b. b \<in> set as \<Longrightarrow> user_page m' (t, page_entry b) \<and> page_frame m' (t, page_entry b) \<in> free_frames m1 - {0} \<and>
        frame_used m' (page_frame m' (t, page_entry b))"
      "inj_on (\<lambda>a. page_frame m' (t, page_entry a)) (set as)"
      "\<And>q. q \<notin> (\<lambda>a. (t, page_entry a)) ` set as \<Longrightarrow> page_at q m' = page_at q m1"
      "\<And>f. frame_used m1 f \<Longrightarrow> frame_used m' f"
      using rest(3) unfolding given_pages_def by blast+
    have same: "page_at ?p m' = page_at ?p m1" using g(4) other by auto
    have free: "free_frames m1 = free_frames m - {f}" using one(5) dir by (auto simp: free_frames_def)
    obtain fr tb where m1: "m1 = m\<lparr>m_frames := fr, m_table := tb\<rparr>" using one(11) by blast
    obtain fr' tb' where "m' = m1\<lparr>m_frames := fr', m_table := tb'\<rparr>" using g(1) by blast
    then have "m' = m\<lparr>m_frames := m_frames m', m_table := m_table m'\<rparr>" by (simp add: m1)
    moreover have "user_page m' ?p \<and> page_frame m' ?p \<in> free_frames m - {0} \<and> frame_used m' (page_frame m' ?p)"
      using one g(5) same by (simp add: user_page_def)
    moreover have "page_frame m' ?p \<noteq> page_frame m' (t, page_entry b)" if "b \<in> set as" for b
      using g(2) [OF that] same one(6) free by auto
    then have "inj_on (\<lambda>a. page_frame m' (t, page_entry a)) (set (a # as))"
      using g(3) by (simp only: list.simps inj_on_insert) blast
    moreover have "page_at q m' = page_at q m" if "q \<notin> (\<lambda>a. (t, page_entry a)) ` set (a # as)" for q
      using that g(4) [of q] one(10) [of q] by auto
    ultimately have "given_pages t (a # as) m m'"
      using g(2,5) one(5) free unfolding given_pages_def by auto
    with run rest(2) show ?case by blast
  qed
  then show thesis using that by blast
qed

text \<open>The same for the pages of a table that the directory does not have yet.\<close>

definition new_pages :: "nat \<Rightarrow> nat \<Rightarrow> u32 list \<Rightarrow> memory \<Rightarrow> memory \<Rightarrow> bool" where
  "new_pages d i as m m' \<longleftrightarrow> pd_tables (m_dir m' d) = (pd_tables (m_dir m d))(i := Some (m_ntables m)) \<and>
     (\<forall>e. e \<noteq> d \<longrightarrow> m_dir m' e = m_dir m e) \<and> m_ntables m' = Suc (m_ntables m) \<and> m_ndirs m' = m_ndirs m \<and>
     m_kernelDirectory m' = m_kernelDirectory m \<and> m_activeDirectory m' = m_activeDirectory m \<and>
     m_frameCount m' = m_frameCount m \<and>
     (\<forall>a \<in> set as. user_page m' (m_ntables m, page_entry a) \<and> page_frame m' (m_ntables m, page_entry a) \<in> free_frames m - {0} \<and>
        frame_used m' (page_frame m' (m_ntables m, page_entry a))) \<and>
     inj_on (\<lambda>a. page_frame m' (m_ntables m, page_entry a)) (set as) \<and>
     (\<forall>q. fst q \<noteq> m_ntables m \<longrightarrow> page_at q m' = page_at q m) \<and> (\<forall>f. frame_used m f \<longrightarrow> frame_used m' f)"

lemma new_pages_ready:
  assumes "mem_ready lo hi (4096 + 4095 + s) (2 + j) (length as + n) m" and "0 < s" and "as \<noteq> []"
    and "pd_tables (m_dir m d) i = None" and "\<forall>a \<in> set as. page_table_index a = i" and "distinct (map page_entry as)"
  obtains m' where "alloc_pages d as m = Inr m'" and "mem_ready lo hi s j n m'" and "new_pages d i as m m'"
proof -
  let ?t = "m_ntables m"
  obtain a0 as' where as: "as = a0 # as'" using assms(3) by (cases as) auto
  then have a0: "page_table_index a0 = i" using assms(5) by simp
  obtain m1 where m1: "getPage_make d a0 m = Inr ((?t, page_entry a0), m1)" "mem_ready lo hi s j (length as + n) m1"
    "pd_tables (m_dir m1 d) = (pd_tables (m_dir m d))(i := Some ?t)" "\<And>e. e \<noteq> d \<Longrightarrow> m_dir m1 e = m_dir m e"
    "m_ntables m1 = Suc ?t" "m_table m1 = (m_table m)(?t := (\<lambda>_. zero_page))" "m_frames m1 = m_frames m"
    "m_frameCount m1 = m_frameCount m" "m_ndirs m1 = m_ndirs m" "m_kernelDirectory m1 = m_kernelDirectory m"
    "m_activeDirectory m1 = m_activeDirectory m"
    using table_ready [OF assms(1,2), of d a0] assms(4) a0 unfolding page_table_index_def page_entry_def by blast
  have tab: "pd_tables (m_dir m1 d) i = Some ?t" using m1(3) by simp
  then have "getPage_make d a0 m1 = Inr ((?t, page_entry a0), m1)"
    using a0 by (simp add: getPage_make_def getPage_def Let_def page_entry_def page_table_index_def)
  then have run: "alloc_pages d as m = alloc_pages d as m1" using m1(1) by (simp add: as alloc_pages_def alloc_page_def)
  have "\<forall>a \<in> set as. page_table_index a = i \<and> pg_pageAddress (page_at (?t, page_entry a) m1) = 0"
    using assms(5) m1(6) by (simp add: page_at_def zero_page_def)
  from pages_ready [OF m1(2) tab this assms(6)] obtain m' where m': "alloc_pages d as m1 = Inr m'" "mem_ready lo hi s j n m'"
    "given_pages ?t as m1 m'" .
  note f = given_pages_fields [OF m'(3)]
  have g: "\<And>b. b \<in> set as \<Longrightarrow> user_page m' (?t, page_entry b) \<and> page_frame m' (?t, page_entry b) \<in> free_frames m1 - {0} \<and>
      frame_used m' (page_frame m' (?t, page_entry b))" "inj_on (\<lambda>a. page_frame m' (?t, page_entry a)) (set as)"
    "\<And>q. q \<notin> (\<lambda>a. (?t, page_entry a)) ` set as \<Longrightarrow> page_at q m' = page_at q m1" "\<And>f. frame_used m1 f \<Longrightarrow> frame_used m' f"
    using m'(3) unfolding given_pages_def by blast+
  have fr: "free_frames m1 = free_frames m" "\<And>f. frame_used m1 f = frame_used m f"
    by (simp_all add: free_frames_def frame_used_def frame_limit_def m1(7,8))
  have "page_at q m' = page_at q m" if "fst q \<noteq> ?t" for q
  proof -
    have "q \<notin> (\<lambda>a. (?t, page_entry a)) ` set as" using that by auto
    from g(3) [OF this] that show ?thesis by (simp add: page_at_def m1(6))
  qed
  then have "new_pages d i as m m'" using f m1 g(1,2,4) fr unfolding new_pages_def by simp
  then show thesis using that run m'(1,2) by simp
qed

end
