(* ===== verification/CreateProps.thy ===== *)
theory CreateProps
  imports Resources BootProps
begin

text \<open>
  Creating a process succeeds when the kernel has room and frames, and what the new process finds: its registers,
  its stack with the arguments, which \<open>load_task_argv\<close> writes as one block, and its heap.
\<close>

section \<open>The block of the arguments\<close>

fun argv_pointers :: "u32 \<Rightarrow> bytes list \<Rightarrow> bytes" where
  "argv_pointers p [] = []"
| "argv_pointers p (a # args) = put_u32 p @ argv_pointers (p + of_nat (length a) + 1) args"

definition argv_strings :: "bytes list \<Rightarrow> bytes" where
  "argv_strings args = concat (map (\<lambda>a. a @ [0]) args)"

text \<open>A return address, the count, the address of the array, the array with its null, and the strings.\<close>

definition argv_block :: "bytes list \<Rightarrow> bytes" where
  "argv_block args =
     (let n = of_nat (length args); at = USER_TASK_BASE - args_base args in
      put_u32 0xDEADBEEF @ put_u32 n @ put_u32 (at + 12) @ argv_pointers (at + 12 + (n + 1) * 4) args @ put_u32 0 @
      argv_strings args)"

definition argv_size :: "bytes list \<Rightarrow> nat" where
  "argv_size args = length (argv_strings args) + 4 * (length args + 4)"

lemma length_argv_pointers [simp]: "length (argv_pointers p args) = 4 * length args"
  by (induction args arbitrary: p) simp_all

lemma argv_strings_simps [simp]: "argv_strings [] = []" "argv_strings (a # args) = a @ 0 # argv_strings args"
  by (simp_all add: argv_strings_def)

lemma length_argv_block: "length (argv_block args) = argv_size args"
  by (simp add: argv_block_def argv_size_def Let_def)

lemma args_base_size: "args_base args = of_nat (argv_size args)"
proof -
  have "args_length args = of_nat (length (argv_strings args))"
    by (induction args) (simp_all add: args_length_def algebra_simps)
  then show ?thesis by (simp add: args_base_def argv_size_def algebra_simps)
qed

section \<open>Writing it\<close>

lemma unat_below_page:
  assumes "x + c \<le> 4096"
  shows "unat (of_nat x + of_nat c :: u32) = x + c"
  using assms by (simp add: unat_word_ariths unat_of_nat take_bit_nat_eq_self)

lemma put_args_splice:
  fixes base n str :: u32
  defines "U \<equiv> USER_TASK_BASE - base"
  assumes "0x1000 - base = of_nat X" and "n = of_nat N" and "length pg = 4096" and "i + length args \<le> N"
    and "X + 12 + 4 * (N + 1) + (unat str + length (argv_strings args)) \<le> 4096"
  shows "put_args base n args i str pg = Inr (splice (X + 12 + 4 * i) (argv_pointers (U + 12 + (n + 1) * 4 + str) args)
     (splice (X + 12 + 4 * (N + 1) + unat str) (argv_strings args) pg))"
  using assms(4-)
proof (induction args arbitrary: i str pg)
  case (Cons a args)
  let ?P = "X + 12 + 4 * i" and ?S = "X + 12 + 4 * (N + 1) + unat str"
  let ?ptr = "put_u32 (U + 12 + (n + 1) * 4 + str)"
  have str': "unat (str + of_nat (length a) + 1) = unat str + length a + 1"
    using Cons.prems(3) by (simp add: unat_word_ariths unat_of_nat take_bit_nat_eq_self)
  have sx: "X + 12 + 4 * (N + 1) + unat (str + of_nat (length a) + 1) = ?S + length (a @ [0])" using str' by simp
  have o1: "unat (0x1000 - base + 12 + of_nat i * 4) = ?P"
    using unat_below_page [of X "12 + 4 * i"] Cons.prems(2,3) by (simp add: assms(2) algebra_simps)
  have o2: "unat (0x1000 - base + 12 + (n + 1) * 4 + str) = ?S"
  proof -
    have "unat (of_nat X + of_nat (12 + 4 * (N + 1) + unat str) :: u32) = X + (12 + 4 * (N + 1) + unat str)"
      by (rule unat_below_page) (use Cons.prems(3) in simp)
    then show ?thesis by (simp add: assms(2,3) algebra_simps)
  qed
  have fit: "?P + 4 \<le> ?S" "?S + length (a @ [0]) + length (argv_strings args) \<le> 4096" using Cons.prems(2,3) by simp_all
  let ?pg1 = "splice ?P ?ptr pg" and ?pg2 = "splice ?S (a @ [0]) (splice ?P ?ptr pg)"
  have p1: "page_put (0x1000 - base + 12 + of_nat i * 4) ?ptr pg = Inr ?pg1"
    using page_put_splice [of "0x1000 - base + 12 + of_nat i * 4" ?ptr pg] fit Cons.prems(1) unfolding o1 by simp
  have l1: "length ?pg1 = 4096" using fit Cons.prems(1) by simp
  then have p2: "page_put (0x1000 - base + 12 + (n + 1) * 4 + str) (a @ [0]) ?pg1 = Inr ?pg2"
    using page_put_splice [of "0x1000 - base + 12 + (n + 1) * 4 + str" "a @ [0]" ?pg1] fit unfolding o2 by simp
  have l2: "length ?pg2 = 4096" using l1 fit by simp
  have "put_args base n (a # args) i str pg = put_args base n args (Suc i) (str + of_nat (length a) + 1) ?pg2"
    using p1 p2 by (simp add: U_def)
  also have "\<dots> = Inr (splice (X + 12 + 4 * Suc i) (argv_pointers (U + 12 + (n + 1) * 4 + (str + of_nat (length a) + 1)) args)
     (splice (X + 12 + 4 * (N + 1) + unat (str + of_nat (length a) + 1)) (argv_strings args) ?pg2))"
    using Cons.prems(2,3) l2 str' by (intro Cons.IH) simp_all
  also have "splice (X + 12 + 4 * (N + 1) + unat (str + of_nat (length a) + 1)) (argv_strings args) ?pg2 =
      splice ?S ((a @ [0]) @ argv_strings args) ?pg1"
    unfolding sx using fit l1 by (intro splice_next) simp
  also have "\<dots> = splice ?P ?ptr (splice ?S ((a @ [0]) @ argv_strings args) pg)"
    using fit Cons.prems(1) by (intro splice_commute [symmetric]) simp_all
  also have "splice (X + 12 + 4 * Suc i) (argv_pointers (U + 12 + (n + 1) * 4 + (str + of_nat (length a) + 1)) args) \<dots> =
      splice ?P (?ptr @ argv_pointers (U + 12 + (n + 1) * 4 + (str + of_nat (length a) + 1)) args)
        (splice ?S ((a @ [0]) @ argv_strings args) pg)"
    using splice_next [of ?P ?ptr "argv_pointers (U + 12 + (n + 1) * 4 + (str + of_nat (length a) + 1)) args"
        "splice ?S ((a @ [0]) @ argv_strings args) pg"] fit Cons.prems(1,2) by (simp add: add.assoc)
  finally show ?case by (simp add: algebra_simps)
qed simp

lemma argv_page_block:
  assumes "argv_size args \<le> 4096" and "length pg = 4096"
  shows "argv_page args pg = Inr (splice (4096 - argv_size args) (argv_block args) pg)"
proof -
  let ?B = "argv_size args" and ?N = "length args"
  define base where "base = args_base args"
  define n :: u32 where "n = of_nat ?N"
  define X where "X = 4096 - ?B"
  let ?U = "USER_TASK_BASE - base"
  have X: "X + ?B = 4096" using assms(1) by (simp add: X_def)
  have B: "?B = length (argv_strings args) + 4 * (?N + 4)" by (simp add: argv_size_def)
  have b: "0x1000 - base = of_nat X"
  proof -
    have "(0x1000 :: u32) = of_nat (X + ?B)" by (simp only: X) simp
    then have "(0x1000 :: u32) = of_nat X + of_nat ?B" by simp
    then show ?thesis by (simp only: base_def args_base_size diff_eq_eq)
  qed
  have off: "unat (of_nat X + of_nat c :: u32) = X + c" if "c \<le> ?B" for c
    using unat_below_page [of X c] that X by simp
  have o: "unat (0x1000 - base) = X" "unat (0x1000 - base + 4) = X + 4" "unat (0x1000 - base + 8) = X + 8"
    "unat (0x1000 - base + 12 + n * 4) = X + (12 + 4 * ?N)"
    using off [of 0] off [of 4] off [of 8] off [of "12 + 4 * ?N"] B by (simp_all add: b n_def algebra_simps)
  let ?h = "put_u32 0xDEADBEEF @ put_u32 n @ put_u32 (?U + 12)"
  let ?ps = "argv_pointers (?U + 12 + (n + 1) * 4) args" and ?ss = "argv_strings args"
  define pg1 where "pg1 = splice X (put_u32 0xDEADBEEF) pg"
  define pg2 where "pg2 = splice (X + 4) (put_u32 n) pg1"
  define pg3 where "pg3 = splice (X + 8) (put_u32 (?U + 12)) pg2"
  have l: "length pg1 = 4096" "length pg2 = 4096" "length pg3 = 4096"
    using X B assms(2) by (simp_all add: pg1_def pg2_def pg3_def)
  have p1: "page_put (0x1000 - base) (put_u32 0xDEADBEEF) pg = Inr pg1"
    using page_put_splice [of "0x1000 - base" "put_u32 0xDEADBEEF" pg] X B assms(2) unfolding o pg1_def by simp
  have p2: "page_put (0x1000 - base + 4) (put_u32 n) pg1 = Inr pg2"
    using page_put_splice [of "0x1000 - base + 4" "put_u32 n" pg1] X B l unfolding o pg2_def by simp
  have p3: "page_put (0x1000 - base + 8) (put_u32 (?U + 12)) pg2 = Inr pg3"
    using page_put_splice [of "0x1000 - base + 8" "put_u32 (?U + 12)" pg2] X B l unfolding o pg3_def by simp
  have h: "pg3 = splice X ?h pg"
    using splice_next [of X "put_u32 0xDEADBEEF" "put_u32 n" pg] X B assms(2)
      splice_next [of X "put_u32 0xDEADBEEF @ put_u32 n" "put_u32 (?U + 12)" pg] by (simp add: pg1_def pg2_def pg3_def)
  define pg4 where "pg4 = splice (X + 12) ?ps (splice (X + 12 + 4 * (?N + 1)) ?ss pg3)"
  have p4: "put_args base n args 0 0 pg3 = Inr pg4"
    using put_args_splice [of base X n ?N pg3 0 args 0] b n_def l X B by (simp add: pg4_def)
  have l4: "length pg4 = 4096" using l X B by (simp add: pg4_def)
  have p5: "page_put (0x1000 - base + 12 + n * 4) (put_u32 0) pg4 = Inr (splice (X + (12 + 4 * ?N)) (put_u32 0) pg4)"
    using page_put_splice [of "0x1000 - base + 12 + n * 4" "put_u32 0" pg4] X B l4 unfolding o by simp
  have "splice (X + (12 + 4 * ?N)) (put_u32 0) pg4 = splice (X + 12) (?ps @ put_u32 0) (splice (X + 12 + 4 * (?N + 1)) ?ss pg3)"
    using splice_next [of "X + 12" ?ps "put_u32 0" "splice (X + 12 + 4 * (?N + 1)) ?ss pg3"] X B l by (simp add: pg4_def add.assoc)
  also have "\<dots> = splice (X + 12 + 4 * (?N + 1)) ?ss (splice (X + 12) (?ps @ put_u32 0) pg3)"
    using X B l by (intro splice_commute) simp_all
  also have "\<dots> = splice (X + 12) ((?ps @ put_u32 0) @ ?ss) pg3"
    using splice_next [of "X + 12" "?ps @ put_u32 0" ?ss pg3] X B l by (simp add: add.assoc)
  also have "\<dots> = splice X (?h @ (?ps @ put_u32 0) @ ?ss) pg"
    using splice_next [of X ?h "(?ps @ put_u32 0) @ ?ss" pg] X B assms(2) by (simp add: h)
  also have "?h @ (?ps @ put_u32 0) @ ?ss = argv_block args"
    by (simp only: argv_block_def Let_def base_def n_def append_assoc)
  finally have all: "splice (X + (12 + 4 * ?N)) (put_u32 0) pg4 = splice X (argv_block args) pg" .
  have "argv_page args pg = Inr (splice X (argv_block args) pg)"
    unfolding argv_page_def base_def [symmetric] n_def [symmetric] Let_def by (simp only: p1 p2 p3 p4 p5 rbind_Inr all)
  then show ?thesis by (simp only: X_def)
qed

section \<open>Arguments on the stack\<close>

lemma copy_dwords_self: "phys_byte (copy_dwords n src src g) a = phys_byte g a"
proof (induction n arbitrary: src g)
  case (Suc n)
  have "phys_byte (move_dword src src g) a = phys_byte g a" by (simp add: phys_byte_move)
  then show ?case using Suc by simp
qed simp

lemma copyFramePhysical_page:
  assumes "i < 4096"
  shows "mc_frame (copyFramePhysical (ucast f * 0x1000) (ucast f' * 0x1000) mc) f' i = mc_frame mc f i"
proof (cases "f = f'")
  case True
  then show ?thesis
    using frame_byte(1) [OF assms, of _ f'] copy_dwords_self [of 1024 "ucast f' * 0x1000" "mc_frame mc"]
    by (simp add: copyFramePhysical_def) metis
next
  case False
  then have ap: "apart (ucast f' * 0x1000) f" by (simp add: apart_def frame_byte(2))
  from arg_cong [OF copy_to_helper(1) [OF ap, of mc], of "\<lambda>b. b ! i"] assms show ?thesis
    by (simp add: page_bytes_def frame_byte(1))
qed

lemma page_physical_aligned:
  "a AND 0xFFF = 0 \<Longrightarrow> page_physical p a m = ucast (pg_pageAddress (page_at p m)) * 0x1000"
  by (simp add: page_physical_def)

text \<open>The top page of the stack.\<close>

definition top_page :: u32 where "top_page = USER_TASK_BASE - 0x1000"

lemma argv_address:
  assumes "argv_size args \<le> 4096" and "i < argv_size args"
  shows "(USER_TASK_BASE - args_base args + of_nat i) div 0x1000 = top_page div 0x1000"
    and "unat ((USER_TASK_BASE - args_base args + of_nat i) mod 0x1000) = 4096 - argv_size args + i"
proof -
  define j where "j = 4096 - argv_size args + i"
  have j: "j < 4096" "argv_size args + j = 4096 + i" using assms by (simp_all add: j_def)
  have eq: "USER_TASK_BASE - args_base args + of_nat i = top_page + of_nat j"
  proof -
    have "(of_nat (argv_size args) :: u32) + of_nat j = 0x1000 + of_nat i" using j(2) by (metis of_nat_add of_nat_numeral)
    then show ?thesis by (simp add: args_base_size top_page_def algebra_simps)
  qed
  have z: "unat (top_page mod 0x1000) = 0" by (simp add: top_page_def USER_TASK_BASE_def)
  show "(USER_TASK_BASE - args_base args + of_nat i) div 0x1000 = top_page div 0x1000"
    unfolding eq by (rule within_page(2)) (use z j in simp)
  have "unat ((top_page + of_nat j) mod 0x1000) = j" using within_page(3) [of top_page j] z j by simp
  then show "unat ((USER_TASK_BASE - args_base args + of_nat i) mod 0x1000) = 4096 - argv_size args + i"
    unfolding eq j_def .
qed

text \<open>The contents of the frames that are neither the kernel heap's nor of a given kind stay.\<close>

definition frames_kept :: "nat \<Rightarrow> nat \<Rightarrow> nat set \<Rightarrow> machine \<Rightarrow> machine \<Rightarrow> bool" where
  "frames_kept lo hi F mc mc' \<longleftrightarrow>
     (\<forall>f i. unat f \<notin> heap_frames lo hi (mc_memory mc) \<union> F \<longrightarrow> i < 4096 \<longrightarrow> mc_frame mc' f i = mc_frame mc f i)"

lemma copyFramePhysical_other:
  fixes f f' h :: "20 word"
  assumes "h \<noteq> f'" and "i < 4096"
  shows "mc_frame (copyFramePhysical (ucast f * 0x1000) (ucast f' * 0x1000) mc) h i = mc_frame mc h i"
proof (cases "f = f'")
  case True
  then show ?thesis
    using frame_byte(1) [OF assms(2), of _ h] copy_dwords_self [of 1024 "ucast f' * 0x1000" "mc_frame mc"]
    by (simp add: copyFramePhysical_def) metis
next
  case False
  then have "apart (ucast f' * 0x1000) f" "apart (ucast f' * 0x1000) h" using assms(1) by (simp_all add: apart_def frame_byte(2))
  from copy_to_helper(2) [OF this(1) this(2) assms(2)] show ?thesis .
qed

lemma load_argv_ready:
  assumes "mem_ready lo hi (4096 + 4095 + s) (2 + j) n (mc_memory mc)" and "0 < s" and "argv_size args \<le> 4096"
    and "lookup_page (t_pageDir (k_task (mc_kernel mc) t)) top_page (mc_memory mc) = Some p"
    and "pg_present (page_at p (mc_memory mc))"
  obtains h' g where "load_task_argv t args mc =
      Inr (args_base args, mc\<lparr>mc_memory := (mc_memory mc)\<lparr>m_heap := Some h'\<rparr>, mc_frame := g\<rparr>)"
    and "mem_ready lo hi s j n ((mc_memory mc)\<lparr>m_heap := Some h'\<rparr>)"
    and "\<And>i. i < argv_size args \<Longrightarrow>
      g (pg_pageAddress (page_at p (mc_memory mc))) (4096 - argv_size args + i) = argv_block args ! i"
    and "\<And>f i. unat f \<notin> heap_frames lo hi (mc_memory mc) \<Longrightarrow> f \<noteq> pg_pageAddress (page_at p (mc_memory mc)) \<Longrightarrow> i < 4096 \<Longrightarrow>
      g f i = mc_frame mc f i"
proof -
  let ?m = "mc_memory mc" and ?d = "t_pageDir (k_task (mc_kernel mc) t)"
  have u: "unat (0x1000 :: u32) = 4096" by simp
  have r: "mem_ready lo hi (unat (0x1000 :: u32) + 4095 + s) (2 + j) n ?m" using assms(1) by (simp only: u)
  obtain sp ph h1 where al: "memory_allocAligned 0x1000 True ?m = Inr (sp, ph, ?m\<lparr>m_heap := Some h1\<rparr>)"
    and ready1: "mem_ready lo hi s j n (?m\<lparr>m_heap := Some h1\<rparr>)" and blk: "\<lparr>e_start = sp, e_size = 0x1000, isHole = False\<rparr> \<in># allocated h1"
    and low: "sp AND 0xFFF = 0" and q: "\<exists>q. lookup_page (m_kernelDirectory ?m) sp ?m = Some q \<and>
      unat (pg_pageAddress (page_at q ?m)) \<in> heap_frames lo hi ?m \<and> (True \<longrightarrow> ph = page_physical q sp ?m)"
    by (rule alloc_ready [OF r _ _ assms(2), of True]) (simp, simp, rule that)
  from q obtain q where ph: "ph = ucast (pg_pageAddress (page_at q ?m)) * 0x1000"
    and kern: "unat (pg_pageAddress (page_at q ?m)) \<in> heap_frames lo hi ?m" using page_physical_aligned [OF low] by auto
  define f where "f = pg_pageAddress (page_at q ?m)"
  define f' where "f' = pg_pageAddress (page_at p ?m)"
  have fr: "frame_of ph = f" using frame_byte(2) [of 0 f] by (simp add: ph f_def)
  define old where "old = byte_slice (mc_frame mc f) 0 0x1000"
  have len: "length old = 4096" by (simp add: old_def byte_slice_def)
  define new where "new = splice (4096 - argv_size args) (argv_block args) old"
  have page: "argv_page args old = Inr new" using argv_page_block [OF assms(3) len] by (simp add: new_def)
  have len': "length new = 4096" using len assms(3) by (simp add: new_def length_argv_block)
  define mc2 where "mc2 = write_frame f 0 new (mc\<lparr>mc_memory := ?m\<lparr>m_heap := Some h1\<rparr>\<rparr>)"
  have get: "getPage_make ?d top_page (?m\<lparr>m_heap := Some h1\<rparr>) = Inr (p, ?m\<lparr>m_heap := Some h1\<rparr>)"
    using assms(4) by (auto simp: getPage_make_def getPage_def lookup_page_def Let_def)
  define g where "g = mc_frame (copyFramePhysical ph (ucast f' * 0x1000) mc2)"
  obtain h2 where fre: "memory_free sp (?m\<lparr>m_heap := Some h1\<rparr>) = Inr (True, ?m\<lparr>m_heap := Some h2\<rparr>)"
    and ready2: "mem_ready lo hi s j n (?m\<lparr>m_heap := Some h2\<rparr>)"
    by (rule free_ready [OF ready1 _ blk]) (simp, rule that, simp_all)
  have run: "load_task_argv t args mc = Inr (args_base args, mc\<lparr>mc_memory := ?m\<lparr>m_heap := Some h2\<rparr>, mc_frame := g\<rparr>)"
    using page get unfolding old_def top_page_def
    by (simp add: load_task_argv_def al fr Let_def fre g_def mc2_def write_frame_def copyFramePhysical_def f'_def)
  have "g f' (4096 - argv_size args + i) = argv_block args ! i" if "i < argv_size args" for i
  proof -
    let ?k = "4096 - argv_size args + i"
    have k: "?k < 4096" using that assms(3) by simp
    have "g f' ?k = mc_frame mc2 f ?k" using copyFramePhysical_page [OF k] by (simp add: g_def ph f_def)
    also have "\<dots> = new ! ?k" using k len' by (simp add: mc2_def write_frame_def overwrite_def)
    also have "\<dots> = argv_block args ! i"
    proof -
      obtain X where X: "4096 - argv_size args = X" "X + argv_size args = 4096" using assms(3) by (metis le_add_diff_inverse2)
      show ?thesis using that len X(2) unfolding new_def X(1) by (simp add: nth_splice length_argv_block)
    qed
    finally show ?thesis .
  qed
  moreover have "g h i = mc_frame mc h i" if "unat h \<notin> heap_frames lo hi ?m" "h \<noteq> f'" "i < 4096" for h i
  proof -
    have "h \<noteq> f" using kern that(1) by (auto simp: f_def)
    then have "mc_frame mc2 h i = mc_frame mc h i" by (simp add: mc2_def write_frame_def)
    then show ?thesis using copyFramePhysical_other [OF that(2,3)] by (simp add: g_def ph f_def)
  qed
  ultimately show thesis using that [OF run ready2] by (simp add: f'_def)
qed

section \<open>The stack\<close>

lemma new_pages_heap [simp]: "new_pages d i as m (m'\<lparr>m_heap := h\<rparr>) = new_pages d i as m m'"
  by (simp add: new_pages_def user_page_def)

lemma stack_pages_table:
  "\<forall>a \<in> set stack_pages. page_table_index a = 319" "distinct (map page_entry stack_pages)" "length stack_pages = 4"
  "stack_pages \<noteq> []" "top_page \<in> set stack_pages"
proof -
  have e: "stack_pages = [0x4FFFF000, 0x4FFFE000, 0x4FFFD000, 0x4FFFC000]"
    by (simp add: stack_pages_def USER_TASK_BASE_def USER_TASK_STACK_SIZE_def upt_rec)
  show "\<forall>a \<in> set stack_pages. page_table_index a = 319" "distinct (map page_entry stack_pages)" "length stack_pages = 4"
    "stack_pages \<noteq> []" "top_page \<in> set stack_pages"
    by (simp_all add: e page_table_index_def page_entry_def top_page_def USER_TASK_BASE_def)
qed

lemma new_pages_lookup:
  assumes "new_pages d i as m m'" and "a \<in> set as" and "page_table_index a = i"
  shows "lookup_page d a m' = Some (m_ntables m, page_entry a)" and "user_page m' (m_ntables m, page_entry a)"
    and "page_frame m' (m_ntables m, page_entry a) \<in> free_frames m"
  using assms by (auto simp: new_pages_def lookup_page_entry)

lemma new_pages_keep:
  assumes "new_pages d i as m m'" and "e \<noteq> d \<or> page_table_index a \<noteq> i"
  shows "lookup_page e a m' = lookup_page e a m" and "fst p \<noteq> m_ntables m \<Longrightarrow> page_at p m' = page_at p m"
proof -
  have "pd_tables (m_dir m' e) (page_table_index a) = pd_tables (m_dir m e) (page_table_index a)"
    using assms by (cases "e = d") (simp_all add: new_pages_def)
  then show "lookup_page e a m' = lookup_page e a m" by (simp add: lookup_page_entry)
  show "fst p \<noteq> m_ntables m \<Longrightarrow> page_at p m' = page_at p m" using assms(1) unfolding new_pages_def by blast
qed

lemma new_pages_heap_frames:
  assumes "new_pages d i as m m'" and "kernel_dir_ok m" and "d \<noteq> m_kernelDirectory m"
  shows "heap_frames lo hi m' = heap_frames lo hi m"
proof -
  have kd: "m_kernelDirectory m' = m_kernelDirectory m" using assms(1) by (simp add: new_pages_def)
  have "page_at q m' = page_at q m" if "lookup_page (m_kernelDirectory m) a m = Some q" for a q
  proof -
    have "fst q < m_ntables m" using lookup_page_bound [OF _ that] assms(2) by (simp add: kernel_dir_ok_def)
    then show ?thesis using new_pages_keep(2) [OF assms(1), of "m_kernelDirectory m" 0 q] assms(3) by auto
  qed
  then show ?thesis using new_pages_keep(1) [OF assms(1), of "m_kernelDirectory m"] assms(3) kd
    unfolding heap_frames_def by (auto; metis)
qed

lemma user_stack_ready:
  assumes "mem_ready lo hi (4096 + 4095 + (8192 + 4095 + (4096 + 4095 + s))) (2 + (2 + (2 + j))) (4 + n) (mc_memory mc)"
    and "0 < s" and "argv_size args \<le> 4096" and "d = t_pageDir (k_task (mc_kernel mc) t)"
    and "pd_tables (m_dir (mc_memory mc) d) 319 = None" and "d \<noteq> m_kernelDirectory (mc_memory mc)"
  obtains ks mc' where "user_stack t cpl args mc = Inr (ks, mc')" and "mem_ready lo hi s j n (mc_memory mc')"
    and "new_pages d 319 stack_pages (mc_memory mc) (mc_memory mc')"
    and "mc_kernel mc' = set_frame_regs ks (\<lambda>r. r\<lparr>r_useresp := USER_TASK_BASE - args_base args, r_ss := 0x10 + ucast cpl * 0x11\<rparr>) (mc_kernel mc)"
    and "\<And>i. i < argv_size args \<Longrightarrow>
      user_byte d (USER_TASK_BASE - args_base args + of_nat i) mc' = Some (argv_block args ! i)"
    and "frames_kept lo hi (free_frames (mc_memory mc)) mc mc'"
proof -
  let ?m = "mc_memory mc"
  have "mem_ready lo hi (4096 + 4095 + (8192 + 4095 + (4096 + 4095 + s))) (2 + (2 + (2 + j))) (length stack_pages + n) ?m"
    using assms(1) by (simp only: stack_pages_table(3))
  from new_pages_ready [OF this _ stack_pages_table(4) assms(5) stack_pages_table(1,2)] obtain m1 where
    m1: "alloc_pages d stack_pages ?m = Inr m1" "mem_ready lo hi (8192 + 4095 + (4096 + 4095 + s)) (2 + (2 + j)) n m1"
      "new_pages d 319 stack_pages ?m m1" by auto
  have sz: "unat USER_TASK_KERNEL_STACK_SIZE = 8192" "USER_TASK_KERNEL_STACK_SIZE \<noteq> 0" by (simp_all add: USER_TASK_KERNEL_STACK_SIZE_def)
  have r: "mem_ready lo hi (unat USER_TASK_KERNEL_STACK_SIZE + 4095 + (4096 + 4095 + s)) (2 + (2 + j)) n m1" using m1(2) by (simp only: sz)
  obtain a ph h2 where al: "memory_allocAligned USER_TASK_KERNEL_STACK_SIZE False m1 = Inr (a, ph, m1\<lparr>m_heap := Some h2\<rparr>)"
    and r2: "mem_ready lo hi (4096 + 4095 + s) (2 + j) n (m1\<lparr>m_heap := Some h2\<rparr>)"
    by (rule alloc_ready [OF r sz(2), of False]) (simp add: sz, simp, rule that)
  define mc2 where "mc2 = mc\<lparr>mc_memory := m1\<lparr>m_heap := Some h2\<rparr>\<rparr>"
  let ?p = "(m_ntables ?m, page_entry top_page)"
  have idx: "page_table_index top_page = 319" using stack_pages_table(1,5) by blast
  note top = new_pages_lookup [OF m1(3) stack_pages_table(5) idx]
  have r2': "mem_ready lo hi (4096 + 4095 + s) (2 + j) n (mc_memory mc2)" using r2 by (simp add: mc2_def)
  have top': "lookup_page (t_pageDir (k_task (mc_kernel mc2) t)) top_page (mc_memory mc2) = Some ?p"
    "pg_present (page_at ?p (mc_memory mc2))"
    using top assms(4) by (simp_all add: mc2_def user_page_def)
  obtain h3 g where argv: "load_task_argv t args mc2 =
      Inr (args_base args, mc2\<lparr>mc_memory := (mc_memory mc2)\<lparr>m_heap := Some h3\<rparr>, mc_frame := g\<rparr>)"
    and r3: "mem_ready lo hi s j n ((mc_memory mc2)\<lparr>m_heap := Some h3\<rparr>)"
    and bytes: "\<And>i. i < argv_size args \<Longrightarrow>
      g (pg_pageAddress (page_at ?p (mc_memory mc2))) (4096 - argv_size args + i) = argv_block args ! i"
    and kept: "\<And>f i. unat f \<notin> heap_frames lo hi (mc_memory mc2) \<Longrightarrow> f \<noteq> pg_pageAddress (page_at ?p (mc_memory mc2)) \<Longrightarrow>
      i < 4096 \<Longrightarrow> g f i = mc_frame mc2 f i"
    by (rule load_argv_ready [OF r2' assms(2,3) top']) (rule that)
  define ks where "ks = a + USER_TASK_KERNEL_STACK_SIZE - sizeof_modeswitch_registers"
  define mc3 where "mc3 = mc2\<lparr>mc_memory := (mc_memory mc2)\<lparr>m_heap := Some h3\<rparr>, mc_frame := g\<rparr>"
  define mc4 where "mc4 = mc3\<lparr>mc_kernel := set_frame_regs ks (\<lambda>r. r\<lparr>r_useresp := USER_TASK_BASE - args_base args,
      r_ss := 0x10 + ucast cpl * 0x11\<rparr>) (mc_kernel mc3)\<rparr>"
  have run: "user_stack t cpl args mc = Inr (ks, mc4)"
    using m1(1) al argv assms(4)
    by (simp add: user_stack_def Let_def flip: mc2_def ks_def) (simp add: mc4_def mc3_def)
  have mem: "mc_memory mc4 = m1\<lparr>m_heap := Some h3\<rparr>" by (simp add: mc4_def mc3_def mc2_def)
  have "user_byte d (USER_TASK_BASE - args_base args + of_nat i) mc4 = Some (argv_block args ! i)" if "i < argv_size args" for i
  proof -
    have "lookup_page d (USER_TASK_BASE - args_base args + of_nat i) (mc_memory mc4) = Some ?p"
      using lookup_page_same [OF argv_address(1) [OF assms(3) that], of d "mc_memory mc4"] top(1) by (simp add: mem)
    then show ?thesis using top(2) bytes [OF that] argv_address(2) [OF assms(3) that]
      by (simp add: user_byte_def Let_def mem user_page_def mc2_def) (simp add: mc4_def mc3_def)
  qed
  moreover have "mem_ready lo hi s j n (mc_memory mc4)" using r3 by (simp add: mem mc2_def)
  moreover have "frames_kept lo hi (free_frames ?m) mc mc4"
  proof -
    have kd: "kernel_dir_ok ?m" using assms(1) by (simp add: mem_ready_def)
    have "heap_frames lo hi m1 = heap_frames lo hi ?m"
      using new_pages_heap_frames [OF m1(3) kd assms(6)] .
    then have hf: "heap_frames lo hi (mc_memory mc2) = heap_frames lo hi ?m" by (simp add: mc2_def)
    have pf: "unat (pg_pageAddress (page_at ?p (mc_memory mc2))) \<in> free_frames ?m" using top(3) by (simp add: mc2_def)
    have "mc_frame mc4 = g" "mc_frame mc2 = mc_frame mc" by (simp_all add: mc4_def mc3_def mc2_def)
    then show ?thesis using kept pf unfolding frames_kept_def hf by fastforce
  qed
  ultimately show thesis using that [OF run] m1(3) mem by (simp add: mc4_def mc3_def mc2_def)
qed

section \<open>The heap of the process\<close>

definition heap_pages :: "u32 list" where
  "heap_pages = pages_from PROCESS_HEAP_START (unat (PROCESS_HEAP_SIZE div 0x1000))"

lemma heap_pages_eq: "heap_pages = map (\<lambda>i. 0x20000000 + of_nat i * 0x1000) [0..<768]"
  by (simp add: heap_pages_def pages_from_def PROCESS_HEAP_START_def PROCESS_HEAP_SIZE_def)

lemma heap_page_address:
  assumes "i < 768"
  shows "page_table_index (0x20000000 + of_nat i * 0x1000) = 128" and "page_entry (0x20000000 + of_nat i * 0x1000) = i"
proof -
  have "unat (0x20000000 + of_nat i * 0x1000 :: u32) = 0x20000000 + i * 4096"
  proof -
    have "unat (of_nat (0x20000000 + i * 4096) :: u32) = 0x20000000 + i * 4096"
      using assms by (simp only: unat_of_nat) (simp add: take_bit_nat_eq_self)
    then show ?thesis by simp
  qed
  moreover have "(i + 128 * 1024) mod 1024 = i mod 1024" by (rule mod_mult_self1)
  then have "(131072 + i) mod 1024 = i" using assms by (simp add: add.commute)
  ultimately show "page_table_index (0x20000000 + of_nat i * 0x1000) = 128" "page_entry (0x20000000 + of_nat i * 0x1000) = i"
    using assms by (simp_all add: page_table_index_def page_entry_def unat_div unat_mod)
qed

lemma heap_pages_table:
  "\<forall>a \<in> set heap_pages. page_table_index a = 128" "distinct (map page_entry heap_pages)" "length heap_pages = 768"
  "heap_pages \<noteq> []"
proof -
  have "map page_entry heap_pages = map id [0..<768]" unfolding heap_pages_eq map_map
    by (rule map_cong) (simp_all add: heap_page_address)
  then show "distinct (map page_entry heap_pages)" by simp
  show "\<forall>a \<in> set heap_pages. page_table_index a = 128" by (auto simp: heap_pages_eq heap_page_address)
  show "length heap_pages = 768" by (simp add: heap_pages_eq)
  then show "heap_pages \<noteq> []" by auto
qed

section \<open>The process\<close>

text \<open>What a process needs at most: kernel heap, places in its index, frames.\<close>

definition task_room :: nat where "task_room = 49151"
definition task_places :: nat where "task_places = 10"
definition task_frames :: nat where "task_frames = 772"

text \<open>What its making leaves alone in the memory manager.\<close>

definition other_tasks_kept :: "memory \<Rightarrow> memory \<Rightarrow> bool" where
  "other_tasks_kept m m' \<longleftrightarrow> m_kernelDirectory m' = m_kernelDirectory m \<and> m_activeDirectory m' = m_activeDirectory m \<and>
     m_ndirs m' = Suc (m_ndirs m) \<and> m_ntables m \<le> m_ntables m' \<and> (\<forall>e. e \<noteq> m_ndirs m \<longrightarrow> m_dir m' e = m_dir m e) \<and>
     (\<forall>q. fst q < m_ntables m \<longrightarrow> page_at q m' = page_at q m) \<and> (\<forall>f. frame_used m f \<longrightarrow> frame_used m' f)"

lemma kernel_stack_ready:
  assumes "mem_ready lo hi (16384 + 4095 + s) (2 + j) n (mc_memory mc)" and "0 < s"
  obtains ks h' where "kernel_stack mc = Inr (ks, mc\<lparr>mc_memory := (mc_memory mc)\<lparr>m_heap := Some h'\<rparr>\<rparr>)"
    and "mem_ready lo hi s j n ((mc_memory mc)\<lparr>m_heap := Some h'\<rparr>)"
proof -
  have sz: "unat USER_TASK_STACK_SIZE = 16384" "USER_TASK_STACK_SIZE \<noteq> 0" by (simp_all add: USER_TASK_STACK_SIZE_def)
  have r: "mem_ready lo hi (unat USER_TASK_STACK_SIZE + 4095 + s) (2 + j) n (mc_memory mc)" using assms(1) by (simp only: sz)
  obtain a ph h2 where al: "memory_allocAligned USER_TASK_STACK_SIZE False (mc_memory mc) = Inr (a, ph, (mc_memory mc)\<lparr>m_heap := Some h2\<rparr>)"
    and "mem_ready lo hi s j n ((mc_memory mc)\<lparr>m_heap := Some h2\<rparr>)"
    by (rule alloc_ready [OF r sz(2) _ assms(2), of False]) (simp add: sz, rule that)
  then show thesis using that by (simp add: kernel_stack_def)
qed

definition user_parts :: "nat \<Rightarrow> bytes list \<Rightarrow> machine \<Rightarrow> machine \<Rightarrow> bool" where
  "user_parts d args mc mc' \<longleftrightarrow>
     (\<forall>a \<in> set stack_pages \<union> set heap_pages. \<exists>p. lookup_page d a (mc_memory mc') = Some p \<and> user_page (mc_memory mc') p \<and>
        page_frame (mc_memory mc') p \<in> free_frames (mc_memory mc)) \<and>
     (\<forall>i < argv_size args. user_byte d (USER_TASK_BASE - args_base args + of_nat i) mc' = Some (argv_block args ! i))"

lemma free_frames_used:
  "new_pages d i as m m' \<Longrightarrow> free_frames m' \<subseteq> free_frames m"
  by (auto simp: new_pages_def free_frames_def frame_limit_def)

lemma task_new_total: "\<exists>k1. task_new cpl name k = Inr (k_count k, k1)"
  by (simp add: task_new_def grantPrivilege_def Let_def PRIV_COUNT_def PRIV_CONSOLE_WRITE_def PRIV_MALLOC_def)

lemma CreateTask_ready:
  fixes mc :: machine
  defines "m \<equiv> mc_memory mc" and "k \<equiv> mc_kernel mc"
  assumes ready: "mem_ready lo hi (task_room + s) (task_places + j) (task_frames + n) m" and s: "0 < s"
    and kd: "pd_tables (m_dir m (m_kernelDirectory m)) 128 = None" "pd_tables (m_dir m (m_kernelDirectory m)) 319 = None"
    and argv: "cpl > 0 \<Longrightarrow> argv_size args \<le> 4096"
  obtains mc' where "CreateTask e cpl fl iopl (m_kernelDirectory m) name args mc = Inr (k_count k, mc')"
    and "mem_ready lo hi s j n (mc_memory mc')" and "other_tasks_kept m (mc_memory mc')"
    and "\<And>a q. lookup_page (m_kernelDirectory m) a m = Some q \<Longrightarrow> lookup_page (m_ndirs m) a (mc_memory mc') = Some q"
    and "t_pageDir (k_task (mc_kernel mc') (k_count k)) = m_ndirs m"
    and "cpl > 0 \<Longrightarrow> user_parts (m_ndirs m) args mc mc'"
    and "cpl > 0 \<Longrightarrow> (let r = k_frames (mc_kernel mc') (t_ks (k_task (mc_kernel mc') (k_count k))) in
      r_useresp r = USER_TASK_BASE - args_base args \<and> r_ss r = 0x10 + ucast cpl * 0x11)"
    and "let r = k_frames (mc_kernel mc') (t_ks (k_task (mc_kernel mc') (k_count k))) in
      r_eip r = e \<and> r_cs r = 0x08 + ucast cpl * 0x11 \<and> r_ds r = 0x10 + ucast cpl * 0x11 \<and>
      r_eflags r = (if fl then 0x200 else 0) OR push_bit 12 (ucast iopl)"
    and "frames_kept lo hi (free_frames m) mc mc'"
proof -
  let ?kd = "m_kernelDirectory m" and ?d = "m_ndirs m" and ?t = "k_count k"
  obtain k1 where nt: "task_new cpl name k = Inr (?t, k1)" using task_new_total by blast
  define s1 where "s1 = 4096 + 4095 + (8192 + 4095 + (4096 + 4095 + (4096 + 4095 + s)))"
  have "mem_ready lo hi (8196 + 4095 + s1) (2 + (8 + j)) (task_frames + n) m"
    using mem_ready_less [OF ready] by (simp add: s1_def task_room_def task_places_def)
  then obtain m1 where clone: "PageDirectory_clone ?kd m = Inr (?d, m1)" and r1: "mem_ready lo hi s1 (8 + j) (task_frames + n) m1"
    and t1: "\<And>i. pd_tables (m_dir m1 ?d) i = (if i < 1024 then pd_tables (m_dir m ?kd) i else None)"
    and o1: "\<And>e. e \<noteq> ?d \<Longrightarrow> m_dir m1 e = m_dir m e" "m_ndirs m1 = Suc ?d" "m_ntables m1 = m_ntables m"
      "m_table m1 = m_table m" "m_frames m1 = m_frames m" "m_frameCount m1 = m_frameCount m" "m_kernelDirectory m1 = ?kd"
      "m_activeDirectory m1 = m_activeDirectory m"
    by (rule clone_ready) (simp_all add: s1_def)
  have free1: "free_frames m1 = free_frames m" "\<And>f. frame_used m1 f = frame_used m f"
    by (simp_all add: free_frames_def frame_used_def frame_limit_def o1)
  have kdok: "kernel_dir_ok m" using ready by (simp add: mem_ready_def)
  then have ne: "?d \<noteq> ?kd" by (simp add: kernel_dir_ok_def)
  have heap1: "heap_frames lo hi m1 = heap_frames lo hi m"
    using ne o1 by (simp add: heap_frames_def lookup_page_def page_at_def)
  define mc1 where "mc1 = mc\<lparr>mc_kernel := upd_task ?t (\<lambda>x. x\<lparr>t_pageDir := ?d\<rparr>) k1, mc_memory := m1\<rparr>"
  have mm1: "mc_memory mc1 = m1" and d1: "?d = t_pageDir (k_task (mc_kernel mc1) ?t)" by (simp_all add: mc1_def)
  define S where "S ks mc2 \<longleftrightarrow> (if cpl > 0 then user_stack ?t cpl args mc1 else kernel_stack mc1) = Inr (ks, mc2) \<and>
      mem_ready lo hi (4096 + 4095 + s) (2 + j) (768 + n) (mc_memory mc2) \<and>
      (if cpl > 0 then new_pages ?d 319 stack_pages m1 (mc_memory mc2) \<and>
         mc_kernel mc2 = set_frame_regs ks (\<lambda>r. r\<lparr>r_useresp := USER_TASK_BASE - args_base args, r_ss := 0x10 + ucast cpl * 0x11\<rparr>) (mc_kernel mc1) \<and>
         (\<forall>i < argv_size args. user_byte ?d (USER_TASK_BASE - args_base args + of_nat i) mc2 = Some (argv_block args ! i)) \<and>
         frames_kept lo hi (free_frames m1) mc1 mc2
       else \<exists>h. mc2 = mc1\<lparr>mc_memory := m1\<lparr>m_heap := Some h\<rparr>\<rparr>)" for ks mc2
  have "\<exists>ks mc2. S ks mc2"
  proof (cases "cpl > 0")
    case True
    have r: "mem_ready lo hi (4096 + 4095 + (8192 + 4095 + (4096 + 4095 + (4096 + 4095 + s)))) (2 + (2 + (2 + (2 + j)))) (4 + (768 + n)) (mc_memory mc1)"
      using mem_ready_less [OF r1] by (simp add: mm1 s1_def task_frames_def)
    have none: "pd_tables (m_dir (mc_memory mc1) ?d) 319 = None" using t1 kd(2) by (simp add: mm1)
    obtain ks mc2 where "user_stack ?t cpl args mc1 = Inr (ks, mc2)" "mem_ready lo hi (4096 + 4095 + s) (2 + j) (768 + n) (mc_memory mc2)"
      "new_pages ?d 319 stack_pages (mc_memory mc1) (mc_memory mc2)"
      "mc_kernel mc2 = set_frame_regs ks (\<lambda>r. r\<lparr>r_useresp := USER_TASK_BASE - args_base args, r_ss := 0x10 + ucast cpl * 0x11\<rparr>) (mc_kernel mc1)"
      "\<And>i. i < argv_size args \<Longrightarrow> user_byte ?d (USER_TASK_BASE - args_base args + of_nat i) mc2 = Some (argv_block args ! i)"
      "frames_kept lo hi (free_frames (mc_memory mc1)) mc1 mc2"
      by (rule user_stack_ready [OF r _ argv [OF True] d1 none]) (simp, simp add: mm1 o1 ne, rule that)
    with True have "S ks mc2" by (simp add: S_def mm1)
    then show ?thesis by blast
  next
    case False
    have r: "mem_ready lo hi (16384 + 4095 + (4096 + 4095 + s)) (2 + (2 + j)) (768 + n) (mc_memory mc1)"
      using mem_ready_less [OF r1] by (simp add: mm1 s1_def task_frames_def)
    from kernel_stack_ready [OF r] obtain ks h' where "kernel_stack mc1 = Inr (ks, mc1\<lparr>mc_memory := m1\<lparr>m_heap := Some h'\<rparr>\<rparr>)"
      "mem_ready lo hi (4096 + 4095 + s) (2 + j) (768 + n) (m1\<lparr>m_heap := Some h'\<rparr>)" unfolding mm1 by auto
    with False have "S ks (mc1\<lparr>mc_memory := m1\<lparr>m_heap := Some h'\<rparr>\<rparr>)" by (auto simp: S_def)
    then show ?thesis by blast
  qed
  then obtain ks mc2 where "S ks mc2" by blast
  then have stack: "(if cpl > 0 then user_stack ?t cpl args mc1 else kernel_stack mc1) = Inr (ks, mc2)"
    and r2: "mem_ready lo hi (4096 + 4095 + s) (2 + j) (768 + n) (mc_memory mc2)"
    and user: "cpl > 0 \<Longrightarrow> new_pages ?d 319 stack_pages m1 (mc_memory mc2)"
      "cpl > 0 \<Longrightarrow> mc_kernel mc2 = set_frame_regs ks (\<lambda>r. r\<lparr>r_useresp := USER_TASK_BASE - args_base args, r_ss := 0x10 + ucast cpl * 0x11\<rparr>) (mc_kernel mc1)"
      "cpl > 0 \<Longrightarrow> i < argv_size args \<Longrightarrow> user_byte ?d (USER_TASK_BASE - args_base args + of_nat i) mc2 = Some (argv_block args ! i)"
      "cpl > 0 \<Longrightarrow> frames_kept lo hi (free_frames m1) mc1 mc2"
    and kern: "\<not> cpl > 0 \<Longrightarrow> \<exists>h. mc2 = mc1\<lparr>mc_memory := m1\<lparr>m_heap := Some h\<rparr>\<rparr>" for i
    by (auto simp: S_def split: if_splits)
  let ?m2 = "mc_memory mc2"
  have b2: "m_ndirs ?m2 = Suc ?d" "m_ntables m \<le> m_ntables ?m2" "m_kernelDirectory ?m2 = ?kd"
    "m_activeDirectory ?m2 = m_activeDirectory m" "\<And>e. e \<noteq> ?d \<Longrightarrow> m_dir ?m2 e = m_dir m e"
    "\<And>q. fst q < m_ntables m \<Longrightarrow> page_at q ?m2 = page_at q m" "\<And>f. frame_used m f \<Longrightarrow> frame_used ?m2 f"
    "free_frames ?m2 \<subseteq> free_frames m" "pd_tables (m_dir ?m2 ?d) 128 = None"
    "\<And>a q. page_table_index a \<noteq> 319 \<Longrightarrow> lookup_page ?d a ?m2 = lookup_page ?d a m1"
    "k_task (mc_kernel mc2) = k_task (mc_kernel mc1)"
  proof -
    have at1: "page_at q m1 = page_at q m" for q by (simp add: page_at_def o1)
    have *: "m_ndirs ?m2 = Suc ?d \<and> m_ntables m \<le> m_ntables ?m2 \<and> m_kernelDirectory ?m2 = ?kd \<and>
      m_activeDirectory ?m2 = m_activeDirectory m \<and> (\<forall>e. e \<noteq> ?d \<longrightarrow> m_dir ?m2 e = m_dir m e) \<and>
      (\<forall>q. fst q < m_ntables m \<longrightarrow> page_at q ?m2 = page_at q m) \<and> (\<forall>f. frame_used m f \<longrightarrow> frame_used ?m2 f) \<and>
      free_frames ?m2 \<subseteq> free_frames m \<and> pd_tables (m_dir ?m2 ?d) 128 = None \<and>
      (\<forall>a. page_table_index a \<noteq> 319 \<longrightarrow> lookup_page ?d a ?m2 = lookup_page ?d a m1) \<and> k_task (mc_kernel mc2) = k_task (mc_kernel mc1)"
    proof (cases "cpl > 0")
      case True
      note np = user(1) [OF True]
      have "page_at q ?m2 = page_at q m" if "fst q < m_ntables m" for q
        using np that at1 o1(3) unfolding new_pages_def by (metis less_irrefl)
      then show ?thesis using np o1 t1 kd free1 free_frames_used [OF np] new_pages_keep(1) [OF np] user(2) [OF True]
        by (simp add: new_pages_def set_frame_regs_def)
    next
      case False
      then obtain h where "mc2 = mc1\<lparr>mc_memory := m1\<lparr>m_heap := Some h\<rparr>\<rparr>" using kern by blast
      then show ?thesis using o1 t1 kd free1 at1 by simp
    qed
    then show "m_ndirs ?m2 = Suc ?d" "m_ntables m \<le> m_ntables ?m2" "m_kernelDirectory ?m2 = ?kd"
      "m_activeDirectory ?m2 = m_activeDirectory m" "\<And>e. e \<noteq> ?d \<Longrightarrow> m_dir ?m2 e = m_dir m e"
      "\<And>q. fst q < m_ntables m \<Longrightarrow> page_at q ?m2 = page_at q m" "\<And>f. frame_used m f \<Longrightarrow> frame_used ?m2 f"
      "free_frames ?m2 \<subseteq> free_frames m" "pd_tables (m_dir ?m2 ?d) 128 = None"
      "\<And>a q. page_table_index a \<noteq> 319 \<Longrightarrow> lookup_page ?d a ?m2 = lookup_page ?d a m1"
      "k_task (mc_kernel mc2) = k_task (mc_kernel mc1)" by auto
  qed
  have r2': "mem_ready lo hi (4096 + 4095 + s) (2 + j) (length heap_pages + n) ?m2" using r2 by (simp only: heap_pages_table(3))
  obtain m3 where m3: "alloc_pages ?d heap_pages ?m2 = Inr m3" "mem_ready lo hi s j n m3" "new_pages ?d 128 heap_pages ?m2 m3"
    by (rule new_pages_ready [OF r2' s heap_pages_table(4) b2(9) heap_pages_table(1,2)])
  note np3 = m3(3)
  have k3: "m_kernelDirectory m3 = ?kd" "m_activeDirectory m3 = m_activeDirectory m" "m_ndirs m3 = Suc ?d"
    "m_ntables m \<le> m_ntables m3" "\<And>e. e \<noteq> ?d \<Longrightarrow> m_dir m3 e = m_dir m e" "\<And>f. frame_used m f \<Longrightarrow> frame_used m3 f"
    using np3 b2 by (simp_all add: new_pages_def)
  have at3: "page_at q m3 = page_at q ?m2" if "fst q \<noteq> m_ntables ?m2" for q
    using new_pages_keep(2) [OF np3, of ?kd 0 q] that b2 np3 unfolding new_pages_def by blast
  have kept: "other_tasks_kept m m3"
    using k3 b2(2,6) at3 by (auto simp: other_tasks_kept_def)
  define x :: "task \<Rightarrow> task" where "x = (\<lambda>x. x\<lparr>t_ks := ks, t_heapStart := PROCESS_HEAP_START,
      t_heapEnd := PROCESS_HEAP_START + PROCESS_HEAP_SIZE, t_heapMax := PROCESS_HEAP_START + PROCESS_HEAP_SIZE\<rparr>)"
  define k2 where "k2 = upd_task ?t x (set_frame_regs ks (callback_init e cpl fl iopl) (mc_kernel mc2))"
  define mc' where "mc' = mc2\<lparr>mc_kernel := k2\<lparr>k_byPid := map_put (k_byPid k2) (t_id (k_task k2 ?t)) (Some ?t)\<rparr>, mc_memory := m3\<rparr>"
  have run: "CreateTask e cpl fl iopl ?kd name args mc = Inr (?t, mc')"
    by (simp only: CreateTask_def Let_def m_def [symmetric] k_def [symmetric] nt rbind_Inr prod.case clone
        mc1_def [symmetric] stack m3(1) [unfolded heap_pages_def] x_def [symmetric] k2_def [symmetric] mc'_def)
  have task: "t_ks (k_task (mc_kernel mc') ?t) = ks" "t_pageDir (k_task (mc_kernel mc') ?t) = ?d"
    using d1 by (simp_all add: mc'_def k2_def x_def b2(11) set_frame_regs_def)
  have frame: "k_frames (mc_kernel mc') ks = callback_init e cpl fl iopl (k_frames (mc_kernel mc2) ks)"
    by (simp add: mc'_def k2_def set_frame_regs_def)
  have shared: "lookup_page ?d a m3 = Some q" if "lookup_page ?kd a m = Some q" for a q
  proof -
    from that obtain t where t: "pd_tables (m_dir m ?kd) (page_table_index a) = Some t" "q = (t, page_entry a)"
      by (auto simp: lookup_page_entry)
    have ne: "page_table_index a \<noteq> 128" "page_table_index a \<noteq> 319" using t(1) kd by auto
    have "lookup_page ?d a m1 = Some q" using t t1 by (simp add: lookup_page_entry page_table_index_def dir_index)
    then show ?thesis using b2(10) [OF ne(2)] new_pages_keep(1) [OF np3, of ?d a] ne(1) by simp
  qed
  have parts: "user_parts ?d args mc mc'" if cpl: "cpl > 0"
  proof -
    note np = user(1) [OF cpl]
    have t12: "m_ntables ?m2 = Suc (m_ntables m)" using np o1(3) by (simp add: new_pages_def)
    have st: "lookup_page ?d a m3 = Some (m_ntables m, page_entry a) \<and> user_page m3 (m_ntables m, page_entry a) \<and>
        page_frame m3 (m_ntables m, page_entry a) \<in> free_frames m" if "a \<in> set stack_pages" for a
      using new_pages_lookup [OF np that] stack_pages_table(1) that new_pages_keep(1) [OF np3, of ?d a]
        at3 [of "(m_ntables m, page_entry a)"] o1(3) t12 free1(1) by (simp add: user_page_def)
    have hp: "lookup_page ?d a m3 = Some (m_ntables ?m2, page_entry a) \<and> user_page m3 (m_ntables ?m2, page_entry a) \<and>
        page_frame m3 (m_ntables ?m2, page_entry a) \<in> free_frames m" if "a \<in> set heap_pages" for a
      using new_pages_lookup [OF np3 that] heap_pages_table(1) that b2(8) by blast
    have "user_byte ?d (USER_TASK_BASE - args_base args + of_nat i) mc' = Some (argv_block args ! i)" if "i < argv_size args" for i
    proof -
      let ?a = "USER_TASK_BASE - args_base args + of_nat i"
      have idx: "page_table_index ?a = 319"
        using argv_address(1) [OF argv [OF cpl] that] stack_pages_table(1,5) by (simp add: page_table_index_def)
      have look: "lookup_page ?d ?a ?m2 = Some (m_ntables m, page_entry ?a)"
        using np idx o1(3) by (simp add: new_pages_def lookup_page_entry)
      then have "lookup_page ?d ?a m3 = Some (m_ntables m, page_entry ?a)"
        using new_pages_keep(1) [OF np3, of ?d ?a] idx by simp
      then show ?thesis
        using user(3) [OF cpl that] look at3 [of "(m_ntables m, page_entry ?a)"] t12
        by (simp add: user_byte_def Let_def mc'_def split: if_splits)
    qed
    then show ?thesis using st hp by (auto simp: user_parts_def mc'_def m_def)
  qed
  have isolated: "frames_kept lo hi (free_frames m) mc mc'"
  proof (cases "cpl > 0")
    case True
    from user(4) [OF this] show ?thesis by (simp add: frames_kept_def mm1 heap1 free1 mc'_def mc1_def m_def)
  next
    case False
    then obtain h where "mc2 = mc1\<lparr>mc_memory := m1\<lparr>m_heap := Some h\<rparr>\<rparr>" using kern by blast
    then show ?thesis by (simp add: frames_kept_def mc'_def mc1_def)
  qed
  show thesis
  proof (rule that [OF run])
    show "let r = k_frames (mc_kernel mc') (t_ks (k_task (mc_kernel mc') ?t)) in
      r_useresp r = USER_TASK_BASE - args_base args \<and> r_ss r = 0x10 + ucast cpl * 0x11" if "cpl > 0"
      using user(2) [OF that] by (simp add: task frame callback_init_def set_frame_regs_def)
  qed (use m3(2) kept shared parts task frame isolated in \<open>simp_all add: mc'_def callback_init_def\<close>)
qed


end
