(* ===== verification/BootReady.thy ===== *)
theory BootReady
  imports CreateProps
begin

text \<open>
  The start of the first tasks gets through: with enough memory, frames and the four modules it returns, whatever the
  modules hold that is no ELF image.
\<close>

section \<open>What the making of tasks keeps\<close>

definition map_kept :: "memory \<Rightarrow> memory \<Rightarrow> bool" where
  "map_kept m m' \<longleftrightarrow> (let kd = m_kernelDirectory m; t = pd_tables (m_dir m kd); t' = pd_tables (m_dir m' kd) in
     m_kernelDirectory m' = kd \<and> m_activeDirectory m' = m_activeDirectory m \<and>
     (\<forall>i x. t i = Some x \<longrightarrow> t' i = Some x) \<and> t' 128 = t 128 \<and> t' 319 = t 319 \<and>
     (\<forall>q. fst q < m_ntables m \<longrightarrow> page_at q m' = page_at q m) \<and> (\<forall>f. frame_used m f \<longrightarrow> frame_used m' f))"

lemma map_kept_other: "other_tasks_kept m m' \<Longrightarrow> kernel_dir_ok m \<Longrightarrow> map_kept m m'"
  by (auto simp: other_tasks_kept_def map_kept_def kernel_dir_ok_def Let_def)

lemma map_kept_new_pages:
  assumes "new_pages (m_kernelDirectory m) i as m m'" and "pd_tables (m_dir m (m_kernelDirectory m)) i = None"
    and "i \<noteq> 128" and "i \<noteq> 319"
  shows "map_kept m m'"
  using assms by (auto simp: new_pages_def map_kept_def Let_def)

lemma map_kept_heap: "map_kept m (m\<lparr>m_heap := h\<rparr>)"
  by (simp add: map_kept_def Let_def)

lemma map_kept_trans: "map_kept m m' \<Longrightarrow> map_kept m' m'' \<Longrightarrow> m_ntables m \<le> m_ntables m' \<Longrightarrow> map_kept m m''"
  by (auto simp: map_kept_def Let_def)

lemma map_kept_lookup:
  assumes "map_kept m m'" and "lookup_page (m_kernelDirectory m) a m = Some p" and "kernel_dir_ok m"
  shows "lookup_page (m_kernelDirectory m') a m' = Some p" and "page_at p m' = page_at p m"
proof -
  from assms(2,3) have "fst p < m_ntables m" by (auto simp: kernel_dir_ok_def intro: lookup_page_bound)
  then show "page_at p m' = page_at p m" using assms(1) by (cases p) (simp add: map_kept_def Let_def)
  show "lookup_page (m_kernelDirectory m') a m' = Some p"
    using assms(1,2) by (auto simp: map_kept_def Let_def lookup_page_entry)
qed

lemma map_kept_heap_frames:
  assumes "map_kept m m'" and "kernel_dir_ok m" and "heap_mapped lo hi m"
  shows "heap_frames lo hi m' = heap_frames lo hi m"
proof -
  have "lookup_page (m_kernelDirectory m') a m' = lookup_page (m_kernelDirectory m) a m \<and>
      (\<forall>p. lookup_page (m_kernelDirectory m) a m = Some p \<longrightarrow> page_at p m' = page_at p m)" if a: "lo \<le> unat a" "unat a < hi" for a
  proof -
    from assms(3) a obtain p where p: "lookup_page (m_kernelDirectory m) a m = Some p" unfolding heap_mapped_def by blast
    from map_kept_lookup [OF assms(1) p assms(2)] p show ?thesis by simp
  qed
  then have eq: "(lo \<le> unat a \<and> unat a < hi \<and> lookup_page (m_kernelDirectory m') a m' = Some p) \<longleftrightarrow>
      (lo \<le> unat a \<and> unat a < hi \<and> lookup_page (m_kernelDirectory m) a m = Some p)"
    and at: "lo \<le> unat a \<and> unat a < hi \<and> lookup_page (m_kernelDirectory m) a m = Some p \<Longrightarrow> page_at p m' = page_at p m" for a p
    by (cases p, force)+
  show ?thesis unfolding heap_frames_def eq using at by (metis (no_types, opaque_lifting))
qed

section \<open>Images in kernel memory\<close>

definition image_mapped :: "nat \<Rightarrow> nat \<Rightarrow> u32 \<Rightarrow> bytes \<Rightarrow> machine \<Rightarrow> bool" where
  "image_mapped lo hi a img mc \<longleftrightarrow> (let m = mc_memory mc in
     \<forall>i < length img. \<exists>p. lookup_page (m_kernelDirectory m) (a + of_nat i) m = Some p \<and> pg_present (page_at p m) \<and>
       frame_used m (page_frame m p) \<and> page_frame m p \<notin> heap_frames lo hi m \<and>
       mc_frame mc (pg_pageAddress (page_at p m)) (unat ((a + of_nat i) mod 0x1000)) = img ! i)"

lemma image_read:
  assumes "image_mapped lo hi a img mc" and "m_activeDirectory (mc_memory mc) = m_kernelDirectory (mc_memory mc)"
  shows "virt_block (m_activeDirectory (mc_memory mc)) a (length img) mc = Inr img"
proof -
  have "map (\<lambda>i. user_byte (m_activeDirectory (mc_memory mc)) (a + of_nat i) mc) [0..<length img] = map Some img"
  proof (rule nth_equalityI)
    fix i assume "i < length (map (\<lambda>i. user_byte (m_activeDirectory (mc_memory mc)) (a + of_nat i) mc) [0..<length img])"
    then have i: "i < length img" by simp
    with assms(1) obtain p where "lookup_page (m_kernelDirectory (mc_memory mc)) (a + of_nat i) (mc_memory mc) = Some p"
      "pg_present (page_at p (mc_memory mc))"
      "mc_frame mc (pg_pageAddress (page_at p (mc_memory mc))) (unat ((a + of_nat i) mod 0x1000)) = img ! i"
      unfolding image_mapped_def Let_def by blast
    then show "map (\<lambda>i. user_byte (m_activeDirectory (mc_memory mc)) (a + of_nat i) mc) [0..<length img] ! i = map Some img ! i"
      using i assms(2) by (simp add: user_byte_def Let_def)
  qed simp
  then show ?thesis by (auto simp: virt_block_def Let_def o_def)
qed

lemma image_kept:
  assumes "image_mapped lo hi a img mc" and "mem_ready lo hi s j n (mc_memory mc)" and "map_kept (mc_memory mc) (mc_memory mc')"
    and "frames_kept lo hi (free_frames (mc_memory mc)) mc mc'"
  shows "image_mapped lo hi a img mc'"
  unfolding image_mapped_def Let_def
proof (intro allI impI)
  fix i assume i: "i < length img"
  let ?m = "mc_memory mc" and ?m' = "mc_memory mc'" and ?a = "a + of_nat i :: u32"
  from assms(1) i obtain p where p: "lookup_page (m_kernelDirectory ?m) ?a ?m = Some p" "pg_present (page_at p ?m)"
    "frame_used ?m (page_frame ?m p)" "page_frame ?m p \<notin> heap_frames lo hi ?m"
    "mc_frame mc (pg_pageAddress (page_at p ?m)) (unat (?a mod 0x1000)) = img ! i"
    unfolding image_mapped_def Let_def by blast
  have ok: "kernel_dir_ok ?m" "heap_mapped lo hi ?m" using assms(2) by (simp_all add: mem_ready_def)
  note l = map_kept_lookup [OF assms(3) p(1) ok(1)] and h = map_kept_heap_frames [OF assms(3) ok]
  have "page_frame ?m p \<notin> free_frames ?m" using p(3) by (simp add: free_frames_def)
  moreover have "unat (?a mod 0x1000) < 4096" by (simp add: unat_mod)
  ultimately have "mc_frame mc' (pg_pageAddress (page_at p ?m)) (unat (?a mod 0x1000)) = img ! i"
    using assms(4) p(4,5) unfolding frames_kept_def by simp
  moreover have "frame_used ?m' (page_frame ?m p)" using assms(3) p(3) by (simp add: map_kept_def Let_def)
  ultimately show "\<exists>p. lookup_page (m_kernelDirectory ?m') ?a ?m' = Some p \<and> pg_present (page_at p ?m') \<and>
       frame_used ?m' (page_frame ?m' p) \<and> page_frame ?m' p \<notin> heap_frames lo hi ?m' \<and>
       mc_frame mc' (pg_pageAddress (page_at p ?m')) (unat (?a mod 0x1000)) = img ! i"
    using p(2,4) l h by (intro exI [of _ p]) simp
qed

section \<open>Each part of the start\<close>

definition start_ok :: "nat \<Rightarrow> nat \<Rightarrow> nat \<Rightarrow> nat \<Rightarrow> nat \<Rightarrow> (u32 \<times> bytes) set \<Rightarrow> machine \<Rightarrow> bool" where
  "start_ok lo hi s j n imgs mc \<longleftrightarrow> (let m = mc_memory mc; t = pd_tables (m_dir m (m_kernelDirectory m)) in
     mem_ready lo hi s j n m \<and> t 128 = None \<and> t 319 = None \<and> m_activeDirectory m = m_kernelDirectory m \<and>
     (\<forall>(a, img) \<in> imgs. image_mapped lo hi a img mc))"

lemma start_ok_cong: "mc_memory mc' = mc_memory mc \<Longrightarrow> mc_frame mc' = mc_frame mc \<Longrightarrow> start_ok lo hi s j n imgs mc' = start_ok lo hi s j n imgs mc"
  by (simp add: start_ok_def image_mapped_def)

lemma start_ok_kernel [simp]:
  "start_ok lo hi s j n imgs (mc\<lparr>mc_kernel := k\<rparr>) = start_ok lo hi s j n imgs mc"
  "start_ok lo hi s j n imgs (link_task a b mc) = start_ok lo hi s j n imgs mc"
  "start_ok lo hi s j n imgs (boot_name name t mc) = start_ok lo hi s j n imgs mc"
  by (rule start_ok_cong; simp add: link_task_def on_task_def boot_name_def)+

lemma start_ok_step:
  assumes "start_ok lo hi s j n imgs mc" and "mem_ready lo hi s' j' n' (mc_memory mc')"
    and "map_kept (mc_memory mc) (mc_memory mc')" and "frames_kept lo hi (free_frames (mc_memory mc)) mc mc'"
  shows "start_ok lo hi s' j' n' imgs mc'"
proof -
  have "image_mapped lo hi a img mc'" if "(a, img) \<in> imgs" for a img
    using assms(1) that by (intro image_kept [OF _ _ assms(3,4)]) (auto simp: start_ok_def Let_def)
  with assms show ?thesis by (auto simp: start_ok_def map_kept_def Let_def)
qed

lemma same_frames_kept: "mc_frame mc' = mc_frame mc \<Longrightarrow> frames_kept lo hi F mc mc'"
  by (simp add: frames_kept_def)

lemma CreateTask_start:
  assumes "start_ok lo hi (task_room + s) (task_places + j) (task_frames + n) imgs mc" and "0 < s"
    and "cpl > 0 \<Longrightarrow> argv_size args \<le> 4096"
  obtains mc' where "CreateTask e cpl fl iopl (m_kernelDirectory (mc_memory mc)) name args mc = Inr (k_count (mc_kernel mc), mc')"
    and "start_ok lo hi s j n imgs mc'"
proof -
  let ?m = "mc_memory mc"
  have r: "mem_ready lo hi (task_room + s) (task_places + j) (task_frames + n) ?m"
    "pd_tables (m_dir ?m (m_kernelDirectory ?m)) 128 = None" "pd_tables (m_dir ?m (m_kernelDirectory ?m)) 319 = None"
    using assms(1) by (simp_all add: start_ok_def Let_def)
  show thesis
  proof (rule CreateTask_ready [OF r(1) assms(2) r(2,3) assms(3)])
    fix mc' :: machine
    assume run: "CreateTask e cpl fl iopl (m_kernelDirectory ?m) name args mc = Inr (k_count (mc_kernel mc), mc')"
      and ok: "mem_ready lo hi s j n (mc_memory mc')" "other_tasks_kept ?m (mc_memory mc')" "frames_kept lo hi (free_frames ?m) mc mc'"
    have "kernel_dir_ok ?m" using r(1) by (simp add: mem_ready_def)
    then show thesis by (intro that [OF run] start_ok_step [OF assms(1) ok(1) _ ok(3)] map_kept_other ok)
  qed auto
qed

text \<open>A module whose image is no ELF image.\<close>

definition bad_module :: "(u32 \<times> bytes) set \<Rightarrow> loaded_module \<Rightarrow> bool" where
  "bad_module imgs m \<longleftrightarrow> (\<exists>img. (lm_module m, img) \<in> imgs \<and> length img = unat (lm_module_len m) \<and> elf_magic ELF_MAGIC img = Inr False) \<and>
     argv_size (case lm_args m of None \<Rightarrow> [] | Some a \<Rightarrow> a) \<le> 4096"

lemma boot_service_start:
  assumes "start_ok lo hi (task_room + s) (task_places + j) (task_frames + n) imgs mc" and "0 < s"
    and "module_by_name (cstr loc) ms = Inr (Some m)" and "bad_module imgs m"
  obtains mc' where "boot_service ms loc mc = Inr (k_count (mc_kernel mc), mc')" and "start_ok lo hi s j n imgs mc'"
proof -
  from assms(4) obtain img where img: "(lm_module m, img) \<in> imgs" "length img = unat (lm_module_len m)"
    "elf_magic ELF_MAGIC img = Inr False" "argv_size (case lm_args m of None \<Rightarrow> [] | Some a \<Rightarrow> a) \<le> 4096"
    by (auto simp: bad_module_def)
  obtain mc1 where c: "CreateTask 0 3 True 0 (m_kernelDirectory (mc_memory mc)) loc (case lm_args m of None \<Rightarrow> [] | Some a \<Rightarrow> a) mc =
      Inr (k_count (mc_kernel mc), mc1)" and ok: "start_ok lo hi s j n imgs mc1"
    by (rule CreateTask_start [OF assms(1,2) img(4)]) (rule that)
  have "image_mapped lo hi (lm_module m) img mc1" "m_activeDirectory (mc_memory mc1) = m_kernelDirectory (mc_memory mc1)"
    using ok img(1) by (auto simp: start_ok_def Let_def)
  from image_read [OF this] have "boot_service ms loc mc = Inr (k_count (mc_kernel mc), mc1)"
    using c img(3) by (simp add: boot_service_def assms(3) img(2) [symmetric] loadImageInto_def)
  with ok that show thesis by blast
qed

lemma boot_base_start:
  assumes "start_ok lo hi (24578 + s) (4 + j) n imgs mc" and "0 < s"
  obtains mc' where "boot_base mc = Inr (k_count (mc_kernel mc), mc')" and "start_ok lo hi s j n imgs mc'"
    and "m_kernelDirectory (mc_memory mc') = m_kernelDirectory (mc_memory mc)"
proof -
  let ?m = "mc_memory mc" and ?k = "mc_kernel mc"
  obtain k1 where nt: "task_new 3 ''initial task'' ?k = Inr (k_count ?k, k1)" using task_new_total by blast
  have sz: "unat USER_TASK_KERNEL_STACK_SIZE = 8192" "USER_TASK_KERNEL_STACK_SIZE \<noteq> 0" by (simp_all add: USER_TASK_KERNEL_STACK_SIZE_def)
  define s1 where "s1 = 8196 + 4095 + s"
  have r: "mem_ready lo hi (unat USER_TASK_KERNEL_STACK_SIZE + 4095 + s1) (2 + (2 + j)) n ?m"
    using assms(1) by (simp only: sz) (auto simp: start_ok_def Let_def s1_def elim: mem_ready_less)
  have lt: "unat USER_TASK_KERNEL_STACK_SIZE < 2147483648" "0 < s1" by (simp_all add: sz s1_def)
  obtain a ph h1 where al: "memory_allocAligned USER_TASK_KERNEL_STACK_SIZE False ?m = Inr (a, ph, ?m\<lparr>m_heap := Some h1\<rparr>)"
    and r1: "mem_ready lo hi s1 (2 + j) n (?m\<lparr>m_heap := Some h1\<rparr>)"
    using alloc_ready [OF r sz(2) lt, of False] by blast
  let ?m1 = "?m\<lparr>m_heap := Some h1\<rparr>"
  obtain m2 where cl: "PageDirectory_clone (m_kernelDirectory ?m1) ?m1 = Inr (m_ndirs ?m1, m2)" and r2: "mem_ready lo hi s j n m2"
    and same: "\<And>e. e \<noteq> m_ndirs ?m1 \<Longrightarrow> m_dir m2 e = m_dir ?m1 e" "m_table m2 = m_table ?m1" "m_frames m2 = m_frames ?m1"
      "m_kernelDirectory m2 = m_kernelDirectory ?m1" "m_activeDirectory m2 = m_activeDirectory ?m1"
    by (rule clone_ready [OF r1 [unfolded s1_def] assms(2)]) (rule that)
  have ok: "kernel_dir_ok ?m" using assms(1) by (simp add: start_ok_def mem_ready_def Let_def)
  have kept: "map_kept ?m m2"
    using same ok by (auto simp: map_kept_def Let_def page_at_def frame_used_def kernel_dir_ok_def)
  have "\<exists>k2. boot_base mc = Inr (k_count ?k, mc\<lparr>mc_memory := m2, mc_kernel := k2\<rparr>)"
    using nt al cl by (auto simp: boot_base_def BootstrapInitialTask_def Let_def)
  then obtain k2 where run: "boot_base mc = Inr (k_count ?k, mc\<lparr>mc_memory := m2, mc_kernel := k2\<rparr>)" by blast
  show thesis
    by (rule that [OF run]) (intro start_ok_step [OF assms(1) _ _ same_frames_kept], simp_all add: r2 kept same)
qed

lemma boot_stack_start:
  assumes "start_ok lo hi (16382 + s) (4 + j) (3 + n) imgs mc" and "0 < s"
    and "pd_tables (m_dir (mc_memory mc) (m_kernelDirectory (mc_memory mc))) 895 = None"
    and "pd_tables (m_dir (mc_memory mc) (m_kernelDirectory (mc_memory mc))) 896 = None"
  obtains m' where "alloc_pages (m_activeDirectory (mc_memory mc)) boot_stack_pages (mc_memory mc) = Inr m'"
    and "start_ok lo hi s j n imgs (mc\<lparr>mc_memory := m'\<rparr>)" and "m_kernelDirectory m' = m_kernelDirectory (mc_memory mc)"
proof -
  let ?m = "mc_memory mc" and ?as = "[0xE0000000] :: u32 list" and ?bs = "[0xDFFFF000, 0xDFFFE000] :: u32 list"
  let ?kd = "m_kernelDirectory ?m"
  have pages: "boot_stack_pages = ?as @ ?bs"
    by (simp add: boot_stack_pages_def UKERNEL_STACK_POS_def UKERNEL_STACK_SIZE_def upt_rec)
  have idx: "\<forall>a \<in> set ?as. page_table_index a = 896" "\<forall>a \<in> set ?bs. page_table_index a = 895"
    "distinct (map page_entry ?as)" "distinct (map page_entry ?bs)" "?as \<noteq> []" "?bs \<noteq> []"
    by (simp_all add: page_table_index_def page_entry_def)
  have r: "mem_ready lo hi (4096 + 4095 + (4096 + 4095 + s)) (2 + (2 + j)) (length ?as + (length ?bs + n)) ?m"
    using assms(1) by (auto simp: start_ok_def Let_def elim!: mem_ready_less)
  have ok: "kernel_dir_ok ?m" using r by (simp add: mem_ready_def)
  obtain m1 where m1: "alloc_pages ?kd ?as ?m = Inr m1" "mem_ready lo hi (4096 + 4095 + s) (2 + j) (length ?bs + n) m1"
    "new_pages ?kd 896 ?as ?m m1"
    by (rule new_pages_ready [OF r _ idx(5) assms(4) idx(1,3)]) (simp, rule that)
  have kd1: "m_kernelDirectory m1 = ?kd" "m_ntables ?m \<le> m_ntables m1" "pd_tables (m_dir m1 ?kd) 895 = None"
    using m1(3) assms(3) by (simp_all add: new_pages_def)
  obtain m2 where m2: "alloc_pages ?kd ?bs m1 = Inr m2" "mem_ready lo hi s j n m2" "new_pages ?kd 895 ?bs m1 m2"
    by (rule new_pages_ready [OF m1(2) assms(2) idx(6) kd1(3) idx(2,4)])
  have "map_kept ?m m1" using m1(3) assms(4) by (rule map_kept_new_pages) simp_all
  moreover have "map_kept m1 m2" by (rule map_kept_new_pages [of _ 895 ?bs]) (simp_all add: m2(3) kd1)
  ultimately have kept: "map_kept ?m m2" using kd1(2) by (rule map_kept_trans)
  have "alloc_pages (m_activeDirectory ?m) boot_stack_pages ?m = Inr m2"
    using assms(1) m1(1) m2(1) by (auto simp: pages alloc_pages_def start_ok_def Let_def rbind_eq_Inr)
  moreover have "start_ok lo hi s j n imgs (mc\<lparr>mc_memory := m2\<rparr>)"
    by (rule start_ok_step [OF assms(1) _ _ same_frames_kept]) (simp_all add: m2(2) kept)
  moreover have "m_kernelDirectory m2 = ?kd" using kept by (simp add: map_kept_def Let_def)
  ultimately show thesis by (rule that)
qed

lemma rights_total: "\<exists>mc'. give_rights ata_rights t mc = Inr mc'" "\<exists>mc'. give_rights init_rights t mc = Inr mc'"
  by (simp_all add: give_rights_def ata_rights_def init_rights_def grantPrivilege_def PRIV_COUNT_def PRIV_IRQ_def PRIV_PHYSADDR_def
      PRIV_REGISTER_NAME_def PRIV_GRANT_PRIV_def)

lemma rights_start: "give_rights f t mc = Inr mc' \<Longrightarrow> start_ok lo hi s j n imgs mc' = start_ok lo hi s j n imgs mc"
  by (auto simp: give_rights_def rbind_eq_Inr on_task_def)

section \<open>The start\<close>

definition start_room :: nat where "start_room = 286716"
definition start_places :: nat where "start_places = 58"
definition start_frames :: nat where "start_frames = 3863"

text \<open>The four services that boot starts.\<close>

definition services :: "string list" where
  "services = [MODULE_ATA_LOCATION, MODULE_FAT_LOCATION, MODULE_VFS_LOCATION, MODULE_INIT_LOCATION]"

theorem AkariEntryCont_returns:
  assumes "start_ok lo hi start_room start_places start_frames imgs mc"
    and "pd_tables (m_dir (mc_memory mc) (m_kernelDirectory (mc_memory mc))) 895 = None"
    and "pd_tables (m_dir (mc_memory mc) (m_kernelDirectory (mc_memory mc))) 896 = None"
    and "split_modules modules = Inr ms"
    and "\<forall>loc \<in> set services. \<exists>m. module_by_name (cstr loc) ms = Inr (Some m) \<and> bad_module imgs m"
  shows "\<exists>mc'. AkariEntryCont idle_entry modules mc = Inr mc'"
proof -
  define sz pl fr where "sz = (\<lambda>k. k * task_room + 1)" and "pl = (\<lambda>k. k * task_places)" and "fr = (\<lambda>k. k * task_frames)"
  define ok where "ok = (\<lambda>k. start_ok lo hi (sz k) (pl k) (fr k) imgs)"
  let ?kd = "m_kernelDirectory (mc_memory mc)"
  have next_ok: "start_ok lo hi (task_room + sz k) (task_places + pl k) (task_frames + fr k) imgs mc" if "ok (Suc k) mc" for k mc
    using that by (simp add: ok_def sz_def pl_def fr_def)
  have pos: "0 < sz k" for k by (simp add: sz_def)
  have service: "\<exists>t mc'. boot_service ms loc mc = Inr (t, mc') \<and> ok k mc'" if "ok (Suc k) mc" "loc \<in> set services" for loc k mc
  proof -
    from assms(5) that(2) obtain m where "module_by_name (cstr loc) ms = Inr (Some m)" "bad_module imgs m" by blast
    from boot_service_start [OF next_ok [OF that(1)] pos this] show ?thesis unfolding ok_def by blast
  qed
  have same: "ok k (link_task a b mc) = ok k mc" "ok k (boot_name name t mc) = ok k mc"
    "give_rights f t mc = Inr mc' \<Longrightarrow> ok k mc' = ok k mc" for k a b name t f mc mc'
    using rights_start by (simp_all add: ok_def)
  have loc: "MODULE_ATA_LOCATION \<in> set services" "MODULE_FAT_LOCATION \<in> set services" "MODULE_VFS_LOCATION \<in> set services"
    "MODULE_INIT_LOCATION \<in> set services" by (simp_all add: services_def)
  have act: "m_activeDirectory (mc_memory mc) = ?kd" using assms(1) by (simp add: start_ok_def Let_def)
  have "start_ok lo hi (16382 + (24578 + sz 5)) (4 + (4 + pl 5)) (3 + fr 5) imgs mc"
    using assms(1) by (simp add: start_room_def start_places_def start_frames_def sz_def pl_def fr_def task_room_def task_places_def task_frames_def)
  then obtain m1 where m1: "alloc_pages (m_activeDirectory (mc_memory mc)) boot_stack_pages (mc_memory mc) = Inr m1"
    "start_ok lo hi (24578 + sz 5) (4 + pl 5) (fr 5) imgs (mc\<lparr>mc_memory := m1\<rparr>)" "m_kernelDirectory m1 = ?kd"
    by (rule boot_stack_start [OF _ _ assms(2,3)]) (simp, rule that)
  obtain b mc1 where b: "boot_base (mc\<lparr>mc_memory := m1\<rparr>) = Inr (b, mc1)" "ok 5 mc1"
    and kd1: "m_kernelDirectory (mc_memory mc1) = ?kd"
    by (rule boot_base_start [OF m1(2) pos]) (rule that, unfold ok_def, assumption, simp_all add: m1(3))
  have ok5: "ok (Suc 4) mc1" using b(2) by simp
  obtain idle mc2 where idle: "CreateTask idle_entry 0 True 0 ?kd ''idle'' [] mc1 = Inr (idle, mc2)" "ok 4 mc2"
    by (rule CreateTask_start [OF next_ok [OF ok5] pos, where cpl = 0 and args = "[]" and e = idle_entry and fl = True and
          iopl = 0 and name = "''idle''"]) (simp, rule that, simp_all add: kd1 ok_def)
  obtain ata mc3 where ata: "boot_service ms MODULE_ATA_LOCATION (link_task b idle mc2) = Inr (ata, mc3)" "ok 3 mc3"
    using service [of 3 "link_task b idle mc2", OF _ loc(1)] idle(2) by (auto simp: same)
  obtain mc4 where mc4: "give_rights ata_rights ata (boot_name ''system.io.ata'' ata mc3) = Inr mc4" using rights_total by blast
  then have ok4: "ok 3 mc4" using ata(2) by (simp add: same)
  obtain fat mc5 where fat: "boot_service ms MODULE_FAT_LOCATION (link_task idle ata mc4) = Inr (fat, mc5)" "ok 2 mc5"
    using service [of 2 "link_task idle ata mc4", OF _ loc(2)] ok4 by (auto simp: same)
  obtain vfs mc6 where vfs: "boot_service ms MODULE_VFS_LOCATION (link_task ata fat (boot_name ''system.io.fs.fat'' fat mc5)) = Inr (vfs, mc6)"
    "ok 1 mc6" using service [of 1 "link_task ata fat (boot_name ''system.io.fs.fat'' fat mc5)", OF _ loc(3)] fat(2)
    by (auto simp: same numeral_2_eq_2)
  obtain init mc7 where init: "boot_service ms MODULE_INIT_LOCATION (link_task fat vfs (boot_name ''system.io.vfs'' vfs mc6)) = Inr (init, mc7)"
    using service [of 0 "link_task fat vfs (boot_name ''system.io.vfs'' vfs mc6)", OF _ loc(4)] vfs(2) by (auto simp: same)
  obtain mc8 where mc8: "give_rights init_rights init mc7 = Inr mc8" using rights_total by blast
  show ?thesis
    by (simp add: AkariEntryCont_def Let_def act m1(1) [unfolded act] assms(4) b(1) idle(1) ata(1) mc4 fat(1) vfs(1) init mc8)
qed

end
