(* ===== verification/BootExamples.thy ===== *)
theory BootExamples
  imports BootReady BootModules KernelExamples
begin

text \<open>
  A kernel with an empty megabyte of heap and 128 MiB of memory, on which the making of a process and the start of the
  first tasks run to their end.
\<close>

section \<open>The memory\<close>

definition ready_heap :: heap where
  "ready_heap = \<lparr>h_index = \<lparr>oa_cells = (\<lambda>_. \<lparr>e_start = 0xC0000000, e_size = 0x100000, isHole = True\<rparr>), oa_size = 1,
       oa_maxSize = 256\<rparr>,
     h_start = 0xC0000000, h_end = 0xC0100000, h_max = 0xC0100000, h_used = 0, h_supervisor = False, h_readonly = True\<rparr>"

definition ready_memory :: memory where
  "ready_memory = \<lparr>m_upperMemory = 0x1FC00, m_placementAddress = 0, m_frames = (\<lambda>i. if i < 16 then 0xFFFFFFFF else 0),
     m_frameCount = 0x8000, m_heap = Some ready_heap,
     m_table = (\<lambda>t i. if t = 0 \<and> i < 256 then zero_page\<lparr>pg_present := True, pg_pageAddress := of_nat i + 1\<rparr> else zero_page),
     m_ntables = 1,
     m_dir = (\<lambda>_. \<lparr>pd_tables = (\<lambda>i. if i = 768 then Some 0 else None), pd_tablePhysicals = (\<lambda>_. 0), pd_physicalAddr = 0\<rparr>),
     m_ndirs = 1, m_kernelDirectory = 0, m_activeDirectory = 0,
     m_garbage = (\<lambda>_. \<lparr>e_start = 0, e_size = 0, isHole = False\<rparr>)\<rparr>"

definition ready_machine :: machine where
  "ready_machine = \<lparr>mc_kernel = demo_kernel\<lparr>k_count := 0, k_start := None, k_lastPid := 0, k_byPid := []\<rparr>,
     mc_memory = ready_memory, mc_frame = (\<lambda>_ _. 0)\<rparr>"

lemma ready_heap_facts: "heap_wf 0xC0000000 ready_heap" "has_room 0x100000 255 ready_heap" "unat (h_end ready_heap) = 0xC0100000"
proof -
  have l: "oa_list (h_index ready_heap) = [\<lparr>e_start = 0xC0000000, e_size = 0x100000, isHole = True\<rparr>]"
    by (simp add: oa_list_def ready_heap_def)
  show "heap_wf 0xC0000000 ready_heap" by (rule heap_wf_chain, unfold l) (simp add: ready_heap_def)
  show "has_room 0x100000 255 ready_heap" by (simp add: has_room_def holes_def heap_entries_def l) (simp add: ready_heap_def)
  show "unat (h_end ready_heap) = 0xC0100000" by (simp add: ready_heap_def)
qed

lemma ready_frames: "frame_used ready_memory f \<longleftrightarrow> f < 512" "free_frames ready_memory = {512..<32768}"
proof -
  show u: "frame_used ready_memory f \<longleftrightarrow> f < 512" for f
  proof -
    have "(0xFFFFFFFF :: u32) = - 1" by simp
    then have "bit (0xFFFFFFFF :: u32) (f mod 32)" by (simp only: bit_minus_1_iff) (simp add: possible_bit_word)
    moreover have "f div 32 < 16 \<longleftrightarrow> f < 512" by auto
    ultimately show ?thesis by (simp add: frame_used_def ready_memory_def)
  qed
  have "frame_limit ready_memory = 32768" by (simp add: frame_limit_def ready_memory_def)
  then show "free_frames ready_memory = {512..<32768}" by (auto simp: free_frames_def u)
qed

lemma ready_lookup:
  assumes "0xC0000000 \<le> unat a" and "unat a < 0xC0100000"
  obtains e where "e < 256" and "lookup_page 0 a ready_memory = Some (0, e)"
proof -
  have "unat a div 4194304 = 768" by (rule div_nat_eqI) (use assms in simp_all)
  then have "unat a div 4096 div 1024 = 768" by (simp flip: div_mult2_eq)
  then have i: "page_table_index a = 768" by (simp add: page_table_index_def unat_div)
  define b where "b = unat a div 4096"
  have "786432 \<le> b" "b < 786688" using assms by (auto simp: b_def)
  then obtain e where "b = 786432 + e" using le_Suc_ex by blast
  moreover from this have "e < 256" using \<open>b < 786688\<close> by simp
  moreover have "(e + 768 * 1024) mod 1024 = e mod 1024" by (rule mod_mult_self1)
  moreover have "page_entry a = b mod 1024" by (simp add: page_entry_def unat_mod unat_div b_def)
  ultimately have e: "page_entry a = e" "e < 256" by (simp_all add: add.commute)
  then show thesis using that i by (simp add: lookup_page_entry ready_memory_def)
qed

lemma ready_page: "e < 256 \<Longrightarrow> page_frame ready_memory (0, e) = e + 1"
  by (simp add: page_at_def ready_memory_def unat_word_ariths unat_of_nat take_bit_nat_eq_self)

lemma ready_mapped: "heap_mapped 0xC0000000 0xC0100000 ready_memory"
  unfolding heap_mapped_def
proof (intro allI impI)
  fix a :: u32
  assume a: "0xC0000000 \<le> unat a \<and> unat a < 0xC0100000"
  then obtain e where e: "e < 256" "lookup_page 0 a ready_memory = Some (0, e)" using ready_lookup by blast
  have "frame_used ready_memory (page_frame ready_memory (0, e))" using e(1) by (simp only: ready_frames(1) ready_page)
  moreover have "m_kernelDirectory ready_memory = 0" by (simp add: ready_memory_def)
  ultimately show "\<exists>p. lookup_page (m_kernelDirectory ready_memory) a ready_memory = Some p \<and>
      frame_used ready_memory (page_frame ready_memory p)" using e(2) by simp
qed

lemma ready_memory_ready:
  assumes "s \<le> 0x100000" and "j \<le> 255" and "n \<le> 32256"
  shows "mem_ready 0xC0000000 0xC0100000 s j n ready_memory"
proof -
  have "mem_ready 0xC0000000 0xC0100000 0x100000 255 32256 ready_memory"
    unfolding mem_ready_def ready_frames(2)
    using ready_heap_facts ready_mapped ready_frames(1) [of 0]
    by (simp add: kernel_dir_ok_def dir_ok_def frames_ok_def) (simp add: ready_memory_def)
  then show ?thesis using assms by (rule mem_ready_less)
qed


section \<open>A module\<close>

text \<open>One module of two bytes at 1 MiB, behind its entry in the table and its command line.\<close>

definition module_bytes :: bytes where
  "module_bytes = put_u32 0x100012 @ put_u32 0x100014 @ put_u32 0x100010 @ put_u32 0 @ [97, 0, 7, 8]"

definition module_machine :: machine where
  "module_machine = ready_machine\<lparr>mc_memory := ready_memory\<lparr>m_placementAddress := 0x200000\<rparr>,
     mc_frame := (\<lambda>f i. if f = 0x100 \<and> i < 20 then module_bytes ! i else 0)\<rparr>"

lemma module_machine_byte:
  assumes "i < 20"
  shows "phys_byte (mc_frame module_machine) (0x100000 + of_nat i) = module_bytes ! i"
  using frame_byte(1) [of i "mc_frame module_machine" "0x100"] assms by (simp add: module_machine_def)

lemma module_machine_bytes:
  "phys_byte (mc_frame module_machine) 0x100010 = 97" "phys_byte (mc_frame module_machine) 0x100011 = 0"
  "phys_block 0x100012 2 module_machine = [7, 8]" "phys_block 0x100000 16 module_machine = take 16 module_bytes"
proof -
  note b = module_machine_byte
  have l: "length module_bytes = 20" by (simp add: module_bytes_def put_u32_def)
  have v: "module_bytes ! 16 = 97" "module_bytes ! 17 = 0" "module_bytes ! 18 = 7" "module_bytes ! 19 = 8"
    by (simp_all add: module_bytes_def put_u32_def)
  show "phys_byte (mc_frame module_machine) 0x100010 = 97" using b [of 16] v by simp
  show "phys_byte (mc_frame module_machine) 0x100011 = 0" using b [of 17] v by simp
  show "phys_block 0x100012 2 module_machine = [7, 8]" using b [of 18] b [of 19] v by (simp add: phys_block_def upt_rec)
  show "phys_block 0x100000 16 module_machine = take 16 module_bytes"
    by (rule nth_equalityI) (simp_all add: phys_block_def l b)
qed

theorem load_modules_copies_witness:
  "\<exists>m mc'. load_modules 48 1 0x100000 module_machine = Inr ([m], mc') \<and> lm_name m = [97, 0] \<and> lm_module_len m = 2 \<and>
     phys_block (lm_module m) 2 mc' = [7, 8] \<and> unat (m_placementAddress (mc_memory mc')) = 0x200044"
proof -
  let ?s = "(0x100012, 2, [97], 0x100010) :: boot_module"
  have g: "get_u32 (take 16 module_bytes) 0 = Inr 0x100012" "get_u32 (take 16 module_bytes) 4 = Inr 0x100014"
    "get_u32 (take 16 module_bytes) 8 = Inr 0x100010"
    by (simp_all add: module_bytes_def put_u32_def get_u32_def)
  have at: "modules_at module_machine 0x100000 [?s]"
    using module_machine_bytes g by (simp add: module_at_def)
  have p: "m_placementAddress (mc_memory module_machine) = 0x200000" by (simp add: module_machine_def ready_machine_def)
  have "\<not> below (unat (0x200000 :: u32)) (unat (0x200000 :: u32) + module_room 48 [?s]) a" if "a \<in> boot_bytes 0x100000 [?s]" for a
  proof -
    from that obtain i where "a = 0x100000 + of_nat i" "i < 20"
    proof (simp, elim disjE imageE)
      fix x assume "a = 0x100000 + word_of_nat x" "x \<in> {..<16}"
      then show thesis using that [of x] by simp
    next
      fix x assume "a = 0x100012 + word_of_nat x" "x \<in> {..<2}"
      then show thesis using that [of "18 + x"] by (simp add: add.assoc)
    next
      fix x assume "a = 0x100010 + word_of_nat x" "x \<in> {..Suc 0}"
      then show thesis using that [of "16 + x"] by (simp add: add.assoc)
    qed
    then show ?thesis using unat_place [of "0x100000" i] by (simp add: below_def)
  qed
  from load_modules_copies [OF at p _ _ this] show ?thesis
    using module_machine_bytes(3) by (auto simp: list_all2_Cons2)
qed

section \<open>The start of the first tasks\<close>

text \<open>The frames below 2 MiB are mapped to themselves; the modules are one byte at \<open>0x190000\<close>.\<close>

definition boot_memory :: memory where
  "boot_memory = ready_memory\<lparr>m_table := (m_table ready_memory)(1 := (\<lambda>i. zero_page\<lparr>pg_present := True, pg_pageAddress := of_nat i\<rparr>)),
     m_ntables := 2, m_dir := (\<lambda>_. \<lparr>pd_tables = (\<lambda>i. if i = 768 then Some 0 else if i = 0 then Some 1 else None),
       pd_tablePhysicals = (\<lambda>_. 0), pd_physicalAddr = 0\<rparr>)\<rparr>"

definition boot_machine :: machine where
  "boot_machine = ready_machine\<lparr>mc_memory := boot_memory\<rparr>"

definition boot_modules :: "loaded_module list" where
  "boot_modules = map (\<lambda>loc. \<lparr>lm_name = cstr loc, lm_module = 0x190000, lm_args = None, lm_module_len = 1\<rparr>) services"

lemma boot_memory_kept: "map_kept ready_memory boot_memory"
  by (auto simp: map_kept_def Let_def boot_memory_def ready_memory_def page_at_def frame_used_def)

lemma boot_memory_fields:
  "m_heap boot_memory = m_heap ready_memory" "m_frames boot_memory = m_frames ready_memory"
  "m_frameCount boot_memory = m_frameCount ready_memory" "m_placementAddress boot_memory = m_placementAddress ready_memory"
  "m_kernelDirectory boot_memory = 0" "m_activeDirectory boot_memory = 0" "m_kernelDirectory ready_memory = 0"
  by (simp_all add: boot_memory_def ready_memory_def)

lemma boot_memory_ready:
  assumes "s \<le> 0x100000" and "j \<le> 255" and "n \<le> 32256"
  shows "mem_ready 0xC0000000 0xC0100000 s j n boot_memory"
proof -
  have r: "mem_ready 0xC0000000 0xC0100000 s j n ready_memory" by (rule ready_memory_ready [OF assms])
  then have ok: "kernel_dir_ok ready_memory" by (simp add: mem_ready_def)
  have fr: "frame_used boot_memory f = frame_used ready_memory f" "free_frames boot_memory = free_frames ready_memory"
    "frames_ok boot_memory = frames_ok ready_memory" for f
    by (simp_all add: frame_used_def free_frames_def frame_limit_def frames_ok_def boot_memory_fields)
  have "heap_mapped 0xC0000000 0xC0100000 boot_memory" unfolding heap_mapped_def fr
  proof (intro allI impI)
    fix a :: u32
    assume "0xC0000000 \<le> unat a \<and> unat a < 0xC0100000"
    with ready_mapped obtain p where p: "lookup_page (m_kernelDirectory ready_memory) a ready_memory = Some p"
      "frame_used ready_memory (page_frame ready_memory p)" unfolding heap_mapped_def by blast
    from map_kept_lookup [OF boot_memory_kept p(1) ok] p(2)
    show "\<exists>p. lookup_page (m_kernelDirectory boot_memory) a boot_memory = Some p \<and> frame_used ready_memory (page_frame boot_memory p)"
      by auto
  qed
  moreover have "kernel_dir_ok boot_memory" by (simp add: kernel_dir_ok_def dir_ok_def boot_memory_def ready_memory_def)
  ultimately show ?thesis using r fr unfolding mem_ready_def by (simp add: boot_memory_fields)
qed

lemma boot_heap_frames: "400 \<notin> heap_frames 0xC0000000 0xC0100000 boot_memory"
proof
  assume "400 \<in> heap_frames 0xC0000000 0xC0100000 boot_memory"
  moreover have "kernel_dir_ok ready_memory" using ready_memory_ready [of 0 0 0] by (simp add: mem_ready_def)
  ultimately have "400 \<in> heap_frames 0xC0000000 0xC0100000 ready_memory"
    using map_kept_heap_frames [OF boot_memory_kept _ ready_mapped] by simp
  then obtain p a where "400 = page_frame ready_memory p" "0xC0000000 \<le> unat a" "unat a < 0xC0100000"
    "lookup_page 0 a ready_memory = Some p" unfolding heap_frames_def boot_memory_fields by blast
  moreover from this(2,3) obtain e where "e < 256" "lookup_page 0 a ready_memory = Some (0, e)" by (rule ready_lookup)
  ultimately show False using ready_page [of e] by simp
qed

lemma boot_image: "image_mapped 0xC0000000 0xC0100000 0x190000 [0] boot_machine"
proof -
  have l: "lookup_page 0 0x190000 boot_memory = Some (1, 400)"
    by (simp add: lookup_page_def Let_def boot_memory_def)
  have p: "pg_present (page_at (1, 400) boot_memory)" "page_frame boot_memory (1, 400) = 400"
    by (simp_all add: page_at_def boot_memory_def)
  have "frame_used boot_memory 400 = frame_used ready_memory 400" by (simp add: frame_used_def boot_memory_fields)
  then have "frame_used boot_memory 400" by (simp add: ready_frames(1))
  then show ?thesis using l p boot_heap_frames
    by (simp add: image_mapped_def Let_def boot_machine_def boot_memory_fields) (simp add: ready_machine_def)
qed

lemma boot_start: "start_ok 0xC0000000 0xC0100000 start_room start_places start_frames {(0x190000, [0])} boot_machine"
proof -
  have "mem_ready 0xC0000000 0xC0100000 start_room start_places start_frames boot_memory"
    by (rule boot_memory_ready) (simp_all add: start_room_def start_places_def start_frames_def)
  then show ?thesis using boot_image
    by (simp add: start_ok_def Let_def boot_machine_def boot_memory_fields) (simp add: boot_memory_def)
qed

lemma words_one: "t \<noteq> [] \<Longrightarrow> \<forall>c \<in> set t. \<not> isspace c \<Longrightarrow> words t = [t]"
  using words_Cons [of t t] by (cases t) (simp_all add: words_Nil takeWhile_eq_all_conv [THEN iffD2] dropWhile_eq_Nil_conv [THEN iffD2])

lemma services_plain:
  assumes "loc \<in> set services"
  shows "cstring (cstr loc) (map of_char loc)" and "loc \<noteq> []" and "length loc + 1 < 2 ^ 32"
    and "\<forall>c \<in> set (map of_char loc). \<not> isspace c"
proof -
  have l: "loc \<in> {''/sys/services/ata'', ''/sys/services/fat'', ''/sys/services/vfs'', ''/bin/init''}"
    using assms by (auto simp: services_def MODULE_ATA_LOCATION_def MODULE_FAT_LOCATION_def MODULE_VFS_LOCATION_def MODULE_INIT_LOCATION_def)
  then show "cstring (cstr loc) (map of_char loc)" by (auto simp: cstring_def cstr_def)
  show "loc \<noteq> []" "length loc + 1 < 2 ^ 32" using l by auto
  show "\<forall>c \<in> set (map of_char loc). \<not> isspace c" using l by (elim insertE) (simp_all add: isspace_def)
qed

lemma boot_split: "split_modules boot_modules = Inr boot_modules"
proof -
  have "split_module \<lparr>lm_name = cstr loc, lm_module = 0x190000, lm_args = None, lm_module_len = 1\<rparr> =
      Inr \<lparr>lm_name = cstr loc, lm_module = 0x190000, lm_args = None, lm_module_len = 1\<rparr>" if "loc \<in> set services" for loc
    using that split_module_words [of "\<lparr>lm_name = cstr loc, lm_module = 0x190000, lm_args = None, lm_module_len = 1\<rparr>" "map of_char loc"]
      services_plain [OF that] words_one [of "map of_char loc"] by simp
  then show ?thesis by (simp add: boot_modules_def services_def)
qed

lemma boot_find: "loc \<in> set services \<Longrightarrow> module_by_name (cstr loc) boot_modules =
    Inr (Some \<lparr>lm_name = cstr loc, lm_module = 0x190000, lm_args = None, lm_module_len = 1\<rparr>)"
proof -
  assume "loc \<in> set services"
  then have "loc \<in> {''/sys/services/ata'', ''/sys/services/fat'', ''/sys/services/vfs'', ''/bin/init''}"
    by (auto simp: services_def MODULE_ATA_LOCATION_def MODULE_FAT_LOCATION_def MODULE_VFS_LOCATION_def MODULE_INIT_LOCATION_def)
  then show ?thesis
    unfolding boot_modules_def services_def MODULE_ATA_LOCATION_def MODULE_FAT_LOCATION_def MODULE_VFS_LOCATION_def MODULE_INIT_LOCATION_def
    by (elim insertE) (simp_all, code_simp+)
qed

theorem AkariEntryCont_tasks_witness:
  "\<exists>mc'. AkariEntryCont 0x123456 boot_modules boot_machine = Inr mc' \<and> task_list (mc_kernel mc') [0, 1, 2, 3, 4, 5] \<and>
     getIOMap 0x1F0 (k_task (mc_kernel mc') 2)"
proof -
  have "bad_module {(0x190000, [0])} \<lparr>lm_name = cstr loc, lm_module = 0x190000, lm_args = None, lm_module_len = 1\<rparr>" for loc
    by (simp add: bad_module_def argv_size_def ELF_MAGIC_def)
  with boot_find have svc: "\<forall>loc \<in> set services. \<exists>m. module_by_name (cstr loc) boot_modules = Inr (Some m) \<and> bad_module {(0x190000, [0])} m"
    by blast
  have "\<exists>mc'. AkariEntryCont 0x123456 boot_modules boot_machine = Inr mc'"
    by (rule AkariEntryCont_returns [OF boot_start _ _ boot_split svc]) (simp_all add: boot_machine_def boot_memory_def)
  then obtain mc' where run: "AkariEntryCont 0x123456 boot_modules boot_machine = Inr mc'" by blast
  have "boot_ready (mc_kernel boot_machine)" by (simp add: boot_ready_def boot_machine_def ready_machine_def demo_kernel_def)
  from AkariEntryCont_tasks [OF run this] run show ?thesis by (auto simp: Let_def ata_port_def)
qed

end
