(* ===== verification/Slist.thy ===== *)
theory Slist
  imports StdListProps
begin

text \<open>
  \<^verbatim>\<open>src/inc/slist\<close> and \<^verbatim>\<open>src/inc/algorithm\<close>: the list of the boot modules and of the wake events, nodes linked
  forwards. As for \<open>std::list\<close> an address without a node is null or was deleted, \<open>new\<close> is the allocator, and the loops
  take the number of nodes they may visit. An item and its node are made and deleted together.
\<close>

section \<open>Nodes\<close>

record 'a slist_node =
  sn_item :: 'a
  sn_next :: nat

type_synonym 'a slist_store = "nat \<Rightarrow> 'a slist_node option"

record 'a slist =
  ss_begin :: nat
  ss_nodes :: "'a slist_store"

definition slist_new :: "'a slist" where
  "slist_new = \<lparr>ss_begin = 0, ss_nodes = (\<lambda>_. None)\<rparr>"

definition snode_at :: "nat \<Rightarrow> 'a slist \<Rightarrow> 'a slist_node result" where
  "snode_at p l = (case ss_nodes l p of None \<Rightarrow> Inl NullDeref | Some n \<Rightarrow> Inr n)"

definition slist_iter_next :: "nat \<Rightarrow> 'a slist \<Rightarrow> nat result" where
  "slist_iter_next p l = rbind (snode_at p l) (\<lambda>n. Inr (sn_next n))"

definition slist_iter_item :: "nat \<Rightarrow> 'a slist \<Rightarrow> 'a result" where
  "slist_iter_item p l = rbind (snode_at p l) (\<lambda>n. Inr (sn_item n))"

text \<open>A place that points to a node: \<open>_begin\<close> or the \<open>next\<close> of a node.\<close>

definition read_head :: "list_link \<Rightarrow> 'a slist \<Rightarrow> nat result" where
  "read_head w l = (case w of AtBegin \<Rightarrow> Inr (ss_begin l) | AtNext p \<Rightarrow> slist_iter_next p l)"

definition write_head :: "list_link \<Rightarrow> nat \<Rightarrow> 'a slist \<Rightarrow> 'a slist result" where
  "write_head w q l =
     (case w of
        AtBegin \<Rightarrow> Inr (l\<lparr>ss_begin := q\<rparr>)
      | AtNext p \<Rightarrow> rbind (snode_at p l) (\<lambda>n. Inr (l\<lparr>ss_nodes := (ss_nodes l)(p \<mapsto> n\<lparr>sn_next := q\<rparr>)\<rparr>)))"

section \<open>Operations\<close>

fun slist_size_loop :: "nat \<Rightarrow> nat \<Rightarrow> u32 \<Rightarrow> 'a slist \<Rightarrow> u32 result" where
  "slist_size_loop 0 p len l = Inl Diverges"
| "slist_size_loop (Suc fuel) p len l =
     (if p = 0 then Inr len else rbind (slist_iter_next p l) (\<lambda>q. slist_size_loop fuel q (len + 1) l))"

definition slist_size :: "nat \<Rightarrow> 'a slist \<Rightarrow> u32 result" where
  "slist_size fuel l = slist_size_loop fuel (ss_begin l) 0 l"

definition slist_empty :: "'a slist \<Rightarrow> bool" where
  "slist_empty l \<longleftrightarrow> ss_begin l = 0"

fun tail_loop :: "nat \<Rightarrow> list_link \<Rightarrow> 'a slist \<Rightarrow> list_link result" where
  "tail_loop 0 writeHead l = Inl Diverges"
| "tail_loop (Suc fuel) writeHead l =
     rbind (read_head writeHead l) (\<lambda>p. if p = 0 then Inr writeHead else tail_loop fuel (AtNext p) l)"

definition slist_push_back :: "nat \<Rightarrow> ('a slist_store \<Rightarrow> nat) \<Rightarrow> 'a \<Rightarrow> 'a slist \<Rightarrow> 'a slist result" where
  "slist_push_back fuel new x l =
     rbind (tail_loop fuel AtBegin l) (\<lambda>writeHead.
     let a = new (ss_nodes l) in
     write_head writeHead a (l\<lparr>ss_nodes := (ss_nodes l)(a \<mapsto> \<lparr>sn_item = x, sn_next = 0\<rparr>)\<rparr>))"

definition slist_pop_front :: "'a slist \<Rightarrow> 'a slist result" where
  "slist_pop_front l =
     (let old = ss_begin l in
      rbind (snode_at old l) (\<lambda>n. Inr (l\<lparr>ss_begin := sn_next n, ss_nodes := (ss_nodes l)(old := None)\<rparr>)))"

fun slist_remove_loop :: "nat \<Rightarrow> 'a \<Rightarrow> list_link \<Rightarrow> 'a slist \<Rightarrow> 'a slist result" where
  "slist_remove_loop 0 x writeHead l = Inl Diverges"
| "slist_remove_loop (Suc fuel) x writeHead l =
     rbind (read_head writeHead l) (\<lambda>p.
     if p = 0 then Inr l
     else rbind (snode_at p l) (\<lambda>n.
       if sn_item n = x
       then rbind (write_head writeHead (sn_next n) l) (\<lambda>l1. Inr (l1\<lparr>ss_nodes := (ss_nodes l1)(p := None)\<rparr>))
       else slist_remove_loop fuel x (AtNext p) l))"

definition slist_remove :: "nat \<Rightarrow> 'a \<Rightarrow> 'a slist \<Rightarrow> 'a slist result" where
  "slist_remove fuel x l = slist_remove_loop fuel x AtBegin l"

fun slist_clear_loop :: "nat \<Rightarrow> nat \<Rightarrow> 'a slist \<Rightarrow> 'a slist result" where
  "slist_clear_loop 0 traverse l = Inl Diverges"
| "slist_clear_loop (Suc fuel) traverse l =
     (if traverse = 0 then Inr l
      else rbind (slist_iter_next traverse l) (\<lambda>q.
           slist_clear_loop fuel q (l\<lparr>ss_nodes := (ss_nodes l)(traverse := None)\<rparr>)))"

definition slist_clear :: "nat \<Rightarrow> 'a slist \<Rightarrow> 'a slist result" where
  "slist_clear fuel l = rbind (slist_clear_loop fuel (ss_begin l) l) (\<lambda>l1. Inr (l1\<lparr>ss_begin := 0\<rparr>))"

text \<open>Copies from a list, and from the items of a vector.\<close>

fun slist_copy_loop :: "nat \<Rightarrow> ('a slist_store \<Rightarrow> nat) \<Rightarrow> 'a slist \<Rightarrow> nat \<Rightarrow> 'a slist \<Rightarrow> 'a slist result" where
  "slist_copy_loop 0 new r p l = Inl Diverges"
| "slist_copy_loop (Suc fuel) new r p l =
     (if p = 0 then Inr l
      else rbind (slist_iter_item p r) (\<lambda>x. rbind (slist_push_back (Suc fuel) new x l) (\<lambda>l1.
           rbind (slist_iter_next p r) (\<lambda>q. slist_copy_loop fuel new r q l1))))"

definition slist_copy :: "nat \<Rightarrow> ('a slist_store \<Rightarrow> nat) \<Rightarrow> 'a slist \<Rightarrow> 'a slist result" where
  "slist_copy fuel new r = slist_copy_loop fuel new r (ss_begin r) slist_new"

definition slist_assign :: "nat \<Rightarrow> ('a slist_store \<Rightarrow> nat) \<Rightarrow> 'a slist \<Rightarrow> 'a slist \<Rightarrow> 'a slist result" where
  "slist_assign fuel new l r = rbind (slist_clear fuel l) (\<lambda>l1. slist_copy_loop fuel new r (ss_begin r) l1)"

definition slist_assign_self :: "nat \<Rightarrow> ('a slist_store \<Rightarrow> nat) \<Rightarrow> 'a slist \<Rightarrow> 'a slist result" where
  "slist_assign_self fuel new l = rbind (slist_clear fuel l) (\<lambda>l1. slist_copy_loop fuel new l1 (ss_begin l1) l1)"

definition slist_of_vector :: "nat \<Rightarrow> ('a slist_store \<Rightarrow> nat) \<Rightarrow> 'a list \<Rightarrow> 'a slist result" where
  "slist_of_vector fuel new r = for_each (slist_push_back fuel new) r slist_new"

text \<open>\<open>std::find\<close> on its iterators.\<close>

fun slist_find :: "nat \<Rightarrow> nat \<Rightarrow> nat \<Rightarrow> 'a \<Rightarrow> 'a slist \<Rightarrow> nat result" where
  "slist_find 0 first lst x l = Inl Diverges"
| "slist_find (Suc fuel) first lst x l =
     (if first = lst then Inr lst
      else rbind (slist_iter_item first l) (\<lambda>y.
           if y = x then Inr first else rbind (slist_iter_next first l) (\<lambda>q. slist_find fuel q lst x l)))"

section \<open>What a list holds\<close>

fun sseg :: "'a slist_store \<Rightarrow> nat \<Rightarrow> nat list \<Rightarrow> nat \<Rightarrow> 'a list \<Rightarrow> bool" where
  "sseg m p [] e xs \<longleftrightarrow> p = e \<and> xs = []"
| "sseg m p (a # ps) e xs \<longleftrightarrow> p = a \<and> a \<noteq> 0 \<and>
     (case xs of [] \<Rightarrow> False | y # ys \<Rightarrow> \<exists>n. m a = Some \<lparr>sn_item = y, sn_next = n\<rparr> \<and> sseg m n ps e ys)"

definition slist_rep :: "'a slist \<Rightarrow> nat list \<Rightarrow> 'a list \<Rightarrow> bool" where
  "slist_rep l ps xs \<longleftrightarrow> sseg (ss_nodes l) (ss_begin l) ps 0 xs \<and> distinct ps \<and> dom (ss_nodes l) = set ps"

definition slist_new_ok :: "('a slist_store \<Rightarrow> nat) \<Rightarrow> bool" where
  "slist_new_ok new \<longleftrightarrow> (\<forall>m. finite (dom m) \<longrightarrow> new m \<noteq> 0 \<and> m (new m) = None)"

lemma sseg_length: "sseg m p ps e xs \<Longrightarrow> length ps = length xs"
  by (induction m p ps e xs rule: sseg.induct) (auto split: list.splits)

lemma sseg_other: "a \<notin> set ps \<Longrightarrow> sseg (m(a := v)) p ps e xs = sseg m p ps e xs"
  by (induction ps arbitrary: p xs) (auto split: list.splits)

lemma sseg_append:
  "length ps = length xs \<Longrightarrow> sseg m p (ps @ qs) e (xs @ ys) \<longleftrightarrow> (\<exists>q. sseg m p ps q xs \<and> sseg m q qs e ys)"
proof (induction ps arbitrary: p xs)
  case (Cons a ps)
  then show ?case by (cases xs) auto
qed simp

lemma slist_rep_new: "slist_rep slist_new [] []"
  by (simp add: slist_rep_def slist_new_def)

text \<open>The place after the last node.\<close>

lemma tail_loop_seg:
  assumes "sseg (ss_nodes l) p ps 0 xs" and "read_head w l = Inr p" and "length ps < fuel"
  shows "tail_loop fuel w l = Inr (if ps = [] then w else AtNext (last ps))"
  using assms
proof (induction ps arbitrary: p xs w fuel)
  case Nil
  then show ?case by (cases fuel) auto
next
  case (Cons a ps)
  then obtain y ys n fuel' where c: "xs = y # ys" "p = a" "a \<noteq> 0" "ss_nodes l a = Some \<lparr>sn_item = y, sn_next = n\<rparr>"
    "sseg (ss_nodes l) n ps 0 ys" "fuel = Suc fuel'" by (cases fuel; cases xs) auto
  have "read_head (AtNext a) l = Inr n" using c(4) by (simp add: read_head_def slist_iter_next_def snode_at_def)
  from Cons.IH [OF c(5) this] Cons.prems c show ?case by simp
qed

lemma sseg_extend:
  assumes "sseg m p ps 0 xs" and "distinct ps" and "ps \<noteq> []" and "b \<noteq> 0" and "b \<notin> set ps"
  obtains n where "m (last ps) = Some n"
    and "sseg (m(b \<mapsto> \<lparr>sn_item = x, sn_next = 0\<rparr>, last ps \<mapsto> n\<lparr>sn_next := b\<rparr>)) p (ps @ [b]) 0 (xs @ [x])"
proof -
  obtain ps' a where ps: "ps = ps' @ [a]" using assms(3) by (cases ps rule: rev_cases) auto
  have len: "length ps = length xs" using assms(1) by (rule sseg_length)
  then obtain xs' y where xs: "xs = xs' @ [y]" using ps by (cases xs rule: rev_cases) auto
  have l': "length ps' = length xs'" using len ps xs by simp
  from assms(1) obtain q where q: "sseg m p ps' q xs'" "q = a" "a \<noteq> 0" "m a = Some \<lparr>sn_item = y, sn_next = 0\<rparr>"
    unfolding ps xs sseg_append [OF l'] by auto
  let ?m = "m(b \<mapsto> \<lparr>sn_item = x, sn_next = 0\<rparr>, a \<mapsto> \<lparr>sn_item = y, sn_next = b\<rparr>)"
  have "a \<notin> set ps'" "b \<notin> set ps'" "b \<noteq> a" using assms(2,5) ps by auto
  then have "sseg ?m p ps' a xs'" using q(1,2) by (simp add: sseg_other)
  moreover have "sseg ?m a [a, b] 0 [y, x]" using q(3) assms(4) \<open>b \<noteq> a\<close> by simp
  ultimately have "sseg ?m p (ps' @ [a, b]) 0 (xs' @ [y, x])" using sseg_append [OF l'] by blast
  then show thesis using that [of "\<lparr>sn_item = y, sn_next = 0\<rparr>"] q(4) ps xs by simp
qed

lemma slist_push_back_rep:
  assumes "slist_rep l ps xs" and "slist_new_ok new" and "length ps < fuel"
  obtains l' b where "slist_push_back fuel new x l = Inr l'" and "slist_rep l' (ps @ [b]) (xs @ [x])"
proof -
  note r = assms(1) [unfolded slist_rep_def]
  define b where "b = new (ss_nodes l)"
  have b: "b \<noteq> 0" "b \<notin> set ps" "ss_nodes l b = None"
    using assms(2) r unfolding slist_new_ok_def b_def by (metis List.finite_set, metis List.finite_set domIff, metis List.finite_set)
  have t: "tail_loop fuel AtBegin l = Inr (if ps = [] then AtBegin else AtNext (last ps))"
    using r assms(3) by (intro tail_loop_seg [of l "ss_begin l" ps xs]) (simp_all add: read_head_def)
  show thesis
  proof (cases "ps = []")
    case True
    then have "xs = []" using r by simp
    then show thesis using that [of _ b] t True b r
      by (auto simp: slist_push_back_def Let_def write_head_def b_def [symmetric] slist_rep_def)
  next
    case False
    obtain n where n: "ss_nodes l (last ps) = Some n"
      "sseg ((ss_nodes l)(b \<mapsto> \<lparr>sn_item = x, sn_next = 0\<rparr>, last ps \<mapsto> n\<lparr>sn_next := b\<rparr>)) (ss_begin l) (ps @ [b]) 0 (xs @ [x])"
      using sseg_extend [of "ss_nodes l" "ss_begin l" ps xs b x] r False b by blast
    have ne: "last ps \<noteq> b" using b(2) False by auto
    have "slist_push_back fuel new x l =
        Inr (l\<lparr>ss_nodes := (ss_nodes l)(b \<mapsto> \<lparr>sn_item = x, sn_next = 0\<rparr>, last ps \<mapsto> n\<lparr>sn_next := b\<rparr>)\<rparr>)"
      using t False n(1) ne by (simp add: slist_push_back_def Let_def write_head_def snode_at_def b_def [symmetric])
    moreover have "slist_rep (l\<lparr>ss_nodes := (ss_nodes l)(b \<mapsto> \<lparr>sn_item = x, sn_next = 0\<rparr>, last ps \<mapsto> n\<lparr>sn_next := b\<rparr>)\<rparr>) (ps @ [b]) (xs @ [x])"
      using n r b False by (auto simp: slist_rep_def)
    ultimately show thesis by (rule that)
  qed
qed

lemma slist_pop_front_rep:
  assumes "slist_rep l ps (x # xs)"
  obtains l' where "slist_pop_front l = Inr l'" and "slist_rep l' (tl ps) xs"
proof -
  from assms obtain a qs n where c: "ps = a # qs" "ss_begin l = a" "a \<noteq> 0" "ss_nodes l a = Some \<lparr>sn_item = x, sn_next = n\<rparr>"
    "sseg (ss_nodes l) n qs 0 xs" "a \<notin> set qs" "distinct qs" "dom (ss_nodes l) = insert a (set qs)"
    by (cases ps) (auto simp: slist_rep_def)
  then show thesis using that by (auto simp: slist_pop_front_def Let_def snode_at_def slist_rep_def sseg_other)
qed

lemma sseg_retarget:
  assumes "sseg m p ps q xs" and "ps \<noteq> []" and "distinct ps"
  obtains y where "m (last ps) = Some \<lparr>sn_item = y, sn_next = q\<rparr>"
    and "sseg (m(last ps \<mapsto> \<lparr>sn_item = y, sn_next = n\<rparr>)) p ps n xs"
proof -
  obtain ps' a where ps: "ps = ps' @ [a]" using assms(2) by (cases ps rule: rev_cases) auto
  obtain xs' y where xs: "xs = xs' @ [y]" using sseg_length [OF assms(1)] ps by (cases xs rule: rev_cases) auto
  have l': "length ps' = length xs'" using sseg_length [OF assms(1)] ps xs by simp
  from assms(1) have c: "sseg m p ps' a xs'" "a \<noteq> 0" "m a = Some \<lparr>sn_item = y, sn_next = q\<rparr>"
    unfolding ps xs sseg_append [OF l'] by auto
  have "a \<notin> set ps'" using assms(3) ps by simp
  then have "sseg (m(a \<mapsto> \<lparr>sn_item = y, sn_next = n\<rparr>)) p ps' a xs'" using c(1) by (simp add: sseg_other)
  then have "sseg (m(a \<mapsto> \<lparr>sn_item = y, sn_next = n\<rparr>)) p (ps' @ [a]) n (xs' @ [y])"
    unfolding sseg_append [OF l'] using c(2) by auto
  then show thesis using that [of y] c(3) ps xs by simp
qed

lemma slist_remove_loop_rep:
  assumes "slist_rep l (ps @ qs) (xs @ ys)" and "length ps = length xs" and "length qs < fuel"
    and "w = (if ps = [] then AtBegin else AtNext (last ps))"
  shows "\<exists>l' qs'. slist_remove_loop fuel x w l = Inr l' \<and> slist_rep l' (ps @ qs') (xs @ remove1 x ys)"
  using assms
proof (induction fuel arbitrary: ps qs xs ys w)
  case (Suc fuel)
  let ?m = "ss_nodes l"
  note r = Suc.prems(1) [unfolded slist_rep_def]
  from r obtain q where q: "sseg ?m (ss_begin l) ps q xs" "sseg ?m q qs 0 ys"
    using sseg_append [OF Suc.prems(2)] by blast
  have at: "read_head w l = Inr q"
  proof (cases "ps = []")
    case False
    have "distinct ps" using r by simp
    then obtain y where "?m (last ps) = Some \<lparr>sn_item = y, sn_next = q\<rparr>" using sseg_retarget [OF q(1) False] by blast
    then show ?thesis using False Suc.prems(4) by (simp add: read_head_def slist_iter_next_def snode_at_def)
  qed (use q(1) Suc.prems(4) in \<open>simp add: read_head_def\<close>)
  show ?case
  proof (cases qs)
    case Nil
    then show ?thesis using at q Suc.prems(1) by (auto intro!: exI [of _ "[]"])
  next
    case (Cons a qs')
    then obtain y zs n where c: "ys = y # zs" "q = a" "a \<noteq> 0" "?m a = Some \<lparr>sn_item = y, sn_next = n\<rparr>" "sseg ?m n qs' 0 zs"
      using q(2) by (cases ys) auto
    have apart: "a \<notin> set ps" "a \<notin> set qs'" "set ps \<inter> set qs' = {}" "distinct (ps @ qs')" "distinct ps"
      "dom ?m = insert a (set ps \<union> set qs')" using r Cons by auto
    show ?thesis
    proof (cases "y = x")
      case False
      have "\<exists>l' rs. slist_remove_loop fuel x (AtNext a) l = Inr l' \<and> slist_rep l' ((ps @ [a]) @ rs) ((xs @ [y]) @ remove1 x zs)"
        using Suc.prems Cons c by (intro Suc.IH [of _ qs']) simp_all
      then show ?thesis using at c False by (auto simp: snode_at_def)
    next
      case True
      have "\<exists>l1. write_head w n l = Inr l1 \<and> sseg (ss_nodes l1) (ss_begin l1) ps n xs \<and> sseg (ss_nodes l1) n qs' 0 zs \<and> dom (ss_nodes l1) = dom ?m"
      proof (cases "ps = []")
        case False
        then obtain u where u: "?m (last ps) = Some \<lparr>sn_item = u, sn_next = q\<rparr>"
          "sseg (?m(last ps \<mapsto> \<lparr>sn_item = u, sn_next = n\<rparr>)) (ss_begin l) ps n xs"
          using sseg_retarget [OF q(1) False apart(5)] by blast
        have "last ps \<in> set ps" using False by simp
        then have "last ps \<notin> set qs'" "last ps \<in> dom ?m" using apart by auto
        then show ?thesis using u c(5) Suc.prems(4) False by (auto simp: write_head_def snode_at_def sseg_other)
      qed (use q(1) c(5) Suc.prems(4) in \<open>simp add: write_head_def\<close>)
      then obtain l1 where l1: "write_head w n l = Inr l1" "sseg (ss_nodes l1) (ss_begin l1) ps n xs"
        "sseg (ss_nodes l1) n qs' 0 zs" "dom (ss_nodes l1) = dom ?m" by blast
      let ?l2 = "l1\<lparr>ss_nodes := (ss_nodes l1)(a := None)\<rparr>"
      have "sseg (ss_nodes ?l2) (ss_begin ?l2) ps n xs" "sseg (ss_nodes ?l2) n qs' 0 zs"
        using l1(2,3) apart(1,2) by (simp_all add: sseg_other)
      then have "sseg (ss_nodes ?l2) (ss_begin ?l2) (ps @ qs') 0 (xs @ zs)" using sseg_append [OF Suc.prems(2)] by blast
      moreover have "dom (ss_nodes ?l2) = set (ps @ qs')" using l1(4) apart by auto
      ultimately have "slist_rep ?l2 (ps @ qs') (xs @ zs)" using apart(4) by (simp add: slist_rep_def)
      moreover have "slist_remove_loop (Suc fuel) x w l = Inr ?l2" using at c l1(1) True by (simp add: snode_at_def)
      ultimately show ?thesis using c(1) True by auto
    qed
  qed
qed simp

lemma slist_remove_rep:
  "slist_rep l ps xs \<Longrightarrow> length ps < fuel \<Longrightarrow> \<exists>l' ps'. slist_remove fuel x l = Inr l' \<and> slist_rep l' ps' (remove1 x xs)"
  using slist_remove_loop_rep [of l "[]" ps "[]" xs fuel AtBegin x] by (auto simp: slist_remove_def)

lemma slist_clear_loop_rep:
  "sseg (ss_nodes l) p ps 0 xs \<Longrightarrow> distinct ps \<Longrightarrow> dom (ss_nodes l) = set ps \<Longrightarrow> length ps < fuel \<Longrightarrow>
   \<exists>l'. slist_clear_loop fuel p l = Inr l' \<and> ss_nodes l' = (\<lambda>_. None)"
proof (induction fuel arbitrary: p ps xs l)
  case (Suc fuel)
  show ?case
  proof (cases ps)
    case (Cons a qs)
    then obtain y zs n where c: "xs = y # zs" "p = a" "a \<noteq> 0" "ss_nodes l a = Some \<lparr>sn_item = y, sn_next = n\<rparr>"
      "sseg (ss_nodes l) n qs 0 zs" using Suc.prems(1) by (cases xs) auto
    let ?l = "l\<lparr>ss_nodes := (ss_nodes l)(a := None)\<rparr>"
    have q: "a \<notin> set qs" "distinct qs" "length qs < fuel" using Suc.prems(2,4) Cons by simp_all
    have "sseg (ss_nodes ?l) n qs 0 zs" using c(5) q(1) by (simp add: sseg_other)
    moreover have "dom (ss_nodes ?l) = set qs" using Suc.prems(3) Cons q(1) by auto
    ultimately have "\<exists>l'. slist_clear_loop fuel n ?l = Inr l' \<and> ss_nodes l' = (\<lambda>_. None)" using q by (intro Suc.IH)
    then show ?thesis using c by (simp add: slist_iter_next_def snode_at_def)
  qed (use Suc.prems in auto)
qed simp

lemma slist_clear_rep:
  "slist_rep l ps xs \<Longrightarrow> length ps < fuel \<Longrightarrow> \<exists>l'. slist_clear fuel l = Inr l' \<and> slist_rep l' [] []"
  using slist_clear_loop_rep [of l "ss_begin l" ps xs fuel] by (auto simp: slist_clear_def slist_rep_def)

lemma slist_size_loop_rep:
  "sseg (ss_nodes l) p ps 0 xs \<Longrightarrow> length ps < fuel \<Longrightarrow> slist_size_loop fuel p k l = Inr (k + of_nat (length xs))"
proof (induction fuel arbitrary: p ps xs k)
  case (Suc fuel)
  show ?case
  proof (cases ps)
    case (Cons a qs)
    then obtain y zs n where c: "xs = y # zs" "p = a" "a \<noteq> 0" "ss_nodes l a = Some \<lparr>sn_item = y, sn_next = n\<rparr>"
      "sseg (ss_nodes l) n qs 0 zs" using Suc.prems(1) by (cases xs) auto
    then show ?thesis using Suc.IH [OF c(5), of "k + 1"] Suc.prems(2) Cons
      by (simp add: slist_iter_next_def snode_at_def algebra_simps)
  qed (use Suc.prems in auto)
qed simp

text \<open>\<open>std::find\<close> stops at the first node with the item, at the end when there is none.\<close>

lemma slist_find_rep:
  "sseg (ss_nodes l) p ps 0 xs \<Longrightarrow> length ps < fuel \<Longrightarrow>
   slist_find fuel p 0 x l = Inr (case find (\<lambda>(a, y). y = x) (zip ps xs) of None \<Rightarrow> 0 | Some (a, y) \<Rightarrow> a)"
proof (induction fuel arbitrary: p ps xs)
  case (Suc fuel)
  show ?case
  proof (cases ps)
    case (Cons a qs)
    then obtain y zs n where c: "xs = y # zs" "p = a" "a \<noteq> 0" "ss_nodes l a = Some \<lparr>sn_item = y, sn_next = n\<rparr>"
      "sseg (ss_nodes l) n qs 0 zs" using Suc.prems(1) by (cases xs) auto
    then show ?thesis using Suc.IH [OF c(5)] Suc.prems(2) Cons
      by (simp add: slist_iter_next_def slist_iter_item_def snode_at_def)
  qed (use Suc.prems in auto)
qed simp

lemma slist_copy_loop_rep:
  assumes "sseg (ss_nodes r) p ps 0 xs" and "slist_rep l qs ys" and "slist_new_ok new" and "2 * length ps + length qs < fuel"
  shows "\<exists>l' qs'. slist_copy_loop fuel new r p l = Inr l' \<and> slist_rep l' qs' (ys @ xs)"
  using assms
proof (induction ps arbitrary: p xs l qs ys fuel)
  case Nil
  then show ?case by (cases fuel) auto
next
  case (Cons a ps)
  then obtain y zs n fuel' where c: "xs = y # zs" "p = a" "a \<noteq> 0" "ss_nodes r a = Some \<lparr>sn_item = y, sn_next = n\<rparr>"
    "sseg (ss_nodes r) n ps 0 zs" "fuel = Suc fuel'" by (cases fuel; cases xs) auto
  obtain l1 b where l1: "slist_push_back fuel new y l = Inr l1" "slist_rep l1 (qs @ [b]) (ys @ [y])"
    using slist_push_back_rep [OF Cons.prems(2,3), of fuel y] Cons.prems(4) by auto
  from Cons.IH [OF c(5) l1(2) Cons.prems(3), of fuel'] Cons.prems(4) c(6) obtain l' qs' where
    "slist_copy_loop fuel' new r n l1 = Inr l'" "slist_rep l' qs' (ys @ xs)" by (auto simp: c(1))
  then show ?case using c l1(1) by (auto simp: slist_iter_next_def slist_iter_item_def snode_at_def)
qed

lemma slist_of_vector_rep:
  assumes "slist_new_ok new" and "length r < fuel"
  shows "\<exists>l ps. slist_of_vector fuel new r = Inr l \<and> slist_rep l ps r"
proof -
  have "\<exists>l' ps'. for_each (slist_push_back fuel new) r l = Inr l' \<and> slist_rep l' ps' (xs @ r)"
    if "slist_rep l ps xs" "length xs + length r < fuel" for l ps xs
    using that assms(2)
  proof (induction r arbitrary: l ps xs)
    case (Cons x r)
    then have "length ps < fuel" using sseg_length by (fastforce simp: slist_rep_def)
    then obtain l1 b where "slist_push_back fuel new x l = Inr l1" "slist_rep l1 (ps @ [b]) (xs @ [x])"
      using slist_push_back_rep [OF Cons.prems(1) assms(1)] by blast
    then show ?case using Cons.IH [of l1 "ps @ [b]" "xs @ [x]"] Cons.prems(2,3) by auto
  qed auto
  from this [OF slist_rep_new] show ?thesis using assms(2) by (auto simp: slist_of_vector_def)
qed

section \<open>Sequences of operations\<close>

fun run_ops :: "('op \<Rightarrow> 'l \<Rightarrow> 'l result) \<Rightarrow> 'op list \<Rightarrow> 'l \<Rightarrow> 'l result" where
  "run_ops step [] l = Inr l"
| "run_ops step (op # ops) l = rbind (step op l) (run_ops step ops)"

fun run_spec :: "('op \<Rightarrow> 'a list \<Rightarrow> 'a list option) \<Rightarrow> 'op list \<Rightarrow> 'a list \<Rightarrow> 'a list option" where
  "run_spec spec [] xs = Some xs"
| "run_spec spec (op # ops) xs = (case spec op xs of None \<Rightarrow> None | Some ys \<Rightarrow> run_spec spec ops ys)"

text \<open>A container of the library: with an allocator that gives new addresses, each operation does to the sequence it holds what is said of it.\<close>

locale sequence_container =
  fixes alloc_ok :: "'n \<Rightarrow> bool" and step :: "'n \<Rightarrow> nat \<Rightarrow> 'op \<Rightarrow> 'l \<Rightarrow> 'l result"
    and spec :: "'op \<Rightarrow> 'a list \<Rightarrow> 'a list option" and holds :: "'l \<Rightarrow> 'a list \<Rightarrow> bool"
  assumes step_ok: "holds l xs \<Longrightarrow> alloc_ok n \<Longrightarrow> spec op xs = Some ys \<Longrightarrow> length xs < fuel \<Longrightarrow>
      \<exists>l'. step n fuel op l = Inr l' \<and> holds l' ys"
    and spec_grows: "spec op xs = Some ys \<Longrightarrow> length ys \<le> Suc (length xs)"
begin

lemma run_ok:
  "holds l xs \<Longrightarrow> alloc_ok n \<Longrightarrow> run_spec spec ops xs = Some ys \<Longrightarrow> length xs + length ops < fuel \<Longrightarrow>
   \<exists>l'. run_ops (step n fuel) ops l = Inr l' \<and> holds l' ys \<and> length ys < fuel"
proof (induction ops arbitrary: l xs)
  case (Cons op ops)
  then obtain zs where zs: "spec op xs = Some zs" "run_spec spec ops zs = Some ys" by (auto split: option.splits)
  obtain l1 where one: "step n fuel op l = Inr l1" "holds l1 zs" using step_ok [OF Cons.prems(1,2) zs(1), of fuel] Cons.prems(4) by auto
  have "length zs + length ops < fuel" using spec_grows [OF zs(1)] Cons.prems(4) by simp
  from Cons.IH [OF one(2) Cons.prems(2) zs(2) this] one(1) show ?case by simp
qed auto

end

interpretation list_seq: sequence_container new_ok list_step list_spec "\<lambda>l xs. \<exists>ps. list_rep l ps xs"
proof unfold_locales
  show "\<exists>l'. list_step n fuel op l = Inr l' \<and> (\<exists>ps. list_rep l' ps ys)"
    if "\<exists>ps. list_rep l ps xs" "new_ok n" "list_spec op xs = Some ys" "length xs < fuel" for l xs n op ys fuel
    using that list_step_rep by blast
qed (rule list_spec_length)

datatype 'a slist_op = SPushBack 'a | SPopFront | SRemove 'a | SClear

definition slist_step :: "('a slist_store \<Rightarrow> nat) \<Rightarrow> nat \<Rightarrow> 'a slist_op \<Rightarrow> 'a slist \<Rightarrow> 'a slist result" where
  "slist_step new fuel op l =
     (case op of
        SPushBack x \<Rightarrow> slist_push_back fuel new x l
      | SPopFront \<Rightarrow> slist_pop_front l
      | SRemove x \<Rightarrow> slist_remove fuel x l
      | SClear \<Rightarrow> slist_clear fuel l)"

fun slist_spec :: "'a slist_op \<Rightarrow> 'a list \<Rightarrow> 'a list option" where
  "slist_spec (SPushBack x) xs = Some (xs @ [x])"
| "slist_spec SPopFront xs = (if xs \<noteq> [] then Some (tl xs) else None)"
| "slist_spec (SRemove x) xs = Some (remove1 x xs)"
| "slist_spec SClear xs = Some []"

lemma slist_rep_length: "slist_rep l ps xs \<Longrightarrow> length ps = length xs"
  by (auto simp: slist_rep_def intro: sseg_length)

interpretation slist_seq: sequence_container slist_new_ok slist_step slist_spec "\<lambda>l xs. \<exists>ps. slist_rep l ps xs"
proof unfold_locales
  show "\<exists>l'. slist_step n fuel op l = Inr l' \<and> (\<exists>ps. slist_rep l' ps ys)"
    if rep: "\<exists>ps. slist_rep l ps xs" and new: "slist_new_ok n" and spec: "slist_spec op xs = Some ys" and fuel: "length xs < fuel"
    for l xs n op ys fuel
  proof -
    from rep obtain ps where ps: "slist_rep l ps xs" by blast
    have len: "length ps < fuel" using slist_rep_length [OF ps] fuel by simp
    show ?thesis
    proof (cases op)
      case (SPushBack x)
      then show ?thesis using slist_push_back_rep [OF ps new len, of x] spec by (auto simp: slist_step_def) blast
    next
      case SPopFront
      then obtain x xs' where "xs = x # xs'" "ys = xs'" using spec by (cases xs) (auto split: if_splits)
      then show ?thesis using SPopFront slist_pop_front_rep [of l ps x xs'] ps by (auto simp: slist_step_def) blast
    next
      case (SRemove x)
      then show ?thesis using slist_remove_rep [OF ps len, of x] spec by (auto simp: slist_step_def)
    next
      case SClear
      then show ?thesis using slist_clear_rep [OF ps len] spec by (auto simp: slist_step_def)
    qed
  qed
  show "length ys \<le> Suc (length xs)" if "slist_spec op xs = Some ys" for op and xs ys :: "'a list"
    using that by (cases op) (auto split: if_splits simp: length_remove1)
qed

text \<open>
  Whatever operations are applied to a new \<open>std::slist\<close>, each where it may be, no pointer that is null or deleted
  is followed, and the list holds the sequence they describe: \<open>size()\<close> counts it, exactly its nodes are allocated, and a copy
  holds the same sequence.
\<close>

theorem slist_refines_sequence:
  assumes "slist_new_ok new" and "run_spec slist_spec ops [] = Some ys" and "2 * length ops < fuel"
  shows "\<exists>l l'. run_ops (slist_step new fuel) ops slist_new = Inr l \<and> slist_size fuel l = Inr (of_nat (length ys)) \<and>
    card (dom (ss_nodes l)) = length ys \<and> slist_copy fuel new l = Inr l' \<and> (\<exists>ps. slist_rep l ps ys) \<and> (\<exists>ps. slist_rep l' ps ys)"
proof -
  have "length ([] :: 'a list) + length ops < fuel" using assms(3) by simp
  then obtain l where l: "run_ops (slist_step new fuel) ops slist_new = Inr l" "\<exists>ps. slist_rep l ps ys" "length ys < fuel"
    using slist_seq.run_ok [OF _ assms(1,2), of slist_new fuel] slist_rep_new by blast
  then obtain ps where ps: "slist_rep l ps ys" by blast
  have len: "length ps = length ys" by (rule slist_rep_length [OF ps])
  have "run_spec slist_spec ops xs = Some ys \<Longrightarrow> length ys \<le> length ops + length xs" for xs
  proof (induction ops arbitrary: xs)
    case (Cons op ops)
    then obtain zs where "slist_spec op xs = Some zs" "run_spec slist_spec ops zs = Some ys" by (auto split: option.splits)
    with Cons.IH [of zs] slist_seq.spec_grows [of op xs zs] show ?case by simp
  qed simp
  from this [OF assms(2)] assms(3) have fuel: "2 * length ps < fuel" using len by simp
  note r = ps [unfolded slist_rep_def]
  have "slist_size fuel l = Inr (0 + of_nat (length ys))"
    unfolding slist_size_def using r l(3) len by (intro slist_size_loop_rep [of l _ ps]) simp_all
  moreover have "card (dom (ss_nodes l)) = length ys" using r len distinct_card [of ps] by simp
  moreover obtain l' qs where "slist_copy fuel new l = Inr l'" "slist_rep l' qs ys"
    using slist_copy_loop_rep [of l "ss_begin l" ps ys slist_new "[]" "[]" new fuel] r fuel assms(1) slist_rep_new
    by (auto simp: slist_copy_def)
  ultimately show ?thesis using l(1) ps by auto
qed

definition next_free :: "'a slist_store \<Rightarrow> nat" where
  "next_free m = Suc (Max (insert 0 (dom m)))"

lemma next_free_ok: "slist_new_ok next_free"
  unfolding slist_new_ok_def
proof (intro allI impI conjI)
  fix m :: "'a slist_store" assume fin: "finite (dom m)"
  have "next_free m \<notin> dom m"
  proof
    assume "next_free m \<in> dom m"
    then have "next_free m \<le> Max (insert 0 (dom m))" using fin by (intro Max_ge) auto
    then show False by (simp add: next_free_def)
  qed
  then show "m (next_free m) = None" by auto
qed (simp add: next_free_def)

theorem slist_refines_sequence_witness:
  "\<exists>l. run_ops (slist_step next_free 20) [SPushBack 1, SPushBack (2 :: int), SPushBack 3, SRemove 2, SPopFront] slist_new = Inr l \<and>
     slist_size 20 l = Inr 1 \<and> card (dom (ss_nodes l)) = 1 \<and> (\<exists>ps. slist_rep l ps [3])"
  using slist_refines_sequence [OF next_free_ok, of "[SPushBack 1, SPushBack (2 :: int), SPushBack 3, SRemove 2, SPopFront]" "[3]" 20] by auto

text \<open>Assigned to itself the list is cleared before it is copied.\<close>

lemma slist_assign_self_empty:
  assumes "slist_rep l ps xs" and "length xs < fuel"
  shows "\<exists>l'. slist_assign_self fuel new l = Inr l' \<and> slist_rep l' [] []"
proof -
  obtain l1 where l1: "slist_clear fuel l = Inr l1" "slist_rep l1 [] []"
    using slist_clear_rep [OF assms(1), of fuel] assms(2) slist_rep_length [OF assms(1)] by auto
  moreover obtain k where "fuel = Suc k" using assms(2) by (cases fuel) auto
  moreover have "ss_begin l1 = 0" using l1(2) by (simp add: slist_rep_def)
  ultimately show ?thesis by (simp add: slist_assign_self_def)
qed

end
