(* ===== verification/StdMap.thy ===== *)
theory StdMap
  imports Slist Containers
begin

text \<open>
  \<^verbatim>\<open>src/inc/map\<close> on the nodes of its \<open>std::list\<close> of pairs. An iterator is the address of a node, 0 at the end; the
  reference that a subscript gives is the node of the pair. The rest of the development uses the association lists of
  \<^verbatim>\<open>Containers\<close>, which this refines.
\<close>

section \<open>Operations\<close>

type_synonym ('k, 'v) std_map = "('k \<times> 'v) std_list"

fun map_scan :: "nat \<Rightarrow> 'k \<Rightarrow> nat \<Rightarrow> ('k, 'v) std_map \<Rightarrow> nat result" where
  "map_scan 0 k it l = Inl Diverges"
| "map_scan (Suc fuel) k it l =
     (if it = 0 then Inr 0
      else rbind (iter_item it l) (\<lambda>(k', v). if k = k' then Inr it else rbind (iter_next it l) (\<lambda>q. map_scan fuel k q l)))"

definition std_find :: "nat \<Rightarrow> 'k \<Rightarrow> ('k, 'v) std_map \<Rightarrow> nat result" where
  "std_find fuel k l = map_scan fuel k (sl_begin l) l"

definition std_index :: "nat \<Rightarrow> (('k \<times> 'v) node_store \<Rightarrow> nat) \<Rightarrow> 'v \<Rightarrow> 'k \<Rightarrow> ('k, 'v) std_map \<Rightarrow> (nat \<times> ('k, 'v) std_map) result" where
  "std_index fuel new dflt k l =
     rbind (map_scan fuel k (sl_begin l) l) (\<lambda>p.
     if p \<noteq> 0 then Inr (p, l)
     else rbind (push_back new (k, dflt) l) (\<lambda>l1. Inr (sl_end l1, l1)))"

definition second_of :: "nat \<Rightarrow> ('k, 'v) std_map \<Rightarrow> 'v result" where
  "second_of p l = rbind (iter_item p l) (\<lambda>(k, v). Inr v)"

definition set_second :: "nat \<Rightarrow> 'v \<Rightarrow> ('k, 'v) std_map \<Rightarrow> ('k, 'v) std_map result" where
  "set_second p v l = rbind (node_at p l) (\<lambda>n. Inr (put_node_at p (n\<lparr>ln_item := (fst (ln_item n), v)\<rparr>) l))"

definition std_erase :: "nat \<Rightarrow> 'k \<Rightarrow> ('k, 'v) std_map \<Rightarrow> (int \<times> ('k, 'v) std_map) result" where
  "std_erase fuel k l =
     rbind (map_scan fuel k (sl_begin l) l) (\<lambda>p.
     if p \<noteq> 0 then rbind (iter_item p l) (\<lambda>it. rbind (list_remove fuel it l) (\<lambda>l1. Inr (1, l1)))
     else Inr (0, l))"

text \<open>The uses: \<open>m[k] = v\<close>, the value read by \<open>m[k]\<close>, \<open>erase\<close> and \<open>clear\<close>.\<close>

datatype ('k, 'v) map_op = MapPut 'k 'v | MapRead 'k | MapErase 'k | MapClear

definition map_step :: "'v \<Rightarrow> (('k \<times> 'v) node_store \<Rightarrow> nat) \<Rightarrow> nat \<Rightarrow> ('k, 'v) map_op \<Rightarrow> ('k, 'v) std_map \<Rightarrow> ('k, 'v) std_map result" where
  "map_step dflt new fuel op l =
     (case op of
        MapPut k v \<Rightarrow> rbind (std_index fuel new dflt k l) (\<lambda>(p, l1). set_second p v l1)
      | MapRead k \<Rightarrow> rbind (std_index fuel new dflt k l) (\<lambda>(p, l1). rbind (second_of p l1) (\<lambda>_. Inr l1))
      | MapErase k \<Rightarrow> rbind (std_erase fuel k l) (\<lambda>(_, l1). Inr l1)
      | MapClear \<Rightarrow> list_clear fuel l)"

section \<open>They act on the list of pairs\<close>

lemma map_scan_rep:
  assumes "list_rep l (ps @ qs) (xs @ ys)" and "length ps = length xs" and "length qs < fuel"
  shows "map_find ys k = None \<Longrightarrow> map_scan fuel k (hd (qs @ [0])) l = Inr 0"
    and "map_find ys k = Some v \<Longrightarrow> \<exists>us a vs as bs. qs = us @ a # vs \<and> ys = as @ (k, v) # bs \<and> length us = length as \<and>
      map_find as k = None \<and> map_scan fuel k (hd (qs @ [0])) l = Inr a"
proof -
  have "case map_find ys k of None \<Rightarrow> map_scan fuel k (hd (qs @ [0])) l = Inr 0
      | Some v \<Rightarrow> \<exists>us a vs as bs. qs = us @ a # vs \<and> ys = as @ (k, v) # bs \<and> length us = length as \<and>
          map_find as k = None \<and> map_scan fuel k (hd (qs @ [0])) l = Inr a"
    using assms
  proof (induction ys arbitrary: ps qs xs fuel)
    case Nil
    then have "qs = []" using rep_length [OF Nil.prems(1)] by simp
    then show ?case using Nil by (cases fuel) auto
  next
    case (Cons y ys)
    obtain k' w where y: "y = (k', w)" by (cases y)
    have "length qs = Suc (length ys)" using rep_length [OF Cons.prems(1)] Cons.prems(2) by simp
    then obtain a qs' where qs: "qs = a # qs'" by (cases qs) auto
    obtain fuel' where f: "fuel = Suc fuel'" using Cons.prems(3) by (cases fuel) auto
    have rep: "list_rep l (ps @ a # qs') (xs @ (k', w) # ys)" using Cons.prems(1) y qs by simp
    note n = rep_node [OF rep Cons.prems(2)]
    show ?case
    proof (cases "k = k'")
      case True
      then show ?thesis using n y qs f
        by (simp add: iter_item_def, intro exI [of _ "[]"] exI [of _ a] exI [of _ qs'] exI [of _ ys]) simp
    next
      case False
      have step: "map_scan fuel k (hd (qs @ [0])) l = map_scan fuel' k (hd (qs' @ [0])) l"
        using n(1,2) False qs f by (simp add: iter_item_def iter_next_def)
      have rep': "list_rep l ((ps @ [a]) @ qs') ((xs @ [y]) @ ys)" using rep y by simp
      have IH: "case map_find ys k of None \<Rightarrow> map_scan fuel' k (hd (qs' @ [0])) l = Inr 0
        | Some v \<Rightarrow> \<exists>us a vs as bs. qs' = us @ a # vs \<and> ys = as @ (k, v) # bs \<and> length us = length as \<and>
          map_find as k = None \<and> map_scan fuel' k (hd (qs' @ [0])) l = Inr a"
        by (rule Cons.IH [OF rep']) (use Cons.prems(2,3) qs f in simp_all)
      show ?thesis
      proof (cases "map_find ys k")
        case None
        then show ?thesis using IH y False step by simp
      next
        case (Some v)
        with IH obtain us b vs as bs where u: "qs' = us @ b # vs" "ys = as @ (k, v) # bs" "length us = length as"
          "map_find as k = None" "map_scan fuel' k (hd (qs' @ [0])) l = Inr b" by auto
        have "qs = (a # us) @ b # vs" "y # ys = (y # as) @ (k, v) # bs" "map_find (y # as) k = None"
          using u qs y False by simp_all
        moreover have "length (a # us) = length (y # as)" using u(3) by simp
        moreover have "map_find (y # ys) k = Some v" using Some y False by simp
        ultimately show ?thesis unfolding step
          by (simp only: option.case) (rule exI [of _ "a # us"], rule exI [of _ b], rule exI [of _ vs], rule exI [of _ "y # as"],
              rule exI [of _ bs], simp add: u(5))
      qed
    qed
  qed
  then show "map_find ys k = None \<Longrightarrow> map_scan fuel k (hd (qs @ [0])) l = Inr 0"
    and "map_find ys k = Some v \<Longrightarrow> \<exists>us a vs as bs. qs = us @ a # vs \<and> ys = as @ (k, v) # bs \<and> length us = length as \<and>
      map_find as k = None \<and> map_scan fuel k (hd (qs @ [0])) l = Inr a" by simp_all
qed

text \<open>The search from the beginning.\<close>

lemma std_find_rep:
  assumes "list_rep l ps xs" and "length xs < fuel"
  shows "map_find xs k = None \<Longrightarrow> map_scan fuel k (sl_begin l) l = Inr 0"
    and "map_find xs k = Some v \<Longrightarrow> \<exists>us a vs as bs. ps = us @ a # vs \<and> xs = as @ (k, v) # bs \<and> length us = length as \<and>
      map_find as k = None \<and> a \<noteq> 0 \<and> map_scan fuel k (sl_begin l) l = Inr a"
proof -
  have b: "sl_begin l = hd (ps @ [0])" "0 \<notin> set ps" using assms(1) by (simp_all add: list_rep_def)
  have s: "list_rep l ([] @ ps) ([] @ xs)" "length ps < fuel" using assms rep_length [OF assms(1)] by simp_all
  show "map_find xs k = None \<Longrightarrow> map_scan fuel k (sl_begin l) l = Inr 0"
    using map_scan_rep(1) [OF s(1) _ s(2)] by (simp add: b(1))
  show "map_find xs k = Some v \<Longrightarrow> \<exists>us a vs as bs. ps = us @ a # vs \<and> xs = as @ (k, v) # bs \<and> length us = length as \<and>
      map_find as k = None \<and> a \<noteq> 0 \<and> map_scan fuel k (sl_begin l) l = Inr a"
    using map_scan_rep(2) [OF s(1) _ s(2), of k v] b by fastforce
qed

lemma set_second_rep:
  assumes "list_rep l (us @ a # vs) (as @ (k, w) # bs)" and "length us = length as"
  shows "\<exists>l'. set_second a v l = Inr l' \<and> list_rep l' (us @ a # vs) (as @ (k, v) # bs)"
proof -
  note n = rep_node [OF assms] and r = assms(1) [unfolded list_rep_def]
  let ?m = "(sl_nodes l)(a \<mapsto> \<lparr>ln_item = (k, v), ln_next = hd (vs @ [0]), ln_prev = last (0 # us)\<rparr>)"
  have at: "set_second a v l = Inr (l\<lparr>sl_nodes := ?m\<rparr>)" using n(1) by (simp add: set_second_def put_node_at_def)
  have "a \<notin> set us" "a \<notin> set vs" using r by auto
  then have "dseg ?m 0 (us @ a # vs) 0 (as @ (k, v) # bs)"
    using r assms(2) by (simp add: dseg_append dseg_other)
  moreover have "dom ?m = set (us @ a # vs)" using r by auto
  ultimately have "list_rep (l\<lparr>sl_nodes := ?m\<rparr>) (us @ a # vs) (as @ (k, v) # bs)" using r by (simp add: list_rep_def)
  with at show ?thesis by blast
qed

lemma map_put_split: "map_find as k = None \<Longrightarrow> map_put (as @ (k, w) # bs) k v = as @ (k, v) # bs"
  by (induction as) (auto split: if_splits)

lemma map_erase_split: "map_find as k = None \<Longrightarrow> map_erase (as @ (k, w) # bs) k = as @ bs"
  by (induction as) (auto split: if_splits)

lemma map_put_absent: "map_find xs k = None \<Longrightarrow> map_put xs k v = xs @ [(k, v)]"
  by (induction xs) (auto split: if_splits)

lemma map_erase_absent: "map_find xs k = None \<Longrightarrow> map_erase xs k = xs"
  by (induction xs) (auto split: if_splits)

lemma std_index_rep:
  assumes "list_rep l ps xs" and "new_ok new" and "length xs < fuel"
  obtains p l' us vs as bs w where "std_index fuel new dflt k l = Inr (p, l')" and "list_rep l' (us @ p # vs) (as @ (k, w) # bs)"
    and "length us = length as" and "map_find as k = None" and "as @ (k, w) # bs = snd (map_index xs k dflt)" and "w = fst (map_index xs k dflt)"
proof (cases "map_find xs k")
  case None
  obtain l' a where push: "push_back new (k, dflt) l = Inr l'" "sl_end l' = a" "list_rep l' (ps @ [a]) (xs @ [(k, dflt)])"
    using push_back_rep [OF assms(1,2), of "(k, dflt)"] by blast
  have "std_index fuel new dflt k l = Inr (a, l')"
    using std_find_rep(1) [OF assms(1,3) None] push by (simp add: std_index_def)
  then show thesis by (rule that) (use push(3) None rep_length [OF assms(1)] in \<open>simp_all add: map_index_def\<close>)
next
  case (Some v)
  then obtain us a vs as bs where u: "ps = us @ a # vs" "xs = as @ (k, v) # bs" "length us = length as" "map_find as k = None" "a \<noteq> 0"
    "map_scan fuel k (sl_begin l) l = Inr a" using std_find_rep(2) [OF assms(1,3)] by blast
  then have "std_index fuel new dflt k l = Inr (a, l)" by (simp add: std_index_def)
  then show thesis by (rule that) (use u assms(1) Some in \<open>simp_all add: map_index_def\<close>)
qed

lemma std_erase_rep:
  assumes "list_rep l ps xs" and "length xs < fuel"
  shows "\<exists>l' ps'. std_erase fuel k l = Inr (if map_find xs k = None then 0 else 1, l') \<and> list_rep l' ps' (map_erase xs k)"
proof (cases "map_find xs k")
  case None
  then show ?thesis using std_find_rep(1) [OF assms None] assms(1) by (auto simp: std_erase_def map_erase_absent)
next
  case (Some v)
  then obtain us a vs as bs where u: "ps = us @ a # vs" "xs = as @ (k, v) # bs" "length us = length as" "map_find as k = None" "a \<noteq> 0"
    "map_scan fuel k (sl_begin l) l = Inr a" using std_find_rep(2) [OF assms] by blast
  have "iter_item a l = Inr (k, v)" using rep_node(1) [of l us a vs as "(k, v)" bs] assms(1) u by (simp add: iter_item_def)
  moreover have "(k, v) \<notin> set as" using u(4) by (force simp: map_find_None)
  then have "remove1 (k, v) xs = map_erase xs k" using u(2,4) by (simp add: remove1_append map_erase_split)
  moreover obtain l' ps' where "list_remove fuel (k, v) l = Inr l'" "list_rep l' ps' (remove1 (k, v) xs)"
    using remove_rep [OF assms(1), of fuel "(k, v)"] assms(2) rep_length [OF assms(1)] by auto
  ultimately show ?thesis using u(5,6) Some by (auto simp: std_erase_def)
qed

section \<open>A finite map\<close>

fun map_spec :: "'v \<Rightarrow> ('k, 'v) map_op \<Rightarrow> ('k \<times> 'v) list \<Rightarrow> ('k \<times> 'v) list option" where
  "map_spec dflt (MapPut k v) xs = Some (map_put xs k v)"
| "map_spec dflt (MapRead k) xs = Some (snd (map_index xs k dflt))"
| "map_spec dflt (MapErase k) xs = Some (map_erase xs k)"
| "map_spec dflt MapClear xs = Some []"

lemma length_map_put: "length (map_put xs k v) \<le> Suc (length xs)"
  by (induction xs k v rule: map_put.induct) auto

lemma length_map_erase: "length (map_erase xs k) \<le> length xs"
  by (induction xs k rule: map_erase.induct) auto

interpretation map_seq: sequence_container new_ok "map_step dflt" "map_spec dflt" "\<lambda>l xs. \<exists>ps. list_rep l ps xs" for dflt
proof unfold_locales
  show "\<exists>l'. map_step dflt n fuel op l = Inr l' \<and> (\<exists>ps. list_rep l' ps ys)"
    if rep: "\<exists>ps. list_rep l ps xs" and new: "new_ok n" and spec: "map_spec dflt op xs = Some ys" and fuel: "length xs < fuel"
    for l xs n op ys fuel
  proof -
    from rep obtain ps where ps: "list_rep l ps xs" by blast
    show ?thesis
    proof (cases op)
      case (MapPut k v)
      obtain p l' us vs as bs w where i: "std_index fuel n dflt k l = Inr (p, l')" "list_rep l' (us @ p # vs) (as @ (k, w) # bs)"
        "length us = length as" "map_find as k = None" "as @ (k, w) # bs = snd (map_index xs k dflt)"
        using std_index_rep [OF ps new fuel] by metis
      have "map_put (snd (map_index xs k dflt)) k v = map_put xs k v"
        by (auto simp: map_index_def map_put_absent map_put_split split: option.splits)
      then have "map_put xs k v = as @ (k, v) # bs" using map_put_split [OF i(4), of w bs v] i(5) by simp
      then show ?thesis using set_second_rep [OF i(2,3), of v] i(1) MapPut spec by (auto simp: map_step_def)
    next
      case (MapRead k)
      obtain p l' us vs as bs w where i: "std_index fuel n dflt k l = Inr (p, l')" "list_rep l' (us @ p # vs) (as @ (k, w) # bs)"
        "length us = length as" "as @ (k, w) # bs = snd (map_index xs k dflt)"
        using std_index_rep [OF ps new fuel] by metis
      have "second_of p l' = Inr w" using rep_node(1) [OF i(2,3)] by (simp add: second_of_def iter_item_def)
      then show ?thesis using i MapRead spec by (auto simp: map_step_def)
    next
      case (MapErase k)
      then show ?thesis using std_erase_rep [OF ps fuel, of k] spec by (auto simp: map_step_def)
    next
      case MapClear
      then show ?thesis using clear_rep [OF ps, of fuel] spec fuel rep_length [OF ps] by (auto simp: map_step_def)
    qed
  qed
  show "length ys \<le> Suc (length xs)" if "map_spec dflt op xs = Some ys" for op and xs ys :: "('a \<times> 'b) list"
    using that by (cases op) (auto simp: length_map_put map_index_def intro: le_SucI [OF length_map_erase] split: option.splits)
qed

text \<open>The finite map that operations describe; reading an absent key adds it with the default.\<close>

fun map_effect :: "'v \<Rightarrow> ('k, 'v) map_op list \<Rightarrow> ('k \<rightharpoonup> 'v) \<Rightarrow> 'k \<rightharpoonup> 'v" where
  "map_effect dflt [] m = m"
| "map_effect dflt (MapPut k v # ops) m = map_effect dflt ops (m(k \<mapsto> v))"
| "map_effect dflt (MapRead k # ops) m = map_effect dflt ops (case m k of None \<Rightarrow> m(k \<mapsto> dflt) | Some v \<Rightarrow> m)"
| "map_effect dflt (MapErase k # ops) m = map_effect dflt ops (m(k := None))"
| "map_effect dflt (MapClear # ops) m = map_effect dflt ops Map.empty"

lemma map_index_find: "map_find (snd (map_index xs k dflt)) = (case map_find xs k of None \<Rightarrow> (map_find xs)(k \<mapsto> dflt) | Some v \<Rightarrow> map_find xs)"
  by (auto simp: map_index_def map_find_append fun_eq_iff split: option.splits)

lemma distinct_map_index: "distinct (map fst xs) \<Longrightarrow> distinct (map fst (snd (map_index xs k dflt)))"
  by (auto simp: map_index_def map_find_None split: option.splits)

lemma map_find_empty: "map_find [] = Map.empty"
  by (simp add: fun_eq_iff)

lemma map_spec_effect:
  "distinct (map fst xs) \<Longrightarrow> \<exists>ys. run_spec (map_spec dflt) ops xs = Some ys \<and> distinct (map fst ys) \<and>
     map_find ys = map_effect dflt ops (map_find xs)"
proof (induction ops arbitrary: xs)
  case (Cons op ops)
  show ?case
  proof (cases op)
    case (MapPut k v)
    have "map_find (map_put xs k v) = (map_find xs)(k \<mapsto> v)" by (simp add: fun_eq_iff map_find_put)
    with Cons.IH [OF distinct_put [OF Cons.prems, of k v]] show ?thesis
      by (simp only: MapPut run_spec.simps map_spec.simps map_effect.simps option.case)
  next
    case (MapRead k)
    then show ?thesis using Cons.IH [OF distinct_map_index [OF Cons.prems, of k dflt]] by (simp add: map_index_find)
  next
    case (MapErase k)
    have "map_find (map_erase xs k) = (map_find xs)(k := None)" using Cons.prems by (simp add: fun_eq_iff map_find_erase)
    with Cons.IH [OF distinct_erase [OF Cons.prems, of k]] show ?thesis
      by (simp only: MapErase run_spec.simps map_spec.simps map_effect.simps option.case)
  next
    case MapClear
    then show ?thesis using Cons.IH [of "[]"] by (simp add: map_find_empty)
  qed
qed simp

text \<open>
  \<open>std::map\<close> is a finite map: after any uses of subscript, \<open>erase\<close> and \<open>clear\<close>, \<open>find\<close> of a key gives the end
  exactly when the map that the uses describe has no value for it, and otherwise an iterator to the value; no bad pointer
  is followed on the way.
\<close>

theorem std_map_is_map:
  assumes "new_ok new" and "length ops < fuel"
  shows "\<exists>l. run_ops (map_step dflt new fuel) ops list_new = Inr l \<and>
    (\<forall>k. \<exists>p. std_find fuel k l = Inr p \<and>
      (case map_effect dflt ops Map.empty k of None \<Rightarrow> p = 0 | Some v \<Rightarrow> p \<noteq> 0 \<and> second_of p l = Inr v))"
proof -
  obtain ys where ys: "run_spec (map_spec dflt) ops [] = Some ys" "map_find ys = map_effect dflt ops (map_find [])"
    using map_spec_effect [of "[]" dflt ops] by auto
  then have eff: "map_find ys = map_effect dflt ops Map.empty" by (simp only: map_find_empty)
  obtain l where l: "run_ops (map_step dflt new fuel) ops list_new = Inr l" "\<exists>ps. list_rep l ps ys" "length ys < fuel"
    using map_seq.run_ok [OF _ assms(1) ys(1), of list_new fuel] list_rep_new assms(2) by auto
  then obtain ps where ps: "list_rep l ps ys" by blast
  have "\<exists>p. std_find fuel k l = Inr p \<and>
      (case map_find ys k of None \<Rightarrow> p = 0 | Some v \<Rightarrow> p \<noteq> 0 \<and> second_of p l = Inr v)" for k
  proof (cases "map_find ys k")
    case None
    then show ?thesis using std_find_rep(1) [OF ps l(3)] by (simp add: std_find_def)
  next
    case (Some v)
    then obtain us a vs as bs where u: "ps = us @ a # vs" "ys = as @ (k, v) # bs" "length us = length as" "a \<noteq> 0"
      "map_scan fuel k (sl_begin l) l = Inr a" using std_find_rep(2) [OF ps l(3)] by blast
    then show ?thesis using Some rep_node(1) [of l us a vs as "(k, v)" bs] ps
      by (simp add: std_find_def second_of_def iter_item_def)
  qed
  then show ?thesis using l(1) by (auto simp: eff)
qed

theorem std_map_is_map_witness:
  "\<exists>l. run_ops (map_step (0 :: int) next_address 9) [MapPut (1 :: int) 5, MapPut 2 6, MapErase 1, MapRead 3] list_new = Inr l \<and>
     (\<exists>p. std_find 9 2 l = Inr p \<and> second_of p l = Inr 6) \<and> std_find 9 1 l = Inr 0 \<and> (\<exists>p. std_find 9 3 l = Inr p \<and> second_of p l = Inr 0)"
proof -
  let ?ops = "[MapPut (1 :: int) (5 :: int), MapPut 2 6, MapErase 1, MapRead 3]"
  have e: "map_effect 0 ?ops Map.empty = [2 \<mapsto> 6, 3 \<mapsto> 0]" by (auto simp: fun_eq_iff)
  have "length ?ops < 9" by simp
  from std_map_is_map [OF next_address_ok this, of 0] obtain l where l: "run_ops (map_step 0 next_address 9) ?ops list_new = Inr l"
    "\<And>k. \<exists>p. std_find 9 k l = Inr p \<and> (case [2 \<mapsto> 6, 3 \<mapsto> 0] k of None \<Rightarrow> p = 0 | Some v \<Rightarrow> p \<noteq> 0 \<and> second_of p l = Inr v)"
    unfolding e by blast
  from l(1) l(2) [of 2] l(2) [of 1] l(2) [of 3] show ?thesis by auto
qed

end
