(* ===== verification/Vector.thy ===== *)
theory Vector
  imports Prelude
begin

text \<open>
  \<^verbatim>\<open>src/inc/vector\<close>. Arrays are blocks of cells in a store; a cell that holds no object yet, or no more, is \<open>None\<close>, and
  using it is an error, as is using a block that was deleted. \<open>sz\<close> is \<open>sizeof(T)\<close>; the size of a block is computed
  with 32 bits. Objects have no further parts: \<open>operator =\<close> deletes an array of \<open>u8\<close> as one of \<open>T\<close>, which for a
  \<open>T\<close> with a destructor has no defined meaning.
\<close>

section \<open>Blocks\<close>

type_synonym 'a blocks = "nat \<Rightarrow> 'a option list option"

record vector =
  v_capacity :: u32
  v_size :: u32
  v_array :: nat

definition raw_cells :: "u32 \<Rightarrow> u32 \<Rightarrow> 'a option list" where
  "raw_cells sz n = replicate (unat (sz * n) div unat sz) None"

definition cell_get :: "nat \<Rightarrow> nat \<Rightarrow> 'a blocks \<Rightarrow> 'a result" where
  "cell_get a i h =
     (case h a of
        None \<Rightarrow> Inl NullDeref
      | Some b \<Rightarrow> if i < length b then (case b ! i of None \<Rightarrow> Inl OutOfBounds | Some x \<Rightarrow> Inr x) else Inl OutOfBounds)"

definition cell_put :: "nat \<Rightarrow> nat \<Rightarrow> 'a option \<Rightarrow> 'a blocks \<Rightarrow> 'a blocks result" where
  "cell_put a i x h =
     (case h a of
        None \<Rightarrow> Inl NullDeref
      | Some b \<Rightarrow> if i < length b then Inr (h(a \<mapsto> b[i := x])) else Inl OutOfBounds)"

definition cells_delete :: "nat \<Rightarrow> 'a blocks \<Rightarrow> 'a blocks" where
  "cells_delete a h = (if a = 0 then h else h(a := None))"

section \<open>Operations\<close>

definition vector_new :: vector where
  "vector_new = \<lparr>v_capacity = 0, v_size = 0, v_array = 0\<rparr>"

text \<open>The copy of the first cells of an array to another, and their destruction.\<close>

definition copy_cell :: "nat \<Rightarrow> nat \<Rightarrow> nat \<Rightarrow> 'a blocks \<Rightarrow> 'a blocks result" where
  "copy_cell dest src i h = rbind (cell_get src i h) (\<lambda>x. cell_put dest i (Some x) h)"

definition destroy_cell :: "nat \<Rightarrow> nat \<Rightarrow> 'a blocks \<Rightarrow> 'a blocks result" where
  "destroy_cell a i h = rbind (cell_get a i h) (\<lambda>_. cell_put a i None h)"

definition vector_copy :: "('a blocks \<Rightarrow> nat) \<Rightarrow> u32 \<Rightarrow> vector \<Rightarrow> 'a blocks \<Rightarrow> (vector \<times> 'a blocks) result" where
  "vector_copy new sz r h =
     (let a = new h in
      rbind (for_each (copy_cell a (v_array r)) [0..<unat (v_size r)] (h(a \<mapsto> raw_cells sz (v_capacity r)))) (\<lambda>h1.
      Inr (r\<lparr>v_array := a\<rparr>, h1)))"

definition vector_destroy :: "vector \<Rightarrow> 'a blocks \<Rightarrow> 'a blocks result" where
  "vector_destroy v h =
     (if v_array v = 0 then Inr h
      else rbind (for_each (destroy_cell (v_array v)) [0..<unat (v_size v)] h) (\<lambda>h1. Inr (cells_delete (v_array v) h1)))"

definition vector_assign :: "('a blocks \<Rightarrow> nat) \<Rightarrow> u32 \<Rightarrow> vector \<Rightarrow> vector \<Rightarrow> 'a blocks \<Rightarrow> (vector \<times> 'a blocks) result" where
  "vector_assign new sz v r h =
     (let h1 = cells_delete (v_array v) h; a = new h1 in
      rbind (for_each (copy_cell a (v_array r)) [0..<unat (v_size r)] (h1(a \<mapsto> raw_cells sz (v_capacity r)))) (\<lambda>h2.
      Inr (r\<lparr>v_array := a\<rparr>, h2)))"

text \<open>Assigned to itself, the array it copies from is the new one.\<close>

definition vector_assign_self :: "('a blocks \<Rightarrow> nat) \<Rightarrow> u32 \<Rightarrow> vector \<Rightarrow> 'a blocks \<Rightarrow> (vector \<times> 'a blocks) result" where
  "vector_assign_self new sz v h =
     (let h1 = cells_delete (v_array v) h; a = new h1 in
      rbind (for_each (copy_cell a a) [0..<unat (v_size v)] (h1(a \<mapsto> raw_cells sz (v_capacity v)))) (\<lambda>h2.
      Inr (v\<lparr>v_array := a\<rparr>, h2)))"

definition vector_get :: "u32 \<Rightarrow> vector \<Rightarrow> 'a blocks \<Rightarrow> 'a result" where
  "vector_get n v h = cell_get (v_array v) (unat n) h"

definition move_cell :: "nat \<Rightarrow> nat \<Rightarrow> nat \<Rightarrow> 'a blocks \<Rightarrow> 'a blocks result" where
  "move_cell dest src i h = rbind (copy_cell dest src i h) (destroy_cell src i)"

definition vector_resize :: "('a blocks \<Rightarrow> nat) \<Rightarrow> u32 \<Rightarrow> vector \<Rightarrow> 'a blocks \<Rightarrow> (vector \<times> 'a blocks) result" where
  "vector_resize new sz v h =
     (let cap = (if v_capacity v = 0 then 1 else push_bit 1 (v_capacity v)); a = new h in
      rbind (for_each (move_cell a (v_array v)) [0..<unat (v_size v)] (h(a \<mapsto> raw_cells sz cap))) (\<lambda>h1.
      Inr (v\<lparr>v_capacity := cap, v_array := a\<rparr>, cells_delete (v_array v) h1)))"

text \<open>The argument of \<open>push_back\<close> is a reference: to an object elsewhere, or to a cell.\<close>

datatype 'a vec_ref = Elsewhere 'a | InCell nat nat

definition read_ref :: "'a vec_ref \<Rightarrow> 'a blocks \<Rightarrow> 'a result" where
  "read_ref x h = (case x of Elsewhere y \<Rightarrow> Inr y | InCell a i \<Rightarrow> cell_get a i h)"

definition vector_push_back :: "('a blocks \<Rightarrow> nat) \<Rightarrow> u32 \<Rightarrow> 'a vec_ref \<Rightarrow> vector \<Rightarrow> 'a blocks \<Rightarrow> (vector \<times> 'a blocks) result" where
  "vector_push_back new sz x v h =
     rbind (if v_capacity v = v_size v then vector_resize new sz v h else Inr (v, h)) (\<lambda>(v1, h1).
     rbind (read_ref x h1) (\<lambda>y.
     rbind (cell_put (v_array v1) (unat (v_size v1)) (Some y) h1) (\<lambda>h2.
     Inr (v1\<lparr>v_size := v_size v1 + 1\<rparr>, h2))))"

section \<open>What a vector holds\<close>

definition full_cells :: "'a list \<Rightarrow> nat \<Rightarrow> 'a option list" where
  "full_cells xs n = map Some xs @ replicate n None"

text \<open>No array and nothing in it, or an array of the capacity with the elements first.\<close>

definition vec_rep :: "vector \<Rightarrow> 'a blocks \<Rightarrow> 'a list \<Rightarrow> bool" where
  "vec_rep v h xs \<longleftrightarrow> unat (v_size v) = length xs \<and> length xs \<le> unat (v_capacity v) \<and>
     (v_array v = 0 \<and> v_capacity v = 0 \<or>
      v_array v \<noteq> 0 \<and> h (v_array v) = Some (full_cells xs (unat (v_capacity v) - length xs)))"

definition blocks_ok :: "('a blocks \<Rightarrow> nat) \<Rightarrow> bool" where
  "blocks_ok new \<longleftrightarrow> (\<forall>h. finite (dom h) \<longrightarrow> new h \<noteq> 0 \<and> h (new h) = None)"

lemma raw_cells_fit: "0 < unat sz \<Longrightarrow> unat sz * unat n < 4294967296 \<Longrightarrow> raw_cells sz n = replicate (unat n) None"
  by (simp add: raw_cells_def unat_word_ariths)

lemma full_cells_nth: "i < length xs \<Longrightarrow> full_cells xs n ! i = Some (xs ! i)"
  by (simp add: full_cells_def nth_append)

lemma length_full_cells [simp]: "length (full_cells xs n) = length xs + n"
  by (simp add: full_cells_def)

lemma full_cells_put: "length (ys @ [x]) \<le> m \<Longrightarrow> (full_cells ys (m - length ys))[length ys := Some x] = full_cells (ys @ [x]) (m - Suc (length ys))"
proof -
  assume "length (ys @ [x]) \<le> m"
  then obtain k where "m - length ys = Suc k" "m - Suc (length ys) = k" by (cases "m - length ys") auto
  then show ?thesis by (simp add: full_cells_def list_update_append)
qed

text \<open>The loop of \<open>_resize\<close>: after \<open>n\<close> turns the first \<open>n\<close> elements are in the new array and gone from the old one.\<close>

lemma move_cells:
  assumes "h a = Some b" and "b = replicate (length xs + k) None" and "h s = Some (full_cells xs j)" and "a \<noteq> s"
    and "n \<le> length xs"
  shows "for_each (move_cell a s) [0..<n] h =
    Inr (h(a \<mapsto> full_cells (take n xs) (length xs + k - n), s \<mapsto> replicate n None @ map Some (drop n xs) @ replicate j None))"
  using assms(5)
proof (induction n)
  case 0
  have "h(a \<mapsto> replicate (length xs + k) None, s \<mapsto> map Some xs @ replicate j None) = h"
    using assms(1-4) by (auto simp: fun_eq_iff full_cells_def)
  then show ?case by (simp add: full_cells_def del: fun_upd_apply)
next
  case (Suc n)
  let ?h = "h(a \<mapsto> full_cells (take n xs) (length xs + k - n), s \<mapsto> replicate n None @ map Some (drop n xs) @ replicate j None)"
  have n: "n < length xs" using Suc.prems by simp
  have d: "drop n xs = xs ! n # drop (Suc n) xs" using n by (simp add: Cons_nth_drop_Suc)
  have g: "cell_get s n ?h = Inr (xs ! n)" using assms(4) n by (simp add: cell_get_def d nth_append)
  have put: "(full_cells (take n xs) (length xs + k - n))[n := Some (xs ! n)] = full_cells (take (Suc n) xs) (length xs + k - Suc n)"
    using full_cells_put [of "take n xs" "xs ! n" "length xs + k"] n by (simp add: take_Suc_conv_app_nth)
  have gone: "(replicate n None @ map Some (drop n xs) @ replicate j None)[n := None] =
      replicate (Suc n) None @ map Some (drop (Suc n) xs) @ replicate j None"
    by (simp add: d list_update_append replicate_append_same [symmetric] del: replicate_Suc) (simp add: replicate_append_same)
  let ?w = "\<lambda>x y. h(a \<mapsto> x, s \<mapsto> y)"
  have w: "(?w x y)(a \<mapsto> x') = ?w x' y" "(?w x y)(s \<mapsto> y') = ?w x y'" for x x' y y' using assms(4) by (simp_all add: fun_eq_iff)
  have "cell_put a n (Some (xs ! n)) ?h = Inr (?w (full_cells (take (Suc n) xs) (length xs + k - Suc n))
      (replicate n None @ map Some (drop n xs) @ replicate j None))"
    using n assms(4) by (simp only: w put [symmetric]) (simp add: cell_put_def w(1) [symmetric] del: fun_upd_apply, simp add: fun_upd_twist)
  moreover have "destroy_cell s n (?w x (replicate n None @ map Some (drop n xs) @ replicate j None)) =
      Inr (?w x (replicate (Suc n) None @ map Some (drop (Suc n) xs) @ replicate j None))" for x
    using n unfolding gone [symmetric] by (simp add: destroy_cell_def cell_get_def cell_put_def d nth_append del: replicate_Suc)
  ultimately have "move_cell a s n ?h = Inr (?w (full_cells (take (Suc n) xs) (length xs + k - Suc n))
      (replicate (Suc n) None @ map Some (drop (Suc n) xs) @ replicate j None))"
    using g by (simp only: move_cell_def copy_cell_def rbind_Inr)
  then show ?case using Suc.IH n by (simp add: for_each_append del: fun_upd_apply)
qed

lemma vector_resize_rep:
  assumes "vec_rep v h xs" and "blocks_ok new" and "finite (dom h)" and "length xs = unat (v_capacity v)"
    and "0 < unat sz" and "unat sz * (2 * length xs + 1) < 4294967296"
  obtains v' h' where "vector_resize new sz v h = Inr (v', h')" and "vec_rep v' h' xs" and "v_size v' = v_size v"
    and "unat (v_capacity v') = (if xs = [] then 1 else 2 * length xs)"
    and "\<And>b. b \<noteq> v_array v \<or> b = 0 \<Longrightarrow> b \<noteq> v_array v' \<Longrightarrow> h' b = h b" and "v_array v' \<noteq> v_array v"
    and "v_array v \<noteq> 0 \<Longrightarrow> h' (v_array v) = None" and "h (v_array v') = None" and "v_array v' \<noteq> 0"
proof -
  define a where "a = new h"
  define cap where "cap = (if v_capacity v = 0 then 1 else push_bit 1 (v_capacity v))"
  have a: "a \<noteq> 0" "h a = None" using assms(2,3) by (simp_all add: a_def blocks_ok_def)
  have z: "v_capacity v = 0 \<longleftrightarrow> xs = []" using assms(4) by (metis length_0_conv unat_eq_zero)
  have bound: "2 * length xs < 4294967296"
  proof -
    have "2 * length xs + 1 \<le> unat sz * (2 * length xs + 1)" using assms(5) by (cases "unat sz") simp_all
    then show ?thesis using assms(6) by linarith
  qed
  have cap: "unat cap = (if xs = [] then 1 else 2 * length xs)"
  proof (cases "xs = []")
    case False
    then have "cap = v_capacity v * 2" using z by (simp add: cap_def push_bit_eq_mult)
    then show ?thesis using False bound assms(4) by (simp add: unat_word_ariths)
  qed (simp add: cap_def z)
  have "unat sz * unat cap \<le> unat sz * (2 * length xs + 1)" using cap by (intro mult_le_mono2) simp
  then have raw: "raw_cells sz cap = replicate (unat cap) None" using assms(5,6) by (intro raw_cells_fit) simp_all
  define k where "k = unat cap - length xs"
  have k: "unat cap = length xs + k" using cap by (auto simp: k_def)
  have sz: "unat (v_size v) = length xs" using assms(1) by (simp add: vec_rep_def)
  let ?h0 = "h(a \<mapsto> raw_cells sz cap)"
  let ?v = "v\<lparr>v_capacity := cap, v_array := a\<rparr>"
  show thesis
  proof (cases "v_array v = 0")
    case True
    then have "xs = []" using assms(1,4) by (simp add: vec_rep_def)
    then have "vector_resize new sz v h = Inr (?v, ?h0)"
      using sz True by (simp add: vector_resize_def Let_def cap_def [symmetric] a_def [symmetric] cells_delete_def)
    then show thesis by (rule that) (use a sz True \<open>xs = []\<close> raw cap k in \<open>auto simp: vec_rep_def full_cells_def\<close>)
  next
    case False
    let ?s = "v_array v"
    have s: "h ?s = Some (full_cells xs 0)" using assms(1,4) False by (simp add: vec_rep_def)
    have ne: "a \<noteq> ?s" using a(2) s by auto
    have "for_each (move_cell a ?s) [0..<length xs] ?h0 = Inr (?h0(a \<mapsto> full_cells (take (length xs) xs) (length xs + k - length xs),
        ?s \<mapsto> replicate (length xs) None @ map Some (drop (length xs) xs) @ replicate 0 None))"
      by (rule move_cells) (use raw k s ne in simp_all)
    then have "vector_resize new sz v h = Inr (?v, cells_delete ?s (?h0(a \<mapsto> full_cells xs k, ?s \<mapsto> replicate (length xs) None)))"
      by (simp add: vector_resize_def Let_def cap_def [symmetric] a_def [symmetric] sz)
    then show thesis by (rule that) (use a sz False ne cap k in \<open>auto simp: vec_rep_def cells_delete_def\<close>)
  qed
qed

text \<open>The capacities that doubling leads to: the smallest power of two that is enough.\<close>

definition capacity_for :: "nat \<Rightarrow> nat \<Rightarrow> bool" where
  "capacity_for n cap \<longleftrightarrow> n = 0 \<and> cap = 0 \<or> (\<exists>k. cap = 2 ^ k) \<and> n \<le> cap \<and> cap < 2 * n"

text \<open>The blocks of a vector on a store \<open>h0\<close>: its array, if it has one, and nothing else.\<close>

definition vec_owns :: "'a blocks \<Rightarrow> vector \<Rightarrow> 'a blocks \<Rightarrow> bool" where
  "vec_owns h0 v h \<longleftrightarrow> (\<forall>b. b \<noteq> v_array v \<or> b = 0 \<longrightarrow> h b = h0 b) \<and> (v_array v \<noteq> 0 \<longrightarrow> h0 (v_array v) = None)"

definition vec_ok :: "'a blocks \<Rightarrow> vector \<Rightarrow> 'a blocks \<Rightarrow> 'a list \<Rightarrow> bool" where
  "vec_ok h0 v h xs \<longleftrightarrow> vec_rep v h xs \<and> vec_owns h0 v h \<and> capacity_for (length xs) (unat (v_capacity v))"

lemma vec_owns_finite: "vec_owns h0 v h \<Longrightarrow> finite (dom h0) \<Longrightarrow> finite (dom h)"
  by (rule finite_subset [of _ "insert (v_array v) (dom h0)"]) (auto simp: vec_owns_def dom_def)

lemma vector_new_ok: "vec_ok h vector_new h []"
  by (simp add: vec_ok_def vec_rep_def vec_owns_def capacity_for_def vector_new_def)

lemma capacity_for_step:
  assumes "capacity_for n c" and "n < c"
  shows "capacity_for (Suc n) c"
  using assms by (auto simp: capacity_for_def)

lemma capacity_for_double:
  assumes "capacity_for n n"
  shows "capacity_for (Suc n) (if n = 0 then 1 else 2 * n)"
proof (cases "n = 0")
  case True
  then show ?thesis by (auto simp: capacity_for_def intro: exI [of _ 0])
next
  case False
  with assms obtain k where "n = 2 ^ k" by (auto simp: capacity_for_def)
  then have "2 * n = 2 ^ Suc k" by simp
  moreover have "Suc n \<le> 2 * n" "2 * n < 2 * Suc n" using False by simp_all
  ultimately have "\<exists>k. 2 * n = 2 ^ k" "Suc n \<le> 2 * n" "2 * n < 2 * Suc n" by blast+
  then show ?thesis using False unfolding capacity_for_def by (simp only: if_False simp_thms)
qed

lemma cell_put_last:
  assumes "vec_rep v h xs" and "v_array v \<noteq> 0" and "length xs < unat (v_capacity v)"
  shows "\<exists>h'. cell_put (v_array v) (unat (v_size v)) (Some x) h = Inr h' \<and> vec_rep (v\<lparr>v_size := v_size v + 1\<rparr>) h' (xs @ [x]) \<and>
    (\<forall>b. b \<noteq> v_array v \<longrightarrow> h' b = h b)"
proof -
  let ?c = "unat (v_capacity v)"
  have b: "h (v_array v) = Some (full_cells xs (?c - length xs))" "unat (v_size v) = length xs"
    using assms(1,2) by (simp_all add: vec_rep_def)
  have "?c < 4294967296" by simp
  then have "Suc (unat (v_size v)) < 4294967296" using b(2) assms(3) by linarith
  then have "unat (v_size v + 1) = Suc (length xs)" using b(2) by (simp add: unat_word_ariths)
  moreover have "(full_cells xs (?c - length xs))[length xs := Some x] = full_cells (xs @ [x]) (?c - Suc (length xs))"
    using full_cells_put [of xs x ?c] assms(3) by simp
  ultimately show ?thesis using b assms(2,3) by (simp add: cell_put_def vec_rep_def)
qed

lemma vector_push_back_ok:
  assumes "vec_ok h0 v h xs" and "blocks_ok new" and "finite (dom h0)" and "0 < unat sz" and "unat sz * (2 * length xs + 1) < 4294967296"
  obtains v' h' where "vector_push_back new sz (Elsewhere x) v h = Inr (v', h')" and "vec_ok h0 v' h' (xs @ [x])"
proof -
  have v: "vec_rep v h xs" "vec_owns h0 v h" "capacity_for (length xs) (unat (v_capacity v))" using assms(1) by (simp_all add: vec_ok_def)
  have fin: "finite (dom h)" by (rule vec_owns_finite [OF v(2) assms(3)])
  have size: "unat (v_size v) = length xs" using v(1) by (simp add: vec_rep_def)
  have "\<exists>v1 h1. (if v_capacity v = v_size v then vector_resize new sz v h else Inr (v, h)) = Inr (v1, h1) \<and>
      vec_rep v1 h1 xs \<and> vec_owns h0 v1 h1 \<and> v_array v1 \<noteq> 0 \<and> length xs < unat (v_capacity v1) \<and>
      capacity_for (Suc (length xs)) (unat (v_capacity v1))"
  proof (cases "v_capacity v = v_size v")
    case True
    then have full: "length xs = unat (v_capacity v)" using size by simp
    obtain v1 h1 where r: "vector_resize new sz v h = Inr (v1, h1)" "vec_rep v1 h1 xs"
      "unat (v_capacity v1) = (if xs = [] then 1 else 2 * length xs)"
      "\<And>b. b \<noteq> v_array v \<or> b = 0 \<Longrightarrow> b \<noteq> v_array v1 \<Longrightarrow> h1 b = h b" "v_array v1 \<noteq> v_array v"
      "v_array v \<noteq> 0 \<Longrightarrow> h1 (v_array v) = None" "h (v_array v1) = None" "v_array v1 \<noteq> 0"
      by (rule vector_resize_rep [OF v(1) assms(2) fin full assms(4,5)]) (rule that)
    have old: "\<And>b. b \<noteq> v_array v \<or> b = 0 \<Longrightarrow> h b = h0 b" "v_array v \<noteq> 0 \<Longrightarrow> h0 (v_array v) = None"
      using v(2) by (auto simp: vec_owns_def)
    have "h1 b = h0 b" if "b \<noteq> v_array v1 \<or> b = 0" for b
    proof (cases "b \<noteq> v_array v \<or> b = 0")
      case True
      then show ?thesis using r(4) [of b] old(1) [of b] that r(8) by auto
    next
      case False
      then show ?thesis using r(6) old(2) by simp
    qed
    moreover have "h0 (v_array v1) = None" using old(1) [of "v_array v1"] r(5,7) by simp
    ultimately have "vec_owns h0 v1 h1" by (simp add: vec_owns_def)
    moreover have "capacity_for (Suc (length xs)) (unat (v_capacity v1))"
      using capacity_for_double [of "length xs"] v(3) full r(3) by (auto split: if_splits)
    ultimately show ?thesis using True r(1-3,8) by (cases xs) auto
  next
    case False
    then have "length xs < unat (v_capacity v)" using v(1) size by (metis le_neq_implies_less vec_rep_def word_unat_eq_iff)
    moreover from this have "v_array v \<noteq> 0" using v(1) by (auto simp: vec_rep_def)
    ultimately show ?thesis using False v capacity_for_step by auto
  qed
  then obtain v1 h1 where one: "(if v_capacity v = v_size v then vector_resize new sz v h else Inr (v, h)) = Inr (v1, h1)"
      "vec_rep v1 h1 xs" "vec_owns h0 v1 h1" "v_array v1 \<noteq> 0" "length xs < unat (v_capacity v1)"
      "capacity_for (Suc (length xs)) (unat (v_capacity v1))" by blast
  from cell_put_last [OF one(2,4,5), of x] obtain h2 where h2: "cell_put (v_array v1) (unat (v_size v1)) (Some x) h1 = Inr h2"
    "vec_rep (v1\<lparr>v_size := v_size v1 + 1\<rparr>) h2 (xs @ [x])" "\<forall>b. b \<noteq> v_array v1 \<longrightarrow> h2 b = h1 b" by blast
  have run: "vector_push_back new sz (Elsewhere x) v h = Inr (v1\<lparr>v_size := v_size v1 + 1\<rparr>, h2)"
    using one(1) h2(1) by (simp add: vector_push_back_def read_ref_def)
  have "vec_ok h0 (v1\<lparr>v_size := v_size v1 + 1\<rparr>) h2 (xs @ [x])"
    using one(3,4,6) h2(2,3) by (simp add: vec_ok_def vec_owns_def)
  with run show thesis by (rule that)
qed

lemma vec_get:
  assumes "vec_rep v h xs" and "i < length xs"
  shows "vector_get (of_nat i) v h = Inr (xs ! i)"
proof -
  have "v_array v \<noteq> 0" "h (v_array v) = Some (full_cells xs (unat (v_capacity v) - length xs))" "unat (v_size v) = length xs"
    using assms by (auto simp: vec_rep_def)
  moreover from this(3) assms(2) have "unat (of_nat i :: u32) = i"
    using unat_lt_u32 [of "v_size v"] by (simp add: unat_of_nat take_bit_nat_eq_self)
  ultimately show ?thesis using assms(2) by (simp add: vector_get_def cell_get_def full_cells_nth)
qed

definition push_all :: "('a blocks \<Rightarrow> nat) \<Rightarrow> u32 \<Rightarrow> 'a list \<Rightarrow> vector \<times> 'a blocks \<Rightarrow> (vector \<times> 'a blocks) result" where
  "push_all new sz = for_each (\<lambda>x (v, h). vector_push_back new sz (Elsewhere x) v h)"

text \<open>
  A vector grown with \<open>push_back\<close> holds what was pushed, in order, as long as twice its size fits into 32 bits: its capacity
  is the smallest power of two that is enough, every element is read back, and it owns exactly one block of
  memory, whatever it outgrew having been released and no other block touched.
\<close>

theorem vector_holds_pushed:
  assumes "blocks_ok new" and "finite (dom h0)" and "0 < unat sz" and "unat sz * (2 * length xs) < 4294967296"
  shows "\<exists>v h. push_all new sz xs (vector_new, h0) = Inr (v, h) \<and> unat (v_size v) = length xs \<and>
    (\<forall>i < length xs. vector_get (of_nat i) v h = Inr (xs ! i)) \<and> capacity_for (length xs) (unat (v_capacity v)) \<and>
    (\<forall>b. b \<noteq> v_array v \<longrightarrow> h b = h0 b) \<and> (xs \<noteq> [] \<longrightarrow> h0 (v_array v) = None \<and> h (v_array v) \<noteq> None)"
proof -
  have "\<exists>v h. push_all new sz xs (vector_new, h0) = Inr (v, h) \<and> vec_ok h0 v h xs"
    using assms(4)
  proof (induction xs rule: rev_induct)
    case Nil
    then show ?case using vector_new_ok by (auto simp: push_all_def)
  next
    case (snoc x xs)
    have le: "unat sz * (2 * length xs) \<le> unat sz * (2 * length (xs @ [x]))" "unat sz * (2 * length xs + 1) \<le> unat sz * (2 * length (xs @ [x]))"
      by (intro mult_le_mono2; simp)+
    then have "unat sz * (2 * length xs) < 4294967296" using snoc.prems by linarith
    then obtain v h where "push_all new sz xs (vector_new, h0) = Inr (v, h)" and ok: "vec_ok h0 v h xs" using snoc.IH by blast
    moreover have "unat sz * (2 * length xs + 1) < 4294967296" using le(2) snoc.prems by linarith
    then obtain v' h' where "vector_push_back new sz (Elsewhere x) v h = Inr (v', h')" "vec_ok h0 v' h' (xs @ [x])"
      by (rule vector_push_back_ok [OF ok assms(1,2,3)])
    ultimately show ?case by (auto simp: push_all_def for_each_append)
  qed
  then obtain v h where run: "push_all new sz xs (vector_new, h0) = Inr (v, h)" and ok: "vec_ok h0 v h xs" by blast
  have rep: "vec_rep v h xs" using ok by (simp add: vec_ok_def)
  have "v_array v \<noteq> 0" if "xs \<noteq> []" using rep that by (auto simp: vec_rep_def)
  then show ?thesis using run ok rep vec_get [OF rep] unfolding vec_ok_def vec_owns_def vec_rep_def by fastforce
qed

definition next_block :: "'a blocks \<Rightarrow> nat" where
  "next_block h = Suc (Max (insert 0 (dom h)))"

lemma next_block_ok: "blocks_ok next_block"
  unfolding blocks_ok_def
proof (intro allI impI conjI)
  fix h :: "'a blocks" assume fin: "finite (dom h)"
  have "next_block h \<notin> dom h"
  proof
    assume "next_block h \<in> dom h"
    then have "next_block h \<le> Max (insert 0 (dom h))" using fin by (intro Max_ge) auto
    then show False by (simp add: next_block_def)
  qed
  then show "h (next_block h) = None" by auto
qed (simp add: next_block_def)

theorem vector_holds_pushed_witness:
  "\<exists>v h. push_all next_block 4 [7, 8, 9 :: int] (vector_new, Map.empty) = Inr (v, h) \<and> vector_get 2 v h = Inr 9 \<and>
     unat (v_capacity v) = 4"
proof -
  have "unat (4 :: u32) * (2 * length [7, 8, 9 :: int]) < 4294967296" "finite (dom (Map.empty :: int blocks))" "0 < unat (4 :: u32)" by simp_all
  from vector_holds_pushed [OF next_block_ok this(2,3,1)] obtain v h where
    v: "push_all next_block 4 [7, 8, 9 :: int] (vector_new, Map.empty) = Inr (v, h)"
      "\<forall>i < length [7, 8, 9 :: int]. vector_get (of_nat i) v h = Inr ([7, 8, 9] ! i)"
      "capacity_for (length [7, 8, 9 :: int]) (unat (v_capacity v))" by blast
  obtain k where k: "unat (v_capacity v) = 2 ^ k" "3 \<le> (2 :: nat) ^ k" "(2 :: nat) ^ k < 6"
    using v(3) by (auto simp: capacity_for_def)
  have "k = 2"
  proof (rule ccontr)
    assume "k \<noteq> 2"
    then consider "k \<le> 1" | "3 \<le> k" by linarith
    then show False
    proof cases
      case 1
      then have "(2 :: nat) ^ k \<le> 2 ^ 1" by (intro power_increasing) simp_all
      then show False using k(2) by simp
    next
      case 2
      then have "(2 :: nat) ^ 3 \<le> 2 ^ k" by (intro power_increasing) simp_all
      then show False using k(3) by simp
    qed
  qed
  then show ?thesis using v(1) v(2) [rule_format, of 2] k(1) by simp
qed

text \<open>An element of a full vector pushed on it is read after the array it is in was released.\<close>

lemma vector_push_back_own:
  assumes "vec_rep v h xs" and "blocks_ok new" and "finite (dom h)" and "v_capacity v = v_size v" and "xs \<noteq> []"
    and "0 < unat sz" and "unat sz * (2 * length xs + 1) < 4294967296"
  shows "vector_push_back new sz (InCell (v_array v) i) v h = Inl NullDeref"
proof -
  have full: "length xs = unat (v_capacity v)" using assms(1,4) by (simp add: vec_rep_def)
  have ne: "v_array v \<noteq> 0" using assms(1,5) by (auto simp: vec_rep_def)
  obtain v' h' where "vector_resize new sz v h = Inr (v', h')" "h' (v_array v) = None"
    using vector_resize_rep [OF assms(1-3) full assms(6,7)] ne by metis
  then show ?thesis using assms(4) by (simp add: vector_push_back_def read_ref_def cell_get_def)
qed

end
