(* ===== verification/CountedPtr.thy ===== *)
theory CountedPtr
  imports Prelude
begin

text \<open>
  \<^verbatim>\<open>src/inc/counted_ptr\<close>: pointers that share a counter, the last of which deletes the object. The pointers of a
  program are named; counters and objects live at addresses. Using a counter or deleting an object that does not
  exist is an error.
\<close>

section \<open>Operations\<close>

record counted_state =
  cs_handle :: "nat \<Rightarrow> (nat \<times> nat) option"
  cs_counter :: "nat \<Rightarrow> u32 option"
  cs_object :: "nat set"

abbreviation cs_upd_counter :: "nat \<Rightarrow> u32 option \<Rightarrow> counted_state \<Rightarrow> counted_state" where
  "cs_upd_counter c x s \<equiv> s\<lparr>cs_counter := (cs_counter s)(c := x)\<rparr>"

definition ref_of :: "nat \<Rightarrow> counted_state \<Rightarrow> (nat \<times> nat) result" where
  "ref_of h s = (case cs_handle s h of None \<Rightarrow> Inl NullDeref | Some r \<Rightarrow> Inr r)"

definition count_at :: "nat \<Rightarrow> counted_state \<Rightarrow> u32 result" where
  "count_at c s = (case cs_counter s c of None \<Rightarrow> Inl NullDeref | Some n \<Rightarrow> Inr n)"

definition counted_new :: "(counted_state \<Rightarrow> nat) \<Rightarrow> nat \<Rightarrow> nat \<Rightarrow> counted_state \<Rightarrow> counted_state result" where
  "counted_new new h p s =
     (let c = new s in
      Inr (s\<lparr>cs_counter := (cs_counter s)(c \<mapsto> 1), cs_handle := (cs_handle s)(h \<mapsto> (p, c))\<rparr>))"

definition counted_copy :: "nat \<Rightarrow> nat \<Rightarrow> counted_state \<Rightarrow> counted_state result" where
  "counted_copy h r s =
     rbind (ref_of r s) (\<lambda>(p, c). rbind (count_at c s) (\<lambda>n.
     Inr (s\<lparr>cs_handle := (cs_handle s)(h \<mapsto> (p, c)), cs_counter := (cs_counter s)(c \<mapsto> n + 1)\<rparr>)))"

definition counted_release :: "nat \<Rightarrow> counted_state \<Rightarrow> counted_state result" where
  "counted_release h s =
     rbind (ref_of h s) (\<lambda>(p, c). rbind (count_at c s) (\<lambda>n.
     if n - 1 = 0
     then if p = 0 then Inr (cs_upd_counter c None s)
          else if p \<in> cs_object s then Inr ((cs_upd_counter c None s)\<lparr>cs_object := cs_object s - {p}\<rparr>)
          else Inl NullDeref
     else Inr (cs_upd_counter c (Some (n - 1)) s)))"

definition counted_drop :: "nat \<Rightarrow> counted_state \<Rightarrow> counted_state result" where
  "counted_drop h s = rbind (counted_release h s) (\<lambda>s1. Inr (s1\<lparr>cs_handle := (cs_handle s1)(h := None)\<rparr>))"

definition counted_assign :: "nat \<Rightarrow> nat \<Rightarrow> counted_state \<Rightarrow> counted_state result" where
  "counted_assign h r s = (if h = r then Inr s else rbind (counted_release h s) (counted_copy h r))"

definition counted_eq :: "nat \<Rightarrow> nat \<Rightarrow> counted_state \<Rightarrow> bool result" where
  "counted_eq h r s = rbind (ref_of h s) (\<lambda>(p, _). rbind (ref_of r s) (\<lambda>(q, _). Inr (q = p)))"

definition counted_unique :: "nat \<Rightarrow> counted_state \<Rightarrow> bool result" where
  "counted_unique h s = rbind (ref_of h s) (\<lambda>(_, c). rbind (count_at c s) (\<lambda>n. Inr (n = 1)))"

definition counted_get :: "nat \<Rightarrow> counted_state \<Rightarrow> nat result" where
  "counted_get h s = rbind (ref_of h s) (\<lambda>(p, _). Inr p)"

section \<open>Counters count\<close>

definition sharers :: "(nat \<Rightarrow> (nat \<times> nat) option) \<Rightarrow> nat \<Rightarrow> nat set" where
  "sharers H c = {h. \<exists>p. H h = Some (p, c)}"

definition objects_of :: "(nat \<Rightarrow> (nat \<times> nat) option) \<Rightarrow> nat set" where
  "objects_of H = {p. p \<noteq> 0 \<and> (\<exists>h c. H h = Some (p, c))}"

text \<open>
  Every counter in use counts its pointers, no other counter exists; the pointers of a counter point to one object, those of
  different counters to different ones; the objects that exist are those that are pointed to.
\<close>

definition one_to_one :: "(nat \<Rightarrow> (nat \<times> nat) option) \<Rightarrow> bool" where
  "one_to_one H \<longleftrightarrow> (\<forall>h h' p p' c c'. H h = Some (p, c) \<longrightarrow> H h' = Some (p', c') \<longrightarrow>
     (c = c' \<longrightarrow> p = p') \<and> (p = p' \<longrightarrow> p \<noteq> 0 \<longrightarrow> c = c'))"

definition counts :: "(nat \<Rightarrow> (nat \<times> nat) option) \<Rightarrow> counted_state \<Rightarrow> bool" where
  "counts H s \<longleftrightarrow> finite (dom H) \<and> one_to_one H \<and> cs_object s = objects_of H \<and>
     (\<forall>c. cs_counter s c = (if sharers H c = {} then None else Some (of_nat (card (sharers H c)))))"

definition counted_ok :: "counted_state \<Rightarrow> bool" where
  "counted_ok s \<longleftrightarrow> counts (cs_handle s) s"

lemma sharers_upd:
  "sharers (H(h := None)) c = sharers H c - {h}"
  "H h = None \<Longrightarrow> sharers (H(h \<mapsto> (p, c'))) c = (if c = c' then insert h (sharers H c) else sharers H c)"
  by (auto simp: sharers_def)

lemma finite_sharers: "finite (dom H) \<Longrightarrow> finite (sharers H c)"
  by (rule finite_subset [of _ "dom H"]) (auto simp: sharers_def)

lemma card_sharers: "finite (dom H) \<Longrightarrow> card (sharers H c) \<le> card (dom H)"
  by (rule card_mono) (auto simp: sharers_def)

definition pointed :: "(nat \<Rightarrow> (nat \<times> nat) option) \<Rightarrow> nat \<Rightarrow> bool" where
  "pointed H q \<longleftrightarrow> (\<exists>h c. H h = Some (q, c))"

lemma objects_pointed: "objects_of H = {q. q \<noteq> 0 \<and> pointed H q}"
  by (simp add: objects_of_def pointed_def)

lemma objects_of_upd:
  assumes "H h = None"
  shows "objects_of (H(h \<mapsto> (p, c))) = objects_of H \<union> ({p} - {0})"
proof -
  have "(\<exists>g d. (H(h \<mapsto> (p, c))) g = Some (q, d)) \<longleftrightarrow> q = p \<or> (\<exists>g d. H g = Some (q, d))" for q
  proof
    assume "q = p \<or> (\<exists>g d. H g = Some (q, d))"
    then show "\<exists>g d. (H(h \<mapsto> (p, c))) g = Some (q, d)"
    proof
      assume "\<exists>g d. H g = Some (q, d)"
      then obtain g d where "H g = Some (q, d)" by blast
      moreover from this have "g \<noteq> h" using assms by auto
      ultimately show ?thesis by (intro exI [of _ g] exI [of _ d]) simp
    qed auto
  qed (auto split: if_splits)
  then show ?thesis unfolding objects_of_def by blast
qed

lemma of_nat_u32_zero: "m < 4294967296 \<Longrightarrow> (of_nat m :: u32) = 0 \<longleftrightarrow> m = 0"
  by (simp add: word_eq_unat unat_of_nat take_bit_nat_eq_self)

lemma one_to_one_del: "one_to_one H \<Longrightarrow> one_to_one (H(h := None))"
  unfolding one_to_one_def by (metis fun_upd_apply option.distinct(1))

lemma release_counts:
  assumes "counts (cs_handle s) s" and "cs_handle s h = Some (p, c)" and "card (dom (cs_handle s)) < 2147483648"
  obtains s' where "counted_release h s = Inr s'" and "cs_handle s' = cs_handle s" and "counts ((cs_handle s)(h := None)) s'"
proof -
  let ?H = "cs_handle s"
  let ?S = "sharers ?H c"
  note k = assms(1) [unfolded counts_def]
  have fin: "finite ?S" using k finite_sharers by blast
  have h: "h \<in> ?S" using assms(2) by (auto simp: sharers_def)
  have small: "card ?S < 2147483648" using card_sharers [of ?H c] k assms(3) by linarith
  have n: "cs_counter s c = Some (of_nat (card ?S))" using k h by auto
  have pos: "0 < card ?S" using fin h by (metis card_gt_0_iff empty_iff)
  have less: "(of_nat (card ?S) :: u32) - 1 = of_nat (card ?S - 1)" using pos by (simp add: of_nat_diff)
  have del: "card (?S - {h}) = card ?S - 1" using fin h by simp
  have one: "one_to_one (?H(h := None))" "finite (dom (?H(h := None)))" using k by (auto intro: one_to_one_del)
  have zero: "(of_nat (card ?S) :: u32) - 1 = 0 \<longleftrightarrow> card ?S = 1"
    unfolding less using small pos of_nat_u32_zero [of "card ?S - 1"] by linarith
  have sh: "sharers (?H(h := None)) d = (if d = c then ?S - {h} else sharers ?H d)" for d using assms(2) by (auto simp: sharers_def)
  show thesis
  proof (cases "card ?S = 1")
    case True
    then have S: "?S = {h}" using h by (metis card_1_singletonE singletonD)
    have gone: "objects_of (?H(h := None)) = objects_of ?H - (if p = 0 then {} else {p})"
    proof -
      have "h' = h" if "?H h' = Some (p, c')" "p \<noteq> 0" for h' c'
      proof -
        have "c' = c" using k that assms(2) unfolding one_to_one_def by blast
        then show ?thesis using S that(1) by (auto simp: sharers_def)
      qed
      then have "pointed (?H(h := None)) q \<longleftrightarrow> pointed ?H q \<and> (q = p \<longrightarrow> q = 0)" if "q \<noteq> 0" for q
        using that assms(2) unfolding pointed_def by (metis fun_upd_apply option.distinct(1) option.inject prod.inject)
      then show ?thesis by (auto simp: objects_pointed simp del: fun_upd_apply)
    qed
    have "p = 0 \<or> p \<in> cs_object s" using k assms(2) by (auto simp: objects_of_def)
    then have run: "counted_release h s = Inr ((cs_upd_counter c None s)\<lparr>cs_object := cs_object s - (if p = 0 then {} else {p})\<rparr>)"
      using n zero True assms(2) by (auto simp: counted_release_def ref_of_def count_at_def)
    let ?s = "(cs_upd_counter c None s)\<lparr>cs_object := cs_object s - (if p = 0 then {} else {p})\<rparr>"
    have cnt: "cs_counter s d = (if sharers ?H d = {} then None else Some (of_nat (card (sharers ?H d))))" for d using k by blast
    have "cs_counter ?s d = (if sharers (?H(h := None)) d = {} then None else Some (of_nat (card (sharers (?H(h := None)) d))))" for d
      unfolding sh using cnt [of d] S by (cases "d = c") simp_all
    moreover have "cs_object s = objects_of ?H" using k by blast
    then have "cs_object ?s = objects_of (?H(h := None))" unfolding gone by simp
    ultimately have "counts (?H(h := None)) ?s" using one unfolding counts_def by blast
    then show thesis by (intro that [OF run]) simp_all
  next
    case False
    then have "0 < card (?S - {h})" using del pos by linarith
    then have many: "?S - {h} \<noteq> {}" by (rule contrapos_pn) (simp only: card.empty)
    then obtain h' where h': "h' \<noteq> h" "?H h' = Some (p, c)" using k assms(2) unfolding one_to_one_def sharers_def by blast
    have same: "objects_of (?H(h := None)) = objects_of ?H"
    proof -
      have "\<exists>g c'. g \<noteq> h \<and> ?H g = Some (q, c')" if "?H g = Some (q, c')" for g q c'
        using that h' assms(2) by (cases "g = h") auto
      then have "(\<exists>g d. (?H(h := None)) g = Some (q, d)) \<longleftrightarrow> (\<exists>g d. ?H g = Some (q, d))" for q
        by (metis fun_upd_apply option.distinct(1))
      then show ?thesis unfolding objects_of_def by (simp only:)
    qed
    have run: "counted_release h s = Inr (cs_upd_counter c (Some (of_nat (card ?S - 1))) s)"
      using n zero False less assms(2) by (auto simp: counted_release_def ref_of_def count_at_def)
    let ?s = "cs_upd_counter c (Some (of_nat (card ?S - 1))) s"
    have cnt: "cs_counter s d = (if sharers ?H d = {} then None else Some (of_nat (card (sharers ?H d))))" for d using k by blast
    have "cs_counter ?s d = (if sharers (?H(h := None)) d = {} then None else Some (of_nat (card (sharers (?H(h := None)) d))))" for d
      unfolding sh using cnt [of d] many del by (cases "d = c") simp_all
    moreover have "cs_object s = objects_of ?H" using k by blast
    then have "cs_object ?s = objects_of (?H(h := None))" unfolding same by simp
    ultimately have "counts (?H(h := None)) ?s" using one unfolding counts_def by blast
    then show thesis by (intro that [OF run]) simp_all
  qed
qed

lemma copy_counts:
  assumes "counts H s" and "H h = None" and "H r = Some (p, c)" and "cs_handle s r = Some (p, c)"
  obtains s' where "counted_copy h r s = Inr s'" and "cs_handle s' = (cs_handle s)(h \<mapsto> (p, c))" and "counts (H(h \<mapsto> (p, c))) s'"
proof -
  let ?S = "sharers H c"
  note k = assms(1) [unfolded counts_def]
  have r: "r \<in> ?S" "h \<notin> ?S" using assms(2,3) by (auto simp: sharers_def)
  have n: "cs_counter s c = Some (of_nat (card ?S))" using k r by auto
  have ins: "card (insert h ?S) = Suc (card ?S)" using k r finite_sharers [of H c] by simp
  have run: "counted_copy h r s =
      Inr (s\<lparr>cs_handle := (cs_handle s)(h \<mapsto> (p, c)), cs_counter := (cs_counter s)(c \<mapsto> of_nat (card ?S) + 1)\<rparr>)"
    using assms(4) n by (simp add: counted_copy_def ref_of_def count_at_def)
  have same: "objects_of (H(h \<mapsto> (p, c))) = objects_of H" using objects_of_upd [of H h p c] assms(2,3) by (auto simp: objects_of_def)
  have "one_to_one (H(h \<mapsto> (p, c)))" unfolding one_to_one_def
  proof (intro allI impI)
    fix g g' q q' d d'
    assume g: "(H(h \<mapsto> (p, c))) g = Some (q, d)" "(H(h \<mapsto> (p, c))) g' = Some (q', d')"
    have "\<exists>x. H x = Some (q, d)" "\<exists>x. H x = Some (q', d')" using g assms(3) by (auto split: if_splits)
    then show "(d = d' \<longrightarrow> q = q') \<and> (q = q' \<longrightarrow> q \<noteq> 0 \<longrightarrow> d = d')" using k unfolding one_to_one_def by blast
  qed
  then have "counts (H(h \<mapsto> (p, c))) (s\<lparr>cs_handle := (cs_handle s)(h \<mapsto> (p, c)), cs_counter := (cs_counter s)(c \<mapsto> of_nat (card ?S) + 1)\<rparr>)"
    using k same ins assms(2) by (auto simp: counts_def sharers_upd add.commute)
  with run show thesis by (intro that) simp_all
qed

datatype counted_op = CNew nat nat | CCopy nat nat | CAssign nat nat | CDrop nat

fun counted_step :: "(counted_state \<Rightarrow> nat) \<Rightarrow> counted_op \<Rightarrow> counted_state \<Rightarrow> counted_state result" where
  "counted_step new (CNew h p) s = counted_new new h p (s\<lparr>cs_object := cs_object s \<union> ({p} - {0})\<rparr>)"
| "counted_step new (CCopy h r) s = counted_copy h r s"
| "counted_step new (CAssign h r) s = counted_assign h r s"
| "counted_step new (CDrop h) s = counted_drop h s"

text \<open>A pointer is made once before it is used, from null, a new object or a pointer.\<close>

fun counted_allowed :: "counted_op \<Rightarrow> counted_state \<Rightarrow> bool" where
  "counted_allowed (CNew h p) s \<longleftrightarrow> cs_handle s h = None \<and> p \<notin> cs_object s"
| "counted_allowed (CCopy h r) s \<longleftrightarrow> cs_handle s h = None \<and> cs_handle s r \<noteq> None"
| "counted_allowed (CAssign h r) s \<longleftrightarrow> cs_handle s h \<noteq> None \<and> cs_handle s r \<noteq> None"
| "counted_allowed (CDrop h) s \<longleftrightarrow> cs_handle s h \<noteq> None"

definition counter_new_ok :: "(counted_state \<Rightarrow> nat) \<Rightarrow> bool" where
  "counter_new_ok new \<longleftrightarrow> (\<forall>s. finite (dom (cs_counter s)) \<longrightarrow> cs_counter s (new s) = None)"

lemma counts_finite: "counts H s \<Longrightarrow> finite (dom (cs_counter s))"
proof -
  assume c: "counts H s"
  have "dom (cs_counter s) \<subseteq> snd ` ran H"
  proof
    fix x assume "x \<in> dom (cs_counter s)"
    then have "sharers H x \<noteq> {}" using c by (auto simp: counts_def split: if_splits)
    then obtain h p where "H h = Some (p, x)" by (auto simp: sharers_def)
    then show "x \<in> snd ` ran H" by (force intro: ranI)
  qed
  moreover have "finite (ran H)" using c by (simp add: counts_def finite_ran)
  ultimately show ?thesis by (meson finite_imageI finite_subset)
qed

lemma new_counts:
  assumes "counts H s" and "H h = None" and "p \<notin> objects_of H" and "cs_counter s c = None"
  shows "counts (H(h \<mapsto> (p, c))) (s\<lparr>cs_counter := (cs_counter s)(c \<mapsto> 1), cs_handle := X, cs_object := cs_object s \<union> ({p} - {0})\<rparr>)"
proof -
  note k = assms(1) [unfolded counts_def]
  have none: "sharers H c = {}" using k assms(4) by (auto split: if_splits)
  have no_c: "H g \<noteq> Some (q, c)" for g q using none by (auto simp: sharers_def)
  have no_p: "H g = Some (p, d) \<Longrightarrow> p = 0" for g d using assms(3) by (auto simp: objects_of_def)
  have "one_to_one (H(h \<mapsto> (p, c)))" unfolding one_to_one_def
  proof (intro allI impI)
    fix g g' q q' d d'
    assume g: "(H(h \<mapsto> (p, c))) g = Some (q, d)" "(H(h \<mapsto> (p, c))) g' = Some (q', d')"
    show "(d = d' \<longrightarrow> q = q') \<and> (q = q' \<longrightarrow> q \<noteq> 0 \<longrightarrow> d = d')"
    proof (cases "g = h \<or> g' = h")
      case True
      then show ?thesis using g no_c no_p by (auto split: if_splits)
    next
      case False
      then show ?thesis using g k unfolding one_to_one_def by (auto split: if_splits)
    qed
  qed
  moreover have "objects_of (H(h \<mapsto> (p, c))) = objects_of H \<union> ({p} - {0})"
    using assms(2) by (rule objects_of_upd)
  ultimately show ?thesis using k assms(2) none by (auto simp: counts_def sharers_upd)
qed

lemma counted_step_ok:
  assumes "counted_ok s" and "counted_allowed op s" and "counter_new_ok new" and "card (dom (cs_handle s)) < 2147483648"
  obtains s' where "counted_step new op s = Inr s'" and "counted_ok s'" and "card (dom (cs_handle s')) \<le> Suc (card (dom (cs_handle s)))"
proof -
  let ?H = "cs_handle s"
  have c: "counts ?H s" using assms(1) by (simp add: counted_ok_def)
  have fin: "finite (dom ?H)" using c by (simp add: counts_def)
  have card: "card (dom (?H(h \<mapsto> x))) \<le> Suc (card (dom ?H))" "card (dom (?H(h := None))) \<le> Suc (card (dom ?H))" for h x
    using fin by (simp_all add: card_insert_if card_Diff1_le le_SucI)
  show thesis
  proof (cases op)
    case (CNew h p)
    let ?c = "new (s\<lparr>cs_object := cs_object s \<union> ({p} - {0})\<rparr>)"
    have "cs_counter s ?c = None" using assms(3) counts_finite [OF c] unfolding counter_new_ok_def
      by (metis counted_state.select_convs(2) counted_state.surjective counted_state.update_convs(3))
    moreover have "p \<notin> objects_of ?H" using assms(2) c CNew by (simp add: counts_def)
    ultimately have "counts (?H(h \<mapsto> (p, ?c)))
        (s\<lparr>cs_counter := (cs_counter s)(?c \<mapsto> 1), cs_handle := ?H(h \<mapsto> (p, ?c)), cs_object := cs_object s \<union> ({p} - {0})\<rparr>)"
      using c assms(2) CNew by (intro new_counts) simp_all
    then show thesis using CNew card(1)
      by (intro that [of "s\<lparr>cs_counter := (cs_counter s)(?c \<mapsto> 1), cs_handle := ?H(h \<mapsto> (p, ?c)), cs_object := cs_object s \<union> ({p} - {0})\<rparr>"])
        (simp_all add: counted_new_def Let_def counted_ok_def)
  next
    case (CCopy h r)
    then obtain p k where r: "?H h = None" "?H r = Some (p, k)" using assms(2) by auto
    obtain s' where s': "counted_copy h r s = Inr s'" "cs_handle s' = ?H(h \<mapsto> (p, k))" "counts (?H(h \<mapsto> (p, k))) s'"
      by (rule copy_counts [OF c r r(2)]) (rule that)
    then show thesis using CCopy card(1) by (intro that [of s']) (simp_all add: counted_ok_def)
  next
    case (CAssign h r)
    then obtain p k q d where r: "?H h = Some (q, d)" "?H r = Some (p, k)" using assms(2) by auto
    show thesis
    proof (cases "h = r")
      case True
      then show thesis using CAssign assms(1) by (intro that [of s]) (simp_all add: counted_assign_def)
    next
      case False
      obtain s1 where s1: "counted_release h s = Inr s1" "cs_handle s1 = ?H" "counts (?H(h := None)) s1"
        by (rule release_counts [OF c r(1) assms(4)]) (rule that)
      have h: "(?H(h := None)) h = None" "(?H(h := None)) r = Some (p, k)" "cs_handle s1 r = Some (p, k)" using False r s1(2) by simp_all
      obtain s' where s': "counted_copy h r s1 = Inr s'" "cs_handle s' = (cs_handle s1)(h \<mapsto> (p, k))"
        "counts (?H(h := None, h \<mapsto> (p, k))) s'" by (rule copy_counts [OF s1(3) h]) (rule that)
      then show thesis using CAssign False s1 card(1) [of h "(p, k)"]
        by (intro that [of s']) (simp_all add: counted_ok_def counted_assign_def)
    qed
  next
    case (CDrop h)
    then obtain q d where r: "?H h = Some (q, d)" using assms(2) by auto
    obtain s1 where s1: "counted_release h s = Inr s1" "cs_handle s1 = ?H" "counts (?H(h := None)) s1"
      by (rule release_counts [OF c r assms(4)]) (rule that)
    moreover have "counts (?H(h := None)) (s1\<lparr>cs_handle := ?H(h := None)\<rparr>)" using s1(3) by (simp add: counts_def)
    ultimately show thesis using CDrop card(2) [of h]
      by (intro that [of "s1\<lparr>cs_handle := ?H(h := None)\<rparr>"]) (simp_all add: counted_ok_def counted_drop_def)
  qed
qed

text \<open>A program's use of pointers, each allowed where it happens.\<close>

fun counted_run :: "(counted_state \<Rightarrow> nat) \<Rightarrow> counted_op list \<Rightarrow> counted_state \<Rightarrow> counted_state result" where
  "counted_run new [] s = Inr s"
| "counted_run new (op # ops) s = rbind (counted_step new op s) (counted_run new ops)"

fun counted_fine :: "(counted_state \<Rightarrow> nat) \<Rightarrow> counted_op list \<Rightarrow> counted_state \<Rightarrow> bool" where
  "counted_fine new [] s \<longleftrightarrow> True"
| "counted_fine new (op # ops) s \<longleftrightarrow> counted_allowed op s \<and>
     (case counted_step new op s of Inl e \<Rightarrow> False | Inr s' \<Rightarrow> counted_fine new ops s')"

definition no_pointers :: counted_state where
  "no_pointers = \<lparr>cs_handle = Map.empty, cs_counter = Map.empty, cs_object = {}\<rparr>"

lemma counted_run_ok:
  assumes "counted_ok s" and "counter_new_ok new" and "counted_fine new ops s" and "card (dom (cs_handle s)) + length ops < 2147483648"
  shows "\<exists>s'. counted_run new ops s = Inr s' \<and> counted_ok s'"
  using assms
proof (induction ops arbitrary: s)
  case (Cons op ops)
  have "counted_allowed op s" "card (dom (cs_handle s)) < 2147483648" using Cons.prems by simp_all
  then obtain s1 where s1: "counted_step new op s = Inr s1" "counted_ok s1" "card (dom (cs_handle s1)) \<le> Suc (card (dom (cs_handle s)))"
    by (rule counted_step_ok [OF Cons.prems(1) _ Cons.prems(2)])
  have "card (dom (cs_handle s1)) + length ops < 2147483648" using s1(3) Cons.prems(4) by simp
  from Cons.IH [OF s1(2) Cons.prems(2) _ this] Cons.prems(3) s1(1) show ?case by simp
qed simp

text \<open>
  However pointers are made, copied, assigned, even to themselves, and dropped, with fewer than \<open>2^31\<close> of them:
  each object exists as long as some pointer points to it and no longer, each counter as long as it is shared, and it
  counts its pointers; nothing is deleted twice or used after.
\<close>

theorem counted_ptr_deletes_once:
  assumes "counter_new_ok new" and "counted_fine new ops no_pointers" and "length ops < 2147483648"
  shows "\<exists>s. counted_run new ops no_pointers = Inr s \<and>
    cs_object s = {p. p \<noteq> 0 \<and> (\<exists>h. counted_get h s = Inr p)} \<and>
    (\<forall>h p c. cs_handle s h = Some (p, c) \<longrightarrow>
       cs_counter s c = Some (of_nat (card {h'. counted_get h' s = Inr p \<and> (\<exists>q. cs_handle s h' = Some (q, c))}))) \<and>
    (\<forall>c. cs_counter s c \<noteq> None \<longrightarrow> (\<exists>h p. cs_handle s h = Some (p, c)))"
proof -
  have "counted_ok no_pointers" by (simp add: counted_ok_def counts_def one_to_one_def objects_of_def sharers_def no_pointers_def)
  moreover have "card (dom (cs_handle no_pointers)) + length ops < 2147483648" using assms(3) by (simp add: no_pointers_def)
  ultimately obtain s where s: "counted_run new ops no_pointers = Inr s" "counts (cs_handle s) s"
    using counted_run_ok [OF _ assms(1,2)] unfolding counted_ok_def by blast
  note k = s(2) [unfolded counts_def]
  have get: "counted_get h s = Inr p \<longleftrightarrow> (\<exists>c. cs_handle s h = Some (p, c))" for h p
    by (auto simp: counted_get_def ref_of_def split: option.splits)
  have "cs_counter s c = Some (of_nat (card {h'. counted_get h' s = Inr p \<and> (\<exists>q. cs_handle s h' = Some (q, c))}))"
    if h: "cs_handle s h = Some (p, c)" for h p c
  proof -
    have "{h'. counted_get h' s = Inr p \<and> (\<exists>q. cs_handle s h' = Some (q, c))} = sharers (cs_handle s) c"
      using h k unfolding get one_to_one_def sharers_def by blast
    moreover have "sharers (cs_handle s) c \<noteq> {}" using h by (auto simp: sharers_def)
    ultimately show ?thesis using k by simp
  qed
  moreover have "\<exists>h p. cs_handle s h = Some (p, c)" if "cs_counter s c \<noteq> None" for c
    using that k by (auto simp: sharers_def split: if_splits)
  moreover have "cs_object s = {p. p \<noteq> 0 \<and> (\<exists>h. counted_get h s = Inr p)}" using k by (auto simp: objects_of_def get)
  ultimately show ?thesis using s(1) by blast
qed

definition next_counter :: "counted_state \<Rightarrow> nat" where
  "next_counter s = Suc (Max (insert 0 (dom (cs_counter s))))"

lemma next_counter_ok: "counter_new_ok next_counter"
  unfolding counter_new_ok_def
proof (intro allI impI)
  fix s :: counted_state assume fin: "finite (dom (cs_counter s))"
  have "next_counter s \<notin> dom (cs_counter s)"
  proof
    assume "next_counter s \<in> dom (cs_counter s)"
    then have "next_counter s \<le> Max (insert 0 (dom (cs_counter s)))" using fin by (intro Max_ge) auto
    then show False by (simp add: next_counter_def)
  qed
  then show "cs_counter s (next_counter s) = None" by auto
qed

theorem counted_ptr_deletes_once_witness:
  "\<exists>s. counted_run next_counter [CNew 1 70, CCopy 2 1, CNew 3 80, CAssign 1 3, CDrop 2] no_pointers = Inr s \<and> cs_object s = {80}"
proof -
  let ?ops = "[CNew 1 70, CCopy 2 1, CNew 3 80, CAssign 1 3, CDrop 2]"
  note simps = counted_new_def counted_copy_def counted_assign_def counted_release_def counted_drop_def ref_of_def count_at_def Let_def
    next_counter_def no_pointers_def
  have fine: "counted_fine next_counter ?ops no_pointers" by (simp add: simps)
  have run: "\<exists>s. counted_run next_counter ?ops no_pointers = Inr s \<and> cs_handle s = [3 \<mapsto> (80, 2), 1 \<mapsto> (80, 2)]" by (simp add: simps fun_eq_iff)
  obtain s where s: "counted_run next_counter ?ops no_pointers = Inr s" "cs_object s = {p. p \<noteq> 0 \<and> (\<exists>h. counted_get h s = Inr p)}"
    using counted_ptr_deletes_once [OF next_counter_ok fine] by auto
  then have "cs_handle s = [3 \<mapsto> (80, 2), 1 \<mapsto> (80, 2)]" using run by auto
  then have "counted_get h s = Inr p \<longleftrightarrow> (h = 1 \<or> h = 3) \<and> p = 80" for h p by (auto simp: counted_get_def ref_of_def)
  then have "cs_object s = {80}" using s(2) by auto
  then show ?thesis using s(1) by blast
qed

end
