(* ===== verification/Mindrvr.thy ===== *)
theory Mindrvr
  imports Wire
begin

text \<open>
  \<^verbatim>\<open>src/packages/ata/mindrvr.cpp\<close>, the ATA driver by Hale Landis as Akari adapted it: configuration, reset, commands
  without data, PIO transfers and DMA transfers of a disk. Ports, clock and interrupts are operations on a hardware
  state, given as a record of functions. The memory of the process is a list of bytes and a buffer an offset in it;
  signed counters are integers. A loop that polls gets fuel. The packet commands (\<^verbatim>\<open>reg_packet\<close>, \<^verbatim>\<open>dma_pci_packet\<close>),
  which nobody calls, are left out.
\<close>

section \<open>Steps that can fail\<close>

type_synonym ('s, 'a) oper = "'s \<Rightarrow> ('a \<times> 's) result"

definition ret :: "'a \<Rightarrow> ('s, 'a) oper" where
  "ret x s = Inr (x, s)"

definition before :: "('s, 'a) oper \<Rightarrow> ('a \<Rightarrow> ('s, 'b) oper) \<Rightarrow> ('s, 'b) oper" where
  "before m f s = rbind (m s) (\<lambda>(x, s1). f x s1)"

definition asks :: "('s \<Rightarrow> 'a) \<Rightarrow> ('s, 'a) oper" where
  "asks f s = Inr (f s, s)"

definition sets :: "('s \<Rightarrow> 's) \<Rightarrow> ('s, unit) oper" where
  "sets f s = Inr ((), f s)"

fun steps :: "('s, unit) oper list \<Rightarrow> ('s, unit) oper" where
  "steps [] = ret ()"
| "steps (m # ms) = before m (\<lambda>_. steps ms)"

section \<open>Hardware and state\<close>

record 'h ata_io =
  in_b :: "u16 \<Rightarrow> 'h \<Rightarrow> u8 \<times> 'h"
  in_w :: "u16 \<Rightarrow> 'h \<Rightarrow> u16 \<times> 'h"
  in_l :: "u16 \<Rightarrow> 'h \<Rightarrow> u32 \<times> 'h"
  out_b :: "u16 \<Rightarrow> u8 \<Rightarrow> 'h \<Rightarrow> 'h"
  out_w :: "u16 \<Rightarrow> u16 \<Rightarrow> 'h \<Rightarrow> 'h"
  out_l :: "u16 \<Rightarrow> u32 \<Rightarrow> 'h \<Rightarrow> 'h"
  clock :: "'h \<Rightarrow> u32 \<times> 'h"
  clock_hz :: "'h \<Rightarrow> u32"
  irq_listen :: "u32 \<Rightarrow> 'h \<Rightarrow> 'h"
  irq_wait :: "u32 \<Rightarrow> 'h \<Rightarrow> bool \<times> 'h"
  phys_addr :: "u32 \<Rightarrow> u32"

record REG_CMD_INFO =
  ci_cmd :: u8
  ci_fr :: u32
  ci_sc :: u32
  ci_sn :: u32
  ci_cl :: u32
  ci_ch :: u32
  ci_dh :: u8
  ci_dc :: u8
  ci_ns :: int
  ci_mc :: int
  ci_lbaSize :: u8
  ci_lbaLow :: u32
  ci_lbaHigh :: u32
  ci_st :: u8
  ci_as :: u8
  ci_er :: u8
  ci_ec :: u8
  ci_to :: u8
  ci_totalBytesXfer :: int
  ci_drqPackets :: int

record 'h mindrvr =
  int_ata_status :: u8
  int_bmide_status :: u8
  int_use_intr_flag :: u8
  ticks_per_second :: u32
  cmd_info :: REG_CMD_INFO
  config_info :: "nat list"
  bmide_base :: u32
  pio_xfer_width :: u8
  tmr_cmd_start_time :: u32
  irq_listened :: bool
  statReg :: u8
  rwControl :: u8
  prdBufPtr :: u32
  prd_list :: "(u32 \<times> u32) list"
  dma_pci_num_prd :: nat
  ram :: bytes
  hw :: 'h

type_synonym ('h, 'a) md = "('h mindrvr, 'a) oper"

abbreviation upd_info :: "(REG_CMD_INFO \<Rightarrow> REG_CMD_INFO) \<Rightarrow> ('h, unit) md" where
  "upd_info f \<equiv> sets (\<lambda>s. s\<lparr>cmd_info := f (cmd_info s)\<rparr>)"

definition REG_CONFIG_TYPE_NONE :: nat where "REG_CONFIG_TYPE_NONE = 0"
definition REG_CONFIG_TYPE_UNKN :: nat where "REG_CONFIG_TYPE_UNKN = 1"
definition REG_CONFIG_TYPE_ATA :: nat where "REG_CONFIG_TYPE_ATA = 2"
definition REG_CONFIG_TYPE_ATAPI :: nat where "REG_CONFIG_TYPE_ATAPI = 3"

definition get_config :: "u8 \<Rightarrow> ('h, nat) md" where
  "get_config dev s =
     (if unat dev < length (config_info s) then Inr (config_info s ! unat dev, s) else Inl OutOfBounds)"

definition set_config :: "nat \<Rightarrow> nat \<Rightarrow> ('h, unit) md" where
  "set_config dev t = sets (\<lambda>s. s\<lparr>config_info := (config_info s)[dev := t]\<rparr>)"

definition set_ec :: "u8 \<Rightarrow> ('h, unit) md" where
  "set_ec e = upd_info (\<lambda>i. i\<lparr>ci_ec := e\<rparr>)"

definition timed_out :: "u8 \<Rightarrow> ('h, unit) md" where
  "timed_out e = upd_info (\<lambda>i. i\<lparr>ci_to := 1, ci_ec := e\<rparr>)"

definition get_ec :: "('h, u8) md" where
  "get_ec = asks (\<lambda>s. ci_ec (cmd_info s))"

definition result_code :: "('h, int) md" where
  "result_code = asks (\<lambda>s. if ci_ec (cmd_info s) \<noteq> 0 then 1 else 0)"

section \<open>Registers and bits\<close>

definition CB_DATA :: nat where "CB_DATA = 0"
definition CB_ERR :: nat where "CB_ERR = 1"
definition CB_FR :: nat where "CB_FR = 1"
definition CB_SC :: nat where "CB_SC = 2"
definition CB_SN :: nat where "CB_SN = 3"
definition CB_CL :: nat where "CB_CL = 4"
definition CB_CH :: nat where "CB_CH = 5"
definition CB_DH :: nat where "CB_DH = 6"
definition CB_STAT :: nat where "CB_STAT = 7"
definition CB_CMD :: nat where "CB_CMD = 7"
definition CB_ASTAT :: nat where "CB_ASTAT = 8"
definition CB_DC :: nat where "CB_DC = 8"

definition pio_reg_addrs :: "u32 list" where
  "pio_reg_addrs = [0x1F0, 0x1F1, 0x1F2, 0x1F3, 0x1F4, 0x1F5, 0x1F6, 0x1F7, 0x3F6]"

definition CB_DH_LBA :: u8 where "CB_DH_LBA = 0x40"
definition CB_DH_DEV0 :: u8 where "CB_DH_DEV0 = 0x00"
definition CB_DH_DEV1 :: u8 where "CB_DH_DEV1 = 0x10"
definition CB_STAT_BSY :: u8 where "CB_STAT_BSY = 0x80"
definition CB_STAT_DF :: u8 where "CB_STAT_DF = 0x20"
definition CB_STAT_DRQ :: u8 where "CB_STAT_DRQ = 0x08"
definition CB_STAT_ERR :: u8 where "CB_STAT_ERR = 0x01"
definition CB_DC_SRST :: u8 where "CB_DC_SRST = 0x04"
definition CB_DC_NIEN :: u8 where "CB_DC_NIEN = 0x02"

definition BM_COMMAND_REG :: u32 where "BM_COMMAND_REG = 0"
definition BM_STATUS_REG :: u32 where "BM_STATUS_REG = 2"
definition BM_PRD_ADDR_LOW :: u32 where "BM_PRD_ADDR_LOW = 4"
definition BM_CR_MASK_READ :: u8 where "BM_CR_MASK_READ = 0x00"
definition BM_CR_MASK_WRITE :: u8 where "BM_CR_MASK_WRITE = 0x08"
definition BM_CR_MASK_START :: u8 where "BM_CR_MASK_START = 0x01"
definition BM_CR_MASK_STOP :: u8 where "BM_CR_MASK_STOP = 0x00"
definition BM_SR_MASK_INT :: u8 where "BM_SR_MASK_INT = 0x04"
definition BM_SR_MASK_ERR :: u8 where "BM_SR_MASK_ERR = 0x02"
definition BM_SR_MASK_ACT :: u8 where "BM_SR_MASK_ACT = 0x01"

definition CMD_DEVICE_RESET :: u8 where "CMD_DEVICE_RESET = 0x08"
definition CMD_EXECUTE_DEVICE_DIAGNOSTIC :: u8 where "CMD_EXECUTE_DEVICE_DIAGNOSTIC = 0x90"
definition CMD_IDENTIFY_DEVICE :: u8 where "CMD_IDENTIFY_DEVICE = 0xEC"
definition CMD_IDENTIFY_DEVICE_PACKET :: u8 where "CMD_IDENTIFY_DEVICE_PACKET = 0xA1"
definition CMD_READ_SECTORS :: u8 where "CMD_READ_SECTORS = 0x20"
definition CMD_WRITE_SECTORS :: u8 where "CMD_WRITE_SECTORS = 0x30"
definition CMD_READ_MULTIPLE :: u8 where "CMD_READ_MULTIPLE = 0xC4"
definition CMD_READ_MULTIPLE_EXT :: u8 where "CMD_READ_MULTIPLE_EXT = 0x29"
definition CMD_WRITE_MULTIPLE :: u8 where "CMD_WRITE_MULTIPLE = 0xC5"
definition CMD_WRITE_MULTIPLE_EXT :: u8 where "CMD_WRITE_MULTIPLE_EXT = 0x39"
definition CMD_CFA_WRITE_MULTIPLE_WO_ERASE :: u8 where "CMD_CFA_WRITE_MULTIPLE_WO_ERASE = 0xCD"
definition CMD_READ_DMA :: u8 where "CMD_READ_DMA = 0xC8"
definition CMD_READ_DMA_EXT :: u8 where "CMD_READ_DMA_EXT = 0x25"
definition CMD_WRITE_DMA :: u8 where "CMD_WRITE_DMA = 0xCA"
definition CMD_WRITE_DMA_EXT :: u8 where "CMD_WRITE_DMA_EXT = 0x35"

definition TMR_TIME_OUT :: u32 where "TMR_TIME_OUT = 20"

section \<open>Port access\<close>

definition port_in :: "(u16 \<Rightarrow> 'h \<Rightarrow> 'v \<times> 'h) \<Rightarrow> u32 \<Rightarrow> ('h, 'v) md" where
  "port_in f p s = (let (v, h) = f (ucast p) (hw s) in Inr (v, s\<lparr>hw := h\<rparr>))"

definition port_out :: "(u16 \<Rightarrow> 'v \<Rightarrow> 'h \<Rightarrow> 'h) \<Rightarrow> u32 \<Rightarrow> 'v \<Rightarrow> ('h, unit) md" where
  "port_out f p v = sets (\<lambda>s. s\<lparr>hw := f (ucast p) v (hw s)\<rparr>)"

definition pio_inbyte :: "'h ata_io \<Rightarrow> nat \<Rightarrow> ('h, u8) md" where
  "pio_inbyte io addr = port_in (in_b io) (pio_reg_addrs ! addr)"

definition pio_outbyte :: "'h ata_io \<Rightarrow> nat \<Rightarrow> u8 \<Rightarrow> ('h, unit) md" where
  "pio_outbyte io addr data = port_out (out_b io) (pio_reg_addrs ! addr) data"

definition pio_inword :: "'h ata_io \<Rightarrow> nat \<Rightarrow> ('h, u32) md" where
  "pio_inword io addr = before (port_in (in_w io) (pio_reg_addrs ! addr)) (\<lambda>v. ret (ucast v))"

definition pio_outword :: "'h ata_io \<Rightarrow> nat \<Rightarrow> u32 \<Rightarrow> ('h, unit) md" where
  "pio_outword io addr data = port_out (out_w io) (pio_reg_addrs ! addr) (ucast data)"

definition pio_indword :: "'h ata_io \<Rightarrow> nat \<Rightarrow> ('h, u32) md" where
  "pio_indword io addr = port_in (in_l io) (pio_reg_addrs ! addr)"

definition pio_outdword :: "'h ata_io \<Rightarrow> nat \<Rightarrow> u32 \<Rightarrow> ('h, unit) md" where
  "pio_outdword io addr data = port_out (out_l io) (pio_reg_addrs ! addr) data"

definition DELAY400NS :: "'h ata_io \<Rightarrow> ('h, unit) md" where
  "DELAY400NS io = steps (replicate 4 (before (pio_inbyte io CB_ASTAT) (\<lambda>_. ret ())))"

definition pio_readBusMstrCmd :: "'h ata_io \<Rightarrow> ('h, u8) md" where
  "pio_readBusMstrCmd io = before (asks bmide_base) (\<lambda>b.
     if b = 0 then ret 0 else port_in (in_b io) (b + BM_COMMAND_REG))"

definition pio_readBusMstrStatus :: "'h ata_io \<Rightarrow> ('h, u8) md" where
  "pio_readBusMstrStatus io = before (asks bmide_base) (\<lambda>b.
     if b = 0 then ret 0 else port_in (in_b io) (b + BM_STATUS_REG))"

definition pio_writeBusMstrCmd :: "'h ata_io \<Rightarrow> u8 \<Rightarrow> ('h, unit) md" where
  "pio_writeBusMstrCmd io x = before (asks bmide_base) (\<lambda>b.
     if b = 0 then ret () else port_out (out_b io) (b + BM_COMMAND_REG) x)"

definition pio_writeBusMstrStatus :: "'h ata_io \<Rightarrow> u8 \<Rightarrow> ('h, unit) md" where
  "pio_writeBusMstrStatus io x = before (asks bmide_base) (\<lambda>b.
     if b = 0 then ret () else port_out (out_b io) (b + BM_STATUS_REG) x)"

section \<open>Time\<close>

definition ticks :: "'h ata_io \<Rightarrow> ('h, u32) md" where
  "ticks io s = (let (t, h) = clock io (hw s) in Inr (t, s\<lparr>hw := h\<rparr>))"

definition tmr_set_timeout :: "'h ata_io \<Rightarrow> ('h, unit) md" where
  "tmr_set_timeout io = before (ticks io) (\<lambda>t. sets (\<lambda>s. s\<lparr>tmr_cmd_start_time := t\<rparr>))"

definition tmr_chk_timeout :: "'h ata_io \<Rightarrow> ('h, bool) md" where
  "tmr_chk_timeout io = before (ticks io) (\<lambda>curTime.
     asks (\<lambda>s. sint curTime \<ge> sint (tmr_cmd_start_time s + TMR_TIME_OUT * ticks_per_second s)))"

definition wait_interrupt :: "'h ata_io \<Rightarrow> u32 \<Rightarrow> ('h, bool) md" where
  "wait_interrupt io ms s = (let (came, h) = irq_wait io ms (hw s) in Inr (came, s\<lparr>hw := h\<rparr>))"

definition SYSTEM_WAIT_INTR_OR_TIMEOUT :: "'h ata_io \<Rightarrow> ('h, bool) md" where
  "SYSTEM_WAIT_INTR_OR_TIMEOUT io =
     before (wait_interrupt io (TMR_TIME_OUT * 1000)) (\<lambda>came. before (asks bmide_base) (\<lambda>b.
     before
       (if b \<noteq> 0
        then before (pio_readBusMstrStatus io) (\<lambda>bm. before (sets (\<lambda>s. s\<lparr>int_bmide_status := bm\<rparr>)) (\<lambda>_.
             if bm AND BM_SR_MASK_INT \<noteq> 0
             then before (pio_inbyte io CB_STAT) (\<lambda>st.
                  steps [sets (\<lambda>s. s\<lparr>int_ata_status := st\<rparr>), pio_writeBusMstrStatus io BM_SR_MASK_INT])
             else ret ()))
        else before (pio_inbyte io CB_STAT) (\<lambda>st. sets (\<lambda>s. s\<lparr>int_ata_status := st\<rparr>)))
       (\<lambda>_. ret (\<not> came))))"

text \<open>A loop that reads a status register until none of some bits is set, and whether time ran out first.\<close>

fun poll :: "'h ata_io \<Rightarrow> nat \<Rightarrow> u8 \<Rightarrow> nat \<Rightarrow> ('h, u8 \<times> bool) md" where
  "poll io r mask_bits 0 = (\<lambda>s. Inl Diverges)"
| "poll io r mask_bits (Suc fuel) = before (pio_inbyte io r) (\<lambda>status.
     if status AND mask_bits = 0 then ret (status, False)
     else before (tmr_chk_timeout io) (\<lambda>late. if late then ret (status, True) else poll io r mask_bits fuel))"

section \<open>Subroutines\<close>

definition device_bit :: "u8 \<Rightarrow> u8" where
  "device_bit dev = (if dev \<noteq> 0 then CB_DH_DEV1 else CB_DH_DEV0)"

definition select_dev :: "'h ata_io \<Rightarrow> u8 \<Rightarrow> ('h, unit) md" where
  "select_dev io d = steps [pio_outbyte io CB_DH d, DELAY400NS io]"

definition sub_setup_command :: "'h ata_io \<Rightarrow> ('h, unit) md" where
  "sub_setup_command io = before (asks cmd_info) (\<lambda>i.
     before (pio_outbyte io CB_DC (ci_dc i)) (\<lambda>_.
     if ci_lbaSize i = 28
     then steps [
       pio_outbyte io CB_FR (ucast (ci_fr i)),
       pio_outbyte io CB_SC (ucast (ci_sc i)),
       pio_outbyte io CB_SN (ucast (ci_lbaLow i)),
       pio_outbyte io CB_CL (ucast (drop_bit 8 (ci_lbaLow i))),
       pio_outbyte io CB_CH (ucast (drop_bit 16 (ci_lbaLow i))),
       pio_outbyte io CB_DH ((ci_dh i AND 0xf0) OR ucast (drop_bit 24 (ci_lbaLow i) AND 0x0f))]
     else if ci_lbaSize i = 48
     then steps [
       pio_outbyte io CB_FR (ucast (drop_bit 8 (ci_fr i))),
       pio_outbyte io CB_SC (ucast (drop_bit 8 (ci_sc i))),
       pio_outbyte io CB_SN (ucast (drop_bit 24 (ci_lbaLow i))),
       pio_outbyte io CB_CL (ucast (ci_lbaHigh i)),
       pio_outbyte io CB_CH (ucast (drop_bit 8 (ci_lbaHigh i))),
       pio_outbyte io CB_FR (ucast (ci_fr i)),
       pio_outbyte io CB_SC (ucast (ci_sc i)),
       pio_outbyte io CB_SN (ucast (ci_lbaLow i)),
       pio_outbyte io CB_CL (ucast (drop_bit 8 (ci_lbaLow i))),
       pio_outbyte io CB_CH (ucast (drop_bit 16 (ci_lbaLow i))),
       pio_outbyte io CB_DH (ci_dh i)]
     else steps [
       pio_outbyte io CB_FR (ucast (ci_fr i)),
       pio_outbyte io CB_SC (ucast (ci_sc i)),
       pio_outbyte io CB_SN (ucast (ci_sn i)),
       pio_outbyte io CB_CL (ucast (ci_cl i)),
       pio_outbyte io CB_CH (ucast (ci_ch i)),
       pio_outbyte io CB_DH (ci_dh i)]))"

definition sub_trace_command :: "'h ata_io \<Rightarrow> ('h, unit) md" where
  "sub_trace_command io =
     before (pio_inbyte io CB_STAT) (\<lambda>st. before (pio_inbyte io CB_ASTAT) (\<lambda>ast. before (pio_inbyte io CB_ERR) (\<lambda>er.
     upd_info (\<lambda>i. i\<lparr>ci_st := st, ci_as := ast, ci_er := er\<rparr>))))"

definition select_failed :: "'h ata_io \<Rightarrow> u8 \<Rightarrow> u8 \<Rightarrow> ('h, int) md" where
  "select_failed io e status =
     before (pio_inbyte io CB_ASTAT) (\<lambda>ast. before (pio_inbyte io CB_ERR) (\<lambda>er.
     before (upd_info (\<lambda>i. i\<lparr>ci_to := 1, ci_ec := e, ci_st := status, ci_as := ast, ci_er := er\<rparr>)) (\<lambda>_. ret 1)))"

definition sub_select :: "'h ata_io \<Rightarrow> nat \<Rightarrow> u8 \<Rightarrow> ('h, int) md" where
  "sub_select io fuel dev = before (get_config dev) (\<lambda>t.
     if t < REG_CONFIG_TYPE_ATA then before (select_dev io (device_bit dev)) (\<lambda>_. ret 0)
     else before (poll io CB_STAT (CB_STAT_BSY OR CB_STAT_DRQ) fuel) (\<lambda>(status, late).
       if late then select_failed io 11 status
       else before (select_dev io (device_bit dev)) (\<lambda>_.
         before (poll io CB_STAT (CB_STAT_BSY OR CB_STAT_DRQ) fuel) (\<lambda>(status, late).
         if late then select_failed io 12 status else result_code))))"

definition sub_wait_poll :: "'h ata_io \<Rightarrow> nat \<Rightarrow> u8 \<Rightarrow> u8 \<Rightarrow> ('h, unit) md" where
  "sub_wait_poll io fuel we pe = before (asks int_use_intr_flag) (\<lambda>intr.
     if we \<noteq> 0 \<and> intr \<noteq> 0
     then before (SYSTEM_WAIT_INTR_OR_TIMEOUT io) (\<lambda>late. if late then timed_out we else ret ())
     else before (poll io CB_ASTAT CB_STAT_BSY fuel) (\<lambda>(_, late). if late then timed_out pe else ret ()))"

text \<open>What several routines do alike: start the command, take its status, look at the bus master.\<close>

definition start_command :: "'h ata_io \<Rightarrow> ('h, unit) md" where
  "start_command io = before (asks (\<lambda>s. ci_cmd (cmd_info s))) (pio_outbyte io CB_CMD)"

definition command_status :: "'h ata_io \<Rightarrow> bool \<Rightarrow> ('h, u8) md" where
  "command_status io polled = before get_ec (\<lambda>ec. if polled \<or> ec \<noteq> 0 then pio_inbyte io CB_STAT else asks int_ata_status)"

definition check_bus_master :: "'h ata_io \<Rightarrow> ('h, unit) md" where
  "check_bus_master io = before (pio_readBusMstrStatus io) (\<lambda>bm. if bm AND BM_SR_MASK_ERR \<noteq> 0 then set_ec 78 else ret ())"

definition not_intr :: "('h, bool) md" where
  "not_intr = asks (\<lambda>s. int_use_intr_flag s = 0)"

section \<open>Blocks of data\<close>

definition ram_put :: "nat \<Rightarrow> bytes \<Rightarrow> ('h, unit) md" where
  "ram_put a b s =
     (if a + length b \<le> length (ram s) then Inr ((), s\<lparr>ram := take a (ram s) @ b @ drop (a + length b) (ram s)\<rparr>)
      else Inl OutOfBounds)"

definition ram_get8 :: "nat \<Rightarrow> ('h, u8) md" where
  "ram_get8 a s = rbind (get_u8 (ram s) a) (\<lambda>v. Inr (v, s))"

definition ram_get32 :: "nat \<Rightarrow> ('h, u32) md" where
  "ram_get32 a s = rbind (get_u32 (ram s) a) (\<lambda>v. Inr (v, s))"

fun pio_rep_inbyte :: "'h ata_io \<Rightarrow> nat \<Rightarrow> nat \<Rightarrow> nat \<Rightarrow> ('h, unit) md" where
  "pio_rep_inbyte io r buf 0 = ret ()"
| "pio_rep_inbyte io r buf (Suc n) =
     before (pio_inbyte io r) (\<lambda>v. before (ram_put buf [v]) (\<lambda>_. pio_rep_inbyte io r (buf + 1) n))"

fun pio_rep_outbyte :: "'h ata_io \<Rightarrow> nat \<Rightarrow> nat \<Rightarrow> nat \<Rightarrow> ('h, unit) md" where
  "pio_rep_outbyte io r buf 0 = ret ()"
| "pio_rep_outbyte io r buf (Suc n) =
     before (ram_get8 buf) (\<lambda>v. before (pio_outbyte io r v) (\<lambda>_. pio_rep_outbyte io r (buf + 1) n))"

text \<open>A word is stored, and fetched, as four bytes.\<close>

fun pio_rep_inword :: "'h ata_io \<Rightarrow> nat \<Rightarrow> nat \<Rightarrow> nat \<Rightarrow> ('h, unit) md" where
  "pio_rep_inword io r buf 0 = ret ()"
| "pio_rep_inword io r buf (Suc n) =
     before (pio_inword io r) (\<lambda>v. before (ram_put buf (put_u32 v)) (\<lambda>_. pio_rep_inword io r (buf + 2) n))"

fun pio_rep_outword :: "'h ata_io \<Rightarrow> nat \<Rightarrow> nat \<Rightarrow> nat \<Rightarrow> ('h, unit) md" where
  "pio_rep_outword io r buf 0 = ret ()"
| "pio_rep_outword io r buf (Suc n) =
     before (ram_get32 buf) (\<lambda>v. before (pio_outword io r v) (\<lambda>_. pio_rep_outword io r (buf + 2) n))"

fun pio_rep_indword :: "'h ata_io \<Rightarrow> nat \<Rightarrow> nat \<Rightarrow> nat \<Rightarrow> ('h, unit) md" where
  "pio_rep_indword io r buf 0 = ret ()"
| "pio_rep_indword io r buf (Suc n) =
     before (pio_indword io r) (\<lambda>v. before (ram_put buf (put_u32 v)) (\<lambda>_. pio_rep_indword io r (buf + 4) n))"

fun pio_rep_outdword :: "'h ata_io \<Rightarrow> nat \<Rightarrow> nat \<Rightarrow> nat \<Rightarrow> ('h, unit) md" where
  "pio_rep_outdword io r buf 0 = ret ()"
| "pio_rep_outdword io r buf (Suc n) =
     before (ram_get32 buf) (\<lambda>v. before (pio_outdword io r v) (\<lambda>_. pio_rep_outdword io r (buf + 4) n))"

definition transfer_width :: "nat \<Rightarrow> ('h, u8) md" where
  "transfer_width wordCnt = asks (\<lambda>s. if pio_xfer_width s = 32 \<and> odd wordCnt then 16 else pio_xfer_width s)"

fun drq_in_loop :: "'h ata_io \<Rightarrow> u8 \<Rightarrow> nat \<Rightarrow> nat \<Rightarrow> nat \<Rightarrow> ('h, unit) md" where
  "drq_in_loop io pxw r buf wordCnt =
     (if wordCnt = 0 then ret ()
      else let wc = (if wordCnt > 16384 then 16384 else wordCnt) in
        before
          (if pxw = 8 then pio_rep_inbyte io r buf (wc * 2)
           else if pxw = 32 then pio_rep_indword io r buf (wc div 2)
           else pio_rep_inword io r buf wc)
          (\<lambda>_. drq_in_loop io pxw r (buf + wc * 2) (wordCnt - wc)))"

fun drq_out_loop :: "'h ata_io \<Rightarrow> u8 \<Rightarrow> nat \<Rightarrow> nat \<Rightarrow> nat \<Rightarrow> ('h, unit) md" where
  "drq_out_loop io pxw r buf wordCnt =
     (if wordCnt = 0 then ret ()
      else let wc = (if wordCnt > 16384 then 16384 else wordCnt) in
        before
          (if pxw = 8 then pio_rep_outbyte io r buf (wc * 2)
           else if pxw = 32 then pio_rep_outdword io r buf (wc div 2)
           else pio_rep_outword io r buf wc)
          (\<lambda>_. drq_out_loop io pxw r (buf + wc * 2) (wordCnt - wc)))"

declare drq_in_loop.simps [simp del] drq_out_loop.simps [simp del]

definition pio_drq_block_in :: "'h ata_io \<Rightarrow> nat \<Rightarrow> nat \<Rightarrow> int \<Rightarrow> ('h, unit) md" where
  "pio_drq_block_in io r buf wordCnt =
     before (transfer_width (nat wordCnt)) (\<lambda>pxw. drq_in_loop io pxw r buf (nat wordCnt))"

definition pio_drq_block_out :: "'h ata_io \<Rightarrow> nat \<Rightarrow> nat \<Rightarrow> int \<Rightarrow> ('h, unit) md" where
  "pio_drq_block_out io r buf wordCnt =
     before (transfer_width (nat wordCnt)) (\<lambda>pxw. drq_out_loop io pxw r buf (nat wordCnt))"

section \<open>PIO commands\<close>

text \<open>The sectors of one block, \<open>multiCnt ? multiCnt : 1\<close>, and the words to transfer of \<open>numSect\<close> sectors that are left.\<close>

definition block_sectors :: "int \<Rightarrow> int" where
  "block_sectors multiCnt = (if multiCnt \<noteq> 0 then multiCnt else 1)"

definition block_words :: "int \<Rightarrow> int \<Rightarrow> int" where
  "block_words numSect multiCnt = min (block_sectors multiCnt) numSect * 256"

definition count_block :: "int \<Rightarrow> ('h, unit) md" where
  "count_block wordCnt = upd_info (\<lambda>i. i\<lparr>ci_drqPackets := ci_drqPackets i + 1,
     ci_totalBytesXfer := ci_totalBytesXfer i + 2 * wordCnt\<rparr>)"

definition read_block :: "'h ata_io \<Rightarrow> nat \<Rightarrow> int \<Rightarrow> int \<Rightarrow> ('h, nat \<times> int) md" where
  "read_block io buf numSect multiCnt =
     before (steps [
       count_block (block_words numSect multiCnt),
       pio_drq_block_in io CB_DATA buf (block_words numSect multiCnt),
       DELAY400NS io])
     (\<lambda>_. ret (buf + nat (512 * block_sectors multiCnt), numSect - block_sectors multiCnt))"

definition write_block :: "'h ata_io \<Rightarrow> nat \<Rightarrow> int \<Rightarrow> int \<Rightarrow> ('h, nat \<times> int) md" where
  "write_block io buf numSect multiCnt =
     before (steps [
       count_block (block_words numSect multiCnt),
       pio_drq_block_out io CB_DATA buf (block_words numSect multiCnt),
       DELAY400NS io])
     (\<lambda>_. ret (buf + nat (512 * block_sectors multiCnt), numSect - block_sectors multiCnt))"

definition failed_bits :: u8 where
  "failed_bits = CB_STAT_BSY OR CB_STAT_DF OR CB_STAT_ERR"

fun read_loop :: "'h ata_io \<Rightarrow> nat \<Rightarrow> nat \<Rightarrow> nat \<Rightarrow> int \<Rightarrow> int \<Rightarrow> ('h, unit) md" where
  "read_loop io fuel 0 buf numSect multiCnt = (\<lambda>s. Inl Diverges)"
| "read_loop io fuel (Suc k) buf numSect multiCnt =
     before (sub_wait_poll io fuel 34 35) (\<lambda>_.
     before not_intr (\<lambda>polled. before (command_status io polled) (\<lambda>status.
     before get_ec (\<lambda>ec.
     if ec \<noteq> 0 then ret ()
     else before (if status AND (CB_STAT_BSY OR CB_STAT_DRQ) = CB_STAT_DRQ then read_block io buf numSect multiCnt
                  else ret (buf, numSect)) (\<lambda>(buf', numSect').
       if status AND failed_bits \<noteq> 0 then set_ec 31
       else if status AND CB_STAT_DRQ = 0 then set_ec 32
       else if numSect' < 1
       then before (pio_inbyte io CB_STAT) (\<lambda>status.
            if status AND (failed_bits OR CB_STAT_DRQ) \<noteq> 0 then set_ec 33 else ret ())
       else read_loop io fuel k buf' numSect' multiCnt)))))"

fun write_loop :: "'h ata_io \<Rightarrow> nat \<Rightarrow> nat \<Rightarrow> u8 \<Rightarrow> nat \<Rightarrow> int \<Rightarrow> int \<Rightarrow> ('h, unit) md" where
  "write_loop io fuel 0 status buf numSect multiCnt = (\<lambda>s. Inl Diverges)"
| "write_loop io fuel (Suc k) status buf numSect multiCnt =
     before (if status AND (CB_STAT_BSY OR CB_STAT_DRQ) = CB_STAT_DRQ then write_block io buf numSect multiCnt
             else ret (buf, numSect)) (\<lambda>(buf', numSect').
     if status AND failed_bits \<noteq> 0 then set_ec 41
     else if status AND CB_STAT_DRQ = 0 then set_ec 42
     else before (sub_wait_poll io fuel 44 45) (\<lambda>_.
       before not_intr (\<lambda>polled. before (command_status io polled) (\<lambda>status.
       before get_ec (\<lambda>ec.
       if ec \<noteq> 0 then ret ()
       else if numSect' < 1
       then if status AND (failed_bits OR CB_STAT_DRQ) \<noteq> 0 then set_ec 43 else ret ()
       else write_loop io fuel k status buf' numSect' multiCnt)))))"

definition exec_pio_data_in_cmd :: "'h ata_io \<Rightarrow> nat \<Rightarrow> u8 \<Rightarrow> nat \<Rightarrow> int \<Rightarrow> int \<Rightarrow> ('h, int) md" where
  "exec_pio_data_in_cmd io fuel dev buf numSect multiCnt =
     before (steps [pio_writeBusMstrStatus io BM_SR_MASK_ERR, tmr_set_timeout io]) (\<lambda>_.
     before (sub_select io fuel dev) (\<lambda>r.
     if r \<noteq> 0 then ret 1
     else before (steps [
         sub_setup_command io,
         start_command io,
         DELAY400NS io,
         read_loop io fuel fuel buf numSect multiCnt,
         check_bus_master io])
       (\<lambda>_. result_code)))"

definition exec_pio_data_out_cmd :: "'h ata_io \<Rightarrow> nat \<Rightarrow> u8 \<Rightarrow> nat \<Rightarrow> int \<Rightarrow> int \<Rightarrow> ('h, int) md" where
  "exec_pio_data_out_cmd io fuel dev buf numSect multiCnt =
     before (steps [pio_writeBusMstrStatus io BM_SR_MASK_ERR, tmr_set_timeout io]) (\<lambda>_.
     before (sub_select io fuel dev) (\<lambda>r.
     if r \<noteq> 0 then ret 1
     else before (steps [sub_setup_command io, start_command io, DELAY400NS io]) (\<lambda>_.
       before (poll io CB_ASTAT CB_STAT_BSY fuel) (\<lambda>(status, late).
       before (if late then timed_out 47 else write_loop io fuel fuel status buf numSect multiCnt) (\<lambda>_.
       before (check_bus_master io) (\<lambda>_. result_code))))))"

text \<open>
  The parameters of a command, as the routines for 28 and 48 bits store them. The device control byte of a DMA command
  leaves interrupts on.
\<close>

definition device_control :: "('h, u8) md" where
  "device_control = asks (\<lambda>s. if int_use_intr_flag s \<noteq> 0 then 0 else CB_DC_NIEN)"

definition setup28 :: "u8 \<Rightarrow> u8 \<Rightarrow> u32 \<Rightarrow> u32 \<Rightarrow> u32 \<Rightarrow> u8 \<Rightarrow> ('h, unit) md" where
  "setup28 dev cmd fr sc lba dc = upd_info (\<lambda>i. i\<lparr>ci_cmd := cmd, ci_fr := fr, ci_sc := sc,
     ci_dh := CB_DH_LBA OR device_bit dev, ci_dc := dc, ci_lbaSize := 28, ci_lbaHigh := 0, ci_lbaLow := lba\<rparr>)"

definition setup48 :: "u8 \<Rightarrow> u8 \<Rightarrow> u32 \<Rightarrow> u32 \<Rightarrow> u32 \<Rightarrow> u32 \<Rightarrow> u8 \<Rightarrow> ('h, unit) md" where
  "setup48 dev cmd fr sc lbahi lbalo dc = upd_info (\<lambda>i. i\<lparr>ci_cmd := cmd, ci_fr := fr, ci_sc := sc,
     ci_dh := CB_DH_LBA OR device_bit dev, ci_dc := dc, ci_lbaSize := 48, ci_lbaHigh := lbahi, ci_lbaLow := lbalo\<rparr>)"

definition setup_counts :: "int \<Rightarrow> int \<Rightarrow> ('h, unit) md" where
  "setup_counts ns mc = upd_info (\<lambda>i. i\<lparr>ci_ns := ns, ci_mc := mc\<rparr>)"

text \<open>The multiple count, when only the commands of a list use it.\<close>

definition adjust_multi :: "u8 list \<Rightarrow> u8 \<Rightarrow> int \<Rightarrow> int" where
  "adjust_multi users cmd multiCnt =
     (if multiCnt AND 0x0800 \<noteq> 0 then multiCnt AND 0x00ff
      else if cmd \<notin> set users then 1 else multiCnt)"

definition reg_pio_data_in_lba28 ::
    "'h ata_io \<Rightarrow> nat \<Rightarrow> u8 \<Rightarrow> u8 \<Rightarrow> u32 \<Rightarrow> u32 \<Rightarrow> u32 \<Rightarrow> nat \<Rightarrow> int \<Rightarrow> int \<Rightarrow> ('h, int) md" where
  "reg_pio_data_in_lba28 io fuel dev cmd fr sc lba buf numSect multiCnt =
     (let ns = (if cmd = CMD_IDENTIFY_DEVICE \<or> cmd = CMD_IDENTIFY_DEVICE_PACKET then 1 else numSect);
          mc = adjust_multi [CMD_READ_MULTIPLE] cmd multiCnt in
      before device_control (\<lambda>dc.
      before (steps [setup28 dev cmd fr sc lba dc, setup_counts ns mc]) (\<lambda>_.
      exec_pio_data_in_cmd io fuel dev buf ns mc)))"

definition reg_pio_data_in_lba48 ::
    "'h ata_io \<Rightarrow> nat \<Rightarrow> u8 \<Rightarrow> u8 \<Rightarrow> u32 \<Rightarrow> u32 \<Rightarrow> u32 \<Rightarrow> u32 \<Rightarrow> nat \<Rightarrow> int \<Rightarrow> int \<Rightarrow> ('h, int) md" where
  "reg_pio_data_in_lba48 io fuel dev cmd fr sc lbahi lbalo buf numSect multiCnt =
     (let mc = adjust_multi [CMD_READ_MULTIPLE_EXT] cmd multiCnt in
      before device_control (\<lambda>dc.
      before (steps [setup48 dev cmd fr sc lbahi lbalo dc, setup_counts numSect mc]) (\<lambda>_.
      exec_pio_data_in_cmd io fuel dev buf numSect mc)))"

definition reg_pio_data_out_lba28 ::
    "'h ata_io \<Rightarrow> nat \<Rightarrow> u8 \<Rightarrow> u8 \<Rightarrow> u32 \<Rightarrow> u32 \<Rightarrow> u32 \<Rightarrow> nat \<Rightarrow> int \<Rightarrow> int \<Rightarrow> ('h, int) md" where
  "reg_pio_data_out_lba28 io fuel dev cmd fr sc lba buf numSect multiCnt =
     (let mc = adjust_multi [CMD_WRITE_MULTIPLE, CMD_CFA_WRITE_MULTIPLE_WO_ERASE] cmd multiCnt in
      before device_control (\<lambda>dc.
      before (steps [setup28 dev cmd fr sc lba dc, setup_counts numSect mc]) (\<lambda>_.
      exec_pio_data_out_cmd io fuel dev buf numSect mc)))"

definition reg_pio_data_out_lba48 ::
    "'h ata_io \<Rightarrow> nat \<Rightarrow> u8 \<Rightarrow> u8 \<Rightarrow> u32 \<Rightarrow> u32 \<Rightarrow> u32 \<Rightarrow> u32 \<Rightarrow> nat \<Rightarrow> int \<Rightarrow> int \<Rightarrow> ('h, int) md" where
  "reg_pio_data_out_lba48 io fuel dev cmd fr sc lbahi lbalo buf numSect multiCnt =
     (let mc = adjust_multi [CMD_WRITE_MULTIPLE_EXT] cmd multiCnt in
      before device_control (\<lambda>dc.
      before (steps [setup48 dev cmd fr sc lbahi lbalo dc, setup_counts numSect mc]) (\<lambda>_.
      exec_pio_data_out_cmd io fuel dev buf numSect mc)))"

section \<open>Commands without data\<close>

text \<open>A loop that selects device 1 until its registers answer, and whether time ran out first.\<close>

fun poll_device1 :: "'h ata_io \<Rightarrow> nat \<Rightarrow> ('h, bool) md" where
  "poll_device1 io 0 = (\<lambda>s. Inl Diverges)"
| "poll_device1 io (Suc fuel) = before (select_dev io CB_DH_DEV1) (\<lambda>_.
     before (pio_inbyte io CB_SC) (\<lambda>sc. before (pio_inbyte io CB_SN) (\<lambda>sn.
     if sc = 0x01 \<and> sn = 0x01 then ret False
     else before (tmr_chk_timeout io) (\<lambda>late. if late then ret True else poll_device1 io fuel))))"

definition wait_command :: "'h ata_io \<Rightarrow> nat \<Rightarrow> u8 \<Rightarrow> ('h, bool) md" where
  "wait_command io fuel cmd = before (get_config 0) (\<lambda>t.
     if cmd = CMD_EXECUTE_DEVICE_DIAGNOSTIC \<and> t = REG_CONFIG_TYPE_NONE
     then before (poll_device1 io fuel) (\<lambda>late. before (if late then timed_out 24 else ret ()) (\<lambda>_. ret True))
     else if cmd = CMD_DEVICE_RESET
     then before (sub_wait_poll io fuel 0 23) (\<lambda>_. ret True)
     else before not_intr (\<lambda>polled. before (sub_wait_poll io fuel 22 23) (\<lambda>_. ret polled)))"

definition exec_non_data_cmd :: "'h ata_io \<Rightarrow> nat \<Rightarrow> u8 \<Rightarrow> ('h, int) md" where
  "exec_non_data_cmd io fuel dev =
     before (steps [pio_writeBusMstrStatus io BM_SR_MASK_ERR, tmr_set_timeout io]) (\<lambda>_.
     before (asks (\<lambda>s. ci_cmd (cmd_info s))) (\<lambda>cmd.
     before (if cmd \<noteq> CMD_DEVICE_RESET then sub_select io fuel dev else ret 0) (\<lambda>r.
     if r \<noteq> 0 then ret 1
     else before (steps [
         if cmd \<noteq> CMD_DEVICE_RESET then sub_setup_command io else ret (),
         start_command io,
         DELAY400NS io]) (\<lambda>_.
       before (wait_command io fuel cmd) (\<lambda>polled. before (command_status io polled) (\<lambda>status.
       before get_ec (\<lambda>ec.
       before (steps [
         if ec = 0 \<and> status AND (failed_bits OR CB_STAT_DRQ) \<noteq> 0 then set_ec 21 else ret (),
         check_bus_master io,
         sub_trace_command io])
       (\<lambda>_. result_code))))))))"

definition reg_non_data_lba28 :: "'h ata_io \<Rightarrow> nat \<Rightarrow> u8 \<Rightarrow> u8 \<Rightarrow> u32 \<Rightarrow> u32 \<Rightarrow> u32 \<Rightarrow> ('h, int) md" where
  "reg_non_data_lba28 io fuel dev cmd fr sc lba =
     before device_control (\<lambda>dc. before (steps [setup28 dev cmd fr sc lba dc, upd_info (\<lambda>i. i\<lparr>ci_ns := sint sc\<rparr>)])
       (\<lambda>_. exec_non_data_cmd io fuel dev))"

definition reg_non_data_lba48 :: "'h ata_io \<Rightarrow> nat \<Rightarrow> u8 \<Rightarrow> u8 \<Rightarrow> u32 \<Rightarrow> u32 \<Rightarrow> u32 \<Rightarrow> u32 \<Rightarrow> ('h, int) md" where
  "reg_non_data_lba48 io fuel dev cmd fr sc lbahi lbalo =
     before device_control (\<lambda>dc. before (steps [setup48 dev cmd fr sc lbahi lbalo dc, upd_info (\<lambda>i. i\<lparr>ci_ns := sint sc\<rparr>)])
       (\<lambda>_. exec_non_data_cmd io fuel dev))"

section \<open>Reset and configuration\<close>

definition select_existing :: "'h ata_io \<Rightarrow> ('h, nat) md" where
  "select_existing io = before (get_config 1) (\<lambda>t1.
     before (if t1 \<noteq> REG_CONFIG_TYPE_NONE then select_dev io CB_DH_DEV1 else ret ()) (\<lambda>_.
     before (get_config 0) (\<lambda>t0.
     before (if t0 \<noteq> REG_CONFIG_TYPE_NONE then select_dev io CB_DH_DEV0 else ret ()) (\<lambda>_.
     ret ((if t1 \<noteq> REG_CONFIG_TYPE_NONE then 1 else 0) + (if t0 \<noteq> REG_CONFIG_TYPE_NONE then 1 else 0))))))"

definition reset_device0 :: "'h ata_io \<Rightarrow> nat \<Rightarrow> ('h, unit) md" where
  "reset_device0 io fuel = before (get_config 0) (\<lambda>t.
     if t = REG_CONFIG_TYPE_NONE then ret ()
     else before (poll io CB_STAT CB_STAT_BSY fuel) (\<lambda>(_, late). if late then timed_out 1 else ret ()))"

definition reset_device1 :: "'h ata_io \<Rightarrow> nat \<Rightarrow> ('h, unit) md" where
  "reset_device1 io fuel = before (get_config 1) (\<lambda>t.
     if t = REG_CONFIG_TYPE_NONE then ret ()
     else before (poll_device1 io fuel) (\<lambda>late. before (if late then timed_out 2 else ret ()) (\<lambda>_.
       before get_ec (\<lambda>ec.
       if ec = 0
       then before (pio_inbyte io CB_STAT) (\<lambda>st. if st AND CB_STAT_BSY \<noteq> 0 then set_ec 3 else ret ())
       else ret ()))))"

definition reg_reset :: "'h ata_io \<Rightarrow> nat \<Rightarrow> u8 \<Rightarrow> ('h, int) md" where
  "reg_reset io fuel devRtrn = before device_control (\<lambda>dc.
     before (steps [
       pio_writeBusMstrStatus io BM_SR_MASK_ERR,
       tmr_set_timeout io,
       pio_outbyte io CB_DC (dc OR CB_DC_SRST),
       DELAY400NS io,
       pio_outbyte io CB_DC dc,
       DELAY400NS io,
       reset_device0 io fuel,
       reset_device1 io fuel,
       select_dev io (device_bit devRtrn),
       before (select_existing io) (\<lambda>_. ret ()),
       check_bus_master io,
       sub_trace_command io])
     (\<lambda>_. result_code))"

text \<open>Whether the registers of a device keep what is written.\<close>

definition probe_dev :: "'h ata_io \<Rightarrow> nat \<Rightarrow> u8 \<Rightarrow> ('h, unit) md" where
  "probe_dev io dev d = before (steps [
       select_dev io d,
       pio_outbyte io CB_SC 0x55,
       pio_outbyte io CB_SN 0xaa,
       pio_outbyte io CB_SC 0xaa,
       pio_outbyte io CB_SN 0x55,
       pio_outbyte io CB_SC 0x55,
       pio_outbyte io CB_SN 0xaa])
     (\<lambda>_. before (pio_inbyte io CB_SC) (\<lambda>sc. before (pio_inbyte io CB_SN) (\<lambda>sn.
     if sc = 0x55 \<and> sn = 0xaa then set_config dev REG_CONFIG_TYPE_UNKN else ret ())))"

text \<open>The type of a device, from its signature.\<close>

definition identify_dev :: "'h ata_io \<Rightarrow> nat \<Rightarrow> u8 \<Rightarrow> ('h, unit) md" where
  "identify_dev io dev d = before (select_dev io d) (\<lambda>_.
     before (pio_inbyte io CB_SC) (\<lambda>sc. before (pio_inbyte io CB_SN) (\<lambda>sn.
     if sc = 0x01 \<and> sn = 0x01
     then before (set_config dev REG_CONFIG_TYPE_UNKN) (\<lambda>_. before (pio_inbyte io CB_STAT) (\<lambda>st.
          before (pio_inbyte io CB_CL) (\<lambda>cl. before (pio_inbyte io CB_CH) (\<lambda>ch.
          if cl = 0x14 \<and> ch = 0xeb \<or> cl = 0x69 \<and> ch = 0x96 then set_config dev REG_CONFIG_TYPE_ATAPI
          else if st \<noteq> 0 \<and> (cl = 0x00 \<and> ch = 0x00 \<or> cl = 0x3c \<and> ch = 0xc3) then set_config dev REG_CONFIG_TYPE_ATA
          else ret ()))))
     else ret ())))"

definition reg_config :: "'h ata_io \<Rightarrow> nat \<Rightarrow> ('h, nat) md" where
  "reg_config io fuel =
     before (steps [
       sets (\<lambda>s. s\<lparr>ticks_per_second := clock_hz io (hw s)\<rparr>),
       before (asks irq_listened) (\<lambda>b. if b then ret () else sets (\<lambda>s. s\<lparr>irq_listened := True, hw := irq_listen io 14 (hw s)\<rparr>))])
     (\<lambda>_. before device_control (\<lambda>dc.
     before (steps [
       pio_writeBusMstrStatus io BM_SR_MASK_ERR,
       set_config 0 REG_CONFIG_TYPE_NONE,
       set_config 1 REG_CONFIG_TYPE_NONE,
       pio_outbyte io CB_DC dc,
       probe_dev io 0 CB_DH_DEV0,
       probe_dev io 1 CB_DH_DEV1,
       select_dev io CB_DH_DEV0,
       before (reg_reset io fuel 0) (\<lambda>_. ret ()),
       identify_dev io 0 CB_DH_DEV0,
       identify_dev io 1 CB_DH_DEV1])
     (\<lambda>_. before (select_existing io) (\<lambda>numDev. before (check_bus_master io) (\<lambda>_. ret numDev)))))"

section \<open>DMA\<close>

definition MAX_PRD :: nat where "MAX_PRD = (262144 div 65536 + 2) * 4"

text \<open>\<open>prdBuf\<close> is the address of the buffer for the table.\<close>

definition dma_pci_config :: "'h ata_io \<Rightarrow> u32 \<Rightarrow> ('h, int) md" where
  "dma_pci_config io prdBuf =
     (let lw0 = (prdBuf + 15) AND 0xfffffff8;
          lw = (if lw0 AND 0xffff0000 \<noteq> (lw0 + of_nat MAX_PRD * 8 - 1) AND 0xffff0000
                then (lw0 + of_nat MAX_PRD * 8) AND 0xffff0000 else lw0) in
      before (sets (\<lambda>s. s\<lparr>prdBufPtr := lw, dma_pci_num_prd := 0\<rparr>)) (\<lambda>_.
      before (pio_readBusMstrStatus io) (\<lambda>st.
      before (sets (\<lambda>s. s\<lparr>statReg := st AND 0x60\<rparr>)) (\<lambda>_. ret 0))))"

text \<open>The length of one entry of the table and the address after it, for \<open>bc\<close> bytes from \<open>phyAddr\<close>; the table, and whether it
  was too small.\<close>

definition prd_step :: "int \<Rightarrow> u32 \<Rightarrow> u32 \<times> int" where
  "prd_step bc phyAddr =
     (let temp = (if 65536 > bc then bc else 65536); next_addr = phyAddr + of_int temp in
      if next_addr AND 0xffff0000 \<noteq> phyAddr AND 0xffff0000
      then (next_addr AND 0xffff0000, sint ((next_addr AND 0xffff0000) - phyAddr))
      else (next_addr, temp))"

fun prd_loop :: "nat \<Rightarrow> int \<Rightarrow> u32 \<Rightarrow> (u32 \<times> u32) list \<times> bool" where
  "prd_loop 0 bc phyAddr = ([], bc > 0)"
| "prd_loop (Suc room) bc phyAddr =
     (if bc > 0
      then let (next_addr, temp) = prd_step bc phyAddr;
               count = of_int temp AND 0x0000ffff;
               (ps, full) = prd_loop room (bc - temp) next_addr in
           ((phyAddr, if bc - temp < 1 then count OR 0x80000000 else count) # ps, full)
      else ([], False))"

definition set_up_xfer :: "'h ata_io \<Rightarrow> bool \<Rightarrow> int \<Rightarrow> u32 \<Rightarrow> ('h, int) md" where
  "set_up_xfer io dir bc bufAddr =
     before (asks statReg) (\<lambda>sr.
     before (steps [
       pio_writeBusMstrCmd io BM_CR_MASK_STOP,
       pio_writeBusMstrStatus io (sr OR BM_SR_MASK_INT OR BM_SR_MASK_ERR)]) (\<lambda>_.
     let (ps, full) = prd_loop MAX_PRD bc bufAddr in
     before (sets (\<lambda>s. s\<lparr>prd_list := ps\<rparr>)) (\<lambda>_.
     if full then ret 1
     else
       before (asks (\<lambda>s. (bmide_base s, prdBufPtr s))) (\<lambda>(base, p).
       before (steps [
         sets (\<lambda>s. s\<lparr>dma_pci_num_prd := length ps\<rparr>),
         port_out (out_l io) (base + BM_PRD_ADDR_LOW) (phys_addr io p),
         sets (\<lambda>s. s\<lparr>rwControl := if dir then BM_CR_MASK_READ else BM_CR_MASK_WRITE\<rparr>),
         pio_writeBusMstrCmd io (if dir then BM_CR_MASK_READ else BM_CR_MASK_WRITE)])
       (\<lambda>_. ret 0)))))"

definition dma_wait :: "'h ata_io \<Rightarrow> ('h, unit) md" where
  "dma_wait io = before (SYSTEM_WAIT_INTR_OR_TIMEOUT io) (\<lambda>late. if late then timed_out 73 else ret ())"

text \<open>How the transfer ended: the status of the bus master, then that of the drive.\<close>

definition dma_finish :: "'h ata_io \<Rightarrow> int \<Rightarrow> ('h, int) md" where
  "dma_finish io numSect =
     before (asks int_bmide_status) (\<lambda>bm0.
     before (pio_writeBusMstrCmd io BM_CR_MASK_STOP) (\<lambda>_.
     before (pio_readBusMstrCmd io) (\<lambda>_. before (pio_readBusMstrStatus io) (\<lambda>bm1.
     let bm = (bm0 AND NOT BM_SR_MASK_ACT) OR bm1 in
     before get_ec (\<lambda>ec. before (if ec = 0 \<and> bm AND BM_SR_MASK_ERR \<noteq> 0 then set_ec 78 else ret ()) (\<lambda>_.
     before get_ec (\<lambda>ec. before (if ec = 0 \<and> bm AND BM_SR_MASK_ACT \<noteq> 0 then set_ec 71 else ret ()) (\<lambda>_.
     before (command_status io False) (\<lambda>status.
     before get_ec (\<lambda>ec.
     before (if ec = 0 \<and> status AND (failed_bits OR CB_STAT_DRQ) \<noteq> 0 then set_ec 74 else ret ()) (\<lambda>_.
     before get_ec (\<lambda>ec.
     before (upd_info (\<lambda>i. i\<lparr>ci_totalBytesXfer := if ec = 0 then numSect * 512 else 0\<rparr>)) (\<lambda>_. result_code)))))))))))))"

definition exec_pci_ata_cmd :: "'h ata_io \<Rightarrow> nat \<Rightarrow> u8 \<Rightarrow> u32 \<Rightarrow> int \<Rightarrow> ('h, int) md" where
  "exec_pci_ata_cmd io fuel dev bufAddr numSect =
     before (asks (\<lambda>s. ci_cmd (cmd_info s))) (\<lambda>cmd.
     if cmd \<notin> {CMD_READ_DMA, CMD_READ_DMA_EXT, CMD_WRITE_DMA, CMD_WRITE_DMA_EXT}
     then before (set_ec 77) (\<lambda>_. ret 1)
     else before (set_up_xfer io (cmd = CMD_WRITE_DMA \<or> cmd = CMD_WRITE_DMA_EXT) (numSect * 512) bufAddr) (\<lambda>r.
       if r \<noteq> 0 then before (set_ec 61) (\<lambda>_. ret 1)
       else before (tmr_set_timeout io) (\<lambda>_. before (sub_select io fuel dev) (\<lambda>r.
         if r \<noteq> 0 then ret 1
         else before (steps [
             sub_setup_command io,
             start_command io,
             before (pio_readBusMstrCmd io) (\<lambda>_. ret ()),
             before (pio_readBusMstrStatus io) (\<lambda>_. ret ()),
             before (asks rwControl) (\<lambda>rw. pio_writeBusMstrCmd io (rw OR BM_CR_MASK_START)),
             before (pio_readBusMstrCmd io) (\<lambda>_. ret ()),
             before (pio_readBusMstrStatus io) (\<lambda>_. ret ()),
             dma_wait io])
           (\<lambda>_. dma_finish io numSect)))))"

definition dma_pci_lba28 ::
    "'h ata_io \<Rightarrow> nat \<Rightarrow> u8 \<Rightarrow> u8 \<Rightarrow> u32 \<Rightarrow> u32 \<Rightarrow> u32 \<Rightarrow> u32 \<Rightarrow> int \<Rightarrow> ('h, int) md" where
  "dma_pci_lba28 io fuel dev cmd fr sc lba bufAddr numSect =
     before (steps [setup28 dev cmd fr sc lba 0, upd_info (\<lambda>i. i\<lparr>ci_ns := numSect\<rparr>)])
       (\<lambda>_. exec_pci_ata_cmd io fuel dev bufAddr numSect)"

definition dma_pci_lba48 ::
    "'h ata_io \<Rightarrow> nat \<Rightarrow> u8 \<Rightarrow> u8 \<Rightarrow> u32 \<Rightarrow> u32 \<Rightarrow> u32 \<Rightarrow> u32 \<Rightarrow> u32 \<Rightarrow> int \<Rightarrow> ('h, int) md" where
  "dma_pci_lba48 io fuel dev cmd fr sc lbahi lbalo bufAddr numSect =
     before (steps [setup48 dev cmd fr sc lbahi lbalo 0, upd_info (\<lambda>i. i\<lparr>ci_ns := numSect\<rparr>)])
       (\<lambda>_. exec_pci_ata_cmd io fuel dev bufAddr numSect)"

end
