(* ===== verification/MindrvrProps.thy ===== *)
theory MindrvrProps
  imports Mindrvr
begin

text \<open>
  What the ATA standard says of a drive in the PIO protocol, as far as \<open>Mindrvr\<close> relies on it. The hardware is
  seen through a view: the contents of the disk, the registers, and the phase of a command. Addresses are of bytes on
  the disk; \<open>Loading a b\<close>: the drive will ask to send the sector at \<open>a\<close>, \<open>b\<close> is the end of the command;
  \<open>Sending a b\<close>: it sends the word at \<open>a\<close>; \<open>Taking k a b\<close>: after \<open>k\<close> more looks at its status it takes the word
  at \<open>a\<close>; \<open>Storing a b\<close>: it stores the sector before \<open>a\<close>. The second part executes routines on a view, the rest the routines of \<open>Mindrvr\<close>.
\<close>

section \<open>The drive\<close>

datatype ata_phase = Idle | Loading nat nat | Sending nat nat | Taking nat nat nat | Storing nat nat

record ata_view =
  v_disk :: "nat \<Rightarrow> u8"
  v_phase :: ata_phase
  v_int :: bool
  v_sc :: u8
  v_sn :: u8
  v_cl :: u8
  v_ch :: u8
  v_dh :: u8

text \<open>Busy, fault, data request and error are clear, or just data request is set.\<close>

definition resting :: "u8 \<Rightarrow> bool" where
  "resting st \<longleftrightarrow> st AND 0xA9 = 0"

definition asking :: "u8 \<Rightarrow> bool" where
  "asking st \<longleftrightarrow> st AND 0xA9 = 0x08"

fun status_shown :: "ata_phase \<Rightarrow> u8 \<Rightarrow> bool" where
  "status_shown Idle st = resting st"
| "status_shown (Sending a b) st = asking st"
| "status_shown (Taking k a b) st = (if k = 0 then asking st else st AND CB_STAT_BSY \<noteq> 0)"
| "status_shown p st = True"

fun looked_at :: "ata_phase \<Rightarrow> ata_phase" where
  "looked_at (Taking k a b) = Taking (k - 1) a b"
| "looked_at p = p"

text \<open>Between sectors the drive is busy and its status of no use.\<close>

fun between :: "ata_phase \<Rightarrow> bool" where
  "between (Loading a b) = True"
| "between (Storing a b) = True"
| "between (Taking k a b) = (k \<noteq> 0)"
| "between p = False"

definition shows_status :: "'h ata_io \<Rightarrow> ('h \<Rightarrow> ata_view) \<Rightarrow> bool" where
  "shows_status io view \<longleftrightarrow> (\<forall>h st h'.
     (in_b io 0x3F6 h = (st, h') \<longrightarrow> status_shown (v_phase (view h)) st \<and>
        view h' = (view h)\<lparr>v_phase := looked_at (v_phase (view h))\<rparr>) \<and>
     (in_b io 0x1F7 h = (st, h') \<longrightarrow> \<not> between (v_phase (view h)) \<longrightarrow>
        status_shown (v_phase (view h)) st \<and> view h' = (view h)\<lparr>v_int := False\<rparr>))"

definition keeps_registers :: "'h ata_io \<Rightarrow> ('h \<Rightarrow> ata_view) \<Rightarrow> bool" where
  "keeps_registers io view \<longleftrightarrow> (\<forall>h x. v_phase (view h) = Idle \<longrightarrow>
     view (out_b io 0x1F1 x h) = view h \<and>
     view (out_b io 0x1F2 x h) = (view h)\<lparr>v_sc := x\<rparr> \<and>
     view (out_b io 0x1F3 x h) = (view h)\<lparr>v_sn := x\<rparr> \<and>
     view (out_b io 0x1F4 x h) = (view h)\<lparr>v_cl := x\<rparr> \<and>
     view (out_b io 0x1F5 x h) = (view h)\<lparr>v_ch := x\<rparr> \<and>
     view (out_b io 0x1F6 x h) = (view h)\<lparr>v_dh := x\<rparr> \<and>
     view (out_b io 0x3F6 0 h) = view h)"

text \<open>
  The address and the number of sectors in the registers, for a command with a 28-bit address to device 0. Before it
  takes data the drive is busy for at most \<open>busy\<close> looks at its status.
\<close>

definition lba_of :: "ata_view \<Rightarrow> nat" where
  "lba_of v = unat (v_sn v) + 256 * unat (v_cl v) + 65536 * unat (v_ch v) + 16777216 * unat (v_dh v AND 0x0f)"

definition count_of :: "ata_view \<Rightarrow> nat" where
  "count_of v = (if v_sc v = 0 then 256 else unat (v_sc v))"

definition takes_commands :: "'h ata_io \<Rightarrow> nat \<Rightarrow> ('h \<Rightarrow> ata_view) \<Rightarrow> bool" where
  "takes_commands io busy view \<longleftrightarrow> (\<forall>h. v_phase (view h) = Idle \<longrightarrow> v_dh (view h) AND 0x50 = 0x40 \<longrightarrow>
     (let a = 512 * lba_of (view h); b = a + 512 * count_of (view h) in
      view (out_b io 0x1F7 CMD_READ_SECTORS h) = (view h)\<lparr>v_phase := Loading a b\<rparr> \<and>
      (\<exists>k \<le> busy. view (out_b io 0x1F7 CMD_WRITE_SECTORS h) = (view h)\<lparr>v_phase := Taking k a b\<rparr>)))"

definition sent_to :: "nat \<Rightarrow> nat \<Rightarrow> ata_phase" where
  "sent_to a b = (if a mod 512 \<noteq> 0 then Sending a b else if a = b then Idle else Loading a b)"

definition taken_to :: "nat \<Rightarrow> nat \<Rightarrow> ata_phase" where
  "taken_to a b = (if a mod 512 \<noteq> 0 then Taking 0 a b else Storing a b)"

definition disk_word :: "(nat \<Rightarrow> u8) \<Rightarrow> nat \<Rightarrow> u16" where
  "disk_word c a = ucast (c a) OR push_bit 8 (ucast (c (a + 1)))"

definition moves_data :: "'h ata_io \<Rightarrow> ('h \<Rightarrow> ata_view) \<Rightarrow> bool" where
  "moves_data io view \<longleftrightarrow> (\<forall>h a b.
     (v_phase (view h) = Sending a b \<longrightarrow>
        (\<exists>h'. in_w io 0x1F0 h = (disk_word (v_disk (view h)) a, h') \<and> view h' = (view h)\<lparr>v_phase := sent_to (a + 2) b\<rparr>)) \<and>
     (v_phase (view h) = Taking 0 a b \<longrightarrow>
        (\<forall>w. view (out_w io 0x1F0 w h) =
           (view h)\<lparr>v_phase := taken_to (a + 2) b, v_disk := overwrite a (put_u16 w) (v_disk (view h))\<rparr>)))"

definition interrupts :: "'h ata_io \<Rightarrow> ('h \<Rightarrow> ata_view) \<Rightarrow> bool" where
  "interrupts io view \<longleftrightarrow> (\<forall>h a b ms.
     (v_phase (view h) = Loading a b \<longrightarrow>
        (\<exists>h'. irq_wait io ms h = (True, h') \<and> view h' = (view h)\<lparr>v_phase := Sending a b, v_int := True\<rparr>)) \<and>
     (v_phase (view h) = Storing a b \<longrightarrow>
        (\<exists>h'. irq_wait io ms h = (True, h') \<and>
           view h' = (view h)\<lparr>v_phase := if a = b then Idle else Taking 0 a b, v_int := True\<rparr>)))"

text \<open>The bus master, when there is one at \<open>base\<close>, reports no error and the interrupt of the drive.\<close>

definition bus_master_quiet :: "'h ata_io \<Rightarrow> u32 \<Rightarrow> ('h \<Rightarrow> ata_view) \<Rightarrow> bool" where
  "bus_master_quiet io base view \<longleftrightarrow> (base \<noteq> 0 \<longrightarrow> (\<forall>h x st h'.
     view (out_b io (ucast (base + 2)) x h) = view h \<and>
     (in_b io (ucast (base + 2)) h = (st, h') \<longrightarrow>
        view h' = view h \<and> st AND BM_SR_MASK_ERR = 0 \<and> (v_int (view h) \<longrightarrow> st AND BM_SR_MASK_INT \<noteq> 0))))"

text \<open>Reading the clock changes nothing, and no two readings are twenty seconds apart.\<close>

definition in_time :: "'h ata_io \<Rightarrow> u32 \<Rightarrow> ('h \<Rightarrow> ata_view) \<Rightarrow> bool" where
  "in_time io hz view \<longleftrightarrow> (\<forall>h h'. view (snd (clock io h)) = view h \<and>
     sint (fst (clock io h)) < sint (fst (clock io h') + TMR_TIME_OUT * hz))"

definition ata_protocol :: "'h ata_io \<Rightarrow> nat \<Rightarrow> u32 \<Rightarrow> u32 \<Rightarrow> ('h \<Rightarrow> ata_view) \<Rightarrow> bool" where
  "ata_protocol io busy base hz view \<longleftrightarrow> shows_status io view \<and> keeps_registers io view \<and> takes_commands io busy view \<and>
     moves_data io view \<and> interrupts io view \<and> bus_master_quiet io base view \<and> in_time io hz view"

section \<open>Execution on a view\<close>

text \<open>From a driver state and a view of the hardware a routine returns and establishes \<open>Q\<close>.\<close>

definition runs :: "('h \<Rightarrow> ata_view) \<Rightarrow> ('h, 'a) md \<Rightarrow> 'h mindrvr \<Rightarrow> ata_view \<Rightarrow> ('a \<Rightarrow> 'h mindrvr \<Rightarrow> ata_view \<Rightarrow> bool) \<Rightarrow> bool" where
  "runs view m s v Q \<longleftrightarrow> (\<forall>h. view h = v \<longrightarrow>
     (\<exists>x s1 h'. m (s\<lparr>hw := h\<rparr>) = Inr (x, s1\<lparr>hw := h'\<rparr>) \<and> Q x s1 (view h')))"

lemma runs_mono: "runs view m s v Q \<Longrightarrow> (\<And>x s1 v1. Q x s1 v1 \<Longrightarrow> R x s1 v1) \<Longrightarrow> runs view m s v R"
  unfolding runs_def by blast

lemma runs_ret: "Q x s v \<Longrightarrow> runs view (ret x) s v Q"
  by (auto simp: runs_def ret_def)

lemma runs_before: "runs view m s v (\<lambda>x s1 v1. runs view (f x) s1 v1 Q) \<Longrightarrow> runs view (before m f) s v Q"
  unfolding runs_def before_def by (fastforce simp: rbind_eq_Inr)

lemma runs_steps_Nil: "Q () s v \<Longrightarrow> runs view (steps []) s v Q"
  by (simp add: runs_ret)

lemma runs_steps_Cons:
  "runs view m s v (\<lambda>_ s1 v1. runs view (steps ms) s1 v1 Q) \<Longrightarrow> runs view (steps (m # ms)) s v Q"
  by (simp add: runs_before)

lemma runs_asks: "(\<And>h. f (s\<lparr>hw := h\<rparr>) = f s) \<Longrightarrow> Q (f s) s v \<Longrightarrow> runs view (asks f) s v Q"
  by (auto simp: runs_def asks_def)

lemma runs_sets: "(\<And>h. f (s\<lparr>hw := h\<rparr>) = (f s)\<lparr>hw := h\<rparr>) \<Longrightarrow> Q () (f s) v \<Longrightarrow> runs view (sets f) s v Q"
  by (auto simp: runs_def sets_def)

lemma runs_if: "(b \<Longrightarrow> runs view m s v Q) \<Longrightarrow> (\<not> b \<Longrightarrow> runs view m' s v Q) \<Longrightarrow> runs view (if b then m else m') s v Q"
  by simp

text \<open>
  The routines of \<open>Mindrvr\<close> against a drive that keeps to the protocol: a PIO read fills the buffer with the sectors
  asked for, a PIO write changes exactly them; what goes on past the end of the buffer; and how errors stick.
\<close>

section \<open>Single accesses\<close>

lemma protocolD:
  assumes "ata_protocol io busy base hz view"
  shows "shows_status io view" "keeps_registers io view" "takes_commands io busy view" "moves_data io view"
    "interrupts io view" "bus_master_quiet io base view" "in_time io hz view"
  using assms by (simp_all add: ata_protocol_def)

lemmas register_defs = CB_DATA_def CB_ERR_def CB_FR_def CB_SC_def CB_SN_def CB_CL_def CB_CH_def CB_DH_def CB_STAT_def
  CB_CMD_def CB_ASTAT_def CB_DC_def pio_reg_addrs_def

lemma runs_in:
  assumes "\<And>h x h'. view h = v \<Longrightarrow> f (ucast p) h = (x, h') \<Longrightarrow> Q x s (view h')"
  shows "runs view (port_in f p) s v Q"
  unfolding runs_def
proof (intro allI impI)
  fix h assume "view h = v"
  then have "Q (fst (f (ucast p) h)) s (view (snd (f (ucast p) h)))" by (rule assms) simp
  moreover have "port_in f p (s\<lparr>hw := h\<rparr>) = Inr (fst (f (ucast p) h), s\<lparr>hw := snd (f (ucast p) h)\<rparr>)"
    by (simp add: port_in_def split: prod.split)
  ultimately show "\<exists>x s1 h'. port_in f p (s\<lparr>hw := h\<rparr>) = Inr (x, s1\<lparr>hw := h'\<rparr>) \<and> Q x s1 (view h')" by blast
qed

lemma runs_out:
  assumes "\<And>h. view h = v \<Longrightarrow> Q () s (view (f (ucast p) x h))"
  shows "runs view (port_out f p x) s v Q"
  using assms by (auto simp: runs_def port_out_def sets_def)

lemma runs_status:
  assumes "ata_protocol io busy base hz view" and "\<not> between (v_phase v)"
    and "\<And>st. status_shown (v_phase v) st \<Longrightarrow> Q st s (v\<lparr>v_int := False\<rparr>)"
  shows "runs view (pio_inbyte io CB_STAT) s v Q"
  unfolding pio_inbyte_def using protocolD(1) [OF assms(1)] assms(2,3)
  by (intro runs_in) (auto simp: register_defs shows_status_def)

lemma runs_alt_status:
  assumes "ata_protocol io busy base hz view"
    and "\<And>st. status_shown (v_phase v) st \<Longrightarrow> Q st s (v\<lparr>v_phase := looked_at (v_phase v)\<rparr>)"
  shows "runs view (pio_inbyte io CB_ASTAT) s v Q"
  unfolding pio_inbyte_def using protocolD(1) [OF assms(1)] assms(2)
  by (intro runs_in) (auto simp: register_defs shows_status_def)

lemma runs_registers:
  assumes "ata_protocol io busy base hz view" and "v_phase v = Idle"
  shows "Q () s v \<Longrightarrow> runs view (pio_outbyte io CB_FR x) s v Q"
    and "Q () s (v\<lparr>v_sc := x\<rparr>) \<Longrightarrow> runs view (pio_outbyte io CB_SC x) s v Q"
    and "Q () s (v\<lparr>v_sn := x\<rparr>) \<Longrightarrow> runs view (pio_outbyte io CB_SN x) s v Q"
    and "Q () s (v\<lparr>v_cl := x\<rparr>) \<Longrightarrow> runs view (pio_outbyte io CB_CL x) s v Q"
    and "Q () s (v\<lparr>v_ch := x\<rparr>) \<Longrightarrow> runs view (pio_outbyte io CB_CH x) s v Q"
    and "Q () s (v\<lparr>v_dh := x\<rparr>) \<Longrightarrow> runs view (pio_outbyte io CB_DH x) s v Q"
    and "Q () s v \<Longrightarrow> runs view (pio_outbyte io CB_DC 0) s v Q"
  unfolding pio_outbyte_def using protocolD(2) [OF assms(1)] assms(2)
  by (intro runs_out; simp add: register_defs keeps_registers_def)+

text \<open>Four looks at the alternate status.\<close>

definition waited :: "ata_view \<Rightarrow> ata_view" where
  "waited v = v\<lparr>v_phase := (looked_at ^^ 4) (v_phase v)\<rparr>"

lemma looked_at_simps [simp]:
  "(looked_at ^^ n) Idle = Idle" "(looked_at ^^ n) (Loading a b) = Loading a b"
  "(looked_at ^^ n) (Sending a b) = Sending a b" "(looked_at ^^ n) (Storing a b) = Storing a b"
  "(looked_at ^^ n) (Taking k a b) = Taking (k - n) a b"
  by (induction n) simp_all

lemma waited_simps [simp]:
  "v_phase v = Idle \<Longrightarrow> waited v = v" "v_phase v = Loading a b \<Longrightarrow> waited v = v"
  "v_phase v = Sending a b \<Longrightarrow> waited v = v" "v_phase v = Storing a b \<Longrightarrow> waited v = v"
  "v_phase v = Taking k a b \<Longrightarrow> waited v = v\<lparr>v_phase := Taking (k - 4) a b\<rparr>"
  by (simp_all add: waited_def)

lemma runs_delay:
  assumes "ata_protocol io busy base hz view" and "Q () s (waited v)"
  shows "runs view (DELAY400NS io) s v Q"
proof -
  have look: "runs view (before (pio_inbyte io CB_ASTAT) (\<lambda>_. ret ())) s v (\<lambda>_ s1 v1. R s1 v1)"
    if "R s (v\<lparr>v_phase := looked_at (v_phase v)\<rparr>)" for R v
    by (intro runs_before runs_alt_status [OF assms(1)] runs_ret that)
  have four: "replicate 4 x = [x, x, x, x]" for x :: "('a, unit) md" by (simp add: numeral_eq_Suc)
  have "(looked_at ^^ 4) p = looked_at (looked_at (looked_at (looked_at p)))" for p by (simp add: numeral_eq_Suc)
  then show ?thesis
    unfolding DELAY400NS_def four using assms(2)
    by (intro runs_steps_Cons look runs_steps_Nil) (simp add: waited_def)
qed

lemma runs_bm_write:
  assumes "ata_protocol io busy (bmide_base s) hz view" and "Q () s v"
  shows "runs view (pio_writeBusMstrStatus io x) s v Q"
  unfolding pio_writeBusMstrStatus_def using protocolD(6) [OF assms(1)] assms(2)
  by (intro runs_before runs_asks runs_if runs_ret runs_out) (auto simp: BM_STATUS_REG_def bus_master_quiet_def)

lemma runs_bm_read:
  assumes "ata_protocol io busy (bmide_base s) hz view"
    and "\<And>st. st AND BM_SR_MASK_ERR = 0 \<Longrightarrow> (bmide_base s \<noteq> 0 \<Longrightarrow> v_int v \<Longrightarrow> st AND BM_SR_MASK_INT \<noteq> 0) \<Longrightarrow> Q st s v"
  shows "runs view (pio_readBusMstrStatus io) s v Q"
proof -
  have q: "bus_master_quiet io (bmide_base s) view" by (rule protocolD(6) [OF assms(1)])
  have "Q x s (view h')" if "bmide_base s \<noteq> 0" "view h = v" "in_b io (ucast (bmide_base s + 2)) h = (x, h')" for h x h'
    using q that assms(2) [of x] by (simp add: bus_master_quiet_def)
  then show ?thesis
    unfolding pio_readBusMstrStatus_def BM_STATUS_REG_def
    by (intro runs_before runs_asks runs_if runs_ret runs_in assms(2)) simp_all
qed

lemma runs_check_bm:
  assumes "ata_protocol io busy (bmide_base s) hz view" and "Q () s v"
  shows "runs view (check_bus_master io) s v Q"
  unfolding check_bus_master_def using assms
  by (intro runs_before runs_bm_read runs_if runs_ret) auto

section \<open>Waiting\<close>

definition started :: "'h ata_io \<Rightarrow> 'h mindrvr \<Rightarrow> bool" where
  "started io s \<longleftrightarrow> (\<exists>h. tmr_cmd_start_time s = fst (clock io h))"

lemma runs_ticks:
  assumes "ata_protocol io busy base hz view" and "\<And>h. Q (fst (clock io h)) s v"
  shows "runs view (ticks io) s v Q"
  unfolding runs_def
proof (intro allI impI)
  fix h assume v: "view h = v"
  have "view (snd (clock io h)) = v" using protocolD(7) [OF assms(1)] v by (simp add: in_time_def)
  then have "Q (fst (clock io h)) s (view (snd (clock io h)))" using assms(2) by simp
  moreover have "ticks io (s\<lparr>hw := h\<rparr>) = Inr (fst (clock io h), s\<lparr>hw := snd (clock io h)\<rparr>)"
    by (simp add: ticks_def split: prod.split)
  ultimately show "\<exists>x s1 h'. ticks io (s\<lparr>hw := h\<rparr>) = Inr (x, s1\<lparr>hw := h'\<rparr>) \<and> Q x s1 (view h')" by blast
qed

lemma runs_set_timeout:
  assumes "ata_protocol io busy base hz view" and "\<And>t. started io (s\<lparr>tmr_cmd_start_time := t\<rparr>) \<Longrightarrow> Q () (s\<lparr>tmr_cmd_start_time := t\<rparr>) v"
  shows "runs view (tmr_set_timeout io) s v Q"
  unfolding tmr_set_timeout_def
  by (intro runs_before runs_ticks [OF assms(1)] runs_sets assms(2)) (auto simp: started_def)

lemma runs_chk_timeout:
  assumes "ata_protocol io busy base (ticks_per_second s) view" and "started io s" and "Q False s v"
  shows "runs view (tmr_chk_timeout io) s v Q"
proof -
  obtain h0 where h0: "tmr_cmd_start_time s = fst (clock io h0)" using assms(2) by (auto simp: started_def)
  have "\<not> sint (fst (clock io h)) \<ge> sint (tmr_cmd_start_time s + TMR_TIME_OUT * ticks_per_second s)" for h
    using protocolD(7) [OF assms(1)] by (simp add: in_time_def h0 not_le)
  then have q: "Q (sint (fst (clock io h)) \<ge> sint (tmr_cmd_start_time s + TMR_TIME_OUT * ticks_per_second s)) s v" for h
    using assms(3) by simp
  show ?thesis
    unfolding tmr_chk_timeout_def
    by (intro runs_before runs_ticks [OF assms(1)] runs_asks) (use q in simp_all)
qed

lemma status_bits:
  "resting st \<Longrightarrow> st AND failed_bits = 0" "resting st \<Longrightarrow> st AND CB_STAT_DRQ = 0"
  "resting st \<Longrightarrow> st AND (CB_STAT_BSY OR CB_STAT_DRQ) = 0" "resting st \<Longrightarrow> st AND (failed_bits OR CB_STAT_DRQ) = 0"
  "asking st \<Longrightarrow> st AND failed_bits = 0" "asking st \<Longrightarrow> st AND CB_STAT_DRQ \<noteq> 0"
  "asking st \<Longrightarrow> st AND (CB_STAT_BSY OR CB_STAT_DRQ) = CB_STAT_DRQ" "asking st \<Longrightarrow> st AND CB_STAT_BSY = 0"
proof -
  have sub: "st AND m = (st AND 0xA9) AND m" if "0xA9 AND m = m" for m :: u8
    using that by (simp add: and.assoc)
  note bits = failed_bits_def CB_STAT_BSY_def CB_STAT_DF_def CB_STAT_ERR_def CB_STAT_DRQ_def
  show "resting st \<Longrightarrow> st AND failed_bits = 0" "resting st \<Longrightarrow> st AND CB_STAT_DRQ = 0"
    "resting st \<Longrightarrow> st AND (CB_STAT_BSY OR CB_STAT_DRQ) = 0" "resting st \<Longrightarrow> st AND (failed_bits OR CB_STAT_DRQ) = 0"
    "asking st \<Longrightarrow> st AND failed_bits = 0" "asking st \<Longrightarrow> st AND CB_STAT_DRQ \<noteq> 0"
    "asking st \<Longrightarrow> st AND (CB_STAT_BSY OR CB_STAT_DRQ) = CB_STAT_DRQ" "asking st \<Longrightarrow> st AND CB_STAT_BSY = 0"
    unfolding resting_def asking_def by (subst sub; simp add: bits)+
qed

lemma runs_poll_idle:
  assumes "ata_protocol io busy base hz view" and "v_phase v = Idle" and "0 < fuel"
    and "\<And>st. resting st \<Longrightarrow> Q (st, False) s (v\<lparr>v_int := False\<rparr>)"
  shows "runs view (poll io CB_STAT (CB_STAT_BSY OR CB_STAT_DRQ) fuel) s v Q"
proof -
  obtain k where k: "fuel = Suc k" using assms(3) by (cases fuel) auto
  show ?thesis
    unfolding k poll.simps
    by (intro runs_before runs_status [OF assms(1)] runs_if runs_ret assms(4)) (use assms(2) in \<open>auto simp: status_bits\<close>)
qed

lemma runs_poll_taking:
  assumes "ata_protocol io busy base (ticks_per_second s) view" and "v_phase v = Taking k a b" and "k < fuel" and "started io s"
    and "\<And>st. asking st \<Longrightarrow> Q (st, False) s (v\<lparr>v_phase := Taking 0 a b\<rparr>)"
  shows "runs view (poll io CB_ASTAT CB_STAT_BSY fuel) s v Q"
  using assms(2,3,5)
proof (induction fuel arbitrary: k v)
  case (Suc fuel)
  show ?case
  proof (cases k)
    case 0
    then have "v\<lparr>v_phase := Taking 0 a b\<rparr> = v" using Suc.prems(1) by simp
    then show ?thesis
      unfolding poll.simps
      by (intro runs_before runs_alt_status [OF assms(1)] runs_if runs_ret) (use Suc.prems 0 in \<open>auto simp: status_bits\<close>)
  next
    case (Suc j)
    have rec: "runs view (poll io CB_ASTAT CB_STAT_BSY fuel) s (v\<lparr>v_phase := Taking j a b\<rparr>) Q"
      by (rule Suc.IH [of _ j]) (use Suc.prems Suc in auto)
    show ?thesis
      unfolding poll.simps
      by (intro runs_before runs_alt_status [OF assms(1)] runs_if runs_ret runs_chk_timeout [OF assms(1,4)])
        (use Suc.prems Suc rec in auto)
  qed
qed simp

section \<open>Selecting the drive and setting up a command\<close>

lemma runs_select_dev:
  assumes "ata_protocol io busy base hz view" and "v_phase v = Idle" and "Q () s (v\<lparr>v_dh := d\<rparr>)"
  shows "runs view (select_dev io d) s v Q"
  unfolding select_dev_def
  by (intro runs_steps_Cons runs_steps_Nil runs_registers(6) [OF assms(1)] runs_delay [OF assms(1)]) (use assms(2,3) in simp_all)

lemma runs_get_config:
  "unat dev < length (config_info s) \<Longrightarrow> Q (config_info s ! unat dev) s v \<Longrightarrow> runs view (get_config dev) s v Q"
  by (auto simp: runs_def get_config_def)

lemma runs_result_code: "Q (if ci_ec (cmd_info s) \<noteq> 0 then 1 else 0) s v \<Longrightarrow> runs view result_code s v Q"
  unfolding result_code_def by (rule runs_asks) simp_all

lemma runs_get_ec: "Q (ci_ec (cmd_info s)) s v \<Longrightarrow> runs view get_ec s v Q"
  unfolding get_ec_def by (rule runs_asks) simp_all

lemma runs_not_intr: "Q (int_use_intr_flag s = 0) s v \<Longrightarrow> runs view not_intr s v Q"
  unfolding not_intr_def by (rule runs_asks) simp_all

text \<open>A driver that has found a disk as device 0, works with interrupts and 16-bit words, and has met no error.\<close>

definition disk_found :: "'h mindrvr \<Rightarrow> bool" where
  "disk_found s \<longleftrightarrow> length (config_info s) = 2 \<and> config_info s ! 0 = REG_CONFIG_TYPE_ATA \<and> int_use_intr_flag s \<noteq> 0 \<and>
     pio_xfer_width s = 16 \<and> ci_ec (cmd_info s) = 0"

lemma runs_select_any:
  assumes "ata_protocol io busy base hz view" and "v_phase v = Idle" and "0 < fuel"
    and d: "config_info s \<noteq> []" "config_info s ! 0 = REG_CONFIG_TYPE_ATA"
    and "Q (if ci_ec (cmd_info s) \<noteq> 0 then 1 else 0) s (v\<lparr>v_dh := 0, v_int := False\<rparr>)"
  shows "runs view (sub_select io fuel 0) s v Q"
proof -
  have fin: "Q (if ci_ec (cmd_info s) \<noteq> 0 then 1 else 0) s (v\<lparr>v_int := False, v_dh := 0, v_int := False\<rparr>)"
    using assms(6) by simp
  have select: "runs view (select_dev io (device_bit 0)) s (v\<lparr>v_int := False\<rparr>) R"
    if "R () s (v\<lparr>v_int := False, v_dh := 0\<rparr>)" for R
    by (rule runs_select_dev [OF assms(1)]) (use assms(2) that in \<open>simp_all add: device_bit_def CB_DH_DEV0_def\<close>)
  show ?thesis
    unfolding sub_select_def
    apply (intro runs_before runs_get_config)
     apply (simp add: d)
    apply (simp add: d REG_CONFIG_TYPE_ATA_def)
    apply (intro runs_before runs_poll_idle [OF assms(1-3)])
    apply simp
    apply (intro runs_before select runs_poll_idle [OF assms(1) _ assms(3)])
     apply (simp add: assms(2))
    apply simp
    apply (intro runs_result_code)
    using fin apply simp
    done
qed

lemma runs_select:
  assumes "ata_protocol io busy base hz view" and "disk_found s" and "v_phase v = Idle" and "0 < fuel"
    and "Q 0 s (v\<lparr>v_dh := 0, v_int := False\<rparr>)"
  shows "runs view (sub_select io fuel 0) s v Q"
  by (rule runs_select_any [OF assms(1,3,4)]) (use assms(2,5) in \<open>auto simp: disk_found_def\<close>)

definition registers_set :: "REG_CMD_INFO \<Rightarrow> ata_view \<Rightarrow> ata_view" where
  "registers_set i v = v\<lparr>v_sc := ucast (ci_sc i), v_sn := ucast (ci_lbaLow i), v_cl := ucast (drop_bit 8 (ci_lbaLow i)),
     v_ch := ucast (drop_bit 16 (ci_lbaLow i)), v_dh := (ci_dh i AND 0xf0) OR ucast (drop_bit 24 (ci_lbaLow i) AND 0x0f)\<rparr>"

lemma registers_set_simps [simp]:
  "v_phase (registers_set i v) = v_phase v" "v_disk (registers_set i v) = v_disk v"
  by (simp_all add: registers_set_def)

lemma runs_setup:
  assumes "ata_protocol io busy base hz view" and "v_phase v = Idle" and "ci_lbaSize (cmd_info s) = 28" and "ci_dc (cmd_info s) = 0"
    and "Q () s (registers_set (cmd_info s) v)"
  shows "runs view (sub_setup_command io) s v Q"
proof -
  have "runs view (sub_setup_command io) s v Q \<longleftrightarrow> runs view (before (asks cmd_info) (\<lambda>i.
     before (pio_outbyte io CB_DC (ci_dc i)) (\<lambda>_. if ci_lbaSize i = 28
     then steps [
       pio_outbyte io CB_FR (ucast (ci_fr i)),
       pio_outbyte io CB_SC (ucast (ci_sc i)),
       pio_outbyte io CB_SN (ucast (ci_lbaLow i)),
       pio_outbyte io CB_CL (ucast (drop_bit 8 (ci_lbaLow i))),
       pio_outbyte io CB_CH (ucast (drop_bit 16 (ci_lbaLow i))),
       pio_outbyte io CB_DH ((ci_dh i AND 0xf0) OR ucast (drop_bit 24 (ci_lbaLow i) AND 0x0f))] else ret ()))) s v Q"
    using assms(3) by (simp add: sub_setup_command_def runs_def before_def asks_def)
  also have \<dots>
    apply (intro runs_before runs_asks)
     apply simp
    apply (subst assms(4))
    apply (rule runs_registers(7) [OF assms(1,2)])
    apply (rule runs_if)
     apply (intro runs_steps_Cons runs_steps_Nil runs_registers(1-6) [OF assms(1)]; (simp add: assms(2) del: steps.simps)?)
    using assms(5) apply (simp add: registers_set_def)
    using assms(3) apply simp
    done
  finally show ?thesis .
qed

lemma unat_ucast8: "unat (ucast (x :: u32) :: u8) = unat x mod 256"
  by (simp add: unsigned_ucast_eq take_bit_eq_mod)

lemma lba_of_set:
  assumes "unat (ci_lbaLow i) < 268435456"
  shows "lba_of (registers_set i v) = unat (ci_lbaLow i)"
proof -
  define x where "x = ci_lbaLow i"
  have m4: "(0x0f :: u32) = mask 4" "(0x0f :: u8) = mask 4" by (simp_all add: mask_eq_exp_minus_1)
  have "ucast (y AND mask 4 :: u32) AND mask 4 = (ucast (y AND mask 4) :: u8)" for y
    by (rule bit_word_eqI) (auto simp: bit_simps)
  then have lo: "(((d AND 0xf0) OR ucast (y AND 0x0f :: u32)) AND 0x0f :: u8) = ucast (y AND 0x0f)" for d :: u8 and y :: u32
    by (simp add: bit.conj_disj_distrib2 and.assoc m4(1)) (simp add: m4(2))
  have m: "unat (y AND 0x0f :: u32) = unat y mod 16" for y :: u32
    by (simp add: m4 take_bit_eq_mask [symmetric] take_bit_eq_mod unat_mod)
  have lt: "unat x < 268435456" using assms by (simp add: x_def)
  have "unat (drop_bit 24 x) = unat x div 16777216" by (simp add: drop_bit_eq_div unat_div)
  moreover have "unat x div 16777216 < 16" using lt by linarith
  ultimately have hi: "unat (drop_bit 24 x AND 0x0f) mod 256 = unat x div 16777216"
    by (simp add: unat_ucast8 m)
  have "unat (drop_bit 8 x) = unat x div 256" "unat (drop_bit 16 x) = unat x div 65536" by (simp_all add: drop_bit_eq_div unat_div)
  then have "lba_of (registers_set i v) =
      unat x mod 256 + 256 * (unat x div 256 mod 256) + 65536 * (unat x div 65536 mod 256) + 16777216 * (unat x div 16777216)"
    by (simp add: lba_of_def registers_set_def lo hi unat_ucast8 x_def [symmetric] del: of_nat_add)
  also have "\<dots> = unat x"
  proof -
    define n where "n = unat x"
    have "n = 256 * (n div 256) + n mod 256" "n div 256 = 256 * (n div 65536) + n div 256 mod 256"
      "n div 65536 = 256 * (n div 16777216) + n div 65536 mod 256"
      using mult_div_mod_eq [of 256 "n div 256"] mult_div_mod_eq [of 256 "n div 65536"]
      by (simp_all add: div_mult2_eq [symmetric])
    then show ?thesis unfolding n_def [symmetric] by linarith
  qed
  finally show ?thesis by (simp add: x_def)
qed

lemma count_of_set:
  assumes "0 < n" and "n \<le> 256" and "ci_sc i = of_nat n"
  shows "count_of (registers_set i v) = n"
proof (cases "n = 256")
  case True
  then show ?thesis using assms(3) by (simp add: count_of_def registers_set_def)
next
  case False
  then have "n < 256" using assms(2) by simp
  then have "unat (ucast (of_nat n :: u32) :: u8) = n" by (simp add: unat_ucast8 unat_of_nat)
  then show ?thesis using assms(1,3) by (auto simp: count_of_def registers_set_def)
qed

lemma runs_command:
  assumes "ata_protocol io busy base hz view" and "v_phase v = Idle" and "v_dh v AND 0x50 = 0x40"
  shows "ci_cmd (cmd_info s) = CMD_READ_SECTORS \<Longrightarrow>
      Q () s (v\<lparr>v_phase := Loading (512 * lba_of v) (512 * lba_of v + 512 * count_of v)\<rparr>) \<Longrightarrow>
      runs view (start_command io) s v Q"
    and "ci_cmd (cmd_info s) = CMD_WRITE_SECTORS \<Longrightarrow>
      (\<And>k. k \<le> busy \<Longrightarrow> Q () s (v\<lparr>v_phase := Taking k (512 * lba_of v) (512 * lba_of v + 512 * count_of v)\<rparr>)) \<Longrightarrow>
      runs view (start_command io) s v Q"
proof -
  have t: "takes_commands io busy view" by (rule protocolD(3) [OF assms(1)])
  { assume c: "ci_cmd (cmd_info s) = CMD_READ_SECTORS"
      and q: "Q () s (v\<lparr>v_phase := Loading (512 * lba_of v) (512 * lba_of v + 512 * count_of v)\<rparr>)"
    have "Q () s (view (out_b io 0x1F7 CMD_READ_SECTORS h))" if "view h = v" for h
      using t that assms(2,3) q by (simp add: takes_commands_def Let_def)
    then show "runs view (start_command io) s v Q"
      unfolding start_command_def pio_outbyte_def
      by (intro runs_before runs_asks runs_out) (simp_all add: c register_defs) }
  { assume c: "ci_cmd (cmd_info s) = CMD_WRITE_SECTORS"
      and q: "\<And>k. k \<le> busy \<Longrightarrow> Q () s (v\<lparr>v_phase := Taking k (512 * lba_of v) (512 * lba_of v + 512 * count_of v)\<rparr>)"
    have "Q () s (view (out_b io 0x1F7 CMD_WRITE_SECTORS h))" if "view h = v" for h
    proof -
      have "\<exists>k \<le> busy. view (out_b io 0x1F7 CMD_WRITE_SECTORS h) =
          v\<lparr>v_phase := Taking k (512 * lba_of v) (512 * lba_of v + 512 * count_of v)\<rparr>"
        using t [unfolded takes_commands_def Let_def, rule_format, of h] assms(2,3) unfolding that by blast
      then show ?thesis using q by auto
    qed
    then show "runs view (start_command io) s v Q"
      unfolding start_command_def pio_outbyte_def
      by (intro runs_before runs_asks runs_out) (simp_all add: c register_defs) }
qed

section \<open>Waiting for the interrupt\<close>

lemma runs_irq:
  assumes "\<And>h. view h = v \<Longrightarrow> \<exists>h'. irq_wait io ms h = (True, h') \<and> view h' = v1" and "Q True s v1"
  shows "runs view (wait_interrupt io ms) s v Q"
  unfolding runs_def
proof (intro allI impI)
  fix h assume "view h = v"
  then obtain h' where "irq_wait io ms h = (True, h')" "view h' = v1" using assms(1) by blast
  then show "\<exists>x s1 h'. wait_interrupt io ms (s\<lparr>hw := h\<rparr>) = Inr (x, s1\<lparr>hw := h'\<rparr>) \<and> Q x s1 (view h')"
    using assms(2) by (auto simp: wait_interrupt_def)
qed

lemma runs_system_wait:
  assumes "ata_protocol io busy (bmide_base s) hz view"
    and irq: "\<And>h ms. view h = v \<Longrightarrow> \<exists>h'. irq_wait io ms h = (True, h') \<and> view h' = v\<lparr>v_phase := p, v_int := True\<rparr>"
    and "\<not> between p"
    and "\<And>bm st. status_shown p st \<Longrightarrow> Q False (s\<lparr>int_bmide_status := bm, int_ata_status := st\<rparr>) (v\<lparr>v_phase := p, v_int := False\<rparr>)"
  shows "runs view (SYSTEM_WAIT_INTR_OR_TIMEOUT io) s v Q"
proof -
  have fin: "runs view (ret (\<not> True)) (s\<lparr>int_bmide_status := bm, int_ata_status := st\<rparr>) (v\<lparr>v_phase := p, v_int := False\<rparr>) Q"
    if "status_shown p st" for bm st
    by (intro runs_ret) (simp add: assms(4) that)
  have fin0: "runs view (ret (\<not> True)) (s\<lparr>int_ata_status := st\<rparr>) (v\<lparr>v_phase := p, v_int := False\<rparr>) Q"
    if "status_shown p st" for st
    using fin [OF that, of "int_bmide_status s"] by simp
  have stat: "runs view (pio_inbyte io CB_STAT) s' (v\<lparr>v_phase := p, v_int := True\<rparr>) R"
    if "\<And>st. status_shown p st \<Longrightarrow> R st s' (v\<lparr>v_phase := p, v_int := False\<rparr>)" for R s'
    by (rule runs_status [OF assms(1)]) (use assms(3) that in simp_all)
  have prot: "ata_protocol io busy (bmide_base (s\<lparr>int_bmide_status := bm, int_ata_status := st\<rparr>)) hz view" for bm st
    using assms(1) by simp
  show ?thesis
    unfolding SYSTEM_WAIT_INTR_OR_TIMEOUT_def
    apply (rule runs_before, rule runs_irq [OF irq], assumption)
    apply (rule runs_before, rule runs_asks, simp)
    apply (rule runs_before, rule runs_if)
     apply (rule runs_before, rule runs_bm_read [OF assms(1)])
     apply (rule runs_before, rule runs_sets, simp)
     apply (rule runs_if)
      apply (rule runs_before, rule stat)
      apply (rule runs_steps_Cons, rule runs_sets, simp)
      apply (rule runs_steps_Cons, rule runs_bm_write [OF prot], rule runs_steps_Nil)
      apply (rule fin, assumption)
     apply simp
    apply (rule runs_before, rule stat)
    apply (rule runs_sets, simp)
    apply (rule fin0, assumption)
    done
qed

lemma runs_wait_loading:
  assumes "ata_protocol io busy (bmide_base s) hz view" and "int_use_intr_flag s \<noteq> 0" and "v_phase v = Loading a b"
    and "\<And>bm st. asking st \<Longrightarrow> Q () (s\<lparr>int_bmide_status := bm, int_ata_status := st\<rparr>) (v\<lparr>v_phase := Sending a b, v_int := False\<rparr>)"
  shows "runs view (sub_wait_poll io fuel 34 35) s v Q"
proof -
  have irq: "\<exists>h'. irq_wait io ms h = (True, h') \<and> view h' = v\<lparr>v_phase := Sending a b, v_int := True\<rparr>" if "view h = v" for h ms
    using protocolD(5) [OF assms(1)] that assms(3) by (auto simp: interrupts_def)
  show ?thesis
    unfolding sub_wait_poll_def
    by (intro runs_before runs_asks runs_if runs_system_wait [OF assms(1) irq] runs_ret) (use assms(2,4) in simp_all)
qed

lemma runs_wait_storing:
  assumes "ata_protocol io busy (bmide_base s) hz view" and "int_use_intr_flag s \<noteq> 0" and "v_phase v = Storing a b"
    and "\<And>bm st. status_shown (if a = b then Idle else Taking 0 a b) st \<Longrightarrow>
      Q () (s\<lparr>int_bmide_status := bm, int_ata_status := st\<rparr>) (v\<lparr>v_phase := if a = b then Idle else Taking 0 a b, v_int := False\<rparr>)"
  shows "runs view (sub_wait_poll io fuel 44 45) s v Q"
proof -
  let ?p = "if a = b then Idle else Taking 0 a b"
  have irq: "\<exists>h'. irq_wait io ms h = (True, h') \<and> view h' = v\<lparr>v_phase := ?p, v_int := True\<rparr>" if "view h = v" for h ms
    using protocolD(5) [OF assms(1), unfolded interrupts_def] that assms(3) by blast
  have np: "\<not> between ?p" by simp
  show ?thesis
    unfolding sub_wait_poll_def
    by (intro runs_before runs_asks runs_if runs_system_wait [OF assms(1) irq np] runs_ret) (use assms(2,4) in simp_all)
qed

section \<open>Sectors into memory\<close>

text \<open>The buffer at \<open>buf\<close> filled with some bytes, and the two bytes after them cleared.\<close>

definition filled_ram :: "bytes \<Rightarrow> nat \<Rightarrow> bytes \<Rightarrow> bytes" where
  "filled_ram r buf bs = take buf r @ bs @ [0, 0] @ drop (buf + length bs + 2) r"

lemma length_filled_ram [simp]: "buf + length bs + 2 \<le> length r \<Longrightarrow> length (filled_ram r buf bs) = length r"
  by (simp add: filled_ram_def)

lemma filled_filled:
  assumes "buf + length bs \<le> length r"
  shows "filled_ram (filled_ram r buf bs) (buf + length bs) cs = filled_ram r buf (bs @ cs)"
proof -
  have "drop (buf + length bs + length cs + 2) (take buf r @ bs @ [0, 0] @ drop (buf + length bs + 2) r) =
    drop (buf + length bs + length cs + 2) r"
    using assms by (simp add: min_def ac_simps)
  then show ?thesis using assms by (simp add: filled_ram_def ac_simps)
qed

lemma put_word: "put_u32 (ucast (disk_word c a)) = [c a, c (a + 1), 0, 0]"
proof -
  have "ucast (disk_word c a :: u16) = (c a :: u8)" "ucast (drop_bit 8 (disk_word c a)) = (c (a + 1) :: u8)"
    by (rule bit_word_eqI; auto simp: disk_word_def bit_simps dest: bit_imp_le_length)+
  moreover have "ucast (ucast w :: u32) = (ucast w :: u8)" "ucast (drop_bit 8 (ucast w :: u32)) = (ucast (drop_bit 8 w) :: u8)"
    "ucast (drop_bit 16 (ucast w :: u32)) = (0 :: u8)" "ucast (drop_bit 24 (ucast w :: u32)) = (0 :: u8)" for w :: u16
    by (rule bit_word_eqI; auto simp: bit_simps dest: bit_imp_le_length)+
  ultimately show ?thesis by (simp add: put_u32_def)
qed

lemma runs_inword:
  assumes "ata_protocol io busy base hz view" and "v_phase v = Sending a b"
    and "Q (ucast (disk_word (v_disk v) a)) s (v\<lparr>v_phase := sent_to (a + 2) b\<rparr>)"
  shows "runs view (pio_inword io CB_DATA) s v Q"
proof -
  have "x = disk_word (v_disk v) a \<and> view h' = v\<lparr>v_phase := sent_to (a + 2) b\<rparr>"
    if v: "view h = v" and x: "in_w io 0x1F0 h = (x, h')" for h x h'
  proof -
    have "v_phase (view h) = Sending a b" using v assms(2) by simp
    then obtain h2 where "in_w io 0x1F0 h = (disk_word (v_disk (view h)) a, h2)" "view h2 = (view h)\<lparr>v_phase := sent_to (a + 2) b\<rparr>"
      using protocolD(4) [OF assms(1)] unfolding moves_data_def by blast
    then show ?thesis using v x by simp
  qed
  moreover have "ucast (pio_reg_addrs ! CB_DATA) = (0x1F0 :: u16)" by (simp add: register_defs)
  ultimately show ?thesis
    unfolding pio_inword_def
    apply (intro runs_before runs_in runs_ret)
    using assms(3) by metis
qed

lemma runs_ram_put:
  assumes "a + length b \<le> length (ram s)" and "Q () (s\<lparr>ram := take a (ram s) @ b @ drop (a + length b) (ram s)\<rparr>) v"
  shows "runs view (ram_put a b) s v Q"
  unfolding runs_def
proof (intro allI impI)
  fix h assume "view h = v"
  moreover have "ram_put a b (s\<lparr>hw := h\<rparr>) =
      Inr ((), s\<lparr>ram := take a (ram s) @ b @ drop (a + length b) (ram s)\<rparr>\<lparr>hw := h\<rparr>)"
    using assms(1) by (simp add: ram_put_def)
  ultimately show "\<exists>x s1 h'. ram_put a b (s\<lparr>hw := h\<rparr>) = Inr (x, s1\<lparr>hw := h'\<rparr>) \<and> Q x s1 (view h')"
    using assms(2) by blast
qed

lemma runs_rep_inword:
  assumes "ata_protocol io busy base hz view"
  shows "\<lbrakk>v_phase v = Sending a b; 0 < n; a mod 512 + 2 * n \<le> 512; buf + 2 * n + 2 \<le> length (ram s);
      Q () (s\<lparr>ram := filled_ram (ram s) buf (byte_slice (v_disk v) a (2 * n))\<rparr>) (v\<lparr>v_phase := sent_to (a + 2 * n) b\<rparr>)\<rbrakk> \<Longrightarrow>
    runs view (pio_rep_inword io CB_DATA buf n) s v Q"
proof (induction n arbitrary: a buf s v)
  case (Suc n)
  let ?r = "filled_ram (ram s) buf (byte_slice (v_disk v) a 2)"
  have two: "byte_slice (v_disk v) a 2 = [v_disk v a, v_disk v (a + 1)]" by (simp add: byte_slice_def numeral_eq_Suc)
  have put: "take buf (ram s) @ put_u32 (ucast (disk_word (v_disk v) a)) @
      drop (buf + length (put_u32 (ucast (disk_word (v_disk v) a)))) (ram s) = ?r"
    by (simp add: put_word two filled_ram_def add.commute)
  have rest: "runs view (pio_rep_inword io CB_DATA (buf + 2) n) (s\<lparr>ram := ?r\<rparr>) (v\<lparr>v_phase := sent_to (a + 2) b\<rparr>) Q"
  proof (cases "n = 0")
    case True
    then show ?thesis using Suc.prems(5) by (auto intro!: runs_ret)
  next
    case False
    then have "a mod 512 + 2 < 512" using Suc.prems(3) by simp
    then have m: "(a + 2) mod 512 = a mod 512 + 2" using mod_add_left_eq [of a 512 2] by simp
    have "filled_ram ?r (buf + 2) (byte_slice (v_disk v) (a + 2) (2 * n)) =
        filled_ram (ram s) buf (byte_slice (v_disk v) a (2 * Suc n))"
      using slice_append [of "v_disk v" a 2 "2 * n"] filled_filled [of buf "byte_slice (v_disk v) a 2" "ram s" "byte_slice (v_disk v) (a + 2) (2 * n)"] Suc.prems(4)
      by simp
    then show ?thesis
      using Suc.IH [of "v\<lparr>v_phase := sent_to (a + 2) b\<rparr>" "a + 2" "buf + 2" "s\<lparr>ram := ?r\<rparr>"] Suc.prems False m
      by (simp add: sent_to_def)
  qed
  show ?case
    unfolding pio_rep_inword.simps
    apply (rule runs_before, rule runs_inword [OF assms Suc.prems(1)])
    apply (rule runs_before, rule runs_ram_put)
    using Suc.prems(4) apply simp
    unfolding put by (rule rest)
qed simp

text \<open>What the loops change of the driver.\<close>

definition progressed :: "'h mindrvr \<Rightarrow> 'h mindrvr \<Rightarrow> bool" where
  "progressed s s1 \<longleftrightarrow> (\<exists>c r bm st. s1 = s\<lparr>ram := r, cmd_info := c, int_bmide_status := bm, int_ata_status := st\<rparr> \<and>
     ci_ec c = ci_ec (cmd_info s))"

lemma progressed_keeps:
  assumes "progressed s s1"
  shows "bmide_base s1 = bmide_base s" "ticks_per_second s1 = ticks_per_second s" "disk_found s1 = disk_found s"
    "tmr_cmd_start_time s1 = tmr_cmd_start_time s" "ci_ec (cmd_info s1) = ci_ec (cmd_info s)"
  using assms by (auto simp: progressed_def disk_found_def)

lemma progressed_trans: "progressed s s1 \<Longrightarrow> progressed s1 s2 \<Longrightarrow> progressed s s2"
  unfolding progressed_def by fastforce

lemma progressed_step: "ci_ec c = ci_ec (cmd_info s) \<Longrightarrow> progressed s (s\<lparr>int_bmide_status := bm, int_ata_status := st, cmd_info := c, ram := r\<rparr>)"
  unfolding progressed_def by (intro exI [of _ c] exI [of _ r] exI [of _ bm] exI [of _ st]) simp

lemma progressed_status: "ci_ec c = ci_ec (cmd_info s) \<Longrightarrow> progressed s (s\<lparr>int_bmide_status := bm, int_ata_status := st, cmd_info := c\<rparr>)"
  using progressed_step [of c s "ram s" st bm] by simp

lemma runs_count_block:
  assumes "\<And>c. ci_ec c = ci_ec (cmd_info s) \<Longrightarrow> Q () (s\<lparr>cmd_info := c\<rparr>) v"
  shows "runs view (count_block w) s v Q"
  unfolding count_block_def by (intro runs_sets assms) simp_all

lemma runs_read_block:
  assumes "ata_protocol io busy base hz view" and "v_phase v = Sending a b" and "a mod 512 = 0" and "0 < m"
    and "pio_xfer_width s = 16" and "buf + 512 + 2 \<le> length (ram s)"
    and "\<And>c. ci_ec c = ci_ec (cmd_info s) \<Longrightarrow> Q (buf + 512, int m - 1)
      (s\<lparr>cmd_info := c, ram := filled_ram (ram s) buf (byte_slice (v_disk v) a 512)\<rparr>) (v\<lparr>v_phase := sent_to (a + 512) b\<rparr>)"
  shows "runs view (read_block io buf (int m) 1) s v Q"
proof -
  have words: "block_words (int m) 1 = 256" using assms(4) by (simp add: block_words_def block_sectors_def min_def)
  have loop: "drq_in_loop io 16 r d 256 = before (pio_rep_inword io r d 256) (\<lambda>_. ret ())" for r d
    by (subst drq_in_loop.simps, subst drq_in_loop.simps) simp
  have next_phase: "v_phase (v\<lparr>v_phase := sent_to (a + 512) b\<rparr>) \<in> {Idle, Sending (a + 512) b, Loading (a + 512) b}"
    by (simp add: sent_to_def)
  then have w: "waited (v\<lparr>v_phase := sent_to (a + 512) b\<rparr>) = v\<lparr>v_phase := sent_to (a + 512) b\<rparr>"
    by (auto simp del: ata_view.simps)
  show ?thesis
    unfolding read_block_def words pio_drq_block_in_def transfer_width_def
    apply (rule runs_before, rule runs_steps_Cons, rule runs_count_block)
    apply (rule runs_steps_Cons, rule runs_before, rule runs_asks, simp)
    using assms(5) apply (simp add: loop)
    apply (rule runs_before, rule runs_rep_inword [OF assms(1,2)])
       apply simp
      apply (simp add: assms(3))
    using assms(6) apply simp
    apply (rule runs_ret)
    apply (rule runs_before, rule runs_delay [OF assms(1)])
    apply (rule runs_ret)+
    using assms(7) apply (simp add: w block_sectors_def)
    done
qed

lemma runs_eq: "runs view m s v Q \<Longrightarrow> m' = m \<Longrightarrow> s' = s \<Longrightarrow> v' = v \<Longrightarrow> runs view m' s' v' Q"
  by simp

lemma runs_command_status:
  assumes "\<not> polled" and "ci_ec (cmd_info s) = 0" and "Q (int_ata_status s) s v"
  shows "runs view (command_status io polled) s v Q"
  unfolding command_status_def
  by (intro runs_before runs_get_ec runs_if runs_asks) (use assms in simp_all)

lemma sent_to_sector: "a mod 512 = 0 \<Longrightarrow> sent_to (a + 512) b = (if a + 512 = b then Idle else Loading (a + 512) b)"
  by (simp add: sent_to_def)

lemma runs_read_loop:
  assumes "ata_protocol io busy base hz view"
  shows "\<lbrakk>base = bmide_base s; disk_found s; v_phase v = Loading a (a + 512 * m); a mod 512 = 0; 0 < m; m \<le> k;
      buf + 512 * m + 2 \<le> length (ram s);
      \<And>s1 v1. progressed s s1 \<Longrightarrow> ram s1 = filled_ram (ram s) buf (byte_slice (v_disk v) a (512 * m)) \<Longrightarrow>
        v_disk v1 = v_disk v \<Longrightarrow> v_phase v1 = Idle \<Longrightarrow> Q () s1 v1\<rbrakk> \<Longrightarrow>
    runs view (read_loop io fuel k buf (int m) 1) s v Q"
proof (induction k arbitrary: m a buf s v)
  case (Suc k)
  have f: "int_use_intr_flag s \<noteq> 0" "pio_xfer_width s = 16" "ci_ec (cmd_info s) = 0"
    using Suc.prems(2) by (simp_all add: disk_found_def)
  have P: "ata_protocol io busy (bmide_base s) hz view" using assms Suc.prems(1) by simp
  let ?b = "a + 512 * m"
  let ?r = "filled_ram (ram s) buf (byte_slice (v_disk v) a 512)"
  let ?v = "v\<lparr>v_int := False, v_phase := sent_to (a + 512) ?b\<rparr>"
  have block: "512 * m = 512 + 512 * (m - 1)" using Suc.prems(5) by (cases m) simp_all
  have after: "runs view
       (if st AND failed_bits \<noteq> 0 then set_ec 31
        else if st AND CB_STAT_DRQ = 0 then set_ec 32
        else if int m - 1 < 1
        then before (pio_inbyte io CB_STAT) (\<lambda>status. if status AND (failed_bits OR CB_STAT_DRQ) \<noteq> 0 then set_ec 33 else ret ())
        else read_loop io fuel k (buf + 512) (int m - 1) 1)
       s2 ?v Q"
    if st: "asking st" and s2: "progressed s s2" "ram s2 = ?r" for st s2
  proof (cases "m = 1")
    case True
    then have p: "v_phase ?v = Idle" using Suc.prems(4) by (simp add: sent_to_sector)
    have fin: "runs view (if status AND (failed_bits OR CB_STAT_DRQ) \<noteq> 0 then set_ec 33 else ret ()) s2 (?v\<lparr>v_int := False\<rparr>) Q"
      if "resting status" for status
      using that True s2 by (auto intro!: runs_ret Suc.prems(8) simp: status_bits sent_to_sector Suc.prems(4))
    have "runs view (before (pio_inbyte io CB_STAT) (\<lambda>status. if status AND (failed_bits OR CB_STAT_DRQ) \<noteq> 0 then set_ec 33 else ret ()))
        s2 ?v Q"
      apply (rule runs_before, rule runs_status [OF P])
      using p apply simp
      apply (rule fin)
      using p by simp
    then show ?thesis using st True by (simp add: status_bits)
  next
    case False
    then have m: "int m - 1 = int (m - 1)" "0 < m - 1" "\<not> int m - 1 < 1" using Suc.prems(5) by linarith+
    have p: "v_phase ?v = Loading (a + 512) (a + 512 + 512 * (m - 1))"
      using Suc.prems(4,5) False by (simp add: sent_to_sector block)
    have len: "buf + 512 * m + 2 \<le> length (ram s2)" using s2(2) Suc.prems(5,7) by simp
    have fill: "filled_ram (ram s2) (buf + 512) (byte_slice (v_disk v) (a + 512) (512 * (m - 1))) =
        filled_ram (ram s) buf (byte_slice (v_disk v) a (512 * m))"
      using filled_filled [of buf "byte_slice (v_disk v) a 512" "ram s" "byte_slice (v_disk v) (a + 512) (512 * (m - 1))"]
        Suc.prems(7) s2(2) slice_append [of "v_disk v" a 512 "512 * (m - 1)"] block by simp
    have "runs view (read_loop io fuel k (buf + 512) (int (m - 1)) 1) s2 ?v Q"
    proof (rule Suc.IH [OF _ _ p])
      show "base = bmide_base s2" "disk_found s2" using progressed_keeps [OF s2(1)] Suc.prems(1,2) by simp_all
      show "(a + 512) mod 512 = 0" "0 < m - 1" "m - 1 \<le> k" "buf + 512 + 512 * (m - 1) + 2 \<le> length (ram s2)"
        using Suc.prems(4,6) m(2) len block by simp_all
      fix s1 :: "'a mindrvr" and v1 :: ata_view
      assume s1: "progressed s2 s1" "ram s1 = filled_ram (ram s2) (buf + 512) (byte_slice (v_disk ?v) (a + 512) (512 * (m - 1)))"
        and v1: "v_disk v1 = v_disk ?v" "v_phase v1 = Idle"
      have r1: "ram s1 = filled_ram (ram s) buf (byte_slice (v_disk v) a (512 * m))" using s1(2) fill by simp
      have d1: "v_disk v1 = v_disk v" using v1(1) by simp
      show "Q () s1 v1" by (rule Suc.prems(8) [OF progressed_trans [OF s2(1) s1(1)] r1 d1 v1(2)])
    qed
    moreover have "\<not> st AND failed_bits \<noteq> 0" "\<not> st AND CB_STAT_DRQ = 0" using st by (simp_all add: status_bits)
    ultimately show ?thesis by (simp only: if_False m(3)) (simp only: m(1) if_False)
  qed
  show ?case
    unfolding read_loop.simps
    apply (rule runs_before, rule runs_wait_loading [OF P f(1) Suc.prems(3)])
    apply (rule runs_before, rule runs_not_intr)
    apply (rule runs_before, rule runs_command_status)
      apply (simp add: f)
     apply (simp add: f)
    apply (rule runs_before, rule runs_get_ec)
    apply (rule runs_if, simp add: f)
    apply (rule runs_before)
    apply (subst if_P)
     apply (simp add: status_bits)
    apply (rule runs_read_block [OF assms])
         apply simp
        apply (rule Suc.prems(4))
       apply (rule Suc.prems(5))
      apply (simp add: f)
    using Suc.prems(5,7) apply (cases m; simp)
    apply (simp only: prod.case)
    subgoal for bm st c
      by (rule runs_eq [OF after [of st "s\<lparr>int_bmide_status := bm, int_ata_status := st, cmd_info := c, ram := ?r\<rparr>"]])
        (simp_all add: progressed_step)
    done
qed simp

section \<open>Commands\<close>

text \<open>A command of \<open>n\<close> sectors from \<open>lba\<close> to device 0, as the routines for 28 bits store it.\<close>

definition command_ready :: "u8 \<Rightarrow> nat \<Rightarrow> u32 \<Rightarrow> REG_CMD_INFO \<Rightarrow> bool" where
  "command_ready cmd n lba i \<longleftrightarrow> ci_cmd i = cmd \<and> ci_sc i = of_nat n \<and> ci_dh i = CB_DH_LBA \<and> ci_dc i = 0 \<and>
     ci_lbaSize i = 28 \<and> ci_lbaLow i = lba \<and> 0 < n \<and> n \<le> 256 \<and> unat lba + n \<le> 268435456"

lemma command_registers:
  assumes "command_ready cmd n lba i"
  shows "v_dh (registers_set i v) AND 0x50 = 0x40" "512 * lba_of (registers_set i v) = 512 * unat lba"
    "512 * count_of (registers_set i v) = 512 * n"
proof -
  have i: "ci_dh i = 0x40" "ci_lbaLow i = lba" "ci_sc i = of_nat n" "unat (ci_lbaLow i) < 268435456" "0 < n" "n \<le> 256"
    using assms by (auto simp: command_ready_def CB_DH_LBA_def)
  have "ucast (y AND 0x0f :: u32) AND 0x50 = (0 :: u8)" for y
  proof -
    have "ucast (y AND mask 4 :: u32) AND push_bit 4 z = (0 :: u8)" for z
      by (rule bit_word_eqI) (auto simp: bit_simps)
    from this [of 5] show ?thesis by (simp add: mask_eq_exp_minus_1)
  qed
  then show "v_dh (registers_set i v) AND 0x50 = 0x40"
    by (simp add: registers_set_def i(1) bit.conj_disj_distrib2)
  show "512 * lba_of (registers_set i v) = 512 * unat lba" using lba_of_set [OF i(4)] i(2) by simp
  show "512 * count_of (registers_set i v) = 512 * n" using count_of_set [OF i(5,6,3)] by simp
qed

text \<open>What a command that succeeds leaves of the driver.\<close>

definition still_ready :: "'h mindrvr \<Rightarrow> 'h mindrvr \<Rightarrow> bool" where
  "still_ready s s1 \<longleftrightarrow> disk_found s1 \<and> bmide_base s1 = bmide_base s \<and> ticks_per_second s1 = ticks_per_second s"

lemma progressed_still_ready: "progressed s s1 \<Longrightarrow> disk_found s \<Longrightarrow> still_ready s s1"
  by (simp add: progressed_keeps still_ready_def)

lemma runs_start_command:
  assumes "ata_protocol io busy base hz view" and "command_ready cmd n lba (cmd_info s)" and "v_phase v = Idle"
  shows "cmd = CMD_READ_SECTORS \<Longrightarrow>
      (\<And>v1. v_disk v1 = v_disk v \<Longrightarrow> v_phase v1 = Loading (512 * unat lba) (512 * unat lba + 512 * n) \<Longrightarrow> runs view (steps ms) s v1 Q) \<Longrightarrow>
      runs view (steps (sub_setup_command io # start_command io # DELAY400NS io # ms)) s v Q"
    and "cmd = CMD_WRITE_SECTORS \<Longrightarrow>
      (\<And>v1 k. k \<le> busy \<Longrightarrow> v_disk v1 = v_disk v \<Longrightarrow> v_phase v1 = Taking k (512 * unat lba) (512 * unat lba + 512 * n) \<Longrightarrow> runs view (steps ms) s v1 Q) \<Longrightarrow>
      runs view (steps (sub_setup_command io # start_command io # DELAY400NS io # ms)) s v Q"
proof -
  have i: "ci_cmd (cmd_info s) = cmd" "ci_lbaSize (cmd_info s) = 28" "ci_dc (cmd_info s) = 0"
    using assms(2) by (simp_all add: command_ready_def)
  note regs = command_registers [OF assms(2), of v]
  have p: "v_phase (registers_set (cmd_info s) v) = Idle" using assms(3) by simp
  show "runs view (steps (sub_setup_command io # start_command io # DELAY400NS io # ms)) s v Q"
    if "cmd = CMD_READ_SECTORS"
      "\<And>v1. v_disk v1 = v_disk v \<Longrightarrow> v_phase v1 = Loading (512 * unat lba) (512 * unat lba + 512 * n) \<Longrightarrow> runs view (steps ms) s v1 Q"
    apply (rule runs_steps_Cons, rule runs_setup [OF assms(1,3) i(2,3)])
    apply (rule runs_steps_Cons, rule runs_command(1) [OF assms(1) p regs(1)])
    using i that(1) apply simp
    apply (rule runs_steps_Cons, rule runs_delay [OF assms(1)])
    apply (rule that(2))
    by (simp_all add: regs)
  show "runs view (steps (sub_setup_command io # start_command io # DELAY400NS io # ms)) s v Q"
    if "cmd = CMD_WRITE_SECTORS"
      "\<And>v1 k. k \<le> busy \<Longrightarrow> v_disk v1 = v_disk v \<Longrightarrow> v_phase v1 = Taking k (512 * unat lba) (512 * unat lba + 512 * n) \<Longrightarrow> runs view (steps ms) s v1 Q"
    apply (rule runs_steps_Cons, rule runs_setup [OF assms(1,3) i(2,3)])
    apply (rule runs_steps_Cons, rule runs_command(2) [OF assms(1) p regs(1)])
    using i that(1) apply simp
    subgoal for k
      apply (rule runs_steps_Cons, rule runs_delay [OF assms(1)])
      apply (rule that(2) [of "k - 4"])
      by (simp_all add: regs)
    done
qed

lemma disk_found_timeout [simp]: "disk_found (s\<lparr>tmr_cmd_start_time := t\<rparr>) = disk_found s"
  by (simp add: disk_found_def)

lemma runs_exec_in:
  assumes P: "ata_protocol io busy (bmide_base s) hz view" and "disk_found s" and "v_phase v = Idle" and "n < fuel"
    and c: "command_ready CMD_READ_SECTORS n lba (cmd_info s)" and "buf + 512 * n + 2 \<le> length (ram s)"
    and post: "\<And>s1 v1. still_ready s s1 \<Longrightarrow> ram s1 = filled_ram (ram s) buf (byte_slice (v_disk v) (512 * unat lba) (512 * n)) \<Longrightarrow>
        v_disk v1 = v_disk v \<Longrightarrow> v_phase v1 = Idle \<Longrightarrow> Q 0 s1 v1"
  shows "runs view (exec_pio_data_in_cmd io fuel 0 buf (int n) 1) s v Q"
proof -
  let ?s = "\<lambda>t. s\<lparr>tmr_cmd_start_time := t\<rparr>"
  have Pt: "ata_protocol io busy (bmide_base (?s t)) hz view" for t using P by simp
  have ct: "command_ready CMD_READ_SECTORS n lba (cmd_info (?s t))" for t using c by simp
  have n: "0 < n" using c by (simp add: command_ready_def)
  have loop: "runs view (steps [read_loop io fuel fuel buf (int n) 1, check_bus_master io]) (?s t) v1
        (\<lambda>_ s1 v1. runs view result_code s1 v1 Q)"
    if v1: "v_disk v1 = v_disk v" "v_phase v1 = Loading (512 * unat lba) (512 * unat lba + 512 * n)" for v1 t
    apply (rule runs_steps_Cons, rule runs_read_loop [OF P _ _ v1(2)])
    using assms(2,4,6) n apply (simp_all del: steps.simps)
    apply (rule runs_steps_Cons, rule runs_check_bm)
    using P apply (simp add: progressed_keeps)
    apply (rule runs_steps_Nil, rule runs_result_code)
    subgoal for s1 v2
      using post [of s1 v2] progressed_still_ready [of "?s t" s1] progressed_keeps(5) [of "?s t" s1] assms(2) v1(1)
      by (simp add: still_ready_def disk_found_def)
    done
  show ?thesis
    unfolding exec_pio_data_in_cmd_def
    apply (rule runs_before, rule runs_steps_Cons, rule runs_bm_write [OF P])
    apply (rule runs_steps_Cons, rule runs_set_timeout [OF P], rule runs_steps_Nil)
    apply (rule runs_before, rule runs_select [OF Pt])
    using assms(2-4) apply (simp_all del: steps.simps)
    apply (rule runs_before)
    apply (rule runs_start_command(1) [OF P ct _ refl])
    by (simp_all add: loop del: steps.simps)
qed

lemma runs_device_control: "int_use_intr_flag s \<noteq> 0 \<Longrightarrow> Q 0 s v \<Longrightarrow> runs view device_control s v Q"
  unfolding device_control_def by (rule runs_asks) simp_all

lemma runs_setup28:
  assumes "disk_found s" and "0 < n" and "n \<le> 256" and "unat lba + n \<le> 268435456"
    and "\<And>c. command_ready cmd n lba c \<Longrightarrow> disk_found (s\<lparr>cmd_info := c\<rparr>) \<Longrightarrow> Q () (s\<lparr>cmd_info := c\<rparr>) v"
  shows "runs view (steps [setup28 0 cmd 0 (of_nat n) lba 0, setup_counts ns mc]) s v Q"
  unfolding setup28_def setup_counts_def
  apply (rule runs_steps_Cons, rule runs_sets, simp)
  apply (rule runs_steps_Cons, rule runs_sets, simp)
  apply (rule runs_steps_Nil)
  using assms by (auto intro!: assms(5) simp: command_ready_def device_bit_def CB_DH_LBA_def CB_DH_DEV0_def disk_found_def)

text \<open>The read command as the disk driver gives it.\<close>

definition read_command :: "'h ata_io \<Rightarrow> nat \<Rightarrow> u32 \<Rightarrow> u32 \<Rightarrow> nat \<Rightarrow> ('h, int) md" where
  "read_command io fuel start number buf =
     reg_pio_data_in_lba28 io fuel 0 CMD_READ_SECTORS 0 number start buf (sint number) 0"

lemma sint_small: "n \<le> 256 \<Longrightarrow> sint (of_nat n :: u32) = int n"
  by (subst sint_unat) (simp_all add: unat_of_nat)

lemma runs_read_command:
  assumes P: "ata_protocol io busy (bmide_base s) hz view" and d: "disk_found s" and "v_phase v = Idle"
    and "0 < n" and "n \<le> 256" and "n < fuel" and "unat lba + n \<le> 268435456" and "buf + 512 * n + 2 \<le> length (ram s)"
    and post: "\<And>s1 v1. still_ready s s1 \<Longrightarrow> ram s1 = filled_ram (ram s) buf (byte_slice (v_disk v) (512 * unat lba) (512 * n)) \<Longrightarrow>
        v_disk v1 = v_disk v \<Longrightarrow> v_phase v1 = Idle \<Longrightarrow> Q 0 s1 v1"
  shows "runs view (read_command io fuel lba (of_nat n) buf) s v Q"
proof -
  have mc: "adjust_multi [CMD_READ_MULTIPLE] CMD_READ_SECTORS 0 = 1"
    by (simp add: adjust_multi_def CMD_READ_MULTIPLE_def CMD_READ_SECTORS_def)
  have cmd: "\<not> (CMD_READ_SECTORS = CMD_IDENTIFY_DEVICE \<or> CMD_READ_SECTORS = CMD_IDENTIFY_DEVICE_PACKET)"
    by (simp add: CMD_READ_SECTORS_def CMD_IDENTIFY_DEVICE_def CMD_IDENTIFY_DEVICE_PACKET_def)
  have intr: "int_use_intr_flag s \<noteq> 0" using d by (simp add: disk_found_def)
  have "runs view (exec_pio_data_in_cmd io fuel 0 buf (int n) 1) (s\<lparr>cmd_info := c\<rparr>) v Q"
    if "command_ready CMD_READ_SECTORS n lba c" "disk_found (s\<lparr>cmd_info := c\<rparr>)" for c
    by (rule runs_exec_in [where hz = hz]) (use assms that in \<open>simp_all add: still_ready_def\<close>)
  then show ?thesis
    unfolding read_command_def reg_pio_data_in_lba28_def Let_def mc if_not_P [OF cmd] sint_small [OF assms(5)]
    by (intro runs_before runs_device_control [OF intr] runs_setup28 [OF d assms(4,5,7)]) simp
qed

section \<open>Sectors from memory\<close>

lemma put_low: "put_u16 (ucast (w :: u32)) = [ucast w, ucast (drop_bit 8 w)]"
proof -
  have "ucast (ucast w :: u16) = (ucast w :: u8)" "ucast (drop_bit 8 (ucast w :: u16)) = (ucast (drop_bit 8 w) :: u8)"
    by (rule bit_word_eqI; auto simp: bit_simps)+
  then show ?thesis by (simp add: put_u16_def)
qed

lemma low_bytes:
  assumes "get_u32 r i = Inr w"
  shows "put_u16 (ucast w) = [r ! i, r ! (i + 1)]"
proof -
  have w: "w = ucast (r ! i) OR push_bit 8 (ucast (r ! (i + 1))) OR push_bit 16 (ucast (r ! (i + 2))) OR push_bit 24 (ucast (r ! (i + 3)))"
    using assms by (simp add: get_u32_def split: if_splits)
  have "ucast w = r ! i" "ucast (drop_bit 8 w) = r ! (i + 1)"
    unfolding w by (rule bit_word_eqI; auto simp: bit_simps dest: bit_imp_le_length)+
  then show ?thesis by (simp add: put_low)
qed

lemma runs_outword:
  assumes "ata_protocol io busy base hz view" and "v_phase v = Taking 0 a b"
    and "Q () s (v\<lparr>v_phase := taken_to (a + 2) b, v_disk := overwrite a (put_u16 (ucast w)) (v_disk v)\<rparr>)"
  shows "runs view (pio_outword io CB_DATA w) s v Q"
proof -
  have "view (out_w io 0x1F0 x h) = v\<lparr>v_phase := taken_to (a + 2) b, v_disk := overwrite a (put_u16 x) (v_disk v)\<rparr>"
    if v: "view h = v" for h x
  proof -
    have "v_phase (view h) = Taking 0 a b" using v assms(2) by simp
    then show ?thesis using protocolD(4) [OF assms(1)] v unfolding moves_data_def by blast
  qed
  moreover have "ucast (pio_reg_addrs ! CB_DATA) = (0x1F0 :: u16)" by (simp add: register_defs)
  ultimately show ?thesis
    unfolding pio_outword_def
    apply (intro runs_out)
    using assms(3) by metis
qed

lemma runs_ram_get32:
  assumes "get_u32 (ram s) a = Inr w" and "Q w s v"
  shows "runs view (ram_get32 a) s v Q"
  using assms by (auto simp: runs_def ram_get32_def)

lemma runs_rep_outword:
  assumes "ata_protocol io busy base hz view"
  shows "\<lbrakk>v_phase v = Taking 0 a b; 0 < n; a mod 512 + 2 * n \<le> 512; buf + 2 * n + 2 \<le> length (ram s);
      Q () s (v\<lparr>v_phase := taken_to (a + 2 * n) b, v_disk := overwrite a (take (2 * n) (drop buf (ram s))) (v_disk v)\<rparr>)\<rbrakk> \<Longrightarrow>
    runs view (pio_rep_outword io CB_DATA buf n) s v Q"
proof (induction n arbitrary: a buf v)
  case (Suc n)
  obtain w where w: "get_u32 (ram s) buf = Inr w" using Suc.prems(4) by (simp add: get_u32_def)
  let ?two = "take 2 (drop buf (ram s))"
  have two: "put_u16 (ucast w) = ?two" "length ?two = 2"
    using low_bytes [OF w] Suc.prems(4) by (simp_all add: take_Suc_conv_app_nth numeral_eq_Suc)
  let ?v = "v\<lparr>v_phase := taken_to (a + 2) b, v_disk := overwrite a ?two (v_disk v)\<rparr>"
  have rest: "runs view (pio_rep_outword io CB_DATA (buf + 2) n) s ?v Q"
  proof (cases "n = 0")
    case True
    then show ?thesis using Suc.prems(5) by (auto intro!: runs_ret)
  next
    case False
    then have "a mod 512 + 2 < 512" using Suc.prems(3) by simp
    then have m: "(a + 2) mod 512 = a mod 512 + 2" using mod_add_left_eq [of a 512 2] by simp
    have "?two @ take (2 * n) (drop (buf + 2) (ram s)) = take (2 * Suc n) (drop buf (ram s))"
      using take_add [of 2 "2 * n" "drop buf (ram s)"] by (simp add: add.commute)
    then have "overwrite (a + 2) (take (2 * n) (drop (buf + 2) (ram s))) (overwrite a ?two (v_disk v)) =
        overwrite a (take (2 * Suc n) (drop buf (ram s))) (v_disk v)"
      using overwrite_overwrite [of a ?two "take (2 * n) (drop (buf + 2) (ram s))" "v_disk v"] two(2) by simp
    then show ?thesis
      using Suc.IH [of ?v "a + 2" "buf + 2"] Suc.prems False m by (simp add: taken_to_def)
  qed
  show ?case
    unfolding pio_rep_outword.simps
    apply (rule runs_before, rule runs_ram_get32 [OF w])
    apply (rule runs_before, rule runs_outword [OF assms Suc.prems(1)])
    unfolding two(1) by (rule rest)
qed simp

lemma runs_write_block:
  assumes "ata_protocol io busy base hz view" and "v_phase v = Taking 0 a b" and "a mod 512 = 0" and "0 < m"
    and "pio_xfer_width s = 16" and "buf + 512 + 2 \<le> length (ram s)"
    and "\<And>c. ci_ec c = ci_ec (cmd_info s) \<Longrightarrow> Q (buf + 512, int m - 1) (s\<lparr>cmd_info := c\<rparr>)
      (v\<lparr>v_phase := Storing (a + 512) b, v_disk := overwrite a (take 512 (drop buf (ram s))) (v_disk v)\<rparr>)"
  shows "runs view (write_block io buf (int m) 1) s v Q"
proof -
  have words: "block_words (int m) 1 = 256" using assms(4) by (simp add: block_words_def block_sectors_def min_def)
  have loop: "drq_out_loop io 16 r d 256 = before (pio_rep_outword io r d 256) (\<lambda>_. ret ())" for r d
    by (subst drq_out_loop.simps, subst drq_out_loop.simps) simp
  have next_phase: "taken_to (a + 512) b = Storing (a + 512) b" using assms(3) by (simp add: taken_to_def)
  show ?thesis
    unfolding write_block_def words pio_drq_block_out_def transfer_width_def
    apply (rule runs_before, rule runs_steps_Cons, rule runs_count_block)
    apply (rule runs_steps_Cons, rule runs_before, rule runs_asks, simp)
    using assms(5) apply (simp add: loop)
    apply (rule runs_before, rule runs_rep_outword [OF assms(1,2)])
       apply simp
      apply (simp add: assms(3))
    using assms(6) apply simp
    apply (rule runs_ret)
    apply (rule runs_before, rule runs_delay [OF assms(1)])
    apply (rule runs_ret)+
    using assms(7) apply (simp add: next_phase block_sectors_def)
    done
qed

lemma runs_write_loop:
  assumes "ata_protocol io busy base hz view"
  shows "\<lbrakk>base = bmide_base s; disk_found s; v_phase v = Taking 0 a (a + 512 * m); asking status; a mod 512 = 0; 0 < m; m \<le> k;
      buf + 512 * m + 2 \<le> length (ram s);
      \<And>s1 v1. progressed s s1 \<Longrightarrow> ram s1 = ram s \<Longrightarrow>
        v_disk v1 = overwrite a (take (512 * m) (drop buf (ram s))) (v_disk v) \<Longrightarrow> v_phase v1 = Idle \<Longrightarrow> Q () s1 v1\<rbrakk> \<Longrightarrow>
    runs view (write_loop io fuel k status buf (int m) 1) s v Q"
proof (induction k arbitrary: m a buf s v status)
  case (Suc k)
  have f: "int_use_intr_flag s \<noteq> 0" "pio_xfer_width s = 16" "ci_ec (cmd_info s) = 0"
    using Suc.prems(2) by (simp_all add: disk_found_def)
  have P: "ata_protocol io busy (bmide_base s) hz view" using assms Suc.prems(1) by simp
  let ?b = "a + 512 * m" and ?d = "overwrite a (take 512 (drop buf (ram s))) (v_disk v)"
  let ?p = "if a + 512 = ?b then Idle else Taking 0 (a + 512) ?b"
  let ?v = "v\<lparr>v_disk := ?d, v_phase := ?p, v_int := False\<rparr>"
  have block: "512 * m = 512 + 512 * (m - 1)" using Suc.prems(6) by (cases m) simp_all
  have room: "buf + 512 + 2 \<le> length (ram s)" using Suc.prems(6,8) by (cases m) simp_all
  have after: "runs view
      (if int m - 1 < 1 then if st AND (failed_bits OR CB_STAT_DRQ) \<noteq> 0 then set_ec 43 else ret ()
       else write_loop io fuel k st (buf + 512) (int m - 1) 1) s2 ?v Q"
    if st: "status_shown ?p st" and s2: "progressed s s2" "ram s2 = ram s" for st s2
  proof (cases "m = 1")
    case True
    then show ?thesis
      using st s2 by (auto intro!: runs_ret Suc.prems(9) simp: status_bits)
  next
    case False
    then have m: "int m - 1 = int (m - 1)" "0 < m - 1" "\<not> int m - 1 < 1" using Suc.prems(6) by linarith+
    have p: "v_phase ?v = Taking 0 (a + 512) (a + 512 + 512 * (m - 1))" and ask: "asking st"
      using Suc.prems(5,6) False st by (simp_all add: block)
    have len: "buf + 512 + 512 * (m - 1) + 2 \<le> length (ram s2)" using s2(2) Suc.prems(8) block by simp
    have "take 512 (drop buf (ram s)) @ take (512 * (m - 1)) (drop (buf + 512) (ram s)) = take (512 * m) (drop buf (ram s))"
      unfolding block using take_add [of 512 "512 * (m - 1)" "drop buf (ram s)"] by (simp add: add.commute)
    then have disk: "overwrite (a + 512) (take (512 * (m - 1)) (drop (buf + 512) (ram s))) ?d =
        overwrite a (take (512 * m) (drop buf (ram s))) (v_disk v)"
      using overwrite_overwrite [of a "take 512 (drop buf (ram s))" "take (512 * (m - 1)) (drop (buf + 512) (ram s))" "v_disk v"] room
      by simp
    have "runs view (write_loop io fuel k st (buf + 512) (int (m - 1)) 1) s2 ?v Q"
    proof (rule Suc.IH [OF _ _ p ask])
      show "base = bmide_base s2" "disk_found s2" using progressed_keeps [OF s2(1)] Suc.prems(1,2) by simp_all
      show "(a + 512) mod 512 = 0" "0 < m - 1" "m - 1 \<le> k" using Suc.prems(5,7) m(2) by simp_all
      show "buf + 512 + 512 * (m - 1) + 2 \<le> length (ram s2)" by (rule len)
      fix s1 :: "'a mindrvr" and v1 :: ata_view
      assume s1: "progressed s2 s1" "ram s1 = ram s2"
        and v1: "v_disk v1 = overwrite (a + 512) (take (512 * (m - 1)) (drop (buf + 512) (ram s2))) (v_disk ?v)" "v_phase v1 = Idle"
      have r1: "ram s1 = ram s" using s1(2) s2(2) by simp
      have d1: "v_disk v1 = overwrite a (take (512 * m) (drop buf (ram s))) (v_disk v)" using v1(1) disk s2(2) by simp
      show "Q () s1 v1" by (rule Suc.prems(9) [OF progressed_trans [OF s2(1) s1(1)] r1 d1 v1(2)])
    qed
    then show ?thesis by (simp only: if_False m(3)) (simp only: m(1) if_False)
  qed
  show ?case
    unfolding write_loop.simps
    apply (rule runs_before)
    apply (subst if_P)
     apply (simp add: status_bits Suc.prems(4))
    apply (rule runs_write_block [OF assms Suc.prems(3,5,6) f(2) room])
    apply (simp only: prod.case)
    apply (subst if_not_P, simp add: status_bits Suc.prems(4))
    apply (subst if_not_P, simp add: status_bits Suc.prems(4))
    apply (rule runs_before, rule runs_wait_storing [where hz = hz])
    using P apply simp
    using f apply simp
     apply simp
    apply (rule runs_before, rule runs_not_intr)
    apply (rule runs_before, rule runs_command_status)
      apply (simp add: f)
     apply (simp add: f)
    apply (rule runs_before, rule runs_get_ec)
    apply (rule runs_if, simp add: f)
    subgoal for c bm st
      by (rule runs_eq [OF after [of st "s\<lparr>int_bmide_status := bm, int_ata_status := st, cmd_info := c\<rparr>"]])
        (simp_all add: progressed_status)
    done
qed simp

lemma runs_exec_out:
  assumes P: "ata_protocol io busy (bmide_base s) (ticks_per_second s) view" and "disk_found s" and "v_phase v = Idle"
    and "n < fuel" and "busy < fuel" and c: "command_ready CMD_WRITE_SECTORS n lba (cmd_info s)"
    and "buf + 512 * n + 2 \<le> length (ram s)"
    and post: "\<And>s1 v1. still_ready s s1 \<Longrightarrow> ram s1 = ram s \<Longrightarrow>
        v_disk v1 = overwrite (512 * unat lba) (take (512 * n) (drop buf (ram s))) (v_disk v) \<Longrightarrow> v_phase v1 = Idle \<Longrightarrow> Q 0 s1 v1"
  shows "runs view (exec_pio_data_out_cmd io fuel 0 buf (int n) 1) s v Q"
proof -
  let ?s = "\<lambda>t. s\<lparr>tmr_cmd_start_time := t\<rparr>"
  have Pt: "ata_protocol io busy (bmide_base (?s t)) (ticks_per_second (?s t)) view" for t using P by simp
  have ct: "command_ready CMD_WRITE_SECTORS n lba (cmd_info (?s t))" for t using c by simp
  have n: "0 < n" using c by (simp add: command_ready_def)
  let ?loop = "\<lambda>late status. before (if late then timed_out 47 else write_loop io fuel fuel status buf (int n) 1)
    (\<lambda>_. before (check_bus_master io) (\<lambda>_. result_code))"
  have loop: "runs view (?loop False status) (?s t) v1 Q"
    if v1: "v_disk v1 = v_disk v" "v_phase v1 = Taking 0 (512 * unat lba) (512 * unat lba + 512 * n)" and "asking status" for v1 t status
    apply (rule runs_before, subst if_False, rule runs_write_loop [OF P _ _ v1(2)])
    using assms(2,4,7) n that(3) apply (simp_all)
    apply (rule runs_before, rule runs_check_bm)
    using P apply (simp add: progressed_keeps)
    apply (rule runs_result_code)
    subgoal for s1 v2
      using post [of s1 v2] progressed_still_ready [of "?s t" s1] progressed_keeps(5) [of "?s t" s1] assms(2) v1(1)
      by (simp add: still_ready_def disk_found_def)
    done
  have poll: "runs view (poll io CB_ASTAT CB_STAT_BSY fuel) (?s t) v1 (\<lambda>x s1 v1. runs view (case x of (status, late) \<Rightarrow> ?loop late status) s1 v1 Q)"
    if v1: "k \<le> busy" "v_disk v1 = v_disk v" "v_phase v1 = Taking k (512 * unat lba) (512 * unat lba + 512 * n)" "started io (?s t)" for v1 t k
    apply (rule runs_poll_taking [OF Pt v1(3) _ v1(4)])
    using v1(1) assms(5) apply simp
    apply (simp only: prod.case)
    apply (rule loop)
    using v1(2) by simp_all
  show ?thesis
    unfolding exec_pio_data_out_cmd_def
    apply (rule runs_before, rule runs_steps_Cons, rule runs_bm_write [OF P])
    apply (rule runs_steps_Cons, rule runs_set_timeout [OF P], rule runs_steps_Nil)
    apply (rule runs_before, rule runs_select [OF Pt])
    using assms(2-4) apply (simp_all del: steps.simps)
    apply (rule runs_before)
    apply (rule runs_start_command(2) [OF P ct _ refl])
     apply simp
    apply (rule runs_steps_Nil, rule runs_before, rule poll)
    by simp_all
qed

text \<open>The write command as the disk driver gives it.\<close>

definition write_command :: "'h ata_io \<Rightarrow> nat \<Rightarrow> u32 \<Rightarrow> u32 \<Rightarrow> nat \<Rightarrow> ('h, int) md" where
  "write_command io fuel start number buf =
     reg_pio_data_out_lba28 io fuel 0 CMD_WRITE_SECTORS 0 number start buf (sint number) 0"

lemma runs_write_command:
  assumes P: "ata_protocol io busy (bmide_base s) (ticks_per_second s) view" and d: "disk_found s" and "v_phase v = Idle"
    and "0 < n" and "n \<le> 256" and "n < fuel" and "busy < fuel" and "unat lba + n \<le> 268435456"
    and "buf + 512 * n + 2 \<le> length (ram s)"
    and post: "\<And>s1 v1. still_ready s s1 \<Longrightarrow> ram s1 = ram s \<Longrightarrow>
        v_disk v1 = overwrite (512 * unat lba) (take (512 * n) (drop buf (ram s))) (v_disk v) \<Longrightarrow> v_phase v1 = Idle \<Longrightarrow> Q 0 s1 v1"
  shows "runs view (write_command io fuel lba (of_nat n) buf) s v Q"
proof -
  have mc: "adjust_multi [CMD_WRITE_MULTIPLE, CMD_CFA_WRITE_MULTIPLE_WO_ERASE] CMD_WRITE_SECTORS 0 = 1"
    by (simp add: adjust_multi_def CMD_WRITE_MULTIPLE_def CMD_CFA_WRITE_MULTIPLE_WO_ERASE_def CMD_WRITE_SECTORS_def)
  have intr: "int_use_intr_flag s \<noteq> 0" using d by (simp add: disk_found_def)
  have "runs view (exec_pio_data_out_cmd io fuel 0 buf (int n) 1) (s\<lparr>cmd_info := c\<rparr>) v Q"
    if "command_ready CMD_WRITE_SECTORS n lba c" "disk_found (s\<lparr>cmd_info := c\<rparr>)" for c
    by (rule runs_exec_out [where busy = busy]) (use assms that in \<open>simp_all add: still_ready_def\<close>)
  then show ?thesis
    unfolding write_command_def reg_pio_data_out_lba28_def Let_def mc sint_small [OF assms(5)]
    by (intro runs_before runs_device_control [OF intr] runs_setup28 [OF d assms(4,5,8)]) simp
qed

section \<open>Errors stick\<close>

text \<open>A driver that knows of a disk as device 0 but has met an error.\<close>

definition stuck :: "'h mindrvr \<Rightarrow> bool" where
  "stuck s \<longleftrightarrow> config_info s \<noteq> [] \<and> config_info s ! 0 = REG_CONFIG_TYPE_ATA \<and> int_use_intr_flag s \<noteq> 0 \<and> ci_ec (cmd_info s) \<noteq> 0"

definition nothing_done :: "'h mindrvr \<Rightarrow> ata_view \<Rightarrow> int \<Rightarrow> 'h mindrvr \<Rightarrow> ata_view \<Rightarrow> bool" where
  "nothing_done s v x s1 v1 \<longleftrightarrow> x = 1 \<and> ram s1 = ram s \<and> ci_ec (cmd_info s1) = ci_ec (cmd_info s) \<and> stuck s1 \<and>
     v_disk v1 = v_disk v \<and> v_phase v1 = Idle"

lemma runs_stuck:
  assumes "ata_protocol io busy (bmide_base s) hz view" and "stuck s" and "v_phase v = Idle" and "0 < fuel"
  shows "runs view (exec_pio_data_in_cmd io fuel 0 buf n mc) s v (nothing_done s v)"
    and "runs view (exec_pio_data_out_cmd io fuel 0 buf n mc) s v (nothing_done s v)"
proof -
  have d: "config_info s \<noteq> []" "config_info s ! 0 = REG_CONFIG_TYPE_ATA" "ci_ec (cmd_info s) \<noteq> 0"
    using assms(2) by (simp_all add: stuck_def)
  have select: "runs view (sub_select io fuel 0) (s\<lparr>tmr_cmd_start_time := t\<rparr>) v R"
    if "R 1 (s\<lparr>tmr_cmd_start_time := t\<rparr>) (v\<lparr>v_dh := 0, v_int := False\<rparr>)" for t R
    by (rule runs_select_any [OF assms(1,3,4)]) (use d that in simp_all)
  have fin: "nothing_done s v 1 (s\<lparr>tmr_cmd_start_time := t\<rparr>) (v\<lparr>v_dh := 0, v_int := False\<rparr>)" for t
    using assms(2,3) by (simp add: nothing_done_def stuck_def)
  show "runs view (exec_pio_data_in_cmd io fuel 0 buf n mc) s v (nothing_done s v)"
    unfolding exec_pio_data_in_cmd_def
    apply (rule runs_before, rule runs_steps_Cons, rule runs_bm_write [OF assms(1)])
    apply (rule runs_steps_Cons, rule runs_set_timeout [OF assms(1)], rule runs_steps_Nil)
    apply (rule runs_before, rule select, subst if_P, simp)
    by (rule runs_ret, rule fin)
  show "runs view (exec_pio_data_out_cmd io fuel 0 buf n mc) s v (nothing_done s v)"
    unfolding exec_pio_data_out_cmd_def
    apply (rule runs_before, rule runs_steps_Cons, rule runs_bm_write [OF assms(1)])
    apply (rule runs_steps_Cons, rule runs_set_timeout [OF assms(1)], rule runs_steps_Nil)
    apply (rule runs_before, rule select, subst if_P, simp)
    by (rule runs_ret, rule fin)
qed

text \<open>
  Nothing clears \<open>ec\<close> of \<open>reg_cmd_info\<close>: after one error every later command to a drive in perfect order fails before it
  is given, reads leave their buffer as it was, writes the disk.
\<close>

theorem errors_stick:
  assumes "ata_protocol io busy (bmide_base s) hz view" and "stuck s" and "v_phase v = Idle" and "0 < fuel"
  shows "runs view (read_command io fuel lba n buf) s v (nothing_done s v)"
    and "runs view (write_command io fuel lba n buf) s v (nothing_done s v)"
proof -
  have intr: "int_use_intr_flag s \<noteq> 0" using assms(2) by (simp add: stuck_def)
  have stored: "runs view (steps [setup28 0 cmd 0 n lba 0, setup_counts ns mc]) s v Q"
    if "\<And>c. ci_ec c = ci_ec (cmd_info s) \<Longrightarrow> Q () (s\<lparr>cmd_info := c\<rparr>) v" for cmd ns mc Q
    unfolding setup28_def setup_counts_def
    by (intro runs_steps_Cons runs_steps_Nil runs_sets) (simp_all add: that)
  have st: "stuck (s\<lparr>cmd_info := c\<rparr>)" "nothing_done (s\<lparr>cmd_info := c\<rparr>) v = nothing_done s v"
    if "ci_ec c = ci_ec (cmd_info s)" for c
    using assms(2) that by (auto simp: stuck_def nothing_done_def fun_eq_iff)
  show "runs view (read_command io fuel lba n buf) s v (nothing_done s v)"
    unfolding read_command_def reg_pio_data_in_lba28_def Let_def
    apply (intro runs_before runs_device_control [OF intr] stored)
    subgoal for c by (rule runs_mono [OF runs_stuck(1) [where hz = hz]]) (use assms st [of c] in simp_all)
    done
  show "runs view (write_command io fuel lba n buf) s v (nothing_done s v)"
    unfolding write_command_def reg_pio_data_out_lba28_def Let_def
    apply (intro runs_before runs_device_control [OF intr] stored)
    subgoal for c by (rule runs_mono [OF runs_stuck(2) [where hz = hz]]) (use assms st [of c] in simp_all)
    done
qed

end
