(* ===== verification/AtaDrive.thy ===== *)
theory AtaDrive
  imports MindrvrProps AtaProps
begin

text \<open>
  The commands of \<open>Mindrvr\<close> as operations on a disk, a device that keeps to the protocol, and the disk driver of \<open>Ata\<close>
  with these commands in place of its parameters. The last part is the table of a DMA transfer.
\<close>

section \<open>Commands on a disk\<close>

definition drive_ready :: "'h ata_io \<Rightarrow> nat \<Rightarrow> ('h \<Rightarrow> ata_view) \<Rightarrow> 'h mindrvr \<Rightarrow> bool" where
  "drive_ready io busy view s \<longleftrightarrow> disk_found s \<and> v_phase (view (hw s)) = Idle \<and>
     ata_protocol io busy (bmide_base s) (ticks_per_second s) view"

definition drive_disk :: "('h \<Rightarrow> ata_view) \<Rightarrow> 'h mindrvr \<Rightarrow> nat \<Rightarrow> u8" where
  "drive_disk view s = v_disk (view (hw s))"

lemma runs_from:
  assumes "runs view m s (view (hw s)) Q"
  obtains x s1 h where "m s = Inr (x, s1\<lparr>hw := h\<rparr>)" "Q x s1 (view h)"
proof -
  obtain x s1 h where "m (s\<lparr>hw := hw s\<rparr>) = Inr (x, s1\<lparr>hw := h\<rparr>)" "Q x s1 (view h)"
    using assms unfolding runs_def by blast
  then show ?thesis using that by simp
qed

lemma ready_frame:
  assumes "drive_ready io busy view s" and "still_ready s s1" and "v_phase (view h) = Idle"
  shows "drive_ready io busy view (s1\<lparr>hw := h\<rparr>)"
  using assms by (simp add: drive_ready_def still_ready_def disk_found_def)

lemma drive_ready_ram [simp]: "drive_ready io busy view (s\<lparr>ram := r\<rparr>) = drive_ready io busy view s"
  by (simp add: drive_ready_def disk_found_def)

lemma drive_disk_ram [simp]: "drive_disk view (s\<lparr>ram := r\<rparr>) = drive_disk view s"
  by (simp add: drive_disk_def)

lemma read_command_exact:
  assumes "drive_ready io busy view s" and "0 < n" and "n \<le> 256" and "n < fuel" and "unat lba + n \<le> 268435456"
    and "buf + 512 * n + 2 \<le> length (ram s)"
  shows "\<exists>s1. read_command io fuel lba (of_nat n) buf s = Inr (0, s1) \<and> drive_ready io busy view s1 \<and>
    drive_disk view s1 = drive_disk view s \<and>
    ram s1 = filled_ram (ram s) buf (byte_slice (drive_disk view s) (512 * unat lba) (512 * n))"
proof -
  let ?Q = "\<lambda>x s1 v1. x = (0 :: int) \<and> still_ready s s1 \<and> v_phase v1 = Idle \<and> v_disk v1 = drive_disk view s \<and>
    ram s1 = filled_ram (ram s) buf (byte_slice (drive_disk view s) (512 * unat lba) (512 * n))"
  have "runs view (read_command io fuel lba (of_nat n) buf) s (view (hw s)) ?Q"
    by (rule runs_read_command [where hz = "ticks_per_second s" and busy = busy])
      (use assms in \<open>auto simp: drive_ready_def drive_disk_def\<close>)
  then show ?thesis
    by (rule runs_from) (use ready_frame [OF assms(1)] in \<open>auto simp: drive_disk_def\<close>)
qed

lemma write_command_exact:
  assumes "drive_ready io busy view s" and "0 < n" and "n \<le> 256" and "n < fuel" and "busy < fuel"
    and "unat lba + n \<le> 268435456" and "buf + 512 * n + 2 \<le> length (ram s)"
  shows "\<exists>s1. write_command io fuel lba (of_nat n) buf s = Inr (0, s1) \<and> drive_ready io busy view s1 \<and>
    drive_disk view s1 = overwrite (512 * unat lba) (take (512 * n) (drop buf (ram s))) (drive_disk view s) \<and>
    ram s1 = ram s"
proof -
  let ?Q = "\<lambda>x s1 v1. x = (0 :: int) \<and> still_ready s s1 \<and> v_phase v1 = Idle \<and> ram s1 = ram s \<and>
    v_disk v1 = overwrite (512 * unat lba) (take (512 * n) (drop buf (ram s))) (drive_disk view s)"
  have "runs view (write_command io fuel lba (of_nat n) buf) s (view (hw s)) ?Q"
    by (rule runs_write_command [where busy = busy]) (use assms in \<open>auto simp: drive_ready_def drive_disk_def\<close>)
  then show ?thesis
    by (rule runs_from) (use ready_frame [OF assms(1)] in \<open>auto simp: drive_disk_def\<close>)
qed

text \<open>
  Claim C26. On a drive that keeps to the ATA protocol, a PIO write command of up to 256 sectors changes exactly these
  sectors, to the bytes of its buffer, and a read command for them then brings these bytes back; both report success. The read
  clears two bytes past the end of its buffer, as each word is stored as four bytes.
\<close>

theorem pio_write_then_read:
  assumes "ata_protocol io busy (bmide_base s) (ticks_per_second s) view" and "disk_found s" and "v_phase (view (hw s)) = Idle"
    and "0 < n" and "n \<le> 256" and "n < fuel" and "busy < fuel" and "unat lba + n \<le> 2 ^ 28"
    and "buf + 512 * n + 2 \<le> length (ram s)" and "buf' + 512 * n + 2 \<le> length (ram s)"
  shows "\<exists>s1 s2.
    reg_pio_data_out_lba28 io fuel 0 CMD_WRITE_SECTORS 0 (of_nat n) lba buf (int n) 0 s = Inr (0, s1) \<and>
    v_disk (view (hw s1)) = overwrite (512 * unat lba) (take (512 * n) (drop buf (ram s))) (v_disk (view (hw s))) \<and>
    ram s1 = ram s \<and>
    reg_pio_data_in_lba28 io fuel 0 CMD_READ_SECTORS 0 (of_nat n) lba buf' (int n) 0 s1 = Inr (0, s2) \<and>
    v_disk (view (hw s2)) = v_disk (view (hw s1)) \<and>
    ram s2 = take buf' (ram s) @ take (512 * n) (drop buf (ram s)) @ [0, 0] @ drop (buf' + 512 * n + 2) (ram s)"
proof -
  have r: "drive_ready io busy view s" using assms(1-3) by (simp add: drive_ready_def)
  obtain s1 where s1: "write_command io fuel lba (of_nat n) buf s = Inr (0, s1)" "drive_ready io busy view s1"
    "drive_disk view s1 = overwrite (512 * unat lba) (take (512 * n) (drop buf (ram s))) (drive_disk view s)" "ram s1 = ram s"
    using write_command_exact [OF r assms(4-7), of lba buf] assms(8,9) by auto
  obtain s2 where s2: "read_command io fuel lba (of_nat n) buf' s1 = Inr (0, s2)" "drive_disk view s2 = drive_disk view s1"
    "ram s2 = filled_ram (ram s1) buf' (byte_slice (drive_disk view s1) (512 * unat lba) (512 * n))"
    using read_command_exact [OF s1(2) assms(4-6), of lba buf'] assms(8,10) s1(4) by auto
  have "length (take (512 * n) (drop buf (ram s))) = 512 * n" using assms(9) by simp
  then have "byte_slice (drive_disk view s1) (512 * unat lba) (512 * n) = take (512 * n) (drop buf (ram s))"
    using slice_overwrite [of "512 * unat lba" "take (512 * n) (drop buf (ram s))" "drive_disk view s"] s1(3) by simp
  then have "ram s2 = take buf' (ram s) @ take (512 * n) (drop buf (ram s)) @ [0, 0] @ drop (buf' + 512 * n + 2) (ram s)"
    using s2(3) s1(4) assms(9) by (simp add: filled_ram_def min_def)
  then show ?thesis
    using s1 s2(1,2) unfolding read_command_def write_command_def sint_small [OF assms(5)] drive_disk_def by blast
qed

section \<open>A device\<close>

text \<open>A drive that is its view: busy for five looks before it takes data, without a bus master, and with a clock that stands.\<close>

definition demo_status :: "ata_phase \<Rightarrow> u8" where
  "demo_status p = (case p of Idle \<Rightarrow> 0x50 | Sending a b \<Rightarrow> 0x58 | Taking k a b \<Rightarrow> if k = 0 then 0x58 else 0x80 | _ \<Rightarrow> 0x80)"

definition demo_command :: "u8 \<Rightarrow> ata_view \<Rightarrow> ata_view" where
  "demo_command cmd v =
     (let a = 512 * lba_of v; b = a + 512 * count_of v in
      if cmd = CMD_READ_SECTORS then v\<lparr>v_phase := Loading a b\<rparr>
      else if cmd = CMD_WRITE_SECTORS then v\<lparr>v_phase := Taking 5 a b\<rparr> else v)"

definition demo_out :: "u16 \<Rightarrow> u8 \<Rightarrow> ata_view \<Rightarrow> ata_view" where
  "demo_out p x v =
     (if p = 0x1F2 then v\<lparr>v_sc := x\<rparr> else if p = 0x1F3 then v\<lparr>v_sn := x\<rparr> else if p = 0x1F4 then v\<lparr>v_cl := x\<rparr>
      else if p = 0x1F5 then v\<lparr>v_ch := x\<rparr> else if p = 0x1F6 then v\<lparr>v_dh := x\<rparr>
      else if p = 0x1F7 then demo_command x v else v)"

definition demo_io :: "ata_view ata_io" where
  "demo_io = \<lparr>
     in_b = (\<lambda>p v. (demo_status (v_phase v),
       if p = 0x3F6 then v\<lparr>v_phase := looked_at (v_phase v)\<rparr> else if p = 0x1F7 then v\<lparr>v_int := False\<rparr> else v)),
     in_w = (\<lambda>p v. case v_phase v of Sending a b \<Rightarrow> (disk_word (v_disk v) a, v\<lparr>v_phase := sent_to (a + 2) b\<rparr>) | _ \<Rightarrow> (0, v)),
     in_l = (\<lambda>p v. (0, v)),
     out_b = demo_out,
     out_w = (\<lambda>p w v. case v_phase v of
         Taking k a b \<Rightarrow> v\<lparr>v_phase := taken_to (a + 2) b, v_disk := overwrite a (put_u16 w) (v_disk v)\<rparr>
       | _ \<Rightarrow> v),
     out_l = (\<lambda>p w v. v),
     clock = (\<lambda>v. (0, v)),
     clock_hz = (\<lambda>v. 1000),
     irq_listen = (\<lambda>n v. v),
     irq_wait = (\<lambda>ms v. case v_phase v of
         Loading a b \<Rightarrow> (True, v\<lparr>v_phase := Sending a b, v_int := True\<rparr>)
       | Storing a b \<Rightarrow> (True, v\<lparr>v_phase := if a = b then Idle else Taking 0 a b, v_int := True\<rparr>)
       | _ \<Rightarrow> (False, v)),
     phys_addr = (\<lambda>a. a)\<rparr>"

lemma demo_status_shown: "status_shown p (demo_status p)"
  by (cases p) (auto simp: demo_status_def resting_def asking_def CB_STAT_BSY_def)

lemma demo_protocol: "ata_protocol demo_io 5 0 1000 (\<lambda>v. v)"
proof -
  have "shows_status demo_io (\<lambda>v. v)"
    by (auto simp: shows_status_def demo_io_def demo_status_shown)
  moreover have "keeps_registers demo_io (\<lambda>v. v)"
    by (simp add: keeps_registers_def demo_io_def demo_out_def)
  moreover have "takes_commands demo_io 5 (\<lambda>v. v)"
    by (simp add: takes_commands_def demo_io_def demo_out_def demo_command_def Let_def CMD_READ_SECTORS_def
        CMD_WRITE_SECTORS_def) (blast intro: le_refl)
  moreover have "moves_data demo_io (\<lambda>v. v)" "interrupts demo_io (\<lambda>v. v)"
    by (simp_all add: moves_data_def interrupts_def demo_io_def)
  moreover have "bus_master_quiet demo_io 0 (\<lambda>v. v)" by (simp add: bus_master_quiet_def)
  moreover have "in_time demo_io 1000 (\<lambda>v. v)" by (simp add: in_time_def demo_io_def TMR_TIME_OUT_def)
  ultimately show ?thesis by (simp add: ata_protocol_def)
qed

definition demo_view :: ata_view where
  "demo_view = \<lparr>v_disk = (\<lambda>_. 0), v_phase = Idle, v_int = False, v_sc = 0, v_sn = 0, v_cl = 0, v_ch = 0, v_dh = 0\<rparr>"

definition demo_info :: REG_CMD_INFO where
  "demo_info = \<lparr>ci_cmd = 0, ci_fr = 0, ci_sc = 0, ci_sn = 0, ci_cl = 0, ci_ch = 0, ci_dh = 0, ci_dc = 0, ci_ns = 0, ci_mc = 0,
     ci_lbaSize = 0, ci_lbaLow = 0, ci_lbaHigh = 0, ci_st = 0, ci_as = 0, ci_er = 0, ci_ec = 0, ci_to = 0,
     ci_totalBytesXfer = 0, ci_drqPackets = 0\<rparr>"

definition demo_mindrvr :: "ata_view mindrvr" where
  "demo_mindrvr = \<lparr>int_ata_status = 0, int_bmide_status = 0, int_use_intr_flag = 1, ticks_per_second = 1000, cmd_info = demo_info,
     config_info = [REG_CONFIG_TYPE_ATA, REG_CONFIG_TYPE_NONE], bmide_base = 0, pio_xfer_width = 16, tmr_cmd_start_time = 0,
     irq_listened = True, statReg = 0, rwControl = 0, prdBufPtr = 0, prd_list = [], dma_pci_num_prd = 0,
     ram = replicate 1024 7 @ replicate 1026 9, hw = demo_view\<rparr>"

theorem pio_write_then_read_witness:
  "\<exists>s1 s2.
     reg_pio_data_out_lba28 demo_io 6 0 CMD_WRITE_SECTORS 0 1 63 0 1 0 demo_mindrvr = Inr (0, s1) \<and>
     v_disk (hw s1) = overwrite 32256 (replicate 512 7) (\<lambda>_. 0) \<and>
     reg_pio_data_in_lba28 demo_io 6 0 CMD_READ_SECTORS 0 1 63 1024 1 0 s1 = Inr (0, s2) \<and>
     ram s2 = replicate 1024 7 @ replicate 512 7 @ [0, 0] @ replicate 512 9"
proof -
  have p: "ata_protocol demo_io 5 (bmide_base demo_mindrvr) (ticks_per_second demo_mindrvr) (\<lambda>v. v)"
    using demo_protocol by (simp add: demo_mindrvr_def)
  have d: "disk_found demo_mindrvr"
    by (simp add: demo_mindrvr_def disk_found_def demo_info_def)
  have f: "v_phase (hw demo_mindrvr) = Idle" "v_disk (hw demo_mindrvr) = (\<lambda>_. 0)"
    "length (ram demo_mindrvr) = 2050" "ram demo_mindrvr = replicate 1024 7 @ replicate 1026 9"
    by (simp_all add: demo_mindrvr_def demo_view_def)
  have "take (512 * 1) (drop 0 (ram demo_mindrvr)) = replicate 512 7" "take 1024 (ram demo_mindrvr) = replicate 1024 7"
    "drop (1024 + 512 * 1 + 2) (ram demo_mindrvr) = replicate 512 9"
    by (simp_all add: f(4))
  then show ?thesis
    using pio_write_then_read [OF p d f(1), of 1 6 63 0 1024] f(2,3) by auto
qed

section \<open>The disk driver on these commands\<close>

text \<open>
  The parameters of \<open>Ata\<close>: the buffers of the disk driver are memory of their own here, with the two bytes after them. \<open>Ata\<close>
  leaves a read out of the state of the drive; by \<open>read_command_exact\<close> the driver is as ready after it, with the same disk.
\<close>

definition pio_in :: "'h ata_io \<Rightarrow> nat \<Rightarrow> 'h mindrvr dev_in" where
  "pio_in io fuel d dma start n =
     (case read_command io fuel start n 0 (d\<lparr>ram := pad (512 * unat n + 2)\<rparr>) of
        Inl e \<Rightarrow> []
      | Inr (_, s1) \<Rightarrow> take (512 * unat n) (ram s1))"

definition pio_out :: "'h ata_io \<Rightarrow> nat \<Rightarrow> 'h mindrvr dev_out" where
  "pio_out io fuel start n b d =
     (case write_command io fuel start n 0 (d\<lparr>ram := take (512 * unat n) b @ pad 2\<rparr>) of Inl e \<Rightarrow> d | Inr (_, s1) \<Rightarrow> s1)"

definition pio_ready :: "'h ata_io \<Rightarrow> nat \<Rightarrow> ('h \<Rightarrow> ata_view) \<Rightarrow> bool \<Rightarrow> 'h mindrvr \<Rightarrow> bool" where
  "pio_ready io busy view dma s \<longleftrightarrow> \<not> dma \<and> drive_ready io busy view s"

lemma pio_reads_ok:
  assumes "256 < fuel"
  shows "reads_when (pio_ready io busy view) (drive_disk view) (pio_in io fuel)"
proof -
  have "pio_in io fuel d dma start n = byte_slice (drive_disk view d) (512 * unat start) (512 * unat n)"
    if "pio_ready io busy view dma d" "0 < unat n" "unat n \<le> 256" "unat start + unat n \<le> LBA28" for d dma start n
  proof -
    have "drive_ready io busy view (d\<lparr>ram := pad (512 * unat n + 2)\<rparr>)" using that(1) by (simp add: pio_ready_def)
    from read_command_exact [OF this that(2,3), of fuel start 0] that(3,4) assms show ?thesis
      by (auto simp: pio_in_def filled_ram_def LBA28_def pad_def)
  qed
  then show ?thesis by (simp add: reads_when_def)
qed

lemma pio_writes_ok:
  assumes "256 < fuel" and "busy < fuel"
  shows "writes_when (pio_ready io busy view) (drive_disk view) (pio_out io fuel)"
proof -
  have "pio_ready io busy view dma (pio_out io fuel start n b d) \<and>
      drive_disk view (pio_out io fuel start n b d) = overwrite (512 * unat start) (take (512 * unat n) b) (drive_disk view d)"
    if "pio_ready io busy view dma d" "0 < unat n" "unat n \<le> 256" "unat start + unat n \<le> LBA28" "512 * unat n \<le> length b"
    for d dma start n b
  proof -
    have "drive_ready io busy view (d\<lparr>ram := take (512 * unat n) b @ pad 2\<rparr>)" using that(1) by (simp add: pio_ready_def)
    from write_command_exact [OF this that(2,3), of fuel start 0] that assms show ?thesis
      by (auto simp: pio_out_def pio_ready_def LBA28_def pad_def)
  qed
  then show ?thesis by (simp add: writes_when_def)
qed

text \<open>A request to write any bytes of the disk and one to read them, from the message down to the ports.\<close>

lemma disk_through_ports:
  assumes "256 < fuel" and "busy < fuel" and "\<not> dma_enabled a" and "drive_ready io busy view (drive a)"
    and "512 * unat sector + unat offset + unat len \<le> 512 * LBA28"
    and "unat (offset mod 512) + unat len < 2 ^ 32" and "length data = unat len"
  shows "\<exists>a'. ata_handle (pio_in io fuel) (pio_out io fuel) (ATAOpWrite sector offset len data) a = Inr ([1], a') \<and>
    ata_handle (pio_in io fuel) (pio_out io fuel) (ATAOpRead sector offset len) a' = Inr (data, a') \<and>
    (\<forall>i. i < 512 * unat sector + unat offset \<or> 512 * unat sector + unat offset + unat len \<le> i \<longrightarrow>
       drive_disk view (drive a') i = drive_disk view (drive a) i)"
  by (rule ata_write_read [OF pio_reads_ok [OF assms(1)] pio_writes_ok [OF assms(1,2)] _ assms(5-7)])
    (use assms(3,4) in \<open>simp add: pio_ready_def\<close>)

section \<open>The table of a DMA transfer\<close>

text \<open>
  The table of a DMA transfer that \<open>set_up_xfer\<close> builds: entries of an address and a count, 0 standing for 64 KiB, with the
  highest bit set in the last one.
\<close>

subsection \<open>What a table describes\<close>

definition prd_length :: "u32 \<times> u32 \<Rightarrow> nat" where
  "prd_length e = (let n = unat (snd e AND 0xffff) in if n = 0 then 65536 else n)"

text \<open>The entries describe the \<open>n\<close> bytes from \<open>a\<close> on, one after the other, and none crosses a 64 KiB boundary.\<close>

fun prd_covers :: "nat \<Rightarrow> nat \<Rightarrow> (u32 \<times> u32) list \<Rightarrow> bool" where
  "prd_covers a n [] \<longleftrightarrow> n = 0"
| "prd_covers a n (e # es) \<longleftrightarrow>
     unat (fst e) = a \<and> prd_length e \<le> n \<and> (a + prd_length e - 1) div 65536 = a div 65536 \<and>
     (bit (snd e) 31 \<longleftrightarrow> es = []) \<and> prd_covers (a + prd_length e) (n - prd_length e) es"

subsection \<open>One entry\<close>

lemma unat_page: "unat (x AND 0xffff0000 :: u32) = 65536 * (unat x div 65536)"
proof -
  have "x AND 0xffff0000 = push_bit 16 (drop_bit 16 x)"
  proof -
    have "(0xffff0000 :: u32) = NOT (mask 16)" by (simp add: mask_eq_exp_minus_1)
    moreover have "x AND NOT (mask 16) = push_bit 16 (drop_bit 16 x)"
      by (rule bit_word_eqI) (auto simp: bit_simps)
    ultimately show ?thesis by (simp only:)
  qed
  moreover have "unat (push_bit 16 (drop_bit 16 x)) = 65536 * (unat x div 65536)"
  proof -
    have "unat x div 65536 < 65536" using unat_lt_u32 [of x] by linarith
    then show ?thesis
      by (simp add: push_bit_eq_mult drop_bit_eq_div unat_word_ariths unat_div take_bit_nat_eq_self)
  qed
  ultimately show ?thesis by simp
qed

lemma same_page: "x AND 0xffff0000 = y AND 0xffff0000 \<longleftrightarrow> unat x div 65536 = unat (y :: u32) div 65536"
  by (simp add: word_unat_eq_iff unat_page)

text \<open>An entry takes the bytes up to the next boundary, or all that are left.\<close>

definition prd_take :: "nat \<Rightarrow> nat \<Rightarrow> nat" where
  "prd_take a n = min n (65536 - a mod 65536)"

lemma prd_take_bounds: "0 < n \<Longrightarrow> 0 < prd_take a n" "prd_take a n \<le> n" "prd_take a n \<le> 65536"
  by (simp_all add: prd_take_def)

lemma prd_step_take:
  assumes "0 < n" and "unat a + n < 4294967296" and "n < 2147483648"
  shows "prd_step (int n) a = (a + of_nat (prd_take (unat a) n), int (prd_take (unat a) n))"
proof -
  define t where "t = min n 65536"
  define p where "p = unat a"
  have temp: "(if 65536 > int n then int n else 65536) = int t" by (simp add: t_def min_def)
  have at: "unat (a + of_nat t) = p + t"
    using assms(2) by (simp add: unat_add_nowrap unat_of_nat p_def t_def take_bit_nat_eq_self)
  define q where "q = p div 65536"
  define r where "r = p mod 65536"
  have p: "p = 65536 * q + r" "r < 65536" by (simp_all add: q_def r_def)
  show ?thesis
  proof (cases "(p + t) div 65536 = q")
    case True
    have "r + t < 65536"
    proof (rule ccontr)
      assume "\<not> r + t < 65536"
      then have "65536 * (q + 1) \<le> p + t" unfolding p(1) by simp
      then have "65536 * (q + 1) div 65536 \<le> (p + t) div 65536" by (rule div_le_mono)
      with True show False by simp
    qed
    then have t: "t = n" "prd_take p n = n" "n < 65536" by (auto simp: t_def prd_take_def r_def [symmetric])
    with True at show ?thesis
      by (simp add: prd_step_def Let_def same_page p_def [symmetric] q_def [symmetric])
  next
    case False
    have rt: "65536 \<le> r + t"
    proof (rule ccontr)
      assume "\<not> 65536 \<le> r + t"
      then have "(p + t) div 65536 = q" unfolding p(1) by (simp add: add.assoc)
      with False show False by simp
    qed
    moreover have "t \<le> 65536" by (simp add: t_def)
    ultimately have "(r + t) div 65536 = 1" using p(2) by (simp add: div_nat_eqI)
    then have page: "(p + t) div 65536 = q + 1" unfolding p(1) by (simp add: add.assoc)
    have k: "prd_take p n = 65536 - r" using rt by (auto simp: prd_take_def r_def [symmetric] t_def)
    have edge: "(a + of_nat t) AND 0xffff0000 = a + of_nat (prd_take p n)"
    proof -
      have "unat ((a + of_nat t) AND 0xffff0000) = 65536 * (q + 1)" by (simp add: unat_page at page)
      also have "\<dots> = p + (65536 - r)" using p by simp
      also have "\<dots> = unat (a + of_nat (prd_take p n))"
      proof -
        have "prd_take p n \<le> n" by (rule prd_take_bounds)
        then have "unat a + prd_take p n < 4294967296" using assms(2) by linarith
        then have "unat (a + of_nat (prd_take p n)) = p + prd_take p n"
          by (simp add: unat_add_nowrap unat_of_nat p_def take_bit_nat_eq_self)
        then show ?thesis by (simp add: k)
      qed
      finally show ?thesis by (simp add: word_unat_eq_iff)
    qed
    have "sint (of_nat (prd_take p n) :: u32) = int (prd_take p n)"
      using prd_take_bounds(3) [of p n] by (subst sint_unat) (simp_all add: unat_of_nat take_bit_nat_eq_self)
    moreover have "(a + of_nat t) AND 0xffff0000 \<noteq> a AND 0xffff0000"
      using page by (simp add: same_page at p_def [symmetric] q_def [symmetric])
    moreover have "prd_step (int n) a =
        (if (a + of_nat t) AND 0xffff0000 \<noteq> a AND 0xffff0000
         then ((a + of_nat t) AND 0xffff0000, sint (((a + of_nat t) AND 0xffff0000) - a))
         else (a + of_nat t, int t))"
      by (simp only: prd_step_def temp Let_def of_int_of_nat_eq)
    ultimately show ?thesis by (simp add: edge p_def [symmetric])
  qed
qed

lemma prd_entry_length:
  assumes "0 < n" and "n \<le> 65536"
  shows "prd_length (a, of_int (int n) AND 0x0000ffff) = n" "prd_length (a, (of_int (int n) AND 0x0000ffff) OR 0x80000000) = n"
    "\<not> bit (of_int (int n) AND 0x0000ffff :: u32) 31" "bit ((of_int (int n) AND 0x0000ffff) OR 0x80000000 :: u32) 31"
proof -
  have m: "(0xffff :: u32) = mask 16" by (simp add: mask_eq_exp_minus_1)
  have l: "unat ((of_nat n :: u32) AND mask 16) = n mod 65536"
    using assms(2) by (simp add: take_bit_eq_mask [symmetric] take_bit_eq_mod unat_mod unat_of_nat take_bit_nat_eq_self)
  have "n mod 65536 = (if n = 65536 then 0 else n)" using assms(2) by simp
  then show len: "prd_length (a, of_int (int n) AND 0x0000ffff) = n" using assms(1) by (simp add: prd_length_def m l)
  have "(((of_nat n :: u32) AND 0xffff) OR 0x80000000) AND 0xffff = of_nat n AND 0xffff"
    by (simp add: bit.conj_disj_distrib2 and.assoc)
  then show "prd_length (a, (of_int (int n) AND 0x0000ffff) OR 0x80000000) = n"
    using len by (simp add: prd_length_def)
  show "\<not> bit (of_int (int n) AND 0x0000ffff :: u32) 31" by (simp add: m bit_simps)
  show "bit ((of_int (int n) AND 0x0000ffff) OR 0x80000000 :: u32) 31" by (simp add: bit_simps)
qed

subsection \<open>The table\<close>

lemma prd_loop_covers:
  "\<lbrakk>unat a + n < 4294967296; n < 2147483648; n = 0 \<or> unat a mod 65536 + n \<le> 65536 * room\<rbrakk> \<Longrightarrow>
   \<exists>ps. prd_loop room (int n) a = (ps, False) \<and> prd_covers (unat a) n ps \<and> (ps = [] \<longleftrightarrow> n = 0)"
proof (induction room arbitrary: a n)
  case (Suc room)
  show ?case
  proof (cases "n = 0")
    case False
    define k where "k = prd_take (unat a) n"
    have k: "0 < k" "k \<le> n" "k \<le> 65536" using prd_take_bounds [where a = "unat a" and n = n] False by (simp_all add: k_def)
    have step: "prd_step (int n) a = (a + of_nat k, int k)"
      using prd_step_take [of n a] False Suc.prems by (simp add: k_def)
    have at: "unat (a + of_nat k) = unat a + k"
      using Suc.prems(1) k by (simp add: unat_add_nowrap unat_of_nat take_bit_nat_eq_self)
    have room: "n - k = 0 \<or> (unat a + k) mod 65536 + (n - k) \<le> 65536 * room"
    proof (cases "k = n")
      case False
      then have k': "k = 65536 - unat a mod 65536" by (auto simp: k_def prd_take_def min_def split: if_splits)
      then have "(unat a + k) mod 65536 = 0"
        using mod_add_left_eq [of "unat a" 65536 k] by (simp add: less_imp_le)
      then show ?thesis using Suc.prems(3) k k' by auto
    qed simp
    obtain ps where ps: "prd_loop room (int (n - k)) (a + of_nat k) = (ps, False)"
      "prd_covers (unat a + k) (n - k) ps" "ps = [] \<longleftrightarrow> n - k = 0"
      using Suc.IH [of "a + of_nat k" "n - k", unfolded at, OF _ _ room] Suc.prems(1,2) k(2) by fastforce
    have left: "int n - int k = int (n - k)" "int n - int k < 1 \<longleftrightarrow> ps = []" using k(2) ps(3) by auto
    have page: "(unat a + k - 1) div 65536 = unat a div 65536"
    proof -
      define q where "q = unat a div 65536"
      define r where "r = unat a mod 65536"
      have a: "unat a = 65536 * q + r" by (simp add: q_def r_def)
      have "r + k \<le> 65536" by (auto simp: k_def prd_take_def r_def)
      then have "(65536 * q + (r + k - 1)) div 65536 = q" using k(1) by simp
      moreover have "unat a + k - 1 = 65536 * q + (r + k - 1)" using a k(1) by simp
      ultimately show ?thesis by (simp add: q_def)
    qed
    let ?e = "(a, if int n - int k < 1 then (of_int (int k) AND 0x0000ffff) OR 0x80000000 else of_int (int k) AND 0x0000ffff) :: u32 \<times> u32"
    have e: "prd_length ?e = k" "bit (snd ?e) 31 \<longleftrightarrow> ps = []"
      using prd_entry_length [OF k(1,3)] left(2) by (simp_all del: of_int_of_nat_eq)
    have "prd_loop (Suc room) (int n) a = (?e # ps, False)"
      using False ps(1) step by (simp add: Let_def left(1))
    moreover have "prd_covers (unat a) n (?e # ps)"
      using ps(2) page k(2) e by simp
    ultimately show ?thesis using False by blast
  qed simp
qed auto

text \<open>
  For a buffer of up to 256 KiB \<open>set_up_xfer\<close> builds a table of exactly its bytes, leaves its length, sets the direction and
  succeeds, whatever the hardware does.
\<close>

theorem set_up_xfer_covers:
  assumes "0 < n" and "n \<le> 262144" and "unat a + n < 4294967296"
  shows "\<exists>s1. set_up_xfer io dir (int n) a s = Inr (0, s1) \<and> prd_covers (unat a) n (prd_list s1) \<and>
    dma_pci_num_prd s1 = length (prd_list s1) \<and> rwControl s1 = (if dir then 0 else 8)"
proof -
  have "unat a mod 65536 + n \<le> 65536 * MAX_PRD" using assms(2) mod_less_divisor [of 65536 "unat a"] by (simp add: MAX_PRD_def)
  then obtain ps where ps: "prd_loop MAX_PRD (int n) a = (ps, False)" "prd_covers (unat a) n ps"
    using prd_loop_covers [of a n MAX_PRD] assms by auto
  show ?thesis
    using ps
    by (simp add: set_up_xfer_def before_def asks_def sets_def ret_def port_out_def pio_writeBusMstrCmd_def
        pio_writeBusMstrStatus_def BM_CR_MASK_READ_def BM_CR_MASK_WRITE_def Let_def)
qed

theorem set_up_xfer_covers_witness:
  "\<exists>s1. set_up_xfer io True 70000 0x0001F000 s = Inr (0, s1) \<and> prd_covers 126976 70000 (prd_list s1)"
  using set_up_xfer_covers [of 70000 "0x0001F000" io True s] by auto

end
