(* ===== verification/Spec2Isabelle.thy ===== *)
theory Spec2Isabelle
  imports HeapExamples KernelExamples MemoryProps ConsoleProps Descriptors LoaderExamples FileStack DispatchExamples
    CoreDumpExamples DebuggerProps StdListProps KeyboardProps UserProcProps PciProps AcpiProps RtlProps ShellProps HeapRoom BootProps BootModules BootExamples
    Slist StdMap Vector CountedPtr AtaDrive
begin

text \<open>
  A model of Akari, a micro-kernel for 32-bit PCs with its user library, drivers, services and shell, and what is
  proved of it. The kernel (\<^verbatim>\<open>src/*.cpp\<close>) keeps tasks, memory, streams and message queues; everything else
  (\<^verbatim>\<open>src/packages\<close>) is a process that talks to the others by messages and streams, through the calls of the user
  library (\<^verbatim>\<open>src/user\<close>). A file is read through five parts: user library, file-system server, FAT driver, disk
  driver and drive.

  Conventions. Machine integers are words of their width. A routine that can fail returns a sum: \<open>Inl\<close> the failure
  (kernel panic, failed \<^verbatim>\<open>ASSERT\<close>, panic of a process, null pointer, access out of bounds, endless loop), \<open>Inr\<close> the
  result; \<open>rbind\<close> sequences them. State is passed explicitly, in records with the fields of the classes. What an
  allocation holds before it is written is a parameter, as is what ports and registers answer.

  The theories, with the sources they model; \<^emph>\<open>Props\<close> and \<^emph>\<open>Examples\<close> theories hold the proofs about the theory they
  are named after.

  \<^item> \<open>Prelude\<close>: words, failures, facts on words and lists. \<open>Containers\<close>: \<^verbatim>\<open>inc/map\<close> as an association list, the
    locale \<open>assoc_map\<close>, chains of pointers.
  \<^item> \<open>OrderedArray\<close>, \<open>Heap\<close>, \<open>HeapInv\<close>, \<open>HeapProps\<close>, \<open>HeapAligned\<close>, \<open>HeapExamples\<close>: \<^verbatim>\<open>inc/OrderedArray.hpp\<close> with the
    locales \<open>indexed_store\<close> and \<open>sorted_store\<close>, and \<^verbatim>\<open>Heap.cpp\<close>. The index tiles the region; allocation, aligned
    allocation and release keep that and change exactly one block.
  \<^item> \<open>KernelState\<close>, \<open>Streams\<close>, \<open>Timer\<close>, \<open>Tasks\<close>, \<open>UserCalls\<close>, \<open>UserIPC\<close> with \<open>TaskProps\<close>, \<open>ExitProps\<close>, \<open>IPCProps\<close>,
    \<open>KernelExamples\<close>: \<^verbatim>\<open>inc/Tasks.hpp\<close>, \<^verbatim>\<open>Tasks.cpp\<close>, \<^verbatim>\<open>Timer.cpp\<close>, \<^verbatim>\<open>BlockingCall.cpp\<close>, \<^verbatim>\<open>UserCalls.cpp\<close>,
    \<^verbatim>\<open>UserPrivs.cpp\<close>, \<^verbatim>\<open>UserIPC.cpp\<close>, \<^verbatim>\<open>UserIPCQueue.cpp\<close>, the interrupt handlers of \<^verbatim>\<open>entry.cpp\<close>,
    \<^verbatim>\<open>interrupts.cpp\<close> and \<^verbatim>\<open>Descriptor.cpp\<close>: choice of the next task, exit, names, queues, streams, wake-ups.
  \<^item> \<open>Memory\<close>, \<open>MemoryProps\<close>: \<^verbatim>\<open>Memory.cpp\<close>, frames and page tables. \<open>Wire\<close>: structures as bytes. \<open>Machine\<close>: kernel,
    memory and physical frames together, creation of a task. \<open>Loader\<close>, \<open>LoaderProps\<close>, \<open>LoaderExamples\<close>: \<^verbatim>\<open>ELF.cpp\<close> and
    the calls of \<^verbatim>\<open>UserProcess.cpp\<close>.
  \<^item> \<open>Dispatch\<close>, \<open>Reach\<close>, \<open>DispatchExamples\<close>: \<^verbatim>\<open>Syscall.cpp\<close> and the kernel as a state machine, with an invariant over
    every sequence of system calls, ticks, interrupts and exceptions. \<open>Gates\<close>: \<^verbatim>\<open>inc/UserGates.hpp\<close> and the functions for
    programs in the headers of the calls; each reaches its kernel function with its arguments.
  \<^item> \<open>HeapRoom\<close>, \<open>Resources\<close>, \<open>CreateProps\<close>: what the creation of a task takes (49151 bytes and 10 places of
    the index of the kernel heap, 772 frames), and that it succeeds when there is as much. \<open>Boot\<close>, \<open>BootProps\<close>,
    \<open>BootModules\<close>, \<open>BootReady\<close>, \<open>BootExamples\<close>: \<open>AkariEntry\<close> and \<open>AkariEntryCont\<close> of \<^verbatim>\<open>entry.cpp\<close> and \<^verbatim>\<open>Akari.cpp\<close>: the
    modules are taken over unchanged, and from a kernel with 286716 bytes, 58 places and 3863 frames boot makes its six tasks.
  \<^item> \<open>CoreDump\<close>, \<open>CoreDumpProps\<close>, \<open>CoreDumpExamples\<close>: \<open>dumpELFCore\<close> of \<^verbatim>\<open>Tasks.cpp\<close>; the core holds the memory of the
    process. \<open>Debugger\<close>, \<open>DebuggerProps\<close>: \<^verbatim>\<open>Debugger.cpp\<close> and its protocol.
  \<^item> \<open>Strings\<close>, \<open>StdString\<close>, \<open>Printf\<close>: \<^verbatim>\<open>string.cpp\<close>, the C functions, the class and \<open>vasprintf\<close>. \<open>StdList\<close>,
    \<open>StdListProps\<close>: \<^verbatim>\<open>inc/list\<close> on an explicit store of nodes, against sequences. \<open>StdMap\<close>: \<^verbatim>\<open>inc/map\<close> on the nodes of
    that list, against finite maps. \<open>Slist\<close>: \<^verbatim>\<open>inc/slist\<close> and \<^verbatim>\<open>inc/algorithm\<close>. \<open>Vector\<close>: \<^verbatim>\<open>inc/vector\<close> as blocks of
    cells. Both lists and the map are instances of the locale \<open>sequence_container\<close>. \<open>CountedPtr\<close>: \<^verbatim>\<open>inc/counted_ptr\<close>.
  \<^item> \<open>Console\<close>, \<open>ConsoleProps\<close>: \<^verbatim>\<open>Console.cpp\<close>, against an unbounded page. \<open>Descriptors\<close>: the tables of
    \<^verbatim>\<open>Descriptor.cpp\<close>.
  \<^item> \<open>Ata\<close>, \<open>AtaProps\<close>: \<^verbatim>\<open>packages/ata/main.cpp\<close> against a flat drive. \<open>Mindrvr\<close>: \<^verbatim>\<open>packages/ata/mindrvr.cpp\<close>, whose
    ports, clock and interrupts are functions on a state of the hardware. \<open>MindrvrProps\<close>: what a drive promises, as a predicate
    on any hardware, and the PIO commands with such a drive; \<open>AtaDrive\<close>: the disk driver on top of them, and the
    descriptors of a DMA transfer, which cover the buffer.
  \<^item> \<open>Fat\<close>, \<open>FatProps\<close>, \<open>FatDirs\<close>:
    \<^verbatim>\<open>packages/fat/main.cpp\<close>. \<open>VfsProto\<close>, \<open>Vfs\<close>: \<^verbatim>\<open>packages/vfs\<close>. \<open>UserFS\<close>, \<open>FileService\<close>: \<^verbatim>\<open>user/fs.cpp\<close> over the
    locale \<open>file_server\<close>, which \<open>FileStack\<close> interprets with the four models below the library.
  \<^item> \<open>UserProc\<close>, \<open>UserProcProps\<close>: \<^verbatim>\<open>user/proc.cpp\<close>, \<^verbatim>\<open>user/time.cpp\<close>, \<^verbatim>\<open>user/cpp.cpp\<close>, \<^verbatim>\<open>packages/init\<close>.
    \<open>Keyboard\<close>, \<open>KeyboardProps\<close>: \<^verbatim>\<open>packages/keyboard\<close> and \<open>getline\<close>. \<open>Pci\<close>, \<open>PciProps\<close>: \<^verbatim>\<open>packages/pci\<close>,
    \<^verbatim>\<open>packages/piix3\<close>, \<^verbatim>\<open>packages/rtl8139/main.cpp\<close>. \<open>Acpi\<close>, \<open>AcpiProps\<close>: \<^verbatim>\<open>packages/acpi\<close>,
    \<^verbatim>\<open>packages/shutdown\<close>. \<open>Rtl\<close>, \<open>RtlProps\<close>: \<^verbatim>\<open>packages/rtl8139/rtl.cpp\<close>. \<open>Shell\<close>, \<open>ShellProps\<close>:
    \<^verbatim>\<open>packages/sh\<close>.

  Bounds of loops. Loops over the task list take \<open>k_count\<close> steps, more than a list without repetition has; the choice
  of the next task one more. A number is printed with at most 33 digits. Mapping low memory takes at most \<open>2^20\<close> pages
  and \<open>mapPhysicalMem\<close> \<open>2^20 + 1\<close>, after which the addresses repeat; a string in user memory is searched for \<open>2^32\<close>
  bytes, an argument list for \<open>2^30\<close> entries. A cluster chain is followed for \<open>2^28\<close> clusters, after which it
  repeats (also where the size of a cluster is 0). The loops of MINDRVR have the fuel of the caller, of
  which the properties need more than there are sectors and more than the looks for which the drive stays busy. The loops over the lists of \<^verbatim>\<open>inc/list\<close> take as many steps as there were operations; the search for ACPI
  tables 8192; waiting for a device has the fuel of the caller, as the device decides how long it takes.

  Two views of memory. System calls read and write the user memory of a page directory (\<open>k_mem\<close>); loader, core dump and
  debugger work on physical frames behind page tables (\<open>mc_frame\<close>). The model does not connect them: a step of a
  process may change both freely.

  Not modelled: the assembly (\<^verbatim>\<open>interrupts.s\<close>, \<^verbatim>\<open>preboot.s\<close>, \<open>SwitchRing\<close>), for which the entry points of the
  handlers stand; the packet commands of MINDRVR, which nobody calls; \<^verbatim>\<open>Symbol.cpp\<close>, the screen of \<^verbatim>\<open>debug.cpp\<close>, \<open>ps\<close>
  and the printing of diagnostics; page faults of a program on an address it has not mapped (the tables that \<open>Acpi\<close>
  reads and the addresses a debugger asks for are taken as mapped; \<open>acpiInit\<close> returns the pages that the program maps);
  the template package, build files, tools and tests.
\<close>

end
